(* ===== verification/Prelude.thy ===== *)
theory Prelude
  imports Main "HOL-Library.Char_ord" "HOL-Library.List_Lexorder"
begin

text \<open>
  The vocabulary every component shares: the type names of the protocol (\<^verbatim>\<open>packages/types/src/primitives.ts\<close>),
  the results of code that may throw, hexadecimal text, decimal text, the JavaScript array operations
  the source uses (\<^verbatim>\<open>find\<close>, \<^verbatim>\<open>findIndex\<close>, \<^verbatim>\<open>slice\<close>, a keyed directory) and the collections of
  facts the component theories add to.

  A JavaScript string is a HOL \<open>string\<close>: a list of code units below 256. Keys, hashes and identifiers
  are strings of lowercase hexadecimal characters, as in the source.
\<close>

section \<open>Names of the protocol's types\<close>

type_synonym persona_id = string
type_synonym sha256_hex = string
type_synonym signature_hex = string

text \<open>Code that may throw returns a sum: \<open>Inl\<close> the error, \<open>Inr\<close> the value.\<close>

type_synonym ('e, 'a) result = "'e + 'a"

definition bind_result :: "('e, 'a) result \<Rightarrow> ('a \<Rightarrow> ('e, 'b) result) \<Rightarrow> ('e, 'b) result" where
  "bind_result r f = (case r of Inl e \<Rightarrow> Inl e | Inr x \<Rightarrow> f x)"

lemma bind_result_simps [simp]:
  "bind_result (Inl e) f = Inl e"
  "bind_result (Inr x) f = f x"
  by (simp_all add: bind_result_def)

lemma bind_result_Inr_iff: "bind_result r f = Inr y \<longleftrightarrow> (\<exists>x. r = Inr x \<and> f x = Inr y)"
  by (cases r) simp_all

lemma map_sum_Inr_iff: "map_sum id f r = Inr y \<longleftrightarrow> (\<exists>x. r = Inr x \<and> y = f x)"
  by (cases r) auto

section \<open>Collections of facts\<close>

text \<open>
  \<open>chain_simps\<close> rewrites one transition of an assertion chain, \<open>vault_simps\<close> reads a vault after a
  write, \<open>lookup_simps\<close> a keyed store after an update.
\<close>

named_theorems chain_simps
named_theorems vault_simps
named_theorems lookup_simps

section \<open>Characters and hexadecimal text\<close>

definition is_digit :: "char \<Rightarrow> bool" where
  "is_digit c \<longleftrightarrow> CHR ''0'' \<le> c \<and> c \<le> CHR ''9''"

definition digit_value :: "char \<Rightarrow> int" where
  "digit_value c = int (of_char c - 48)"

definition is_lower_hex :: "char \<Rightarrow> bool" where
  "is_lower_hex c \<longleftrightarrow> is_digit c \<or> (CHR ''a'' \<le> c \<and> c \<le> CHR ''f'')"

text \<open>The regular expression \<^verbatim>\<open>/^[0-9a-f]{64}$/\<close>.\<close>

definition hex64 :: "string \<Rightarrow> bool" where
  "hex64 s \<longleftrightarrow> length s = 64 \<and> list_all is_lower_hex s"

lemma hex64_length: "hex64 s \<Longrightarrow> length s = 64"
  by (simp add: hex64_def)

text \<open>Decimal numbers, as \<^verbatim>\<open>Number(...)\<close> reads a string of digits.\<close>

definition decimal_value :: "string \<Rightarrow> int" where
  "decimal_value s = foldl (\<lambda>n c. 10 * n + digit_value c) 0 s"

lemma digit_value_nonneg: "0 \<le> digit_value c"
  by (simp add: digit_value_def)

lemma decimal_fold_nonneg: "0 \<le> n \<Longrightarrow> 0 \<le> foldl (\<lambda>n c. 10 * n + digit_value c) n s"
  by (induction s arbitrary: n) (simp_all add: digit_value_nonneg)

lemma decimal_value_nonneg: "0 \<le> decimal_value s"
  by (simp add: decimal_value_def decimal_fold_nonneg)

section \<open>Array operations\<close>

text \<open>\<^verbatim>\<open>xs.findIndex(p)\<close>, with \<open>None\<close> for -1.\<close>

fun find_index :: "('a \<Rightarrow> bool) \<Rightarrow> 'a list \<Rightarrow> nat option" where
  "find_index p [] = None"
| "find_index p (x # xs) = (if p x then Some 0 else map_option Suc (find_index p xs))"

text \<open>\<^verbatim>\<open>xs.at(-1)\<close> and \<^verbatim>\<open>xs[xs.length - 1]\<close>: undefined on the empty array.\<close>

definition last_opt :: "'a list \<Rightarrow> 'a option" where
  "last_opt xs = (if xs = [] then None else Some (last xs))"

definition hd_opt :: "'a list \<Rightarrow> 'a option" where
  "hd_opt xs = (case xs of [] \<Rightarrow> None | x # _ \<Rightarrow> Some x)"

lemma last_opt_snoc [simp]: "last_opt (xs @ [x]) = Some x"
  by (simp add: last_opt_def)

lemma hd_opt_simps [simp]: "hd_opt [] = None" "hd_opt (x # xs) = Some x"
  by (simp_all add: hd_opt_def)

lemma find_index_None_iff: "find_index p xs = None \<longleftrightarrow> (\<forall>x \<in> set xs. \<not> p x)"
  by (induction xs) auto

lemma find_index_Some:
  "find_index p xs = Some i \<Longrightarrow> i < length xs \<and> p (xs ! i) \<and> (\<forall>j < i. \<not> p (xs ! j))"
proof (induction xs arbitrary: i)
  case Nil
  then show ?case by simp
next
  case (Cons x xs)
  show ?case
  proof (cases "p x")
    case True
    with Cons.prems show ?thesis by auto
  next
    case False
    with Cons.prems obtain k where k: "find_index p xs = Some k" "i = Suc k" by auto
    with Cons.IH [OF k(1)] False show ?thesis by (auto simp: less_Suc_eq_0_disj)
  qed
qed

lemma set_map_filter: "set (List.map_filter f xs) = {y. \<exists>x \<in> set xs. f x = Some y}"
  by (induction xs) (auto split: option.splits)

section \<open>Maps in insertion order\<close>

text \<open>
  A JavaScript \<^verbatim>\<open>Map\<close>, and an object literal with a member replaced by a spread: an existing key keeps
  its place and takes the new value, a new key goes last.
\<close>

fun map_set :: "'k \<Rightarrow> 'v \<Rightarrow> ('k \<times> 'v) list \<Rightarrow> ('k \<times> 'v) list" where
  "map_set k v [] = [(k, v)]"
| "map_set k v ((k', v') # m) = (if k' = k then (k, v) # m else (k', v') # map_set k v m)"

lemma map_of_map_set [lookup_simps]: "map_of (map_set k v m) = (map_of m)(k \<mapsto> v)"
  by (induction k v m rule: map_set.induct) auto

lemma fst_set_map_set: "fst ` set (map_set k v m) = insert k (fst ` set m)"
  by (induction k v m rule: map_set.induct) auto

lemma distinct_map_set: "distinct (map fst m) \<Longrightarrow> distinct (map fst (map_set k v m))"
proof (induction k v m rule: map_set.induct)
  case (1 k v)
  then show ?case by simp
next
  case (2 k v k' v' m)
  then show ?case using fst_set_map_set [of k v m] by auto
qed

section \<open>Keyed directories\<close>

text \<open>
  A directory of files named by an identifier, as the vault keeps one per kind of record: writing a
  name that exists replaces the file, writing a new one adds it, and a listing is sorted by name
  (\<^verbatim>\<open>listFiles\<close> and \<^verbatim>\<open>listDirs\<close> of \<^verbatim>\<open>packages/vault/src/store.ts\<close> sort what they return). It is a list of
  name-content pairs kept sorted by name.
\<close>

type_synonym 'a dir = "(string \<times> 'a) list"

definition dir_get :: "'a dir \<Rightarrow> string \<Rightarrow> 'a option" where
  "dir_get d k = map_of d k"

fun dir_put :: "string \<Rightarrow> 'a \<Rightarrow> 'a dir \<Rightarrow> 'a dir" where
  "dir_put k v [] = [(k, v)]"
| "dir_put k v ((k', v') # d) =
     (if k = k' then (k, v) # d
      else if k < k' then (k, v) # (k', v') # d
      else (k', v') # dir_put k v d)"

fun dir_del :: "string \<Rightarrow> 'a dir \<Rightarrow> 'a dir" where
  "dir_del k [] = []"
| "dir_del k ((k', v') # d) = (if k = k' then d else (k', v') # dir_del k d)"

definition dir_names :: "'a dir \<Rightarrow> string list" where
  "dir_names d = map fst d"

definition dir_ok :: "'a dir \<Rightarrow> bool" where
  "dir_ok d \<longleftrightarrow> sorted_wrt (<) (dir_names d)"

lemma dir_get_empty [lookup_simps, simp]: "dir_get [] k = None"
  by (simp add: dir_get_def)

lemma dir_get_put [lookup_simps, simp]: "dir_get (dir_put k v d) k' = (if k' = k then Some v else dir_get d k')"
  by (induction k v d rule: dir_put.induct) (auto simp: dir_get_def)

lemma set_dir_put: "fst ` set (dir_put k v d) = insert k (fst ` set d)"
  by (induction k v d rule: dir_put.induct) auto

lemma dir_ok_empty [simp]: "dir_ok []"
  by (simp add: dir_ok_def dir_names_def)

lemma dir_ok_Cons:
  "dir_ok ((k, v) # d) \<longleftrightarrow> (\<forall>k' \<in> fst ` set d. k < k') \<and> dir_ok d"
  by (auto simp: dir_ok_def dir_names_def)

lemma dir_ok_put [simp]: "dir_ok d \<Longrightarrow> dir_ok (dir_put k v d)"
  by (induction k v d rule: dir_put.induct) (auto simp: dir_ok_Cons set_dir_put)

lemma set_dir_del: "dir_ok d \<Longrightarrow> fst ` set (dir_del k d) = fst ` set d - {k}"
  by (induction k d rule: dir_del.induct) (auto simp: dir_ok_Cons)

lemma dir_ok_del [simp]: "dir_ok d \<Longrightarrow> dir_ok (dir_del k d)"
  by (induction k d rule: dir_del.induct) (auto simp: dir_ok_Cons set_dir_del)

lemma dir_get_None_iff: "dir_get d k = None \<longleftrightarrow> k \<notin> fst ` set d"
  by (simp add: dir_get_def map_of_eq_None_iff)

lemma dir_get_del [lookup_simps]: "dir_ok d \<Longrightarrow> dir_get (dir_del k d) k' = (if k' = k then None else dir_get d k')"
proof (induction k d rule: dir_del.induct)
  case (1 k)
  then show ?case by simp
next
  case (2 k k1 v1 d)
  then have IH: "k \<noteq> k1 \<Longrightarrow> dir_get (dir_del k d) k' = (if k' = k then None else dir_get d k')"
    and fresh: "k1 \<notin> fst ` set d"
    by (auto simp: dir_ok_Cons)
  show ?case
  proof (cases "k = k1")
    case True
    with fresh show ?thesis by (auto simp: dir_get_def map_of_eq_None_iff)
  next
    case False
    with IH [OF False] show ?thesis by (auto simp: dir_get_def)
  qed
qed

lemma distinct_dir_names: "dir_ok d \<Longrightarrow> distinct (dir_names d)"
  by (simp add: dir_ok_def strict_sorted_iff)

lemma dir_get_Some_iff: "dir_ok d \<Longrightarrow> dir_get d k = Some v \<longleftrightarrow> (k, v) \<in> set d"
  by (simp add: dir_get_def distinct_dir_names [unfolded dir_names_def])

text \<open>The interface a client of a keyed store relies on, and its instance for a directory.\<close>

locale keyed_store =
  fixes get :: "'s \<Rightarrow> 'k \<Rightarrow> 'v option"
    and put :: "'k \<Rightarrow> 'v \<Rightarrow> 's \<Rightarrow> 's"
    and del :: "'k \<Rightarrow> 's \<Rightarrow> 's"
    and ok :: "'s \<Rightarrow> bool"
  assumes get_put: "get (put k v s) k' = (if k' = k then Some v else get s k')"
    and get_del: "ok s \<Longrightarrow> get (del k s) k' = (if k' = k then None else get s k')"
    and ok_put: "ok s \<Longrightarrow> ok (put k v s)"
    and ok_del: "ok s \<Longrightarrow> ok (del k s)"
begin

lemma get_put_same: "get (put k v s) k = Some v"
  by (simp add: get_put)

lemma get_put_other: "k' \<noteq> k \<Longrightarrow> get (put k v s) k' = get s k'"
  by (simp add: get_put)

lemma put_put: "get (put k w (put k v s)) k' = get (put k w s) k'"
  by (simp add: get_put)

lemma dom_put: "dom (get (put k v s)) = insert k (dom (get s))"
  by (auto simp: dom_def get_put)

lemma dom_del: "ok s \<Longrightarrow> dom (get (del k s)) = dom (get s) - {k}"
  by (auto simp: dom_def get_del)

lemma put_all:
  assumes "\<forall>k v. get s k = Some v \<longrightarrow> P k v" and "P k v"
  shows "\<forall>k' v'. get (put k v s) k' = Some v' \<longrightarrow> P k' v'"
  using assms by (simp add: get_put)

lemma del_all:
  assumes "ok s" and "\<forall>k v. get s k = Some v \<longrightarrow> P k v"
  shows "\<forall>k' v'. get (del k s) k' = Some v' \<longrightarrow> P k' v'"
  using assms by (simp add: get_del)

end

interpretation dirs: keyed_store dir_get dir_put dir_del dir_ok
  by unfold_locales (simp_all add: dir_get_del)

end
