(* ===== verification/Crypto.thy ===== *)
theory Crypto
  imports Prelude "HOL-Library.Word" "HOL-Library.Multiset"
begin

unbundle bit_operations_syntax

text \<open>
  \<^verbatim>\<open>packages/crypto/src\<close>: hexadecimal codecs (\<^verbatim>\<open>hash.ts\<close>), RFC 8785 canonicalization (\<^verbatim>\<open>jcs.ts\<close>), the
  signing preimage and signature checks (\<^verbatim>\<open>sign.ts\<close>), and the domain-tagged identifiers
  (\<^verbatim>\<open>identity-hash.ts\<close>). SHA-256 and Ed25519 are third-party code: the record \<open>crypto_lib\<close> carries them
  as parameters. A JSON number is an integer here (no object the protocol signs holds another kind
  but \<^verbatim>\<open>confidence\<close>, which no preimage includes).
\<close>

section \<open>Octets and hexadecimal\<close>

type_synonym octet = "8 word"
type_synonym octets = "octet list"

definition hex_digit :: "nat \<Rightarrow> char" where
  "hex_digit n = ''0123456789abcdef'' ! n"

definition byte_hex :: "octet \<Rightarrow> string" where
  "byte_hex b = [hex_digit (unat b div 16), hex_digit (unat b mod 16)]"

definition to_hex :: "octets \<Rightarrow> string" where
  "to_hex bs = concat (map byte_hex bs)"

text \<open>One character of \<^verbatim>\<open>/^[0-9a-fA-F]{2}$/\<close> and its value.\<close>

definition hex_value :: "char \<Rightarrow> nat option" where
  "hex_value c =
     (if is_digit c then Some (of_char c - 48)
      else if CHR ''a'' \<le> c \<and> c \<le> CHR ''f'' then Some (of_char c - 87)
      else if CHR ''A'' \<le> c \<and> c \<le> CHR ''F'' then Some (of_char c - 55)
      else None)"

text \<open>\<^verbatim>\<open>fromHex\<close>: \<open>None\<close> is the \<^verbatim>\<open>TypeError\<close> for an odd length or a character that is no hex digit.\<close>

fun from_hex :: "string \<Rightarrow> octets option" where
  "from_hex [] = Some []"
| "from_hex [c] = None"
| "from_hex (c # d # s) =
     (case (hex_value c, hex_value d) of
        (Some h, Some l) \<Rightarrow> map_option ((#) (of_nat (16 * h + l))) (from_hex s)
      | _ \<Rightarrow> None)"

lemma hex_value_digit: "n < 16 \<Longrightarrow> hex_value (hex_digit n) = Some n"
proof -
  have "\<forall>n \<in> set [0..<16]. hex_value (hex_digit n) = Some n"
    by code_simp
  then show "n < 16 \<Longrightarrow> hex_value (hex_digit n) = Some n" by simp
qed

lemma unat_octet: "unat (b :: octet) < 256"
  using unsigned_less [of b] by simp

lemma from_hex_to_hex: "from_hex (to_hex bs) = Some bs"
proof (induction bs)
  case Nil
  then show ?case by (simp add: to_hex_def)
next
  case (Cons b bs)
  have whole: "(of_nat (16 * (unat b div 16) + unat b mod 16) :: octet) = b" by simp
  define h l where "h = unat b div 16" and "l = unat b mod 16"
  have small: "h < 16" "l < 16" using unat_octet [of b] by (simp_all add: h_def l_def)
  have byte: "(of_nat (16 * h + l) :: octet) = b"
    unfolding h_def l_def by (rule whole)
  have "from_hex (hex_digit h # hex_digit l # to_hex bs) = Some (b # bs)"
    unfolding from_hex.simps hex_value_digit [OF small(1)] hex_value_digit [OF small(2)]
      Cons.IH prod.case option.case byte by (rule option.map(2))
  then show ?case by (simp add: to_hex_def byte_hex_def h_def l_def)
qed

lemma to_hex_inject: "to_hex a = to_hex b \<longleftrightarrow> a = b"
  by (metis from_hex_to_hex option.inject)

lemma length_to_hex: "length (to_hex bs) = 2 * length bs"
  by (induction bs) (simp_all add: to_hex_def byte_hex_def)

lemma hex_digit_lower: "n < 16 \<Longrightarrow> is_lower_hex (hex_digit n)"
proof -
  have "\<forall>n \<in> set [0..<16]. is_lower_hex (hex_digit n)"
    by code_simp
  then show "n < 16 \<Longrightarrow> is_lower_hex (hex_digit n)" by simp
qed

lemma hex64_to_hex: "length bs = 32 \<Longrightarrow> hex64 (to_hex bs)"
proof -
  have "list_all is_lower_hex (to_hex bs)"
  proof (induction bs)
    case Nil
    then show ?case by (simp add: to_hex_def)
  next
    case (Cons b bs)
    have "unat b div 16 < 16" using unat_octet [of b] by simp
    with Cons.IH show ?case by (simp add: to_hex_def byte_hex_def hex_digit_lower)
  qed
  then show "length bs = 32 \<Longrightarrow> hex64 (to_hex bs)"
    by (simp add: hex64_def length_to_hex)
qed

text \<open>\<^verbatim>\<open>TextEncoder\<close>: the UTF-8 octets of a string of code units below 256.\<close>

definition utf8_char :: "char \<Rightarrow> octets" where
  "utf8_char c =
     (let n = of_char c :: nat
      in if n < 128 then [of_nat n] else [of_nat (192 + n div 64), of_nat (128 + n mod 64)])"

definition utf8 :: "string \<Rightarrow> octets" where
  "utf8 s = concat (map utf8_char s)"

lemma utf8_char_append_inject:
  "utf8_char c @ xs = utf8_char d @ ys \<longleftrightarrow> c = d \<and> xs = ys"
proof -
  define m n :: nat where "m = of_char c" and "n = of_char d"
  have b: "m < 256" "n < 256"
    by (simp_all add: m_def n_def)
  have eq: "c = d \<longleftrightarrow> m = n" by (simp add: m_def n_def)
  have w: "(of_nat i :: octet) = of_nat j \<longleftrightarrow> i = j" if "i < 256" "j < 256" for i j
    using that by (simp add: word_of_nat_eq_iff take_bit_eq_mod)
  have q: "m div 64 < 4" "n div 64 < 4" "m mod 64 < 64" "n mod 64 < 64" using b by simp_all
  have split: "m = n \<longleftrightarrow> m div 64 = n div 64 \<and> m mod 64 = n mod 64"
    by (metis div_mult_mod_eq)
  have same: "m = n" if "m div 64 = n div 64" "m mod 64 = n mod 64"
    using that split by simp
  show ?thesis
    using b q unfolding utf8_char_def Let_def m_def [symmetric] n_def [symmetric] eq
    by (auto simp: w split simp del: of_nat_add dest: same)
qed

lemma utf8_inject: "utf8 s = utf8 t \<longleftrightarrow> s = t"
proof (induction s arbitrary: t)
  case Nil
  then show ?case by (cases t) (auto simp: utf8_def utf8_char_def Let_def)
next
  case (Cons c s)
  show ?case
  proof (cases t)
    case Nil
    then show ?thesis by (auto simp: utf8_def utf8_char_def Let_def)
  next
    case (Cons d u)
    then show ?thesis using Cons.IH [of u]
      by (simp add: utf8_def utf8_char_append_inject)
  qed
qed

section \<open>RFC 8785 canonicalization\<close>

datatype json =
    JNull
  | JBool bool
  | JNum int
  | JStr string
  | JArr "json list"
  | JObj "(string \<times> json) list"

type_synonym json_members = "(string \<times> json) list"

definition json_opt :: "string option \<Rightarrow> json" where
  "json_opt x = (case x of None \<Rightarrow> JNull | Some s \<Rightarrow> JStr s)"

lemma json_opt_inject [simp]: "json_opt x = json_opt y \<longleftrightarrow> x = y"
  by (simp add: json_opt_def split: option.splits)

fun decimal_digits :: "nat \<Rightarrow> string" where
  "decimal_digits n =
     (if n < 10 then [hex_digit n] else decimal_digits (n div 10) @ [hex_digit (n mod 10)])"

text \<open>
  A number of the protocol is a safe integer (absolute value below \<open>2 ^ 53\<close>): every double in that range with no fraction
  is one integer, and \<^verbatim>\<open>JSON.stringify\<close> writes its decimal digits, \<open>-0\<close> as \<open>0\<close>. A \<open>JNum\<close> outside that range stands for
  no value of the source, where larger doubles collapse and are written with an exponent from \<open>10 ^ 21\<close> on.
\<close>

definition serialize_number :: "int \<Rightarrow> string" where
  "serialize_number n = (if n < 0 then CHR ''-'' # decimal_digits (nat (- n)) else decimal_digits (nat n))"

text \<open>JSON string escaping with the short forms for control characters, as \<^verbatim>\<open>JSON.stringify\<close> emits.\<close>

definition escape_char :: "char \<Rightarrow> string" where
  "escape_char c =
     (let n = of_char c :: nat
      in if n = 34 then [CHR 92, CHR 34]
         else if n = 92 then [CHR 92, CHR 92]
         else if n = 8 then CHR 92 # ''b''
         else if n = 9 then CHR 92 # ''t''
         else if n = 10 then CHR 92 # ''n''
         else if n = 12 then CHR 92 # ''f''
         else if n = 13 then CHR 92 # ''r''
         else if n < 32 then CHR 92 # ''u00'' @ [hex_digit (n div 16), hex_digit (n mod 16)]
         else [c])"

definition serialize_string :: "string \<Rightarrow> string" where
  "serialize_string s = CHR 34 # concat (map escape_char s) @ [CHR 34]"

definition max_canonicalization_depth :: nat where
  "max_canonicalization_depth = 256"

fun join_with :: "string \<Rightarrow> string list \<Rightarrow> string" where
  "join_with sep [] = []"
| "join_with sep [x] = x"
| "join_with sep (x # xs) = x @ sep @ join_with sep xs"

definition write_object :: "(string \<times> string) list \<Rightarrow> string" where
  "write_object ts =
     ''{'' @ join_with '','' (map (\<lambda>(k, t). serialize_string k @ '':'' @ t) (sort_key fst ts)) @ ''}''"

text \<open>
  \<^verbatim>\<open>write\<close>: \<open>None\<close> is the \<^verbatim>\<open>JcsDepthExceeded\<close> error. Every member is written and the members are put in
  the order of their names; an object has each name once, so the order of the source's list is lost.
\<close>

fun write_json :: "nat \<Rightarrow> json \<Rightarrow> string option"
  and write_elements :: "nat \<Rightarrow> json list \<Rightarrow> string list option"
  and write_members :: "nat \<Rightarrow> json_members \<Rightarrow> (string \<times> string) list option" where
  "write_json depth v =
     (if max_canonicalization_depth < depth then None
      else case v of
        JNull \<Rightarrow> Some ''null''
      | JBool b \<Rightarrow> Some (if b then ''true'' else ''false'')
      | JNum n \<Rightarrow> Some (serialize_number n)
      | JStr s \<Rightarrow> Some (serialize_string s)
      | JArr vs \<Rightarrow> map_option (\<lambda>ts. ''['' @ join_with '','' ts @ '']'') (write_elements (depth + 1) vs)
      | JObj ms \<Rightarrow> map_option write_object (write_members (depth + 1) ms))"
| "write_elements depth [] = Some []"
| "write_elements depth (v # vs) =
     (case (write_json depth v, write_elements depth vs) of
        (Some t, Some ts) \<Rightarrow> Some (t # ts) | _ \<Rightarrow> None)"
| "write_members depth [] = Some []"
| "write_members depth ((k, v) # ms) =
     (case (write_json depth v, write_members depth ms) of
        (Some t, Some ts) \<Rightarrow> Some ((k, t) # ts) | _ \<Rightarrow> None)"

definition canonicalize :: "json \<Rightarrow> string option" where
  "canonicalize v = write_json 0 v"

definition canonical_bytes :: "json \<Rightarrow> octets option" where
  "canonical_bytes v = map_option utf8 (canonicalize v)"

section \<open>The third-party library\<close>

text \<open>
  \<^verbatim>\<open>@noble/hashes\<close> and \<^verbatim>\<open>@noble/curves\<close>: SHA-256, and Ed25519 sign, verify and public key. A call the
  library may refuse (a key of a wrong length) returns \<open>None\<close>.
\<close>

record crypto_lib =
  lib_sha256 :: "octets \<Rightarrow> octets"
  lib_ed_sign :: "octets \<Rightarrow> octets \<Rightarrow> octets option"
  lib_ed_verify :: "octets \<Rightarrow> octets \<Rightarrow> octets \<Rightarrow> bool option"
  lib_ed_public :: "octets \<Rightarrow> octets option"

definition sha256_hex :: "crypto_lib \<Rightarrow> octets \<Rightarrow> sha256_hex" where
  "sha256_hex cl bs = to_hex (lib_sha256 cl bs)"

definition hash_canonical :: "crypto_lib \<Rightarrow> json \<Rightarrow> sha256_hex option" where
  "hash_canonical cl v = map_option (sha256_hex cl) (canonical_bytes v)"

section \<open>Signatures\<close>

definition starts_with :: "string \<Rightarrow> string \<Rightarrow> bool" where
  "starts_with p s \<longleftrightarrow> take (length p) s = p"

text \<open>
  \<^verbatim>\<open>unsigned\<close>: the object without \<^verbatim>\<open>sig\<close> and every \<^verbatim>\<open>sig_\<close> member, top level only. The copy is made by assignment, and
  assigning to \<^verbatim>\<open>__proto__\<close> makes no member.
\<close>

definition is_signature_key :: "string \<Rightarrow> bool" where
  "is_signature_key k \<longleftrightarrow> k = ''sig'' \<or> starts_with ''sig_'' k"

definition unsigned_object :: "json_members \<Rightarrow> json_members" where
  "unsigned_object ms = filter (\<lambda>(k, v). \<not> is_signature_key k \<and> k \<noteq> ''__proto__'') ms"

definition signing_preimage :: "crypto_lib \<Rightarrow> json_members \<Rightarrow> octets option" where
  "signing_preimage cl ms = map_option (lib_sha256 cl) (canonical_bytes (JObj (unsigned_object ms)))"

definition sign_object :: "crypto_lib \<Rightarrow> json_members \<Rightarrow> string \<Rightarrow> signature_hex option" where
  "sign_object cl ms sk =
     (case (signing_preimage cl ms, from_hex sk) of
        (Some m, Some k) \<Rightarrow> map_option to_hex (lib_ed_sign cl m k)
      | _ \<Rightarrow> None)"

definition with_signature :: "crypto_lib \<Rightarrow> json_members \<Rightarrow> string \<Rightarrow> json_members option" where
  "with_signature cl ms sk = map_option (\<lambda>s. map_set ''sig'' (JStr s) ms) (sign_object cl ms sk)"

definition verify_object :: "crypto_lib \<Rightarrow> json_members \<Rightarrow> string \<Rightarrow> bool" where
  "verify_object cl ms pub =
     (case map_of ms ''sig'' of
        Some (JStr s) \<Rightarrow>
          if length s \<noteq> 128 then False
          else (case (from_hex s, signing_preimage cl ms, from_hex pub) of
                  (Some sb, Some m, Some pk) \<Rightarrow> lib_ed_verify cl sb m pk = Some True
                | _ \<Rightarrow> False)
      | _ \<Rightarrow> False)"

definition public_key_from_private :: "crypto_lib \<Rightarrow> string \<Rightarrow> string option" where
  "public_key_from_private cl sk =
     (case from_hex sk of None \<Rightarrow> None | Some k \<Rightarrow> map_option to_hex (lib_ed_public cl k))"

section \<open>Domain-tagged identifiers\<close>

definition domain_tag :: "string \<Rightarrow> octets" where
  "domain_tag tag = utf8 tag @ [0]"

definition commitment_hash_tag :: string where "commitment_hash_tag = ''servanda/0.1:commitment_hash''"
definition edge_id_tag :: string where "edge_id_tag = ''servanda/0.1:edge_id''"
definition envelope_id_tag :: string where "envelope_id_tag = ''servanda/0.1:envelope_id''"

record commitment_hash_input =
  ch_intent :: string
  ch_owner :: string
  ch_owed_to :: "string option"
  ch_due :: "string option"
  ch_created_at :: string

definition commitment_hash_preimage :: "commitment_hash_input \<Rightarrow> json" where
  "commitment_hash_preimage c =
     JObj [(''intent'', JStr (ch_intent c)), (''owner'', JStr (ch_owner c)),
           (''owed_to'', json_opt (ch_owed_to c)), (''due'', json_opt (ch_due c)),
           (''created_at'', JStr (ch_created_at c))]"

definition commitment_hash :: "crypto_lib \<Rightarrow> commitment_hash_input \<Rightarrow> sha256_hex option" where
  "commitment_hash cl c =
     map_option (\<lambda>bs. sha256_hex cl (domain_tag commitment_hash_tag @ bs))
       (canonical_bytes (commitment_hash_preimage c))"

definition envelope_id :: "crypto_lib \<Rightarrow> json \<Rightarrow> sha256_hex option" where
  "envelope_id cl v =
     map_option (\<lambda>bs. sha256_hex cl (domain_tag envelope_id_tag @ bs)) (canonical_bytes v)"

record edge_id_input =
  ei_commitment_hash :: string
  ei_owner :: string
  ei_owed_to :: string
  ei_proposed_at :: string

definition edge_id_preimage :: "edge_id_input \<Rightarrow> octets" where
  "edge_id_preimage e =
     domain_tag edge_id_tag @ utf8 (ei_commitment_hash e) @ utf8 (ei_owner e) @ utf8 (ei_owed_to e)
       @ utf8 (ei_proposed_at e)"

text \<open>\<^verbatim>\<open>edgeId\<close>: \<open>None\<close> is the \<^verbatim>\<open>TypeError\<close> for a field that is not 64 lowercase hex characters.\<close>

definition edge_id_of :: "crypto_lib \<Rightarrow> edge_id_input \<Rightarrow> sha256_hex option" where
  "edge_id_of cl e =
     (if hex64 (ei_commitment_hash e) \<and> hex64 (ei_owner e) \<and> hex64 (ei_owed_to e)
      then Some (sha256_hex cl (edge_id_preimage e)) else None)"

section \<open>Serialized strings are self-delimiting\<close>

text \<open>Reading one escaped character back, to show that escaping loses nothing.\<close>

fun unescape_char :: "string \<Rightarrow> (char \<times> string) option" where
  "unescape_char (c # d # xs) =
     (if c \<noteq> CHR 92 then Some (c, d # xs)
      else if d = CHR 34 \<or> d = CHR 92 then Some (d, xs)
      else if d = CHR ''b'' then Some (CHR 8, xs)
      else if d = CHR ''t'' then Some (CHR 9, xs)
      else if d = CHR ''n'' then Some (CHR 10, xs)
      else if d = CHR ''f'' then Some (CHR 12, xs)
      else if d = CHR ''r'' then Some (CHR 13, xs)
      else case xs of
        _ # _ # h # l # ys \<Rightarrow>
          (case (hex_value h, hex_value l) of
             (Some a, Some b) \<Rightarrow> Some (char_of (16 * a + b), ys)
           | _ \<Rightarrow> None)
      | _ \<Rightarrow> None)"
| "unescape_char [c] = Some (c, [])"
| "unescape_char [] = None"

lemma escape_cases:
  obtains (special) d where "escape_char c = [CHR 92, d]" "d \<noteq> CHR ''u''"
      "\<And>xs. unescape_char (CHR 92 # d # xs) = Some (c, xs)"
  | (control) h l where "escape_char c = CHR 92 # ''u00'' @ [hex_digit h, hex_digit l]"
      "h < 16" "l < 16" "c = char_of (16 * h + l)"
  | (plain) "escape_char c = [c]" "c \<noteq> CHR 92" "c \<noteq> CHR 34"
proof -
  define n :: nat where "n = of_char c"
  have c: "c = char_of n" and n: "n < 256" by (simp_all add: n_def)
  have codes: "char_of (34 :: nat) = CHR 34" "char_of (92 :: nat) = CHR 92" "char_of (8 :: nat) = CHR 8"
    "char_of (9 :: nat) = CHR 9" "char_of (10 :: nat) = CHR 10" "char_of (12 :: nat) = CHR 12"
    "char_of (13 :: nat) = CHR 13"
    by code_simp+
  consider "n = 34" | "n = 92" | "n = 8" | "n = 9" | "n = 10" | "n = 12" | "n = 13"
    | "n \<notin> {34, 92, 8, 9, 10, 12, 13}" "n < 32" | "n \<notin> {34, 92, 8, 9, 10, 12, 13}" "\<not> n < 32"
    by auto
  then show ?thesis
  proof cases
    case 1 then show ?thesis using special [of "CHR 34"] by (simp add: c codes escape_char_def)
  next
    case 2 then show ?thesis using special [of "CHR 92"] by (simp add: c codes escape_char_def)
  next
    case 3 then show ?thesis using special [of "CHR ''b''"] by (simp add: c codes escape_char_def)
  next
    case 4 then show ?thesis using special [of "CHR ''t''"] by (simp add: c codes escape_char_def)
  next
    case 5 then show ?thesis using special [of "CHR ''n''"] by (simp add: c codes escape_char_def)
  next
    case 6 then show ?thesis using special [of "CHR ''f''"] by (simp add: c codes escape_char_def)
  next
    case 7 then show ?thesis using special [of "CHR ''r''"] by (simp add: c codes escape_char_def)
  next
    case 8
    have "escape_char c = CHR 92 # ''u00'' @ [hex_digit (n div 16), hex_digit (n mod 16)]"
      using 8 by (simp add: escape_char_def n_def [symmetric])
    moreover have "c = char_of (16 * (n div 16) + n mod 16)" by (simp add: c)
    moreover have "n div 16 < 16" "n mod 16 < 16" using n by simp_all
    ultimately show ?thesis using control by blast
  next
    case 9
    have "c \<noteq> CHR 92" "c \<noteq> CHR 34" using 9 by (auto simp: n_def)
    moreover have "escape_char c = [c]"
      using 9 by (simp add: escape_char_def n_def [symmetric])
    ultimately show ?thesis using plain by simp
  qed
qed

lemma unescape_escape: "unescape_char (escape_char c @ x # xs) = Some (c, x # xs)"
proof (cases c rule: escape_cases)
  case (special d)
  then show ?thesis by simp
next
  case (control h l)
  then show ?thesis by (simp add: hex_value_digit)
next
  case plain
  then show ?thesis by simp
qed

lemma escape_char_head: "\<exists>x xs. escape_char c = x # xs \<and> x \<noteq> CHR 34"
  by (cases c rule: escape_cases) auto

definition escape_all :: "string \<Rightarrow> string" where
  "escape_all s = concat (map escape_char s)"

lemma serialize_string_escape: "serialize_string s = CHR 34 # escape_all s @ [CHR 34]"
  by (simp add: serialize_string_def escape_all_def)

lemma escape_all_closed_inject:
  "escape_all s @ CHR 34 # xs = escape_all t @ CHR 34 # ys \<longleftrightarrow> s = t \<and> xs = ys"
proof (induction s arbitrary: t)
  case Nil
  show ?case
  proof (cases t)
    case Nil
    then show ?thesis by (simp add: escape_all_def)
  next
    case (Cons d u)
    with escape_char_head [of d] show ?thesis by (auto simp: escape_all_def)
  qed
next
  case (Cons c s)
  show ?case
  proof (cases t)
    case Nil
    with escape_char_head [of c] show ?thesis by (auto simp: escape_all_def)
  next
    case t: (Cons d u)
    have shape: "\<exists>y ys. escape_all v @ CHR 34 # zs = y # ys" for v zs
      by (cases "escape_all v") auto
    obtain x1 x2 where x: "escape_all s @ CHR 34 # xs = x1 # x2" using shape by blast
    obtain y1 y2 where y: "escape_all u @ CHR 34 # ys = y1 # y2" using shape by blast
    have "escape_char c @ x1 # x2 = escape_char d @ y1 # y2 \<longleftrightarrow> c = d \<and> x1 # x2 = y1 # y2"
      by (metis option.inject prod.inject unescape_escape)
    with Cons.IH [of u] x y t show ?thesis by (simp add: escape_all_def)
  qed
qed

lemma serialize_string_append_inject:
  "serialize_string s @ xs = serialize_string t @ ys \<longleftrightarrow> s = t \<and> xs = ys"
  by (simp add: serialize_string_escape escape_all_closed_inject)

lemma serialize_string_inject: "serialize_string s = serialize_string t \<longleftrightarrow> s = t"
  using serialize_string_append_inject [of s "[]" t "[]"] by simp

text \<open>A member that is a string or null, followed by anything.\<close>

definition opt_text :: "string option \<Rightarrow> string" where
  "opt_text x = (case x of None \<Rightarrow> ''null'' | Some s \<Rightarrow> serialize_string s)"

lemma opt_text_append_inject:
  "opt_text a @ xs = opt_text b @ ys \<longleftrightarrow> a = b \<and> xs = ys"
  by (auto simp: opt_text_def serialize_string_escape escape_all_closed_inject split: option.splits)

lemma opt_text_json: "write_json (Suc 0) (json_opt x) = Some (opt_text x)"
  by (simp add: json_opt_def opt_text_def max_canonicalization_depth_def split: option.splits)

section \<open>What an identifier binds\<close>

text \<open>Two different inputs of SHA-256 with one digest.\<close>

definition sha256_collision :: "crypto_lib \<Rightarrow> octets \<Rightarrow> octets \<Rightarrow> bool" where
  "sha256_collision cl x y \<longleftrightarrow> x \<noteq> y \<and> lib_sha256 cl x = lib_sha256 cl y"

lemma sha256_hex_eq: "sha256_hex cl x = sha256_hex cl y \<Longrightarrow> x = y \<or> sha256_collision cl x y"
  by (auto simp: sha256_hex_def to_hex_inject sha256_collision_def)

lemma utf8_append: "utf8 (s @ t) = utf8 s @ utf8 t"
  by (simp add: utf8_def)

lemma edge_id_preimage_utf8:
  "edge_id_preimage e = domain_tag edge_id_tag @
     utf8 (ei_commitment_hash e @ ei_owner e @ ei_owed_to e @ ei_proposed_at e)"
  by (simp add: edge_id_preimage_def utf8_append)

lemma edge_id_preimage_inject:
  assumes "hex64 (ei_commitment_hash a)" "hex64 (ei_owner a)" "hex64 (ei_owed_to a)"
    and "hex64 (ei_commitment_hash b)" "hex64 (ei_owner b)" "hex64 (ei_owed_to b)"
    and "edge_id_preimage a = edge_id_preimage b"
  shows "a = (b :: edge_id_input)"
  using assms
  by (cases a; cases b) (simp add: edge_id_preimage_utf8 utf8_inject hex64_length)

lemma edge_id_of_inject:
  assumes "edge_id_of cl a = Some h" and "edge_id_of cl b = Some h"
  shows "a = b \<or> sha256_collision cl (edge_id_preimage a) (edge_id_preimage b)"
  using assms sha256_hex_eq [of cl "edge_id_preimage a" "edge_id_preimage b"]
  by (auto simp: edge_id_of_def dest: edge_id_preimage_inject split: if_splits)

definition commitment_hash_text :: "commitment_hash_input \<Rightarrow> string" where
  "commitment_hash_text c =
     CHR ''{'' # serialize_string ''created_at'' @ '':'' @ serialize_string (ch_created_at c) @
     '','' @ serialize_string ''due'' @ '':'' @ opt_text (ch_due c) @
     '','' @ serialize_string ''intent'' @ '':'' @ serialize_string (ch_intent c) @
     '','' @ serialize_string ''owed_to'' @ '':'' @ opt_text (ch_owed_to c) @
     '','' @ serialize_string ''owner'' @ '':'' @ serialize_string (ch_owner c) @ ''}''"

lemma sort_hashed_fields:
  "sort_key fst [(''intent'', a), (''owner'', b), (''owed_to'', c), (''due'', d), (''created_at'', e)]
   = [(''created_at'', e), (''due'', d), (''intent'', a), (''owed_to'', c), (''owner'', b :: string)]"
  by code_simp

lemma canonicalize_commitment:
  "canonicalize (commitment_hash_preimage c) = Some (commitment_hash_text c)"
proof -
  have str: "write_json (Suc 0) (JStr s) = Some (serialize_string s)" for s
    by (simp add: max_canonicalization_depth_def)
  have "write_members (Suc 0) [(''intent'', JStr (ch_intent c)), (''owner'', JStr (ch_owner c)),
        (''owed_to'', json_opt (ch_owed_to c)), (''due'', json_opt (ch_due c)),
        (''created_at'', JStr (ch_created_at c))] =
      Some [(''intent'', serialize_string (ch_intent c)), (''owner'', serialize_string (ch_owner c)),
        (''owed_to'', opt_text (ch_owed_to c)), (''due'', opt_text (ch_due c)),
        (''created_at'', serialize_string (ch_created_at c))]"
    by (simp only: write_members.simps str opt_text_json prod.case option.case)
  then show ?thesis
    by (simp add: canonicalize_def commitment_hash_preimage_def max_canonicalization_depth_def
        write_object_def sort_hashed_fields commitment_hash_text_def del: write_members.simps)
qed

lemma commitment_hash_text_inject: "commitment_hash_text a = commitment_hash_text b \<longleftrightarrow> a = b"
  by (cases a; cases b)
    (auto simp: commitment_hash_text_def serialize_string_inject serialize_string_append_inject opt_text_append_inject)

definition commitment_hash_octets :: "commitment_hash_input \<Rightarrow> octets" where
  "commitment_hash_octets c = domain_tag commitment_hash_tag @ utf8 (commitment_hash_text c)"

lemma commitment_hash_eq: "commitment_hash cl c = Some (sha256_hex cl (commitment_hash_octets c))"
  by (simp add: commitment_hash_def canonical_bytes_def canonicalize_commitment commitment_hash_octets_def)

lemma commitment_hash_inject:
  assumes "commitment_hash cl a = commitment_hash cl b"
  shows "a = b \<or> sha256_collision cl (commitment_hash_octets a) (commitment_hash_octets b)"
  using assms sha256_hex_eq [of cl "commitment_hash_octets a" "commitment_hash_octets b"]
  by (auto simp: commitment_hash_eq commitment_hash_octets_def utf8_inject commitment_hash_text_inject)

section \<open>What a signature covers\<close>

lemma unsigned_set_sig: "unsigned_object (map_set ''sig'' v ms) = unsigned_object ms"
  by (induction "''sig''" v ms rule: map_set.induct) (auto simp: unsigned_object_def is_signature_key_def)

text \<open>The canonical form of an object does not depend on the order its members were set in.\<close>

definition written :: "nat \<Rightarrow> string \<times> json \<Rightarrow> string \<times> string" where
  "written d m = (fst m, the (write_json d (snd m)))"

lemma write_members_map:
  "write_members d ms =
     (if \<forall>m \<in> set ms. write_json d (snd m) \<noteq> None then Some (map (written d) ms) else None)"
proof (induction ms)
  case Nil
  then show ?case by simp
next
  case (Cons m ms)
  obtain k v where "m = (k, v)" by fastforce
  with Cons show ?case
    by (auto simp: written_def simp del: write_json.simps split: option.splits)
qed

lemma sort_written:
  assumes "mset ms = mset ms'" and "distinct (map fst ms)"
  shows "sort_key fst (map (written d) ms) = sort_key fst (map (written d) ms')"
proof (rule sort_key_eq_sort_key)
  show "mset (map (written d) ms) = mset (map (written d) ms')"
    using assms(1) by simp
  show "inj_on fst (set (map (written d) ms))"
    using assms(2) by (auto simp: inj_on_def written_def distinct_map)
qed

lemma canonicalize_member_order:
  assumes "mset ms = mset ms'" and "distinct (map fst ms)"
  shows "canonicalize (JObj ms) = canonicalize (JObj ms')"
proof -
  have "set ms = set ms'" using assms(1) by (rule mset_eq_setD)
  with sort_written [OF assms] show ?thesis
    by (auto simp: canonicalize_def write_members_map write_object_def)
qed

lemma unsigned_object_mset: "mset ms = mset ms' \<Longrightarrow> mset (unsigned_object ms) = mset (unsigned_object ms')"
  by (simp add: unsigned_object_def)

lemma unsigned_object_distinct: "distinct (map fst ms) \<Longrightarrow> distinct (map fst (unsigned_object ms))"
  by (simp add: unsigned_object_def distinct_map_filter)

lemma signing_preimage_member_order:
  assumes "mset (unsigned_object ms) = mset (unsigned_object ms')"
    and "distinct (map fst (unsigned_object ms))"
  shows "signing_preimage cl ms = signing_preimage cl ms'"
  using canonicalize_member_order [OF assms] by (simp add: signing_preimage_def canonical_bytes_def)

text \<open>The law of the library a signer relies on: what a key signs, its public key verifies.\<close>

definition signs_for :: "crypto_lib \<Rightarrow> string \<Rightarrow> string \<Rightarrow> bool" where
  "signs_for cl sk pub \<longleftrightarrow>
     (\<exists>k p. from_hex sk = Some k \<and> from_hex pub = Some p \<and>
        (\<forall>m. \<exists>sg. lib_ed_sign cl m k = Some sg \<and> length sg = 64 \<and> lib_ed_verify cl sg m p = Some True))"

lemma signing_preimage_set_sig: "signing_preimage cl (map_set ''sig'' v ms) = signing_preimage cl ms"
  by (simp add: signing_preimage_def unsigned_set_sig)

lemma verify_with_signature:
  assumes "signs_for cl sk pub" and "with_signature cl ms sk = Some ms'"
  shows "verify_object cl ms' pub"
proof -
  from assms(1) obtain k p where kp: "from_hex sk = Some k" "from_hex pub = Some p"
    and law: "\<And>m. \<exists>sg. lib_ed_sign cl m k = Some sg \<and> length sg = 64 \<and> lib_ed_verify cl sg m p = Some True"
    by (auto simp: signs_for_def)
  from assms(2) kp obtain m sg where m: "signing_preimage cl ms = Some m"
    and sg: "lib_ed_sign cl m k = Some sg" and ms': "ms' = map_set ''sig'' (JStr (to_hex sg)) ms"
    by (auto simp: with_signature_def sign_object_def split: option.splits)
  from law [of m] sg have "length sg = 64" "lib_ed_verify cl sg m p = Some True" by auto
  with m kp ms' show ?thesis
    by (simp add: verify_object_def map_of_map_set length_to_hex from_hex_to_hex signing_preimage_set_sig)
qed

text \<open>A verifier answers the same for every order of the members and every other \<^verbatim>\<open>sig_\<close> member.\<close>

lemma verify_object_cong:
  assumes "map_of ms ''sig'' = map_of ms' ''sig''"
    and "mset (unsigned_object ms) = mset (unsigned_object ms')"
    and "distinct (map fst (unsigned_object ms))"
  shows "verify_object cl ms pub = verify_object cl ms' pub"
  unfolding verify_object_def assms(1) signing_preimage_member_order [OF assms(2,3)] ..

end
