(* ===== verification/JsTime.thy ===== *)
theory JsTime
  imports Prelude "HOL-Library.Monad_Syntax"
begin

text \<open>
  Time as the source handles it: RFC 3339 timestamps (\<^verbatim>\<open>Rfc3339\<close> of
  \<^verbatim>\<open>packages/types/src/primitives.ts\<close>), \<^verbatim>\<open>Date.parse\<close>, \<^verbatim>\<open>Date\<close> and its UTC calendar, and the
  ISO 8601 duration arithmetic of \<^verbatim>\<open>packages/node/src/duration.ts\<close>.

  An instant is an \<open>int\<close>, milliseconds since 1970-01-01T00:00:00Z; an invalid \<^verbatim>\<open>Date\<close> (whose
  \<^verbatim>\<open>getTime()\<close> is NaN) is \<open>None\<close>. \<^verbatim>\<open>Date.parse\<close> is ECMAScript's Date Time String Format: a field out
  of its calendar range is not a time. The types \<open>rfc3339\<close> and \<open>iso_duration\<close> hold exactly the strings
  the schemas accept, so a record built from them is one the parser let through. A fraction of a
  second is read exactly: the rounding of \<^verbatim>\<open>Number\<close> below a millisecond is not modelled.
\<close>

section \<open>The calendar of Date\<close>

definition leap_year :: "int \<Rightarrow> bool" where
  "leap_year y \<longleftrightarrow> y mod 4 = 0 \<and> (y mod 100 \<noteq> 0 \<or> y mod 400 = 0)"

text \<open>The day number (since the epoch) of January 1st: ECMAScript's DayFromYear.\<close>

definition day_from_year :: "int \<Rightarrow> int" where
  "day_from_year y =
     365 * (y - 1970) + (y - 1969) div 4 - (y - 1901) div 100 + (y - 1601) div 400"

text \<open>The days of the year before a month, January being month 0.\<close>

definition days_before_month :: "bool \<Rightarrow> int \<Rightarrow> int" where
  "days_before_month leap m =
     (if m \<le> 0 then 0 else if m = 1 then 31
      else (if leap then 1 else 0) +
        (if m = 2 then 59 else if m = 3 then 90 else if m = 4 then 120 else if m = 5 then 151
         else if m = 6 then 181 else if m = 7 then 212 else if m = 8 then 243 else if m = 9 then 273
         else if m = 10 then 304 else 334))"

text \<open>The first day of month \<open>m\<close> of year \<open>y\<close>; a month past 11 runs into the following years (MakeDay).\<close>

definition month_start :: "int \<Rightarrow> int" where
  "month_start mm = day_from_year (mm div 12) + days_before_month (leap_year (mm div 12)) (mm mod 12)"

definition make_day :: "int \<Rightarrow> int \<Rightarrow> int \<Rightarrow> int" where
  "make_day y m d = month_start (12 * y + m) + d - 1"

lemma div_next:
  fixes x k :: int
  assumes "0 < k"
  shows "(x + 1) div k = x div k + (if k dvd x + 1 then 1 else 0)"
proof -
  define q r where "q = x div k" and "r = x mod k"
  have x: "x = k * q + r" and r: "0 \<le> r" "r < k"
    using assms by (simp_all add: q_def r_def)
  show ?thesis
  proof (cases "r + 1 = k")
    case True
    with x have "x + 1 = k * (q + 1)" by (simp add: algebra_simps)
    with assms show ?thesis by (simp add: q_def [symmetric])
  next
    case False
    with r have small: "0 \<le> r + 1" "r + 1 < k" "0 < r + 1" by simp_all
    have "(x + 1) div k = q"
      by (rule int_div_pos_eq [OF _ small(1,2)]) (simp add: x)
    moreover have "\<not> k dvd x + 1"
    proof
      assume "k dvd x + 1"
      then have "k dvd r + 1" using x by (simp add: add.assoc dvd_add_right_iff)
      with small show False by (simp add: zdvd_not_zless)
    qed
    ultimately show ?thesis by (simp add: q_def [symmetric])
  qed
qed

lemma day_from_year_Suc: "day_from_year (y + 1) = day_from_year y + (if leap_year y then 366 else 365)"
proof -
  have a: "(y - 1968) div 4 = (y - 1969) div 4 + (if 4 dvd y then 1 else 0)"
    using div_next [of 4 "y - 1969"] by (simp add: dvd_diff_left_iff)
  have b: "(y - 1900) div 100 = (y - 1901) div 100 + (if 100 dvd y then 1 else 0)"
    using div_next [of 100 "y - 1901"] by (simp add: dvd_diff_left_iff)
  have c: "(y - 1600) div 400 = (y - 1601) div 400 + (if 400 dvd y then 1 else 0)"
    using div_next [of 400 "y - 1601"] by (simp add: dvd_diff_left_iff)
  have d: "400 dvd y \<Longrightarrow> 100 dvd y" "100 dvd y \<Longrightarrow> 4 dvd y"
    by (rule dvd_trans [of _ 400], simp_all) (rule dvd_trans [of _ 100], simp_all)
  have shift: "y + 1 - 1969 = y - 1968" "y + 1 - 1901 = y - 1900" "y + 1 - 1601 = y - 1600"
    by simp_all
  have sum: "365 * (y + 1 - 1970) + (P + p) - (Q + q) + (R + r)
      = 365 * (y - 1970) + P - Q + R + (365 + (p - q + r))" for P Q R p q r :: int
    by simp
  have leap: "(if leap_year y then 366 else 365) =
      365 + ((if 4 dvd y then 1 else 0) - (if 100 dvd y then 1 else 0) + (if 400 dvd y then 1 else (0 :: int)))"
    using d unfolding leap_year_def mod_eq_0_iff_dvd
    by (cases "4 dvd y"; cases "100 dvd y"; cases "400 dvd y") simp_all
  show ?thesis
    unfolding day_from_year_def shift a b c sum leap ..
qed

lemma day_from_year_less: "day_from_year y < day_from_year (y + 1)"
  by (simp add: day_from_year_Suc)

lemma month_start_Suc: "month_start mm < month_start (mm + 1)"
proof -
  define y m where "y = mm div 12" and "m = mm mod 12"
  have m: "0 \<le> m" "m < 12" by (simp_all add: m_def)
  have mm: "mm = 12 * y + m" by (simp add: y_def m_def)
  show ?thesis
  proof (cases "m = 11")
    case True
    with mm have "(mm + 1) div 12 = y + 1" "(mm + 1) mod 12 = 0" by presburger+
    with True show ?thesis
      by (simp add: month_start_def y_def [symmetric] m_def [symmetric] day_from_year_Suc
          days_before_month_def)
  next
    case False
    with mm m have next_month: "(mm + 1) div 12 = y" "(mm + 1) mod 12 = m + 1" by presburger+
    from False m have "m = 0 \<or> m = 1 \<or> m = 2 \<or> m = 3 \<or> m = 4 \<or> m = 5 \<or> m = 6 \<or> m = 7 \<or> m = 8 \<or> m = 9 \<or> m = 10"
      by arith
    then show ?thesis
      by (elim disjE) (simp_all add: month_start_def y_def [symmetric] m_def [symmetric]
          next_month days_before_month_def)
  qed
qed

lemma month_start_add: "month_start mm \<le> month_start (mm + int k)"
proof (induction k)
  case 0
  then show ?case by simp
next
  case (Suc k)
  from Suc month_start_Suc [of "mm + int k"] show ?case by (simp add: algebra_simps)
qed

lemma month_start_mono: "mm \<le> mm' \<Longrightarrow> month_start mm \<le> month_start mm'"
  using month_start_add [of mm "nat (mm' - mm)"] by simp

text \<open>
  The year of a day: the largest year whose January 1st is not later (YearFromTime), found from an
  estimate that is never too large.
\<close>

function year_from :: "int \<Rightarrow> int \<Rightarrow> int" where
  "year_from y n = (if day_from_year (y + 1) \<le> n then year_from (y + 1) n else y)"
  by pat_completeness auto
termination
proof (relation "measure (\<lambda>(y, n). nat (n - day_from_year y + 1))", goal_cases)
  case 1
  then show ?case by simp
next
  case (2 y n)
  with day_from_year_less [of y] show ?case by simp
qed

declare year_from.simps [simp del]

definition year_of_day :: "int \<Rightarrow> int" where
  "year_of_day n = year_from (1970 + n div 366 - (if n < 0 then 1 + (- n) div 36500 else 0)) n"

definition month_of_day :: "int \<Rightarrow> int" where
  "month_of_day n =
     (let y = year_of_day n; doy = n - day_from_year y
      in int (length (filter (\<lambda>m. days_before_month (leap_year y) m \<le> doy) [1, 2, 3, 4, 5, 6, 7, 8, 9, 10, 11])))"

definition date_of_day :: "int \<Rightarrow> int" where
  "date_of_day n = n - month_start (12 * year_of_day n + month_of_day n) + 1"

lemma make_day_of_day: "make_day (year_of_day n) (month_of_day n) (date_of_day n) = n"
  by (simp add: make_day_def date_of_day_def)

lemma make_day_later:
  assumes "0 \<le> dy" and "0 \<le> dm"
  shows "make_day y m d \<le> make_day (y + dy) (m + dm) d"
  using month_start_mono [of "12 * y + m" "12 * (y + dy) + (m + dm)"] assms
  by (simp add: make_day_def)

definition ms_per_day :: int where
  "ms_per_day = 86400000"

definition day_of :: "int \<Rightarrow> int" where
  "day_of t = t div ms_per_day"

definition time_within_day :: "int \<Rightarrow> int" where
  "time_within_day t = t mod ms_per_day"

lemma day_and_time: "day_of t * ms_per_day + time_within_day t = t"
  by (simp add: day_of_def time_within_day_def)

text \<open>ECMAScript's TimeClip: a \<^verbatim>\<open>Date\<close> holds at most 8.64e15 milliseconds either side of the epoch.\<close>

definition max_time :: int where
  "max_time = 8640000000000000"

definition time_clip :: "int \<Rightarrow> int option" where
  "time_clip t = (if \<bar>t\<bar> \<le> max_time then Some t else None)"

definition set_utc_full_year :: "int \<Rightarrow> int \<Rightarrow> int \<Rightarrow> int \<Rightarrow> int option" where
  "set_utc_full_year t y m d = time_clip (make_day y m d * ms_per_day + time_within_day t)"

section \<open>RFC 3339 timestamps\<close>

fun expect_char :: "char \<Rightarrow> string \<Rightarrow> string option" where
  "expect_char c [] = None"
| "expect_char c (x # xs) = (if x = c then Some xs else None)"

text \<open>\<^verbatim>\<open>\d{n}\<close> and \<^verbatim>\<open>\d+\<close>.\<close>

definition digits_exactly :: "nat \<Rightarrow> string \<Rightarrow> (int \<times> string) option" where
  "digits_exactly n s =
     (if n \<le> length s \<and> list_all is_digit (take n s) then Some (decimal_value (take n s), drop n s) else None)"

definition digits_some :: "string \<Rightarrow> (string \<times> string) option" where
  "digits_some s =
     (let ds = takeWhile is_digit s in if ds = [] then None else Some (ds, dropWhile is_digit s))"

text \<open>The first three digits of a fraction of a second, in milliseconds.\<close>

definition fraction_ms :: "string \<Rightarrow> int" where
  "fraction_ms fs = decimal_value (take 3 (fs @ ''000''))"

definition parse_fraction :: "string \<Rightarrow> (int \<times> string) option" where
  "parse_fraction s =
     (case s of
        c # rest \<Rightarrow>
          if c = CHR ''.'' then do { (fs, rest') \<leftarrow> digits_some rest; Some (fraction_ms fs, rest') }
          else Some (0, s)
      | [] \<Rightarrow> Some (0, s))"

text \<open>\<^verbatim>\<open>(Z|[+-]\d{2}:\d{2})$\<close>, as minutes east of UTC.\<close>

definition parse_offset :: "string \<Rightarrow> int option" where
  "parse_offset s =
     (if s = ''Z'' then Some 0
      else case s of
        sg # rest \<Rightarrow>
          if sg = CHR ''+'' \<or> sg = CHR ''-'' then do {
            (h, r1) \<leftarrow> digits_exactly 2 rest;
            r2 \<leftarrow> expect_char CHR '':'' r1;
            (m, r3) \<leftarrow> digits_exactly 2 r2;
            if r3 = [] \<and> h \<le> 23 \<and> m \<le> 59
            then Some ((if sg = CHR ''-'' then -1 else 1) * (60 * h + m)) else None }
          else None
      | [] \<Rightarrow> None)"

text \<open>
  \<^verbatim>\<open>Date.parse\<close> of a timestamp, as V8 reads it: any month has days up to 31, and a day past the end of the month is one of the
  next.
\<close>

definition date_parse :: "string \<Rightarrow> int option" where
  "date_parse s = do {
     (y, s1) \<leftarrow> digits_exactly 4 s;
     s2 \<leftarrow> expect_char CHR ''-'' s1;
     (mo, s3) \<leftarrow> digits_exactly 2 s2;
     s4 \<leftarrow> expect_char CHR ''-'' s3;
     (d, s5) \<leftarrow> digits_exactly 2 s4;
     s6 \<leftarrow> expect_char CHR ''T'' s5;
     (h, s7) \<leftarrow> digits_exactly 2 s6;
     s8 \<leftarrow> expect_char CHR '':'' s7;
     (mi, s9) \<leftarrow> digits_exactly 2 s8;
     s10 \<leftarrow> expect_char CHR '':'' s9;
     (sec, s11) \<leftarrow> digits_exactly 2 s10;
     (ms, s12) \<leftarrow> parse_fraction s11;
     off \<leftarrow> parse_offset s12;
     if 1 \<le> mo \<and> mo \<le> 12 \<and> 1 \<le> d \<and> d \<le> 31
        \<and> (h \<le> 23 \<or> h = 24 \<and> mi = 0 \<and> sec = 0 \<and> ms = 0) \<and> mi \<le> 59 \<and> sec \<le> 59
     then Some (make_day y (mo - 1) d * ms_per_day + h * 3600000 + mi * 60000 + sec * 1000 + ms
                - off * 60000)
     else None }"

text \<open>The schema \<^verbatim>\<open>Rfc3339\<close>: the shape of the regular expression, and a time \<^verbatim>\<open>Date.parse\<close> can read.\<close>

definition is_rfc3339 :: "string \<Rightarrow> bool" where
  "is_rfc3339 s \<longleftrightarrow> date_parse s \<noteq> None"

lemma is_rfc3339_epoch: "is_rfc3339 ''1970-01-01T00:00:00Z''"
  by code_simp

typedef rfc3339 = "{s. is_rfc3339 s}"
  by (rule exI [of _ "''1970-01-01T00:00:00Z''"]) (simp add: is_rfc3339_epoch)

setup_lifting type_definition_rfc3339

lift_definition text_of :: "rfc3339 \<Rightarrow> string" is "\<lambda>s. s" .

text \<open>A stamp from its text; a text the schema refuses is not a stamp, and stands for the epoch here.\<close>

lift_definition stamp :: "string \<Rightarrow> rfc3339" is
  "\<lambda>s. if is_rfc3339 s then s else ''1970-01-01T00:00:00Z''"
  by (simp add: is_rfc3339_epoch)

definition parse_stamp :: "string \<Rightarrow> rfc3339 option" where
  "parse_stamp s = (if is_rfc3339 s then Some (stamp s) else None)"

text \<open>\<^verbatim>\<open>Date.parse(s)\<close> of a schema-checked timestamp.\<close>

definition ms_of :: "rfc3339 \<Rightarrow> int" where
  "ms_of x = the (date_parse (text_of x))"

instantiation rfc3339 :: equal
begin

definition equal_rfc3339 :: "rfc3339 \<Rightarrow> rfc3339 \<Rightarrow> bool" where
  "equal_rfc3339 a b \<longleftrightarrow> text_of a = text_of b"

instance
  by standard (transfer, simp add: equal_rfc3339_def, transfer, simp)

end

lemma text_of_stamp: "text_of (stamp s) = (if is_rfc3339 s then s else ''1970-01-01T00:00:00Z'')"
  by transfer simp

lemma is_rfc3339_text_of: "is_rfc3339 (text_of x)"
  by transfer simp

lemma stamp_text_of: "stamp (text_of x) = x"
  by transfer simp

lemma text_of_inject: "text_of a = text_of b \<longleftrightarrow> a = b"
  by transfer simp

lemma date_parse_text_of: "date_parse (text_of x) = Some (ms_of x)"
  using is_rfc3339_text_of [of x] by (auto simp: is_rfc3339_def ms_of_def)

lemma ms_of_stamp: "date_parse s = Some t \<Longrightarrow> ms_of (stamp s) = t"
  by (simp add: ms_of_def text_of_stamp is_rfc3339_def)

section \<open>A stamp lies in the range of a Date\<close>

lemma digit_value_less: "is_digit c \<Longrightarrow> digit_value c < 10"
proof -
  assume "is_digit c"
  then have "(of_char c :: nat) \<le> of_char (CHR ''9'')"
    by (simp add: is_digit_def less_eq_char_def)
  then show ?thesis by (simp add: digit_value_def)
qed

lemma decimal_fold_less:
  "list_all is_digit s \<Longrightarrow> foldl (\<lambda>n c. 10 * n + digit_value c) k s < (k + 1) * 10 ^ length s"
proof (induction s arbitrary: k)
  case Nil
  then show ?case by simp
next
  case (Cons c s)
  then have "foldl (\<lambda>n c. 10 * n + digit_value c) (10 * k + digit_value c) s
      < (10 * k + digit_value c + 1) * 10 ^ length s" by simp
  also have "\<dots> \<le> (10 * k + 10) * 10 ^ length s"
    using Cons.prems digit_value_less [of c] by (intro mult_right_mono) auto
  finally show ?case by (simp add: algebra_simps)
qed

lemma digits_exactly_range: "digits_exactly n s = Some (k, r) \<Longrightarrow> 0 \<le> k \<and> k < 10 ^ n"
  using decimal_fold_less [of "take n s" 0] decimal_value_nonneg [of "take n s"]
  by (auto simp: digits_exactly_def decimal_value_def min_def split: if_splits)

lemma day_from_year_range:
  assumes "0 \<le> y" and "y < 10000"
  shows "-1000000 < day_from_year y \<and> day_from_year y < 4000000"
proof -
  have "-493 \<le> (y - 1969) div 4" "(y - 1969) div 4 \<le> 2008" "-20 \<le> (y - 1901) div 100"
    "(y - 1901) div 100 \<le> 81" "-5 \<le> (y - 1601) div 400" "(y - 1601) div 400 \<le> 21"
    using assms by linarith+
  with assms show ?thesis by (simp add: day_from_year_def)
qed

lemma days_before_month_range: "0 \<le> days_before_month l m \<and> days_before_month l m \<le> 335"
  by (simp add: days_before_month_def)

lemma make_day_range:
  assumes "0 \<le> y" "y < 10000" "0 \<le> m" "m \<le> 11" "1 \<le> d" "d \<le> 31"
  shows "\<bar>make_day y m d\<bar> < 5000000"
proof -
  have "(12 * y + m) div 12 = y" using assms by simp
  with assms day_from_year_range [of y]
    days_before_month_range [of "leap_year y" "(12 * y + m) mod 12"]
  show ?thesis unfolding make_day_def month_start_def abs_less_iff by simp
qed

lemma parse_offset_range: "parse_offset s = Some k \<Longrightarrow> \<bar>k\<bar> < 1440"
  by (auto simp: parse_offset_def bind_eq_Some_conv dest!: digits_exactly_range
      split: if_splits list.splits)

lemma parse_fraction_range: "parse_fraction s = Some (k, r) \<Longrightarrow> 0 \<le> k \<and> k < 1000"
proof -
  have "0 \<le> fraction_ms ds \<and> fraction_ms ds < 1000" if "list_all is_digit ds" for ds
  proof -
    have "list_all is_digit (take 3 (ds @ ''000''))"
      using that by (auto simp: list_all_iff is_digit_def dest: in_set_takeD)
    with decimal_fold_less [of "take 3 (ds @ ''000'')" 0] decimal_value_nonneg [of "take 3 (ds @ ''000'')"]
    moreover have "length (take 3 (ds @ ''000'')) = 3" by simp
    ultimately show ?thesis unfolding fraction_ms_def decimal_value_def by (simp only:) simp
  qed
  then have *: "digits_some r0 = Some (ds, r1) \<Longrightarrow> 0 \<le> fraction_ms ds \<and> fraction_ms ds < 1000" for r0 ds r1
    by (auto simp: digits_some_def Let_def list_all_iff dest: set_takeWhileD split: if_splits)
  assume "parse_fraction s = Some (k, r)"
  then consider "k = 0" | r0 ds r1 where "digits_some r0 = Some (ds, r1)" "k = fraction_ms ds"
    unfolding parse_fraction_def by (cases s) (auto simp: bind_eq_Some_conv split: if_splits)
  then show "0 \<le> k \<and> k < 1000" by cases (use * in auto)
qed

lemma date_parse_range:
  assumes "date_parse s = Some t"
  shows "\<bar>t\<bar> < 1000000000000000"
proof -
  from assms obtain y s1 mo s3 s2 d s4 s5 h s6 s7 mi s8 s9 sec s10 s11 ms s12 off where
    p: "digits_exactly 4 s = Some (y, s1)" "digits_exactly 2 s2 = Some (mo, s3)"
      "digits_exactly 2 s4 = Some (d, s5)" "digits_exactly 2 s6 = Some (h, s7)"
      "digits_exactly 2 s8 = Some (mi, s9)" "digits_exactly 2 s10 = Some (sec, s11)"
      "parse_fraction s11 = Some (ms, s12)" "parse_offset s12 = Some off"
    and r: "1 \<le> mo" "mo \<le> 12" "1 \<le> d" "d \<le> 31"
    and t: "t = make_day y (mo - 1) d * ms_per_day + h * 3600000 + mi * 60000 + sec * 1000 + ms - off * 60000"
    unfolding date_parse_def by (auto simp: bind_eq_Some_conv split: if_splits)
  have "\<bar>make_day y (mo - 1) d\<bar> < 5000000"
    using digits_exactly_range [OF p(1)] r by (intro make_day_range) auto
  moreover note digits_exactly_range [OF p(4)] digits_exactly_range [OF p(5)]
    digits_exactly_range [OF p(6)] parse_fraction_range [OF p(7)] parse_offset_range [OF p(8)]
  ultimately show ?thesis
    unfolding t ms_per_day_def abs_less_iff by auto
qed

lemma ms_of_range: "\<bar>ms_of x\<bar> < 1000000000000000"
  using date_parse_range [OF date_parse_text_of] .

end
