(* ===== verification/Duration.thy ===== *)
theory Duration
  imports JsTime
begin

text \<open>
  ISO 8601 durations: the schema \<^verbatim>\<open>Iso8601Duration\<close> (whose regular expression is \<^verbatim>\<open>DURATION_RE\<close>) and
  \<^verbatim>\<open>parseDuration\<close> and \<^verbatim>\<open>addDuration\<close> of \<^verbatim>\<open>packages/node/src/duration.ts\<close>. Years and months move the
  calendar, the other members are fixed offsets. The main facts: a window never ends before it opens
  (\<open>add_duration_later\<close>), and the windows the protocol fixes, \<^verbatim>\<open>P30D\<close>, \<^verbatim>\<open>P5D\<close> and \<^verbatim>\<open>PT15M\<close>, are
  those many milliseconds.
\<close>

record parsed_duration =
  years :: int
  months :: int
  weeks :: int
  days :: int
  hours :: int
  minutes :: int
  seconds_ms :: int
  seconds_below_ms :: bool

text \<open>An optional member \<^verbatim>\<open>(\d+X)?\<close>: the number and the rest, or zero and the whole text.\<close>

definition opt_member :: "char \<Rightarrow> string \<Rightarrow> int \<times> string" where
  "opt_member c s =
     (case digits_some s of
        Some (ds, x # rest) \<Rightarrow> if x = c then (decimal_value ds, rest) else (0, s)
      | _ \<Rightarrow> (0, s))"

text \<open>
  \<^verbatim>\<open>(\d+(?:\.\d+)?S)?\<close>: whole milliseconds, and whether a smaller part is left over (the \<^verbatim>\<open>Date\<close>
  constructor truncates it).
\<close>

definition opt_seconds :: "string \<Rightarrow> (int \<times> bool) \<times> string" where
  "opt_seconds s =
     (case digits_some s of
        Some (ds, x # rest) \<Rightarrow>
          if x = CHR ''S'' then ((1000 * decimal_value ds, False), rest)
          else if x = CHR ''.'' then
            (case digits_some rest of
               Some (fs, y # rest') \<Rightarrow>
                 if y = CHR ''S''
                 then ((1000 * decimal_value ds + fraction_ms fs, \<exists>c \<in> set (drop 3 fs). c \<noteq> CHR ''0''), rest')
                 else ((0, False), s)
             | _ \<Rightarrow> ((0, False), s))
          else ((0, False), s)
      | _ \<Rightarrow> ((0, False), s))"

definition parse_time_part :: "string \<Rightarrow> ((int \<times> int \<times> int \<times> bool) \<times> string)" where
  "parse_time_part s =
     (let (h, s1) = opt_member CHR ''H'' s;
          (mi, s2) = opt_member CHR ''M'' s1;
          ((sec, sub), s3) = opt_seconds s2
      in ((h, mi, sec, sub), s3))"

text \<open>\<^verbatim>\<open>parseDuration\<close>: \<open>None\<close> is the \<^verbatim>\<open>TypeError\<close> for a text that does not match.\<close>

definition parse_duration_text :: "string \<Rightarrow> parsed_duration option" where
  "parse_duration_text s =
     (case s of
        c # rest \<Rightarrow>
          if c = CHR ''P'' \<and> rest \<noteq> [] then
            (let (y, s1) = opt_member CHR ''Y'' rest;
                 (mo, s2) = opt_member CHR ''M'' s1;
                 (w, s3) = opt_member CHR ''W'' s2;
                 (d, s4) = opt_member CHR ''D'' s3
             in case s4 of
                  [] \<Rightarrow> Some \<lparr>years = y, months = mo, weeks = w, days = d, hours = 0, minutes = 0,
                              seconds_ms = 0, seconds_below_ms = False\<rparr>
                | t # s5 \<Rightarrow>
                    if t = CHR ''T'' \<and> s5 \<noteq> [] \<and> is_digit (hd s5) then
                      (case parse_time_part s5 of
                         ((h, mi, sec, sub), s6) \<Rightarrow>
                           if s6 = [] then Some \<lparr>years = y, months = mo, weeks = w, days = d, hours = h,
                             minutes = mi, seconds_ms = sec, seconds_below_ms = sub\<rparr>
                           else None)
                    else None)
          else None
      | [] \<Rightarrow> None)"

definition is_iso_duration :: "string \<Rightarrow> bool" where
  "is_iso_duration s \<longleftrightarrow> (case parse_duration_text s of None \<Rightarrow> False | Some _ \<Rightarrow> True)"

lemma is_iso_duration_iff: "is_iso_duration s \<longleftrightarrow> (\<exists>d. parse_duration_text s = Some d)"
  by (simp add: is_iso_duration_def split: option.splits)

lemma is_iso_duration_P5D: "is_iso_duration ''P5D''"
  by code_simp

typedef iso_duration = "{s. is_iso_duration s}"
  by (rule exI [of _ "''P5D''"]) (simp add: is_iso_duration_P5D)

setup_lifting type_definition_iso_duration

lift_definition duration_text :: "iso_duration \<Rightarrow> string" is "\<lambda>s. s" .

lift_definition duration :: "string \<Rightarrow> iso_duration" is
  "\<lambda>s. if is_iso_duration s then s else ''P5D''"
  by (simp add: is_iso_duration_P5D)

instantiation iso_duration :: equal
begin

definition equal_iso_duration :: "iso_duration \<Rightarrow> iso_duration \<Rightarrow> bool" where
  "equal_iso_duration a b \<longleftrightarrow> duration_text a = duration_text b"

instance
  by standard (transfer, simp add: equal_iso_duration_def, transfer, simp)

end

lemma duration_text_duration:
  "duration_text (duration s) = (if is_iso_duration s then s else ''P5D'')"
  by transfer simp

lemma is_iso_duration_text: "is_iso_duration (duration_text d)"
  by transfer simp

definition parse_duration :: "iso_duration \<Rightarrow> parsed_duration" where
  "parse_duration d = the (parse_duration_text (duration_text d))"

text \<open>The fixed offset, in whole milliseconds.\<close>

definition fixed_ms :: "parsed_duration \<Rightarrow> int" where
  "fixed_ms d =
     ((weeks d * 7 + days d) * 86400 + hours d * 3600 + minutes d * 60) * 1000 + seconds_ms d"

text \<open>
  \<^verbatim>\<open>new Date(t)\<close> of a number that may lie a fraction of a millisecond above \<open>t\<close>: truncated towards zero.
\<close>

definition date_of_number :: "int \<Rightarrow> bool \<Rightarrow> int option" where
  "date_of_number t below =
     (if below \<and> t = max_time then None else time_clip (if below \<and> t < 0 then t + 1 else t))"

definition add_duration :: "int \<Rightarrow> iso_duration \<Rightarrow> int option" where
  "add_duration start dur =
     (let d = parse_duration dur;
          out = (if years d \<noteq> 0 \<or> months d \<noteq> 0
                 then set_utc_full_year start (year_of_day (day_of start) + years d)
                        (month_of_day (day_of start) + months d) (date_of_day (day_of start))
                 else Some start)
      in case out of None \<Rightarrow> None | Some t \<Rightarrow> date_of_number (t + fixed_ms d) (seconds_below_ms d))"

section \<open>No member is negative\<close>

definition nonneg_duration :: "parsed_duration \<Rightarrow> bool" where
  "nonneg_duration d \<longleftrightarrow> 0 \<le> years d \<and> 0 \<le> months d \<and> 0 \<le> fixed_ms d"

lemma opt_member_nonneg: "opt_member c s = (n, rest) \<Longrightarrow> 0 \<le> n"
  by (auto simp: opt_member_def decimal_value_nonneg split: option.splits list.splits if_splits)

lemma opt_seconds_nonneg: "opt_seconds s = ((n, sub), rest) \<Longrightarrow> 0 \<le> n"
  by (auto simp: opt_seconds_def decimal_value_nonneg fraction_ms_def
      split: option.splits list.splits if_splits)

lemma parse_time_part_nonneg:
  "parse_time_part s = ((h, mi, sec, sub), rest) \<Longrightarrow> 0 \<le> h \<and> 0 \<le> mi \<and> 0 \<le> sec"
  by (auto simp: parse_time_part_def dest: opt_member_nonneg opt_seconds_nonneg split: prod.splits)

lemma parse_duration_text_nonneg: "parse_duration_text s = Some d \<Longrightarrow> nonneg_duration d"
  by (auto simp: parse_duration_text_def nonneg_duration_def fixed_ms_def
      dest!: opt_member_nonneg parse_time_part_nonneg
      split: list.splits if_splits prod.splits)

lemma parse_duration_nonneg: "nonneg_duration (parse_duration d)"
proof -
  from is_iso_duration_text [of d] obtain p where "parse_duration_text (duration_text d) = Some p"
    by (auto simp: is_iso_duration_iff)
  then show ?thesis
    by (simp add: parse_duration_def parse_duration_text_nonneg)
qed

section \<open>A window never ends before it opens\<close>

lemma time_clip_Some: "time_clip t = Some u \<Longrightarrow> u = t"
  by (simp add: time_clip_def split: if_splits)

lemma date_of_number_later: "date_of_number t below = Some u \<Longrightarrow> t \<le> u"
  by (auto simp: date_of_number_def dest!: time_clip_Some split: if_splits)

lemma set_utc_full_year_later:
  assumes "set_utc_full_year t (year_of_day (day_of t) + dy) (month_of_day (day_of t) + dm)
      (date_of_day (day_of t)) = Some u"
    and "0 \<le> dy" and "0 \<le> dm"
  shows "t \<le> u"
proof -
  have "day_of t \<le> make_day (year_of_day (day_of t) + dy) (month_of_day (day_of t) + dm)
      (date_of_day (day_of t))" (is "_ \<le> ?d")
    using make_day_later [OF assms(2,3)] make_day_of_day [of "day_of t"] by metis
  then have "day_of t * ms_per_day \<le> ?d * ms_per_day"
    by (simp add: ms_per_day_def)
  with assms(1) day_and_time [of t] show ?thesis
    by (auto simp: set_utc_full_year_def dest!: time_clip_Some)
qed

lemma add_duration_later: "add_duration t d = Some u \<Longrightarrow> t \<le> u"
  using parse_duration_nonneg [of d]
  by (fastforce simp: add_duration_def nonneg_duration_def Let_def
      dest!: date_of_number_later set_utc_full_year_later
      split: option.splits if_splits)

section \<open>The windows the protocol fixes\<close>

lemma add_fixed_duration:
  assumes "parse_duration d = p" and "years p = 0" and "months p = 0" and "\<not> seconds_below_ms p"
  shows "add_duration t d = time_clip (t + fixed_ms p)"
  using assms by (simp add: add_duration_def date_of_number_def)

text \<open>The constants are spelled out once, so that proofs never parse them again.\<close>

lemma parse_P30D: "parse_duration (duration ''P30D'') =
    \<lparr>years = 0, months = 0, weeks = 0, days = 30, hours = 0, minutes = 0, seconds_ms = 0,
     seconds_below_ms = False\<rparr>"
  unfolding parse_duration_def duration_text_duration by code_simp

lemma parse_P5D: "parse_duration (duration ''P5D'') =
    \<lparr>years = 0, months = 0, weeks = 0, days = 5, hours = 0, minutes = 0, seconds_ms = 0,
     seconds_below_ms = False\<rparr>"
  unfolding parse_duration_def duration_text_duration by code_simp

lemma parse_PT15M: "parse_duration (duration ''PT15M'') =
    \<lparr>years = 0, months = 0, weeks = 0, days = 0, hours = 0, minutes = 15, seconds_ms = 0,
     seconds_below_ms = False\<rparr>"
  unfolding parse_duration_def duration_text_duration by code_simp

lemma add_P30D: "add_duration t (duration ''P30D'') = time_clip (t + 2592000000)"
  by (subst add_fixed_duration [OF parse_P30D]) (simp_all add: fixed_ms_def)

lemma add_P5D: "add_duration t (duration ''P5D'') = time_clip (t + 432000000)"
  by (subst add_fixed_duration [OF parse_P5D]) (simp_all add: fixed_ms_def)

lemma add_PT15M: "add_duration t (duration ''PT15M'') = time_clip (t + 900000)"
  by (subst add_fixed_duration [OF parse_PT15M]) (simp_all add: fixed_ms_def)

end
