(* ===== verification/EdgeTypes.thy ===== *)
theory EdgeTypes
  imports Crypto Duration
begin

text \<open>
  The bilateral edge and its assertions: \<^verbatim>\<open>packages/types/src/edge.ts\<close>. A record holds what the schema
  let through; its constant members (\<^verbatim>\<open>v\<close>, \<^verbatim>\<open>type\<close>) appear in the JSON form only, which is what is
  hashed and signed.
\<close>

section \<open>States\<close>

datatype wire_state =
    AProposed | AConfirmed | AOpen | AClosed | AReleased | AExpired | ADisputed | ASuperseded

datatype effective_state =
    SNone | SProposed | SOpen | SPendingAcceptance | SClosed | SReleased | SExpired
  | SContestedClosure | SDisputed | SSuperseded

fun wire_name :: "wire_state \<Rightarrow> string" where
  "wire_name AProposed = ''proposed''"
| "wire_name AConfirmed = ''confirmed''"
| "wire_name AOpen = ''open''"
| "wire_name AClosed = ''closed''"
| "wire_name AReleased = ''released''"
| "wire_name AExpired = ''expired''"
| "wire_name ADisputed = ''disputed''"
| "wire_name ASuperseded = ''superseded''"

fun effective_name :: "effective_state \<Rightarrow> string" where
  "effective_name SNone = ''none''"
| "effective_name SProposed = ''proposed''"
| "effective_name SOpen = ''open''"
| "effective_name SPendingAcceptance = ''pending-acceptance''"
| "effective_name SClosed = ''closed''"
| "effective_name SReleased = ''released''"
| "effective_name SExpired = ''expired''"
| "effective_name SContestedClosure = ''contested-closure''"
| "effective_name SDisputed = ''disputed''"
| "effective_name SSuperseded = ''superseded''"

definition non_assertable_states :: "wire_state list" where
  "non_assertable_states = [AOpen]"

definition unilateral_exits :: "wire_state list" where
  "unilateral_exits = [AClosed, AReleased, AExpired]"

definition terminal_states :: "effective_state list" where
  "terminal_states = [SClosed, SReleased, SExpired, SSuperseded]"

abbreviation terminal :: "effective_state \<Rightarrow> bool" where
  "terminal s \<equiv> s \<in> set terminal_states"

lemma terminal_iff: "terminal s \<longleftrightarrow> s = SClosed \<or> s = SReleased \<or> s = SExpired \<or> s = SSuperseded"
  by (auto simp: terminal_states_def)

lemma unilateral_iff: "w \<in> set unilateral_exits \<longleftrightarrow> w = AClosed \<or> w = AReleased \<or> w = AExpired"
  by (auto simp: unilateral_exits_def)

section \<open>Edges\<close>

datatype closure_policy = OnEvidence | OnAcceptance

datatype fulfillment_policy = FAll | FAny | FKOfN

record fulfillment =
  f_policy :: fulfillment_policy
  f_k :: "int option"
  f_children :: "sha256_hex list"
  f_coordinator :: "persona_id option"

record edge =
  e_id :: sha256_hex
  e_commitment_hash :: sha256_hex
  e_owner :: persona_id
  e_owed_to :: persona_id
  e_proposed_at :: rfc3339
  e_due :: "rfc3339 option"
  e_closure_policy :: closure_policy
  e_acceptance_window :: "iso_duration option"
  e_blocked_by :: "sha256_hex list"
  e_fulfillment :: "fulfillment option"
  e_supersedes :: "sha256_hex option"

text \<open>The window \<^verbatim>\<open>commit\<close> writes into an on-acceptance edge.\<close>

definition default_acceptance_window :: iso_duration where
  "default_acceptance_window = duration ''P5D''"

definition collective_decomposition_valid :: "edge \<Rightarrow> bool" where
  "collective_decomposition_valid e =
     (case e_fulfillment e of
        None \<Rightarrow> True
      | Some f \<Rightarrow>
          if f_coordinator f \<noteq> None \<and> f_coordinator f \<noteq> Some [] then True
          else if f_children f = [] then False
          else if f_policy f = FKOfN
               then (case f_k f of None \<Rightarrow> False | Some k \<Rightarrow> 0 < k \<and> k \<le> int (length (f_children f)))
               else True)"

section \<open>Assertions\<close>

record assertion =
  a_edge_id :: sha256_hex
  a_state :: wire_state
  a_asserted_at :: rfc3339
  a_by :: persona_id
  a_evidence_hash :: "sha256_hex option"
  a_sig :: signature_hex

datatype rejection_reason =
    WrongSignerForTransition
  | SignerNotAParty
  | IllegalSourceState
  | EvidenceHashRequired
  | EvidenceHashRequiredForOwnerClosure
  | DueIsNull
  | ExpiryBeforeDue
  | ExpiryDatedInTheFuture
  | AcceptanceWindowNotElapsed
  | DisputeWindowNotElapsed
  | MalformedEdgeAcceptanceWindow
  | EdgeIdDoesNotBindBody
  | AssertedAtBeforeSignersPrevious
  | ImplicitTransitionNotAssertable
  | InvalidSignature
  | TerminalStateReached
  | EdgeIdMismatch
  | DuplicateAssertionBySameParty

text \<open>An outcome: \<open>None\<close> is accepted, \<open>Some r\<close> is discarded for reason \<open>r\<close>. The index is the position.\<close>

type_synonym outcome = "rejection_reason option"

section \<open>The JSON forms\<close>

definition protocol_version :: string where
  "protocol_version = ''servanda/0.2''"

definition json_strings :: "string list \<Rightarrow> json" where
  "json_strings xs = JArr (map JStr xs)"

fun closure_policy_name :: "closure_policy \<Rightarrow> string" where
  "closure_policy_name OnEvidence = ''on-evidence''"
| "closure_policy_name OnAcceptance = ''on-acceptance''"

fun fulfillment_policy_name :: "fulfillment_policy \<Rightarrow> string" where
  "fulfillment_policy_name FAll = ''all''"
| "fulfillment_policy_name FAny = ''any''"
| "fulfillment_policy_name FKOfN = ''k-of-n''"

definition opt_json_member :: "string \<Rightarrow> ('a \<Rightarrow> json) \<Rightarrow> 'a option \<Rightarrow> json_members" where
  "opt_json_member k f x = (case x of None \<Rightarrow> [] | Some y \<Rightarrow> [(k, f y)])"

definition fulfillment_json :: "fulfillment \<Rightarrow> json" where
  "fulfillment_json f = JObj
     ([(''policy'', JStr (fulfillment_policy_name (f_policy f)))] @ opt_json_member ''k'' JNum (f_k f) @
      [(''children'', json_strings (f_children f))] @ opt_json_member ''coordinator'' JStr (f_coordinator f))"

definition edge_json :: "edge \<Rightarrow> json" where
  "edge_json e = JObj
     ([(''v'', JStr protocol_version), (''type'', JStr ''edge''), (''edge_id'', JStr (e_id e)),
       (''commitment_hash'', JStr (e_commitment_hash e)), (''owner'', JStr (e_owner e)),
       (''owed_to'', JStr (e_owed_to e)), (''proposed_at'', JStr (text_of (e_proposed_at e))),
       (''due'', json_opt (map_option text_of (e_due e))),
       (''closure_policy'', JStr (closure_policy_name (e_closure_policy e))),
       (''acceptance_window'', json_opt (map_option duration_text (e_acceptance_window e))),
       (''blocked_by'', json_strings (e_blocked_by e))] @
      opt_json_member ''fulfillment'' fulfillment_json (e_fulfillment e) @
      [(''supersedes'', json_opt (e_supersedes e))])"

definition unsigned_assertion_members :: "assertion \<Rightarrow> json_members" where
  "unsigned_assertion_members a =
     [(''v'', JStr protocol_version), (''type'', JStr ''assertion''), (''edge_id'', JStr (a_edge_id a)),
      (''state'', JStr (wire_name (a_state a))), (''asserted_at'', JStr (text_of (a_asserted_at a))),
      (''by'', JStr (a_by a)), (''evidence_hash'', json_opt (a_evidence_hash a))]"

definition assertion_members :: "assertion \<Rightarrow> json_members" where
  "assertion_members a = unsigned_assertion_members a @ [(''sig'', JStr (a_sig a))]"

section \<open>The identifier of an edge\<close>

definition edge_id_fields :: "edge \<Rightarrow> edge_id_input" where
  "edge_id_fields e =
     \<lparr>ei_commitment_hash = e_commitment_hash e, ei_owner = e_owner e, ei_owed_to = e_owed_to e,
      ei_proposed_at = text_of (e_proposed_at e)\<rparr>"

definition edge_id_binds_body :: "crypto_lib \<Rightarrow> edge \<Rightarrow> bool" where
  "edge_id_binds_body cl e \<longleftrightarrow> edge_id_of cl (edge_id_fields e) = Some (e_id e)"

text \<open>Two edges that bind one identifier have one commitment, owner, creditor and proposal time.\<close>

lemma edge_id_binds_unique:
  assumes "edge_id_binds_body cl e" and "edge_id_binds_body cl f" and "e_id e = e_id f"
    and "\<not> sha256_collision cl (edge_id_preimage (edge_id_fields e)) (edge_id_preimage (edge_id_fields f))"
  shows "e_commitment_hash e = e_commitment_hash f \<and> e_owner e = e_owner f \<and>
    e_owed_to e = e_owed_to f \<and> e_proposed_at e = e_proposed_at f"
proof -
  from assms have "edge_id_fields e = edge_id_fields f"
    using edge_id_of_inject [of cl "edge_id_fields e" "e_id e" "edge_id_fields f"]
    by (auto simp: edge_id_binds_body_def)
  then show ?thesis
    by (simp add: edge_id_fields_def text_of_inject)
qed

section \<open>Signed assertions\<close>

text \<open>\<^verbatim>\<open>verifyObject(a, a.by)\<close>.\<close>

definition assertion_signature_ok :: "crypto_lib \<Rightarrow> assertion \<Rightarrow> bool" where
  "assertion_signature_ok cl a = verify_object cl (assertion_members a) (a_by a)"

lemma assertion_members_set_sig:
  "map_set ''sig'' (JStr s) (unsigned_assertion_members a) = unsigned_assertion_members a @ [(''sig'', JStr s)]"
  by (simp add: unsigned_assertion_members_def)

lemma unsigned_assertion_members_sig [simp]:
  "unsigned_assertion_members (a\<lparr>a_sig := s\<rparr>) = unsigned_assertion_members a"
  by (simp add: unsigned_assertion_members_def)

text \<open>What a node signs with the private key of \<^verbatim>\<open>by\<close> passes the signature check of every node.\<close>

lemma signed_assertion_ok:
  assumes "signs_for cl sk (a_by a)"
    and "sign_object cl (unsigned_assertion_members a) sk = Some s"
  shows "assertion_signature_ok cl (a\<lparr>a_sig := s\<rparr>)"
proof -
  have "with_signature cl (unsigned_assertion_members a) sk = Some (assertion_members (a\<lparr>a_sig := s\<rparr>))"
    using assms(2)
    by (simp add: with_signature_def assertion_members_set_sig assertion_members_def)
  with assms(1) show ?thesis
    unfolding assertion_signature_ok_def by (intro verify_with_signature) simp_all
qed

end
