(* ===== verification/Rotation.thy ===== *)
theory Rotation
  imports EdgeTypes
begin

text \<open>
  Key rotation: the schema \<^verbatim>\<open>Rotation\<close> of \<^verbatim>\<open>packages/types/src/identity.ts\<close> and
  \<^verbatim>\<open>packages/identity/src/rotation.ts\<close> (\<^verbatim>\<open>verifyRotation\<close>, \<^verbatim>\<open>signRotation\<close>, \<^verbatim>\<open>resolveSuccessor\<close>,
  \<^verbatim>\<open>isSuccessorOf\<close>, \<^verbatim>\<open>keyLineage\<close>). A statement arrives as JSON, is parsed, verified, and only then
  moves an identity. The lemmas say that a resolved chain is a loop-free path of verified statements
  of bounded length, that a fork stops it, and that the lineage read off it has one open key.
\<close>

section \<open>The statement and its schema\<close>

record rotation =
  r_old :: persona_id
  r_new :: persona_id
  r_rotated_at :: rfc3339
  r_sig :: "signature_hex option"
  r_sig_old :: "signature_hex option"
  r_sig_new :: "signature_hex option"

definition hex128 :: "string \<Rightarrow> bool" where
  "hex128 s \<longleftrightarrow> length s = 128 \<and> list_all is_lower_hex s"

text \<open>An optional signature member: absent, or a string of the schema; anything else is malformed.\<close>

definition optional_signature :: "json_members \<Rightarrow> string \<Rightarrow> signature_hex option option" where
  "optional_signature ms k =
     (case map_of ms k of
        None \<Rightarrow> Some None
      | Some (JStr s) \<Rightarrow> if hex128 s then Some (Some s) else None
      | _ \<Rightarrow> None)"

definition parse_rotation :: "json \<Rightarrow> rotation option" where
  "parse_rotation j =
     (case j of
        JObj ms \<Rightarrow>
          (case (map_of ms ''v'', map_of ms ''type'', map_of ms ''old'', map_of ms ''new'',
                 map_of ms ''rotated_at'', optional_signature ms ''sig'',
                 optional_signature ms ''sig_old'', optional_signature ms ''sig_new'') of
             (Some (JStr v), Some (JStr ty), Some (JStr old_key), Some (JStr new_key), Some (JStr at),
              Some s, Some so, Some sn) \<Rightarrow>
               if v = protocol_version \<and> ty = ''rotation'' \<and> hex64 old_key \<and> hex64 new_key
                  \<and> is_rfc3339 at \<and> (s \<noteq> None \<or> so \<noteq> None)
               then Some \<lparr>r_old = old_key, r_new = new_key, r_rotated_at = stamp at,
                          r_sig = s, r_sig_old = so, r_sig_new = sn\<rparr>
               else None
           | _ \<Rightarrow> None)
      | _ \<Rightarrow> None)"

text \<open>\<^verbatim>\<open>rotationCore\<close>: every member but the signatures.\<close>

definition rotation_core :: "rotation \<Rightarrow> json_members" where
  "rotation_core r =
     [(''v'', JStr protocol_version), (''type'', JStr ''rotation''), (''old'', JStr (r_old r)),
      (''new'', JStr (r_new r)), (''rotated_at'', JStr (text_of (r_rotated_at r)))]"

definition rotation_members :: "rotation \<Rightarrow> json_members" where
  "rotation_members r = rotation_core r @ opt_json_member ''sig'' JStr (r_sig r) @
     opt_json_member ''sig_old'' JStr (r_sig_old r) @ opt_json_member ''sig_new'' JStr (r_sig_new r)"

section \<open>Verification\<close>

datatype rotation_rejection =
    RotMalformed
  | RotSelfRotation
  | RotMissingOldKeySignature
  | RotNotSignedByOldKey
  | RotLegacySigOldUnverifiable

datatype rotation_encoding = EncSig | EncSigOld

datatype rotation_verdict = RotOk rotation rotation_encoding | RotBad rotation_rejection

definition verify_rotation :: "crypto_lib \<Rightarrow> bool \<Rightarrow> json \<Rightarrow> rotation_verdict" where
  "verify_rotation cl accept_legacy j =
     (case parse_rotation j of
        None \<Rightarrow> RotBad RotMalformed
      | Some r \<Rightarrow>
          if r_old r = r_new r then RotBad RotSelfRotation
          else case r_sig r of
            Some s \<Rightarrow>
              if \<not> verify_object cl (rotation_members r) (r_old r) then RotBad RotNotSignedByOldKey
              else RotOk r EncSig
          | None \<Rightarrow>
              (case r_sig_old r of
                 None \<Rightarrow> RotBad RotMissingOldKeySignature
               | Some so \<Rightarrow>
                   if \<not> accept_legacy then RotBad RotLegacySigOldUnverifiable
                   else if \<not> verify_object cl (map_set ''sig'' (JStr so) (rotation_core r)) (r_old r)
                        then RotBad RotNotSignedByOldKey
                        else RotOk r EncSigOld))"

text \<open>\<^verbatim>\<open>signRotation\<close>: a statement with one \<^verbatim>\<open>sig\<close> by the old key.\<close>

definition sign_rotation :: "crypto_lib \<Rightarrow> string \<Rightarrow> persona_id \<Rightarrow> rfc3339 \<Rightarrow> rotation option" where
  "sign_rotation cl old_private new_public at =
     (case public_key_from_private cl old_private of
        None \<Rightarrow> None
      | Some old_public \<Rightarrow>
          (let r = \<lparr>r_old = old_public, r_new = new_public, r_rotated_at = at,
                    r_sig = None, r_sig_old = None, r_sig_new = None\<rparr>
           in case sign_object cl (rotation_core r) old_private of
                None \<Rightarrow> None
              | Some s \<Rightarrow>
                  if hex64 old_public \<and> hex64 new_public \<and> hex128 s
                  then Some (r\<lparr>r_sig := Some s\<rparr>) else None))"

section \<open>Resolving a successor\<close>

type_synonym rotation_map = "(persona_id \<times> (persona_id \<times> rotation) list) list"

text \<open>The verified statements, by old key and then by new key; the refused ones in order.\<close>

fun collect_rotations ::
    "crypto_lib \<Rightarrow> bool \<Rightarrow> json list \<Rightarrow> rotation_map \<Rightarrow> rotation_map \<times> (json \<times> rotation_rejection) list" where
  "collect_rotations cl al [] m = (m, [])"
| "collect_rotations cl al (j # js) m =
     (case verify_rotation cl al j of
        RotBad why \<Rightarrow>
          (case collect_rotations cl al js m of (m', rejected) \<Rightarrow> (m', (j, why) # rejected))
      | RotOk r enc \<Rightarrow>
          (let by_new = (case map_of m (r_old r) of None \<Rightarrow> [] | Some x \<Rightarrow> x)
           in collect_rotations cl al js (map_set (r_old r) (map_set (r_new r) r by_new) m)))"

datatype successor_stop = StopEnd | StopFork | StopCycle | StopDepth

definition max_rotation_depth :: nat where
  "max_rotation_depth = 32"

text \<open>The loop: the chain so far, the keys seen and the current key.\<close>

function walk_rotations ::
    "rotation_map \<Rightarrow> rotation list \<Rightarrow> persona_id list \<Rightarrow> persona_id \<Rightarrow>
     persona_id \<times> rotation list \<times> successor_stop" where
  "walk_rotations m chain seen current =
     (case map_of m current of
        None \<Rightarrow> (current, chain, StopEnd)
      | Some next \<Rightarrow>
          (case next of
             [] \<Rightarrow> (current, chain, StopEnd)
           | (successor, r) # others \<Rightarrow>
               if others \<noteq> [] then (current, chain, StopFork)
               else if successor \<in> set seen then (current, chain, StopCycle)
               else if max_rotation_depth \<le> length chain then (current, chain, StopDepth)
               else walk_rotations m (chain @ [r]) (seen @ [successor]) successor))"
  by pat_completeness auto
termination
  by (relation "measure (\<lambda>(m, chain, seen, current). max_rotation_depth - length chain)") auto

declare walk_rotations.simps [simp del]

record successor_resolution =
  sr_key :: persona_id
  sr_current :: persona_id
  sr_chain :: "rotation list"
  sr_rejected :: "(json \<times> rotation_rejection) list"
  sr_stopped_because :: successor_stop

definition resolve_successor :: "crypto_lib \<Rightarrow> bool \<Rightarrow> persona_id \<Rightarrow> json list \<Rightarrow> successor_resolution" where
  "resolve_successor cl al key js =
     (case collect_rotations cl al js [] of
        (m, rejected) \<Rightarrow>
          (case walk_rotations m [] [key] key of
             (current, chain, stop) \<Rightarrow>
               \<lparr>sr_key = key, sr_current = current, sr_chain = chain, sr_rejected = rejected,
                sr_stopped_because = stop\<rparr>))"

definition is_successor_of :: "crypto_lib \<Rightarrow> bool \<Rightarrow> persona_id \<Rightarrow> persona_id \<Rightarrow> json list \<Rightarrow> bool" where
  "is_successor_of cl al candidate key js \<longleftrightarrow>
     (if candidate = key then True else sr_current (resolve_successor cl al key js) = candidate)"

text \<open>The keys a party has held, each with the instant it stopped being current.\<close>

record party_key =
  pk_key :: persona_id
  pk_superseded_at :: "rfc3339 option"

fun lineage_tail :: "rotation list \<Rightarrow> party_key list" where
  "lineage_tail [] = []"
| "lineage_tail (r # rs) =
     \<lparr>pk_key = r_new r, pk_superseded_at = map_option r_rotated_at (hd_opt rs)\<rparr> # lineage_tail rs"

definition key_lineage :: "crypto_lib \<Rightarrow> bool \<Rightarrow> persona_id \<Rightarrow> json list \<Rightarrow> party_key list" where
  "key_lineage cl al key js =
     (let chain = sr_chain (resolve_successor cl al key js)
      in \<lparr>pk_key = key, pk_superseded_at = map_option r_rotated_at (hd_opt chain)\<rparr> # lineage_tail chain)"

section \<open>What a verified statement carries\<close>

lemma verify_rotation_old_key:
  assumes "verify_rotation cl al j = RotOk r enc"
  shows "parse_rotation j = Some r \<and> r_old r \<noteq> r_new r \<and>
    (case enc of
       EncSig \<Rightarrow> r_sig r \<noteq> None \<and> verify_object cl (rotation_members r) (r_old r)
     | EncSigOld \<Rightarrow> al \<and> r_sig r = None \<and>
         (\<exists>so. r_sig_old r = Some so \<and>
           verify_object cl (map_set ''sig'' (JStr so) (rotation_core r)) (r_old r)))"
  using assms
  by (auto simp: verify_rotation_def split: option.splits if_splits)

lemma unsigned_rotation_members: "unsigned_object (rotation_members r) = rotation_core r"
  by (auto simp: rotation_members_def rotation_core_def unsigned_object_def is_signature_key_def
      starts_with_def opt_json_member_def split: option.splits)

lemma unsigned_rotation_core: "unsigned_object (rotation_core r) = rotation_core r"
  by (simp add: rotation_core_def unsigned_object_def is_signature_key_def starts_with_def)

lemma rotation_members_sig: "map_of (rotation_members r) ''sig'' = map_option JStr (r_sig r)"
  by (auto simp: rotation_members_def rotation_core_def opt_json_member_def split: option.splits)

text \<open>The signature of either encoding covers the same octets: the core.\<close>

lemma verify_rotation_members:
  "verify_object cl (rotation_members r) pub \<longleftrightarrow>
     (\<exists>s. r_sig r = Some s \<and> verify_object cl (map_set ''sig'' (JStr s) (rotation_core r)) pub)"
proof (cases "r_sig r")
  case None
  then have "map_of (rotation_members r) ''sig'' = None" by (simp add: rotation_members_sig)
  then have "\<not> verify_object cl (rotation_members r) pub" by (simp add: verify_object_def)
  with None show ?thesis by simp
next
  case (Some s)
  have "map_of (rotation_members r) ''sig'' = map_of (map_set ''sig'' (JStr s) (rotation_core r)) ''sig''"
    by (simp add: rotation_members_sig Some map_of_map_set)
  moreover have "unsigned_object (rotation_members r) = unsigned_object (map_set ''sig'' (JStr s) (rotation_core r))"
    by (simp add: unsigned_rotation_members unsigned_set_sig unsigned_rotation_core)
  moreover have "distinct (map fst (unsigned_object (rotation_members r)))"
    unfolding unsigned_rotation_members by (simp add: rotation_core_def)
  ultimately have "verify_object cl (rotation_members r) pub
      = verify_object cl (map_set ''sig'' (JStr s) (rotation_core r)) pub"
    by (intro verify_object_cong) simp_all
  with Some show ?thesis by simp
qed

text \<open>What \<^verbatim>\<open>signRotation\<close> emits is what a verifier accepts.\<close>

lemma parse_rotation_members:
  assumes "hex64 (r_old r)" and "hex64 (r_new r)" and "r_sig r = Some s" and "hex128 s"
    and "r_sig_old r = None" and "r_sig_new r = None"
  shows "parse_rotation (JObj (rotation_members r)) = Some r"
  using assms is_rfc3339_text_of [of "r_rotated_at r"]
  by (cases r)
    (simp add: parse_rotation_def rotation_members_def rotation_core_def opt_json_member_def
      optional_signature_def protocol_version_def stamp_text_of)

lemma sign_rotation_verifies:
  assumes "sign_rotation cl sk new_public at = Some r"
    and "signs_for cl sk (r_old r)" and "r_old r \<noteq> new_public"
  shows "verify_rotation cl al (JObj (rotation_members r)) = RotOk r EncSig"
proof -
  from assms(1) obtain old_public s r0 where
      r0: "r0 = \<lparr>r_old = old_public, r_new = new_public, r_rotated_at = at,
                 r_sig = None, r_sig_old = None, r_sig_new = None\<rparr>"
    and s: "sign_object cl (rotation_core r0) sk = Some s"
    and r: "r = r0\<lparr>r_sig := Some s\<rparr>" "hex64 old_public" "hex64 new_public" "hex128 s"
    by (auto simp: sign_rotation_def Let_def split: option.splits if_splits)
  have core: "rotation_core r = rotation_core r0" by (simp add: r rotation_core_def)
  have "with_signature cl (rotation_core r) sk = Some (map_set ''sig'' (JStr s) (rotation_core r))"
    by (simp add: with_signature_def core s)
  with assms(2) have "verify_object cl (map_set ''sig'' (JStr s) (rotation_core r)) (r_old r)"
    by (rule verify_with_signature)
  moreover have "parse_rotation (JObj (rotation_members r)) = Some r"
    by (rule parse_rotation_members [of r s]) (simp_all add: r r0)
  ultimately show ?thesis using assms(3)
    by (simp add: verify_rotation_def verify_rotation_members r r0)
qed

section \<open>The resolved chain\<close>

definition verified_in :: "crypto_lib \<Rightarrow> bool \<Rightarrow> json list \<Rightarrow> rotation \<Rightarrow> bool" where
  "verified_in cl al js r \<longleftrightarrow> (\<exists>j \<in> set js. \<exists>enc. verify_rotation cl al j = RotOk r enc)"

definition rotation_map_ok :: "(rotation \<Rightarrow> bool) \<Rightarrow> rotation_map \<Rightarrow> bool" where
  "rotation_map_ok P m \<longleftrightarrow>
     (\<forall>k by_new. map_of m k = Some by_new \<longrightarrow>
        (\<forall>n r. map_of by_new n = Some r \<longrightarrow> r_old r = k \<and> r_new r = n \<and> P r))"

lemma rotation_map_okD:
  "rotation_map_ok P m \<Longrightarrow> map_of m k = Some by_new \<Longrightarrow> map_of by_new n = Some r \<Longrightarrow>
     r_old r = k \<and> r_new r = n \<and> P r"
  by (auto simp: rotation_map_ok_def)

lemma rotation_map_ok_set:
  assumes "rotation_map_ok P m" and "P r"
  shows "rotation_map_ok P
    (map_set (r_old r) (map_set (r_new r) r (case map_of m (r_old r) of None \<Rightarrow> [] | Some x \<Rightarrow> x)) m)"
  using assms by (auto simp: rotation_map_ok_def map_of_map_set split: option.splits if_splits)

lemma collect_rotations_ok:
  assumes "collect_rotations cl al js m = (m', rejected)" and "rotation_map_ok P m"
    and "\<And>r. verified_in cl al js r \<Longrightarrow> P r"
  shows "rotation_map_ok P m'"
  using assms
proof (induction cl al js m arbitrary: m' rejected rule: collect_rotations.induct)
  case (1 cl al m)
  then show ?case by simp
next
  case (2 cl al j js m)
  have P: "\<And>r. verified_in cl al js r \<Longrightarrow> P r" using "2.prems"(3) by (auto simp: verified_in_def)
  show ?case
  proof (cases "verify_rotation cl al j")
    case (RotOk r enc)
    then have "P r" using "2.prems"(3) by (auto simp: verified_in_def)
    with RotOk show ?thesis
      using "2.IH"(1) [OF RotOk refl _ rotation_map_ok_set P] "2.prems" by (simp add: Let_def)
  next
    case (RotBad why)
    then show ?thesis using "2.IH"(2) [OF RotBad _ "2.prems"(2) P] "2.prems"(1)
      by (auto split: prod.splits)
  qed
qed

fun linked :: "persona_id \<Rightarrow> rotation list \<Rightarrow> persona_id \<Rightarrow> bool" where
  "linked k [] c \<longleftrightarrow> k = c"
| "linked k (r # rs) c \<longleftrightarrow> r_old r = k \<and> linked (r_new r) rs c"

lemma linked_snoc: "linked k (rs @ [r]) c \<longleftrightarrow> linked k rs (r_old r) \<and> r_new r = c"
  by (induction rs arbitrary: k) auto

text \<open>A chain from \<open>key\<close> to \<open>current\<close>: linked, without a repeated key, bounded, of good statements.\<close>

definition chain_ok :: "(rotation \<Rightarrow> bool) \<Rightarrow> persona_id \<Rightarrow> rotation list \<Rightarrow> persona_id \<Rightarrow> bool" where
  "chain_ok P key chain current \<longleftrightarrow>
     linked key chain current \<and> distinct (key # map r_new chain) \<and>
     length chain \<le> max_rotation_depth \<and> (\<forall>r \<in> set chain. P r)"

lemma chain_ok_snoc:
  assumes "chain_ok P key chain current" and "r_old r = current" and "P r"
    and "r_new r \<notin> set (key # map r_new chain)" and "length chain < max_rotation_depth"
  shows "chain_ok P key (chain @ [r]) (r_new r)"
  using assms by (auto simp: chain_ok_def linked_snoc)

lemma walk_rotations_ok:
  assumes "walk_rotations m chain seen current = (c', chain', stop)"
    and "rotation_map_ok P m" and "chain_ok P key chain current" and "seen = key # map r_new chain"
  shows "chain_ok P key chain' c'"
  using assms
proof (induction m chain seen current rule: walk_rotations.induct)
  case (1 m chain seen current)
  show ?case
  proof (cases "map_of m current")
    case None
    with "1.prems" show ?thesis by (simp add: walk_rotations.simps)
  next
    case (Some next_keys)
    note outer = Some
    show ?thesis
    proof (cases next_keys)
      case Nil
      with outer "1.prems" show ?thesis by (simp add: walk_rotations.simps)
    next
      case (Cons entry others)
      obtain successor r where entry: "entry = (successor, r)" by fastforce
      show ?thesis
      proof (cases "others \<noteq> [] \<or> successor \<in> set seen \<or> max_rotation_depth \<le> length chain")
        case True
        with outer Cons entry "1.prems"(1) have "c' = current \<and> chain' = chain"
          by (simp add: walk_rotations.simps [of m chain seen current] split: if_splits)
        with "1.prems"(3) show ?thesis by simp
      next
        case False
        have "r_old r = current \<and> r_new r = successor \<and> P r"
          using rotation_map_okD [OF "1.prems"(2) outer, of successor r] Cons entry by simp
        with False "1.prems"(3,4) have "chain_ok P key (chain @ [r]) successor"
          using chain_ok_snoc [of P key chain current r] by auto
        moreover have "walk_rotations m (chain @ [r]) (seen @ [successor]) successor = (c', chain', stop)"
          using False outer Cons entry "1.prems"(1)
          by (simp add: walk_rotations.simps [of m chain seen current])
        ultimately show ?thesis
          using "1.IH" [OF outer Cons entry [symmetric]] False "1.prems"(2,4)
            \<open>r_old r = current \<and> r_new r = successor \<and> P r\<close>
          by simp
      qed
    qed
  qed
qed

lemma resolve_successor_chain:
  "chain_ok (verified_in cl al js) key (sr_chain (resolve_successor cl al key js))
     (sr_current (resolve_successor cl al key js))"
proof -
  obtain m rejected where m: "collect_rotations cl al js [] = (m, rejected)" by fastforce
  obtain c chain stop where w: "walk_rotations m [] [key] key = (c, chain, stop)"
    by (metis prod_cases3)
  have "rotation_map_ok (verified_in cl al js) m"
    by (rule collect_rotations_ok [OF m]) (simp_all add: rotation_map_ok_def)
  moreover have "chain_ok (verified_in cl al js) key [] key"
    by (simp add: chain_ok_def)
  ultimately have "chain_ok (verified_in cl al js) key chain c"
    by (rule walk_rotations_ok [OF w]) simp
  with m w show ?thesis by (simp add: resolve_successor_def)
qed

text \<open>A fork: two verified statements of one old key with different new keys stop the walk there.\<close>

lemma collect_rotations_keeps:
  assumes "collect_rotations cl al js m = (m', rejected)"
    and "map_of m k = Some b" and "n \<in> fst ` set b"
  shows "\<exists>b'. map_of m' k = Some b' \<and> n \<in> fst ` set b'"
  using assms
proof (induction cl al js m arbitrary: m' rejected b rule: collect_rotations.induct)
  case (1 cl al m)
  then show ?case by simp
next
  case (2 cl al j js m)
  show ?case
  proof (cases "verify_rotation cl al j")
    case (RotOk r enc)
    let ?b = "map_set (r_new r) r (case map_of m (r_old r) of None \<Rightarrow> [] | Some x \<Rightarrow> x)"
    let ?m = "map_set (r_old r) ?b m"
    have "\<exists>b2. map_of ?m k = Some b2 \<and> n \<in> fst ` set b2"
      using "2.prems"(2,3) by (cases "k = r_old r") (auto simp: map_of_map_set fst_set_map_set)
    then show ?thesis using "2.IH"(1) [OF RotOk refl] "2.prems"(1) RotOk by (auto simp: Let_def)
  next
    case (RotBad why)
    then show ?thesis using "2.IH"(2) [OF RotBad] "2.prems" by (auto split: prod.splits)
  qed
qed

lemma collect_rotations_has:
  assumes "collect_rotations cl al js m = (m', rejected)" and "j \<in> set js"
    and "verify_rotation cl al j = RotOk r enc"
  shows "\<exists>b. map_of m' (r_old r) = Some b \<and> r_new r \<in> fst ` set b"
  using assms
proof (induction cl al js m arbitrary: m' rejected rule: collect_rotations.induct)
  case (1 cl al m)
  then show ?case by simp
next
  case (2 cl al j0 js m)
  show ?case
  proof (cases "verify_rotation cl al j0")
    case (RotOk r0 enc0)
    let ?b = "map_set (r_new r0) r0 (case map_of m (r_old r0) of None \<Rightarrow> [] | Some x \<Rightarrow> x)"
    let ?m = "map_set (r_old r0) ?b m"
    have rest: "collect_rotations cl al js ?m = (m', rejected)"
      using "2.prems"(1) RotOk by (simp add: Let_def)
    show ?thesis
    proof (cases "j = j0")
      case True
      with RotOk "2.prems"(3) have "r0 = r" by simp
      with collect_rotations_keeps [OF rest, of "r_old r" ?b "r_new r"] show ?thesis
        by (simp add: map_of_map_set fst_set_map_set)
    next
      case False
      with "2.prems" "2.IH"(1) [OF RotOk refl rest] show ?thesis by simp
    qed
  next
    case (RotBad why)
    then show ?thesis using "2.IH"(2) [OF RotBad] "2.prems" by (auto split: prod.splits)
  qed
qed

lemma two_names_length: "a \<in> fst ` set b \<Longrightarrow> c \<in> fst ` set b \<Longrightarrow> a \<noteq> c \<Longrightarrow> \<exists>x y z. b = x # y # z"
  by (cases b; cases "tl b") auto

lemma resolve_successor_fork:
  assumes "j1 \<in> set js" "verify_rotation cl al j1 = RotOk r1 e1" "r_old r1 = key"
    and "j2 \<in> set js" "verify_rotation cl al j2 = RotOk r2 e2" "r_old r2 = key"
    and "r_new r1 \<noteq> r_new r2"
  shows "resolve_successor cl al key js =
    \<lparr>sr_key = key, sr_current = key, sr_chain = [],
     sr_rejected = snd (collect_rotations cl al js []), sr_stopped_because = StopFork\<rparr>"
proof -
  obtain m rejected where m: "collect_rotations cl al js [] = (m, rejected)" by fastforce
  obtain b where b: "map_of m key = Some b" "r_new r1 \<in> fst ` set b"
    using collect_rotations_has [OF m assms(1,2)] unfolding assms(3) by blast
  obtain b' where b': "map_of m key = Some b'" "r_new r2 \<in> fst ` set b'"
    using collect_rotations_has [OF m assms(4,5)] unfolding assms(6) by blast
  have "b' = b" using b(1) b'(1) by simp
  from two_names_length [OF b(2) b'(2) [unfolded \<open>b' = b\<close>] assms(7)] obtain x y z where "b = x # y # z" by blast
  with m b(1) show ?thesis
    by (cases x) (simp add: resolve_successor_def walk_rotations.simps)
qed

text \<open>A statement that does not verify changes no resolution.\<close>

definition verifies :: "crypto_lib \<Rightarrow> bool \<Rightarrow> json \<Rightarrow> bool" where
  "verifies cl al j \<longleftrightarrow> (case verify_rotation cl al j of RotOk _ _ \<Rightarrow> True | RotBad _ \<Rightarrow> False)"

lemma collect_rotations_filter:
  "fst (collect_rotations cl al js m) = fst (collect_rotations cl al (filter (verifies cl al) js) m)"
  by (induction cl al js m rule: collect_rotations.induct)
    (auto simp: verifies_def Let_def split: rotation_verdict.splits prod.splits)

lemma resolve_successor_filter:
  "sr_chain (resolve_successor cl al key js) = sr_chain (resolve_successor cl al key (filter (verifies cl al) js)) \<and>
   sr_current (resolve_successor cl al key js) = sr_current (resolve_successor cl al key (filter (verifies cl al) js))"
proof -
  obtain m rej where m: "collect_rotations cl al js [] = (m, rej)" by fastforce
  obtain rej' where m': "collect_rotations cl al (filter (verifies cl al) js) [] = (m, rej')"
    using collect_rotations_filter [of cl al js "[]"] m by (metis fst_conv prod.exhaust)
  obtain c chain stop where "walk_rotations m [] [key] key = (c, chain, stop)"
    by (metis prod_cases3)
  with m m' show ?thesis by (simp add: resolve_successor_def)
qed

section \<open>The lineage\<close>

lemma lineage_tail_keys: "map pk_key (lineage_tail rs) = map r_new rs"
  by (induction rs) auto

lemma lineage_tail_last: "rs \<noteq> [] \<Longrightarrow> pk_superseded_at (last (lineage_tail rs)) = None \<and>
    pk_key (last (lineage_tail rs)) = r_new (last rs)"
  by (induction rs rule: induct_list012) (auto simp: hd_opt_def)

lemma lineage_tail_inner:
  "Suc i < length rs \<Longrightarrow> pk_superseded_at (lineage_tail rs ! i) = Some (r_rotated_at (rs ! Suc i))"
proof (induction rs arbitrary: i)
  case Nil
  then show ?case by simp
next
  case (Cons r rs)
  then show ?case by (cases i; cases rs) auto
qed

lemma length_lineage_tail: "length (lineage_tail rs) = length rs"
  by (induction rs) auto

lemma linked_last: "linked k rs c \<Longrightarrow> c = (if rs = [] then k else r_new (last rs))"
  by (induction rs arbitrary: k) auto

lemma key_lineage_keys:
  "map pk_key (key_lineage cl al key js) = key # map r_new (sr_chain (resolve_successor cl al key js))"
  by (simp add: key_lineage_def Let_def lineage_tail_keys)

lemma key_lineage_distinct: "distinct (map pk_key (key_lineage cl al key js))"
  using resolve_successor_chain [of cl al js key] by (simp only: key_lineage_keys chain_ok_def)

lemma key_lineage_last:
  "pk_key (last (key_lineage cl al key js)) = sr_current (resolve_successor cl al key js) \<and>
   pk_superseded_at (last (key_lineage cl al key js)) = None"
proof -
  let ?rs = "sr_chain (resolve_successor cl al key js)"
  have "sr_current (resolve_successor cl al key js) = (if ?rs = [] then key else r_new (last ?rs))"
    using resolve_successor_chain [of cl al js key] linked_last by (auto simp: chain_ok_def)
  moreover have "?rs \<noteq> [] \<Longrightarrow> lineage_tail ?rs \<noteq> []"
    by (metis length_0_conv length_lineage_tail)
  ultimately show ?thesis
    using lineage_tail_last [of ?rs] by (auto simp: key_lineage_def Let_def)
qed

lemma key_lineage_superseded:
  assumes "i < length (sr_chain (resolve_successor cl al key js))"
  shows "pk_superseded_at (key_lineage cl al key js ! i) =
    Some (r_rotated_at (sr_chain (resolve_successor cl al key js) ! i))"
  using assms lineage_tail_inner [of "i - 1" "sr_chain (resolve_successor cl al key js)"]
  by (cases i; cases "sr_chain (resolve_successor cl al key js)")
    (auto simp: key_lineage_def Let_def)

end
