(* ===== verification/Transitions.thy ===== *)
theory Transitions
  imports Rotation
begin

text \<open>
  \<^verbatim>\<open>packages/node/src/transitions.ts\<close>: the transition table of the protocol and the verification of a
  whole assertion chain. \<open>step\<close> is one pass of the source's \<^verbatim>\<open>step\<close>, in its order of checks;
  \<open>verify_assertion_chain\<close> is the oracle every other component asks. What never changes during a
  run (the signature library, the verifier's clock, the key lineages) is the record \<open>verifier\<close>; what
  a run mutates is the record \<open>chain_state\<close>.
\<close>

section \<open>The state of a run\<close>

record verifier =
  v_lib :: crypto_lib
  v_now :: "int option"
  v_lineage :: "persona_id \<Rightarrow> party_key list"

text \<open>The default of the last parameter: nobody has rotated.\<close>

definition no_rotation :: "persona_id \<Rightarrow> party_key list" where
  "no_rotation k = [\<lparr>pk_key = k, pk_superseded_at = None\<rparr>]"

record chain_exit =
  x_state :: wire_state
  x_by :: persona_id
  x_at :: rfc3339

text \<open>A \<^verbatim>\<open>Set\<close> of signers is the list of its members in the order they were added.\<close>

record chain_state =
  c_state :: effective_state
  c_window_opened_at :: "rfc3339 option"
  c_superseded_by :: "persona_id list"
  c_dispute_closed_by :: "persona_id list"
  c_exit :: "chain_exit option"
  c_contest_closed_by :: "persona_id list"
  c_contest_superseded_by :: "persona_id list"
  c_contested_at :: "rfc3339 option"
  c_disputed_at :: "rfc3339 option"
  c_resolved_at :: "rfc3339 option"
  c_latest :: "(persona_id \<times> rfc3339) list"

definition initial_chain :: chain_state where
  "initial_chain = \<lparr>c_state = SNone, c_window_opened_at = None, c_superseded_by = [],
     c_dispute_closed_by = [], c_exit = None, c_contest_closed_by = [], c_contest_superseded_by = [],
     c_contested_at = None, c_disputed_at = None, c_resolved_at = None, c_latest = []\<rparr>"

section \<open>Clocks and windows\<close>

definition dispute_window :: iso_duration where
  "dispute_window = duration ''P30D''"

definition expiry_skew_ms :: int where
  "expiry_skew_ms = 86400000"

text \<open>
  \<^verbatim>\<open>windowElapsed\<close>. The source casts the window to a string: a chain of a well-formed edge never reaches
  this line without one (\<open>pending_has_window\<close> below). A date out of range compares false.
\<close>

definition window_elapsed :: "edge \<Rightarrow> rfc3339 \<Rightarrow> rfc3339 \<Rightarrow> bool" where
  "window_elapsed e opened at =
     (case e_acceptance_window e of
        None \<Rightarrow> False
      | Some w \<Rightarrow> (case add_duration (ms_of opened) w of None \<Rightarrow> False | Some t \<Rightarrow> t \<le> ms_of at))"

definition before_dispute_window_end :: "rfc3339 \<Rightarrow> rfc3339 \<Rightarrow> bool" where
  "before_dispute_window_end since at =
     (case add_duration (ms_of since) dispute_window of None \<Rightarrow> False | Some t \<Rightarrow> ms_of at < t)"

definition dated_in_the_future :: "int option \<Rightarrow> rfc3339 \<Rightarrow> bool" where
  "dated_in_the_future now at = (case now of None \<Rightarrow> False | Some n \<Rightarrow> n + expiry_skew_ms < ms_of at)"

text \<open>\<^verbatim>\<open>heldBy\<close>: was this key the party's current one at that instant?\<close>

definition held_by :: "party_key list \<Rightarrow> persona_id \<Rightarrow> rfc3339 \<Rightarrow> bool" where
  "held_by ks signer at =
     (case find (\<lambda>k. pk_key k = signer) ks of
        None \<Rightarrow> False
      | Some k \<Rightarrow> (case pk_superseded_at k of None \<Rightarrow> True | Some t \<Rightarrow> ms_of at < ms_of t))"

definition is_owner_key :: "verifier \<Rightarrow> edge \<Rightarrow> assertion \<Rightarrow> bool" where
  "is_owner_key v e a = held_by (v_lineage v (e_owner e)) (a_by a) (a_asserted_at a)"

definition is_owed_to_key :: "verifier \<Rightarrow> edge \<Rightarrow> assertion \<Rightarrow> bool" where
  "is_owed_to_key v e a = held_by (v_lineage v (e_owed_to e)) (a_by a) (a_asserted_at a)"

section \<open>One assertion\<close>

type_synonym step_result = "(rejection_reason, chain_state) result"

text \<open>Would this have been a legal unilateral exit from \<^verbatim>\<open>open\<close>? \<open>None\<close> if so.\<close>

definition unilateral_exit_fault ::
    "edge \<Rightarrow> assertion \<Rightarrow> int option \<Rightarrow> bool \<Rightarrow> bool \<Rightarrow> rejection_reason option" where
  "unilateral_exit_fault e a now own owed =
     (case a_state a of
        AClosed \<Rightarrow>
          if \<not> own then Some WrongSignerForTransition
          else if a_evidence_hash a = None then Some EvidenceHashRequiredForOwnerClosure else None
      | AReleased \<Rightarrow> if owed then None else Some WrongSignerForTransition
      | AExpired \<Rightarrow>
          (case e_due e of
             None \<Rightarrow> Some DueIsNull
           | Some due \<Rightarrow>
               if ms_of (a_asserted_at a) < ms_of due then Some ExpiryBeforeDue
               else if dated_in_the_future now (a_asserted_at a) then Some ExpiryDatedInTheFuture
               else None)
      | _ \<Rightarrow> Some IllegalSourceState)"

definition settle :: "chain_state \<Rightarrow> effective_state \<Rightarrow> rfc3339 \<Rightarrow> chain_state" where
  "settle c s at = c\<lparr>c_state := s, c_resolved_at := Some at\<rparr>"

definition take_exit :: "chain_state \<Rightarrow> assertion \<Rightarrow> chain_state" where
  "take_exit c a = c\<lparr>c_exit := Some \<lparr>x_state = a_state a, x_by = a_by a, x_at = a_asserted_at a\<rparr>\<rparr>"

text \<open>The condition of a concurrent exit.\<close>

definition concurrent_exit :: "chain_state \<Rightarrow> assertion \<Rightarrow> bool" where
  "concurrent_exit c a =
     (case c_exit c of
        None \<Rightarrow> False
      | Some x \<Rightarrow> a_by a \<noteq> x_by x \<and> a_state a \<in> set unilateral_exits \<and> a_state a \<noteq> x_state x \<and>
                  c_state c \<noteq> SContestedClosure \<and> ms_of (a_asserted_at a) \<le> ms_of (x_at x))"

definition step_concurrent ::
    "verifier \<Rightarrow> edge \<Rightarrow> chain_state \<Rightarrow> assertion \<Rightarrow> bool \<Rightarrow> bool \<Rightarrow> step_result" where
  "step_concurrent v e c a own owed =
     (case unilateral_exit_fault e a (v_now v) own owed of
        Some r \<Rightarrow> Inl r
      | None \<Rightarrow> Inr ((settle c SContestedClosure (a_asserted_at a))\<lparr>c_contested_at := Some (a_asserted_at a)\<rparr>))"

text \<open>A signature of two: a second one by the same key is refused.\<close>

definition add_signer :: "persona_id list \<Rightarrow> persona_id \<Rightarrow> (rejection_reason, persona_id list) result" where
  "add_signer seen signer =
     (if signer \<in> set seen then Inl DuplicateAssertionBySameParty else Inr (seen @ [signer]))"

definition settle_if_both ::
    "chain_state \<Rightarrow> persona_id list \<Rightarrow> effective_state \<Rightarrow> rfc3339 \<Rightarrow> step_result" where
  "settle_if_both c seen s at = Inr (if length seen = 2 then settle c s at else c)"

text \<open>The ways out of \<^verbatim>\<open>contested-closure\<close>.\<close>

definition step_contested :: "verifier \<Rightarrow> chain_state \<Rightarrow> assertion \<Rightarrow> step_result" where
  "step_contested v c a =
     (case a_state a of
        AClosed \<Rightarrow> bind_result (add_signer (c_contest_closed_by c) (a_by a))
          (\<lambda>seen. settle_if_both (c\<lparr>c_contest_closed_by := seen\<rparr>) seen SClosed (a_asserted_at a))
      | ASuperseded \<Rightarrow> bind_result (add_signer (c_contest_superseded_by c) (a_by a))
          (\<lambda>seen. settle_if_both (c\<lparr>c_contest_superseded_by := seen\<rparr>) seen SSuperseded (a_asserted_at a))
      | AExpired \<Rightarrow>
          (case c_contested_at c of
             None \<Rightarrow> Inl IllegalSourceState
           | Some since \<Rightarrow>
               if before_dispute_window_end since (a_asserted_at a) then Inl DisputeWindowNotElapsed
               else if dated_in_the_future (v_now v) (a_asserted_at a) then Inl ExpiryDatedInTheFuture
               else Inr (settle c SExpired (a_asserted_at a)))
      | _ \<Rightarrow> Inl IllegalSourceState)"

text \<open>The rows for \<^verbatim>\<open>closed\<close>.\<close>

definition step_closed :: "edge \<Rightarrow> chain_state \<Rightarrow> assertion \<Rightarrow> bool \<Rightarrow> bool \<Rightarrow> step_result" where
  "step_closed e c a own owed =
     (case c_state c of
        SOpen \<Rightarrow>
          if \<not> own then Inl WrongSignerForTransition
          else if a_evidence_hash a = None then Inl EvidenceHashRequiredForOwnerClosure
          else if e_closure_policy e = OnEvidence
          then Inr (settle (take_exit c a) SClosed (a_asserted_at a))
          else Inr ((take_exit c a)\<lparr>c_state := SPendingAcceptance,
                                    c_window_opened_at := Some (a_asserted_at a)\<rparr>)
      | SPendingAcceptance \<Rightarrow>
          if owed then Inr (settle c SClosed (a_asserted_at a))
          else (case c_window_opened_at c of
                  None \<Rightarrow> Inl IllegalSourceState
                | Some opened \<Rightarrow>
                    if \<not> window_elapsed e opened (a_asserted_at a) then Inl AcceptanceWindowNotElapsed
                    else Inr (settle c SClosed (a_asserted_at a)))
      | SDisputed \<Rightarrow> bind_result (add_signer (c_dispute_closed_by c) (a_by a))
          (\<lambda>seen. settle_if_both (c\<lparr>c_dispute_closed_by := seen\<rparr>) seen SClosed (a_asserted_at a))
      | _ \<Rightarrow> Inl IllegalSourceState)"

text \<open>The rows for \<^verbatim>\<open>expired\<close>.\<close>

definition step_expired :: "verifier \<Rightarrow> edge \<Rightarrow> chain_state \<Rightarrow> assertion \<Rightarrow> step_result" where
  "step_expired v e c a =
     (case c_state c of
        SDisputed \<Rightarrow>
          (case c_disputed_at c of
             None \<Rightarrow> Inl IllegalSourceState
           | Some since \<Rightarrow>
               if before_dispute_window_end since (a_asserted_at a) then Inl DisputeWindowNotElapsed
               else Inr (settle c SExpired (a_asserted_at a)))
      | SOpen \<Rightarrow>
          (case e_due e of
             None \<Rightarrow> Inl DueIsNull
           | Some due \<Rightarrow>
               if ms_of (a_asserted_at a) < ms_of due then Inl ExpiryBeforeDue
               else if dated_in_the_future (v_now v) (a_asserted_at a) then Inl ExpiryDatedInTheFuture
               else Inr (settle (take_exit c a) SExpired (a_asserted_at a)))
      | _ \<Rightarrow> Inl IllegalSourceState)"

text \<open>The switch over the asserted state.\<close>

definition step_row ::
    "verifier \<Rightarrow> edge \<Rightarrow> chain_state \<Rightarrow> assertion \<Rightarrow> bool \<Rightarrow> bool \<Rightarrow> step_result" where
  "step_row v e c a own owed =
     (case a_state a of
        AProposed \<Rightarrow>
          if c_state c \<noteq> SNone then Inl IllegalSourceState
          else if \<not> own then Inl WrongSignerForTransition
          else Inr (c\<lparr>c_state := SProposed\<rparr>)
      | AConfirmed \<Rightarrow>
          if c_state c \<noteq> SProposed then Inl IllegalSourceState
          else if \<not> owed then Inl WrongSignerForTransition
          else Inr (c\<lparr>c_state := SOpen\<rparr>)
      | AClosed \<Rightarrow> step_closed e c a own owed
      | AReleased \<Rightarrow>
          if c_state c \<noteq> SOpen then Inl IllegalSourceState
          else if \<not> owed then Inl WrongSignerForTransition
          else Inr (settle (take_exit c a) SReleased (a_asserted_at a))
      | AExpired \<Rightarrow> step_expired v e c a
      | ADisputed \<Rightarrow>
          if c_state c \<noteq> SOpen \<and> c_state c \<noteq> SPendingAcceptance then Inl IllegalSourceState
          else if a_evidence_hash a = None then Inl EvidenceHashRequired
          else Inr (c\<lparr>c_state := SDisputed, c_disputed_at := Some (a_asserted_at a)\<rparr>)
      | ASuperseded \<Rightarrow>
          if c_state c \<noteq> SOpen \<and> c_state c \<noteq> SDisputed then Inl IllegalSourceState
          else bind_result (add_signer (c_superseded_by c) (a_by a))
            (\<lambda>seen. settle_if_both (c\<lparr>c_superseded_by := seen\<rparr>) seen SSuperseded (a_asserted_at a))
      | AOpen \<Rightarrow> Inl IllegalSourceState)"

definition step :: "verifier \<Rightarrow> edge \<Rightarrow> chain_state \<Rightarrow> assertion \<Rightarrow> step_result" where
  "step v e c a =
     (if a_edge_id a \<noteq> e_id e then Inl EdgeIdMismatch
      else if \<not> assertion_signature_ok (v_lib v) a then Inl InvalidSignature
      else
        let own = is_owner_key v e a; owed = is_owed_to_key v e a in
        if \<not> own \<and> \<not> owed then Inl SignerNotAParty
        else if a_state a \<in> set non_assertable_states then Inl ImplicitTransitionNotAssertable
        else if concurrent_exit c a then step_concurrent v e c a own owed
        else if terminal (c_state c) then Inl TerminalStateReached
        else if c_state c = SContestedClosure then step_contested v c a
        else step_row v e c a own owed)"

section \<open>The chain\<close>

definition acceptance_window_malformed :: "edge \<Rightarrow> bool" where
  "acceptance_window_malformed e =
     (if e_closure_policy e = OnAcceptance then e_acceptance_window e = None
      else e_acceptance_window e \<noteq> None)"

definition edge_malformed :: "crypto_lib \<Rightarrow> edge \<Rightarrow> rejection_reason option" where
  "edge_malformed cl e =
     (if \<not> edge_id_binds_body cl e then Some EdgeIdDoesNotBindBody
      else if acceptance_window_malformed e then Some MalformedEdgeAcceptanceWindow
      else None)"

text \<open>The body of the map over the assertions: the check on the signer's clock, then the table.\<close>

definition admit :: "verifier \<Rightarrow> edge \<Rightarrow> chain_state \<Rightarrow> assertion \<Rightarrow> step_result" where
  "admit v e c a =
     (case map_of (c_latest c) (a_by a) of
        Some previous \<Rightarrow>
          if ms_of (a_asserted_at a) < ms_of previous then Inl AssertedAtBeforeSignersPrevious
          else map_sum id (\<lambda>c'. c'\<lparr>c_latest := map_set (a_by a) (a_asserted_at a) (c_latest c')\<rparr>) (step v e c a)
      | None \<Rightarrow>
          map_sum id (\<lambda>c'. c'\<lparr>c_latest := map_set (a_by a) (a_asserted_at a) (c_latest c')\<rparr>) (step v e c a))"

fun run_chain :: "verifier \<Rightarrow> edge \<Rightarrow> chain_state \<Rightarrow> assertion list \<Rightarrow> outcome list \<times> chain_state" where
  "run_chain v e c [] = ([], c)"
| "run_chain v e c (a # as) =
     (case admit v e c a of
        Inl r \<Rightarrow> (case run_chain v e c as of (os, c') \<Rightarrow> (Some r # os, c'))
      | Inr c1 \<Rightarrow> (case run_chain v e c1 as of (os, c') \<Rightarrow> (None # os, c')))"

record chain_verification =
  cv_outcomes :: "outcome list"
  cv_final_state :: effective_state
  cv_resolved_at :: "rfc3339 option"
  cv_unverifiable :: bool
  cv_deadlocked_since :: "rfc3339 option"

definition deadlocked_since :: "chain_state \<Rightarrow> rfc3339 option" where
  "deadlocked_since c =
     (if c_state c = SDisputed then c_disputed_at c
      else if c_state c = SContestedClosure then c_contested_at c else None)"

definition verify_assertion_chain :: "verifier \<Rightarrow> edge \<Rightarrow> assertion list \<Rightarrow> chain_verification" where
  "verify_assertion_chain v e as =
     (case edge_malformed (v_lib v) e of
        Some r \<Rightarrow> \<lparr>cv_outcomes = map (\<lambda>_. Some r) as, cv_final_state = SNone, cv_resolved_at = None,
                   cv_unverifiable = \<not> collective_decomposition_valid e, cv_deadlocked_since = None\<rparr>
      | None \<Rightarrow>
          (case run_chain v e initial_chain as of
             (os, c) \<Rightarrow> \<lparr>cv_outcomes = os, cv_final_state = c_state c, cv_resolved_at = c_resolved_at c,
                         cv_unverifiable = \<not> collective_decomposition_valid e,
                         cv_deadlocked_since = deadlocked_since c\<rparr>))"

text \<open>\<^verbatim>\<open>effectiveState\<close>: clockless, without rotations.\<close>

definition clockless :: "crypto_lib \<Rightarrow> verifier" where
  "clockless cl = \<lparr>v_lib = cl, v_now = None, v_lineage = no_rotation\<rparr>"

definition effective_state_of :: "crypto_lib \<Rightarrow> edge \<Rightarrow> assertion list \<Rightarrow> effective_state" where
  "effective_state_of cl e as = cv_final_state (verify_assertion_chain (clockless cl) e as)"

end
