(* ===== verification/ChainProps.thy ===== *)
theory ChainProps
  imports Transitions
begin

text \<open>
  What the oracle of \<^theory_text>\<open>Transitions\<close> promises. The abstract table of the protocol (\<open>table_move\<close>,
  \<open>half_act\<close>) and the refinement of \<open>step\<close> to it; the states a chain reaches (\<open>reach\<close>) and their
  invariants by rule induction; the history behind every state; and the interface \<open>chain_oracle\<close> the
  node and reconciliation rely on, interpreted on \<open>verify_assertion_chain\<close>.
\<close>

section \<open>The abstract table\<close>

text \<open>
  One row per transition of the protocol: the edge, whether the signer acts as owner, as creditor, the
  source state, the asserted state, the target state. Times, evidence and signatures are left out.
\<close>

inductive table_move ::
    "edge \<Rightarrow> bool \<Rightarrow> bool \<Rightarrow> effective_state \<Rightarrow> wire_state \<Rightarrow> effective_state \<Rightarrow> bool" where
  propose: "table_move e True owed SNone AProposed SProposed"
| confirm: "table_move e own True SProposed AConfirmed SOpen"
| close_on_evidence: "e_closure_policy e = OnEvidence \<Longrightarrow> table_move e True owed SOpen AClosed SClosed"
| give_evidence: "e_closure_policy e = OnAcceptance \<Longrightarrow> table_move e True owed SOpen AClosed SPendingAcceptance"
| accept_evidence: "table_move e own True SPendingAcceptance AClosed SClosed"
| tacit_acceptance: "table_move e True owed SPendingAcceptance AClosed SClosed"
| release: "table_move e own True SOpen AReleased SReleased"
| expire: "e_due e = Some d \<Longrightarrow> table_move e own owed SOpen AExpired SExpired"
| dispute_open: "table_move e own owed SOpen ADisputed SDisputed"
| dispute_evidence: "table_move e own owed SPendingAcceptance ADisputed SDisputed"
| settle_dispute: "table_move e own owed SDisputed AClosed SClosed"
| end_dispute: "table_move e own owed SDisputed AExpired SExpired"
| supersede_open: "table_move e own owed SOpen ASuperseded SSuperseded"
| supersede_disputed: "table_move e own owed SDisputed ASuperseded SSuperseded"
| contest_closing: "s \<notin> {SNone, SProposed, SOpen, SContestedClosure} \<Longrightarrow>
    table_move e True owed s AClosed SContestedClosure"
| contest_releasing: "s \<notin> {SNone, SProposed, SOpen, SContestedClosure} \<Longrightarrow>
    table_move e own True s AReleased SContestedClosure"
| contest_expiring: "s \<notin> {SNone, SProposed, SOpen, SContestedClosure} \<Longrightarrow> e_due e = Some d \<Longrightarrow>
    table_move e own owed s AExpired SContestedClosure"
| settle_contest: "table_move e own owed SContestedClosure AClosed SClosed"
| supersede_contest: "table_move e own owed SContestedClosure ASuperseded SSuperseded"
| end_contest: "table_move e own owed SContestedClosure AExpired SExpired"

text \<open>The first of the two signatures an act of both parties needs: recorded, and nothing moves.\<close>

inductive half_act :: "effective_state \<Rightarrow> wire_state \<Rightarrow> bool" where
  "half_act SDisputed AClosed"
| "half_act SContestedClosure AClosed"
| "half_act SOpen ASuperseded"
| "half_act SDisputed ASuperseded"
| "half_act SContestedClosure ASuperseded"

inductive_simps half_act_simps: "half_act s w"
inductive_cases table_move_to_open: "table_move e own owed s w SOpen"

section \<open>Accepting one assertion\<close>

lemma step_guards:
  assumes "step v e c a = Inr c'"
  shows "a_edge_id a = e_id e \<and> assertion_signature_ok (v_lib v) a \<and>
    (is_owner_key v e a \<or> is_owed_to_key v e a) \<and> a_state a \<noteq> AOpen"
  using assms by (auto simp: step_def Let_def non_assertable_states_def split: if_splits)

text \<open>An exit is on record from the moment the edge leaves \<^verbatim>\<open>open\<close> by one.\<close>

definition exit_recorded :: "chain_state \<Rightarrow> bool" where
  "exit_recorded c \<longleftrightarrow> (c_state c \<in> {SNone, SProposed, SOpen} \<longrightarrow> c_exit c = None)"

lemma contest_source: "exit_recorded c \<Longrightarrow> concurrent_exit c a \<Longrightarrow>
    c_state c \<notin> {SNone, SProposed, SOpen, SContestedClosure}"
  by (auto simp: concurrent_exit_def exit_recorded_def split: option.splits)

text \<open>
  The rows as a relation over the whole state of the run: the function of the source takes exactly these
  steps, and every invariant is proved by its rules.
\<close>

inductive row_step :: "verifier \<Rightarrow> edge \<Rightarrow> bool \<Rightarrow> bool \<Rightarrow> chain_state \<Rightarrow> assertion \<Rightarrow> chain_state \<Rightarrow> bool"
  for v e own owed c a where
  propose: "a_state a = AProposed \<Longrightarrow> c_state c = SNone \<Longrightarrow> own \<Longrightarrow>
    row_step v e own owed c a (c\<lparr>c_state := SProposed\<rparr>)"
| confirm: "a_state a = AConfirmed \<Longrightarrow> c_state c = SProposed \<Longrightarrow> owed \<Longrightarrow>
    row_step v e own owed c a (c\<lparr>c_state := SOpen\<rparr>)"
| close_on_evidence: "a_state a = AClosed \<Longrightarrow> c_state c = SOpen \<Longrightarrow> own \<Longrightarrow> a_evidence_hash a \<noteq> None \<Longrightarrow>
    e_closure_policy e = OnEvidence \<Longrightarrow>
    row_step v e own owed c a (settle (take_exit c a) SClosed (a_asserted_at a))"
| give_evidence: "a_state a = AClosed \<Longrightarrow> c_state c = SOpen \<Longrightarrow> own \<Longrightarrow> a_evidence_hash a \<noteq> None \<Longrightarrow>
    e_closure_policy e = OnAcceptance \<Longrightarrow>
    row_step v e own owed c a ((take_exit c a)\<lparr>c_state := SPendingAcceptance,
      c_window_opened_at := Some (a_asserted_at a)\<rparr>)"
| accept_evidence: "a_state a = AClosed \<Longrightarrow> c_state c = SPendingAcceptance \<Longrightarrow> owed \<Longrightarrow>
    row_step v e own owed c a (settle c SClosed (a_asserted_at a))"
| tacit_acceptance: "a_state a = AClosed \<Longrightarrow> c_state c = SPendingAcceptance \<Longrightarrow> \<not> owed \<Longrightarrow>
    c_window_opened_at c = Some t \<Longrightarrow> window_elapsed e t (a_asserted_at a) \<Longrightarrow>
    row_step v e own owed c a (settle c SClosed (a_asserted_at a))"
| half_closure: "a_state a = AClosed \<Longrightarrow> c_state c = SDisputed \<Longrightarrow> a_by a \<notin> set (c_dispute_closed_by c) \<Longrightarrow>
    length (c_dispute_closed_by c) \<noteq> 1 \<Longrightarrow>
    row_step v e own owed c a (c\<lparr>c_dispute_closed_by := c_dispute_closed_by c @ [a_by a]\<rparr>)"
| settle_dispute: "a_state a = AClosed \<Longrightarrow> c_state c = SDisputed \<Longrightarrow> a_by a \<notin> set (c_dispute_closed_by c) \<Longrightarrow>
    length (c_dispute_closed_by c) = 1 \<Longrightarrow>
    row_step v e own owed c a
      (settle (c\<lparr>c_dispute_closed_by := c_dispute_closed_by c @ [a_by a]\<rparr>) SClosed (a_asserted_at a))"
| release: "a_state a = AReleased \<Longrightarrow> c_state c = SOpen \<Longrightarrow> owed \<Longrightarrow>
    row_step v e own owed c a (settle (take_exit c a) SReleased (a_asserted_at a))"
| expire: "a_state a = AExpired \<Longrightarrow> c_state c = SOpen \<Longrightarrow> e_due e = Some due \<Longrightarrow>
    ms_of due \<le> ms_of (a_asserted_at a) \<Longrightarrow> \<not> dated_in_the_future (v_now v) (a_asserted_at a) \<Longrightarrow>
    row_step v e own owed c a (settle (take_exit c a) SExpired (a_asserted_at a))"
| end_dispute: "a_state a = AExpired \<Longrightarrow> c_state c = SDisputed \<Longrightarrow> c_disputed_at c = Some t \<Longrightarrow>
    \<not> before_dispute_window_end t (a_asserted_at a) \<Longrightarrow>
    row_step v e own owed c a (settle c SExpired (a_asserted_at a))"
| dispute: "a_state a = ADisputed \<Longrightarrow> c_state c = SOpen \<or> c_state c = SPendingAcceptance \<Longrightarrow>
    a_evidence_hash a \<noteq> None \<Longrightarrow>
    row_step v e own owed c a (c\<lparr>c_state := SDisputed, c_disputed_at := Some (a_asserted_at a)\<rparr>)"
| half_supersession: "a_state a = ASuperseded \<Longrightarrow> c_state c = SOpen \<or> c_state c = SDisputed \<Longrightarrow>
    a_by a \<notin> set (c_superseded_by c) \<Longrightarrow> length (c_superseded_by c) \<noteq> 1 \<Longrightarrow>
    row_step v e own owed c a (c\<lparr>c_superseded_by := c_superseded_by c @ [a_by a]\<rparr>)"
| supersede: "a_state a = ASuperseded \<Longrightarrow> c_state c = SOpen \<or> c_state c = SDisputed \<Longrightarrow>
    a_by a \<notin> set (c_superseded_by c) \<Longrightarrow> length (c_superseded_by c) = 1 \<Longrightarrow>
    row_step v e own owed c a
      (settle (c\<lparr>c_superseded_by := c_superseded_by c @ [a_by a]\<rparr>) SSuperseded (a_asserted_at a))"


inductive contested_step :: "verifier \<Rightarrow> chain_state \<Rightarrow> assertion \<Rightarrow> chain_state \<Rightarrow> bool" for v c a where
  half_closure: "a_state a = AClosed \<Longrightarrow> a_by a \<notin> set (c_contest_closed_by c) \<Longrightarrow>
    length (c_contest_closed_by c) \<noteq> 1 \<Longrightarrow>
    contested_step v c a (c\<lparr>c_contest_closed_by := c_contest_closed_by c @ [a_by a]\<rparr>)"
| settle_contest: "a_state a = AClosed \<Longrightarrow> a_by a \<notin> set (c_contest_closed_by c) \<Longrightarrow>
    length (c_contest_closed_by c) = 1 \<Longrightarrow>
    contested_step v c a
      (settle (c\<lparr>c_contest_closed_by := c_contest_closed_by c @ [a_by a]\<rparr>) SClosed (a_asserted_at a))"
| half_supersession: "a_state a = ASuperseded \<Longrightarrow> a_by a \<notin> set (c_contest_superseded_by c) \<Longrightarrow>
    length (c_contest_superseded_by c) \<noteq> 1 \<Longrightarrow>
    contested_step v c a (c\<lparr>c_contest_superseded_by := c_contest_superseded_by c @ [a_by a]\<rparr>)"
| supersede: "a_state a = ASuperseded \<Longrightarrow> a_by a \<notin> set (c_contest_superseded_by c) \<Longrightarrow>
    length (c_contest_superseded_by c) = 1 \<Longrightarrow>
    contested_step v c a
      (settle (c\<lparr>c_contest_superseded_by := c_contest_superseded_by c @ [a_by a]\<rparr>) SSuperseded (a_asserted_at a))"
| end_contest: "a_state a = AExpired \<Longrightarrow> c_contested_at c = Some t \<Longrightarrow>
    \<not> before_dispute_window_end t (a_asserted_at a) \<Longrightarrow>
    \<not> dated_in_the_future (v_now v) (a_asserted_at a) \<Longrightarrow>
    contested_step v c a (settle c SExpired (a_asserted_at a))"

lemma step_closed_rel:
  "a_state a = AClosed \<Longrightarrow> step_closed e c a own owed = Inr c' \<Longrightarrow> row_step v e own owed c a c'"
  unfolding step_closed_def
  by (cases "c_state c"; cases "e_closure_policy e";
      simp add: bind_result_Inr_iff settle_if_both_def add_signer_def split: if_splits option.splits)
    (auto intro: row_step.intros)

lemma step_expired_rel:
  "a_state a = AExpired \<Longrightarrow> step_expired v e c a = Inr c' \<Longrightarrow> row_step v e own owed c a c'"
  unfolding step_expired_def
  by (cases "c_state c"; simp split: if_splits option.splits) (auto intro: row_step.intros)

lemma step_row_rel: "step_row v e c a own owed = Inr c' \<Longrightarrow> row_step v e own owed c a c'"
  unfolding step_row_def
  by (cases "a_state a"; simp add: bind_result_Inr_iff settle_if_both_def add_signer_def
      step_closed_rel step_expired_rel split: if_splits)
    (auto intro: row_step.intros)

lemma step_row_complete: "row_step v e own owed c a c' \<Longrightarrow> step_row v e c a own owed = Inr c'"
  by (induction rule: row_step.induct)
    (auto simp: step_row_def step_closed_def step_expired_def settle_if_both_def add_signer_def)

lemma step_row_iff: "step_row v e c a own owed = Inr c' \<longleftrightarrow> row_step v e own owed c a c'"
  using step_row_rel step_row_complete by blast

lemma step_contested_rel: "step_contested v c a = Inr c' \<Longrightarrow> contested_step v c a c'"
  unfolding step_contested_def
  by (cases "a_state a"; simp add: bind_result_Inr_iff settle_if_both_def add_signer_def
      split: if_splits option.splits)
    (auto intro: contested_step.intros)

lemma step_contested_complete: "contested_step v c a c' \<Longrightarrow> step_contested v c a = Inr c'"
  by (induction rule: contested_step.induct)
    (auto simp: step_contested_def settle_if_both_def add_signer_def)

lemma step_contested_iff: "step_contested v c a = Inr c' \<longleftrightarrow> contested_step v c a c'"
  using step_contested_rel step_contested_complete by blast

lemma row_step_table:
  "row_step v e own owed c a c' \<Longrightarrow> own \<or> owed \<Longrightarrow>
     table_move e own owed (c_state c) (a_state a) (c_state c')
     \<or> half_act (c_state c) (a_state a) \<and> c_state c' = c_state c"
  by (induction rule: row_step.induct)
    (auto simp: settle_def take_exit_def half_act_simps intro: table_move.intros)

lemma contested_step_table:
  "contested_step v c a c' \<Longrightarrow> c_state c = SContestedClosure \<Longrightarrow>
     table_move e own owed (c_state c) (a_state a) (c_state c')
     \<or> half_act (c_state c) (a_state a) \<and> c_state c' = c_state c"
  by (induction rule: contested_step.induct)
    (auto simp: settle_def half_act_simps intro: table_move.intros)

lemma step_concurrent_table:
  assumes "unilateral_exit_fault e a now own owed = None"
    and "s \<notin> {SNone, SProposed, SOpen, SContestedClosure}"
  shows "table_move e own owed s (a_state a) SContestedClosure"
  using assms
  by (cases "a_state a")
    (auto simp: unilateral_exit_fault_def intro: table_move.intros split: if_splits option.splits)

text \<open>The branches of an accepted assertion.\<close>

lemma step_cases [consumes 1]:
  assumes "step v e c a = Inr c'"
  obtains (contest) "concurrent_exit c a"
      "unilateral_exit_fault e a (v_now v) (is_owner_key v e a) (is_owed_to_key v e a) = None"
      "c' = (settle c SContestedClosure (a_asserted_at a))\<lparr>c_contested_at := Some (a_asserted_at a)\<rparr>"
  | (contested) "c_state c = SContestedClosure" "contested_step v c a c'"
  | (row) "\<not> concurrent_exit c a" "\<not> terminal (c_state c)" "c_state c \<noteq> SContestedClosure"
      "row_step v e (is_owner_key v e a) (is_owed_to_key v e a) c a c'"
proof -
  note split = if_splits option.splits
  show ?thesis
    using assms contest contested row
    by (auto simp: step_def Let_def step_concurrent_def step_contested_iff step_row_iff split: split)
qed

lemma step_table:
  assumes "step v e c a = Inr c'" and "exit_recorded c"
  shows "table_move e (is_owner_key v e a) (is_owed_to_key v e a) (c_state c) (a_state a) (c_state c')
    \<or> half_act (c_state c) (a_state a) \<and> c_state c' = c_state c"
  using assms(1)
proof (cases rule: step_cases)
  case contest
  from step_concurrent_table [OF contest(2) contest_source [OF assms(2) contest(1)]]
  show ?thesis by (simp add: contest(3) settle_def)
next
  case contested
  then show ?thesis by (intro contested_step_table)
next
  case row
  with step_guards [OF assms(1)] show ?thesis by (intro row_step_table) auto
qed

section \<open>The states a chain reaches\<close>

text \<open>\<open>reach v e H c\<close>: after accepting the assertions \<open>H\<close>, in this order, the chain is at \<open>c\<close>.\<close>

inductive reach :: "verifier \<Rightarrow> edge \<Rightarrow> assertion list \<Rightarrow> chain_state \<Rightarrow> bool" for v e where
  start: "reach v e [] initial_chain"
| accept: "reach v e H c \<Longrightarrow> admit v e c a = Inr c' \<Longrightarrow> reach v e (H @ [a]) c'"

definition accepted :: "outcome list \<Rightarrow> assertion list \<Rightarrow> assertion list" where
  "accepted os as = map snd (filter (\<lambda>(r, a). r = None) (zip os as))"

lemma accepted_simps [simp]:
  "accepted [] as = []"
  "accepted (Some r # os) (a # as) = accepted os as"
  "accepted (None # os) (a # as) = a # accepted os as"
  by (simp_all add: accepted_def)

lemma run_chain_reach:
  assumes "run_chain v e c as = (os, c')" and "reach v e H c"
  shows "reach v e (H @ accepted os as) c'"
  using assms
proof (induction v e c as arbitrary: os H rule: run_chain.induct)
  case (1 v e c)
  then show ?case by simp
next
  case (2 v e c a as)
  show ?case
  proof (cases "admit v e c a")
    case (Inl r)
    with 2 show ?thesis by (auto split: prod.splits)
  next
    case (Inr c1)
    then obtain os1 where "run_chain v e c1 as = (os1, c')" "os = None # os1"
      using 2 by (auto split: prod.splits)
    with "2.IH"(2) [OF Inr _ reach.accept [OF "2.prems"(2) Inr]] show ?thesis by simp
  qed
qed

lemma run_chain_length: "length (fst (run_chain v e c as)) = length as"
  by (induction v e c as rule: run_chain.induct) (auto split: sum.splits prod.splits)

lemma run_chain_append:
  "run_chain v e c (as @ bs) =
     (case run_chain v e c as of (os, c1) \<Rightarrow>
        (case run_chain v e c1 bs of (os', c2) \<Rightarrow> (os @ os', c2)))"
  by (induction v e c as rule: run_chain.induct) (auto split: sum.splits prod.splits)

lemma admit_step:
  "admit v e c a = Inr c' \<longleftrightarrow>
     (\<forall>p. map_of (c_latest c) (a_by a) = Some p \<longrightarrow> ms_of p \<le> ms_of (a_asserted_at a)) \<and>
     (\<exists>c1. step v e c a = Inr c1 \<and> c' = c1\<lparr>c_latest := map_set (a_by a) (a_asserted_at a) (c_latest c1)\<rparr>)"
  by (cases "step v e c a") (auto simp: admit_def split: option.splits)

lemma verify_reach:
  assumes "edge_malformed (v_lib v) e = None"
  obtains c where "reach v e (accepted (cv_outcomes (verify_assertion_chain v e as)) as) c"
    and "cv_final_state (verify_assertion_chain v e as) = c_state c"
    and "cv_resolved_at (verify_assertion_chain v e as) = c_resolved_at c"
    and "cv_deadlocked_since (verify_assertion_chain v e as) = deadlocked_since c"
    and "run_chain v e initial_chain as = (cv_outcomes (verify_assertion_chain v e as), c)"
proof -
  obtain os c where r: "run_chain v e initial_chain as = (os, c)" by fastforce
  with run_chain_reach [OF r reach.start] assms show ?thesis
    by (intro that [of c]) (simp_all add: verify_assertion_chain_def)
qed

end
