(* ===== verification/ChainHistory.thy ===== *)
theory ChainHistory
  imports ChainProps
begin

text \<open>
  The history behind a state. Every invariant here is over \<open>reach\<close>: the accepted assertions, in order,
  and the state of the run. They say how an edge opened, who closed, released, superseded or expired it
  and when, and that no signer's accepted assertions run backwards in time.
\<close>

section \<open>The shape of the run's state\<close>

definition shape_ok :: "edge \<Rightarrow> chain_state \<Rightarrow> bool" where
  "shape_ok e c \<longleftrightarrow>
     exit_recorded c \<and>
     (c_state c = SPendingAcceptance \<longrightarrow> e_closure_policy e = OnAcceptance \<and> c_window_opened_at c \<noteq> None) \<and>
     (c_state c = SDisputed \<longrightarrow> c_disputed_at c \<noteq> None) \<and>
     (c_state c = SContestedClosure \<longrightarrow> c_contested_at c \<noteq> None) \<and>
     (c_resolved_at c = None \<longleftrightarrow> \<not> terminal (c_state c) \<and> c_state c \<noteq> SContestedClosure)"

lemma not_on_evidence: "p \<noteq> OnEvidence \<longleftrightarrow> p = OnAcceptance"
  by (cases p) auto

lemma shape_initial: "shape_ok e initial_chain"
  by (simp add: shape_ok_def initial_chain_def exit_recorded_def terminal_iff)

lemma shape_okI:
  assumes "exit_recorded c"
    and "c_state c = SPendingAcceptance \<Longrightarrow> e_closure_policy e = OnAcceptance"
    and "c_state c = SPendingAcceptance \<Longrightarrow> c_window_opened_at c \<noteq> None"
    and "c_state c = SDisputed \<Longrightarrow> c_disputed_at c \<noteq> None"
    and "c_state c = SContestedClosure \<Longrightarrow> c_contested_at c \<noteq> None"
    and "c_resolved_at c = None \<longleftrightarrow> \<not> terminal (c_state c) \<and> c_state c \<noteq> SContestedClosure"
  shows "shape_ok e c"
  using assms unfolding shape_ok_def by (intro conjI impI)

lemma shape_row:
  "row_step v e own owed c a c' \<Longrightarrow> shape_ok e c \<Longrightarrow> \<not> terminal (c_state c) \<Longrightarrow>
     c_state c \<noteq> SContestedClosure \<Longrightarrow> shape_ok e c'"
  by (induction rule: row_step.induct)
    (auto simp: shape_ok_def exit_recorded_def settle_def take_exit_def terminal_iff)

lemma shape_contested:
  "contested_step v c a c' \<Longrightarrow> shape_ok e c \<Longrightarrow> c_state c = SContestedClosure \<Longrightarrow> shape_ok e c'"
  by (induction rule: contested_step.induct)
    (auto simp: shape_ok_def exit_recorded_def settle_def terminal_iff)

lemma shape_step:
  assumes "step v e c a = Inr c'" and "shape_ok e c"
  shows "shape_ok e c'"
  using assms(1)
proof (cases rule: step_cases)
  case contest
  show ?thesis
    unfolding contest(3) by (rule shape_okI) (simp_all add: exit_recorded_def settle_def terminal_iff)
next
  case contested
  with assms(2) show ?thesis by (blast intro: shape_contested)
next
  case row
  with assms(2) show ?thesis by (blast intro: shape_row)
qed

lemma shape_latest [simp]: "shape_ok e (c\<lparr>c_latest := l\<rparr>) = shape_ok e c"
  by (simp add: shape_ok_def exit_recorded_def)

lemma shape_admit: "admit v e c a = Inr c' \<Longrightarrow> shape_ok e c \<Longrightarrow> shape_ok e c'"
  using shape_step by (auto simp: admit_step)

lemma reach_shape: "reach v e H c \<Longrightarrow> shape_ok e c"
  by (induction rule: reach.induct) (auto simp: shape_initial intro: shape_admit)

text \<open>An assertion read while the edge waits for acceptance finds a window to measure.\<close>

lemma pending_has_window:
  assumes "edge_malformed (v_lib v) e = None" and "reach v e H c" and "c_state c = SPendingAcceptance"
  shows "e_acceptance_window e \<noteq> None \<and> c_window_opened_at c \<noteq> None"
  using assms(1,3) reach_shape [OF assms(2)]
  by (auto simp: edge_malformed_def acceptance_window_malformed_def shape_ok_def split: if_splits)

lemma dispute_window_end:
  "before_dispute_window_end since at \<longleftrightarrow> ms_of at < ms_of since + 2592000000"
  using ms_of_range [of since]
  by (auto simp: before_dispute_window_end_def dispute_window_def add_P30D time_clip_def max_time_def abs_le_iff abs_less_iff)

section \<open>An induction rule over accepted assertions\<close>

text \<open>
  A predicate of the history and the state that holds at the start and is kept by every accepted
  assertion, whatever its \<^verbatim>\<open>latest_by_signer\<close> becomes, holds of every reached state.
\<close>

lemma reach_invariant:
  assumes "reach v e H c" and "I [] initial_chain"
    and "\<And>H c a c'. I H c \<Longrightarrow> reach v e H c \<Longrightarrow> shape_ok e c \<Longrightarrow> step v e c a = Inr c' \<Longrightarrow> I (H @ [a]) c'"
    and "\<And>H c l. I H c \<Longrightarrow> I H (c\<lparr>c_latest := l\<rparr>)"
  shows "I H c"
  using assms(1)
proof (induction rule: reach.induct)
  case start
  show ?case by (rule assms(2))
next
  case (accept H c a c')
  then show ?case using assms(3) [OF accept.IH accept.hyps(1) reach_shape [OF accept.hyps(1)]] assms(4)
    by (auto simp: admit_step)
qed

text \<open>The same by the kind of step: what remains to show is one fact per relation.\<close>

definition contest_state :: "chain_state \<Rightarrow> assertion \<Rightarrow> chain_state" where
  "contest_state c a =
     (settle c SContestedClosure (a_asserted_at a))\<lparr>c_contested_at := Some (a_asserted_at a)\<rparr>"

lemma reach_invariant_steps:
  assumes "reach v e H c" and "I [] initial_chain"
    and contest: "\<And>H c a. I H c \<Longrightarrow> reach v e H c \<Longrightarrow> concurrent_exit c a \<Longrightarrow>
      unilateral_exit_fault e a (v_now v) (is_owner_key v e a) (is_owed_to_key v e a) = None \<Longrightarrow>
      step v e c a = Inr (contest_state c a) \<Longrightarrow> I (H @ [a]) (contest_state c a)"
    and contested: "\<And>H c a c'. I H c \<Longrightarrow> reach v e H c \<Longrightarrow> c_state c = SContestedClosure \<Longrightarrow>
      contested_step v c a c' \<Longrightarrow> step v e c a = Inr c' \<Longrightarrow> I (H @ [a]) c'"
    and row: "\<And>H c a c'. I H c \<Longrightarrow> reach v e H c \<Longrightarrow> \<not> terminal (c_state c) \<Longrightarrow>
      c_state c \<noteq> SContestedClosure \<Longrightarrow>
      row_step v e (is_owner_key v e a) (is_owed_to_key v e a) c a c' \<Longrightarrow> step v e c a = Inr c' \<Longrightarrow>
      I (H @ [a]) c'"
    and "\<And>H c l. I H c \<Longrightarrow> I H (c\<lparr>c_latest := l\<rparr>)"
  shows "I H c"
proof (rule reach_invariant [where I = I, OF assms(1,2)])
  fix H c l
  assume "I H c"
  then show "I H (c\<lparr>c_latest := l\<rparr>)" by (rule assms(6))
next
  fix H c a c'
  assume I: "I H c" and r: "reach v e H c" and s: "step v e c a = Inr c'"
  from s show "I (H @ [a]) c'"
  proof (cases rule: step_cases)
    case contest: contest
    with assms(3) [OF I r] s show ?thesis by (simp add: contest_state_def)
  next
    case contested: contested
    with assms(4) [OF I r _ _ s] show ?thesis by simp
  next
    case row: row
    with assms(5) [OF I r _ _ _ s] show ?thesis by simp
  qed
qed

section \<open>How an edge opened\<close>

definition by_owner :: "verifier \<Rightarrow> edge \<Rightarrow> assertion \<Rightarrow> bool" where
  "by_owner v e a \<longleftrightarrow> assertion_signature_ok (v_lib v) a \<and> a_edge_id a = e_id e \<and> is_owner_key v e a"

definition by_owed_to :: "verifier \<Rightarrow> edge \<Rightarrow> assertion \<Rightarrow> bool" where
  "by_owed_to v e a \<longleftrightarrow> assertion_signature_ok (v_lib v) a \<and> a_edge_id a = e_id e \<and> is_owed_to_key v e a"

lemma step_signer: "step v e c a = Inr c' \<Longrightarrow> by_owner v e a \<or> by_owed_to v e a"
  using step_guards [of v e c a c'] by (auto simp: by_owner_def by_owed_to_def)

definition opened :: "verifier \<Rightarrow> edge \<Rightarrow> assertion list \<Rightarrow> effective_state \<Rightarrow> bool" where
  "opened v e H s \<longleftrightarrow>
     (case s of
        SNone \<Rightarrow> H = []
      | SProposed \<Rightarrow> \<exists>p. H = [p] \<and> a_state p = AProposed \<and> by_owner v e p
      | _ \<Rightarrow> \<exists>p q rest. H = p # q # rest \<and> a_state p = AProposed \<and> by_owner v e p \<and>
               a_state q = AConfirmed \<and> by_owed_to v e q \<and>
               (\<forall>a \<in> set rest. a_state a \<noteq> AProposed \<and> a_state a \<noteq> AConfirmed))"

lemma opened_snoc:
  assumes "opened v e H s" and "s \<notin> {SNone, SProposed}" and "s' \<notin> {SNone, SProposed}"
    and "a_state a \<noteq> AProposed" and "a_state a \<noteq> AConfirmed"
  shows "opened v e (H @ [a]) s'"
proof -
  from assms(1,2) obtain p q rest where "H = p # q # rest" "a_state p = AProposed" "by_owner v e p"
      "a_state q = AConfirmed" "by_owed_to v e q" "\<forall>x \<in> set rest. a_state x \<noteq> AProposed \<and> a_state x \<noteq> AConfirmed"
    by (cases s) (auto simp: opened_def)
  with assms(3-5) show ?thesis by (cases s') (auto simp: opened_def)
qed

text \<open>What the table says about opening, read off its rows.\<close>

lemma table_move_opening:
  "table_move e own owed s w s' \<Longrightarrow>
     s = SNone \<and> w = AProposed \<and> own \<and> s' = SProposed
   \<or> s = SProposed \<and> w = AConfirmed \<and> owed \<and> s' = SOpen
   \<or> s \<notin> {SNone, SProposed} \<and> w \<notin> {AProposed, AConfirmed} \<and> s' \<notin> {SNone, SProposed, SOpen}"
  by (induction rule: table_move.induct) auto

lemma reach_opened: "reach v e H c \<Longrightarrow> opened v e H (c_state c)"
proof (erule reach_invariant [where I = "\<lambda>H c. opened v e H (c_state c)"])
  show "opened v e [] (c_state initial_chain)" by (simp add: opened_def initial_chain_def)
next
  fix H c a c'
  assume H: "opened v e H (c_state c)" and "shape_ok e c" and step: "step v e c a = Inr c'"
  then have move: "table_move e (is_owner_key v e a) (is_owed_to_key v e a) (c_state c) (a_state a) (c_state c')
      \<or> half_act (c_state c) (a_state a) \<and> c_state c' = c_state c"
    by (intro step_table) (simp_all add: shape_ok_def)
  note g = step_guards [OF step]
  from move show "opened v e (H @ [a]) (c_state c')"
  proof
    assume m: "table_move e (is_owner_key v e a) (is_owed_to_key v e a) (c_state c) (a_state a) (c_state c')"
    from table_move_opening [OF m] show ?thesis
    proof (elim disjE conjE)
      assume "c_state c = SNone" "a_state a = AProposed" "is_owner_key v e a" "c_state c' = SProposed"
      with H g show ?thesis by (simp add: opened_def by_owner_def)
    next
      assume "c_state c = SProposed" "a_state a = AConfirmed" "is_owed_to_key v e a" "c_state c' = SOpen"
      with H g show ?thesis by (auto simp: opened_def by_owed_to_def)
    next
      assume "c_state c \<notin> {SNone, SProposed}" "a_state a \<notin> {AProposed, AConfirmed}"
        "c_state c' \<notin> {SNone, SProposed, SOpen}"
      with H show ?thesis by (intro opened_snoc [of v e H "c_state c"]) auto
    qed
  next
    assume "half_act (c_state c) (a_state a) \<and> c_state c' = c_state c"
    with H show ?thesis
      by (intro opened_snoc [of v e H "c_state c"]) (auto simp: half_act_simps)
  qed
qed simp


section \<open>Why an edge is closed, released, superseded or expired\<close>

definition joint :: "assertion list \<Rightarrow> wire_state \<Rightarrow> bool" where
  "joint H w \<longleftrightarrow> (\<exists>a \<in> set H. \<exists>b \<in> set H. a_state a = w \<and> a_state b = w \<and> a_by a \<noteq> a_by b)"

definition owner_evidence :: "verifier \<Rightarrow> edge \<Rightarrow> assertion \<Rightarrow> bool" where
  "owner_evidence v e a \<longleftrightarrow> a_state a = AClosed \<and> by_owner v e a \<and> a_evidence_hash a \<noteq> None"

text \<open>
  Closed: on the owner's evidence under on-evidence, or on evidence the creditor accepted, or on evidence
  the window ran out on, or by two signers out of a dispute or a contest.
\<close>

definition closure_justified :: "verifier \<Rightarrow> edge \<Rightarrow> assertion list \<Rightarrow> bool" where
  "closure_justified v e H \<longleftrightarrow>
     joint H AClosed \<or>
     (\<exists>x \<in> set H. owner_evidence v e x \<and>
        (e_closure_policy e = OnEvidence \<or>
         (\<exists>y \<in> set H. a_state y = AClosed \<and>
            (by_owed_to v e y \<or> by_owner v e y \<and> window_elapsed e (a_asserted_at x) (a_asserted_at y)))))"

definition release_justified :: "verifier \<Rightarrow> edge \<Rightarrow> assertion list \<Rightarrow> bool" where
  "release_justified v e H \<longleftrightarrow> (\<exists>a \<in> set H. a_state a = AReleased \<and> by_owed_to v e a)"

text \<open>
  Expired: past a \<^verbatim>\<open>due\<close> both signed and not in the verifier's future, or thirty days after a dispute or a
  contest.
\<close>

definition expiry_justified :: "verifier \<Rightarrow> edge \<Rightarrow> assertion list \<Rightarrow> bool" where
  "expiry_justified v e H \<longleftrightarrow>
     (\<exists>a \<in> set H. a_state a = AExpired \<and>
        ((\<exists>due. e_due e = Some due \<and> ms_of due \<le> ms_of (a_asserted_at a) \<and>
            \<not> dated_in_the_future (v_now v) (a_asserted_at a)) \<or>
         (\<exists>x \<in> set H. a_state x \<in> {ADisputed, AClosed, AReleased, AExpired} \<and>
            ms_of (a_asserted_at x) + 2592000000 \<le> ms_of (a_asserted_at a))))"

definition signers_ok :: "assertion list \<Rightarrow> persona_id list \<Rightarrow> wire_state \<Rightarrow> bool" where
  "signers_ok H ks w \<longleftrightarrow> distinct ks \<and> (\<forall>k \<in> set ks. \<exists>a \<in> set H. a_state a = w \<and> a_by a = k)"

lemma signers_ok_mono: "signers_ok H ks w \<Longrightarrow> signers_ok (H @ [a]) ks w"
  by (auto simp: signers_ok_def)

lemma signers_ok_snoc:
  "signers_ok H ks w \<Longrightarrow> a_state a = w \<Longrightarrow> a_by a \<notin> set ks \<Longrightarrow> signers_ok (H @ [a]) (ks @ [a_by a]) w"
  by (auto simp: signers_ok_def)

lemma signers_ok_joint:
  assumes "signers_ok H ks w" and "length ks = 1" and "a_state a = w" and "a_by a \<notin> set ks"
  shows "joint (H @ [a]) w"
proof -
  from assms(2) obtain k where "ks = [k]" by (auto simp: length_Suc_conv)
  with assms show ?thesis by (auto simp: signers_ok_def joint_def)
qed

definition signers_recorded :: "assertion list \<Rightarrow> chain_state \<Rightarrow> bool" where
  "signers_recorded H c \<longleftrightarrow>
     signers_ok H (c_dispute_closed_by c) AClosed \<and> signers_ok H (c_contest_closed_by c) AClosed \<and>
     signers_ok H (c_superseded_by c) ASuperseded \<and> signers_ok H (c_contest_superseded_by c) ASuperseded"

definition window_recorded :: "verifier \<Rightarrow> edge \<Rightarrow> assertion list \<Rightarrow> chain_state \<Rightarrow> bool" where
  "window_recorded v e H c \<longleftrightarrow>
     (c_state c = SPendingAcceptance \<longrightarrow>
        (\<exists>x \<in> set H. owner_evidence v e x \<and> c_window_opened_at c = Some (a_asserted_at x)))"

definition deadlock_recorded :: "assertion list \<Rightarrow> chain_state \<Rightarrow> bool" where
  "deadlock_recorded H c \<longleftrightarrow>
     (c_state c = SDisputed \<longrightarrow>
        (\<exists>x \<in> set H. a_state x = ADisputed \<and> c_disputed_at c = Some (a_asserted_at x))) \<and>
     (c_state c = SContestedClosure \<longrightarrow>
        (\<exists>x \<in> set H. a_state x \<in> set unilateral_exits \<and> c_contested_at c = Some (a_asserted_at x)))"

definition end_justified :: "verifier \<Rightarrow> edge \<Rightarrow> assertion list \<Rightarrow> chain_state \<Rightarrow> bool" where
  "end_justified v e H c \<longleftrightarrow>
     (c_state c = SClosed \<longrightarrow> closure_justified v e H) \<and>
     (c_state c = SReleased \<longrightarrow> release_justified v e H) \<and>
     (c_state c = SSuperseded \<longrightarrow> joint H ASuperseded) \<and>
     (c_state c = SExpired \<longrightarrow> expiry_justified v e H)"

lemma signers_row:
  "row_step v e own owed c a c' \<Longrightarrow> signers_recorded H c \<Longrightarrow> signers_recorded (H @ [a]) c'"
  by (induction rule: row_step.induct)
    (simp_all add: signers_recorded_def settle_def take_exit_def signers_ok_mono signers_ok_snoc)

lemma signers_contested:
  "contested_step v c a c' \<Longrightarrow> signers_recorded H c \<Longrightarrow> signers_recorded (H @ [a]) c'"
  by (induction rule: contested_step.induct)
    (simp_all add: signers_recorded_def settle_def signers_ok_mono signers_ok_snoc)

lemma reach_signers: "reach v e H c \<Longrightarrow> signers_recorded H c"
proof (erule reach_invariant_steps [where I = signers_recorded])
  show "signers_recorded [] initial_chain"
    by (simp add: signers_recorded_def signers_ok_def initial_chain_def)
qed (erule signers_row signers_contested
    | simp add: signers_recorded_def signers_ok_mono contest_state_def settle_def)+


lemma reach_window: "reach v e H c \<Longrightarrow> window_recorded v e H c"
proof (erule reach_invariant_steps [where I = "window_recorded v e"])
  fix H c a c'
  assume "window_recorded v e H c" and "step v e c a = Inr c'"
    and "row_step v e (is_owner_key v e a) (is_owed_to_key v e a) c a c'"
  from this(3,1) step_guards [OF this(2)] show "window_recorded v e (H @ [a]) c'"
    by (induction rule: row_step.induct)
      (auto simp: window_recorded_def owner_evidence_def by_owner_def settle_def take_exit_def)
next
  fix H c a c'
  assume "contested_step v c a c'" "c_state c = SContestedClosure"
  then show "window_recorded v e (H @ [a]) c'"
    by (induction rule: contested_step.induct) (auto simp: window_recorded_def settle_def)
qed (simp_all add: window_recorded_def contest_state_def settle_def initial_chain_def)

lemma exit_fault_unilateral:
  "unilateral_exit_fault e a now own owed = None \<Longrightarrow> a_state a \<in> set unilateral_exits"
  by (cases "a_state a") (simp_all add: unilateral_exit_fault_def unilateral_exits_def)

lemma reach_deadlock: "reach v e H c \<Longrightarrow> deadlock_recorded H c"
proof (erule reach_invariant_steps [where I = deadlock_recorded])
  fix H c a c'
  assume "deadlock_recorded H c" and "row_step v e (is_owner_key v e a) (is_owed_to_key v e a) c a c'"
    and "c_state c \<noteq> SContestedClosure"
  from this(2,1,3) show "deadlock_recorded (H @ [a]) c'"
    by (induction rule: row_step.induct) (auto simp: deadlock_recorded_def settle_def take_exit_def)
next
  fix H c a c'
  assume "contested_step v c a c'" "c_state c = SContestedClosure" "deadlock_recorded H c"
  then show "deadlock_recorded (H @ [a]) c'"
    by (induction rule: contested_step.induct) (auto simp: deadlock_recorded_def settle_def)
next
  fix H c a
  assume "unilateral_exit_fault e a (v_now v) (is_owner_key v e a) (is_owed_to_key v e a) = None"
  then show "deadlock_recorded (H @ [a]) (contest_state c a)"
    by (auto simp: deadlock_recorded_def contest_state_def settle_def dest: exit_fault_unilateral)
qed (simp_all add: deadlock_recorded_def initial_chain_def)

lemma end_row:
  assumes "row_step v e (is_owner_key v e a) (is_owed_to_key v e a) c a c'"
    and "step v e c a = Inr c'" and "reach v e H c" and "\<not> terminal (c_state c)"
  shows "end_justified v e (H @ [a]) c'"
proof -
  note s = reach_signers [OF assms(3), unfolded signers_recorded_def]
  note g = step_guards [OF assms(2)]
  show ?thesis
    using assms(1)
  proof cases
    case close_on_evidence
    then have "owner_evidence v e a" using g by (simp add: owner_evidence_def by_owner_def)
    with close_on_evidence show ?thesis
      by (auto simp: end_justified_def closure_justified_def settle_def take_exit_def)
  next
    case accept_evidence
    from reach_window [OF assms(3)] accept_evidence obtain x where x: "x \<in> set H" "owner_evidence v e x"
      by (auto simp: window_recorded_def)
    have "by_owed_to v e a" using g accept_evidence by (simp add: by_owed_to_def)
    with x accept_evidence show ?thesis
      by (auto simp: end_justified_def closure_justified_def settle_def)
  next
    case (tacit_acceptance t)
    from reach_window [OF assms(3)] tacit_acceptance obtain x where
      x: "x \<in> set H" "owner_evidence v e x" "t = a_asserted_at x"
      by (auto simp: window_recorded_def)
    have "by_owner v e a" using g tacit_acceptance by (auto simp: by_owner_def)
    with x tacit_acceptance show ?thesis
      by (auto simp: end_justified_def closure_justified_def settle_def)
  next
    case settle_dispute
    with s show ?thesis
      by (auto simp: end_justified_def closure_justified_def settle_def dest: signers_ok_joint)
  next
    case release
    then have "by_owed_to v e a" using g by (simp add: by_owed_to_def)
    with release show ?thesis
      by (auto simp: end_justified_def release_justified_def settle_def take_exit_def)
  next
    case (expire due)
    then show ?thesis by (auto simp: end_justified_def expiry_justified_def settle_def take_exit_def)
  next
    case (end_dispute t)
    from reach_deadlock [OF assms(3)] end_dispute obtain x where
      "x \<in> set H" "a_state x = ADisputed" "t = a_asserted_at x"
      by (auto simp: deadlock_recorded_def)
    with end_dispute show ?thesis
      by (auto simp: end_justified_def expiry_justified_def settle_def dispute_window_end not_less)
  next
    case supersede
    with s show ?thesis by (auto simp: end_justified_def settle_def dest: signers_ok_joint)
  qed (use assms(4) in \<open>auto simp: end_justified_def terminal_iff settle_def take_exit_def\<close>)
qed

lemma end_contested:
  assumes "contested_step v c a c'" and "reach v e H c" and "c_state c = SContestedClosure"
  shows "end_justified v e (H @ [a]) c'"
proof -
  note s = reach_signers [OF assms(2), unfolded signers_recorded_def]
  show ?thesis
    using assms(1)
  proof cases
    case settle_contest
    with s show ?thesis
      by (auto simp: end_justified_def closure_justified_def settle_def dest: signers_ok_joint)
  next
    case supersede
    with s show ?thesis by (auto simp: end_justified_def settle_def dest: signers_ok_joint)
  next
    case (end_contest t)
    from reach_deadlock [OF assms(2)] end_contest assms(3) obtain x where
      "x \<in> set H" "a_state x \<in> set unilateral_exits" "t = a_asserted_at x"
      by (auto simp: deadlock_recorded_def)
    with end_contest show ?thesis
      by (auto simp: end_justified_def expiry_justified_def settle_def dispute_window_end not_less unilateral_iff)
  qed (use assms(3) in \<open>simp_all add: end_justified_def\<close>)
qed

lemma reach_end: "reach v e H c \<Longrightarrow> end_justified v e H c"
proof (erule reach_invariant_steps [where I = "end_justified v e"], goal_cases)
  case 1
  show ?case by (simp add: end_justified_def initial_chain_def)
next
  case (2 H c a)
  show ?case by (simp add: end_justified_def contest_state_def settle_def)
next
  case (3 H c a c')
  then show ?case by (blast intro: end_contested)
next
  case (4 H c a c')
  then show ?case by (blast intro: end_row)
next
  case (5 H c l)
  then show ?case by (simp add: end_justified_def)
qed

end
