(* ===== verification/ChainLaws.thy ===== *)
theory ChainLaws
  imports ChainHistory
begin

text \<open>
  What the oracle keeps from one call to the next: discarded assertions leave no trace, a chain's
  verdicts are never revised by what is appended, a later clock accepts whatever an earlier one did, a
  terminal state is left only by a concurrent exit. The interface \<open>chain_oracle\<close> states what the node and
  reconciliation rely on; it is interpreted on \<open>verify_assertion_chain\<close>.
\<close>

section \<open>Discarded assertions leave no trace\<close>

lemma run_chain_accepted:
  "run_chain v e c as = (os, c') \<Longrightarrow>
     run_chain v e c (accepted os as) = (replicate (length (accepted os as)) None, c')"
  by (induction v e c as arbitrary: os c' rule: run_chain.induct)
    (auto split: sum.splits prod.splits)

lemma verify_accepted:
  fixes v e as
  defines "r \<equiv> verify_assertion_chain v e as"
  shows "verify_assertion_chain v e (accepted (cv_outcomes r) as) =
    r\<lparr>cv_outcomes := replicate (length (accepted (cv_outcomes r) as)) None\<rparr>"
proof (cases "edge_malformed (v_lib v) e")
  case None
  obtain os c where run: "run_chain v e initial_chain as = (os, c)" by fastforce
  with run_chain_accepted [OF run] None show ?thesis by (simp add: r_def verify_assertion_chain_def)
next
  case (Some x)
  then have "accepted (map (\<lambda>_. Some x) as) as = []"
    by (induction as) simp_all
  with Some show ?thesis by (simp add: r_def verify_assertion_chain_def)
qed

section \<open>Verdicts are stable under appending\<close>

lemma verify_length: "length (cv_outcomes (verify_assertion_chain v e as)) = length as"
  using run_chain_length [of v e initial_chain as]
  by (auto simp: verify_assertion_chain_def split: option.splits prod.splits)

lemma verify_prefix:
  "take (length as) (cv_outcomes (verify_assertion_chain v e (as @ bs))) = cv_outcomes (verify_assertion_chain v e as)"
  using run_chain_length [of v e initial_chain as]
  by (auto simp: verify_assertion_chain_def run_chain_append split: option.splits prod.splits)

lemma verify_snoc_discarded:
  assumes "last (cv_outcomes (verify_assertion_chain v e (as @ [a]))) \<noteq> None"
  shows "cv_final_state (verify_assertion_chain v e (as @ [a])) = cv_final_state (verify_assertion_chain v e as) \<and>
    cv_resolved_at (verify_assertion_chain v e (as @ [a])) = cv_resolved_at (verify_assertion_chain v e as)"
  using assms
  by (auto simp: verify_assertion_chain_def run_chain_append split: option.splits prod.splits sum.splits)

section \<open>The clock of the verifier\<close>

text \<open>A later clock, or none: whatever was accepted stays accepted, with the same result.\<close>

definition clock_le :: "int option \<Rightarrow> int option \<Rightarrow> bool" where
  "clock_le n m \<longleftrightarrow> (case m of None \<Rightarrow> True | Some y \<Rightarrow> (case n of None \<Rightarrow> False | Some x \<Rightarrow> x \<le> y))"

lemma dated_later: "clock_le n m \<Longrightarrow> dated_in_the_future m t \<Longrightarrow> dated_in_the_future n t"
  by (auto simp: clock_le_def dated_in_the_future_def split: option.splits)

lemma not_dated_later: "\<not> dated_in_the_future n t \<Longrightarrow> clock_le n m \<Longrightarrow> \<not> dated_in_the_future m t"
  using dated_later by blast

lemma row_step_later:
  "row_step v e own owed c a c' \<Longrightarrow> clock_le (v_now v) m \<Longrightarrow> row_step (v\<lparr>v_now := m\<rparr>) e own owed c a c'"
  by (induction rule: row_step.induct) (auto intro: row_step.intros simp: not_dated_later)

lemma contested_step_later:
  "contested_step v c a c' \<Longrightarrow> clock_le (v_now v) m \<Longrightarrow> contested_step (v\<lparr>v_now := m\<rparr>) c a c'"
  by (induction rule: contested_step.induct) (auto intro: contested_step.intros simp: not_dated_later)

lemma exit_fault_later:
  "unilateral_exit_fault e a n own owed = None \<Longrightarrow> clock_le n m \<Longrightarrow> unilateral_exit_fault e a m own owed = None"
  by (auto simp: unilateral_exit_fault_def dest: dated_later split: wire_state.splits option.splits if_splits)

lemma step_later:
  assumes "step v e c a = Inr c'" and "clock_le (v_now v) m"
  shows "step (v\<lparr>v_now := m\<rparr>) e c a = Inr c'"
proof -
  note g = step_guards [OF assms(1)]
  have keys: "is_owner_key (v\<lparr>v_now := m\<rparr>) e a = is_owner_key v e a"
    "is_owed_to_key (v\<lparr>v_now := m\<rparr>) e a = is_owed_to_key v e a"
    by (simp_all add: is_owner_key_def is_owed_to_key_def)
  from assms(1) show ?thesis
  proof (cases rule: step_cases)
    case contest
    then show ?thesis using g exit_fault_later [OF contest(2) assms(2)]
      by (auto simp: step_def keys step_concurrent_def non_assertable_states_def Let_def)
  next
    case contested
    then have "\<not> concurrent_exit c a" by (auto simp: concurrent_exit_def split: option.splits)
    with contested g contested_step_later [OF contested(2) assms(2)] show ?thesis
      by (auto simp: step_def keys step_contested_iff non_assertable_states_def Let_def terminal_iff)
  next
    case row
    with g row_step_later [OF row(4) assms(2)] show ?thesis
      by (auto simp: step_def keys step_row_iff non_assertable_states_def Let_def)
  qed
qed

lemma admit_later: "admit v e c a = Inr c' \<Longrightarrow> clock_le (v_now v) m \<Longrightarrow> admit (v\<lparr>v_now := m\<rparr>) e c a = Inr c'"
  using step_later by (auto simp: admit_step)

lemma run_chain_later:
  assumes "run_chain v e c as = (os, c')" and "set os \<subseteq> {None}" and "clock_le (v_now v) m"
  shows "run_chain (v\<lparr>v_now := m\<rparr>) e c as = (os, c')"
  using assms
proof (induction v e c as arbitrary: os rule: run_chain.induct)
  case (1 v e c)
  then show ?case by simp
next
  case (2 v e c a as)
  show ?case
  proof (cases "admit v e c a")
    case (Inl r)
    with "2.prems" show ?thesis by (auto split: prod.splits)
  next
    case (Inr c1)
    with "2.prems" obtain os1 where os: "os = None # os1" "run_chain v e c1 as = (os1, c')"
      by (auto split: prod.splits)
    with "2.IH"(2) [OF Inr os(2)] "2.prems" admit_later [OF Inr "2.prems"(3)]
    show ?thesis by simp
  qed
qed

section \<open>No signer runs backwards\<close>

definition signed_times :: "persona_id \<Rightarrow> assertion list \<Rightarrow> int list" where
  "signed_times k H = map (\<lambda>a. ms_of (a_asserted_at a)) (filter (\<lambda>a. a_by a = k) H)"

definition latest_ok :: "assertion list \<Rightarrow> chain_state \<Rightarrow> bool" where
  "latest_ok H c \<longleftrightarrow>
     (\<forall>k. sorted (signed_times k H) \<and>
        map_option ms_of (map_of (c_latest c) k) = last_opt (signed_times k H))"

lemma row_latest: "row_step v e own owed c a c' \<Longrightarrow> c_latest c' = c_latest c"
  by (induction rule: row_step.induct) (simp_all add: settle_def take_exit_def)

lemma contested_latest: "contested_step v c a c' \<Longrightarrow> c_latest c' = c_latest c"
  by (induction rule: contested_step.induct) (simp_all add: settle_def)

lemma step_latest: "step v e c a = Inr c' \<Longrightarrow> c_latest c' = c_latest c"
  by (erule step_cases) (auto simp: settle_def dest: row_latest contested_latest)

lemma sorted_snoc_last:
  "sorted xs \<Longrightarrow> (case last_opt xs of None \<Rightarrow> True | Some y \<Rightarrow> y \<le> x) \<Longrightarrow> sorted (xs @ [x :: int])"
  by (cases xs rule: rev_cases) (auto simp: sorted_append)

lemma latest_admit:
  assumes "latest_ok H c" and "admit v e c a = Inr c'"
  shows "latest_ok (H @ [a]) c'"
proof -
  let ?t = "ms_of (a_asserted_at a)"
  from assms(2) obtain c1 where c1: "step v e c a = Inr c1"
      "c' = c1\<lparr>c_latest := map_set (a_by a) (a_asserted_at a) (c_latest c1)\<rparr>"
    and order: "\<forall>p. map_of (c_latest c) (a_by a) = Some p \<longrightarrow> ms_of p \<le> ?t"
    by (auto simp: admit_step)
  have l: "map_of (c_latest c') k = (if k = a_by a then Some (a_asserted_at a) else map_of (c_latest c) k)" for k
    using c1 step_latest [OF c1(1)] by (simp add: map_of_map_set)
  have t: "signed_times k (H @ [a]) = (if k = a_by a then signed_times k H @ [?t] else signed_times k H)" for k
    by (simp add: signed_times_def)
  have last: "map_option ms_of (map_of (c_latest c) (a_by a)) = last_opt (signed_times (a_by a) H)"
    and "sorted (signed_times (a_by a) H)"
    using assms(1) by (simp_all add: latest_ok_def)
  moreover have "case last_opt (signed_times (a_by a) H) of None \<Rightarrow> True | Some y \<Rightarrow> y \<le> ?t"
    using order unfolding last [symmetric] by (cases "map_of (c_latest c) (a_by a)") auto
  ultimately have "sorted (signed_times (a_by a) H @ [?t])" by (intro sorted_snoc_last)
  with assms(1) show ?thesis by (simp add: latest_ok_def l t)
qed

lemma reach_latest: "reach v e H c \<Longrightarrow> latest_ok H c"
proof (induction rule: reach.induct)
  case start
  show ?case by (simp add: latest_ok_def initial_chain_def signed_times_def last_opt_def)
next
  case (accept H c a c')
  then show ?case by (blast intro: latest_admit)
qed

section \<open>Terminal states\<close>

lemma step_terminal:
  assumes "step v e c a = Inr c'" and "terminal (c_state c)"
  shows "concurrent_exit c a \<and> c_state c' = SContestedClosure"
  using assms by (elim step_cases) (auto simp: settle_def terminal_iff)

text \<open>An exit, once on record, is never replaced.\<close>

lemma step_exit:
  assumes "step v e c a = Inr c'" and "exit_recorded c" and "c_exit c = Some x"
  shows "c_exit c' = Some x"
  using assms(1)
proof (cases rule: step_cases)
  case contest
  then show ?thesis using assms(3) by (simp add: settle_def)
next
  case contested
  from this(2) assms(3) show ?thesis by (induction rule: contested_step.induct) (simp_all add: settle_def)
next
  case row
  from row(4) assms(2,3) show ?thesis
    by (induction rule: row_step.induct) (auto simp: settle_def take_exit_def exit_recorded_def)
qed

text \<open>The exit on record is an accepted assertion; every accepted assertion is a party's.\<close>

definition exit_in_history :: "assertion list \<Rightarrow> chain_state \<Rightarrow> bool" where
  "exit_in_history H c \<longleftrightarrow>
     (case c_exit c of
        None \<Rightarrow> True
      | Some x \<Rightarrow> \<exists>b \<in> set H. x = \<lparr>x_state = a_state b, x_by = a_by b, x_at = a_asserted_at b\<rparr>)"

lemma reach_exit_history: "reach v e H c \<Longrightarrow> exit_in_history H c"
proof (erule reach_invariant_steps [where I = exit_in_history])
  fix H c a c'
  assume "exit_in_history H c" and "row_step v e (is_owner_key v e a) (is_owed_to_key v e a) c a c'"
  from this(2,1) show "exit_in_history (H @ [a]) c'"
    by (induction rule: row_step.induct)
      (auto simp: exit_in_history_def settle_def take_exit_def split: option.splits)
next
  fix H c a c'
  assume "exit_in_history H c" and "contested_step v c a c'"
  from this(2,1) show "exit_in_history (H @ [a]) c'"
    by (induction rule: contested_step.induct)
      (auto simp: exit_in_history_def settle_def split: option.splits)
qed (auto simp: exit_in_history_def contest_state_def settle_def initial_chain_def split: option.splits)

lemma reach_parties: "reach v e H c \<Longrightarrow> a \<in> set H \<Longrightarrow> by_owner v e a \<or> by_owed_to v e a"
proof (induction rule: reach.induct)
  case start
  then show ?case by simp
next
  case (accept H c b c')
  then show ?case by (auto simp: admit_step dest: step_signer)
qed

lemma reach_start: "reach v e H c \<Longrightarrow> H = [] \<Longrightarrow> c = initial_chain"
  by (erule reach.cases) simp_all

section \<open>The interface of the oracle\<close>

locale chain_oracle =
  fixes verify :: "edge \<Rightarrow> assertion list \<Rightarrow> chain_verification"
  assumes outcomes_length: "length (cv_outcomes (verify e as)) = length as"
    and outcomes_prefix: "take (length as) (cv_outcomes (verify e (as @ bs))) = cv_outcomes (verify e as)"
    and discarded_state:
      "last (cv_outcomes (verify e (as @ [a]))) \<noteq> None \<Longrightarrow>
         cv_final_state (verify e (as @ [a])) = cv_final_state (verify e as)"
begin

definition all_accepted :: "edge \<Rightarrow> assertion list \<Rightarrow> bool" where
  "all_accepted e as \<longleftrightarrow> set (cv_outcomes (verify e as)) \<subseteq> {None}"

definition accepts :: "edge \<Rightarrow> assertion list \<Rightarrow> assertion \<Rightarrow> bool" where
  "accepts e as a \<longleftrightarrow> last (cv_outcomes (verify e (as @ [a]))) = None"

lemma outcomes_snoc:
  "cv_outcomes (verify e (as @ [a])) = cv_outcomes (verify e as) @ [last (cv_outcomes (verify e (as @ [a])))]"
proof -
  let ?os = "cv_outcomes (verify e (as @ [a]))"
  have "length ?os = Suc (length as)" by (simp add: outcomes_length)
  then have "?os = take (length as) ?os @ [last ?os]"
    by (metis append_butlast_last_id butlast_conv_take diff_Suc_1 length_greater_0_conv zero_less_Suc)
  then show ?thesis by (simp only: outcomes_prefix)
qed

text \<open>Appending what the oracle accepts keeps a stored chain valid; this is all a store may do.\<close>

lemma all_accepted_snoc: "all_accepted e (as @ [a]) \<longleftrightarrow> all_accepted e as \<and> accepts e as a"
  unfolding all_accepted_def accepts_def by (subst outcomes_snoc) auto

lemma all_accepted_Nil: "all_accepted e []"
  using outcomes_length [of e "[]"] by (simp add: all_accepted_def)

lemma all_accepted_prefix: "all_accepted e (as @ bs) \<Longrightarrow> all_accepted e as"
  by (metis all_accepted_def outcomes_prefix set_take_subset subset_trans)

text \<open>Offering assertions one at a time, keeping the accepted ones.\<close>

definition offer :: "edge \<Rightarrow> assertion list \<Rightarrow> assertion \<Rightarrow> assertion list" where
  "offer e as a = (if accepts e as a then as @ [a] else as)"

lemma offer_all_accepted: "all_accepted e as \<Longrightarrow> all_accepted e (foldl (offer e) as bs)"
  by (induction bs arbitrary: as) (auto simp: offer_def all_accepted_snoc)

lemma offer_extends: "\<exists>cs. foldl (offer e) as bs = as @ cs \<and> set cs \<subseteq> set bs"
proof (induction bs arbitrary: as)
  case Nil
  then show ?case by simp
next
  case (Cons b bs)
  from Cons [of "offer e as b"] obtain cs where "foldl (offer e) (offer e as b) bs = offer e as b @ cs"
    "set cs \<subseteq> set bs" by blast
  then show ?case
    by (intro exI [of _ "if accepts e as b then b # cs else cs"]) (auto simp: offer_def [of e as b])
qed

end

interpretation table: chain_oracle "verify_assertion_chain v" for v
  by unfold_locales (simp_all add: verify_length verify_prefix verify_snoc_discarded)

end
