(* ===== verification/Samples.thy ===== *)
theory Samples
  imports Transitions
begin

text \<open>
  Concrete inputs for the witnesses: a toy signature library for which signing and verifying are
  computable, two parties, their edge and the assertions of a whole life of it. No theorem rests on the
  toy library; it only shows that the hypotheses of the properties can hold.
\<close>

definition pad32 :: "octets \<Rightarrow> octets" where
  "pad32 bs = take 32 (bs @ replicate 32 0)"

lemma length_pad32 [simp]: "length (pad32 bs) = 32"
  by (simp add: pad32_def)

definition sample_lib :: crypto_lib where
  "sample_lib =
     \<lparr>lib_sha256 = (\<lambda>bs. pad32 (rev bs)),
      lib_ed_sign = (\<lambda>m k. Some (pad32 m @ pad32 k)),
      lib_ed_verify = (\<lambda>sg m p. Some (sg = pad32 m @ pad32 p)),
      lib_ed_public = (\<lambda>k. Some k)\<rparr>"

definition alice :: persona_id where "alice = replicate 64 CHR ''a''"
definition bob :: persona_id where "bob = replicate 64 CHR ''b''"
definition carol :: persona_id where "carol = replicate 64 CHR ''c''"

lemma parties_hex64: "hex64 alice" "hex64 bob" "hex64 carol"
  by (simp_all add: alice_def bob_def carol_def hex64_def list_all_iff is_lower_hex_def)

lemma parties_distinct [simp]:
  "alice \<noteq> bob" "bob \<noteq> alice" "alice \<noteq> carol" "carol \<noteq> alice" "bob \<noteq> carol" "carol \<noteq> bob"
  by (simp_all add: alice_def bob_def carol_def)

lemma parties_from_hex:
  "from_hex alice = Some (replicate 32 170)" "from_hex bob = Some (replicate 32 187)"
  "from_hex carol = Some (replicate 32 204)"
  by code_simp+

lemma sample_signs: "k \<in> {alice, bob, carol} \<Longrightarrow> signs_for sample_lib k k"
  by (auto simp: signs_for_def parties_from_hex sample_lib_def)

section \<open>Signing flat objects\<close>

definition flat_json :: "json \<Rightarrow> bool" where
  "flat_json v \<longleftrightarrow> (case v of JArr _ \<Rightarrow> False | JObj _ \<Rightarrow> False | _ \<Rightarrow> True)"

lemma write_flat: "flat_json v \<Longrightarrow> d \<le> max_canonicalization_depth \<Longrightarrow> write_json d v \<noteq> None"
  by (cases v) (simp_all add: flat_json_def)

lemma canonical_flat:
  assumes "\<forall>m \<in> set ms. flat_json (snd m)"
  shows "canonical_bytes (JObj ms) \<noteq> None"
proof -
  have "write_members (0 + 1) ms \<noteq> None"
    using assms write_flat [of _ "Suc 0"]
    by (simp add: write_members_map max_canonicalization_depth_def del: write_json.simps)
  then show ?thesis by (auto simp: canonical_bytes_def canonicalize_def)
qed

lemma assertion_canonical: "canonical_bytes (JObj (unsigned_object (unsigned_assertion_members a))) \<noteq> None"
  by (rule canonical_flat)
    (auto simp: unsigned_object_def unsigned_assertion_members_def flat_json_def json_opt_def split: option.splits)

section \<open>Signed assertions\<close>

definition signed_by :: "string \<Rightarrow> assertion \<Rightarrow> assertion" where
  "signed_by sk a = a\<lparr>a_sig := the (sign_object sample_lib (unsigned_assertion_members a) sk)\<rparr>"

lemma signed_by_simps [simp]:
  "a_edge_id (signed_by sk a) = a_edge_id a" "a_state (signed_by sk a) = a_state a"
  "a_asserted_at (signed_by sk a) = a_asserted_at a" "a_by (signed_by sk a) = a_by a"
  "a_evidence_hash (signed_by sk a) = a_evidence_hash a"
  by (simp_all add: signed_by_def)

lemma signed_by_ok:
  assumes "a_by a \<in> {alice, bob, carol}"
  shows "assertion_signature_ok sample_lib (signed_by (a_by a) a)"
proof -
  have "sign_object sample_lib (unsigned_assertion_members a) (a_by a) \<noteq> None"
    using assms assertion_canonical [of a] parties_from_hex
    by (auto simp: sign_object_def signing_preimage_def sample_lib_def)
  then obtain s where "sign_object sample_lib (unsigned_assertion_members a) (a_by a) = Some s" by blast
  with signed_assertion_ok [OF sample_signs [OF assms] this] show ?thesis
    by (simp add: signed_by_def)
qed

section \<open>Instants\<close>

definition jan :: "nat \<Rightarrow> rfc3339" where
  "jan d = stamp (''2026-01-'' @ [hex_digit (d div 10), hex_digit (d mod 10)] @ ''T00:00:00Z'')"

lemma jan_ms: "d \<in> set [1..<32] \<Longrightarrow> ms_of (jan d) = 1767139200000 + 86400000 * int d"
proof -
  have "\<forall>d \<in> set [1..<32].
      date_parse (''2026-01-'' @ [hex_digit (d div 10), hex_digit (d mod 10)] @ ''T00:00:00Z'') =
        Some (1767139200000 + 86400000 * int d)"
    by code_simp
  then show "d \<in> set [1..<32] \<Longrightarrow> ms_of (jan d) = 1767139200000 + 86400000 * int d"
    unfolding jan_def by (intro ms_of_stamp) blast
qed

lemma jan_ms_simps [simp]:
  "ms_of (jan 1) = 1767225600000" "ms_of (jan 2) = 1767312000000" "ms_of (jan 3) = 1767398400000"
  "ms_of (jan 4) = 1767484800000" "ms_of (jan 5) = 1767571200000" "ms_of (jan 8) = 1767830400000"
  "ms_of (jan 9) = 1767916800000" "ms_of (jan 10) = 1768003200000" "ms_of (jan 20) = 1768867200000"
  "ms_of (jan 31) = 1769817600000"
  by (simp_all add: jan_ms)

lemma jan_first [simp]: "ms_of (jan (Suc 0)) = 1767225600000"
  using jan_ms_simps(1) by simp

definition march :: rfc3339 where
  "march = stamp ''2026-03-15T00:00:00Z''"

lemma march_ms [simp]: "ms_of march = 1773532800000"
  unfolding march_def by (rule ms_of_stamp) code_simp

section \<open>An edge and its assertions\<close>

text \<open>Alice owes Bob, by January 20th, under the given policy.\<close>

definition sample_edge :: "closure_policy \<Rightarrow> edge" where
  "sample_edge p =
     (let e = \<lparr>e_id = [], e_commitment_hash = replicate 64 CHR ''d'', e_owner = alice, e_owed_to = bob,
               e_proposed_at = jan 1, e_due = Some (jan 20), e_closure_policy = p,
               e_acceptance_window = (if p = OnAcceptance then Some default_acceptance_window else None),
               e_blocked_by = [], e_fulfillment = None, e_supersedes = None\<rparr>
      in e\<lparr>e_id := the (edge_id_of sample_lib (edge_id_fields e))\<rparr>)"

lemma sample_edge_simps [simp]:
  "e_owner (sample_edge p) = alice" "e_owed_to (sample_edge p) = bob" "e_proposed_at (sample_edge p) = jan 1"
  "e_due (sample_edge p) = Some (jan 20)" "e_closure_policy (sample_edge p) = p"
  "e_acceptance_window (sample_edge p) = (if p = OnAcceptance then Some default_acceptance_window else None)"
  "e_fulfillment (sample_edge p) = None" "e_commitment_hash (sample_edge p) = replicate 64 CHR ''d''"
  by (simp_all add: sample_edge_def Let_def)

lemma sample_edge_binds: "edge_id_binds_body sample_lib (sample_edge p)"
  using parties_hex64
  by (simp add: edge_id_binds_body_def sample_edge_def edge_id_fields_def edge_id_of_def Let_def
      hex64_def list_all_iff is_lower_hex_def)

lemma sample_edge_well_formed [simp]: "edge_malformed sample_lib (sample_edge p) = None"
  by (simp add: edge_malformed_def sample_edge_binds acceptance_window_malformed_def)

lemma sample_edge_decomposition [simp]: "collective_decomposition_valid (sample_edge p)"
  by (simp add: collective_decomposition_valid_def)

definition some_evidence :: "sha256_hex option" where
  "some_evidence = Some (replicate 64 CHR ''e'')"

lemma some_evidence_present [simp]: "some_evidence \<noteq> None"
  by (simp add: some_evidence_def)

definition says :: "persona_id \<Rightarrow> edge \<Rightarrow> wire_state \<Rightarrow> rfc3339 \<Rightarrow> sha256_hex option \<Rightarrow> assertion" where
  "says who e w at ev = signed_by who
     \<lparr>a_edge_id = e_id e, a_state = w, a_asserted_at = at, a_by = who, a_evidence_hash = ev, a_sig = []\<rparr>"

lemma says_simps [simp]:
  "a_edge_id (says who e w t ev) = e_id e" "a_state (says who e w t ev) = w"
  "a_asserted_at (says who e w t ev) = t" "a_by (says who e w t ev) = who"
  "a_evidence_hash (says who e w t ev) = ev"
  by (simp_all add: says_def)

lemma says_ok [simp]: "who \<in> {alice, bob, carol} \<Longrightarrow> assertion_signature_ok sample_lib (says who e w t ev)"
  using signed_by_ok [of "\<lparr>a_edge_id = e_id e, a_state = w, a_asserted_at = t, a_by = who,
    a_evidence_hash = ev, a_sig = []\<rparr>"]
  by (simp add: says_def)

text \<open>Proposed on the 1st, confirmed on the 2nd.\<close>

definition sample_opening :: "edge \<Rightarrow> assertion list" where
  "sample_opening e = [says alice e AProposed (jan 1) None, says bob e AConfirmed (jan 2) None]"

definition sample_verifier :: verifier where
  "sample_verifier = clockless sample_lib"

lemma sample_verifier_simps [simp]:
  "v_lib sample_verifier = sample_lib" "v_now sample_verifier = None" "v_lineage sample_verifier = no_rotation"
  by (simp_all add: sample_verifier_def clockless_def)

lemma held_by_no_rotation [simp]: "held_by (no_rotation p) k t \<longleftrightarrow> k = p"
  by (auto simp: held_by_def no_rotation_def)

lemmas run_sample = admit_def step_def step_row_def step_closed_def step_expired_def step_contested_def
  step_concurrent_def unilateral_exit_fault_def settle_if_both_def add_signer_def settle_def take_exit_def
  Let_def is_owner_key_def is_owed_to_key_def non_assertable_states_def concurrent_exit_def
  terminal_iff unilateral_iff dated_in_the_future_def initial_chain_def map_set.simps

definition opened_state :: chain_state where
  "opened_state = initial_chain\<lparr>c_state := SOpen, c_latest := [(alice, jan 1), (bob, jan 2)]\<rparr>"

lemma run_opening:
  "run_chain sample_verifier (sample_edge p) initial_chain (sample_opening (sample_edge p) @ as) =
     (case run_chain sample_verifier (sample_edge p) opened_state as of (os, c) \<Rightarrow> (None # None # os, c))"
  by (simp add: sample_opening_def run_sample opened_state_def split: prod.splits)

end
