(* ===== verification/ChainClaims.thy ===== *)
theory ChainClaims
  imports ChainLaws Samples
begin

text \<open>
  The properties of the oracle, stated of \<open>verify_assertion_chain\<close>: what a caller may conclude from a
  verdict, whatever the assertions and whoever sent them.
\<close>

section \<open>The verdicts refine the table\<close>

text \<open>
  C1: every assertion the oracle accepts at the end of a chain is about this edge, carries a valid
  signature by a key one of the two parties held at that time, and moves the effective state along a row
  of the abstract transition table open to that party, or is the recorded first half of an act of both.
\<close>

theorem accepted_refines_table:
  assumes "last (cv_outcomes (verify_assertion_chain v e (as @ [a]))) = None"
  shows "a_edge_id a = e_id e \<and> assertion_signature_ok (v_lib v) a \<and>
    (is_owner_key v e a \<or> is_owed_to_key v e a) \<and>
    (table_move e (is_owner_key v e a) (is_owed_to_key v e a)
        (cv_final_state (verify_assertion_chain v e as)) (a_state a)
        (cv_final_state (verify_assertion_chain v e (as @ [a]))) \<or>
     half_act (cv_final_state (verify_assertion_chain v e as)) (a_state a) \<and>
     cv_final_state (verify_assertion_chain v e (as @ [a])) = cv_final_state (verify_assertion_chain v e as))"
proof -
  have wf: "edge_malformed (v_lib v) e = None"
    using assms by (auto simp: verify_assertion_chain_def split: option.splits)
  obtain os c where run: "run_chain v e initial_chain as = (os, c)" by fastforce
  then obtain c' where c': "admit v e c a = Inr c'"
    using assms wf
    by (auto simp: verify_assertion_chain_def run_chain_append split: sum.splits)
  then obtain c1 where c1: "step v e c a = Inr c1" "c_state c1 = c_state c'" by (auto simp: admit_step)
  have "reach v e (accepted os as) c" using run_chain_reach [OF run reach.start] by simp
  then have "exit_recorded c" using reach_shape by (auto simp: shape_ok_def)
  from step_table [OF c1(1) this] step_guards [OF c1(1)] c1(2) c' run wf show ?thesis
    by (simp add: verify_assertion_chain_def run_chain_append)
qed

theorem accepted_refines_table_witness:
  "a_by (says bob (sample_edge OnEvidence) AConfirmed (jan 2) None) = bob \<and>
   is_owed_to_key sample_verifier (sample_edge OnEvidence) (says bob (sample_edge OnEvidence) AConfirmed (jan 2) None)"
  using accepted_refines_table [of sample_verifier "sample_edge OnEvidence"
      "[says alice (sample_edge OnEvidence) AProposed (jan 1) None]"
      "says bob (sample_edge OnEvidence) AConfirmed (jan 2) None"]
  by (simp add: verify_assertion_chain_def run_sample)

section \<open>How an edge opens\<close>

text \<open>
  C2: an edge past the proposal was proposed by its owner and then confirmed by its creditor, in this
  order, each with a valid signature, and nothing else was accepted before: no party can open an edge for
  the other.
\<close>

theorem open_edge_has_both_signatures:
  assumes "cv_final_state (verify_assertion_chain v e as) \<notin> {SNone, SProposed}"
  shows "\<exists>p q rest. accepted (cv_outcomes (verify_assertion_chain v e as)) as = p # q # rest \<and>
    a_state p = AProposed \<and> by_owner v e p \<and> a_state q = AConfirmed \<and> by_owed_to v e q"
proof -
  have "edge_malformed (v_lib v) e = None"
    using assms by (auto simp: verify_assertion_chain_def split: option.splits)
  then obtain c where "reach v e (accepted (cv_outcomes (verify_assertion_chain v e as)) as) c"
      "cv_final_state (verify_assertion_chain v e as) = c_state c"
    by (rule verify_reach)
  with reach_opened [OF this(1)] assms show ?thesis
    by (cases "c_state c") (auto simp: opened_def)
qed

lemma run_opened:
  "verify_assertion_chain sample_verifier (sample_edge p) (sample_opening (sample_edge p)) =
     \<lparr>cv_outcomes = [None, None], cv_final_state = SOpen, cv_resolved_at = None,
      cv_unverifiable = False, cv_deadlocked_since = None\<rparr>"
  using run_opening [of p "[]"]
  by (simp add: verify_assertion_chain_def opened_state_def deadlocked_since_def initial_chain_def)

theorem open_edge_has_both_signatures_witness:
  "\<exists>p q. sample_opening (sample_edge OnEvidence) = [p, q] \<and> by_owed_to sample_verifier (sample_edge OnEvidence) q"
  using open_edge_has_both_signatures [of sample_verifier "sample_edge OnEvidence" "sample_opening (sample_edge OnEvidence)"]
  by (simp add: run_opened) (simp add: sample_opening_def)

section \<open>How an edge ends\<close>

text \<open>
  C3: a terminal verdict is justified by the accepted assertions. A closed edge has the owner's evidence
  (under on-acceptance also the creditor's acceptance or an elapsed window) or two distinct signers out of
  a dispute or contest; a released edge was released by its creditor; a superseded edge has two distinct
  signers; an expired edge is past a due date both signed, or thirty days past a dispute or contest.
\<close>

theorem terminal_state_justified:
  assumes "cv_final_state (verify_assertion_chain v e as) = s"
  defines "H \<equiv> accepted (cv_outcomes (verify_assertion_chain v e as)) as"
  shows "(s = SClosed \<longrightarrow> closure_justified v e H) \<and> (s = SReleased \<longrightarrow> release_justified v e H) \<and>
    (s = SSuperseded \<longrightarrow> joint H ASuperseded) \<and> (s = SExpired \<longrightarrow> expiry_justified v e H)"
proof (cases "edge_malformed (v_lib v) e")
  case None
  then obtain c where "reach v e H c" "cv_final_state (verify_assertion_chain v e as) = c_state c"
    unfolding H_def by (rule verify_reach)
  with reach_end [OF this(1)] assms(1) show ?thesis by (simp add: end_justified_def)
next
  case (Some r)
  with assms(1) have "s = SNone" by (simp add: verify_assertion_chain_def)
  then show ?thesis by simp
qed

text \<open>The life of an on-evidence edge that Alice closes on the 10th.\<close>

definition closed_life :: "assertion list" where
  "closed_life = sample_opening (sample_edge OnEvidence) @
     [says alice (sample_edge OnEvidence) AClosed (jan 10) some_evidence]"

lemma run_closed_life:
  "verify_assertion_chain sample_verifier (sample_edge OnEvidence) closed_life =
     \<lparr>cv_outcomes = [None, None, None], cv_final_state = SClosed, cv_resolved_at = Some (jan 10),
      cv_unverifiable = False, cv_deadlocked_since = None\<rparr>"
  unfolding closed_life_def verify_assertion_chain_def run_opening
  by (simp add: run_sample opened_state_def deadlocked_since_def)

theorem terminal_state_justified_witness:
  "closure_justified sample_verifier (sample_edge OnEvidence) closed_life"
  using terminal_state_justified [OF arg_cong [OF run_closed_life, of cv_final_state]]
  by (simp add: run_closed_life) (simp add: closed_life_def sample_opening_def)


text \<open>
  Where no key has rotated, an edge is superseded only if its owner and its creditor both asserted it:
  one party signing twice is not two parties.
\<close>

theorem supersession_needs_both_parties:
  assumes "cv_final_state (verify_assertion_chain v e as) = SSuperseded" and "v_lineage v = no_rotation"
  defines "H \<equiv> accepted (cv_outcomes (verify_assertion_chain v e as)) as"
  shows "(\<exists>a \<in> set H. a_state a = ASuperseded \<and> a_by a = e_owner e) \<and>
    (\<exists>a \<in> set H. a_state a = ASuperseded \<and> a_by a = e_owed_to e)"
proof -
  have "edge_malformed (v_lib v) e = None"
    using assms(1) by (auto simp: verify_assertion_chain_def split: option.splits)
  then obtain c where r: "reach v e H c" and "cv_final_state (verify_assertion_chain v e as) = c_state c"
    unfolding H_def by (rule verify_reach)
  with reach_end [OF r] assms(1) obtain a b where ab: "a \<in> set H" "b \<in> set H" "a_state a = ASuperseded"
      "a_state b = ASuperseded" "a_by a \<noteq> a_by b"
    by (auto simp: end_justified_def joint_def)
  have "a_by x \<in> {e_owner e, e_owed_to e}" if "x \<in> set H" for x
    using reach_parties [OF r that] assms(2)
    by (auto simp: by_owner_def by_owed_to_def is_owner_key_def is_owed_to_key_def)
  with ab show ?thesis by (metis empty_iff insert_iff)
qed

definition superseded_life :: "assertion list" where
  "superseded_life = sample_opening (sample_edge OnEvidence) @
     [says alice (sample_edge OnEvidence) ASuperseded (jan 3) None,
      says bob (sample_edge OnEvidence) ASuperseded (jan 4) None]"

lemma run_superseded_life:
  "verify_assertion_chain sample_verifier (sample_edge OnEvidence) superseded_life =
     \<lparr>cv_outcomes = [None, None, None, None], cv_final_state = SSuperseded, cv_resolved_at = Some (jan 4),
      cv_unverifiable = False, cv_deadlocked_since = None\<rparr>"
  unfolding superseded_life_def verify_assertion_chain_def run_opening
  by (simp add: run_sample opened_state_def deadlocked_since_def)

theorem supersession_needs_both_parties_witness:
  "\<exists>a \<in> set superseded_life. a_state a = ASuperseded \<and> a_by a = bob"
  using supersession_needs_both_parties [of sample_verifier "sample_edge OnEvidence" superseded_life]
  by (simp add: run_superseded_life) (simp add: superseded_life_def sample_opening_def)

section \<open>What a verdict leaves behind\<close>

text \<open>
  A discarded assertion leaves no trace: replaying only the accepted ones accepts every one of them and
  gives the same state, the same resolution time and the same deadlock.
\<close>

theorem discarded_assertions_leave_no_trace:
  fixes v e as
  defines "r \<equiv> verify_assertion_chain v e as"
  shows "verify_assertion_chain v e (accepted (cv_outcomes r) as) =
    r\<lparr>cv_outcomes := replicate (length (accepted (cv_outcomes r) as)) None\<rparr>"
  unfolding r_def by (rule verify_accepted)

text \<open>
  A chain a node stored because its oracle accepted all of it is accepted in full, with the same result,
  at every later time and by every node without a clock: the node's own clock only postpones expiry.
\<close>

theorem stored_chain_stays_valid:
  assumes "set (cv_outcomes (verify_assertion_chain v e as)) \<subseteq> {None}" and "clock_le (v_now v) m"
  shows "verify_assertion_chain (v\<lparr>v_now := m\<rparr>) e as = verify_assertion_chain v e as"
proof (cases "edge_malformed (v_lib v) e")
  case None
  obtain os c where run: "run_chain v e initial_chain as = (os, c)" by fastforce
  with assms(1) None have "set os \<subseteq> {None}" by (simp add: verify_assertion_chain_def)
  with run_chain_later [OF run this assms(2)] run None show ?thesis by (simp add: verify_assertion_chain_def)
next
  case (Some r)
  then show ?thesis by (simp add: verify_assertion_chain_def)
qed

theorem stored_chain_stays_valid_witness:
  "cv_final_state (verify_assertion_chain (sample_verifier\<lparr>v_now := None\<rparr>) (sample_edge OnEvidence) closed_life)
     = SClosed"
  using stored_chain_stays_valid [of sample_verifier "sample_edge OnEvidence" closed_life None]
  by (simp add: run_closed_life clock_le_def)

text \<open>
  No signer's accepted assertions run backwards in time: the timestamps a window is measured between
  are in order for each signer.
\<close>

theorem accepted_times_ordered_per_signer:
  "sorted (map (\<lambda>a. ms_of (a_asserted_at a))
     (filter (\<lambda>a. a_by a = k) (accepted (cv_outcomes (verify_assertion_chain v e as)) as)))"
proof (cases "edge_malformed (v_lib v) e")
  case None
  then obtain c where "reach v e (accepted (cv_outcomes (verify_assertion_chain v e as)) as) c"
    by (rule verify_reach)
  from reach_latest [OF this] show ?thesis by (simp add: latest_ok_def signed_times_def)
next
  case (Some r)
  have "accepted (map (\<lambda>_. Some r) as) as = []" by (induction as) simp_all
  with Some show ?thesis by (simp add: verify_assertion_chain_def)
qed

text \<open>
  A terminal state is left in one way only: by a unilateral exit of another signer, different from the
  exit on record and dated no later than it, and then to \<^verbatim>\<open>contested-closure\<close>.
\<close>

theorem terminal_left_only_by_concurrent_exit:
  assumes "terminal (cv_final_state (verify_assertion_chain v e as))"
    and "last (cv_outcomes (verify_assertion_chain v e (as @ [a]))) = None"
  shows "cv_final_state (verify_assertion_chain v e (as @ [a])) = SContestedClosure \<and>
    a_state a \<in> set unilateral_exits \<and>
    (\<exists>b \<in> set as. a_by b \<noteq> a_by a \<and> a_state b \<noteq> a_state a \<and>
       ms_of (a_asserted_at a) \<le> ms_of (a_asserted_at b))"
proof -
  have wf: "edge_malformed (v_lib v) e = None"
    using assms(2) by (auto simp: verify_assertion_chain_def split: option.splits)
  obtain os c where run: "run_chain v e initial_chain as = (os, c)" by fastforce
  then obtain c' where c': "admit v e c a = Inr c'"
    using assms(2) wf by (auto simp: verify_assertion_chain_def run_chain_append split: sum.splits)
  then obtain c1 where c1: "step v e c a = Inr c1" "c_state c1 = c_state c'" by (auto simp: admit_step)
  have t: "terminal (c_state c)" using assms(1) run wf by (simp add: verify_assertion_chain_def)
  note step_terminal [OF c1(1) t]
  moreover have "reach v e (accepted os as) c" using run_chain_reach [OF run reach.start] by simp
  then have "exit_in_history (accepted os as) c" by (rule reach_exit_history)
  moreover have "set (accepted os as) \<subseteq> set as"
    by (auto simp: accepted_def dest: set_zip_rightD)
  ultimately obtain b where "b \<in> set as" "a_by b \<noteq> a_by a" "a_state b \<noteq> a_state a"
      "ms_of (a_asserted_at a) \<le> ms_of (a_asserted_at b)" "a_state a \<in> set unilateral_exits"
      "c_state c1 = SContestedClosure"
    by (fastforce simp: concurrent_exit_def exit_in_history_def split: option.splits)
  with c' c1(2) run wf show ?thesis
    by (auto simp: verify_assertion_chain_def run_chain_append)
qed

theorem terminal_left_only_by_concurrent_exit_witness:
  "cv_final_state (verify_assertion_chain sample_verifier (sample_edge OnEvidence)
     (closed_life @ [says bob (sample_edge OnEvidence) AReleased (jan 9) None])) = SContestedClosure"
proof -
  have "last (cv_outcomes (verify_assertion_chain sample_verifier (sample_edge OnEvidence)
     (closed_life @ [says bob (sample_edge OnEvidence) AReleased (jan 9) None]))) = None"
    unfolding closed_life_def verify_assertion_chain_def append_assoc run_opening
    by (simp add: run_sample opened_state_def deadlocked_since_def)
  then show ?thesis
    using terminal_left_only_by_concurrent_exit [of sample_verifier "sample_edge OnEvidence" closed_life]
    by (simp add: run_closed_life terminal_iff)
qed

text \<open>
  Two chains past \<^verbatim>\<open>none\<close> under one identifier are chains of one promise: unless SHA-256 collides on the
  two preimages, their edges have the same parties, commitment and proposal time.
\<close>

theorem one_identifier_one_promise:
  assumes "cv_final_state (verify_assertion_chain v e as) \<noteq> SNone"
    and "cv_final_state (verify_assertion_chain v f bs) \<noteq> SNone" and "e_id e = e_id f"
    and "\<not> sha256_collision (v_lib v) (edge_id_preimage (edge_id_fields e)) (edge_id_preimage (edge_id_fields f))"
  shows "e_commitment_hash e = e_commitment_hash f \<and> e_owner e = e_owner f \<and> e_owed_to e = e_owed_to f \<and>
    e_proposed_at e = e_proposed_at f"
proof (rule edge_id_binds_unique [OF _ _ assms(3,4)])
  show "edge_id_binds_body (v_lib v) e" and "edge_id_binds_body (v_lib v) f"
    using assms(1,2) by (auto simp: verify_assertion_chain_def edge_malformed_def split: if_splits)
qed

theorem one_identifier_one_promise_witness:
  "e_owner (sample_edge OnEvidence) = e_owner ((sample_edge OnEvidence)\<lparr>e_due := None\<rparr>)"
proof -
  let ?f = "(sample_edge OnEvidence)\<lparr>e_due := None\<rparr>"
  have "edge_id_fields ?f = edge_id_fields (sample_edge OnEvidence)" by (simp add: edge_id_fields_def)
  moreover have "cv_final_state (verify_assertion_chain sample_verifier ?f
      [says alice (sample_edge OnEvidence) AProposed (jan 1) None]) \<noteq> SNone"
    using sample_edge_binds [of OnEvidence]
    by (simp add: verify_assertion_chain_def edge_malformed_def edge_id_binds_body_def edge_id_fields_def
        acceptance_window_malformed_def run_sample)
  ultimately show ?thesis
    using one_identifier_one_promise [of sample_verifier "sample_edge OnEvidence" closed_life ?f]
    by (simp add: run_closed_life sha256_collision_def)
qed


section \<open>Two exits at once\<close>

lemma exit_after_exit:
  assumes "step v e c x = Inr c1" and "c_state c = SOpen" and "a_state x \<in> {AClosed, AReleased}"
    and "step v e c y = Inr c2" and "a_state y \<in> {AClosed, AReleased}" and "a_state x \<noteq> a_state y"
    and "a_by x \<noteq> a_by y" and "c_exit c = None"
    and "\<forall>p. map_of l (a_by y) = Some p \<longrightarrow> ms_of p \<le> ms_of (a_asserted_at y)"
  shows "(case admit v e (c1\<lparr>c_latest := l\<rparr>) y of Inl _ \<Rightarrow> c_state c1 | Inr c' \<Rightarrow> c_state c') = SContestedClosure
    \<longleftrightarrow> ms_of (a_asserted_at y) \<le> ms_of (a_asserted_at x)"
proof -
  note gx = step_guards [OF assms(1)] and gy = step_guards [OF assms(4)]
  have exit_free: "\<not> concurrent_exit c x" "\<not> concurrent_exit c y"
    using assms(8) by (simp_all add: concurrent_exit_def)
  from assms(1) obtain own owed where "row_step v e own owed c x c1"
    using exit_free assms(2) by (elim step_cases) auto
  then have c1: "c_exit c1 = Some \<lparr>x_state = a_state x, x_by = a_by x, x_at = a_asserted_at x\<rparr>"
    "c_state c1 \<in> {SClosed, SPendingAcceptance, SReleased}"
    using assms(2,3) by (induction rule: row_step.induct) (auto simp: settle_def take_exit_def)
  from assms(4) have "row_step v e (is_owner_key v e y) (is_owed_to_key v e y) c y c2"
    using exit_free assms(2) by (elim step_cases) auto
  then have fault: "unilateral_exit_fault e y (v_now v) (is_owner_key v e y) (is_owed_to_key v e y) = None"
    using assms(2,5) by (induction rule: row_step.induct) (auto simp: unilateral_exit_fault_def)
  have contested: "concurrent_exit (c1\<lparr>c_latest := l\<rparr>) y \<longleftrightarrow> ms_of (a_asserted_at y) \<le> ms_of (a_asserted_at x)"
    using c1 assms(5-7) by (auto simp: concurrent_exit_def unilateral_iff)
  show ?thesis
  proof (cases "ms_of (a_asserted_at y) \<le> ms_of (a_asserted_at x)")
    case True
    with contested fault gy
    have "step v e (c1\<lparr>c_latest := l\<rparr>) y = Inr (contest_state (c1\<lparr>c_latest := l\<rparr>) y)"
      by (auto simp: step_def step_concurrent_def Let_def non_assertable_states_def contest_state_def)
    with assms(9) True show ?thesis
      by (auto simp: admit_def contest_state_def settle_def split: option.splits)
  next
    case False
    have "c_state c3 \<noteq> SContestedClosure" if "step v e (c1\<lparr>c_latest := l\<rparr>) y = Inr c3" for c3
      using that
    proof (cases rule: step_cases)
      case row
      from row(4) c1(2) assms(5) show ?thesis
        by (induction rule: row_step.induct) (auto simp: settle_def)
    qed (use c1 contested False in auto)
    with c1(2) False assms(9) show ?thesis
      by (auto simp: admit_step split: sum.splits)
  qed
qed

text \<open>
  From one open edge the owner closes with evidence and the creditor releases, and each node holds
  its own act first. Whoever holds the closure first sees a contest exactly when the release is not later,
  and whoever holds the release first exactly when the closure is not later: so the two nodes both see
  the contest if and only if the two acts carry the same instant.
\<close>

theorem concurrent_exits_agree_iff_simultaneous:
  assumes "cv_final_state (verify_assertion_chain v e as) = SOpen"
    and "a_state x = AClosed" and "last (cv_outcomes (verify_assertion_chain v e (as @ [x]))) = None"
    and "a_state y = AReleased" and "last (cv_outcomes (verify_assertion_chain v e (as @ [y]))) = None"
    and "a_by x \<noteq> a_by y"
  shows "cv_final_state (verify_assertion_chain v e (as @ [x, y])) = SContestedClosure \<and>
         cv_final_state (verify_assertion_chain v e (as @ [y, x])) = SContestedClosure
    \<longleftrightarrow> ms_of (a_asserted_at x) = ms_of (a_asserted_at y)"
proof -
  have wf: "edge_malformed (v_lib v) e = None"
    using assms(3) by (auto simp: verify_assertion_chain_def split: option.splits)
  obtain os c where run: "run_chain v e initial_chain as = (os, c)" by fastforce
  have open_c: "c_state c = SOpen" using assms(1) run wf by (simp add: verify_assertion_chain_def)
  have "reach v e (accepted os as) c" using run_chain_reach [OF run reach.start] by simp
  then have no_exit: "c_exit c = None"
    using reach_shape open_c by (auto simp: shape_ok_def exit_recorded_def)
  have accepts: "\<exists>c1. step v e c z = Inr c1 \<and>
      admit v e c z = Inr (c1\<lparr>c_latest := map_set (a_by z) (a_asserted_at z) (c_latest c)\<rparr>) \<and>
      (\<forall>p. map_of (c_latest c) (a_by z) = Some p \<longrightarrow> ms_of p \<le> ms_of (a_asserted_at z))"
    if acc: "last (cv_outcomes (verify_assertion_chain v e (as @ [z]))) = None" for z
  proof -
    obtain c' where c': "admit v e c z = Inr c'"
      using acc run wf by (auto simp: verify_assertion_chain_def run_chain_append split: sum.splits)
    then obtain c1 where c1: "step v e c z = Inr c1"
        "c' = c1\<lparr>c_latest := map_set (a_by z) (a_asserted_at z) (c_latest c1)\<rparr>"
        "\<forall>p. map_of (c_latest c) (a_by z) = Some p \<longrightarrow> ms_of p \<le> ms_of (a_asserted_at z)"
      by (auto simp: admit_step)
    with c' show ?thesis unfolding step_latest [OF c1(1)] by blast
  qed
  have final: "cv_final_state (verify_assertion_chain v e (as @ [z, w])) =
      (case admit v e (c1\<lparr>c_latest := l\<rparr>) w of Inl _ \<Rightarrow> c_state c1 | Inr c' \<Rightarrow> c_state c')"
    if "admit v e c z = Inr (c1\<lparr>c_latest := l\<rparr>)" for z w c1 l
    using that run wf by (simp add: verify_assertion_chain_def run_chain_append split: sum.splits)
  from accepts [OF assms(3)] obtain cx where cx: "step v e c x = Inr cx"
    "admit v e c x = Inr (cx\<lparr>c_latest := map_set (a_by x) (a_asserted_at x) (c_latest c)\<rparr>)"
    "\<forall>p. map_of (c_latest c) (a_by x) = Some p \<longrightarrow> ms_of p \<le> ms_of (a_asserted_at x)" by blast
  from accepts [OF assms(5)] obtain cy where cy: "step v e c y = Inr cy"
    "admit v e c y = Inr (cy\<lparr>c_latest := map_set (a_by y) (a_asserted_at y) (c_latest c)\<rparr>)"
    "\<forall>p. map_of (c_latest c) (a_by y) = Some p \<longrightarrow> ms_of p \<le> ms_of (a_asserted_at y)" by blast
  note xy = exit_after_exit [OF cx(1) open_c _ cy(1) _ _ assms(6) no_exit,
      of "map_set (a_by x) (a_asserted_at x) (c_latest c)"]
  note yx = exit_after_exit [OF cy(1) open_c _ cx(1) _ _ assms(6) [symmetric] no_exit,
      of "map_set (a_by y) (a_asserted_at y) (c_latest c)"]
  have "cv_final_state (verify_assertion_chain v e (as @ [x, y])) = SContestedClosure
      \<longleftrightarrow> ms_of (a_asserted_at y) \<le> ms_of (a_asserted_at x)"
    using xy cy(3) assms(2,4,6) unfolding final [OF cx(2)] by (simp add: map_of_map_set)
  moreover have "cv_final_state (verify_assertion_chain v e (as @ [y, x])) = SContestedClosure
      \<longleftrightarrow> ms_of (a_asserted_at x) \<le> ms_of (a_asserted_at y)"
    using yx cx(3) assms(2,4,6) unfolding final [OF cy(2)] by (simp add: map_of_map_set)
  ultimately show ?thesis by linarith
qed

definition owner_closes :: assertion where
  "owner_closes = says alice (sample_edge OnEvidence) AClosed (jan 9) some_evidence"

definition creditor_releases :: assertion where
  "creditor_releases = says bob (sample_edge OnEvidence) AReleased (jan 10) None"

theorem concurrent_exits_agree_iff_simultaneous_witness:
  "\<not> (cv_final_state (verify_assertion_chain sample_verifier (sample_edge OnEvidence)
          (sample_opening (sample_edge OnEvidence) @ [owner_closes, creditor_releases])) = SContestedClosure \<and>
      cv_final_state (verify_assertion_chain sample_verifier (sample_edge OnEvidence)
          (sample_opening (sample_edge OnEvidence) @ [creditor_releases, owner_closes])) = SContestedClosure)"
proof -
  have "last (cv_outcomes (verify_assertion_chain sample_verifier (sample_edge OnEvidence)
          (sample_opening (sample_edge OnEvidence) @ [a]))) = None"
    if "a \<in> {owner_closes, creditor_releases}" for a
    using that unfolding verify_assertion_chain_def run_opening
    by (auto simp: run_sample opened_state_def owner_closes_def creditor_releases_def)
  then show ?thesis
    using concurrent_exits_agree_iff_simultaneous [of sample_verifier "sample_edge OnEvidence"
        "sample_opening (sample_edge OnEvidence)" owner_closes creditor_releases]
    by (simp add: run_opened) (simp add: owner_closes_def creditor_releases_def)
qed

section \<open>Where the table falls short of its text\<close>

text \<open>
  The two signatures of a joint act are counted by key, not by party: an owner who rotated from Alice's to
  Carol's key on the 5th signs once with each and settles a dispute alone.
\<close>

definition rotated :: "persona_id \<Rightarrow> party_key list" where
  "rotated k = (if k = alice
     then [\<lparr>pk_key = alice, pk_superseded_at = Some (jan 5)\<rparr>, \<lparr>pk_key = carol, pk_superseded_at = None\<rparr>]
     else no_rotation k)"

theorem rotated_owner_settles_a_dispute_alone:
  "cv_final_state (verify_assertion_chain (sample_verifier\<lparr>v_lineage := rotated\<rparr>) (sample_edge OnEvidence)
     (sample_opening (sample_edge OnEvidence) @
      [says bob (sample_edge OnEvidence) ADisputed (jan 3) some_evidence,
       says alice (sample_edge OnEvidence) AClosed (jan 4) None,
       says carol (sample_edge OnEvidence) AClosed (jan 8) None])) = SClosed"
  by (simp add: verify_assertion_chain_def sample_opening_def run_sample rotated_def held_by_def no_rotation_def)

text \<open>
  A rotation is dated by the key that signs it, and past assertions are judged against that date: here the
  owner of an open edge rotates as of the day of the proposal, and her promise is as if it had never been made.
\<close>

definition backdated :: "persona_id \<Rightarrow> party_key list" where
  "backdated k = (if k = alice
     then [\<lparr>pk_key = alice, pk_superseded_at = Some (jan 1)\<rparr>, \<lparr>pk_key = carol, pk_superseded_at = None\<rparr>]
     else no_rotation k)"

theorem backdated_rotation_erases_a_promise:
  "cv_final_state (verify_assertion_chain sample_verifier (sample_edge p) (sample_opening (sample_edge p))) = SOpen \<and>
   cv_final_state (verify_assertion_chain (sample_verifier\<lparr>v_lineage := backdated\<rparr>) (sample_edge p) (sample_opening (sample_edge p))) = SNone"
  by (simp add: verify_assertion_chain_def sample_opening_def run_sample backdated_def held_by_def no_rotation_def)

text \<open>
  The bound on a future \<^verbatim>\<open>expired\<close> guards \<^verbatim>\<open>open\<close> and \<^verbatim>\<open>contested-closure\<close> but not \<^verbatim>\<open>disputed\<close>: on January 5th
  a party that disputed on the 4th ends the edge at once with an assertion dated in March.
\<close>

theorem dispute_ended_from_the_future:
  "cv_final_state (verify_assertion_chain (sample_verifier\<lparr>v_now := Some (ms_of (jan 5))\<rparr>) (sample_edge OnEvidence)
     (sample_opening (sample_edge OnEvidence) @
      [says bob (sample_edge OnEvidence) ADisputed (jan 4) some_evidence,
       says bob (sample_edge OnEvidence) AExpired march None])) = SExpired"
  by (simp add: verify_assertion_chain_def sample_opening_def run_sample dispute_window_end)

text \<open>
  An exit stays on record after both parties have agreed on another end: here both signed \<^verbatim>\<open>superseded\<close>,
  and the creditor alone reopens the edge with a release dated before the owner's evidence.
\<close>

theorem agreed_supersession_reopened_by_one_party:
  "cv_final_state (verify_assertion_chain sample_verifier (sample_edge OnAcceptance)
     (sample_opening (sample_edge OnAcceptance) @
      [says bob (sample_edge OnAcceptance) ASuperseded (jan 3) None,
       says alice (sample_edge OnAcceptance) AClosed (jan 8) some_evidence,
       says alice (sample_edge OnAcceptance) ADisputed (jan 9) some_evidence,
       says alice (sample_edge OnAcceptance) ASuperseded (jan 10) None])) = SSuperseded \<and>
   cv_final_state (verify_assertion_chain sample_verifier (sample_edge OnAcceptance)
     (sample_opening (sample_edge OnAcceptance) @
      [says bob (sample_edge OnAcceptance) ASuperseded (jan 3) None,
       says alice (sample_edge OnAcceptance) AClosed (jan 8) some_evidence,
       says alice (sample_edge OnAcceptance) ADisputed (jan 9) some_evidence,
       says alice (sample_edge OnAcceptance) ASuperseded (jan 10) None,
       says bob (sample_edge OnAcceptance) AReleased (jan 5) None])) = SContestedClosure"
  by (simp add: verify_assertion_chain_def sample_opening_def run_sample)

end
