(* ===== verification/Actions.thy ===== *)
theory Actions
  imports ChainLaws Samples
begin

text \<open>
  \<^verbatim>\<open>packages/node/src/actions.ts\<close> and the binding table of \<^verbatim>\<open>packages/types/src/node-surface.ts\<close>: which acts a
  node advertises on an edge, to whom, and which tool signs each. The claim of the module is that no
  advertised act that signs is one the transition table would refuse.
\<close>

section \<open>The act vocabulary\<close>

datatype act =
    ActDone | ActRelease | ActExpire | ActSupersede | ActDelegate | ActPing | ActConfirm | ActDismiss | ActPropose

datatype tool = ToolAct | ToolConfirm

fun act_tool_binding :: "act \<Rightarrow> tool option" where
  "act_tool_binding ActDone = Some ToolAct"
| "act_tool_binding ActRelease = Some ToolAct"
| "act_tool_binding ActExpire = Some ToolAct"
| "act_tool_binding ActSupersede = None"
| "act_tool_binding ActDelegate = None"
| "act_tool_binding ActPing = None"
| "act_tool_binding ActConfirm = Some ToolConfirm"
| "act_tool_binding ActDismiss = Some ToolConfirm"
| "act_tool_binding ActPropose = None"

record item_action =
  ia_act :: act
  ia_tool :: "tool option"
  ia_args :: "(string \<times> string) list"

text \<open>The two refinements of the schema \<^verbatim>\<open>ItemAction\<close>.\<close>

definition item_action_ok :: "item_action \<Rightarrow> bool" where
  "item_action_ok i \<longleftrightarrow> ia_tool i = act_tool_binding (ia_act i) \<and> (ia_tool i = None \<longrightarrow> ia_args i = [])"

datatype viewer_role = RoleOwner | RoleOwedTo | RoleNonParty

definition bind_act :: "act \<Rightarrow> (string \<times> string) list \<Rightarrow> item_action" where
  "bind_act a args = \<lparr>ia_act = a, ia_tool = act_tool_binding a, ia_args = args\<rparr>"

definition act_args :: "string \<Rightarrow> string \<Rightarrow> (string \<times> string) list" where
  "act_args i a = [(''id'', i), (''act'', a)]"

definition decision_args :: "string \<Rightarrow> string \<Rightarrow> (string \<times> string) list" where
  "decision_args i d = [(''id'', i), (''decision'', d)]"

definition actions_for ::
    "effective_state \<Rightarrow> viewer_role \<Rightarrow> string \<Rightarrow> bool \<Rightarrow> bool \<Rightarrow> bool \<Rightarrow> item_action list" where
  "actions_for s role i win dispute_win due_past =
     (if role = RoleNonParty then []
      else case s of
        SProposed \<Rightarrow>
          if role = RoleOwner then [bind_act ActPing []]
          else [bind_act ActConfirm (decision_args i ''confirm''), bind_act ActDismiss (decision_args i ''dismiss'')]
      | SOpen \<Rightarrow>
          (let exp = (if due_past then [bind_act ActExpire (act_args i ''expire'')] else [])
           in if role = RoleOwner
              then [bind_act ActDone (act_args i ''done'')] @ exp @ [bind_act ActSupersede [], bind_act ActDelegate []]
              else [bind_act ActRelease (act_args i ''release'')] @ exp @ [bind_act ActPing [], bind_act ActSupersede []])
      | SPendingAcceptance \<Rightarrow>
          if role = RoleOwedTo then [bind_act ActSupersede []]
          else if win then [bind_act ActDone (act_args i ''done''), bind_act ActSupersede [], bind_act ActDelegate []]
          else [bind_act ActSupersede [], bind_act ActDelegate []]
      | SDisputed \<Rightarrow>
          if dispute_win then [bind_act ActExpire (act_args i ''expire''), bind_act ActSupersede []]
          else [bind_act ActSupersede []]
      | SContestedClosure \<Rightarrow>
          if dispute_win then [bind_act ActExpire (act_args i ''expire''), bind_act ActSupersede []]
          else [bind_act ActSupersede []]
      | _ \<Rightarrow> [])"

text \<open>\<^verbatim>\<open>primaryActionOf\<close> of \<^verbatim>\<open>node.ts\<close>: the first that a tool signs.\<close>

definition primary_action_of :: "item_action list \<Rightarrow> item_action option" where
  "primary_action_of as = find (\<lambda>a. ia_tool a \<noteq> None) as"

lemma actions_for_ok: "i \<in> set (actions_for s role eid w d due) \<Longrightarrow> item_action_ok i"
  by (cases s) (auto simp: actions_for_def item_action_ok_def bind_act_def Let_def split: if_splits)

section \<open>What an act asserts\<close>

fun act_asserts :: "act \<Rightarrow> wire_state option" where
  "act_asserts ActDone = Some AClosed"
| "act_asserts ActRelease = Some AReleased"
| "act_asserts ActExpire = Some AExpired"
| "act_asserts ActConfirm = Some AConfirmed"
| "act_asserts _ = None"

text \<open>
  The flags \<^verbatim>\<open>open_loops\<close> computes are right for a chain when a flag that is set means the window it names
  has run out at the instant of the act.
\<close>

definition flags_right :: "edge \<Rightarrow> chain_state \<Rightarrow> rfc3339 \<Rightarrow> bool \<Rightarrow> bool \<Rightarrow> bool \<Rightarrow> bool" where
  "flags_right e c at win dispute_win due_past \<longleftrightarrow>
     (win \<longrightarrow> c_state c = SPendingAcceptance \<longrightarrow>
        (\<exists>t. c_window_opened_at c = Some t \<and> window_elapsed e t at)) \<and>
     (dispute_win \<longrightarrow> (\<exists>t. deadlocked_since c = Some t \<and> \<not> before_dispute_window_end t at)) \<and>
     (due_past \<longrightarrow> (\<exists>due. e_due e = Some due \<and> ms_of due \<le> ms_of at))"

text \<open>An act of the viewer: its own current key, dated now and after everything on the chain.\<close>

definition signed_now :: "verifier \<Rightarrow> edge \<Rightarrow> assertion list \<Rightarrow> viewer_role \<Rightarrow> assertion \<Rightarrow> bool" where
  "signed_now v e H role a \<longleftrightarrow>
     a_edge_id a = e_id e \<and> assertion_signature_ok (v_lib v) a \<and>
     (role = RoleOwner \<longrightarrow> is_owner_key v e a) \<and> (role = RoleOwedTo \<longrightarrow> is_owed_to_key v e a) \<and>
     \<not> dated_in_the_future (v_now v) (a_asserted_at a) \<and>
     (\<forall>b \<in> set H. ms_of (a_asserted_at b) < ms_of (a_asserted_at a))"

lemma later_than_history:
  assumes "reach v e H c" and "signed_now v e H role a"
  shows "\<not> concurrent_exit c a"
    and "\<forall>p. map_of (c_latest c) (a_by a) = Some p \<longrightarrow> ms_of p \<le> ms_of (a_asserted_at a)"
proof -
  show "\<not> concurrent_exit c a"
    using reach_exit_history [OF assms(1)] assms(2)
    by (auto simp: concurrent_exit_def exit_in_history_def signed_now_def split: option.splits)
  have l: "map_option ms_of (map_of (c_latest c) (a_by a)) = last_opt (signed_times (a_by a) H)"
    using reach_latest [OF assms(1)] by (simp add: latest_ok_def)
  have "\<forall>t \<in> set (signed_times (a_by a) H). t < ms_of (a_asserted_at a)"
    using assms(2) by (auto simp: signed_times_def signed_now_def)
  then have "last_opt (signed_times (a_by a) H) = Some t \<Longrightarrow> t < ms_of (a_asserted_at a)" for t
    by (auto simp: last_opt_def split: if_splits dest: last_in_set)
  with l show "\<forall>p. map_of (c_latest c) (a_by a) = Some p \<longrightarrow> ms_of p \<le> ms_of (a_asserted_at a)"
    by (metis less_imp_le option.map(2))
qed

lemma advertised_row:
  assumes "i \<in> set (actions_for (c_state c) role (e_id e) win dispute_win due_past)"
    and "act_asserts (ia_act i) = Some w" and "w = a_state a" and "a_state a = AClosed \<longrightarrow> a_evidence_hash a \<noteq> None"
    and "flags_right e c (a_asserted_at a) win dispute_win due_past"
    and "\<not> dated_in_the_future (v_now v) (a_asserted_at a)"
    and "role = RoleOwner \<longrightarrow> own" and "role = RoleOwedTo \<longrightarrow> owed"
  shows "(\<exists>c'. row_step v e own owed c a c') \<or> c_state c = SContestedClosure \<and> (\<exists>c'. contested_step v c a c')"
proof (cases "c_state c")
  case SPendingAcceptance
  with assms(1-5) have "role = RoleOwner" "a_state a = AClosed" win
    by (cases role; auto simp: actions_for_def bind_act_def split: if_splits)+
  with SPendingAcceptance assms(5,7) show ?thesis
    by (cases owed) (auto simp: flags_right_def intro: row_step.accept_evidence row_step.tacit_acceptance)
next
  case SDisputed
  with assms(1-5) have "a_state a = AExpired" dispute_win
    by (cases role; auto simp: actions_for_def bind_act_def split: if_splits)+
  with SDisputed assms(5) show ?thesis
    by (auto simp: flags_right_def deadlocked_since_def intro: row_step.end_dispute)
next
  case SContestedClosure
  with assms(1-5) have "a_state a = AExpired" dispute_win
    by (cases role; auto simp: actions_for_def bind_act_def split: if_splits)+
  with SContestedClosure assms(5,6) show ?thesis
    by (auto simp: flags_right_def deadlocked_since_def intro: contested_step.end_contest)
next
  case SProposed
  with assms(1-5) have "role = RoleOwedTo" "a_state a = AConfirmed"
    by (cases role; auto simp: actions_for_def bind_act_def split: if_splits)+
  with SProposed assms(8) show ?thesis by (auto intro: row_step.confirm)
next
  case SOpen
  with assms(1-5) consider (close) "role = RoleOwner" "a_state a = AClosed"
    | (release) "role = RoleOwedTo" "a_state a = AReleased" | (expire) "a_state a = AExpired" due_past
    by (cases role) (auto simp: actions_for_def bind_act_def Let_def split: if_splits)
  then show ?thesis
  proof cases
    case close
    with SOpen assms(4,7) show ?thesis
      by (cases "e_closure_policy e") (auto intro: row_step.close_on_evidence row_step.give_evidence)
  next
    case release
    with SOpen assms(8) show ?thesis by (auto intro: row_step.release)
  next
    case expire
    with SOpen assms(5,6) show ?thesis by (auto simp: flags_right_def intro: row_step.expire)
  qed
qed (use assms(1) in \<open>auto simp: actions_for_def split: if_splits\<close>)

text \<open>An advertised act, in every state a chain reaches.\<close>

lemma advertised_admitted:
  assumes "reach v e H c" and "i \<in> set (actions_for (c_state c) role (e_id e) win dispute_win due_past)"
    and "act_asserts (ia_act i) = Some (a_state a)" and "a_state a = AClosed \<Longrightarrow> a_evidence_hash a \<noteq> None"
    and "flags_right e c (a_asserted_at a) win dispute_win due_past" and "signed_now v e H role a"
  shows "\<exists>c'. admit v e c a = Inr c'"
proof -
  let ?own = "is_owner_key v e a" and ?owed = "is_owed_to_key v e a"
  note fresh = later_than_history [OF assms(1,6)]
  have role: "role \<noteq> RoleNonParty" using assms(2) by (auto simp: actions_for_def)
  have party: "?own \<or> ?owed" using assms(6) role by (cases role) (auto simp: signed_now_def)
  have "a_state a \<noteq> AOpen" using assms(3) by (cases "ia_act i") auto
  moreover have "\<not> terminal (c_state c)"
    using assms(2) by (cases "c_state c") (auto simp: terminal_iff actions_for_def split: if_splits)
  moreover have "(\<exists>c'. row_step v e ?own ?owed c a c') \<or>
      c_state c = SContestedClosure \<and> (\<exists>c'. contested_step v c a c')"
    using assms(4,6) by (intro advertised_row [OF assms(2,3) refl _ assms(5)]) (auto simp: signed_now_def)
  moreover have "c_state c = SContestedClosure \<Longrightarrow> \<not> row_step v e ?own ?owed c a c'" for c'
    by (auto elim: row_step.cases)
  ultimately have "\<exists>c'. step v e c a = Inr c'"
    using assms(6) party fresh(1)
    by (auto simp: step_def Let_def non_assertable_states_def signed_now_def step_row_iff step_contested_iff)
  with fresh(2) show ?thesis by (auto simp: admit_step)
qed

text \<open>
  An act a node advertises and binds to a signing tool is one the transition table accepts from the
  person it is shown to: signed with their current key, now, with evidence where closing, it is admitted.
\<close>

theorem advertised_act_is_admitted:
  assumes "reach v e H c" and "i \<in> set (actions_for (c_state c) role (e_id e) win dispute_win due_past)"
    and "act_asserts (ia_act i) = Some (a_state a)" and "a_state a = AClosed \<Longrightarrow> a_evidence_hash a \<noteq> None"
    and "flags_right e c (a_asserted_at a) win dispute_win due_past" and "signed_now v e H role a"
  shows "\<exists>c'. admit v e c a = Inr c'"
  by (rule advertised_admitted [OF assms(1-3) _ assms(5,6)]) (rule assms(4))

theorem advertised_act_is_admitted_witness:
  "\<exists>c'. admit sample_verifier (sample_edge OnEvidence) opened_state
     (says alice (sample_edge OnEvidence) AClosed (jan 10) some_evidence) = Inr c'"
proof (rule advertised_act_is_admitted [where H = "sample_opening (sample_edge OnEvidence)" and role = RoleOwner
      and win = False and dispute_win = False and due_past = False
      and i = "bind_act ActDone (act_args (e_id (sample_edge OnEvidence)) ''done'')"])
  have "run_chain sample_verifier (sample_edge OnEvidence) initial_chain
      (sample_opening (sample_edge OnEvidence)) = ([None, None], opened_state)"
    using run_opening [of OnEvidence "[]"] by simp
  from run_chain_reach [OF this reach.start]
  show "reach sample_verifier (sample_edge OnEvidence) (sample_opening (sample_edge OnEvidence)) opened_state"
    by (simp add: sample_opening_def)
qed (simp_all add: actions_for_def opened_state_def bind_act_def flags_right_def signed_now_def is_owner_key_def
    dated_in_the_future_def sample_opening_def)

end
