(* ===== verification/Attention.thy ===== *)
theory Attention
  imports Complex_Main "HOL-Library.Product_Lexorder" Actions
begin

text \<open>
  The attention market of \<^verbatim>\<open>packages/node/src\<close>: \<^verbatim>\<open>ranking.ts\<close> (bands and weights), \<^verbatim>\<open>cursor.ts\<close> and the
  paging of \<^verbatim>\<open>openLoops\<close>, \<^verbatim>\<open>escalation.ts\<close>. Scores are exact rationals where the source computes with
  floating-point numbers. The facts: age never lifts an undated item out of its band, and a walk over a
  register that does not change delivers every item once, in order.
\<close>

section \<open>Ranking\<close>

definition band_undated :: int where "band_undated = 0"
definition band_due_soon :: int where "band_due_soon = 1"
definition band_overdue :: int where "band_overdue = 2"
definition due_soon_horizon_days :: rat where "due_soon_horizon_days = 14"
definition band_stride :: rat where "band_stride = 1000000000"

record ranking =
  rk_band :: int
  rk_weight :: rat
  rk_score :: rat

definition in_days :: "int \<Rightarrow> rat" where
  "in_days t = of_int t / 86400000"

text \<open>\<^verbatim>\<open>band\<close>: the weight clamped so that it never reaches the next band.\<close>

definition band_rank :: "int \<Rightarrow> rat \<Rightarrow> ranking" where
  "band_rank b weight =
     (let clamped = min (max weight 0) (band_stride - 1)
      in \<lparr>rk_band = b, rk_weight = clamped, rk_score = of_int b * band_stride + clamped\<rparr>)"

definition rank :: "rfc3339 \<Rightarrow> rfc3339 option \<Rightarrow> nat \<Rightarrow> int \<Rightarrow> ranking" where
  "rank since due blocking now =
     (let age_days = max 0 (in_days (now - ms_of since));
          weigh = (\<lambda>d. d * (1 + of_nat blocking))
      in case due of
           None \<Rightarrow> band_rank band_undated (weigh age_days)
         | Some t \<Rightarrow>
             (let days_to_due = in_days (ms_of t - now)
              in if days_to_due < 0 then band_rank band_overdue (weigh (- days_to_due))
                 else if days_to_due \<le> due_soon_horizon_days
                 then band_rank band_due_soon (weigh (due_soon_horizon_days - days_to_due))
                 else band_rank band_undated (weigh age_days)))"

lemma band_rank_bounds:
  "of_int b * band_stride \<le> rk_score (band_rank b w) \<and> rk_score (band_rank b w) < (of_int b + 1) * band_stride"
  by (auto simp: band_rank_def Let_def band_stride_def min_def max_def)

lemma rank_band: "\<exists>b w. rank since due blocking now = band_rank b w \<and> b \<in> {band_undated, band_due_soon, band_overdue} \<and>
    (due = None \<longrightarrow> b = band_undated) \<and> (case due of None \<Rightarrow> True | Some t \<Rightarrow> ms_of t < now \<longrightarrow> b = band_overdue)"
  by (auto simp: rank_def Let_def in_days_def split: option.splits intro!: exI)

lemma rank_undated_band: "\<exists>w. rank since None blocking now = band_rank band_undated w"
  by (auto simp: rank_def Let_def)

lemma rank_overdue_band: "ms_of t < now \<Longrightarrow> \<exists>w. rank since (Some t) blocking now = band_rank band_overdue w"
  by (auto simp: rank_def Let_def in_days_def)

lemma rank_soon_band:
  "now \<le> ms_of t \<Longrightarrow> ms_of t \<le> now + 14 * 86400000 \<Longrightarrow>
     \<exists>w. rank since (Some t) blocking now = band_rank band_due_soon w"
  by (auto simp: rank_def Let_def in_days_def due_soon_horizon_days_def field_simps)

text \<open>
  The deadline bands cannot be reached by age. An overdue item outranks every undated one and every
  item due within the fourteen-day horizon, which in turn outranks every undated one, whatever their ages
  and however much they block.
\<close>

theorem deadline_outranks_age:
  assumes "ms_of overdue < now" and "now \<le> ms_of soon" and "ms_of soon \<le> now + 14 * 86400000"
  shows "rk_score (rank s1 None b1 now) < rk_score (rank s2 (Some soon) b2 now) \<and>
    rk_score (rank s2 (Some soon) b2 now) < rk_score (rank s3 (Some overdue) b3 now)"
proof -
  obtain w1 w2 w3 where w: "rank s1 None b1 now = band_rank band_undated w1"
      "rank s2 (Some soon) b2 now = band_rank band_due_soon w2"
      "rank s3 (Some overdue) b3 now = band_rank band_overdue w3"
    using rank_undated_band rank_overdue_band [OF assms(1)] rank_soon_band [OF assms(2,3)] by metis
  show ?thesis
    unfolding w using band_rank_bounds [of band_undated w1] band_rank_bounds [of band_due_soon w2]
      band_rank_bounds [of band_overdue w3]
    by (simp add: band_undated_def band_due_soon_def band_overdue_def)
qed

theorem deadline_outranks_age_witness:
  "rk_score (rank (jan 1) None 1000 (ms_of (jan 10))) < rk_score (rank (jan 9) (Some (jan 20)) 0 (ms_of (jan 10)))"
  using deadline_outranks_age [of "jan 9" "ms_of (jan 10)" "jan 20" "jan 1" 1000 "jan 9" 0] by simp

section \<open>Cursors\<close>

definition cursor_ttl :: iso_duration where
  "cursor_ttl = duration ''PT15M''"

datatype loops_view = ViewOwe | ViewWaiting | ViewClosed | ViewPending | ViewAll

record page_cursor =
  pc_view :: loops_view
  pc_persona :: persona_id
  pc_as_of :: rfc3339
  pc_score :: rat
  pc_id :: string
  pc_above :: nat

definition cursor_expired :: "page_cursor \<Rightarrow> int \<Rightarrow> bool" where
  "cursor_expired c now =
     (case add_duration (ms_of (pc_as_of c)) cursor_ttl of None \<Rightarrow> False | Some t \<Rightarrow> t < now)"

lemma cursor_expired_iff: "cursor_expired c now \<longleftrightarrow> ms_of (pc_as_of c) + 900000 < now"
  using ms_of_range [of "pc_as_of c"]
  by (auto simp: cursor_expired_def cursor_ttl_def add_PT15M time_clip_def max_time_def abs_le_iff abs_less_iff)

definition sorts_after :: "page_cursor \<Rightarrow> rat \<Rightarrow> string \<Rightarrow> bool" where
  "sorts_after c score i \<longleftrightarrow> score < pc_score c \<or> (score = pc_score c \<and> pc_id c < i)"

section \<open>A page of a register\<close>

record 'i page =
  pg_items :: "'i list"
  pg_total :: nat
  pg_next :: "page_cursor option"
  pg_skipped :: nat

text \<open>
  The register in the order of the walk: score descending, then identifier ascending. \<^verbatim>\<open>sort\<close> is stable. Ties are ordered by
  \<^verbatim>\<open>localeCompare\<close>, which the host's collation decides: \<open>lc a b\<close> says that it is not positive. A cursor is compared by code
  units (\<open>sorts_after\<close>), so the two orders are not the same definition here either. Sorting by insertion gives what any
  stable sort gives when the comparison is a total preorder, as a collation's is.
\<close>

type_synonym collation = "string \<Rightarrow> string \<Rightarrow> bool"

fun insert_by :: "('i \<Rightarrow> 'i \<Rightarrow> bool) \<Rightarrow> 'i \<Rightarrow> 'i list \<Rightarrow> 'i list" where
  "insert_by le x [] = [x]"
| "insert_by le x (y # ys) = (if le x y then x # y # ys else y # insert_by le x ys)"

definition sort_by :: "('i \<Rightarrow> 'i \<Rightarrow> bool) \<Rightarrow> 'i list \<Rightarrow> 'i list" where
  "sort_by le xs = foldr (insert_by le) xs []"

definition in_order :: "collation \<Rightarrow> ('i \<Rightarrow> rat) \<Rightarrow> ('i \<Rightarrow> string) \<Rightarrow> 'i list \<Rightarrow> 'i list" where
  "in_order lc score ident items =
     sort_by (\<lambda>a b. score b < score a \<or> (score a = score b \<and> lc (ident a) (ident b))) items"

definition page_start :: "('i \<Rightarrow> rat) \<Rightarrow> ('i \<Rightarrow> string) \<Rightarrow> page_cursor option \<Rightarrow> 'i list \<Rightarrow> nat" where
  "page_start score ident cur ordered =
     (case cur of
        None \<Rightarrow> 0
      | Some c \<Rightarrow> (case find_index (\<lambda>i. sorts_after c (score i) (ident i)) ordered of
                    None \<Rightarrow> length ordered | Some k \<Rightarrow> k))"

definition read_page ::
    "collation \<Rightarrow> loops_view \<Rightarrow> persona_id \<Rightarrow> rfc3339 \<Rightarrow> nat \<Rightarrow> page_cursor option \<Rightarrow> ('i \<Rightarrow> rat) \<Rightarrow> ('i \<Rightarrow> string) \<Rightarrow>
     'i list \<Rightarrow> 'i page" where
  "read_page lc vw persona as_of limit cur score ident items =
     (let ordered = in_order lc score ident items;
          start = page_start score ident cur ordered;
          page = take limit (drop start ordered);
          delivered = start + length page
      in \<lparr>pg_items = page,
          pg_total = length ordered,
          pg_next = (if length ordered \<le> delivered then None
                     else Some \<lparr>pc_view = vw, pc_persona = persona, pc_as_of = as_of,
                                pc_score = score (last page), pc_id = ident (last page), pc_above = delivered\<rparr>),
          pg_skipped = (case cur of None \<Rightarrow> 0 | Some c \<Rightarrow> start - pc_above c)\<rparr>)"

text \<open>A whole walk: every page from the first, following \<^verbatim>\<open>next_cursor\<close>; the fuel is the number of pages.\<close>

fun walk_pages ::
    "nat \<Rightarrow> collation \<Rightarrow> loops_view \<Rightarrow> persona_id \<Rightarrow> rfc3339 \<Rightarrow> nat \<Rightarrow> page_cursor option \<Rightarrow> ('i \<Rightarrow> rat) \<Rightarrow> ('i \<Rightarrow> string) \<Rightarrow>
     'i list \<Rightarrow> 'i page list option" where
  "walk_pages 0 lc vw p t limit cur score ident items = None"
| "walk_pages (Suc n) lc vw p t limit cur score ident items =
     (let pg = read_page lc vw p t limit cur score ident items
      in case pg_next pg of
           None \<Rightarrow> Some [pg]
         | Some c \<Rightarrow> map_option ((#) pg) (walk_pages n lc vw p t limit (Some c) score ident items))"

definition walk_key :: "('i \<Rightarrow> rat) \<Rightarrow> ('i \<Rightarrow> string) \<Rightarrow> 'i \<Rightarrow> rat \<times> string" where
  "walk_key score ident i = (- score i, ident i)"

lemma sorts_after_key:
  "sorts_after c (score i) (ident i) \<longleftrightarrow> (- pc_score c, pc_id c) < walk_key score ident i"
  by (auto simp: sorts_after_def walk_key_def)

lemma set_insert_by [simp]: "set (insert_by le x ys) = insert x (set ys)"
  by (induction ys) auto

lemma length_insert_by [simp]: "length (insert_by le x ys) = Suc (length ys)"
  by (induction ys) auto

lemma set_sort_by [simp]: "set (sort_by le xs) = set xs" and length_sort_by [simp]: "length (sort_by le xs) = length xs"
  unfolding sort_by_def by (induction xs) auto

lemma in_order_contents [simp]:
  "set (in_order lc score ident items) = set items" "length (in_order lc score ident items) = length items"
  by (simp_all add: in_order_def)

text \<open>On some items the collation orders the identifiers as code units do.\<close>

definition agrees :: "collation \<Rightarrow> ('i \<Rightarrow> string) \<Rightarrow> 'i list \<Rightarrow> bool" where
  "agrees lc ident items \<longleftrightarrow> (\<forall>a \<in> set items. \<forall>b \<in> set items. lc (ident a) (ident b) \<longleftrightarrow> ident a \<le> ident b)"

lemma sort_by_key:
  assumes "\<And>a b. a \<in> set xs \<Longrightarrow> b \<in> set xs \<Longrightarrow> le a b \<longleftrightarrow> f a \<le> f b"
  shows "sort_by le xs = sort_key f xs"
  using assms
proof (induction xs)
  case (Cons x xs)
  have "insert_by le x ys = insort_key f x ys" if "set ys \<subseteq> set xs" for ys
    using that Cons.prems by (induction ys) auto
  moreover have "sort_by le xs = sort_key f xs" using Cons by auto
  ultimately show ?case by (simp add: sort_by_def)
qed (simp add: sort_by_def)

lemma in_order_key: "agrees lc ident items \<Longrightarrow> in_order lc score ident items = sort_key (walk_key score ident) items"
  unfolding in_order_def by (rule sort_by_key) (auto simp: agrees_def walk_key_def)

lemma in_order_strict:
  assumes "distinct (map ident items)" and "agrees lc ident items"
  shows "sorted_wrt (\<lambda>a b. walk_key score ident a < walk_key score ident b) (in_order lc score ident items)"
proof -
  have "sorted (map (walk_key score ident) (in_order lc score ident items))"
    unfolding in_order_key [OF assms(2)] by (rule sorted_sort_key)
  moreover have "distinct (map ident (in_order lc score ident items))"
    using assms(1) unfolding in_order_key [OF assms(2)] distinct_map by simp
  then have "distinct (map (walk_key score ident) (in_order lc score ident items))"
    by (auto simp: distinct_map inj_on_def walk_key_def)
  ultimately have "sorted_wrt (<) (map (walk_key score ident) (in_order lc score ident items))"
    by (simp add: strict_sorted_iff)
  then show ?thesis by (simp add: sorted_wrt_map)
qed

text \<open>What lies past a cursor is the tail of the register, whatever the register has become.\<close>

lemma drop_find_index:
  assumes "sorted_wrt (\<lambda>a b. k a < (k b :: 'k :: linorder)) xs"
  shows "drop (case find_index (\<lambda>x. c < k x) xs of None \<Rightarrow> length xs | Some n \<Rightarrow> n) xs = filter (\<lambda>x. c < k x) xs"
  using assms
proof (induction xs)
  case Nil
  then show ?case by simp
next
  case (Cons x xs)
  show ?case
  proof (cases "c < k x")
    case True
    with Cons.prems have "\<forall>y \<in> set xs. c < k y" by auto
    with True show ?thesis by simp
  next
    case False
    with Cons show ?thesis by (auto split: option.splits)
  qed
qed

lemma page_start_drop:
  assumes "distinct (map ident items)" and "agrees lc ident items"
  shows "drop (page_start score ident (Some c) (in_order lc score ident items)) (in_order lc score ident items) =
    filter (\<lambda>i. sorts_after c (score i) (ident i)) (in_order lc score ident items)"
  unfolding page_start_def sorts_after_key option.case
  by (rule drop_find_index [OF in_order_strict [OF assms]])

text \<open>In a strictly sorted list the index after an element is found by its key.\<close>

lemma find_index_after:
  assumes "sorted_wrt (\<lambda>a b. k a < (k b :: 'k :: linorder)) xs" and "n < length xs"
  shows "(case find_index (\<lambda>x. k (xs ! n) < k x) xs of None \<Rightarrow> length xs | Some m \<Rightarrow> m) = Suc n"
  using assms
proof (induction xs arbitrary: n)
  case Nil
  then show ?case by simp
next
  case (Cons x xs)
  show ?case
  proof (cases n)
    case 0
    with Cons.prems show ?thesis by (cases xs) auto
  next
    case (Suc m)
    with Cons.prems have "k x < k (xs ! m)" by (auto simp: nth_mem)
    then have "\<not> k (xs ! m) < k x" by simp
    with Suc Cons.IH [of m] Cons.prems show ?thesis by (auto split: option.splits)
  qed
qed

lemma page_start_last:
  assumes "distinct (map ident items)" and "agrees lc ident items" and "n < length items"
    and "c = \<lparr>pc_view = vw, pc_persona = p, pc_as_of = t, pc_score = score (in_order lc score ident items ! n),
              pc_id = ident (in_order lc score ident items ! n), pc_above = m\<rparr>"
  shows "page_start score ident (Some c) (in_order lc score ident items) = Suc n"
proof -
  have key: "(- pc_score c, pc_id c) = walk_key score ident (in_order lc score ident items ! n)"
    by (simp add: assms(4) walk_key_def)
  show ?thesis
    unfolding page_start_def sorts_after_key option.case key
    by (rule find_index_after [OF in_order_strict [OF assms(1,2)]]) (simp add: assms(3))
qed

lemma walk_from:
  assumes "distinct (map ident items)" and "agrees lc ident items" and "0 < limit" and "length items < start + n"
    and "start \<le> length items"
    and "page_start score ident cur (in_order lc score ident items) = start"
    and "case cur of None \<Rightarrow> True | Some c \<Rightarrow> pc_above c = start"
  shows "\<exists>pgs. walk_pages n lc vw p t limit cur score ident items = Some pgs \<and>
    concat (map pg_items pgs) = drop start (in_order lc score ident items) \<and> (\<forall>pg \<in> set pgs. pg_skipped pg = 0)"
  using assms(4-7)
proof (induction n arbitrary: start cur)
  case 0
  then show ?case by simp
next
  case (Suc n)
  let ?xs = "in_order lc score ident items"
  have len: "length ?xs = length items" by simp
  show ?case
  proof (cases "length items \<le> start + limit")
    case True
    then show ?thesis using Suc.prems(2-4) len
      by (auto simp: read_page_def Let_def split: option.splits)
  next
    case False
    then have page: "length (take limit (drop start ?xs)) = limit" by (simp add: len)
    define m where "m = start + limit - 1"
    have m: "m < length items" "Suc m = start + limit" using False assms(3) by (simp_all add: m_def)
    have last: "last (take limit (drop start ?xs)) = ?xs ! m"
      using False assms(3) len by (subst last_conv_nth) (auto simp: m_def simp flip: length_greater_0_conv)
    define c where "c = \<lparr>pc_view = vw, pc_persona = p, pc_as_of = t, pc_score = score (?xs ! m),
      pc_id = ident (?xs ! m), pc_above = start + limit\<rparr>"
    have "page_start score ident (Some c) ?xs = start + limit"
      using page_start_last [OF assms(1,2) m(1) c_def] m(2) by simp
    moreover have "length items < start + limit + n" using Suc.prems(1) assms(3) by simp
    moreover have "pc_above c = start + limit" by (simp add: c_def)
    ultimately obtain pgs where pgs: "walk_pages n lc vw p t limit (Some c) score ident items = Some pgs"
        "concat (map pg_items pgs) = drop (start + limit) ?xs" "\<forall>pg \<in> set pgs. pg_skipped pg = 0"
      using Suc.IH [of "start + limit" "Some c"] False by auto
    have "read_page lc vw p t limit cur score ident items =
        \<lparr>pg_items = take limit (drop start ?xs), pg_total = length items, pg_next = Some c, pg_skipped = 0\<rparr>"
      using Suc.prems(3,4) False last page len
      by (auto simp: read_page_def Let_def c_def split: option.splits)
    with pgs show ?thesis by (auto simp: add.commute simp flip: drop_drop)
  qed
qed

text \<open>
  C9: paging loses and repeats nothing. Over a register that does not change, whose items have different identifiers in
  lowercase hexadecimal, following the cursors from the first page ends after at most one page more than there are items,
  delivers every item exactly once, in the order of the ranking, and reports no page overtaken. The order of the pages and
  the position of a cursor are compared in two ways: the host's collation is asked to order such identifiers as their code
  units do, as the Unicode default table does (and as the tailorings of some languages do not, see below).
\<close>

theorem pages_partition_the_register:
  assumes "distinct (map ident items)" and "0 < limit" and "\<forall>i \<in> set items. list_all is_lower_hex (ident i)"
    and "\<forall>a b. list_all is_lower_hex a \<and> list_all is_lower_hex b \<longrightarrow> (lc a b \<longleftrightarrow> a \<le> b)"
  shows "\<exists>pgs. walk_pages (Suc (length items)) lc vw p t limit None score ident items = Some pgs \<and>
    concat (map pg_items pgs) = in_order lc score ident items \<and> mset (in_order lc score ident items) = mset items \<and>
    sorted_wrt (\<lambda>a b. score b \<le> score a) (in_order lc score ident items) \<and> (\<forall>pg \<in> set pgs. pg_skipped pg = 0)"
proof -
  have agrees: "agrees lc ident items" using assms(3,4) by (auto simp: agrees_def)
  have "mset (in_order lc score ident items) = mset items" by (simp add: in_order_key [OF agrees])
  moreover have "sorted_wrt (\<lambda>a b. score b \<le> score a) (in_order lc score ident items)"
    by (rule sorted_wrt_mono_rel [OF _ in_order_strict [OF assms(1) agrees]]) (auto simp: walk_key_def)
  ultimately show ?thesis
    using walk_from [OF assms(1) agrees assms(2), of 0 "Suc (length items)" score None] by (simp add: page_start_def)
qed

theorem pages_partition_the_register_witness:
  "\<exists>pgs. walk_pages 4 (\<le>) ViewAll alice (jan 1) 2 None of_nat (\<lambda>n. replicate n CHR ''a'') [1, 3, 2 :: nat] = Some pgs \<and>
    concat (map pg_items pgs) = in_order (\<le>) of_nat (\<lambda>n. replicate n CHR ''a'') [1, 3, 2 :: nat]"
proof -
  have "distinct (map (\<lambda>n. replicate n CHR ''a'') [1, 3, 2 :: nat])" by (simp add: numeral_eq_Suc)
  moreover have "\<forall>i \<in> set [1, 3, 2 :: nat]. list_all is_lower_hex (replicate i CHR ''a'')"
    by (auto simp: list_all_iff is_lower_hex_def)
  ultimately show ?thesis
    using pages_partition_the_register [of "\<lambda>n. replicate n CHR ''a''" "[1, 3, 2 :: nat]" 2 "(\<le>)" ViewAll alice "jan 1" of_nat]
    by (auto simp: numeral_eq_Suc)
qed

text \<open>
  With another collation an item can be lost, identifiers in hexadecimal included: Danish sorts \<^verbatim>\<open>aa\<close> as a letter after
  \<^verbatim>\<open>z\<close> (Welsh has \<^verbatim>\<open>dd\<close> and \<^verbatim>\<open>ff\<close>), and a register of one item a page then never shows the second.
\<close>

lemma danish_collation_loses_an_item:
  "\<exists>pgs. walk_pages 3 (\<lambda>a b. a = ''ab'' \<or> b = ''aa'') vw p t 1 None (\<lambda>_. 0) (\<lambda>x. x) [''aa'', ''ab''] = Some pgs \<and>
     concat (map pg_items pgs) = [''ab'']"
  by (simp add: numeral_eq_Suc read_page_def in_order_def sort_by_def page_start_def sorts_after_def Let_def less_char_def)

section \<open>Escalation\<close>

definition may_auto_escalate :: "edge \<Rightarrow> chain_verification \<Rightarrow> int \<Rightarrow> bool" where
  "may_auto_escalate e r now =
     (case e_due e of
        None \<Rightarrow> False
      | Some due \<Rightarrow>
          if cv_unverifiable r then False
          else if cv_final_state r \<noteq> SOpen \<and> cv_final_state r \<noteq> SPendingAcceptance then False
          else ms_of due < now)"

end
