(* ===== verification/Vault.thy ===== *)
theory Vault
  imports Attention
begin

text \<open>
  The sovereign store: \<^verbatim>\<open>packages/vault/src/records.ts\<close> and \<^verbatim>\<open>packages/vault/src/vault.ts\<close>, with the records
  of \<^verbatim>\<open>packages/types/src/commitment.ts\<close>, \<^verbatim>\<open>identity.ts\<close> and \<^verbatim>\<open>scope.ts\<close> it holds. A persona's subtree is a
  record of directories; a file is its opened content, since every record is read back exactly as it was
  sealed. A call that throws is an \<open>Inl\<close>; every call that writes returns the new vault.
\<close>

section \<open>Records\<close>

datatype evidence_kind = EvEnvelope | EvUrl | EvCommit | EvFile

record evidence_ref =
  ev_kind :: evidence_kind
  ev_value :: string

datatype commitment_source = SrcExtracted | SrcExplicit | SrcArchaeology | SrcConvertedExpectation

record commitment =
  cm_intent :: string
  cm_owner :: persona_id
  cm_owed_to :: "string option"
  cm_due :: "rfc3339 option"
  cm_conditions :: "sha256_hex list"
  cm_evidence_refs :: "evidence_ref list"
  cm_created_at :: rfc3339
  cm_source :: commitment_source
  cm_confidence :: rat

datatype expectation_state = ExOpen | ExClosed

record expectation =
  ex_expect :: string
  ex_from :: string
  ex_since :: rfc3339
  ex_context_refs :: "evidence_ref list"
  ex_state :: expectation_state

datatype scope_kind = ScopePersonal | ScopeOrg

record persona_record =
  pr_id :: persona_id
  pr_index :: nat
  pr_label :: string
  pr_scope_kind :: scope_kind
  pr_org_root :: "persona_id option"
  pr_private_key :: string
  pr_created_at :: rfc3339

record publish =
  pb_edge_id :: sha256_hex
  pb_scope :: persona_id
  pb_published_at :: rfc3339
  pb_by :: persona_id
  pb_sig :: signature_hex

datatype subject_kind = SubjectPersona | SubjectGroup

record attestation =
  at_org :: persona_id
  at_subject :: persona_id
  at_subject_kind :: subject_kind
  at_claims :: json_members
  at_issued_at :: rfc3339
  at_expires_at :: rfc3339
  at_sig :: signature_hex

record revocation =
  rv_org :: persona_id
  rv_subject :: persona_id
  rv_revoked_at :: rfc3339
  rv_sig :: signature_hex

record domain_anchor =
  da_org_root :: persona_id
  da_hubs :: "string list"

record outbox_delivery =
  od_sent_at :: "rfc3339 option"
  od_sent_via :: "string option"
  od_acknowledged_at :: "rfc3339 option"
  od_attempts :: nat
  od_last_attempt_at :: "rfc3339 option"
  od_last_error :: "string option"
  od_unroutable_since :: "rfc3339 option"

definition no_delivery :: outbox_delivery where
  "no_delivery = \<lparr>od_sent_at = None, od_sent_via = None, od_acknowledged_at = None, od_attempts = 0,
     od_last_attempt_at = None, od_last_error = None, od_unroutable_since = None\<rparr>"

record outbox_item =
  ob_id :: sha256_hex
  ob_persona :: persona_id
  ob_recipient :: persona_id
  ob_message :: json_members
  ob_queued_at :: rfc3339
  ob_delivery :: outbox_delivery

record edge_meta =
  em_edge_id :: sha256_hex
  em_dismissed :: bool
  em_plaintext_deleted_at :: "rfc3339 option"

datatype key_kind = KeyCommitment | KeyExpectation | KeyEdge

record ordering_key =
  ok_persona :: persona_id
  ok_kind :: key_kind
  ok_id :: string
  ok_since :: rfc3339
  ok_due :: "rfc3339 option"
  ok_blocking_count :: nat
  ok_state :: string

definition default_retention_days :: int where
  "default_retention_days = 365"

section \<open>The state of a vault\<close>

text \<open>\<^verbatim>\<open>edges/<id>/\<close>: the body, the chain (one numbered file per assertion) and the local bookkeeping.\<close>

record edge_files =
  ef_edge :: "edge option"
  ef_assertions :: "assertion dir"
  ef_meta :: "edge_meta option"

definition no_edge_files :: edge_files where
  "no_edge_files = \<lparr>ef_edge = None, ef_assertions = [], ef_meta = None\<rparr>"

record persona_store =
  ps_record :: persona_record
  ps_commitments :: "commitment dir"
  ps_expectations :: "expectation dir"
  ps_edges :: "edge_files dir"
  ps_publish :: "publish dir"
  ps_rotations :: "rotation dir"
  ps_attestations :: "attestation dir"
  ps_revocations :: "revocation dir"
  ps_anchors :: "domain_anchor dir"
  ps_outbox :: "outbox_item dir"

record vault =
  vt_personas :: "persona_store dir"
  vt_retention_days :: "int option"

datatype vault_error =
    NotHex
  | NoSuchPersona
  | LabelTaken
  | EdgeIdNotTheDigest
  | OtherBodyBound
  | ChainFileExists
  | PublishOfUnknownEdge
  | PublishByNonParty
  | OutboxItemMalformed
  | OutboxIdNotTheDigest

type_synonym 'a vault_result = "(vault_error, 'a) result"

text \<open>\<^verbatim>\<open>/^[0-9a-f]{1,128}$/\<close>.\<close>

definition hex_id :: "string \<Rightarrow> bool" where
  "hex_id s \<longleftrightarrow> s \<noteq> [] \<and> length s \<le> 128 \<and> list_all is_lower_hex s"

definition assert_hex_id :: "string \<Rightarrow> unit vault_result" where
  "assert_hex_id s = (if hex_id s then Inr () else Inl NotHex)"

lemma hex64_hex_id: "hex64 s \<Longrightarrow> hex_id s"
  by (auto simp: hex64_def hex_id_def)

lemma assert_hex_id_Inr [simp]: "assert_hex_id s = Inr u \<longleftrightarrow> hex_id s"
  by (simp add: assert_hex_id_def)

text \<open>A numbered file: \<^verbatim>\<open>String(seq).padStart(4, '0')\<close>.\<close>

definition pad4 :: "nat \<Rightarrow> string" where
  "pad4 n = (let s = decimal_digits n in replicate (4 - length s) CHR ''0'' @ s)"

section \<open>Personas\<close>

definition require_persona :: "vault \<Rightarrow> persona_id \<Rightarrow> persona_store vault_result" where
  "require_persona v p =
     bind_result (assert_hex_id p)
       (\<lambda>_. case dir_get (vt_personas v) p of None \<Rightarrow> Inl NoSuchPersona | Some ps \<Rightarrow> Inr ps)"

definition put_store :: "vault \<Rightarrow> persona_id \<Rightarrow> persona_store \<Rightarrow> vault" where
  "put_store v p ps = v\<lparr>vt_personas := dir_put p ps (vt_personas v)\<rparr>"

definition list_persona_ids :: "vault \<Rightarrow> persona_id list" where
  "list_persona_ids v = dir_names (vt_personas v)"

definition get_persona :: "vault \<Rightarrow> persona_id \<Rightarrow> persona_record vault_result" where
  "get_persona v p = map_sum id ps_record (require_persona v p)"

definition empty_store :: "persona_record \<Rightarrow> persona_store" where
  "empty_store r = \<lparr>ps_record = r, ps_commitments = [], ps_expectations = [], ps_edges = [], ps_publish = [],
     ps_rotations = [], ps_attestations = [], ps_revocations = [], ps_anchors = [], ps_outbox = []\<rparr>"

definition put_persona :: "vault \<Rightarrow> persona_record \<Rightarrow> vault vault_result" where
  "put_persona v r =
     bind_result (assert_hex_id (pr_id r))
       (\<lambda>_. if \<exists>(q, ps) \<in> set (vt_personas v). q \<noteq> pr_id r \<and> pr_label (ps_record ps) = pr_label r
             then Inl LabelTaken
             else Inr (put_store v (pr_id r)
               (case dir_get (vt_personas v) (pr_id r) of
                  None \<Rightarrow> empty_store r | Some ps \<Rightarrow> ps\<lparr>ps_record := r\<rparr>)))"

section \<open>Commitments and expectations\<close>

definition commitment_fields :: "commitment \<Rightarrow> commitment_hash_input" where
  "commitment_fields c = \<lparr>ch_intent = cm_intent c, ch_owner = cm_owner c, ch_owed_to = cm_owed_to c,
     ch_due = map_option text_of (cm_due c), ch_created_at = text_of (cm_created_at c)\<rparr>"

text \<open>\<^verbatim>\<open>commitmentKey\<close>; the hash is always defined (\<open>commitment_hash_eq\<close>).\<close>

definition commitment_key :: "crypto_lib \<Rightarrow> commitment \<Rightarrow> sha256_hex" where
  "commitment_key cl c = the (commitment_hash cl (commitment_fields c))"

definition put_commitment :: "crypto_lib \<Rightarrow> vault \<Rightarrow> persona_id \<Rightarrow> commitment \<Rightarrow> vault vault_result" where
  "put_commitment cl v p c =
     bind_result (require_persona v p) (\<lambda>ps.
     bind_result (assert_hex_id (cm_owner c)) (\<lambda>_.
       Inr (put_store v p (ps\<lparr>ps_commitments := dir_put (commitment_key cl c) c (ps_commitments ps)\<rparr>))))"

definition get_commitment :: "vault \<Rightarrow> persona_id \<Rightarrow> sha256_hex \<Rightarrow> commitment option vault_result" where
  "get_commitment v p h =
     bind_result (require_persona v p) (\<lambda>ps.
     bind_result (assert_hex_id h) (\<lambda>_. Inr (dir_get (ps_commitments ps) h)))"

definition list_commitments :: "vault \<Rightarrow> persona_id \<Rightarrow> (sha256_hex \<times> commitment) list vault_result" where
  "list_commitments v p = map_sum id ps_commitments (require_persona v p)"

definition delete_commitment_plaintext ::
    "vault \<Rightarrow> persona_id \<Rightarrow> sha256_hex \<Rightarrow> (bool \<times> vault) vault_result" where
  "delete_commitment_plaintext v p h =
     bind_result (require_persona v p) (\<lambda>ps.
     bind_result (assert_hex_id h) (\<lambda>_.
       if dir_get (ps_commitments ps) h = None then Inr (False, v)
       else Inr (True, put_store v p (ps\<lparr>ps_commitments := dir_del h (ps_commitments ps)\<rparr>))))"

definition put_expectation :: "vault \<Rightarrow> persona_id \<Rightarrow> string \<Rightarrow> expectation \<Rightarrow> vault vault_result" where
  "put_expectation v p i x =
     bind_result (require_persona v p) (\<lambda>ps.
     bind_result (assert_hex_id i) (\<lambda>_.
       Inr (put_store v p (ps\<lparr>ps_expectations := dir_put i x (ps_expectations ps)\<rparr>))))"

definition get_expectation :: "vault \<Rightarrow> persona_id \<Rightarrow> string \<Rightarrow> expectation option vault_result" where
  "get_expectation v p i =
     bind_result (require_persona v p) (\<lambda>ps.
     bind_result (assert_hex_id i) (\<lambda>_. Inr (dir_get (ps_expectations ps) i)))"

definition list_expectations :: "vault \<Rightarrow> persona_id \<Rightarrow> (string \<times> expectation) list vault_result" where
  "list_expectations v p = map_sum id ps_expectations (require_persona v p)"

section \<open>Edges and chains\<close>

definition edge_dir :: "vault \<Rightarrow> persona_id \<Rightarrow> sha256_hex \<Rightarrow> (persona_store \<times> edge_files) vault_result" where
  "edge_dir v p i =
     bind_result (require_persona v p) (\<lambda>ps.
     bind_result (assert_hex_id i) (\<lambda>_.
       Inr (ps, case dir_get (ps_edges ps) i of None \<Rightarrow> no_edge_files | Some ef \<Rightarrow> ef)))"

definition put_edge_files :: "vault \<Rightarrow> persona_id \<Rightarrow> persona_store \<Rightarrow> sha256_hex \<Rightarrow> edge_files \<Rightarrow> vault" where
  "put_edge_files v p ps i ef = put_store v p (ps\<lparr>ps_edges := dir_put i ef (ps_edges ps)\<rparr>)"

definition get_edge :: "vault \<Rightarrow> persona_id \<Rightarrow> sha256_hex \<Rightarrow> edge option vault_result" where
  "get_edge v p i = map_sum id (\<lambda>(ps, ef). ef_edge ef) (edge_dir v p i)"

definition list_edge_ids :: "vault \<Rightarrow> persona_id \<Rightarrow> sha256_hex list vault_result" where
  "list_edge_ids v p = map_sum id (\<lambda>ps. dir_names (ps_edges ps)) (require_persona v p)"

definition put_edge :: "crypto_lib \<Rightarrow> vault \<Rightarrow> persona_id \<Rightarrow> edge \<Rightarrow> vault vault_result" where
  "put_edge cl v p e =
     (if \<not> edge_id_binds_body cl e then Inl EdgeIdNotTheDigest
      else bind_result (edge_dir v p (e_id e)) (\<lambda>(ps, ef).
        case ef_edge ef of
          Some held \<Rightarrow>
            if hash_canonical cl (edge_json held) \<noteq> hash_canonical cl (edge_json e) then Inl OtherBodyBound
            else Inr v
        | None \<Rightarrow> Inr (put_edge_files v p ps (e_id e) (ef\<lparr>ef_edge := Some e\<rparr>))))"

definition append_assertion :: "vault \<Rightarrow> persona_id \<Rightarrow> assertion \<Rightarrow> (nat \<times> vault) vault_result" where
  "append_assertion v p a =
     bind_result (edge_dir v p (a_edge_id a)) (\<lambda>(ps, ef).
       let num = length (ef_assertions ef)
       in if dir_get (ef_assertions ef) (pad4 num) \<noteq> None then Inl ChainFileExists
          else Inr (num, put_edge_files v p ps (a_edge_id a)
                           (ef\<lparr>ef_assertions := dir_put (pad4 num) a (ef_assertions ef)\<rparr>)))"

definition get_assertions :: "vault \<Rightarrow> persona_id \<Rightarrow> sha256_hex \<Rightarrow> assertion list vault_result" where
  "get_assertions v p i = map_sum id (\<lambda>(ps, ef). map snd (ef_assertions ef)) (edge_dir v p i)"

definition get_edge_meta :: "vault \<Rightarrow> persona_id \<Rightarrow> sha256_hex \<Rightarrow> edge_meta vault_result" where
  "get_edge_meta v p i = map_sum id (\<lambda>(ps, ef).
     case ef_meta ef of
       None \<Rightarrow> \<lparr>em_edge_id = i, em_dismissed = False, em_plaintext_deleted_at = None\<rparr>
     | Some m \<Rightarrow> m) (edge_dir v p i)"

definition put_edge_meta :: "vault \<Rightarrow> persona_id \<Rightarrow> edge_meta \<Rightarrow> vault vault_result" where
  "put_edge_meta v p m =
     map_sum id (\<lambda>(ps, ef). put_edge_files v p ps (em_edge_id m) (ef\<lparr>ef_meta := Some m\<rparr>)) (edge_dir v p (em_edge_id m))"

section \<open>Publish records, rotations, attestations, anchors\<close>

definition put_publish :: "vault \<Rightarrow> persona_id \<Rightarrow> publish \<Rightarrow> vault vault_result" where
  "put_publish v p r =
     bind_result (require_persona v p) (\<lambda>ps.
     bind_result (get_edge v p (pb_edge_id r)) (\<lambda>held.
       case held of
         None \<Rightarrow> Inl PublishOfUnknownEdge
       | Some e \<Rightarrow>
           if pb_by r \<noteq> e_owner e \<and> pb_by r \<noteq> e_owed_to e then Inl PublishByNonParty
           else Inr (put_store v p
             (ps\<lparr>ps_publish := dir_put (pad4 (length (ps_publish ps))) r (ps_publish ps)\<rparr>))))"

definition list_publish_records :: "vault \<Rightarrow> persona_id \<Rightarrow> publish list vault_result" where
  "list_publish_records v p = map_sum id (\<lambda>ps. map snd (ps_publish ps)) (require_persona v p)"

text \<open>Keyed by the new key: two statements of one old key are kept apart.\<close>

definition put_rotation :: "vault \<Rightarrow> persona_id \<Rightarrow> rotation \<Rightarrow> vault vault_result" where
  "put_rotation v p r =
     bind_result (require_persona v p) (\<lambda>ps.
     bind_result (assert_hex_id (r_new r)) (\<lambda>_.
     bind_result (assert_hex_id (r_old r)) (\<lambda>_.
       Inr (put_store v p (ps\<lparr>ps_rotations := dir_put (r_new r) r (ps_rotations ps)\<rparr>)))))"

definition list_rotations :: "vault \<Rightarrow> persona_id \<Rightarrow> rotation list vault_result" where
  "list_rotations v p = map_sum id (\<lambda>ps. map snd (ps_rotations ps)) (require_persona v p)"

definition put_attestation :: "vault \<Rightarrow> persona_id \<Rightarrow> attestation \<Rightarrow> vault vault_result" where
  "put_attestation v p a =
     bind_result (require_persona v p) (\<lambda>ps.
     bind_result (assert_hex_id (at_subject a)) (\<lambda>_.
       Inr (put_store v p (ps\<lparr>ps_attestations := dir_put (at_subject a) a (ps_attestations ps)\<rparr>))))"

definition get_attestation :: "vault \<Rightarrow> persona_id \<Rightarrow> persona_id \<Rightarrow> attestation option vault_result" where
  "get_attestation v p subject =
     bind_result (require_persona v p) (\<lambda>ps.
     bind_result (assert_hex_id subject) (\<lambda>_. Inr (dir_get (ps_attestations ps) subject)))"

definition put_revocation :: "vault \<Rightarrow> persona_id \<Rightarrow> revocation \<Rightarrow> vault vault_result" where
  "put_revocation v p r =
     bind_result (require_persona v p) (\<lambda>ps.
     bind_result (assert_hex_id (rv_subject r)) (\<lambda>_.
       Inr (put_store v p (ps\<lparr>ps_revocations := dir_put (rv_subject r) r (ps_revocations ps)\<rparr>))))"

definition get_revocation :: "vault \<Rightarrow> persona_id \<Rightarrow> persona_id \<Rightarrow> revocation option vault_result" where
  "get_revocation v p subject =
     bind_result (require_persona v p) (\<lambda>ps.
     bind_result (assert_hex_id subject) (\<lambda>_. Inr (dir_get (ps_revocations ps) subject)))"

definition put_domain_anchor :: "vault \<Rightarrow> persona_id \<Rightarrow> domain_anchor \<Rightarrow> vault vault_result" where
  "put_domain_anchor v p a =
     bind_result (require_persona v p) (\<lambda>ps.
     bind_result (assert_hex_id (da_org_root a)) (\<lambda>_.
       Inr (put_store v p (ps\<lparr>ps_anchors := dir_put (da_org_root a) a (ps_anchors ps)\<rparr>))))"

definition get_domain_anchor :: "vault \<Rightarrow> persona_id \<Rightarrow> persona_id \<Rightarrow> domain_anchor option vault_result" where
  "get_domain_anchor v p org =
     bind_result (require_persona v p) (\<lambda>ps.
     bind_result (assert_hex_id org) (\<lambda>_. Inr (dir_get (ps_anchors ps) org)))"

section \<open>The outbox\<close>

definition put_outbox :: "crypto_lib \<Rightarrow> vault \<Rightarrow> outbox_item \<Rightarrow> vault vault_result" where
  "put_outbox cl v item =
     (if \<not> (hex64 (ob_id item) \<and> hex64 (ob_persona item) \<and> hex64 (ob_recipient item)) then Inl OutboxItemMalformed
      else bind_result (require_persona v (ob_persona item)) (\<lambda>ps.
        if hash_canonical cl (JObj (ob_message item)) \<noteq> Some (ob_id item) then Inl OutboxIdNotTheDigest
        else Inr (put_store v (ob_persona item)
               (ps\<lparr>ps_outbox := dir_put (ob_id item) item (ps_outbox ps)\<rparr>))))"

definition list_outbox :: "vault \<Rightarrow> persona_id \<Rightarrow> outbox_item list vault_result" where
  "list_outbox v p = map_sum id (\<lambda>ps. map snd (ps_outbox ps)) (require_persona v p)"

text \<open>Read, replace \<^verbatim>\<open>delivery\<close> by the patch, write; \<open>None\<close> when there is no such item.\<close>

definition record_outbox_delivery ::
    "vault \<Rightarrow> persona_id \<Rightarrow> string \<Rightarrow> (outbox_delivery \<Rightarrow> outbox_delivery) \<Rightarrow>
     (outbox_item option \<times> vault) vault_result" where
  "record_outbox_delivery v p i patch =
     bind_result (require_persona v p) (\<lambda>ps.
     bind_result (assert_hex_id i) (\<lambda>_.
       case dir_get (ps_outbox ps) i of
         None \<Rightarrow> Inr (None, v)
       | Some item \<Rightarrow>
           (let updated = item\<lparr>ob_delivery := patch (ob_delivery item)\<rparr>
            in Inr (Some updated, put_store v p (ps\<lparr>ps_outbox := dir_put i updated (ps_outbox ps)\<rparr>)))))"

section \<open>Retention policy and ordering keys\<close>

definition set_retention_policy :: "vault \<Rightarrow> int \<Rightarrow> vault" where
  "set_retention_policy v n = v\<lparr>vt_retention_days := Some n\<rparr>"

definition retention_policy :: "vault \<Rightarrow> int" where
  "retention_policy v = (case vt_retention_days v of None \<Rightarrow> default_retention_days | Some d \<Rightarrow> d)"

definition commitment_key_of :: "persona_id \<Rightarrow> sha256_hex \<times> commitment \<Rightarrow> ordering_key" where
  "commitment_key_of p hc = (case hc of (h, c) \<Rightarrow>
     \<lparr>ok_persona = p, ok_kind = KeyCommitment, ok_id = h, ok_since = cm_created_at c, ok_due = cm_due c,
      ok_blocking_count = length (cm_conditions c), ok_state = ''vault-local''\<rparr>)"

definition edge_key_of :: "persona_id \<Rightarrow> sha256_hex \<times> edge_files \<Rightarrow> ordering_key option" where
  "edge_key_of p ie = (case ie of (i, ef) \<Rightarrow> map_option (\<lambda>e.
     \<lparr>ok_persona = p, ok_kind = KeyEdge, ok_id = i, ok_since = e_proposed_at e, ok_due = e_due e,
      ok_blocking_count = length (e_blocked_by e), ok_state = ''unresolved''\<rparr>) (ef_edge ef))"

fun expectation_state_name :: "expectation_state \<Rightarrow> string" where
  "expectation_state_name ExOpen = ''open''"
| "expectation_state_name ExClosed = ''closed''"

definition expectation_key_of :: "persona_id \<Rightarrow> string \<times> expectation \<Rightarrow> ordering_key" where
  "expectation_key_of p ix = (case ix of (i, x) \<Rightarrow>
     \<lparr>ok_persona = p, ok_kind = KeyExpectation, ok_id = i, ok_since = ex_since x, ok_due = None,
      ok_blocking_count = 0, ok_state = expectation_state_name (ex_state x)\<rparr>)"

definition store_ordering_keys :: "persona_id \<Rightarrow> persona_store \<Rightarrow> ordering_key list" where
  "store_ordering_keys p ps =
     map (commitment_key_of p) (ps_commitments ps) @ List.map_filter (edge_key_of p) (ps_edges ps) @
     map (expectation_key_of p) (ps_expectations ps)"

definition list_ordering_keys :: "vault \<Rightarrow> persona_id \<Rightarrow> ordering_key list vault_result" where
  "list_ordering_keys v p = map_sum id (store_ordering_keys p) (require_persona v p)"

text \<open>The one read across personas: the keys of every listed persona, in the order of the listing.\<close>

fun collect_keys :: "vault \<Rightarrow> persona_id list \<Rightarrow> ordering_key list vault_result" where
  "collect_keys v [] = Inr []"
| "collect_keys v (p # ps) =
     bind_result (list_ordering_keys v p) (\<lambda>ks. map_sum id ((@) ks) (collect_keys v ps))"

definition list_ordering_keys_across_personas :: "vault \<Rightarrow> ordering_key list vault_result" where
  "list_ordering_keys_across_personas v = collect_keys v (list_persona_ids v)"

section \<open>Reading after writing\<close>

lemma require_persona_Inr:
  "require_persona v p = Inr ps \<longleftrightarrow> hex_id p \<and> dir_get (vt_personas v) p = Some ps"
  by (auto simp: require_persona_def bind_result_Inr_iff split: option.splits)

lemma require_put_store [vault_simps]:
  "hex_id p \<Longrightarrow> require_persona (put_store v p ps) q = (if q = p then Inr ps else require_persona v q)"
  by (auto simp: require_persona_def put_store_def assert_hex_id_def)

lemma put_store_twice [vault_simps]: "vt_retention_days (put_store v p ps) = vt_retention_days v"
  by (simp add: put_store_def)

lemma edge_dir_Inr:
  "edge_dir v p i = Inr (ps, ef) \<longleftrightarrow> require_persona v p = Inr ps \<and> hex_id i \<and>
     ef = (case dir_get (ps_edges ps) i of None \<Rightarrow> no_edge_files | Some ef \<Rightarrow> ef)"
  by (auto simp: edge_dir_def bind_result_Inr_iff)

lemma edge_dir_put [vault_simps]:
  assumes "edge_dir v p i = Inr (ps, ef0)"
  shows "edge_dir (put_edge_files v p ps i ef) q j =
    (if q = p \<and> j = i then Inr (ps\<lparr>ps_edges := dir_put i ef (ps_edges ps)\<rparr>, ef)
     else map_sum id (\<lambda>(qs, qf). (if q = p then ps\<lparr>ps_edges := dir_put i ef (ps_edges ps)\<rparr> else qs, qf)) (edge_dir v q j))"
proof -
  have p: "hex_id p" "require_persona v p = Inr ps" "hex_id i"
    using assms by (auto simp: edge_dir_Inr require_persona_Inr)
  have r: "require_persona (put_edge_files v p ps i ef) q =
      (if q = p then Inr (ps\<lparr>ps_edges := dir_put i ef (ps_edges ps)\<rparr>) else require_persona v q)"
    using p(1) by (simp add: put_edge_files_def require_put_store)
  show ?thesis
    unfolding edge_dir_def r
    using p by (cases "require_persona v q") (auto simp: assert_hex_id_def)
qed

text \<open>Names of a chain's files: the first ten thousand sort in the order they were written.\<close>

definition pad4_digits :: "nat \<Rightarrow> string" where
  "pad4_digits n = [hex_digit (n div 1000), hex_digit (n div 100 mod 10), hex_digit (n div 10 mod 10), hex_digit (n mod 10)]"

declare decimal_digits.simps [simp del]

lemma decimal_digits_small: "n < 10 \<Longrightarrow> decimal_digits n = [hex_digit n]"
  using decimal_digits.simps [of n] by (simp only: if_True)

lemma decimal_digits_step: "10 \<le> n \<Longrightarrow> decimal_digits n = decimal_digits (n div 10) @ [hex_digit (n mod 10)]"
  using decimal_digits.simps [of n] by (simp only: not_less [symmetric] if_False)

lemma hex_digit_0: "hex_digit 0 = CHR ''0''"
  by code_simp

lemma pad4_eq_digits: "n < 10000 \<Longrightarrow> pad4 n = pad4_digits n"
proof -
  assume n: "n < 10000"
  consider "n < 10" | "10 \<le> n" "n < 100" | "100 \<le> n" "n < 1000" | "1000 \<le> n" by linarith
  then show ?thesis
  proof cases
    case 1
    then show ?thesis
      by (simp add: pad4_def pad4_digits_def decimal_digits_small hex_digit_0 numeral_3_eq_3)
  next
    case 2
    then show ?thesis
      by (simp add: pad4_def pad4_digits_def decimal_digits_small decimal_digits_step [of n] hex_digit_0
          numeral_2_eq_2)
  next
    case 3
    then have "n div 10 div 10 < 10" by simp
    with 3 show ?thesis
      by (simp add: pad4_def pad4_digits_def decimal_digits_small decimal_digits_step [of n]
          decimal_digits_step [of "n div 10"] hex_digit_0 div_mult2_eq [symmetric])
  next
    case 4
    with n show ?thesis
      by (simp add: pad4_def pad4_digits_def decimal_digits_small decimal_digits_step [of n]
          decimal_digits_step [of "n div 10"] decimal_digits_step [of "n div 100"] hex_digit_0
          div_mult2_eq [symmetric])
  qed
qed

lemma hex_digit_less: "i < 10 \<Longrightarrow> j < 10 \<Longrightarrow> hex_digit i < hex_digit j \<longleftrightarrow> i < j"
proof -
  have "\<forall>i \<in> set [0..<10]. \<forall>j \<in> set [0..<10]. hex_digit i < hex_digit j \<longleftrightarrow> i < j"
    by code_simp
  then show "i < 10 \<Longrightarrow> j < 10 \<Longrightarrow> hex_digit i < hex_digit j \<longleftrightarrow> i < j" by simp
qed

lemma hex_digit_eq: "i < 10 \<Longrightarrow> j < 10 \<Longrightarrow> hex_digit i = hex_digit j \<longleftrightarrow> i = j"
  using hex_digit_less [of i j] hex_digit_less [of j i] by (metis linorder_neq_iff)

lemma pad4_less:
  assumes "i < j" and "j < 10000"
  shows "pad4 i < pad4 j"
proof -
  define a b c d where "a = i div 1000" and "b = i div 100 mod 10" and "c = i div 10 mod 10" and "d = i mod 10"
  define a' b' c' d' where "a' = j div 1000" and "b' = j div 100 mod 10" and "c' = j div 10 mod 10" and "d' = j mod 10"
  have bounds: "a < 10" "b < 10" "c < 10" "d < 10" "a' < 10" "b' < 10" "c' < 10" "d' < 10"
    using assms by (simp_all add: a_def b_def c_def d_def a'_def b'_def c'_def d'_def)
  have split: "n = 1000 * (n div 1000) + 100 * (n div 100 mod 10) + 10 * (n div 10 mod 10) + n mod 10" for n :: nat
  proof -
    have "n div 100 = 10 * (n div 1000) + n div 100 mod 10"
      using div_mult_mod_eq [of "n div 100" 10] by (simp add: div_mult2_eq [symmetric])
    moreover have "n div 10 = 10 * (n div 100) + n div 10 mod 10"
      using div_mult_mod_eq [of "n div 10" 10] by (simp add: div_mult2_eq [symmetric])
    moreover have "n = 10 * (n div 10) + n mod 10" by simp
    ultimately show ?thesis by linarith
  qed
  have "i = 1000 * a + 100 * b + 10 * c + d" "j = 1000 * a' + 100 * b' + 10 * c' + d'"
    unfolding a_def b_def c_def d_def a'_def b'_def c'_def d'_def by (rule split)+
  with assms bounds have "a < a' \<or> a = a' \<and> (b < b' \<or> b = b' \<and> (c < c' \<or> c = c' \<and> d < d'))"
    by linarith
  then have "pad4_digits i < pad4_digits j"
    using bounds unfolding pad4_digits_def a_def [symmetric] b_def [symmetric] c_def [symmetric] d_def [symmetric]
      a'_def [symmetric] b'_def [symmetric] c'_def [symmetric] d'_def [symmetric]
    by (auto simp: hex_digit_less hex_digit_eq)
  with assms show ?thesis by (simp add: pad4_eq_digits)
qed

text \<open>A chain directory holds the files 0000, 0001, \<dots> without a gap.\<close>

definition chain_dir :: "'a dir \<Rightarrow> bool" where
  "chain_dir d \<longleftrightarrow> length d \<le> 10000 \<and> dir_names d = map pad4 [0..<length d]"

lemma dir_put_last:
  "(\<forall>k' \<in> fst ` set d. k' < k) \<Longrightarrow> dir_put k x d = d @ [(k, x)]"
  by (induction k x d rule: dir_put.induct) (auto simp: less_imp_neq dest: less_asym)

lemma chain_dir_append:
  assumes "chain_dir d" and "length d < 10000"
  shows "dir_get d (pad4 (length d)) = None" and "dir_put (pad4 (length d)) x d = d @ [(pad4 (length d), x)]"
    and "chain_dir (d @ [(pad4 (length d), x)])"
proof -
  have "fst ` set d = pad4 ` {0..<length d}"
    using assms(1) by (metis chain_dir_def dir_names_def image_set set_upt)
  then have less: "\<forall>k' \<in> fst ` set d. k' < pad4 (length d)"
    using assms(2) pad4_less by auto
  then show "dir_get d (pad4 (length d)) = None"
    by (auto simp: dir_get_None_iff)
  show "dir_put (pad4 (length d)) x d = d @ [(pad4 (length d), x)]"
    by (rule dir_put_last [OF less])
  show "chain_dir (d @ [(pad4 (length d), x)])"
    using assms by (simp add: chain_dir_def dir_names_def)
qed

end
