(* ===== verification/VaultLaws.thy ===== *)
theory VaultLaws
  imports Vault
begin

text \<open>
  What the vault keeps. \<open>vault_step\<close> has one rule per operation of the class that writes; over it: the
  well-formedness of every record, edge bodies never rewritten, chains only appended to, and no write of
  one persona visible in another's subtree.
\<close>

section \<open>Well-formedness\<close>

definition files_ok :: "crypto_lib \<Rightarrow> sha256_hex \<Rightarrow> edge_files \<Rightarrow> bool" where
  "files_ok cl i ef \<longleftrightarrow>
     (\<forall>e. ef_edge ef = Some e \<longrightarrow> e_id e = i \<and> edge_id_binds_body cl e) \<and>
     chain_dir (ef_assertions ef) \<and> (\<forall>a \<in> set (map snd (ef_assertions ef)). a_edge_id a = i) \<and>
     (\<forall>m. ef_meta ef = Some m \<longrightarrow> em_edge_id m = i)"

definition named_by :: "('a \<Rightarrow> string) \<Rightarrow> 'a dir \<Rightarrow> bool" where
  "named_by f d \<longleftrightarrow> dir_ok d \<and> (\<forall>k x. dir_get d k = Some x \<longrightarrow> f x = k)"

lemma named_by_put: "named_by f d \<Longrightarrow> f x = k \<Longrightarrow> named_by f (dir_put k x d)"
  by (simp add: named_by_def)

lemma named_by_del: "named_by f d \<Longrightarrow> named_by f (dir_del k d)"
  by (simp add: named_by_def dir_get_del)

lemma named_by_empty [simp]: "named_by f []"
  by (simp add: named_by_def)

definition outbox_ok :: "crypto_lib \<Rightarrow> outbox_item \<Rightarrow> bool" where
  "outbox_ok cl o' \<longleftrightarrow> hash_canonical cl (JObj (ob_message o')) = Some (ob_id o')"

definition store_ok :: "crypto_lib \<Rightarrow> persona_id \<Rightarrow> persona_store \<Rightarrow> bool" where
  "store_ok cl p ps \<longleftrightarrow>
     pr_id (ps_record ps) = p \<and>
     named_by (commitment_key cl) (ps_commitments ps) \<and>
     dir_ok (ps_edges ps) \<and> (\<forall>i ef. dir_get (ps_edges ps) i = Some ef \<longrightarrow> files_ok cl i ef) \<and>
     named_by r_new (ps_rotations ps) \<and> named_by at_subject (ps_attestations ps) \<and>
     named_by rv_subject (ps_revocations ps) \<and> named_by da_org_root (ps_anchors ps) \<and>
     named_by ob_id (ps_outbox ps) \<and> (\<forall>i x. dir_get (ps_outbox ps) i = Some x \<longrightarrow> outbox_ok cl x)"

definition labels_distinct :: "vault \<Rightarrow> bool" where
  "labels_distinct v \<longleftrightarrow>
     (\<forall>p q ps qs. dir_get (vt_personas v) p = Some ps \<longrightarrow> dir_get (vt_personas v) q = Some qs \<longrightarrow>
        pr_label (ps_record ps) = pr_label (ps_record qs) \<longrightarrow> p = q)"

definition vault_ok :: "crypto_lib \<Rightarrow> vault \<Rightarrow> bool" where
  "vault_ok cl v \<longleftrightarrow>
     dir_ok (vt_personas v) \<and> labels_distinct v \<and>
     (\<forall>p ps. dir_get (vt_personas v) p = Some ps \<longrightarrow> hex_id p \<and> store_ok cl p ps)"

text \<open>A chain has room for another file (the numbering sorts up to ten thousand).\<close>

definition chain_room :: "vault \<Rightarrow> persona_id \<Rightarrow> sha256_hex \<Rightarrow> bool" where
  "chain_room v p i \<longleftrightarrow> (\<forall>as. get_assertions v p i = Inr as \<longrightarrow> length as < 10000)"

lemma no_files_ok [simp]: "files_ok cl i no_edge_files"
  by (simp add: files_ok_def no_edge_files_def chain_dir_def dir_names_def)

lemma vault_ok_files:
  assumes "vault_ok cl v" and "edge_dir v p i = Inr (ps, ef)"
  shows "files_ok cl i ef \<and> store_ok cl p ps"
  using assms
  by (auto simp: vault_ok_def edge_dir_Inr require_persona_Inr store_ok_def split: option.splits)

text \<open>Replacing a persona's subtree by a good one with the same record keeps a vault good.\<close>

lemma vault_ok_put_store:
  assumes "vault_ok cl v" and "require_persona v p = Inr ps" and "store_ok cl p ps'"
    and "ps_record ps' = ps_record ps"
  shows "vault_ok cl (put_store v p ps')"
  using assms by (auto simp: vault_ok_def put_store_def require_persona_Inr labels_distinct_def)

lemma store_ok_put_files:
  assumes "store_ok cl p ps" and "files_ok cl i ef"
  shows "store_ok cl p (ps\<lparr>ps_edges := dir_put i ef (ps_edges ps)\<rparr>)"
  using assms by (simp add: store_ok_def)

lemma vault_ok_put_files:
  assumes "vault_ok cl v" and "edge_dir v p i = Inr (ps, ef)" and "files_ok cl i ef'"
  shows "vault_ok cl (put_edge_files v p ps i ef')"
  unfolding put_edge_files_def
  using assms vault_ok_files [OF assms(1,2)]
  by (intro vault_ok_put_store) (auto simp: edge_dir_Inr store_ok_put_files)

section \<open>Appending to a chain\<close>

lemma files_ok_append:
  assumes "files_ok cl i ef" and "length (ef_assertions ef) < 10000" and "a_edge_id a = i"
  shows "files_ok cl i (ef\<lparr>ef_assertions := ef_assertions ef @ [(pad4 (length (ef_assertions ef)), a)]\<rparr>)"
  using assms chain_dir_append(3) [of "ef_assertions ef" a] by (auto simp: files_ok_def)

lemma append_assertion_Inr:
  assumes "vault_ok cl v" and "chain_room v p (a_edge_id a)"
  shows "append_assertion v p a = Inr (n, v') \<longleftrightarrow>
    (\<exists>ps ef. edge_dir v p (a_edge_id a) = Inr (ps, ef) \<and> n = length (ef_assertions ef) \<and>
       v' = put_edge_files v p ps (a_edge_id a)
         (ef\<lparr>ef_assertions := ef_assertions ef @ [(pad4 (length (ef_assertions ef)), a)]\<rparr>))"
proof (cases "edge_dir v p (a_edge_id a)")
  case (Inl x)
  then show ?thesis by (simp add: append_assertion_def)
next
  case (Inr psef)
  obtain ps ef where d: "edge_dir v p (a_edge_id a) = Inr (ps, ef)" using Inr by (cases psef) simp
  have c: "chain_dir (ef_assertions ef)" using vault_ok_files [OF assms(1) d] by (simp add: files_ok_def)
  have "length (ef_assertions ef) < 10000"
    using assms(2) d by (simp add: chain_room_def get_assertions_def)
  from chain_dir_append(1,2) [OF c this] d show ?thesis by (auto simp: append_assertion_def Let_def)
qed

text \<open>Where the append succeeds: exactly where the persona and the identifier are good.\<close>

lemma append_assertion_ok:
  assumes "vault_ok cl v" and "chain_room v p (a_edge_id a)" and "edge_dir v p (a_edge_id a) = Inr (ps, ef)"
  shows "\<exists>v'. append_assertion v p a = Inr (length (ef_assertions ef), v')"
  using append_assertion_Inr [OF assms(1,2)] assms(3) by blast

lemma get_assertions_append:
  assumes "vault_ok cl v" and "chain_room v p (a_edge_id a)" and "append_assertion v p a = Inr (n, v')"
  shows "get_assertions v' q j =
    (if q = p \<and> j = a_edge_id a then map_sum id (\<lambda>as. as @ [a]) (get_assertions v p j) else get_assertions v q j)"
proof -
  from assms(3) append_assertion_Inr [OF assms(1,2)] obtain ps ef where
    d: "edge_dir v p (a_edge_id a) = Inr (ps, ef)" and
    v': "v' = put_edge_files v p ps (a_edge_id a)
      (ef\<lparr>ef_assertions := ef_assertions ef @ [(pad4 (length (ef_assertions ef)), a)]\<rparr>)"
    by blast
  show ?thesis
    unfolding get_assertions_def v' edge_dir_put [OF d]
    using d by (cases "edge_dir v q j") auto
qed

lemma get_edge_append:
  assumes "vault_ok cl v" and "chain_room v p (a_edge_id a)" and "append_assertion v p a = Inr (n, v')"
  shows "get_edge v' q j = get_edge v q j"
proof -
  from assms(3) append_assertion_Inr [OF assms(1,2)] obtain ps ef where
    d: "edge_dir v p (a_edge_id a) = Inr (ps, ef)" and
    v': "v' = put_edge_files v p ps (a_edge_id a)
      (ef\<lparr>ef_assertions := ef_assertions ef @ [(pad4 (length (ef_assertions ef)), a)]\<rparr>)"
    by blast
  show ?thesis
    unfolding get_edge_def v' edge_dir_put [OF d]
    using d by (cases "edge_dir v q j") auto
qed

section \<open>Every operation that writes\<close>

inductive vault_step :: "crypto_lib \<Rightarrow> persona_id \<Rightarrow> vault \<Rightarrow> vault \<Rightarrow> bool" for cl where
  "put_persona v r = Inr v' \<Longrightarrow> vault_step cl (pr_id r) v v'"
| "put_commitment cl v p c = Inr v' \<Longrightarrow> vault_step cl p v v'"
| "delete_commitment_plaintext v p h = Inr (b, v') \<Longrightarrow> vault_step cl p v v'"
| "put_expectation v p i x = Inr v' \<Longrightarrow> vault_step cl p v v'"
| "put_edge cl v p e = Inr v' \<Longrightarrow> vault_step cl p v v'"
| "append_assertion v p a = Inr (n, v') \<Longrightarrow> chain_room v p (a_edge_id a) \<Longrightarrow> vault_step cl p v v'"
| "put_edge_meta v p m = Inr v' \<Longrightarrow> vault_step cl p v v'"
| "put_publish v p pb = Inr v' \<Longrightarrow> vault_step cl p v v'"
| "put_rotation v p ro = Inr v' \<Longrightarrow> vault_step cl p v v'"
| "put_attestation v p att = Inr v' \<Longrightarrow> vault_step cl p v v'"
| "put_revocation v p rv = Inr v' \<Longrightarrow> vault_step cl p v v'"
| "put_domain_anchor v p da = Inr v' \<Longrightarrow> vault_step cl p v v'"
| "put_outbox cl v item = Inr v' \<Longrightarrow> vault_step cl (ob_persona item) v v'"
| "record_outbox_delivery v p i patch = Inr (res, v') \<Longrightarrow> vault_step cl p v v'"
| "vault_step cl p v (set_retention_policy v n)"

text \<open>
  The shape of a write: nothing, a new subtree, or one subtree replaced by another with the same edges, or
  the files of one edge replaced.
\<close>

inductive store_write :: "crypto_lib \<Rightarrow> persona_id \<Rightarrow> vault \<Rightarrow> vault \<Rightarrow> bool" for cl where
  nothing: "store_write cl p v v"
| policy: "store_write cl p v (v\<lparr>vt_retention_days := n\<rparr>)"
| fresh: "hex_id p \<Longrightarrow> dir_get (vt_personas v) p = None \<Longrightarrow> pr_id r = p \<Longrightarrow>
    (\<And>q qs. dir_get (vt_personas v) q = Some qs \<Longrightarrow> pr_label (ps_record qs) \<noteq> pr_label r) \<Longrightarrow>
    store_write cl p v (put_store v p (empty_store r))"
| relabel: "require_persona v p = Inr ps \<Longrightarrow> pr_id r = p \<Longrightarrow>
    (\<And>q qs. dir_get (vt_personas v) q = Some qs \<Longrightarrow> q \<noteq> p \<Longrightarrow> pr_label (ps_record qs) \<noteq> pr_label r) \<Longrightarrow>
    store_write cl p v (put_store v p (ps\<lparr>ps_record := r\<rparr>))"
| beside_edges: "require_persona v p = Inr ps \<Longrightarrow> ps_edges ps' = ps_edges ps \<Longrightarrow>
    ps_record ps' = ps_record ps \<Longrightarrow> (store_ok cl p ps \<Longrightarrow> store_ok cl p ps') \<Longrightarrow>
    store_write cl p v (put_store v p ps')"
| edge_file: "edge_dir v p i = Inr (ps, ef) \<Longrightarrow>
    (files_ok cl i ef \<Longrightarrow> files_ok cl i ef') \<Longrightarrow>
    (\<And>e. ef_edge ef = Some e \<Longrightarrow> ef_edge ef' = Some e) \<Longrightarrow>
    (\<exists>as. map snd (ef_assertions ef') = map snd (ef_assertions ef) @ as) \<Longrightarrow>
    store_write cl p v (put_edge_files v p ps i ef')"

lemma vault_step_write:
  assumes "vault_step cl p v v'" and "vault_ok cl v"
  shows "store_write cl p v v'"
  using assms
proof (induction rule: vault_step.induct)
  case (1 v r v')
  then have ok: "dir_ok (vt_personas v)" by (simp add: vault_ok_def)
  from 1 have h: "hex_id (pr_id r)" and lab: "\<And>q qs. dir_get (vt_personas v) q = Some qs \<Longrightarrow> q \<noteq> pr_id r \<Longrightarrow>
      pr_label (ps_record qs) \<noteq> pr_label r"
    by (auto simp: put_persona_def bind_result_Inr_iff dir_get_Some_iff [OF ok] split: if_splits)
  show ?case
  proof (cases "dir_get (vt_personas v) (pr_id r)")
    case None
    with lab have "\<And>q qs. dir_get (vt_personas v) q = Some qs \<Longrightarrow> pr_label (ps_record qs) \<noteq> pr_label r"
      by (metis option.distinct(1))
    with store_write.fresh [OF h None refl this] 1 None show ?thesis
      by (auto simp: put_persona_def bind_result_Inr_iff split: if_splits)
  next
    case (Some ps)
    with 1 h lab show ?thesis
      by (auto simp: put_persona_def bind_result_Inr_iff require_persona_Inr split: if_splits
          intro!: store_write.relabel)
  qed
next
  case (5 v p e v')
  then obtain ps ef where d: "edge_dir v p (e_id e) = Inr (ps, ef)" and b: "edge_id_binds_body cl e"
    by (auto simp: put_edge_def bind_result_Inr_iff split: if_splits)
  show ?case
  proof (cases "ef_edge ef")
    case None
    with 5 d b show ?thesis
      by (auto simp: put_edge_def files_ok_def intro!: store_write.edge_file [OF d])
  next
    case (Some held)
    with 5 d show ?thesis
      by (auto simp: put_edge_def store_write.nothing split: if_splits)
  qed
next
  case (6 v p a n v')
  from 6(1) append_assertion_Inr [OF 6(3,2)] obtain ps ef where d: "edge_dir v p (a_edge_id a) = Inr (ps, ef)"
    and v': "v' = put_edge_files v p ps (a_edge_id a)
      (ef\<lparr>ef_assertions := ef_assertions ef @ [(pad4 (length (ef_assertions ef)), a)]\<rparr>)" by blast
  have "length (ef_assertions ef) < 10000" using 6(2) d by (simp add: chain_room_def get_assertions_def)
  then show ?case unfolding v' by (intro store_write.edge_file [OF d]) (auto intro: files_ok_append)
next
  case (7 v p m v')
  then obtain ps ef where d: "edge_dir v p (em_edge_id m) = Inr (ps, ef)"
    and "v' = put_edge_files v p ps (em_edge_id m) (ef\<lparr>ef_meta := Some m\<rparr>)"
    by (cases "edge_dir v p (em_edge_id m)") (auto simp: put_edge_meta_def)
  then show ?case by (auto simp: files_ok_def intro!: store_write.edge_file [OF d])
next
  case (15 p v n)
  show ?case unfolding set_retention_policy_def by (rule store_write.policy)
qed (auto simp: put_commitment_def delete_commitment_plaintext_def put_expectation_def put_publish_def
    put_rotation_def put_attestation_def put_revocation_def put_domain_anchor_def put_outbox_def
    record_outbox_delivery_def bind_result_Inr_iff store_ok_def named_by_put named_by_del named_by_def
    outbox_ok_def dir_get_del Let_def
    split: if_splits option.splits intro!: store_write.beside_edges store_write.nothing)


section \<open>What every write keeps\<close>

lemma empty_store_ok: "pr_id r = p \<Longrightarrow> store_ok cl p (empty_store r)"
  by (simp add: store_ok_def empty_store_def)

lemma store_write_ok:
  assumes "store_write cl p v v'" and "vault_ok cl v"
  shows "vault_ok cl v'"
  using assms
proof (induction rule: store_write.induct)
  case (nothing p v)
  then show ?case .
next
  case (policy p v n)
  then show ?case by (simp add: vault_ok_def labels_distinct_def)
next
  case (fresh p v r)
  then show ?case
    by (auto simp: vault_ok_def put_store_def labels_distinct_def empty_store_ok)
      (auto simp: empty_store_def)
next
  case (relabel v p ps r)
  then have "store_ok cl p ps" by (auto simp: vault_ok_def require_persona_Inr)
  moreover have "\<And>q qs. dir_get (vt_personas v) q = Some qs \<Longrightarrow> q \<noteq> p \<Longrightarrow> pr_label r \<noteq> pr_label (ps_record qs)"
    using relabel(3) by metis
  ultimately show ?case using relabel
    by (auto simp: vault_ok_def put_store_def labels_distinct_def require_persona_Inr store_ok_def)
next
  case (beside_edges v p ps ps')
  then have "store_ok cl p ps" by (auto simp: vault_ok_def require_persona_Inr)
  with beside_edges show ?case by (blast intro: vault_ok_put_store)
next
  case (edge_file v p i ps ef ef')
  with vault_ok_files [OF edge_file.prems edge_file.hyps(1)] show ?case
    by (blast intro: vault_ok_put_files)
qed

text \<open>An edge body, once stored, stays; a chain only grows.\<close>

definition chains_grow :: "vault \<Rightarrow> vault \<Rightarrow> bool" where
  "chains_grow v v' \<longleftrightarrow>
     (\<forall>p i e. get_edge v p i = Inr (Some e) \<longrightarrow> get_edge v' p i = Inr (Some e)) \<and>
     (\<forall>p i as. get_assertions v p i = Inr as \<longrightarrow> (\<exists>bs. get_assertions v' p i = Inr (as @ bs)))"

lemma chains_grow_refl [simp]: "chains_grow v v"
  by (simp add: chains_grow_def)

lemma chains_grow_trans: "chains_grow a b \<Longrightarrow> chains_grow b c \<Longrightarrow> chains_grow a c"
  unfolding chains_grow_def by (metis append_assoc)

lemma chains_grow_put_store:
  assumes "hex_id p"
    and "\<And>ps. require_persona v p = Inr ps \<Longrightarrow> ps_edges ps' = ps_edges ps"
  shows "chains_grow v (put_store v p ps')"
proof -
  have "edge_dir (put_store v p ps') q i = map_sum id (\<lambda>(qs, ef). (if q = p then ps' else qs, ef)) (edge_dir v q i)"
    if "edge_dir v q i = Inr x" for q i x
    using that assms by (cases "require_persona v q") (auto simp: edge_dir_def require_put_store assert_hex_id_def)
  then show ?thesis
    by (fastforce simp: chains_grow_def get_edge_def get_assertions_def map_sum_Inr_iff)
qed


lemma chains_grow_put_files:
  assumes "edge_dir v p i = Inr (ps, ef)" and "\<And>e. ef_edge ef = Some e \<Longrightarrow> ef_edge ef' = Some e"
    and "\<exists>as. map snd (ef_assertions ef') = map snd (ef_assertions ef) @ as"
  shows "chains_grow v (put_edge_files v p ps i ef')"
  unfolding chains_grow_def get_edge_def get_assertions_def edge_dir_put [OF assms(1)]
proof (intro conjI allI impI)
  fix q j e
  assume "map_sum id (\<lambda>(ps, ef). ef_edge ef) (edge_dir v q j) = Inr (Some e)"
  with assms(1,2) show "map_sum id (\<lambda>(ps, ef). ef_edge ef)
      (if q = p \<and> j = i then Inr (ps\<lparr>ps_edges := dir_put i ef' (ps_edges ps)\<rparr>, ef')
       else map_sum id (\<lambda>(qs, qf). (if q = p then ps\<lparr>ps_edges := dir_put i ef' (ps_edges ps)\<rparr> else qs, qf))
         (edge_dir v q j)) = Inr (Some e)"
    by (cases "edge_dir v q j") auto
next
  fix q j as
  assume "map_sum id (\<lambda>(ps, ef). map snd (ef_assertions ef)) (edge_dir v q j) = Inr as"
  with assms(1,3) show "\<exists>bs. map_sum id (\<lambda>(ps, ef). map snd (ef_assertions ef))
      (if q = p \<and> j = i then Inr (ps\<lparr>ps_edges := dir_put i ef' (ps_edges ps)\<rparr>, ef')
       else map_sum id (\<lambda>(qs, qf). (if q = p then ps\<lparr>ps_edges := dir_put i ef' (ps_edges ps)\<rparr> else qs, qf))
         (edge_dir v q j)) = Inr (as @ bs)"
    by (cases "edge_dir v q j") auto
qed

lemma store_write_grow:
  assumes "store_write cl p v v'" and "vault_ok cl v"
  shows "chains_grow v v'"
  using assms
proof (induction rule: store_write.induct)
  case (policy p v n)
  have "edge_dir (v\<lparr>vt_retention_days := n\<rparr>) q i = edge_dir v q i" for q i
    by (simp add: edge_dir_def require_persona_def)
  then show ?case by (simp add: chains_grow_def get_edge_def get_assertions_def)
next
  case (fresh p v r)
  then show ?case by (intro chains_grow_put_store) (auto simp: require_persona_Inr)
next
  case (relabel v p ps r)
  then show ?case by (intro chains_grow_put_store) (auto simp: require_persona_Inr)
next
  case (beside_edges v p ps ps')
  then show ?case by (intro chains_grow_put_store) (auto simp: require_persona_Inr)
next
  case (edge_file v p i ps ef ef')
  then show ?case by (intro chains_grow_put_files) auto
qed simp

lemma store_write_isolated:
  assumes "store_write cl p v v'" and "q \<noteq> p"
  shows "require_persona v' q = require_persona v q"
  using assms
  by (induction rule: store_write.induct)
    (auto simp: require_persona_def put_store_def put_edge_files_def)

text \<open>
  Every write of the vault keeps it well formed (each record is filed under the identifier that
  describes it, each edge body is the one its identifier digests, each chain is a gapless sequence of
  assertions on that edge, outbox items carry the digest of their message, labels are unique), never
  replaces a stored edge body, and only appends to a chain.
\<close>

theorem vault_writes_keep_history:
  assumes "vault_step cl p v v'" and "vault_ok cl v"
  shows "vault_ok cl v' \<and> chains_grow v v'"
  using vault_step_write [OF assms] store_write_ok store_write_grow assms(2) by blast

definition empty_vault :: vault where
  "empty_vault = \<lparr>vt_personas = [], vt_retention_days = None\<rparr>"

definition sample_persona :: "persona_id \<Rightarrow> string \<Rightarrow> persona_record" where
  "sample_persona k l = \<lparr>pr_id = k, pr_index = 0, pr_label = l, pr_scope_kind = ScopePersonal, pr_org_root = None,
     pr_private_key = k, pr_created_at = jan 1\<rparr>"

definition sample_vault :: vault where
  "sample_vault = put_store empty_vault alice (empty_store (sample_persona alice ''alice''))"

lemma empty_vault_ok: "vault_ok cl empty_vault"
  by (simp add: vault_ok_def empty_vault_def labels_distinct_def)

lemma put_sample_persona: "put_persona empty_vault (sample_persona alice ''alice'') = Inr sample_vault"
  using parties_hex64(1)
  by (simp add: put_persona_def sample_persona_def empty_vault_def sample_vault_def assert_hex_id_def
      hex64_hex_id)

theorem vault_writes_keep_history_witness:
  "vault_ok sample_lib sample_vault \<and> chains_grow empty_vault sample_vault"
  using vault_writes_keep_history [OF vault_step.intros(1) [OF put_sample_persona] empty_vault_ok] .

text \<open>
  A write made for one persona leaves the whole subtree of every other persona as it was, so that
  every read of another persona, errors included, answers as before.
\<close>

theorem writes_stay_in_one_persona:
  assumes "vault_step cl p v v'" and "vault_ok cl v" and "q \<noteq> p"
  shows "require_persona v' q = require_persona v q \<and> get_edge v' q i = get_edge v q i \<and>
    get_assertions v' q i = get_assertions v q i \<and> get_commitment v' q h = get_commitment v q h"
proof -
  from store_write_isolated [OF vault_step_write [OF assms(1,2)] assms(3)]
  have "require_persona v' q = require_persona v q" .
  then show ?thesis by (simp add: get_edge_def get_assertions_def get_commitment_def edge_dir_def)
qed

theorem writes_stay_in_one_persona_witness:
  "get_edge sample_vault bob (replicate 64 CHR ''a'') = get_edge empty_vault bob (replicate 64 CHR ''a'')"
  using writes_stay_in_one_persona [OF vault_step.intros(1) [OF put_sample_persona] empty_vault_ok, of bob]
  by (simp add: sample_persona_def)

text \<open>The ten-thousand-and-first assertion of a chain is filed where it sorts among the thousands.\<close>

theorem long_chains_sort_out_of_order: "pad4 10000 < pad4 1001"
proof -
  have "pad4 10000 = map hex_digit [1, 0, 0, 0, 0]" "pad4 1001 = map hex_digit [1, 0, 0, 1]"
    by (simp_all add: pad4_def Let_def decimal_digits_step decimal_digits_small)
  then show ?thesis by (simp add: hex_digit_less)
qed

end
