(* ===== verification/Node.thy ===== *)
theory Node
  imports VaultLaws
begin

text \<open>
  The node surface: \<^verbatim>\<open>packages/node/src/node.ts\<close> and the confirmation queue of
  \<^verbatim>\<open>packages/vault/src/local-store.ts\<close> and \<^verbatim>\<open>records.ts\<close>. An operation is a function of the node's
  state (the vault and the local store) that returns a value or an error together with the state at the
  point where it stopped: a JavaScript exception undoes nothing. The clock is read by call site: \<open>clk n\<close>
  is what the \<open>n\<close>-th \<^verbatim>\<open>this.now()\<close> of the operation returns.
\<close>

section \<open>The local store\<close>

datatype candidate = CandCommitment commitment | CandExpectation expectation

record pending_extraction =
  pe_id :: sha256_hex
  pe_persona :: persona_id
  pe_candidate :: candidate
  pe_envelope_id :: "sha256_hex option"
  pe_queued_at :: rfc3339

record local_store =
  ls_pending :: "pending_extraction dir dir"
  ls_ingested :: "unit dir dir"

definition pending_of :: "local_store \<Rightarrow> persona_id \<Rightarrow> pending_extraction dir" where
  "pending_of l p = (case dir_get (ls_pending l) p of None \<Rightarrow> [] | Some d \<Rightarrow> d)"

definition put_pending :: "local_store \<Rightarrow> pending_extraction \<Rightarrow> local_store vault_result" where
  "put_pending l x =
     bind_result (assert_hex_id (pe_id x)) (\<lambda>_. bind_result (assert_hex_id (pe_persona x)) (\<lambda>_.
       Inr (l\<lparr>ls_pending := dir_put (pe_persona x) (dir_put (pe_id x) x (pending_of l (pe_persona x))) (ls_pending l)\<rparr>)))"

definition get_pending :: "local_store \<Rightarrow> persona_id \<Rightarrow> string \<Rightarrow> pending_extraction option vault_result" where
  "get_pending l p i = map_sum id (\<lambda>_. dir_get (pending_of l p) i) (assert_hex_id i)"

definition list_pending :: "local_store \<Rightarrow> persona_id \<Rightarrow> pending_extraction list" where
  "list_pending l p = map snd (pending_of l p)"

definition delete_pending :: "local_store \<Rightarrow> persona_id \<Rightarrow> string \<Rightarrow> (bool \<times> local_store) vault_result" where
  "delete_pending l p i =
     map_sum id (\<lambda>_. if dir_get (pending_of l p) i = None then (False, l)
                     else (True, l\<lparr>ls_pending := dir_put p (dir_del i (pending_of l p)) (ls_pending l)\<rparr>))
       (assert_hex_id i)"

definition has_ingested :: "local_store \<Rightarrow> persona_id \<Rightarrow> string \<Rightarrow> bool vault_result" where
  "has_ingested l p i =
     map_sum id (\<lambda>_. case dir_get (ls_ingested l) p of None \<Rightarrow> False | Some d \<Rightarrow> dir_get d i \<noteq> None) (assert_hex_id i)"

definition mark_ingested :: "local_store \<Rightarrow> persona_id \<Rightarrow> string \<Rightarrow> local_store vault_result" where
  "mark_ingested l p i =
     map_sum id (\<lambda>_. l\<lparr>ls_ingested := dir_put p (dir_put i () (case dir_get (ls_ingested l) p of None \<Rightarrow> [] | Some d \<Rightarrow> d))
       (ls_ingested l)\<rparr>) (assert_hex_id i)"

section \<open>Operations that may throw\<close>

datatype node_error =
    VaultFailure vault_error
  | NoSuchPersonaLabel
  | M1Violation
  | M2Violation
  | M3Violation
  | M11Violation
  | NoSuchId
  | NoSuchEdge
  | NoSuchPending
  | EditNeedsSupersession
  | InvalidAssertion "rejection_reason option"
  | SigningFailure
  | CursorRefused

record node_config =
  nc_lib :: crypto_lib
  nc_active :: persona_id
  nc_brief_slots :: nat
  nc_collate :: "string \<Rightarrow> string \<Rightarrow> bool"

record node =
  nd_vault :: vault
  nd_local :: local_store

type_synonym 'a node_op = "node \<Rightarrow> (node_error, 'a) result \<times> node"

definition return_op :: "'a \<Rightarrow> 'a node_op" where
  "return_op x = (\<lambda>s. (Inr x, s))"

definition throw_op :: "node_error \<Rightarrow> 'a node_op" where
  "throw_op e = (\<lambda>s. (Inl e, s))"

definition bind_op :: "'a node_op \<Rightarrow> ('a \<Rightarrow> 'b node_op) \<Rightarrow> 'b node_op" where
  "bind_op m f = (\<lambda>s. case m s of (Inl e, s') \<Rightarrow> (Inl e, s') | (Inr x, s') \<Rightarrow> f x s')"

definition read_vault :: "(vault \<Rightarrow> 'a vault_result) \<Rightarrow> 'a node_op" where
  "read_vault f = (\<lambda>s. (map_sum VaultFailure id (f (nd_vault s)), s))"

definition write_vault :: "(vault \<Rightarrow> vault vault_result) \<Rightarrow> unit node_op" where
  "write_vault f = (\<lambda>s. case f (nd_vault s) of
     Inl e \<Rightarrow> (Inl (VaultFailure e), s) | Inr v \<Rightarrow> (Inr (), s\<lparr>nd_vault := v\<rparr>))"

definition read_local :: "(local_store \<Rightarrow> 'a vault_result) \<Rightarrow> 'a node_op" where
  "read_local f = (\<lambda>s. (map_sum VaultFailure id (f (nd_local s)), s))"

definition write_local :: "(local_store \<Rightarrow> local_store vault_result) \<Rightarrow> unit node_op" where
  "write_local f = (\<lambda>s. case f (nd_local s) of
     Inl e \<Rightarrow> (Inl (VaultFailure e), s) | Inr l \<Rightarrow> (Inr (), s\<lparr>nd_local := l\<rparr>))"

definition require_some :: "node_error \<Rightarrow> 'a option \<Rightarrow> 'a node_op" where
  "require_some e x = (case x of None \<Rightarrow> throw_op e | Some y \<Rightarrow> return_op y)"

section \<open>Personas, lineages and edge states\<close>

text \<open>\<^verbatim>\<open>resolvePersona\<close>: the active persona, a key, or the label of a persona of the vault.\<close>

definition resolve_persona :: "node_config \<Rightarrow> string option \<Rightarrow> persona_id node_op" where
  "resolve_persona cfg p =
     (case p of
        None \<Rightarrow> return_op (nc_active cfg)
      | Some q \<Rightarrow>
          if q = [] then return_op (nc_active cfg)
          else if hex64 q then return_op q
          else (\<lambda>s. case find (\<lambda>(i, ps). pr_label (ps_record ps) = q) (vt_personas (nd_vault s)) of
                  None \<Rightarrow> (Inl NoSuchPersonaLabel, s) | Some (i, _) \<Rightarrow> (Inr i, s)))"

text \<open>\<^verbatim>\<open>successorResolver\<close>: the lineage of every key, from the rotations this persona has accepted.\<close>

definition successor_resolver :: "crypto_lib \<Rightarrow> rotation list \<Rightarrow> persona_id \<Rightarrow> party_key list" where
  "successor_resolver cl rs =
     (if rs = [] then no_rotation else (\<lambda>k. key_lineage cl False k (map (\<lambda>r. JObj (rotation_members r)) rs)))"

definition verifier_for :: "crypto_lib \<Rightarrow> vault \<Rightarrow> persona_id \<Rightarrow> int option \<Rightarrow> verifier vault_result" where
  "verifier_for cl v p now =
     map_sum id (\<lambda>rs. \<lparr>v_lib = cl, v_now = now, v_lineage = successor_resolver cl rs\<rparr>) (list_rotations v p)"

text \<open>\<^verbatim>\<open>edgeState\<close>: the stored chain, verified without a clock.\<close>

definition edge_state :: "node_config \<Rightarrow> persona_id \<Rightarrow> sha256_hex \<Rightarrow> chain_verification node_op" where
  "edge_state cfg p i =
     bind_op (read_vault (\<lambda>v. get_edge v p i)) (\<lambda>held.
     bind_op (require_some NoSuchEdge held) (\<lambda>e.
     bind_op (read_vault (\<lambda>v. get_assertions v p i)) (\<lambda>as.
     bind_op (read_vault (\<lambda>v. verifier_for (nc_lib cfg) v p None)) (\<lambda>vr.
       return_op (verify_assertion_chain vr e as)))))"

section \<open>Signing\<close>

definition private_key_of :: "persona_id \<Rightarrow> string node_op" where
  "private_key_of p = bind_op (read_vault (\<lambda>v. get_persona v p)) (\<lambda>r. return_op (pr_private_key r))"

definition sign_assertion ::
    "node_config \<Rightarrow> persona_id \<Rightarrow> sha256_hex \<Rightarrow> wire_state \<Rightarrow> rfc3339 \<Rightarrow> sha256_hex option \<Rightarrow> assertion node_op" where
  "sign_assertion cfg p i w t ev =
     bind_op (private_key_of p) (\<lambda>sk.
       let a = \<lparr>a_edge_id = i, a_state = w, a_asserted_at = t, a_by = p, a_evidence_hash = ev, a_sig = []\<rparr>
       in case sign_object (nc_lib cfg) (unsigned_assertion_members a) sk of
            None \<Rightarrow> throw_op SigningFailure
          | Some sg \<Rightarrow> return_op (a\<lparr>a_sig := sg\<rparr>))"

definition build_edge ::
    "crypto_lib \<Rightarrow> sha256_hex \<Rightarrow> persona_id \<Rightarrow> persona_id \<Rightarrow> rfc3339 \<Rightarrow> rfc3339 option \<Rightarrow> edge option" where
  "build_edge cl h owner owed proposed due =
     map_option (\<lambda>i. \<lparr>e_id = i, e_commitment_hash = h, e_owner = owner, e_owed_to = owed, e_proposed_at = proposed,
        e_due = due, e_closure_policy = OnAcceptance, e_acceptance_window = Some default_acceptance_window,
        e_blocked_by = [], e_fulfillment = None, e_supersedes = None\<rparr>)
       (edge_id_of cl \<lparr>ei_commitment_hash = h, ei_owner = owner, ei_owed_to = owed, ei_proposed_at = text_of proposed\<rparr>)"

definition propose_message :: "persona_id \<Rightarrow> persona_id \<Rightarrow> edge \<Rightarrow> assertion \<Rightarrow> rfc3339 \<Rightarrow> json_members" where
  "propose_message p recipient e a sent =
     [(''v'', JStr protocol_version), (''type'', JStr ''propose''),
      (''payload'', JObj [(''edge'', edge_json e), (''assertion'', JObj (assertion_members a))]),
      (''sender'', JStr p), (''recipient'', JStr recipient), (''sent_at'', JStr (text_of sent))]"

definition queue_propose ::
    "node_config \<Rightarrow> persona_id \<Rightarrow> persona_id \<Rightarrow> edge \<Rightarrow> assertion \<Rightarrow> rfc3339 \<Rightarrow> rfc3339 \<Rightarrow> unit node_op" where
  "queue_propose cfg p recipient e a sent queued =
     bind_op (private_key_of p) (\<lambda>sk.
     bind_op (require_some SigningFailure (with_signature (nc_lib cfg) (propose_message p recipient e a sent) sk)) (\<lambda>m.
     bind_op (require_some SigningFailure (hash_canonical (nc_lib cfg) (JObj m))) (\<lambda>i.
       write_vault (\<lambda>v. put_outbox (nc_lib cfg) v
         \<lparr>ob_id = i, ob_persona = p, ob_recipient = recipient, ob_message = m, ob_queued_at = queued,
          ob_delivery = no_delivery\<rparr>))))"

section \<open>commit and expect\<close>

record commit_input =
  ci_intent :: string
  ci_owed_to :: "string option"
  ci_due :: "rfc3339 option"
  ci_persona :: "string option"
  ci_propose :: bool
  ci_names_owner :: bool

datatype commit_state = VaultLocal | Proposed

record commit_output =
  co_commitment_hash :: sha256_hex
  co_edge_id :: "sha256_hex option"
  co_state :: commit_state

text \<open>A counterparty key that can be proposed to: a persona key, and not the caller's own.\<close>

definition proposable :: "persona_id \<Rightarrow> string option \<Rightarrow> persona_id option" where
  "proposable p owed = (case owed of None \<Rightarrow> None | Some q \<Rightarrow> if hex64 q \<and> q \<noteq> p then Some q else None)"

definition explicit_commitment :: "persona_id \<Rightarrow> commit_input \<Rightarrow> rfc3339 \<Rightarrow> commitment" where
  "explicit_commitment p inp t =
     \<lparr>cm_intent = ci_intent inp, cm_owner = p, cm_owed_to = ci_owed_to inp, cm_due = ci_due inp, cm_conditions = [],
      cm_evidence_refs = [], cm_created_at = t, cm_source = SrcExplicit, cm_confidence = 1\<rparr>"

definition commit :: "node_config \<Rightarrow> (nat \<Rightarrow> rfc3339) \<Rightarrow> commit_input \<Rightarrow> commit_output node_op" where
  "commit cfg clk inp =
     (if ci_names_owner inp then throw_op M1Violation
      else bind_op (resolve_persona cfg (ci_persona inp)) (\<lambda>p.
        let created = clk 0; c = explicit_commitment p inp created; h = commitment_key (nc_lib cfg) c;
            kept = return_op \<lparr>co_commitment_hash = h, co_edge_id = None, co_state = VaultLocal\<rparr>
        in bind_op (write_vault (\<lambda>v. put_commitment (nc_lib cfg) v p c)) (\<lambda>_.
          if \<not> ci_propose inp then kept
          else case proposable p (ci_owed_to inp) of
            None \<Rightarrow> kept
          | Some owed \<Rightarrow>
              bind_op (require_some SigningFailure (build_edge (nc_lib cfg) h p owed created (ci_due inp))) (\<lambda>e.
              bind_op (write_vault (\<lambda>v. put_edge (nc_lib cfg) v p e)) (\<lambda>_.
              bind_op (sign_assertion cfg p (e_id e) AProposed created None) (\<lambda>a.
              bind_op (write_vault (\<lambda>v. map_sum id snd (append_assertion v p a))) (\<lambda>_.
              bind_op (queue_propose cfg p owed e a (clk 1) (clk 2)) (\<lambda>_.
                return_op \<lparr>co_commitment_hash = h, co_edge_id = Some (e_id e), co_state = Proposed\<rparr>))))))))"

definition expectation_json :: "expectation \<Rightarrow> json" where
  "expectation_json x = JObj
     [(''v'', JStr protocol_version), (''type'', JStr ''expectation''), (''expect'', JStr (ex_expect x)),
      (''from'', JStr (ex_from x)), (''since'', JStr (text_of (ex_since x))),
      (''context_refs'', JArr (map (\<lambda>r. JObj [(''kind'', JStr (case ev_kind r of EvEnvelope \<Rightarrow> ''envelope''
          | EvUrl \<Rightarrow> ''url'' | EvCommit \<Rightarrow> ''commit'' | EvFile \<Rightarrow> ''file'')), (''value'', JStr (ev_value r))])
        (ex_context_refs x))),
      (''state'', JStr (expectation_state_name (ex_state x)))]"

text \<open>\<^verbatim>\<open>expect\<close>: the record of what somebody else said, kept and never sent.\<close>

definition expect_op :: "node_config \<Rightarrow> (nat \<Rightarrow> rfc3339) \<Rightarrow> string \<Rightarrow> string \<Rightarrow> string option \<Rightarrow> string node_op" where
  "expect_op cfg clk what who context =
     (let p = nc_active cfg;
          x = \<lparr>ex_expect = what, ex_from = who, ex_since = clk 0,
               ex_context_refs = (case context of None \<Rightarrow> [] | Some c \<Rightarrow>
                 if c = [] then [] else [\<lparr>ev_kind = EvFile, ev_value = c\<rparr>]),
               ex_state = ExOpen\<rparr>
      in bind_op (require_some SigningFailure (hash_canonical (nc_lib cfg) (expectation_json x))) (\<lambda>i.
         bind_op (write_vault (\<lambda>v. put_expectation v p i x)) (\<lambda>_. return_op i)))"

section \<open>Locating an identifier\<close>

datatype located_kind = LocatedRecord key_kind | LocatedPending

text \<open>
  \<^verbatim>\<open>locate\<close>: the active persona's keys, then its queue, then every persona's keys, then every queue.
\<close>

fun locate_pending :: "string \<Rightarrow> persona_id list \<Rightarrow> (persona_id \<times> located_kind) option node_op" where
  "locate_pending i [] = return_op None"
| "locate_pending i (p # ps) =
     bind_op (read_local (\<lambda>l. get_pending l p i)) (\<lambda>x.
       if x \<noteq> None then return_op (Some (p, LocatedPending)) else locate_pending i ps)"

definition key_with_id :: "string \<Rightarrow> ordering_key list \<Rightarrow> (persona_id \<times> located_kind) option" where
  "key_with_id i ks = map_option (\<lambda>k. (ok_persona k, LocatedRecord (ok_kind k))) (find (\<lambda>k. ok_id k = i) ks)"

definition locate :: "node_config \<Rightarrow> string \<Rightarrow> (persona_id \<times> located_kind) option node_op" where
  "locate cfg i =
     bind_op (read_vault (\<lambda>v. list_ordering_keys v (nc_active cfg))) (\<lambda>ks.
       case key_with_id i ks of
         Some found \<Rightarrow> return_op (Some found)
       | None \<Rightarrow>
           bind_op (read_local (\<lambda>l. get_pending l (nc_active cfg) i)) (\<lambda>x.
             if x \<noteq> None then return_op (Some (nc_active cfg, LocatedPending))
             else bind_op (read_vault list_ordering_keys_across_personas) (\<lambda>all_keys.
               case key_with_id i all_keys of
                 Some found \<Rightarrow> return_op (Some found)
               | None \<Rightarrow> bind_op (read_vault (\<lambda>v. Inr (list_persona_ids v))) (locate_pending i))))"

end
