(* ===== verification/NodeActs.thy ===== *)
theory NodeActs
  imports Node
begin

text \<open>
  The two tools that sign on an edge, \<^verbatim>\<open>confirm\<close> and \<^verbatim>\<open>act\<close> of \<^verbatim>\<open>packages/node/src/node.ts\<close>, with the
  queue they also serve. The transition table decides what is legal: the candidate assertion is signed,
  run at the end of the stored chain, and stored only when it is accepted.
\<close>

section \<open>confirm\<close>

datatype decision = DecideConfirm | DecideDismiss | DecideEdit

record edit_fields =
  ed_intent :: "string option"
  ed_due :: "rfc3339 option"

record confirm_input =
  cf_id :: string
  cf_decision :: decision
  cf_edit :: "edit_fields option"

datatype confirm_state = Confirmed | Dismissed | Revised

definition edit_commitment :: "confirm_input \<Rightarrow> commitment \<Rightarrow> commitment" where
  "edit_commitment inp c =
     (case (cf_decision inp, cf_edit inp) of
        (DecideEdit, Some ed) \<Rightarrow>
          (let c1 = (case ed_intent ed of None \<Rightarrow> c | Some t \<Rightarrow> c\<lparr>cm_intent := t\<rparr>)
           in case ed_due ed of None \<Rightarrow> c1 | Some d \<Rightarrow> c1\<lparr>cm_due := Some d\<rparr>)
      | _ \<Rightarrow> c)"

definition drop_pending :: "persona_id \<Rightarrow> string \<Rightarrow> unit node_op" where
  "drop_pending p i = write_local (\<lambda>l. map_sum id snd (delete_pending l p i))"

definition confirm_pending :: "node_config \<Rightarrow> persona_id \<Rightarrow> confirm_input \<Rightarrow> confirm_state node_op" where
  "confirm_pending cfg p inp =
     bind_op (read_local (\<lambda>l. get_pending l p (cf_id inp))) (\<lambda>held.
     bind_op (require_some NoSuchPending held) (\<lambda>x.
       if cf_decision inp = DecideDismiss
       then bind_op (drop_pending p (cf_id inp)) (\<lambda>_. return_op Dismissed)
       else case pe_candidate x of
         CandExpectation ex \<Rightarrow>
           bind_op (write_vault (\<lambda>v. put_expectation v p (pe_id x) ex)) (\<lambda>_.
           bind_op (drop_pending p (cf_id inp)) (\<lambda>_. return_op Confirmed))
       | CandCommitment c \<Rightarrow>
           if cm_owner c \<noteq> p then throw_op M1Violation
           else bind_op (write_vault (\<lambda>v. put_commitment (nc_lib cfg) v p (edit_commitment inp c))) (\<lambda>_.
                bind_op (drop_pending p (cf_id inp)) (\<lambda>_.
                  return_op (if cf_decision inp = DecideEdit then Revised else Confirmed)))))"

text \<open>
  What both tools do with an assertion of their own: run it at the end of the stored chain with the clock
  and the rotations of the moment, and answer the table's verdict on it.
\<close>

definition verdict_on ::
    "node_config \<Rightarrow> persona_id \<Rightarrow> edge \<Rightarrow> rfc3339 \<Rightarrow> assertion \<Rightarrow> outcome option node_op" where
  "verdict_on cfg p e now a =
     bind_op (read_vault (\<lambda>v. get_assertions v p (e_id e))) (\<lambda>held.
     bind_op (read_vault (\<lambda>v. verifier_for (nc_lib cfg) v p (Some (ms_of now)))) (\<lambda>vr.
       return_op (last_opt (cv_outcomes (verify_assertion_chain vr e (held @ [a]))))))"

definition store_assertion :: "persona_id \<Rightarrow> assertion \<Rightarrow> unit node_op" where
  "store_assertion p a = write_vault (\<lambda>v. map_sum id snd (append_assertion v p a))"

definition set_dismissed :: "persona_id \<Rightarrow> sha256_hex \<Rightarrow> bool \<Rightarrow> unit node_op" where
  "set_dismissed p i b =
     bind_op (read_vault (\<lambda>v. get_edge_meta v p i)) (\<lambda>m. write_vault (\<lambda>v. put_edge_meta v p (m\<lparr>em_dismissed := b\<rparr>)))"

text \<open>The second half of \<^verbatim>\<open>confirmEdge\<close>: sign, check, store, and take back a dismissal.\<close>

definition record_confirmation :: "node_config \<Rightarrow> (nat \<Rightarrow> rfc3339) \<Rightarrow> persona_id \<Rightarrow> edge \<Rightarrow> confirm_state node_op" where
  "record_confirmation cfg clk p e =
     bind_op (sign_assertion cfg p (e_id e) AConfirmed (clk 0) None) (\<lambda>a.
     bind_op (verdict_on cfg p e (clk 1) a) (\<lambda>r.
       if r \<noteq> Some None then throw_op (InvalidAssertion (case r of None \<Rightarrow> None | Some why \<Rightarrow> why))
       else
         bind_op (store_assertion p a) (\<lambda>_.
         bind_op (read_vault (\<lambda>v. get_edge_meta v p (e_id e))) (\<lambda>m.
         bind_op (if em_dismissed m then write_vault (\<lambda>v. put_edge_meta v p (m\<lparr>em_dismissed := False\<rparr>))
                  else return_op ()) (\<lambda>_.
           return_op Confirmed)))))"

definition confirm_edge ::
    "node_config \<Rightarrow> (nat \<Rightarrow> rfc3339) \<Rightarrow> persona_id \<Rightarrow> confirm_input \<Rightarrow> confirm_state node_op" where
  "confirm_edge cfg clk p inp =
     bind_op (read_vault (\<lambda>v. get_edge v p (cf_id inp))) (\<lambda>held.
     bind_op (require_some NoSuchEdge held) (\<lambda>e.
       if cf_decision inp = DecideDismiss
       then bind_op (set_dismissed p (cf_id inp) True) (\<lambda>_. return_op Dismissed)
       else if cf_decision inp = DecideEdit then throw_op EditNeedsSupersession
       else if e_owner e = p then throw_op M2Violation
       else if e_owed_to e \<noteq> p then throw_op M3Violation
       else record_confirmation cfg clk p e))"

definition confirm :: "node_config \<Rightarrow> (nat \<Rightarrow> rfc3339) \<Rightarrow> confirm_input \<Rightarrow> confirm_state node_op" where
  "confirm cfg clk inp =
     bind_op (locate cfg (cf_id inp)) (\<lambda>found.
     bind_op (require_some NoSuchId found) (\<lambda>(p, k).
       if k = LocatedPending then confirm_pending cfg p inp else confirm_edge cfg clk p inp))"

section \<open>act\<close>

datatype act_rejection =
    NotAParty
  | WrongRoleForAct
  | ActNotBound
  | EvidenceMustBeNull
  | EvidenceRequired
  | ActAcceptanceWindow
  | ActDueNotElapsed
  | ActIllegalState
  | ActDisputeWindow
  | ActMalformedEdge
  | ActTerminal
  | ActDuplicate

fun act_rejection_of :: "rejection_reason \<Rightarrow> act_rejection" where
  "act_rejection_of WrongSignerForTransition = WrongRoleForAct"
| "act_rejection_of SignerNotAParty = NotAParty"
| "act_rejection_of IllegalSourceState = ActIllegalState"
| "act_rejection_of EvidenceHashRequired = EvidenceRequired"
| "act_rejection_of EvidenceHashRequiredForOwnerClosure = EvidenceRequired"
| "act_rejection_of DueIsNull = ActIllegalState"
| "act_rejection_of ExpiryBeforeDue = ActDueNotElapsed"
| "act_rejection_of ExpiryDatedInTheFuture = ActIllegalState"
| "act_rejection_of AcceptanceWindowNotElapsed = ActAcceptanceWindow"
| "act_rejection_of DisputeWindowNotElapsed = ActDisputeWindow"
| "act_rejection_of MalformedEdgeAcceptanceWindow = ActMalformedEdge"
| "act_rejection_of EdgeIdDoesNotBindBody = ActIllegalState"
| "act_rejection_of AssertedAtBeforeSignersPrevious = ActIllegalState"
| "act_rejection_of ImplicitTransitionNotAssertable = ActIllegalState"
| "act_rejection_of InvalidSignature = ActIllegalState"
| "act_rejection_of TerminalStateReached = ActTerminal"
| "act_rejection_of EdgeIdMismatch = ActIllegalState"
| "act_rejection_of DuplicateAssertionBySameParty = ActDuplicate"

record act_input =
  ac_id :: string
  ac_act :: act
  ac_evidence :: "sha256_hex option"

text \<open>What \<^verbatim>\<open>act\<close> asserts: \<^verbatim>\<open>done\<close> closes, \<^verbatim>\<open>expire\<close> expires, and what is left is \<^verbatim>\<open>release\<close>.\<close>

definition asserted_by_act :: "act \<Rightarrow> wire_state" where
  "asserted_by_act x = (if x = ActDone then AClosed else if x = ActExpire then AExpired else AReleased)"

text \<open>The refusals before anything is signed, in their order.\<close>

definition act_refused :: "persona_id \<Rightarrow> edge \<Rightarrow> act_input \<Rightarrow> act_rejection option" where
  "act_refused p e inp =
     (if e_owner e \<noteq> p \<and> e_owed_to e \<noteq> p then Some NotAParty
      else if act_tool_binding (ac_act inp) \<noteq> Some ToolAct then Some ActNotBound
      else if ac_act inp \<noteq> ActExpire \<and> p \<noteq> (if ac_act inp = ActDone then e_owner e else e_owed_to e)
      then Some WrongRoleForAct
      else if ac_act inp = ActExpire \<and> ac_evidence inp \<noteq> None then Some EvidenceMustBeNull
      else if ac_act inp = ActRelease \<and> ac_evidence inp \<noteq> None then Some EvidenceMustBeNull
      else None)"

type_synonym act_output = "(act_rejection, wire_state) result"

definition act_op :: "node_config \<Rightarrow> (nat \<Rightarrow> rfc3339) \<Rightarrow> act_input \<Rightarrow> act_output node_op" where
  "act_op cfg clk inp =
     bind_op (locate cfg (ac_id inp)) (\<lambda>found.
     bind_op (require_some NoSuchId found) (\<lambda>(p, k).
     bind_op (read_vault (\<lambda>v. get_edge v p (ac_id inp))) (\<lambda>held.
     bind_op (require_some NoSuchEdge held) (\<lambda>e.
       case act_refused p e inp of
         Some r \<Rightarrow> return_op (Inl r)
       | None \<Rightarrow>
           bind_op (edge_state cfg p (e_id e)) (\<lambda>st.
             if ac_act inp = ActDone \<and> cv_final_state st \<in> {SDisputed, SContestedClosure}
             then return_op (Inl ActIllegalState)
             else
               bind_op (sign_assertion cfg p (e_id e) (asserted_by_act (ac_act inp)) (clk 0) (ac_evidence inp)) (\<lambda>a.
               bind_op (verdict_on cfg p e (clk 1) a) (\<lambda>r.
                 case r of
                   Some None \<Rightarrow>
                     bind_op (store_assertion p a) (\<lambda>_. return_op (Inr (asserted_by_act (ac_act inp))))
                 | Some (Some why) \<Rightarrow> return_op (Inl (act_rejection_of why))
                 | None \<Rightarrow> return_op (Inl ActIllegalState))))))))"

section \<open>Filling the queue\<close>

definition candidate_members :: "candidate \<Rightarrow> json_members" where
  "candidate_members x =
     (case x of
        CandCommitment c \<Rightarrow>
          [(''kind'', JStr ''commitment''), (''intent'', JStr (cm_intent c)), (''owed_to'', json_opt (cm_owed_to c)),
           (''due'', json_opt (map_option text_of (cm_due c)))]
      | CandExpectation ex \<Rightarrow>
          [(''kind'', JStr ''expectation''), (''intent'', JStr (ex_expect ex)), (''owed_to'', JNull), (''due'', JNull)])"

definition pending_id :: "crypto_lib \<Rightarrow> persona_id \<Rightarrow> candidate \<Rightarrow> sha256_hex option \<Rightarrow> sha256_hex option" where
  "pending_id cl p x env =
     hash_canonical cl (JObj ([(''persona'', JStr p), (''envelopeId'', json_opt env)] @ candidate_members x))"

definition queue_pending_extraction ::
    "node_config \<Rightarrow> (nat \<Rightarrow> rfc3339) \<Rightarrow> persona_id \<Rightarrow> candidate \<Rightarrow> sha256_hex option \<Rightarrow> sha256_hex node_op" where
  "queue_pending_extraction cfg clk p x env =
     bind_op (require_some SigningFailure (pending_id (nc_lib cfg) p x env)) (\<lambda>i.
     bind_op (write_local (\<lambda>l. put_pending l
       \<lparr>pe_id = i, pe_persona = p, pe_candidate = x, pe_envelope_id = env, pe_queued_at = clk 0\<rparr>)) (\<lambda>_.
       return_op i))"

end
