(* ===== verification/NodeLaws.thy ===== *)
theory NodeLaws
  imports NodeActs
begin

text \<open>
  How the operations of the node compose: which of them only read, what a relation between states needs
  for every operation to keep it (\<open>op_relation\<close>), and what a call of \<^verbatim>\<open>confirm\<close> or \<^verbatim>\<open>act\<close> does when it
  returns, refuses or throws.
\<close>

section \<open>Composition\<close>

lemma return_op_eq [simp]: "return_op x s = (r, s') \<longleftrightarrow> r = Inr x \<and> s' = s"
  by (auto simp: return_op_def)

lemma throw_op_eq [simp]: "throw_op e s = (r, s') \<longleftrightarrow> r = Inl e \<and> s' = s"
  by (auto simp: throw_op_def)

lemma bind_op_eq:
  "bind_op m f s = (r, s') \<longleftrightarrow>
     (\<exists>e. m s = (Inl e, s') \<and> r = Inl e) \<or> (\<exists>x s1. m s = (Inr x, s1) \<and> f x s1 = (r, s'))"
  by (cases "m s") (auto simp: bind_op_def split: sum.splits)

lemma read_vault_eq: "read_vault f s = (r, s') \<longleftrightarrow> s' = s \<and> r = map_sum VaultFailure id (f (nd_vault s))"
  by (auto simp: read_vault_def)

lemma read_vault_Inr: "read_vault f s = (Inr x, s') \<longleftrightarrow> s' = s \<and> f (nd_vault s) = Inr x"
  by (cases "f (nd_vault s)") (auto simp: read_vault_def)

lemma read_local_Inr: "read_local f s = (Inr x, s') \<longleftrightarrow> s' = s \<and> f (nd_local s) = Inr x"
  by (cases "f (nd_local s)") (auto simp: read_local_def)

lemma write_vault_Inr: "write_vault f s = (Inr u, s') \<longleftrightarrow> (\<exists>v. f (nd_vault s) = Inr v \<and> s' = s\<lparr>nd_vault := v\<rparr>)"
  by (auto simp: write_vault_def split: sum.splits)

lemma write_local_Inr: "write_local f s = (Inr u, s') \<longleftrightarrow> (\<exists>l. f (nd_local s) = Inr l \<and> s' = s\<lparr>nd_local := l\<rparr>)"
  by (auto simp: write_local_def split: sum.splits)

lemma require_some_Inr: "require_some e x s = (Inr y, s') \<longleftrightarrow> x = Some y \<and> s' = s"
  by (auto simp: require_some_def split: option.splits)

lemma bind_op_Inr: "bind_op m f s = (Inr y, s') \<longleftrightarrow> (\<exists>x s1. m s = (Inr x, s1) \<and> f x s1 = (Inr y, s'))"
  by (auto simp: bind_op_eq)

lemmas op_returns = bind_op_Inr read_vault_Inr read_local_Inr write_vault_Inr write_local_Inr require_some_Inr

section \<open>Relations between the state before and after\<close>

text \<open>
  The client of this interface is every operation of the node; the provider is a reflexive and transitive
  relation between states, together with what it says of the writes it admits.
\<close>

locale op_relation =
  fixes R :: "node \<Rightarrow> node \<Rightarrow> bool"
  assumes R_refl: "R s s"
    and R_trans: "R s t \<Longrightarrow> R t u \<Longrightarrow> R s u"
begin

definition keeps :: "'a node_op \<Rightarrow> bool" where
  "keeps m \<longleftrightarrow> (\<forall>s. R s (snd (m s)))"

lemma keeps_return: "keeps (return_op x)"
  by (simp add: keeps_def return_op_def R_refl)

lemma keeps_throw: "keeps (throw_op e)"
  by (simp add: keeps_def throw_op_def R_refl)

lemma keeps_bind: "keeps m \<Longrightarrow> (\<And>x. keeps (f x)) \<Longrightarrow> keeps (bind_op m f)"
  unfolding keeps_def bind_op_def
  by (auto split: sum.splits prod.splits) (metis R_trans snd_conv)+

lemma keeps_read: "keeps (read_vault f)" "keeps (read_local g)"
  by (simp_all add: keeps_def read_vault_def read_local_def R_refl)

lemma keeps_require: "keeps (require_some e x)"
  by (cases x) (simp_all add: require_some_def keeps_return keeps_throw)

lemma keeps_write:
  "(\<And>s v. f (nd_vault s) = Inr v \<Longrightarrow> R s (s\<lparr>nd_vault := v\<rparr>)) \<Longrightarrow> keeps (write_vault f)"
  by (auto simp: keeps_def write_vault_def R_refl split: sum.splits)

lemma keeps_write_local:
  "(\<And>s l. f (nd_local s) = Inr l \<Longrightarrow> R s (s\<lparr>nd_local := l\<rparr>)) \<Longrightarrow> keeps (write_local f)"
  by (auto simp: keeps_def write_local_def R_refl split: sum.splits)

lemma keeps_if: "(b \<Longrightarrow> keeps m) \<Longrightarrow> (\<not> b \<Longrightarrow> keeps n) \<Longrightarrow> keeps (if b then m else n)"
  by simp

lemma keeps_option: "keeps m \<Longrightarrow> (\<And>x. keeps (f x)) \<Longrightarrow> keeps (case y of None \<Rightarrow> m | Some x \<Rightarrow> f x)"
  by (cases y) simp_all

lemma keeps_pair: "(\<And>a b. keeps (f a b)) \<Longrightarrow> keeps (case y of (a, b) \<Rightarrow> f a b)"
  by (cases y) simp

lemma keepsD: "keeps m \<Longrightarrow> m s = (r, s') \<Longrightarrow> R s s'"
  by (metis keeps_def snd_conv)

lemmas keeps_intros = keeps_return keeps_throw keeps_bind keeps_read keeps_require keeps_if keeps_option keeps_pair

lemma keeps_locate_pending: "keeps (locate_pending i ps)"
  by (induction ps) (auto intro!: keeps_intros)

lemma keeps_locate: "keeps (locate cfg i)"
  unfolding locate_def by (intro keeps_intros keeps_locate_pending)

lemma keeps_edge_state: "keeps (edge_state cfg p i)"
  unfolding edge_state_def by (intro keeps_intros)

lemma keeps_sign: "keeps (sign_assertion cfg p i w t ev)"
  unfolding sign_assertion_def private_key_of_def Let_def by (intro keeps_intros)

lemma keeps_verdict: "keeps (verdict_on cfg p e now a)"
  unfolding verdict_on_def by (intro keeps_intros)

lemma keeps_resolve: "keeps (resolve_persona cfg p)"
  by (auto simp: keeps_def resolve_persona_def return_op_def R_refl split: option.splits prod.splits)

lemmas keeps_reads = keeps_locate keeps_edge_state keeps_sign keeps_verdict keeps_resolve

end

text \<open>The identity is such a relation: what keeps it only reads.\<close>

interpretation quiet: op_relation "(=)"
  by unfold_locales simp_all

lemma quiet_locate: "locate cfg i s = (r, s') \<Longrightarrow> s' = s"
  using quiet.keepsD [OF quiet.keeps_locate] by metis

lemma quiet_edge_state: "edge_state cfg p i s = (r, s') \<Longrightarrow> s' = s"
  using quiet.keepsD [OF quiet.keeps_edge_state] by metis

lemma quiet_sign: "sign_assertion cfg p i w t ev s = (r, s') \<Longrightarrow> s' = s"
  using quiet.keepsD [OF quiet.keeps_sign] by metis

lemma quiet_verdict: "verdict_on cfg p e now a s = (r, s') \<Longrightarrow> s' = s"
  using quiet.keepsD [OF quiet.keeps_verdict] by metis

lemma quiet_resolve: "resolve_persona cfg p s = (r, s') \<Longrightarrow> s' = s"
  using quiet.keepsD [OF quiet.keeps_resolve] by metis

lemma quiet_require: "require_some e x s = (r, s') \<Longrightarrow> s' = s"
  using quiet.keepsD [OF quiet.keeps_require] by metis

lemma quiet_store: "store_assertion p a s = (Inl e, s') \<Longrightarrow> s' = s"
  by (auto simp: store_assertion_def write_vault_def split: sum.splits)

section \<open>Signing\<close>

lemma option_op_Inr:
  "(case x of None \<Rightarrow> throw_op e | Some y \<Rightarrow> f y) s = (Inr z, s') \<longleftrightarrow> (\<exists>y. x = Some y \<and> f y s = (Inr z, s'))"
  by (cases x) auto

lemma sign_assertion_Inr:
  "sign_assertion cfg p i w t ev s = (Inr a, s') \<longleftrightarrow>
     s' = s \<and> (\<exists>r sg. get_persona (nd_vault s) p = Inr r \<and>
       sign_object (nc_lib cfg) (unsigned_assertion_members a) (pr_private_key r) = Some sg \<and>
       a = \<lparr>a_edge_id = i, a_state = w, a_asserted_at = t, a_by = p, a_evidence_hash = ev, a_sig = sg\<rparr>)"
  by (auto simp: sign_assertion_def private_key_of_def op_returns Let_def unsigned_assertion_members_def
      option_op_Inr)

lemma verdict_on_Inr:
  "verdict_on cfg p e now a s = (Inr r, s') \<longleftrightarrow>
     s' = s \<and> (\<exists>as vr. get_assertions (nd_vault s) p (e_id e) = Inr as \<and>
       verifier_for (nc_lib cfg) (nd_vault s) p (Some (ms_of now)) = Inr vr \<and>
       r = last_opt (cv_outcomes (verify_assertion_chain vr e (as @ [a]))))"
  by (auto simp: verdict_on_def op_returns)

lemma store_assertion_Inr:
  "store_assertion p a s = (Inr u, s') \<longleftrightarrow>
     (\<exists>n v. append_assertion (nd_vault s) p a = Inr (n, v) \<and> s' = s\<lparr>nd_vault := v\<rparr>)"
  by (cases "append_assertion (nd_vault s) p a") (auto simp: store_assertion_def write_vault_Inr)

text \<open>An own assertion the table accepted at the end of the stored chain, and stored.\<close>

inductive signs_and_stores ::
    "node_config \<Rightarrow> persona_id \<Rightarrow> edge \<Rightarrow> wire_state \<Rightarrow> rfc3339 \<Rightarrow> rfc3339 \<Rightarrow> sha256_hex option \<Rightarrow> node \<Rightarrow> node \<Rightarrow> bool"
  for cfg p e w t now ev where
  "sign_assertion cfg p (e_id e) w t ev s = (Inr a, s) \<Longrightarrow>
   verdict_on cfg p e now a s = (Inr (Some None), s) \<Longrightarrow>
   append_assertion (nd_vault s) p a = Inr (n, v) \<Longrightarrow>
   signs_and_stores cfg p e w t now ev s (s\<lparr>nd_vault := v\<rparr>)"

section \<open>What a call of act does\<close>

text \<open>An operation that writes only when its result is in a set.\<close>

definition writes_only_for :: "(node_error, 'a) result set \<Rightarrow> 'a node_op \<Rightarrow> bool" where
  "writes_only_for D m \<longleftrightarrow> (\<forall>s r s'. m s = (r, s') \<longrightarrow> r \<notin> D \<longrightarrow> s' = s)"

lemma writes_only_bind:
  "quiet.keeps m \<Longrightarrow> (\<And>x. writes_only_for D (f x)) \<Longrightarrow> writes_only_for D (bind_op m f)"
  unfolding writes_only_for_def bind_op_eq using quiet.keepsD by metis

lemma writes_only_store: "Inr x \<in> D \<Longrightarrow> writes_only_for D (bind_op (store_assertion p a) (\<lambda>_. return_op x))"
  by (auto simp: writes_only_for_def bind_op_eq dest: quiet_store)

lemma writes_only_quiet: "writes_only_for D (return_op x)" "writes_only_for D (throw_op e)"
  by (auto simp: writes_only_for_def)

lemma writes_only_if: "writes_only_for D m \<Longrightarrow> writes_only_for D n \<Longrightarrow> writes_only_for D (if b then m else n)"
  by simp

lemma writes_only_option:
  "writes_only_for D m \<Longrightarrow> (\<And>x. writes_only_for D (f x)) \<Longrightarrow> writes_only_for D (case y of None \<Rightarrow> m | Some x \<Rightarrow> f x)"
  by (cases y) simp_all

lemma writes_only_pair: "(\<And>a b. writes_only_for D (f a b)) \<Longrightarrow> writes_only_for D (case y of (a, b) \<Rightarrow> f a b)"
  by (cases y) simp

lemmas writes_only_intros = writes_only_bind writes_only_quiet writes_only_if writes_only_option writes_only_pair

lemma act_writes_only: "writes_only_for (range (\<lambda>w. Inr (Inr w))) (act_op cfg clk inp)"
  unfolding act_op_def
  by (intro writes_only_intros writes_only_store quiet.keeps_reads quiet.keeps_intros) auto

lemma verdict_case:
  "(case r of Some None \<Rightarrow> m | Some (Some why) \<Rightarrow> return_op (Inl (f why)) | None \<Rightarrow> return_op (Inl z)) s = (Inr (Inr w), s')
     \<longleftrightarrow> r = Some None \<and> m s = (Inr (Inr w), s')"
  by (auto split: option.splits)

lemma act_op_cases:
  assumes "act_op cfg clk inp s = (r, s')"
  obtains (nothing) "s' = s" "\<And>w. r \<noteq> Inr (Inr w)"
  | (signs) p k e where "locate cfg (ac_id inp) s = (Inr (Some (p, k)), s)"
      "get_edge (nd_vault s) p (ac_id inp) = Inr (Some e)" "act_refused p e inp = None"
      "r = Inr (Inr (asserted_by_act (ac_act inp)))"
      "signs_and_stores cfg p e (asserted_by_act (ac_act inp)) (clk 0) (clk 1) (ac_evidence inp) s s'"
proof (cases "\<exists>w. r = Inr (Inr w)")
  case False
  have "s' = s"
    using assms False act_writes_only [of cfg clk inp] unfolding writes_only_for_def by blast
  moreover have "r \<noteq> Inr (Inr w)" for w using False by blast
  ultimately show ?thesis by (rule nothing)
next
  case True
  then obtain w where r: "r = Inr (Inr w)" by blast
  from assms r obtain p k e a s1 s2 s3 s4 st where
    l: "locate cfg (ac_id inp) s = (Inr (Some (p, k)), s1)" "get_edge (nd_vault s1) p (ac_id inp) = Inr (Some e)"
       "act_refused p e inp = None" and w: "w = asserted_by_act (ac_act inp)"
    and st: "edge_state cfg p (e_id e) s1 = (Inr st, s2)"
    and g: "sign_assertion cfg p (e_id e) w (clk 0) (ac_evidence inp) s2 = (Inr a, s3)"
       "verdict_on cfg p e (clk 1) a s3 = (Inr (Some None), s4)" "store_assertion p a s4 = (Inr (), s')"
    by (auto simp: act_op_def op_returns verdict_case split: option.split_asm if_split_asm)
  moreover from quiet_locate [OF l(1)] quiet_edge_state [OF st] quiet_sign [OF g(1)] quiet_verdict [OF g(2)]
  have "s1 = s \<and> s2 = s \<and> s3 = s \<and> s4 = s" by simp
  ultimately show ?thesis using r by (auto simp: store_assertion_Inr intro!: signs signs_and_stores.intros)
qed

section \<open>What a confirmation of an edge does\<close>

lemma confirm_edge_Confirmed:
  assumes "confirm_edge cfg clk p inp s = (Inr Confirmed, s')"
  obtains e s1 m where "get_edge (nd_vault s) p (cf_id inp) = Inr (Some e)" "e_owner e \<noteq> p" "e_owed_to e = p"
    "signs_and_stores cfg p e AConfirmed (clk 0) (clk 1) None s s1"
    "get_edge_meta (nd_vault s1) p (e_id e) = Inr m"
    "if em_dismissed m then \<exists>v. put_edge_meta (nd_vault s1) p (m\<lparr>em_dismissed := False\<rparr>) = Inr v \<and> s' = s1\<lparr>nd_vault := v\<rparr>
     else s' = s1"
proof -
  from assms obtain e a s1 s2 s3 m where
    e: "get_edge (nd_vault s) p (cf_id inp) = Inr (Some e)" "e_owner e \<noteq> p" "e_owed_to e = p"
    and g: "sign_assertion cfg p (e_id e) AConfirmed (clk 0) None s = (Inr a, s1)"
      "verdict_on cfg p e (clk 1) a s1 = (Inr (Some None), s2)" "store_assertion p a s2 = (Inr (), s3)"
    and m: "get_edge_meta (nd_vault s3) p (e_id e) = Inr m"
      "(if em_dismissed m then write_vault (\<lambda>v. put_edge_meta v p (m\<lparr>em_dismissed := False\<rparr>)) else return_op ()) s3
         = (Inr (), s')"
    by (auto simp: confirm_edge_def record_confirmation_def op_returns split: if_split_asm)
  from quiet_sign [OF g(1)] quiet_verdict [OF g(2)] have q: "s1 = s" "s2 = s" by simp_all
  with g have "signs_and_stores cfg p e AConfirmed (clk 0) (clk 1) None s s3"
    by (auto simp: store_assertion_Inr intro: signs_and_stores.intros)
  moreover have "if em_dismissed m then \<exists>v. put_edge_meta (nd_vault s3) p (m\<lparr>em_dismissed := False\<rparr>) = Inr v \<and>
      s' = s3\<lparr>nd_vault := v\<rparr> else s' = s3"
    using m(2) by (auto simp: write_vault_Inr split: if_splits)
  ultimately show ?thesis using that e m(1) by blast
qed

section \<open>What signing and storing changes\<close>

lemma list_rotations_append:
  assumes "append_assertion v p a = Inr (n, v')"
  shows "list_rotations v' q = list_rotations v q"
proof -
  from assms obtain ps ef ef' where "edge_dir v p (a_edge_id a) = Inr (ps, ef)"
    and v': "v' = put_edge_files v p ps (a_edge_id a) ef'"
    by (auto simp: append_assertion_def bind_result_Inr_iff Let_def split: if_splits)
  then have "hex_id p" and "require_persona v p = Inr ps" by (auto simp: edge_dir_Inr require_persona_Inr)
  then show ?thesis unfolding v' put_edge_files_def
    by (auto simp: list_rotations_def require_put_store)
qed

lemma verifier_for_append:
  "append_assertion v p a = Inr (n, v') \<Longrightarrow> verifier_for cl v' q now = verifier_for cl v q now"
  by (simp add: verifier_for_def list_rotations_append)

lemma verifier_for_clock:
  "verifier_for cl v p n = Inr vr \<Longrightarrow> v_now vr = n \<and> v_lib vr = cl \<and> verifier_for cl v p m = Inr (vr\<lparr>v_now := m\<rparr>)"
  by (auto simp: verifier_for_def map_sum_Inr_iff)

text \<open>The whole effect on the chains of the vault.\<close>

lemma signs_and_stores_effect:
  assumes "signs_and_stores cfg p e w t now ev s s'" and "vault_ok cl (nd_vault s)" and "chain_room (nd_vault s) p (e_id e)"
  obtains as a vr where "get_assertions (nd_vault s) p (e_id e) = Inr as"
    and "verifier_for (nc_lib cfg) (nd_vault s) p (Some (ms_of now)) = Inr vr" and "table.accepts vr e as a"
    and "a_edge_id a = e_id e" "a_by a = p" "a_state a = w" "a_asserted_at a = t" "a_evidence_hash a = ev"
    and "\<And>q j. get_assertions (nd_vault s') q j =
       (if q = p \<and> j = e_id e then Inr (as @ [a]) else get_assertions (nd_vault s) q j)"
    and "\<And>q j. get_edge (nd_vault s') q j = get_edge (nd_vault s) q j"
    and "\<And>q n. verifier_for (nc_lib cfg) (nd_vault s') q n = verifier_for (nc_lib cfg) (nd_vault s) q n"
    and "nd_local s' = nd_local s"
proof -
  from assms(1) obtain a n v where
    a: "sign_assertion cfg p (e_id e) w t ev s = (Inr a, s)"
    and ver: "verdict_on cfg p e now a s = (Inr (Some None), s)"
    and app: "append_assertion (nd_vault s) p a = Inr (n, v)" and s': "s' = s\<lparr>nd_vault := v\<rparr>"
    by (auto elim: signs_and_stores.cases)
  have fields: "a_edge_id a = e_id e" "a_by a = p" "a_state a = w" "a_asserted_at a = t" "a_evidence_hash a = ev"
    using a by (auto simp: sign_assertion_Inr)
  from ver obtain as vr where v1: "get_assertions (nd_vault s) p (e_id e) = Inr as"
      "verifier_for (nc_lib cfg) (nd_vault s) p (Some (ms_of now)) = Inr vr"
      "last_opt (cv_outcomes (verify_assertion_chain vr e (as @ [a]))) = Some None"
    by (auto simp: verdict_on_Inr)
  have acc: "table.accepts vr e as a"
    using v1(3) by (auto simp: table.accepts_def last_opt_def split: if_splits)
  have room: "chain_room (nd_vault s) p (a_edge_id a)" using assms(3) fields by simp
  note after = get_assertions_append [OF assms(2) room app] get_edge_append [OF assms(2) room app]
  show thesis
    by (rule that [OF v1(1,2) acc fields])
      (use after verifier_for_append [OF app] in \<open>simp_all add: s' fields v1\<close>)
qed

section \<open>Valid chains\<close>

text \<open>Every chain stored for a persona is accepted whole, at an instant and so at every later one.\<close>

definition chains_valid :: "crypto_lib \<Rightarrow> int option \<Rightarrow> vault \<Rightarrow> bool" where
  "chains_valid cl n v \<longleftrightarrow>
     (\<forall>p i e as vr. get_edge v p i = Inr (Some e) \<longrightarrow> get_assertions v p i = Inr as \<longrightarrow>
        verifier_for cl v p n = Inr vr \<longrightarrow> table.all_accepted vr e as)"

lemma all_accepted_later:
  assumes "table.all_accepted vr e as" and "clock_le (v_now vr) m"
  shows "table.all_accepted (vr\<lparr>v_now := m\<rparr>) e as"
proof (cases "edge_malformed (v_lib vr) e")
  case None
  obtain os c where r: "run_chain vr e initial_chain as = (os, c)" by fastforce
  with assms(1) None have "set os \<subseteq> {None}" by (simp add: table.all_accepted_def verify_assertion_chain_def)
  from run_chain_later [OF r this assms(2)] None \<open>set os \<subseteq> {None}\<close> show ?thesis
    by (simp add: table.all_accepted_def verify_assertion_chain_def)
next
  case (Some x)
  with assms(1) show ?thesis
    by (cases as) (auto simp: table.all_accepted_def verify_assertion_chain_def)
qed

lemma chains_valid_later: "chains_valid cl n v \<Longrightarrow> clock_le n m \<Longrightarrow> chains_valid cl m v"
  unfolding chains_valid_def
proof (intro allI impI)
  fix p i e as vr
  assume v: "\<forall>p i e as vr. get_edge v p i = Inr (Some e) \<longrightarrow> get_assertions v p i = Inr as \<longrightarrow>
      verifier_for cl v p n = Inr vr \<longrightarrow> table.all_accepted vr e as" and le: "clock_le n m"
    and h: "get_edge v p i = Inr (Some e)" "get_assertions v p i = Inr as" "verifier_for cl v p m = Inr vr"
  have n: "verifier_for cl v p n = Inr (vr\<lparr>v_now := n\<rparr>)" and m: "v_now vr = m"
    using verifier_for_clock [OF h(3)] by auto
  have "table.all_accepted (vr\<lparr>v_now := n\<rparr>) e as" using v h n by blast
  moreover have "vr\<lparr>v_now := m\<rparr> = vr" using m by (cases vr) simp
  ultimately show "table.all_accepted vr e as"
    using all_accepted_later [of "vr\<lparr>v_now := n\<rparr>" e as m] le by simp
qed

lemma chains_valid_signs:
  assumes "signs_and_stores cfg p e w t now ev s s'" and "vault_ok cl (nd_vault s)" and "chain_room (nd_vault s) p (e_id e)"
    and "get_edge (nd_vault s) p (e_id e) = Inr (Some e)"
    and "chains_valid (nc_lib cfg) (Some (ms_of now)) (nd_vault s)"
  shows "chains_valid (nc_lib cfg) (Some (ms_of now)) (nd_vault s')"
  using assms(1-3)
proof (rule signs_and_stores_effect)
  fix as a vr
  assume h: "get_assertions (nd_vault s) p (e_id e) = Inr as"
      "verifier_for (nc_lib cfg) (nd_vault s) p (Some (ms_of now)) = Inr vr" "table.accepts vr e as a"
    and g: "\<And>q j. get_assertions (nd_vault s') q j =
       (if q = p \<and> j = e_id e then Inr (as @ [a]) else get_assertions (nd_vault s) q j)"
      "\<And>q j. get_edge (nd_vault s') q j = get_edge (nd_vault s) q j"
      "\<And>q n. verifier_for (nc_lib cfg) (nd_vault s') q n = verifier_for (nc_lib cfg) (nd_vault s) q n"
  have "table.all_accepted vr e as" using assms(4,5) h by (auto simp: chains_valid_def)
  with h(3) have "table.all_accepted vr e (as @ [a])" by (simp add: table.all_accepted_snoc)
  with assms(4,5) h(2) show ?thesis
    unfolding chains_valid_def g by auto
qed

end
