(* ===== verification/Register.thy ===== *)
theory Register
  imports NodeLaws
begin

text \<open>
  The reads of the node surface: \<^verbatim>\<open>verificationLevel\<close>, \<^verbatim>\<open>localPairwiseHistory\<close>, \<^verbatim>\<open>escalatable\<close>,
  \<^verbatim>\<open>open_loops\<close> and \<^verbatim>\<open>brief\<close> of \<^verbatim>\<open>packages/node/src/node.ts\<close>. The wall clock is one instant for the whole
  of a read (the source reads it at several places of one call); a paged read ages and ranks as of the
  instant in its cursor, and the source reads the wall clock for verification levels even then. A cursor
  arrives decoded: \<open>Some None\<close> is a text that \<^verbatim>\<open>decodeCursor\<close> refuses.
\<close>

section \<open>Loops that skip\<close>

text \<open>A \<^verbatim>\<open>for\<close> loop whose body may \<^verbatim>\<open>continue\<close> and otherwise pushes one value.\<close>

fun collect_op :: "('a \<Rightarrow> 'b option node_op) \<Rightarrow> 'a list \<Rightarrow> 'b list node_op" where
  "collect_op f [] = return_op []"
| "collect_op f (x # xs) =
     bind_op (f x) (\<lambda>y. bind_op (collect_op f xs) (\<lambda>ys.
       return_op (case y of None \<Rightarrow> ys | Some z \<Rightarrow> z # ys)))"

text \<open>A \<^verbatim>\<open>for\<close> loop that returns at the first element whose body answers.\<close>

fun first_op :: "('a \<Rightarrow> 'b option node_op) \<Rightarrow> 'a list \<Rightarrow> 'b option node_op" where
  "first_op f [] = return_op None"
| "first_op f (x # xs) = bind_op (f x) (\<lambda>y. if y \<noteq> None then return_op y else first_op f xs)"

section \<open>Verification levels\<close>

definition same_party :: "(persona_id \<Rightarrow> party_key list) \<Rightarrow> persona_id \<Rightarrow> persona_id \<Rightarrow> bool" where
  "same_party lin c k \<longleftrightarrow> k = c \<or> (\<exists>x \<in> set (lin k). pk_key x = c)"

text \<open>Level 1: a chain past the proposal with this key, or with a key it succeeded.\<close>

definition continuity_at :: "node_config \<Rightarrow> persona_id \<Rightarrow> persona_id \<Rightarrow> (persona_id \<Rightarrow> party_key list) \<Rightarrow>
    sha256_hex \<Rightarrow> nat option node_op" where
  "continuity_at cfg p c lin i =
     bind_op (read_vault (\<lambda>v. get_edge v p i)) (\<lambda>held.
       case held of
         None \<Rightarrow> return_op None
       | Some e \<Rightarrow>
           if \<not> same_party lin c (e_owner e) \<and> \<not> same_party lin c (e_owed_to e) then return_op None
           else bind_op (edge_state cfg p i) (\<lambda>st.
             return_op (if cv_final_state st \<noteq> SNone \<and> cv_final_state st \<noteq> SProposed then Some 1 else None)))"

definition continuity_level :: "node_config \<Rightarrow> persona_id \<Rightarrow> persona_id \<Rightarrow> nat node_op" where
  "continuity_level cfg p c =
     bind_op (read_vault (\<lambda>v. list_rotations v p)) (\<lambda>rs.
     bind_op (read_vault (\<lambda>v. list_edge_ids v p)) (\<lambda>ids.
     bind_op (first_op (continuity_at cfg p c (successor_resolver (nc_lib cfg) rs)) ids) (\<lambda>r.
       return_op (case r of None \<Rightarrow> 0 | Some n \<Rightarrow> n))))"

definition verification_level :: "node_config \<Rightarrow> int \<Rightarrow> persona_id \<Rightarrow> string option \<Rightarrow> nat node_op" where
  "verification_level cfg now p counterparty =
     (case counterparty of
        None \<Rightarrow> return_op 0
      | Some c \<Rightarrow>
          if \<not> hex64 c then return_op 0
          else bind_op (read_vault (\<lambda>v. get_attestation v p c)) (\<lambda>att.
            case att of
              None \<Rightarrow> continuity_level cfg p c
            | Some a \<Rightarrow>
                bind_op (read_vault (\<lambda>v. get_revocation v p c)) (\<lambda>rv.
                  if (case rv of None \<Rightarrow> False | Some r \<Rightarrow> ms_of (rv_revoked_at r) \<le> now) \<or> ms_of (at_expires_at a) < now
                  then continuity_level cfg p c
                  else bind_op (read_vault (\<lambda>v. get_domain_anchor v p (at_org a))) (\<lambda>anchor.
                    return_op (if anchor = None then 2 else 3)))))"

section \<open>Pairwise history\<close>

record pairwise =
  pw_closed :: nat
  pw_released :: nat
  pw_expired :: nat
  pw_disputed :: nat
  pw_open :: nat

definition no_history :: pairwise where
  "no_history = \<lparr>pw_closed = 0, pw_released = 0, pw_expired = 0, pw_disputed = 0, pw_open = 0\<rparr>"

fun count_state :: "effective_state \<Rightarrow> pairwise \<Rightarrow> pairwise" where
  "count_state SClosed w = w\<lparr>pw_closed := Suc (pw_closed w)\<rparr>"
| "count_state SReleased w = w\<lparr>pw_released := Suc (pw_released w)\<rparr>"
| "count_state SExpired w = w\<lparr>pw_expired := Suc (pw_expired w)\<rparr>"
| "count_state SDisputed w = w\<lparr>pw_disputed := Suc (pw_disputed w)\<rparr>"
| "count_state SOpen w = w\<lparr>pw_open := Suc (pw_open w)\<rparr>"
| "count_state SPendingAcceptance w = w\<lparr>pw_open := Suc (pw_open w)\<rparr>"
| "count_state _ w = w"

definition pairwise_at :: "node_config \<Rightarrow> persona_id \<Rightarrow> persona_id \<Rightarrow> sha256_hex \<Rightarrow> effective_state option node_op" where
  "pairwise_at cfg p c i =
     bind_op (read_vault (\<lambda>v. get_edge v p i)) (\<lambda>held.
       case held of
         None \<Rightarrow> return_op None
       | Some e \<Rightarrow>
           if p \<noteq> e_owner e \<and> p \<noteq> e_owed_to e then throw_op M11Violation
           else if c \<noteq> e_owner e \<and> c \<noteq> e_owed_to e then return_op None
           else bind_op (edge_state cfg p i) (\<lambda>st. return_op (Some (cv_final_state st))))"

definition local_pairwise_history :: "node_config \<Rightarrow> persona_id \<Rightarrow> persona_id \<Rightarrow> pairwise node_op" where
  "local_pairwise_history cfg p c =
     bind_op (read_vault (\<lambda>v. list_edge_ids v p)) (\<lambda>ids.
     bind_op (collect_op (pairwise_at cfg p c) ids) (\<lambda>sts.
       return_op (foldl (\<lambda>w st. count_state st w) no_history sts)))"

section \<open>Escalation\<close>

definition escalatable :: "node_config \<Rightarrow> int \<Rightarrow> persona_id \<Rightarrow> sha256_hex list node_op" where
  "escalatable cfg now p =
     bind_op (read_vault (\<lambda>v. list_edge_ids v p)) (collect_op (\<lambda>i.
       bind_op (read_vault (\<lambda>v. get_edge v p i)) (\<lambda>held.
         case held of
           None \<Rightarrow> return_op None
         | Some e \<Rightarrow> bind_op (edge_state cfg p i) (\<lambda>st.
             return_op (if may_auto_escalate e st now then Some i else None)))))"

section \<open>Items\<close>

text \<open>The white space \<^verbatim>\<open>trim\<close> removes, among the characters modelled.\<close>

definition js_space :: "char \<Rightarrow> bool" where
  "js_space c \<longleftrightarrow> (of_char c :: nat) \<in> set [9, 10, 11, 12, 13, 32, 160]"

definition counterparty_of :: "string option \<Rightarrow> string option" where
  "counterparty_of x = (case x of None \<Rightarrow> None | Some s \<Rightarrow> if list_all js_space s then None else Some s)"

datatype item_state = EdgeIn effective_state | VaultLocalItem | ExpectationIn expectation_state

record loop_item =
  li_kind :: key_kind
  li_id :: string
  li_text :: string
  li_counterparty :: "string option"
  li_level :: nat
  li_age_days :: rat
  li_due :: "rfc3339 option"
  li_state :: item_state
  li_actions :: "item_action list"

definition plaintext_deleted :: string where
  "plaintext_deleted = ''(the words were deleted after the keeping period)''"

definition plaintext_never_held :: string where
  "plaintext_never_held = ''(the words stayed with the person who wrote them)''"

definition no_local_plaintext :: string where
  "no_local_plaintext = ''(no local plaintext for this commitment)''"

definition missing_plaintext :: "persona_id \<Rightarrow> sha256_hex \<Rightarrow> string node_op" where
  "missing_plaintext p i = bind_op (read_vault (\<lambda>v. get_edge_meta v p i)) (\<lambda>m.
     return_op (if em_plaintext_deleted_at m = None then plaintext_never_held else plaintext_deleted))"

definition age_days_of :: "rfc3339 \<Rightarrow> int \<Rightarrow> rat" where
  "age_days_of since now = max 0 (in_days (now - ms_of since))"

definition due_elapsed :: "edge \<Rightarrow> int \<Rightarrow> bool" where
  "due_elapsed e now = (case e_due e of None \<Rightarrow> False | Some due \<Rightarrow> ms_of due \<le> now)"

definition dispute_window_elapsed :: "chain_verification \<Rightarrow> int \<Rightarrow> bool" where
  "dispute_window_elapsed st now =
     (case cv_deadlocked_since st of
        None \<Rightarrow> False
      | Some since \<Rightarrow> (case add_duration (ms_of since) dispute_window of None \<Rightarrow> False | Some t \<Rightarrow> t \<le> now))"

definition acceptance_window_elapsed :: "persona_id \<Rightarrow> edge \<Rightarrow> int \<Rightarrow> bool node_op" where
  "acceptance_window_elapsed p e now =
     (if e_closure_policy e \<noteq> OnAcceptance then return_op False
      else case e_acceptance_window e of
        None \<Rightarrow> return_op False
      | Some w \<Rightarrow>
          bind_op (read_vault (\<lambda>v. get_assertions v p (e_id e))) (\<lambda>as.
            return_op (case find (\<lambda>a. a_state a = AClosed \<and> a_by a = e_owner e) as of
              None \<Rightarrow> False
            | Some a \<Rightarrow> (case add_duration (ms_of (a_asserted_at a)) w of None \<Rightarrow> False | Some t \<Rightarrow> t \<le> now))))"

definition live_state :: "effective_state \<Rightarrow> bool" where
  "live_state st \<longleftrightarrow> st = SOpen \<or> st = SPendingAcceptance \<or> st = SProposed \<or> st = SDisputed \<or> st = SContestedClosure"

definition edge_in_view :: "loops_view \<Rightarrow> bool \<Rightarrow> effective_state \<Rightarrow> bool" where
  "edge_in_view vw is_owner st =
     (case vw of
        ViewOwe \<Rightarrow> is_owner \<and> live_state st
      | ViewWaiting \<Rightarrow> \<not> is_owner \<and> live_state st
      | ViewClosed \<Rightarrow> \<not> live_state st
      | ViewPending \<Rightarrow> st = SProposed \<and> \<not> is_owner
      | ViewAll \<Rightarrow> True)"

definition headline_of :: "persona_id \<Rightarrow> sha256_hex \<Rightarrow> edge \<Rightarrow> string node_op" where
  "headline_of p i e =
     bind_op (read_vault (\<lambda>v. get_commitment v p (e_commitment_hash e))) (\<lambda>c.
       case c of None \<Rightarrow> missing_plaintext p i | Some x \<Rightarrow> return_op (cm_intent x))"

definition viewer_of :: "persona_id \<Rightarrow> edge \<Rightarrow> viewer_role" where
  "viewer_of p e = (if e_owner e = p then RoleOwner else RoleOwedTo)"

text \<open>The acts of an edge, with the flags both surfaces compute.\<close>

definition edge_actions :: "persona_id \<Rightarrow> sha256_hex \<Rightarrow> edge \<Rightarrow> chain_verification \<Rightarrow> int \<Rightarrow> item_action list node_op" where
  "edge_actions p i e st now =
     bind_op (acceptance_window_elapsed p e now) (\<lambda>win.
       return_op (actions_for (cv_final_state st) (viewer_of p e) i win
         (dispute_window_elapsed st now) (due_elapsed e now)))"

definition edge_item ::
    "node_config \<Rightarrow> int \<Rightarrow> persona_id \<Rightarrow> loops_view \<Rightarrow> int \<Rightarrow> sha256_hex \<Rightarrow> loop_item option node_op" where
  "edge_item cfg wall p vw now i =
     bind_op (read_vault (\<lambda>v. get_edge v p i)) (\<lambda>held.
       case held of
         None \<Rightarrow> return_op None
       | Some e \<Rightarrow>
           bind_op (read_vault (\<lambda>v. get_edge_meta v p i)) (\<lambda>m.
             if em_dismissed m then return_op None
             else bind_op (edge_state cfg p i) (\<lambda>st.
               let is_owner = (e_owner e = p); other = (if is_owner then e_owed_to e else e_owner e)
               in if \<not> edge_in_view vw is_owner (cv_final_state st) then return_op None
                  else
                    bind_op (headline_of p i e) (\<lambda>words.
                    bind_op (verification_level cfg wall p (Some other)) (\<lambda>level.
                    bind_op (edge_actions p i e st now) (\<lambda>acts.
                      return_op (Some
                        \<lparr>li_kind = KeyEdge, li_id = i, li_text = words, li_counterparty = counterparty_of (Some other),
                         li_level = level, li_age_days = age_days_of (e_proposed_at e) now, li_due = e_due e,
                         li_state = EdgeIn (cv_final_state st), li_actions = acts\<rparr>)))))))"

definition edge_commitment_of :: "persona_id \<Rightarrow> sha256_hex \<Rightarrow> sha256_hex option node_op" where
  "edge_commitment_of p i = bind_op (read_vault (\<lambda>v. get_edge v p i)) (\<lambda>held. return_op (map_option e_commitment_hash held))"

definition commitment_item ::
    "node_config \<Rightarrow> int \<Rightarrow> persona_id \<Rightarrow> loops_view \<Rightarrow> int \<Rightarrow> sha256_hex list \<Rightarrow> sha256_hex \<times> commitment \<Rightarrow>
     loop_item option node_op" where
  "commitment_item cfg wall p vw now with_edge hc =
     (case hc of (h, c) \<Rightarrow>
       if h \<in> set with_edge \<or> vw \<in> {ViewWaiting, ViewClosed, ViewPending} then return_op None
       else bind_op (verification_level cfg wall p (cm_owed_to c)) (\<lambda>level.
         return_op (Some
           \<lparr>li_kind = KeyCommitment, li_id = h, li_text = cm_intent c, li_counterparty = counterparty_of (cm_owed_to c),
            li_level = level, li_age_days = age_days_of (cm_created_at c) now, li_due = cm_due c,
            li_state = VaultLocalItem, li_actions = [\<lparr>ia_act = ActPropose, ia_tool = None, ia_args = []\<rparr>]\<rparr>)))"

text \<open>
  The members of a candidate read as a commitment: an expectation has none of them, so its words are not
  the ones shown.
\<close>

definition pending_item ::
    "node_config \<Rightarrow> int \<Rightarrow> persona_id \<Rightarrow> int \<Rightarrow> pending_extraction \<Rightarrow> loop_item option node_op" where
  "pending_item cfg wall p now x =
     (let (words, owed, due) =
        (case pe_candidate x of
           CandCommitment c \<Rightarrow> (cm_intent c, cm_owed_to c, cm_due c)
         | CandExpectation ex \<Rightarrow> (no_local_plaintext, None, None))
      in bind_op (verification_level cfg wall p owed) (\<lambda>level.
           return_op (Some
             \<lparr>li_kind = KeyCommitment, li_id = pe_id x, li_text = words, li_counterparty = counterparty_of owed,
              li_level = level, li_age_days = age_days_of (pe_queued_at x) now, li_due = due, li_state = VaultLocalItem,
              li_actions = [\<lparr>ia_act = ActConfirm, ia_tool = Some ToolConfirm, ia_args = decision_args (pe_id x) ''confirm''\<rparr>,
                            \<lparr>ia_act = ActDismiss, ia_tool = Some ToolConfirm, ia_args = decision_args (pe_id x) ''dismiss''\<rparr>]\<rparr>)))"

definition expectation_item ::
    "node_config \<Rightarrow> int \<Rightarrow> persona_id \<Rightarrow> loops_view \<Rightarrow> int \<Rightarrow> string \<times> expectation \<Rightarrow> loop_item option node_op" where
  "expectation_item cfg wall p vw now ix =
     (case ix of (i, x) \<Rightarrow>
       if vw \<in> {ViewOwe, ViewPending} \<or> (vw = ViewWaiting \<and> ex_state x \<noteq> ExOpen) \<or> (vw = ViewClosed \<and> ex_state x \<noteq> ExClosed)
       then return_op None
       else bind_op (verification_level cfg wall p (Some (ex_from x))) (\<lambda>level.
         return_op (Some
           \<lparr>li_kind = KeyExpectation, li_id = i, li_text = ex_expect x, li_counterparty = counterparty_of (Some (ex_from x)),
            li_level = level, li_age_days = age_days_of (ex_since x) now, li_due = None, li_state = ExpectationIn (ex_state x),
            li_actions = (if ex_state x = ExOpen then [\<lparr>ia_act = ActPing, ia_tool = None, ia_args = []\<rparr>] else [])\<rparr>)))"

definition items_for :: "node_config \<Rightarrow> int \<Rightarrow> persona_id \<Rightarrow> loops_view \<Rightarrow> int \<Rightarrow> loop_item list node_op" where
  "items_for cfg wall p vw now =
     bind_op (read_vault (\<lambda>v. list_edge_ids v p)) (\<lambda>ids.
     bind_op (collect_op (edge_item cfg wall p vw now) ids) (\<lambda>edges.
     bind_op (collect_op (edge_commitment_of p) ids) (\<lambda>with_edge.
     bind_op (read_vault (\<lambda>v. list_commitments v p)) (\<lambda>cs.
     bind_op (collect_op (commitment_item cfg wall p vw now with_edge) cs) (\<lambda>commitments.
     bind_op (if vw = ViewPending \<or> vw = ViewAll
              then bind_op (read_local (\<lambda>l. Inr (list_pending l p))) (collect_op (pending_item cfg wall p now))
              else return_op []) (\<lambda>queue.
     bind_op (read_vault (\<lambda>v. list_expectations v p)) (\<lambda>xs.
     bind_op (collect_op (expectation_item cfg wall p vw now) xs) (\<lambda>expectations.
       return_op (edges @ commitments @ queue @ expectations)))))))))"

section \<open>open_loops\<close>

record loops_call =
  lc_view :: loops_view
  lc_persona :: "string option"
  lc_limit :: nat
  lc_cursor :: "page_cursor option option"

text \<open>The instant of the read: the wall clock, or the one in a cursor of this view and persona, not too old.\<close>

definition as_of_call :: "loops_call \<Rightarrow> persona_id \<Rightarrow> rfc3339 \<Rightarrow> (rfc3339 \<times> page_cursor option) option" where
  "as_of_call call p wall =
     (case lc_cursor call of
        None \<Rightarrow> Some (wall, None)
      | Some None \<Rightarrow> None
      | Some (Some c) \<Rightarrow>
          if pc_view c \<noteq> lc_view call \<or> pc_persona c \<noteq> p then None
          else if cursor_expired c (ms_of wall) then None
          else Some (pc_as_of c, Some c))"

definition rank_key :: "ordering_key \<Rightarrow> int \<Rightarrow> ranking" where
  "rank_key k now = rank (ok_since k) (ok_due k) (ok_blocking_count k) now"

definition score_of :: "ordering_key list \<Rightarrow> int \<Rightarrow> string \<Rightarrow> rat" where
  "score_of ks now i =
     (case map_of (rev (map (\<lambda>k. (ok_id k, rk_score (rank_key k now))) ks)) i of None \<Rightarrow> 0 | Some x \<Rightarrow> x)"

definition open_loops :: "node_config \<Rightarrow> rfc3339 \<Rightarrow> loops_call \<Rightarrow> loop_item page node_op" where
  "open_loops cfg wall call =
     bind_op (resolve_persona cfg (lc_persona call)) (\<lambda>p.
     bind_op (require_some CursorRefused (as_of_call call p wall)) (\<lambda>(as_of, cur).
     bind_op (items_for cfg (ms_of wall) p (lc_view call) (ms_of as_of)) (\<lambda>items.
     bind_op (read_vault (\<lambda>v. list_ordering_keys v p)) (\<lambda>ks.
       return_op (read_page (nc_collate cfg) (lc_view call) p as_of (lc_limit call) cur
         (\<lambda>x. score_of ks (ms_of as_of) (li_id x)) li_id items)))))"

section \<open>brief\<close>

record brief_slot =
  bs_headline :: string
  bs_item_id :: string
  bs_primary_action :: "item_action option"
  bs_persona :: persona_id

record brief_output =
  bo_slots :: "brief_slot list"
  bo_below_the_line :: nat

definition slot_for :: "node_config \<Rightarrow> int \<Rightarrow> ordering_key \<Rightarrow> brief_slot option node_op" where
  "slot_for cfg wall k =
     (let p = ok_persona k in
      case ok_kind k of
        KeyEdge \<Rightarrow>
          bind_op (read_vault (\<lambda>v. get_edge v p (ok_id k))) (\<lambda>held.
            case held of
              None \<Rightarrow> return_op None
            | Some e \<Rightarrow>
                bind_op (edge_state cfg p (ok_id k)) (\<lambda>st.
                bind_op (headline_of p (ok_id k) e) (\<lambda>words.
                bind_op (edge_actions p (ok_id k) e st wall) (\<lambda>acts.
                  return_op (Some \<lparr>bs_headline = words, bs_item_id = ok_id k, bs_primary_action = primary_action_of acts,
                                   bs_persona = p\<rparr>)))))
      | KeyCommitment \<Rightarrow>
          bind_op (read_vault (\<lambda>v. get_commitment v p (ok_id k))) (\<lambda>held.
            return_op (map_option (\<lambda>c. \<lparr>bs_headline = cm_intent c, bs_item_id = ok_id k,
              bs_primary_action = Some \<lparr>ia_act = ActPropose, ia_tool = None, ia_args = []\<rparr>, bs_persona = p\<rparr>) held))
      | KeyExpectation \<Rightarrow>
          bind_op (read_vault (\<lambda>v. get_expectation v p (ok_id k))) (\<lambda>held.
            return_op (map_option (\<lambda>x. \<lparr>bs_headline = ex_expect x, bs_item_id = ok_id k,
              bs_primary_action = Some \<lparr>ia_act = ActPing, ia_tool = None, ia_args = []\<rparr>, bs_persona = p\<rparr>) held)))"

text \<open>A commitment whose edge exists is left to the edge.\<close>

definition unsuperseded :: "ordering_key \<Rightarrow> ordering_key option node_op" where
  "unsuperseded k =
     (if ok_kind k \<noteq> KeyCommitment then return_op (Some k)
      else bind_op (read_vault (\<lambda>v. list_edge_ids v (ok_persona k))) (\<lambda>ids.
           bind_op (collect_op (edge_commitment_of (ok_persona k)) ids) (\<lambda>hashes.
             return_op (if ok_id k \<in> set hashes then None else Some k))))"

definition brief :: "node_config \<Rightarrow> int \<Rightarrow> string option \<Rightarrow> brief_output node_op" where
  "brief cfg wall persona =
     bind_op (case persona of
                None \<Rightarrow> read_vault list_ordering_keys_across_personas
              | Some _ \<Rightarrow> bind_op (resolve_persona cfg persona) (\<lambda>p. read_vault (\<lambda>v. list_ordering_keys v p))) (\<lambda>ks.
     bind_op (collect_op unsuperseded ks) (\<lambda>kept.
       let ranked = sort_key (\<lambda>k. - rk_score (rank_key k wall)) kept
       in bind_op (collect_op (slot_for cfg wall) (take (nc_brief_slots cfg) ranked)) (\<lambda>slots.
            return_op \<lparr>bo_slots = slots, bo_below_the_line = length ranked - length slots\<rparr>)))"

end
