(* ===== verification/Frames.thy ===== *)
theory Frames
  imports NodeLaws
begin

text \<open>
  What each write of the vault leaves alone: a part of every persona's subtree that a write does not
  name reads the same after it, and the writes beside the chains leave every chain as it was.
\<close>

section \<open>Parts of a subtree\<close>

definition same_part :: "(persona_store \<Rightarrow> 'a) \<Rightarrow> vault \<Rightarrow> vault \<Rightarrow> bool" where
  "same_part f v v' \<longleftrightarrow> (\<forall>q. map_sum id f (require_persona v' q) = map_sum id f (require_persona v q))"

lemma same_part_refl [simp]: "same_part f v v"
  by (simp add: same_part_def)

lemma same_part_trans: "same_part f u v \<Longrightarrow> same_part f v w \<Longrightarrow> same_part f u w"
  by (simp add: same_part_def)

lemma same_part_put_store:
  "require_persona v p = Inr ps \<Longrightarrow> f ps' = f ps \<Longrightarrow> same_part f v (put_store v p ps')"
  using require_persona_Inr [of v p ps] by (auto simp: same_part_def require_put_store)

lemma same_part_put_files:
  "edge_dir v p i = Inr (ps, ef0) \<Longrightarrow> (\<And>d. f (ps\<lparr>ps_edges := d\<rparr>) = f ps) \<Longrightarrow> same_part f v (put_edge_files v p ps i ef)"
  unfolding put_edge_files_def by (rule same_part_put_store) (auto simp: edge_dir_Inr)

text \<open>The reads of a part.\<close>

lemma get_commitment_part:
  "get_commitment v p h = bind_result (map_sum id ps_commitments (require_persona v p))
     (\<lambda>d. bind_result (assert_hex_id h) (\<lambda>_. Inr (dir_get d h)))"
  by (cases "require_persona v p") (simp_all add: get_commitment_def)

lemma get_persona_part: "get_persona v p = map_sum id ps_record (require_persona v p)"
  by (simp add: get_persona_def)

lemma list_outbox_part: "list_outbox v p = map_sum id (map snd) (map_sum id ps_outbox (require_persona v p))"
  by (cases "require_persona v p") (simp_all add: list_outbox_def)

lemma list_rotations_part: "list_rotations v p = map_sum id (map snd) (map_sum id ps_rotations (require_persona v p))"
  by (cases "require_persona v p") (simp_all add: list_rotations_def)

lemma same_part_reads:
  "same_part ps_commitments v v' \<Longrightarrow> get_commitment v' p h = get_commitment v p h"
  "same_part ps_record v v' \<Longrightarrow> get_persona v' p = get_persona v p"
  "same_part ps_outbox v v' \<Longrightarrow> list_outbox v' p = list_outbox v p"
  "same_part ps_rotations v v' \<Longrightarrow> list_rotations v' p = list_rotations v p"
  by (simp_all add: same_part_def get_commitment_part get_persona_part list_outbox_part list_rotations_part)

lemma same_rotations_verifier: "same_part ps_rotations v v' \<Longrightarrow> verifier_for cl v' p n = verifier_for cl v p n"
  by (simp add: verifier_for_def same_part_reads)

text \<open>The writes, each with the parts it leaves alone.\<close>

lemma put_commitment_parts:
  "put_commitment cl v p c = Inr v' \<Longrightarrow> (\<And>ps d. f (ps\<lparr>ps_commitments := d\<rparr>) = f ps) \<Longrightarrow> same_part f v v'"
  by (auto simp: put_commitment_def bind_result_Inr_iff intro!: same_part_put_store)

lemma put_expectation_parts:
  "put_expectation v p i x = Inr v' \<Longrightarrow> (\<And>ps d. f (ps\<lparr>ps_expectations := d\<rparr>) = f ps) \<Longrightarrow> same_part f v v'"
  by (auto simp: put_expectation_def bind_result_Inr_iff intro!: same_part_put_store)

lemma put_edge_parts:
  "put_edge cl v p e = Inr v' \<Longrightarrow> (\<And>ps d. f (ps\<lparr>ps_edges := d\<rparr>) = f ps) \<Longrightarrow> same_part f v v'"
  by (auto simp: put_edge_def bind_result_Inr_iff split: if_splits option.splits intro!: same_part_put_files)

lemma append_parts:
  "append_assertion v p a = Inr (n, v') \<Longrightarrow> (\<And>ps d. f (ps\<lparr>ps_edges := d\<rparr>) = f ps) \<Longrightarrow> same_part f v v'"
  by (auto simp: append_assertion_def bind_result_Inr_iff Let_def split: if_splits intro!: same_part_put_files)

lemma put_edge_meta_parts:
  "put_edge_meta v p m = Inr v' \<Longrightarrow> (\<And>ps d. f (ps\<lparr>ps_edges := d\<rparr>) = f ps) \<Longrightarrow> same_part f v v'"
  by (auto simp: put_edge_meta_def map_sum_Inr_iff intro!: same_part_put_files)

lemma put_outbox_parts:
  "put_outbox cl v item = Inr v' \<Longrightarrow> (\<And>ps d. f (ps\<lparr>ps_outbox := d\<rparr>) = f ps) \<Longrightarrow> same_part f v v'"
  by (auto simp: put_outbox_def bind_result_Inr_iff split: if_splits intro!: same_part_put_store)

lemma delete_plaintext_parts:
  "delete_commitment_plaintext v p h = Inr (b, v') \<Longrightarrow> (\<And>ps d. f (ps\<lparr>ps_commitments := d\<rparr>) = f ps) \<Longrightarrow> same_part f v v'"
  by (auto simp: delete_commitment_plaintext_def bind_result_Inr_iff split: if_splits intro!: same_part_put_store)

section \<open>Bookkeeping of an edge\<close>

lemma get_put_edge_meta:
  assumes "put_edge_meta v p m = Inr v'"
  shows "get_edge_meta v' p (em_edge_id m) = Inr m"
proof -
  from assms obtain ps ef where d: "edge_dir v p (em_edge_id m) = Inr (ps, ef)"
    and v': "v' = put_edge_files v p ps (em_edge_id m) (ef\<lparr>ef_meta := Some m\<rparr>)"
    by (auto simp: put_edge_meta_def map_sum_Inr_iff)
  show ?thesis unfolding get_edge_meta_def v' edge_dir_put [OF d] by simp
qed

lemma get_edge_meta_id: "vault_ok cl v \<Longrightarrow> get_edge_meta v p i = Inr m \<Longrightarrow> em_edge_id m = i"
  using vault_ok_files by (fastforce simp: get_edge_meta_def map_sum_Inr_iff files_ok_def split: option.splits)

lemma signs_and_stores_ok:
  assumes "signs_and_stores cfg p e w t now ev s s'" and "vault_ok cl (nd_vault s)" and "chain_room (nd_vault s) p (e_id e)"
  shows "vault_ok cl (nd_vault s')"
proof -
  from assms(1) obtain a n v where a: "append_assertion (nd_vault s) p a = Inr (n, v)" "a_edge_id a = e_id e"
    and s': "s' = s\<lparr>nd_vault := v\<rparr>"
    by (auto elim!: signs_and_stores.cases simp: sign_assertion_Inr)
  then have "vault_step cl p (nd_vault s) v" using assms(3) vault_step.intros(6) by metis
  from store_write_ok [OF vault_step_write [OF this assms(2)] assms(2)] s' show ?thesis by simp
qed

section \<open>Chains\<close>

definition same_chains :: "vault \<Rightarrow> vault \<Rightarrow> bool" where
  "same_chains v v' \<longleftrightarrow> same_part ps_rotations v v' \<and>
     (\<forall>q j. get_edge v' q j = get_edge v q j \<and> get_assertions v' q j = get_assertions v q j)"

lemma same_chains_refl [simp]: "same_chains v v"
  by (simp add: same_chains_def)

lemma same_chains_trans: "same_chains u v \<Longrightarrow> same_chains v w \<Longrightarrow> same_chains u w"
  by (auto simp: same_chains_def intro: same_part_trans)

lemma same_edges_chains:
  assumes "same_part ps_edges v v'"
  shows "get_edge v' q j = get_edge v q j" and "get_assertions v' q j = get_assertions v q j"
    and "get_edge_meta v' q j = get_edge_meta v q j"
proof -
  have p: "map_sum id ps_edges (require_persona v' q) = map_sum id ps_edges (require_persona v q)"
    using assms by (simp add: same_part_def)
  have d: "map_sum id snd (edge_dir u q j) = bind_result (map_sum id ps_edges (require_persona u q))
      (\<lambda>es. bind_result (assert_hex_id j) (\<lambda>_. Inr (case dir_get es j of None \<Rightarrow> no_edge_files | Some ef \<Rightarrow> ef)))" for u
    by (cases "require_persona u q"; cases "hex_id j") (simp_all add: edge_dir_def assert_hex_id_def)
  have s: "map_sum id snd (edge_dir v' q j) = map_sum id snd (edge_dir v q j)" unfolding d p ..
  have r: "map_sum id (\<lambda>(ps, ef). g ef) (edge_dir u q j) = map_sum id g (map_sum id snd (edge_dir u q j))" for g u
    by (cases "edge_dir u q j") (auto split: prod.splits)
  show "get_edge v' q j = get_edge v q j" "get_assertions v' q j = get_assertions v q j"
      "get_edge_meta v' q j = get_edge_meta v q j"
    unfolding get_edge_def get_assertions_def get_edge_meta_def by (simp_all add: r s)
qed

lemma same_chainsI: "same_part ps_edges v v' \<Longrightarrow> same_part ps_rotations v v' \<Longrightarrow> same_chains v v'"
  by (simp add: same_chains_def same_edges_chains)

lemma put_edge_meta_chains: "put_edge_meta v p m = Inr v' \<Longrightarrow> same_chains v v'"
proof -
  assume put: "put_edge_meta v p m = Inr v'"
  then obtain ps ef where d: "edge_dir v p (em_edge_id m) = Inr (ps, ef)"
    and v': "v' = put_edge_files v p ps (em_edge_id m) (ef\<lparr>ef_meta := Some m\<rparr>)"
    by (auto simp: put_edge_meta_def map_sum_Inr_iff)
  have "same_part ps_rotations v v'" by (rule put_edge_meta_parts [OF put]) simp
  moreover have "get_edge v' q j = get_edge v q j \<and> get_assertions v' q j = get_assertions v q j" for q j
    unfolding get_edge_def get_assertions_def v' edge_dir_put [OF d]
    using d by (cases "edge_dir v q j") auto
  ultimately show ?thesis by (simp add: same_chains_def)
qed

lemma beside_chains:
  "put_commitment cl v p c = Inr v' \<Longrightarrow> same_chains v v'"
  "put_expectation v p i x = Inr v' \<Longrightarrow> same_chains v v'"
  "put_outbox cl v item = Inr v' \<Longrightarrow> same_chains v v'"
  "delete_commitment_plaintext v p h = Inr (b, v') \<Longrightarrow> same_chains v v'"
  by (rule same_chainsI; erule put_commitment_parts put_expectation_parts put_outbox_parts delete_plaintext_parts; simp)+

lemma chains_valid_same: "same_chains v v' \<Longrightarrow> chains_valid cl n v' = chains_valid cl n v"
proof -
  assume same: "same_chains v v'"
  then have "verifier_for cl v' p m = verifier_for cl v p m" for p m
    by (intro same_rotations_verifier) (simp add: same_chains_def)
  with same show ?thesis by (simp add: same_chains_def chains_valid_def)
qed

text \<open>The relation between states whose vaults have the same chains.\<close>

interpretation still: op_relation "\<lambda>s t. same_chains (nd_vault s) (nd_vault t)"
  by unfold_locales (auto intro: same_chains_trans)

lemma still_confirm_pending: "still.keeps (confirm_pending cfg p inp)"
  unfolding confirm_pending_def drop_pending_def
proof (intro still.keeps_intros still.keeps_write_local)
  fix x
  show "still.keeps (case pe_candidate x of
      CandCommitment c \<Rightarrow> if cm_owner c \<noteq> p then throw_op M1Violation
        else bind_op (write_vault (\<lambda>v. put_commitment (nc_lib cfg) v p (edit_commitment inp c)))
          (\<lambda>_. bind_op (write_local (\<lambda>l. map_sum id snd (delete_pending l p (cf_id inp))))
            (\<lambda>_. return_op (if cf_decision inp = DecideEdit then Revised else Confirmed)))
    | CandExpectation ex \<Rightarrow> bind_op (write_vault (\<lambda>v. put_expectation v p (pe_id x) ex))
        (\<lambda>_. bind_op (write_local (\<lambda>l. map_sum id snd (delete_pending l p (cf_id inp)))) (\<lambda>_. return_op Confirmed)))"
    by (cases "pe_candidate x")
      (auto intro!: still.keeps_intros still.keeps_write still.keeps_write_local dest: beside_chains)
qed simp

lemma still_dismissal:
  "still.keeps (set_dismissed p i b)"
  "still.keeps (if em_dismissed m then write_vault (\<lambda>v. put_edge_meta v p m') else return_op ())"
  unfolding set_dismissed_def
  by (intro still.keeps_intros still.keeps_write; simp add: put_edge_meta_chains)+

lemma read_vault_Inl: "read_vault f s = (Inl e, s') \<longleftrightarrow> s' = s \<and> (\<exists>x. f (nd_vault s) = Inl x \<and> e = VaultFailure x)"
  by (cases "f (nd_vault s)") (auto simp: read_vault_def)

text \<open>A confirmation signs at most one assertion, whatever it returns.\<close>

lemma record_confirmation_cases:
  assumes "record_confirmation cfg clk p e s = (r, s')"
  shows "s' = s \<or>
    (\<exists>s1. signs_and_stores cfg p e AConfirmed (clk 0) (clk 1) None s s1 \<and> same_chains (nd_vault s1) (nd_vault s'))"
proof -
  let ?tail = "bind_op (read_vault (\<lambda>v. get_edge_meta v p (e_id e))) (\<lambda>m.
      bind_op (if em_dismissed m then write_vault (\<lambda>v. put_edge_meta v p (m\<lparr>em_dismissed := False\<rparr>)) else return_op ())
        (\<lambda>_. return_op Confirmed))"
  have tail: "still.keeps ?tail" by (intro still.keeps_intros still_dismissal)
  let ?sign = "sign_assertion cfg p (e_id e) AConfirmed (clk 0) None"
  consider "s' = s"
    | a s1 s2 s3 where "?sign s = (Inr a, s1)" "verdict_on cfg p e (clk 1) a s1 = (Inr (Some None), s2)"
      "store_assertion p a s2 = (Inr (), s3)" "?tail s3 = (r, s')"
  proof (cases "?sign s")
    case (Pair ra s1)
    show thesis
    proof (cases ra)
      case (Inl x)
      with Pair assms quiet_sign [OF Pair] show thesis by (intro that(1)) (auto simp: record_confirmation_def bind_op_def)
    next
      case (Inr a)
      note sign = Pair [unfolded Inr]
      obtain rv s2 where v: "verdict_on cfg p e (clk 1) a s1 = (rv, s2)" by fastforce
      have s12: "s1 = s" "s2 = s" using quiet_sign [OF sign] quiet_verdict [OF v] by simp_all
      show thesis
      proof (cases "rv = Inr (Some None)")
        case False
        with sign v s12 assms show thesis
          by (intro that(1)) (auto simp: record_confirmation_def bind_op_def split: sum.splits if_splits)
      next
        case True
        obtain rs s3 where st: "store_assertion p a s2 = (rs, s3)" by fastforce
        show thesis
        proof (cases rs)
          case (Inl x)
          with sign v True st s12 assms quiet_store [of p a s2 x s3] show thesis
            by (intro that(1)) (auto simp: record_confirmation_def bind_op_def)
        next
          case (Inr u)
          with sign v True st assms show thesis
            by (intro that(2)) (auto simp: record_confirmation_def bind_op_def)
        qed
      qed
    qed
  qed
  then show ?thesis
  proof cases
    case 2
    from quiet_sign [OF 2(1)] quiet_verdict [OF 2(2)] have "s1 = s" "s2 = s" by simp_all
    with 2 have "signs_and_stores cfg p e AConfirmed (clk 0) (clk 1) None s s3"
      by (auto simp: store_assertion_Inr intro: signs_and_stores.intros)
    with still.keepsD [OF tail 2(4)] show ?thesis by blast
  qed simp
qed

lemma confirm_edge_cases:
  assumes "confirm_edge cfg clk p inp s = (r, s')"
  shows "same_chains (nd_vault s) (nd_vault s') \<or>
    (\<exists>e s1. get_edge (nd_vault s) p (cf_id inp) = Inr (Some e) \<and>
      signs_and_stores cfg p e AConfirmed (clk 0) (clk 1) None s s1 \<and> same_chains (nd_vault s1) (nd_vault s'))"
proof -
  have still: "still.keeps (bind_op (set_dismissed p (cf_id inp) True) (\<lambda>_. return_op Dismissed))"
    by (intro still.keeps_intros still_dismissal)
  from assms consider "s' = s" | "bind_op (set_dismissed p (cf_id inp) True) (\<lambda>_. return_op Dismissed) s = (r, s')"
    | e where "get_edge (nd_vault s) p (cf_id inp) = Inr (Some e)" "record_confirmation cfg clk p e s = (r, s')"
    unfolding confirm_edge_def bind_op_eq [of "read_vault f" for f] bind_op_eq [of "require_some x y" for x y]
    by (auto simp: read_vault_Inl read_vault_Inr require_some_Inr dest: quiet_require split: if_split_asm)
  then show ?thesis
    by cases (auto dest: still.keepsD [OF still] record_confirmation_cases)
qed

section \<open>Everything but the chains\<close>

text \<open>A vault without its chains: everything but the assertion files.\<close>

definition sans_chains :: "vault \<Rightarrow> vault" where
  "sans_chains v = v\<lparr>vt_personas := map (map_prod id (\<lambda>ps. ps\<lparr>ps_edges := map (map_prod id (ef_assertions_update (\<lambda>_. []))) (ps_edges ps)\<rparr>))
     (vt_personas v)\<rparr>"

lemma map_dir_put_same:
  "dir_ok d \<Longrightarrow> dir_get d k = Some x \<Longrightarrow> f y = f x \<Longrightarrow> map (map_prod id f) (dir_put k y d) = map (map_prod id f) d"
  by (induction k y d rule: dir_put.induct) (force simp: dir_get_def dir_ok_Cons split: if_splits dest!: map_of_SomeD)+

lemma append_sans_chains:
  assumes "append_assertion v p a = Inr (n, v')" and "vault_ok cl v" and "get_edge v p (a_edge_id a) = Inr (Some e)"
  shows "sans_chains v' = sans_chains v"
proof -
  let ?i = "a_edge_id a"
  from assms(1) obtain ps ef where d: "edge_dir v p ?i = Inr (ps, ef)"
    and v': "v' = put_edge_files v p ps ?i (ef\<lparr>ef_assertions := dir_put (pad4 n) a (ef_assertions ef)\<rparr>)"
    by (auto simp: append_assertion_def bind_result_Inr_iff Let_def split: if_splits)
  have ps: "dir_get (vt_personas v) p = Some ps"
    using d by (simp add: edge_dir_Inr require_persona_Inr)
  have ef: "dir_get (ps_edges ps) ?i = Some ef"
  proof (cases "dir_get (ps_edges ps) ?i")
    case None
    with d have "ef = no_edge_files" by (simp add: edge_dir_Inr)
    with d assms(3) show ?thesis by (simp add: get_edge_def no_edge_files_def)
  qed (use d in \<open>simp add: edge_dir_Inr\<close>)
  have oks: "dir_ok (vt_personas v)" "dir_ok (ps_edges ps)"
    using assms(2) ps by (auto simp: vault_ok_def store_ok_def)
  show ?thesis
    unfolding sans_chains_def v' put_edge_files_def put_store_def
    by (simp add: map_dir_put_same [OF oks(1) ps] map_dir_put_same [OF oks(2) ef])
qed

lemma signs_and_stores_sans_chains:
  assumes "signs_and_stores cfg p e w t now ev s s'" and "vault_ok cl (nd_vault s)"
    and "get_edge (nd_vault s) p (e_id e) = Inr (Some e)"
  shows "s'\<lparr>nd_vault := sans_chains (nd_vault s')\<rparr> = s\<lparr>nd_vault := sans_chains (nd_vault s)\<rparr>"
proof -
  from assms(1) obtain a n v where a: "append_assertion (nd_vault s) p a = Inr (n, v)" "a_edge_id a = e_id e"
    and s': "s' = s\<lparr>nd_vault := v\<rparr>"
    by (auto elim!: signs_and_stores.cases simp: sign_assertion_Inr)
  have "sans_chains v = sans_chains (nd_vault s)"
    by (rule append_sans_chains [OF a(1) assms(2)]) (simp add: a(2) assms(3))
  with s' show ?thesis by simp
qed

lemma store_sans_chains:
  assumes "store_assertion p a s = (Inr u, t)" and "vault_ok cl (nd_vault s)" and "get_edge (nd_vault s) p (a_edge_id a) = Inr (Some e)"
  shows "sans_chains (nd_vault t) = sans_chains (nd_vault s)"
  using assms append_sans_chains by (auto simp: store_assertion_Inr)

end
