(* ===== verification/ActLaws.thy ===== *)
theory ActLaws
  imports Register Frames
begin

text \<open>
  The two surfaces of the node together: the reads write nothing, and an act that \<^verbatim>\<open>open_loops\<close>
  advertises is one that \<^verbatim>\<open>act\<close> then accepts.
\<close>

section \<open>The reads only read\<close>

context op_relation begin

lemma keeps_collect: "(\<And>x. keeps (f x)) \<Longrightarrow> keeps (collect_op f xs)"
  by (induction xs) (auto intro!: keeps_intros)

lemma keeps_first: "(\<And>x. keeps (f x)) \<Longrightarrow> keeps (first_op f xs)"
  by (induction xs) (auto intro!: keeps_intros)

lemmas keeps_loops = keeps_collect keeps_first

lemma keeps_continuity: "keeps (continuity_level cfg p c)"
  unfolding continuity_level_def continuity_at_def by (intro keeps_intros keeps_loops keeps_edge_state)

lemma keeps_level: "keeps (verification_level cfg now p c)"
  unfolding verification_level_def by (intro keeps_intros keeps_continuity)

lemma keeps_headline: "keeps (headline_of p i e)"
  unfolding headline_of_def missing_plaintext_def by (intro keeps_intros)

lemma keeps_window: "keeps (acceptance_window_elapsed p e now)"
  unfolding acceptance_window_elapsed_def by (intro keeps_intros)

lemma keeps_edge_actions: "keeps (edge_actions p i e st now)"
  unfolding edge_actions_def by (intro keeps_intros keeps_window)

lemma keeps_edge_item: "keeps (edge_item cfg wall p vw now i)"
  unfolding edge_item_def Let_def
  by (intro keeps_intros keeps_edge_state keeps_headline keeps_level keeps_edge_actions)

lemma keeps_edge_commitment: "keeps (edge_commitment_of p i)"
  unfolding edge_commitment_of_def by (intro keeps_intros)

lemma keeps_other_items:
  "keeps (commitment_item cfg wall p vw now hs hc)" "keeps (pending_item cfg wall p now x)"
  "keeps (expectation_item cfg wall p vw now ix)"
  unfolding commitment_item_def pending_item_def expectation_item_def Let_def
  by (intro keeps_intros keeps_level)+

lemma keeps_items: "keeps (items_for cfg wall p vw now)"
  unfolding items_for_def
  by (intro keeps_intros keeps_loops keeps_edge_item keeps_edge_commitment keeps_other_items)

lemma keeps_open_loops: "keeps (open_loops cfg wall call)"
  unfolding open_loops_def by (intro keeps_intros keeps_items keeps_resolve)

lemma keeps_slot: "keeps (slot_for cfg wall k)"
  unfolding slot_for_def Let_def
  by (cases "ok_kind k") (auto intro!: keeps_intros keeps_edge_state keeps_headline keeps_edge_actions)

lemma keeps_unsuperseded: "keeps (unsuperseded k)"
  unfolding unsuperseded_def by (intro keeps_intros keeps_loops keeps_edge_commitment)

lemma keeps_brief: "keeps (brief cfg wall persona)"
  unfolding brief_def Let_def
  by (intro keeps_intros keeps_loops keeps_unsuperseded keeps_slot keeps_resolve)

end

section \<open>Members of a loop's result\<close>

lemma collect_op_set:
  assumes "\<And>x. quiet.keeps (f x)"
  shows "collect_op f xs s = (Inr ys, s') \<Longrightarrow> s' = s \<and> (\<forall>y \<in> set ys. \<exists>x \<in> set xs. f x s = (Inr (Some y), s))"
proof (induction xs arbitrary: ys s')
  case Nil
  then show ?case by simp
next
  case (Cons x xs)
  from Cons.prems obtain z zs s1 s2 where z: "f x s = (Inr z, s1)" and zs: "collect_op f xs s1 = (Inr zs, s2)"
    and ys: "ys = (case z of None \<Rightarrow> zs | Some u \<Rightarrow> u # zs)" "s' = s2"
    by (auto simp: bind_op_Inr)
  have "s1 = s" using quiet.keepsD [OF assms z] by simp
  with Cons.IH [of zs s2] z zs ys show ?case by (auto split: option.splits)
qed

section \<open>One closing while acceptance is pending\<close>

definition closes :: "assertion list \<Rightarrow> assertion list" where
  "closes H = filter (\<lambda>a. a_state a = AClosed) H"

definition one_close :: "assertion list \<Rightarrow> chain_state \<Rightarrow> bool" where
  "one_close H c \<longleftrightarrow>
     (c_state c \<in> {SNone, SProposed, SOpen} \<longrightarrow> closes H = []) \<and>
     (c_state c = SPendingAcceptance \<longrightarrow> (\<exists>b. closes H = [b] \<and> c_window_opened_at c = Some (a_asserted_at b)))"

lemma one_close_row:
  "row_step v e own owed c a c' \<Longrightarrow> one_close H c \<Longrightarrow> one_close (H @ [a]) c'"
  by (induction rule: row_step.induct) (auto simp: one_close_def closes_def settle_def take_exit_def)

lemma one_close_contested:
  "contested_step v c a c' \<Longrightarrow> one_close H c \<Longrightarrow> c_state c = SContestedClosure \<Longrightarrow> one_close (H @ [a]) c'"
  by (induction rule: contested_step.induct) (auto simp: one_close_def closes_def settle_def)

lemma reach_one_close: "reach v e H c \<Longrightarrow> one_close H c"
proof (erule reach_invariant_steps [where I = one_close])
  show "one_close [] initial_chain" by (simp add: one_close_def closes_def initial_chain_def)
qed (erule one_close_row one_close_contested; simp | simp add: one_close_def contest_state_def settle_def)+

lemma found_close:
  assumes "find (\<lambda>a. a_state a = AClosed \<and> P a) H = Some b" and "closes H = [b']"
  shows "b = b'"
proof -
  from assms(1) have "b \<in> set H" "a_state b = AClosed" by (auto simp: find_Some_iff)
  then have "b \<in> set (closes H)" by (simp add: closes_def)
  with assms(2) show ?thesis by simp
qed

text \<open>A flag the register shows is right at every later instant.\<close>

lemma window_flag_right:
  assumes "acceptance_window_elapsed p e now s = (Inr True, s')"
    and "get_assertions (nd_vault s) p (e_id e) = Inr H" and "reach v e H c" and "c_state c = SPendingAcceptance"
    and "now \<le> ms_of t"
  shows "\<exists>t0. c_window_opened_at c = Some t0 \<and> window_elapsed e t0 t"
proof -
  from assms(1,2) obtain w b u where w: "e_acceptance_window e = Some w"
    and b: "find (\<lambda>a. a_state a = AClosed \<and> a_by a = e_owner e) H = Some b"
    and u: "add_duration (ms_of (a_asserted_at b)) w = Some u" "u \<le> now"
    by (auto simp: acceptance_window_elapsed_def op_returns split: if_splits option.splits)
  from reach_one_close [OF assms(3)] assms(4) obtain b' where b': "closes H = [b']"
      "c_window_opened_at c = Some (a_asserted_at b')"
    by (auto simp: one_close_def)
  with found_close [OF b b'(1)] w u assms(5) show ?thesis by (simp add: window_elapsed_def)
qed

lemma dispute_flag_right:
  assumes "dispute_window_elapsed st now" and "cv_deadlocked_since st = deadlocked_since c" and "now \<le> ms_of t"
  shows "\<exists>t0. deadlocked_since c = Some t0 \<and> \<not> before_dispute_window_end t0 t"
  using assms by (auto simp: dispute_window_elapsed_def before_dispute_window_end_def split: option.splits)

lemma due_flag_right: "due_elapsed e now \<Longrightarrow> now \<le> ms_of t \<Longrightarrow> \<exists>due. e_due e = Some due \<and> ms_of due \<le> ms_of t"
  by (auto simp: due_elapsed_def split: option.splits)

section \<open>A stored chain that is accepted whole\<close>

lemma reach_unique: "reach v e H c \<Longrightarrow> reach v e H c' \<Longrightarrow> c' = c"
proof (induction arbitrary: c' rule: reach.induct)
  case start
  then show ?case by (auto elim: reach.cases)
next
  case (accept H c a d)
  from accept.prems obtain c1 where "reach v e H c1" "admit v e c1 a = Inr c'"
    by (cases rule: reach.cases) auto
  with accept.IH accept.hyps(2) show ?case by auto
qed

lemma accepted_all: "set os \<subseteq> {None} \<Longrightarrow> length os = length as \<Longrightarrow> accepted os as = as"
  by (induction os as rule: list_induct2') auto

lemma all_accepted_reach:
  assumes "table.all_accepted vr e as" and "edge_malformed (v_lib vr) e = None"
  obtains c where "reach vr e as c" and "\<And>m. clock_le (v_now vr) m \<Longrightarrow>
      verify_assertion_chain (vr\<lparr>v_now := m\<rparr>) e as =
        \<lparr>cv_outcomes = replicate (length as) None, cv_final_state = c_state c, cv_resolved_at = c_resolved_at c,
         cv_unverifiable = \<not> collective_decomposition_valid e, cv_deadlocked_since = deadlocked_since c\<rparr>"
    and "\<And>a. table.accepts vr e as a \<longleftrightarrow> (\<exists>c'. admit vr e c a = Inr c')"
proof -
  obtain os c where r: "run_chain vr e initial_chain as = (os, c)" by fastforce
  have len: "length os = length as" using run_chain_length [of vr e initial_chain as] r by simp
  have os: "set os \<subseteq> {None}"
    using assms r by (simp add: table.all_accepted_def verify_assertion_chain_def)
  then have rep: "os = replicate (length as) None"
    using len by (metis replicate_length_same singletonD subsetD)
  have "reach vr e as c"
    using run_chain_reach [OF r reach.start] accepted_all [OF os len] by simp
  moreover have "verify_assertion_chain (vr\<lparr>v_now := m\<rparr>) e as =
        \<lparr>cv_outcomes = replicate (length as) None, cv_final_state = c_state c, cv_resolved_at = c_resolved_at c,
         cv_unverifiable = \<not> collective_decomposition_valid e, cv_deadlocked_since = deadlocked_since c\<rparr>"
    if "clock_le (v_now vr) m" for m
    using run_chain_later [OF r os that] assms(2) rep by (simp add: verify_assertion_chain_def)
  moreover have "table.accepts vr e as a \<longleftrightarrow> (\<exists>c'. admit vr e c a = Inr c')" for a
    using r assms(2)
    by (auto simp: table.accepts_def verify_assertion_chain_def run_chain_append split: sum.splits)
  ultimately show ?thesis by (rule that)
qed

lemma accepts_well_formed: "table.accepts vr e as a \<Longrightarrow> edge_malformed (v_lib vr) e = None"
  by (cases "edge_malformed (v_lib vr) e") (auto simp: table.accepts_def verify_assertion_chain_def)

lemma accepts_admit:
  assumes "table.all_accepted vr e as" and "table.accepts vr e as a"
  obtains c c' where "reach vr e as c" and "admit vr e c a = Inr c'" and "reach vr e (as @ [a]) c'"
    and "\<And>m. clock_le (v_now vr) m \<Longrightarrow>
      cv_final_state (verify_assertion_chain (vr\<lparr>v_now := m\<rparr>) e (as @ [a])) = c_state c'"
proof -
  note wf = accepts_well_formed [OF assms(2)]
  obtain c where c: "reach vr e as c" "\<exists>c'. admit vr e c a = Inr c'"
    by (rule all_accepted_reach [OF assms(1) wf]) (use assms(2) in blast)
  then obtain c' where c': "admit vr e c a = Inr c'" by blast
  have "table.all_accepted vr e (as @ [a])" using assms by (simp add: table.all_accepted_snoc)
  then obtain d where d: "reach vr e (as @ [a]) d" and st: "\<And>m. clock_le (v_now vr) m \<Longrightarrow>
      cv_final_state (verify_assertion_chain (vr\<lparr>v_now := m\<rparr>) e (as @ [a])) = c_state d"
    by (rule all_accepted_reach [OF _ wf]) simp
  have "reach vr e (as @ [a]) c'" using reach.accept [OF c(1) c'] .
  with reach_unique [OF this d] c(1) c' st show ?thesis by (intro that [of c c']) simp_all
qed

section \<open>An act that is ready to be signed\<close>

lemma sign_assertion_ok:
  assumes "get_persona (nd_vault s) p = Inr r" and "signs_for (nc_lib cfg) (pr_private_key r) p"
  obtains a where "sign_assertion cfg p i w t ev s = (Inr a, s)" and "assertion_signature_ok (nc_lib cfg) a"
    and "a_edge_id a = i" "a_state a = w" "a_asserted_at a = t" "a_by a = p" "a_evidence_hash a = ev"
proof -
  let ?a = "\<lparr>a_edge_id = i, a_state = w, a_asserted_at = t, a_by = p, a_evidence_hash = ev, a_sig = []\<rparr>"
  have "canonical_bytes (JObj (unsigned_object (unsigned_assertion_members ?a))) \<noteq> None"
    by (rule assertion_canonical)
  with assms(2) have "sign_object (nc_lib cfg) (unsigned_assertion_members ?a) (pr_private_key r) \<noteq> None"
    by (auto simp: sign_object_def signing_preimage_def signs_for_def) (metis option.distinct(1))
  then obtain sg where sg: "sign_object (nc_lib cfg) (unsigned_assertion_members ?a) (pr_private_key r) = Some sg"
    by blast
  have "sign_assertion cfg p i w t ev s = (Inr (?a\<lparr>a_sig := sg\<rparr>), s)"
    using assms(1) sg by (simp add: sign_assertion_def private_key_of_def bind_op_def read_vault_def return_op_def Let_def)
  moreover have "assertion_signature_ok (nc_lib cfg) (?a\<lparr>a_sig := sg\<rparr>)"
    using signed_assertion_ok [of "nc_lib cfg" "pr_private_key r" ?a sg] assms(2) sg by simp
  ultimately show ?thesis by (rule that) simp_all
qed

text \<open>
  What an act needs beside its being legal: the persona's key, a stored chain accepted at the instant of the
  act, with room and with no assertion at or after it, and a key not superseded by then.
\<close>

definition can_sign ::
    "node_config \<Rightarrow> (nat \<Rightarrow> rfc3339) \<Rightarrow> node \<Rightarrow> persona_id \<Rightarrow> edge \<Rightarrow> assertion list \<Rightarrow> verifier \<Rightarrow> bool" where
  "can_sign cfg clk s p e as vr \<longleftrightarrow>
     (\<exists>r. get_persona (nd_vault s) p = Inr r \<and> signs_for (nc_lib cfg) (pr_private_key r) p) \<and>
     get_edge (nd_vault s) p (e_id e) = Inr (Some e) \<and> get_assertions (nd_vault s) p (e_id e) = Inr as \<and>
     verifier_for (nc_lib cfg) (nd_vault s) p (Some (ms_of (clk 1))) = Inr vr \<and> table.all_accepted vr e as \<and>
     chain_room (nd_vault s) p (e_id e) \<and>
     (\<forall>b \<in> set as. ms_of (a_asserted_at b) < ms_of (clk 0)) \<and> ms_of (clk 0) \<le> ms_of (clk 1) \<and>
     held_by (v_lineage vr p) p (clk 0)"

lemma store_assertion_ok:
  assumes "vault_ok cl (nd_vault s)" and "chain_room (nd_vault s) p (a_edge_id a)"
    and "get_assertions (nd_vault s) p (a_edge_id a) = Inr as"
  obtains s' where "store_assertion p a s = (Inr (), s')"
proof -
  from assms(3) obtain ps ef where "edge_dir (nd_vault s) p (a_edge_id a) = Inr (ps, ef)"
    by (auto simp: get_assertions_def map_sum_Inr_iff)
  from append_assertion_ok [OF assms(1,2) this] obtain n v where "append_assertion (nd_vault s) p a = Inr (n, v)"
    by blast
  then have "store_assertion p a s = (Inr (), s\<lparr>nd_vault := v\<rparr>)" by (simp add: store_assertion_Inr)
  then show ?thesis by (rule that)
qed

lemma act_op_accepts:
  assumes "vault_ok cl (nd_vault s)" and "locate cfg (ac_id inp) s = (Inr (Some (p, k)), s)"
    and "ac_id inp = e_id e" and "act_refused p e inp = None" and "can_sign cfg clk s p e as vr"
    and "edge_malformed (nc_lib cfg) e = None"
    and "\<And>c. reach vr e as c \<Longrightarrow> \<not> (ac_act inp = ActDone \<and> c_state c \<in> {SDisputed, SContestedClosure})"
    and "\<And>c a. reach vr e as c \<Longrightarrow> a_edge_id a = e_id e \<Longrightarrow> a_state a = asserted_by_act (ac_act inp) \<Longrightarrow>
      a_asserted_at a = clk 0 \<Longrightarrow> a_by a = p \<Longrightarrow> a_evidence_hash a = ac_evidence inp \<Longrightarrow>
      assertion_signature_ok (v_lib vr) a \<Longrightarrow> \<exists>c'. admit vr e c a = Inr c'"
  shows "\<exists>s'. act_op cfg clk inp s = (Inr (Inr (asserted_by_act (ac_act inp))), s')"
proof -
  let ?w = "asserted_by_act (ac_act inp)"
  from assms(5) obtain r where r: "get_persona (nd_vault s) p = Inr r" "signs_for (nc_lib cfg) (pr_private_key r) p"
    and e: "get_edge (nd_vault s) p (e_id e) = Inr (Some e)" and as: "get_assertions (nd_vault s) p (e_id e) = Inr as"
    and vr: "verifier_for (nc_lib cfg) (nd_vault s) p (Some (ms_of (clk 1))) = Inr vr" "table.all_accepted vr e as"
    and room: "chain_room (nd_vault s) p (e_id e)"
    by (auto simp: can_sign_def)
  note vr_fields = verifier_for_clock [OF vr(1), of None]
  have lib: "v_lib vr = nc_lib cfg" and now: "v_now vr = Some (ms_of (clk 1))"
    and v0: "verifier_for (nc_lib cfg) (nd_vault s) p None = Inr (vr\<lparr>v_now := None\<rparr>)" using vr_fields by auto
  obtain c where c: "reach vr e as c"
    and st: "\<And>m. clock_le (v_now vr) m \<Longrightarrow> cv_final_state (verify_assertion_chain (vr\<lparr>v_now := m\<rparr>) e as) = c_state c"
    and acc: "\<And>a. table.accepts vr e as a \<longleftrightarrow> (\<exists>c'. admit vr e c a = Inr c')"
    using all_accepted_reach [OF vr(2)] assms(6) lib by (metis chain_verification.select_convs(2))
  obtain a where a: "sign_assertion cfg p (e_id e) ?w (clk 0) (ac_evidence inp) s = (Inr a, s)"
      "assertion_signature_ok (nc_lib cfg) a" "a_edge_id a = e_id e" "a_state a = ?w" "a_asserted_at a = clk 0"
      "a_by a = p" "a_evidence_hash a = ac_evidence inp"
    using sign_assertion_ok [OF r] by metis
  have "table.accepts vr e as a" using acc assms(8) [OF c a(3,4,5,6,7)] a(2) lib by simp
  moreover have "cv_outcomes (verify_assertion_chain vr e (as @ [a])) \<noteq> []"
    using table.outcomes_length [of vr e "as @ [a]"] by auto
  ultimately have verdict: "verdict_on cfg p e (clk 1) a s = (Inr (Some None), s)"
    using as vr(1) by (auto simp: verdict_on_Inr table.accepts_def last_opt_def)
  have state: "edge_state cfg p (e_id e) s = (Inr (verify_assertion_chain (vr\<lparr>v_now := None\<rparr>) e as), s)"
    using e as v0 by (simp add: edge_state_def bind_op_def read_vault_def require_some_def return_op_def)
  have "cv_final_state (verify_assertion_chain (vr\<lparr>v_now := None\<rparr>) e as) = c_state c"
    by (rule st) (simp add: clock_le_def)
  with assms(7) [OF c] have not_deadlocked:
    "\<not> (ac_act inp = ActDone \<and> cv_final_state (verify_assertion_chain (vr\<lparr>v_now := None\<rparr>) e as) \<in> {SDisputed, SContestedClosure})"
    by simp
  obtain s' where "store_assertion p a s = (Inr (), s')"
    using store_assertion_ok [OF assms(1)] room as a(3) by metis
  with assms(2-4) e state not_deadlocked a(1) verdict
  have "act_op cfg clk inp s = (Inr (Inr ?w), s')"
    by (simp add: act_op_def bind_op_def read_vault_def require_some_def return_op_def)
  then show ?thesis by blast
qed

section \<open>A proposal that is ready to be confirmed\<close>

lemma edge_dir_meta:
  "edge_dir v p i = Inr d \<Longrightarrow> (\<exists>m. get_edge_meta v p i = Inr m) \<and>
     (\<forall>m. em_edge_id m = i \<longrightarrow> (\<exists>v'. put_edge_meta v p m = Inr v'))"
  by (simp add: get_edge_meta_def put_edge_meta_def)

lemma admit_confirmation:
  assumes "reach vr e as c" and "c_state c = SProposed" and "is_owed_to_key vr e a"
    and "a_edge_id a = e_id e" and "a_state a = AConfirmed" and "assertion_signature_ok (v_lib vr) a"
    and "\<not> dated_in_the_future (v_now vr) (a_asserted_at a)"
    and "\<forall>b \<in> set as. ms_of (a_asserted_at b) < ms_of (a_asserted_at a)"
  shows "\<exists>c'. admit vr e c a = Inr c'"
  by (rule advertised_admitted [OF assms(1), where role = RoleOwedTo and win = False and dispute_win = False and due_past = False
        and i = "bind_act ActConfirm (decision_args (e_id e) ''confirm'')"])
    (use assms in \<open>simp_all add: actions_for_def bind_act_def flags_right_def signed_now_def\<close>)

lemma record_confirmation_ok:
  assumes "vault_ok cl (nd_vault s)" and "e_owed_to e = p" and "can_sign cfg clk s p e as vr"
    and "edge_malformed (nc_lib cfg) e = None"
    and "cv_final_state (verify_assertion_chain (vr\<lparr>v_now := None\<rparr>) e as) = SProposed"
  shows "\<exists>s'. record_confirmation cfg clk p e s = (Inr Confirmed, s')"
proof -
  from assms(3) obtain r where r: "get_persona (nd_vault s) p = Inr r" "signs_for (nc_lib cfg) (pr_private_key r) p"
    and as: "get_assertions (nd_vault s) p (e_id e) = Inr as"
    and vr: "verifier_for (nc_lib cfg) (nd_vault s) p (Some (ms_of (clk 1))) = Inr vr" "table.all_accepted vr e as"
    and room: "chain_room (nd_vault s) p (e_id e)" and times: "\<forall>b \<in> set as. ms_of (a_asserted_at b) < ms_of (clk 0)"
      "ms_of (clk 0) \<le> ms_of (clk 1)" and held: "held_by (v_lineage vr p) p (clk 0)"
    by (auto simp: can_sign_def)
  have lib: "v_lib vr = nc_lib cfg" and now: "v_now vr = Some (ms_of (clk 1))" using verifier_for_clock [OF vr(1)] by auto
  obtain a where a: "sign_assertion cfg p (e_id e) AConfirmed (clk 0) None s = (Inr a, s)"
      "assertion_signature_ok (nc_lib cfg) a" "a_edge_id a = e_id e" "a_state a = AConfirmed" "a_asserted_at a = clk 0" "a_by a = p"
    using sign_assertion_ok [OF r] by metis
  obtain c where c: "reach vr e as c" "c_state c = SProposed" and acc: "table.accepts vr e as a \<longleftrightarrow> (\<exists>c'. admit vr e c a = Inr c')"
    by (rule all_accepted_reach [OF vr(2)]) (use assms(4,5) lib in \<open>simp_all add: clock_le_def\<close>)
  have "\<exists>c'. admit vr e c a = Inr c'"
    by (rule admit_confirmation [OF c])
      (use a times held assms(2) lib now in \<open>simp_all add: is_owed_to_key_def dated_in_the_future_def expiry_skew_ms_def\<close>)
  with acc have "table.accepts vr e as a" by simp
  moreover have "cv_outcomes (verify_assertion_chain vr e (as @ [a])) \<noteq> []"
    using table.outcomes_length [of vr e "as @ [a]"] by auto
  ultimately have verdict: "verdict_on cfg p e (clk 1) a s = (Inr (Some None), s)"
    using as vr(1) by (auto simp: verdict_on_Inr table.accepts_def last_opt_def)
  obtain s1 where s1: "store_assertion p a s = (Inr (), s1)"
    using store_assertion_ok [OF assms(1)] room as a(3) by metis
  then obtain n v where v: "append_assertion (nd_vault s) p a = Inr (n, v)" "s1 = s\<lparr>nd_vault := v\<rparr>"
    by (auto simp: store_assertion_Inr)
  have ok1: "vault_ok cl (nd_vault s1)"
    using signs_and_stores_ok [OF signs_and_stores.intros [OF a(1) verdict v(1)] assms(1) room] v(2) by simp
  have "get_assertions (nd_vault s1) p (e_id e) = Inr (as @ [a])"
    using get_assertions_append [OF assms(1) _ v(1)] room a(3) as v(2) by simp
  then obtain d where d: "edge_dir (nd_vault s1) p (e_id e) = Inr d" by (auto simp: get_assertions_def map_sum_Inr_iff)
  from edge_dir_meta [OF d] obtain m where m: "get_edge_meta (nd_vault s1) p (e_id e) = Inr m" by blast
  from edge_dir_meta [OF d] get_edge_meta_id [OF ok1 m]
  obtain v' where "put_edge_meta (nd_vault s1) p (m\<lparr>em_dismissed := False\<rparr>) = Inr v'" by fastforce
  with a(1) verdict s1 m show ?thesis
    by (simp add: record_confirmation_def bind_op_def read_vault_def write_vault_def return_op_def)
qed

section \<open>What the register lists\<close>

lemma edge_item_Some:
  assumes "edge_item cfg wall p vw now i s = (Inr (Some it), s')"
  obtains e st win m where "s' = s" "get_edge (nd_vault s) p i = Inr (Some e)" "edge_state cfg p i s = (Inr st, s)"
    and "acceptance_window_elapsed p e now s = (Inr win, s)" "li_id it = i" "li_kind it = KeyEdge"
    and "li_state it = EdgeIn (cv_final_state st)" "edge_in_view vw (e_owner e = p) (cv_final_state st)"
    and "get_edge_meta (nd_vault s) p i = Inr m" "\<not> em_dismissed m"
    and "li_actions it = actions_for (cv_final_state st) (viewer_of p e) i win (dispute_window_elapsed st now) (due_elapsed e now)"
proof -
  have q: "quiet.keeps (edge_state cfg p i)" "\<And>e. quiet.keeps (headline_of p i e)"
    "\<And>c. quiet.keeps (verification_level cfg wall p c)" "\<And>e. quiet.keeps (acceptance_window_elapsed p e now)"
    by (rule quiet.keeps_edge_state quiet.keeps_headline quiet.keeps_level quiet.keeps_window)+
  from assms obtain e m st s1 words s2 level s3 win where
    e: "get_edge (nd_vault s) p i = Inr (Some e)" and m: "get_edge_meta (nd_vault s) p i = Inr m" "\<not> em_dismissed m"
    and st: "edge_state cfg p i s = (Inr st, s1)" and vw: "edge_in_view vw (e_owner e = p) (cv_final_state st)"
    and w: "headline_of p i e s1 = (Inr words, s2)"
    and l: "verification_level cfg wall p (Some (if e_owner e = p then e_owed_to e else e_owner e)) s2 = (Inr level, s3)"
    and win: "acceptance_window_elapsed p e now s3 = (Inr win, s')"
    and it: "it = \<lparr>li_kind = KeyEdge, li_id = i, li_text = words,
        li_counterparty = counterparty_of (Some (if e_owner e = p then e_owed_to e else e_owner e)),
        li_level = level, li_age_days = age_days_of (e_proposed_at e) now, li_due = e_due e,
        li_state = EdgeIn (cv_final_state st),
        li_actions = actions_for (cv_final_state st) (viewer_of p e) i win (dispute_window_elapsed st now) (due_elapsed e now)\<rparr>"
    by (auto simp: edge_item_def edge_actions_def op_returns Let_def split: option.split_asm if_split_asm)
  from quiet.keepsD [OF q(1) st] quiet.keepsD [OF q(2) w] quiet.keepsD [OF q(3) l] quiet.keepsD [OF q(4) win]
  have "s1 = s \<and> s2 = s \<and> s3 = s \<and> s' = s" by simp
  with e m st vw win it show ?thesis by (intro that [of e st win m]) simp_all
qed

lemma other_item_kinds:
  "commitment_item cfg wall p vw now hs hc s = (Inr (Some it), s') \<Longrightarrow> li_kind it \<noteq> KeyEdge"
  "pending_item cfg wall p now x s = (Inr (Some it), s') \<Longrightarrow> li_kind it \<noteq> KeyEdge"
  "expectation_item cfg wall p vw now ix s = (Inr (Some it), s') \<Longrightarrow> li_kind it \<noteq> KeyEdge"
  by (cases hc; auto simp: commitment_item_def op_returns split: if_split_asm)
    (cases ix; auto simp: expectation_item_def pending_item_def op_returns Let_def split: if_split_asm prod.split_asm)+

lemma items_for_edge:
  assumes "items_for cfg wall p vw now s = (Inr its, s')" and "it \<in> set its" and "li_kind it = KeyEdge"
  shows "\<exists>i. edge_item cfg wall p vw now i s = (Inr (Some it), s)"
proof -
  note q = quiet.keeps_edge_item [of cfg wall p vw now] quiet.keeps_edge_commitment [of p]
    quiet.keeps_other_items(1) [of cfg wall p vw now] quiet.keeps_other_items(2) [of cfg wall p now]
    quiet.keeps_other_items(3) [of cfg wall p vw now]
  from assms(1) obtain ids es s1 hs s2 cs com s3 queue s4 xs exps s5 where
    "collect_op (edge_item cfg wall p vw now) ids s = (Inr es, s1)"
    and "collect_op (commitment_item cfg wall p vw now hs) cs s2 = (Inr com, s3)"
    and "(if vw = ViewPending \<or> vw = ViewAll
          then bind_op (read_local (\<lambda>l. Inr (list_pending l p))) (collect_op (pending_item cfg wall p now))
          else return_op []) s3 = (Inr queue, s4)"
    and "collect_op (expectation_item cfg wall p vw now) xs s4 = (Inr exps, s5)"
    and its: "its = es @ com @ queue @ exps"
    by (auto simp: items_for_def op_returns)
  note rows = this
  have "li_kind x \<noteq> KeyEdge" if "x \<in> set com" for x
    using collect_op_set [OF q(3) rows(2)] that other_item_kinds(1) by blast
  moreover have "li_kind x \<noteq> KeyEdge" if "x \<in> set exps" for x
    using collect_op_set [OF q(5) rows(4)] that other_item_kinds(3) by blast
  moreover have "li_kind x \<noteq> KeyEdge" if "x \<in> set queue" for x
  proof -
    from rows(3) that obtain ps s6 where "collect_op (pending_item cfg wall p now) ps s6 = (Inr queue, s4)"
      by (auto simp: op_returns split: if_splits)
    from collect_op_set [OF q(4) this] that other_item_kinds(2) show ?thesis by blast
  qed
  ultimately have "it \<in> set es" using assms(2,3) its by auto
  with collect_op_set [OF q(1) rows(1)] show ?thesis by blast
qed

lemma open_loops_items:
  assumes "open_loops cfg wall call s = (Inr pg, s')"
  obtains p as_of cur items where "s' = s" "resolve_persona cfg (lc_persona call) s = (Inr p, s)"
    and "as_of_call call p wall = Some (as_of, cur)"
    and "items_for cfg (ms_of wall) p (lc_view call) (ms_of as_of) s = (Inr items, s)"
    and "set (pg_items pg) \<subseteq> set items"
proof -
  from assms obtain p s1 as_of cur items s2 ks where
    p: "resolve_persona cfg (lc_persona call) s = (Inr p, s1)" and a: "as_of_call call p wall = Some (as_of, cur)"
    and it: "items_for cfg (ms_of wall) p (lc_view call) (ms_of as_of) s1 = (Inr items, s2)" and s': "s' = s2"
    and pg: "pg = read_page (nc_collate cfg) (lc_view call) p as_of (lc_limit call) cur (\<lambda>x. score_of ks (ms_of as_of) (li_id x)) li_id items"
    by (auto simp: open_loops_def op_returns)
  from quiet_resolve [OF p] quiet.keepsD [OF quiet.keeps_items it] have "s1 = s \<and> s2 = s" by simp
  moreover have "set (pg_items pg) \<subseteq> set items"
    by (auto simp: pg read_page_def Let_def dest!: in_set_takeD in_set_dropD)
  ultimately show ?thesis using that p a it s' by blast
qed

lemma locate_active:
  assumes "list_ordering_keys (nd_vault s) (nc_active cfg) = Inr ks" and "get_edge (nd_vault s) (nc_active cfg) i = Inr (Some e)"
  shows "\<exists>k. locate cfg i s = (Inr (Some (nc_active cfg, LocatedRecord k)), s)"
proof -
  let ?p = "nc_active cfg"
  from assms obtain ps ef where ps: "require_persona (nd_vault s) ?p = Inr ps"
    and ef: "dir_get (ps_edges ps) i = Some ef" "ef_edge ef = Some e"
    by (auto simp: get_edge_def map_sum_Inr_iff edge_dir_Inr no_edge_files_def split: option.splits)
  have ks: "ks = store_ordering_keys ?p ps" using assms(1) ps by (simp add: list_ordering_keys_def)
  have own: "\<forall>k \<in> set ks. ok_persona k = ?p"
    by (auto simp: ks store_ordering_keys_def commitment_key_of_def expectation_key_of_def edge_key_of_def
        List.map_filter_def)
  have "(i, ef) \<in> set (ps_edges ps)" using ef(1) by (auto simp: dir_get_def dest: map_of_SomeD)
  moreover obtain k0 where "edge_key_of ?p (i, ef) = Some k0" "ok_id k0 = i"
    using ef(2) by (simp add: edge_key_of_def)
  ultimately have "\<exists>k \<in> set ks. ok_id k = i"
    by (auto simp: ks store_ordering_keys_def set_map_filter)
  then obtain k where "find (\<lambda>k. ok_id k = i) ks = Some k" by (cases "find (\<lambda>k. ok_id k = i) ks") (auto simp: find_None_iff)
  moreover from this own have "ok_persona k = ?p" by (auto simp: find_Some_iff)
  ultimately have "key_with_id i ks = Some (?p, LocatedRecord (ok_kind k))" by (simp add: key_with_id_def)
  with assms(1) show ?thesis by (simp add: locate_def bind_op_def read_vault_def return_op_def)
qed

lemma open_loops_keys:
  assumes "open_loops cfg wall call s = (Inr pg, s')" and "lc_persona call = None"
  shows "\<exists>ks. list_ordering_keys (nd_vault s) (nc_active cfg) = Inr ks"
proof -
  from assms obtain as_of items s2 ks where
    it: "items_for cfg (ms_of wall) (nc_active cfg) (lc_view call) (ms_of as_of) s = (Inr items, s2)"
    and "list_ordering_keys (nd_vault s2) (nc_active cfg) = Inr ks"
    by (auto simp: open_loops_def op_returns resolve_persona_def)
  with quiet.keepsD [OF quiet.keeps_items it] show ?thesis by auto
qed

lemma vault_ok_edge_id: "vault_ok cl v \<Longrightarrow> get_edge v p i = Inr (Some e) \<Longrightarrow> e_id e = i \<and> edge_id_binds_body cl e"
  using vault_ok_files by (fastforce simp: get_edge_def map_sum_Inr_iff files_ok_def)

section \<open>An act of the register is an act the node accepts\<close>

lemma advertised_refused:
  assumes "i \<in> set (actions_for st (viewer_of p e) eid win dwin due)" and "ia_tool i = Some ToolAct"
    and "e_owner e = p \<or> e_owed_to e = p" and "ac_act inp = ia_act i"
    and "ac_act inp \<noteq> ActDone \<longrightarrow> ac_evidence inp = None"
  shows "act_refused p e inp = None" and "act_asserts (ia_act i) = Some (asserted_by_act (ac_act inp))"
    and "\<not> (ac_act inp = ActDone \<and> st \<in> {SDisputed, SContestedClosure})" and "st \<noteq> SNone"
  using assms
  by (cases st; auto simp: actions_for_def bind_act_def act_refused_def viewer_of_def asserted_by_act_def Let_def
      split: if_split_asm)+

lemma edge_state_Inr:
  "edge_state cfg p i s = (Inr st, s') \<longleftrightarrow> s' = s \<and> (\<exists>e as vr. get_edge (nd_vault s) p i = Inr (Some e) \<and>
     get_assertions (nd_vault s) p i = Inr as \<and> verifier_for (nc_lib cfg) (nd_vault s) p None = Inr vr \<and>
     st = verify_assertion_chain vr e as)"
  by (auto simp: edge_state_def op_returns)

lemma flags_shown_right:
  assumes "acceptance_window_elapsed p e now s = (Inr win, s)" and "get_assertions (nd_vault s) p (e_id e) = Inr as"
    and "reach v e as c" and "cv_deadlocked_since st = deadlocked_since c" and "now \<le> ms_of t"
  shows "flags_right e c t win (dispute_window_elapsed st now) (due_elapsed e now)"
  unfolding flags_right_def
proof (intro conjI impI)
  assume win and "c_state c = SPendingAcceptance"
  with assms(1) window_flag_right [OF _ assms(2,3) _ assms(5)]
  show "\<exists>t0. c_window_opened_at c = Some t0 \<and> window_elapsed e t0 t" by auto
next
  assume "dispute_window_elapsed st now"
  from dispute_flag_right [OF this assms(4,5)]
  show "\<exists>t0. deadlocked_since c = Some t0 \<and> \<not> before_dispute_window_end t0 t" .
next
  assume "due_elapsed e now"
  from due_flag_right [OF this assms(5)] show "\<exists>due. e_due e = Some due \<and> ms_of due \<le> ms_of t" .
qed

lemma edge_item_act:
  assumes item: "edge_item cfg wall p vw now i s = (Inr (Some it), s)"
    and ok: "vault_ok cl (nd_vault s)" and loc: "locate cfg i s = (Inr (Some (p, k)), s)"
    and e: "get_edge (nd_vault s) p i = Inr (Some e)" "e_id e = i" and party: "e_owner e = p \<or> e_owed_to e = p"
    and sign: "can_sign cfg clk s p e as vr" and ia: "ia \<in> set (li_actions it)" "ia_tool ia = Some ToolAct"
    and inp: "ac_id inp = i" "ac_act inp = ia_act ia" "ac_act inp = ActDone \<longleftrightarrow> ac_evidence inp \<noteq> None"
    and now: "now \<le> ms_of (clk 0)"
  shows "\<exists>s'. act_op cfg clk inp s = (Inr (Inr (asserted_by_act (ac_act inp))), s')"
proof -
  let ?p0 = "e_owner e = p"
  obtain st win where st: "edge_state cfg p i s = (Inr st, s)"
    and win: "acceptance_window_elapsed p e now s = (Inr win, s)"
    and acts: "li_actions it = actions_for (cv_final_state st) (viewer_of p e) i win (dispute_window_elapsed st now) (due_elapsed e now)"
    using edge_item_Some [OF item] e(1) by (metis Inr_inject option.inject)
  have as: "get_assertions (nd_vault s) p i = Inr as" and vr: "table.all_accepted vr e as"
    and v1: "verifier_for (nc_lib cfg) (nd_vault s) p (Some (ms_of (clk 1))) = Inr vr"
    and times: "\<forall>b \<in> set as. ms_of (a_asserted_at b) < ms_of (clk 0)" "ms_of (clk 0) \<le> ms_of (clk 1)"
    and held: "held_by (v_lineage vr p) p (clk 0)"
    using sign e(2) by (auto simp: can_sign_def)
  note vrf = verifier_for_clock [OF v1, of None]
  have stv: "st = verify_assertion_chain (vr\<lparr>v_now := None\<rparr>) e as"
    using st e(1) as vrf by (auto simp: edge_state_Inr)
  note adv = advertised_refused [OF ia(1) [unfolded acts] ia(2) party inp(2)]
  have ev: "ac_act inp \<noteq> ActDone \<longrightarrow> ac_evidence inp = None" using inp(3) by blast
  have wf: "edge_malformed (nc_lib cfg) e = None"
    using adv(4) [OF ev] vrf stv by (cases "edge_malformed (nc_lib cfg) e") (auto simp: verify_assertion_chain_def)
  obtain c where c: "reach vr e as c" and cst: "cv_final_state st = c_state c" "cv_deadlocked_since st = deadlocked_since c"
  proof (rule all_accepted_reach [OF vr])
    show "edge_malformed (v_lib vr) e = None" using wf vrf by simp
    fix c
    assume r: "reach vr e as c" and ver: "\<And>m. clock_le (v_now vr) m \<Longrightarrow> verify_assertion_chain (vr\<lparr>v_now := m\<rparr>) e as =
        \<lparr>cv_outcomes = replicate (length as) None, cv_final_state = c_state c, cv_resolved_at = c_resolved_at c,
         cv_unverifiable = \<not> collective_decomposition_valid e, cv_deadlocked_since = deadlocked_since c\<rparr>"
    have "clock_le (v_now vr) None" by (simp add: clock_le_def)
    from ver [OF this] stv show thesis by (intro that [OF r]) simp_all
  qed
  have unique: "c1 = c" if "reach vr e as c1" for c1 using that c reach_unique by blast
  show ?thesis
  proof (rule act_op_accepts [OF ok _ _ adv(1) [OF ev] sign wf])
    show "locate cfg (ac_id inp) s = (Inr (Some (p, k)), s)" "ac_id inp = e_id e" using loc inp(1) e(2) by simp_all
  next
    fix c1 assume "reach vr e as c1"
    then show "\<not> (ac_act inp = ActDone \<and> c_state c1 \<in> {SDisputed, SContestedClosure})"
      using unique adv(3) [OF ev] cst by simp
  next
    fix c1 a
    assume r: "reach vr e as c1" and a: "a_edge_id a = e_id e" "a_state a = asserted_by_act (ac_act inp)"
      "a_asserted_at a = clk 0" "a_by a = p" "a_evidence_hash a = ac_evidence inp" "assertion_signature_ok (v_lib vr) a"
    show "\<exists>c'. admit vr e c1 a = Inr c'"
    proof (rule advertised_admitted [OF r])
      show "ia \<in> set (actions_for (c_state c1) (viewer_of p e) (e_id e) win (dispute_window_elapsed st now) (due_elapsed e now))"
        using ia(1) acts cst unique [OF r] e(2) by simp
      show "act_asserts (ia_act ia) = Some (a_state a)" using adv(2) [OF ev] a(2) by simp
      show "a_state a = AClosed \<Longrightarrow> a_evidence_hash a \<noteq> None"
        using a(2,5) inp(3) by (auto simp: asserted_by_act_def split: if_splits)
      show "flags_right e c1 (a_asserted_at a) win (dispute_window_elapsed st now) (due_elapsed e now)"
        unfolding unique [OF r] a(3) using as e(2) by (intro flags_shown_right [OF win _ c cst(2) now]) simp
      show "signed_now vr e as (viewer_of p e) a"
        using a times held party vrf
        by (auto simp: signed_now_def viewer_of_def is_owner_key_def is_owed_to_key_def dated_in_the_future_def expiry_skew_ms_def)
    qed
  qed
qed

end
