(* ===== verification/NodeSamples.thy ===== *)
theory NodeSamples
  imports ActLaws
begin

text \<open>
  A concrete node for the witnesses of the node surface: a vault with one of the parties of the sample
  edge, which holds the edge, proposed and confirmed, and nothing else.
\<close>

definition held_edge :: edge where
  "held_edge = sample_edge OnEvidence"

definition held_files :: edge_files where
  "held_files = \<lparr>ef_edge = Some held_edge,
     ef_assertions = [(pad4 0, says alice held_edge AProposed (jan 1) None), (pad4 1, says bob held_edge AConfirmed (jan 2) None)],
     ef_meta = None\<rparr>"

definition holder_store :: "persona_id \<Rightarrow> edge_files \<Rightarrow> persona_store" where
  "holder_store p ef = (empty_store (sample_persona p ''me''))\<lparr>ps_edges := [(e_id held_edge, ef)]\<rparr>"

definition holder :: "persona_id \<Rightarrow> edge_files \<Rightarrow> node" where
  "holder p ef = \<lparr>nd_vault = put_store empty_vault p (holder_store p ef), nd_local = \<lparr>ls_pending = [], ls_ingested = []\<rparr>\<rparr>"

definition sample_config :: "persona_id \<Rightarrow> node_config" where
  "sample_config p = \<lparr>nc_lib = sample_lib, nc_active = p, nc_brief_slots = 5, nc_collate = (\<le>)\<rparr>"

definition sample_clock :: "nat \<Rightarrow> rfc3339" where
  "sample_clock n = jan 10"

lemma sample_config_simps [simp]:
  "nc_lib (sample_config p) = sample_lib" "nc_active (sample_config p) = p"
  by (simp_all add: sample_config_def)

lemma held_edge_id: "hex64 (e_id held_edge)"
proof -
  have "edge_id_of sample_lib (edge_id_fields held_edge) = Some (e_id held_edge)"
    using sample_edge_binds by (simp add: edge_id_binds_body_def held_edge_def)
  then have "e_id held_edge = to_hex (pad32 (rev (edge_id_preimage (edge_id_fields held_edge))))"
    by (simp add: edge_id_of_def sha256_hex_def sample_lib_def split: if_splits)
  then show ?thesis by (simp add: hex64_to_hex)
qed

lemma pad4_small: "pad4 0 = ''0000''" "pad4 (Suc 0) = ''0001''"
  by (simp_all add: pad4_eq_digits pad4_digits_def hex_digit_0) code_simp

lemma held_files_ok: "files_ok sample_lib (e_id held_edge) held_files"
  by (auto simp: files_ok_def held_files_def chain_dir_def dir_names_def held_edge_def sample_edge_binds)

lemma holder_reads:
  assumes "p \<in> {alice, bob}"
  shows "require_persona (nd_vault (holder p ef)) p = Inr (holder_store p ef)"
    and "get_edge (nd_vault (holder p ef)) p (e_id held_edge) = Inr (ef_edge ef)"
    and "get_assertions (nd_vault (holder p ef)) p (e_id held_edge) = Inr (map snd (ef_assertions ef))"
    and "get_persona (nd_vault (holder p ef)) p = Inr (sample_persona p ''me'')"
    and "verifier_for sample_lib (nd_vault (holder p ef)) p n = Inr (sample_verifier\<lparr>v_now := n\<rparr>)"
proof -
  have h: "hex_id p" using assms parties_hex64 hex64_hex_id by auto
  have i: "hex_id (e_id held_edge)" using held_edge_id by (rule hex64_hex_id)
  show r: "require_persona (nd_vault (holder p ef)) p = Inr (holder_store p ef)"
    using h by (simp add: holder_def require_put_store)
  show "get_edge (nd_vault (holder p ef)) p (e_id held_edge) = Inr (ef_edge ef)"
    and "get_assertions (nd_vault (holder p ef)) p (e_id held_edge) = Inr (map snd (ef_assertions ef))"
    using i by (simp_all add: get_edge_def get_assertions_def edge_dir_def r assert_hex_id_def holder_store_def dir_get_def)
  show "get_persona (nd_vault (holder p ef)) p = Inr (sample_persona p ''me'')"
    by (simp add: get_persona_def r holder_store_def empty_store_def)
  show "verifier_for sample_lib (nd_vault (holder p ef)) p n = Inr (sample_verifier\<lparr>v_now := n\<rparr>)"
    by (simp add: verifier_for_def list_rotations_def r holder_store_def empty_store_def successor_resolver_def
        sample_verifier_def clockless_def)
qed

lemma holder_ok: "p \<in> {alice, bob} \<Longrightarrow> files_ok sample_lib (e_id held_edge) ef \<Longrightarrow> vault_ok sample_lib (nd_vault (holder p ef))"
  using parties_hex64 hex64_hex_id
  by (auto simp: vault_ok_def holder_def put_store_def empty_vault_def labels_distinct_def dir_get_def holder_store_def
      store_ok_def empty_store_def sample_persona_def dir_ok_def dir_names_def split: if_splits)

lemma holder_room:
  assumes "length (ef_assertions ef) < 10000"
  shows "chain_room (nd_vault (holder p ef)) q i"
  using assms
  by (auto simp: chain_room_def get_assertions_def map_sum_Inr_iff edge_dir_Inr require_persona_Inr holder_def
      put_store_def empty_vault_def holder_store_def dir_get_def no_edge_files_def empty_store_def
      split: if_splits option.splits)

lemma run_opening_at:
  "run_chain (sample_verifier\<lparr>v_now := n\<rparr>) (sample_edge p) initial_chain (sample_opening (sample_edge p)) = ([None, None], opened_state)"
  by (simp add: sample_opening_def run_sample opened_state_def split: prod.splits)

lemma held_chain: "map snd (ef_assertions held_files) = sample_opening held_edge"
  by (simp add: held_files_def sample_opening_def)

lemma verify_held:
  "verify_assertion_chain (sample_verifier\<lparr>v_now := n\<rparr>) held_edge (sample_opening held_edge) =
     \<lparr>cv_outcomes = [None, None], cv_final_state = SOpen, cv_resolved_at = None, cv_unverifiable = False,
      cv_deadlocked_since = None\<rparr>"
  using run_opening_at [of n OnEvidence]
  by (simp add: held_edge_def verify_assertion_chain_def opened_state_def deadlocked_since_def initial_chain_def)

lemma holder_edge_state:
  "p \<in> {alice, bob} \<Longrightarrow> edge_state (sample_config p) p (e_id held_edge) (holder p held_files) =
     (Inr \<lparr>cv_outcomes = [None, None], cv_final_state = SOpen, cv_resolved_at = None, cv_unverifiable = False,
      cv_deadlocked_since = None\<rparr>, holder p held_files)"
  using holder_reads [of p held_files] verify_held [of None]
  by (simp add: edge_state_def bind_op_def read_vault_def require_some_def return_op_def held_chain
      held_files_def [THEN arg_cong [where f = ef_edge]] split: sum.splits)

lemma holder_can_sign:
  assumes "p \<in> {alice, bob}"
  shows "can_sign (sample_config p) sample_clock (holder p held_files) p held_edge (sample_opening held_edge)
    (sample_verifier\<lparr>v_now := Some (ms_of (jan 10))\<rparr>)"
proof -
  have "signs_for sample_lib p p" using assms sample_signs by auto
  moreover have "ef_edge held_files = Some held_edge" "length (ef_assertions held_files) < 10000"
    by (simp_all add: held_files_def)
  ultimately show ?thesis
    using holder_reads [OF assms, of held_files] holder_room [of held_files p] verify_held [of "Some (ms_of (jan 10))"]
    by (auto simp: can_sign_def held_chain table.all_accepted_def sample_persona_def sample_clock_def sample_opening_def)
qed

section \<open>What the register shows of it\<close>

lemmas op_eval = bind_op_def read_vault_def read_local_def return_op_def throw_op_def require_some_def

lemma holder_more_reads:
  assumes "p \<in> {alice, bob}"
  shows "get_edge_meta (nd_vault (holder p held_files)) p (e_id held_edge) =
      Inr \<lparr>em_edge_id = e_id held_edge, em_dismissed = False, em_plaintext_deleted_at = None\<rparr>"
    and "hex_id h \<Longrightarrow> get_commitment (nd_vault (holder p ef)) p h = Inr None"
    and "hex_id h \<Longrightarrow> get_attestation (nd_vault (holder p ef)) p h = Inr None"
    and "list_edge_ids (nd_vault (holder p ef)) p = Inr [e_id held_edge]"
    and "list_rotations (nd_vault (holder p ef)) p = Inr []"
    and "list_commitments (nd_vault (holder p ef)) p = Inr []"
    and "list_expectations (nd_vault (holder p ef)) p = Inr []"
    and "list_ordering_keys (nd_vault (holder p ef)) p =
      Inr (case ef_edge ef of None \<Rightarrow> [] | Some e \<Rightarrow> [the (edge_key_of p (e_id held_edge, ef))])"
  using hex64_hex_id [OF held_edge_id]
  by (simp_all add: get_edge_meta_def edge_dir_def get_commitment_def get_attestation_def list_edge_ids_def
      list_rotations_def list_commitments_def list_expectations_def list_ordering_keys_def store_ordering_keys_def
      holder_reads(1) [OF assms] holder_store_def empty_store_def dir_get_def dir_names_def assert_hex_id_def
      held_files_def edge_key_of_def split: option.splits)

lemma holder_level:
  "p \<in> {alice, bob} \<Longrightarrow> c \<in> {alice, bob} \<Longrightarrow>
     verification_level (sample_config p) now p (Some c) (holder p held_files) = (Inr 1, holder p held_files)"
  using parties_hex64 hex64_hex_id holder_more_reads holder_reads(2) holder_edge_state
  by (auto simp: verification_level_def op_eval continuity_level_def continuity_at_def same_party_def
      successor_resolver_def no_rotation_def held_files_def [THEN arg_cong [where f = ef_edge]] held_edge_def)

definition sample_call :: loops_call where
  "sample_call = \<lparr>lc_view = ViewAll, lc_persona = None, lc_limit = 50, lc_cursor = None\<rparr>"

definition shown_item :: "persona_id \<Rightarrow> loop_item" where
  "shown_item p = \<lparr>li_kind = KeyEdge, li_id = e_id held_edge, li_text = plaintext_never_held,
     li_counterparty = Some (if p = alice then bob else alice), li_level = 1, li_age_days = 8, li_due = Some (jan 20),
     li_state = EdgeIn SOpen,
     li_actions = actions_for SOpen (if p = alice then RoleOwner else RoleOwedTo) (e_id held_edge) False False False\<rparr>"

lemma parties_not_blank: "counterparty_of (Some alice) = Some alice" "counterparty_of (Some bob) = Some bob"
  by (simp_all add: counterparty_of_def alice_def bob_def js_space_def numeral_eq_Suc)

lemma holder_item:
  assumes "p \<in> {alice, bob}"
  shows "edge_item (sample_config p) (ms_of (jan 9)) p ViewAll (ms_of (jan 9)) (e_id held_edge) (holder p held_files) =
    (Inr (Some (shown_item p)), holder p held_files)"
proof -
  have "hex_id (replicate 64 CHR ''d'')" by (simp add: hex_id_def list_all_iff is_lower_hex_def)
  then show ?thesis
    using assms holder_reads(2) [OF assms, of held_files] holder_more_reads [OF assms] holder_edge_state [OF assms]
      holder_level [OF assms]
    by (auto simp: edge_item_def op_eval edge_in_view_def headline_of_def missing_plaintext_def edge_actions_def
        acceptance_window_elapsed_def dispute_window_elapsed_def due_elapsed_def viewer_of_def shown_item_def
        held_files_def [THEN arg_cong [where f = ef_edge]] held_edge_def age_days_of_def in_days_def
        parties_not_blank Let_def)
qed

lemma holder_items_of:
  assumes "p \<in> {alice, bob}" and "get_edge (nd_vault (holder p ef)) p (e_id held_edge) = Inr (Some held_edge)"
    and "edge_item (sample_config p) (ms_of (jan 9)) p ViewAll (ms_of (jan 9)) (e_id held_edge) (holder p ef) =
      (Inr (Some it), holder p ef)"
  shows "items_for (sample_config p) (ms_of (jan 9)) p ViewAll (ms_of (jan 9)) (holder p ef) = (Inr [it], holder p ef)"
proof -
  have "list_pending (nd_local (holder p ef)) p = []"
    by (simp add: holder_def list_pending_def pending_of_def)
  then show ?thesis
    using assms(2,3) holder_more_reads [OF assms(1)]
    by (simp add: items_for_def op_eval edge_commitment_of_def)
qed

lemma single_item_page:
  assumes "p \<in> {alice, bob}"
    and "items_for (sample_config p) (ms_of (jan 9)) p ViewAll (ms_of (jan 9)) (holder p ef) = (Inr [it], holder p ef)"
  obtains pg where "open_loops (sample_config p) (jan 9) sample_call (holder p ef) = (Inr pg, holder p ef)"
    and "pg_items pg = [it]"
proof -
  have "\<exists>ks. list_ordering_keys (nd_vault (holder p ef)) p = Inr ks"
    using holder_more_reads(8) [OF assms(1)] by blast
  then obtain ks where "list_ordering_keys (nd_vault (holder p ef)) p = Inr ks" by blast
  with assms(2)
  have "\<exists>score. open_loops (sample_config p) (jan 9) sample_call (holder p ef) =
      (Inr (read_page (\<le>) ViewAll p (jan 9) 50 None score li_id [it]), holder p ef)"
    by (auto simp: open_loops_def op_eval resolve_persona_def sample_call_def as_of_call_def sample_config_def)
  then show ?thesis
    by (auto simp: read_page_def in_order_def sort_by_def page_start_def Let_def intro: that)
qed

lemma holder_open_loops:
  assumes "p \<in> {alice, bob}"
  obtains pg where "open_loops (sample_config p) (jan 9) sample_call (holder p held_files) = (Inr pg, holder p held_files)"
    and "pg_items pg = [shown_item p]"
proof (rule single_item_page [OF assms])
  show "items_for (sample_config p) (ms_of (jan 9)) p ViewAll (ms_of (jan 9)) (holder p held_files) =
      (Inr [shown_item p], holder p held_files)"
    by (rule holder_items_of [OF assms _ holder_item [OF assms]])
      (use holder_reads(2) [OF assms, of held_files] in \<open>simp add: held_files_def\<close>)
qed

section \<open>An act on it\<close>

definition sample_done :: act_input where
  "sample_done = \<lparr>ac_id = e_id held_edge, ac_act = ActDone, ac_evidence = some_evidence\<rparr>"

lemma holder_locates: "p \<in> {alice, bob} \<Longrightarrow> \<exists>k. locate (sample_config p) (e_id held_edge) (holder p held_files) = (Inr (Some (p, LocatedRecord k)), holder p held_files)"
  using locate_active [of "holder p held_files" "sample_config p"] holder_more_reads(8) holder_reads(2)
  by (simp add: held_files_def)

lemma held_edge_held: "p \<in> {alice, bob} \<Longrightarrow> get_edge (nd_vault (holder p held_files)) p (e_id held_edge) = Inr (Some held_edge)"
  using holder_reads(2) [of p held_files] by (simp add: held_files_def)

lemma held_edge_simps [simp]: "e_owner held_edge = alice" "e_owed_to held_edge = bob" "e_due held_edge = Some (jan 20)"
  by (simp_all add: held_edge_def)

lemma done_shown: "bind_act ActDone (act_args (e_id held_edge) ''done'') \<in> set (li_actions (shown_item alice))"
  by (simp add: shown_item_def actions_for_def)

lemma sample_done_accepted:
  "\<exists>s'. act_op (sample_config alice) sample_clock sample_done (holder alice held_files) = (Inr (Inr AClosed), s')"
proof -
  have p: "alice \<in> {alice, bob}" by simp
  obtain k where k: "locate (sample_config alice) (e_id held_edge) (holder alice held_files) = (Inr (Some (alice, LocatedRecord k)), holder alice held_files)"
    using holder_locates [OF p] by blast
  have "\<exists>s'. act_op (sample_config alice) sample_clock sample_done (holder alice held_files) =
      (Inr (Inr (asserted_by_act (ac_act sample_done))), s')"
    by (rule edge_item_act [OF holder_item [OF p] holder_ok [OF p held_files_ok] k held_edge_held [OF p] refl _
          holder_can_sign [OF p] done_shown])
      (simp_all add: sample_done_def bind_act_def sample_clock_def)
  then show ?thesis by (simp add: sample_done_def asserted_by_act_def)
qed

section \<open>A proposal held by the creditor\<close>

definition offered_files :: "bool \<Rightarrow> edge_files" where
  "offered_files b = \<lparr>ef_edge = Some held_edge, ef_assertions = [(pad4 0, says alice held_edge AProposed (jan 1) None)],
     ef_meta = Some \<lparr>em_edge_id = e_id held_edge, em_dismissed = b, em_plaintext_deleted_at = None\<rparr>\<rparr>"

lemma offered_files_ok: "files_ok sample_lib (e_id held_edge) (offered_files b)"
  by (auto simp: files_ok_def offered_files_def chain_dir_def dir_names_def held_edge_def sample_edge_binds)

lemma verify_offered:
  "verify_assertion_chain (sample_verifier\<lparr>v_now := n\<rparr>) held_edge [says alice held_edge AProposed (jan 1) None] =
     \<lparr>cv_outcomes = [None], cv_final_state = SProposed, cv_resolved_at = None, cv_unverifiable = False,
      cv_deadlocked_since = None\<rparr>"
  by (simp add: held_edge_def verify_assertion_chain_def run_sample deadlocked_since_def)

lemma offered_reads:
  "get_edge (nd_vault (holder bob (offered_files b))) bob (e_id held_edge) = Inr (Some held_edge)"
  "get_assertions (nd_vault (holder bob (offered_files b))) bob (e_id held_edge) = Inr [says alice held_edge AProposed (jan 1) None]"
  using holder_reads(2,3) [of bob "offered_files b"] by (simp_all add: offered_files_def)

lemma offered_can_sign:
  "can_sign (sample_config bob) sample_clock (holder bob (offered_files b)) bob held_edge
     [says alice held_edge AProposed (jan 1) None] (sample_verifier\<lparr>v_now := Some (ms_of (jan 10))\<rparr>)"
proof -
  have "signs_for sample_lib bob bob" using sample_signs by auto
  moreover have "chain_room (nd_vault (holder bob (offered_files b))) bob (e_id held_edge)"
    by (rule holder_room) (simp add: offered_files_def)
  ultimately show ?thesis
    using holder_reads [of bob "offered_files b"] offered_reads verify_offered [of "Some (ms_of (jan 10))"]
    by (auto simp: can_sign_def table.all_accepted_def sample_persona_def sample_clock_def)
qed

definition sample_confirm :: confirm_input where
  "sample_confirm = \<lparr>cf_id = e_id held_edge, cf_decision = DecideConfirm, cf_edit = None\<rparr>"

lemma sample_confirm_succeeds:
  "\<exists>s'. confirm_edge (sample_config bob) sample_clock bob sample_confirm (holder bob (offered_files b)) = (Inr Confirmed, s')"
proof -
  have "vault_ok sample_lib (nd_vault (holder bob (offered_files b)))" by (simp add: holder_ok offered_files_ok)
  from record_confirmation_ok [OF this _ offered_can_sign] verify_offered [of None]
  have "\<exists>s'. record_confirmation (sample_config bob) sample_clock bob held_edge (holder bob (offered_files b)) = (Inr Confirmed, s')"
    by (simp add: held_edge_def)
  then show ?thesis using offered_reads(1)
    by (simp add: confirm_edge_def sample_confirm_def op_eval)
qed

lemma holder_only_edge:
  assumes "get_edge (nd_vault (holder p ef)) q i = Inr (Some e)"
  shows "q = p \<and> i = e_id held_edge \<and> ef_edge ef = Some e"
proof -
  from assms obtain qs qf where qs: "require_persona (nd_vault (holder p ef)) q = Inr qs"
    and qf: "qf = (case dir_get (ps_edges qs) i of None \<Rightarrow> no_edge_files | Some f \<Rightarrow> f)" "ef_edge qf = Some e"
  proof (cases "edge_dir (nd_vault (holder p ef)) q i")
    case (Inr d)
    obtain qs qf where d: "d = (qs, qf)" by fastforce
    with Inr assms edge_dir_Inr [of "nd_vault (holder p ef)" q i qs qf] show thesis
      by (intro that [of qs qf]) (auto simp: get_edge_def)
  qed (use assms in \<open>simp add: get_edge_def\<close>)
  from qs have "q = p \<and> qs = holder_store p ef"
    by (auto simp: require_persona_Inr holder_def put_store_def empty_vault_def dir_get_def split: if_splits)
  with qf show ?thesis
    by (auto simp: holder_store_def dir_get_def no_edge_files_def split: if_splits)
qed

lemma offered_chains_valid: "chains_valid sample_lib (Some n) (nd_vault (holder bob (offered_files b)))"
  unfolding chains_valid_def
proof (intro allI impI)
  fix q i e as vr
  assume h: "get_edge (nd_vault (holder bob (offered_files b))) q i = Inr (Some e)"
    "get_assertions (nd_vault (holder bob (offered_files b))) q i = Inr as"
    "verifier_for sample_lib (nd_vault (holder bob (offered_files b))) q (Some n) = Inr vr"
  have "q = bob" "i = e_id held_edge" "e = held_edge" using holder_only_edge [OF h(1)] by (simp_all add: offered_files_def)
  with h(2,3) offered_reads(2) holder_reads(5) [of bob "offered_files b" "Some n"] verify_offered [of "Some n"]
  show "table.all_accepted vr e as" by (simp add: table.all_accepted_def)
qed

definition offered_item :: loop_item where
  "offered_item = \<lparr>li_kind = KeyEdge, li_id = e_id held_edge, li_text = plaintext_never_held,
     li_counterparty = Some alice, li_level = 0, li_age_days = 8, li_due = Some (jan 20),
     li_state = EdgeIn SProposed,
     li_actions = actions_for SProposed RoleOwedTo (e_id held_edge) False False False\<rparr>"

lemma offered_edge_state:
  "edge_state (sample_config bob) bob (e_id held_edge) (holder bob (offered_files b)) =
     (Inr \<lparr>cv_outcomes = [None], cv_final_state = SProposed, cv_resolved_at = None, cv_unverifiable = False,
      cv_deadlocked_since = None\<rparr>, holder bob (offered_files b))"
  using holder_reads(5) [of bob "offered_files b" None] verify_offered [of None] offered_reads
  by (simp add: edge_state_def op_eval)

lemma offered_meta:
  "get_edge_meta (nd_vault (holder bob (offered_files b))) bob (e_id held_edge) =
     Inr \<lparr>em_edge_id = e_id held_edge, em_dismissed = b, em_plaintext_deleted_at = None\<rparr>"
  using hex64_hex_id [OF held_edge_id] holder_reads(1) [of bob "offered_files b"]
  by (simp add: get_edge_meta_def edge_dir_def holder_store_def dir_get_def assert_hex_id_def offered_files_def)

lemma offered_level:
  "verification_level (sample_config bob) now bob (Some alice) (holder bob (offered_files b)) = (Inr 0, holder bob (offered_files b))"
  using parties_hex64 hex64_hex_id holder_more_reads [of bob] offered_edge_state [of b] offered_reads(1) [of b]
  by (auto simp: verification_level_def op_eval continuity_level_def continuity_at_def same_party_def
      successor_resolver_def no_rotation_def)

lemma offered_shown:
  "edge_item (sample_config bob) (ms_of (jan 9)) bob ViewAll (ms_of (jan 9)) (e_id held_edge) (holder bob (offered_files False)) =
    (Inr (Some offered_item), holder bob (offered_files False))"
proof -
  have "hex_id (replicate 64 CHR ''d'')" by (simp add: hex_id_def list_all_iff is_lower_hex_def)
  then show ?thesis
    using holder_more_reads [of bob] offered_edge_state [of False] offered_level offered_reads(1) offered_meta [of False]
    by (auto simp: edge_item_def op_eval edge_in_view_def headline_of_def missing_plaintext_def edge_actions_def
        acceptance_window_elapsed_def dispute_window_elapsed_def due_elapsed_def viewer_of_def offered_item_def
        held_edge_def age_days_of_def in_days_def parties_not_blank Let_def)
qed

lemma offered_open_loops:
  obtains pg where "open_loops (sample_config bob) (jan 9) sample_call (holder bob (offered_files False)) =
      (Inr pg, holder bob (offered_files False))"
    and "pg_items pg = [offered_item]"
proof (rule single_item_page)
  show "items_for (sample_config bob) (ms_of (jan 9)) bob ViewAll (ms_of (jan 9)) (holder bob (offered_files False)) =
      (Inr [offered_item], holder bob (offered_files False))"
    by (rule holder_items_of) (use offered_shown offered_reads(1) in simp_all)
qed simp

end
