(* ===== verification/History.thy ===== *)
theory History
  imports NodeSamples
begin

text \<open>
  Every call of the node surface that writes, as one step relation, and what such a step keeps: the
  well-formedness of the vault, every stored edge body and every chain up to what is appended, and the
  validity of every chain.
\<close>

section \<open>Every call that writes\<close>

inductive node_call :: "node_config \<Rightarrow> (nat \<Rightarrow> rfc3339) \<Rightarrow> node \<Rightarrow> node \<Rightarrow> bool" for cfg clk where
  call_commit: "commit cfg clk ci s = (rc, s') \<Longrightarrow> node_call cfg clk s s'"
| call_expect: "expect_op cfg clk what who context s = (rx, s') \<Longrightarrow> node_call cfg clk s s'"
| call_confirm: "confirm cfg clk cf s = (rf, s') \<Longrightarrow> node_call cfg clk s s'"
| call_act: "act_op cfg clk ai s = (ra, s') \<Longrightarrow> node_call cfg clk s s'"
| call_queue: "queue_pending_extraction cfg clk p x env s = (rq, s') \<Longrightarrow> node_call cfg clk s s'"

inductive_cases node_callE: "node_call cfg clk s s'"

section \<open>Room in the chains\<close>

text \<open>Every chain has room for one more assertion; no chain has outgrown the numbering of its files.\<close>

definition roomy :: "vault \<Rightarrow> bool" where
  "roomy v \<longleftrightarrow> (\<forall>p i. chain_room v p i)"

definition small :: "vault \<Rightarrow> bool" where
  "small v \<longleftrightarrow> (\<forall>p ps i ef. dir_get (vt_personas v) p = Some ps \<longrightarrow> dir_get (ps_edges ps) i = Some ef \<longrightarrow>
     length (ef_assertions ef) \<le> 10000)"

lemma length_dir_put: "dir_get d k = None \<Longrightarrow> length (dir_put k x d) = Suc (length d)"
  by (induction k x d rule: dir_put.induct) (auto simp: dir_get_def split: if_splits)

lemma small_put_store:
  assumes "small (put_store v p ps')" and "require_persona v p = Inr ps"
    and "\<And>i ef. dir_get (ps_edges ps) i = Some ef \<Longrightarrow>
      \<exists>ef'. dir_get (ps_edges ps') i = Some ef' \<and> length (ef_assertions ef) \<le> length (ef_assertions ef')"
  shows "small v"
  unfolding small_def
proof (intro allI impI)
  fix q qs i ef
  assume q: "dir_get (vt_personas v) q = Some qs" "dir_get (ps_edges qs) i = Some ef"
  show "length (ef_assertions ef) \<le> 10000"
  proof (cases "q = p")
    case True
    with q assms(2) have "qs = ps" by (simp add: require_persona_Inr)
    with q assms(3) obtain ef' where "dir_get (ps_edges ps') i = Some ef'" "length (ef_assertions ef) \<le> length (ef_assertions ef')"
      by blast
    moreover have "dir_get (vt_personas (put_store v p ps')) p = Some ps'" by (simp add: put_store_def)
    ultimately show ?thesis using assms(1) unfolding small_def by (meson le_trans)
  next
    case False
    with q have "dir_get (vt_personas (put_store v p ps')) q = Some qs" by (simp add: put_store_def)
    with q assms(1) show ?thesis unfolding small_def by blast
  qed
qed

lemma small_put_files:
  assumes "small (put_edge_files v p ps i ef')" and "edge_dir v p i = Inr (ps, ef)"
    and "length (ef_assertions ef) \<le> length (ef_assertions ef')"
  shows "small v" and "length (ef_assertions ef') \<le> 10000"
proof -
  have ps: "require_persona v p = Inr ps" and ef: "ef = (case dir_get (ps_edges ps) i of None \<Rightarrow> no_edge_files | Some ef \<Rightarrow> ef)"
    using assms(2) by (simp_all add: edge_dir_Inr)
  show "small v"
    by (rule small_put_store [OF assms(1) [unfolded put_edge_files_def] ps]) (use assms(3) ef in auto)
  have "dir_get (vt_personas (put_edge_files v p ps i ef')) p = Some (ps\<lparr>ps_edges := dir_put i ef' (ps_edges ps)\<rparr>)"
    by (simp add: put_edge_files_def put_store_def)
  from assms(1) [unfolded small_def, rule_format, OF this, of i ef'] show "length (ef_assertions ef') \<le> 10000"
    by simp
qed

lemma small_same_edges:
  assumes "small (put_store v p ps')" and "require_persona v p = Inr ps" and "ps_edges ps' = ps_edges ps"
  shows "small v"
  by (rule small_put_store [OF assms(1,2)]) (auto simp: assms(3))

lemma small_append:
  assumes "append_assertion v p a = Inr (n, v')" and "small v'"
  shows "small v" and "vault_ok cl v \<Longrightarrow> chain_room v p (a_edge_id a)"
proof -
  from assms(1) obtain ps ef where d: "edge_dir v p (a_edge_id a) = Inr (ps, ef)"
    and new: "dir_get (ef_assertions ef) (pad4 (length (ef_assertions ef))) = None"
    and v': "v' = put_edge_files v p ps (a_edge_id a)
      (ef\<lparr>ef_assertions := dir_put (pad4 (length (ef_assertions ef))) a (ef_assertions ef)\<rparr>)"
    by (auto simp: append_assertion_def bind_result_Inr_iff Let_def split: if_splits)
  note len = length_dir_put [OF new, of a]
  note room = small_put_files [OF assms(2) [unfolded v'] d]
  show "small v" using room(1) len by simp
  show "chain_room v p (a_edge_id a)" using room(2) len d by (simp add: chain_room_def get_assertions_def)
qed

lemma small_after_append:
  assumes "append_assertion v p a = Inr (n, v')" and "small v" and "n < 10000"
  shows "small v'"
proof -
  from assms(1) obtain ps ef where d: "edge_dir v p (a_edge_id a) = Inr (ps, ef)" and n: "n = length (ef_assertions ef)"
    and new: "dir_get (ef_assertions ef) (pad4 n) = None"
    and v': "v' = put_edge_files v p ps (a_edge_id a) (ef\<lparr>ef_assertions := dir_put (pad4 n) a (ef_assertions ef)\<rparr>)"
    by (auto simp: append_assertion_def bind_result_Inr_iff Let_def split: if_splits)
  from d have "dir_get (vt_personas v) p = Some ps" by (simp add: edge_dir_Inr require_persona_Inr)
  with assms(2,3) n length_dir_put [OF new] show ?thesis
    by (auto simp: small_def v' put_edge_files_def put_store_def split: if_split_asm)
qed

lemma small_writes:
  "put_commitment cl v p c = Inr v' \<Longrightarrow> small v' \<Longrightarrow> small v"
  "put_expectation v p i x = Inr v' \<Longrightarrow> small v' \<Longrightarrow> small v"
  "put_outbox cl v item = Inr v' \<Longrightarrow> small v' \<Longrightarrow> small v"
  "put_edge cl v p e = Inr v' \<Longrightarrow> small v' \<Longrightarrow> small v"
  "put_edge_meta v p m = Inr v' \<Longrightarrow> small v' \<Longrightarrow> small v"
  by (auto simp: put_commitment_def put_expectation_def put_outbox_def put_edge_def put_edge_meta_def bind_result_Inr_iff
      map_sum_Inr_iff split: if_splits option.splits intro: small_same_edges small_put_files)

section \<open>What a step keeps\<close>

definition keeps_history :: "crypto_lib \<Rightarrow> node \<Rightarrow> node \<Rightarrow> bool" where
  "keeps_history cl s t \<longleftrightarrow> (small (nd_vault t) \<longrightarrow> small (nd_vault s)) \<and>
     (vault_ok cl (nd_vault s) \<longrightarrow> small (nd_vault t) \<longrightarrow> vault_ok cl (nd_vault t) \<and> chains_grow (nd_vault s) (nd_vault t))"

interpretation history: op_relation "keeps_history cl" for cl
  by unfold_locales (auto simp: keeps_history_def intro: chains_grow_trans)

lemma history_write:
  assumes "\<And>v v'. f v = Inr v' \<Longrightarrow> small v' \<Longrightarrow> small v"
    and "\<And>v v'. f v = Inr v' \<Longrightarrow> vault_ok cl v \<Longrightarrow> small v' \<Longrightarrow> \<exists>p. vault_step cl p v v'"
  shows "history.keeps cl (write_vault f)"
proof (rule history.keeps_write)
  fix s :: node and v
  assume f: "f (nd_vault s) = Inr v"
  show "keeps_history cl s (s\<lparr>nd_vault := v\<rparr>)"
    unfolding keeps_history_def
  proof (intro conjI impI)
    assume ok: "vault_ok cl (nd_vault s)" and sm: "small (nd_vault (s\<lparr>nd_vault := v\<rparr>))"
    then obtain p where "vault_step cl p (nd_vault s) v" using assms(2) [OF f] by auto
    from vault_step_write [OF this ok] store_write_ok store_write_grow ok
    show "vault_ok cl (nd_vault (s\<lparr>nd_vault := v\<rparr>))" "chains_grow (nd_vault s) (nd_vault (s\<lparr>nd_vault := v\<rparr>))" by auto
  qed (use assms(1) [OF f] in simp)
qed

lemma history_writes:
  "history.keeps cl (write_vault (\<lambda>v. put_commitment cl v p c))"
  "history.keeps cl (write_vault (\<lambda>v. put_expectation v p i x))"
  "history.keeps cl (write_vault (\<lambda>v. put_edge cl v p e))"
  "history.keeps cl (write_vault (\<lambda>v. put_edge_meta v p m))"
  "history.keeps cl (write_vault (\<lambda>v. put_outbox cl v item))"
  by (rule history_write; blast intro: small_writes vault_step.intros)+

lemma history_append:
  "history.keeps cl (write_vault (\<lambda>v. map_sum id snd (append_assertion v p a)))"
  by (rule history_write)
    (auto simp: map_sum_Inr_iff intro: small_append(1) vault_step.intros(6) small_append(2))

lemma history_local: "history.keeps cl (write_local f)"
  by (rule history.keeps_write_local) (simp add: keeps_history_def)

lemma history_store: "history.keeps cl (store_assertion p a)"
  unfolding store_assertion_def by (rule history_append)

lemmas history_intros = history.keeps_intros history_writes history_append history_local history_store history.keeps_reads

lemma history_private_key: "history.keeps cl (private_key_of p)"
  unfolding private_key_of_def by (intro history.keeps_intros)

lemma history_commit: "history.keeps (nc_lib cfg) (commit cfg clk ci)"
  unfolding commit_def queue_propose_def Let_def by (intro history_intros history_private_key)

lemma history_expect: "history.keeps (nc_lib cfg) (expect_op cfg clk what who context)"
  unfolding expect_op_def Let_def by (intro history_intros)

lemma history_confirm: "history.keeps (nc_lib cfg) (confirm cfg clk cf)"
  unfolding confirm_def confirm_edge_def record_confirmation_def set_dismissed_def
proof (intro history_intros)
  fix p :: persona_id
  show "history.keeps (nc_lib cfg) (confirm_pending cfg p cf)"
    unfolding confirm_pending_def drop_pending_def
    by (intro history_intros) (auto split: candidate.split intro!: history_intros)
qed

lemma history_act: "history.keeps (nc_lib cfg) (act_op cfg clk ai)"
proof -
  have "history.keeps (nc_lib cfg) (case r of Some None \<Rightarrow> bind_op (store_assertion p a) (\<lambda>_. return_op (Inr w))
      | Some (Some why) \<Rightarrow> return_op (Inl (act_rejection_of why)) | None \<Rightarrow> return_op (Inl ActIllegalState))" for r p a w
    by (cases r) (auto split: option.split intro!: history_intros)
  then show ?thesis unfolding act_op_def by (intro history_intros)
qed

lemma history_queue: "history.keeps (nc_lib cfg) (queue_pending_extraction cfg clk p x env)"
  unfolding queue_pending_extraction_def by (intro history_intros)

lemma node_call_history: "node_call cfg clk s s' \<Longrightarrow> keeps_history (nc_lib cfg) s s'"
  by (erule node_callE)
    (erule history.keepsD [OF history_commit] history.keepsD [OF history_expect] history.keepsD [OF history_confirm]
      history.keepsD [OF history_act] history.keepsD [OF history_queue])+

end
