(* ===== verification/Canonical.thy ===== *)
theory Canonical
  imports Samples
begin

text \<open>
  When a value has a canonical form: exactly when it is not nested too deeply. \<open>json_depth\<close> counts the arrays
  and objects a value is under at its deepest point.
\<close>

fun json_depth :: "json \<Rightarrow> nat" where
  "json_depth (JArr vs) = foldr max (map (\<lambda>v. Suc (json_depth v)) vs) 0"
| "json_depth (JObj ms) = foldr max (map (\<lambda>m. Suc (json_depth (snd m))) ms) 0"
| "json_depth _ = 0"

lemma foldr_max_le:
  "d + foldr max (map (\<lambda>x. Suc (g x)) xs) 0 \<le> n \<longleftrightarrow> d \<le> (n :: nat) \<and> (\<forall>x \<in> set xs. Suc d + g x \<le> n)"
  by (induction xs) auto

lemma write_elements_iff: "write_elements d vs \<noteq> None \<longleftrightarrow> (\<forall>v \<in> set vs. write_json d v \<noteq> None)"
  by (induction vs) (auto simp del: write_json.simps split: option.splits)

lemma write_members_iff: "write_members d ms \<noteq> None \<longleftrightarrow> (\<forall>m \<in> set ms. write_json d (snd m) \<noteq> None)"
  by (auto simp: write_members_map simp del: write_json.simps split: if_splits)

lemma write_json_unfold:
  "write_json d v \<noteq> None \<longleftrightarrow> d \<le> max_canonicalization_depth \<and>
     (case v of
        JArr vs \<Rightarrow> write_elements (d + 1) vs \<noteq> None
      | JObj ms \<Rightarrow> write_members (d + 1) ms \<noteq> None
      | _ \<Rightarrow> True)"
  by (cases v) (simp_all add: not_less)

declare write_json.simps [simp del]

lemma write_json_defined:
  "write_json d v \<noteq> None \<longleftrightarrow> d + json_depth v \<le> max_canonicalization_depth"
proof (induction v arbitrary: d)
  case (JArr vs)
  have "write_json d (JArr vs) \<noteq> None \<longleftrightarrow>
      d \<le> max_canonicalization_depth \<and> (\<forall>v\<in>set vs. write_json (Suc d) v \<noteq> None)"
    by (simp only: write_json_unfold [of d "JArr vs"] json.case write_elements_iff Suc_eq_plus1)
  also have "\<dots> \<longleftrightarrow> d \<le> max_canonicalization_depth \<and> (\<forall>v\<in>set vs. Suc d + json_depth v \<le> max_canonicalization_depth)"
    using JArr by blast
  finally show ?case using foldr_max_le [of d json_depth vs] by simp
next
  case (JObj ms)
  have "write_json (Suc d) (snd m) \<noteq> None \<longleftrightarrow> Suc d + json_depth (snd m) \<le> max_canonicalization_depth" if "m \<in> set ms" for m
    using that by (intro JObj) (auto simp: snds.simps)
  moreover have "write_json d (JObj ms) \<noteq> None \<longleftrightarrow>
      d \<le> max_canonicalization_depth \<and> (\<forall>m\<in>set ms. write_json (Suc d) (snd m) \<noteq> None)"
    by (simp only: write_json_unfold [of d "JObj ms"] json.case write_members_iff Suc_eq_plus1)
  ultimately have "write_json d (JObj ms) \<noteq> None \<longleftrightarrow>
      d \<le> max_canonicalization_depth \<and> (\<forall>m\<in>set ms. Suc d + json_depth (snd m) \<le> max_canonicalization_depth)"
    by blast
  then show ?case using foldr_max_le [of d "\<lambda>m. json_depth (snd m)" ms] by simp
qed (simp_all add: write_json.simps not_less)

lemma canonical_bytes_defined: "canonical_bytes v \<noteq> None \<longleftrightarrow> json_depth v \<le> 256"
  using write_json_defined [of 0 v] by (simp add: canonical_bytes_def canonicalize_def max_canonicalization_depth_def)

lemma json_depth_opt [simp]: "json_depth (json_opt x) = 0"
  by (simp add: json_opt_def split: option.splits)

lemma json_depth_obj_le: "json_depth (JObj ms) \<le> n \<longleftrightarrow> (\<forall>m \<in> set ms. Suc (json_depth (snd m)) \<le> n)"
  using foldr_max_le [of 0 "\<lambda>m. json_depth (snd m)" ms n] by simp

lemma json_depth_arr_le: "json_depth (JArr vs) \<le> n \<longleftrightarrow> (\<forall>v \<in> set vs. Suc (json_depth v) \<le> n)"
  using foldr_max_le [of 0 json_depth vs n] by simp

lemmas json_depth_le = json_depth_obj_le json_depth_arr_le

lemma json_depth_strings [simp]: "json_depth (json_strings xs) \<le> Suc 0"
  by (simp add: json_strings_def json_depth_le del: json_depth.simps(1,2))

lemma json_depth_edge: "json_depth (edge_json e) \<le> 3"
proof -
  have k: "json_depth (json_strings xs) \<le> 2" for xs using json_depth_strings [of xs] by linarith
  have "json_depth (fulfillment_json f) \<le> 2" for f
    by (auto simp: fulfillment_json_def opt_json_member_def json_depth_le simp del: json_depth.simps(1,2) split: option.splits)
  then show ?thesis using k
    by (auto simp: edge_json_def opt_json_member_def json_depth_le simp del: json_depth.simps(1,2) split: option.splits)
qed

lemma unsigned_depth: "json_depth (JObj ms) \<le> n \<Longrightarrow> json_depth (JObj (unsigned_object ms)) \<le> n"
  by (auto simp: unsigned_object_def json_depth_obj_le simp del: json_depth.simps(1,2))

text \<open>A key that signs for another signs every object that is not too deep.\<close>

lemma sign_object_defined:
  assumes "signs_for cl sk pub" and "json_depth (JObj ms) \<le> 256"
  obtains sg where "sign_object cl ms sk = Some sg"
proof -
  have "canonical_bytes (JObj (unsigned_object ms)) \<noteq> None"
    unfolding canonical_bytes_defined by (rule unsigned_depth [OF assms(2)])
  then obtain m where m: "signing_preimage cl ms = Some m" by (auto simp: signing_preimage_def)
  from assms(1) obtain k where "from_hex sk = Some k" and "\<exists>sg. lib_ed_sign cl m k = Some sg"
    unfolding signs_for_def by blast
  with m that show thesis by (auto simp: sign_object_def)
qed

end
