(* ===== verification/Proposals.thy ===== *)
theory Proposals
  imports History Canonical
begin

text \<open>
  What \<^verbatim>\<open>commit\<close> records and what it sends: the caller's own promise, and when it can be proposed the edge,
  its first assertion and the signed message to the counterparty.
\<close>

lemma commit_Proposed:
  assumes "commit cfg clk inp s = (Inr out, s')" and "co_edge_id out = Some i"
  obtains p c v1 owed e v2 a n v3 s4 where
    "resolve_persona cfg (ci_persona inp) s = (Inr p, s)" "c = explicit_commitment p inp (clk 0)"
    "put_commitment (nc_lib cfg) (nd_vault s) p c = Inr v1" "proposable p (ci_owed_to inp) = Some owed"
    "build_edge (nc_lib cfg) (commitment_key (nc_lib cfg) c) p owed (clk 0) (ci_due inp) = Some e"
    "put_edge (nc_lib cfg) v1 p e = Inr v2"
    "sign_assertion cfg p (e_id e) AProposed (clk 0) None (s\<lparr>nd_vault := v2\<rparr>) = (Inr a, s\<lparr>nd_vault := v2\<rparr>)"
    "append_assertion v2 p a = Inr (n, v3)"
    "queue_propose cfg p owed e a (clk 1) (clk 2) (s\<lparr>nd_vault := v3\<rparr>) = (Inr (), s')"
    "i = e_id e" "co_commitment_hash out = commitment_key (nc_lib cfg) c" "co_state out = Proposed"
proof -
  from assms(1) obtain p s0 v1 where p: "resolve_persona cfg (ci_persona inp) s = (Inr p, s0)"
    and "put_commitment (nc_lib cfg) (nd_vault s0) p (explicit_commitment p inp (clk 0)) = Inr v1"
    by (auto simp: commit_def op_returns Let_def split: if_split_asm)
  have s0: "s0 = s" by (rule quiet_resolve [OF p])
  from assms p s0 obtain owed e v1 v2 a s3 n v3 where
    "put_commitment (nc_lib cfg) (nd_vault s) p (explicit_commitment p inp (clk 0)) = Inr v1"
    "proposable p (ci_owed_to inp) = Some owed"
    "build_edge (nc_lib cfg) (commitment_key (nc_lib cfg) (explicit_commitment p inp (clk 0))) p owed (clk 0) (ci_due inp) = Some e"
    "put_edge (nc_lib cfg) v1 p e = Inr v2"
    and sg: "sign_assertion cfg p (e_id e) AProposed (clk 0) None (s\<lparr>nd_vault := v2\<rparr>) = (Inr a, s3)"
    and "append_assertion (nd_vault s3) p a = Inr (n, v3)"
    "queue_propose cfg p owed e a (clk 1) (clk 2) (s3\<lparr>nd_vault := v3\<rparr>) = (Inr (), s')"
    "out = \<lparr>co_commitment_hash = commitment_key (nc_lib cfg) (explicit_commitment p inp (clk 0)),
       co_edge_id = Some (e_id e), co_state = Proposed\<rparr>"
    by (auto simp: commit_def op_returns Let_def map_sum_Inr_iff split: if_split_asm option.split_asm)
  moreover have "s3 = s\<lparr>nd_vault := v2\<rparr>" by (rule quiet_sign [OF sg])
  ultimately show thesis using that p s0 assms(2) by auto
qed

lemma build_edge_Some:
  assumes "build_edge cl h p owed t due = Some e"
  shows "e_owner e = p" "e_owed_to e = owed" "e_commitment_hash e = h" "edge_malformed cl e = None" "e_proposed_at e = t"
  using assms
  by (auto simp: build_edge_def edge_malformed_def edge_id_binds_body_def edge_id_fields_def acceptance_window_malformed_def)

lemma build_edge_id:
  assumes "build_edge cl h p owed t due = Some e" and "\<And>bs. length (lib_sha256 cl bs) = 32"
  shows "hex64 (e_id e)" and "edge_id_binds_body cl e"
  using assms
  by (auto simp: build_edge_def edge_id_of_def sha256_hex_def hex64_to_hex edge_id_binds_body_def edge_id_fields_def split: if_splits)

lemma proposable_Some: "proposable p o' = Some q \<longleftrightarrow> o' = Some q \<and> hex64 q \<and> q \<noteq> p"
  by (auto simp: proposable_def split: option.splits if_splits)

lemma queue_propose_Inr:
  assumes "queue_propose cfg p q e a sent queued s = (Inr (), s')"
  obtains r m i v where "get_persona (nd_vault s) p = Inr r"
    "with_signature (nc_lib cfg) (propose_message p q e a sent) (pr_private_key r) = Some m"
    "put_outbox (nc_lib cfg) (nd_vault s)
       \<lparr>ob_id = i, ob_persona = p, ob_recipient = q, ob_message = m, ob_queued_at = queued, ob_delivery = no_delivery\<rparr> = Inr v"
    "s' = s\<lparr>nd_vault := v\<rparr>"
  using assms by (auto simp: queue_propose_def private_key_of_def op_returns)

lemma list_outbox_put:
  assumes "put_outbox cl v item = Inr v'"
  shows "\<exists>xs. list_outbox v' (ob_persona item) = Inr xs \<and> item \<in> set xs"
proof -
  from assms obtain ps where ps: "require_persona v (ob_persona item) = Inr ps"
    and v': "v' = put_store v (ob_persona item) (ps\<lparr>ps_outbox := dir_put (ob_id item) item (ps_outbox ps)\<rparr>)"
    by (auto simp: put_outbox_def bind_result_Inr_iff split: if_splits)
  have "dir_get (dir_put (ob_id item) item (ps_outbox ps)) (ob_id item) = Some item" by simp
  then have "item \<in> snd ` set (dir_put (ob_id item) item (ps_outbox ps))"
    by (auto simp: dir_get_def dest!: map_of_SomeD intro: rev_image_eqI)
  with ps show ?thesis by (simp add: v' list_outbox_def require_put_store require_persona_Inr)
qed

lemma get_put_commitment:
  assumes "put_commitment cl v p c = Inr v'" and "hex_id (commitment_key cl c)"
  shows "get_commitment v' p (commitment_key cl c) = Inr (Some c)"
proof -
  from assms(1) obtain ps where ps: "require_persona v p = Inr ps"
    and v': "v' = put_store v p (ps\<lparr>ps_commitments := dir_put (commitment_key cl c) c (ps_commitments ps)\<rparr>)"
    by (auto simp: put_commitment_def bind_result_Inr_iff)
  then have "hex_id p" by (simp add: require_persona_Inr)
  then show ?thesis using assms(2) by (simp add: v' get_commitment_def require_put_store assert_hex_id_def)
qed

lemma put_edge_fresh:
  assumes "put_edge cl v p e = Inr v'" and "get_edge v p (e_id e) = Inr None"
  shows "get_edge v' p (e_id e) = Inr (Some e)" and "get_assertions v' p (e_id e) = get_assertions v p (e_id e)"
proof -
  from assms obtain ps ef where d: "edge_dir v p (e_id e) = Inr (ps, ef)" and n: "ef_edge ef = None"
    and v': "v' = put_edge_files v p ps (e_id e) (ef\<lparr>ef_edge := Some e\<rparr>)"
    by (auto simp: put_edge_def get_edge_def bind_result_Inr_iff split: if_splits)
  show "get_edge v' p (e_id e) = Inr (Some e)" and "get_assertions v' p (e_id e) = get_assertions v p (e_id e)"
    unfolding v' get_edge_def get_assertions_def edge_dir_put [OF d] using d by simp_all
qed

text \<open>A first \<^verbatim>\<open>proposed\<close>, signed by the owner's current key, proposes the edge.\<close>

lemma first_proposal:
  assumes "edge_malformed (v_lib vr) e = None" and "a_edge_id a = e_id e" and "a_state a = AProposed"
    and "assertion_signature_ok (v_lib vr) a" and "is_owner_key vr e a"
  shows "cv_final_state (verify_assertion_chain vr e [a]) = SProposed \<and> cv_outcomes (verify_assertion_chain vr e [a]) = [None]"
  using assms
  by (simp add: verify_assertion_chain_def admit_def step_def step_row_def initial_chain_def Let_def
      non_assertable_states_def concurrent_exit_def terminal_iff)

lemma commitment_key_hex: "(\<And>bs. length (lib_sha256 cl bs) = 32) \<Longrightarrow> hex_id (commitment_key cl c)"
  by (simp add: commitment_key_def commitment_hash_eq sha256_hex_def hex64_hex_id hex64_to_hex)

text \<open>What is in the vault and in the outbox after \<^verbatim>\<open>commit\<close> has proposed.\<close>

lemma commit_outcome:
  assumes "commit cfg clk inp s = (Inr out, s')" and "co_edge_id out = Some i"
    and "resolve_persona cfg (ci_persona inp) s = (Inr p, s)" and "vault_ok cl (nd_vault s)"
    and "get_edge (nd_vault s) p i = Inr None" and "get_assertions (nd_vault s) p i = Inr []"
    and "get_persona (nd_vault s) p = Inr r" and "signs_for (nc_lib cfg) (pr_private_key r) p"
    and "verifier_for (nc_lib cfg) (nd_vault s) p None = Inr vr" and "held_by (v_lineage vr p) p (clk 0)"
    and "\<And>bs. length (lib_sha256 (nc_lib cfg) bs) = 32" and "cl = nc_lib cfg"
  shows "\<exists>e a st xs item. get_commitment (nd_vault s') p (co_commitment_hash out) = Inr (Some (explicit_commitment p inp (clk 0))) \<and>
    build_edge cl (co_commitment_hash out) p (e_owed_to e) (clk 0) (ci_due inp) = Some e \<and> e_id e = i \<and>
    proposable p (ci_owed_to inp) = Some (e_owed_to e) \<and>
    get_edge (nd_vault s') p i = Inr (Some e) \<and> get_assertions (nd_vault s') p i = Inr [a] \<and>
    a_edge_id a = i \<and> a_state a = AProposed \<and> a_by a = p \<and> a_evidence_hash a = None \<and> assertion_signature_ok cl a \<and>
    (\<exists>sg. sign_object cl (unsigned_assertion_members a) (pr_private_key r) = Some sg \<and> a_sig a = sg) \<and>
    edge_state cfg p i s' = (Inr st, s') \<and> cv_final_state st = SProposed \<and>
    list_outbox (nd_vault s') p = Inr xs \<and> item \<in> set xs \<and> ob_recipient item = e_owed_to e \<and>
    with_signature cl (propose_message p (e_owed_to e) e a (clk 1)) (pr_private_key r) = Some (ob_message item)"
  using assms(1,2)
proof (rule commit_Proposed)
  fix p' c v1 owed e v2 a n v3
  assume p': "resolve_persona cfg (ci_persona inp) s = (Inr p', s)" and c: "c = explicit_commitment p' inp (clk 0)"
    and v1: "put_commitment (nc_lib cfg) (nd_vault s) p' c = Inr v1" and owed: "proposable p' (ci_owed_to inp) = Some owed"
    and e: "build_edge (nc_lib cfg) (commitment_key (nc_lib cfg) c) p' owed (clk 0) (ci_due inp) = Some e"
    and v2: "put_edge (nc_lib cfg) v1 p' e = Inr v2"
    and a: "sign_assertion cfg p' (e_id e) AProposed (clk 0) None (s\<lparr>nd_vault := v2\<rparr>) = (Inr a, s\<lparr>nd_vault := v2\<rparr>)"
    and v3: "append_assertion v2 p' a = Inr (n, v3)"
    and q: "queue_propose cfg p' owed e a (clk 1) (clk 2) (s\<lparr>nd_vault := v3\<rparr>) = (Inr (), s')"
    and i: "i = e_id e" and h: "co_commitment_hash out = commitment_key (nc_lib cfg) c"
  have p: "p' = p" using p' assms(3) by simp
  note be = build_edge_Some [OF e [unfolded p]]
  have chains1: "same_chains (nd_vault s) v1" using beside_chains(1) [OF v1] .
  have fresh: "get_edge v1 p (e_id e) = Inr None" "get_assertions v1 p (e_id e) = Inr []"
    using chains1 assms(5,6) i by (simp_all add: same_chains_def)
  note new = put_edge_fresh [OF v2 [unfolded p] fresh(1)]
  obtain p1 p2 where ok: "vault_step cl p1 (nd_vault s) v1" "vault_step cl p2 v1 v2"
    using v1 v2 vault_step.intros(2,5) assms(12) by metis
  have ok1: "vault_ok cl v1" by (rule store_write_ok [OF vault_step_write [OF ok(1) assms(4)] assms(4)])
  have ok2: "vault_ok cl v2" by (rule store_write_ok [OF vault_step_write [OF ok(2) ok1] ok1])
  obtain sg rr where fields: "a_edge_id a = e_id e" "a_by a = p" "a_state a = AProposed" "a_asserted_at a = clk 0"
    and sign: "sign_object (nc_lib cfg) (unsigned_assertion_members a) (pr_private_key rr) = Some sg" "a_sig a = sg"
    and rr: "get_persona v2 p = Inr rr"
    using a p by (auto simp: sign_assertion_Inr)
  have room: "chain_room v2 p (a_edge_id a)" using new(2) fresh(2) fields by (simp add: chain_room_def)
  note v3' = get_assertions_append [OF ok2 room v3 [unfolded p]] get_edge_append [OF ok2 room v3 [unfolded p]]
  obtain r3 m oi v4 where r3: "get_persona v3 p = Inr r3"
    and m: "with_signature (nc_lib cfg) (propose_message p owed e a (clk 1)) (pr_private_key r3) = Some m"
    and v4: "put_outbox (nc_lib cfg) v3 \<lparr>ob_id = oi, ob_persona = p, ob_recipient = owed, ob_message = m,
        ob_queued_at = clk 2, ob_delivery = no_delivery\<rparr> = Inr v4" and s': "s' = s\<lparr>nd_vault := v4\<rparr>"
    by (rule queue_propose_Inr [OF q [unfolded p]]) (auto intro: that)
  have rec: "same_part ps_record (nd_vault s) v1" "same_part ps_record v1 v2" "same_part ps_record v2 v3"
    by (rule put_commitment_parts [OF v1] put_edge_parts [OF v2] append_parts [OF v3]; simp)+
  then have r: "rr = r" "r3 = r" using assms(7) rr r3 by (simp_all add: same_part_reads(2))
  have com: "same_part ps_commitments v1 v2" "same_part ps_commitments v2 v3" "same_part ps_commitments v3 v4"
    by (rule put_edge_parts [OF v2] append_parts [OF v3] put_outbox_parts [OF v4]; simp)+
  have cm: "get_commitment v4 p (co_commitment_hash out) = Inr (Some (explicit_commitment p inp (clk 0)))"
    using get_put_commitment [OF v1 commitment_key_hex [OF assms(11)]] com h c p by (simp add: same_part_reads(1))
  have rot: "same_part ps_rotations (nd_vault s) v1" "same_part ps_rotations v1 v2" "same_part ps_rotations v2 v3" "same_part ps_rotations v3 v4"
    by (rule put_commitment_parts [OF v1] put_edge_parts [OF v2] append_parts [OF v3] put_outbox_parts [OF v4]; simp)+
  have vf: "verifier_for (nc_lib cfg) v4 p None = Inr vr" using rot assms(9) by (simp add: same_rotations_verifier)
  have chain: "get_edge v4 p (e_id e) = Inr (Some e)" "get_assertions v4 p (e_id e) = Inr [a]"
    using beside_chains(3) [OF v4] v3' new fresh(2) fields by (simp_all add: same_chains_def)
  have lib: "v_lib vr = nc_lib cfg" using verifier_for_clock [OF assms(9)] by simp
  have sig: "assertion_signature_ok (v_lib vr) (a\<lparr>a_sig := sg\<rparr>)"
    using signed_assertion_ok [of "nc_lib cfg" "pr_private_key r" a sg] assms(8) sign r fields lib by simp
  have a_sig: "a\<lparr>a_sig := sg\<rparr> = a" using sign(2) by (cases a) simp
  then have "cv_final_state (verify_assertion_chain vr e [a]) = SProposed"
    using first_proposal [of vr e a] be fields lib assms(10) sig by (simp add: is_owner_key_def)
  moreover have "edge_state cfg p i s' = (Inr (verify_assertion_chain vr e [a]), s')"
    using chain vf by (simp add: edge_state_Inr s' i)
  moreover have "a_evidence_hash a = None" using a by (auto simp: sign_assertion_Inr)
  moreover obtain xs where "list_outbox (nd_vault s') p = Inr xs" "\<lparr>ob_id = oi, ob_persona = p, ob_recipient = owed, ob_message = m,
        ob_queued_at = clk 2, ob_delivery = no_delivery\<rparr> \<in> set xs"
    using list_outbox_put [OF v4] s' by auto
  ultimately show ?thesis
    using cm chain be owed h i c p s' e m r fields sign sig a_sig lib assms(12)
    by (intro exI [of _ e] exI [of _ a] exI [of _ "verify_assertion_chain vr e [a]"] exI [of _ xs] exI conjI) auto
qed

text \<open>
  \<^verbatim>\<open>commit\<close> records the caller's own promise and, when it proposes, opens the edge on both sides of the
  wire: the commitment is filed under its hash with the calling persona as owner; the edge names that hash,
  the caller as owner and the counterparty asked for; its stored chain is a valid proposal; and the outbox
  holds a message to the counterparty that verifies under the caller's key.
\<close>

theorem commit_proposes:
  assumes "commit cfg clk inp s = (Inr out, s')" and "co_edge_id out = Some i"
    and "resolve_persona cfg (ci_persona inp) s = (Inr p, s)" and "vault_ok cl (nd_vault s)"
    and "get_edge (nd_vault s) p i = Inr None" and "get_assertions (nd_vault s) p i = Inr []"
    and "get_persona (nd_vault s) p = Inr r" and "signs_for (nc_lib cfg) (pr_private_key r) p"
    and "verifier_for (nc_lib cfg) (nd_vault s) p None = Inr vr" and "held_by (v_lineage vr p) p (clk 0)"
    and "\<And>bs. length (lib_sha256 (nc_lib cfg) bs) = 32" and "cl = nc_lib cfg"
  shows "\<exists>e st xs item. get_commitment (nd_vault s') p (co_commitment_hash out) = Inr (Some (explicit_commitment p inp (clk 0))) \<and>
    get_edge (nd_vault s') p i = Inr (Some e) \<and> e_owner e = p \<and> ci_owed_to inp = Some (e_owed_to e) \<and>
    e_commitment_hash e = co_commitment_hash out \<and> edge_state cfg p i s' = (Inr st, s') \<and> cv_final_state st = SProposed \<and>
    list_outbox (nd_vault s') p = Inr xs \<and> item \<in> set xs \<and> ob_recipient item = e_owed_to e \<and>
    verify_object (nc_lib cfg) (ob_message item) p"
proof -
  have k: "signs_for (nc_lib cfg) (pr_private_key r) p" by (rule assms(8))
  from commit_outcome [OF assms] obtain e a st xs item where
    "get_commitment (nd_vault s') p (co_commitment_hash out) = Inr (Some (explicit_commitment p inp (clk 0)))"
    and be: "build_edge cl (co_commitment_hash out) p (e_owed_to e) (clk 0) (ci_due inp) = Some e"
    and pr: "proposable p (ci_owed_to inp) = Some (e_owed_to e)"
    and "get_edge (nd_vault s') p i = Inr (Some e)" "edge_state cfg p i s' = (Inr st, s')" "cv_final_state st = SProposed"
    "list_outbox (nd_vault s') p = Inr xs" "item \<in> set xs" "ob_recipient item = e_owed_to e"
    and m: "with_signature cl (propose_message p (e_owed_to e) e a (clk 1)) (pr_private_key r) = Some (ob_message item)"
    by (elim exE conjE) (rule that)
  with build_edge_Some [OF be] pr verify_with_signature [OF k m [unfolded assms(12)]] show ?thesis
    by (intro exI [of _ e] exI [of _ st] exI [of _ xs] exI [of _ item]) (simp add: proposable_Some)
qed

section \<open>A first promise\<close>

definition newcomer :: "persona_id \<Rightarrow> node" where
  "newcomer p = \<lparr>nd_vault = put_store empty_vault p (empty_store (sample_persona p ''me'')),
     nd_local = \<lparr>ls_pending = [], ls_ingested = []\<rparr>\<rparr>"

definition sample_promise :: commit_input where
  "sample_promise = \<lparr>ci_intent = ''ship it'', ci_owed_to = Some bob, ci_due = Some (jan 20), ci_persona = None,
     ci_propose = True, ci_names_owner = False\<rparr>"

text \<open>\<open>commit\<close> goes through whenever the counterparty can be proposed to and the edge is new.\<close>

lemma json_depth_propose: "json_depth (JObj (propose_message p q e a t)) \<le> 5"
  using json_depth_edge [of e]
  by (auto simp: propose_message_def assertion_members_def unsigned_assertion_members_def json_depth_le simp del: json_depth.simps(1,2))

lemma append_first:
  assumes "edge_dir v p (a_edge_id a) = Inr d" and "get_assertions v p (a_edge_id a) = Inr []"
  obtains v' where "append_assertion v p a = Inr (0, v')"
  using assms by (cases d) (auto simp: append_assertion_def get_assertions_def intro: that)

lemma commit_succeeds:
  assumes "resolve_persona cfg (ci_persona inp) s = (Inr p, s)" and "\<not> ci_names_owner inp" and "ci_propose inp"
    and "proposable p (ci_owed_to inp) = Some q" and "hex64 p" and "get_persona (nd_vault s) p = Inr r"
    and "signs_for (nc_lib cfg) (pr_private_key r) p" and "\<And>bs. length (lib_sha256 (nc_lib cfg) bs) = 32"
    and "build_edge (nc_lib cfg) (commitment_key (nc_lib cfg) (explicit_commitment p inp (clk 0))) p q (clk 0) (ci_due inp) = Some e"
    and "get_edge (nd_vault s) p (e_id e) = Inr None" and "get_assertions (nd_vault s) p (e_id e) = Inr []"
  shows "\<exists>s'. commit cfg clk inp s = (Inr \<lparr>co_commitment_hash = commitment_key (nc_lib cfg) (explicit_commitment p inp (clk 0)),
    co_edge_id = Some (e_id e), co_state = Proposed\<rparr>, s')"
proof -
  let ?c = "explicit_commitment p inp (clk 0)"
  let ?cl = "nc_lib cfg"
  have p: "hex_id p" using assms(5) by (rule hex64_hex_id)
  note be = build_edge_Some [OF assms(9)]
  have q: "hex64 q" using assms(4) by (simp add: proposable_Some)
  note i = build_edge_id [OF assms(9,8)]
  obtain v1 where v1: "put_commitment ?cl (nd_vault s) p ?c = Inr v1"
    using assms(6) p by (auto simp: put_commitment_def explicit_commitment_def assert_hex_id_def get_persona_def map_sum_Inr_iff)
  have fresh: "get_edge v1 p (e_id e) = Inr None" "get_assertions v1 p (e_id e) = Inr []"
    using beside_chains(1) [OF v1] assms(10,11) by (simp_all add: same_chains_def)
  obtain v2 where v2: "put_edge ?cl v1 p e = Inr v2"
    using fresh(1) i(2) by (auto simp: put_edge_def get_edge_def map_sum_Inr_iff)
  note new = put_edge_fresh [OF v2 fresh(1)]
  have r1: "get_persona v2 p = Inr r"
    using assms(6) put_commitment_parts [OF v1, of ps_record] put_edge_parts [OF v2, of ps_record] by (simp add: same_part_reads(2))
  let ?a = "\<lparr>a_edge_id = e_id e, a_state = AProposed, a_asserted_at = clk 0, a_by = p, a_evidence_hash = None, a_sig = []\<rparr>"
  obtain sg where sg: "sign_object ?cl (unsigned_assertion_members ?a) (pr_private_key r) = Some sg"
    by (rule sign_object_defined [OF assms(7)])
      (auto simp: unsigned_assertion_members_def json_depth_le simp del: json_depth.simps(1,2))
  let ?b = "?a\<lparr>a_sig := sg\<rparr>"
  obtain d where "edge_dir v2 p (e_id e) = Inr d" using new(1) by (auto simp: get_edge_def map_sum_Inr_iff)
  with new(2) fresh(2) obtain v3 where v3: "append_assertion v2 p ?b = Inr (0, v3)"
    by (auto elim!: append_first [of v2 p ?b d, simplified])
  have r3: "get_persona v3 p = Inr r"
    using r1 append_parts [OF v3, of ps_record] by (simp add: same_part_reads(2))
  let ?m = "propose_message p q e ?b (clk 1)"
  obtain ms where ms: "sign_object ?cl ?m (pr_private_key r) = Some ms"
    by (rule sign_object_defined [OF assms(7), of ?m]) (use json_depth_propose [of p q e ?b "clk 1"] in auto)
  let ?sent = "map_set ''sig'' (JStr ms) ?m"
  have "json_depth (JObj ?sent) \<le> 256"
    using json_depth_propose [of p q e ?b "clk 1"]
    by (auto simp: propose_message_def json_depth_le simp del: json_depth.simps(1,2))
  then obtain oi where oi: "hash_canonical ?cl (JObj ?sent) = Some oi" "hex64 oi"
    using canonical_bytes_defined [of "JObj ?sent"] assms(8) by (auto simp: hash_canonical_def sha256_hex_def hex64_to_hex)
  have "require_persona v3 p \<noteq> Inl x" for x using r3 by (auto simp: get_persona_def)
  then obtain v4 where v4: "put_outbox ?cl v3 \<lparr>ob_id = oi, ob_persona = p, ob_recipient = q, ob_message = ?sent,
      ob_queued_at = clk 2, ob_delivery = no_delivery\<rparr> = Inr v4"
    using oi q assms(5) by (cases "require_persona v3 p") (auto simp: put_outbox_def)
  show ?thesis
    using assms(1-4,9) v1 v2 r1 sg v3 r3 ms oi(1) v4
    by (simp add: commit_def op_eval write_vault_def Let_def sign_assertion_def private_key_of_def queue_propose_def
        with_signature_def)
qed

lemma newcomer_reads:
  assumes "p \<in> {alice, bob}"
  shows "get_persona (nd_vault (newcomer p)) p = Inr (sample_persona p ''me'')"
    and "vault_ok sample_lib (nd_vault (newcomer p))"
    and "hex_id i \<Longrightarrow> get_edge (nd_vault (newcomer p)) p i = Inr None"
    and "hex_id i \<Longrightarrow> get_assertions (nd_vault (newcomer p)) p i = Inr []"
    and "list_rotations (nd_vault (newcomer p)) p = Inr []"
    and "verifier_for sample_lib (nd_vault (newcomer p)) p None = Inr sample_verifier"
    and "small (nd_vault (newcomer p))" and "get_edge (nd_vault (newcomer p)) q j \<noteq> Inr (Some e)"
proof -
  have a: "hex_id p" using assms by (auto simp: hex64_hex_id parties_hex64)
  have r: "require_persona (nd_vault (newcomer p)) p = Inr (empty_store (sample_persona p ''me''))"
    using a by (simp add: newcomer_def require_put_store)
  show "get_persona (nd_vault (newcomer p)) p = Inr (sample_persona p ''me'')"
    by (simp add: get_persona_def r empty_store_def)
  show "hex_id i \<Longrightarrow> get_edge (nd_vault (newcomer p)) p i = Inr None"
    "hex_id i \<Longrightarrow> get_assertions (nd_vault (newcomer p)) p i = Inr []"
    by (simp_all add: get_edge_def get_assertions_def edge_dir_def r assert_hex_id_def empty_store_def no_edge_files_def)
  show "list_rotations (nd_vault (newcomer p)) p = Inr []" by (simp add: list_rotations_def r empty_store_def)
  then show "verifier_for sample_lib (nd_vault (newcomer p)) p None = Inr sample_verifier"
    by (simp add: verifier_for_def successor_resolver_def sample_verifier_def clockless_def)
  show "vault_ok sample_lib (nd_vault (newcomer p))"
    using a by (auto simp: vault_ok_def newcomer_def put_store_def empty_vault_def labels_distinct_def dir_get_def
        store_ok_def empty_store_def sample_persona_def dir_ok_def dir_names_def split: if_splits)
  show "small (nd_vault (newcomer p))"
    by (auto simp: small_def newcomer_def put_store_def empty_vault_def empty_store_def dir_get_def split: if_splits)
  show "get_edge (nd_vault (newcomer p)) q j \<noteq> Inr (Some e)"
    by (auto simp: get_edge_def map_sum_Inr_iff edge_dir_Inr require_persona_Inr newcomer_def put_store_def empty_vault_def
        empty_store_def dir_get_def no_edge_files_def split: if_splits)
qed

lemma newcomer_commits:
  obtains e s' where "build_edge sample_lib (commitment_key sample_lib (explicit_commitment alice sample_promise (sample_clock 0))) alice bob
      (sample_clock 0) (ci_due sample_promise) = Some e" and "hex64 (e_id e)"
    and "commit (sample_config alice) sample_clock sample_promise (newcomer alice) =
      (Inr \<lparr>co_commitment_hash = commitment_key sample_lib (explicit_commitment alice sample_promise (sample_clock 0)),
         co_edge_id = Some (e_id e), co_state = Proposed\<rparr>, s')"
proof -
  have hash: "length (lib_sha256 (nc_lib (sample_config alice)) bs) = 32" for bs by (simp add: sample_lib_def)
  let ?c = "explicit_commitment alice sample_promise (sample_clock 0)"
  have "edge_id_of sample_lib \<lparr>ei_commitment_hash = commitment_key sample_lib ?c, ei_owner = alice, ei_owed_to = bob,
      ei_proposed_at = text_of (sample_clock 0)\<rparr> \<noteq> None"
    using parties_hex64 by (simp add: edge_id_of_def commitment_key_def commitment_hash_eq sha256_hex_def hex64_to_hex sample_lib_def)
  then obtain e where e: "build_edge sample_lib (commitment_key sample_lib ?c) alice bob (sample_clock 0) (ci_due sample_promise) = Some e"
    by (auto simp: build_edge_def)
  have h: "hex64 (e_id e)" using build_edge_id(1) [OF e] hash by simp
  have p: "resolve_persona (sample_config alice) (ci_persona sample_promise) (newcomer alice) = (Inr alice, newcomer alice)"
    by (simp add: resolve_persona_def sample_promise_def return_op_def)
  have k: "signs_for sample_lib alice alice" using sample_signs by simp
  obtain s' where "commit (sample_config alice) sample_clock sample_promise (newcomer alice) =
      (Inr \<lparr>co_commitment_hash = commitment_key sample_lib ?c, co_edge_id = Some (e_id e), co_state = Proposed\<rparr>, s')"
    using commit_succeeds [OF p _ _ _ parties_hex64(1), of bob "sample_persona alice ''me''" sample_clock e]
      newcomer_reads [of alice] h e k hash parties_hex64
    by (auto simp: sample_promise_def proposable_def sample_persona_def hex64_hex_id)
  with that e h show thesis by blast
qed

text \<open>What the properties of \<^verbatim>\<open>commit\<close> ask, for this promise.\<close>

lemma newcomer_promise:
  assumes "hex64 i"
  shows "resolve_persona (sample_config alice) (ci_persona sample_promise) (newcomer alice) = (Inr alice, newcomer alice)"
    and "vault_ok sample_lib (nd_vault (newcomer alice))" and "get_edge (nd_vault (newcomer alice)) alice i = Inr None"
    and "get_assertions (nd_vault (newcomer alice)) alice i = Inr []"
    and "get_persona (nd_vault (newcomer alice)) alice = Inr (sample_persona alice ''me'')"
    and "signs_for (nc_lib (sample_config alice)) (pr_private_key (sample_persona alice ''me'')) alice"
    and "verifier_for (nc_lib (sample_config alice)) (nd_vault (newcomer alice)) alice None = Inr sample_verifier"
    and "held_by (v_lineage sample_verifier alice) alice (sample_clock 0)"
    and "length (lib_sha256 (nc_lib (sample_config alice)) bs) = 32" and "sample_lib = nc_lib (sample_config alice)"
  using newcomer_reads [of alice] sample_signs hex64_hex_id [OF assms]
  by (simp_all add: resolve_persona_def sample_promise_def return_op_def sample_persona_def sample_lib_def)

text \<open>Alice's first promise is proposed to Bob.\<close>

theorem commit_proposes_witness:
  "\<exists>out s' xs item. commit (sample_config alice) sample_clock sample_promise (newcomer alice) = (Inr out, s') \<and>
    list_outbox (nd_vault s') alice = Inr xs \<and> item \<in> set xs \<and> ob_recipient item = bob \<and>
    verify_object sample_lib (ob_message item) alice"
proof -
  obtain e :: edge and s' where h: "hex64 (e_id e)"
    and c: "commit (sample_config alice) sample_clock sample_promise (newcomer alice) =
      (Inr \<lparr>co_commitment_hash = commitment_key sample_lib (explicit_commitment alice sample_promise (sample_clock 0)),
         co_edge_id = Some (e_id e), co_state = Proposed\<rparr>, s')" by (rule newcomer_commits)
  from commit_proposes [OF c _ newcomer_promise(1-8) [OF h] newcomer_promise(9,10) [OF h]] c show ?thesis
    by (auto simp: sample_promise_def)
qed

end
