(* ===== verification/NodeClaims.thy ===== *)
theory NodeClaims
  imports Proposals
begin

text \<open>
  What the node surface promises, over whole calls of \<^verbatim>\<open>commit\<close>, \<^verbatim>\<open>confirm\<close>, \<^verbatim>\<open>act\<close>, \<^verbatim>\<open>open_loops\<close>
  and \<^verbatim>\<open>brief\<close>.
\<close>

text \<open>Who may assert what through \<^verbatim>\<open>act\<close>.\<close>

definition act_standing :: "persona_id \<Rightarrow> edge \<Rightarrow> wire_state \<Rightarrow> sha256_hex option \<Rightarrow> bool" where
  "act_standing p e w ev \<longleftrightarrow>
     (w = AClosed \<and> p = e_owner e) \<or> (w = AReleased \<and> p = e_owed_to e \<and> ev = None) \<or>
     (w = AExpired \<and> p \<in> {e_owner e, e_owed_to e} \<and> ev = None)"

lemma act_refused_standing:
  assumes "act_refused p e inp = None"
  shows "act_standing p e (asserted_by_act (ac_act inp)) (ac_evidence inp)"
  using assms
  by (cases "ac_act inp") (auto simp: act_refused_def act_standing_def asserted_by_act_def split: if_splits)

text \<open>
  C4: a call of \<^verbatim>\<open>act\<close> either changes nothing, and then reports no assertion, or appends exactly one
  assertion to the chain it names: signed by the caller's persona, within the caller's role, and accepted
  by the transition table at the end of the chain. Beyond the chains, where this is the one difference,
  the whole node is as it was: every persona's record, promises, expectations, edge bodies and their
  bookkeeping, publications, rotations, attestations and outbox, and the local state. (The vault is well
  formed and the chain holds fewer than ten thousand assertions.)
\<close>

theorem act_refuses_or_appends_one:
  assumes "act_op cfg clk inp s = (r, s')" and "vault_ok cl (nd_vault s)" and "roomy (nd_vault s)"
  shows "(s' = s \<and> (\<forall>w. r \<noteq> Inr (Inr w))) \<or>
    (\<exists>p e as a vr. r = Inr (Inr (a_state a)) \<and> get_edge (nd_vault s) p (ac_id inp) = Inr (Some e) \<and>
       act_standing p e (a_state a) (a_evidence_hash a) \<and> a_by a = p \<and> a_asserted_at a = clk 0 \<and>
       verifier_for (nc_lib cfg) (nd_vault s) p (Some (ms_of (clk 1))) = Inr vr \<and> table.accepts vr e as a \<and>
       get_assertions (nd_vault s) p (e_id e) = Inr as \<and>
       (\<forall>q j. get_assertions (nd_vault s') q j =
          (if q = p \<and> j = e_id e then Inr (as @ [a]) else get_assertions (nd_vault s) q j)) \<and>
       s'\<lparr>nd_vault := sans_chains (nd_vault s')\<rparr> = s\<lparr>nd_vault := sans_chains (nd_vault s)\<rparr> \<and>
       (\<forall>q j. get_edge (nd_vault s') q j = get_edge (nd_vault s) q j))"
  using assms(1)
proof (cases rule: act_op_cases)
  case nothing
  then show ?thesis by blast
next
  case (signs p k e)
  have room: "chain_room (nd_vault s) p (e_id e)" using assms(3) by (simp add: roomy_def)
  have "get_edge (nd_vault s) p (e_id e) = Inr (Some e)"
    using signs(2) vault_ok_edge_id [OF assms(2)] by metis
  note rest = signs_and_stores_sans_chains [OF signs(5) assms(2) this]
  show ?thesis
    by (rule signs_and_stores_effect [OF signs(5) assms(2) room])
      (use signs(2-4) rest act_refused_standing [OF signs(3)] in \<open>intro disjI2 exI conjI allI; simp\<close>)
qed

lemma holder_roomy: "roomy (nd_vault (holder p held_files))"
  by (simp add: roomy_def holder_room held_files_def)

theorem act_refuses_or_appends_one_witness:
  "\<exists>s' p i as a. act_op (sample_config alice) sample_clock sample_done (holder alice held_files) = (Inr (Inr AClosed), s') \<and>
     a_by a = p \<and> get_assertions (nd_vault (holder alice held_files)) p i = Inr as \<and>
     get_assertions (nd_vault s') p i = Inr (as @ [a])"
proof -
  obtain s' where s': "act_op (sample_config alice) sample_clock sample_done (holder alice held_files) = (Inr (Inr AClosed), s')"
    using sample_done_accepted by blast
  have "vault_ok sample_lib (nd_vault (holder alice held_files))" by (simp add: holder_ok held_files_ok)
  from act_refuses_or_appends_one [OF s' this holder_roomy]
  have "\<exists>p i as a. a_by a = p \<and> get_assertions (nd_vault (holder alice held_files)) p i = Inr as \<and>
      get_assertions (nd_vault s') p i = Inr (as @ [a])"
    by (elim disjE exE conjE) (blast, metis)
  with s' show ?thesis by blast
qed

section \<open>The register and the act agree\<close>

text \<open>
  C5: the register advertises nothing it would refuse. Take an edge on the first page that \<^verbatim>\<open>open_loops\<close>
  answers the active persona, to which that persona is a party, and an act it offers there with
  \<^verbatim>\<open>tool: "act"\<close>. Called through \<^verbatim>\<open>act\<close> at an instant no earlier than the listing, before anything else
  happens, and with evidence exactly when it closes the edge, it is accepted and reports the state it
  asserts, provided the persona can sign at all: the private key is the persona's and is not rotated away
  at that instant, and the stored chain is accepted so far, is dated strictly before the act and holds
  fewer than ten thousand assertions (\<^const>\<open>can_sign\<close>).
\<close>

theorem listed_act_is_accepted:
  assumes "open_loops cfg wall call s = (Inr pg, s1)" and "it \<in> set (pg_items pg)" and "li_kind it = KeyEdge"
    and "ia \<in> set (li_actions it)" and "ia_tool ia = Some ToolAct"
    and "lc_persona call = None" and "lc_cursor call = None" and "vault_ok cl (nd_vault s)"
    and "get_edge (nd_vault s) (nc_active cfg) (li_id it) = Inr (Some e)"
    and "e_owner e = nc_active cfg \<or> e_owed_to e = nc_active cfg"
    and "can_sign cfg clk s (nc_active cfg) e as vr"
    and "ac_id inp = li_id it" and "ac_act inp = ia_act ia" and "ac_act inp = ActDone \<longleftrightarrow> ac_evidence inp \<noteq> None"
    and "ms_of wall \<le> ms_of (clk 0)"
  shows "\<exists>s'. act_op cfg clk inp s = (Inr (Inr (asserted_by_act (ac_act inp))), s')"
proof -
  let ?p = "nc_active cfg"
  obtain i where item: "edge_item cfg (ms_of wall) ?p (lc_view call) (ms_of wall) i s = (Inr (Some it), s)"
  proof (rule open_loops_items [OF assms(1)])
    fix p as_of cur items
    assume "resolve_persona cfg (lc_persona call) s = (Inr p, s)" "as_of_call call p wall = Some (as_of, cur)"
      "items_for cfg (ms_of wall) p (lc_view call) (ms_of as_of) s = (Inr items, s)" "set (pg_items pg) \<subseteq> set items"
    then have "items_for cfg (ms_of wall) ?p (lc_view call) (ms_of wall) s = (Inr items, s)" and "it \<in> set items"
      using assms(2,6,7) by (auto simp: resolve_persona_def as_of_call_def)
    from items_for_edge [OF this assms(3)] that show thesis by blast
  qed
  then have i: "li_id it = i" by (rule edge_item_Some)
  have id: "e_id e = i"
    using assms(8,9) i vault_ok_edge_id by blast
  from open_loops_keys [OF assms(1,6)] assms(9) obtain k where "locate cfg i s = (Inr (Some (?p, k)), s)"
    using locate_active i by blast
  with assms id i show ?thesis by (intro edge_item_act [OF item]) auto
qed

theorem listed_act_is_accepted_witness:
  "\<exists>s'. act_op (sample_config alice) sample_clock sample_done (holder alice held_files) = (Inr (Inr AClosed), s')"
proof -
  have p: "alice \<in> {alice, bob}" by simp
  obtain pg where pg: "open_loops (sample_config alice) (jan 9) sample_call (holder alice held_files) = (Inr pg, holder alice held_files)"
    "pg_items pg = [shown_item alice]"
    using holder_open_loops [OF p] by blast
  have "\<exists>s'. act_op (sample_config alice) sample_clock sample_done (holder alice held_files) =
      (Inr (Inr (asserted_by_act (ac_act sample_done))), s')"
    by (rule listed_act_is_accepted [OF pg(1) _ _ done_shown])
      (use holder_ok [OF p held_files_ok] held_edge_held [OF p] holder_can_sign [OF p] in
        \<open>simp_all add: pg(2) shown_item_def sample_call_def sample_done_def bind_act_def sample_clock_def\<close>)
  then show ?thesis by (simp add: sample_done_def asserted_by_act_def)
qed

section \<open>Confirming\<close>

lemma confirmed_opens:
  assumes "admit v e c a = Inr c'" and "a_state a = AConfirmed"
  shows "c_state c' = SOpen"
proof -
  from assms(1) obtain c1 where st: "step v e c a = Inr c1" and c': "c_state c' = c_state c1" by (auto simp: admit_step)
  from st have "c_state c1 = SOpen"
  proof (cases rule: step_cases)
    case contest
    then show ?thesis using assms(2) by (auto simp: unilateral_exit_fault_def)
  next
    case contested
    then show ?thesis using assms(2) by (auto elim: contested_step.cases)
  next
    case row
    from row(4) assms(2) show ?thesis by (auto elim: row_step.cases)
  qed
  with c' show ?thesis by simp
qed

lemma accepted_confirmation_opens:
  assumes "table.all_accepted vr e as" and "table.accepts vr e as a" and "a_state a = AConfirmed"
  shows "cv_final_state (verify_assertion_chain (vr\<lparr>v_now := None\<rparr>) e (as @ [a])) = SOpen"
proof -
  obtain c c' where "admit vr e c a = Inr c'"
    and st: "\<And>m. clock_le (v_now vr) m \<Longrightarrow>
      cv_final_state (verify_assertion_chain (vr\<lparr>v_now := m\<rparr>) e (as @ [a])) = c_state c'"
    using accepts_admit [OF assms(1,2)] by metis
  with confirmed_opens [OF this(1) assms(3)] show ?thesis by (simp add: clock_le_def)
qed

text \<open>
  A confirmation that succeeds was made by the party the promise is owed to, who is not its owner; it
  appends one \<^verbatim>\<open>confirmed\<close> assertion of theirs to the chain, after which the edge is open, and the edge is
  no longer hidden from the register by an earlier dismissal.
\<close>

theorem confirm_binds_only_the_creditor:
  assumes "confirm_edge cfg clk p inp s = (Inr Confirmed, s')" and "vault_ok cl (nd_vault s)" and "roomy (nd_vault s)"
    and "chains_valid (nc_lib cfg) (Some (ms_of (clk 1))) (nd_vault s)" and "cl = nc_lib cfg"
  shows "\<exists>e as a st m. get_edge (nd_vault s) p (cf_id inp) = Inr (Some e) \<and> e_owner e \<noteq> p \<and> e_owed_to e = p \<and>
    a_state a = AConfirmed \<and> a_by a = p \<and> get_assertions (nd_vault s) p (e_id e) = Inr as \<and>
    get_assertions (nd_vault s') p (e_id e) = Inr (as @ [a]) \<and>
    edge_state cfg p (e_id e) s' = (Inr st, s') \<and> cv_final_state st = SOpen \<and>
    get_edge_meta (nd_vault s') p (e_id e) = Inr m \<and> \<not> em_dismissed m"
proof -
  obtain e s1 m where e: "get_edge (nd_vault s) p (cf_id inp) = Inr (Some e)" "e_owner e \<noteq> p" "e_owed_to e = p"
    and sg: "signs_and_stores cfg p e AConfirmed (clk 0) (clk 1) None s s1"
    and m: "get_edge_meta (nd_vault s1) p (e_id e) = Inr m"
    and s': "if em_dismissed m then \<exists>v. put_edge_meta (nd_vault s1) p (m\<lparr>em_dismissed := False\<rparr>) = Inr v \<and> s' = s1\<lparr>nd_vault := v\<rparr>
      else s' = s1"
    using confirm_edge_Confirmed [OF assms(1)] by metis
  have id: "e_id e = cf_id inp" and binds: "edge_id_binds_body cl e" using vault_ok_edge_id [OF assms(2) e(1)] by simp_all
  have room: "chain_room (nd_vault s) p (e_id e)" using assms(3) by (simp add: roomy_def)
  have same: "same_chains (nd_vault s1) (nd_vault s')"
    using s' put_edge_meta_chains by (auto split: if_splits)
  have ok1: "vault_ok cl (nd_vault s1)" by (rule signs_and_stores_ok [OF sg assms(2) room])
  have meta: "\<exists>m'. get_edge_meta (nd_vault s') p (e_id e) = Inr m' \<and> \<not> em_dismissed m'"
    using s' m by (cases "em_dismissed m") (auto dest!: get_put_edge_meta simp: get_edge_meta_id [OF ok1 m])
  show ?thesis
  proof (rule signs_and_stores_effect [OF sg assms(2) room])
    fix as a vr
    assume h: "get_assertions (nd_vault s) p (e_id e) = Inr as"
        "verifier_for (nc_lib cfg) (nd_vault s) p (Some (ms_of (clk 1))) = Inr vr" "table.accepts vr e as a"
        "a_edge_id a = e_id e" "a_by a = p" "a_state a = AConfirmed"
      and g: "\<And>q j. get_assertions (nd_vault s1) q j =
           (if q = p \<and> j = e_id e then Inr (as @ [a]) else get_assertions (nd_vault s) q j)"
        "\<And>q j. get_edge (nd_vault s1) q j = get_edge (nd_vault s) q j"
        "\<And>q n. verifier_for (nc_lib cfg) (nd_vault s1) q n = verifier_for (nc_lib cfg) (nd_vault s) q n"
    have all: "table.all_accepted vr e as" using assms(4) e(1) id h(1,2) by (auto simp: chains_valid_def)
    have st: "edge_state cfg p (e_id e) s' = (Inr (verify_assertion_chain (vr\<lparr>v_now := None\<rparr>) e (as @ [a])), s')"
      using same g e(1) id verifier_for_clock [OF h(2), of None] same_rotations_verifier [of "nd_vault s1" "nd_vault s'"]
      by (simp add: edge_state_Inr same_chains_def)
    have "cv_final_state (verify_assertion_chain (vr\<lparr>v_now := None\<rparr>) e (as @ [a])) = SOpen"
      by (rule accepted_confirmation_opens [OF all h(3,6)])
    with e h st same g meta show ?thesis by (auto simp: same_chains_def)
  qed
qed

theorem confirm_binds_only_the_creditor_witness:
  "\<exists>s' st. confirm_edge (sample_config bob) sample_clock bob sample_confirm (holder bob (offered_files True)) = (Inr Confirmed, s') \<and>
     edge_state (sample_config bob) bob (e_id held_edge) s' = (Inr st, s') \<and> cv_final_state st = SOpen"
proof -
  obtain s' where s': "confirm_edge (sample_config bob) sample_clock bob sample_confirm (holder bob (offered_files True)) = (Inr Confirmed, s')"
    using sample_confirm_succeeds by blast
  have ok: "vault_ok sample_lib (nd_vault (holder bob (offered_files True)))" by (simp add: holder_ok offered_files_ok)
  have room: "roomy (nd_vault (holder bob (offered_files True)))"
    unfolding roomy_def by (intro allI holder_room) (simp add: offered_files_def)
  have valid: "chains_valid (nc_lib (sample_config bob)) (Some (ms_of (sample_clock 1))) (nd_vault (holder bob (offered_files True)))"
    by (simp add: offered_chains_valid)
  obtain e st where "get_edge (nd_vault (holder bob (offered_files True))) bob (cf_id sample_confirm) = Inr (Some e)"
    "edge_state (sample_config bob) bob (e_id e) s' = (Inr st, s')" "cv_final_state st = SOpen"
    using confirm_binds_only_the_creditor [OF s' ok room valid] by auto
  with s' offered_reads(1) show ?thesis by (auto simp: sample_confirm_def)
qed

text \<open>
  An inbound proposal the register lists with \<^verbatim>\<open>confirm\<close> can be confirmed: called for the active persona,
  \<^verbatim>\<open>confirm\<close> records the confirmation.
\<close>

theorem listed_proposal_is_confirmed:
  assumes "open_loops cfg wall call s = (Inr pg, s1)" and "it \<in> set (pg_items pg)" and "li_kind it = KeyEdge"
    and "ia \<in> set (li_actions it)" and "ia_act ia = ActConfirm" and "lc_persona call = None" and "vault_ok cl (nd_vault s)"
    and "get_edge (nd_vault s) (nc_active cfg) (li_id it) = Inr (Some e)"
    and "e_owner e \<noteq> nc_active cfg" and "e_owed_to e = nc_active cfg"
    and "can_sign cfg clk s (nc_active cfg) e as vr" and "cf_id inp = li_id it" and "cf_decision inp = DecideConfirm"
  shows "\<exists>s'. confirm cfg clk inp s = (Inr Confirmed, s')"
proof -
  let ?p = "nc_active cfg"
  obtain i now where item: "edge_item cfg (ms_of wall) ?p (lc_view call) now i s = (Inr (Some it), s)"
  proof (rule open_loops_items [OF assms(1)])
    fix p as_of cur items
    assume "resolve_persona cfg (lc_persona call) s = (Inr p, s)"
      "items_for cfg (ms_of wall) p (lc_view call) (ms_of as_of) s = (Inr items, s)" "set (pg_items pg) \<subseteq> set items"
    then have "items_for cfg (ms_of wall) ?p (lc_view call) (ms_of as_of) s = (Inr items, s)" and "it \<in> set items"
      using assms(2,6) by (auto simp: resolve_persona_def)
    from items_for_edge [OF this assms(3)] that show thesis by blast
  qed
  obtain st win where i: "li_id it = i" and st: "edge_state cfg ?p i s = (Inr st, s)" and
    "li_actions it = actions_for (cv_final_state st) (viewer_of ?p e) i win (dispute_window_elapsed st now) (due_elapsed e now)"
    using edge_item_Some [OF item] assms(8) by (metis Inr_inject option.inject)
  with assms(4,5) have offered: "cv_final_state st = SProposed"
    by (cases "cv_final_state st") (auto simp: actions_for_def bind_act_def Let_def split: if_split_asm)
  have id: "e_id e = i" using vault_ok_edge_id [OF assms(7,8)] i by simp
  have vr: "verifier_for (nc_lib cfg) (nd_vault s) ?p (Some (ms_of (clk 1))) = Inr vr" and as: "get_assertions (nd_vault s) ?p i = Inr as"
    using assms(11) id by (auto simp: can_sign_def)
  note vrf = verifier_for_clock [OF vr, of None]
  have stv: "st = verify_assertion_chain (vr\<lparr>v_now := None\<rparr>) e as"
    using st assms(8) as vrf i by (auto simp: edge_state_Inr)
  have wf: "edge_malformed (nc_lib cfg) e = None"
    using offered vrf stv by (cases "edge_malformed (nc_lib cfg) e") (auto simp: verify_assertion_chain_def)
  obtain s' where "record_confirmation cfg clk ?p e s = (Inr Confirmed, s')"
    using record_confirmation_ok [OF assms(7,10,11) wf] offered stv by auto
  moreover obtain k where "locate cfg i s = (Inr (Some (?p, LocatedRecord k)), s)"
    using locate_active [OF _ assms(8)] open_loops_keys [OF assms(1,6)] i by blast
  ultimately have "confirm cfg clk inp s = (Inr Confirmed, s')"
    using assms(8,9,10,12,13) i
    by (simp add: confirm_def confirm_edge_def bind_op_def read_vault_def require_some_def return_op_def)
  then show ?thesis by blast
qed

theorem listed_proposal_is_confirmed_witness:
  "\<exists>s'. confirm (sample_config bob) sample_clock sample_confirm (holder bob (offered_files False)) = (Inr Confirmed, s')"
proof -
  obtain pg where pg: "open_loops (sample_config bob) (jan 9) sample_call (holder bob (offered_files False)) =
      (Inr pg, holder bob (offered_files False))" "pg_items pg = [offered_item]"
    using offered_open_loops by blast
  have shown: "bind_act ActConfirm (decision_args (e_id held_edge) ''confirm'') \<in> set (li_actions offered_item)"
    by (simp add: offered_item_def actions_for_def)
  have ok: "vault_ok sample_lib (nd_vault (holder bob (offered_files False)))" by (simp add: holder_ok offered_files_ok)
  show ?thesis
    by (rule listed_proposal_is_confirmed [OF pg(1) _ _ shown _ _ ok])
      (use offered_reads(1) offered_can_sign [of False] in
        \<open>simp_all add: pg(2) offered_item_def sample_call_def sample_confirm_def bind_act_def\<close>)
qed

section \<open>What every call keeps\<close>

text \<open>
  C6: no call of the node surface rewrites history. As long as no chain outgrows the numbering of its files,
  a call of \<^verbatim>\<open>commit\<close>, \<^verbatim>\<open>expect\<close>, \<^verbatim>\<open>confirm\<close>, \<^verbatim>\<open>act\<close> or the extraction queue, whether it returns, refuses or
  throws half way, leaves the vault well formed, every stored edge body as it was, and every chain as it was
  or longer.
\<close>

theorem node_calls_keep_history:
  assumes "node_call cfg clk s s'" and "vault_ok (nc_lib cfg) (nd_vault s)" and "small (nd_vault s')"
  shows "vault_ok (nc_lib cfg) (nd_vault s') \<and> chains_grow (nd_vault s) (nd_vault s')"
  using node_call_history [OF assms(1)] assms(2,3) by (simp add: keeps_history_def)

lemma holder_small: "length (ef_assertions ef) \<le> 10000 \<Longrightarrow> small (nd_vault (holder p ef))"
  by (auto simp: small_def holder_def put_store_def empty_vault_def holder_store_def dir_get_def split: if_splits)

lemma act_leaves_room:
  assumes "act_op cfg clk inp s = (r, s')" and "small (nd_vault s)" and "roomy (nd_vault s)"
  shows "small (nd_vault s')"
  using assms(1)
proof (cases rule: act_op_cases)
  case nothing
  with assms(2) show ?thesis by simp
next
  case (signs p k e)
  from signs(5) obtain a n v where a: "append_assertion (nd_vault s) p a = Inr (n, v)" and s': "s' = s\<lparr>nd_vault := v\<rparr>"
    by (auto elim!: signs_and_stores.cases)
  obtain ps ef where d: "edge_dir (nd_vault s) p (a_edge_id a) = Inr (ps, ef)" and n: "n = length (ef_assertions ef)"
    using a by (auto simp: append_assertion_def bind_result_Inr_iff Let_def split: if_splits)
  then have "get_assertions (nd_vault s) p (a_edge_id a) = Inr (map snd (ef_assertions ef))" by (simp add: get_assertions_def)
  with assms(3) n have "n < 10000" unfolding roomy_def chain_room_def by fastforce
  from small_after_append [OF a assms(2) this] show ?thesis by (simp add: s')
qed

text \<open>Alice says done, and the register takes it.\<close>

theorem node_calls_keep_history_witness:
  "\<exists>s'. act_op (sample_config alice) sample_clock sample_done (holder alice held_files) = (Inr (Inr AClosed), s') \<and>
     vault_ok sample_lib (nd_vault s') \<and> chains_grow (nd_vault (holder alice held_files)) (nd_vault s')"
proof -
  obtain s' where s': "act_op (sample_config alice) sample_clock sample_done (holder alice held_files) = (Inr (Inr AClosed), s')"
    using sample_done_accepted by blast
  have ok: "vault_ok (nc_lib (sample_config alice)) (nd_vault (holder alice held_files))" by (simp add: holder_ok held_files_ok)
  from node_calls_keep_history [OF call_act [OF s'] ok act_leaves_room [OF s' _ holder_roomy]] s' show ?thesis by (simp add: holder_small held_files_def)
qed

lemma chains_valid_act:
  assumes "act_op cfg clk inp s = (r, s')" and "vault_ok cl (nd_vault s)" and "roomy (nd_vault s)"
    and "chains_valid (nc_lib cfg) (Some (ms_of (clk 1))) (nd_vault s)"
  shows "chains_valid (nc_lib cfg) (Some (ms_of (clk 1))) (nd_vault s')"
  using assms(1)
proof (cases rule: act_op_cases)
  case nothing
  with assms(4) show ?thesis by simp
next
  case (signs p k e)
  have "get_edge (nd_vault s) p (e_id e) = Inr (Some e)" using vault_ok_edge_id [OF assms(2) signs(2)] signs(2) by simp
  with chains_valid_signs [OF signs(5) assms(2) _ _ assms(4)] assms(3) show ?thesis by (simp add: roomy_def)
qed

lemma chains_valid_confirm:
  assumes "confirm cfg clk inp s = (r, s')" and "vault_ok cl (nd_vault s)" and "roomy (nd_vault s)"
    and "chains_valid (nc_lib cfg) (Some (ms_of (clk 1))) (nd_vault s)"
  shows "chains_valid (nc_lib cfg) (Some (ms_of (clk 1))) (nd_vault s')"
proof -
  from assms(1) consider "s' = s" | p where "confirm_pending cfg p inp s = (r, s')" | p where "confirm_edge cfg clk p inp s = (r, s')"
    by (auto simp: confirm_def bind_op_eq [of "locate cfg (cf_id inp)"] bind_op_eq [of "require_some NoSuchId x" for x]
        require_some_Inr dest: quiet_locate quiet_require split: if_split_asm)
  then show ?thesis
  proof cases
    case 1
    with assms(4) show ?thesis by simp
  next
    case 2
    from chains_valid_same [OF still.keepsD [OF still_confirm_pending 2]] assms(4) show ?thesis by simp
  next
    case 3
    from confirm_edge_cases [OF 3] show ?thesis
    proof (elim disjE exE conjE)
      assume "same_chains (nd_vault s) (nd_vault s')"
      from chains_valid_same [OF this] assms(4) show ?thesis by simp
    next
      fix e s1
      assume e: "get_edge (nd_vault s) p (cf_id inp) = Inr (Some e)"
        and g: "signs_and_stores cfg p e AConfirmed (clk 0) (clk 1) None s s1" and same: "same_chains (nd_vault s1) (nd_vault s')"
      have "get_edge (nd_vault s) p (e_id e) = Inr (Some e)" using vault_ok_edge_id [OF assms(2) e] e by simp
      with chains_valid_signs [OF g assms(2) _ _ assms(4)] assms(3)
      have "chains_valid (nc_lib cfg) (Some (ms_of (clk 1))) (nd_vault s1)" by (simp add: roomy_def)
      with chains_valid_same [OF same] show ?thesis by simp
    qed
  qed
qed

text \<open>
  C7: the node never stores an assertion its own table would discard. If every stored chain is accepted whole
  at some instant not after the call, every stored chain is accepted whole after \<^verbatim>\<open>act\<close> and after \<^verbatim>\<open>confirm\<close>,
  at the instant of the call and so at every later one.
\<close>

theorem signing_calls_keep_chains_valid:
  assumes "act_op cfg clk ai s = (ra, s') \<or> confirm cfg clk ci s = (rc, s')" and "vault_ok cl (nd_vault s)" and "roomy (nd_vault s)"
    and "chains_valid (nc_lib cfg) n (nd_vault s)" and "clock_le n (Some (ms_of (clk 1)))" and "clock_le (Some (ms_of (clk 1))) m"
  shows "chains_valid (nc_lib cfg) m (nd_vault s')"
proof -
  have "chains_valid (nc_lib cfg) (Some (ms_of (clk 1))) (nd_vault s)" by (rule chains_valid_later [OF assms(4,5)])
  with assms(1-3) have "chains_valid (nc_lib cfg) (Some (ms_of (clk 1))) (nd_vault s')"
    using chains_valid_act chains_valid_confirm by blast
  then show ?thesis by (rule chains_valid_later) (rule assms(6))
qed

theorem signing_calls_keep_chains_valid_witness:
  "\<exists>s'. (\<exists>r. confirm (sample_config bob) sample_clock sample_confirm (holder bob (offered_files False)) = (r, s')) \<and>
     chains_valid sample_lib None (nd_vault s')"
proof -
  let ?s = "holder bob (offered_files False)"
  obtain r s' where c: "confirm (sample_config bob) sample_clock sample_confirm ?s = (r, s')" by fastforce
  have "length (ef_assertions (offered_files False)) < 10000" by (simp add: offered_files_def)
  then have "vault_ok sample_lib (nd_vault ?s)" "roomy (nd_vault ?s)"
    by (simp_all add: roomy_def holder_ok offered_files_ok holder_room)
  from signing_calls_keep_chains_valid [OF disjI2 [OF c] this, of "Some (ms_of (jan 10))" None] c show ?thesis
    by (auto simp: offered_chains_valid clock_le_def sample_clock_def)
qed

end
