(* ===== verification/Wire.thy ===== *)
theory Wire
  imports Canonical Rotation
begin

text \<open>
  Messages between nodes: the schemas of \<^verbatim>\<open>packages/types/src/edge.ts\<close> and \<^verbatim>\<open>wire.ts\<close> as parsers of JSON, and
  \<^verbatim>\<open>packages/federation/src/messages.ts\<close>. A parser returns what the schema's \<^verbatim>\<open>safeParse\<close> leaves: the members
  it names and no others, or \<open>None\<close> when it fails. The lemmas say that each parser reads back what the
  corresponding object is written as.
\<close>

section \<open>Schema combinators\<close>

text \<open>A member that must be there, one that may be absent, one with a default, a nullable value.\<close>

definition required :: "(json \<Rightarrow> 'a option) \<Rightarrow> json_members \<Rightarrow> string \<Rightarrow> 'a option" where
  "required f ms k = (case map_of ms k of None \<Rightarrow> None | Some j \<Rightarrow> f j)"

definition optional :: "(json \<Rightarrow> 'a option) \<Rightarrow> json_members \<Rightarrow> string \<Rightarrow> 'a option option" where
  "optional f ms k = (case map_of ms k of None \<Rightarrow> Some None | Some j \<Rightarrow> map_option Some (f j))"

definition defaulted :: "'a \<Rightarrow> (json \<Rightarrow> 'a option) \<Rightarrow> json_members \<Rightarrow> string \<Rightarrow> 'a option" where
  "defaulted d f ms k = (case map_of ms k of None \<Rightarrow> Some d | Some j \<Rightarrow> f j)"

definition nullable :: "(json \<Rightarrow> 'a option) \<Rightarrow> json \<Rightarrow> 'a option option" where
  "nullable f j = (case j of JNull \<Rightarrow> Some None | _ \<Rightarrow> map_option Some (f j))"

definition text_where :: "(string \<Rightarrow> bool) \<Rightarrow> json \<Rightarrow> string option" where
  "text_where P j = (case j of JStr s \<Rightarrow> if P s then Some s else None | _ \<Rightarrow> None)"

definition one_of :: "('a \<times> string) list \<Rightarrow> json \<Rightarrow> 'a option" where
  "one_of xs j = (case j of JStr s \<Rightarrow> map_option fst (find (\<lambda>(x, n). n = s) xs) | _ \<Rightarrow> None)"

definition positive_int :: "json \<Rightarrow> int option" where
  "positive_int j = (case j of JNum n \<Rightarrow> if 0 < n then Some n else None | _ \<Rightarrow> None)"

definition timestamp :: "json \<Rightarrow> rfc3339 option" where
  "timestamp j = map_option stamp (text_where is_rfc3339 j)"

definition time_span :: "json \<Rightarrow> iso_duration option" where
  "time_span j = map_option duration (text_where is_iso_duration j)"

fun all_some :: "'a option list \<Rightarrow> 'a list option" where
  "all_some [] = Some []"
| "all_some (x # xs) = (case (x, all_some xs) of (Some y, Some ys) \<Rightarrow> Some (y # ys) | _ \<Rightarrow> None)"

definition array_of :: "(json \<Rightarrow> 'a option) \<Rightarrow> json \<Rightarrow> 'a list option" where
  "array_of f j = (case j of JArr xs \<Rightarrow> all_some (map f xs) | _ \<Rightarrow> None)"

definition object_of :: "(json_members \<Rightarrow> 'a option) \<Rightarrow> json \<Rightarrow> 'a option" where
  "object_of f j = (case j of JObj ms \<Rightarrow> f ms | _ \<Rightarrow> None)"

text \<open>The literals \<^verbatim>\<open>v\<close> and \<^verbatim>\<open>type\<close> of an object.\<close>

definition tagged :: "string \<Rightarrow> json_members \<Rightarrow> bool" where
  "tagged ty ms \<longleftrightarrow> map_of ms ''v'' = Some (JStr protocol_version) \<and> map_of ms ''type'' = Some (JStr ty)"

section \<open>Assertions and edges\<close>

definition wire_states :: "(wire_state \<times> string) list" where
  "wire_states = map (\<lambda>w. (w, wire_name w))
     [AProposed, AConfirmed, AOpen, AClosed, AReleased, AExpired, ADisputed, ASuperseded]"

definition parse_assertion :: "json \<Rightarrow> assertion option" where
  "parse_assertion = object_of (\<lambda>ms.
     if \<not> tagged ''assertion'' ms then None
     else Option.bind (required (text_where hex64) ms ''edge_id'') (\<lambda>i.
       Option.bind (required (one_of wire_states) ms ''state'') (\<lambda>w.
       Option.bind (required timestamp ms ''asserted_at'') (\<lambda>t.
       Option.bind (required (text_where hex64) ms ''by'') (\<lambda>b.
       Option.bind (required (nullable (text_where hex64)) ms ''evidence_hash'') (\<lambda>h.
       Option.bind (required (text_where hex128) ms ''sig'') (\<lambda>s.
         Some \<lparr>a_edge_id = i, a_state = w, a_asserted_at = t, a_by = b, a_evidence_hash = h, a_sig = s\<rparr>)))))))"

definition parse_fulfillment :: "json \<Rightarrow> fulfillment option" where
  "parse_fulfillment = object_of (\<lambda>ms.
     Option.bind (required (one_of [(FAll, ''all''), (FAny, ''any''), (FKOfN, ''k-of-n'')]) ms ''policy'') (\<lambda>p.
     Option.bind (optional positive_int ms ''k'') (\<lambda>k.
     Option.bind (defaulted [] (array_of (text_where hex64)) ms ''children'') (\<lambda>cs.
     Option.bind (optional (text_where hex64) ms ''coordinator'') (\<lambda>c.
       Some \<lparr>f_policy = p, f_k = k, f_children = cs, f_coordinator = c\<rparr>)))))"

definition parse_edge :: "json \<Rightarrow> edge option" where
  "parse_edge = object_of (\<lambda>ms.
     if \<not> tagged ''edge'' ms then None
     else Option.bind (required (text_where hex64) ms ''edge_id'') (\<lambda>i.
       Option.bind (required (text_where hex64) ms ''commitment_hash'') (\<lambda>h.
       Option.bind (required (text_where hex64) ms ''owner'') (\<lambda>ow.
       Option.bind (required (text_where hex64) ms ''owed_to'') (\<lambda>cr.
       Option.bind (required timestamp ms ''proposed_at'') (\<lambda>t.
       Option.bind (required (nullable timestamp) ms ''due'') (\<lambda>d.
       Option.bind (required (one_of [(OnEvidence, ''on-evidence''), (OnAcceptance, ''on-acceptance'')]) ms ''closure_policy'') (\<lambda>cp.
       Option.bind (required (nullable time_span) ms ''acceptance_window'') (\<lambda>w.
       Option.bind (defaulted [] (array_of (text_where hex64)) ms ''blocked_by'') (\<lambda>bl.
       Option.bind (optional parse_fulfillment ms ''fulfillment'') (\<lambda>f.
       Option.bind (required (nullable (text_where hex64)) ms ''supersedes'') (\<lambda>su.
         Some \<lparr>e_id = i, e_commitment_hash = h, e_owner = ow, e_owed_to = cr, e_proposed_at = t, e_due = d,
               e_closure_policy = cp, e_acceptance_window = w, e_blocked_by = bl, e_fulfillment = f,
               e_supersedes = su\<rparr>))))))))))))"

section \<open>Messages\<close>

datatype message_type =
    MPropose | MAssert | MPublish | MUnpublish | MAttestation | MRevocation | MRotation
  | MReconRequest | MReconResponse | MRecoverRequest | MRecoverResponse

fun message_type_name :: "message_type \<Rightarrow> string" where
  "message_type_name MPropose = ''propose''"
| "message_type_name MAssert = ''assert''"
| "message_type_name MPublish = ''publish''"
| "message_type_name MUnpublish = ''unpublish''"
| "message_type_name MAttestation = ''attestation''"
| "message_type_name MRevocation = ''revocation''"
| "message_type_name MRotation = ''rotation''"
| "message_type_name MReconRequest = ''recon_request''"
| "message_type_name MReconResponse = ''recon_response''"
| "message_type_name MRecoverRequest = ''recover_request''"
| "message_type_name MRecoverResponse = ''recover_response''"

definition message_types :: "(message_type \<times> string) list" where
  "message_types = map (\<lambda>t. (t, message_type_name t))
     [MPropose, MAssert, MPublish, MUnpublish, MAttestation, MRevocation, MRotation,
      MReconRequest, MReconResponse, MRecoverRequest, MRecoverResponse]"

text \<open>The payload is not parsed with the message, and may be absent.\<close>

record wire_message =
  wm_type :: message_type
  wm_payload :: "json option"
  wm_sender :: persona_id
  wm_recipient :: persona_id
  wm_sent_at :: rfc3339
  wm_sig :: signature_hex

definition unsigned_message_members :: "wire_message \<Rightarrow> json_members" where
  "unsigned_message_members m =
     [(''v'', JStr protocol_version), (''type'', JStr (message_type_name (wm_type m)))] @
     opt_json_member ''payload'' id (wm_payload m) @
     [(''sender'', JStr (wm_sender m)), (''recipient'', JStr (wm_recipient m)),
      (''sent_at'', JStr (text_of (wm_sent_at m)))]"

definition message_members :: "wire_message \<Rightarrow> json_members" where
  "message_members m = unsigned_message_members m @ [(''sig'', JStr (wm_sig m))]"

definition parse_message :: "json \<Rightarrow> wire_message option" where
  "parse_message = object_of (\<lambda>ms.
     if map_of ms ''v'' \<noteq> Some (JStr protocol_version) then None
     else Option.bind (required (one_of message_types) ms ''type'') (\<lambda>ty.
       Option.bind (required (text_where hex64) ms ''sender'') (\<lambda>sn.
       Option.bind (required (text_where hex64) ms ''recipient'') (\<lambda>rc.
       Option.bind (required timestamp ms ''sent_at'') (\<lambda>t.
       Option.bind (required (text_where hex128) ms ''sig'') (\<lambda>s.
         Some \<lparr>wm_type = ty, wm_payload = map_of ms ''payload'', wm_sender = sn, wm_recipient = rc,
               wm_sent_at = t, wm_sig = s\<rparr>))))))"

definition sign_message ::
    "crypto_lib \<Rightarrow> message_type \<Rightarrow> json \<Rightarrow> persona_id \<Rightarrow> persona_id \<Rightarrow> rfc3339 \<Rightarrow> string \<Rightarrow> json_members option" where
  "sign_message cl ty payload sender recipient sent sk =
     with_signature cl
       [(''v'', JStr protocol_version), (''type'', JStr (message_type_name ty)), (''payload'', payload),
        (''sender'', JStr sender), (''recipient'', JStr recipient), (''sent_at'', JStr (text_of sent))] sk"

definition verify_message :: "crypto_lib \<Rightarrow> json \<Rightarrow> wire_message option" where
  "verify_message cl raw =
     (case parse_message raw of
        None \<Rightarrow> None
      | Some m \<Rightarrow> if verify_object cl (message_members m) (wm_sender m) then Some m else None)"

definition speaks_this_version :: "json \<Rightarrow> bool" where
  "speaks_this_version raw \<longleftrightarrow> object_of (\<lambda>ms. map_of ms ''v'') raw = Some (JStr protocol_version)"

definition message_id :: "crypto_lib \<Rightarrow> wire_message \<Rightarrow> sha256_hex option" where
  "message_id cl m = hash_canonical cl (JObj (message_members m))"

text \<open>A string member of a value, when the value is an object that has it.\<close>

definition string_member :: "string \<Rightarrow> json \<Rightarrow> string option" where
  "string_member k j = (case object_of (\<lambda>ms. map_of ms k) j of Some (JStr s) \<Rightarrow> Some s | _ \<Rightarrow> None)"

definition member_edge_id :: "string \<Rightarrow> json \<Rightarrow> string option" where
  "member_edge_id k j = Option.bind (object_of (\<lambda>ms. map_of ms k) j) (string_member ''edge_id'')"

definition edge_id_of_message :: "wire_message \<Rightarrow> string option" where
  "edge_id_of_message m =
     (case wm_payload m of
        None \<Rightarrow> None
      | Some j \<Rightarrow>
          (case wm_type m of
             MPropose \<Rightarrow> member_edge_id ''edge'' j
           | MAssert \<Rightarrow> member_edge_id ''assertion'' j
           | MPublish \<Rightarrow> string_member ''edge_id'' j
           | MUnpublish \<Rightarrow> string_member ''edge_id'' j
           | _ \<Rightarrow> None))"

section \<open>What is written is read back\<close>

definition assertion_schema :: "assertion \<Rightarrow> bool" where
  "assertion_schema a \<longleftrightarrow> hex64 (a_edge_id a) \<and> hex64 (a_by a) \<and> pred_option hex64 (a_evidence_hash a) \<and> hex128 (a_sig a)"

definition fulfillment_schema :: "fulfillment \<Rightarrow> bool" where
  "fulfillment_schema f \<longleftrightarrow> pred_option (\<lambda>k. 0 < k) (f_k f) \<and> list_all hex64 (f_children f) \<and> pred_option hex64 (f_coordinator f)"

definition edge_schema :: "edge \<Rightarrow> bool" where
  "edge_schema e \<longleftrightarrow> hex64 (e_id e) \<and> hex64 (e_commitment_hash e) \<and> hex64 (e_owner e) \<and> hex64 (e_owed_to e) \<and>
     list_all hex64 (e_blocked_by e) \<and> pred_option fulfillment_schema (e_fulfillment e) \<and> pred_option hex64 (e_supersedes e)"

definition message_schema :: "wire_message \<Rightarrow> bool" where
  "message_schema m \<longleftrightarrow> hex64 (wm_sender m) \<and> hex64 (wm_recipient m) \<and> hex128 (wm_sig m)"

lemma map_of_Cons: "map_of ((k, v) # ms) x = (if x = k then Some v else map_of ms x)"
  by simp

lemma timestamp_text [simp]: "timestamp (JStr (text_of t)) = Some t"
  by (simp add: timestamp_def text_where_def is_rfc3339_text_of stamp_text_of)

lemma duration_of_text: "duration (duration_text d) = d"
  by transfer simp

lemma time_span_text [simp]: "time_span (JStr (duration_text d)) = Some d"
  by (simp add: time_span_def text_where_def is_iso_duration_text duration_of_text)

lemma text_where_JStr [simp]: "text_where P (JStr s) = (if P s then Some s else None)"
  by (simp add: text_where_def)

lemma nullable_json_opt [simp]:
  "(\<And>x. y = Some x \<Longrightarrow> f (JStr x) = Some (g x)) \<Longrightarrow> nullable f (json_opt y) = Some (map_option g y)"
  by (cases y) (simp_all add: nullable_def json_opt_def)

lemma nullable_text: "pred_option hex64 y \<Longrightarrow> nullable (text_where hex64) (json_opt y) = Some y"
  by (cases y) (simp_all add: nullable_def json_opt_def)

lemma nullable_time: "nullable timestamp (json_opt (map_option text_of y)) = Some y"
  by (cases y) (simp_all add: nullable_def json_opt_def)

lemma nullable_span: "nullable time_span (json_opt (map_option duration_text y)) = Some y"
  by (cases y) (simp_all add: nullable_def json_opt_def)

lemma all_some_map: "(\<And>x. x \<in> set xs \<Longrightarrow> f x = Some (g x)) \<Longrightarrow> all_some (map f xs) = Some (map g xs)"
  by (induction xs) simp_all

lemma hex64_array: "list_all hex64 xs \<Longrightarrow> array_of (text_where hex64) (json_strings xs) = Some xs"
  using all_some_map [of xs "\<lambda>s. text_where hex64 (JStr s)" id]
  by (simp add: array_of_def json_strings_def list_all_iff comp_def del: text_where_JStr) simp

lemma one_of_wire_state: "one_of wire_states (JStr (wire_name w)) = Some w"
  by (cases w) (simp_all add: one_of_def wire_states_def)

lemma one_of_message_type: "one_of message_types (JStr (message_type_name t)) = Some t"
  by (cases t) (simp_all add: one_of_def message_types_def)

lemma parse_assertion_members:
  assumes "assertion_schema a"
  shows "parse_assertion (JObj (assertion_members a)) = Some a"
  using assms
  by (simp add: assertion_schema_def parse_assertion_def object_of_def assertion_members_def unsigned_assertion_members_def
      tagged_def required_def one_of_wire_state nullable_text)

lemma parse_fulfillment_json:
  assumes "fulfillment_schema f"
  shows "parse_fulfillment (fulfillment_json f) = Some f"
  using assms
  by (cases f; cases "f_policy f"; cases "f_k f"; cases "f_coordinator f")
    (simp_all add: fulfillment_schema_def parse_fulfillment_def object_of_def fulfillment_json_def opt_json_member_def
      required_def optional_def defaulted_def one_of_def positive_int_def hex64_array)

lemma closure_policy_of: "one_of [(OnEvidence, ''on-evidence''), (OnAcceptance, ''on-acceptance'')] (JStr (closure_policy_name c)) = Some c"
  by (cases c) (simp_all add: one_of_def)

lemma parse_edge_json:
  assumes "edge_schema e"
  shows "parse_edge (edge_json e) = Some e"
  using assms
  by (cases e; cases "e_fulfillment e")
    (simp_all add: edge_schema_def parse_edge_def object_of_def edge_json_def tagged_def required_def optional_def
      defaulted_def opt_json_member_def closure_policy_of nullable_text nullable_time nullable_span hex64_array
      parse_fulfillment_json)

lemma parse_message_members:
  assumes "message_schema m"
  shows "parse_message (JObj (message_members m)) = Some m"
  using assms
  by (cases m; cases "wm_payload m")
    (simp_all add: message_schema_def parse_message_def object_of_def message_members_def unsigned_message_members_def
      required_def one_of_message_type opt_json_member_def)

text \<open>A signed message is read back, and verifies under the key that signed it.\<close>

lemma hex128_to_hex: "length bs = 64 \<Longrightarrow> hex128 (to_hex bs)"
proof -
  have "list_all is_lower_hex (to_hex bs)"
    by (induction bs) (simp_all add: to_hex_def byte_hex_def hex_digit_lower unat_octet less_mult_imp_div_less)
  then show "length bs = 64 \<Longrightarrow> hex128 (to_hex bs)" by (simp add: hex128_def length_to_hex)
qed

lemma hex128_signature: "sign_object cl ms sk = Some s \<Longrightarrow> signs_for cl sk pub \<Longrightarrow> hex128 s"
  by (auto simp: sign_object_def signs_for_def hex128_to_hex split: option.splits) (metis hex128_to_hex option.inject)

lemma signed_message_verifies:
  assumes "sign_message cl ty payload p q t sk = Some ms" and "signs_for cl sk p" and "hex64 p" and "hex64 q"
  obtains s where "ms = message_members \<lparr>wm_type = ty, wm_payload = Some payload, wm_sender = p, wm_recipient = q, wm_sent_at = t, wm_sig = s\<rparr>"
    and "verify_message cl (JObj ms) = Some \<lparr>wm_type = ty, wm_payload = Some payload, wm_sender = p, wm_recipient = q, wm_sent_at = t, wm_sig = s\<rparr>"
proof -
  let ?m = "\<lambda>s. \<lparr>wm_type = ty, wm_payload = Some payload, wm_sender = p, wm_recipient = q, wm_sent_at = t, wm_sig = s\<rparr>"
  from assms(1) obtain s where ws: "with_signature cl (unsigned_message_members (?m s)) sk = Some ms"
    and so: "sign_object cl (unsigned_message_members (?m s)) sk = Some s"
    and ms: "ms = message_members (?m s)"
    by (auto simp: sign_message_def with_signature_def unsigned_message_members_def message_members_def opt_json_member_def)
  have "message_schema (?m s)" using assms(3,4) hex128_signature [OF so assms(2)] by (simp add: message_schema_def)
  with verify_with_signature [OF assms(2) ws] show thesis
    by (intro that [of s]) (simp_all add: ms verify_message_def parse_message_members)
qed

end
