(* ===== verification/WireClaims.thy ===== *)
theory WireClaims
  imports Wire
begin

text \<open>
  What the canonical form, the identifiers, the signatures and the rotation statements promise to whoever
  receives them: the canonical form exists for every value that is not too deep, an identifier commits to
  the fields it digests, a signature survives the wire, a chain of rotations is linked, bounded and stops
  at a contested key.
\<close>

section \<open>Canonical forms\<close>

text \<open>
  C10: canonicalization is total up to the depth bound and refuses beyond it: a value has a canonical form
  exactly when its arrays and objects nest at most 256 deep, whatever else it contains.
\<close>

theorem canonicalize_iff_shallow:
  "canonicalize v \<noteq> None \<longleftrightarrow> json_depth v \<le> 256"
  using write_json_defined [of 0 v] by (simp add: canonicalize_def max_canonicalization_depth_def)

section \<open>Identifiers\<close>

text \<open>
  A commitment hash commits to the words, the owner, the creditor, the due date and the time of the
  promise: two promises with one hash are the same promise, or two different texts have been found with one
  SHA-256 digest.
\<close>

theorem commitment_hash_binds:
  assumes "commitment_hash cl a = commitment_hash cl b" and "a \<noteq> b"
  shows "\<exists>x y. x \<noteq> y \<and> lib_sha256 cl x = lib_sha256 cl y"
  using commitment_hash_inject [OF assms(1)] assms(2) by (auto simp: sha256_collision_def)

theorem commitment_hash_binds_witness:
  "\<exists>x y. x \<noteq> y \<and> lib_sha256 (sample_lib\<lparr>lib_sha256 := \<lambda>_. []\<rparr>) x = lib_sha256 (sample_lib\<lparr>lib_sha256 := \<lambda>_. []\<rparr>) y"
  by (rule commitment_hash_binds [of _ "\<lparr>ch_intent = ''a'', ch_owner = alice, ch_owed_to = None, ch_due = None, ch_created_at = []\<rparr>"
        "\<lparr>ch_intent = ''b'', ch_owner = alice, ch_owed_to = None, ch_due = None, ch_created_at = []\<rparr>"])
    (simp_all add: commitment_hash_eq sha256_hex_def)

section \<open>Signatures on the wire\<close>

text \<open>
  What a key signs, a receiver accepts: after \<^verbatim>\<open>withSignature\<close>, \<^verbatim>\<open>verifyObject\<close> accepts the object under
  the public key, in whatever order its members arrive and whatever other \<^verbatim>\<open>sig_\<close> members came along.
\<close>

theorem signature_survives_the_wire:
  assumes "signs_for cl sk pub" and "with_signature cl ms sk = Some sent"
    and "map_of received ''sig'' = map_of sent ''sig''"
    and "mset (unsigned_object received) = mset (unsigned_object sent)"
    and "distinct (map fst (unsigned_object received))"
  shows "verify_object cl received pub"
  using verify_with_signature [OF assms(1,2)] verify_object_cong [OF assms(3-5)] by simp

theorem signature_survives_the_wire_witness:
  "\<exists>s. verify_object sample_lib [(''sig_old'', JNull), (''b'', JStr ''2''), (''sig'', JStr s), (''a'', JStr ''1'')] alice"
proof -
  let ?ms = "[(''a'', JStr ''1''), (''b'', JStr ''2'')]"
  have "canonical_bytes (JObj (unsigned_object ?ms)) \<noteq> None"
    by (rule canonical_flat) (auto simp: unsigned_object_def is_signature_key_def starts_with_def flat_json_def)
  then obtain s where s: "sign_object sample_lib ?ms alice = Some s"
    using parties_from_hex by (auto simp: sign_object_def signing_preimage_def sample_lib_def)
  show ?thesis
    by (intro exI [of _ s] signature_survives_the_wire [of _ alice _ ?ms "?ms @ [(''sig'', JStr s)]"])
      (simp_all add: sample_signs with_signature_def s unsigned_object_def is_signature_key_def starts_with_def)
qed

section \<open>Rotations\<close>

text \<open>
  A key a node treats as a successor is one the old keys signed for: the chain from a key to its current
  one has at most 32 links, repeats no key, and every link is a statement presented that verifies, from the
  key before it to the key after it; the statements that do not verify change nothing.
\<close>

theorem successor_chain_is_signed:
  "linked key (sr_chain (resolve_successor cl al key js)) (sr_current (resolve_successor cl al key js)) \<and>
   length (sr_chain (resolve_successor cl al key js)) \<le> 32 \<and>
   distinct (key # map r_new (sr_chain (resolve_successor cl al key js))) \<and>
   set (sr_chain (resolve_successor cl al key js)) \<subseteq> {r. \<exists>j enc. j \<in> set js \<and> verify_rotation cl al j = RotOk r enc} \<and>
   sr_current (resolve_successor cl al key (filter (verifies cl al) js)) = sr_current (resolve_successor cl al key js)"
  using resolve_successor_chain [of cl al js key] resolve_successor_filter [of cl al key js]
  by (simp add: chain_ok_def verified_in_def max_rotation_depth_def subset_iff) blast

text \<open>
  A contested key has no successor: when two statements of one key verify and name different new keys,
  nobody succeeds it, in whatever order and however often the statements are presented.
\<close>

theorem fork_has_no_successor:
  assumes "j1 \<in> set js" and "verify_rotation cl al j1 = RotOk r1 e1" and "r_old r1 = key"
    and "j2 \<in> set js" and "verify_rotation cl al j2 = RotOk r2 e2" and "r_old r2 = key" and "r_new r1 \<noteq> r_new r2"
  shows "is_successor_of cl al candidate key js \<longleftrightarrow> candidate = key"
  using resolve_successor_fork [OF assms] by (auto simp: is_successor_of_def)

definition sample_rotation :: "persona_id \<Rightarrow> rotation" where
  "sample_rotation new = the (sign_rotation sample_lib alice new (jan 1))"

lemma sample_rotation_ok:
  assumes "new \<in> {bob, carol}"
  shows "sign_rotation sample_lib alice new (jan 1) = Some (sample_rotation new)"
    and "verify_rotation sample_lib al (JObj (rotation_members (sample_rotation new))) = RotOk (sample_rotation new) EncSig"
    and "r_old (sample_rotation new) = alice" and "r_new (sample_rotation new) = new"
proof -
  have pub: "public_key_from_private sample_lib alice = Some alice"
    using parties_from_hex by (simp add: public_key_from_private_def sample_lib_def alice_def) code_simp
  let ?r = "\<lparr>r_old = alice, r_new = new, r_rotated_at = jan 1, r_sig = None, r_sig_old = None, r_sig_new = None\<rparr>"
  have "canonical_bytes (JObj (unsigned_object (rotation_core ?r))) \<noteq> None"
    by (rule canonical_flat) (auto simp: unsigned_object_def rotation_core_def flat_json_def)
  then obtain s where s: "sign_object sample_lib (rotation_core ?r) alice = Some s"
    using parties_from_hex by (auto simp: sign_object_def signing_preimage_def sample_lib_def)
  obtain bs where bs: "s = to_hex bs" "length bs = 64"
    using s by (auto simp: sign_object_def sample_lib_def split: option.splits)
  have "hex128 s" unfolding bs(1) by (rule hex128_to_hex) (rule bs(2))
  moreover have "hex64 alice" "hex64 new" using parties_hex64 assms by auto
  ultimately have sr: "sign_rotation sample_lib alice new (jan 1) = Some (?r\<lparr>r_sig := Some s\<rparr>)"
    using pub s by (simp add: sign_rotation_def Let_def)
  then have sample: "sample_rotation new = ?r\<lparr>r_sig := Some s\<rparr>" by (simp add: sample_rotation_def)
  with sr show "sign_rotation sample_lib alice new (jan 1) = Some (sample_rotation new)" by simp
  show "r_old (sample_rotation new) = alice" "r_new (sample_rotation new) = new" by (simp_all add: sample)
  show "verify_rotation sample_lib al (JObj (rotation_members (sample_rotation new))) = RotOk (sample_rotation new) EncSig"
    by (rule sign_rotation_verifies [of _ alice new "jan 1"]) (use sr sample assms sample_signs in auto)
qed

theorem fork_has_no_successor_witness:
  "\<not> is_successor_of sample_lib False bob alice
     [JObj (rotation_members (sample_rotation bob)), JObj (rotation_members (sample_rotation carol))]"
  using fork_has_no_successor [of "JObj (rotation_members (sample_rotation bob))" _ sample_lib False "sample_rotation bob" EncSig alice
      "JObj (rotation_members (sample_rotation carol))" "sample_rotation carol" EncSig bob]
    sample_rotation_ok [of bob] sample_rotation_ok [of carol]
  by simp

text \<open>
  A rotation a person signs is one every node accepts: \<^verbatim>\<open>signRotation\<close> emits a statement that
  \<^verbatim>\<open>verifyRotation\<close> reads back and accepts, with and without the legacy encoding.
\<close>

theorem signed_rotation_is_accepted:
  assumes "sign_rotation cl sk new_public t = Some r" and "signs_for cl sk (r_old r)" and "r_old r \<noteq> new_public"
  shows "verify_rotation cl al (JObj (rotation_members r)) = RotOk r EncSig \<and> r_new r = new_public \<and> r_rotated_at r = t"
proof -
  have "r_new r = new_public \<and> r_rotated_at r = t"
    using assms(1) by (auto simp: sign_rotation_def Let_def split: option.splits if_splits)
  with sign_rotation_verifies [OF assms] show ?thesis by simp
qed

theorem signed_rotation_is_accepted_witness:
  "\<exists>r. verify_rotation sample_lib True (JObj (rotation_members r)) = RotOk r EncSig \<and> r_new r = bob"
proof -
  from signed_rotation_is_accepted [OF sample_rotation_ok(1) [of bob], of True] sample_rotation_ok(3) [of bob]
  show ?thesis using sample_signs [of alice] by auto
qed

end
