(* ===== verification/Retention.thy ===== *)
theory Retention
  imports Proposals
begin

text \<open>
  Retention: \<^verbatim>\<open>runRetention\<close> of \<^verbatim>\<open>packages/vault/src/retention.ts\<close>, which deletes the words of promises that
  ended long enough ago and keeps the edges and their chains. The caller supplies the state of an edge:
  \<open>edge_state_resolver\<close> is the one the callers pass, from \<^verbatim>\<open>edgeState\<close> of the node.
\<close>

section \<open>The pass\<close>

record retention_result =
  rr_deleted :: "sha256_hex list"
  rr_preserved :: "sha256_hex list"
  rr_skipped :: "sha256_hex list"

type_synonym edge_state_resolver = "persona_id \<Rightarrow> sha256_hex \<Rightarrow> (effective_state \<times> rfc3339 option) node_op"

definition edge_state_resolver :: "node_config \<Rightarrow> edge_state_resolver" where
  "edge_state_resolver cfg p i =
     bind_op (edge_state cfg p i) (\<lambda>st. return_op (cv_final_state st, cv_resolved_at st))"

text \<open>A write that also answers.\<close>

definition update_vault :: "(vault \<Rightarrow> ('a \<times> vault) vault_result) \<Rightarrow> 'a node_op" where
  "update_vault f = (\<lambda>s. case f (nd_vault s) of
     Inl e \<Rightarrow> (Inl (VaultFailure e), s) | Inr (x, v) \<Rightarrow> (Inr x, s\<lparr>nd_vault := v\<rparr>))"

text \<open>One edge of the loop, from its end; \<open>window\<close> in milliseconds.\<close>

definition forget_words ::
    "persona_id \<Rightarrow> rfc3339 \<Rightarrow> sha256_hex \<Rightarrow> sha256_hex \<Rightarrow> retention_result \<Rightarrow> bool \<Rightarrow> retention_result node_op" where
  "forget_words p now i h r deleted =
     (if \<not> deleted then return_op r
      else
        bind_op (read_vault (\<lambda>v. get_edge_meta v p i)) (\<lambda>m.
        bind_op (write_vault (\<lambda>v. put_edge_meta v p
            \<lparr>em_edge_id = i, em_dismissed = em_dismissed m, em_plaintext_deleted_at = Some now\<rparr>)) (\<lambda>_.
          return_op (r\<lparr>rr_deleted := rr_deleted r @ [h]\<rparr>))))"

definition retain_resolved ::
    "persona_id \<Rightarrow> rfc3339 \<Rightarrow> int \<Rightarrow> sha256_hex \<Rightarrow> retention_result \<Rightarrow> edge \<Rightarrow> effective_state \<Rightarrow> rfc3339 option \<Rightarrow>
     retention_result node_op" where
  "retain_resolved p now window i r e st resolved =
     (let r' = r\<lparr>rr_preserved := rr_preserved r @ [i]\<rparr>
      in case resolved of
           None \<Rightarrow> return_op r'
         | Some t \<Rightarrow>
             if st \<notin> set terminal_states then return_op r'
             else if ms_of now - ms_of t < window then return_op (r'\<lparr>rr_skipped := rr_skipped r @ [i]\<rparr>)
             else bind_op (update_vault (\<lambda>v. delete_commitment_plaintext v p (e_commitment_hash e)))
                    (forget_words p now i (e_commitment_hash e) r'))"

definition retain_held ::
    "edge_state_resolver \<Rightarrow> persona_id \<Rightarrow> rfc3339 \<Rightarrow> int \<Rightarrow> sha256_hex \<Rightarrow> retention_result \<Rightarrow> edge \<Rightarrow> retention_result node_op" where
  "retain_held resolve p now window i r e =
     bind_op (resolve p i) (\<lambda>(st, resolved). retain_resolved p now window i r e st resolved)"

definition retain_edge ::
    "edge_state_resolver \<Rightarrow> persona_id \<Rightarrow> rfc3339 \<Rightarrow> int \<Rightarrow> sha256_hex \<Rightarrow> retention_result \<Rightarrow> retention_result node_op" where
  "retain_edge resolve p now window i r =
     bind_op (read_vault (\<lambda>v. get_edge v p i)) (\<lambda>held.
       case held of None \<Rightarrow> return_op r | Some e \<Rightarrow> retain_held resolve p now window i r e)"

fun retain_edges ::
    "edge_state_resolver \<Rightarrow> persona_id \<Rightarrow> rfc3339 \<Rightarrow> int \<Rightarrow> sha256_hex list \<Rightarrow> retention_result \<Rightarrow> retention_result node_op" where
  "retain_edges resolve p now window [] r = return_op r"
| "retain_edges resolve p now window (i # is) r =
     bind_op (retain_edge resolve p now window i r) (retain_edges resolve p now window is)"

definition run_retention ::
    "edge_state_resolver \<Rightarrow> persona_id \<Rightarrow> rfc3339 \<Rightarrow> int option \<Rightarrow> retention_result node_op" where
  "run_retention resolve p now keep =
     bind_op (read_vault (\<lambda>v. Inr (case keep of None \<Rightarrow> retention_policy v | Some d \<Rightarrow> d))) (\<lambda>d.
     bind_op (read_vault (\<lambda>v. list_edge_ids v p)) (\<lambda>ids.
       retain_edges resolve p now (d * 86400000) ids \<lparr>rr_deleted = [], rr_preserved = [], rr_skipped = []\<rparr>))"

section \<open>Deleting the words\<close>

lemma update_vault_Inr:
  "update_vault f s = (Inr x, s') \<longleftrightarrow> (\<exists>v. f (nd_vault s) = Inr (x, v) \<and> s' = s\<lparr>nd_vault := v\<rparr>)"
  by (auto simp: update_vault_def split: sum.splits)

lemma get_after_delete:
  assumes "delete_commitment_plaintext v p h = Inr (b, v')" and "vault_ok cl v"
  shows "get_commitment v' q k = (if q = p \<and> k = h then Inr None else get_commitment v q k)"
proof -
  from assms(1) obtain ps where ps: "require_persona v p = Inr ps" and h: "hex_id h"
    and v': "v' = (if b then put_store v p (ps\<lparr>ps_commitments := dir_del h (ps_commitments ps)\<rparr>) else v)"
    and b: "\<not> b \<Longrightarrow> dir_get (ps_commitments ps) h = None"
    by (auto simp: delete_commitment_plaintext_def bind_result_Inr_iff split: if_splits)
  from ps have "hex_id p" "dir_get (vt_personas v) p = Some ps" by (simp_all add: require_persona_Inr)
  moreover from this(2) assms(2) have "dir_ok (ps_commitments ps)"
    by (auto simp: vault_ok_def store_ok_def named_by_def)
  ultimately show ?thesis
    using ps h b by (auto simp: v' get_commitment_def require_put_store assert_hex_id_def dir_get_del)
qed

lemma vault_ok_delete: "delete_commitment_plaintext v p h = Inr (b, v') \<Longrightarrow> vault_ok cl v \<Longrightarrow> vault_ok cl v'"
  using store_write_ok vault_step_write vault_step.intros(3) by metis

lemma vault_ok_meta: "put_edge_meta v p m = Inr v' \<Longrightarrow> vault_ok cl v \<Longrightarrow> vault_ok cl v'"
  using store_write_ok vault_step_write vault_step.intros(7) by metis

lemma get_meta_after_put:
  "put_edge_meta v p m = Inr v' \<Longrightarrow> get_edge_meta v' q j = (if q = p \<and> j = em_edge_id m then Inr m else get_edge_meta v q j)"
proof -
  assume put: "put_edge_meta v p m = Inr v'"
  then obtain ps ef where d: "edge_dir v p (em_edge_id m) = Inr (ps, ef)"
    and v': "v' = put_edge_files v p ps (em_edge_id m) (ef\<lparr>ef_meta := Some m\<rparr>)"
    by (auto simp: put_edge_meta_def map_sum_Inr_iff)
  show ?thesis
    unfolding get_edge_meta_def v' edge_dir_put [OF d] by (cases "edge_dir v q j") auto
qed

section \<open>What the loop keeps\<close>

text \<open>
  The words that are gone belong to promises of edges that had ended, by the resolver's own account, at least
  a window ago; the edges, the chains and everything local are as they were.
\<close>

definition ended_before :: "edge_state_resolver \<Rightarrow> persona_id \<Rightarrow> int \<Rightarrow> node \<Rightarrow> sha256_hex \<Rightarrow> edge \<Rightarrow> bool" where
  "ended_before resolve p bound s i e \<longleftrightarrow>
     get_edge (nd_vault s) p i = Inr (Some e) \<and>
     (\<exists>s0 st t. resolve p i s0 = (Inr (st, Some t), s0) \<and> same_chains (nd_vault s) (nd_vault s0) \<and>
        terminal st \<and> ms_of t \<le> bound)"

definition retained :: "edge_state_resolver \<Rightarrow> persona_id \<Rightarrow> rfc3339 \<Rightarrow> int \<Rightarrow> node \<Rightarrow> retention_result \<Rightarrow> node \<Rightarrow> bool" where
  "retained resolve p now window s r s' \<longleftrightarrow>
     same_chains (nd_vault s) (nd_vault s') \<and> nd_local s' = nd_local s \<and>
     (\<forall>q h. get_commitment (nd_vault s') q h =
        (if q = p \<and> h \<in> set (rr_deleted r) then Inr None else get_commitment (nd_vault s) q h)) \<and>
     (\<forall>h \<in> set (rr_deleted r). \<exists>i e m. ended_before resolve p (ms_of now - window) s i e \<and> e_commitment_hash e = h \<and>
        get_edge_meta (nd_vault s') p i = Inr m \<and> em_plaintext_deleted_at m = Some now)"

lemma retain_edge_cases:
  assumes "retain_edge resolve p now window i r s1 = (Inr r', s')"
    and "\<And>s res s'. resolve p i s = (res, s') \<Longrightarrow> s' = s"
  obtains "r' = r" "s' = s1" "get_edge (nd_vault s1) p i = Inr None"
    | e where "get_edge (nd_vault s1) p i = Inr (Some e)" "s' = s1"
      "rr_deleted r' = rr_deleted r" "rr_preserved r' = rr_preserved r @ [i]"
    | e st t v1 where "get_edge (nd_vault s1) p i = Inr (Some e)" "resolve p i s1 = (Inr (st, Some t), s1)"
      "terminal st" "\<not> ms_of now - ms_of t < window"
      "delete_commitment_plaintext (nd_vault s1) p (e_commitment_hash e) = Inr (False, v1)" "s' = s1\<lparr>nd_vault := v1\<rparr>"
      "rr_deleted r' = rr_deleted r" "rr_preserved r' = rr_preserved r @ [i]"
    | e st t v1 d v2 where "get_edge (nd_vault s1) p i = Inr (Some e)" "resolve p i s1 = (Inr (st, Some t), s1)"
      "terminal st" "\<not> ms_of now - ms_of t < window"
      "delete_commitment_plaintext (nd_vault s1) p (e_commitment_hash e) = Inr (True, v1)"
      "put_edge_meta v1 p \<lparr>em_edge_id = i, em_dismissed = d, em_plaintext_deleted_at = Some now\<rparr> = Inr v2"
      "s' = s1\<lparr>nd_vault := v2\<rparr>" "rr_deleted r' = rr_deleted r @ [e_commitment_hash e]" "rr_preserved r' = rr_preserved r @ [i]"
proof -
  from assms(1) obtain held where h: "get_edge (nd_vault s1) p i = Inr held"
    and k: "(case held of None \<Rightarrow> return_op r | Some e \<Rightarrow> retain_held resolve p now window i r e) s1 = (Inr r', s')"
    unfolding retain_edge_def by (auto simp only: bind_op_Inr read_vault_Inr)
  show thesis
  proof (cases held)
    case None
    with h k that(1) show thesis by simp
  next
    case (Some e)
    with k obtain x s2 where x: "resolve p i s1 = (Inr x, s2)"
      and k2: "(case x of (st, resolved) \<Rightarrow> retain_resolved p now window i r e st resolved) s2 = (Inr r', s')"
      unfolding retain_held_def by (auto simp only: bind_op_Inr option.case)
    have s2: "s2 = s1" using assms(2) [OF x] .
    obtain st resolved where xx: "x = (st, resolved)" by fastforce
    show thesis
    proof (cases "\<exists>t. resolved = Some t \<and> terminal st \<and> \<not> ms_of now - ms_of t < window")
      case False
      with k2 xx have "s' = s2" "rr_deleted r' = rr_deleted r" "rr_preserved r' = rr_preserved r @ [i]"
        by (auto simp: retain_resolved_def Let_def split: option.splits if_splits)
      with h Some s2 that(2) show thesis by simp
    next
      case True
      then obtain t where t: "resolved = Some t" "terminal st" "\<not> ms_of now - ms_of t < window" by blast
      with k2 xx obtain b v1 where v1: "delete_commitment_plaintext (nd_vault s2) p (e_commitment_hash e) = Inr (b, v1)"
        and k3: "forget_words p now i (e_commitment_hash e) (r\<lparr>rr_preserved := rr_preserved r @ [i]\<rparr>) b (s2\<lparr>nd_vault := v1\<rparr>) = (Inr r', s')"
        by (auto simp: retain_resolved_def Let_def bind_op_Inr update_vault_Inr)
      show thesis
      proof (cases b)
        case False
        with k3 h Some s2 x xx t v1 show thesis by (intro that(3) [of e st t v1]) (simp_all add: forget_words_def)
      next
        case True
        with k3 obtain d v2 where "put_edge_meta v1 p
            \<lparr>em_edge_id = i, em_dismissed = d, em_plaintext_deleted_at = Some now\<rparr> = Inr v2"
          and "s' = s2\<lparr>nd_vault := v2\<rparr>" "r' = r\<lparr>rr_preserved := rr_preserved r @ [i], rr_deleted := rr_deleted r @ [e_commitment_hash e]\<rparr>"
          by (fastforce simp: forget_words_def op_returns)
        with True h Some s2 x xx t v1 show thesis by (intro that(4) [of e st t v1 d v2]) simp_all
      qed
    qed
  qed
qed

lemma retain_edge_step:
  assumes "retain_edge resolve p now window i r s1 = (Inr r', s')"
    and "\<And>s res s'. resolve p i s = (res, s') \<Longrightarrow> s' = s"
    and "vault_ok cl (nd_vault s1)" and "retained resolve p now window s r s1"
  shows "retained resolve p now window s r' s' \<and> vault_ok cl (nd_vault s') \<and>
    rr_preserved r' = rr_preserved r @ (if get_edge (nd_vault s1) p i = Inr None then [] else [i])"
proof -
  from assms(4) have chains: "same_chains (nd_vault s) (nd_vault s1)" by (simp add: retained_def)
  consider "r' = r" "s' = s1" "get_edge (nd_vault s1) p i = Inr None"
    | e where "get_edge (nd_vault s1) p i = Inr (Some e)" "s' = s1"
      "rr_deleted r' = rr_deleted r" "rr_preserved r' = rr_preserved r @ [i]"
    | e st t v1 where "get_edge (nd_vault s1) p i = Inr (Some e)" "resolve p i s1 = (Inr (st, Some t), s1)"
      "terminal st" "\<not> ms_of now - ms_of t < window"
      "delete_commitment_plaintext (nd_vault s1) p (e_commitment_hash e) = Inr (False, v1)" "s' = s1\<lparr>nd_vault := v1\<rparr>"
      "rr_deleted r' = rr_deleted r" "rr_preserved r' = rr_preserved r @ [i]"
    | e st t v1 d v2 where "get_edge (nd_vault s1) p i = Inr (Some e)" "resolve p i s1 = (Inr (st, Some t), s1)"
      "terminal st" "\<not> ms_of now - ms_of t < window"
      "delete_commitment_plaintext (nd_vault s1) p (e_commitment_hash e) = Inr (True, v1)"
      "put_edge_meta v1 p \<lparr>em_edge_id = i, em_dismissed = d, em_plaintext_deleted_at = Some now\<rparr> = Inr v2"
      "s' = s1\<lparr>nd_vault := v2\<rparr>" "rr_deleted r' = rr_deleted r @ [e_commitment_hash e]" "rr_preserved r' = rr_preserved r @ [i]"
    by (rule retain_edge_cases [OF assms(1,2)]) blast+
  then show ?thesis
  proof cases
    case 1
    with assms(3,4) show ?thesis by simp
  next
    case 2
    with assms(3,4) show ?thesis by (simp add: retained_def)
  next
    case 3
    then have "v1 = nd_vault s1" by (auto simp: delete_commitment_plaintext_def bind_result_Inr_iff split: if_splits)
    with 3 assms(3,4) show ?thesis by (simp add: retained_def)
  next
    case (4 e st t v1 d v2)
    have v2: "same_chains (nd_vault s1) v2"
      using same_chains_trans [OF beside_chains(4) [OF 4(5)] put_edge_meta_chains [OF 4(6)]] .
    have words: "get_commitment v2 q h = (if q = p \<and> h = e_commitment_hash e then Inr None else get_commitment (nd_vault s1) q h)" for q h
      using get_after_delete [OF 4(5) assms(3)] same_part_reads(1) [OF put_edge_meta_parts [OF 4(6)], of q h] by simp
    have meta: "get_edge_meta v2 p j = (if j = i then Inr \<lparr>em_edge_id = i, em_dismissed = d,
        em_plaintext_deleted_at = Some now\<rparr> else get_edge_meta (nd_vault s1) p j)" for j
    proof -
      have "same_part ps_edges (nd_vault s1) v1" by (rule delete_plaintext_parts [OF 4(5)]) simp
      then show ?thesis using get_meta_after_put [OF 4(6), of p j] by (simp add: same_edges_chains(3))
    qed
    have ended: "ended_before resolve p (ms_of now - window) s i e"
      unfolding ended_before_def
    proof (intro conjI exI [of _ s1] exI [of _ st] exI [of _ t])
      show "get_edge (nd_vault s) p i = Inr (Some e)" using 4(1) chains by (simp add: same_chains_def)
    qed (use 4(2-4) chains in simp_all)
    have "retained resolve p now window s r' s'"
      unfolding retained_def
    proof (intro conjI allI ballI)
      show "same_chains (nd_vault s) (nd_vault s')" using same_chains_trans [OF chains v2] 4(7) by simp
      show "nd_local s' = nd_local s" using assms(4) 4(7) by (simp add: retained_def)
      show "get_commitment (nd_vault s') q h = (if q = p \<and> h \<in> set (rr_deleted r') then Inr None else get_commitment (nd_vault s) q h)" for q h
        using assms(4) words 4(7,8) by (auto simp: retained_def)
      fix h
      assume h: "h \<in> set (rr_deleted r')"
      show "\<exists>i e m. ended_before resolve p (ms_of now - window) s i e \<and> e_commitment_hash e = h \<and>
          get_edge_meta (nd_vault s') p i = Inr m \<and> em_plaintext_deleted_at m = Some now"
      proof (cases "h = e_commitment_hash e")
        case True
        with ended meta [of i] 4(7) show ?thesis
          by (intro exI [of _ i] exI [of _ e] exI [of _ "\<lparr>em_edge_id = i, em_dismissed = d, em_plaintext_deleted_at = Some now\<rparr>"]) simp
      next
        case False
        with h 4(8) have "h \<in> set (rr_deleted r)" by simp
        with assms(4) obtain j f n where "ended_before resolve p (ms_of now - window) s j f" "e_commitment_hash f = h"
          "get_edge_meta (nd_vault s1) p j = Inr n" "em_plaintext_deleted_at n = Some now"
          unfolding retained_def by blast
        moreover from this(3,4) meta [of j] 4(7)
        have "\<exists>m. get_edge_meta (nd_vault s') p j = Inr m \<and> em_plaintext_deleted_at m = Some now"
          by (cases "j = i") simp_all
        ultimately show ?thesis by blast
      qed
    qed
    moreover have "vault_ok cl v2" using vault_ok_meta [OF 4(6) vault_ok_delete [OF 4(5) assms(3)]] .
    ultimately show ?thesis using 4 by simp
  qed
qed

lemma retain_edges_keep:
  assumes "retain_edges resolve p now window is r s1 = (Inr r', s')"
    and "\<And>s i res s'. resolve p i s = (res, s') \<Longrightarrow> s' = s"
    and "vault_ok cl (nd_vault s1)" and "retained resolve p now window s r s1"
  shows "retained resolve p now window s r' s' \<and>
    rr_preserved r' = rr_preserved r @ filter (\<lambda>i. get_edge (nd_vault s) p i \<noteq> Inr None) is"
  using assms(1,3,4)
proof (induction "is" arbitrary: r s1)
  case Nil
  then show ?case by simp
next
  case (Cons i is')
  then obtain r1 s2 where i: "retain_edge resolve p now window i r s1 = (Inr r1, s2)"
    and rest: "retain_edges resolve p now window is' r1 s2 = (Inr r', s')"
    by (auto simp: bind_op_Inr)
  note step = retain_edge_step [OF i assms(2) Cons.prems(2,3)]
  have "get_edge (nd_vault s1) p i = get_edge (nd_vault s) p i"
    using Cons.prems(3) by (simp add: retained_def same_chains_def)
  with step Cons.IH [OF rest] show ?case by simp
qed

lemma run_retention_keeps:
  assumes "run_retention resolve p now keep s = (Inr r, s')"
    and "\<And>s i res s'. resolve p i s = (res, s') \<Longrightarrow> s' = s"
    and "vault_ok cl (nd_vault s)"
  obtains ids window where "list_edge_ids (nd_vault s) p = Inr ids"
    and "window = (case keep of None \<Rightarrow> retention_policy (nd_vault s) | Some d \<Rightarrow> d) * 86400000"
    and "retained resolve p now window s r s'"
    and "rr_preserved r = filter (\<lambda>i. get_edge (nd_vault s) p i \<noteq> Inr None) ids"
proof -
  define d where "d = (case keep of None \<Rightarrow> retention_policy (nd_vault s) | Some n \<Rightarrow> n)"
  let ?none = "\<lparr>rr_deleted = [], rr_preserved = [], rr_skipped = []\<rparr>"
  from assms(1) obtain ids where ids: "list_edge_ids (nd_vault s) p = Inr ids"
    and loop: "retain_edges resolve p now (d * 86400000) ids ?none s = (Inr r, s')"
    by (auto simp: run_retention_def op_returns d_def)
  have start: "retained resolve p now (d * 86400000) s ?none s" by (simp add: retained_def)
  have "retained resolve p now (d * 86400000) s r s' \<and>
      rr_preserved r = rr_preserved ?none @ filter (\<lambda>i. get_edge (nd_vault s) p i \<noteq> Inr None) ids"
    by (rule retain_edges_keep [OF loop _ assms(3) start]) (rule assms(2))
  then show thesis by (intro that [OF ids, of "d * 86400000"]) (simp_all add: d_def)
qed

text \<open>The state the callers supply only reads.\<close>

lemma resolver_quiet: "edge_state_resolver cfg p i s = (r, s') \<Longrightarrow> s' = s"
proof -
  have "quiet.keeps (edge_state_resolver cfg p i)"
    unfolding edge_state_resolver_def by (intro quiet.keeps_intros quiet.keeps_edge_state)
  then show "edge_state_resolver cfg p i s = (r, s') \<Longrightarrow> s' = s" using quiet.keepsD by metis
qed

text \<open>
  C8: retention forgets the words of a promise only when an edge of that promise reached a terminal state at
  least a window ago, and says so in the edge's bookkeeping; every other promise keeps its words, and every
  edge, chain and local record stays as it was.
\<close>

theorem retention_forgets_only_what_ended:
  assumes "run_retention resolve p now keep s = (Inr r, s')"
    and "\<And>s i res s'. resolve p i s = (res, s') \<Longrightarrow> s' = s" and "vault_ok cl (nd_vault s)"
    and "window = (case keep of None \<Rightarrow> retention_policy (nd_vault s) | Some d \<Rightarrow> d) * 86400000"
  shows "same_chains (nd_vault s) (nd_vault s') \<and> nd_local s' = nd_local s \<and>
    (\<forall>q h. get_commitment (nd_vault s') q h =
       (if q = p \<and> h \<in> set (rr_deleted r) then Inr None else get_commitment (nd_vault s) q h)) \<and>
    (\<forall>h \<in> set (rr_deleted r). \<exists>i e s0 st t m. get_edge (nd_vault s) p i = Inr (Some e) \<and> e_commitment_hash e = h \<and>
       resolve p i s0 = (Inr (st, Some t), s0) \<and> same_chains (nd_vault s) (nd_vault s0) \<and>
       terminal st \<and> ms_of t \<le> ms_of now - window \<and>
       get_edge_meta (nd_vault s') p i = Inr m \<and> em_plaintext_deleted_at m = Some now) \<and>
    (\<exists>ids. list_edge_ids (nd_vault s) p = Inr ids \<and>
       rr_preserved r = filter (\<lambda>i. get_edge (nd_vault s) p i \<noteq> Inr None) ids)"
proof (rule run_retention_keeps [OF assms(1) _ assms(3)])
  fix ids w
  assume "list_edge_ids (nd_vault s) p = Inr ids" and "retained resolve p now w s r s'"
    and "w = (case keep of None \<Rightarrow> retention_policy (nd_vault s) | Some d \<Rightarrow> d) * 86400000"
    and "rr_preserved r = filter (\<lambda>i. get_edge (nd_vault s) p i \<noteq> Inr None) ids"
  then show ?thesis unfolding retained_def ended_before_def using assms(4) by blast
qed (rule assms(2))

text \<open>
  What is deleted is the promise, not the edge: when two edges carry one promise, the words of the open one
  go with those of the one that ended.
\<close>

theorem retention_forgets_words_of_an_open_edge:
  assumes "run_retention (edge_state_resolver cfg) p now keep s = (Inr r, s')" and "vault_ok cl (nd_vault s)"
    and "h \<in> set (rr_deleted r)" and "get_edge (nd_vault s) p j = Inr (Some e)" and "e_commitment_hash e = h"
    and "edge_state cfg p j s = (Inr st, s)" and "cv_final_state st = SOpen"
  shows "get_commitment (nd_vault s') p (e_commitment_hash e) = Inr None \<and> edge_state cfg p j s' = (Inr st, s')"
proof (rule run_retention_keeps [OF assms(1) resolver_quiet assms(2)])
  fix ids w
  assume k: "retained (edge_state_resolver cfg) p now w s r s'"
  then have c: "same_chains (nd_vault s) (nd_vault s')" and "get_commitment (nd_vault s') p h = Inr None"
    using assms(3) by (simp_all add: retained_def)
  moreover have "edge_state cfg p j s' = (Inr st, s')"
    using assms(6) c same_rotations_verifier [of "nd_vault s" "nd_vault s'" "nc_lib cfg" p None]
    by (simp add: edge_state_Inr same_chains_def)
  ultimately show ?thesis using assms(5) by simp
qed

section \<open>A promise to forget\<close>

definition kept_words :: commitment where
  "kept_words = explicit_commitment alice sample_promise (jan 1)"

definition kept_edge :: edge where
  "kept_edge = the (build_edge sample_lib (commitment_key sample_lib kept_words) alice bob (jan 1) None)"

definition keeper :: node where
  "keeper = \<lparr>nd_vault = put_store empty_vault alice ((empty_store (sample_persona alice ''me''))
       \<lparr>ps_commitments := [(commitment_key sample_lib kept_words, kept_words)],
        ps_edges := [(e_id kept_edge, no_edge_files\<lparr>ef_edge := Some kept_edge\<rparr>)]\<rparr>),
     nd_local = \<lparr>ls_pending = [], ls_ingested = []\<rparr>\<rparr>"

definition closed_then :: edge_state_resolver where
  "closed_then p i s = (Inr (SClosed, Some (jan 1)), s)"

lemma kept_edge_built: "build_edge sample_lib (commitment_key sample_lib kept_words) alice bob (jan 1) None = Some kept_edge"
proof -
  have "edge_id_of sample_lib \<lparr>ei_commitment_hash = commitment_key sample_lib kept_words, ei_owner = alice, ei_owed_to = bob,
      ei_proposed_at = text_of (jan 1)\<rparr> \<noteq> None"
    using parties_hex64 by (simp add: edge_id_of_def commitment_key_def commitment_hash_eq sha256_hex_def hex64_to_hex sample_lib_def)
  then show ?thesis by (auto simp: kept_edge_def build_edge_def)
qed

lemma kept_edge_id: "hex_id (e_id kept_edge)" "edge_id_binds_body sample_lib kept_edge"
    "e_commitment_hash kept_edge = commitment_key sample_lib kept_words"
proof -
  have "length (lib_sha256 sample_lib bs) = 32" for bs by (simp add: sample_lib_def)
  from build_edge_id [OF kept_edge_built this]
  show "hex_id (e_id kept_edge)" "edge_id_binds_body sample_lib kept_edge" by (simp_all add: hex64_hex_id)
  show "e_commitment_hash kept_edge = commitment_key sample_lib kept_words"
    using build_edge_Some(3) [OF kept_edge_built] .
qed

lemma keeper_ok: "vault_ok sample_lib (nd_vault keeper)"
  using parties_hex64 hex64_hex_id kept_edge_id
  by (auto simp: vault_ok_def keeper_def put_store_def empty_vault_def labels_distinct_def dir_get_def named_by_def
      store_ok_def empty_store_def sample_persona_def dir_ok_def dir_names_def files_ok_def chain_dir_def no_edge_files_def
      split: if_splits)

lemma keeper_forgets:
  obtains s' where "run_retention closed_then alice march (Some 30) keeper =
    (Inr \<lparr>rr_deleted = [commitment_key sample_lib kept_words], rr_preserved = [e_id kept_edge], rr_skipped = []\<rparr>, s')"
proof -
  have a: "hex_id alice" by (simp add: hex64_hex_id parties_hex64)
  have h: "hex_id (commitment_key sample_lib kept_words)" by (rule commitment_key_hex) (simp add: sample_lib_def)
  show thesis
    using a h kept_edge_id
    by (intro that)
      (simp add: run_retention_def op_eval retain_edge_def retain_held_def retain_resolved_def forget_words_def update_vault_def
        write_vault_def closed_then_def list_edge_ids_def keeper_def require_put_store dir_names_def get_edge_def edge_dir_def
        assert_hex_id_def dir_get_def no_edge_files_def terminal_states_def delete_commitment_plaintext_def Let_def
        get_edge_meta_def put_edge_meta_def empty_store_def)
qed

theorem retention_forgets_only_what_ended_witness:
  "\<exists>r s'. run_retention closed_then alice march (Some 30) keeper = (Inr r, s') \<and> rr_deleted r \<noteq> [] \<and>
     same_chains (nd_vault keeper) (nd_vault s') \<and>
     get_commitment (nd_vault s') alice (commitment_key sample_lib kept_words) = Inr None"
proof -
  obtain s' where run: "run_retention closed_then alice march (Some 30) keeper =
    (Inr \<lparr>rr_deleted = [commitment_key sample_lib kept_words], rr_preserved = [e_id kept_edge], rr_skipped = []\<rparr>, s')"
    by (rule keeper_forgets)
  have quiet: "closed_then alice i s = (res, t) \<Longrightarrow> t = s" for s i res t by (simp add: closed_then_def)
  show ?thesis using retention_forgets_only_what_ended [OF run quiet keeper_ok refl] run by auto
qed

end
