(* ===== verification/Addressing.thy ===== *)
theory Addressing
  imports Wire Samples
begin

text \<open>
  Where a persona's mail goes: \<^verbatim>\<open>InboxRecord\<close> of \<^verbatim>\<open>packages/types/src/wire.ts\<close> and
  \<^verbatim>\<open>packages/federation/src/addressing.ts\<close>. A record is any JSON value until it is parsed and its signature is
  checked against the persona it names. The instant \<open>now\<close> is a timestamp, so that the age of a record is
  a number.
\<close>

record inbox_record =
  ir_persona :: persona_id
  ir_hubs :: "string list"
  ir_dh_key :: string
  ir_issued_at :: rfc3339
  ir_sig :: signature_hex

definition unsigned_record_members :: "inbox_record \<Rightarrow> json_members" where
  "unsigned_record_members r =
     [(''v'', JStr protocol_version), (''type'', JStr ''inbox''), (''persona'', JStr (ir_persona r)),
      (''hubs'', json_strings (ir_hubs r)), (''dh_key'', JStr (ir_dh_key r)),
      (''issued_at'', JStr (text_of (ir_issued_at r)))]"

definition record_members :: "inbox_record \<Rightarrow> json_members" where
  "record_members r = unsigned_record_members r @ [(''sig'', JStr (ir_sig r))]"

definition parse_inbox_record :: "json \<Rightarrow> inbox_record option" where
  "parse_inbox_record = object_of (\<lambda>ms.
     if \<not> tagged ''inbox'' ms then None
     else Option.bind (required (text_where hex64) ms ''persona'') (\<lambda>p.
       Option.bind (required (array_of (text_where (\<lambda>s. s \<noteq> []))) ms ''hubs'') (\<lambda>hs.
       Option.bind (required (text_where hex64) ms ''dh_key'') (\<lambda>k.
       Option.bind (required timestamp ms ''issued_at'') (\<lambda>t.
       Option.bind (required (text_where hex128) ms ''sig'') (\<lambda>s.
         Some \<lparr>ir_persona = p, ir_hubs = hs, ir_dh_key = k, ir_issued_at = t, ir_sig = s\<rparr>))))))"

definition inbox_record_lifetime_days :: int where "inbox_record_lifetime_days = 30"
definition inbox_record_republish_days :: int where "inbox_record_republish_days = 15"

datatype inbox_rejection = SignerIsNotThePersona | RecordSignatureInvalid | MalformedRecord

record inbox_verification =
  iv_accepted :: bool
  iv_reason :: "inbox_rejection option"
  iv_actual_signer :: "string option"

text \<open>Known keys are pairs of a label and a key; they only name who signed a record that is refused.\<close>

definition verify_inbox_record :: "crypto_lib \<Rightarrow> json \<Rightarrow> (string \<times> persona_id) list \<Rightarrow> inbox_verification" where
  "verify_inbox_record cl candidate known =
     (case parse_inbox_record candidate of
        None \<Rightarrow> \<lparr>iv_accepted = False, iv_reason = Some MalformedRecord, iv_actual_signer = None\<rparr>
      | Some r \<Rightarrow>
          if verify_object cl (record_members r) (ir_persona r)
          then \<lparr>iv_accepted = True, iv_reason = None, iv_actual_signer = None\<rparr>
          else case find (\<lambda>(label, k). k \<noteq> ir_persona r \<and> verify_object cl (record_members r) k) known of
            Some (label, k) \<Rightarrow> \<lparr>iv_accepted = False, iv_reason = Some SignerIsNotThePersona, iv_actual_signer = Some label\<rparr>
          | None \<Rightarrow> \<lparr>iv_accepted = False, iv_reason = Some RecordSignatureInvalid, iv_actual_signer = None\<rparr>)"

definition hubs_for :: "inbox_record \<Rightarrow> rfc3339 \<Rightarrow> string list" where
  "hubs_for r now =
     (let age = ms_of now - ms_of (ir_issued_at r)
      in if age < 0 then [] else if inbox_record_lifetime_days * 86400000 < age then [] else ir_hubs r)"

definition should_republish :: "inbox_record \<Rightarrow> rfc3339 \<Rightarrow> bool" where
  "should_republish r now \<longleftrightarrow> inbox_record_republish_days * 86400000 \<le> ms_of now - ms_of (ir_issued_at r)"

definition inbox_record_canonical :: "inbox_record \<Rightarrow> string option" where
  "inbox_record_canonical r = canonicalize (JObj (unsigned_record_members r))"

definition dh_key_from :: "crypto_lib \<Rightarrow> json \<Rightarrow> rfc3339 \<Rightarrow> string option" where
  "dh_key_from cl candidate now =
     (if \<not> iv_accepted (verify_inbox_record cl candidate []) then None
      else Option.bind (parse_inbox_record candidate) (\<lambda>r.
        if hubs_for r now = [] then None else Some (ir_dh_key r)))"

section \<open>Delivery\<close>

datatype delivery_refusal = RefusedRecord "inbox_rejection option" | RecordExpired

record delivery_outcome =
  do_delivered :: "string option"
  do_attempts :: "(string \<times> string) list"
  do_refused :: "delivery_refusal option"

text \<open>
  The \<open>n\<close>-th call of a client's \<^verbatim>\<open>send\<close> with a recipient and a message, for a hub: accepted (\<open>None\<close>), or refused with an error. Which hub is
  reached and what it answers is the parameter.
\<close>

fun try_hubs :: "(nat \<Rightarrow> string \<Rightarrow> string option) \<Rightarrow> nat \<Rightarrow> string list \<Rightarrow> (string \<times> string) list \<Rightarrow> delivery_outcome" where
  "try_hubs send n [] tried = \<lparr>do_delivered = None, do_attempts = tried, do_refused = None\<rparr>"
| "try_hubs send n (h # hs) tried =
     (case send n h of
        None \<Rightarrow> \<lparr>do_delivered = Some h, do_attempts = tried, do_refused = None\<rparr>
      | Some err \<Rightarrow> try_hubs send (Suc n) hs (tried @ [(h, err)]))"

definition deliver_via_inbox ::
    "crypto_lib \<Rightarrow> (nat \<Rightarrow> string \<Rightarrow> persona_id \<Rightarrow> wire_message \<Rightarrow> string option) \<Rightarrow> json \<Rightarrow> persona_id \<Rightarrow> wire_message \<Rightarrow>
     rfc3339 \<Rightarrow> delivery_outcome" where
  "deliver_via_inbox cl send candidate recipient m now =
     (let verdict = verify_inbox_record cl candidate []
      in if \<not> iv_accepted verdict
         then \<lparr>do_delivered = None, do_attempts = [], do_refused = Some (RefusedRecord (iv_reason verdict))\<rparr>
         else case parse_inbox_record candidate of
           None \<Rightarrow> \<lparr>do_delivered = None, do_attempts = [], do_refused = Some (RefusedRecord (Some MalformedRecord))\<rparr>
         | Some r \<Rightarrow>
             if hubs_for r now = []
             then \<lparr>do_delivered = None, do_attempts = [], do_refused = Some RecordExpired\<rparr>
             else try_hubs (\<lambda>n h. send n h recipient m) 0 (hubs_for r now) [])"

text \<open>What a delivery that reached a hub rests on: the persona's own record, within its thirty days.\<close>

definition moved_by :: "crypto_lib \<Rightarrow> json \<Rightarrow> inbox_record \<Rightarrow> rfc3339 \<Rightarrow> bool" where
  "moved_by cl candidate r now \<longleftrightarrow> parse_inbox_record candidate = Some r \<and>
     verify_object cl (record_members r) (ir_persona r) \<and>
     ms_of (ir_issued_at r) \<le> ms_of now \<and> ms_of now \<le> ms_of (ir_issued_at r) + 30 * 86400000"

lemma try_hubs_delivered:
  assumes "do_delivered (try_hubs send n hs tried) = Some h"
  shows "\<exists>k < length hs. hs ! k = h \<and> send (n + k) h = None \<and> (\<forall>j < k. send (n + j) (hs ! j) \<noteq> None) \<and>
    map fst (do_attempts (try_hubs send n hs tried)) = map fst tried @ take k hs"
  using assms
proof (induction hs arbitrary: n tried)
  case Nil
  then show ?case by simp
next
  case (Cons g hs)
  show ?case
  proof (cases "send n g")
    case None
    with Cons.prems show ?thesis by (intro exI [of _ 0]) simp
  next
    case (Some err)
    with Cons.prems Cons.IH [of "Suc n" "tried @ [(g, err)]"] obtain k where "k < length hs" "hs ! k = h" "send (Suc n + k) h = None"
      "\<forall>j < k. send (Suc n + j) (hs ! j) \<noteq> None"
      "map fst (do_attempts (try_hubs send (Suc n) hs (tried @ [(g, err)]))) = map fst (tried @ [(g, err)]) @ take k hs"
      by auto
    with Some show ?thesis by (intro exI [of _ "Suc k"]) (simp add: All_less_Suc2)
  qed
qed

text \<open>
  C14: mail reaches a hub only on the persona's own word. A delivery that succeeded rests on a record that
  verifies under the key of the persona it names, at most thirty days old and not from the future; it went
  to a hub of that record, every hub before it in the persona's order was tried with the recipient and the
  message and refused, and no other hub was asked. (The persona of the record is not compared with the
  recipient: \<open>another_personas_record_routes\<close>.)
\<close>

theorem only_the_persona_directs_its_mail:
  assumes "do_delivered (deliver_via_inbox cl send candidate recipient m now) = Some h"
  shows "\<exists>r k. moved_by cl candidate r now \<and> k < length (ir_hubs r) \<and> ir_hubs r ! k = h \<and> send k h recipient m = None \<and>
    (\<forall>j < k. send j (ir_hubs r ! j) recipient m \<noteq> None) \<and>
    map fst (do_attempts (deliver_via_inbox cl send candidate recipient m now)) = take k (ir_hubs r)"
proof -
  from assms obtain r where r: "parse_inbox_record candidate = Some r" "verify_object cl (record_members r) (ir_persona r)"
    and tried: "deliver_via_inbox cl send candidate recipient m now = try_hubs (\<lambda>n h. send n h recipient m) 0 (hubs_for r now) []"
    and hubs: "hubs_for r now \<noteq> []"
    by (auto simp: deliver_via_inbox_def verify_inbox_record_def Let_def split: option.split_asm if_split_asm)
  from hubs have age: "ms_of (ir_issued_at r) \<le> ms_of now" "ms_of now \<le> ms_of (ir_issued_at r) + 30 * 86400000"
    and all: "hubs_for r now = ir_hubs r"
    by (auto simp: hubs_for_def Let_def inbox_record_lifetime_days_def split: if_split_asm)
  from try_hubs_delivered [of "\<lambda>n h. send n h recipient m" 0 "ir_hubs r" "[]" h] assms tried all obtain k where
    "k < length (ir_hubs r)" "ir_hubs r ! k = h" "send k h recipient m = None" "\<forall>j < k. send j (ir_hubs r ! j) recipient m \<noteq> None"
    "map fst (do_attempts (deliver_via_inbox cl send candidate recipient m now)) = take k (ir_hubs r)" by auto
  with r age show ?thesis by (auto simp: moved_by_def)
qed

section \<open>A record of Alice's\<close>

definition alice_record :: "signature_hex \<Rightarrow> inbox_record" where
  "alice_record s = \<lparr>ir_persona = alice, ir_hubs = [''h1'', ''h2''], ir_dh_key = bob, ir_issued_at = jan 1, ir_sig = s\<rparr>"

lemma alice_record_signed: "\<exists>s. parse_inbox_record (JObj (record_members (alice_record s))) = Some (alice_record s) \<and>
    verify_object sample_lib (record_members (alice_record s)) alice"
proof -
  let ?ms = "unsigned_record_members (alice_record [])"
  have un: "unsigned_record_members (alice_record s) = ?ms" for s by (simp add: unsigned_record_members_def alice_record_def)
  obtain s where s: "sign_object sample_lib ?ms alice = Some s"
    by (rule sign_object_defined [OF sample_signs [of alice]])
      (auto simp: unsigned_record_members_def alice_record_def json_strings_def json_depth_le simp del: json_depth.simps(1,2))
  have "with_signature sample_lib ?ms alice = Some (record_members (alice_record s))"
    using s by (simp add: with_signature_def record_members_def un [of s]) (simp add: unsigned_record_members_def alice_record_def)
  from verify_with_signature [OF sample_signs this] have "verify_object sample_lib (record_members (alice_record s)) alice" by simp
  moreover have "hex128 s" by (rule hex128_signature [OF s sample_signs]) simp
  then have "parse_inbox_record (JObj (record_members (alice_record s))) = Some (alice_record s)"
    using parties_hex64
    by (simp add: parse_inbox_record_def object_of_def record_members_def unsigned_record_members_def alice_record_def
        tagged_def required_def array_of_def json_strings_def)
  ultimately show ?thesis by blast
qed

text \<open>Her first hub is down, her second takes the message.\<close>

theorem only_the_persona_directs_its_mail_witness:
  "\<forall>m. \<exists>candidate. do_delivered (deliver_via_inbox sample_lib (\<lambda>n h q m. if h = ''h1'' then Some ''503'' else None) candidate alice m (jan 20)) = Some ''h2'' \<and>
    (\<exists>r. moved_by sample_lib candidate r (jan 20) \<and> ir_persona r = alice)"
proof
  fix m
  from alice_record_signed obtain s where s: "parse_inbox_record (JObj (record_members (alice_record s))) = Some (alice_record s)"
    "verify_object sample_lib (record_members (alice_record s)) alice" by blast
  let ?c = "JObj (record_members (alice_record s))" and ?send = "\<lambda>n h q m. if h = ''h1'' then Some ''503'' else None"
  have d: "do_delivered (deliver_via_inbox sample_lib ?send ?c alice m (jan 20)) = Some ''h2''"
    using s by (simp add: deliver_via_inbox_def verify_inbox_record_def hubs_for_def Let_def inbox_record_lifetime_days_def alice_record_def)
  from only_the_persona_directs_its_mail [OF d] obtain r where "moved_by sample_lib ?c r (jan 20)" by blast
  with d s(1) show "\<exists>candidate. do_delivered (deliver_via_inbox sample_lib ?send candidate alice m (jan 20)) = Some ''h2'' \<and>
      (\<exists>r. moved_by sample_lib candidate r (jan 20) \<and> ir_persona r = alice)"
    by (intro exI [of _ ?c]) (auto simp: moved_by_def alice_record_def)
qed

text \<open>Alice's record routes a message for Bob.\<close>

lemma another_personas_record_routes:
  "\<exists>candidate r. parse_inbox_record candidate = Some r \<and> ir_persona r = alice \<and>
     do_delivered (deliver_via_inbox sample_lib (\<lambda>n h q m. None) candidate bob m (jan 20)) = Some ''h1''"
proof -
  from alice_record_signed obtain s where s: "parse_inbox_record (JObj (record_members (alice_record s))) = Some (alice_record s)"
    "verify_object sample_lib (record_members (alice_record s)) alice" by blast
  then have "do_delivered (deliver_via_inbox sample_lib (\<lambda>n h q m. None) (JObj (record_members (alice_record s))) bob m (jan 20)) = Some ''h1''"
    by (simp add: deliver_via_inbox_def verify_inbox_record_def hubs_for_def Let_def inbox_record_lifetime_days_def alice_record_def)
  with s(1) show ?thesis by (intro exI conjI) (assumption, simp_all add: alice_record_def)
qed

end
