(* ===== verification/Sharing.thy ===== *)
theory Sharing
  imports History
begin

text \<open>
  What leaves a node on request and what it takes back: \<^verbatim>\<open>packages/federation/src/serve.ts\<close> (who may be
  served an edge), \<^verbatim>\<open>recon.ts\<close> (pairwise reconciliation) and \<^verbatim>\<open>antispam.ts\<close> (the proposal budget). The
  functions of the first two act on a vault; they are operations of the node here, so that an exception
  leaves the writes made before it. \<open>now\<close> is \<^verbatim>\<open>vault.now()\<close>, one instant per call.
\<close>

section \<open>Parties\<close>

definition is_party :: "edge \<Rightarrow> persona_id \<Rightarrow> bool" where
  "is_party e k \<longleftrightarrow> e_owner e = k \<or> e_owed_to e = k"

definition party_lineage :: "crypto_lib \<Rightarrow> persona_id \<Rightarrow> (persona_id \<Rightarrow> party_key list) node_op" where
  "party_lineage cl p = read_vault (\<lambda>v. map_sum id (successor_resolver cl) (list_rotations v p))"

definition is_party_or_successor :: "edge \<Rightarrow> persona_id \<Rightarrow> (persona_id \<Rightarrow> party_key list) \<Rightarrow> bool" where
  "is_party_or_successor e k lin \<longleftrightarrow>
     is_party e k \<or> (\<exists>x \<in> set (lin (e_owner e)). pk_key x = k) \<or> (\<exists>x \<in> set (lin (e_owed_to e)). pk_key x = k)"

definition current_key_of :: "persona_id \<Rightarrow> (persona_id \<Rightarrow> party_key list) \<Rightarrow> persona_id" where
  "current_key_of k lin = (case last_opt (lin k) of None \<Rightarrow> k | Some x \<Rightarrow> pk_key x)"

section \<open>Serving an edge\<close>

datatype serve_grant = NotServed | ServedAsParty | ServedInScope persona_id

text \<open>The requester is the scope, or an attestation of the scope names it, unrevoked and unexpired.\<close>

definition in_scope :: "int \<Rightarrow> persona_id \<Rightarrow> persona_id \<Rightarrow> persona_id \<Rightarrow> bool node_op" where
  "in_scope now host requester sc =
     (if sc = requester then return_op True
      else bind_op (read_vault (\<lambda>v. get_attestation v host requester)) (\<lambda>att.
        case att of
          None \<Rightarrow> return_op False
        | Some a \<Rightarrow>
            if at_org a \<noteq> sc then return_op False
            else bind_op (read_vault (\<lambda>v. get_revocation v host requester)) (\<lambda>rv.
              return_op (\<not> (case rv of None \<Rightarrow> False | Some x \<Rightarrow> ms_of (rv_revoked_at x) \<le> now) \<and>
                \<not> ms_of (at_expires_at a) < now))))"

text \<open>The publish records, in order: the first that names a scope the requester is or belongs to.\<close>

fun serve_by_scope :: "int \<Rightarrow> persona_id \<Rightarrow> persona_id \<Rightarrow> edge \<Rightarrow> publish list \<Rightarrow> serve_grant node_op" where
  "serve_by_scope now host requester e [] = return_op NotServed"
| "serve_by_scope now host requester e (r # rs) =
     (if pb_edge_id r \<noteq> e_id e then serve_by_scope now host requester e rs
      else if \<not> is_party e (pb_by r) then serve_by_scope now host requester e rs
      else bind_op (in_scope now host requester (pb_scope r)) (\<lambda>ok.
        if ok then return_op (ServedInScope (pb_scope r)) else serve_by_scope now host requester e rs))"

definition may_serve_edge :: "crypto_lib \<Rightarrow> int \<Rightarrow> persona_id \<Rightarrow> persona_id \<Rightarrow> edge \<Rightarrow> serve_grant node_op" where
  "may_serve_edge cl now host requester e =
     bind_op (party_lineage cl host) (\<lambda>lin.
       if is_party_or_successor e requester lin then return_op ServedAsParty
       else bind_op (read_vault (\<lambda>v. list_publish_records v host)) (serve_by_scope now host requester e))"

section \<open>Reconciliation\<close>

definition open_family :: "effective_state list" where
  "open_family = [SProposed, SOpen, SPendingAcceptance, SDisputed]"

record recon_ref =
  rf_edge_id :: sha256_hex
  rf_latest :: sha256_hex

record recon_entry =
  en_edge_id :: sha256_hex
  en_assertions :: "assertion list"

record recon_result =
  rc_accepted :: "assertion list"
  rc_discarded :: "(sha256_hex \<times> nat \<times> rejection_reason) list"
  rc_ignored :: "sha256_hex list"

definition empty_chain_hash :: sha256_hex where
  "empty_chain_hash = replicate 64 CHR ''0''"

definition chain_digest_json :: "assertion list \<Rightarrow> json" where
  "chain_digest_json as = JObj [(''v'', JStr protocol_version), (''type'', JStr ''chain_digest''),
     (''sigs'', json_strings (sort (map a_sig as)))]"

definition latest_assertion_hash :: "crypto_lib \<Rightarrow> assertion list \<Rightarrow> sha256_hex" where
  "latest_assertion_hash cl as =
     (if as = [] then empty_chain_hash else the (hash_canonical cl (chain_digest_json as)))"

definition shared_open_edges :: "crypto_lib \<Rightarrow> persona_id \<Rightarrow> persona_id \<Rightarrow> edge list node_op" where
  "shared_open_edges cl p counterparty =
     bind_op (party_lineage cl p) (\<lambda>lin.
     bind_op (read_vault (\<lambda>v. list_edge_ids v p)) (collect_op (\<lambda>i.
       bind_op (read_vault (\<lambda>v. get_edge v p i)) (\<lambda>held.
         case held of
           None \<Rightarrow> return_op None
         | Some e \<Rightarrow>
             if \<not> is_party_or_successor e p lin \<or> \<not> is_party_or_successor e counterparty lin then return_op None
             else bind_op (read_vault (\<lambda>v. get_assertions v p i)) (\<lambda>as.
               return_op (if cv_final_state (verify_assertion_chain \<lparr>v_lib = cl, v_now = None, v_lineage = lin\<rparr> e as)
                     \<in> set open_family
                   then Some e else None))))))"

definition build_recon_request :: "crypto_lib \<Rightarrow> persona_id \<Rightarrow> persona_id \<Rightarrow> recon_ref list node_op" where
  "build_recon_request cl p counterparty =
     bind_op (shared_open_edges cl p counterparty) (collect_op (\<lambda>e.
       bind_op (read_vault (\<lambda>v. get_assertions v p (e_id e))) (\<lambda>as.
         return_op (Some \<lparr>rf_edge_id = e_id e, rf_latest = latest_assertion_hash cl as\<rparr>))))"

definition answer_recon_request ::
    "crypto_lib \<Rightarrow> int \<Rightarrow> persona_id \<Rightarrow> persona_id \<Rightarrow> recon_ref list \<Rightarrow> recon_entry list node_op" where
  "answer_recon_request cl now p requester =
     collect_op (\<lambda>ref.
       bind_op (read_vault (\<lambda>v. get_edge v p (rf_edge_id ref))) (\<lambda>held.
         case held of
           None \<Rightarrow> return_op None
         | Some e \<Rightarrow>
             bind_op (may_serve_edge cl now p requester e) (\<lambda>grant.
               if grant = NotServed then return_op None
               else bind_op (read_vault (\<lambda>v. get_assertions v p (rf_edge_id ref))) (\<lambda>as.
                 return_op (if latest_assertion_hash cl as = rf_latest ref then None
                   else Some \<lparr>en_edge_id = rf_edge_id ref, en_assertions = as\<rparr>)))))"

text \<open>\<^verbatim>\<open>inWireOrder\<close>, by a stable sort.\<close>

definition in_wire_order :: "assertion list \<Rightarrow> assertion list" where
  "in_wire_order as = sort_key (\<lambda>a. ms_of (a_asserted_at a)) as"

text \<open>What the table made of the \<open>k\<close>-th and later assertions of the candidate chain.\<close>

fun apply_outcomes ::
    "persona_id \<Rightarrow> sha256_hex \<Rightarrow> nat \<Rightarrow> (assertion \<times> outcome) list \<Rightarrow> recon_result \<Rightarrow> recon_result node_op" where
  "apply_outcomes p i k [] r = return_op r"
| "apply_outcomes p i k ((a, out) # rest) r =
     (case out of
        None \<Rightarrow> bind_op (store_assertion p a) (\<lambda>_.
          apply_outcomes p i (Suc k) rest (r\<lparr>rc_accepted := rc_accepted r @ [a]\<rparr>))
      | Some why \<Rightarrow> apply_outcomes p i (Suc k) rest (r\<lparr>rc_discarded := rc_discarded r @ [(i, k, why)]\<rparr>))"

definition apply_entry ::
    "crypto_lib \<Rightarrow> int \<Rightarrow> persona_id \<Rightarrow> persona_id \<Rightarrow> (persona_id \<Rightarrow> party_key list) \<Rightarrow> recon_entry \<Rightarrow> recon_result \<Rightarrow>
     recon_result node_op" where
  "apply_entry cl now p responder lin en r =
     bind_op (read_vault (\<lambda>v. get_edge v p (en_edge_id en))) (\<lambda>held.
       case held of
         None \<Rightarrow> return_op (r\<lparr>rc_ignored := rc_ignored r @ [en_edge_id en]\<rparr>)
       | Some e \<Rightarrow>
           if \<not> is_party_or_successor e p lin \<or> \<not> is_party_or_successor e responder lin
           then return_op (r\<lparr>rc_ignored := rc_ignored r @ [en_edge_id en]\<rparr>)
           else bind_op (read_vault (\<lambda>v. get_assertions v p (en_edge_id en))) (\<lambda>held_as.
             let incoming = in_wire_order (filter (\<lambda>a. a_sig a \<notin> set (map a_sig held_as)) (en_assertions en));
                 outs = cv_outcomes (verify_assertion_chain \<lparr>v_lib = cl, v_now = Some now, v_lineage = lin\<rparr> e (held_as @ incoming))
             in if incoming = [] then return_op r
                else apply_outcomes p (en_edge_id en) (length held_as) (zip incoming (drop (length held_as) outs)) r))"

fun apply_entries ::
    "crypto_lib \<Rightarrow> int \<Rightarrow> persona_id \<Rightarrow> persona_id \<Rightarrow> (persona_id \<Rightarrow> party_key list) \<Rightarrow> recon_entry list \<Rightarrow> recon_result \<Rightarrow>
     recon_result node_op" where
  "apply_entries cl now p responder lin [] r = return_op r"
| "apply_entries cl now p responder lin (en # ens) r =
     bind_op (apply_entry cl now p responder lin en r) (apply_entries cl now p responder lin ens)"

definition apply_recon_response ::
    "crypto_lib \<Rightarrow> int \<Rightarrow> persona_id \<Rightarrow> persona_id \<Rightarrow> recon_entry list \<Rightarrow> recon_result node_op" where
  "apply_recon_response cl now p responder ens =
     bind_op (party_lineage cl p) (\<lambda>lin.
       apply_entries cl now p responder lin ens \<lparr>rc_accepted = [], rc_discarded = [], rc_ignored = []\<rparr>)"

section \<open>The proposal budget\<close>

datatype admission = Surfaced | RateLimited | CapReached

record budget =
  bg_cap :: nat
  bg_per_sender :: int
  bg_window :: int
  bg_recent :: "persona_id \<Rightarrow> int list"
  bg_surfaced :: nat

definition new_budget :: "int \<Rightarrow> int option \<Rightarrow> int option \<Rightarrow> budget option" where
  "new_budget cap per_sender window =
     (if cap < 0 then None
      else Some \<lparr>bg_cap = nat cap, bg_per_sender = (case per_sender of None \<Rightarrow> 3 | Some n \<Rightarrow> n),
        bg_window = (case window of None \<Rightarrow> 86400000 | Some w \<Rightarrow> w), bg_recent = (\<lambda>_. []), bg_surfaced = 0\<rparr>)"

text \<open>\<^verbatim>\<open>admit\<close>: only a sender of level 0 spends the budget, and only when it is surfaced.\<close>

definition budget_admit :: "int \<Rightarrow> persona_id \<Rightarrow> nat \<Rightarrow> budget \<Rightarrow> admission \<times> budget" where
  "budget_admit now sender level b =
     (if level \<noteq> 0 then (Surfaced, b)
      else
        let seen = filter (\<lambda>t. now - t < bg_window b) (bg_recent b sender)
        in if bg_per_sender b \<le> int (length seen)
           then (RateLimited, b\<lparr>bg_recent := (bg_recent b)(sender := seen)\<rparr>)
           else if bg_cap b \<le> bg_surfaced b
           then (CapReached, b\<lparr>bg_recent := (bg_recent b)(sender := seen)\<rparr>)
           else (Surfaced, b\<lparr>bg_recent := (bg_recent b)(sender := seen @ [now]), bg_surfaced := Suc (bg_surfaced b)\<rparr>))"

definition budget_spent :: "budget \<Rightarrow> nat \<times> nat" where
  "budget_spent b = (bg_surfaced b, bg_cap b)"

datatype conversion_error = NotUserInitiated | NotOneCounterparty

definition assert_user_initiated :: "string \<Rightarrow> bool \<Rightarrow> (conversion_error, unit) result" where
  "assert_user_initiated counterparty user_initiated =
     (if \<not> user_initiated then Inl NotUserInitiated
      else if \<not> hex64 counterparty then Inl NotOneCounterparty else Inr ())"

end
