(* ===== verification/Inbox.thy ===== *)
theory Inbox
  imports Sharing Wire
begin

text \<open>
  The inbound half of federation: \<^verbatim>\<open>packages/federation/src/inbox.ts\<close>. A received message is any JSON value;
  it is judged by version, signature and recipient, its payload is parsed by its type, and what it
  carries reaches the vault only through the transition table. One message reads the clock once:
  \<open>now\<close> is \<^verbatim>\<open>vault.now()\<close> and the budget's clock while it is handled.
\<close>

section \<open>Payloads\<close>

definition parse_propose :: "json \<Rightarrow> (edge \<times> assertion) option" where
  "parse_propose = object_of (\<lambda>ms.
     Option.bind (required parse_edge ms ''edge'') (\<lambda>e.
     Option.bind (required parse_assertion ms ''assertion'') (\<lambda>a. Some (e, a))))"

definition parse_assert :: "json \<Rightarrow> assertion option" where
  "parse_assert = object_of (\<lambda>ms. required parse_assertion ms ''assertion'')"

definition parse_recon_ref :: "json \<Rightarrow> recon_ref option" where
  "parse_recon_ref = object_of (\<lambda>ms.
     Option.bind (required (text_where hex64) ms ''edge_id'') (\<lambda>i.
     Option.bind (required (text_where hex64) ms ''latest_assertion_hash'') (\<lambda>h.
       Some \<lparr>rf_edge_id = i, rf_latest = h\<rparr>)))"

definition parse_recon_request :: "json \<Rightarrow> recon_ref list option" where
  "parse_recon_request = object_of (\<lambda>ms. required (array_of parse_recon_ref) ms ''edges'')"

definition parse_recon_entry :: "json \<Rightarrow> recon_entry option" where
  "parse_recon_entry = object_of (\<lambda>ms.
     Option.bind (required (text_where hex64) ms ''edge_id'') (\<lambda>i.
     Option.bind (required (array_of parse_assertion) ms ''assertions'') (\<lambda>as.
       Some \<lparr>en_edge_id = i, en_assertions = as\<rparr>)))"

definition parse_recon_response :: "json \<Rightarrow> recon_entry list option" where
  "parse_recon_response = object_of (\<lambda>ms. required (array_of parse_recon_entry) ms ''edges'')"

text \<open>\<^verbatim>\<open>recovery.ts\<close>: a request names a persona and carries any object as its proof.\<close>

record recover_request =
  rq_persona :: persona_id
  rq_proof :: json_members

definition parse_recover_request :: "json \<Rightarrow> recover_request option" where
  "parse_recover_request = object_of (\<lambda>ms.
     Option.bind (required (text_where hex64) ms ''persona'') (\<lambda>p.
     Option.bind (required (object_of Some) ms ''proof'') (\<lambda>pr. Some \<lparr>rq_persona = p, rq_proof = pr\<rparr>)))"

definition parse_recover_entry :: "json \<Rightarrow> (edge \<times> assertion list) option" where
  "parse_recover_entry = object_of (\<lambda>ms.
     Option.bind (required parse_edge ms ''edge'') (\<lambda>e.
     Option.bind (required (array_of parse_assertion) ms ''assertions'') (\<lambda>as. Some (e, as))))"

definition parse_recover_response :: "json \<Rightarrow> (edge \<times> assertion list) list option" where
  "parse_recover_response = object_of (\<lambda>ms. required (array_of parse_recover_entry) ms ''edges'')"

section \<open>The inbox\<close>

datatype discard_reason =
    WrongProtocolVersion
  | SignatureDoesNotVerify
  | AddressedToAnotherPersona
  | MalformedPayload
  | NotAddressedToThisPersona
  | ProposerIsNotTheOwner
  | EdgeIdDoesNotBind
  | EdgeBodyDiffersFromHeld
  | UnknownEdge
  | SenderIsNotAParty
  | RotationDoesNotVerify
  | RotationFromAThirdParty
  | RotationForAnUnknownParty
  | TransitionTable rejection_reason

record ingest_result =
  ig_accepted :: "(message_type \<times> sha256_hex option) list"
  ig_discarded :: "(message_type option \<times> sha256_hex option \<times> discard_reason) list"
  ig_suppressed :: "(persona_id \<times> sha256_hex \<times> admission) list"
  ig_recon_requests :: "(persona_id \<times> recon_ref list) list"
  ig_recover_requests :: "(persona_id \<times> recover_request) list"
  ig_recon :: recon_result

definition empty_result :: ingest_result where
  "empty_result = \<lparr>ig_accepted = [], ig_discarded = [], ig_suppressed = [], ig_recon_requests = [],
     ig_recover_requests = [], ig_recon = \<lparr>rc_accepted = [], rc_discarded = [], rc_ignored = []\<rparr>\<rparr>"

record inbox =
  ib_lib :: crypto_lib
  ib_persona :: persona_id
  ib_level :: "persona_id \<Rightarrow> nat"

text \<open>The budget is the one part of the inbox that changes; it goes with the result.\<close>

type_synonym ingest_step = "ingest_result \<times> budget option \<Rightarrow> (ingest_result \<times> budget option) node_op"

definition accept :: "message_type \<Rightarrow> sha256_hex option \<Rightarrow> ingest_step" where
  "accept ty i = (\<lambda>(r, b). return_op (r\<lparr>ig_accepted := ig_accepted r @ [(ty, i)]\<rparr>, b))"

definition discard :: "message_type option \<Rightarrow> sha256_hex option \<Rightarrow> discard_reason \<Rightarrow> ingest_step" where
  "discard ty i why = (\<lambda>(r, b). return_op (r\<lparr>ig_discarded := ig_discarded r @ [(ty, i, why)]\<rparr>, b))"

definition edge_binding_failure :: "crypto_lib \<Rightarrow> persona_id \<Rightarrow> edge \<Rightarrow> discard_reason option node_op" where
  "edge_binding_failure cl p e =
     (if \<not> edge_id_binds_body cl e then return_op (Some EdgeIdDoesNotBind)
      else bind_op (read_vault (\<lambda>v. get_edge v p (e_id e))) (\<lambda>held.
        return_op (case held of
          None \<Rightarrow> None
        | Some h \<Rightarrow> if hash_canonical cl (edge_json h) = hash_canonical cl (edge_json e) then None
                    else Some EdgeBodyDiffersFromHeld)))"

text \<open>Is an assertion with this signature in the stored chain of an edge?\<close>

definition holds_signature :: "persona_id \<Rightarrow> assertion \<Rightarrow> sha256_hex \<Rightarrow> bool node_op" where
  "holds_signature p a i =
     bind_op (read_vault (\<lambda>v. get_assertions v p i)) (\<lambda>as. return_op (a_sig a \<in> set (map a_sig as)))"

definition already_held :: "persona_id \<Rightarrow> edge \<Rightarrow> assertion \<Rightarrow> bool node_op" where
  "already_held p e a =
     bind_op (read_vault (\<lambda>v. get_edge v p (e_id e))) (\<lambda>held.
       if held = None then return_op False else holds_signature p a (e_id e))"

text \<open>\<^verbatim>\<open>this.budget.admit(...)\<close>, when there is a budget.\<close>

definition admit_sender :: "int \<Rightarrow> persona_id \<Rightarrow> nat \<Rightarrow> budget option \<Rightarrow> admission \<times> budget option" where
  "admit_sender now sender level b =
     (case b of None \<Rightarrow> (Surfaced, None) | Some x \<Rightarrow> map_prod id Some (budget_admit now sender level x))"

definition file_proposal :: "inbox \<Rightarrow> edge \<Rightarrow> assertion \<Rightarrow> ingest_step" where
  "file_proposal ib e a rb =
     bind_op (write_vault (\<lambda>v. put_edge (ib_lib ib) v (ib_persona ib) e)) (\<lambda>_.
     bind_op (holds_signature (ib_persona ib) a (e_id e)) (\<lambda>held.
     bind_op (if held then return_op () else store_assertion (ib_persona ib) a) (\<lambda>_.
       accept MPropose (Some (e_id e)) rb)))"

text \<open>A proposal that binds, is addressed here, is its owner's and passes the table: redelivery, then the budget.\<close>

definition admit_proposal :: "inbox \<Rightarrow> int \<Rightarrow> persona_id \<Rightarrow> edge \<Rightarrow> assertion \<Rightarrow> ingest_step" where
  "admit_proposal ib now sender e a rb =
     bind_op (already_held (ib_persona ib) e a) (\<lambda>held.
       if held then accept MPropose (Some (e_id e)) rb
       else case rb of (r, b) \<Rightarrow>
         (case admit_sender now sender (ib_level ib sender) b of
            (Surfaced, b') \<Rightarrow> file_proposal ib e a (r, b')
          | (why, b') \<Rightarrow> return_op (r\<lparr>ig_suppressed := ig_suppressed r @ [(sender, e_id e, why)]\<rparr>, b')))"

definition ingest_propose :: "inbox \<Rightarrow> int \<Rightarrow> persona_id \<Rightarrow> json option \<Rightarrow> ingest_step" where
  "ingest_propose ib now sender payload rb =
     (case Option.bind payload parse_propose of
        None \<Rightarrow> discard (Some MPropose) None MalformedPayload rb
      | Some (e, a) \<Rightarrow>
          bind_op (edge_binding_failure (ib_lib ib) (ib_persona ib) e) (\<lambda>unbound.
            case unbound of
              Some why \<Rightarrow> discard (Some MPropose) (Some (e_id e)) why rb
            | None \<Rightarrow>
                if e_owed_to e \<noteq> ib_persona ib then discard (Some MPropose) (Some (e_id e)) NotAddressedToThisPersona rb
                else if sender \<noteq> e_owner e then discard (Some MPropose) (Some (e_id e)) ProposerIsNotTheOwner rb
                else case cv_outcomes (verify_assertion_chain
                    \<lparr>v_lib = ib_lib ib, v_now = Some now, v_lineage = no_rotation\<rparr> e [a]) ! 0 of
                  Some why \<Rightarrow> discard (Some MPropose) (Some (e_id e)) (TransitionTable why) rb
                | None \<Rightarrow> admit_proposal ib now sender e a rb))"

definition ingest_assert :: "inbox \<Rightarrow> int \<Rightarrow> persona_id \<Rightarrow> json option \<Rightarrow> ingest_step" where
  "ingest_assert ib now sender payload rb =
     (case Option.bind payload parse_assert of
        None \<Rightarrow> discard (Some MAssert) None MalformedPayload rb
      | Some a \<Rightarrow>
          bind_op (read_vault (\<lambda>v. get_edge v (ib_persona ib) (a_edge_id a))) (\<lambda>found.
            case found of
              None \<Rightarrow> discard (Some MAssert) (Some (a_edge_id a)) UnknownEdge rb
            | Some e \<Rightarrow>
                bind_op (party_lineage (ib_lib ib) (ib_persona ib)) (\<lambda>lin.
                  if \<not> is_party_or_successor e (ib_persona ib) lin
                  then discard (Some MAssert) (Some (e_id e)) NotAddressedToThisPersona rb
                  else if \<not> is_party_or_successor e sender lin
                  then discard (Some MAssert) (Some (e_id e)) SenderIsNotAParty rb
                  else bind_op (read_vault (\<lambda>v. get_assertions v (ib_persona ib) (e_id e))) (\<lambda>held.
                    if a_sig a \<in> set (map a_sig held) then return_op rb
                    else case cv_outcomes (verify_assertion_chain
                        \<lparr>v_lib = ib_lib ib, v_now = Some now, v_lineage = lin\<rparr> e (held @ [a])) ! length held of
                      Some why \<Rightarrow> discard (Some MAssert) (Some (e_id e)) (TransitionTable why) rb
                    | None \<Rightarrow> bind_op (store_assertion (ib_persona ib) a) (\<lambda>_. accept MAssert (Some (e_id e)) rb)))))"

definition knows_party :: "persona_id \<Rightarrow> persona_id \<Rightarrow> bool node_op" where
  "knows_party p k =
     bind_op (read_vault (\<lambda>v. list_edge_ids v p)) (\<lambda>ids.
     bind_op (collect_op (\<lambda>i. read_vault (\<lambda>v. get_edge v p i)) ids) (\<lambda>es.
       return_op (\<exists>e \<in> set es. is_party e k)))"

definition ingest_rotation :: "inbox \<Rightarrow> persona_id \<Rightarrow> json option \<Rightarrow> ingest_step" where
  "ingest_rotation ib sender payload rb =
     (case (case payload of None \<Rightarrow> RotBad RotMalformed | Some j \<Rightarrow> verify_rotation (ib_lib ib) False j) of
        RotBad why \<Rightarrow> discard (Some MRotation) None RotationDoesNotVerify rb
      | RotOk rot enc \<Rightarrow>
          if sender \<noteq> r_old rot \<and> sender \<noteq> r_new rot then discard (Some MRotation) None RotationFromAThirdParty rb
          else bind_op (knows_party (ib_persona ib) (r_old rot)) (\<lambda>known.
            if \<not> known then discard (Some MRotation) None RotationForAnUnknownParty rb
            else bind_op (write_vault (\<lambda>v. put_rotation v (ib_persona ib) rot)) (\<lambda>_. accept MRotation None rb)))"

definition append_recon :: "recon_result \<Rightarrow> recon_result \<Rightarrow> recon_result" where
  "append_recon r x = \<lparr>rc_accepted = rc_accepted r @ rc_accepted x, rc_discarded = rc_discarded r @ rc_discarded x,
     rc_ignored = rc_ignored r @ rc_ignored x\<rparr>"

text \<open>The body of the \<^verbatim>\<open>switch\<close>: a verified message addressed to this persona, by its type.\<close>

definition ingest_message :: "inbox \<Rightarrow> int \<Rightarrow> wire_message \<Rightarrow> ingest_step" where
  "ingest_message ib now m rb =
     (case wm_type m of
        MPropose \<Rightarrow> ingest_propose ib now (wm_sender m) (wm_payload m) rb
      | MAssert \<Rightarrow> ingest_assert ib now (wm_sender m) (wm_payload m) rb
      | MReconRequest \<Rightarrow>
          (case Option.bind (wm_payload m) parse_recon_request of
             None \<Rightarrow> discard (Some MReconRequest) None MalformedPayload rb
           | Some refs \<Rightarrow> (case rb of (r, b) \<Rightarrow>
               return_op (r\<lparr>ig_recon_requests := ig_recon_requests r @ [(wm_sender m, refs)]\<rparr>, b)))
      | MReconResponse \<Rightarrow>
          (case Option.bind (wm_payload m) parse_recon_response of
             None \<Rightarrow> discard (Some MReconResponse) None MalformedPayload rb
           | Some ens \<Rightarrow>
               bind_op (apply_recon_response (ib_lib ib) now (ib_persona ib) (wm_sender m) ens) (\<lambda>x. case rb of (r, b) \<Rightarrow>
                 return_op (r\<lparr>ig_recon := append_recon (ig_recon r) x\<rparr>, b)))
      | MRecoverRequest \<Rightarrow>
          (case Option.bind (wm_payload m) parse_recover_request of
             None \<Rightarrow> discard (Some MRecoverRequest) None MalformedPayload rb
           | Some q \<Rightarrow> (case rb of (r, b) \<Rightarrow>
               return_op (r\<lparr>ig_recover_requests := ig_recover_requests r @ [(wm_sender m, q)]\<rparr>, b)))
      | MRecoverResponse \<Rightarrow>
          if Option.bind (wm_payload m) parse_recover_response = None
          then discard (Some MRecoverResponse) None MalformedPayload rb
          else accept MRecoverResponse None rb
      | MRotation \<Rightarrow> ingest_rotation ib (wm_sender m) (wm_payload m) rb
      | ty \<Rightarrow> accept ty None rb)"

definition ingest_one :: "inbox \<Rightarrow> int \<Rightarrow> json \<Rightarrow> ingest_step" where
  "ingest_one ib now raw rb =
     (if \<not> speaks_this_version raw then discard None None WrongProtocolVersion rb
      else case verify_message (ib_lib ib) raw of
        None \<Rightarrow> discard None None SignatureDoesNotVerify rb
      | Some m \<Rightarrow>
          if wm_recipient m \<noteq> ib_persona ib
          then discard (Some (wm_type m)) (edge_id_of_message m) AddressedToAnotherPersona rb
          else ingest_message ib now m rb)"

text \<open>\<^verbatim>\<open>ingest\<close>: the messages in order, each with the instant it is handled at.\<close>

fun ingest_all :: "inbox \<Rightarrow> (int \<times> json) list \<Rightarrow> ingest_step" where
  "ingest_all ib [] rb = return_op rb"
| "ingest_all ib ((now, raw) # rest) rb = bind_op (ingest_one ib now raw rb) (ingest_all ib rest)"

definition ingest :: "inbox \<Rightarrow> (int \<times> json) list \<Rightarrow> budget option \<Rightarrow> (ingest_result \<times> budget option) node_op" where
  "ingest ib raws b = ingest_all ib raws (empty_result, b)"

section \<open>Applying a recovery response\<close>

datatype recover_discard = RecoverUnbound discard_reason | NoAcceptedProposalByTheOwner | RecoverRejected rejection_reason

record recover_result =
  rr_restored :: "sha256_hex list"
  rr_discarded :: "(sha256_hex \<times> int \<times> recover_discard) list"

text \<open>The assertions that came with an edge, from position \<open>k\<close> of the candidate chain on.\<close>

fun restore_outcomes :: "persona_id \<Rightarrow> sha256_hex \<Rightarrow> nat \<Rightarrow> (assertion \<times> outcome) list \<Rightarrow> recover_result \<Rightarrow> recover_result node_op" where
  "restore_outcomes p i k [] r = return_op r"
| "restore_outcomes p i k ((a, out) # rest) r =
     (case out of
        None \<Rightarrow> bind_op (store_assertion p a) (\<lambda>_. restore_outcomes p i (Suc k) rest r)
      | Some why \<Rightarrow> restore_outcomes p i (Suc k) rest
          (r\<lparr>rr_discarded := rr_discarded r @ [(i, int k, RecoverRejected why)]\<rparr>))"

definition proposed_by_owner :: "edge \<Rightarrow> (assertion \<times> outcome) list \<Rightarrow> bool" where
  "proposed_by_owner e xs \<longleftrightarrow> (\<exists>(a, out) \<in> set xs. out = None \<and> a_state a = AProposed \<and> a_by a = e_owner e)"

text \<open>An edge whose body binds: replay what is new of its chain, and keep it if its owner proposed it.\<close>

definition restore_chain ::
    "crypto_lib \<Rightarrow> int \<Rightarrow> persona_id \<Rightarrow> (persona_id \<Rightarrow> party_key list) \<Rightarrow> edge \<Rightarrow> assertion list \<Rightarrow> recover_result \<Rightarrow>
     recover_result node_op" where
  "restore_chain cl now p lin e as r =
     bind_op (read_vault (\<lambda>v. get_assertions v p (e_id e))) (\<lambda>held.
       let incoming = in_wire_order (filter (\<lambda>a. a_sig a \<notin> set (map a_sig held)) as);
           outs = cv_outcomes (verify_assertion_chain \<lparr>v_lib = cl, v_now = Some now, v_lineage = lin\<rparr> e (held @ incoming))
       in if \<not> proposed_by_owner e (zip (held @ incoming) outs)
          then return_op (r\<lparr>rr_discarded := rr_discarded r @ [(e_id e, -1, NoAcceptedProposalByTheOwner)]\<rparr>)
          else bind_op (write_vault (\<lambda>v. put_edge cl v p e)) (\<lambda>_.
               bind_op (restore_outcomes p (e_id e) (length held) (zip incoming (drop (length held) outs)) r) (\<lambda>r'.
                 return_op (r'\<lparr>rr_restored := rr_restored r' @ [e_id e]\<rparr>))))"

definition restore_edge ::
    "crypto_lib \<Rightarrow> int \<Rightarrow> persona_id \<Rightarrow> (persona_id \<Rightarrow> party_key list) \<Rightarrow> edge \<times> assertion list \<Rightarrow> recover_result \<Rightarrow>
     recover_result node_op" where
  "restore_edge cl now p lin ea r =
     (case ea of (e, as) \<Rightarrow>
        if \<not> is_party_or_successor e p lin then return_op r
        else bind_op (edge_binding_failure cl p e) (\<lambda>unbound.
          case unbound of
            Some why \<Rightarrow> return_op (r\<lparr>rr_discarded := rr_discarded r @ [(e_id e, -1, RecoverUnbound why)]\<rparr>)
          | None \<Rightarrow> restore_chain cl now p lin e as r))"

fun restore_edges ::
    "crypto_lib \<Rightarrow> int \<Rightarrow> persona_id \<Rightarrow> (persona_id \<Rightarrow> party_key list) \<Rightarrow> (edge \<times> assertion list) list \<Rightarrow> recover_result \<Rightarrow>
     recover_result node_op" where
  "restore_edges cl now p lin [] r = return_op r"
| "restore_edges cl now p lin (ea # eas) r =
     bind_op (restore_edge cl now p lin ea r) (restore_edges cl now p lin eas)"

definition apply_recover_response ::
    "crypto_lib \<Rightarrow> int \<Rightarrow> persona_id \<Rightarrow> (edge \<times> assertion list) list \<Rightarrow> recover_result node_op" where
  "apply_recover_response cl now p eas =
     bind_op (party_lineage cl p) (\<lambda>lin. restore_edges cl now p lin eas \<lparr>rr_restored = [], rr_discarded = []\<rparr>)"

end
