(* ===== verification/SharingLaws.thy ===== *)
theory SharingLaws
  imports Sharing
begin

text \<open>
  What sharing keeps: an edge is served to its parties and to the members of the scopes its parties
  published it in, and to nobody else; a reconciliation appends to each shared chain exactly what the
  transition table accepts of it.
\<close>

section \<open>Who is served\<close>

definition scope_member :: "int \<Rightarrow> vault \<Rightarrow> persona_id \<Rightarrow> persona_id \<Rightarrow> persona_id \<Rightarrow> bool" where
  "scope_member now v host q sc \<longleftrightarrow> sc = q \<or>
     (\<exists>a. get_attestation v host q = Inr (Some a) \<and> at_org a = sc \<and> now \<le> ms_of (at_expires_at a) \<and>
        \<not> (\<exists>x. get_revocation v host q = Inr (Some x) \<and> ms_of (rv_revoked_at x) \<le> now))"

definition entitled :: "crypto_lib \<Rightarrow> int \<Rightarrow> vault \<Rightarrow> persona_id \<Rightarrow> persona_id \<Rightarrow> edge \<Rightarrow> bool" where
  "entitled cl now v host q e \<longleftrightarrow>
     (\<exists>rs. list_rotations v host = Inr rs \<and> is_party_or_successor e q (successor_resolver cl rs)) \<or>
     (\<exists>ps r. list_publish_records v host = Inr ps \<and> r \<in> set ps \<and> pb_edge_id r = e_id e \<and> is_party e (pb_by r) \<and>
        scope_member now v host q (pb_scope r))"

lemma in_scope_iff:
  assumes "in_scope now host q sc s = (Inr b, s')"
  shows "s' = s" and "b \<longleftrightarrow> scope_member now (nd_vault s) host q sc"
  using assms
  by (auto simp: in_scope_def scope_member_def op_returns not_less split: if_split_asm option.split_asm)

lemma serve_by_scope_iff:
  assumes "serve_by_scope now host q e rs s = (Inr g, s')"
  shows "s' = s \<and> (g \<noteq> NotServed \<longleftrightarrow> (\<exists>r \<in> set rs. pb_edge_id r = e_id e \<and> is_party e (pb_by r) \<and>
    scope_member now (nd_vault s) host q (pb_scope r)))"
  using assms
proof (induction rs)
  case Nil
  then show ?case by simp
next
  case (Cons r rs)
  show ?case
  proof (cases "pb_edge_id r = e_id e \<and> is_party e (pb_by r)")
    case False
    with Cons have "serve_by_scope now host q e rs s = (Inr g, s')" by (auto split: if_split_asm)
    with Cons.IH False show ?thesis by auto
  next
    case True
    with Cons.prems obtain b s1 where b: "in_scope now host q (pb_scope r) s = (Inr b, s1)"
      and k: "(if b then return_op (ServedInScope (pb_scope r)) else serve_by_scope now host q e rs) s1 = (Inr g, s')"
      by (auto simp: bind_op_Inr)
    from in_scope_iff [OF b] k Cons.IH True show ?thesis by (cases b) auto
  qed
qed

lemma may_serve_iff:
  assumes "may_serve_edge cl now host q e s = (Inr g, s')"
  shows "s' = s" and "g \<noteq> NotServed \<longleftrightarrow> entitled cl now (nd_vault s) host q e"
proof -
  from assms obtain rs where rs: "list_rotations (nd_vault s) host = Inr rs"
    and k: "(if is_party_or_successor e q (successor_resolver cl rs) then return_op ServedAsParty
       else bind_op (read_vault (\<lambda>v. list_publish_records v host)) (serve_by_scope now host q e)) s = (Inr g, s')"
    by (auto simp: may_serve_edge_def party_lineage_def op_returns map_sum_Inr_iff)
  have "s' = s \<and> (g \<noteq> NotServed \<longleftrightarrow> entitled cl now (nd_vault s) host q e)"
  proof (cases "is_party_or_successor e q (successor_resolver cl rs)")
    case True
    with k rs show ?thesis by (auto simp: entitled_def)
  next
    case False
    with k obtain ps where ps: "list_publish_records (nd_vault s) host = Inr ps"
      and "serve_by_scope now host q e ps s = (Inr g, s')"
      by (auto simp: op_returns)
    from serve_by_scope_iff [OF this(2)] ps rs False show ?thesis unfolding entitled_def by auto
  qed
  then show "s' = s" and "g \<noteq> NotServed \<longleftrightarrow> entitled cl now (nd_vault s) host q e" by simp_all
qed

lemma answer_served:
  assumes "answer_recon_request cl now p q refs s = (Inr ens, s')"
  shows "s' = s" and "en \<in> set ens \<Longrightarrow> \<exists>e ref. ref \<in> set refs \<and> en_edge_id en = rf_edge_id ref \<and>
    get_edge (nd_vault s) p (en_edge_id en) = Inr (Some e) \<and> entitled cl now (nd_vault s) p q e \<and>
    get_assertions (nd_vault s) p (en_edge_id en) = Inr (en_assertions en) \<and>
    latest_assertion_hash cl (en_assertions en) \<noteq> rf_latest ref"
proof -
  have "s' = s \<and> (\<forall>en \<in> set ens. \<exists>e ref. ref \<in> set refs \<and> en_edge_id en = rf_edge_id ref \<and>
    get_edge (nd_vault s) p (en_edge_id en) = Inr (Some e) \<and> entitled cl now (nd_vault s) p q e \<and>
    get_assertions (nd_vault s) p (en_edge_id en) = Inr (en_assertions en) \<and>
    latest_assertion_hash cl (en_assertions en) \<noteq> rf_latest ref)"
    using assms
  proof (induction refs arbitrary: ens s')
    case Nil
    then show ?case by (simp add: answer_recon_request_def)
  next
    case (Cons ref refs)
    from Cons.prems obtain y s1 ys where
      first: "(bind_op (read_vault (\<lambda>v. get_edge v p (rf_edge_id ref))) (\<lambda>held.
         case held of
           None \<Rightarrow> return_op None
         | Some e \<Rightarrow>
             bind_op (may_serve_edge cl now p q e) (\<lambda>grant.
               if grant = NotServed then return_op None
               else bind_op (read_vault (\<lambda>v. get_assertions v p (rf_edge_id ref))) (\<lambda>as.
                 return_op (if latest_assertion_hash cl as = rf_latest ref then None
                   else Some \<lparr>en_edge_id = rf_edge_id ref, en_assertions = as\<rparr>))))) s = (Inr y, s1)"
      and rest: "answer_recon_request cl now p q refs s1 = (Inr ys, s')"
      and ens: "ens = (case y of None \<Rightarrow> ys | Some z \<Rightarrow> z # ys)"
      by (auto simp: answer_recon_request_def bind_op_Inr)
    from first have s1: "s1 = s" and y: "\<And>z. y = Some z \<Longrightarrow> \<exists>e. get_edge (nd_vault s) p (rf_edge_id ref) = Inr (Some e) \<and>
        entitled cl now (nd_vault s) p q e \<and> get_assertions (nd_vault s) p (rf_edge_id ref) = Inr (en_assertions z) \<and>
        en_edge_id z = rf_edge_id ref \<and> latest_assertion_hash cl (en_assertions z) \<noteq> rf_latest ref"
      by (auto simp: op_returns dest: may_serve_iff split: option.split_asm if_split_asm)
    with Cons.IH [of ys s'] rest ens y show ?case
      by (cases y) (fastforce, force)
  qed
  then show "s' = s" and "en \<in> set ens \<Longrightarrow> \<exists>e ref. ref \<in> set refs \<and> en_edge_id en = rf_edge_id ref \<and>
    get_edge (nd_vault s) p (en_edge_id en) = Inr (Some e) \<and> entitled cl now (nd_vault s) p q e \<and>
    get_assertions (nd_vault s) p (en_edge_id en) = Inr (en_assertions en) \<and>
    latest_assertion_hash cl (en_assertions en) \<noteq> rf_latest ref" by blast+
qed

section \<open>What the table makes of a response\<close>

lemma accepted_append: "length os = length as \<Longrightarrow> accepted (os @ os') (as @ bs) = accepted os as @ accepted os' bs"
  by (simp add: accepted_def)

lemma accepted_replicate: "accepted (replicate (length as) None) as = as"
  by (induction as) simp_all

text \<open>Replaying a stored chain followed by what the table accepted after it accepts all of it.\<close>

lemma outcomes_of_accepted:
  assumes "table.all_accepted vr e as"
  shows "cv_outcomes (verify_assertion_chain vr e as) = replicate (length as) None"
  using assms by (intro replicate_eqI) (auto simp: table.all_accepted_def verify_length)

lemma all_accepted_extend:
  assumes "table.all_accepted vr e as"
  shows "table.all_accepted vr e (as @ accepted (drop (length as) (cv_outcomes (verify_assertion_chain vr e (as @ bs)))) bs)"
proof -
  let ?os = "cv_outcomes (verify_assertion_chain vr e (as @ bs))"
  have "take (length as) ?os = replicate (length as) None"
    using table.outcomes_prefix outcomes_of_accepted [OF assms] by metis
  then have "?os = replicate (length as) None @ drop (length as) ?os"
    by (metis append_take_drop_id)
  then have "accepted ?os (as @ bs) = as @ accepted (drop (length as) ?os) bs"
    using accepted_append [of "replicate (length as) None" as] accepted_replicate by (metis length_replicate)
  moreover have "table.all_accepted vr e (accepted ?os (as @ bs))"
    unfolding table.all_accepted_def verify_accepted by auto
  ultimately show ?thesis by simp
qed

text \<open>
  What the transition table takes of some assertions at the end of a chain it accepts, one after the other;
  and a chain after several answers about it, each stripped of what the chain holds and put in wire order.
\<close>

fun table_takes :: "verifier \<Rightarrow> edge \<Rightarrow> assertion list \<Rightarrow> assertion list \<Rightarrow> assertion list" where
  "table_takes vr e held [] = []"
| "table_takes vr e held (a # as) =
     (if table.accepts vr e held a then a # table_takes vr e (held @ [a]) as else table_takes vr e held as)"

fun merged :: "verifier \<Rightarrow> edge \<Rightarrow> assertion list \<Rightarrow> assertion list list \<Rightarrow> assertion list" where
  "merged vr e held [] = held"
| "merged vr e held (xs # xss) =
     merged vr e (held @ table_takes vr e held (in_wire_order (filter (\<lambda>a. a_sig a \<notin> set (map a_sig held)) xs))) xss"

lemma takes_run:
  assumes "edge_malformed (v_lib vr) e = None" and "run_chain vr e initial_chain held = (os, c)"
  shows "accepted (fst (run_chain vr e c as)) as = table_takes vr e held as"
  using assms(2)
proof (induction as arbitrary: held os c)
  case (Cons a as)
  have judge: "table.accepts vr e held a \<longleftrightarrow> (\<exists>c'. admit vr e c a = Inr c')"
    using Cons.prems assms(1) by (auto simp: table.accepts_def verify_assertion_chain_def run_chain_append split: sum.split)
  show ?case
  proof (cases "admit vr e c a")
    case (Inl why)
    with Cons.IH [OF Cons.prems] judge show ?thesis by (simp add: split_beta)
  next
    case (Inr c')
    with Cons.prems have "run_chain vr e initial_chain (held @ [a]) = (os @ [None], c')" by (simp add: run_chain_append)
    from Cons.IH [OF this] Inr judge show ?thesis by (simp add: split_beta)
  qed
qed simp

lemma takes_outcomes:
  assumes "edge_malformed (v_lib vr) e = None"
  shows "accepted (drop (length held) (cv_outcomes (verify_assertion_chain vr e (held @ as)))) as = table_takes vr e held as"
proof -
  obtain os c where run: "run_chain vr e initial_chain held = (os, c)" by fastforce
  then have "length os = length held" using run_chain_length [of vr e initial_chain held] by simp
  with takes_run [OF assms run, of as] run assms show ?thesis
    by (simp add: verify_assertion_chain_def run_chain_append split_beta)
qed

lemma takes_of_malformed:
  "edge_malformed (v_lib vr) e \<noteq> None \<Longrightarrow>
     accepted (drop n (cv_outcomes (verify_assertion_chain vr e xs))) as = [] \<and> table_takes vr e held as = []"
proof -
  assume bad: "edge_malformed (v_lib vr) e \<noteq> None"
  have "\<not> table.accepts vr e held a" for held a
    using bad by (auto simp: table.accepts_def verify_assertion_chain_def last_map)
  then have "table_takes vr e held as = []" by (induction as) simp_all
  moreover have "accepted (drop n (cv_outcomes (verify_assertion_chain vr e xs))) as = []"
    using bad by (auto simp: accepted_def verify_assertion_chain_def filter_empty_conv in_set_zip drop_map)
  ultimately show ?thesis by simp
qed

lemma takes_judged: "accepted (drop (length held) (cv_outcomes (verify_assertion_chain vr e (held @ as)))) as = table_takes vr e held as"
  using takes_outcomes takes_of_malformed by (cases "edge_malformed (v_lib vr) e") (simp, metis option.distinct(1))

lemma accepted_edge_id:
  assumes "a \<in> set (accepted (cv_outcomes (verify_assertion_chain vr e as)) as)"
  shows "a_edge_id a = e_id e"
proof -
  have "reach vr e H c \<Longrightarrow> a \<in> set H \<Longrightarrow> a_edge_id a = e_id e" for H c
    by (induction rule: reach.induct) (auto simp: admit_step step_def split: if_splits)
  moreover have "edge_malformed (v_lib vr) e = None"
  proof (rule ccontr)
    assume "edge_malformed (v_lib vr) e \<noteq> None"
    with assms show False by (auto simp: verify_assertion_chain_def accepted_def in_set_zip)
  qed
  ultimately show ?thesis using verify_reach [of vr e as] assms by metis
qed

section \<open>Storing what was accepted\<close>

lemma history_apply_outcomes: "history.keeps cl (apply_outcomes p i k xs r)"
proof (induction p i k xs r rule: apply_outcomes.induct)
  case (2 p i k a out rest r)
  then show ?case by (cases out) (auto intro!: history_intros)
qed (simp add: history.keeps_return)

text \<open>The state after some assertions were appended to the chain of one edge.\<close>

definition appended :: "crypto_lib \<Rightarrow> persona_id \<Rightarrow> sha256_hex \<Rightarrow> assertion list \<Rightarrow> node \<Rightarrow> node \<Rightarrow> bool" where
  "appended cl p i as s t \<longleftrightarrow> vault_ok cl (nd_vault t) \<and> nd_local t = nd_local s \<and>
     (\<forall>q j. get_edge (nd_vault t) q j = get_edge (nd_vault s) q j) \<and>
     (\<forall>q n. verifier_for cl (nd_vault t) q n = verifier_for cl (nd_vault s) q n) \<and>
     (\<forall>q j. get_assertions (nd_vault t) q j =
        (if q = p \<and> j = i then map_sum id (\<lambda>xs. xs @ as) (get_assertions (nd_vault s) p i) else get_assertions (nd_vault s) q j))"

lemma map_sum_same: "map_sum id (\<lambda>x. x) y = y"
  by (cases y) simp_all

lemma appended_Nil: "vault_ok cl (nd_vault s) \<Longrightarrow> appended cl p i [] s s"
  by (cases "get_assertions (nd_vault s) p i") (simp_all add: appended_def)

lemma appended_append: "appended cl p i as s t \<Longrightarrow> appended cl p i bs t u \<Longrightarrow> appended cl p i (as @ bs) s u"
  by (cases "get_assertions (nd_vault s) p i") (auto simp: appended_def)

lemma store_appended:
  assumes "store_assertion p a s = (Inr u, t)" and "vault_ok cl (nd_vault s)" and "chain_room (nd_vault s) p (a_edge_id a)"
  shows "appended cl p (a_edge_id a) [a] s t"
proof -
  from assms(1) obtain n v where v: "append_assertion (nd_vault s) p a = Inr (n, v)" and t: "t = s\<lparr>nd_vault := v\<rparr>"
    by (auto simp: store_assertion_Inr)
  have "vault_step cl p (nd_vault s) v" using v assms(3) vault_step.intros(6) by metis
  from store_write_ok [OF vault_step_write [OF this assms(2)] assms(2)]
  show ?thesis
    using get_assertions_append [OF assms(2,3) v] get_edge_append [OF assms(2,3) v] verifier_for_append [OF v]
    by (simp add: appended_def t)
qed

lemma apply_outcomes_stores:
  assumes "apply_outcomes p i k (zip as os) r s = (Inr r', t)" and "vault_ok cl (nd_vault s)" and "small (nd_vault t)"
    and "\<forall>a \<in> set (accepted os as). a_edge_id a = i" and "length os = length as"
  shows "appended cl p i (accepted os as) s t \<and> rc_accepted r' = rc_accepted r @ accepted os as \<and> rc_ignored r' = rc_ignored r \<and>
    (\<forall>e. get_edge (nd_vault s) p i = Inr (Some e) \<longrightarrow> sans_chains (nd_vault t) = sans_chains (nd_vault s))"
  using assms
proof (induction as arbitrary: os k r s)
  case Nil
  then show ?case by (simp add: appended_Nil)
next
  case (Cons a as)
  then obtain x os' where os: "os = x # os'" by (cases os) auto
  show ?case
  proof (cases x)
    case (Some why)
    with Cons.prems os Cons.IH [of "Suc k" os' "r\<lparr>rc_discarded := rc_discarded r @ [(i, k, why)]\<rparr>" s] show ?thesis by simp
  next
    case None
    let ?r = "r\<lparr>rc_accepted := rc_accepted r @ [a]\<rparr>"
    from None Cons.prems(1) os obtain s1 where st: "store_assertion p a s = (Inr (), s1)"
      and rest: "apply_outcomes p i (Suc k) (zip as os') ?r s1 = (Inr r', t)"
      by (auto simp: bind_op_Inr)
    have a: "a_edge_id a = i" using Cons.prems(4) os None by simp
    have "small (nd_vault s1)"
      using history.keepsD [OF history_apply_outcomes rest] Cons.prems(3) by (simp add: keeps_history_def)
    then have "chain_room (nd_vault s) p (a_edge_id a)"
      using small_append(2) st Cons.prems(2) by (auto simp: store_assertion_Inr)
    from store_appended [OF st Cons.prems(2) this] a have one: "appended cl p i [a] s s1" by simp
    then have "vault_ok cl (nd_vault s1)" by (simp add: appended_def)
    from Cons.IH [OF rest this Cons.prems(3)] Cons.prems(4,5) os None
    have rest: "appended cl p i (accepted os' as) s1 t" "rc_accepted r' = rc_accepted ?r @ accepted os' as" "rc_ignored r' = rc_ignored ?r"
      "\<And>e. get_edge (nd_vault s1) p i = Inr (Some e) \<Longrightarrow> sans_chains (nd_vault t) = sans_chains (nd_vault s1)"
      by simp_all
    have "sans_chains (nd_vault t) = sans_chains (nd_vault s)" if "get_edge (nd_vault s) p i = Inr (Some e)" for e
      using store_sans_chains [OF st Cons.prems(2)] rest(4) that one a by (auto simp: appended_def)
    with rest appended_append [OF one rest(1)] os None show ?thesis by simp
  qed
qed

section \<open>A response\<close>

lemma apply_entry_cases:
  assumes "apply_entry cl now p q lin en r s = (Inr r', t)"
  obtains "t = s" "rc_accepted r' = rc_accepted r"
      "\<And>e. get_edge (nd_vault s) p (en_edge_id en) = Inr (Some e) \<Longrightarrow> \<not> (is_party_or_successor e p lin \<and> is_party_or_successor e q lin)"
    | e held incoming where "get_edge (nd_vault s) p (en_edge_id en) = Inr (Some e)"
      "is_party_or_successor e p lin" "is_party_or_successor e q lin"
      "get_assertions (nd_vault s) p (en_edge_id en) = Inr held"
      "incoming = in_wire_order (filter (\<lambda>a. a_sig a \<notin> set (map a_sig held)) (en_assertions en))"
      "apply_outcomes p (en_edge_id en) (length held)
         (zip incoming (drop (length held) (cv_outcomes (verify_assertion_chain
            \<lparr>v_lib = cl, v_now = Some now, v_lineage = lin\<rparr> e (held @ incoming))))) r s = (Inr r', t)"
proof -
  from assms obtain x where x: "get_edge (nd_vault s) p (en_edge_id en) = Inr x"
    by (auto simp: apply_entry_def op_returns)
  show thesis
  proof (cases x)
    case None
    with x assms that(1) show thesis by (auto simp: apply_entry_def op_returns)
  next
    case (Some e)
    show thesis
    proof (cases "is_party_or_successor e p lin \<and> is_party_or_successor e q lin")
      case False
      with x Some assms have "t = s" "rc_accepted r' = rc_accepted r" by (auto simp: apply_entry_def op_returns)
      with that(1) False x Some show thesis by simp
    next
      case True
      with x Some assms obtain held where "get_assertions (nd_vault s) p (en_edge_id en) = Inr held"
        by (auto simp: apply_entry_def op_returns)
      with True x Some assms that show thesis
        by (auto simp: apply_entry_def op_returns Let_def split: if_split_asm)
    qed
  qed
qed

lemma chains_valid_appended:
  assumes "appended cl p i as s t" and "chains_valid cl n (nd_vault s)"
    and "get_edge (nd_vault s) p i = Inr (Some e)" and "get_assertions (nd_vault s) p i = Inr held"
    and "verifier_for cl (nd_vault s) p n = Inr vr" and "table.all_accepted vr e (held @ as)"
  shows "chains_valid cl n (nd_vault t)"
  unfolding chains_valid_def
proof (intro allI impI)
  fix q j f bs vq
  assume h: "get_edge (nd_vault t) q j = Inr (Some f)" "get_assertions (nd_vault t) q j = Inr bs"
    "verifier_for cl (nd_vault t) q n = Inr vq"
  show "table.all_accepted vq f bs"
  proof (cases "q = p \<and> j = i")
    case True
    with h assms show ?thesis by (simp add: appended_def)
  next
    case False
    with h assms(1) have "get_edge (nd_vault s) q j = Inr (Some f)" "get_assertions (nd_vault s) q j = Inr bs"
      "verifier_for cl (nd_vault s) q n = Inr vq" by (auto simp: appended_def)
    with assms(2) show ?thesis unfolding chains_valid_def by blast
  qed
qed

text \<open>What a response has done to a node so far.\<close>

definition reconciled :: "crypto_lib \<Rightarrow> int \<Rightarrow> persona_id \<Rightarrow> persona_id \<Rightarrow> (persona_id \<Rightarrow> party_key list) \<Rightarrow> node \<Rightarrow> recon_result \<Rightarrow> node \<Rightarrow> bool" where
  "reconciled cl now p q lin s r t \<longleftrightarrow>
     vault_ok cl (nd_vault t) \<and> chains_valid cl (Some now) (nd_vault t) \<and> nd_local t = nd_local s \<and>
     sans_chains (nd_vault t) = sans_chains (nd_vault s) \<and>
     (\<forall>k j. get_edge (nd_vault t) k j = get_edge (nd_vault s) k j) \<and>
     (\<forall>k n. verifier_for cl (nd_vault t) k n = verifier_for cl (nd_vault s) k n) \<and>
     (\<forall>k j. get_assertions (nd_vault t) k j = map_sum id (\<lambda>xs. xs @ (if k = p then filter (\<lambda>a. a_edge_id a = j) (rc_accepted r) else []))
        (get_assertions (nd_vault s) k j)) \<and>
     (\<forall>a \<in> set (rc_accepted r). \<exists>e. get_edge (nd_vault s) p (a_edge_id a) = Inr (Some e) \<and>
        is_party_or_successor e p lin \<and> is_party_or_successor e q lin)"

lemma apply_entry_takes:
  assumes "apply_entry cl now p q lin en r s1 = (Inr r', t)" and "reconciled cl now p q lin s r s1" and "small (nd_vault t)"
    and "verifier_for cl (nd_vault s) p (Some now) = Inr vr" and "vr = \<lparr>v_lib = cl, v_now = Some now, v_lineage = lin\<rparr>"
  obtains "t = s1" "rc_accepted r' = rc_accepted r"
      "\<And>e. get_edge (nd_vault s1) p (en_edge_id en) = Inr (Some e) \<Longrightarrow> \<not> (is_party_or_successor e p lin \<and> is_party_or_successor e q lin)"
    | e held new where "get_edge (nd_vault s1) p (en_edge_id en) = Inr (Some e)"
      "is_party_or_successor e p lin" "is_party_or_successor e q lin"
      "get_assertions (nd_vault s1) p (en_edge_id en) = Inr held"
      "new = table_takes vr e held (in_wire_order (filter (\<lambda>a. a_sig a \<notin> set (map a_sig held)) (en_assertions en)))"
      "\<forall>a \<in> set new. a_edge_id a = en_edge_id en" "appended cl p (en_edge_id en) new s1 t"
      "rc_accepted r' = rc_accepted r @ new" "chains_valid cl (Some now) (nd_vault t)"
      "sans_chains (nd_vault t) = sans_chains (nd_vault s1)"
  using assms(1)
proof (cases rule: apply_entry_cases)
  case 1
  then show thesis by (rule that(1))
next
  case (2 e held incoming)
  let ?os = "drop (length held) (cv_outcomes (verify_assertion_chain vr e (held @ incoming)))"
  have ok: "vault_ok cl (nd_vault s1)" and valid: "chains_valid cl (Some now) (nd_vault s1)"
    and vr: "verifier_for cl (nd_vault s1) p (Some now) = Inr vr"
    using assms(2,4) by (simp_all add: reconciled_def)
  have i: "e_id e = en_edge_id en" using vault_ok_edge_id [OF ok 2(1)] by simp
  have all: "table.all_accepted vr e held" using valid 2(1,4) vr unfolding chains_valid_def by blast
  have len: "length ?os = length incoming" by (simp add: verify_length)
  note ext = all_accepted_extend [OF all, of incoming]
  have ids: "\<forall>a \<in> set (accepted ?os incoming). a_edge_id a = en_edge_id en"
  proof
    fix a assume "a \<in> set (accepted ?os incoming)"
    moreover have "accepted (cv_outcomes (verify_assertion_chain vr e (held @ accepted ?os incoming))) (held @ accepted ?os incoming) =
        held @ accepted ?os incoming"
      using outcomes_of_accepted [OF ext] accepted_replicate by metis
    ultimately have "a \<in> set (accepted (cv_outcomes (verify_assertion_chain vr e (held @ accepted ?os incoming)))
        (held @ accepted ?os incoming))" by simp
    with accepted_edge_id i show "a_edge_id a = en_edge_id en" by metis
  qed
  from apply_outcomes_stores [OF 2(6) [folded assms(5)] ok assms(3) ids len]
  have app: "appended cl p (en_edge_id en) (accepted ?os incoming) s1 t"
    and acc: "rc_accepted r' = rc_accepted r @ accepted ?os incoming"
    and sans: "sans_chains (nd_vault t) = sans_chains (nd_vault s1)" using 2(1) by simp_all
  show thesis
    by (rule that(2) [OF 2(1-4) _ ids app acc chains_valid_appended [OF app valid 2(1,4) vr ext] sans]) (simp add: takes_judged 2(5))
qed

lemma apply_entry_reconciles:
  assumes "apply_entry cl now p q lin en r s1 = (Inr r', t)" and "reconciled cl now p q lin s r s1" and "small (nd_vault t)"
    and "verifier_for cl (nd_vault s) p (Some now) = Inr \<lparr>v_lib = cl, v_now = Some now, v_lineage = lin\<rparr>"
  shows "reconciled cl now p q lin s r' t"
proof (rule apply_entry_takes [OF assms refl])
  assume "t = s1" "rc_accepted r' = rc_accepted r"
  with assms(2) show ?thesis by (simp add: reconciled_def)
next
  fix e held new
  assume e: "get_edge (nd_vault s1) p (en_edge_id en) = Inr (Some e)" "is_party_or_successor e p lin" "is_party_or_successor e q lin"
    and ids: "\<forall>a \<in> set new. a_edge_id a = en_edge_id en" and app: "appended cl p (en_edge_id en) new s1 t"
    and acc: "rc_accepted r' = rc_accepted r @ new" and valid: "chains_valid cl (Some now) (nd_vault t)"
    and sans: "sans_chains (nd_vault t) = sans_chains (nd_vault s1)"
  have mine: "filter (\<lambda>a. a_edge_id a = j) new = (if j = en_edge_id en then new else [])" for j
    using ids by (auto intro: filter_True)
  have chains: "get_assertions (nd_vault t) k j = map_sum id (\<lambda>xs. xs @ (if k = p then filter (\<lambda>a. a_edge_id a = j) (rc_accepted r') else []))
        (get_assertions (nd_vault s) k j)" for k j
    using app assms(2) mine [of j]
    by (cases "get_assertions (nd_vault s) k j") (auto simp: appended_def reconciled_def acc)
  have "\<exists>e. get_edge (nd_vault s) p (a_edge_id a) = Inr (Some e) \<and> is_party_or_successor e p lin \<and> is_party_or_successor e q lin"
    if "a \<in> set (rc_accepted r')" for a
    using that assms(2) ids e by (auto simp: acc reconciled_def)
  with app assms(2) valid sans chains show ?thesis by (simp add: reconciled_def appended_def)
qed

text \<open>The chain of an edge shared with the responder, over an entry and over a whole response.\<close>

lemma apply_entry_merges:
  assumes "apply_entry cl now p q lin en r s1 = (Inr r', t)" and "reconciled cl now p q lin s r s1" and "small (nd_vault t)"
    and "verifier_for cl (nd_vault s) p (Some now) = Inr vr" and "vr = \<lparr>v_lib = cl, v_now = Some now, v_lineage = lin\<rparr>"
    and e: "get_edge (nd_vault s) p i = Inr (Some e)" "is_party_or_successor e p lin" "is_party_or_successor e q lin"
    and held: "get_assertions (nd_vault s1) p i = Inr held"
  shows "get_assertions (nd_vault t) p i = Inr (merged vr e held (if en_edge_id en = i then [en_assertions en] else []))"
proof (rule apply_entry_takes [OF assms(1-5)])
  have e1: "get_edge (nd_vault s1) p i = Inr (Some e)" using assms(2) e by (simp add: reconciled_def)
  {
    assume "t = s1" and "\<And>f. get_edge (nd_vault s1) p (en_edge_id en) = Inr (Some f) \<Longrightarrow>
      \<not> (is_party_or_successor f p lin \<and> is_party_or_successor f q lin)"
    with e e1 held show ?thesis by auto
  next
    fix f old new
    assume "get_edge (nd_vault s1) p (en_edge_id en) = Inr (Some f)" "get_assertions (nd_vault s1) p (en_edge_id en) = Inr old"
      "new = table_takes vr f old (in_wire_order (filter (\<lambda>a. a_sig a \<notin> set (map a_sig old)) (en_assertions en)))"
      "appended cl p (en_edge_id en) new s1 t"
    with e1 held show ?thesis by (auto simp: appended_def)
  }
qed

lemma history_apply_entry: "history.keeps cl (apply_entry cl' now p q lin en r)"
  unfolding apply_entry_def Let_def by (intro history_intros history_apply_outcomes)

lemma history_apply_entries: "history.keeps cl (apply_entries cl' now p q lin ens r)"
  by (induction ens arbitrary: r) (auto intro!: history_intros history_apply_entry)

lemma apply_entries_reconcile:
  assumes "apply_entries cl now p q lin ens r s1 = (Inr r', t)" and "reconciled cl now p q lin s r s1" and "small (nd_vault t)"
    and "verifier_for cl (nd_vault s) p (Some now) = Inr \<lparr>v_lib = cl, v_now = Some now, v_lineage = lin\<rparr>"
  shows "reconciled cl now p q lin s r' t"
  using assms(1,2)
proof (induction ens arbitrary: r s1)
  case Nil
  then show ?case by simp
next
  case (Cons en ens)
  then obtain r1 s2 where one: "apply_entry cl now p q lin en r s1 = (Inr r1, s2)"
    and rest: "apply_entries cl now p q lin ens r1 s2 = (Inr r', t)"
    by (auto simp: bind_op_Inr)
  have "small (nd_vault s2)"
    using history.keepsD [OF history_apply_entries rest] assms(3) by (simp add: keeps_history_def)
  from Cons.IH [OF rest apply_entry_reconciles [OF one Cons.prems(2) this assms(4)]] show ?case .
qed

lemma small_before_entries:
  "apply_entries cl now p q lin ens r s = (Inr r', t) \<Longrightarrow> small (nd_vault t) \<Longrightarrow> small (nd_vault s)"
  using history.keepsD [OF history_apply_entries] by (fastforce simp: keeps_history_def)

lemma merged_append: "merged vr e held (xs @ ys) = merged vr e (merged vr e held xs) ys"
  by (induction vr e held xs rule: merged.induct) simp_all

lemma apply_entries_merge:
  assumes "apply_entries cl now p q lin ens r s1 = (Inr r', t)" and "reconciled cl now p q lin s r s1" and "small (nd_vault t)"
    and "verifier_for cl (nd_vault s) p (Some now) = Inr vr" and "vr = \<lparr>v_lib = cl, v_now = Some now, v_lineage = lin\<rparr>"
    and "get_edge (nd_vault s) p i = Inr (Some e)" "is_party_or_successor e p lin" "is_party_or_successor e q lin"
    and "get_assertions (nd_vault s1) p i = Inr held"
  shows "get_assertions (nd_vault t) p i = Inr (merged vr e held (map en_assertions (filter (\<lambda>en. en_edge_id en = i) ens)))"
  using assms(1,2,9)
proof (induction ens arbitrary: r s1 held)
  case (Cons en ens)
  then obtain r1 s2 where one: "apply_entry cl now p q lin en r s1 = (Inr r1, s2)"
    and rest: "apply_entries cl now p q lin ens r1 s2 = (Inr r', t)"
    by (auto simp: bind_op_Inr)
  note small = small_before_entries [OF rest assms(3)]
  have "reconciled cl now p q lin s r1 s2"
    by (rule apply_entry_reconciles [OF one Cons.prems(2) small]) (simp add: assms(4) flip: assms(5))
  from Cons.IH [OF rest this apply_entry_merges [OF one Cons.prems(2) small assms(4-8) Cons.prems(3)]]
  show ?case by (simp flip: merged_append)
qed simp

lemma apply_recon_reconciles:
  assumes "apply_recon_response cl now p q ens s = (Inr r, t)" and "vault_ok cl (nd_vault s)" and "small (nd_vault t)"
    and "chains_valid cl (Some now) (nd_vault s)"
  obtains rs where "list_rotations (nd_vault s) p = Inr rs" and "reconciled cl now p q (successor_resolver cl rs) s r t"
    and "\<And>i e held. get_edge (nd_vault s) p i = Inr (Some e) \<Longrightarrow> is_party_or_successor e p (successor_resolver cl rs) \<Longrightarrow>
      is_party_or_successor e q (successor_resolver cl rs) \<Longrightarrow> get_assertions (nd_vault s) p i = Inr held \<Longrightarrow>
      get_assertions (nd_vault t) p i = Inr (merged \<lparr>v_lib = cl, v_now = Some now, v_lineage = successor_resolver cl rs\<rparr> e held
        (map en_assertions (filter (\<lambda>en. en_edge_id en = i) ens)))"
proof -
  from assms(1) obtain rs where rs: "list_rotations (nd_vault s) p = Inr rs"
    and loop: "apply_entries cl now p q (successor_resolver cl rs) ens \<lparr>rc_accepted = [], rc_discarded = [], rc_ignored = []\<rparr> s = (Inr r, t)"
    by (auto simp: apply_recon_response_def party_lineage_def op_returns map_sum_Inr_iff)
  have start: "reconciled cl now p q (successor_resolver cl rs) s \<lparr>rc_accepted = [], rc_discarded = [], rc_ignored = []\<rparr> s"
    using assms(2,4) by (simp add: reconciled_def map_sum_same)
  have vr: "verifier_for cl (nd_vault s) p (Some now) = Inr \<lparr>v_lib = cl, v_now = Some now, v_lineage = successor_resolver cl rs\<rparr>"
    by (simp add: rs verifier_for_def)
  show thesis
    by (rule that [OF rs apply_entries_reconcile [OF loop start assms(3) vr] apply_entries_merge [OF loop start assms(3) vr refl]])
qed

end
