(* ===== verification/InboxLaws.thy ===== *)
theory InboxLaws
  imports Inbox SharingLaws Proposals
begin

text \<open>
  What a received message can do to a node: nothing, or file the proposal of an edge by its owner, or append
  an assertion the table accepts, or record a rotation, or reconcile.
\<close>

section \<open>Filing a proposal\<close>

lemma put_edge_reads:
  assumes "put_edge cl v p e = Inr v'"
  shows "get_edge v' q j = (if q = p \<and> j = e_id e \<and> get_edge v p j = Inr None then Inr (Some e) else get_edge v q j)"
    and "get_assertions v' q j = get_assertions v q j"
    and "verifier_for cl' v' q n = verifier_for cl' v q n"
proof -
  from assms obtain ps ef where d: "edge_dir v p (e_id e) = Inr (ps, ef)"
    by (auto simp: put_edge_def bind_result_Inr_iff split: if_split_asm)
  with assms have v': "(\<exists>h. ef_edge ef = Some h \<and> v' = v) \<or> (ef_edge ef = None \<and> v' = put_edge_files v p ps (e_id e) (ef\<lparr>ef_edge := Some e\<rparr>))"
    by (cases "ef_edge ef") (auto simp: put_edge_def split: if_split_asm)
  from v' have "get_edge v' q j = (if q = p \<and> j = e_id e \<and> get_edge v p j = Inr None then Inr (Some e) else get_edge v q j) \<and>
      get_assertions v' q j = get_assertions v q j"
  proof (elim disjE exE conjE)
    fix h assume "ef_edge ef = Some h" "v' = v"
    with d show ?thesis by (auto simp: get_edge_def)
  next
    assume n: "ef_edge ef = None" and v': "v' = put_edge_files v p ps (e_id e) (ef\<lparr>ef_edge := Some e\<rparr>)"
    from d n show ?thesis
      by (cases "edge_dir v q j") (auto simp: v' get_edge_def get_assertions_def edge_dir_put [OF d])
  qed
  then show "get_edge v' q j = (if q = p \<and> j = e_id e \<and> get_edge v p j = Inr None then Inr (Some e) else get_edge v q j)"
    and "get_assertions v' q j = get_assertions v q j" by simp_all
  show "verifier_for cl' v' q n = verifier_for cl' v q n"
    by (rule same_rotations_verifier) (rule put_edge_parts [OF assms], simp)
qed

lemma small_after_put_edge:
  assumes "put_edge cl v p e = Inr v'" and "small v"
  shows "small v'"
proof -
  from assms(1) obtain ps ef where d: "edge_dir v p (e_id e) = Inr (ps, ef)"
    by (auto simp: put_edge_def bind_result_Inr_iff split: if_split_asm)
  then have ps: "dir_get (vt_personas v) p = Some ps" and ef: "dir_get (ps_edges ps) (e_id e) = None \<Longrightarrow> ef = no_edge_files"
    "\<And>f. dir_get (ps_edges ps) (e_id e) = Some f \<Longrightarrow> ef = f" by (auto simp: edge_dir_Inr require_persona_Inr)
  have len: "length (ef_assertions ef) \<le> 10000"
  proof (cases "dir_get (ps_edges ps) (e_id e)")
    case None
    with ef show ?thesis by (simp add: no_edge_files_def)
  next
    case (Some f)
    with assms(2) ps ef show ?thesis by (auto simp: small_def)
  qed
  from assms d have "v' = v \<or> v' = put_edge_files v p ps (e_id e) (ef\<lparr>ef_edge := Some e\<rparr>)"
    by (auto simp: put_edge_def split: if_split_asm option.split_asm)
  with assms(2) ps len show ?thesis
    by (auto simp: small_def put_edge_files_def put_store_def split: if_split_asm)
qed

text \<open>The state after a proposal was filed: the edge, if it was not here, and the assertions appended to it.\<close>

definition filed :: "crypto_lib \<Rightarrow> persona_id \<Rightarrow> edge \<Rightarrow> assertion list \<Rightarrow> node \<Rightarrow> node \<Rightarrow> bool" where
  "filed cl p e as s t \<longleftrightarrow> vault_ok cl (nd_vault t) \<and> nd_local t = nd_local s \<and>
     (\<forall>q j. get_edge (nd_vault t) q j =
        (if q = p \<and> j = e_id e \<and> get_edge (nd_vault s) p j = Inr None then Inr (Some e) else get_edge (nd_vault s) q j)) \<and>
     (\<forall>q n. verifier_for cl (nd_vault t) q n = verifier_for cl (nd_vault s) q n) \<and>
     (\<forall>q j. get_assertions (nd_vault t) q j =
        (if q = p \<and> j = e_id e then map_sum id (\<lambda>xs. xs @ as) (get_assertions (nd_vault s) p j) else get_assertions (nd_vault s) q j))"

lemma put_edge_filed:
  assumes "put_edge cl (nd_vault s) p e = Inr v" and "vault_ok cl (nd_vault s)"
  shows "filed cl p e [] s (s\<lparr>nd_vault := v\<rparr>)"
proof -
  have "vault_step cl p (nd_vault s) v" using assms(1) by (rule vault_step.intros(5))
  from store_write_ok [OF vault_step_write [OF this assms(2)] assms(2)] put_edge_reads [OF assms(1)]
  show ?thesis by (simp add: filed_def map_sum_same)
qed

lemma filed_appended: "filed cl p e as s t \<Longrightarrow> appended cl p (e_id e) bs t u \<Longrightarrow> filed cl p e (as @ bs) s u"
  by (cases "get_assertions (nd_vault s) p (e_id e)") (auto simp: filed_def appended_def)

lemma accept_Inr [simp]: "accept ty i (r, b) s = (Inr x, t) \<longleftrightarrow> x = (r\<lparr>ig_accepted := ig_accepted r @ [(ty, i)]\<rparr>, b) \<and> t = s"
  by (auto simp: accept_def)

lemma discard_Inr [simp]: "discard ty i why (r, b) s = (Inr x, t) \<longleftrightarrow> x = (r\<lparr>ig_discarded := ig_discarded r @ [(ty, i, why)]\<rparr>, b) \<and> t = s"
  by (auto simp: discard_def)

lemma holds_signature_Inr: "holds_signature p a i s = (Inr x, t) \<longleftrightarrow>
    t = s \<and> (\<exists>as. get_assertions (nd_vault s) p i = Inr as \<and> x = (a_sig a \<in> set (map a_sig as)))"
  by (auto simp: holds_signature_def op_returns)

lemma file_proposal_files:
  assumes "file_proposal ib e a (r, b) s = (Inr x, t)" and "vault_ok (ib_lib ib) (nd_vault s)" and "small (nd_vault t)"
    and "a_edge_id a = e_id e"
  obtains held where "get_assertions (nd_vault s) (ib_persona ib) (e_id e) = Inr held"
    and "filed (ib_lib ib) (ib_persona ib) e (if a_sig a \<in> set (map a_sig held) then [] else [a]) s t"
    and "x = (r\<lparr>ig_accepted := ig_accepted r @ [(MPropose, Some (e_id e))]\<rparr>, b)"
proof -
  let ?p = "ib_persona ib" and ?cl = "ib_lib ib"
  from assms(1) obtain v held u where v: "put_edge ?cl (nd_vault s) ?p e = Inr v"
    and held: "get_assertions v ?p (e_id e) = Inr held"
    and st: "(if a_sig a \<in> set (map a_sig held) then return_op () else store_assertion ?p a) (s\<lparr>nd_vault := v\<rparr>) = (Inr (), u)"
    and x: "x = (r\<lparr>ig_accepted := ig_accepted r @ [(MPropose, Some (e_id e))]\<rparr>, b)" and t: "t = u"
    by (auto simp: file_proposal_def op_returns holds_signature_Inr split: if_split_asm)
  note f = put_edge_filed [OF v assms(2)]
  have held': "get_assertions (nd_vault s) ?p (e_id e) = Inr held" using held put_edge_reads(2) [OF v] by simp
  show thesis
  proof (cases "a_sig a \<in> set (map a_sig held)")
    case True
    with st t f x held' that show thesis by simp
  next
    case False
    with st have st': "store_assertion ?p a (s\<lparr>nd_vault := v\<rparr>) = (Inr (), u)" by simp
    have ok: "vault_ok ?cl (nd_vault (s\<lparr>nd_vault := v\<rparr>))" using f by (simp add: filed_def)
    then have "chain_room (nd_vault (s\<lparr>nd_vault := v\<rparr>)) ?p (a_edge_id a)"
      using small_append(2) st' assms(3) t by (auto simp: store_assertion_Inr)
    from store_appended [OF st' ok this] have "appended ?cl ?p (e_id e) [a] (s\<lparr>nd_vault := v\<rparr>) u" by (simp add: assms(4))
    from filed_appended [OF f this] False x held' t that show thesis by simp
  qed
qed

section \<open>One message\<close>

text \<open>A proposal changes the vault only when its edge binds, is its sender's and is owed to this persona.\<close>

definition proposes :: "inbox \<Rightarrow> int \<Rightarrow> persona_id \<Rightarrow> edge \<Rightarrow> assertion \<Rightarrow> bool" where
  "proposes ib now sender e a \<longleftrightarrow> edge_id_binds_body (ib_lib ib) e \<and> e_owed_to e = ib_persona ib \<and> e_owner e = sender \<and>
     table.all_accepted \<lparr>v_lib = ib_lib ib, v_now = Some now, v_lineage = no_rotation\<rparr> e [a]"

lemma single_accepted: "cv_outcomes (verify_assertion_chain vr e [a]) ! 0 = None \<longleftrightarrow> table.all_accepted vr e [a]"
proof -
  obtain x where "cv_outcomes (verify_assertion_chain vr e [a]) = [x]"
    using verify_length [of vr e "[a]"] by (cases "cv_outcomes (verify_assertion_chain vr e [a])") auto
  then show ?thesis by (simp add: table.all_accepted_def)
qed

lemma edge_binding_failure_Inr:
  assumes "edge_binding_failure cl p e s = (Inr x, t)"
  shows "t = s" and "x = None \<Longrightarrow> edge_id_binds_body cl e"
  using assms by (auto simp: edge_binding_failure_def op_returns split: if_split_asm)

lemma already_held_Inr:
  assumes "already_held p e a s = (Inr x, t)"
  shows "t = s" and "x \<longleftrightarrow> (\<exists>h as. get_edge (nd_vault s) p (e_id e) = Inr (Some h) \<and>
    get_assertions (nd_vault s) p (e_id e) = Inr as \<and> a_sig a \<in> set (map a_sig as))"
  using assms by (auto simp: already_held_def op_returns holds_signature_Inr split: if_split_asm)

lemma ingest_propose_cases:
  assumes "ingest_propose ib now sender pl (r, b) s = (Inr x, t)"
  obtains "t = s"
    | e a b' where "Option.bind pl parse_propose = Some (e, a)" "proposes ib now sender e a"
        "file_proposal ib e a (r, b') s = (Inr x, t)"
proof (cases "Option.bind pl parse_propose")
  case None
  with assms that(1) show thesis by (simp add: ingest_propose_def)
next
  case (Some ea)
  then obtain e a where ea: "Option.bind pl parse_propose = Some (e, a)" by (cases ea) simp
  with assms obtain u s1 where u: "edge_binding_failure (ib_lib ib) (ib_persona ib) e s = (Inr u, s1)"
    by (auto simp: ingest_propose_def bind_op_Inr)
  note u' = edge_binding_failure_Inr [OF u]
  show thesis
  proof (cases u)
    case (Some why)
    with assms ea u u' that(1) show thesis by (simp add: ingest_propose_def bind_op_Inr)
  next
    case None
    show thesis
    proof (cases "e_owed_to e = ib_persona ib \<and> sender = e_owner e \<and>
        cv_outcomes (verify_assertion_chain \<lparr>v_lib = ib_lib ib, v_now = Some now, v_lineage = no_rotation\<rparr> e [a]) ! 0 = None")
      case False
      with assms ea u u' None that(1) show thesis
        by (auto simp: ingest_propose_def bind_op_Inr split: if_split_asm option.split_asm)
    next
      case True
      with None u'(2) have pr: "proposes ib now sender e a" by (simp add: proposes_def single_accepted [symmetric])
      from assms ea u u'(1) None True have ad: "admit_proposal ib now sender e a (r, b) s = (Inr x, t)"
        by (simp add: ingest_propose_def bind_op_Inr)
      then obtain h s2 where h: "already_held (ib_persona ib) e a s = (Inr h, s2)" by (auto simp: admit_proposal_def bind_op_Inr)
      obtain w b' where w: "admit_sender now sender (ib_level ib sender) b = (w, b')" by fastforce
      from ad h already_held_Inr(1) [OF h] w that pr ea show thesis
        by (cases h; cases w) (auto simp: admit_proposal_def bind_op_Inr)
    qed
  qed
qed

text \<open>An assertion is appended only when a party sent it and the table accepts it at the end of its chain.\<close>

lemma ingest_assert_cases:
  assumes "ingest_assert ib now sender pl (r, b) s = (Inr x, t)"
  obtains "t = s" "snd x = b"
    | a e rs held where "Option.bind pl parse_assert = Some a" "get_edge (nd_vault s) (ib_persona ib) (a_edge_id a) = Inr (Some e)"
        "list_rotations (nd_vault s) (ib_persona ib) = Inr rs"
        "is_party_or_successor e (ib_persona ib) (successor_resolver (ib_lib ib) rs)"
        "is_party_or_successor e sender (successor_resolver (ib_lib ib) rs)"
        "get_assertions (nd_vault s) (ib_persona ib) (e_id e) = Inr held"
        "cv_outcomes (verify_assertion_chain \<lparr>v_lib = ib_lib ib, v_now = Some now,
           v_lineage = successor_resolver (ib_lib ib) rs\<rparr> e (held @ [a])) ! length held = None"
        "store_assertion (ib_persona ib) a s = (Inr (), t)"
        "x = (r\<lparr>ig_accepted := ig_accepted r @ [(MAssert, Some (e_id e))]\<rparr>, b)"
proof (cases "Option.bind pl parse_assert")
  case None
  with assms that(1) show thesis by (simp add: ingest_assert_def)
next
  case (Some a)
  with assms obtain f where f: "get_edge (nd_vault s) (ib_persona ib) (a_edge_id a) = Inr f"
    by (auto simp: ingest_assert_def op_returns)
  show thesis
  proof (cases f)
    case None
    with assms Some f that(1) show thesis by (simp add: ingest_assert_def op_returns)
  next
    case e: (Some e)
    with assms Some f obtain rs where rs: "list_rotations (nd_vault s) (ib_persona ib) = Inr rs"
      by (auto simp: ingest_assert_def op_returns party_lineage_def map_sum_Inr_iff)
    let ?lin = "successor_resolver (ib_lib ib) rs"
    show thesis
    proof (cases "is_party_or_successor e (ib_persona ib) ?lin \<and> is_party_or_successor e sender ?lin")
      case False
      with assms Some f e rs that(1) show thesis
        by (auto simp: ingest_assert_def op_returns party_lineage_def split: if_split_asm)
    next
      case True
      with assms Some f e rs obtain held where held: "get_assertions (nd_vault s) (ib_persona ib) (e_id e) = Inr held"
        by (auto simp: ingest_assert_def op_returns party_lineage_def)
      from True assms Some f e rs held that show thesis
        by (auto simp: ingest_assert_def op_returns party_lineage_def split: if_split_asm option.split_asm)
    qed
  qed
qed

lemma quiet_collect: "(\<And>x. quiet.keeps (f x)) \<Longrightarrow> quiet.keeps (collect_op f xs)"
  by (induction xs) (auto intro!: quiet.keeps_intros)

lemma quiet_knows_party: "quiet.keeps (knows_party p k)"
  unfolding knows_party_def by (intro quiet.keeps_intros quiet_collect)

lemma knows_party_quiet: "knows_party p k s = (x, t) \<Longrightarrow> t = s"
  using quiet.keepsD [OF quiet_knows_party] by metis

lemma ingest_rotation_cases:
  assumes "ingest_rotation ib sender pl (r, b) s = (Inr x, t)"
  obtains "t = s"
    | j rot enc v where "pl = Some j" "verify_rotation (ib_lib ib) False j = RotOk rot enc" "sender \<in> {r_old rot, r_new rot}"
        "put_rotation (nd_vault s) (ib_persona ib) rot = Inr v" "t = s\<lparr>nd_vault := v\<rparr>"
proof (cases "case pl of None \<Rightarrow> RotBad RotMalformed | Some j \<Rightarrow> verify_rotation (ib_lib ib) False j")
  case (RotBad why)
  with assms that(1) show thesis by (simp add: ingest_rotation_def)
next
  case (RotOk rot enc)
  then obtain j where j: "pl = Some j" "verify_rotation (ib_lib ib) False j = RotOk rot enc" by (auto split: option.split_asm)
  with assms that show thesis
    by (auto simp: ingest_rotation_def op_returns dest!: knows_party_quiet split: if_split_asm)
qed

section \<open>What every message keeps\<close>

text \<open>
  The inbox is a client of any relation that its three writes respect: appending to a chain, which is all that
  reconciliation does, filing an edge, and recording a rotation.
\<close>

locale chain_relation = op_relation +
  assumes keeps_store: "keeps (store_assertion p a)"
begin

lemma keeps_apply_outcomes: "keeps (apply_outcomes p i k xs r)"
proof (induction p i k xs r rule: apply_outcomes.induct)
  case (2 p i k a out rest r)
  then show ?case by (cases out) (auto intro!: keeps_bind keeps_store)
qed (simp add: keeps_return)

lemma keeps_apply_entry: "keeps (apply_entry cl now p q lin en r)"
  unfolding apply_entry_def Let_def by (intro keeps_intros keeps_apply_outcomes)

lemma keeps_recon: "keeps (apply_recon_response cl now p q ens)"
proof -
  have "keeps (apply_entries cl now p q lin ens r)" for lin r
    by (induction ens arbitrary: r) (auto intro!: keeps_intros keeps_apply_entry)
  then show ?thesis unfolding apply_recon_response_def party_lineage_def by (intro keeps_intros)
qed

end

locale inbox_relation = chain_relation +
  fixes cl :: crypto_lib
  assumes keeps_put_edge: "keeps (write_vault (\<lambda>v. put_edge cl v p e))"
    and keeps_put_rotation: "keeps (write_vault (\<lambda>v. put_rotation v p ro))"
begin

lemma keeps_accept: "keeps (accept ty i rb)" "keeps (discard ty' i why rb)"
  by (cases rb; simp add: accept_def discard_def keeps_return)+

lemma keeps_file: "ib_lib ib = cl \<Longrightarrow> keeps (file_proposal ib e a rb)"
  unfolding file_proposal_def holds_signature_def
  by (simp add: keeps_put_edge keeps_intros keeps_accept keeps_store)

lemma keeps_propose: "ib_lib ib = cl \<Longrightarrow> keeps (ingest_propose ib now sender pl rb)"
proof -
  assume ib: "ib_lib ib = cl"
  have "keeps (case rb of (r, b) \<Rightarrow> (case admit_sender now sender (ib_level ib sender) b of
            (Surfaced, b') \<Rightarrow> file_proposal ib e a (r, b')
          | (why, b') \<Rightarrow> return_op (r\<lparr>ig_suppressed := ig_suppressed r @ [(sender, e_id e, why)]\<rparr>, b')))" for e a
    by (auto split: prod.split admission.split intro!: keeps_file [OF ib] keeps_return)
  then show ?thesis
    unfolding ingest_propose_def edge_binding_failure_def admit_proposal_def already_held_def holds_signature_def
    by (auto split: option.split prod.split intro!: keeps_intros keeps_accept)
qed

lemma keeps_assert: "keeps (ingest_assert ib now sender pl rb)"
  unfolding ingest_assert_def party_lineage_def
  by (auto split: option.split intro!: keeps_intros keeps_accept keeps_store)

lemma keeps_quiet: "quiet.keeps m \<Longrightarrow> keeps m"
  unfolding quiet.keeps_def keeps_def by (metis R_refl)

lemma keeps_rotation: "keeps (ingest_rotation ib sender pl rb)"
  unfolding ingest_rotation_def
  by (auto split: rotation_verdict.split option.split intro!: keeps_intros keeps_accept keeps_put_rotation
      keeps_quiet [OF quiet_knows_party])

lemma keeps_message: "ib_lib ib = cl \<Longrightarrow> keeps (ingest_message ib now m rb)"
proof -
  assume ib: "ib_lib ib = cl"
  have "keeps (bind_op (apply_recon_response (ib_lib ib) now p q ens) (\<lambda>x. case rb of (r, b) \<Rightarrow>
      return_op (f x r, b)))" for p q ens f
    by (cases rb) (auto intro!: keeps_bind keeps_recon keeps_return)
  then show ?thesis
    unfolding ingest_message_def
    by (cases rb; cases "wm_type m")
      (auto split: option.split intro!: keeps_propose [OF ib] keeps_assert keeps_rotation keeps_accept keeps_return)
qed

lemma keeps_ingest_one: "ib_lib ib = cl \<Longrightarrow> keeps (ingest_one ib now raw rb)"
  unfolding ingest_one_def by (auto split: option.split intro!: keeps_accept keeps_message)

lemma keeps_ingest_all: "ib_lib ib = cl \<Longrightarrow> keeps (ingest_all ib raws rb)"
  by (induction raws arbitrary: rb) (auto intro!: keeps_bind keeps_ingest_one keeps_return)

end

text \<open>The inbox only appends to what is held.\<close>

lemma history_rotation: "history.keeps cl (write_vault (\<lambda>v. put_rotation v p r))"
  by (rule history_write)
    (auto simp: put_rotation_def bind_result_Inr_iff intro: small_same_edges intro!: exI vault_step.intros(9))

interpretation growing: inbox_relation "keeps_history cl" cl for cl
  by unfold_locales (auto intro: history_store history_writes(3) history_rotation)

section \<open>Edge bodies and mail\<close>

lemma append_bodies: "append_assertion v p a = Inr (n, v') \<Longrightarrow> get_edge v' q j = get_edge v q j"
proof -
  assume "append_assertion v p a = Inr (n, v')"
  then obtain ps ef ad where d: "edge_dir v p (a_edge_id a) = Inr (ps, ef)"
    and v': "v' = put_edge_files v p ps (a_edge_id a) (ef\<lparr>ef_assertions := ad\<rparr>)"
    by (auto simp: append_assertion_def bind_result_Inr_iff Let_def split: if_split_asm)
  show "get_edge v' q j = get_edge v q j"
    unfolding get_edge_def v' edge_dir_put [OF d] using d by (cases "edge_dir v q j") auto
qed

text \<open>The relation between states that hold the same edge bodies: assertions do not touch them.\<close>

interpretation bodies: op_relation "\<lambda>s t. \<forall>q j. get_edge (nd_vault t) q j = get_edge (nd_vault s) q j"
  by unfold_locales auto

lemma bodies_store: "bodies.keeps (store_assertion p a)"
  unfolding store_assertion_def by (rule bodies.keeps_write) (auto simp: map_sum_Inr_iff append_bodies)

interpretation bodied: chain_relation "\<lambda>s t. \<forall>q j. get_edge (nd_vault t) q j = get_edge (nd_vault s) q j"
  by unfold_locales (rule bodies_store)

lemma put_rotation_parts: "put_rotation v p r = Inr v' \<Longrightarrow> (\<And>ps d. f (ps\<lparr>ps_rotations := d\<rparr>) = f ps) \<Longrightarrow> same_part f v v'"
  by (auto simp: put_rotation_def bind_result_Inr_iff intro!: same_part_put_store)

text \<open>The relation between states with the same outboxes: what is received writes none.\<close>

interpretation mail: op_relation "\<lambda>s t. same_part ps_outbox (nd_vault s) (nd_vault t)"
  by unfold_locales (auto intro: same_part_trans)

interpretation mailed: inbox_relation "\<lambda>s t. same_part ps_outbox (nd_vault s) (nd_vault t)" cl for cl
proof unfold_locales
  show "mail.keeps (store_assertion p a)" for p a
    unfolding store_assertion_def by (rule mail.keeps_write) (auto simp: map_sum_Inr_iff elim: append_parts)
  show "mail.keeps (write_vault (\<lambda>v. put_edge cl v p e))" for p e
    by (rule mail.keeps_write) (auto elim: put_edge_parts)
  show "mail.keeps (write_vault (\<lambda>v. put_rotation v p ro))" for p ro
    by (rule mail.keeps_write) (auto elim: put_rotation_parts)
qed

text \<open>The messages that file an edge are the proposals.\<close>

lemma ingest_one_cases:
  assumes "ingest_one ib now raw (r, b) s = (Inr x, t)"
  obtains "\<forall>q j. get_edge (nd_vault t) q j = get_edge (nd_vault s) q j"
    | m e a b' where "verify_message (ib_lib ib) raw = Some m" "wm_recipient m = ib_persona ib" "wm_type m = MPropose"
        "Option.bind (wm_payload m) parse_propose = Some (e, a)" "proposes ib now (wm_sender m) e a"
        "file_proposal ib e a (r, b') s = (Inr x, t)"
proof (cases "speaks_this_version raw \<and> (\<exists>m. verify_message (ib_lib ib) raw = Some m \<and> wm_recipient m = ib_persona ib)")
  case False
  with assms that(1) show thesis by (auto simp: ingest_one_def split: if_split_asm option.split_asm)
next
  case True
  then obtain m where m: "verify_message (ib_lib ib) raw = Some m" "wm_recipient m = ib_persona ib" by blast
  with True assms have im: "ingest_message ib now m (r, b) s = (Inr x, t)" by (simp add: ingest_one_def)
  show thesis
  proof (cases "wm_type m")
    case MPropose
    with im have "ingest_propose ib now (wm_sender m) (wm_payload m) (r, b) s = (Inr x, t)" by (simp add: ingest_message_def)
    then show thesis
    proof (cases rule: ingest_propose_cases)
      case 1
      with that(1) show thesis by simp
    next
      case (2 e a b')
      with that(2) m MPropose show thesis by blast
    qed
  next
    case MAssert
    with im have "ingest_assert ib now (wm_sender m) (wm_payload m) (r, b) s = (Inr x, t)" by (simp add: ingest_message_def)
    then show thesis
    proof (cases rule: ingest_assert_cases)
      case 1
      with that(1) show thesis by simp
    next
      case (2 a e rs held)
      from bodies.keepsD [OF bodies_store 2(8)] that(1) show thesis by blast
    qed
  next
    case MRotation
    with im have "ingest_rotation ib (wm_sender m) (wm_payload m) (r, b) s = (Inr x, t)" by (simp add: ingest_message_def)
    then show thesis
    proof (cases rule: ingest_rotation_cases)
      case 1
      with that(1) show thesis by simp
    next
      case (2 j rot enc v)
      with same_edges_chains(1) [OF put_rotation_parts [OF 2(4), of ps_edges]] that(1) show thesis by simp
    qed
  next
    case MReconResponse
    show thesis
    proof (cases "Option.bind (wm_payload m) parse_recon_response")
      case None
      with im MReconResponse that(1) show thesis by (simp add: ingest_message_def)
    next
      case (Some ens)
      with im MReconResponse obtain y where "apply_recon_response (ib_lib ib) now (ib_persona ib) (wm_sender m) ens s = (Inr y, t)"
        by (auto simp: ingest_message_def bind_op_Inr)
      from bodies.keepsD [OF bodied.keeps_recon this] that(1) show thesis by blast
    qed
  qed (use im that(1) in \<open>auto simp: ingest_message_def split: option.split_asm if_split_asm\<close>)
qed

end
