(* ===== verification/Recovery.thy ===== *)
theory Recovery
  imports InboxLaws NodeSamples
begin

text \<open>
  Recovery of edges: \<^verbatim>\<open>RecoveryResponder\<close> of \<^verbatim>\<open>packages/federation/src/recovery.ts\<close>. The responder keeps the
  challenges it has issued and not yet seen answered. A challenge is answered only when the key of the
  persona being recovered signed it; a rotation statement beside it says which key that key succeeds.
\<close>

definition sign_challenge :: "crypto_lib \<Rightarrow> string \<Rightarrow> string \<Rightarrow> json_members option" where
  "sign_challenge cl ch sk = with_signature cl [(''challenge'', JStr ch)] sk"

record responder =
  re_issued :: "string list"
  re_counter :: nat

definition new_responder :: responder where
  "new_responder = \<lparr>re_issued = [], re_counter = 0\<rparr>"

definition issue_challenge :: "int \<Rightarrow> responder \<Rightarrow> string \<times> responder" where
  "issue_challenge now st =
     (let n = Suc (re_counter st);
          value = ''recover-'' @ decimal_digits n @ ''-'' @ serialize_number now
      in (value, \<lparr>re_issued = value # re_issued st, re_counter = n\<rparr>))"

lemma issued_challenge: "issue_challenge now st = (ch, st') \<Longrightarrow> ch \<in> set (re_issued st')"
  by (auto simp: issue_challenge_def Let_def simp del: decimal_digits.simps)

definition spend :: "string \<Rightarrow> responder \<Rightarrow> responder" where
  "spend ch st = st\<lparr>re_issued := filter (\<lambda>x. x \<noteq> ch) (re_issued st)\<rparr>"

datatype recovery_refusal =
    ProofCarriesNoChallenge
  | MalformedRotationStatement
  | RotationNamesAnother
  | RotationEncodingUnverifiable
  | RotationNotSignedByOldKey
  | PredecessorUnknown
  | ChallengeNotIssued
  | ChallengeNotSigned

datatype recovery_verdict = RecoveryVerified persona_id "persona_id option" | RecoveryRefused recovery_refusal

text \<open>The challenge of a proof, and the signature on it.\<close>

definition proof_challenge :: "json_members \<Rightarrow> (string \<times> string) option" where
  "proof_challenge pr =
     (case (map_of pr ''challenge'', map_of pr ''sig'') of
        (Some (JStr ch), Some (JStr sg)) \<Rightarrow> Some (ch, sg) | _ \<Rightarrow> None)"

text \<open>The statement a proof carries beside its challenge: under \<^verbatim>\<open>rotation\<close>, or the proof itself.\<close>

definition proof_rotation :: "json_members \<Rightarrow> json option" where
  "proof_rotation pr =
     (case map_of pr ''rotation'' of
        None \<Rightarrow> if map_of pr ''type'' = Some (JStr ''rotation'') then Some (JObj pr) else None
      | Some JNull \<Rightarrow> Some (JObj pr)
      | Some j \<Rightarrow> Some j)"

definition challenge_signed :: "crypto_lib \<Rightarrow> string \<Rightarrow> string \<Rightarrow> persona_id \<Rightarrow> bool" where
  "challenge_signed cl ch sg k = verify_object cl [(''challenge'', JStr ch), (''sig'', JStr sg)] k"

definition check_challenge ::
    "crypto_lib \<Rightarrow> persona_id \<Rightarrow> persona_id option \<Rightarrow> string \<Rightarrow> string \<Rightarrow> responder \<Rightarrow> recovery_verdict \<times> responder" where
  "check_challenge cl k pred ch sg st =
     (if ch \<notin> set (re_issued st) then (RecoveryRefused ChallengeNotIssued, st)
      else if \<not> challenge_signed cl ch sg k then (RecoveryRefused ChallengeNotSigned, st)
      else (RecoveryVerified k pred, spend ch st))"

definition check_succession ::
    "crypto_lib \<Rightarrow> persona_id \<Rightarrow> persona_id \<Rightarrow> string \<Rightarrow> string \<Rightarrow> json \<Rightarrow> responder \<Rightarrow> (recovery_verdict \<times> responder) node_op" where
  "check_succession cl p k ch sg j st =
     (case parse_rotation j of
        None \<Rightarrow> return_op (RecoveryRefused MalformedRotationStatement, st)
      | Some rot \<Rightarrow>
          if r_new rot \<noteq> k then return_op (RecoveryRefused RotationNamesAnother, st)
          else if r_sig rot = None then return_op (RecoveryRefused RotationEncodingUnverifiable, st)
          else if \<not> verify_object cl (rotation_members rot) (r_old rot) then return_op (RecoveryRefused RotationNotSignedByOldKey, st)
          else bind_op (knows_party p (r_old rot)) (\<lambda>known.
            if \<not> known then return_op (RecoveryRefused PredecessorUnknown, st)
            else return_op (check_challenge cl k (Some (r_old rot)) ch sg st)))"

definition verify_request :: "crypto_lib \<Rightarrow> persona_id \<Rightarrow> recover_request \<Rightarrow> responder \<Rightarrow> (recovery_verdict \<times> responder) node_op" where
  "verify_request cl p rq st =
     (case proof_challenge (rq_proof rq) of
        None \<Rightarrow> return_op (RecoveryRefused ProofCarriesNoChallenge, st)
      | Some (ch, sg) \<Rightarrow>
          (case proof_rotation (rq_proof rq) of
             Some j \<Rightarrow> check_succession cl p (rq_persona rq) ch sg j st
           | None \<Rightarrow> return_op (check_challenge cl (rq_persona rq) None ch sg st)))"

text \<open>Is one of the identities served this edge?\<close>

fun served_any :: "crypto_lib \<Rightarrow> int \<Rightarrow> persona_id \<Rightarrow> edge \<Rightarrow> persona_id list \<Rightarrow> bool node_op" where
  "served_any cl now p e [] = return_op False"
| "served_any cl now p e (k # ks) =
     bind_op (may_serve_edge cl now p k e) (\<lambda>grant. if grant \<noteq> NotServed then return_op True else served_any cl now p e ks)"

definition recovered_edge ::
    "crypto_lib \<Rightarrow> int \<Rightarrow> persona_id \<Rightarrow> persona_id list \<Rightarrow> sha256_hex \<Rightarrow> (edge \<times> assertion list) option node_op" where
  "recovered_edge cl now p ids i =
     bind_op (read_vault (\<lambda>v. get_edge v p i)) (\<lambda>held.
       case held of
         None \<Rightarrow> return_op None
       | Some e \<Rightarrow>
           if \<not> (\<exists>k \<in> set ids. is_party e k) then return_op None
           else bind_op (served_any cl now p e ids) (\<lambda>ok.
             if \<not> ok then return_op None
             else bind_op (read_vault (\<lambda>v. get_assertions v p i)) (\<lambda>as. return_op (Some (e, as)))))"

definition answer_recover ::
    "crypto_lib \<Rightarrow> int \<Rightarrow> persona_id \<Rightarrow> recover_request \<Rightarrow> responder \<Rightarrow>
     (recovery_verdict \<times> (edge \<times> assertion list) list \<times> responder) node_op" where
  "answer_recover cl now p rq st =
     bind_op (verify_request cl p rq st) (\<lambda>(verdict, st').
       case verdict of
         RecoveryRefused why \<Rightarrow> return_op (verdict, [], st')
       | RecoveryVerified k pred \<Rightarrow>
           bind_op (read_vault (\<lambda>v. list_edge_ids v p)) (\<lambda>ids.
           bind_op (collect_op (recovered_edge cl now p (k # (case pred of None \<Rightarrow> [] | Some x \<Rightarrow> [x]))) ids) (\<lambda>es.
             return_op (verdict, es, st'))))"

section \<open>What an answer rests on\<close>

text \<open>A loop whose body only reads returns what its body returned.\<close>

lemma collect_quiet:
  assumes "collect_op f xs s = (Inr ys, s')" and "\<And>x r t. f x s = (r, t) \<Longrightarrow> t = s"
  shows "s' = s" and "y \<in> set ys \<Longrightarrow> \<exists>x \<in> set xs. f x s = (Inr (Some y), s)"
proof -
  have "s' = s \<and> (\<forall>y \<in> set ys. \<exists>x \<in> set xs. f x s = (Inr (Some y), s))"
    using assms(1)
  proof (induction xs arbitrary: ys)
    case Nil
    then show ?case by simp
  next
    case (Cons x xs)
    from Cons.prems obtain z s1 zs where z: "f x s = (Inr z, s1)" and zs: "collect_op f xs s1 = (Inr zs, s')"
      and ys: "ys = (case z of None \<Rightarrow> zs | Some y \<Rightarrow> y # zs)" by (auto simp: bind_op_Inr)
    have "s1 = s" by (rule assms(2) [OF z])
    with Cons.IH [of zs] zs z ys show ?case by (auto split: option.splits)
  qed
  then show "s' = s" and "y \<in> set ys \<Longrightarrow> \<exists>x \<in> set xs. f x s = (Inr (Some y), s)" by blast+
qed

lemma quiet_in_scope: "quiet.keeps (in_scope now host q sc)"
  unfolding in_scope_def by (intro quiet.keeps_intros)

lemma quiet_serve_by_scope: "quiet.keeps (serve_by_scope now host q e rs)"
  by (induction rs) (auto intro!: quiet.keeps_intros quiet_in_scope)

lemma quiet_party_lineage: "quiet.keeps (party_lineage cl p)"
  unfolding party_lineage_def by (intro quiet.keeps_intros)

lemma quiet_may_serve: "quiet.keeps (may_serve_edge cl now host q e)"
  unfolding may_serve_edge_def by (intro quiet.keeps_intros quiet_party_lineage quiet_serve_by_scope)

lemma quiet_served_any: "quiet.keeps (served_any cl now p e ks)"
  by (induction ks) (auto intro!: quiet.keeps_intros quiet_may_serve)

lemma quiet_recovered: "quiet.keeps (recovered_edge cl now p ids i)"
  unfolding recovered_edge_def by (intro quiet.keeps_intros quiet_served_any)

lemma recovered_edge_Some:
  assumes "recovered_edge cl now p ids i s = (Inr (Some (e, as)), s')"
  shows "get_edge (nd_vault s) p i = Inr (Some e) \<and> get_assertions (nd_vault s) p i = Inr as \<and> (\<exists>k \<in> set ids. is_party e k)"
proof -
  have q: "served_any cl now p e ids s = (r, t) \<Longrightarrow> t = s" for r t using quiet.keepsD [OF quiet_served_any] by metis
  from assms show ?thesis
    by (auto simp: recovered_edge_def op_returns dest!: q split: option.split_asm if_split_asm)
qed

text \<open>Who a verified request is for: the persona that signed, or the key it succeeds.\<close>

definition recovers_for :: "crypto_lib \<Rightarrow> persona_id \<Rightarrow> persona_id option \<Rightarrow> bool" where
  "recovers_for cl k pred \<longleftrightarrow>
     (\<forall>old. pred = Some old \<longrightarrow> (\<exists>rot. r_old rot = old \<and> r_new rot = k \<and> verify_object cl (rotation_members rot) old))"

lemma verify_request_Verified:
  assumes "verify_request cl p rq st s = (Inr (RecoveryVerified k pred, st'), s')"
  shows "s' = s \<and> k = rq_persona rq \<and> recovers_for cl k pred \<and>
    (\<exists>ch sg. proof_challenge (rq_proof rq) = Some (ch, sg) \<and> ch \<in> set (re_issued st) \<and> challenge_signed cl ch sg k \<and> st' = spend ch st)"
proof -
  from assms obtain ch sg where pc: "proof_challenge (rq_proof rq) = Some (ch, sg)"
    by (auto simp: verify_request_def split: option.split_asm)
  show ?thesis
  proof (cases "proof_rotation (rq_proof rq)")
    case None
    with assms pc show ?thesis
      by (auto simp: verify_request_def check_challenge_def recovers_for_def split: if_split_asm)
  next
    case (Some j)
    have q: "knows_party p x s = (r, t) \<Longrightarrow> t = s" for x r t using quiet.keepsD [OF quiet_knows_party] by metis
    from Some assms pc show ?thesis
      by (auto simp: verify_request_def check_succession_def check_challenge_def recovers_for_def bind_op_Inr
          dest!: q split: if_split_asm option.split_asm)
  qed
qed

lemma verify_request_spent:
  assumes "proof_challenge (rq_proof rq) = Some (ch, sg)" and "ch \<notin> set (re_issued st)"
  shows "verify_request cl p rq st s \<noteq> (Inr (RecoveryVerified k pred, st'), s')"
  using verify_request_Verified [of cl p rq st s k pred st' s'] assms by auto

lemma answer_Refused:
  assumes "answer_recover cl now p rq st s = (Inr (v, es, st'), s')"
    and "\<And>k pred x t. verify_request cl p rq st s \<noteq> (Inr (RecoveryVerified k pred, x), t)"
  shows "es = []"
proof -
  from assms(1) obtain w x t where w: "verify_request cl p rq st s = (Inr (w, x), t)"
    and k: "(case w of RecoveryRefused why \<Rightarrow> return_op (w, [], x)
       | RecoveryVerified k pred \<Rightarrow> bind_op (read_vault (\<lambda>v. list_edge_ids v p)) (\<lambda>ids.
           bind_op (collect_op (recovered_edge cl now p (k # (case pred of None \<Rightarrow> [] | Some y \<Rightarrow> [y]))) ids) (\<lambda>es.
             return_op (w, es, x)))) t = (Inr (v, es, st'), s')"
    by (auto simp: answer_recover_def bind_op_Inr)
  with assms(2) show ?thesis by (cases w) auto
qed

section \<open>The property\<close>

text \<open>
  C15: a recovery answer goes to the key it is for, once. Whatever it hands out is held here and names the
  persona being recovered, or a key whose signed rotation names that persona; the persona's key signed a
  challenge this responder issued; answering changes nothing stored; and the same request sent again gets nothing.
\<close>

theorem recovery_answers_the_key_holder_once:
  assumes "answer_recover cl now p rq st s = (Inr (v, es, st'), s')" and "es \<noteq> []"
    and "answer_recover cl later p rq st' t = (Inr (v2, es2, st2), t2)"
  shows "s' = s \<and> es2 = [] \<and>
    (\<exists>pred ch sg. proof_challenge (rq_proof rq) = Some (ch, sg) \<and> ch \<in> set (re_issued st) \<and>
       challenge_signed cl ch sg (rq_persona rq) \<and> recovers_for cl (rq_persona rq) pred \<and>
       set es \<subseteq> {(e, as). \<exists>i. get_edge (nd_vault s) p i = Inr (Some e) \<and> get_assertions (nd_vault s) p i = Inr as \<and>
          (is_party e (rq_persona rq) \<or> (\<exists>old. pred = Some old \<and> is_party e old))})"
proof -
  from assms(1,2) obtain k pred x s1 where vr: "verify_request cl p rq st s = (Inr (RecoveryVerified k pred, x), s1)"
    using answer_Refused by metis
  note ver = verify_request_Verified [OF vr]
  then obtain ch sg where ch: "proof_challenge (rq_proof rq) = Some (ch, sg)" "ch \<in> set (re_issued st)"
    "challenge_signed cl ch sg k" "x = spend ch st" by blast
  let ?ids = "k # (case pred of None \<Rightarrow> [] | Some old \<Rightarrow> [old])"
  from assms(1) vr ver obtain ids where c: "collect_op (recovered_edge cl now p ?ids) ids s = (Inr es, s')" and st': "st' = x"
    by (auto simp: answer_recover_def op_returns)
  have s': "s' = s" and out: "\<And>y. y \<in> set es \<Longrightarrow> \<exists>i \<in> set ids. recovered_edge cl now p ?ids i s = (Inr (Some y), s)"
    by (rule collect_quiet [OF c]; metis quiet.keepsD quiet_recovered)+
  have "set es \<subseteq> {(e, as). \<exists>i. get_edge (nd_vault s) p i = Inr (Some e) \<and> get_assertions (nd_vault s) p i = Inr as \<and>
      (is_party e k \<or> (\<exists>old. pred = Some old \<and> is_party e old))}"
  proof safe
    fix e as assume "(e, as) \<in> set es"
    from out [OF this] obtain i where "recovered_edge cl now p ?ids i s = (Inr (Some (e, as)), s)" by blast
    from recovered_edge_Some [OF this]
    show "\<exists>i. get_edge (nd_vault s) p i = Inr (Some e) \<and> get_assertions (nd_vault s) p i = Inr as \<and>
      (is_party e k \<or> (\<exists>old. pred = Some old \<and> is_party e old))" by (auto split: option.split_asm)
  qed
  moreover have "es2 = []"
    using answer_Refused [OF assms(3)] verify_request_spent [OF ch(1), of st'] ch(4) st' by (auto simp: spend_def)
  moreover have "k = rq_persona rq" "recovers_for cl k pred" using ver by blast+
  ultimately show ?thesis
    using ch s' by - (rule conjI, assumption, rule conjI, assumption, rule exI [of _ pred], rule exI [of _ ch], rule exI [of _ sg], simp)
qed

section \<open>Alice lost her vault\<close>

definition alice_asks :: "string \<Rightarrow> string \<Rightarrow> recover_request" where
  "alice_asks ch sg = \<lparr>rq_persona = alice, rq_proof = [(''challenge'', JStr ch), (''sig'', JStr sg)]\<rparr>"

lemma bob_recovers_alice:
  assumes "challenge_signed sample_lib ch sg alice" and "ch \<in> set (re_issued st)"
  shows "answer_recover sample_lib now bob (alice_asks ch sg) st (holder bob held_files) =
    (Inr (RecoveryVerified alice None, [(held_edge, sample_opening held_edge)], spend ch st), holder bob held_files)"
  using assms holder_reads [of bob held_files] holder_more_reads(4,5) [of bob held_files] held_chain
  by (simp add: answer_recover_def verify_request_def alice_asks_def proof_challenge_def proof_rotation_def check_challenge_def
      op_eval recovered_edge_def may_serve_edge_def party_lineage_def is_party_or_successor_def is_party_def
      held_files_def [THEN arg_cong [where f = ef_edge]])

text \<open>Alice signs the challenge Bob issued and gets their edge back; her request replayed gets nothing.\<close>

theorem recovery_answers_the_key_holder_once_witness:
  "\<exists>ch sg st v es st' v2 es2 st2 t. issue_challenge (ms_of (jan 10)) new_responder = (ch, st) \<and>
     answer_recover sample_lib (ms_of (jan 10)) bob (alice_asks ch sg) st (holder bob held_files) = (Inr (v, es, st'), t) \<and>
     es = [(held_edge, sample_opening held_edge)] \<and>
     answer_recover sample_lib (ms_of (jan 20)) bob (alice_asks ch sg) st' (holder bob held_files) = (Inr (v2, es2, st2), t) \<and> es2 = []"
proof -
  obtain ch st where ch: "issue_challenge (ms_of (jan 10)) new_responder = (ch, st)" by fastforce
  note issued = issued_challenge [OF ch]
  obtain sg where sg: "sign_object sample_lib [(''challenge'', JStr ch)] alice = Some sg"
    by (rule sign_object_defined [OF sample_signs [of alice]]) (auto simp: json_depth_le simp del: json_depth.simps(1,2))
  then have "with_signature sample_lib [(''challenge'', JStr ch)] alice = Some [(''challenge'', JStr ch), (''sig'', JStr sg)]"
    by (simp add: with_signature_def)
  from verify_with_signature [OF sample_signs this] have signed: "challenge_signed sample_lib ch sg alice" by (simp add: challenge_signed_def)
  note a = bob_recovers_alice [OF signed issued, of "ms_of (jan 10)"]
  obtain v2 es2 st2 where b: "answer_recover sample_lib (ms_of (jan 20)) bob (alice_asks ch sg) (spend ch st) (holder bob held_files) =
      (Inr (v2, es2, st2), holder bob held_files)"
    by (simp add: answer_recover_def verify_request_def alice_asks_def proof_challenge_def proof_rotation_def check_challenge_def
        spend_def op_eval)
  have "es2 = []" using recovery_answers_the_key_holder_once [OF a _ b] by simp
  with ch a b show ?thesis by (intro exI conjI) (assumption | rule refl)+
qed

end
