(* ===== verification/ShareClaims.thy ===== *)
theory ShareClaims
  imports SharingLaws Canonical
begin

text \<open>
  The properties of the exchange between nodes: who is served, what a reconciliation may change, how a
  lagging node catches up, and how many strangers a node lets through.
\<close>

section \<open>Serving\<close>

text \<open>
  C12: an edge leaves a node in a reconciliation only for somebody entitled to it: a party, by this node's
  own record of key rotations, or a member of a scope a party published this very edge in, by an attestation
  that is neither expired nor revoked. The answer is the stored chain, and nothing is written.
\<close>

theorem served_only_when_entitled:
  assumes "answer_recon_request cl now p q refs s = (Inr ens, s')"
  shows "s' = s \<and> set ens \<subseteq> {en. \<exists>e. get_edge (nd_vault s) p (en_edge_id en) = Inr (Some e) \<and>
    entitled cl now (nd_vault s) p q e \<and> get_assertions (nd_vault s) p (en_edge_id en) = Inr (en_assertions en)}"
proof (intro conjI subsetI CollectI)
  show "s' = s" by (rule answer_served(1) [OF assms])
  fix en
  assume "en \<in> set ens"
  from answer_served(2) [OF assms this] obtain e where "get_edge (nd_vault s) p (en_edge_id en) = Inr (Some e)"
    "entitled cl now (nd_vault s) p q e" "get_assertions (nd_vault s) p (en_edge_id en) = Inr (en_assertions en)"
    by (elim exE conjE) (rule that)
  then show "\<exists>e. get_edge (nd_vault s) p (en_edge_id en) = Inr (Some e) \<and> entitled cl now (nd_vault s) p q e \<and>
      get_assertions (nd_vault s) p (en_edge_id en) = Inr (en_assertions en)" by (intro exI [of _ e] conjI)
qed

section \<open>Reconciling\<close>

text \<open>
  C11: reconciliation decides nothing about state. Take the edges the persona shares with the responder (each
  is a party by the persona's own record of rotations). Whatever the responder sends, the chain of such an
  edge is afterwards the chain before with, for every entry about the edge in the order they come, exactly
  those of its assertions appended whose signature the chain does not hold yet and which the transition table
  accepts at its end, one after the other in wire order (\<^const>\<open>merged\<close>). The result lists what was appended
  and nothing else; every chain is still accepted whole, no other chain changes, and beside the chains the
  whole vault and the local state are as they were. (The vault is well formed, its chains are accepted at the instant of the call, and no chain
  ends up with more than ten thousand assertions.)
\<close>

theorem reconciliation_defers_to_the_table:
  assumes "apply_recon_response cl now p q ens s = (Inr r, t)" and "vault_ok cl (nd_vault s)" and "small (nd_vault t)"
    and "chains_valid cl (Some now) (nd_vault s)"
  shows "vault_ok cl (nd_vault t) \<and> chains_valid cl (Some now) (nd_vault t) \<and> nd_local t = nd_local s \<and>
    sans_chains (nd_vault t) = sans_chains (nd_vault s) \<and>
    (\<forall>k j. get_edge (nd_vault t) k j = get_edge (nd_vault s) k j) \<and>
    (\<forall>k j. get_assertions (nd_vault t) k j =
       map_sum id (\<lambda>xs. xs @ (if k = p then filter (\<lambda>a. a_edge_id a = j) (rc_accepted r) else [])) (get_assertions (nd_vault s) k j)) \<and>
    (\<exists>rs. list_rotations (nd_vault s) p = Inr rs \<and>
       (\<forall>a \<in> set (rc_accepted r). \<exists>e. get_edge (nd_vault s) p (a_edge_id a) = Inr (Some e) \<and>
          is_party_or_successor e p (successor_resolver cl rs) \<and> is_party_or_successor e q (successor_resolver cl rs)) \<and>
       (\<forall>i e held. get_edge (nd_vault s) p i = Inr (Some e) \<longrightarrow> is_party_or_successor e p (successor_resolver cl rs) \<longrightarrow>
          is_party_or_successor e q (successor_resolver cl rs) \<longrightarrow> get_assertions (nd_vault s) p i = Inr held \<longrightarrow>
          get_assertions (nd_vault t) p i = Inr (merged \<lparr>v_lib = cl, v_now = Some now, v_lineage = successor_resolver cl rs\<rparr> e held
            (map en_assertions (filter (\<lambda>en. en_edge_id en = i) ens)))))"
proof (rule apply_recon_reconciles [OF assms])
  fix rs
  assume rs: "list_rotations (nd_vault s) p = Inr rs" and "reconciled cl now p q (successor_resolver cl rs) s r t"
    and chains: "\<And>i e held. get_edge (nd_vault s) p i = Inr (Some e) \<Longrightarrow> is_party_or_successor e p (successor_resolver cl rs) \<Longrightarrow>
      is_party_or_successor e q (successor_resolver cl rs) \<Longrightarrow> get_assertions (nd_vault s) p i = Inr held \<Longrightarrow>
      get_assertions (nd_vault t) p i = Inr (merged \<lparr>v_lib = cl, v_now = Some now, v_lineage = successor_resolver cl rs\<rparr> e held
        (map en_assertions (filter (\<lambda>en. en_edge_id en = i) ens)))"
  note k = this(2) [unfolded reconciled_def]
  show ?thesis
    apply (intro conjI exI [of _ rs])
    using k chains by (simp_all add: rs)
qed

section \<open>Catching up\<close>

lemma apply_outcomes_ok:
  assumes "vault_ok cl (nd_vault s)" and "get_assertions (nd_vault s) p i = Inr held"
    and "length held + length as \<le> 10000" and "\<forall>a \<in> set as. a_edge_id a = i"
  shows "\<exists>r' t. apply_outcomes p i k (zip as (replicate (length as) None)) r s = (Inr r', t) \<and>
    appended cl p i as s t \<and> rc_accepted r' = rc_accepted r @ as \<and> (small (nd_vault s) \<longrightarrow> small (nd_vault t))"
  using assms
proof (induction as arbitrary: s held k r)
  case Nil
  then show ?case by (simp add: appended_Nil)
next
  case (Cons a as)
  then have a: "a_edge_id a = i" by simp
  have room: "chain_room (nd_vault s) p (a_edge_id a)" using Cons.prems(2,3) a by (simp add: chain_room_def)
  obtain s1 where st: "store_assertion p a s = (Inr (), s1)"
    using store_assertion_ok [OF Cons.prems(1) room] Cons.prems(2) a by auto
  note one = store_appended [OF st Cons.prems(1) room, unfolded a]
  let ?r = "r\<lparr>rc_accepted := rc_accepted r @ [a]\<rparr>"
  have "vault_ok cl (nd_vault s1)" "get_assertions (nd_vault s1) p i = Inr (held @ [a])"
    using one Cons.prems(2) by (simp_all add: appended_def)
  from Cons.IH [OF this, of "Suc k" ?r] Cons.prems(3,4) obtain r' t where
    "apply_outcomes p i (Suc k) (zip as (replicate (length as) None)) ?r s1 = (Inr r', t)"
    "appended cl p i as s1 t" "rc_accepted r' = rc_accepted ?r @ as" "small (nd_vault s1) \<longrightarrow> small (nd_vault t)"
    by auto
  moreover have "small (nd_vault s) \<longrightarrow> small (nd_vault s1)"
    using st Cons.prems(2,3) a
    by (auto simp: store_assertion_Inr append_assertion_def get_assertions_def bind_result_Inr_iff map_sum_Inr_iff Let_def
        split: if_splits intro: small_after_append [of "nd_vault s" p a "length held"])
  ultimately show ?case using st appended_append [OF one] by (auto simp: bind_op_def)
qed

lemma catch_up:
  assumes "vault_ok cl (nd_vault sa)" and "get_edge (nd_vault sa) a i = Inr (Some e)"
    and "get_assertions (nd_vault sa) a i = Inr held" and "get_edge (nd_vault sb) b i = Inr (Some f)"
    and "get_assertions (nd_vault sb) b i = Inr (held @ missing)"
    and "latest_assertion_hash cl (held @ missing) \<noteq> latest_assertion_hash cl held"
    and "may_serve_edge cl nb b a f sb = (Inr g, sb)" and "g \<noteq> NotServed"
    and "verifier_for cl (nd_vault sa) a (Some na) = Inr vr" and "table.all_accepted vr e (held @ missing)"
    and "is_party_or_successor e a (v_lineage vr)" and "is_party_or_successor e b (v_lineage vr)"
    and "sorted (map (\<lambda>x. ms_of (a_asserted_at x)) missing)" and "distinct (map a_sig (held @ missing))"
    and "length (held @ missing) \<le> 10000"
  shows "\<exists>ens r t. answer_recon_request cl nb b a [\<lparr>rf_edge_id = i, rf_latest = latest_assertion_hash cl held\<rparr>] sb = (Inr ens, sb) \<and>
    apply_recon_response cl na a b ens sa = (Inr r, t) \<and> rc_accepted r = missing \<and> (small (nd_vault sa) \<longrightarrow> small (nd_vault t)) \<and>
    get_assertions (nd_vault t) a i = Inr (held @ missing) \<and>
    answer_recon_request cl nb b a [\<lparr>rf_edge_id = i, rf_latest = latest_assertion_hash cl (held @ missing)\<rparr>] sb = (Inr [], sb)"
proof -
  let ?en = "\<lparr>en_edge_id = i, en_assertions = held @ missing\<rparr>"
  have answer: "answer_recon_request cl nb b a [\<lparr>rf_edge_id = i, rf_latest = h\<rparr>] sb =
      (Inr (if latest_assertion_hash cl (held @ missing) = h then [] else [?en]), sb)" for h
    using assms(4,5,7,8) by (simp add: answer_recon_request_def op_eval)
  obtain rs where rs: "list_rotations (nd_vault sa) a = Inr rs"
    and vr: "vr = \<lparr>v_lib = cl, v_now = Some na, v_lineage = successor_resolver cl rs\<rparr>"
    using assms(9) by (auto simp: verifier_for_def map_sum_Inr_iff)
  have "filter (\<lambda>x. a_sig x \<notin> set (map a_sig held)) (held @ missing) = missing"
    using assms(14) by (auto simp: filter_empty_conv intro: filter_True)
  then have incoming: "in_wire_order (filter (\<lambda>x. a_sig x \<notin> set (map a_sig held)) (held @ missing)) = missing"
    using assms(13) by (simp add: in_wire_order_def sort_key_id_if_sorted)
  have outs: "drop (length held) (cv_outcomes (verify_assertion_chain vr e (held @ missing))) = replicate (length missing) None"
    by (simp add: outcomes_of_accepted [OF assms(10)])
  have "held @ missing = accepted (cv_outcomes (verify_assertion_chain vr e (held @ missing))) (held @ missing)"
    using outcomes_of_accepted [OF assms(10)] accepted_replicate by metis
  then have ids: "\<forall>x \<in> set missing. a_edge_id x = i"
    using accepted_edge_id [of _ vr e "held @ missing"] vault_ok_edge_id [OF assms(1,2)] by auto
  obtain r t where run: "apply_outcomes a i (length held) (zip missing (replicate (length missing) None))
        \<lparr>rc_accepted = [], rc_discarded = [], rc_ignored = []\<rparr> sa = (Inr r, t)"
    and app: "appended cl a i missing sa t" and acc: "rc_accepted r = missing" "small (nd_vault sa) \<longrightarrow> small (nd_vault t)"
    using apply_outcomes_ok [OF assms(1,3) _ ids] assms(15) by fastforce
  have apply_eq: "apply_recon_response cl na a b [?en] sa = (Inr r, t)"
    using run rs assms(2,3,11,12) incoming outs
    by (cases "missing = []")
      (simp_all add: apply_recon_response_def party_lineage_def apply_entry_def op_eval Let_def vr)
  show ?thesis
    using answer assms(3,6) apply_eq acc app by (auto simp: appended_def)
qed

text \<open>
  C13: a node that lags catches up in one round. Let a peer hold the same edge with the same chain and more,
  let the requester be one it may serve, and let both be parties of the edge by the requester's record of
  rotations. If the requester's own table accepts the longer chain, the missing assertions stand in it in the
  order of their times, all signatures are different, there are at most ten thousand and the two digests
  differ, then the peer's answer to the requester's digest makes the requester store exactly the missing
  assertions, and its next request finds nothing left to send. (Missing assertions that are accepted in an
  order other than that of their times need not all arrive: they are judged in wire order, see C11.)
\<close>

theorem one_round_catches_up:
  assumes "vault_ok cl (nd_vault sa)" and "get_edge (nd_vault sa) a i = Inr (Some e)"
    and "get_assertions (nd_vault sa) a i = Inr held" and "get_edge (nd_vault sb) b i = Inr (Some f)"
    and "get_assertions (nd_vault sb) b i = Inr (held @ missing)"
    and "latest_assertion_hash cl (held @ missing) \<noteq> latest_assertion_hash cl held"
    and "may_serve_edge cl nb b a f sb = (Inr g, sb)" and "g \<noteq> NotServed"
    and "verifier_for cl (nd_vault sa) a (Some na) = Inr vr" and "table.all_accepted vr e (held @ missing)"
    and "is_party_or_successor e a (v_lineage vr)" and "is_party_or_successor e b (v_lineage vr)"
    and "sorted (map (\<lambda>x. ms_of (a_asserted_at x)) missing)" and "distinct (map a_sig (held @ missing))"
    and "length (held @ missing) \<le> 10000"
  shows "\<exists>ens r t. answer_recon_request cl nb b a [\<lparr>rf_edge_id = i, rf_latest = latest_assertion_hash cl held\<rparr>] sb = (Inr ens, sb) \<and>
    apply_recon_response cl na a b ens sa = (Inr r, t) \<and> rc_accepted r = missing \<and>
    get_assertions (nd_vault t) a i = Inr (held @ missing) \<and>
    answer_recon_request cl nb b a [\<lparr>rf_edge_id = i, rf_latest = latest_assertion_hash cl (held @ missing)\<rparr>] sb = (Inr [], sb)"
  using catch_up [OF assms] by blast

section \<open>Strangers\<close>

type_synonym budget_call = "int \<times> persona_id \<times> nat"

fun budget_run :: "budget_call list \<Rightarrow> budget \<Rightarrow> admission list \<times> budget" where
  "budget_run [] b = ([], b)"
| "budget_run ((t, sender, level) # cs) b =
     (case budget_admit t sender level b of
        (x, b1) \<Rightarrow> (case budget_run cs b1 of (xs, b2) \<Rightarrow> (x # xs, b2)))"

text \<open>The calls of unknown senders that were surfaced.\<close>

definition strangers :: "budget_call list \<Rightarrow> admission list \<Rightarrow> budget_call list" where
  "strangers cs xs = map fst (filter (\<lambda>((t, s, l), x). l = 0 \<and> x = Surfaced) (zip cs xs))"

definition seen_from :: "persona_id \<Rightarrow> budget_call list \<Rightarrow> int list" where
  "seen_from s cs = map fst (filter (\<lambda>(t, s', l). s' = s) cs)"

lemma seen_from_append [simp]: "seen_from s (as @ bs) = seen_from s as @ seen_from s bs"
  by (simp add: seen_from_def)

lemma seen_from_Cons [simp]: "seen_from s ((t, s', l) # bs) = (if s' = s then t # seen_from s bs else seen_from s bs)"
  by (simp add: seen_from_def)

lemma seen_from_Nil [simp]: "seen_from s [] = []"
  by (simp add: seen_from_def)

abbreviation recent_in :: "int \<Rightarrow> int \<Rightarrow> int list \<Rightarrow> int list" where
  "recent_in w now \<equiv> filter (\<lambda>u. now - u < w)"

text \<open>What the budget remembers of the strangers surfaced so far, at any later instant.\<close>

definition budget_ok :: "budget \<Rightarrow> budget_call list \<Rightarrow> int \<Rightarrow> bool" where
  "budget_ok b h lst \<longleftrightarrow> bg_surfaced b = length h \<and> length h \<le> bg_cap b \<and>
     (\<forall>s now. lst \<le> now \<longrightarrow> recent_in (bg_window b) now (bg_recent b s) = recent_in (bg_window b) now (seen_from s h) \<and>
        int (length (recent_in (bg_window b) now (seen_from s h))) \<le> max 0 (bg_per_sender b))"

lemma recent_twice: "t \<le> now \<Longrightarrow> recent_in w now (recent_in w t us) = recent_in w now us"
  by (induction us) auto

lemma recent_both: "t \<le> now \<Longrightarrow> filter (\<lambda>x. t - x < w \<and> now - x < w) us = recent_in w now us"
  by (rule filter_cong) auto

lemma length_recent_mono: "t \<le> now \<Longrightarrow> length (recent_in w now us) \<le> length (recent_in w t us)"
  using recent_twice [of t now w us] by (metis length_filter_le)

lemma budget_admit_ok:
  assumes "budget_admit t s l b = (x, b')" and "budget_ok b h lst" and "lst \<le> t"
  shows "budget_ok b' (if l = 0 \<and> x = Surfaced then h @ [(t, s, l)] else h) t \<and> bg_cap b' = bg_cap b \<and>
    bg_window b' = bg_window b \<and> bg_per_sender b' = bg_per_sender b \<and> (l \<noteq> 0 \<longrightarrow> x = Surfaced)"
proof -
  let ?w = "bg_window b" and ?seen = "recent_in (bg_window b) t (bg_recent b s)"
  have seen: "?seen = recent_in ?w t (seen_from s h)" using assms(2,3) by (simp add: budget_ok_def)
  have old: "recent_in ?w now (bg_recent b q) = recent_in ?w now (seen_from q h)"
      "int (length (recent_in ?w now (seen_from q h))) \<le> max 0 (bg_per_sender b)" if "t \<le> now" for q now
    using assms(2,3) that by (auto simp: budget_ok_def)
  consider "l \<noteq> 0" "x = Surfaced" "b' = b"
    | "l = 0" "x \<noteq> Surfaced" "b' = b\<lparr>bg_recent := (bg_recent b)(s := ?seen)\<rparr>"
    | "l = 0" "x = Surfaced" "int (length ?seen) < bg_per_sender b" "bg_surfaced b < bg_cap b"
      "b' = b\<lparr>bg_recent := (bg_recent b)(s := ?seen @ [t]), bg_surfaced := Suc (bg_surfaced b)\<rparr>"
    using assms(1) by (auto simp: budget_admit_def Let_def not_le split: if_split_asm)
  then show ?thesis
  proof cases
    case 1
    with assms(2) old show ?thesis by (simp add: budget_ok_def)
  next
    case 2
    with assms(2) old show ?thesis by (auto simp: budget_ok_def recent_both)
  next
    case 3
    have "int (length (recent_in ?w now (seen_from s h))) + 1 \<le> max 0 (bg_per_sender b)" if "t \<le> now" for now
      using length_recent_mono [OF that, of ?w "seen_from s h"] 3(3) seen by simp
    with 3 assms(2) old seen show ?thesis by (auto simp: budget_ok_def recent_both)
  qed
qed

lemma budget_run_ok:
  assumes "budget_run cs b = (xs, b')" and "budget_ok b h lst" and "sorted (map fst cs)" and "\<forall>c \<in> set cs. lst \<le> fst c"
  shows "\<exists>end. budget_ok b' (h @ strangers cs xs) end \<and> (end = lst \<or> end \<in> fst ` set cs) \<and> bg_cap b' = bg_cap b \<and>
    bg_window b' = bg_window b \<and> bg_per_sender b' = bg_per_sender b \<and> length xs = length cs \<and>
    (\<forall>k < length cs. snd (snd (cs ! k)) \<noteq> 0 \<longrightarrow> xs ! k = Surfaced)"
  using assms
proof (induction cs arbitrary: b h lst xs)
  case Nil
  then show ?case by (auto simp: strangers_def)
next
  case (Cons c cs)
  obtain t s l where c: "c = (t, s, l)" by (cases c)
  with Cons.prems(1) obtain x b1 xs' where x: "budget_admit t s l b = (x, b1)" and rest: "budget_run cs b1 = (xs', b')"
    and xs: "xs = x # xs'" by (auto split: prod.splits)
  let ?h = "if l = 0 \<and> x = Surfaced then h @ [(t, s, l)] else h"
  from budget_admit_ok [OF x Cons.prems(2)] Cons.prems(4) c have one: "budget_ok b1 ?h t" "bg_cap b1 = bg_cap b"
    "bg_window b1 = bg_window b" "bg_per_sender b1 = bg_per_sender b" "l \<noteq> 0 \<longrightarrow> x = Surfaced" by auto
  from Cons.IH [OF rest one(1)] Cons.prems(3) c obtain fin where
    fin: "budget_ok b' (?h @ strangers cs xs') fin" "fin = t \<or> fin \<in> fst ` set cs" "bg_cap b' = bg_cap b1"
    "bg_window b' = bg_window b1" "bg_per_sender b' = bg_per_sender b1" "length xs' = length cs"
    "\<forall>k < length cs. snd (snd (cs ! k)) \<noteq> 0 \<longrightarrow> xs' ! k = Surfaced" by auto
  have "?h @ strangers cs xs' = h @ strangers (c # cs) xs" by (simp add: strangers_def xs c)
  with fin one c xs show ?case
    by (intro exI [of _ fin]) (auto simp: less_Suc_eq_0_disj)
qed

text \<open>
  Strangers stay within the budget. Over any sequence of proposals in the order of the clock, at most
  the client's cap of proposals from senders of level 0 is ever surfaced, and of one such sender at most the
  rate limit within a window, whenever one looks; a sender of a higher level is always surfaced.
\<close>

theorem strangers_stay_within_the_budget:
  assumes "new_budget cap per_sender win = Some b" and "budget_run cs b = (xs, b')" and "sorted (map fst cs)"
    and "\<forall>c \<in> set cs. fst c \<le> now"
  shows "int (length (strangers cs xs)) \<le> cap \<and>
    int (length (recent_in (bg_window b) now (seen_from s (strangers cs xs)))) \<le> max 0 (bg_per_sender b) \<and>
    (\<forall>k < length cs. snd (snd (cs ! k)) \<noteq> 0 \<longrightarrow> xs ! k = Surfaced)"
proof -
  define fst_t where "fst_t = Min (insert now (fst ` set cs))"
  have "budget_ok b [] fst_t" and cap: "int (bg_cap b) = cap"
    using assms(1) by (auto simp: new_budget_def budget_ok_def split: if_splits)
  moreover have "\<forall>c \<in> set cs. fst_t \<le> fst c" and "fst_t \<le> now" by (simp_all add: fst_t_def)
  ultimately obtain fin where fin: "budget_ok b' (strangers cs xs) fin" "fin = fst_t \<or> fin \<in> fst ` set cs"
    "bg_cap b' = bg_cap b" "bg_window b' = bg_window b" "bg_per_sender b' = bg_per_sender b"
    "\<forall>k < length cs. snd (snd (cs ! k)) \<noteq> 0 \<longrightarrow> xs ! k = Surfaced"
    using budget_run_ok [OF assms(2) _ assms(3), of "[]" fst_t] by auto
  then have "fin \<le> now" using assms(4) \<open>fst_t \<le> now\<close> by auto
  with fin cap show ?thesis by (auto simp: budget_ok_def)
qed

section \<open>Two nodes and a stranger\<close>

text \<open>Bob holds the confirmed edge, Alice the edge and none of its assertions.\<close>

definition blank_files :: edge_files where
  "blank_files = \<lparr>ef_edge = Some held_edge, ef_assertions = [], ef_meta = None\<rparr>"

lemma two_nodes:
  "vault_ok sample_lib (nd_vault (holder alice blank_files))"
  "get_edge (nd_vault (holder alice blank_files)) alice (e_id held_edge) = Inr (Some held_edge)"
  "get_assertions (nd_vault (holder alice blank_files)) alice (e_id held_edge) = Inr []"
  "verifier_for sample_lib (nd_vault (holder alice blank_files)) alice n = Inr (sample_verifier\<lparr>v_now := n\<rparr>)"
  "get_edge (nd_vault (holder bob held_files)) bob (e_id held_edge) = Inr (Some held_edge)"
  "get_assertions (nd_vault (holder bob held_files)) bob (e_id held_edge) = Inr ([] @ sample_opening held_edge)"
  "may_serve_edge sample_lib now bob alice held_edge (holder bob held_files) = (Inr ServedAsParty, holder bob held_files)"
proof -
  have "files_ok sample_lib (e_id held_edge) blank_files"
    by (auto simp: files_ok_def blank_files_def chain_dir_def dir_names_def held_edge_def sample_edge_binds)
  then show "vault_ok sample_lib (nd_vault (holder alice blank_files))" by (simp add: holder_ok)
  show "may_serve_edge sample_lib now bob alice held_edge (holder bob held_files) = (Inr ServedAsParty, holder bob held_files)"
    using holder_more_reads(5) [of bob held_files]
    by (simp add: may_serve_edge_def party_lineage_def op_eval is_party_or_successor_def is_party_def)
qed (use holder_reads [of alice blank_files] holder_reads [of bob held_files] held_chain in
    \<open>simp_all add: blank_files_def held_files_def\<close>)

lemma object_ends: "\<exists>u. write_object ms = u @ ''}''"
  unfolding write_object_def by (metis append.assoc)

lemma sample_digest_ends: "hash_canonical sample_lib (JObj ms) \<noteq> Some empty_chain_hash"
proof
  assume h: "hash_canonical sample_lib (JObj ms) = Some empty_chain_hash"
  then obtain t where t: "canonicalize (JObj ms) = Some t" "sha256_hex sample_lib (utf8 t) = empty_chain_hash"
    by (auto simp: hash_canonical_def canonical_bytes_def)
  then obtain ws where "t = write_object ws"
    by (auto simp: canonicalize_def write_json.simps split: if_splits)
  then obtain u where "t = u @ ''}''" using object_ends by blast
  then have "sha256_hex sample_lib (utf8 t) = to_hex (125 # take 31 (rev (utf8 u) @ replicate 32 0))"
    by (simp add: sha256_hex_def sample_lib_def utf8_def utf8_char_def pad32_def)
  moreover have "byte_hex 125 = ''7d''" by code_simp
  ultimately have "empty_chain_hash = ''7d'' @ to_hex (take 31 (rev (utf8 u) @ replicate 32 0))"
    using t(2) by (simp add: to_hex_def)
  from arg_cong [where f = hd, OF this] show False by (simp add: empty_chain_hash_def)
qed

lemma opening_digest_nonempty: "latest_assertion_hash sample_lib (sample_opening held_edge) \<noteq> latest_assertion_hash sample_lib []"
proof -
  have "canonical_bytes (chain_digest_json (sample_opening held_edge)) \<noteq> None"
    unfolding canonical_bytes_defined chain_digest_json_def
    using json_depth_strings [of "sort (map a_sig (sample_opening held_edge))"]
    by (auto simp: json_depth_le simp del: json_depth.simps(1,2) json_depth_strings)
  then show ?thesis
    using sample_digest_ends
    by (auto simp: latest_assertion_hash_def sample_opening_def chain_digest_json_def hash_canonical_def)
qed

lemma signature_of_says:
  assumes "who \<in> {alice, bob}"
  obtains m where "a_sig (says who e w t ev) = to_hex (m @ pad32 (the (from_hex who)))" "length m = 32"
proof -
  let ?a = "\<lparr>a_edge_id = e_id e, a_state = w, a_asserted_at = t, a_by = who, a_evidence_hash = ev, a_sig = []\<rparr>"
  obtain m where "signing_preimage sample_lib (unsigned_assertion_members ?a) = Some m"
    using assertion_canonical [of ?a] by (auto simp: signing_preimage_def)
  then have "sign_object sample_lib (unsigned_assertion_members ?a) who = Some (to_hex (pad32 m @ pad32 (the (from_hex who))))"
    using assms parties_from_hex by (auto simp: sign_object_def sample_lib_def)
  then show thesis by (intro that [of "pad32 m"]) (simp_all add: says_def signed_by_def)
qed

lemma opening_signatures_distinct: "distinct (map a_sig ([] @ sample_opening held_edge))"
proof -
  obtain m n where "a_sig (says alice held_edge AProposed (jan 1) None) = to_hex (m @ pad32 (replicate 32 170))" "length m = 32"
    "a_sig (says bob held_edge AConfirmed (jan 2) None) = to_hex (n @ pad32 (replicate 32 187))" "length n = 32"
    using signature_of_says [of alice] signature_of_says [of bob] parties_from_hex by (metis insertCI option.sel)
  moreover have "pad32 (replicate 32 170) \<noteq> pad32 (replicate 32 187)" by (simp add: pad32_def)
  ultimately show ?thesis by (auto simp: sample_opening_def to_hex_inject)
qed

lemma lagging_node:
  "is_party_or_successor held_edge alice (v_lineage (sample_verifier\<lparr>v_now := n\<rparr>))"
  "is_party_or_successor held_edge bob (v_lineage (sample_verifier\<lparr>v_now := n\<rparr>))"
  "table.all_accepted (sample_verifier\<lparr>v_now := n\<rparr>) held_edge ([] @ sample_opening held_edge)"
  "sorted (map (\<lambda>x. ms_of (a_asserted_at x)) (sample_opening held_edge))" "length ([] @ sample_opening held_edge) \<le> 10000"
  "latest_assertion_hash sample_lib ([] @ sample_opening held_edge) \<noteq> latest_assertion_hash sample_lib []"
  using verify_held [of n] opening_digest_nonempty
  by (simp_all add: is_party_or_successor_def is_party_def table.all_accepted_def sample_opening_def)

lemmas lagging = two_nodes(1-3,5,6) lagging_node(6) two_nodes(7) serve_grant.distinct(2) two_nodes(4) lagging_node(3,1,2,4)
  opening_signatures_distinct lagging_node(5)

theorem one_round_catches_up_witness:
  "\<exists>ens r t. answer_recon_request sample_lib (ms_of (jan 10)) bob alice
      [\<lparr>rf_edge_id = e_id held_edge, rf_latest = latest_assertion_hash sample_lib []\<rparr>] (holder bob held_files) = (Inr ens, holder bob held_files) \<and>
    apply_recon_response sample_lib (ms_of (jan 10)) alice bob ens (holder alice blank_files) = (Inr r, t) \<and>
    rc_accepted r = sample_opening held_edge"
  using one_round_catches_up [OF lagging, of "ms_of (jan 10)" "ms_of (jan 10)"] by blast

theorem served_only_when_entitled_witness:
  "\<exists>ens. answer_recon_request sample_lib (ms_of (jan 10)) bob alice
      [\<lparr>rf_edge_id = e_id held_edge, rf_latest = empty_chain_hash\<rparr>] (holder bob held_files) = (Inr ens, holder bob held_files) \<and>
    ens \<noteq> [] \<and> entitled sample_lib (ms_of (jan 10)) (nd_vault (holder bob held_files)) bob alice held_edge"
proof -
  let ?en = "\<lparr>en_edge_id = e_id held_edge, en_assertions = sample_opening held_edge\<rparr>"
  have a: "answer_recon_request sample_lib (ms_of (jan 10)) bob alice
      [\<lparr>rf_edge_id = e_id held_edge, rf_latest = empty_chain_hash\<rparr>] (holder bob held_files) = (Inr [?en], holder bob held_files)"
    using two_nodes(5-7) opening_digest_nonempty by (simp add: answer_recon_request_def op_eval latest_assertion_hash_def)
  show ?thesis
    using served_only_when_entitled [OF a] two_nodes(5) a by (intro exI [of _ "[?en]"]) auto
qed

lemma holder_small_any: "length (ef_assertions ef) \<le> 10000 \<Longrightarrow> small (nd_vault (holder p ef))"
  by (auto simp: small_def holder_def put_store_def empty_vault_def holder_store_def dir_get_def split: if_splits)

lemma blank_chains_valid: "chains_valid sample_lib n (nd_vault (holder alice blank_files))"
  unfolding chains_valid_def
proof (intro allI impI)
  fix q i e as vr
  assume h: "get_edge (nd_vault (holder alice blank_files)) q i = Inr (Some e)"
    "get_assertions (nd_vault (holder alice blank_files)) q i = Inr as"
  have "q = alice" "i = e_id held_edge" using holder_only_edge [OF h(1)] by simp_all
  with h(2) two_nodes(3) show "table.all_accepted vr e as" by (simp add: table.all_accepted_Nil)
qed

text \<open>Alice applies what Bob answered.\<close>

theorem reconciliation_defers_to_the_table_witness:
  "\<exists>ens r t. apply_recon_response sample_lib (ms_of (jan 10)) alice bob ens (holder alice blank_files) = (Inr r, t) \<and>
     rc_accepted r = sample_opening held_edge \<and> chains_valid sample_lib (Some (ms_of (jan 10))) (nd_vault t)"
proof -
  obtain ens r t where a: "apply_recon_response sample_lib (ms_of (jan 10)) alice bob ens (holder alice blank_files) = (Inr r, t)"
    and r: "rc_accepted r = sample_opening held_edge" and small: "small (nd_vault (holder alice blank_files)) \<longrightarrow> small (nd_vault t)"
    using catch_up [OF lagging, of "ms_of (jan 10)" "ms_of (jan 10)"] by blast
  have "small (nd_vault t)" using small holder_small_any [of blank_files alice] by (simp add: blank_files_def)
  from reconciliation_defers_to_the_table [OF a two_nodes(1) this blank_chains_valid] a r show ?thesis by blast
qed

theorem strangers_stay_within_the_budget_witness:
  "\<exists>b xs b'. new_budget 1 None None = Some b \<and> budget_run [(0, bob, 0), (1, carol, 0), (2, alice, 1)] b = (xs, b') \<and>
     int (length (strangers [(0, bob, 0), (1, carol, 0), (2, alice, 1)] xs)) \<le> 1 \<and> xs ! 2 = Surfaced"
proof -
  let ?cs = "[(0, bob, 0), (1, carol, 0), (2, alice, 1)] :: budget_call list"
  obtain b where b: "new_budget 1 None None = Some b" by (simp add: new_budget_def)
  obtain xs b' where run: "budget_run ?cs b = (xs, b')" by fastforce
  have "sorted (map fst ?cs)" "\<forall>c \<in> set ?cs. fst c \<le> 2" by simp_all
  from strangers_stay_within_the_budget [OF b run this] b run show ?thesis by fastforce
qed

end
