(* ===== verification/InboxClaims.thy ===== *)
theory InboxClaims
  imports InboxLaws NodeSamples
begin

text \<open>
  What a persona may rely on however hostile the messages it receives: nothing unsigned, mangled or meant for
  somebody else has any effect, an edge appears only because its owner proposed it to this persona, every
  chain stays valid, and a promise committed on one node arrives on the other exactly once.
\<close>

section \<open>Messages that are not for this node\<close>

text \<open>
  C16: messages that do not verify, or that verify and are addressed to somebody else, have no effect.
  Whatever they contain, \<^verbatim>\<open>ingest\<close> returns, leaves the node and the proposal budget as they are, accepts
  nothing, asks for nothing to be answered and reports each of them with one of three reasons.
\<close>

theorem unauthentic_messages_change_nothing:
  assumes "\<forall>(now, raw) \<in> set raws. \<forall>m. verify_message (ib_lib ib) raw = Some m \<longrightarrow> wm_recipient m \<noteq> ib_persona ib"
  shows "\<exists>x. ingest ib raws b s = (Inr (x, b), s) \<and> length (ig_discarded x) = length raws \<and>
    (\<lambda>(ty, i, why). why) ` set (ig_discarded x) \<subseteq> {WrongProtocolVersion, SignatureDoesNotVerify, AddressedToAnotherPersona} \<and>
    x = empty_result\<lparr>ig_discarded := ig_discarded x\<rparr>"
proof -
  have "\<exists>ds. ingest_all ib raws (r, b) s = (Inr (r\<lparr>ig_discarded := ig_discarded r @ ds\<rparr>, b), s) \<and> length ds = length raws \<and>
      (\<lambda>(ty, i, why). why) ` set ds \<subseteq> {WrongProtocolVersion, SignatureDoesNotVerify, AddressedToAnotherPersona}" for r
    using assms
  proof (induction raws arbitrary: r)
    case Nil
    then show ?case by (simp add: return_op_def)
  next
    case (Cons nr raws)
    obtain now raw where nr: "nr = (now, raw)" by (cases nr)
    obtain ty i why where one: "ingest_one ib now raw (r, b) s = (Inr (r\<lparr>ig_discarded := ig_discarded r @ [(ty, i, why)]\<rparr>, b), s)"
      and why: "why \<in> {WrongProtocolVersion, SignatureDoesNotVerify, AddressedToAnotherPersona}"
      using Cons.prems nr
      by (cases "speaks_this_version raw"; cases "verify_message (ib_lib ib) raw") (auto simp: ingest_one_def)
    from Cons.IH [of "r\<lparr>ig_discarded := ig_discarded r @ [(ty, i, why)]\<rparr>"] Cons.prems obtain ds where
      "ingest_all ib raws (r\<lparr>ig_discarded := ig_discarded r @ [(ty, i, why)]\<rparr>, b) s =
         (Inr (r\<lparr>ig_discarded := ig_discarded r @ (ty, i, why) # ds\<rparr>, b), s)" "length ds = length raws"
      "(\<lambda>(ty, i, why). why) ` set ds \<subseteq> {WrongProtocolVersion, SignatureDoesNotVerify, AddressedToAnotherPersona}" by auto
    with one why nr show ?case by (intro exI [of _ "(ty, i, why) # ds"]) (simp add: bind_op_def)
  qed
  from this [of empty_result] show ?thesis by (auto simp: ingest_def empty_result_def)
qed

definition sample_inbox :: "persona_id \<Rightarrow> inbox" where
  "sample_inbox p = \<lparr>ib_lib = sample_lib, ib_persona = p, ib_level = (\<lambda>_. 0)\<rparr>"

lemma sample_message:
  assumes "p \<in> {alice, bob, carol}" and "q \<in> {alice, bob, carol}" and "json_depth payload \<le> 200"
  obtains ms m where "sign_message sample_lib ty payload p q t p = Some ms" and "verify_message sample_lib (JObj ms) = Some m"
    and "wm_type m = ty" "wm_payload m = Some payload" "wm_sender m = p" "wm_recipient m = q"
proof -
  have hex: "hex64 p" "hex64 q" using assms(1,2) parties_hex64 by auto
  let ?ms = "[(''v'', JStr protocol_version), (''type'', JStr (message_type_name ty)), (''payload'', payload),
      (''sender'', JStr p), (''recipient'', JStr q), (''sent_at'', JStr (text_of t))]"
  obtain sg where "sign_object sample_lib ?ms p = Some sg"
    by (rule sign_object_defined [OF sample_signs [OF assms(1)], of ?ms])
      (use assms(3) in \<open>auto simp: json_depth_le simp del: json_depth.simps(1,2)\<close>)
  then obtain ms where ms: "sign_message sample_lib ty payload p q t p = Some ms"
    by (simp add: sign_message_def with_signature_def)
  from signed_message_verifies [OF ms sample_signs [OF assms(1)] hex] ms that show thesis by fastforce
qed

text \<open>Bob receives a null, a message of an old version and a message for Carol.\<close>

theorem unauthentic_messages_change_nothing_witness:
  "\<exists>ms x. verify_message sample_lib (JObj ms) \<noteq> None \<and>
     ingest (sample_inbox bob) [(0, JNull), (0, JObj [(''v'', JStr ''servanda/0.1'')]), (0, JObj ms)] None (holder bob held_files) =
       (Inr (x, None), holder bob held_files) \<and> length (ig_discarded x) = 3"
proof -
  obtain ms m where m: "verify_message sample_lib (JObj ms) = Some m" "wm_recipient m = carol"
    by (rule sample_message [of alice carol JNull MPublish "jan 1"]) simp_all
  let ?raws = "[(0::int, JNull), (0, JObj [(''v'', JStr ''servanda/0.1'')]), (0, JObj ms)]"
  have "\<forall>(now, raw) \<in> set ?raws. \<forall>m. verify_message (ib_lib (sample_inbox bob)) raw = Some m \<longrightarrow> wm_recipient m \<noteq> ib_persona (sample_inbox bob)"
    using m by (auto simp: sample_inbox_def verify_message_def parse_message_def object_of_def protocol_version_def)
  from unauthentic_messages_change_nothing [OF this, of None "holder bob held_files"] m show ?thesis by auto
qed

section \<open>Where edges come from\<close>

text \<open>The proposal of an edge to this persona, signed by its owner, among some messages; its signature is in the chain.\<close>

definition proposed_here :: "inbox \<Rightarrow> (int \<times> json) list \<Rightarrow> vault \<Rightarrow> edge \<Rightarrow> bool" where
  "proposed_here ib raws v e \<longleftrightarrow> edge_id_binds_body (ib_lib ib) e \<and> e_owed_to e = ib_persona ib \<and>
     (\<exists>now raw m a as. (now, raw) \<in> set raws \<and> verify_message (ib_lib ib) raw = Some m \<and> wm_type m = MPropose \<and>
        wm_sender m = e_owner e \<and> wm_recipient m = ib_persona ib \<and>
        Option.bind (wm_payload m) parse_propose = Some (e, a) \<and> a_edge_id a = e_id e \<and> a_state a = AProposed \<and>
        a_by a = e_owner e \<and> assertion_signature_ok (ib_lib ib) a \<and>
        get_assertions v (ib_persona ib) (e_id e) = Inr as \<and> a_sig a \<in> set (map a_sig as))"

lemma first_accepted:
  assumes "table.all_accepted \<lparr>v_lib = cl, v_now = n, v_lineage = no_rotation\<rparr> e [a]"
  shows "a_edge_id a = e_id e" "a_state a = AProposed" "a_by a = e_owner e" "assertion_signature_ok cl a"
proof -
  have "edge_malformed cl e = None"
    using assms by (auto simp: table.all_accepted_def verify_assertion_chain_def split: option.split_asm)
  with assms obtain c where "admit \<lparr>v_lib = cl, v_now = n, v_lineage = no_rotation\<rparr> e initial_chain a = Inr c"
    by (auto simp: table.all_accepted_def verify_assertion_chain_def split: sum.split_asm prod.split_asm)
  then show "a_edge_id a = e_id e" "a_state a = AProposed" "a_by a = e_owner e" "assertion_signature_ok cl a"
    by (auto simp: admit_def step_def step_row_def initial_chain_def Let_def concurrent_exit_def terminal_iff is_owner_key_def
        is_owed_to_key_def step_closed_def step_expired_def unilateral_exit_fault_def non_assertable_states_def
        split: if_split_asm wire_state.split_asm option.split_asm)
qed

lemma proposed_here_grow: "proposed_here ib raws v e \<Longrightarrow> chains_grow v v' \<Longrightarrow> set raws \<subseteq> set raws' \<Longrightarrow> proposed_here ib raws' v' e"
  unfolding proposed_here_def chains_grow_def by (elim conjE exE, intro conjI, assumption, assumption) (fastforce)

lemma ingest_one_edges:
  assumes "ingest_one ib now raw rb s = (Inr x, t)" and "vault_ok (ib_lib ib) (nd_vault s)" and "small (nd_vault t)"
    and "get_edge (nd_vault t) q i = Inr (Some e)"
  shows "get_edge (nd_vault s) q i = Inr (Some e) \<or>
    (q = ib_persona ib \<and> i = e_id e \<and> proposed_here ib [(now, raw)] (nd_vault t) e)"
proof -
  obtain r b where rb: "rb = (r, b)" by (cases rb)
  from assms(1) [unfolded rb] show ?thesis
  proof (cases rule: ingest_one_cases)
    case 1
    with assms(4) show ?thesis by simp
  next
    case (2 m f a b')
    have p: "edge_id_binds_body (ib_lib ib) f" "e_owed_to f = ib_persona ib" "e_owner f = wm_sender m"
      and a: "table.all_accepted \<lparr>v_lib = ib_lib ib, v_now = Some now, v_lineage = no_rotation\<rparr> f [a]"
      using 2(5) by (simp_all add: proposes_def)
    note a = first_accepted [OF a]
    from file_proposal_files [OF 2(6) assms(2,3) a(1)] obtain held where
      held: "get_assertions (nd_vault s) (ib_persona ib) (e_id f) = Inr held"
      and filed: "filed (ib_lib ib) (ib_persona ib) f (if a_sig a \<in> set (map a_sig held) then [] else [a]) s t" by blast
    show ?thesis
    proof (cases "get_edge (nd_vault s) q i = Inr (Some e)")
      case False
      with filed assms(4) have e: "q = ib_persona ib" "i = e_id f" "e = f"
        by (auto simp: filed_def split: if_split_asm)
      have "\<exists>as. get_assertions (nd_vault t) (ib_persona ib) (e_id f) = Inr as \<and> a_sig a \<in> set (map a_sig as)"
        using filed held by (auto simp: filed_def)
      with p a 2(1-4) e show ?thesis by (auto simp: proposed_here_def)
    qed simp
  qed
qed

text \<open>
  C17: an edge appears on a node only because its owner proposed it to this persona. After any batch of
  messages, an edge that was not held before is owed to the persona of the inbox, its identifier binds its
  body, and one of the messages, signed by its owner for this persona, proposes it: its payload holds this
  very edge, body and all, with the owner's signed assertion, whose signature is in the stored chain.
  Every edge and every chain held before is still held.
\<close>

theorem edge_appears_only_when_its_owner_proposes_it:
  assumes "ingest ib raws b s = (Inr x, t)" and "vault_ok (ib_lib ib) (nd_vault s)" and "small (nd_vault t)"
  shows "chains_grow (nd_vault s) (nd_vault t) \<and> vault_ok (ib_lib ib) (nd_vault t) \<and>
    (get_edge (nd_vault t) q i = Inr (Some e) \<and> get_edge (nd_vault s) q i \<noteq> Inr (Some e) \<longrightarrow>
       q = ib_persona ib \<and> i = e_id e \<and> proposed_here ib raws (nd_vault t) e)"
proof -
  have "chains_grow (nd_vault s) (nd_vault t) \<and> vault_ok (ib_lib ib) (nd_vault t) \<and>
      (get_edge (nd_vault t) q i = Inr (Some e) \<longrightarrow> get_edge (nd_vault s) q i = Inr (Some e) \<or>
         (q = ib_persona ib \<and> i = e_id e \<and> proposed_here ib raws (nd_vault t) e))"
    if "ingest_all ib raws rb s = (Inr x, t)" for rb
    using that assms(2,3)
  proof (induction raws arbitrary: rb s)
    case Nil
    then show ?case by simp
  next
    case (Cons nr raws)
    obtain now raw where nr: "nr = (now, raw)" by (cases nr)
    from Cons.prems(1) nr obtain y u where one: "ingest_one ib now raw rb s = (Inr y, u)"
      and rest: "ingest_all ib raws y u = (Inr x, t)" by (auto simp: bind_op_Inr)
    have small: "small (nd_vault u)"
      using history.keepsD [OF growing.keeps_ingest_all [OF refl] rest] Cons.prems(3) by (simp add: keeps_history_def)
    with history.keepsD [OF growing.keeps_ingest_one [OF refl] one] Cons.prems(2) have ok: "vault_ok (ib_lib ib) (nd_vault u)"
      and g: "chains_grow (nd_vault s) (nd_vault u)" by (simp_all add: keeps_history_def)
    note IH = Cons.IH [OF rest ok Cons.prems(3)]
    have "get_edge (nd_vault s) q i = Inr (Some e) \<or> (q = ib_persona ib \<and> i = e_id e \<and> proposed_here ib (nr # raws) (nd_vault t) e)"
      if t: "get_edge (nd_vault t) q i = Inr (Some e)"
    proof (cases "get_edge (nd_vault u) q i = Inr (Some e)")
      case True
      from ingest_one_edges [OF one Cons.prems(2) small True] IH nr show ?thesis
        by (auto intro: proposed_here_grow)
    next
      case False
      with IH t proposed_here_grow [of ib raws "nd_vault t" e "nd_vault t" "nr # raws"] show ?thesis by auto
    qed
    with IH g show ?case using chains_grow_trans by blast
  qed
  from this [of "(empty_result, b)"] assms(1) show ?thesis by (auto simp: ingest_def)
qed

section \<open>A proposal that arrives\<close>

definition propose_payload :: "edge \<Rightarrow> assertion \<Rightarrow> json" where
  "propose_payload e a = JObj [(''edge'', edge_json e), (''assertion'', JObj (assertion_members a))]"

lemma parse_propose_payload: "edge_schema e \<Longrightarrow> assertion_schema a \<Longrightarrow> parse_propose (propose_payload e a) = Some (e, a)"
  by (simp add: parse_propose_def propose_payload_def object_of_def required_def parse_edge_json parse_assertion_members)

lemma verify_speaks: "verify_message cl raw = Some m \<Longrightarrow> speaks_this_version raw"
  by (auto simp: verify_message_def parse_message_def speaks_this_version_def object_of_def split: option.split_asm json.split_asm if_split_asm)

text \<open>A message that carries the proposal of an edge to the persona of this inbox, signed by its owner.\<close>

definition carries_proposal :: "inbox \<Rightarrow> json \<Rightarrow> edge \<Rightarrow> assertion \<Rightarrow> bool" where
  "carries_proposal ib raw e a \<longleftrightarrow> edge_malformed (ib_lib ib) e = None \<and> e_owed_to e = ib_persona ib \<and>
     a_edge_id a = e_id e \<and> a_state a = AProposed \<and> a_by a = e_owner e \<and> assertion_signature_ok (ib_lib ib) a \<and>
     (\<exists>m. verify_message (ib_lib ib) raw = Some m \<and> wm_type m = MPropose \<and> wm_sender m = e_owner e \<and>
        wm_recipient m = ib_persona ib \<and> Option.bind (wm_payload m) parse_propose = Some (e, a))"

lemma carries_proposal_single:
  assumes "carries_proposal ib raw e a" and "v_lib vr = ib_lib ib" and "v_lineage vr = no_rotation"
  shows "cv_final_state (verify_assertion_chain vr e [a]) = SProposed \<and> cv_outcomes (verify_assertion_chain vr e [a]) = [None]"
  using assms by (intro first_proposal) (simp_all add: carries_proposal_def is_owner_key_def)

lemma carries_proposal_admitted:
  assumes "carries_proposal ib raw e a" and "edge_binding_failure (ib_lib ib) (ib_persona ib) e s = (Inr None, s)"
  shows "ingest_one ib now raw rb s = admit_proposal ib now (e_owner e) e a rb s"
proof -
  have "cv_outcomes (verify_assertion_chain \<lparr>v_lib = ib_lib ib, v_now = Some now, v_lineage = no_rotation\<rparr> e [a]) = [None]"
    using carries_proposal_single [OF assms(1)] by simp
  with assms show ?thesis
    by (auto simp: carries_proposal_def ingest_one_def ingest_message_def ingest_propose_def bind_op_def dest: verify_speaks)
qed

text \<open>First contact: the edge is new here.\<close>

definition first_contact :: "vault \<Rightarrow> persona_id \<Rightarrow> edge \<Rightarrow> bool" where
  "first_contact v p e \<longleftrightarrow> get_edge v p (e_id e) = Inr None \<and> get_assertions v p (e_id e) = Inr []"

lemma carries_proposal_binds: "carries_proposal ib raw e a \<Longrightarrow> edge_id_binds_body (ib_lib ib) e"
  by (auto simp: carries_proposal_def edge_malformed_def split: if_split_asm)

lemma proposal_is_filed:
  assumes "carries_proposal ib raw e a" and "first_contact (nd_vault s) (ib_persona ib) e" and "vault_ok (ib_lib ib) (nd_vault s)"
    and "admit_sender now (e_owner e) (ib_level ib (e_owner e)) b = (Surfaced, b')"
  obtains t where "ingest_one ib now raw (r, b) s = (Inr (r\<lparr>ig_accepted := ig_accepted r @ [(MPropose, Some (e_id e))]\<rparr>, b'), t)"
    and "filed (ib_lib ib) (ib_persona ib) e [a] s t" and "small (nd_vault s) \<Longrightarrow> small (nd_vault t)"
proof -
  let ?p = "ib_persona ib" and ?cl = "ib_lib ib"
  note binds = carries_proposal_binds [OF assms(1)]
  have i: "a_edge_id a = e_id e" using assms(1) by (simp add: carries_proposal_def)
  have new: "get_edge (nd_vault s) ?p (e_id e) = Inr None" "get_assertions (nd_vault s) ?p (e_id e) = Inr []"
    using assms(2) by (simp_all add: first_contact_def)
  have "edge_binding_failure ?cl ?p e s = (Inr None, s)"
    using binds new by (simp add: edge_binding_failure_def op_eval)
  note one = carries_proposal_admitted [OF assms(1) this, of now "(r, b)"]
  obtain v where v: "put_edge ?cl (nd_vault s) ?p e = Inr v"
    using binds new(1) by (auto simp: put_edge_def get_edge_def map_sum_Inr_iff)
  have v1: "get_edge v ?p (e_id e) = Inr (Some e)" "get_assertions v ?p (e_id e) = Inr []"
    using put_edge_reads(1,2) [OF v] new by simp_all
  obtain d where "edge_dir v ?p (e_id e) = Inr d" using v1(1) by (auto simp: get_edge_def map_sum_Inr_iff)
  with v1(2) i obtain w where w: "append_assertion v ?p a = Inr (0, w)" by (metis append_first)
  let ?t = "s\<lparr>nd_vault := w\<rparr>"
  have "ingest_one ib now raw (r, b) s = (Inr (r\<lparr>ig_accepted := ig_accepted r @ [(MPropose, Some (e_id e))]\<rparr>, b'), ?t)"
    using new assms(4) v v1(2) w
    by (simp add: one admit_proposal_def already_held_def op_eval file_proposal_def write_vault_def holds_signature_def
        store_assertion_def accept_def)
  moreover have f: "filed ?cl ?p e [] s (s\<lparr>nd_vault := v\<rparr>)" by (rule put_edge_filed [OF v assms(3)])
  have room: "chain_room v ?p (a_edge_id a)" using v1(2) i by (simp add: chain_room_def)
  have "store_assertion ?p a (s\<lparr>nd_vault := v\<rparr>) = (Inr (), ?t)" using w by (simp add: store_assertion_def write_vault_def)
  from store_appended [OF this _] f room i have "appended ?cl ?p (e_id e) [a] (s\<lparr>nd_vault := v\<rparr>) ?t" by (simp add: filed_def)
  from filed_appended [OF f this] have "filed ?cl ?p e [a] s ?t" by simp
  moreover have "small (nd_vault ?t)" if "small (nd_vault s)"
    using small_after_append [OF w small_after_put_edge [OF v that]] by simp
  ultimately show thesis using that by blast
qed

text \<open>Delivered again, it is accepted without a write and without spending the budget.\<close>

lemma proposal_redelivered:
  assumes "carries_proposal ib raw e a" and "get_edge (nd_vault s) (ib_persona ib) (e_id e) = Inr (Some e)"
    and "get_assertions (nd_vault s) (ib_persona ib) (e_id e) = Inr as" and "a_sig a \<in> set (map a_sig as)"
  shows "ingest_one ib now raw (r, b) s = (Inr (r\<lparr>ig_accepted := ig_accepted r @ [(MPropose, Some (e_id e))]\<rparr>, b), s)"
proof -
  have "edge_binding_failure (ib_lib ib) (ib_persona ib) e s = (Inr None, s)"
    using carries_proposal_binds [OF assms(1)] assms(2) by (simp add: edge_binding_failure_def op_eval)
  from carries_proposal_admitted [OF assms(1) this] assms(2-4) show ?thesis
    by (simp add: admit_proposal_def already_held_def holds_signature_def op_eval accept_def)
qed

lemma hex64_sha256_hex: "(\<And>bs. length (lib_sha256 cl bs) = 32) \<Longrightarrow> hash_canonical cl j = Some h \<Longrightarrow> hex64 h"
  by (auto simp: hash_canonical_def sha256_hex_def hex64_to_hex)

lemma commitment_key_hex64: "(\<And>bs. length (lib_sha256 cl bs) = 32) \<Longrightarrow> hex64 (commitment_key cl c)"
  by (simp add: commitment_key_def commitment_hash_eq sha256_hex_def hex64_to_hex)

lemma built_edge_schema:
  assumes "build_edge cl h p q t due = Some e" and "\<And>bs. length (lib_sha256 cl bs) = 32" and "hex64 h" and "hex64 p" and "hex64 q"
  shows "edge_schema e"
  using assms build_edge_id(1) [OF assms(1,2)] by (auto simp: edge_schema_def build_edge_def)

text \<open>The message \<^verbatim>\<open>commit\<close> leaves in the outbox carries the proposal it made.\<close>

lemma committed_carries:
  assumes "build_edge cl h p q t0 due = Some e" and "hex64 h" and "hex64 p" and "hex64 q"
    and "a_edge_id a = e_id e" "a_state a = AProposed" "a_by a = p" "a_evidence_hash a = None" "assertion_signature_ok cl a"
    and "sign_object cl (unsigned_assertion_members a) sk = Some (a_sig a)" and "signs_for cl sk p"
    and "with_signature cl (propose_message p q e a t) sk = Some ms" and "\<And>bs. length (lib_sha256 cl bs) = 32"
    and "ib_lib ib = cl" "ib_persona ib = q"
  shows "carries_proposal ib (JObj ms) e a"
proof -
  note be = build_edge_Some [OF assms(1)]
  have "sign_message cl MPropose (propose_payload e a) p q t sk = Some ms"
    using assms(12) by (simp add: sign_message_def propose_message_def propose_payload_def)
  then obtain m where m: "verify_message cl (JObj ms) = Some m" "wm_type m = MPropose" "wm_sender m = p" "wm_recipient m = q"
    "wm_payload m = Some (propose_payload e a)"
    by (rule signed_message_verifies [OF _ assms(11,3,4)]) auto
  have "assertion_schema a"
    using build_edge_id(1) [OF assms(1,13)] assms(3,5,7,8) hex128_signature [OF assms(10,11)] by (simp add: assertion_schema_def)
  with built_edge_schema [OF assms(1,13,2-4)] have "parse_propose (propose_payload e a) = Some (e, a)" by (rule parse_propose_payload)
  with m be assms(5-9,14,15) show ?thesis by (simp add: carries_proposal_def)
qed

text \<open>
  C18: a promise committed on one node arrives on the other, once. When \<^verbatim>\<open>commit\<close> proposes an edge, the message
  it leaves in the outbox, delivered to an inbox of the counterparty that has no proposal budget and holds
  nothing about the edge yet, is accepted there: the counterparty then holds the same edge with the same
  chain, proposed, and nothing else it held has changed. Delivered again, at any time, it is accepted without
  changing the node. The promise is new on the committing node too, whose persona signs with its own key, not
  rotated away; the hash is taken to have 32 bytes. (An inbox with a budget may hold the proposal of an
  unknown sender back, see \<open>strangers_stay_within_the_budget\<close>.)
\<close>

theorem committed_promise_arrives_once:
  assumes "commit cfg clk inp s = (Inr out, s')" and "co_edge_id out = Some i"
    and "resolve_persona cfg (ci_persona inp) s = (Inr p, s)" and "vault_ok cl (nd_vault s)"
    and "get_edge (nd_vault s) p i = Inr None" and "get_assertions (nd_vault s) p i = Inr []"
    and "get_persona (nd_vault s) p = Inr r" and "signs_for (nc_lib cfg) (pr_private_key r) p"
    and "verifier_for (nc_lib cfg) (nd_vault s) p None = Inr vr" and "held_by (v_lineage vr p) p (clk 0)"
    and "\<And>bs. length (lib_sha256 (nc_lib cfg) bs) = 32" and "cl = nc_lib cfg" and "hex64 p"
    and "ib_lib ib = cl" and "ci_owed_to inp = Some (ib_persona ib)" and "vault_ok cl (nd_vault u)"
    and "get_edge (nd_vault u) (ib_persona ib) i = Inr None" and "get_assertions (nd_vault u) (ib_persona ib) i = Inr []"
  shows "\<exists>e a xs item x t. list_outbox (nd_vault s') p = Inr xs \<and> item \<in> set xs \<and> ob_recipient item = ib_persona ib \<and>
    ingest ib [(now, JObj (ob_message item))] None u = (Inr (x, None), t) \<and> ig_accepted x = [(MPropose, Some i)] \<and>
    get_edge (nd_vault s') p i = Inr (Some e) \<and> get_assertions (nd_vault s') p i = Inr [a] \<and>
    filed cl (ib_persona ib) e [a] u t \<and> get_edge (nd_vault t) (ib_persona ib) i = Inr (Some e) \<and>
    get_assertions (nd_vault t) (ib_persona ib) i = Inr [a] \<and>
    cv_final_state (verify_assertion_chain \<lparr>v_lib = cl, v_now = None, v_lineage = no_rotation\<rparr> e [a]) = SProposed \<and>
    ingest ib [(later, JObj (ob_message item))] None t = (Inr (x, None), t)"
proof -
  from commit_outcome [OF assms(1-12)] obtain e a xs item where
    be: "build_edge cl (co_commitment_hash out) p (e_owed_to e) (clk 0) (ci_due inp) = Some e" and i: "e_id e = i"
    and pr: "proposable p (ci_owed_to inp) = Some (e_owed_to e)"
    and sender: "get_edge (nd_vault s') p i = Inr (Some e)" "get_assertions (nd_vault s') p i = Inr [a]"
    and a: "a_edge_id a = i" "a_state a = AProposed" "a_by a = p" "a_evidence_hash a = None" "assertion_signature_ok cl a"
    and sg: "sign_object cl (unsigned_assertion_members a) (pr_private_key r) = Some (a_sig a)"
    and box: "list_outbox (nd_vault s') p = Inr xs" "item \<in> set xs" "ob_recipient item = e_owed_to e"
    and m: "with_signature cl (propose_message p (e_owed_to e) e a (clk 1)) (pr_private_key r) = Some (ob_message item)"
    by blast
  have q: "e_owed_to e = ib_persona ib" "hex64 (ib_persona ib)" using pr assms(15) by (simp_all add: proposable_Some)
  have h: "hex64 (co_commitment_hash out)"
    using assms(1,2) by (rule commit_Proposed) (simp add: commitment_key_hex64 assms(11))
  have c: "carries_proposal ib (JObj (ob_message item)) e a"
    using committed_carries [OF be h assms(13) _ _ a(2-5) sg _ m] q a(1) i assms(8,11,12,14) by simp
  have first: "first_contact (nd_vault u) (ib_persona ib) e" using assms(17,18) i by (simp add: first_contact_def)
  obtain t where t: "ingest_one ib now (JObj (ob_message item)) (empty_result, None) u =
      (Inr (empty_result\<lparr>ig_accepted := [(MPropose, Some i)]\<rparr>, None), t)" and f: "filed cl (ib_persona ib) e [a] u t"
    by (rule proposal_is_filed [OF c first, of now None None empty_result])
      (use assms(14,16) i in \<open>auto simp: admit_sender_def empty_result_def\<close>)
  have stored: "get_edge (nd_vault t) (ib_persona ib) i = Inr (Some e)" "get_assertions (nd_vault t) (ib_persona ib) i = Inr [a]"
    using f assms(17,18) i by (simp_all add: filed_def)
  have again: "ingest_one ib later (JObj (ob_message item)) (empty_result, None) t =
      (Inr (empty_result\<lparr>ig_accepted := [(MPropose, Some i)]\<rparr>, None), t)"
    using proposal_redelivered [OF c, of t "[a]" later empty_result None] stored i by (simp add: empty_result_def)
  have "cv_final_state (verify_assertion_chain \<lparr>v_lib = cl, v_now = None, v_lineage = no_rotation\<rparr> e [a]) = SProposed"
    using carries_proposal_single [OF c, of "\<lparr>v_lib = cl, v_now = None, v_lineage = no_rotation\<rparr>"] assms(14) by simp
  with t again f stored sender box q show ?thesis
    by (intro exI [of _ e] exI [of _ a] exI [of _ xs] exI [of _ item] exI [of _ "empty_result\<lparr>ig_accepted := [(MPropose, Some i)]\<rparr>"] exI [of _ t])
      (simp add: ingest_def bind_op_def return_op_def)
qed

section \<open>Chains stay valid\<close>

lemma assert_keeps_valid:
  assumes "ingest_assert ib now sender pl (r, b) s = (Inr x, t)" and "vault_ok (ib_lib ib) (nd_vault s)" and "small (nd_vault t)"
    and "chains_valid (ib_lib ib) (Some now) (nd_vault s)"
  shows "chains_valid (ib_lib ib) (Some now) (nd_vault t)"
  using assms(1)
proof (cases rule: ingest_assert_cases)
  case 1
  with assms(4) show ?thesis by simp
next
  case (2 a e rs held)
  let ?vr = "\<lparr>v_lib = ib_lib ib, v_now = Some now, v_lineage = successor_resolver (ib_lib ib) rs\<rparr>"
  have i: "a_edge_id a = e_id e" using vault_ok_edge_id [OF assms(2) 2(2)] by simp
  have vr: "verifier_for (ib_lib ib) (nd_vault s) (ib_persona ib) (Some now) = Inr ?vr" using 2(3) by (simp add: verifier_for_def)
  have e: "get_edge (nd_vault s) (ib_persona ib) (e_id e) = Inr (Some e)" using 2(2) i by simp
  have all: "table.all_accepted ?vr e held" using assms(4) e 2(6) vr unfolding chains_valid_def by blast
  have room: "chain_room (nd_vault s) (ib_persona ib) (a_edge_id a)"
    using small_append(2) 2(8) assms(2,3) by (auto simp: store_assertion_Inr)
  have "drop (length held) (cv_outcomes (verify_assertion_chain ?vr e (held @ [a]))) = [None]"
    using 2(7) verify_length [of ?vr e "held @ [a]"] by (simp add: Cons_nth_drop_Suc [symmetric])
  with all_accepted_extend [OF all, of "[a]"] have "table.all_accepted ?vr e (held @ [a])" by (simp add: accepted_def)
  from chains_valid_appended [OF _ assms(4) e 2(6) vr this] store_appended [OF 2(8) assms(2) room] i show ?thesis by simp
qed

text \<open>A proposal of a new edge to a persona that knows no rotation, or one that is already in its chain.\<close>

definition plain_proposal :: "crypto_lib \<Rightarrow> vault \<Rightarrow> persona_id \<Rightarrow> edge \<Rightarrow> assertion \<Rightarrow> bool" where
  "plain_proposal cl v p e a \<longleftrightarrow> (first_contact v p e \<and>
       (\<exists>rs. list_rotations v p = Inr rs \<and> held_by (successor_resolver cl rs (e_owner e)) (e_owner e) (a_asserted_at a))) \<or>
     (\<exists>h as. get_edge v p (e_id e) = Inr (Some h) \<and> get_assertions v p (e_id e) = Inr as \<and> a_sig a \<in> set (map a_sig as))"

lemma propose_keeps_valid:
  assumes "proposes ib now sender e a" and "file_proposal ib e a (r, b) s = (Inr x, t)" and "vault_ok (ib_lib ib) (nd_vault s)"
    and "small (nd_vault t)" and "chains_valid (ib_lib ib) (Some now) (nd_vault s)" and "plain_proposal (ib_lib ib) (nd_vault s) (ib_persona ib) e a"
  shows "chains_valid (ib_lib ib) (Some now) (nd_vault t)"
proof -
  let ?p = "ib_persona ib" and ?cl = "ib_lib ib"
  have acc: "table.all_accepted \<lparr>v_lib = ?cl, v_now = Some now, v_lineage = no_rotation\<rparr> e [a]"
    using assms(1) by (simp add: proposes_def)
  from file_proposal_files [OF assms(2-4) first_accepted(1) [OF acc]] obtain held where
    held: "get_assertions (nd_vault s) ?p (e_id e) = Inr held"
    and f: "filed ?cl ?p e (if a_sig a \<in> set (map a_sig held) then [] else [a]) s t" by blast
  show ?thesis
    unfolding chains_valid_def
  proof (intro allI impI)
    fix q i h as vr
    assume g: "get_edge (nd_vault t) q i = Inr (Some h)" "get_assertions (nd_vault t) q i = Inr as"
      "verifier_for ?cl (nd_vault t) q (Some now) = Inr vr"
    have vr: "verifier_for ?cl (nd_vault s) q (Some now) = Inr vr" using f g(3) by (simp add: filed_def)
    show "table.all_accepted vr h as"
    proof (cases "q = ?p \<and> i = e_id e \<and> get_edge (nd_vault s) ?p (e_id e) = Inr None")
      case True
      with assms(6) held obtain rs where new: "held = []" and rs: "list_rotations (nd_vault s) ?p = Inr rs"
        and own: "held_by (successor_resolver ?cl rs (e_owner e)) (e_owner e) (a_asserted_at a)"
        by (auto simp: plain_proposal_def first_contact_def)
      have "h = e" "as = [a]" using True f g held new by (auto simp: filed_def split: if_split_asm)
      moreover have "vr = \<lparr>v_lib = ?cl, v_now = Some now, v_lineage = successor_resolver ?cl rs\<rparr>"
        using vr rs True by (simp add: verifier_for_def)
      moreover have "edge_malformed ?cl e = None"
        using acc by (auto simp: table.all_accepted_def verify_assertion_chain_def split: option.split_asm)
      ultimately show ?thesis using first_proposal [of vr e a] first_accepted [OF acc] own
        by (simp add: table.all_accepted_def is_owner_key_def)
    next
      case False
      with f g have "get_edge (nd_vault s) q i = Inr (Some h)" by (auto simp: filed_def split: if_split_asm)
      moreover have "get_assertions (nd_vault s) q i = Inr as"
        using False f g held assms(6) by (auto simp: filed_def plain_proposal_def first_contact_def map_sum_Inr_iff split: if_split_asm)
      ultimately show ?thesis using assms(5) vr unfolding chains_valid_def by blast
    qed
  qed
qed

text \<open>
  C19: whatever arrives, the stored chains stay whole. Any message that is neither a rotation (which changes
  whose signature counts, from an instant in the past) nor the proposal of an edge whose body or chain is held
  already with an assertion the chain lacks, and that, where it proposes a new edge, proposes it with a key
  the persona's record of rotations does not call retired at that time, leaves every stored chain accepted to
  the end by the transition table (\<^const>\<open>plain_proposal\<close> holds of its proposal, if it is one). What the two
  excluded proposals do is stated in \<open>second_proposal_is_stored_unjudged\<close>.
\<close>

theorem messages_keep_chains_valid:
  assumes "ingest_one ib now raw rb s = (Inr x, t)" and "vault_ok (ib_lib ib) (nd_vault s)" and "small (nd_vault t)"
    and "chains_valid (ib_lib ib) (Some now) (nd_vault s)"
    and "\<And>m. verify_message (ib_lib ib) raw = Some m \<Longrightarrow> wm_type m \<noteq> MRotation"
    and "\<And>m e a. verify_message (ib_lib ib) raw = Some m \<Longrightarrow> Option.bind (wm_payload m) parse_propose = Some (e, a) \<Longrightarrow>
      wm_type m = MPropose \<Longrightarrow> plain_proposal (ib_lib ib) (nd_vault s) (ib_persona ib) e a"
  shows "chains_valid (ib_lib ib) (Some now) (nd_vault t)"
proof (cases "speaks_this_version raw \<and> (\<exists>m. verify_message (ib_lib ib) raw = Some m \<and> wm_recipient m = ib_persona ib)")
  case False
  obtain r b where rb: "rb = (r, b)" by (cases rb)
  from False assms(1,4) show ?thesis by (auto simp: rb ingest_one_def split: if_split_asm option.split_asm)
next
  case True
  obtain r b where rb: "rb = (r, b)" by (cases rb)
  from True obtain m where m: "verify_message (ib_lib ib) raw = Some m" by blast
  with True assms(1) rb have im: "ingest_message ib now m (r, b) s = (Inr x, t)" by (auto simp: ingest_one_def)
  show ?thesis
  proof (cases "wm_type m")
    case MPropose
    with im have "ingest_propose ib now (wm_sender m) (wm_payload m) (r, b) s = (Inr x, t)" by (simp add: ingest_message_def)
    then show ?thesis
    proof (cases rule: ingest_propose_cases)
      case 1
      with assms(4) show ?thesis by simp
    next
      case (2 e a b')
      from propose_keeps_valid [OF 2(2,3) assms(2,3,4) assms(6) [OF m 2(1) MPropose]] show ?thesis .
    qed
  next
    case MAssert
    with im have "ingest_assert ib now (wm_sender m) (wm_payload m) (r, b) s = (Inr x, t)" by (simp add: ingest_message_def)
    from assert_keeps_valid [OF this assms(2-4)] show ?thesis .
  next
    case MReconResponse
    show ?thesis
    proof (cases "Option.bind (wm_payload m) parse_recon_response")
      case None
      with im MReconResponse assms(4) show ?thesis by (simp add: ingest_message_def)
    next
      case (Some ens)
      with im MReconResponse obtain y where "apply_recon_response (ib_lib ib) now (ib_persona ib) (wm_sender m) ens s = (Inr y, t)"
        by (auto simp: ingest_message_def bind_op_Inr)
      from apply_recon_reconciles [OF this assms(2,3,4)] show ?thesis by (auto simp: reconciled_def)
    qed
  qed (use im assms(4) assms(5) [OF m] in \<open>auto simp: ingest_message_def split: option.split_asm if_split_asm\<close>)
qed

section \<open>A second proposal\<close>

lemma reach_left_none: "reach vr e H c \<Longrightarrow> H \<noteq> [] \<Longrightarrow> c_state c \<noteq> SNone"
proof (induction rule: reach.induct)
  case (accept H c a c')
  from accept(2) obtain c1 where c1: "step vr e c a = Inr c1" "c_state c' = c_state c1" by (auto simp: admit_step)
  have "exit_recorded c" using reach_shape [OF accept(1)] by (simp add: shape_ok_def)
  from step_table [OF c1(1) this] c1(2) accept.IH show ?case
    by (auto elim!: table_move.cases half_act.cases dest: reach_start [OF accept(1)])
qed simp

lemma second_proposal_refused:
  assumes "table.all_accepted vr e held" and "held \<noteq> []" and "edge_malformed (v_lib vr) e = None" and "a_state a = AProposed"
  shows "\<not> table.accepts vr e held a"
proof
  assume "table.accepts vr e held a"
  with all_accepted_reach [OF assms(1,3)] obtain c c' where c: "reach vr e held c" and "admit vr e c a = Inr c'" by metis
  then obtain c1 where c1: "step vr e c a = Inr c1" by (auto simp: admit_step)
  have "exit_recorded c" using reach_shape [OF c] by (simp add: shape_ok_def)
  from step_table [OF c1 this] assms(4) reach_left_none [OF c assms(2)] show False
    by (auto elim!: table_move.cases half_act.cases)
qed

text \<open>
  The proposal of an edge whose chain has moved on, signed anew by its owner, is judged on its own and
  appended, although the table refuses it at the end of that chain.
\<close>

lemma second_proposal_is_stored_unjudged:
  assumes "carries_proposal ib raw e a" and "get_edge (nd_vault s) (ib_persona ib) (e_id e) = Inr (Some e)"
    and "get_assertions (nd_vault s) (ib_persona ib) (e_id e) = Inr held" and "held \<noteq> []" and "a_sig a \<notin> set (map a_sig held)"
    and "vault_ok (ib_lib ib) (nd_vault s)" and "length held < 10000"
    and "verifier_for (ib_lib ib) (nd_vault s) (ib_persona ib) n = Inr vr" and "table.all_accepted vr e held"
  shows "\<exists>t. ingest_one ib now raw (r, None) s = (Inr (r\<lparr>ig_accepted := ig_accepted r @ [(MPropose, Some (e_id e))]\<rparr>, None), t) \<and>
    get_assertions (nd_vault t) (ib_persona ib) (e_id e) = Inr (held @ [a]) \<and> \<not> table.all_accepted vr e (held @ [a])"
proof -
  let ?p = "ib_persona ib" and ?cl = "ib_lib ib"
  have i: "a_edge_id a = e_id e" using assms(1) by (simp add: carries_proposal_def)
  have "edge_binding_failure ?cl ?p e s = (Inr None, s)"
    using carries_proposal_binds [OF assms(1)] assms(2) by (simp add: edge_binding_failure_def op_eval)
  note one = carries_proposal_admitted [OF assms(1) this, of now "(r, None)"]
  have room: "chain_room (nd_vault s) ?p (a_edge_id a)" using assms(3,7) i by (simp add: chain_room_def)
  obtain t where st: "store_assertion ?p a s = (Inr (), t)" using store_assertion_ok [OF assms(6) room] assms(3) i by auto
  have "put_edge ?cl (nd_vault s) ?p e = Inr (nd_vault s)"
    using carries_proposal_binds [OF assms(1)] assms(2)
    by (auto simp: put_edge_def get_edge_def map_sum_Inr_iff split: option.split)
  then have "ingest_one ib now raw (r, None) s = (Inr (r\<lparr>ig_accepted := ig_accepted r @ [(MPropose, Some (e_id e))]\<rparr>, None), t)"
    using assms(2,3,5) st
    by (simp add: one admit_proposal_def already_held_def op_eval admit_sender_def file_proposal_def write_vault_def
        holds_signature_def accept_def)
  moreover have "get_assertions (nd_vault t) ?p (e_id e) = Inr (held @ [a])"
    using store_appended [OF st assms(6) room] assms(3) i by (simp add: appended_def)
  moreover have "v_lib vr = ?cl" using verifier_for_clock [OF assms(8)] by simp
  then have "\<not> table.all_accepted vr e (held @ [a])"
    using second_proposal_refused [OF assms(9,4)] assms(1) by (simp add: table.all_accepted_snoc carries_proposal_def)
  ultimately show ?thesis by blast
qed

section \<open>Alice's promise reaches Bob\<close>

theorem committed_promise_arrives_once_witness:
  "\<exists>out s' xs item i x t. commit (sample_config alice) sample_clock sample_promise (newcomer alice) = (Inr out, s') \<and>
     list_outbox (nd_vault s') alice = Inr xs \<and> item \<in> set xs \<and>
     ingest (sample_inbox bob) [(0, JObj (ob_message item))] None (newcomer bob) = (Inr (x, None), t) \<and>
     ig_accepted x = [(MPropose, Some i)] \<and> (\<exists>e. get_edge (nd_vault t) bob i = Inr (Some e))"
proof -
  obtain e :: edge and s' where h: "hex64 (e_id e)"
    and c: "commit (sample_config alice) sample_clock sample_promise (newcomer alice) =
      (Inr \<lparr>co_commitment_hash = commitment_key sample_lib (explicit_commitment alice sample_promise (sample_clock 0)),
         co_edge_id = Some (e_id e), co_state = Proposed\<rparr>, s')" by (rule newcomer_commits)
  note i = hex64_hex_id [OF h]
  have bob: "ib_lib (sample_inbox bob) = sample_lib" "ci_owed_to sample_promise = Some (ib_persona (sample_inbox bob))"
    "vault_ok sample_lib (nd_vault (newcomer bob))" "get_edge (nd_vault (newcomer bob)) (ib_persona (sample_inbox bob)) (e_id e) = Inr None"
    "get_assertions (nd_vault (newcomer bob)) (ib_persona (sample_inbox bob)) (e_id e) = Inr []"
    using newcomer_reads [of bob] i by (simp_all add: sample_inbox_def sample_promise_def)
  from committed_promise_arrives_once [OF c _ newcomer_promise(1-8) [OF h] newcomer_promise(9,10) [OF h] parties_hex64(1) bob, of 0 0]
  obtain f xs item x t where "list_outbox (nd_vault s') alice = Inr xs" "item \<in> set xs"
    "ingest (sample_inbox bob) [(0, JObj (ob_message item))] None (newcomer bob) = (Inr (x, None), t)"
    "ig_accepted x = [(MPropose, Some (e_id e))]" "get_edge (nd_vault t) bob (e_id e) = Inr (Some f)"
    by (auto simp: sample_inbox_def)
  with c show ?thesis by blast
qed

lemma sample_proposal:
  obtains raw e a where "carries_proposal (sample_inbox bob) raw e a" and "hex64 (e_id e)"
proof -
  obtain e :: edge and s' where h: "hex64 (e_id e)"
    and c: "commit (sample_config alice) sample_clock sample_promise (newcomer alice) =
      (Inr \<lparr>co_commitment_hash = commitment_key sample_lib (explicit_commitment alice sample_promise (sample_clock 0)),
         co_edge_id = Some (e_id e), co_state = Proposed\<rparr>, s')" by (rule newcomer_commits)
  let ?out = "\<lparr>co_commitment_hash = commitment_key sample_lib (explicit_commitment alice sample_promise (sample_clock 0)),
         co_edge_id = Some (e_id e), co_state = Proposed\<rparr>" and ?sk = "pr_private_key (sample_persona alice ''me'')"
  have "co_edge_id ?out = Some (e_id e)" by simp
  from commit_outcome [OF c this newcomer_promise(1-8) [OF h] newcomer_promise(9,10) [OF h]] obtain f a and item :: outbox_item where
    be': "build_edge sample_lib (co_commitment_hash ?out) alice (e_owed_to f) (sample_clock 0) (ci_due sample_promise) = Some f"
    and i: "e_id f = e_id e" and pr: "proposable alice (ci_owed_to sample_promise) = Some (e_owed_to f)"
    and a: "a_edge_id a = e_id e" "a_state a = AProposed" "a_by a = alice" "a_evidence_hash a = None" "assertion_signature_ok sample_lib a"
    and sg': "sign_object sample_lib (unsigned_assertion_members a) ?sk = Some (a_sig a)"
    and m': "with_signature sample_lib (propose_message alice (e_owed_to f) f a (sample_clock 1)) ?sk = Some (ob_message item)"
    by blast
  have sk: "?sk = alice" by (simp add: sample_persona_def)
  note be = be' [simplified] and sg = sg' [unfolded sk] and m = m' [unfolded sk]
  have bob: "e_owed_to f = bob" using pr by (simp add: proposable_Some sample_promise_def)
  have "carries_proposal (sample_inbox bob) (JObj (ob_message item)) f a"
    by (rule committed_carries [OF be _ parties_hex64(1) _ _ a(2-5) sg _ m])
      (use bob a(1) i sample_signs parties_hex64(2) in \<open>simp_all add: commitment_key_hex64 sample_lib_def sample_inbox_def\<close>)
  with that h i show thesis by metis
qed

text \<open>Bob's empty node and Alice's message, for the two properties of what arrives.\<close>

lemma sample_arrival:
  obtains raw e a t where "carries_proposal (sample_inbox bob) raw e a" and "first_contact (nd_vault (newcomer bob)) bob e"
    and "ingest_one (sample_inbox bob) 0 raw (empty_result, None) (newcomer bob) =
      (Inr (empty_result\<lparr>ig_accepted := [(MPropose, Some (e_id e))]\<rparr>, None), t)"
    and "get_edge (nd_vault t) bob (e_id e) = Inr (Some e)" and "get_assertions (nd_vault t) bob (e_id e) = Inr [a]"
    and "small (nd_vault t)"
proof -
  obtain raw e a where c: "carries_proposal (sample_inbox bob) raw e a" and h: "hex64 (e_id e)" by (rule sample_proposal)
  have new: "first_contact (nd_vault (newcomer bob)) (ib_persona (sample_inbox bob)) e"
    using newcomer_reads(3,4) [of bob] hex64_hex_id [OF h] by (simp add: first_contact_def sample_inbox_def)
  have ok: "vault_ok (ib_lib (sample_inbox bob)) (nd_vault (newcomer bob))" using newcomer_reads(2) by (simp add: sample_inbox_def)
  show thesis
    by (rule proposal_is_filed [OF c new ok, of 0 None None empty_result])
      (use that [OF c] new newcomer_reads(7) [of bob] in
        \<open>auto simp: admit_sender_def filed_def sample_inbox_def first_contact_def empty_result_def\<close>)
qed

theorem edge_appears_only_when_its_owner_proposes_it_witness:
  "\<exists>raws x t e. ingest (sample_inbox bob) raws None (newcomer bob) = (Inr (x, None), t) \<and>
     get_edge (nd_vault t) bob (e_id e) = Inr (Some e) \<and> proposed_here (sample_inbox bob) raws (nd_vault t) e"
proof -
  obtain raw e a t where a: "ingest_one (sample_inbox bob) 0 raw (empty_result, None) (newcomer bob) =
      (Inr (empty_result\<lparr>ig_accepted := [(MPropose, Some (e_id e))]\<rparr>, None), t)"
    "get_edge (nd_vault t) bob (e_id e) = Inr (Some e)" "small (nd_vault t)" by (rule sample_arrival)
  then have i: "ingest (sample_inbox bob) [(0, raw)] None (newcomer bob) =
      (Inr (empty_result\<lparr>ig_accepted := [(MPropose, Some (e_id e))]\<rparr>, None), t)"
    by (simp add: ingest_def bind_op_def return_op_def)
  have ok: "vault_ok (ib_lib (sample_inbox bob)) (nd_vault (newcomer bob))" using newcomer_reads(2) by (simp add: sample_inbox_def)
  have "get_edge (nd_vault (newcomer bob)) bob (e_id e) \<noteq> Inr (Some e)" using newcomer_reads(8) by blast
  with edge_appears_only_when_its_owner_proposes_it [OF i ok a(3), of bob "e_id e" e] a i show ?thesis by blast
qed

theorem messages_keep_chains_valid_witness:
  "\<exists>raw x t. ingest_one (sample_inbox bob) 0 raw (empty_result, None) (newcomer bob) = (Inr x, t) \<and>
     ig_accepted (fst x) \<noteq> [] \<and> chains_valid sample_lib (Some 0) (nd_vault t)"
proof -
  obtain raw e a t where c: "carries_proposal (sample_inbox bob) raw e a" and new: "first_contact (nd_vault (newcomer bob)) bob e"
    and a: "ingest_one (sample_inbox bob) 0 raw (empty_result, None) (newcomer bob) =
      (Inr (empty_result\<lparr>ig_accepted := [(MPropose, Some (e_id e))]\<rparr>, None), t)" "small (nd_vault t)" by (rule sample_arrival)
  have ok: "vault_ok (ib_lib (sample_inbox bob)) (nd_vault (newcomer bob))" using newcomer_reads(2) by (simp add: sample_inbox_def)
  have valid: "chains_valid (ib_lib (sample_inbox bob)) (Some 0) (nd_vault (newcomer bob))"
    using newcomer_reads(8) [of bob] by (simp add: chains_valid_def)
  have one: "wm_type m \<noteq> MRotation" if "verify_message (ib_lib (sample_inbox bob)) raw = Some m" for m
    using that c by (auto simp: carries_proposal_def)
  have two: "plain_proposal (ib_lib (sample_inbox bob)) (nd_vault (newcomer bob)) (ib_persona (sample_inbox bob)) f b"
    if "verify_message (ib_lib (sample_inbox bob)) raw = Some m" "Option.bind (wm_payload m) parse_propose = Some (f, b)" for m f b
    using that c new newcomer_reads(5) [of bob] by (auto simp: carries_proposal_def plain_proposal_def sample_inbox_def successor_resolver_def held_by_def no_rotation_def)
  have "chains_valid (ib_lib (sample_inbox bob)) (Some 0) (nd_vault t)"
    by (rule messages_keep_chains_valid [OF a(1) ok a(2) valid], erule one, erule two, assumption)
  with a(1) show ?thesis
    by (intro exI conjI) (assumption, simp_all add: sample_inbox_def)
qed

end
