(* ===== verification/RestoreClaims.thy ===== *)
theory RestoreClaims
  imports Recovery ShareClaims InboxClaims
begin

text \<open>
  Recovery from both ends: what a counterparty answers to a persona that lost its vault, applied on that
  persona's new node, brings back every edge with its chain.
\<close>

section \<open>Storing what is restored\<close>

text \<open>A restored chain is stored as a reconciled one is.\<close>

lemma restore_as_apply:
  "restore_outcomes p i k xs r s = (Inr r', t) \<Longrightarrow> (\<exists>x. apply_outcomes p i k xs r0 s = (Inr x, t)) \<and> rr_restored r' = rr_restored r"
proof (induction p i k xs r arbitrary: s r0 rule: restore_outcomes.induct)
  case (2 p i k a out rest r)
  then show ?case by (cases out) (auto simp: bind_op_Inr)
qed auto

lemma restore_accepted:
  "apply_outcomes p i k (zip as (replicate (length as) None)) r0 s = (Inr x, t) \<Longrightarrow>
     restore_outcomes p i k (zip as (replicate (length as) None)) r s = (Inr r, t)"
proof (induction as arbitrary: k r0 s)
  case (Cons a as)
  then obtain s1 where "store_assertion p a s = (Inr (), s1)"
    "apply_outcomes p i (Suc k) (zip as (replicate (length as) None)) (r0\<lparr>rc_accepted := rc_accepted r0 @ [a]\<rparr>) s1 = (Inr x, t)"
    by (auto simp: bind_op_Inr)
  with Cons.IH show ?case by (simp add: bind_op_def)
qed (simp add: return_op_def)

text \<open>
  What comes back: the edge binds and names the persona, its chain is a proposal and what the table accepted
  after it, in the order of its times.
\<close>

definition restorable :: "crypto_lib \<Rightarrow> int \<Rightarrow> persona_id \<Rightarrow> edge \<Rightarrow> assertion list \<Rightarrow> bool" where
  "restorable cl now p e as \<longleftrightarrow> edge_id_binds_body cl e \<and> is_party e p \<and> as \<noteq> [] \<and> length as \<le> 10000 \<and>
     table.all_accepted \<lparr>v_lib = cl, v_now = Some now, v_lineage = no_rotation\<rparr> e as \<and>
     sorted (map (\<lambda>a. ms_of (a_asserted_at a)) as)"

lemma restorable_proposed:
  assumes "restorable cl now p e as"
  shows "proposed_by_owner e (zip as (replicate (length as) None))"
proof -
  from assms obtain a bs where as: "as = [a] @ bs" by (cases as) (auto simp: restorable_def)
  with assms have "table.all_accepted \<lparr>v_lib = cl, v_now = Some now, v_lineage = no_rotation\<rparr> e [a]"
    using table.all_accepted_prefix by (metis restorable_def)
  from first_accepted(2,3) [OF this] show ?thesis by (simp add: as proposed_by_owner_def)
qed

lemma restorable_ids: "restorable cl now p e as \<Longrightarrow> \<forall>a \<in> set as. a_edge_id a = e_id e"
proof
  fix a assume r: "restorable cl now p e as" and a: "a \<in> set as"
  let ?vr = "\<lparr>v_lib = cl, v_now = Some now, v_lineage = no_rotation\<rparr>"
  have "accepted (cv_outcomes (verify_assertion_chain ?vr e as)) as = as"
    using r outcomes_of_accepted [of ?vr e as] by (simp add: restorable_def accepted_replicate)
  with a accepted_edge_id [of a ?vr e as] show "a_edge_id a = e_id e" by simp
qed

lemma restore_edge_files:
  assumes "restorable cl now p e as" and "first_contact (nd_vault s) p e" and "vault_ok cl (nd_vault s)"
  shows "\<exists>t. restore_edge cl now p no_rotation (e, as) r s = (Inr (r\<lparr>rr_restored := rr_restored r @ [e_id e]\<rparr>), t) \<and> filed cl p e as s t"
proof -
  have new: "get_edge (nd_vault s) p (e_id e) = Inr None" "get_assertions (nd_vault s) p (e_id e) = Inr []"
    using assms(2) by (simp_all add: first_contact_def)
  have binds: "edge_id_binds_body cl e" and party: "is_party_or_successor e p no_rotation"
    using assms(1) by (simp_all add: restorable_def is_party_or_successor_def)
  have unbound: "edge_binding_failure cl p e s = (Inr None, s)"
    using binds new by (simp add: edge_binding_failure_def op_eval)
  have order: "in_wire_order as = as" using assms(1) by (simp add: in_wire_order_def restorable_def sort_key_id_if_sorted)
  have outs: "cv_outcomes (verify_assertion_chain \<lparr>v_lib = cl, v_now = Some now, v_lineage = no_rotation\<rparr> e as) = replicate (length as) None"
    using assms(1) by (simp add: restorable_def outcomes_of_accepted)
  obtain v where v: "put_edge cl (nd_vault s) p e = Inr v"
    using binds new(1) by (auto simp: put_edge_def get_edge_def map_sum_Inr_iff)
  note f = put_edge_filed [OF v assms(3)]
  let ?s = "s\<lparr>nd_vault := v\<rparr>"
  have ok: "vault_ok cl (nd_vault ?s)" "get_assertions (nd_vault ?s) p (e_id e) = Inr []"
    using f put_edge_reads(2) [OF v] new by (simp_all add: filed_def)
  have "length [] + length as \<le> 10000" using assms(1) by (simp add: restorable_def)
  from apply_outcomes_ok [OF ok this restorable_ids [OF assms(1)]]
  obtain x t where app: "apply_outcomes p (e_id e) 0 (zip as (replicate (length as) None)) \<lparr>rc_accepted = [], rc_discarded = [], rc_ignored = []\<rparr> ?s = (Inr x, t)"
    and st: "appended cl p (e_id e) as ?s t" by blast
  have "restore_chain cl now p no_rotation e as r s = (Inr (r\<lparr>rr_restored := rr_restored r @ [e_id e]\<rparr>), t)"
    using new restorable_proposed [OF assms(1)] v restore_accepted [OF app, of r]
    by (simp add: restore_chain_def op_eval Let_def order outs write_vault_def)
  then have "restore_edge cl now p no_rotation (e, as) r s = (Inr (r\<lparr>rr_restored := rr_restored r @ [e_id e]\<rparr>), t)"
    using party unbound by (simp add: restore_edge_def bind_op_def)
  moreover have "filed cl p e as s t" using filed_appended [OF f st] by simp
  ultimately show ?thesis by blast
qed

lemma filed_first_contact: "filed cl p e as s t \<Longrightarrow> e_id f \<noteq> e_id e \<Longrightarrow> first_contact (nd_vault t) p f = first_contact (nd_vault s) p f"
  by (simp add: filed_def first_contact_def)

lemma restore_edges_file:
  assumes "\<forall>(e, as) \<in> set eas. restorable cl now p e as \<and> first_contact (nd_vault s) p e" and "vault_ok cl (nd_vault s)"
    and "distinct (map (\<lambda>(e, as). e_id e) eas)"
  shows "\<exists>t. restore_edges cl now p no_rotation eas r s = (Inr (r\<lparr>rr_restored := rr_restored r @ map (\<lambda>(e, as). e_id e) eas\<rparr>), t) \<and>
    (\<forall>(e, as) \<in> set eas. get_edge (nd_vault t) p (e_id e) = Inr (Some e) \<and> get_assertions (nd_vault t) p (e_id e) = Inr as) \<and>
    (\<forall>i. i \<notin> set (map (\<lambda>(e, as). e_id e) eas) \<longrightarrow> get_edge (nd_vault t) p i = get_edge (nd_vault s) p i \<and>
       get_assertions (nd_vault t) p i = get_assertions (nd_vault s) p i)"
  using assms
proof (induction eas arbitrary: r s)
  case Nil
  then show ?case by (simp add: return_op_def)
next
  case (Cons ea eas)
  obtain e as where ea: "ea = (e, as)" by (cases ea)
  with Cons.prems have "restorable cl now p e as" "first_contact (nd_vault s) p e" by simp_all
  from restore_edge_files [OF this Cons.prems(2), of r] obtain u where
    one: "restore_edge cl now p no_rotation (e, as) r s = (Inr (r\<lparr>rr_restored := rr_restored r @ [e_id e]\<rparr>), u)"
    and f: "filed cl p e as s u" by blast
  have "\<forall>(g, bs) \<in> set eas. restorable cl now p g bs \<and> first_contact (nd_vault u) p g"
    using Cons.prems(1,3) filed_first_contact [OF f] ea by (fastforce simp: image_iff)
  moreover have "vault_ok cl (nd_vault u)" using f by (simp add: filed_def)
  ultimately obtain t where
    rest: "restore_edges cl now p no_rotation eas (r\<lparr>rr_restored := rr_restored r @ [e_id e]\<rparr>) u =
        (Inr (r\<lparr>rr_restored := (rr_restored r @ [e_id e]) @ map (\<lambda>(e, as). e_id e) eas\<rparr>), t)"
      "\<forall>(e, as) \<in> set eas. get_edge (nd_vault t) p (e_id e) = Inr (Some e) \<and> get_assertions (nd_vault t) p (e_id e) = Inr as"
      "\<forall>i. i \<notin> set (map (\<lambda>(e, as). e_id e) eas) \<longrightarrow> get_edge (nd_vault t) p i = get_edge (nd_vault u) p i \<and>
         get_assertions (nd_vault t) p i = get_assertions (nd_vault u) p i"
    using Cons.IH [of u "r\<lparr>rr_restored := rr_restored r @ [e_id e]\<rparr>"] Cons.prems(3) by auto
  have new: "get_edge (nd_vault u) p (e_id e) = Inr (Some e)" "get_assertions (nd_vault u) p (e_id e) = Inr as"
    using f \<open>first_contact (nd_vault s) p e\<close> by (simp_all add: filed_def first_contact_def)
  have "e_id e \<notin> set (map (\<lambda>(e, as). e_id e) eas)" using Cons.prems(3) ea by simp
  with rest new one f ea show ?case
    by (intro exI [of _ t]) (auto simp: bind_op_def filed_def)
qed

section \<open>Both ends\<close>

lemma collect_keys:
  assumes "collect_op f xs s = (Inr ys, s')" and "\<And>x r t. f x s = (r, t) \<Longrightarrow> t = s"
    and "\<And>x y t. x \<in> set xs \<Longrightarrow> f x s = (Inr (Some y), t) \<Longrightarrow> key y = x"
  shows "set (map key ys) \<subseteq> set xs \<and> (distinct xs \<longrightarrow> distinct (map key ys))"
  using assms(1,3)
proof (induction xs arbitrary: ys)
  case Nil
  then show ?case by simp
next
  case (Cons x xs)
  from Cons.prems(1) obtain z s1 zs where z: "f x s = (Inr z, s1)" and zs: "collect_op f xs s1 = (Inr zs, s')"
    and ys: "ys = (case z of None \<Rightarrow> zs | Some y \<Rightarrow> y # zs)" by (auto simp: bind_op_Inr)
  have "s1 = s" by (rule assms(2) [OF z])
  with Cons.IH [of zs] zs Cons.prems(2) have sub: "set (map key zs) \<subseteq> set xs \<and> (distinct xs \<longrightarrow> distinct (map key zs))" by simp
  show ?case
  proof (cases z)
    case None
    with ys sub show ?thesis by auto
  next
    case (Some y)
    with Cons.prems(2) z have "key y = x" by simp
    with Some ys sub show ?thesis by auto
  qed
qed

lemma answered_edges_distinct:
  assumes "answer_recover cl now q rq st s = (Inr (v, es, st'), s')" and "vault_ok cl' (nd_vault s)"
  shows "distinct (map (\<lambda>(e, as). e_id e) es)"
proof (cases "es = []")
  case False
  with assms(1) obtain k pred x s1 where vr: "verify_request cl q rq st s = (Inr (RecoveryVerified k pred, x), s1)"
    using answer_Refused by metis
  let ?ids = "k # (case pred of None \<Rightarrow> [] | Some old \<Rightarrow> [old])"
  from assms(1) vr verify_request_Verified [OF vr] obtain ids where
    ids: "list_edge_ids (nd_vault s) q = Inr ids" and c: "collect_op (recovered_edge cl now q ?ids) ids s = (Inr es, s')"
    by (auto simp: answer_recover_def op_returns)
  have "set (map (\<lambda>(e, as). e_id e) es) \<subseteq> set ids \<and> (distinct ids \<longrightarrow> distinct (map (\<lambda>(e, as). e_id e) es))"
  proof (rule collect_keys [OF c])
    show "t = s" if "recovered_edge cl now q ?ids i s = (r, t)" for i r t
      using quiet.keepsD [OF quiet_recovered that] by simp
    show "(\<lambda>(e, as). e_id e) y = i" if "recovered_edge cl now q ?ids i s = (Inr (Some y), t)" for i y t
      using that recovered_edge_Some [of cl now q ?ids i s "fst y" "snd y" t] vault_ok_edge_id [OF assms(2), of q i "fst y"]
      by (auto simp: case_prod_unfold)
  qed
  moreover have "distinct ids"
  proof -
    from ids obtain ps where ps: "require_persona (nd_vault s) q = Inr ps" "ids = dir_names (ps_edges ps)"
      by (auto simp: list_edge_ids_def map_sum_Inr_iff)
    then have "store_ok cl' q ps" using assms(2) by (auto simp: vault_ok_def require_persona_Inr)
    then show ?thesis using ps(2) by (simp add: store_ok_def distinct_dir_names)
  qed
  ultimately show ?thesis by blast
qed simp

text \<open>
  C20: a lost vault comes back. The answer of a responder to a persona that recovers, applied on a node of
  that persona that holds none of those edges and knows no rotation, is restored whole: every edge with the
  very chain the responder holds, nothing discarded, and no other edge or chain changed. Each edge answered is
  asked to be \<^const>\<open>restorable\<close>: its identifier binds its body, the recovering key itself is a party of it, and
  its chain is not empty, holds at most ten thousand assertions in the order of their times and is accepted by
  the table with no rotation in force. (What was signed by a rotated key, or is accepted in another order, a
  node without the rotation, or in wire order, may discard.)
\<close>

theorem lost_vault_comes_back:
  assumes "answer_recover cl now q rq st s = (Inr (v, es, st'), s')" and "vault_ok cl (nd_vault s)"
    and "set es \<subseteq> {(e, as). restorable cl later p e as \<and> first_contact (nd_vault u) p e}"
    and "vault_ok cl (nd_vault u)" and "list_rotations (nd_vault u) p = Inr []"
  shows "\<exists>t. apply_recover_response cl later p es u = (Inr \<lparr>rr_restored = map (\<lambda>(e, as). e_id e) es, rr_discarded = []\<rparr>, t) \<and>
    set es \<subseteq> {(e, as). get_edge (nd_vault t) p (e_id e) = Inr (Some e) \<and> get_assertions (nd_vault t) p (e_id e) = Inr as} \<and>
    (\<forall>i. i \<notin> set (map (\<lambda>(e, as). e_id e) es) \<longrightarrow>
       get_edge (nd_vault t) p i = get_edge (nd_vault u) p i \<and> get_assertions (nd_vault t) p i = get_assertions (nd_vault u) p i)"
proof -
  have "\<forall>(e, as) \<in> set es. restorable cl later p e as \<and> first_contact (nd_vault u) p e" using assms(3) by auto
  from restore_edges_file [OF this assms(4) answered_edges_distinct [OF assms(1,2)], of "\<lparr>rr_restored = [], rr_discarded = []\<rparr>"]
  obtain t where "restore_edges cl later p no_rotation es \<lparr>rr_restored = [], rr_discarded = []\<rparr> u =
      (Inr \<lparr>rr_restored = map (\<lambda>(e, as). e_id e) es, rr_discarded = []\<rparr>, t)"
    "\<forall>(e, as) \<in> set es. get_edge (nd_vault t) p (e_id e) = Inr (Some e) \<and> get_assertions (nd_vault t) p (e_id e) = Inr as"
    "\<forall>i. i \<notin> set (map (\<lambda>(e, as). e_id e) es) \<longrightarrow>
       get_edge (nd_vault t) p i = get_edge (nd_vault u) p i \<and> get_assertions (nd_vault t) p i = get_assertions (nd_vault u) p i"
    by auto
  with assms(5) show ?thesis
    by (intro exI [of _ t]) (auto simp: apply_recover_response_def party_lineage_def op_eval successor_resolver_def)
qed

text \<open>Bob holds the confirmed edge; Alice, on a new node, proves who she is and gets it back.\<close>

theorem lost_vault_comes_back_witness:
  "\<exists>ch sg st st' t. answer_recover sample_lib (ms_of (jan 10)) bob (alice_asks ch sg) st (holder bob held_files) =
      (Inr (RecoveryVerified alice None, [(held_edge, sample_opening held_edge)], st'), holder bob held_files) \<and>
    apply_recover_response sample_lib (ms_of (jan 20)) alice [(held_edge, sample_opening held_edge)] (newcomer alice) =
      (Inr \<lparr>rr_restored = [e_id held_edge], rr_discarded = []\<rparr>, t)"
proof -
  obtain sg where "sign_object sample_lib [(''challenge'', JStr ''c'')] alice = Some sg"
    by (rule sign_object_defined [OF sample_signs [of alice]]) (auto simp: json_depth_le simp del: json_depth.simps(1,2))
  then have "with_signature sample_lib [(''challenge'', JStr ''c'')] alice = Some [(''challenge'', JStr ''c''), (''sig'', JStr sg)]"
    by (simp add: with_signature_def)
  from verify_with_signature [OF sample_signs this] have signed: "challenge_signed sample_lib ''c'' sg alice"
    by (simp add: challenge_signed_def)
  have "''c'' \<in> set (re_issued \<lparr>re_issued = [''c''], re_counter = 1\<rparr>)" by simp
  note a = bob_recovers_alice [OF signed this, of "ms_of (jan 10)"]
  have bob: "vault_ok sample_lib (nd_vault (holder bob held_files))" by (simp add: holder_ok held_files_ok)
  have eq: "sample_verifier\<lparr>v_now := Some (ms_of (jan 20))\<rparr> = \<lparr>v_lib = sample_lib, v_now = Some (ms_of (jan 20)), v_lineage = no_rotation\<rparr>"
    by (simp add: sample_verifier_def clockless_def)
  note acc = lagging_node(3) [of "Some (ms_of (jan 20))", unfolded eq append_Nil]
  have "restorable sample_lib (ms_of (jan 20)) alice held_edge (sample_opening held_edge)"
    unfolding restorable_def using acc lagging_node(4,5) sample_edge_binds
    by (intro conjI) (simp_all add: held_edge_def is_party_def sample_opening_def)
  moreover have "first_contact (nd_vault (newcomer alice)) alice held_edge"
    using newcomer_reads(3,4) [of alice] hex64_hex_id [OF held_edge_id] by (simp add: first_contact_def)
  ultimately have "set [(held_edge, sample_opening held_edge)] \<subseteq>
      {(e, as). restorable sample_lib (ms_of (jan 20)) alice e as \<and> first_contact (nd_vault (newcomer alice)) alice e}" by simp
  from lost_vault_comes_back [OF a bob this] newcomer_reads(2,5) [of alice] a show ?thesis by auto
qed

end
