(* ===== verification/Delivery.thy ===== *)
theory Delivery
  imports InboxLaws
begin

text \<open>
  The federated node: \<^verbatim>\<open>packages/federation/src/federated-node.ts\<close> over the interface of
  \<^verbatim>\<open>transport.ts\<close>. The couriers are a parameter: which one reaches whom, and what each call of one
  answers. The state is the node together with what the object remembers (what it has handed over) and,
  for the statements about it, the calls it has made of its couriers, in order. The clocks are read in
  sequence: \<open>fd_ticks\<close> counts the readings.
\<close>

section \<open>Couriers, state and operations\<close>

text \<open>The identity of a \<^verbatim>\<open>Transport\<close> object.\<close>

type_synonym courier = string

text \<open>
  \<open>cn_send n\<close> and \<open>cn_sync n\<close> are what the courier answers when it is the \<open>n\<close>-th call: nothing, or the message of
  the exception it throws.
\<close>

record courier_net =
  cn_home :: courier
  cn_route :: "persona_id \<Rightarrow> courier option"
  cn_kind :: "courier \<Rightarrow> string"
  cn_send :: "nat \<Rightarrow> courier \<Rightarrow> persona_id \<Rightarrow> wire_message \<Rightarrow> string option"
  cn_sync :: "nat \<Rightarrow> courier \<Rightarrow> string option"
  cn_receive :: "nat \<Rightarrow> courier \<Rightarrow> persona_id \<Rightarrow> (string, json list) result"

datatype courier_call =
    Handed courier persona_id wire_message "string option"
  | Flushed courier "string option"
  | Collected courier persona_id

text \<open>Why one message could not be handed over; \<open>fc_words\<close> is the wording of the exception.\<close>

datatype send_error =
    SignedForAnother persona_id
  | NoCourierReaches persona_id
  | CourierRefuses string
  | MessageNotCanonical
  | CannotSign node_error

record fed_config =
  fc_lib :: crypto_lib
  fc_persona :: persona_id
  fc_net :: courier_net
  fc_clk :: "nat \<Rightarrow> rfc3339"
  fc_wall :: "nat \<Rightarrow> int"
  fc_level :: "persona_id \<Rightarrow> nat"
  fc_words :: "send_error \<Rightarrow> string"

record federated =
  fd_node :: node
  fd_budget :: "budget option"
  fd_sent :: "sha256_hex list"
  fd_sent_assertions :: "signature_hex list"
  fd_ticks :: nat
  fd_calls :: "courier_call list"

record delivery_failure =
  df_outbox_id :: "sha256_hex option"
  df_recipient :: persona_id
  df_message_type :: message_type
  df_transport :: "string option"
  df_reason :: string

datatype fed_error =
    NodeStopped node_error
  | CourierStopped string
  | SendStopped send_error
  | OutboundDelivery nat "delivery_failure list"

type_synonym ('e, 'a) fed_op = "federated \<Rightarrow> ('e, 'a) result \<times> federated"

definition return_fed :: "'a \<Rightarrow> ('e, 'a) fed_op" where
  "return_fed x = (\<lambda>s. (Inr x, s))"

definition throw_fed :: "'e \<Rightarrow> ('e, 'a) fed_op" where
  "throw_fed e = (\<lambda>s. (Inl e, s))"

definition bind_fed :: "('e, 'a) fed_op \<Rightarrow> ('a \<Rightarrow> ('e, 'b) fed_op) \<Rightarrow> ('e, 'b) fed_op" where
  "bind_fed m f = (\<lambda>s. case m s of (Inl e, s') \<Rightarrow> (Inl e, s') | (Inr x, s') \<Rightarrow> f x s')"

text \<open>\<^verbatim>\<open>try\<close>: the outcome as a value. An operation of the node within the federated node.\<close>

definition attempt :: "('e, 'a) fed_op \<Rightarrow> ('f, ('e, 'a) result) fed_op" where
  "attempt m = (\<lambda>s. case m s of (r, s') \<Rightarrow> (Inr r, s'))"

definition on_node :: "(node_error \<Rightarrow> 'e) \<Rightarrow> 'a node_op \<Rightarrow> ('e, 'a) fed_op" where
  "on_node f m = (\<lambda>s. case m (fd_node s) of (r, d) \<Rightarrow> (map_sum f id r, s\<lparr>fd_node := d\<rparr>))"

definition read_clock :: "fed_config \<Rightarrow> ('e, rfc3339) fed_op" where
  "read_clock cfg = (\<lambda>s. (Inr (fc_clk cfg (fd_ticks s)), s\<lparr>fd_ticks := Suc (fd_ticks s)\<rparr>))"

text \<open>The wall clock of the vault, read once for each of \<open>k\<close> messages.\<close>

definition read_wall :: "fed_config \<Rightarrow> nat \<Rightarrow> ('e, int list) fed_op" where
  "read_wall cfg k = (\<lambda>s. (Inr (map (fc_wall cfg) [fd_ticks s ..< fd_ticks s + k]), s\<lparr>fd_ticks := fd_ticks s + k\<rparr>))"

text \<open>The calls of a courier; each is recorded with its answer.\<close>

definition call_send :: "fed_config \<Rightarrow> courier \<Rightarrow> persona_id \<Rightarrow> wire_message \<Rightarrow> ('e, string option) fed_op" where
  "call_send cfg t r m = (\<lambda>s.
     let out = cn_send (fc_net cfg) (length (fd_calls s)) t r m
     in (Inr out, s\<lparr>fd_calls := fd_calls s @ [Handed t r m out]\<rparr>))"

definition call_sync :: "fed_config \<Rightarrow> courier \<Rightarrow> ('e, string option) fed_op" where
  "call_sync cfg t = (\<lambda>s.
     let out = cn_sync (fc_net cfg) (length (fd_calls s)) t
     in (Inr out, s\<lparr>fd_calls := fd_calls s @ [Flushed t out]\<rparr>))"

definition call_receive :: "fed_config \<Rightarrow> courier \<Rightarrow> ('e, (string, json list) result) fed_op" where
  "call_receive cfg t = (\<lambda>s.
     (Inr (cn_receive (fc_net cfg) (length (fd_calls s)) t (fc_persona cfg)),
      s\<lparr>fd_calls := fd_calls s @ [Collected t (fc_persona cfg)]\<rparr>))"

section \<open>Signing and handing over\<close>

definition sign_wire :: "fed_config \<Rightarrow> message_type \<Rightarrow> persona_id \<Rightarrow> json \<Rightarrow> (send_error, wire_message) fed_op" where
  "sign_wire cfg ty recipient payload =
     bind_fed (read_clock cfg) (\<lambda>tm.
     bind_fed (on_node CannotSign (private_key_of (fc_persona cfg))) (\<lambda>sk.
       let m = \<lparr>wm_type = ty, wm_payload = Some payload, wm_sender = fc_persona cfg, wm_recipient = recipient,
                wm_sent_at = tm, wm_sig = []\<rparr>
       in case sign_object (fc_lib cfg) (unsigned_message_members m) sk of
            None \<Rightarrow> throw_fed (CannotSign SigningFailure)
          | Some sg \<Rightarrow> return_fed (m\<lparr>wm_sig := sg\<rparr>)))"

definition note_sent :: "sha256_hex \<Rightarrow> ('e, unit) fed_op" where
  "note_sent i = (\<lambda>s. (Inr (), s\<lparr>fd_sent := i # fd_sent s\<rparr>))"

text \<open>\<^verbatim>\<open>emit\<close>: the courier that accepted the message, or \<open>None\<close> when this content address was handed over before.\<close>

definition emit :: "fed_config \<Rightarrow> persona_id \<Rightarrow> wire_message \<Rightarrow> (send_error, courier option) fed_op" where
  "emit cfg r m =
     (if wm_recipient m \<noteq> r then throw_fed (SignedForAnother (wm_recipient m))
      else case message_id (fc_lib cfg) m of
        None \<Rightarrow> throw_fed MessageNotCanonical
      | Some i \<Rightarrow> (\<lambda>s.
          if i \<in> set (fd_sent s) then return_fed None s
          else case cn_route (fc_net cfg) r of
            None \<Rightarrow> throw_fed (NoCourierReaches r) s
          | Some t \<Rightarrow>
              bind_fed (call_send cfg t r m) (\<lambda>out.
                case out of
                  Some why \<Rightarrow> throw_fed (CourierRefuses why)
                | None \<Rightarrow> bind_fed (note_sent i) (\<lambda>_. return_fed (Some t))) s))"

definition failure_of :: "fed_config \<Rightarrow> sha256_hex option \<Rightarrow> persona_id \<Rightarrow> message_type \<Rightarrow> send_error \<Rightarrow> delivery_failure" where
  "failure_of cfg oid r ty err =
     \<lparr>df_outbox_id = oid, df_recipient = r, df_message_type = ty,
      df_transport = (case err of NoCourierReaches _ \<Rightarrow> None | _ \<Rightarrow> map_option (cn_kind (fc_net cfg)) (cn_route (fc_net cfg) r)),
      df_reason = fc_words cfg err\<rparr>"

text \<open>\<^verbatim>\<open>vault.recordOutboxDelivery\<close> on the persona of this node.\<close>

definition patch_delivery :: "fed_config \<Rightarrow> outbox_item \<Rightarrow> (outbox_delivery \<Rightarrow> outbox_delivery) \<Rightarrow> (fed_error, unit) fed_op" where
  "patch_delivery cfg item patch =
     on_node NodeStopped (write_vault (\<lambda>v. map_sum id snd (record_outbox_delivery v (fc_persona cfg) (ob_id item) patch)))"

definition is_unroutable :: "send_error \<Rightarrow> bool" where
  "is_unroutable err \<longleftrightarrow> (case err of NoCourierReaches _ \<Rightarrow> True | _ \<Rightarrow> False)"

definition note_failure :: "fed_config \<Rightarrow> outbox_item \<Rightarrow> send_error \<Rightarrow> (fed_error, unit) fed_op" where
  "note_failure cfg item err =
     bind_fed (read_clock cfg) (\<lambda>tm.
       let was = ob_delivery item in
       patch_delivery cfg item (\<lambda>d. d\<lparr>od_attempts := Suc (od_attempts was), od_last_attempt_at := Some tm,
         od_last_error := Some (fc_words cfg err),
         od_unroutable_since :=
           (if is_unroutable err then Some (case od_unroutable_since was of None \<Rightarrow> tm | Some t \<Rightarrow> t) else None)\<rparr>))"

section \<open>push\<close>

record handed_over =
  ho_item :: "outbox_item option"
  ho_recipient :: persona_id
  ho_type :: message_type
  ho_courier :: courier

record push_log =
  pl_failures :: "delivery_failure list"
  pl_handed :: "handed_over list"

definition log_failure :: "delivery_failure \<Rightarrow> push_log \<Rightarrow> push_log" where
  "log_failure f l = l\<lparr>pl_failures := pl_failures l @ [f]\<rparr>"

definition log_handed :: "outbox_item option \<Rightarrow> persona_id \<Rightarrow> message_type \<Rightarrow> courier option \<Rightarrow> push_log \<Rightarrow> push_log" where
  "log_handed item r ty t l =
     (case t of None \<Rightarrow> l
      | Some c \<Rightarrow> l\<lparr>pl_handed := pl_handed l @ [\<lparr>ho_item = item, ho_recipient = r, ho_type = ty, ho_courier = c\<rparr>]\<rparr>)"

text \<open>\<^verbatim>\<open>message.payload?.assertion?.sig\<close>, when it is a string.\<close>

definition carried_signature :: "wire_message \<Rightarrow> string option" where
  "carried_signature m =
     Option.bind (wm_payload m) (\<lambda>j. Option.bind (object_of (\<lambda>ms. map_of ms ''assertion'') j) (string_member ''sig''))"

definition note_assertion :: "string option \<Rightarrow> ('e, unit) fed_op" where
  "note_assertion sg = (\<lambda>s. (Inr (), case sg of None \<Rightarrow> s | Some x \<Rightarrow> s\<lparr>fd_sent_assertions := x # fd_sent_assertions s\<rparr>))"

text \<open>The queued messages that no recipient has acknowledged.\<close>

definition push_item :: "fed_config \<Rightarrow> outbox_item \<Rightarrow> push_log \<Rightarrow> (fed_error, push_log) fed_op" where
  "push_item cfg item l =
     (if od_acknowledged_at (ob_delivery item) \<noteq> None then return_fed l
      else case verify_message (fc_lib cfg) (JObj (ob_message item)) of
        None \<Rightarrow> return_fed l
      | Some m \<Rightarrow>
          bind_fed (attempt (emit cfg (ob_recipient item) m)) (\<lambda>r.
            case r of
              Inl err \<Rightarrow>
                bind_fed (note_failure cfg item err) (\<lambda>_.
                  return_fed (log_failure (failure_of cfg (Some (ob_id item)) (ob_recipient item) (wm_type m) err) l))
            | Inr t \<Rightarrow>
                bind_fed (note_assertion (carried_signature m)) (\<lambda>_.
                  return_fed (log_handed (Some item) (ob_recipient item) (wm_type m) t l))))"

fun push_items :: "fed_config \<Rightarrow> outbox_item list \<Rightarrow> push_log \<Rightarrow> (fed_error, push_log) fed_op" where
  "push_items cfg [] l = return_fed l"
| "push_items cfg (item # rest) l = bind_fed (push_item cfg item l) (push_items cfg rest)"

text \<open>This persona's assertions on an edge that have not gone out.\<close>

definition assert_payload :: "assertion \<Rightarrow> json" where
  "assert_payload a = JObj [(''assertion'', JObj (assertion_members a))]"

definition push_assertion :: "fed_config \<Rightarrow> persona_id \<Rightarrow> assertion \<Rightarrow> push_log \<Rightarrow> (fed_error, push_log) fed_op" where
  "push_assertion cfg counterparty a l = (\<lambda>s.
     if a_by a \<noteq> fc_persona cfg \<or> a_sig a \<in> set (fd_sent_assertions s) then return_fed l s
     else bind_fed (attempt (bind_fed (sign_wire cfg MAssert counterparty (assert_payload a)) (emit cfg counterparty))) (\<lambda>r.
       case r of
         Inl err \<Rightarrow> return_fed (log_failure (failure_of cfg None counterparty MAssert err) l)
       | Inr t \<Rightarrow>
           bind_fed (note_assertion (Some (a_sig a))) (\<lambda>_.
             return_fed (log_handed None counterparty MAssert t l))) s)"

fun push_assertions :: "fed_config \<Rightarrow> persona_id \<Rightarrow> assertion list \<Rightarrow> push_log \<Rightarrow> (fed_error, push_log) fed_op" where
  "push_assertions cfg c [] l = return_fed l"
| "push_assertions cfg c (a # as) l = bind_fed (push_assertion cfg c a l) (push_assertions cfg c as)"

text \<open>Whom the acts on an edge go to.\<close>

definition addressee :: "persona_id \<Rightarrow> edge \<Rightarrow> (persona_id \<Rightarrow> party_key list) \<Rightarrow> persona_id" where
  "addressee p e lin = current_key_of (if e_owner e = p then e_owed_to e else e_owner e) lin"

definition push_edge :: "fed_config \<Rightarrow> (persona_id \<Rightarrow> party_key list) \<Rightarrow> sha256_hex \<Rightarrow> push_log \<Rightarrow> (fed_error, push_log) fed_op" where
  "push_edge cfg lin i l =
     bind_fed (on_node NodeStopped (read_vault (\<lambda>v. get_edge v (fc_persona cfg) i))) (\<lambda>held.
       case held of
         None \<Rightarrow> return_fed l
       | Some e \<Rightarrow>
           if \<not> is_party_or_successor e (fc_persona cfg) lin then return_fed l
           else bind_fed (on_node NodeStopped (read_vault (\<lambda>v. get_assertions v (fc_persona cfg) i))) (\<lambda>as.
             push_assertions cfg (addressee (fc_persona cfg) e lin) as l))"

fun push_edges :: "fed_config \<Rightarrow> (persona_id \<Rightarrow> party_key list) \<Rightarrow> sha256_hex list \<Rightarrow> push_log \<Rightarrow> (fed_error, push_log) fed_op" where
  "push_edges cfg lin [] l = return_fed l"
| "push_edges cfg lin (i # rest) l = bind_fed (push_edge cfg lin i l) (push_edges cfg lin rest)"

text \<open>The couriers that took something, each once, in the order of first use, then the home one.\<close>

fun note_use :: "courier list \<Rightarrow> courier list \<Rightarrow> courier list" where
  "note_use seen [] = seen"
| "note_use seen (t # ts) = note_use (if t \<in> set seen then seen else seen @ [t]) ts"

definition touched :: "fed_config \<Rightarrow> handed_over list \<Rightarrow> courier list" where
  "touched cfg hs = note_use [] (map ho_courier hs @ [cn_home (fc_net cfg)])"

fun flush_all :: "fed_config \<Rightarrow> courier list \<Rightarrow> (courier \<times> string) list \<Rightarrow> ('e, (courier \<times> string) list) fed_op" where
  "flush_all cfg [] failed = return_fed failed"
| "flush_all cfg (t # ts) failed =
     bind_fed (call_sync cfg t) (\<lambda>out.
       flush_all cfg ts (case out of None \<Rightarrow> failed | Some why \<Rightarrow> failed @ [(t, why)]))"

text \<open>What was handed over is sent once its courier has flushed; the delivery record changes only when it says something new.\<close>

definition record_sent :: "fed_config \<Rightarrow> rfc3339 \<Rightarrow> courier \<Rightarrow> outbox_item \<Rightarrow> (fed_error, unit) fed_op" where
  "record_sent cfg tm t item =
     (let was = ob_delivery item; kind = cn_kind (fc_net cfg) t in
      if od_sent_at was \<noteq> None \<and> od_sent_via was = Some kind then return_fed ()
      else patch_delivery cfg item (\<lambda>d. d\<lparr>od_sent_at := Some tm, od_sent_via := Some kind,
        od_attempts := Suc (od_attempts was), od_last_attempt_at := Some tm, od_last_error := None,
        od_unroutable_since := None\<rparr>))"

fun settle :: "fed_config \<Rightarrow> rfc3339 \<Rightarrow> (courier \<times> string) list \<Rightarrow> handed_over list \<Rightarrow> nat \<times> delivery_failure list \<Rightarrow>
    (fed_error, nat \<times> delivery_failure list) fed_op" where
  "settle cfg tm failed [] (n, fs) = return_fed (n, fs)"
| "settle cfg tm failed (h # hs) (n, fs) =
     (case map_of failed (ho_courier h) of
        Some why \<Rightarrow>
          bind_fed (case ho_item h of None \<Rightarrow> return_fed () | Some item \<Rightarrow> note_failure cfg item (CourierRefuses why)) (\<lambda>_.
            settle cfg tm failed hs (n, fs @ [failure_of cfg (map_option ob_id (ho_item h)) (ho_recipient h) (ho_type h) (CourierRefuses why)]))
      | None \<Rightarrow>
          bind_fed (case ho_item h of None \<Rightarrow> return_fed () | Some item \<Rightarrow> record_sent cfg tm (ho_courier h) item) (\<lambda>_.
            settle cfg tm failed hs (Suc n, fs)))"

definition deliver_all :: "fed_config \<Rightarrow> (fed_error, nat \<times> delivery_failure list) fed_op" where
  "deliver_all cfg =
     bind_fed (on_node NodeStopped (read_vault (\<lambda>v. list_outbox v (fc_persona cfg)))) (\<lambda>items.
     bind_fed (push_items cfg items \<lparr>pl_failures = [], pl_handed = []\<rparr>) (\<lambda>l1.
     bind_fed (on_node NodeStopped (party_lineage (fc_lib cfg) (fc_persona cfg))) (\<lambda>lin.
     bind_fed (on_node NodeStopped (read_vault (\<lambda>v. list_edge_ids v (fc_persona cfg)))) (\<lambda>ids.
     bind_fed (push_edges cfg lin ids l1) (\<lambda>l2.
     bind_fed (flush_all cfg (touched cfg (pl_handed l2)) []) (\<lambda>failed.
     bind_fed (read_clock cfg) (\<lambda>tm.
       settle cfg tm failed (pl_handed l2) (0, pl_failures l2))))))))"

definition push :: "fed_config \<Rightarrow> (fed_error, nat) fed_op" where
  "push cfg =
     bind_fed (deliver_all cfg) (\<lambda>(n, fs). if fs \<noteq> [] then throw_fed (OutboundDelivery n fs) else return_fed n)"

section \<open>pull and acknowledgement\<close>

text \<open>Who has signed for which edge, among the messages received.\<close>

definition proven :: "crypto_lib \<Rightarrow> json list \<Rightarrow> (persona_id \<times> sha256_hex) list" where
  "proven cl raws = List.map_filter (\<lambda>raw.
     Option.bind (verify_message cl raw) (\<lambda>m. map_option (\<lambda>e. (wm_sender m, e)) (edge_id_of_message m))) raws"

definition acknowledged_by :: "crypto_lib \<Rightarrow> (persona_id \<times> sha256_hex) list \<Rightarrow> outbox_item \<Rightarrow> bool" where
  "acknowledged_by cl ps item \<longleftrightarrow>
     (case Option.bind (verify_message cl (JObj (ob_message item))) edge_id_of_message of
        None \<Rightarrow> False | Some e \<Rightarrow> (ob_recipient item, e) \<in> set ps)"

fun acknowledge_items :: "fed_config \<Rightarrow> rfc3339 \<Rightarrow> (persona_id \<times> sha256_hex) list \<Rightarrow> outbox_item list \<Rightarrow> (fed_error, unit) fed_op" where
  "acknowledge_items cfg tm ps [] = return_fed ()"
| "acknowledge_items cfg tm ps (item # rest) =
     bind_fed (if acknowledged_by (fc_lib cfg) ps item
               then patch_delivery cfg item (\<lambda>d. d\<lparr>od_acknowledged_at := Some tm\<rparr>) else return_fed ())
       (\<lambda>_. acknowledge_items cfg tm ps rest)"

definition record_acknowledgements :: "fed_config \<Rightarrow> json list \<Rightarrow> (fed_error, unit) fed_op" where
  "record_acknowledgements cfg raws =
     bind_fed (on_node NodeStopped (read_vault (\<lambda>v. list_outbox v (fc_persona cfg)))) (\<lambda>items.
       let waiting = filter (\<lambda>x. od_acknowledged_at (ob_delivery x) = None) items;
           ps = proven (fc_lib cfg) raws
       in if waiting = [] \<or> ps = [] then return_fed ()
          else bind_fed (read_clock cfg) (\<lambda>tm. acknowledge_items cfg tm ps waiting))"

definition own_inbox :: "fed_config \<Rightarrow> inbox" where
  "own_inbox cfg = \<lparr>ib_lib = fc_lib cfg, ib_persona = fc_persona cfg, ib_level = fc_level cfg\<rparr>"

text \<open>The inbox keeps its budget between calls.\<close>

definition run_inbox :: "fed_config \<Rightarrow> (int \<times> json) list \<Rightarrow> (fed_error, ingest_result) fed_op" where
  "run_inbox cfg raws = (\<lambda>s.
     bind_fed (on_node NodeStopped (ingest (own_inbox cfg) raws (fd_budget s)))
       (\<lambda>(r, b) s'. (Inr r, s'\<lparr>fd_budget := b\<rparr>)) s)"

definition stop_on :: "string option \<Rightarrow> (fed_error, unit) fed_op" where
  "stop_on out = (case out of None \<Rightarrow> return_fed () | Some why \<Rightarrow> throw_fed (CourierStopped why))"

definition pull :: "fed_config \<Rightarrow> (fed_error, ingest_result) fed_op" where
  "pull cfg =
     bind_fed (call_sync cfg (cn_home (fc_net cfg))) (\<lambda>out.
     bind_fed (stop_on out) (\<lambda>_.
     bind_fed (call_receive cfg (cn_home (fc_net cfg))) (\<lambda>got.
       case got of
         Inl why \<Rightarrow> throw_fed (CourierStopped why)
       | Inr raws \<Rightarrow>
           bind_fed (read_wall cfg (length raws)) (\<lambda>instants.
           bind_fed (run_inbox cfg (zip instants raws)) (\<lambda>r.
           bind_fed (record_acknowledgements cfg raws) (\<lambda>_. return_fed r))))))"

section \<open>outbound\<close>

datatype outbound_state = QueuedOut | UnroutableOut | SentOut | AcknowledgedOut

text \<open>What the sentence of \<^verbatim>\<open>explainDelivery\<close> says, with the values it is made of.\<close>

datatype explanation =
    HasSignedForTheEdge "rfc3339 option"
  | HandedToCourier "string option" int
  | NoCourierForDays int
  | NoCourierAskedYet
  | LastCourierRefused string

record outbound_status =
  os_id :: sha256_hex
  os_recipient :: persona_id
  os_edge_id :: "sha256_hex option"
  os_queued_at :: rfc3339
  os_state :: outbound_state
  os_delivery :: outbox_delivery
  os_explanation :: explanation

definition outbound_state_of :: "outbox_delivery \<Rightarrow> outbound_state" where
  "outbound_state_of d =
     (if od_acknowledged_at d \<noteq> None then AcknowledgedOut
      else if od_sent_at d \<noteq> None then SentOut
      else if od_unroutable_since d \<noteq> None then UnroutableOut
      else QueuedOut)"

text \<open>\<^verbatim>\<open>Math.round\<close> of a quotient by a day: to the nearest, a half upwards.\<close>

definition days_since :: "rfc3339 \<Rightarrow> int \<Rightarrow> int" where
  "days_since from now = max 0 ((2 * (now - ms_of from) + 86400000) div (2 * 86400000))"

definition explain_delivery :: "outbox_item \<Rightarrow> outbound_state \<Rightarrow> int \<Rightarrow> explanation" where
  "explain_delivery item st now =
     (let d = ob_delivery item; since = (\<lambda>t. days_since (case t of None \<Rightarrow> ob_queued_at item | Some x \<Rightarrow> x) now) in
      case st of
        AcknowledgedOut \<Rightarrow> HasSignedForTheEdge (od_acknowledged_at d)
      | SentOut \<Rightarrow> HandedToCourier (od_sent_via d) (since (od_sent_at d))
      | UnroutableOut \<Rightarrow> NoCourierForDays (since (od_unroutable_since d))
      | QueuedOut \<Rightarrow> (case od_last_error d of None \<Rightarrow> NoCourierAskedYet | Some why \<Rightarrow> LastCourierRefused why))"

definition outbound_item :: "crypto_lib \<Rightarrow> int \<Rightarrow> outbox_item \<Rightarrow> outbound_status" where
  "outbound_item cl now item =
     (let st = outbound_state_of (ob_delivery item) in
      \<lparr>os_id = ob_id item, os_recipient = ob_recipient item,
       os_edge_id = Option.bind (verify_message cl (JObj (ob_message item))) edge_id_of_message,
       os_queued_at = ob_queued_at item, os_state = st, os_delivery = ob_delivery item,
       os_explanation = explain_delivery item st now\<rparr>)"

definition outbound :: "fed_config \<Rightarrow> (fed_error, outbound_status list) fed_op" where
  "outbound cfg =
     bind_fed (read_clock cfg) (\<lambda>now.
     bind_fed (on_node NodeStopped (read_vault (\<lambda>v. list_outbox v (fc_persona cfg)))) (\<lambda>items.
       return_fed (map (outbound_item (fc_lib cfg) (ms_of now)) items)))"

section \<open>Reconciliation by courier\<close>

definition recon_ref_json :: "recon_ref \<Rightarrow> json" where
  "recon_ref_json r = JObj [(''edge_id'', JStr (rf_edge_id r)), (''latest_assertion_hash'', JStr (rf_latest r))]"

definition recon_request_json :: "recon_ref list \<Rightarrow> json" where
  "recon_request_json rs = JObj [(''edges'', JArr (map recon_ref_json rs))]"

definition recon_entry_json :: "recon_entry \<Rightarrow> json" where
  "recon_entry_json e = JObj [(''edge_id'', JStr (en_edge_id e)),
     (''assertions'', JArr (map (\<lambda>a. JObj (assertion_members a)) (en_assertions e)))]"

definition recon_response_json :: "recon_entry list \<Rightarrow> json" where
  "recon_response_json es = JObj [(''edges'', JArr (map recon_entry_json es))]"

definition sign_and_emit :: "fed_config \<Rightarrow> message_type \<Rightarrow> persona_id \<Rightarrow> json \<Rightarrow> (send_error, courier option) fed_op" where
  "sign_and_emit cfg ty r payload = bind_fed (sign_wire cfg ty r payload) (emit cfg r)"

definition request_recon :: "fed_config \<Rightarrow> persona_id \<Rightarrow> (fed_error, recon_ref list) fed_op" where
  "request_recon cfg counterparty =
     bind_fed (on_node NodeStopped (build_recon_request (fc_lib cfg) (fc_persona cfg) counterparty)) (\<lambda>refs.
     bind_fed (attempt (sign_and_emit cfg MReconRequest counterparty (recon_request_json refs))) (\<lambda>r.
       case r of
         Inl err \<Rightarrow> throw_fed (SendStopped err)
       | Inr t \<Rightarrow>
           bind_fed (call_sync cfg (case t of None \<Rightarrow> cn_home (fc_net cfg) | Some c \<Rightarrow> c)) (\<lambda>out.
           bind_fed (stop_on out) (\<lambda>_. return_fed refs))))"

text \<open>One answer: its failure, or the courier that took it.\<close>

definition answer_one ::
    "fed_config \<Rightarrow> persona_id \<times> recon_ref list \<Rightarrow> courier list \<times> nat \<times> delivery_failure list \<Rightarrow>
     (fed_error, courier list \<times> nat \<times> delivery_failure list) fed_op" where
  "answer_one cfg fr acc = (case (fr, acc) of ((from, refs), (ts, n, fs)) \<Rightarrow>
     bind_fed (read_wall cfg 1) (\<lambda>now.
     bind_fed (on_node NodeStopped (answer_recon_request (fc_lib cfg) (hd now) (fc_persona cfg) from refs)) (\<lambda>es.
       if es = [] then return_fed (ts, n, fs)
       else bind_fed (attempt (sign_and_emit cfg MReconResponse from (recon_response_json es))) (\<lambda>r.
         return_fed (case r of
           Inl err \<Rightarrow> (ts, n, fs @ [failure_of cfg None from MReconResponse err])
         | Inr None \<Rightarrow> (ts, n, fs)
         | Inr (Some t) \<Rightarrow> (note_use ts [t], Suc n, fs))))))"

fun answer_each ::
    "fed_config \<Rightarrow> (persona_id \<times> recon_ref list) list \<Rightarrow> courier list \<times> nat \<times> delivery_failure list \<Rightarrow>
     (fed_error, courier list \<times> nat \<times> delivery_failure list) fed_op" where
  "answer_each cfg [] acc = return_fed acc"
| "answer_each cfg (fr # rest) acc = bind_fed (answer_one cfg fr acc) (answer_each cfg rest)"

text \<open>The flush here stops at the first courier that refuses.\<close>

fun flush_or_stop :: "fed_config \<Rightarrow> courier list \<Rightarrow> (fed_error, unit) fed_op" where
  "flush_or_stop cfg [] = return_fed ()"
| "flush_or_stop cfg (t # ts) = bind_fed (call_sync cfg t) (\<lambda>out. bind_fed (stop_on out) (\<lambda>_. flush_or_stop cfg ts))"

definition answer_recon :: "fed_config \<Rightarrow> (persona_id \<times> recon_ref list) list \<Rightarrow> (fed_error, nat) fed_op" where
  "answer_recon cfg reqs =
     bind_fed (answer_each cfg reqs ([cn_home (fc_net cfg)], 0, [])) (\<lambda>(ts, n, fs).
     bind_fed (flush_or_stop cfg ts) (\<lambda>_.
       if fs \<noteq> [] then throw_fed (OutboundDelivery n fs) else return_fed n))"

end
