(* ===== verification/DeliveryLaws.thy ===== *)
theory DeliveryLaws
  imports Delivery
begin

text \<open>
  What handing over the outbox does: it writes nothing but delivery records, its couriers are called in two
  rounds (every message, then every flush), and each call is justified by a queued message or by an act of
  this persona's own.
\<close>

section \<open>Delivery records\<close>

text \<open>A subtree but for what its outbox says about delivery.\<close>

definition undelivered :: "outbox_item \<Rightarrow> outbox_item" where
  "undelivered x = x\<lparr>ob_delivery := no_delivery\<rparr>"

definition bare :: "persona_store \<Rightarrow> persona_store" where
  "bare ps = ps\<lparr>ps_outbox := map (\<lambda>(k, x). (k, undelivered x)) (ps_outbox ps)\<rparr>"

definition deliveries_only :: "vault \<Rightarrow> vault \<Rightarrow> bool" where
  "deliveries_only v v' \<longleftrightarrow> same_part bare v v' \<and> vt_retention_days v' = vt_retention_days v"

lemma deliveries_only_refl [simp]: "deliveries_only v v"
  by (simp add: deliveries_only_def)

lemma deliveries_only_trans: "deliveries_only u v \<Longrightarrow> deliveries_only v w \<Longrightarrow> deliveries_only u w"
  by (auto simp: deliveries_only_def intro: same_part_trans)

lemma same_part_factor:
  assumes "deliveries_only v v'" and "\<And>ps. f ps = g (bare ps)"
  shows "same_part f v v'"
proof -
  have "map_sum id f r = map_sum id g (map_sum id bare r)" for r :: "persona_store vault_result"
    by (cases r) (simp_all add: assms(2))
  with assms(1) show ?thesis by (simp add: deliveries_only_def same_part_def)
qed

lemma deliveries_only_chains: "deliveries_only v v' \<Longrightarrow> same_chains v v'"
  by (rule same_chainsI; erule same_part_factor [where g = ps_edges] same_part_factor [where g = ps_rotations]) (simp_all add: bare_def)

lemma deliveries_only_record: "deliveries_only v v' \<Longrightarrow> get_persona v' p = get_persona v p"
  by (rule same_part_reads(2)) (erule same_part_factor [where g = ps_record], simp add: bare_def)

lemma deliveries_only_rotations: "deliveries_only v v' \<Longrightarrow> list_rotations v' p = list_rotations v p"
  by (rule same_part_reads(4)) (erule same_part_factor [where g = ps_rotations], simp add: bare_def)

lemma deliveries_only_edges: "deliveries_only v v' \<Longrightarrow> list_edge_ids v' p = list_edge_ids v p"
proof -
  assume d: "deliveries_only v v'"
  have "list_edge_ids u p = map_sum id dir_names (map_sum id ps_edges (require_persona u p))" for u
    by (cases "require_persona u p") (simp_all add: list_edge_ids_def)
  with same_part_factor [OF d, of ps_edges ps_edges] show ?thesis by (simp add: same_part_def bare_def)
qed

text \<open>A persona whose files push can read: everything is named in hexadecimal.\<close>

definition readable :: "vault \<Rightarrow> persona_id \<Rightarrow> bool" where
  "readable v p \<longleftrightarrow> (\<exists>ps. require_persona v p = Inr ps \<and> list_all hex_id (dir_names (ps_edges ps)) \<and>
     list_all hex_id (dir_names (ps_outbox ps)) \<and> named_by ob_id (ps_outbox ps))"

lemma deliveries_only_readable:
  assumes "deliveries_only v v'" and "readable v p"
  shows "readable v' p"
proof -
  from assms(2) obtain ps where ps: "require_persona v p = Inr ps" "list_all hex_id (dir_names (ps_edges ps))"
    "list_all hex_id (dir_names (ps_outbox ps))" "named_by ob_id (ps_outbox ps)" by (auto simp: readable_def)
  from assms(1) have "map_sum id bare (require_persona v' p) = map_sum id bare (require_persona v p)"
    by (simp add: deliveries_only_def same_part_def)
  then obtain ps' where ps': "require_persona v' p = Inr ps'" "bare ps' = bare ps" using ps(1) by (cases "require_persona v' p") auto
  have e: "ps_edges ps' = ps_edges ps" using arg_cong [OF ps'(2), of ps_edges] by (simp add: bare_def)
  have o: "map (\<lambda>(k, x). (k, undelivered x)) (ps_outbox ps') = map (\<lambda>(k, x). (k, undelivered x)) (ps_outbox ps)"
    using arg_cong [OF ps'(2), of ps_outbox] by (simp add: bare_def)
  have n: "dir_names d = map fst (map (\<lambda>(k, x). (k, undelivered x)) d)"
    and g: "map_option undelivered (dir_get d k) = map_of (map (\<lambda>(k, x). (k, undelivered x)) d) k" for d :: "outbox_item dir" and k
    by (simp_all add: dir_names_def dir_get_def comp_def case_prod_beta map_of_map)
  have names: "dir_names (ps_outbox ps') = dir_names (ps_outbox ps)" unfolding n o ..
  have "ob_id x = k" if "dir_get (ps_outbox ps') k = Some x" for k x
  proof -
    have "map_option undelivered (dir_get (ps_outbox ps) k) = Some (undelivered x)" using g [of "ps_outbox ps'" k] g [of "ps_outbox ps" k] unfolding o that by simp
    then obtain z where z: "dir_get (ps_outbox ps) k = Some z" "undelivered z = undelivered x" by auto
    from ps(4) z(1) have "ob_id z = k" by (simp add: named_by_def)
    with arg_cong [OF z(2), of ob_id] show ?thesis by (simp add: undelivered_def)
  qed
  with ps ps'(1) e names show ?thesis by (auto simp: readable_def named_by_def dir_ok_def)
qed

definition outbox_entry :: "vault \<Rightarrow> persona_id \<Rightarrow> sha256_hex \<Rightarrow> outbox_item option" where
  "outbox_entry v p i = (case require_persona v p of Inl _ \<Rightarrow> None | Inr ps \<Rightarrow> dir_get (ps_outbox ps) i)"

definition mailbox :: "vault \<Rightarrow> persona_id \<Rightarrow> bool" where
  "mailbox v p \<longleftrightarrow> (\<exists>ps. require_persona v p = Inr ps \<and> named_by ob_id (ps_outbox ps))"

lemma readable_mailbox: "readable v p \<Longrightarrow> mailbox v p"
  by (auto simp: readable_def mailbox_def)

lemma listed_entry:
  assumes "mailbox v p" and "list_outbox v p = Inr xs"
  shows "x \<in> set xs \<longleftrightarrow> outbox_entry v p (ob_id x) = Some x"
proof -
  from assms obtain ps where ps: "require_persona v p = Inr ps" "xs = map snd (ps_outbox ps)" "named_by ob_id (ps_outbox ps)"
    by (auto simp: mailbox_def list_outbox_def)
  then have k: "(k, x) \<in> set (ps_outbox ps) \<longleftrightarrow> dir_get (ps_outbox ps) k = Some x" for k
    by (simp add: named_by_def dir_get_Some_iff)
  from ps have "x \<in> set xs \<longleftrightarrow> (\<exists>k. dir_get (ps_outbox ps) k = Some x)" by (force simp: k [symmetric])
  also have "\<dots> \<longleftrightarrow> dir_get (ps_outbox ps) (ob_id x) = Some x" using ps(3) by (auto simp: named_by_def)
  finally show ?thesis by (simp add: outbox_entry_def ps(1))
qed

lemma dir_put_same_map:
  "dir_ok d \<Longrightarrow> dir_get d k = Some x \<Longrightarrow> f y = f x \<Longrightarrow> map (\<lambda>(k, x). (k, f x)) (dir_put k y d) = map (\<lambda>(k, x). (k, f x)) d"
proof (induction k y d rule: dir_put.induct)
  case (2 k v k' v' d)
  then show ?case by (auto simp: dir_ok_Cons dir_get_def dest!: map_of_SomeD split: if_split_asm)
qed simp

lemma dir_names_put: "set (dir_names (dir_put k v d)) = insert k (set (dir_names d))"
  by (simp add: dir_names_def set_dir_put)

definition entry_patched :: "persona_id \<Rightarrow> sha256_hex \<Rightarrow> (outbox_delivery \<Rightarrow> outbox_delivery) \<Rightarrow> vault \<Rightarrow> vault \<Rightarrow> bool" where
  "entry_patched p i patch v v' \<longleftrightarrow> (\<forall>j. outbox_entry v' p j =
     (if j = i then map_option (\<lambda>x. x\<lparr>ob_delivery := patch (ob_delivery x)\<rparr>) (outbox_entry v p i) else outbox_entry v p j))"

lemma record_delivery:
  assumes "readable v p" and "hex_id i"
  obtains res v' where "record_outbox_delivery v p i patch = Inr (res, v')" and "deliveries_only v v'" and "readable v' p"
    and "entry_patched p i patch v v'"
proof -
  from assms(1) obtain ps where ps: "require_persona v p = Inr ps" "list_all hex_id (dir_names (ps_edges ps))"
    "list_all hex_id (dir_names (ps_outbox ps))" "named_by ob_id (ps_outbox ps)" by (auto simp: readable_def)
  show thesis
  proof (cases "dir_get (ps_outbox ps) i")
    case None
    then show thesis
      using ps assms by (intro that [of None v]) (auto simp: record_outbox_delivery_def outbox_entry_def entry_patched_def assert_hex_id_def)
  next
    case (Some item)
    let ?new = "item\<lparr>ob_delivery := patch (ob_delivery item)\<rparr>"
    let ?ps = "ps\<lparr>ps_outbox := dir_put i ?new (ps_outbox ps)\<rparr>"
    have "record_outbox_delivery v p i patch = Inr (Some ?new, put_store v p ?ps)"
      using ps(1) Some assms(2) by (simp add: record_outbox_delivery_def Let_def assert_hex_id_def)
    moreover have "bare ?ps = bare ps"
      using dir_put_same_map [of "ps_outbox ps" i item undelivered ?new] ps(4) Some
      by (simp add: bare_def named_by_def undelivered_def)
    then have "deliveries_only v (put_store v p ?ps)"
      using same_part_put_store [OF ps(1)] by (simp add: deliveries_only_def put_store_def)
    moreover have r: "require_persona (put_store v p ?ps) p = Inr ?ps"
      using ps(1) by (simp add: require_put_store require_persona_Inr)
    then have "readable (put_store v p ?ps) p"
      using ps Some assms(2) by (auto simp: readable_def list_all_iff dir_names_put named_by_put named_by_def)
    moreover have "entry_patched p i patch v (put_store v p ?ps)"
      using ps(1) Some r by (simp add: outbox_entry_def entry_patched_def)
    ultimately show thesis by (rule that)
  qed
qed

section \<open>Running the operations\<close>

lemma bind_fed_run: "m s = (Inr x, t) \<Longrightarrow> bind_fed m f s = f x t"
  by (simp add: bind_fed_def)

lemma bind_fed_stop: "m s = (Inl e, t) \<Longrightarrow> bind_fed m f s = (Inl e, t)"
  by (simp add: bind_fed_def)

lemma bind_fed_Inr: "bind_fed m f s = (Inr y, u) \<longleftrightarrow> (\<exists>x t. m s = (Inr x, t) \<and> f x t = (Inr y, u))"
  by (auto simp: bind_fed_def split: prod.splits sum.splits)

lemmas fed_run = bind_fed_def return_fed_def throw_fed_def attempt_def on_node_def read_clock_def read_wall_def
  call_send_def call_sync_def call_receive_def note_sent_def note_assertion_def

lemma on_node_read: "on_node f (read_vault g) s = (map_sum (f \<circ> VaultFailure) id (g (nd_vault (fd_node s))), s)"
  by (cases "g (nd_vault (fd_node s))") (simp_all add: on_node_def read_vault_def)

text \<open>\<^verbatim>\<open>emit\<close> refuses, recognises what it has handed over before, or finds a courier that takes the message.\<close>

lemma emit_cases:
  assumes "emit cfg r m s = (res, s')"
  obtains err cs where "res = Inl err" and "s' = s\<lparr>fd_calls := fd_calls s @ cs\<rparr>"
      and "(wm_recipient m \<noteq> r \<or> message_id (fc_lib cfg) m = None \<or> cn_route (fc_net cfg) r = None) \<and> cs = [] \<or>
        (wm_recipient m = r \<and> (\<exists>t why. cn_route (fc_net cfg) r = Some t \<and> cs = [Handed t r m (Some why)]))"
    | i where "res = Inr None" "s' = s" "wm_recipient m = r" "message_id (fc_lib cfg) m = Some i" "i \<in> set (fd_sent s)"
    | i t where "res = Inr (Some t)" "s' = s\<lparr>fd_sent := i # fd_sent s, fd_calls := fd_calls s @ [Handed t r m None]\<rparr>"
        "wm_recipient m = r" "message_id (fc_lib cfg) m = Some i" "i \<notin> set (fd_sent s)" "cn_route (fc_net cfg) r = Some t"
proof (cases "wm_recipient m = r \<and> message_id (fc_lib cfg) m \<noteq> None")
  case False
  with assms that(1) [of _ "[]"] show thesis by (auto simp: emit_def throw_fed_def split: if_split_asm)
next
  case True
  then obtain i where r: "wm_recipient m = r" and i: "message_id (fc_lib cfg) m = Some i" by auto
  show thesis
  proof (cases "i \<in> set (fd_sent s)")
    case True
    with assms r i that(2) show thesis by (simp add: emit_def return_fed_def)
  next
    case new: False
    show thesis
    proof (cases "cn_route (fc_net cfg) r")
      case None
      with assms r i new that(1) [of _ "[]"] show thesis by (auto simp: emit_def throw_fed_def)
    next
      case (Some t)
      let ?out = "cn_send (fc_net cfg) (length (fd_calls s)) t r m"
      show thesis
      proof (cases ?out)
        case None
        with assms r i new Some have "res = Inr (Some t)"
          "s' = s\<lparr>fd_sent := i # fd_sent s, fd_calls := fd_calls s @ [Handed t r m None]\<rparr>"
          by (auto simp: emit_def fed_run Let_def)
        with r i new Some that(3) show thesis by blast
      next
        case w: (Some why)
        with assms r i new Some that(1) [of _ "[Handed t r m (Some why)]"] show thesis
          by (auto simp: emit_def fed_run Let_def)
      qed
    qed
  qed
qed

lemma sign_wire_cases:
  assumes "sign_wire cfg ty r payload s = (res, s')"
  obtains err where "res = Inl err" "s' = s\<lparr>fd_ticks := Suc (fd_ticks s)\<rparr>"
    | m where "res = Inr m" "s' = s\<lparr>fd_ticks := Suc (fd_ticks s)\<rparr>" "wm_type m = ty" "wm_payload m = Some payload"
        "wm_sender m = fc_persona cfg" "wm_recipient m = r"
proof -
  from assms that(1) show thesis
    by (cases "get_persona (nd_vault (fd_node s)) (fc_persona cfg)")
      (auto simp: sign_wire_def fed_run private_key_of_def bind_op_def read_vault_def return_op_def Let_def
        intro: that(2) split: option.split_asm)
qed

section \<open>Handing over, one message at a time\<close>

text \<open>What an attempt may write of the node: how it went.\<close>

definition standing :: "outbox_item \<Rightarrow> outbox_item" where
  "standing x = x\<lparr>ob_delivery := (ob_delivery x)\<lparr>od_attempts := 0, od_last_attempt_at := None, od_last_error := None,
     od_unroutable_since := None\<rparr>\<rparr>"

definition notes_only :: "persona_id \<Rightarrow> node \<Rightarrow> node \<Rightarrow> bool" where
  "notes_only p d d' \<longleftrightarrow> nd_local d' = nd_local d \<and> deliveries_only (nd_vault d) (nd_vault d') \<and> readable (nd_vault d') p \<and>
     (\<forall>j. map_option standing (outbox_entry (nd_vault d') p j) = map_option standing (outbox_entry (nd_vault d) p j))"

text \<open>\<open>J\<close> says which message may go to whom.\<close>

inductive push_move :: "fed_config \<Rightarrow> (persona_id \<Rightarrow> wire_message \<Rightarrow> bool) \<Rightarrow> outbox_item set \<Rightarrow> federated \<times> push_log \<Rightarrow> federated \<times> push_log \<Rightarrow> bool"
  for cfg J I where
  passed: "set (fd_sent_assertions s) \<subseteq> set xs \<Longrightarrow> push_move cfg J I (s, l) (s\<lparr>fd_ticks := k, fd_sent_assertions := xs\<rparr>, l)"
| refused: "notes_only (fc_persona cfg) (fd_node s) d \<Longrightarrow>
    cs = [] \<or> (\<exists>t m why. cs = [Handed t (wm_recipient m) m (Some why)] \<and> J (wm_recipient m) m \<and>
      cn_route (fc_net cfg) (wm_recipient m) = Some t) \<Longrightarrow>
    push_move cfg J I (s, l) (s\<lparr>fd_node := d, fd_ticks := k, fd_calls := fd_calls s @ cs\<rparr>, log_failure f l)"
| taken: "J (wm_recipient m) m \<Longrightarrow> cn_route (fc_net cfg) (wm_recipient m) = Some t \<Longrightarrow> message_id (fc_lib cfg) m = Some i \<Longrightarrow>
    set (fd_sent_assertions s) \<subseteq> set xs \<Longrightarrow>
    (\<And>x. item = Some x \<Longrightarrow> x \<in> I \<and> verify_message (fc_lib cfg) (JObj (ob_message x)) = Some m \<and> ob_recipient x = wm_recipient m) \<Longrightarrow>
    push_move cfg J I (s, l)
      (s\<lparr>fd_sent := i # fd_sent s, fd_sent_assertions := xs, fd_ticks := k, fd_calls := fd_calls s @ [Handed t (wm_recipient m) m None]\<rparr>,
       log_handed item (wm_recipient m) ty (Some t) l)"

lemma notes_only_refl: "readable (nd_vault d) p \<Longrightarrow> notes_only p d d"
  by (simp add: notes_only_def)

lemma notes_only_trans: "notes_only p a b \<Longrightarrow> notes_only p b c \<Longrightarrow> notes_only p a c"
  unfolding notes_only_def using deliveries_only_trans by metis

lemma patch_delivery_run:
  assumes "readable (nd_vault d) (fc_persona cfg)" and "hex_id (ob_id item)" and "fd_node s = d"
  obtains v where "patch_delivery cfg item patch s = (Inr (), s\<lparr>fd_node := d\<lparr>nd_vault := v\<rparr>\<rparr>)"
    and "deliveries_only (nd_vault d) v" and "readable v (fc_persona cfg)"
    and "entry_patched (fc_persona cfg) (ob_id item) patch (nd_vault d) v"
proof -
  obtain res v where v: "record_outbox_delivery (nd_vault d) (fc_persona cfg) (ob_id item) patch = Inr (res, v)"
    "deliveries_only (nd_vault d) v" "readable v (fc_persona cfg)"
    "entry_patched (fc_persona cfg) (ob_id item) patch (nd_vault d) v"
    by (rule record_delivery [OF assms(1,2), of patch])
  show thesis
    by (rule that [OF _ v(2-4)]) (simp add: patch_delivery_def on_node_def write_vault_def v(1) assms(3))
qed

lemma note_failure_run:
  assumes "readable (nd_vault (fd_node s)) (fc_persona cfg)" and "hex_id (ob_id item)"
  obtains d where "note_failure cfg item err s = (Inr (), s\<lparr>fd_node := d, fd_ticks := Suc (fd_ticks s)\<rparr>)"
    and "notes_only (fc_persona cfg) (fd_node s) d"
proof -
  let ?s = "s\<lparr>fd_ticks := Suc (fd_ticks s)\<rparr>" and ?d = "fd_node s"
  obtain patch where run: "note_failure cfg item err s = patch_delivery cfg item patch ?s"
    and pt: "\<And>x. standing (x\<lparr>ob_delivery := patch (ob_delivery x)\<rparr>) = standing x"
    by (simp add: note_failure_def bind_fed_def read_clock_def Let_def) (simp add: standing_def)
  obtain v where v: "patch_delivery cfg item patch ?s = (Inr (), ?s\<lparr>fd_node := ?d\<lparr>nd_vault := v\<rparr>\<rparr>)"
    "deliveries_only (nd_vault ?d) v" "readable v (fc_persona cfg)" "entry_patched (fc_persona cfg) (ob_id item) patch (nd_vault ?d) v"
    by (rule patch_delivery_run [OF assms, of ?s patch]) simp_all
  show thesis
  proof (rule that)
    show "note_failure cfg item err s = (Inr (), s\<lparr>fd_node := ?d\<lparr>nd_vault := v\<rparr>, fd_ticks := Suc (fd_ticks s)\<rparr>)"
      using v(1) run by simp
    show "notes_only (fc_persona cfg) ?d (?d\<lparr>nd_vault := v\<rparr>)"
      using v(2-4) by (simp add: notes_only_def entry_patched_def option.map_comp comp_def pt)
  qed
qed

section \<open>The first round of push\<close>

abbreviation moves :: "fed_config \<Rightarrow> (persona_id \<Rightarrow> wire_message \<Rightarrow> bool) \<Rightarrow> outbox_item set \<Rightarrow> federated \<times> push_log \<Rightarrow> federated \<times> push_log \<Rightarrow> bool" where
  "moves cfg J I \<equiv> (push_move cfg J I)\<^sup>*\<^sup>*"

lemma rests: "push_move cfg J I (s, l) (s, l)"
  using push_move.passed [of s "fd_sent_assertions s" cfg J I l "fd_ticks s"] by simp

lemma log_handed_None [simp]: "log_handed item r ty None l = l"
  by (simp add: log_handed_def)

text \<open>An item that is due leaves a trace: its content address is known to the courier, or the courier refused.\<close>

definition due :: "fed_config \<Rightarrow> outbox_item \<Rightarrow> wire_message \<Rightarrow> courier \<Rightarrow> sha256_hex \<Rightarrow> bool" where
  "due cfg item m t i \<longleftrightarrow> od_acknowledged_at (ob_delivery item) = None \<and>
     verify_message (fc_lib cfg) (JObj (ob_message item)) = Some m \<and> wm_recipient m = ob_recipient item \<and>
     message_id (fc_lib cfg) m = Some i \<and> cn_route (fc_net cfg) (ob_recipient item) = Some t"

definition traced :: "federated \<Rightarrow> courier \<Rightarrow> wire_message \<Rightarrow> sha256_hex \<Rightarrow> federated \<Rightarrow> bool" where
  "traced s t m i s' \<longleftrightarrow> i \<in> set (fd_sent s') \<or>
     (\<exists>why. Handed t (wm_recipient m) m (Some why) \<in> set (drop (length (fd_calls s)) (fd_calls s')))"

lemma push_item_moves:
  assumes "readable (nd_vault (fd_node s)) (fc_persona cfg)" and "hex_id (ob_id item)" and "item \<in> I"
    and "\<And>m. verify_message (fc_lib cfg) (JObj (ob_message item)) = Some m \<Longrightarrow> wm_recipient m = ob_recipient item \<Longrightarrow>
      J (ob_recipient item) m"
  obtains s' l' where "push_item cfg item l s = (Inr l', s')" and "push_move cfg J I (s, l) (s', l')"
    and "\<And>m t i. due cfg item m t i \<Longrightarrow> traced s t m i s'"
proof (cases "od_acknowledged_at (ob_delivery item) = None \<and> (\<exists>m. verify_message (fc_lib cfg) (JObj (ob_message item)) = Some m)")
  case False
  then show thesis
    by (intro that [of l s]) (auto simp: push_item_def return_fed_def due_def rests split: option.split)
next
  case True
  then obtain m where un: "od_acknowledged_at (ob_delivery item) = None"
    and m: "verify_message (fc_lib cfg) (JObj (ob_message item)) = Some m" by auto
  let ?r = "ob_recipient item"
  obtain res s1 where em: "emit cfg ?r m s = (res, s1)" by (cases "emit cfg ?r m s")
  from em show thesis
  proof (cases rule: emit_cases)
    case (1 err cs)
    let ?f = "failure_of cfg (Some (ob_id item)) ?r (wm_type m) err"
    from assms(1) 1(2) have "readable (nd_vault (fd_node s1)) (fc_persona cfg)" by simp
    then obtain d where d: "note_failure cfg item err s1 = (Inr (), s1\<lparr>fd_node := d, fd_ticks := Suc (fd_ticks s1)\<rparr>)"
      "notes_only (fc_persona cfg) (fd_node s1) d" using assms(2) by (rule note_failure_run)
    let ?s2 = "s\<lparr>fd_node := d, fd_ticks := Suc (fd_ticks s), fd_calls := fd_calls s @ cs\<rparr>"
    have run: "push_item cfg item l s = (Inr (log_failure ?f l), ?s2)"
      using un m em d(1) 1(1,2) by (simp add: push_item_def fed_run)
    moreover have "push_move cfg J I (s, l) (?s2, log_failure ?f l)"
      by (rule push_move.refused) (use d(2) 1(2,3) assms(4) [OF m] in auto)
    moreover have "traced s t m' i ?s2" if "due cfg item m' t i" for m' t i
      using that 1(3) m by (auto simp: due_def traced_def)
    ultimately show thesis by (rule that)
  next
    case (2 i)
    let ?xs = "case carried_signature m of None \<Rightarrow> fd_sent_assertions s | Some x \<Rightarrow> x # fd_sent_assertions s"
    let ?s2 = "s\<lparr>fd_ticks := fd_ticks s, fd_sent_assertions := ?xs\<rparr>"
    have "push_item cfg item l s = (Inr l, ?s2)"
      using un m em 2(1,2) by (simp add: push_item_def fed_run split: option.split)
    moreover have "push_move cfg J I (s, l) (?s2, l)"
      by (rule push_move.passed) (auto split: option.split)
    moreover have "traced s t m' k ?s2" if "due cfg item m' t k" for m' t k
      using that 2 m by (auto simp: due_def traced_def)
    ultimately show thesis by (rule that)
  next
    case (3 i t)
    let ?xs = "case carried_signature m of None \<Rightarrow> fd_sent_assertions s | Some x \<Rightarrow> x # fd_sent_assertions s"
    let ?s2 = "s\<lparr>fd_sent := i # fd_sent s, fd_sent_assertions := ?xs, fd_ticks := fd_ticks s,
      fd_calls := fd_calls s @ [Handed t (wm_recipient m) m None]\<rparr>"
    have "push_item cfg item l s = (Inr (log_handed (Some item) (wm_recipient m) (wm_type m) (Some t) l), ?s2)"
      using un m em 3(1-3) by (simp add: push_item_def fed_run split: option.split)
    moreover have "push_move cfg J I (s, l) (?s2, log_handed (Some item) (wm_recipient m) (wm_type m) (Some t) l)"
      by (rule push_move.taken) (use 3 m assms(3) assms(4) [OF m] in \<open>auto split: option.split\<close>)
    moreover have "traced s t' m' k ?s2" if "due cfg item m' t' k" for m' t' k
      using that 3 m by (auto simp: due_def traced_def)
    ultimately show thesis by (rule that)
  qed
qed

text \<open>What the moves keep, together: the node but for notes, the calls made, and what the log says of them.\<close>

definition accounted :: "fed_config \<Rightarrow> (persona_id \<Rightarrow> wire_message \<Rightarrow> bool) \<Rightarrow> courier_call list \<Rightarrow> bool" where
  "accounted cfg J cs \<longleftrightarrow> (\<forall>c \<in> set cs. \<exists>t m out. c = Handed t (wm_recipient m) m out \<and> J (wm_recipient m) m \<and>
     cn_route (fc_net cfg) (wm_recipient m) = Some t)"

definition logged :: "fed_config \<Rightarrow> outbox_item set \<Rightarrow> handed_over list \<Rightarrow> delivery_failure list \<Rightarrow> courier_call list \<Rightarrow> bool" where
  "logged cfg I hs fs cs \<longleftrightarrow>
     ho_courier ` set hs = {t. \<exists>r m. Handed t r m None \<in> set cs} \<and>
     ((\<exists>t r m why. Handed t r m (Some why) \<in> set cs) \<longrightarrow> fs \<noteq> []) \<and>
     (\<forall>h \<in> set hs. \<forall>x. ho_item h = Some x \<longrightarrow> x \<in> I \<and> (\<exists>m. verify_message (fc_lib cfg) (JObj (ob_message x)) = Some m \<and>
        Handed (ho_courier h) (ob_recipient x) m None \<in> set cs))"

lemma logged_taken:
  assumes "logged cfg I hs fs cs"
    and "\<And>x. item = Some x \<Longrightarrow> x \<in> I \<and> verify_message (fc_lib cfg) (JObj (ob_message x)) = Some m \<and> ob_recipient x = r"
  shows "logged cfg I (hs @ [\<lparr>ho_item = item, ho_recipient = r, ho_type = ty, ho_courier = t\<rparr>]) fs (cs @ [Handed t r m None])"
proof -
  have "ho_courier ` set hs = {t. \<exists>r m. Handed t r m None \<in> set cs}" using assms(1) by (simp add: logged_def)
  then have "insert t (ho_courier ` set hs) = {u. \<exists>r' m'. Handed u r' m' None \<in> set (cs @ [Handed t r m None])}" by auto
  with assms show ?thesis by (fastforce simp: logged_def)
qed

lemma logged_refused:
  assumes "logged cfg I hs fs cs" and "cs' = [] \<or> (\<exists>t r m why. cs' = [Handed t r m (Some why)])"
  shows "logged cfg I hs (fs @ [f]) (cs @ cs')"
  using assms unfolding logged_def by fastforce

lemma moves_account:
  assumes "moves cfg J I (s, l) (s', l')" and "readable (nd_vault (fd_node s)) (fc_persona cfg)"
  obtains cs hs fs where "fd_calls s' = fd_calls s @ cs" and "pl_handed l' = pl_handed l @ hs"
    and "pl_failures l' = pl_failures l @ fs" and "accounted cfg J cs" and "logged cfg I hs fs cs"
    and "notes_only (fc_persona cfg) (fd_node s) (fd_node s')"
    and "set (fd_sent s) \<subseteq> set (fd_sent s')"
    and "\<forall>i \<in> set (fd_sent s'). i \<in> set (fd_sent s) \<or>
      (\<exists>t m. message_id (fc_lib cfg) m = Some i \<and> Handed t (wm_recipient m) m None \<in> set cs)"
    and "set (fd_sent_assertions s) \<subseteq> set (fd_sent_assertions s')" and "fd_budget s' = fd_budget s"
proof -
  have "\<exists>cs hs fs. fd_calls s' = fd_calls s @ cs \<and> pl_handed l' = pl_handed l @ hs \<and> pl_failures l' = pl_failures l @ fs \<and>
      accounted cfg J cs \<and> logged cfg I hs fs cs \<and> notes_only (fc_persona cfg) (fd_node s) (fd_node s') \<and>
      set (fd_sent s) \<subseteq> set (fd_sent s') \<and>
      (\<forall>i \<in> set (fd_sent s'). i \<in> set (fd_sent s) \<or>
        (\<exists>t m. message_id (fc_lib cfg) m = Some i \<and> Handed t (wm_recipient m) m None \<in> set cs)) \<and>
      set (fd_sent_assertions s) \<subseteq> set (fd_sent_assertions s') \<and> fd_budget s' = fd_budget s"
    using assms(1)
  proof (induction "(s', l')" arbitrary: s' l' rule: rtranclp_induct)
    case base
    then show ?case using notes_only_refl [OF assms(2)] by (auto simp: accounted_def logged_def)
  next
    case (step sl)
    obtain s1 l1 where sl: "sl = (s1, l1)" by (cases sl)
    from step.hyps(3) [OF sl] obtain cs hs fs where IH: "fd_calls s1 = fd_calls s @ cs" "pl_handed l1 = pl_handed l @ hs"
      "pl_failures l1 = pl_failures l @ fs" "accounted cfg J cs" "logged cfg I hs fs cs" "notes_only (fc_persona cfg) (fd_node s) (fd_node s1)"
      "set (fd_sent s) \<subseteq> set (fd_sent s1)"
      "\<forall>i \<in> set (fd_sent s1). i \<in> set (fd_sent s) \<or> (\<exists>t m. message_id (fc_lib cfg) m = Some i \<and> Handed t (wm_recipient m) m None \<in> set cs)"
      "set (fd_sent_assertions s) \<subseteq> set (fd_sent_assertions s1)" "fd_budget s1 = fd_budget s" by blast
    from step.hyps(2) [unfolded sl] show ?case
    proof (cases rule: push_move.cases)
      case (passed xs k)
      with IH show ?thesis by auto
    next
      case (refused d cs' k f)
      with IH show ?thesis
        by (intro exI [of _ "cs @ cs'"] exI [of _ hs] exI [of _ "fs @ [f]"])
          (auto simp: log_failure_def accounted_def intro: notes_only_trans logged_refused)
    next
      case (taken m t i xs item k ty)
      with IH show ?thesis
        by (intro exI [of _ "cs @ [Handed t (wm_recipient m) m None]"]
            exI [of _ "hs @ [\<lparr>ho_item = item, ho_recipient = wm_recipient m, ho_type = ty, ho_courier = t\<rparr>]"] exI [of _ fs])
          (auto simp: log_handed_def accounted_def intro: logged_taken)
    qed
  qed
  then show thesis using that by blast
qed

lemma traced_later:
  "traced s t m i s1 \<Longrightarrow> fd_calls s1 = fd_calls s @ cs \<Longrightarrow> fd_calls s2 = fd_calls s1 @ cs' \<Longrightarrow>
     set (fd_sent s1) \<subseteq> set (fd_sent s2) \<Longrightarrow> traced s t m i s2"
  by (auto simp: traced_def)

lemma traced_earlier:
  "traced s1 t m i s2 \<Longrightarrow> fd_calls s1 = fd_calls s @ cs \<Longrightarrow> fd_calls s2 = fd_calls s1 @ cs' \<Longrightarrow> traced s t m i s2"
  by (auto simp: traced_def)

lemma push_items_moves:
  assumes "readable (nd_vault (fd_node s)) (fc_persona cfg)"
    and "\<And>item. item \<in> set items \<Longrightarrow> hex_id (ob_id item) \<and> item \<in> I"
    and "\<And>item m. item \<in> set items \<Longrightarrow> verify_message (fc_lib cfg) (JObj (ob_message item)) = Some m \<Longrightarrow>
      wm_recipient m = ob_recipient item \<Longrightarrow> J (ob_recipient item) m"
  obtains s' l' where "push_items cfg items l s = (Inr l', s')" and "moves cfg J I (s, l) (s', l')"
    and "\<And>item m t i. item \<in> set items \<Longrightarrow> due cfg item m t i \<Longrightarrow> traced s t m i s'"
proof -
  have "\<exists>s' l'. push_items cfg items l s = (Inr l', s') \<and> moves cfg J I (s, l) (s', l') \<and>
      (\<forall>item m t i. item \<in> set items \<longrightarrow> due cfg item m t i \<longrightarrow> traced s t m i s')"
    using assms
  proof (induction items arbitrary: s l)
    case Nil
    then show ?case by (simp add: return_fed_def)
  next
    case (Cons item items)
    obtain s1 l1 where 1: "push_item cfg item l s = (Inr l1, s1)" "push_move cfg J I (s, l) (s1, l1)"
      "\<And>m t i. due cfg item m t i \<Longrightarrow> traced s t m i s1"
      by (rule push_item_moves [of s cfg item I J l]) (use Cons.prems in auto)
    from 1(2) have m1: "moves cfg J I (s, l) (s1, l1)" by simp
    then obtain cs where cs: "fd_calls s1 = fd_calls s @ cs" and n: "notes_only (fc_persona cfg) (fd_node s) (fd_node s1)"
      using Cons.prems(1) by (rule moves_account)
    then have rd: "readable (nd_vault (fd_node s1)) (fc_persona cfg)" by (simp add: notes_only_def)
    obtain s2 l2 where 2: "push_items cfg items l1 s1 = (Inr l2, s2)" "moves cfg J I (s1, l1) (s2, l2)"
      "\<forall>item m t i. item \<in> set items \<longrightarrow> due cfg item m t i \<longrightarrow> traced s1 t m i s2"
      using Cons.IH [OF rd, of l1] Cons.prems by auto
    obtain cs' where cs': "fd_calls s2 = fd_calls s1 @ cs'" "set (fd_sent s1) \<subseteq> set (fd_sent s2)"
      using 2(2) rd by (rule moves_account)
    have "push_items cfg (item # items) l s = (Inr l2, s2)" using 1(1) 2(1) by (simp add: bind_fed_run)
    moreover have "moves cfg J I (s, l) (s2, l2)" using m1 2(2) by simp
    moreover have "traced s t m i s2" if "x \<in> set (item # items)" "due cfg x m t i" for x m t i
      using that 1(3) 2(3) traced_later [OF _ cs cs'] traced_earlier [OF _ cs cs'(1)] by auto
    ultimately show ?case by blast
  qed
  then show thesis using that by blast
qed

text \<open>This persona's own acts on an edge it is a party to, told to whoever holds the other side of it now.\<close>

definition own_act :: "fed_config \<Rightarrow> vault \<Rightarrow> (persona_id \<Rightarrow> party_key list) \<Rightarrow> persona_id \<Rightarrow> wire_message \<Rightarrow> bool" where
  "own_act cfg v lin r m \<longleftrightarrow> (\<exists>i e as a. get_edge v (fc_persona cfg) i = Inr (Some e) \<and>
     get_assertions v (fc_persona cfg) i = Inr as \<and> a \<in> set as \<and> a_by a = fc_persona cfg \<and>
     is_party_or_successor e (fc_persona cfg) lin \<and> r = addressee (fc_persona cfg) e lin \<and>
     wm_type m = MAssert \<and> wm_sender m = fc_persona cfg \<and> wm_recipient m = r \<and> wm_payload m = Some (assert_payload a))"

lemma own_act_notes: "notes_only p d d' \<Longrightarrow> own_act cfg (nd_vault d') lin r m = own_act cfg (nd_vault d) lin r m"
  using deliveries_only_chains [of "nd_vault d" "nd_vault d'"] by (simp add: notes_only_def own_act_def same_chains_def)

lemma push_assertion_moves:
  assumes "readable (nd_vault (fd_node s)) (fc_persona cfg)"
    and "\<And>m. a_by a = fc_persona cfg \<Longrightarrow> wm_type m = MAssert \<Longrightarrow> wm_sender m = fc_persona cfg \<Longrightarrow>
      wm_recipient m = c \<Longrightarrow> wm_payload m = Some (assert_payload a) \<Longrightarrow> J c m"
  obtains s' l' where "push_assertion cfg c a l s = (Inr l', s')" and "push_move cfg J I (s, l) (s', l')"
proof (cases "a_by a \<noteq> fc_persona cfg \<or> a_sig a \<in> set (fd_sent_assertions s)")
  case True
  then show thesis by (intro that [of l s]) (auto simp: push_assertion_def return_fed_def rests)
next
  case False
  let ?k = "Suc (fd_ticks s)" and ?s1 = "s\<lparr>fd_ticks := Suc (fd_ticks s)\<rparr>"
  obtain res s1 where sg: "sign_wire cfg MAssert c (assert_payload a) s = (res, s1)" by (cases "sign_wire cfg MAssert c (assert_payload a) s")
  have fail: "push_move cfg J I (s, l) (s\<lparr>fd_ticks := ?k, fd_calls := fd_calls s @ cs\<rparr>, log_failure f l)"
    if "cs = [] \<or> (\<exists>t m why. cs = [Handed t (wm_recipient m) m (Some why)] \<and> J (wm_recipient m) m \<and>
      cn_route (fc_net cfg) (wm_recipient m) = Some t)" for cs f
    using push_move.refused [where cfg = cfg and J = J and I = I and cs = cs and k = ?k and f = f and l = l,
        OF notes_only_refl [OF assms(1)] that] by simp
  from sg show thesis
  proof (cases rule: sign_wire_cases)
    case (1 err)
    with sg False have "push_assertion cfg c a l s = (Inr (log_failure (failure_of cfg None c MAssert err) l), ?s1)"
      by (simp add: push_assertion_def fed_run)
    with fail [of "[]"] show thesis by (intro that) auto
  next
    case (2 m)
    have J: "J c m" using assms(2) False 2(3-6) by blast
    obtain res2 s2 where em: "emit cfg c m ?s1 = (res2, s2)" by (cases "emit cfg c m ?s1")
    note [simp] = push_assertion_def fed_run
    from em show thesis
    proof (cases rule: emit_cases)
      case (1 err cs)
      let ?f = "failure_of cfg None c MAssert err"
      have "push_assertion cfg c a l s = (Inr (log_failure ?f l), s\<lparr>fd_ticks := ?k, fd_calls := fd_calls s @ cs\<rparr>)"
        using sg False 2(1,2) em 1(1,2) by simp
      moreover have "push_move cfg J I (s, l) (s\<lparr>fd_ticks := ?k, fd_calls := fd_calls s @ cs\<rparr>, log_failure ?f l)"
        by (rule fail) (use 1(3) J in auto)
      ultimately show thesis by (rule that)
    next
      case (2 i)
      let ?s2 = "s\<lparr>fd_ticks := ?k, fd_sent_assertions := a_sig a # fd_sent_assertions s\<rparr>"
      have "push_assertion cfg c a l s = (Inr l, ?s2)"
        using sg False \<open>res = Inr m\<close> \<open>s1 = ?s1\<close> em 2(1,2) by simp
      moreover have "push_move cfg J I (s, l) (?s2, l)" by (rule push_move.passed) auto
      ultimately show thesis by (rule that)
    next
      case (3 i t)
      let ?s2 = "s\<lparr>fd_sent := i # fd_sent s, fd_sent_assertions := a_sig a # fd_sent_assertions s, fd_ticks := ?k,
        fd_calls := fd_calls s @ [Handed t (wm_recipient m) m None]\<rparr>"
      have "push_assertion cfg c a l s = (Inr (log_handed None (wm_recipient m) MAssert (Some t) l), ?s2)"
        using sg False \<open>res = Inr m\<close> \<open>s1 = ?s1\<close> em 3(1-3) by simp
      moreover have "push_move cfg J I (s, l) (?s2, log_handed None (wm_recipient m) MAssert (Some t) l)"
        by (rule push_move.taken) (use 3 J in auto)
      ultimately show thesis by (rule that)
    qed
  qed
qed

lemma moves_readable:
  assumes "moves cfg J I (s, l) (s', l')" and "readable (nd_vault (fd_node s)) (fc_persona cfg)"
  shows "readable (nd_vault (fd_node s')) (fc_persona cfg)" and "notes_only (fc_persona cfg) (fd_node s) (fd_node s')"
  using moves_account [OF assms] by (metis notes_only_def)+

lemma push_assertions_moves:
  assumes "readable (nd_vault (fd_node s)) (fc_persona cfg)"
    and "\<And>a m. a \<in> set as \<Longrightarrow> a_by a = fc_persona cfg \<Longrightarrow> wm_type m = MAssert \<Longrightarrow> wm_sender m = fc_persona cfg \<Longrightarrow>
      wm_recipient m = c \<Longrightarrow> wm_payload m = Some (assert_payload a) \<Longrightarrow> J c m"
  shows "\<exists>s' l'. push_assertions cfg c as l s = (Inr l', s') \<and> moves cfg J I (s, l) (s', l')"
  using assms
proof (induction as arbitrary: s l)
  case Nil
  then show ?case by (simp add: return_fed_def)
next
  case (Cons a as)
  obtain s1 l1 where 1: "push_assertion cfg c a l s = (Inr l1, s1)" "push_move cfg J I (s, l) (s1, l1)"
    by (rule push_assertion_moves [where s = s and cfg = cfg and a = a and J = J and c = c and l = l]) (use Cons.prems in auto)
  obtain s2 l2 where 2: "push_assertions cfg c as l1 s1 = (Inr l2, s2)" "moves cfg J I (s1, l1) (s2, l2)"
    using Cons.IH [of s1 l1] moves_readable(1) [of cfg J I s l s1 l1] 1(2) Cons.prems by auto
  with 1 have "push_assertions cfg c (a # as) l s = (Inr l2, s2)" "moves cfg J I (s, l) (s2, l2)"
    by (auto simp: bind_fed_run intro: converse_rtranclp_into_rtranclp)
  then show ?case by blast
qed

lemma push_edges_moves:
  assumes "readable (nd_vault (fd_node s)) (fc_persona cfg)" and "list_all hex_id ids"
    and "\<And>r m. own_act cfg (nd_vault (fd_node s)) lin r m \<Longrightarrow> J r m"
  shows "\<exists>s' l'. push_edges cfg lin ids l s = (Inr l', s') \<and> moves cfg J I (s, l) (s', l')"
  using assms
proof (induction ids arbitrary: s l)
  case Nil
  then show ?case by (simp add: return_fed_def)
next
  case (Cons i ids)
  let ?p = "fc_persona cfg" and ?v = "nd_vault (fd_node s)"
  from Cons.prems(1,2) obtain ps where "require_persona ?v ?p = Inr ps" "hex_id i" by (auto simp: readable_def)
  then obtain held as where g: "get_edge ?v ?p i = Inr held" "get_assertions ?v ?p i = Inr as"
    by (auto simp: get_edge_def get_assertions_def edge_dir_def assert_hex_id_def)
  have "\<exists>s1 l1. push_edge cfg lin i l s = (Inr l1, s1) \<and> moves cfg J I (s, l) (s1, l1)"
  proof (cases "\<exists>e. held = Some e \<and> is_party_or_successor e ?p lin")
    case False
    then have "push_edge cfg lin i l s = (Inr l, s)"
      by (auto simp: push_edge_def bind_fed_def on_node_read g return_fed_def split: option.split)
    then show ?thesis by blast
  next
    case True
    then obtain e where e: "held = Some e" "is_party_or_successor e ?p lin" by blast
    then have "push_edge cfg lin i l s = push_assertions cfg (addressee ?p e lin) as l s"
      by (simp add: push_edge_def bind_fed_def on_node_read g)
    moreover have "J (addressee ?p e lin) m" if "a \<in> set as" "a_by a = ?p" "wm_type m = MAssert" "wm_sender m = ?p"
      "wm_recipient m = addressee ?p e lin" "wm_payload m = Some (assert_payload a)" for a m
      using that e g by (intro Cons.prems(3)) (auto simp: own_act_def)
    ultimately show ?thesis using push_assertions_moves [OF Cons.prems(1), where as = as and J = J and c = "addressee ?p e lin" and l = l] by auto
  qed
  then obtain s1 l1 where 1: "push_edge cfg lin i l s = (Inr l1, s1)" "moves cfg J I (s, l) (s1, l1)" by blast
  note r1 = moves_readable [OF 1(2) Cons.prems(1)]
  obtain s2 l2 where 2: "push_edges cfg lin ids l1 s1 = (Inr l2, s2)" "moves cfg J I (s1, l1) (s2, l2)"
    using Cons.IH [of s1 l1] r1 Cons.prems(2,3) own_act_notes [OF r1(2)] by auto
  with 1 have "push_edges cfg lin (i # ids) l s = (Inr l2, s2)" "moves cfg J I (s, l) (s2, l2)" by (simp_all add: bind_fed_run)
  then show ?case by blast
qed

section \<open>The second round of push\<close>

lemma note_use_set: "set (note_use seen ts) = set seen \<union> set ts"
  by (induction ts arbitrary: seen) auto

lemma note_use_distinct: "distinct seen \<Longrightarrow> distinct (note_use seen ts)"
  by (induction ts arbitrary: seen) auto

text \<open>The couriers that refused to flush, in order.\<close>

fun refusals :: "courier list \<Rightarrow> string option list \<Rightarrow> (courier \<times> string) list" where
  "refusals (t # ts) (out # outs) = (case out of None \<Rightarrow> [] | Some why \<Rightarrow> [(t, why)]) @ refusals ts outs"
| "refusals _ _ = []"

lemma flush_all_run:
  "\<exists>outs. length outs = length ts \<and>
     (flush_all cfg ts failed s :: ('e, (courier \<times> string) list) result \<times> federated) = (Inr (failed @ refusals ts outs), s\<lparr>fd_calls := fd_calls s @ map2 Flushed ts outs\<rparr>)"
proof (induction ts arbitrary: failed s)
  case Nil
  then show ?case by (simp add: return_fed_def)
next
  case (Cons t ts)
  let ?out = "cn_sync (fc_net cfg) (length (fd_calls s)) t"
  obtain outs where "length outs = length ts" "flush_all cfg ts (case ?out of None \<Rightarrow> failed | Some why \<Rightarrow> failed @ [(t, why)])
      (s\<lparr>fd_calls := fd_calls s @ [Flushed t ?out]\<rparr>) = (
       Inr ((case ?out of None \<Rightarrow> failed | Some why \<Rightarrow> failed @ [(t, why)]) @ refusals ts outs) :: ('e, (courier \<times> string) list) result,
       s\<lparr>fd_calls := fd_calls s @ Flushed t ?out # map2 Flushed ts outs\<rparr>)"
    using Cons.IH [of "case ?out of None \<Rightarrow> failed | Some why \<Rightarrow> failed @ [(t, why)]" "s\<lparr>fd_calls := fd_calls s @ [Flushed t ?out]\<rparr>"]
    by auto
  then show ?case
    by (intro exI [of _ "?out # outs"]) (cases ?out; simp add: bind_fed_def call_sync_def Let_def)
qed

lemma refusals_of:
  assumes "distinct ts" and "length outs = length ts" and "t \<in> set ts"
  shows "map_of (refusals ts outs) t = None \<longleftrightarrow> Flushed t None \<in> set (map2 Flushed ts outs)"
  using assms
proof (induction ts outs rule: refusals.induct)
  case (1 u ts out outs)
  have n: "map_of (refusals ts outs) u = None" if "u \<notin> set ts" "length outs = length ts" for ts outs
    using that by (induction ts outs rule: refusals.induct) (auto split: option.splits)
  have m: "Flushed u None \<notin> set (map2 Flushed ts outs)" if "u \<notin> set ts" for ts outs
    using that by (auto dest: set_zip_leftD)
  show ?case
  proof (cases "t = u")
    case True
    with 1 n [of ts outs] m [of ts outs] show ?thesis by (auto split: option.splits)
  next
    case False
    with 1 show ?thesis by (auto split: option.splits)
  qed
qed auto

text \<open>What settling may write: for an item a flushed courier took, that it was sent and how.\<close>

definition sent_by :: "fed_config \<Rightarrow> (courier \<times> string) list \<Rightarrow> handed_over list \<Rightarrow> outbox_item \<Rightarrow> bool" where
  "sent_by cfg failed hs y \<longleftrightarrow> (\<exists>h \<in> set hs. \<exists>x. ho_item h = Some x \<and> ob_id x = ob_id y \<and> map_of failed (ho_courier h) = None \<and>
     od_sent_via (ob_delivery y) = Some (cn_kind (fc_net cfg) (ho_courier h)))"

definition same_sending :: "outbox_item \<Rightarrow> outbox_item \<Rightarrow> bool" where
  "same_sending x y \<longleftrightarrow> od_sent_at (ob_delivery y) = od_sent_at (ob_delivery x) \<and> od_sent_via (ob_delivery y) = od_sent_via (ob_delivery x)"

definition settled :: "fed_config \<Rightarrow> (courier \<times> string) list \<Rightarrow> handed_over list \<Rightarrow> node \<Rightarrow> node \<Rightarrow> bool" where
  "settled cfg failed hs d d' \<longleftrightarrow> nd_local d' = nd_local d \<and> deliveries_only (nd_vault d) (nd_vault d') \<and>
     readable (nd_vault d') (fc_persona cfg) \<and>
     (\<forall>j y. outbox_entry (nd_vault d') (fc_persona cfg) j = Some y \<longrightarrow>
       (\<exists>x. outbox_entry (nd_vault d) (fc_persona cfg) j = Some x \<and> undelivered y = undelivered x \<and>
         od_acknowledged_at (ob_delivery y) = od_acknowledged_at (ob_delivery x) \<and> (same_sending x y \<or> sent_by cfg failed hs y)))"

lemma undelivered_id:
  fixes x y :: outbox_item
  assumes "undelivered y = undelivered x"
  shows "ob_id y = ob_id x" and "ob_recipient y = ob_recipient x" and "ob_message y = ob_message x"
  using arg_cong [OF assms, of ob_id] arg_cong [OF assms, of ob_recipient] arg_cong [OF assms, of ob_message]
  by (simp_all add: undelivered_def)

lemma standing_keeps:
  fixes x y :: outbox_item
  assumes "standing y = standing x"
  shows "undelivered y = undelivered x" and "od_acknowledged_at (ob_delivery y) = od_acknowledged_at (ob_delivery x)"
    and "same_sending x y"
  using arg_cong [OF assms, of undelivered] arg_cong [OF assms, of "\<lambda>x. od_acknowledged_at (ob_delivery x)"]
    arg_cong [OF assms, of "\<lambda>x. od_sent_at (ob_delivery x)"] arg_cong [OF assms, of "\<lambda>x. od_sent_via (ob_delivery x)"]
  by (simp_all add: standing_def undelivered_def same_sending_def)

lemma sent_by_append [simp]: "sent_by cfg failed (hs @ hs') y \<longleftrightarrow> sent_by cfg failed hs y \<or> sent_by cfg failed hs' y"
  by (auto simp: sent_by_def)

lemma sent_by_same: "sent_by cfg failed hs y \<Longrightarrow> same_sending y z \<Longrightarrow> ob_id z = ob_id y \<Longrightarrow> sent_by cfg failed hs z"
  by (auto simp: sent_by_def same_sending_def)

lemma same_sending_trans: "same_sending x y \<Longrightarrow> same_sending y z \<Longrightarrow> same_sending x z"
  by (simp add: same_sending_def)

lemma settled_trans:
  assumes "settled cfg failed hs a b" and "settled cfg failed hs' b c"
  shows "settled cfg failed (hs @ hs') a c"
proof -
  have "\<exists>x. outbox_entry (nd_vault a) (fc_persona cfg) j = Some x \<and> undelivered z = undelivered x \<and>
      od_acknowledged_at (ob_delivery z) = od_acknowledged_at (ob_delivery x) \<and> (same_sending x z \<or> sent_by cfg failed (hs @ hs') z)"
    if z: "outbox_entry (nd_vault c) (fc_persona cfg) j = Some z" for j z
  proof -
    from assms(2) z obtain y where y: "outbox_entry (nd_vault b) (fc_persona cfg) j = Some y" "undelivered z = undelivered y"
      "od_acknowledged_at (ob_delivery z) = od_acknowledged_at (ob_delivery y)" "same_sending y z \<or> sent_by cfg failed hs' z"
      unfolding settled_def by blast
    from assms(1) y(1) obtain x where x: "outbox_entry (nd_vault a) (fc_persona cfg) j = Some x" "undelivered y = undelivered x"
      "od_acknowledged_at (ob_delivery y) = od_acknowledged_at (ob_delivery x)" "same_sending x y \<or> sent_by cfg failed hs y"
      unfolding settled_def by blast
    have "ob_id z = ob_id y" using y(2) by (rule undelivered_id(1))
    with x y show ?thesis by (auto intro: sent_by_same same_sending_trans)
  qed
  with assms show ?thesis by (auto simp: settled_def intro: deliveries_only_trans)
qed

lemma notes_settled: "notes_only (fc_persona cfg) d d' \<Longrightarrow> settled cfg failed hs d d'"
proof -
  assume n: "notes_only (fc_persona cfg) d d'"
  have "\<exists>x. outbox_entry (nd_vault d) (fc_persona cfg) j = Some x \<and> standing y = standing x"
    if "outbox_entry (nd_vault d') (fc_persona cfg) j = Some y" for j y
    using n that by (metis (no_types, lifting) map_option_eq_Some notes_only_def)
  with n standing_keeps show ?thesis unfolding settled_def notes_only_def by blast
qed

lemma settled_refl: "readable (nd_vault d) (fc_persona cfg) \<Longrightarrow> settled cfg failed hs d d"
  using notes_settled notes_only_refl by blast

text \<open>One entry of what was handed over: its note of failure, its record of sending, or nothing.\<close>

definition settles :: "fed_config \<Rightarrow> (courier \<times> string) list \<Rightarrow> handed_over list \<Rightarrow> federated \<Rightarrow> federated \<Rightarrow> bool" where
  "settles cfg failed hs s s' \<longleftrightarrow> settled cfg failed hs (fd_node s) (fd_node s') \<and> fd_calls s' = fd_calls s \<and>
     fd_sent s' = fd_sent s \<and> fd_sent_assertions s' = fd_sent_assertions s \<and> fd_budget s' = fd_budget s"

lemma settles_trans: "settles cfg failed hs a b \<Longrightarrow> settles cfg failed hs' b c \<Longrightarrow> settles cfg failed (hs @ hs') a c"
  unfolding settles_def by (auto intro: settled_trans)

lemma settles_readable: "settles cfg failed hs s s' \<Longrightarrow> readable (nd_vault (fd_node s')) (fc_persona cfg)"
  by (simp add: settles_def settled_def)

lemma record_sent_run:
  assumes "readable (nd_vault (fd_node s)) (fc_persona cfg)" and "hex_id (ob_id item)"
    and "ho_item h = Some item" and "map_of failed (ho_courier h) = None"
  shows "\<exists>s'. record_sent cfg tm (ho_courier h) item s = (Inr (), s') \<and> settles cfg failed [h] s s'"
proof (cases "od_sent_at (ob_delivery item) \<noteq> None \<and> od_sent_via (ob_delivery item) = Some (cn_kind (fc_net cfg) (ho_courier h))")
  case True
  with assms(1) show ?thesis by (auto simp: record_sent_def return_fed_def settles_def settled_refl)
next
  case False
  let ?was = "ob_delivery item" and ?kind = "cn_kind (fc_net cfg) (ho_courier h)" and ?d = "fd_node s"
  let ?patch = "\<lambda>d. d\<lparr>od_sent_at := Some tm, od_sent_via := Some ?kind, od_attempts := Suc (od_attempts ?was),
    od_last_attempt_at := Some tm, od_last_error := None, od_unroutable_since := None\<rparr>"
  obtain v where v: "patch_delivery cfg item ?patch s = (Inr (), s\<lparr>fd_node := ?d\<lparr>nd_vault := v\<rparr>\<rparr>)"
    "deliveries_only (nd_vault ?d) v" "readable v (fc_persona cfg)" "entry_patched (fc_persona cfg) (ob_id item) ?patch (nd_vault ?d) v"
    by (rule patch_delivery_run [OF assms(1,2) refl, of ?patch])
  have run: "record_sent cfg tm (ho_courier h) item s = (Inr (), s\<lparr>fd_node := ?d\<lparr>nd_vault := v\<rparr>\<rparr>)"
    using False v(1) by (auto simp: record_sent_def Let_def)
  have "\<exists>x. outbox_entry (nd_vault ?d) (fc_persona cfg) j = Some x \<and> undelivered y = undelivered x \<and>
      od_acknowledged_at (ob_delivery y) = od_acknowledged_at (ob_delivery x) \<and> (same_sending x y \<or> sent_by cfg failed [h] y)"
    if "outbox_entry v (fc_persona cfg) j = Some y" for j y
  proof (cases "j = ob_id item")
    case True
    with that v(4) obtain x where x: "outbox_entry (nd_vault ?d) (fc_persona cfg) j = Some x" "y = x\<lparr>ob_delivery := ?patch (ob_delivery x)\<rparr>"
      by (auto simp: entry_patched_def)
    from assms(1) x(1) True have "ob_id x = ob_id item"
      by (auto simp: readable_def outbox_entry_def named_by_def)
    with x assms(3,4) show ?thesis by (simp add: undelivered_def sent_by_def)
  next
    case False
    with that v(4) show ?thesis by (auto simp: entry_patched_def same_sending_def)
  qed
  with v(2,3) have "settles cfg failed [h] s (s\<lparr>fd_node := ?d\<lparr>nd_vault := v\<rparr>\<rparr>)"
    by (simp add: settles_def settled_def)
  with run show ?thesis by blast
qed

lemma settle_run:
  assumes "readable (nd_vault (fd_node s)) (fc_persona cfg)"
    and "\<forall>h \<in> set hs. \<forall>x. ho_item h = Some x \<longrightarrow> hex_id (ob_id x)"
  shows "\<exists>n' fs' s'. settle cfg tm failed hs (n, fs) s = (Inr (n', fs @ fs'), s') \<and> settles cfg failed hs s s' \<and>
    n' = n + length (filter (\<lambda>h. map_of failed (ho_courier h) = None) hs) \<and>
    length fs' = length (filter (\<lambda>h. map_of failed (ho_courier h) \<noteq> None) hs)"
  using assms
proof (induction hs arbitrary: s n fs)
  case Nil
  then show ?case by (simp add: return_fed_def settles_def settled_refl)
next
  case (Cons h hs)
  have "\<exists>s1 n1 fs1. settle cfg tm failed (h # hs) (n, fs) s = settle cfg tm failed hs (n1, fs @ fs1) s1 \<and> settles cfg failed [h] s s1 \<and>
      (if map_of failed (ho_courier h) = None then n1 = Suc n \<and> fs1 = [] else n1 = n \<and> length fs1 = 1)"
  proof (cases "map_of failed (ho_courier h)")
    case None
    obtain s1 where "(case ho_item h of None \<Rightarrow> return_fed () | Some item \<Rightarrow> record_sent cfg tm (ho_courier h) item) s = (Inr (), s1)"
      "settles cfg failed [h] s s1"
    proof (cases "ho_item h")
      case None
      then show thesis using Cons.prems(1) that by (simp add: return_fed_def settles_def settled_refl)
    next
      case (Some item)
      with record_sent_run [OF Cons.prems(1) _ Some None] Cons.prems(2) that show thesis by auto
    qed
    with None show ?thesis by (auto simp: bind_fed_run intro!: exI [of _ "[] :: delivery_failure list"])
  next
    case (Some why)
    obtain s1 where "(case ho_item h of None \<Rightarrow> return_fed () | Some item \<Rightarrow> note_failure cfg item (CourierRefuses why)) s = (Inr (), s1)"
      "settles cfg failed [h] s s1"
    proof (cases "ho_item h")
      case None
      then show thesis using Cons.prems(1) that by (simp add: return_fed_def settles_def settled_refl)
    next
      case (Some item)
      obtain d where "note_failure cfg item (CourierRefuses why) s = (Inr (), s\<lparr>fd_node := d, fd_ticks := Suc (fd_ticks s)\<rparr>)"
        "notes_only (fc_persona cfg) (fd_node s) d"
        using note_failure_run [OF Cons.prems(1), of item] Cons.prems(2) Some by auto
      with Some that show thesis by (simp add: settles_def notes_settled)
    qed
    with Some show ?thesis
      by (intro exI [of _ s1] exI [of _ n]
          exI [of _ "[failure_of cfg (map_option ob_id (ho_item h)) (ho_recipient h) (ho_type h) (CourierRefuses why)]"])
        (simp add: bind_fed_run)
  qed
  then obtain s1 n1 fs1 where 1: "settle cfg tm failed (h # hs) (n, fs) s = settle cfg tm failed hs (n1, fs @ fs1) s1"
    "settles cfg failed [h] s s1"
    "if map_of failed (ho_courier h) = None then n1 = Suc n \<and> fs1 = [] else n1 = n \<and> length fs1 = 1" by blast
  obtain n2 fs2 s2 where 2: "settle cfg tm failed hs (n1, fs @ fs1) s1 = (Inr (n2, (fs @ fs1) @ fs2), s2)" "settles cfg failed hs s1 s2"
    "n2 = n1 + length (filter (\<lambda>h. map_of failed (ho_courier h) = None) hs)"
    "length fs2 = length (filter (\<lambda>h. map_of failed (ho_courier h) \<noteq> None) hs)"
    using Cons.IH [OF settles_readable [OF 1(2)], of n1 "fs @ fs1"] Cons.prems(2) by auto
  with 1 settles_trans [OF 1(2) 2(2)] show ?case
    by (intro exI [of _ n2] exI [of _ "fs1 @ fs2"] exI [of _ s2]) (auto split: if_splits)
qed

section \<open>A whole push\<close>

definition sendable :: "fed_config \<Rightarrow> vault \<Rightarrow> outbox_item list \<Rightarrow> (persona_id \<Rightarrow> party_key list) \<Rightarrow> persona_id \<Rightarrow> wire_message \<Rightarrow> bool" where
  "sendable cfg v items lin r m \<longleftrightarrow>
     (wm_recipient m = r \<and> (\<exists>item \<in> set items. verify_message (fc_lib cfg) (JObj (ob_message item)) = Some m \<and> ob_recipient item = r)) \<or>
     own_act cfg v lin r m"

definition lineage_in :: "crypto_lib \<Rightarrow> vault \<Rightarrow> persona_id \<Rightarrow> persona_id \<Rightarrow> party_key list" where
  "lineage_in cl v p = (case list_rotations v p of Inl _ \<Rightarrow> no_rotation | Inr rs \<Rightarrow> successor_resolver cl rs)"

definition empty_log :: push_log where
  "empty_log = \<lparr>pl_failures = [], pl_handed = []\<rparr>"

lemma listed_ids:
  assumes "readable v p" and "list_outbox v p = Inr items" and "x \<in> set items"
  shows "outbox_entry v p (ob_id x) = Some x" and "hex_id (ob_id x)"
proof -
  from assms(1) obtain ps where ps: "require_persona v p = Inr ps" "list_all hex_id (dir_names (ps_outbox ps))"
    by (auto simp: readable_def)
  show e: "outbox_entry v p (ob_id x) = Some x" using listed_entry [OF readable_mailbox] assms by blast
  then have "(ob_id x, x) \<in> set (ps_outbox ps)" by (simp add: outbox_entry_def ps(1) dir_get_def map_of_SomeD)
  then show "hex_id (ob_id x)" using ps(2) by (force simp: list_all_iff dir_names_def)
qed

text \<open>The first round, up to the flush.\<close>

lemma first_round:
  assumes rd: "readable (nd_vault (fd_node s)) (fc_persona cfg)"
    and items: "list_outbox (nd_vault (fd_node s)) (fc_persona cfg) = Inr items"
  obtains s1 l1 where "deliver_all cfg s =
      bind_fed (flush_all cfg (touched cfg (pl_handed l1)) []) (\<lambda>failed. bind_fed (read_clock cfg) (\<lambda>tm.
        settle cfg tm failed (pl_handed l1) (0, pl_failures l1))) s1"
    and "moves cfg (sendable cfg (nd_vault (fd_node s)) items (lineage_in (fc_lib cfg) (nd_vault (fd_node s)) (fc_persona cfg)))
      (set items) (s, empty_log) (s1, l1)"
    and "\<forall>item m t i. item \<in> set items \<longrightarrow> due cfg item m t i \<longrightarrow> traced s t m i s1"
proof -
  let ?v = "nd_vault (fd_node s)" and ?p = "fc_persona cfg"
  let ?lin = "lineage_in (fc_lib cfg) ?v ?p" and ?J = "sendable cfg ?v items (lineage_in (fc_lib cfg) ?v ?p)"
  from rd obtain ps where ps: "require_persona ?v ?p = Inr ps" "list_all hex_id (dir_names (ps_edges ps))" by (auto simp: readable_def)
  obtain s1 l1 where 1: "push_items cfg items empty_log s = (Inr l1, s1)" "moves cfg ?J (set items) (s, empty_log) (s1, l1)"
    "\<And>item m t i. item \<in> set items \<Longrightarrow> due cfg item m t i \<Longrightarrow> traced s t m i s1"
    by (rule push_items_moves [where J = ?J and I = "set items" and l = empty_log, OF rd])
      (use listed_ids(2) [OF rd items] in \<open>auto simp: sendable_def\<close>)
  note n1 = moves_readable [OF 1(2) rd]
  then have do1: "deliveries_only ?v (nd_vault (fd_node s1))" by (simp add: notes_only_def)
  obtain rs where rs: "list_rotations ?v ?p = Inr rs" using ps(1) by (simp add: list_rotations_def)
  have lin: "party_lineage (fc_lib cfg) ?p (fd_node s1) = (Inr ?lin, fd_node s1)"
    using deliveries_only_rotations [OF do1] rs by (simp add: party_lineage_def read_vault_def lineage_in_def)
  have ids: "list_edge_ids (nd_vault (fd_node s1)) ?p = Inr (dir_names (ps_edges ps))"
    using deliveries_only_edges [OF do1] ps(1) by (simp add: list_edge_ids_def)
  have J: "?J r m" if "own_act cfg (nd_vault (fd_node s1)) ?lin r m" for r m
    using that unfolding own_act_notes [OF n1(2)] sendable_def by (rule disjI2)
  have "\<exists>s2 l2. push_edges cfg ?lin (dir_names (ps_edges ps)) l1 s1 = (Inr l2, s2) \<and> moves cfg ?J (set items) (s1, l1) (s2, l2)"
    by (rule push_edges_moves [OF n1(1) ps(2)]) (rule J)
  then obtain s2 l2 where 2: "push_edges cfg ?lin (dir_names (ps_edges ps)) l1 s1 = (Inr l2, s2)"
    "moves cfg ?J (set items) (s1, l1) (s2, l2)" by (elim exE conjE)
  obtain cs where cs: "fd_calls s1 = fd_calls s @ cs" using 1(2) rd by (rule moves_account)
  obtain cs' where cs': "fd_calls s2 = fd_calls s1 @ cs'" "set (fd_sent s1) \<subseteq> set (fd_sent s2)"
    using 2(2) n1(1) by (rule moves_account)
  show thesis
  proof (rule that)
    have r: "on_node NodeStopped (read_vault (\<lambda>v. list_outbox v ?p)) s = (Inr items, s)"
      "on_node NodeStopped (party_lineage (fc_lib cfg) ?p) s1 = (Inr ?lin, s1)"
      "on_node NodeStopped (read_vault (\<lambda>v. list_edge_ids v ?p)) s1 = (Inr (dir_names (ps_edges ps)), s1)"
      using items lin ids by (simp_all add: on_node_read) (simp add: on_node_def)
    show "deliver_all cfg s = bind_fed (flush_all cfg (touched cfg (pl_handed l2)) []) (\<lambda>failed. bind_fed (read_clock cfg) (\<lambda>tm.
        settle cfg tm failed (pl_handed l2) (0, pl_failures l2))) s2"
      unfolding deliver_all_def empty_log_def [symmetric]
      by (simp only: bind_fed_def r 1(1) 2(1) prod.case sum.case)
    show "moves cfg ?J (set items) (s, empty_log) (s2, l2)" using 1(2) 2(2) by simp
    show "\<forall>item m t i. item \<in> set items \<longrightarrow> due cfg item m t i \<longrightarrow> traced s t m i s2"
      using 1(3) traced_later [OF _ cs cs'] by blast
  qed
qed

text \<open>The second round, and the whole: each courier that took a message is flushed once, then the home one.\<close>

definition flushes :: "courier list \<Rightarrow> courier_call list \<Rightarrow> bool" where
  "flushes ts fls \<longleftrightarrow> distinct ts \<and> (\<exists>outs. length outs = length ts \<and> fls = map2 Flushed ts outs)"

lemma second_round:
  assumes "readable (nd_vault (fd_node s)) (fc_persona cfg)"
    and "\<forall>h \<in> set hs. \<forall>x. ho_item h = Some x \<longrightarrow> hex_id (ob_id x)"
  obtains n gs s' fls failed where "bind_fed (flush_all cfg (touched cfg hs) []) (\<lambda>failed. bind_fed (read_clock cfg) (\<lambda>tm.
        settle cfg tm failed hs (0, fs))) s = (Inr (n, fs @ gs), s')"
    and "fd_calls s' = fd_calls s @ fls" and "flushes (touched cfg hs) fls"
    and "settled cfg failed hs (fd_node s) (fd_node s')"
    and "\<forall>t \<in> set (touched cfg hs). map_of failed t = None \<longleftrightarrow> Flushed t None \<in> set fls"
    and "gs = [] \<longleftrightarrow> (\<forall>h \<in> set hs. Flushed (ho_courier h) None \<in> set fls)"
    and "fd_sent s' = fd_sent s" and "fd_sent_assertions s' = fd_sent_assertions s" and "fd_budget s' = fd_budget s"
    and "n = length (filter (\<lambda>h. Flushed (ho_courier h) None \<in> set fls) hs)"
proof -
  let ?ts = "touched cfg hs"
  have d: "distinct ?ts" and hs: "ho_courier h \<in> set ?ts" if "h \<in> set hs" for h
    using that by (simp_all add: touched_def note_use_set note_use_distinct)
  have d: "distinct ?ts" by (simp add: touched_def note_use_distinct)
  obtain outs where outs: "length outs = length ?ts" "(flush_all cfg ?ts [] s :: (fed_error, _) result \<times> _) =
      (Inr (refusals ?ts outs), s\<lparr>fd_calls := fd_calls s @ map2 Flushed ?ts outs\<rparr>)"
    using flush_all_run [of ?ts cfg "[]" s] by auto
  let ?failed = "refusals ?ts outs" and ?fls = "map2 Flushed ?ts outs"
  let ?s1 = "s\<lparr>fd_calls := fd_calls s @ ?fls\<rparr>"
  let ?s2 = "?s1\<lparr>fd_ticks := Suc (fd_ticks s)\<rparr>"
  have ok: "map_of ?failed t = None \<longleftrightarrow> Flushed t None \<in> set ?fls" if "t \<in> set ?ts" for t
    by (rule refusals_of [OF d outs(1) that])
  from assms(1) have "readable (nd_vault (fd_node ?s2)) (fc_persona cfg)" by simp
  then obtain n gs s' where st: "settle cfg (fc_clk cfg (fd_ticks s)) ?failed hs (0, fs) ?s2 = (Inr (n, fs @ gs), s')"
    "settles cfg ?failed hs ?s2 s'" "n = 0 + length (filter (\<lambda>h. map_of ?failed (ho_courier h) = None) hs)"
    "length gs = length (filter (\<lambda>h. map_of ?failed (ho_courier h) \<noteq> None) hs)"
    using settle_run [where s = ?s2 and cfg = cfg and hs = hs and tm = "fc_clk cfg (fd_ticks s)" and failed = ?failed and n = 0 and fs = fs,
        OF _ assms(2)] by blast
  show thesis
  proof (rule that)
    show "bind_fed (flush_all cfg ?ts []) (\<lambda>failed. bind_fed (read_clock cfg) (\<lambda>tm. settle cfg tm failed hs (0, fs))) s =
        (Inr (n, fs @ gs), s')"
      using st(1) by (simp add: bind_fed_def outs(2) read_clock_def)
    show "fd_calls s' = fd_calls s @ ?fls" "settled cfg ?failed hs (fd_node s) (fd_node s')" "fd_sent s' = fd_sent s"
      "fd_sent_assertions s' = fd_sent_assertions s" "fd_budget s' = fd_budget s" using st(2) by (simp_all add: settles_def)
    show "flushes ?ts ?fls" using d outs(1) by (auto simp: flushes_def)
    show "\<forall>t \<in> set ?ts. map_of ?failed t = None \<longleftrightarrow> Flushed t None \<in> set ?fls" using ok by blast
    have eq: "filter (\<lambda>h. map_of ?failed (ho_courier h) = None) hs = filter (\<lambda>h. Flushed (ho_courier h) None \<in> set ?fls) hs"
      by (rule filter_cong) (use ok hs in auto)
    then show "n = length (filter (\<lambda>h. Flushed (ho_courier h) None \<in> set ?fls) hs)" using st(3) by simp
    show "gs = [] \<longleftrightarrow> (\<forall>h \<in> set hs. Flushed (ho_courier h) None \<in> set ?fls)"
    proof -
      have "gs = [] \<longleftrightarrow> filter (\<lambda>h. map_of ?failed (ho_courier h) \<noteq> None) hs = []" using st(4) by (metis length_0_conv)
      also have "\<dots> \<longleftrightarrow> (\<forall>h \<in> set hs. map_of ?failed (ho_courier h) = None)" by (simp add: filter_empty_conv)
      finally show ?thesis using ok hs by blast
    qed
  qed
qed

text \<open>
  A push is two rounds of calls: messages, each justified, then one flush of every courier that took one and of
  the home courier. It ends by itself, with a count or with an account of failures.
\<close>

record push_report =
  pr_messages :: "courier_call list"
  pr_flushes :: "courier_call list"
  pr_taken :: "handed_over list"

definition took :: "courier_call list \<Rightarrow> courier set" where
  "took cs = {t. \<exists>r m. Handed t r m None \<in> set cs}"

definition pushed :: "fed_config \<Rightarrow> outbox_item list \<Rightarrow> federated \<Rightarrow> push_report \<Rightarrow> federated \<Rightarrow> bool" where
  "pushed cfg items s r s' \<longleftrightarrow>
     fd_calls s' = fd_calls s @ pr_messages r @ pr_flushes r \<and>
     accounted cfg (sendable cfg (nd_vault (fd_node s)) items (lineage_in (fc_lib cfg) (nd_vault (fd_node s)) (fc_persona cfg))) (pr_messages r) \<and>
     (\<exists>fs. logged cfg (set items) (pr_taken r) fs (pr_messages r)) \<and>
     (\<exists>ts. set ts = insert (cn_home (fc_net cfg)) (took (pr_messages r)) \<and> flushes ts (pr_flushes r)) \<and>
     nd_local (fd_node s') = nd_local (fd_node s) \<and> deliveries_only (nd_vault (fd_node s)) (nd_vault (fd_node s')) \<and>
     fd_budget s' = fd_budget s \<and> set (fd_sent s) \<subseteq> set (fd_sent s') \<and>
     set (fd_sent_assertions s) \<subseteq> set (fd_sent_assertions s')"

lemma traced_known:
  assumes "traced s t m i s1" and "fd_calls s1 = fd_calls s @ cs"
    and "\<forall>i \<in> set (fd_sent s1). i \<in> set (fd_sent s) \<or>
      (\<exists>t m. message_id cl m = Some i \<and> Handed t (wm_recipient m) m None \<in> set cs)"
    and "message_id cl m = Some i"
  shows "i \<in> set (fd_sent s) \<or> (\<exists>t' m' out. message_id cl m' = Some i \<and> Handed t' (wm_recipient m') m' out \<in> set cs)"
  using assms unfolding traced_def by (metis append_eq_conv_conj)

lemma push_run:
  assumes rd: "readable (nd_vault (fd_node s)) (fc_persona cfg)"
    and items: "list_outbox (nd_vault (fd_node s)) (fc_persona cfg) = Inr items"
  obtains res s' r where "push cfg s = (res, s')" and "pushed cfg items s r s'"
    and "\<And>item m t i. item \<in> set items \<Longrightarrow> due cfg item m t i \<Longrightarrow> i \<in> set (fd_sent s) \<or>
      (\<exists>t' m' out. message_id (fc_lib cfg) m' = Some i \<and> Handed t' (wm_recipient m') m' out \<in> set (pr_messages r))"
    and "\<And>item m t i. item \<in> set items \<Longrightarrow> due cfg item m t i \<Longrightarrow> i \<in> set (fd_sent s') \<or>
      (\<exists>why. Handed t (wm_recipient m) m (Some why) \<in> set (pr_messages r))"
    and "(\<exists>n. res = Inr n \<and> (\<forall>t \<in> took (pr_messages r). Flushed t None \<in> set (pr_flushes r)) \<and>
        (\<forall>t q m out. Handed t q m out \<in> set (pr_messages r) \<longrightarrow> out = None)) \<or>
      (\<exists>n fs. res = Inl (OutboundDelivery n fs) \<and> fs \<noteq> [])"
    and "\<And>j y. outbox_entry (nd_vault (fd_node s')) (fc_persona cfg) j = Some y \<Longrightarrow>
      \<exists>x. outbox_entry (nd_vault (fd_node s)) (fc_persona cfg) j = Some x \<and>
      undelivered y = undelivered x \<and> od_acknowledged_at (ob_delivery y) = od_acknowledged_at (ob_delivery x) \<and>
      (same_sending x y \<or> (\<exists>h \<in> set (pr_taken r). \<exists>it. ho_item h = Some it \<and> ob_id it = ob_id y \<and>
        Flushed (ho_courier h) None \<in> set (pr_flushes r) \<and> od_sent_via (ob_delivery y) = Some (cn_kind (fc_net cfg) (ho_courier h))))"
proof -
  let ?v = "nd_vault (fd_node s)" and ?p = "fc_persona cfg" and ?home = "cn_home (fc_net cfg)"
  let ?J = "sendable cfg ?v items (lineage_in (fc_lib cfg) ?v ?p)"
  obtain s1 l1 where da: "deliver_all cfg s = bind_fed (flush_all cfg (touched cfg (pl_handed l1)) []) (\<lambda>failed.
      bind_fed (read_clock cfg) (\<lambda>tm. settle cfg tm failed (pl_handed l1) (0, pl_failures l1))) s1"
    and mv: "moves cfg ?J (set items) (s, empty_log) (s1, l1)"
    and tr: "\<forall>item m t i. item \<in> set items \<longrightarrow> due cfg item m t i \<longrightarrow> traced s t m i s1"
    using rd items by (rule first_round)
  obtain cs hs fs where ac: "fd_calls s1 = fd_calls s @ cs" "pl_handed l1 = pl_handed empty_log @ hs"
    "pl_failures l1 = pl_failures empty_log @ fs" "accounted cfg ?J cs" "logged cfg (set items) hs fs cs"
    "notes_only ?p (fd_node s) (fd_node s1)" "set (fd_sent s) \<subseteq> set (fd_sent s1)" "set (fd_sent_assertions s) \<subseteq> set (fd_sent_assertions s1)"
    and known: "\<forall>i \<in> set (fd_sent s1). i \<in> set (fd_sent s) \<or>
      (\<exists>t m. message_id (fc_lib cfg) m = Some i \<and> Handed t (wm_recipient m) m None \<in> set cs)"
    and b1: "fd_budget s1 = fd_budget s" using mv rd by (rule moves_account)
  have l1: "pl_handed l1 = hs" "pl_failures l1 = fs" using ac(2,3) by (simp_all add: empty_log_def)
  have rd1: "readable (nd_vault (fd_node s1)) ?p" using ac(6) by (simp add: notes_only_def)
  have hx: "\<forall>h \<in> set hs. \<forall>x. ho_item h = Some x \<longrightarrow> hex_id (ob_id x)"
    using ac(5) listed_ids(2) [OF rd items] unfolding logged_def by blast
  obtain n gs s' fls failed where run: "bind_fed (flush_all cfg (touched cfg hs) []) (\<lambda>failed. bind_fed (read_clock cfg) (\<lambda>tm.
        settle cfg tm failed hs (0, fs))) s1 = (Inr (n, fs @ gs), s')"
    and sr: "fd_calls s' = fd_calls s1 @ fls" "flushes (touched cfg hs) fls" "settled cfg failed hs (fd_node s1) (fd_node s')"
    and fl: "\<forall>t \<in> set (touched cfg hs). map_of failed t = None \<longleftrightarrow> Flushed t None \<in> set fls"
    and gs: "gs = [] \<longleftrightarrow> (\<forall>h \<in> set hs. Flushed (ho_courier h) None \<in> set fls)"
    and s': "fd_sent s' = fd_sent s1" "fd_sent_assertions s' = fd_sent_assertions s1" "fd_budget s' = fd_budget s1" using rd1 hx by (rule second_round)
  let ?r = "\<lparr>pr_messages = cs, pr_flushes = fls, pr_taken = hs\<rparr>"
  let ?res = "if fs @ gs \<noteq> [] then Inl (OutboundDelivery n (fs @ gs)) else Inr n"
  have tk: "ho_courier ` set hs = took cs" using ac(5) by (simp add: logged_def took_def)
  show thesis
  proof (rule that [of ?res s' ?r])
    show "push cfg s = (?res, s')" unfolding push_def bind_fed_def da [unfolded l1 run] by (simp add: throw_fed_def return_fed_def)
    have "set (touched cfg hs) = insert ?home (took cs)" by (simp add: touched_def note_use_set tk [symmetric])
    then show "pushed cfg items s ?r s'"
      using ac(1,4-8) sr b1 s' deliveries_only_trans unfolding pushed_def settled_def notes_only_def by auto
    show "i \<in> set (fd_sent s) \<or> (\<exists>t' m' out. message_id (fc_lib cfg) m' = Some i \<and> Handed t' (wm_recipient m') m' out \<in> set (pr_messages ?r))"
      if "item \<in> set items" "due cfg item m t i" for item m t i
    proof -
      from tr that have "traced s t m i s1" by blast
      from traced_known [OF this ac(1) known] that show ?thesis by (simp add: due_def)
    qed
    show "i \<in> set (fd_sent s') \<or> (\<exists>why. Handed t (wm_recipient m) m (Some why) \<in> set (pr_messages ?r))"
      if "item \<in> set items" "due cfg item m t i" for item m t i
      using tr that ac(1) s'(1) unfolding traced_def push_report.select_convs by (metis append_eq_conv_conj)
    have "\<forall>t \<in> took cs. Flushed t None \<in> set fls" if "gs = []" using gs that unfolding tk [symmetric] by blast
    moreover have "\<forall>t q m out. Handed t q m out \<in> set cs \<longrightarrow> out = None" if "fs = []"
      using ac(5) that unfolding logged_def by (metis option.exhaust)
    ultimately show "(\<exists>n. ?res = Inr n \<and> (\<forall>t \<in> took (pr_messages ?r). Flushed t None \<in> set (pr_flushes ?r)) \<and>
        (\<forall>t q m out. Handed t q m out \<in> set (pr_messages ?r) \<longrightarrow> out = None)) \<or>
      (\<exists>n fs. ?res = Inl (OutboundDelivery n fs) \<and> fs \<noteq> [])" by auto
    have "settled cfg failed hs (fd_node s) (fd_node s')"
      using settled_trans [OF notes_settled [OF ac(6), of failed "[]"] sr(3)] by simp
    moreover have "Flushed (ho_courier h) None \<in> set fls" if "h \<in> set hs" "map_of failed (ho_courier h) = None" for h
      using fl that by (simp add: touched_def note_use_set)
    ultimately show "\<exists>x. outbox_entry ?v ?p j = Some x \<and>
      undelivered y = undelivered x \<and> od_acknowledged_at (ob_delivery y) = od_acknowledged_at (ob_delivery x) \<and>
      (same_sending x y \<or> (\<exists>h \<in> set (pr_taken ?r). \<exists>it. ho_item h = Some it \<and> ob_id it = ob_id y \<and>
        Flushed (ho_courier h) None \<in> set (pr_flushes ?r) \<and> od_sent_via (ob_delivery y) = Some (cn_kind (fc_net cfg) (ho_courier h))))"
      if "outbox_entry (nd_vault (fd_node s')) ?p j = Some y" for j y
      using that unfolding settled_def sent_by_def push_report.select_convs by blast
  qed
qed

text \<open>What is said of an entry of the outbox after a push.\<close>

definition told :: "fed_config \<Rightarrow> push_report \<Rightarrow> outbox_item \<Rightarrow> outbox_item \<Rightarrow> bool" where
  "told cfg r x y \<longleftrightarrow> undelivered y = undelivered x \<and> od_acknowledged_at (ob_delivery y) = od_acknowledged_at (ob_delivery x) \<and>
     (same_sending x y \<or> (\<exists>h \<in> set (pr_taken r). \<exists>it. ho_item h = Some it \<and> ob_id it = ob_id y \<and>
        Flushed (ho_courier h) None \<in> set (pr_flushes r) \<and> od_sent_via (ob_delivery y) = Some (cn_kind (fc_net cfg) (ho_courier h))))"

lemma push_reported:
  assumes "readable (nd_vault (fd_node s)) (fc_persona cfg)" and "list_outbox (nd_vault (fd_node s)) (fc_persona cfg) = Inr items"
    and "push cfg s = (res, s')"
  obtains r where "pushed cfg items s r s'"
    and "\<forall>item m t i. item \<in> set items \<longrightarrow> due cfg item m t i \<longrightarrow> i \<in> set (fd_sent s) \<or>
      (\<exists>t' m' out. message_id (fc_lib cfg) m' = Some i \<and> Handed t' (wm_recipient m') m' out \<in> set (pr_messages r))"
    and "\<forall>item m t i. item \<in> set items \<longrightarrow> due cfg item m t i \<longrightarrow> i \<in> set (fd_sent s') \<or>
      (\<exists>why. Handed t (wm_recipient m) m (Some why) \<in> set (pr_messages r))"
    and "(\<exists>n. res = Inr n \<and> (\<forall>t \<in> took (pr_messages r). Flushed t None \<in> set (pr_flushes r)) \<and>
        (\<forall>t q m out. Handed t q m out \<in> set (pr_messages r) \<longrightarrow> out = None)) \<or>
      (\<exists>n fs. res = Inl (OutboundDelivery n fs) \<and> fs \<noteq> [])"
    and "\<forall>j y. outbox_entry (nd_vault (fd_node s')) (fc_persona cfg) j = Some y \<longrightarrow>
      (\<exists>x. outbox_entry (nd_vault (fd_node s)) (fc_persona cfg) j = Some x \<and> told cfg r x y)"
proof (rule push_run [OF assms(1,2)], goal_cases)
  case (1 res1 s1 r)
  from 1(2) assms(3) have eq: "res1 = res" "s1 = s'" by simp_all
  show ?case
    by (rule 1(1) [of r]) (use 1(3-7) in \<open>unfold eq told_def, blast+\<close>)
qed

section \<open>A push with nothing to say\<close>

text \<open>An item is at rest when it is acknowledged, cannot be verified, or was handed over by this process.\<close>

definition at_rest :: "fed_config \<Rightarrow> federated \<Rightarrow> outbox_item \<Rightarrow> bool" where
  "at_rest cfg s item \<longleftrightarrow> od_acknowledged_at (ob_delivery item) \<noteq> None \<or>
     verify_message (fc_lib cfg) (JObj (ob_message item)) = None \<or>
     (\<exists>m i. verify_message (fc_lib cfg) (JObj (ob_message item)) = Some m \<and> wm_recipient m = ob_recipient item \<and>
        message_id (fc_lib cfg) m = Some i \<and> i \<in> set (fd_sent s))"

definition acts_sent :: "fed_config \<Rightarrow> federated \<Rightarrow> bool" where
  "acts_sent cfg s \<longleftrightarrow> (\<forall>i e as. get_edge (nd_vault (fd_node s)) (fc_persona cfg) i = Inr (Some e) \<longrightarrow>
     get_assertions (nd_vault (fd_node s)) (fc_persona cfg) i = Inr as \<longrightarrow>
     (\<forall>a \<in> set as. a_by a = fc_persona cfg \<longrightarrow> a_sig a \<in> set (fd_sent_assertions s)))"

lemma idle_items:
  assumes "\<forall>item \<in> set items. at_rest cfg s item"
  shows "\<exists>sa. set (fd_sent_assertions s) \<subseteq> set sa \<and> push_items cfg items l s = (Inr l, s\<lparr>fd_sent_assertions := sa\<rparr>)"
  using assms
proof (induction items arbitrary: s)
  case Nil
  then show ?case by (auto simp: return_fed_def intro!: exI [of _ "fd_sent_assertions s"])
next
  case (Cons item items)
  have "\<exists>sa. set (fd_sent_assertions s) \<subseteq> set sa \<and> push_item cfg item l s = (Inr l, s\<lparr>fd_sent_assertions := sa\<rparr>)"
  proof (cases "od_acknowledged_at (ob_delivery item) \<noteq> None \<or> verify_message (fc_lib cfg) (JObj (ob_message item)) = None")
    case True
    then show ?thesis
      by (intro exI [of _ "fd_sent_assertions s"]) (auto simp: push_item_def return_fed_def split: option.split)
  next
    case False
    with Cons.prems obtain m i where m: "verify_message (fc_lib cfg) (JObj (ob_message item)) = Some m"
      "wm_recipient m = ob_recipient item" "message_id (fc_lib cfg) m = Some i" "i \<in> set (fd_sent s)" by (auto simp: at_rest_def)
    then have "emit cfg (ob_recipient item) m s = (Inr None, s)" by (simp add: emit_def return_fed_def)
    with False m(1) show ?thesis
      by (intro exI [of _ "case carried_signature m of None \<Rightarrow> fd_sent_assertions s | Some x \<Rightarrow> x # fd_sent_assertions s"])
        (auto simp: push_item_def fed_run split: option.split)
  qed
  then obtain sa where sa: "set (fd_sent_assertions s) \<subseteq> set sa" "push_item cfg item l s = (Inr l, s\<lparr>fd_sent_assertions := sa\<rparr>)" by blast
  have "\<forall>item \<in> set items. at_rest cfg (s\<lparr>fd_sent_assertions := sa\<rparr>) item" using Cons.prems by (simp add: at_rest_def)
  from Cons.IH [OF this] sa show ?case by (auto simp: bind_fed_run)
qed

lemma idle_edges:
  assumes "acts_sent cfg s" and "\<exists>ps. require_persona (nd_vault (fd_node s)) (fc_persona cfg) = Inr ps" and "list_all hex_id ids"
  shows "push_edges cfg lin ids l s = (Inr l, s)"
  using assms(3)
proof (induction ids)
  case Nil
  then show ?case by (simp add: return_fed_def)
next
  case (Cons i ids)
  have idle: "push_assertions cfg c as l s = (Inr l, s)"
    if "\<forall>a \<in> set as. a_by a = fc_persona cfg \<longrightarrow> a_sig a \<in> set (fd_sent_assertions s)" for c as
    using that by (induction as) (auto simp: push_assertion_def fed_run)
  from assms(2) Cons.prems obtain held as where g: "get_edge (nd_vault (fd_node s)) (fc_persona cfg) i = Inr held"
    "get_assertions (nd_vault (fd_node s)) (fc_persona cfg) i = Inr as"
    by (auto simp: get_edge_def get_assertions_def edge_dir_def assert_hex_id_def)
  have "push_edge cfg lin i l s = (Inr l, s)"
  proof (cases held)
    case None
    then show ?thesis by (simp add: push_edge_def bind_fed_def on_node_read g return_fed_def)
  next
    case (Some e)
    with assms(1) g have "push_assertions cfg (addressee (fc_persona cfg) e lin) as l s = (Inr l, s)"
      by (intro idle) (auto simp: acts_sent_def)
    with Some show ?thesis by (simp add: push_edge_def bind_fed_def on_node_read g return_fed_def)
  qed
  with Cons show ?case by (simp add: bind_fed_run)
qed

lemma idle_push:
  assumes "readable (nd_vault (fd_node s)) (fc_persona cfg)" and "list_outbox (nd_vault (fd_node s)) (fc_persona cfg) = Inr items"
    and "\<forall>item \<in> set items. at_rest cfg s item" and "acts_sent cfg s"
  shows "\<exists>s' out. push cfg s = (Inr 0, s') \<and> fd_node s' = fd_node s \<and>
    fd_calls s' = fd_calls s @ [Flushed (cn_home (fc_net cfg)) out]"
proof -
  let ?p = "fc_persona cfg" and ?home = "cn_home (fc_net cfg)"
  from assms(1) obtain ps where ps: "require_persona (nd_vault (fd_node s)) ?p = Inr ps" "list_all hex_id (dir_names (ps_edges ps))"
    by (auto simp: readable_def)
  from idle_items [OF assms(3), of empty_log] obtain sa where sa: "set (fd_sent_assertions s) \<subseteq> set sa"
    "push_items cfg items empty_log s = (Inr empty_log, s\<lparr>fd_sent_assertions := sa\<rparr>)" by blast
  let ?s1 = "s\<lparr>fd_sent_assertions := sa\<rparr>"
  have "acts_sent cfg ?s1" using assms(4) sa(1) by (fastforce simp: acts_sent_def)
  from idle_edges [OF this _ ps(2)] ps(1) have pe: "push_edges cfg lin (dir_names (ps_edges ps)) empty_log ?s1 = (Inr empty_log, ?s1)" for lin by auto
  obtain rs where rs: "list_rotations (nd_vault (fd_node s)) ?p = Inr rs" using ps(1) by (simp add: list_rotations_def)
  have ids: "list_edge_ids (nd_vault (fd_node s)) ?p = Inr (dir_names (ps_edges ps))" using ps(1) by (simp add: list_edge_ids_def)
  have l: "pl_handed empty_log = []" "pl_failures empty_log = []" "touched cfg [] = [?home]" by (simp_all add: empty_log_def touched_def)
  show ?thesis
    using sa(2) pe assms(2) rs ids l
    by (simp add: push_def deliver_all_def empty_log_def [symmetric] bind_fed_def on_node_read party_lineage_def read_clock_def
        return_fed_def call_sync_def Let_def split: option.split)
qed

section \<open>What receiving does to the outbox\<close>

lemma entry_part: "outbox_entry v p i = (case map_sum id ps_outbox (require_persona v p) of Inl _ \<Rightarrow> None | Inr d \<Rightarrow> dir_get d i)"
  by (cases "require_persona v p") (simp_all add: outbox_entry_def)

lemma same_mail: "same_part ps_outbox v v' \<Longrightarrow> outbox_entry v' p i = outbox_entry v p i"
  by (simp add: entry_part same_part_def)

lemma same_mailbox: "same_part ps_outbox v v' \<Longrightarrow> mailbox v p \<Longrightarrow> mailbox v' p"
proof -
  have m: "mailbox u p \<longleftrightarrow> (\<exists>d. map_sum id ps_outbox (require_persona u p) = Inr d \<and> named_by ob_id d)" for u
    by (cases "require_persona u p") (auto simp: mailbox_def)
  show "same_part ps_outbox v v' \<Longrightarrow> mailbox v p \<Longrightarrow> mailbox v' p" by (simp add: m same_part_def)
qed

lemma recorded_entry:
  assumes "record_outbox_delivery v p i patch = Inr (res, v')"
  shows "entry_patched p i patch v v'"
proof -
  from assms obtain ps where ps: "require_persona v p = Inr ps" and h: "hex_id p"
    by (auto simp: record_outbox_delivery_def bind_result_Inr_iff require_persona_Inr)
  with assms have "case dir_get (ps_outbox ps) i of None \<Rightarrow> v' = v
      | Some x \<Rightarrow> v' = put_store v p (ps\<lparr>ps_outbox := dir_put i (x\<lparr>ob_delivery := patch (ob_delivery x)\<rparr>) (ps_outbox ps)\<rparr>)"
    by (auto simp: record_outbox_delivery_def bind_result_Inr_iff Let_def split: option.split_asm)
  with ps h show ?thesis
    by (cases "dir_get (ps_outbox ps) i") (auto simp: entry_patched_def outbox_entry_def require_put_store)
qed

text \<open>An entry is the one it was, or it has been acknowledged as one of the items says.\<close>

definition acked_as :: "fed_config \<Rightarrow> (persona_id \<times> sha256_hex) list \<Rightarrow> outbox_item list \<Rightarrow> outbox_item \<Rightarrow> outbox_item \<Rightarrow> bool" where
  "acked_as cfg ps items x y \<longleftrightarrow> y = x \<or> (\<exists>tm. y = x\<lparr>ob_delivery := (ob_delivery x)\<lparr>od_acknowledged_at := Some tm\<rparr>\<rparr> \<and>
     (\<exists>item \<in> set items. ob_id item = ob_id x \<and> acknowledged_by (fc_lib cfg) ps item))"

lemma acked_as_refl: "acked_as cfg ps items x x"
  by (simp add: acked_as_def)

lemma acked_as_id: "acked_as cfg ps items x y \<Longrightarrow> ob_id y = ob_id x"
  by (auto simp: acked_as_def)

lemma acked_as_trans:
  assumes "acked_as cfg ps [item] x z" and "acked_as cfg ps items z y"
  shows "acked_as cfg ps (item # items) x y"
proof (cases "y = z")
  case True
  with assms(1) show ?thesis unfolding acked_as_def by auto
next
  case False
  with assms(2) obtain tm where y: "y = z\<lparr>ob_delivery := (ob_delivery z)\<lparr>od_acknowledged_at := Some tm\<rparr>\<rparr>"
    and i: "\<exists>it \<in> set items. ob_id it = ob_id z \<and> acknowledged_by (fc_lib cfg) ps it" unfolding acked_as_def by blast
  have "y = x\<lparr>ob_delivery := (ob_delivery x)\<lparr>od_acknowledged_at := Some tm\<rparr>\<rparr>"
    using assms(1) y unfolding acked_as_def by (elim disjE exE conjE) simp_all
  with i acked_as_id [OF assms(1)] show ?thesis unfolding acked_as_def by (metis list.set_intros(2))
qed

lemma patch_entry:
  assumes "patch_delivery cfg item patch s = (r, s')" and "outbox_entry (nd_vault (fd_node s')) (fc_persona cfg) j = Some y"
  obtains "outbox_entry (nd_vault (fd_node s)) (fc_persona cfg) j = Some y"
    | x where "j = ob_id item" "outbox_entry (nd_vault (fd_node s)) (fc_persona cfg) j = Some x" "y = x\<lparr>ob_delivery := patch (ob_delivery x)\<rparr>"
proof (cases "record_outbox_delivery (nd_vault (fd_node s)) (fc_persona cfg) (ob_id item) patch")
  case (Inl e)
  with assms have "s' = s" by (auto simp: patch_delivery_def on_node_def write_vault_def)
  with assms(2) that(1) show thesis by simp
next
  case (Inr rv)
  then obtain res v where rv: "record_outbox_delivery (nd_vault (fd_node s)) (fc_persona cfg) (ob_id item) patch = Inr (res, v)"
    by (cases rv) simp
  with assms(1) have "nd_vault (fd_node s') = v" by (auto simp: patch_delivery_def on_node_def write_vault_def)
  with assms(2) recorded_entry [OF rv] that show thesis by (auto simp: entry_patched_def split: if_split_asm)
qed

lemma acknowledge_entries:
  assumes "acknowledge_items cfg tm ps items s = (r, s')"
    and "outbox_entry (nd_vault (fd_node s')) (fc_persona cfg) j = Some y"
    and "\<And>x. outbox_entry (nd_vault (fd_node s)) (fc_persona cfg) j = Some x \<Longrightarrow> ob_id x = j"
  shows "\<exists>x. outbox_entry (nd_vault (fd_node s)) (fc_persona cfg) j = Some x \<and> acked_as cfg ps items x y"
  using assms
proof (induction items arbitrary: s)
  case Nil
  with acked_as_refl show ?case by (auto simp: return_fed_def)
next
  case (Cons item items)
  let ?e = "\<lambda>s. outbox_entry (nd_vault (fd_node s)) (fc_persona cfg) j"
  let ?step = "if acknowledged_by (fc_lib cfg) ps item
    then patch_delivery cfg item (\<lambda>d. d\<lparr>od_acknowledged_at := Some tm\<rparr>) else return_fed ()"
  obtain r1 s1 where st: "?step s = (r1, s1)" by (cases "?step s")
  have one: "\<exists>x. ?e s = Some x \<and> acked_as cfg ps [item] x z" if z: "?e s1 = Some z" for z
  proof (cases "acknowledged_by (fc_lib cfg) ps item")
    case True
    with st have pd: "patch_delivery cfg item (\<lambda>d. d\<lparr>od_acknowledged_at := Some tm\<rparr>) s = (r1, s1)" by simp
    from pd z show ?thesis
    proof (cases rule: patch_entry)
      case 1
      with acked_as_refl show ?thesis by blast
    next
      case (2 x)
      have "ob_id item = ob_id x" using Cons.prems(3) [OF 2(2)] 2(1) by metis
      with 2 True have "acked_as cfg ps [item] x z" unfolding acked_as_def by (intro disjI2 exI [of _ tm]) simp
      with 2(2) show ?thesis by blast
    qed
  next
    case False
    with st z acked_as_refl show ?thesis by (auto simp: return_fed_def)
  qed
  show ?case
  proof (cases r1)
    case (Inl e)
    with st Cons.prems(1) have "s' = s1" by (simp add: bind_fed_def)
    with one Cons.prems(2) obtain x where "?e s = Some x" "acked_as cfg ps [item] x y" by blast
    moreover from this(2) acked_as_refl have "acked_as cfg ps (item # items) x y" by (rule acked_as_trans)
    ultimately show ?thesis by blast
  next
    case (Inr u)
    with st Cons.prems(1) have "acknowledge_items cfg tm ps items s1 = (r, s')" by (simp add: bind_fed_def)
    moreover have "ob_id z = j" if "?e s1 = Some z" for z
      using one [OF that] Cons.prems(3) acked_as_id by metis
    ultimately obtain z where z: "?e s1 = Some z" "acked_as cfg ps items z y" using Cons.IH Cons.prems(2) by blast
    with one acked_as_trans show ?thesis by blast
  qed
qed

lemma deliveries_only_entry:
  assumes "deliveries_only v v'"
  shows "map_option undelivered (outbox_entry v' p i) = map_option undelivered (outbox_entry v p i)"
proof -
  have e: "map_option undelivered (outbox_entry u p i) =
      (case map_sum id (\<lambda>ps. map (\<lambda>(k, x). (k, undelivered x)) (ps_outbox ps)) (require_persona u p) of Inl _ \<Rightarrow> None | Inr d \<Rightarrow> map_of d i)" for u
    by (cases "require_persona u p") (simp_all add: outbox_entry_def dir_get_def comp_def case_prod_beta map_of_map)
  have "same_part (\<lambda>ps. map (\<lambda>(k, x). (k, undelivered x)) (ps_outbox ps)) v v'"
    by (rule same_part_factor [OF assms, where g = ps_outbox]) (simp add: bare_def)
  then show ?thesis unfolding e by (simp add: same_part_def)
qed

lemma entry_id: "mailbox v p \<Longrightarrow> outbox_entry v p i = Some x \<Longrightarrow> ob_id x = i"
  by (auto simp: mailbox_def outbox_entry_def named_by_def)

lemma flushed_member: "flushes ts fls \<Longrightarrow> t \<in> set ts \<Longrightarrow> \<exists>out. Flushed t out \<in> set fls"
proof -
  assume "flushes ts fls" and t: "t \<in> set ts"
  then obtain outs where outs: "length outs = length ts" "fls = map2 Flushed ts outs" by (auto simp: flushes_def)
  then obtain out where "(t, out) \<in> set (zip ts outs)" using t by (metis in_set_impl_in_set_zip1)
  with outs(2) show ?thesis by force
qed

lemma pull_cases:
  assumes "pull cfg s = (res, s')"
  obtains raws d where "same_part ps_outbox (nd_vault (fd_node s)) (nd_vault d)"
    and "outbox_entry (nd_vault (fd_node s')) (fc_persona cfg) i = outbox_entry (nd_vault d) (fc_persona cfg) i \<or>
      (cn_receive (fc_net cfg) (Suc (length (fd_calls s))) (cn_home (fc_net cfg)) (fc_persona cfg) = Inr raws \<and>
       (\<exists>r1 t. fd_node t = d \<and> record_acknowledgements cfg raws t = (r1, s')))"
proof -
  let ?home = "cn_home (fc_net cfg)" and ?n = "length (fd_calls s)"
  note [simp] = pull_def bind_fed_def call_sync_def Let_def stop_on_def throw_fed_def return_fed_def call_receive_def read_wall_def
  show thesis
  proof (cases "cn_sync (fc_net cfg) ?n ?home")
    case (Some why)
    with assms have "fd_node s' = fd_node s" by auto
    with that [of "fd_node s"] show thesis by simp
  next
    case sync: None
    show thesis
    proof (cases "cn_receive (fc_net cfg) (Suc ?n) ?home (fc_persona cfg)")
      case (Inl why)
      with sync assms have "fd_node s' = fd_node s" by auto
      with that [of "fd_node s"] show thesis by simp
    next
      case (Inr raws)
      let ?s1 = "s\<lparr>fd_calls := fd_calls s @ [Flushed ?home None, Collected ?home (fc_persona cfg)],
        fd_ticks := fd_ticks s + length raws\<rparr>"
      let ?in = "zip (map (fc_wall cfg) [fd_ticks s ..< fd_ticks s + length raws]) raws"
      obtain r d where ig: "ingest (own_inbox cfg) ?in (fd_budget s) (fd_node s) = (r, d)"
        by (cases "ingest (own_inbox cfg) ?in (fd_budget s) (fd_node s)")
      have same: "same_part ps_outbox (nd_vault (fd_node s)) (nd_vault d)"
        using mail.keepsD [OF mailed.keeps_ingest_all [OF refl] ig [unfolded ingest_def]] .
      show thesis
      proof (cases r)
        case (Inl e)
        with sync Inr assms ig have "fd_node s' = d" by (auto simp: run_inbox_def on_node_def)
        with that [OF same] show thesis by simp
      next
        case out: (Inr xb)
        obtain x b where xb: "xb = (x, b)" by (cases xb)
        let ?t = "?s1\<lparr>fd_node := d, fd_budget := b\<rparr>"
        obtain r1 s2 where ra: "record_acknowledgements cfg raws ?t = (r1, s2)" by (cases "record_acknowledgements cfg raws ?t")
        with sync Inr assms ig out xb have "s2 = s'"
          by (cases r1) (auto simp: run_inbox_def on_node_def)
        with ra Inr that [OF same, where raws = raws] show thesis by (metis (no_types, lifting) federated.select_convs(1) federated.surjective federated.update_convs(1,2))
      qed
    qed
  qed
qed

lemma proven_set: "(q, e) \<in> set (proven cl raws) \<longleftrightarrow>
    (\<exists>raw m. raw \<in> set raws \<and> verify_message cl raw = Some m \<and> wm_sender m = q \<and> edge_id_of_message m = Some e)"
  by (fastforce simp: proven_def set_map_filter bind_eq_Some_conv)

lemma acknowledgements_prove:
  assumes "mailbox (nd_vault (fd_node t)) (fc_persona cfg)" and "record_acknowledgements cfg raws t = (r1, s')"
    and "outbox_entry (nd_vault (fd_node s')) (fc_persona cfg) i = Some y"
  shows "\<exists>x. outbox_entry (nd_vault (fd_node t)) (fc_persona cfg) i = Some x \<and>
    (y = x \<or> (\<exists>tm raw m e. y = x\<lparr>ob_delivery := (ob_delivery x)\<lparr>od_acknowledged_at := Some tm\<rparr>\<rparr> \<and> raw \<in> set raws \<and>
       verify_message (fc_lib cfg) raw = Some m \<and> wm_sender m = ob_recipient x \<and> edge_id_of_message m = Some e \<and>
       Option.bind (verify_message (fc_lib cfg) (JObj (ob_message x))) edge_id_of_message = Some e))"
proof -
  let ?p = "fc_persona cfg" and ?v = "nd_vault (fd_node t)"
  from assms(1) obtain items where items: "list_outbox ?v ?p = Inr items" by (auto simp: mailbox_def list_outbox_def)
  let ?waiting = "filter (\<lambda>x. od_acknowledged_at (ob_delivery x) = None) items" and ?ps = "proven (fc_lib cfg) raws"
  show ?thesis
  proof (cases "?waiting = [] \<or> ?ps = []")
    case True
    with assms(2) items have "s' = t"
      by (simp add: record_acknowledgements_def bind_fed_def on_node_read return_fed_def Let_def split: if_split_asm)
    with assms(3) show ?thesis by auto
  next
    case False
    with assms(2) items have "acknowledge_items cfg (fc_clk cfg (fd_ticks t)) ?ps ?waiting (t\<lparr>fd_ticks := Suc (fd_ticks t)\<rparr>) = (r1, s')"
      by (simp add: record_acknowledgements_def bind_fed_def on_node_read Let_def read_clock_def split: if_split_asm)
    from acknowledge_entries [OF this assms(3)] entry_id [OF assms(1)] obtain x where
      x: "outbox_entry ?v ?p i = Some x" "acked_as cfg ?ps ?waiting x y" by auto
    have "it = x" if "it \<in> set items" "ob_id it = ob_id x" for it
      using that x(1) listed_entry [OF assms(1) items] entry_id [OF assms(1) x(1)] by simp
    with x show ?thesis
      by (fastforce simp: acked_as_def acknowledged_by_def proven_set split: option.split_asm)
  qed
qed

lemma push_readable:
  assumes "readable (nd_vault (fd_node s)) (fc_persona cfg)" and "list_outbox (nd_vault (fd_node s)) (fc_persona cfg) = Inr items"
    and "push cfg s = (res, s')"
  shows "readable (nd_vault (fd_node s')) (fc_persona cfg)"
proof -
  obtain r where "pushed cfg items s r s'" using assms by (rule push_reported)
  then have "deliveries_only (nd_vault (fd_node s)) (nd_vault (fd_node s'))" by (simp add: pushed_def)
  then show ?thesis using assms(1) by (rule deliveries_only_readable)
qed

section \<open>After a rotation\<close>

text \<open>
  Of an edge whose owner has rotated to the key of this persona, the code takes the owner as the other party:
  the acts under the new key are addressed to this persona itself.
\<close>

lemma successor_writes_to_herself:
  assumes "e_owner e \<noteq> p" and "current_key_of (e_owner e) lin = p"
  shows "addressee p e lin = p"
  using assms by (simp add: addressee_def)

end
