(* ===== verification/DeliverySamples.thy ===== *)
theory DeliverySamples
  imports DeliveryLaws InboxClaims
begin

text \<open>A node with a queued message, the couriers it uses, and what becomes of the message: a concrete run for the witnesses.\<close>

section \<open>A letter that is taken and not flushed\<close>

text \<open>
  Alice has queued a message about the sample edge for Bob, whom a shared repository reaches; her home courier
  is a hub. The second call of a courier, the flush of the repository, fails.
\<close>

definition letter :: "persona_id \<Rightarrow> persona_id \<Rightarrow> message_type \<Rightarrow> json \<Rightarrow> signature_hex \<Rightarrow> wire_message" where
  "letter p q ty payload sg = \<lparr>wm_type = ty, wm_payload = Some payload, wm_sender = p, wm_recipient = q, wm_sent_at = jan 5, wm_sig = sg\<rparr>"

definition about_edge :: json where
  "about_edge = JObj [(''edge_id'', JStr (e_id held_edge))]"

definition letter_item :: "sha256_hex \<Rightarrow> wire_message \<Rightarrow> outbox_item" where
  "letter_item i m = \<lparr>ob_id = i, ob_persona = alice, ob_recipient = bob, ob_message = message_members m, ob_queued_at = jan 5,
     ob_delivery = no_delivery\<rparr>"

definition posted_store :: "sha256_hex \<Rightarrow> wire_message \<Rightarrow> persona_store" where
  "posted_store i m = (holder_store alice held_files)\<lparr>ps_outbox := [(i, letter_item i m)]\<rparr>"

definition posted :: "sha256_hex \<Rightarrow> wire_message \<Rightarrow> federated" where
  "posted i m = \<lparr>fd_node = \<lparr>nd_vault = put_store empty_vault alice (posted_store i m), nd_local = \<lparr>ls_pending = [], ls_ingested = []\<rparr>\<rparr>,
     fd_budget = None, fd_sent = [], fd_sent_assertions = [a_sig (says alice held_edge AProposed (jan 1) None)], fd_ticks = 0, fd_calls = []\<rparr>"

definition poster :: "json list \<Rightarrow> fed_config" where
  "poster raws = \<lparr>fc_lib = sample_lib, fc_persona = alice,
     fc_net = \<lparr>cn_home = ''hub'', cn_route = (\<lambda>_. Some ''repository''), cn_kind = (\<lambda>t. if t = ''hub'' then ''hub'' else ''git''),
       cn_send = (\<lambda>_ _ _ _. None), cn_sync = (\<lambda>n _. if n = 1 then Some ''rejected'' else None), cn_receive = (\<lambda>_ _ _. Inr raws)\<rparr>,
     fc_clk = (\<lambda>_. jan 10), fc_wall = (\<lambda>_. 0), fc_level = (\<lambda>_. 0), fc_words = (\<lambda>_. ''refused'')\<rparr>"

lemma letters:
  assumes "p \<in> {alice, bob, carol}" and "q \<in> {alice, bob, carol}"
  obtains sg i where "verify_message sample_lib (JObj (message_members (letter p q ty about_edge sg))) = Some (letter p q ty about_edge sg)"
    and "message_id sample_lib (letter p q ty about_edge sg) = Some i" and "hex64 i"
proof -
  have hex: "hex64 p" "hex64 q" using assms parties_hex64 by auto
  have d: "json_depth about_edge \<le> 200" by (simp add: about_edge_def)
  let ?ms = "unsigned_message_members (letter p q ty about_edge [])"
  obtain sg where "sign_object sample_lib ?ms p = Some sg"
    by (rule sign_object_defined [OF sample_signs [OF assms(1)], of ?ms])
      (simp add: unsigned_message_members_def letter_def opt_json_member_def about_edge_def)
  then obtain ms where "sign_message sample_lib ty about_edge p q (jan 5) p = Some ms"
    by (simp add: sign_message_def with_signature_def unsigned_message_members_def letter_def opt_json_member_def)
  then obtain sg where v: "verify_message sample_lib (JObj (message_members (letter p q ty about_edge sg))) = Some (letter p q ty about_edge sg)"
    using sample_signs [OF assms(1)] hex by (rule signed_message_verifies) (simp add: letter_def)
  have "json_depth (JObj (message_members (letter p q ty about_edge sg))) \<le> 256"
    by (simp add: message_members_def unsigned_message_members_def letter_def opt_json_member_def about_edge_def)
  then obtain bs where "canonical_bytes (JObj (message_members (letter p q ty about_edge sg))) = Some bs"
    unfolding canonical_bytes_defined [symmetric] by blast
  then have i: "message_id sample_lib (letter p q ty about_edge sg) = Some (sha256_hex sample_lib bs)"
    by (simp add: message_id_def hash_canonical_def)
  show thesis
    by (rule that [OF v i]) (rule hex64_sha256_hex [of sample_lib], simp add: sample_lib_def, rule i [unfolded message_id_def])
qed

lemma posted_sel [simp]:
  "fd_sent (posted i m) = []" "fd_calls (posted i m) = []" "fd_ticks (posted i m) = 0"
  "fd_sent_assertions (posted i m) = [a_sig (says alice held_edge AProposed (jan 1) None)]"
  by (simp_all add: posted_def)

lemma poster_sel [simp]:
  "fc_lib (poster raws) = sample_lib" "fc_persona (poster raws) = alice" "cn_home (fc_net (poster raws)) = ''hub''"
  "cn_route (fc_net (poster raws)) q = Some ''repository''" "cn_send (fc_net (poster raws)) n t q w = None"
  "cn_sync (fc_net (poster raws)) n t = (if n = 1 then Some ''rejected'' else None)"
  "cn_receive (fc_net (poster raws)) n t q = Inr raws"
  by (simp_all add: poster_def)

lemma posted_reads:
  assumes "hex64 i"
  shows "require_persona (nd_vault (fd_node (posted i m))) alice = Inr (posted_store i m)"
    and "readable (nd_vault (fd_node (posted i m))) alice"
    and "list_outbox (nd_vault (fd_node (posted i m))) alice = Inr [letter_item i m]"
    and "outbox_entry (nd_vault (fd_node (posted i m))) alice i = Some (letter_item i m)"
    and "acts_sent (poster raws) (posted i m)"
proof -
  have h: "hex_id alice" using parties_hex64 hex64_hex_id by auto
  show r: "require_persona (nd_vault (fd_node (posted i m))) alice = Inr (posted_store i m)"
    using h by (simp add: posted_def require_put_store)
  show "readable (nd_vault (fd_node (posted i m))) alice"
    using r hex64_hex_id [OF assms] hex64_hex_id [OF held_edge_id]
    by (simp add: readable_def posted_store_def holder_store_def empty_store_def named_by_def dir_ok_def dir_names_def dir_get_def letter_item_def)
  show "list_outbox (nd_vault (fd_node (posted i m))) alice = Inr [letter_item i m]"
    and "outbox_entry (nd_vault (fd_node (posted i m))) alice i = Some (letter_item i m)"
    using r by (simp_all add: list_outbox_def outbox_entry_def posted_store_def dir_get_def)
  have "edge_dir (nd_vault (fd_node (posted i m))) alice k =
      (if hex_id k then Inr (posted_store i m, if k = e_id held_edge then held_files else no_edge_files) else Inl NotHex)" for k
    using r by (simp add: edge_dir_def assert_hex_id_def posted_store_def holder_store_def dir_get_def)
  then show "acts_sent (poster raws) (posted i m)"
    by (auto simp: acts_sent_def get_edge_def get_assertions_def held_files_def no_edge_files_def split: if_split_asm)
qed

text \<open>The whole of the first push, call by call.\<close>

lemma posted_push:
  assumes "verify_message sample_lib (JObj (message_members m)) = Some m" and "message_id sample_lib m = Some i" and "hex64 i"
    and "wm_recipient m = bob"
  shows "\<exists>f s'. push (poster raws) (posted i m) = (Inl (OutboundDelivery 0 [f]), s') \<and>
    fd_calls s' = [Handed ''repository'' bob m None, Flushed ''repository'' (Some ''rejected''), Flushed ''hub'' None]"
proof -
  note r = posted_reads [OF assms(3)]
  let ?s = "posted i m" and ?cfg = "poster raws" and ?it = "letter_item i m"
  let ?xs = "case carried_signature m of None \<Rightarrow> fd_sent_assertions ?s | Some x \<Rightarrow> x # fd_sent_assertions ?s"
  let ?s1 = "?s\<lparr>fd_sent := [i], fd_sent_assertions := ?xs, fd_calls := [Handed ''repository'' bob m None]\<rparr>"
  let ?h = "\<lparr>ho_item = Some ?it, ho_recipient = bob, ho_type = wm_type m, ho_courier = ''repository''\<rparr>"
  let ?l = "\<lparr>pl_failures = [], pl_handed = [?h]\<rparr>"
  have items: "push_items ?cfg [?it] \<lparr>pl_failures = [], pl_handed = []\<rparr> ?s = (Inr ?l, ?s1)"
    using assms by (simp add: push_item_def letter_item_def no_delivery_def emit_def fed_run Let_def log_handed_def split: option.split)
  have st: "require_persona (nd_vault (fd_node ?s)) alice = Inr (posted_store i m)" by (rule r(1))
  have ids: "list_edge_ids (nd_vault (fd_node ?s)) alice = Inr [e_id held_edge]"
    using st by (simp add: list_edge_ids_def posted_store_def holder_store_def dir_names_def)
  have rot: "list_rotations (nd_vault (fd_node ?s)) alice = Inr []"
    using st by (simp add: list_rotations_def posted_store_def holder_store_def empty_store_def)
  have as: "acts_sent ?cfg ?s1" using r(5) by (auto simp: acts_sent_def split: option.split)
  have edges: "push_edges ?cfg lin [e_id held_edge] ?l ?s1 = (Inr ?l, ?s1)" for lin
    by (rule idle_edges [OF as]) (use st hex64_hex_id [OF held_edge_id] in simp_all)
  let ?s3 = "?s1\<lparr>fd_calls := [Handed ''repository'' bob m None, Flushed ''repository'' (Some ''rejected''), Flushed ''hub'' None],
    fd_ticks := 1\<rparr>"
  have "readable (nd_vault (fd_node ?s3)) (fc_persona ?cfg)" using r(2) by simp
  moreover have "hex_id (ob_id ?it)" by (simp add: letter_item_def hex64_hex_id [OF assms(3)])
  ultimately obtain d where d: "note_failure ?cfg ?it (CourierRefuses ''rejected'') ?s3 = (Inr (), ?s3\<lparr>fd_node := d, fd_ticks := Suc (fd_ticks ?s3)\<rparr>)"
    by (rule note_failure_run)
  show ?thesis
    using items edges r(3) ids rot d
    by (simp add: push_def deliver_all_def bind_fed_def on_node_read party_lineage_def read_clock_def return_fed_def throw_fed_def
        touched_def call_sync_def Let_def)
qed

section \<open>An answer\<close>

text \<open>Bob signs a message that names the edge; the hub delivers it and Alice's item is acknowledged.\<close>

lemma about_edge_named: "edge_id_of_message (letter p q MPublish about_edge sg) = Some (e_id held_edge)"
  by (simp add: edge_id_of_message_def letter_def about_edge_def string_member_def object_of_def)

lemma posted_pull:
  assumes "verify_message sample_lib (JObj (message_members m)) = Some m" and "edge_id_of_message m = Some (e_id held_edge)" and "hex64 i"
    and "verify_message sample_lib (JObj (message_members w)) = Some w" and "w = letter bob alice MPublish about_edge sg"
  shows "\<exists>x s' y. pull (poster [JObj (message_members w)]) (posted i m) = (Inr x, s') \<and>
    outbox_entry (nd_vault (fd_node s')) alice i = Some y \<and> od_acknowledged_at (ob_delivery y) = Some (jan 10)"
proof -
  note r = posted_reads [OF assms(3)]
  let ?s = "posted i m" and ?raw = "JObj (message_members w)" and ?it = "letter_item i m"
  let ?cfg = "poster [?raw]"
  have sp: "speaks_this_version ?raw"
    by (simp add: speaks_this_version_def object_of_def message_members_def unsigned_message_members_def)
  have one: "ingest_one (own_inbox ?cfg) now ?raw rb = accept MPublish None rb" for now rb
    using sp assms(4,5) by (simp add: ingest_one_def own_inbox_def ingest_message_def letter_def)
  let ?x = "empty_result\<lparr>ig_accepted := [(MPublish, None)]\<rparr>"
  have ig: "ingest (own_inbox ?cfg) [(now, ?raw)] None d = (Inr (?x, None), d)" for now d
    by (simp add: ingest_def one accept_def bind_op_def return_op_def empty_result_def)
  have ack: "acknowledged_by sample_lib (proven sample_lib [?raw]) ?it"
    using assms about_edge_named [of bob alice sg]
    by (simp add: acknowledged_by_def proven_def letter_item_def map_filter_simps letter_def)
  let ?t = "?s\<lparr>fd_calls := [Flushed ''hub'' None, Collected ''hub'' alice], fd_budget := None, fd_ticks := Suc (Suc 0)\<rparr>"
  have h: "hex_id (ob_id ?it)" by (simp add: letter_item_def hex64_hex_id [OF assms(3)])
  obtain v where v: "patch_delivery ?cfg ?it (\<lambda>d. d\<lparr>od_acknowledged_at := Some (jan 10)\<rparr>) ?t =
      (Inr (), ?t\<lparr>fd_node := (fd_node ?s)\<lparr>nd_vault := v\<rparr>\<rparr>)"
    "entry_patched alice (ob_id ?it) (\<lambda>d. d\<lparr>od_acknowledged_at := Some (jan 10)\<rparr>) (nd_vault (fd_node ?s)) v"
    using patch_delivery_run [of "fd_node ?s" ?cfg ?it ?t "\<lambda>d. d\<lparr>od_acknowledged_at := Some (jan 10)\<rparr>"] r(2) h by auto
  have pn: "proven sample_lib [?raw] \<noteq> []" using ack by (auto simp: acknowledged_by_def split: option.split_asm)
  have ck: "fc_clk ?cfg n = jan 10" "fd_budget ?s = None" for n by (simp_all add: poster_def posted_def)
  have na: "od_acknowledged_at (ob_delivery ?it) = None" by (simp add: letter_item_def no_delivery_def)
  let ?t1 = "?s\<lparr>fd_calls := [Flushed ''hub'' None, Collected ''hub'' alice], fd_ticks := 1\<rparr>"
  let ?t2 = "?t\<lparr>fd_node := (fd_node ?s)\<lparr>nd_vault := v\<rparr>\<rparr>"
  have "record_acknowledgements ?cfg [?raw] (?t1\<lparr>fd_budget := None\<rparr>) = (Inr (), ?t2)"
    using v(1) ack pn na ck(1) r(3)
    by (simp add: record_acknowledgements_def bind_fed_def on_node_read read_clock_def return_fed_def)
  moreover have "run_inbox ?cfg [(fc_wall ?cfg 0, ?raw)] ?t1 = (Inr ?x, ?t1\<lparr>fd_budget := None\<rparr>)"
    using ig [of "fc_wall ?cfg 0" "fd_node ?s"] ck(2) by (simp add: run_inbox_def bind_fed_def on_node_def)
  ultimately have "pull ?cfg ?s = (Inr ?x, ?t2)"
    by (simp add: pull_def bind_fed_def call_sync_def Let_def stop_on_def return_fed_def call_receive_def read_wall_def)
  moreover have "outbox_entry v alice i = Some (?it\<lparr>ob_delivery := (ob_delivery ?it)\<lparr>od_acknowledged_at := Some (jan 10)\<rparr>\<rparr>)"
    using v(2) r(4) by (simp add: entry_patched_def letter_item_def)
  ultimately show ?thesis by (intro exI conjI) auto
qed

end
