(* ===== verification/DeliveryClaims.thy ===== *)
theory DeliveryClaims
  imports DeliverySamples
begin

text \<open>
  What a person may conclude from the state of her outbox: nobody's silence keeps another from being told,
  \<^emph>\<open>sent\<close> means a courier took the message and flushed it, \<^emph>\<open>acknowledged\<close> means the recipient signed for the
  edge, and nothing but her own words leaves the node. One weakness is stated too: what a courier took and
  failed to flush is not offered again while the process lives.
\<close>

section \<open>A push\<close>

text \<open>
  C21: a push on a readable vault always finishes its round, whatever the couriers answer. Every item of the
  outbox that is due (not acknowledged, its message verifies and is addressed to the item's recipient, and the
  recipient has a route: \<^const>\<open>due\<close>) and whose message this process did not send before is handed to a courier,
  however many others were refused; every courier that took a message is flushed, and so is the home courier.
  When the push returns a number, no courier refused a message and none that took one failed its flush;
  otherwise it raises an account of failures that is not empty. Nothing is said of items that cannot be routed
  or do not verify, and the home courier's own flush may fail unreported when it was handed nothing.
\<close>

theorem no_recipient_starves_another:
  assumes "readable (nd_vault (fd_node s)) (fc_persona cfg)" and "list_outbox (nd_vault (fd_node s)) (fc_persona cfg) = Inr items"
  shows "\<exists>res s' msgs fls. push cfg s = (res, s') \<and> fd_calls s' = fd_calls s @ msgs @ fls \<and>
    (\<forall>item \<in> set items. \<forall>m t i. due cfg item m t i \<longrightarrow> i \<notin> set (fd_sent s) \<longrightarrow>
       (\<exists>t' m' out. message_id (fc_lib cfg) m' = Some i \<and> Handed t' (wm_recipient m') m' out \<in> set msgs)) \<and>
    (\<forall>t \<in> insert (cn_home (fc_net cfg)) (took msgs). \<exists>out. Flushed t out \<in> set fls) \<and>
    (case res of
       Inr n \<Rightarrow> (\<forall>t r m out. Handed t r m out \<in> set msgs \<longrightarrow> out = None) \<and> (\<forall>t \<in> took msgs. Flushed t None \<in> set fls)
     | Inl e \<Rightarrow> \<exists>n fs. e = OutboundDelivery n fs \<and> fs \<noteq> [])"
proof -
  obtain res s' where p: "push cfg s = (res, s')" by (cases "push cfg s")
  obtain r where r: "pushed cfg items s r s'"
    and d: "\<forall>item m t i. item \<in> set items \<longrightarrow> due cfg item m t i \<longrightarrow> i \<in> set (fd_sent s) \<or>
      (\<exists>t' m' out. message_id (fc_lib cfg) m' = Some i \<and> Handed t' (wm_recipient m') m' out \<in> set (pr_messages r))"
    and res: "(\<exists>n. res = Inr n \<and> (\<forall>t \<in> took (pr_messages r). Flushed t None \<in> set (pr_flushes r)) \<and>
        (\<forall>t q m out. Handed t q m out \<in> set (pr_messages r) \<longrightarrow> out = None)) \<or>
      (\<exists>n fs. res = Inl (OutboundDelivery n fs) \<and> fs \<noteq> [])"
    using assms p by (rule push_reported)
  from r obtain ts where ts: "set ts = insert (cn_home (fc_net cfg)) (took (pr_messages r))" "flushes ts (pr_flushes r)"
    and cs: "fd_calls s' = fd_calls s @ pr_messages r @ pr_flushes r" unfolding pushed_def by blast
  have "\<forall>t \<in> insert (cn_home (fc_net cfg)) (took (pr_messages r)). \<exists>out. Flushed t out \<in> set (pr_flushes r)"
    unfolding ts(1) [symmetric] using flushed_member [OF ts(2)] by blast
  moreover have "\<forall>item \<in> set items. \<forall>m t i. due cfg item m t i \<longrightarrow> i \<notin> set (fd_sent s) \<longrightarrow>
       (\<exists>t' m' out. message_id (fc_lib cfg) m' = Some i \<and> Handed t' (wm_recipient m') m' out \<in> set (pr_messages r))"
    using d by blast
  moreover have "case res of
       Inr n \<Rightarrow> (\<forall>t q m out. Handed t q m out \<in> set (pr_messages r) \<longrightarrow> out = None) \<and>
         (\<forall>t \<in> took (pr_messages r). Flushed t None \<in> set (pr_flushes r))
     | Inl e \<Rightarrow> \<exists>n fs. e = OutboundDelivery n fs \<and> fs \<noteq> []" using res by auto
  ultimately show ?thesis using p cs by blast
qed

lemma alices_letter:
  obtains m i where "verify_message sample_lib (JObj (message_members m)) = Some m" and "message_id sample_lib m = Some i" and "hex64 i"
    and "wm_recipient m = bob" and "edge_id_of_message m = Some (e_id held_edge)"
proof -
  obtain sg i where "verify_message sample_lib (JObj (message_members (letter alice bob MPublish about_edge sg))) = Some (letter alice bob MPublish about_edge sg)"
    "message_id sample_lib (letter alice bob MPublish about_edge sg) = Some i" "hex64 i"
    by (rule letters [of alice bob MPublish]) simp_all
  with about_edge_named show thesis by (intro that [of "letter alice bob MPublish about_edge sg" i]) (simp_all add: letter_def)
qed

text \<open>Alice's letter is handed to the repository although its flush then fails, and the hub is flushed after it.\<close>

theorem no_recipient_starves_another_witness:
  "\<exists>i m (s' :: federated) msgs fls. due (poster []) (letter_item i m) m ''repository'' i \<and>
     fd_calls s' = fd_calls (posted i m) @ msgs @ fls \<and>
     (\<exists>t' m' out. message_id sample_lib m' = Some i \<and> Handed t' (wm_recipient m') m' out \<in> set msgs) \<and>
     (\<exists>out. Flushed ''hub'' out \<in> set fls)"
proof -
  obtain m i where m: "verify_message sample_lib (JObj (message_members m)) = Some m" "message_id sample_lib m = Some i" "hex64 i"
    "wm_recipient m = bob" by (rule alices_letter)
  have d: "due (poster []) (letter_item i m) m ''repository'' i" using m by (simp add: due_def letter_item_def no_delivery_def)
  obtain s' :: federated and msgs fls where n: "fd_calls s' = fd_calls (posted i m) @ msgs @ fls \<and>
    (\<forall>item \<in> set [letter_item i m]. \<forall>m' t k. due (poster []) item m' t k \<longrightarrow> k \<notin> set (fd_sent (posted i m)) \<longrightarrow>
       (\<exists>t' m' out. message_id (fc_lib (poster [])) m' = Some k \<and> Handed t' (wm_recipient m') m' out \<in> set msgs)) \<and>
    (\<forall>t \<in> insert (cn_home (fc_net (poster []))) (took msgs). \<exists>out. Flushed t out \<in> set fls)"
    using no_recipient_starves_another [of "posted i m" "poster []" "[letter_item i m]", unfolded poster_sel(2), OF posted_reads(2,3) [OF m(3)]]
    by (elim exE conjE) (rule that, intro conjI; assumption)
  with d have "\<exists>t' m' out. message_id sample_lib m' = Some i \<and> Handed t' (wm_recipient m') m' out \<in> set msgs"
    by (metis list.set_intros(1) posted_sel(1) poster_sel(1) empty_iff empty_set)
  with n d show ?thesis unfolding poster_sel by blast
qed

text \<open>
  C22: after a push, an item of the outbox is the item it was but for its delivery record, and that record
  speaks of sending only if it did before or if, in this push, a courier that reaches the recipient took this
  very message and was flushed without an error. A push never acknowledges.
\<close>

theorem sent_means_taken_and_flushed:
  assumes "readable (nd_vault (fd_node s)) (fc_persona cfg)" and "list_outbox (nd_vault (fd_node s)) (fc_persona cfg) = Inr items"
    and "push cfg s = (res, s')" and "outbox_entry (nd_vault (fd_node s')) (fc_persona cfg) i = Some y"
  shows "\<exists>x \<in> set items. ob_id x = i \<and> undelivered y = undelivered x \<and>
    od_acknowledged_at (ob_delivery y) = od_acknowledged_at (ob_delivery x) \<and>
    ((od_sent_at (ob_delivery y) = od_sent_at (ob_delivery x) \<and> od_sent_via (ob_delivery y) = od_sent_via (ob_delivery x)) \<or>
     (\<exists>t m new. fd_calls s' = fd_calls s @ new \<and> verify_message (fc_lib cfg) (JObj (ob_message x)) = Some m \<and>
        cn_route (fc_net cfg) (ob_recipient x) = Some t \<and> Handed t (ob_recipient x) m None \<in> set new \<and>
        Flushed t None \<in> set new \<and> od_sent_via (ob_delivery y) = Some (cn_kind (fc_net cfg) t)))"
proof -
  obtain r where r: "pushed cfg items s r s'"
    and e: "\<forall>j y. outbox_entry (nd_vault (fd_node s')) (fc_persona cfg) j = Some y \<longrightarrow>
      (\<exists>x. outbox_entry (nd_vault (fd_node s)) (fc_persona cfg) j = Some x \<and> told cfg r x y)"
    using assms(1-3) by (rule push_reported)
  from e assms(4) obtain x where x: "outbox_entry (nd_vault (fd_node s)) (fc_persona cfg) i = Some x" "undelivered y = undelivered x"
    "od_acknowledged_at (ob_delivery y) = od_acknowledged_at (ob_delivery x)"
    and or: "same_sending x y \<or> (\<exists>h \<in> set (pr_taken r). \<exists>it. ho_item h = Some it \<and> ob_id it = ob_id y \<and>
        Flushed (ho_courier h) None \<in> set (pr_flushes r) \<and> od_sent_via (ob_delivery y) = Some (cn_kind (fc_net cfg) (ho_courier h)))"
    unfolding told_def by blast
  have id: "ob_id x = i" by (rule entry_id [OF readable_mailbox [OF assms(1)] x(1)])
  then have mem: "x \<in> set items" using x(1) listed_entry [OF readable_mailbox [OF assms(1)] assms(2)] by simp
  have "same_sending x y \<or> (\<exists>t m new. fd_calls s' = fd_calls s @ new \<and> verify_message (fc_lib cfg) (JObj (ob_message x)) = Some m \<and>
        cn_route (fc_net cfg) (ob_recipient x) = Some t \<and> Handed t (ob_recipient x) m None \<in> set new \<and>
        Flushed t None \<in> set new \<and> od_sent_via (ob_delivery y) = Some (cn_kind (fc_net cfg) t))"
  proof (rule disjE [OF or])
    assume "\<exists>h \<in> set (pr_taken r). \<exists>it. ho_item h = Some it \<and> ob_id it = ob_id y \<and>
        Flushed (ho_courier h) None \<in> set (pr_flushes r) \<and> od_sent_via (ob_delivery y) = Some (cn_kind (fc_net cfg) (ho_courier h))"
    then obtain h it where h: "h \<in> set (pr_taken r)" "ho_item h = Some it" "ob_id it = ob_id y"
      "Flushed (ho_courier h) None \<in> set (pr_flushes r)" "od_sent_via (ob_delivery y) = Some (cn_kind (fc_net cfg) (ho_courier h))" by blast
    from r h(1,2) obtain m where m: "it \<in> set items" "verify_message (fc_lib cfg) (JObj (ob_message it)) = Some m"
      "Handed (ho_courier h) (ob_recipient it) m None \<in> set (pr_messages r)" unfolding pushed_def logged_def by blast
    have "it = x"
      using m(1) mem listed_entry [OF readable_mailbox [OF assms(1)] assms(2)] h(3) undelivered_id(1) [OF x(2)] by (metis option.inject)
    moreover have "cn_route (fc_net cfg) (ob_recipient it) = Some (ho_courier h)"
      using r m(3) unfolding pushed_def accounted_def by fastforce
    moreover have "fd_calls s' = fd_calls s @ pr_messages r @ pr_flushes r" using r unfolding pushed_def by blast
    ultimately show ?thesis using m h by (intro disjI2 exI [of _ "ho_courier h"] exI [of _ m] exI [of _ "pr_messages r @ pr_flushes r"]) auto
  qed simp
  with mem id x show ?thesis unfolding same_sending_def by blast
qed

theorem sent_means_taken_and_flushed_witness:
  "\<exists>i m s' y. outbox_entry (nd_vault (fd_node s')) alice i = Some y \<and> undelivered y = undelivered (letter_item i m) \<and>
     snd (push (poster []) (posted i m)) = s'"
proof -
  obtain m i where m: "verify_message sample_lib (JObj (message_members m)) = Some m" "message_id sample_lib m = Some i" "hex64 i"
    "wm_recipient m = bob" by (rule alices_letter)
  note r = posted_reads [OF m(3)]
  obtain f s' where p: "push (poster []) (posted i m) = (Inl (OutboundDelivery 0 [f]), s')"
    using posted_push [OF m] by blast
  obtain rp where "pushed (poster []) [letter_item i m] (posted i m) rp s'"
    by (rule push_reported [OF _ _ p]) (use r(2,3) in simp_all)
  then have "deliveries_only (nd_vault (fd_node (posted i m))) (nd_vault (fd_node s'))" by (simp add: pushed_def)
  from deliveries_only_entry [OF this, of alice i] r(4) obtain y where y: "outbox_entry (nd_vault (fd_node s')) alice i = Some y" by auto
  from sent_means_taken_and_flushed [OF _ _ p, of "[letter_item i m]" i y] r(2,3) y have "undelivered y = undelivered (letter_item i m)" by auto
  with y p show ?thesis by (metis snd_conv)
qed

text \<open>
  Whatever a push hands to a courier is signed for the persona it is handed over for, goes to the courier
  that reaches her, and is either a message queued for her or an act of this persona's own on an edge
  it is a party to, told to whoever holds the other side of it now. Nothing is relayed: no counterparty's
  signature and no edge of somebody else's leaves the node.
\<close>

theorem push_tells_only_its_own_words:
  assumes "readable (nd_vault (fd_node s)) (fc_persona cfg)" and "list_outbox (nd_vault (fd_node s)) (fc_persona cfg) = Inr items"
    and "push cfg s = (res, s')" and "fd_calls s' = fd_calls s @ new" and "Handed t r m out \<in> set new"
  shows "wm_recipient m = r \<and> cn_route (fc_net cfg) r = Some t \<and>
    ((\<exists>item \<in> set items. verify_message (fc_lib cfg) (JObj (ob_message item)) = Some m \<and> ob_recipient item = r) \<or>
     own_act cfg (nd_vault (fd_node s)) (lineage_in (fc_lib cfg) (nd_vault (fd_node s)) (fc_persona cfg)) r m)"
proof -
  obtain rp where r: "pushed cfg items s rp s'" using assms(1-3) by (rule push_reported)
  then obtain ts where fl: "flushes ts (pr_flushes rp)" and cs: "new = pr_messages rp @ pr_flushes rp"
    using assms(4) unfolding pushed_def by auto
  have "Handed t r m out \<notin> set (pr_flushes rp)" using fl by (auto simp: flushes_def)
  with assms(5) cs r show ?thesis unfolding pushed_def accounted_def sendable_def by fastforce
qed

theorem push_tells_only_its_own_words_witness:
  "\<exists>i m s'. snd (push (poster []) (posted i m)) = s' \<and> Handed ''repository'' bob m None \<in> set (fd_calls s') \<and> wm_recipient m = bob"
proof -
  obtain m i where m: "verify_message sample_lib (JObj (message_members m)) = Some m" "message_id sample_lib m = Some i" "hex64 i"
    "wm_recipient m = bob" by (rule alices_letter)
  note r = posted_reads [OF m(3)]
  obtain f s' where p: "push (poster []) (posted i m) = (Inl (OutboundDelivery 0 [f]), s')" and
    cs: "fd_calls s' = [Handed ''repository'' bob m None, Flushed ''repository'' (Some ''rejected''), Flushed ''hub'' None]"
    using posted_push [OF m] by blast
  from push_tells_only_its_own_words [OF _ _ p, of "[letter_item i m]" "fd_calls s'" "''repository''" bob m None] r(2,3) cs
  have "wm_recipient m = bob" by auto
  with p cs show ?thesis by (metis list.set_intros(1) snd_conv)
qed

section \<open>A pull\<close>

text \<open>
  Receiving changes nothing of the outbox but acknowledgements, and an item becomes acknowledged only
  because the courier delivered a message that verifies under the key of the item's recipient and names the
  edge that the item is about. Neither the courier's own word nor what the inbox accepted counts.
\<close>

theorem acknowledged_only_by_signature:
  assumes "mailbox (nd_vault (fd_node s)) (fc_persona cfg)" and "pull cfg s = (res, s')"
    and "outbox_entry (nd_vault (fd_node s')) (fc_persona cfg) i = Some y"
  shows "\<exists>x. outbox_entry (nd_vault (fd_node s)) (fc_persona cfg) i = Some x \<and>
    (y = x \<or> (\<exists>tm raws raw m e. y = x\<lparr>ob_delivery := (ob_delivery x)\<lparr>od_acknowledged_at := Some tm\<rparr>\<rparr> \<and>
       cn_receive (fc_net cfg) (Suc (length (fd_calls s))) (cn_home (fc_net cfg)) (fc_persona cfg) = Inr raws \<and> raw \<in> set raws \<and>
       verify_message (fc_lib cfg) raw = Some m \<and> wm_sender m = ob_recipient x \<and> edge_id_of_message m = Some e \<and>
       Option.bind (verify_message (fc_lib cfg) (JObj (ob_message x))) edge_id_of_message = Some e))"
proof -
  let ?p = "fc_persona cfg"
  obtain raws d ks where same: "same_part ps_outbox (nd_vault (fd_node s)) (nd_vault d)"
    and ent: "outbox_entry (nd_vault (fd_node s')) ?p i = outbox_entry (nd_vault d) ?p i \<or>
      (cn_receive (fc_net cfg) (Suc (length (fd_calls s))) (cn_home (fc_net cfg)) ?p = Inr raws \<and>
       (\<exists>r1 t. fd_node t = d \<and> record_acknowledgements cfg raws t = (r1, s')))"
    using assms(2) by (rule pull_cases)
  from same have mb: "mailbox (nd_vault d) ?p" using assms(1) by (rule same_mailbox)
  have e: "outbox_entry (nd_vault d) ?p i = outbox_entry (nd_vault (fd_node s)) ?p i" by (rule same_mail [OF same])
  show ?thesis
  proof (rule disjE [OF ent])
    assume "outbox_entry (nd_vault (fd_node s')) ?p i = outbox_entry (nd_vault d) ?p i"
    with e assms(3) show ?thesis by auto
  next
    assume "cn_receive (fc_net cfg) (Suc (length (fd_calls s))) (cn_home (fc_net cfg)) ?p = Inr raws \<and>
       (\<exists>r1 t. fd_node t = d \<and> record_acknowledgements cfg raws t = (r1, s'))"
    then obtain r1 t where t: "fd_node t = d" "record_acknowledgements cfg raws t = (r1, s')"
      and rc: "cn_receive (fc_net cfg) (Suc (length (fd_calls s))) (cn_home (fc_net cfg)) ?p = Inr raws" by blast
    from mb t(1) have "mailbox (nd_vault (fd_node t)) ?p" by simp
    from acknowledgements_prove [OF this t(2) assms(3)] obtain x where "outbox_entry (nd_vault (fd_node t)) ?p i = Some x"
      "y = x \<or> (\<exists>tm raw m e. y = x\<lparr>ob_delivery := (ob_delivery x)\<lparr>od_acknowledged_at := Some tm\<rparr>\<rparr> \<and> raw \<in> set raws \<and>
         verify_message (fc_lib cfg) raw = Some m \<and> wm_sender m = ob_recipient x \<and> edge_id_of_message m = Some e \<and>
         Option.bind (verify_message (fc_lib cfg) (JObj (ob_message x))) edge_id_of_message = Some e)" by blast
    with e t(1) rc show ?thesis by auto
  qed
qed

theorem acknowledged_only_by_signature_witness:
  "\<exists>i m w s' y. snd (pull (poster [JObj (message_members w)]) (posted i m)) = s' \<and>
     outbox_entry (nd_vault (fd_node s')) alice i = Some y \<and> od_acknowledged_at (ob_delivery y) = Some (jan 10) \<and>
     (\<exists>m' e. verify_message sample_lib (JObj (message_members w)) = Some m' \<and> wm_sender m' = bob \<and> edge_id_of_message m' = Some e)"
proof -
  obtain m i where m: "verify_message sample_lib (JObj (message_members m)) = Some m" "message_id sample_lib m = Some i" "hex64 i"
    "wm_recipient m = bob" "edge_id_of_message m = Some (e_id held_edge)" by (rule alices_letter)
  note r = posted_reads [OF m(3)]
  obtain sg where w: "verify_message sample_lib (JObj (message_members (letter bob alice MPublish about_edge sg))) =
      Some (letter bob alice MPublish about_edge sg)" by (rule letters [of bob alice MPublish]) simp_all
  let ?w = "letter bob alice MPublish about_edge sg"
  obtain x s' y where p: "pull (poster [JObj (message_members ?w)]) (posted i m) = (Inr x, s')"
    and y: "outbox_entry (nd_vault (fd_node s')) alice i = Some y" "od_acknowledged_at (ob_delivery y) = Some (jan 10)"
    using posted_pull [OF m(1,5,3) w refl] by blast
  from acknowledged_only_by_signature [OF _ p, of i y] readable_mailbox [OF r(2)] r(4) y obtain m' e where
    "verify_message sample_lib (JObj (message_members ?w)) = Some m'" "wm_sender m' = bob" "edge_id_of_message m' = Some e"
    by (auto simp: letter_item_def no_delivery_def)
  with p y show ?thesis by (metis snd_conv)
qed

section \<open>What is not offered again\<close>

text \<open>
  When a push met no refusal of a message, the next one hands nothing to any courier and flushes
  the home courier only, whatever became of the flushes of the first. So what is sent once is not sent
  twice, and what another courier took and failed to flush is left where it is: no later push of this process
  asks that courier again, and the push that does not ask returns normally.
\<close>

theorem second_push_only_flushes_home:
  assumes "readable (nd_vault (fd_node s)) (fc_persona cfg)" and "list_outbox (nd_vault (fd_node s)) (fc_persona cfg) = Inr items"
    and "\<forall>item \<in> set items. at_rest cfg s item \<or> (\<exists>m t i. due cfg item m t i)" and "acts_sent cfg s"
    and "push cfg s = (res, s1)" and "fd_calls s1 = fd_calls s @ new" and "\<forall>t r m why. Handed t r m (Some why) \<notin> set new"
  shows "\<exists>s2 out. push cfg s1 = (Inr 0, s2) \<and> fd_node s2 = fd_node s1 \<and>
    fd_calls s2 = fd_calls s1 @ [Flushed (cn_home (fc_net cfg)) out]"
proof -
  let ?p = "fc_persona cfg"
  obtain r where r: "pushed cfg items s r s1"
    and d: "\<forall>item m t i. item \<in> set items \<longrightarrow> due cfg item m t i \<longrightarrow> i \<in> set (fd_sent s1) \<or>
      (\<exists>why. Handed t (wm_recipient m) m (Some why) \<in> set (pr_messages r))"
    and e: "\<forall>j y. outbox_entry (nd_vault (fd_node s1)) ?p j = Some y \<longrightarrow>
      (\<exists>x. outbox_entry (nd_vault (fd_node s)) ?p j = Some x \<and> told cfg r x y)"
    using assms(1,2,5) by (rule push_reported)
  from r have dl: "deliveries_only (nd_vault (fd_node s)) (nd_vault (fd_node s1))" and sub: "set (fd_sent s) \<subseteq> set (fd_sent s1)"
    "set (fd_sent_assertions s) \<subseteq> set (fd_sent_assertions s1)" and cs: "new = pr_messages r @ pr_flushes r"
    using assms(6) by (auto simp: pushed_def)
  have rd: "readable (nd_vault (fd_node s1)) ?p" by (rule push_readable [OF assms(1,2,5)])
  then obtain items1 where items1: "list_outbox (nd_vault (fd_node s1)) ?p = Inr items1" by (auto simp: readable_def list_outbox_def)
  have "at_rest cfg s1 y" if y: "y \<in> set items1" for y
  proof -
    from y have "outbox_entry (nd_vault (fd_node s1)) ?p (ob_id y) = Some y"
      using listed_entry [OF readable_mailbox [OF rd] items1] by blast
    with e obtain x where x: "outbox_entry (nd_vault (fd_node s)) ?p (ob_id y) = Some x" "told cfg r x y" by blast
    then have id: "ob_id y = ob_id x" "ob_recipient y = ob_recipient x" "ob_message y = ob_message x"
      and ack: "od_acknowledged_at (ob_delivery y) = od_acknowledged_at (ob_delivery x)"
      using undelivered_id unfolding told_def by blast+
    have "x \<in> set items" using x(1) id(1) listed_entry [OF readable_mailbox [OF assms(1)] assms(2)] by simp
    with assms(3) consider "at_rest cfg s x" | m t i where "due cfg x m t i" by blast
    then show ?thesis
    proof cases
      case 1
      with id ack sub(1) show ?thesis unfolding at_rest_def by auto
    next
      case (2 m t i)
      with d \<open>x \<in> set items\<close> assms(7) cs have "i \<in> set (fd_sent s1)" by (metis Un_iff set_append)
      with 2 id show ?thesis unfolding at_rest_def due_def by auto
    qed
  qed
  moreover have "acts_sent cfg s1"
    using assms(4) sub(2) deliveries_only_chains [OF dl] unfolding acts_sent_def same_chains_def by (metis subsetD)
  ultimately show ?thesis using idle_push [OF rd items1] by blast
qed

text \<open>The repository refused to publish Alice's letter; the next push returns zero, without asking it again.\<close>

theorem second_push_only_flushes_home_witness:
  "\<exists>i m f s1 s2 out. push (poster []) (posted i m) = (Inl (OutboundDelivery 0 [f]), s1) \<and>
     Flushed ''repository'' (Some ''rejected'') \<in> set (fd_calls s1) \<and>
     push (poster []) s1 = (Inr 0, s2) \<and> fd_calls s2 = fd_calls s1 @ [Flushed ''hub'' out]"
proof -
  obtain m i where m: "verify_message sample_lib (JObj (message_members m)) = Some m" "message_id sample_lib m = Some i" "hex64 i"
    "wm_recipient m = bob" by (rule alices_letter)
  note r = posted_reads [OF m(3)]
  obtain f s1 where p: "push (poster []) (posted i m) = (Inl (OutboundDelivery 0 [f]), s1)" and
    cs: "fd_calls s1 = [Handed ''repository'' bob m None, Flushed ''repository'' (Some ''rejected''), Flushed ''hub'' None]"
    using posted_push [OF m] by blast
  have "due (poster []) (letter_item i m) m ''repository'' i" using m by (simp add: due_def letter_item_def no_delivery_def)
  then have "\<forall>item \<in> set [letter_item i m]. at_rest (poster []) (posted i m) item \<or> (\<exists>m t i. due (poster []) item m t i)" by auto
  from second_push_only_flushes_home [OF _ _ this _ p, of "fd_calls s1"] r(2,3,5) cs obtain s2 out where
    "push (poster []) s1 = (Inr 0, s2)" "fd_calls s2 = fd_calls s1 @ [Flushed ''hub'' out]" by auto
  with p cs show ?thesis by (metis list.set_intros(1,2))
qed

end
