(* ===== verification/Attesting.thy ===== *)
theory Attesting
  imports Wire Vault
begin

text \<open>
  Attestations and revocations of an organisation: the schemas \<^verbatim>\<open>Attestation\<close> and \<^verbatim>\<open>Revocation\<close> of
  \<^verbatim>\<open>packages/types/src/identity.ts\<close> and \<^verbatim>\<open>packages/identity/src/attestation.ts\<close>, entire. A \<^verbatim>\<open>Date\<close> is its
  time value, which an invalid date does not have: a comparison with it is false. The wording of a
  rejection is left to the values it is made of.
\<close>

section \<open>Schemas\<close>

text \<open>\<^verbatim>\<open>claims\<close>: three members have a schema, the others are kept as they are.\<close>

definition parse_claims :: "json \<Rightarrow> json_members option" where
  "parse_claims = object_of (\<lambda>ms.
     Option.bind (optional (text_where (\<lambda>_. True)) ms ''display_name'') (\<lambda>_.
     Option.bind (optional (text_where (\<lambda>_. True)) ms ''handle'') (\<lambda>_.
     Option.bind (optional (array_of (text_where hex64)) ms ''members'') (\<lambda>_. Some ms))))"

fun subject_kind_name :: "subject_kind \<Rightarrow> string" where
  "subject_kind_name SubjectPersona = ''persona''"
| "subject_kind_name SubjectGroup = ''group''"

definition parse_attestation :: "json \<Rightarrow> attestation option" where
  "parse_attestation = object_of (\<lambda>ms.
     if \<not> tagged ''attestation'' ms then None
     else Option.bind (required (text_where hex64) ms ''org'') (\<lambda>org.
       Option.bind (required (text_where hex64) ms ''subject'') (\<lambda>sub.
       Option.bind (required (one_of [(SubjectPersona, ''persona''), (SubjectGroup, ''group'')]) ms ''subject_kind'') (\<lambda>k.
       Option.bind (required parse_claims ms ''claims'') (\<lambda>cs.
       Option.bind (required timestamp ms ''issued_at'') (\<lambda>i.
       Option.bind (required timestamp ms ''expires_at'') (\<lambda>x.
       Option.bind (required (text_where hex128) ms ''sig'') (\<lambda>s.
         Some \<lparr>at_org = org, at_subject = sub, at_subject_kind = k, at_claims = cs, at_issued_at = i,
               at_expires_at = x, at_sig = s\<rparr>))))))))"

definition unsigned_attestation_members :: "attestation \<Rightarrow> json_members" where
  "unsigned_attestation_members a =
     [(''v'', JStr protocol_version), (''type'', JStr ''attestation''), (''org'', JStr (at_org a)),
      (''subject'', JStr (at_subject a)), (''subject_kind'', JStr (subject_kind_name (at_subject_kind a))),
      (''claims'', JObj (at_claims a)), (''issued_at'', JStr (text_of (at_issued_at a))),
      (''expires_at'', JStr (text_of (at_expires_at a)))]"

definition attestation_members :: "attestation \<Rightarrow> json_members" where
  "attestation_members a = unsigned_attestation_members a @ [(''sig'', JStr (at_sig a))]"

definition parse_revocation :: "json \<Rightarrow> revocation option" where
  "parse_revocation = object_of (\<lambda>ms.
     if \<not> tagged ''revocation'' ms then None
     else Option.bind (required (text_where hex64) ms ''org'') (\<lambda>org.
       Option.bind (required (text_where hex64) ms ''subject'') (\<lambda>sub.
       Option.bind (required timestamp ms ''revoked_at'') (\<lambda>t.
       Option.bind (required (text_where hex128) ms ''sig'') (\<lambda>s.
         Some \<lparr>rv_org = org, rv_subject = sub, rv_revoked_at = t, rv_sig = s\<rparr>)))))"

definition unsigned_revocation_members :: "revocation \<Rightarrow> json_members" where
  "unsigned_revocation_members r =
     [(''v'', JStr protocol_version), (''type'', JStr ''revocation''), (''org'', JStr (rv_org r)),
      (''subject'', JStr (rv_subject r)), (''revoked_at'', JStr (text_of (rv_revoked_at r)))]"

definition revocation_members :: "revocation \<Rightarrow> json_members" where
  "revocation_members r = unsigned_revocation_members r @ [(''sig'', JStr (rv_sig r))]"

text \<open>\<^verbatim>\<open>claims.display_name ?? null\<close>, \<^verbatim>\<open>claims.handle ?? null\<close>.\<close>

definition claimed_text :: "string \<Rightarrow> attestation \<Rightarrow> string option" where
  "claimed_text k a = (case map_of (at_claims a) k of Some (JStr s) \<Rightarrow> Some s | _ \<Rightarrow> None)"

section \<open>Dates\<close>

text \<open>\<^verbatim>\<open>getTime()\<close>: \<open>None\<close> is \<^verbatim>\<open>NaN\<close>, the time value of an invalid date.\<close>

type_synonym js_date = "int option"

definition earlier :: "js_date \<Rightarrow> rfc3339 \<Rightarrow> bool" where
  "earlier d t \<longleftrightarrow> (case d of None \<Rightarrow> False | Some n \<Rightarrow> n < ms_of t)"

definition reached :: "js_date \<Rightarrow> rfc3339 \<Rightarrow> bool" where
  "reached d t \<longleftrightarrow> (case d of None \<Rightarrow> False | Some n \<Rightarrow> ms_of t \<le> n)"

section \<open>Verification\<close>

datatype moment = AtNow | AtSigningTime

datatype attestation_rejection =
    AttMalformed
  | AttSignatureInvalid persona_id
  | AttSubjectMismatch persona_id
  | AttOrgMismatch persona_id
  | AttNotYetIssued moment
  | AttExpired moment
  | AttRevoked rfc3339

record attestation_context =
  cx_now :: js_date
  cx_signed_at :: "js_date option"
  cx_subject :: "persona_id option"
  cx_org :: "persona_id option"
  cx_revocations :: "json list"

datatype attestation_verdict =
    Attested attestation "rfc3339 option"
  | NotAttested attestation_rejection "attestation option"

definition verify_revocation :: "crypto_lib \<Rightarrow> json \<Rightarrow> revocation option" where
  "verify_revocation cl j =
     (case parse_revocation j of
        None \<Rightarrow> None
      | Some r \<Rightarrow> if verify_object cl (revocation_members r) (rv_org r) then Some r else None)"

text \<open>The loop: the best so far. An earlier one replaces it, an equally early one does not.\<close>

fun earliest_from :: "crypto_lib \<Rightarrow> persona_id \<Rightarrow> persona_id \<Rightarrow> revocation option \<Rightarrow> json list \<Rightarrow> revocation option" where
  "earliest_from cl org sub best [] = best"
| "earliest_from cl org sub best (j # js) =
     (case verify_revocation cl j of
        None \<Rightarrow> earliest_from cl org sub best js
      | Some r \<Rightarrow>
          if rv_org r \<noteq> org \<or> rv_subject r \<noteq> sub then earliest_from cl org sub best js
          else if (case best of None \<Rightarrow> True | Some b \<Rightarrow> ms_of (rv_revoked_at r) < ms_of (rv_revoked_at b))
               then earliest_from cl org sub (Some r) js
               else earliest_from cl org sub best js)"

definition earliest_revocation :: "crypto_lib \<Rightarrow> json list \<Rightarrow> persona_id \<Rightarrow> persona_id \<Rightarrow> revocation option" where
  "earliest_revocation cl js org sub = earliest_from cl org sub None js"

fun outside_term :: "attestation \<Rightarrow> (js_date \<times> moment) list \<Rightarrow> attestation_rejection option" where
  "outside_term a [] = None"
| "outside_term a ((t, l) # rest) =
     (if earlier t (at_issued_at a) then Some (AttNotYetIssued l)
      else if reached t (at_expires_at a) then Some (AttExpired l)
      else outside_term a rest)"

text \<open>\<^verbatim>\<open>signedAt ?? now\<close>.\<close>

definition evaluated_at :: "attestation_context \<Rightarrow> js_date" where
  "evaluated_at cx = (case cx_signed_at cx of None \<Rightarrow> cx_now cx | Some d \<Rightarrow> d)"

definition verify_attestation :: "crypto_lib \<Rightarrow> json \<Rightarrow> attestation_context \<Rightarrow> attestation_verdict" where
  "verify_attestation cl j cx =
     (case parse_attestation j of
        None \<Rightarrow> NotAttested AttMalformed None
      | Some a \<Rightarrow>
          let moment_of = evaluated_at cx
          in if (case cx_subject cx of None \<Rightarrow> False | Some s \<Rightarrow> at_subject a \<noteq> s)
             then NotAttested (AttSubjectMismatch (at_subject a)) (Some a)
             else if (case cx_org cx of None \<Rightarrow> False | Some g \<Rightarrow> at_org a \<noteq> g)
             then NotAttested (AttOrgMismatch (at_org a)) (Some a)
             else if \<not> verify_object cl (attestation_members a) (at_org a)
             then NotAttested (AttSignatureInvalid (at_org a)) (Some a)
             else case outside_term a [(cx_now cx, AtNow), (moment_of, AtSigningTime)] of
               Some why \<Rightarrow> NotAttested why (Some a)
             | None \<Rightarrow>
                 (case earliest_revocation cl (cx_revocations cx) (at_org a) (at_subject a) of
                    None \<Rightarrow> Attested a None
                  | Some r \<Rightarrow>
                      if reached moment_of (rv_revoked_at r) then NotAttested (AttRevoked (rv_revoked_at r)) (Some a)
                      else Attested a (Some (rv_revoked_at r))))"

section \<open>Laws\<close>

text \<open>The verified revocations by one organisation of one subject.\<close>

definition revokes :: "crypto_lib \<Rightarrow> json list \<Rightarrow> persona_id \<Rightarrow> persona_id \<Rightarrow> revocation set" where
  "revokes cl js org sub = {r. \<exists>j \<in> set js. verify_revocation cl j = Some r \<and> rv_org r = org \<and> rv_subject r = sub}"

lemma revokes_Cons:
  "revokes cl (j # js) org sub =
     (case verify_revocation cl j of
        Some r \<Rightarrow> if rv_org r = org \<and> rv_subject r = sub then insert r (revokes cl js org sub) else revokes cl js org sub
      | None \<Rightarrow> revokes cl js org sub)"
  by (auto simp: revokes_def split: option.splits)

lemma earliest_from_None:
  "earliest_from cl org sub best js = None \<longleftrightarrow> best = None \<and> revokes cl js org sub = {}"
  by (induction cl org sub best js rule: earliest_from.induct)
    (auto simp: revokes_Cons split: option.splits, simp add: revokes_def)

lemma earliest_from_Some:
  assumes "earliest_from cl org sub best js = Some r"
  shows "(best = Some r \<or> r \<in> revokes cl js org sub) \<and>
    (\<forall>b. best = Some b \<longrightarrow> ms_of (rv_revoked_at r) \<le> ms_of (rv_revoked_at b)) \<and>
    (\<forall>x \<in> revokes cl js org sub. ms_of (rv_revoked_at r) \<le> ms_of (rv_revoked_at x))"
  using assms
proof (induction cl org sub best js rule: earliest_from.induct)
  case (1 cl org sub best)
  then show ?case by (simp add: revokes_def)
next
  case (2 cl org sub best j js)
  show ?case
  proof (cases "\<exists>x. verify_revocation cl j = Some x \<and> rv_org x = org \<and> rv_subject x = sub")
    case False
    then have skip: "revokes cl (j # js) org sub = revokes cl js org sub"
      and "earliest_from cl org sub best (j # js) = earliest_from cl org sub best js"
      by (auto simp: revokes_Cons split: option.splits)
    with 2 False show ?thesis by (cases "verify_revocation cl j") auto
  next
    case True
    then obtain x where x: "verify_revocation cl j = Some x" "rv_org x = org" "rv_subject x = sub" by blast
    let ?sooner = "case best of None \<Rightarrow> True | Some b \<Rightarrow> ms_of (rv_revoked_at x) < ms_of (rv_revoked_at b)"
    show ?thesis
    proof (cases ?sooner)
      case True
      with 2(3) [OF x(1)] 2(5) x show ?thesis by (fastforce simp: revokes_Cons)
    next
      case False
      with 2(4) [OF x(1)] 2(5) x show ?thesis by (fastforce simp: revokes_Cons split: option.splits)
    qed
  qed
qed

lemma earliest_revocation_None: "earliest_revocation cl js org sub = None \<longleftrightarrow> revokes cl js org sub = {}"
  by (simp add: earliest_revocation_def earliest_from_None)

lemma earliest_revocation_Some:
  assumes "earliest_revocation cl js org sub = Some r"
  shows "r \<in> revokes cl js org sub" and "\<And>x. x \<in> revokes cl js org sub \<Longrightarrow> ms_of (rv_revoked_at r) \<le> ms_of (rv_revoked_at x)"
  using earliest_from_Some [OF assms [unfolded earliest_revocation_def]] by auto

text \<open>An instant within the term of an attestation.\<close>

definition in_term :: "attestation \<Rightarrow> js_date \<Rightarrow> bool" where
  "in_term a d \<longleftrightarrow> \<not> earlier d (at_issued_at a) \<and> \<not> reached d (at_expires_at a)"

lemma in_term_valid_date:
  "in_term a (Some t) \<longleftrightarrow> ms_of (at_issued_at a) \<le> t \<and> t < ms_of (at_expires_at a)"
  by (auto simp: in_term_def earlier_def reached_def)

lemma in_term_invalid_date: "in_term a None" by (simp add: in_term_def earlier_def reached_def)

lemma outside_term_None: "outside_term a ts = None \<longleftrightarrow> (\<forall>(t, l) \<in> set ts. in_term a t)"
  by (induction a ts rule: outside_term.induct) (auto simp: in_term_def)

lemma verify_attestation_iff:
  "(\<exists>rv. verify_attestation cl j cx = Attested a rv) \<longleftrightarrow>
     parse_attestation j = Some a \<and> verify_object cl (attestation_members a) (at_org a) \<and>
     (\<forall>s. cx_subject cx = Some s \<longrightarrow> at_subject a = s) \<and> (\<forall>g. cx_org cx = Some g \<longrightarrow> at_org a = g) \<and>
     in_term a (cx_now cx) \<and> in_term a (evaluated_at cx) \<and>
     (\<forall>r \<in> revokes cl (cx_revocations cx) (at_org a) (at_subject a). \<not> reached (evaluated_at cx) (rv_revoked_at r))"
  (is "?l \<longleftrightarrow> ?r")
proof (cases "parse_attestation j")
  case None
  then show ?thesis by (simp add: verify_attestation_def)
next
  case (Some b)
  let ?rv = "earliest_revocation cl (cx_revocations cx) (at_org b) (at_subject b)"
  have pick: "(\<forall>r \<in> revokes cl (cx_revocations cx) (at_org b) (at_subject b). \<not> reached d (rv_revoked_at r)) \<longleftrightarrow>
      (case ?rv of None \<Rightarrow> True | Some r \<Rightarrow> \<not> reached d (rv_revoked_at r))" for d
  proof (cases ?rv)
    case None
    then have "revokes cl (cx_revocations cx) (at_org b) (at_subject b) = {}" by (simp only: earliest_revocation_None)
    with None show ?thesis by simp
  next
    case (Some r)
    note first = earliest_revocation_Some [OF Some]
    have "\<not> reached d (rv_revoked_at x)" if "\<not> reached d (rv_revoked_at r)" "x \<in> revokes cl (cx_revocations cx) (at_org b) (at_subject b)" for x
      using that first(2) [OF that(2)] by (auto simp: reached_def split: option.splits)
    with Some first(1) show ?thesis by auto
  qed
  have dates: "outside_term b [(cx_now cx, AtNow), (evaluated_at cx, AtSigningTime)] = None \<longleftrightarrow>
      in_term b (cx_now cx) \<and> in_term b (evaluated_at cx)"
    unfolding outside_term_None by simp
  show ?thesis
    unfolding verify_attestation_def Let_def Some option.case
    using dates pick [of "evaluated_at cx"]
    by (auto simp del: outside_term.simps split: option.splits if_splits)
qed

end
