(* ===== verification/JsText.thy ===== *)
theory JsText
  imports Crypto
begin

text \<open>
  The operations of ECMAScript on strings that several packages call: \<^verbatim>\<open>split\<close>, \<^verbatim>\<open>trim\<close>, \<^verbatim>\<open>toLowerCase\<close>, the
  character classes of regular expressions, and texts with code units above 255 (\<open>wide\<close>), which only prose for
  a screen or a reviewer has.
\<close>

fun js_split :: "char \<Rightarrow> string \<Rightarrow> string list" where
  "js_split sep [] = [[]]"
| "js_split sep (c # s) =
     (if c = sep then [] # js_split sep s
      else (case js_split sep s of [] \<Rightarrow> [[c]] | w # ws \<Rightarrow> (c # w) # ws))"

text \<open>\<^verbatim>\<open>\s\<close>, \<^verbatim>\<open>\w\<close>, and the characters that \<^verbatim>\<open>.\<close> does not match and that end a line for \<^verbatim>\<open>^\<close> with flag \<^verbatim>\<open>m\<close>.\<close>

definition js_space :: "char \<Rightarrow> bool" where
  "js_space c \<longleftrightarrow> (of_char c :: nat) \<in> {9, 10, 11, 12, 13, 32, 160}"

definition is_word_char :: "char \<Rightarrow> bool" where
  "is_word_char c \<longleftrightarrow> (CHR ''a'' \<le> c \<and> c \<le> CHR ''z'') \<or> (CHR ''A'' \<le> c \<and> c \<le> CHR ''Z'') \<or> is_digit c \<or> c = CHR ''_''"

definition line_end :: "char \<Rightarrow> bool" where
  "line_end c \<longleftrightarrow> (of_char c :: nat) \<in> {10, 13}"

definition newline :: char where
  "newline = char_of (10 :: nat)"

definition js_trim_start :: "string \<Rightarrow> string" where
  "js_trim_start s = dropWhile js_space s"

definition js_trim :: "string \<Rightarrow> string" where
  "js_trim s = rev (dropWhile js_space (rev (js_trim_start s)))"

definition js_lower_char :: "char \<Rightarrow> char" where
  "js_lower_char c =
     (let n = of_char c :: nat
      in if (65 \<le> n \<and> n \<le> 90) \<or> (192 \<le> n \<and> n \<le> 222 \<and> n \<noteq> 215) then char_of (n + 32) else c)"

definition js_lower :: "string \<Rightarrow> string" where
  "js_lower s = map js_lower_char s"

definition ends_with :: "string \<Rightarrow> string \<Rightarrow> bool" where
  "ends_with p s \<longleftrightarrow> length p \<le> length s \<and> drop (length s - length p) s = p"

text \<open>\<^verbatim>\<open>s.startsWith(p) ? s.slice(p.length) : undefined\<close>\<close>

definition strip_prefix :: "string \<Rightarrow> string \<Rightarrow> string option" where
  "strip_prefix p s = (if starts_with p s then Some (drop (length p) s) else None)"

type_synonym wide = "nat list"

definition wide :: "string \<Rightarrow> wide" where
  "wide s = map of_char s"

section \<open>Splitting and joining\<close>

lemma js_split_not_Nil [simp]: "js_split sep s \<noteq> []"
  by (cases s) (auto split: list.splits)

lemma join_js_split: "join_with [sep] (js_split sep s) = s"
proof (induction s)
  case Nil
  then show ?case by simp
next
  case (Cons c s)
  obtain w ws where w: "js_split sep s = w # ws" by (cases "js_split sep s") auto
  then have "join_with [sep] (w # ws) = s" using Cons.IH by simp
  then show ?case by (cases ws) (auto simp: w)
qed

lemma js_split_append: "sep \<notin> set w \<Longrightarrow> js_split sep (w @ sep # s) = w # js_split sep s"
  by (induction w) auto

lemma js_split_single: "sep \<notin> set w \<Longrightarrow> js_split sep w = [w]"
  by (induction w) auto

lemma js_split_join:
  assumes "ws \<noteq> []" and "\<forall>w \<in> set ws. sep \<notin> set w"
  shows "js_split sep (join_with [sep] ws) = ws"
  using assms
proof (induction ws rule: induct_list012)
  case 1
  then show ?case by simp
next
  case (2 x)
  then show ?case by (simp add: js_split_single)
next
  case (3 x y zs)
  then show ?case by (simp add: js_split_append)
qed

lemma js_split_pieces: "w \<in> set (js_split sep s) \<Longrightarrow> sep \<notin> set w"
proof (induction s arbitrary: w)
  case Nil
  then show ?case by simp
next
  case (Cons c s)
  then show ?case by (cases "js_split sep s") (auto split: if_split_asm)
qed

lemma starts_with_iff: "starts_with p s \<longleftrightarrow> (\<exists>t. s = p @ t)"
  by (metis append_eq_conv_conj append_take_drop_id starts_with_def)

lemma strip_prefix_Some: "strip_prefix p s = Some t \<longleftrightarrow> s = p @ t"
  by (auto simp: strip_prefix_def starts_with_iff)

section \<open>Decimal numbers are read back\<close>

declare decimal_digits.simps [simp del]

lemma hex_digit_decimal: "n < 10 \<Longrightarrow> is_digit (hex_digit n) \<and> digit_value (hex_digit n) = int n"
proof -
  have "list_all (\<lambda>n. is_digit (hex_digit n) \<and> digit_value (hex_digit n) = int n) [0 ..< 10]" by code_simp
  then show "n < 10 \<Longrightarrow> is_digit (hex_digit n) \<and> digit_value (hex_digit n) = int n" by (simp add: list_all_iff)
qed

lemma read_decimal: "list_all is_digit (decimal_digits n) \<and> decimal_value (decimal_digits n) = int n"
proof (induction n rule: less_induct)
  case (less n)
  show ?case
  proof (cases "n < 10")
    case True
    then show ?thesis using hex_digit_decimal [OF True] by (subst (1 2) decimal_digits.simps) (simp add: decimal_value_def)
  next
    case False
    then have "list_all is_digit (decimal_digits (n div 10)) \<and> decimal_value (decimal_digits (n div 10)) = int (n div 10)"
      by (intro less.IH) simp
    with hex_digit_decimal [of "n mod 10"] False show ?thesis
      by (subst (1 2) decimal_digits.simps) (simp add: decimal_value_def zdiv_int zmod_int)
  qed
qed

lemma digits_then:
  assumes "list_all is_digit ds" and "t \<noteq> []" and "\<not> is_digit (hd t)"
  shows "takeWhile is_digit (ds @ t) = ds" and "dropWhile is_digit (ds @ t) = t"
  using assms by (induction ds) (cases t; simp)+

end
