(* ===== verification/Anchors.thy ===== *)
theory Anchors
  imports Attesting JsText
begin

text \<open>
  Domain anchors: the schema \<^verbatim>\<open>DomainAnchor\<close> of \<^verbatim>\<open>packages/types/src/identity.ts\<close> and
  \<^verbatim>\<open>packages/identity/src/anchor.ts\<close>, entire. \<^verbatim>\<open>JSON.parse\<close> and the URL parser are the two fields of
  \<open>web_lib\<close>; what the web and the DNS answer is the parameter of a resolution. A request is two steps of
  the resolver, before and after the answers, since other requests run in between.
\<close>

section \<open>Host names\<close>

definition is_ldh :: "char \<Rightarrow> bool" where
  "is_ldh c \<longleftrightarrow> (CHR ''a'' \<le> c \<and> c \<le> CHR ''z'') \<or> is_digit c"

text \<open>\<^verbatim>\<open>[a-z0-9]([a-z0-9-]{0,61}[a-z0-9])?\<close>\<close>

definition is_label :: "string \<Rightarrow> bool" where
  "is_label s \<longleftrightarrow> s \<noteq> [] \<and> length s \<le> 63 \<and> list_all (\<lambda>c. is_ldh c \<or> c = CHR ''-'') s \<and> is_ldh (hd s) \<and> is_ldh (last s)"

text \<open>The regular expression \<^verbatim>\<open>HOSTNAME\<close>: at least two labels, at most 253 characters.\<close>

definition is_anchorable_domain :: "string \<Rightarrow> bool" where
  "is_anchorable_domain d \<longleftrightarrow> 1 \<le> length d \<and> length d \<le> 253 \<and>
     2 \<le> length (js_split CHR ''.'' d) \<and> list_all is_label (js_split CHR ''.'' d)"

text \<open>\<open>None\<close> is the \<^verbatim>\<open>TypeError\<close>.\<close>

definition well_known_url :: "string \<Rightarrow> string option" where
  "well_known_url d = (if is_anchorable_domain d then Some (''https://'' @ d @ ''/.well-known/servanda.json'') else None)"

definition txt_name :: "string \<Rightarrow> string option" where
  "txt_name d = (if is_anchorable_domain d then Some (''_servanda.'' @ d) else None)"

section \<open>Anchors\<close>

text \<open>A parsed URL; its text is the serialization of these parts.\<close>

record url =
  url_protocol :: string
  url_userinfo :: string
  url_hostname :: string
  url_port :: string
  url_pathname :: string
  url_search :: string
  url_hash :: string

record web_lib =
  web_json :: "string \<Rightarrow> json option"
  web_url :: "string \<Rightarrow> url option"

definition parse_domain_anchor :: "web_lib \<Rightarrow> json \<Rightarrow> domain_anchor option" where
  "parse_domain_anchor wl = object_of (\<lambda>ms.
     if map_of ms ''v'' \<noteq> Some (JStr protocol_version) then None
     else Option.bind (required (text_where hex64) ms ''org_root'') (\<lambda>k.
       Option.bind (defaulted [] (array_of (text_where (\<lambda>s. web_url wl s \<noteq> None))) ms ''hubs'') (\<lambda>hs.
         Some \<lparr>da_org_root = k, da_hubs = hs\<rparr>)))"

definition parse_well_known :: "web_lib \<Rightarrow> string \<Rightarrow> domain_anchor option" where
  "parse_well_known wl body = Option.bind (web_json wl body) (parse_domain_anchor wl)"

text \<open>The loop over the parts of a TXT payload: the fields so far, \<open>None\<close> when it refuses.\<close>

fun anchor_fields :: "string list \<Rightarrow> (string \<times> string) list \<Rightarrow> (string \<times> string) list option" where
  "anchor_fields [] fs = Some fs"
| "anchor_fields (part # parts) fs =
     (let trimmed = js_trim part
      in if trimmed = [] then anchor_fields parts fs
         else case find_index (\<lambda>c. c = CHR ''='') trimmed of
           None \<Rightarrow> None
         | Some eq \<Rightarrow>
             if eq = 0 then None
             else let name = js_trim (take eq trimmed)
                  in if map_of fs name \<noteq> None then None
                     else anchor_fields parts (map_set name (js_trim (drop (Suc eq) trimmed)) fs))"

definition anchor_txt_version :: string where
  "anchor_txt_version = ''servanda0.1''"

definition parse_anchor_txt :: "string \<Rightarrow> domain_anchor option" where
  "parse_anchor_txt v =
     (case anchor_fields (js_split CHR '';'' v) [] of
        None \<Rightarrow> None
      | Some fs \<Rightarrow>
          if map_of fs ''v'' \<noteq> Some anchor_txt_version then None
          else case map_of fs ''k'' of
            None \<Rightarrow> None
          | Some k \<Rightarrow> if hex64 k then Some \<lparr>da_org_root = k, da_hubs = []\<rparr> else None)"

section \<open>One resolution\<close>

datatype anchor_source = FromDns | FromWellKnown

datatype anchor_failure = NoTransport | InvalidDomain | Unreachable | AnchorAbsent | AnchorMalformed | AnchorConflict

record http_response =
  hr_status :: int
  hr_body :: string
  hr_ttl_seconds :: "rat option"

record txt_record =
  tr_value :: string
  tr_ttl_seconds :: "rat option"

record anchor_resolution =
  ar_domain :: string
  ar_ok :: bool
  ar_anchor :: "domain_anchor option"
  ar_sources :: "anchor_source list"
  ar_reason :: "anchor_failure option"
  ar_expires_at :: "int option"
  ar_checked_at :: int

definition max_anchor_ttl_seconds :: int where
  "max_anchor_ttl_seconds = 86400"

text \<open>A TTL is a finite number; any other value counts as absent.\<close>

definition ttl_to_expiry :: "int \<Rightarrow> rat option \<Rightarrow> int option" where
  "ttl_to_expiry now ttl =
     (case ttl of
        None \<Rightarrow> None
      | Some q \<Rightarrow> if q \<le> 0 then None else Some (now + min \<lfloor>q\<rfloor> max_anchor_ttl_seconds * 1000))"

record stated_anchor =
  sa_source :: anchor_source
  sa_anchor :: domain_anchor
  sa_expires_at :: "int option"

text \<open>
  What the two functions of the transport answered: \<open>None\<close> when the function is not there, \<open>Some None\<close> when it
  answered null or threw.
\<close>

record anchor_answers =
  an_http :: "http_response option option"
  an_txt :: "txt_record list option option"

definition http_anchors :: "web_lib \<Rightarrow> int \<Rightarrow> http_response \<Rightarrow> stated_anchor list" where
  "http_anchors wl now res =
     (if hr_status res \<noteq> 200 then []
      else case parse_well_known wl (hr_body res) of
        None \<Rightarrow> []
      | Some a \<Rightarrow> [\<lparr>sa_source = FromWellKnown, sa_anchor = a, sa_expires_at = ttl_to_expiry now (hr_ttl_seconds res)\<rparr>])"

definition http_malformed :: "web_lib \<Rightarrow> http_response \<Rightarrow> bool" where
  "http_malformed wl res \<longleftrightarrow> hr_status res = 200 \<and> parse_well_known wl (hr_body res) = None"

definition txt_anchors :: "int \<Rightarrow> txt_record list \<Rightarrow> stated_anchor list" where
  "txt_anchors now rs = List.map_filter (\<lambda>r. map_option (\<lambda>a.
     \<lparr>sa_source = FromDns, sa_anchor = a, sa_expires_at = ttl_to_expiry now (tr_ttl_seconds r)\<rparr>)
       (parse_anchor_txt (tr_value r))) rs"

definition answered :: "'a option option \<Rightarrow> 'a option" where
  "answered x = (case x of Some (Some y) \<Rightarrow> Some y | _ \<Rightarrow> None)"

definition found_anchors :: "web_lib \<Rightarrow> int \<Rightarrow> anchor_answers \<Rightarrow> stated_anchor list" where
  "found_anchors wl now an =
     (case answered (an_http an) of None \<Rightarrow> [] | Some res \<Rightarrow> http_anchors wl now res) @
     (case answered (an_txt an) of None \<Rightarrow> [] | Some rs \<Rightarrow> txt_anchors now rs)"

text \<open>\<^verbatim>\<open>[...new Set(found.map((f) => f.source))].sort()\<close>\<close>

definition sources_of :: "stated_anchor list \<Rightarrow> anchor_source list" where
  "sources_of found = filter (\<lambda>s. s \<in> set (map sa_source found)) [FromDns, FromWellKnown]"

definition no_anchor :: "string \<Rightarrow> int \<Rightarrow> anchor_failure \<Rightarrow> anchor_source list \<Rightarrow> anchor_resolution" where
  "no_anchor d now why srcs =
     \<lparr>ar_domain = d, ar_ok = False, ar_anchor = None, ar_sources = srcs, ar_reason = Some why,
      ar_expires_at = None, ar_checked_at = now\<rparr>"

text \<open>The shortest TTL governs; one source without any makes the resolution uncacheable.\<close>

definition governing_expiry :: "stated_anchor list \<Rightarrow> int option" where
  "governing_expiry found =
     (case all_some (map sa_expires_at found) of
        None \<Rightarrow> None | Some [] \<Rightarrow> None | Some (x # xs) \<Rightarrow> Some (foldl min x xs))"

definition primary_anchor :: "stated_anchor list \<Rightarrow> domain_anchor option" where
  "primary_anchor found =
     map_option sa_anchor (case find (\<lambda>f. sa_source f = FromWellKnown) found of None \<Rightarrow> hd_opt found | Some f \<Rightarrow> Some f)"

definition resolve_from :: "web_lib \<Rightarrow> int \<Rightarrow> string \<Rightarrow> anchor_answers \<Rightarrow> anchor_resolution" where
  "resolve_from wl now d an =
     (if \<not> is_anchorable_domain d then no_anchor d now InvalidDomain []
      else if an_http an = None \<and> an_txt an = None then no_anchor d now NoTransport []
      else let reached_any = answered (an_http an) \<noteq> None \<or> answered (an_txt an) \<noteq> None;
               malformed = (case answered (an_http an) of None \<Rightarrow> False | Some res \<Rightarrow> http_malformed wl res);
               found = found_anchors wl now an
           in if found = []
              then if malformed then no_anchor d now AnchorMalformed (if reached_any then [FromWellKnown] else [])
                   else no_anchor d now (if reached_any then AnchorAbsent else Unreachable) []
              else if 1 < card (set (map (da_org_root \<circ> sa_anchor) found))
              then no_anchor d now AnchorConflict (sources_of found)
              else \<lparr>ar_domain = d, ar_ok = True, ar_anchor = primary_anchor found, ar_sources = sources_of found,
                    ar_reason = None, ar_expires_at = governing_expiry found, ar_checked_at = now\<rparr>)"

definition anchors_org_root :: "anchor_resolution option \<Rightarrow> persona_id \<Rightarrow> bool" where
  "anchors_org_root r org \<longleftrightarrow> (case r of None \<Rightarrow> False | Some x \<Rightarrow> ar_ok x \<and> map_option da_org_root (ar_anchor x) = Some org)"

section \<open>The resolver\<close>

record cache_entry =
  ce_resolution :: anchor_resolution
  ce_expires_at :: int

type_synonym anchor_cache = "(string \<times> cache_entry) list"

text \<open>A cached answer still in force, or none: an entry past its time is dropped.\<close>

definition look_up :: "js_date \<Rightarrow> string \<Rightarrow> anchor_cache \<Rightarrow> anchor_resolution option \<times> anchor_cache" where
  "look_up now d cache =
     (case map_of cache d of
        None \<Rightarrow> (None, cache)
      | Some e \<Rightarrow>
          if (case now of None \<Rightarrow> False | Some t \<Rightarrow> t < ce_expires_at e) then (Some (ce_resolution e), cache)
          else (None, filter (\<lambda>x. fst x \<noteq> d) cache))"

definition remember :: "string \<Rightarrow> anchor_resolution \<Rightarrow> anchor_cache \<Rightarrow> anchor_cache" where
  "remember d r cache =
     (case ar_expires_at r of
        None \<Rightarrow> cache
      | Some x \<Rightarrow> if ar_ok r then map_set d \<lparr>ce_resolution = r, ce_expires_at = x\<rparr> cache else cache)"

text \<open>The functions a transport has; the \<open>n\<close>-th request it receives.\<close>

record anchor_transport =
  tp_fetch_well_known :: "(nat \<Rightarrow> string \<Rightarrow> http_response option) option"
  tp_resolve_txt :: "(nat \<Rightarrow> string \<Rightarrow> txt_record list option) option"

definition ask_transport :: "anchor_transport \<Rightarrow> nat \<Rightarrow> string \<Rightarrow> anchor_answers" where
  "ask_transport tp n d =
     \<lparr>an_http = map_option (\<lambda>f. Option.bind (well_known_url d) (f n)) (tp_fetch_well_known tp),
      an_txt = map_option (\<lambda>f. Option.bind (txt_name d) (f n)) (tp_resolve_txt tp)\<rparr>"

datatype clock_error = InvalidTimeValue

text \<open>\<^verbatim>\<open>resolve\<close> with no other request in between. Writing down an invalid date throws.\<close>

definition resolve_anchor ::
    "web_lib \<Rightarrow> anchor_transport \<Rightarrow> nat \<Rightarrow> js_date \<Rightarrow> string \<Rightarrow> anchor_cache \<Rightarrow>
     (clock_error, anchor_resolution) result \<times> anchor_cache" where
  "resolve_anchor wl tp n now d cache =
     (case look_up now d cache of
        (Some r, c) \<Rightarrow> (Inr r, c)
      | (None, c) \<Rightarrow>
          (case now of
             None \<Rightarrow> (Inl InvalidTimeValue, c)
           | Some t \<Rightarrow> (let r = resolve_from wl t d (ask_transport tp n d) in (Inr r, remember d r c))))"

end
