(* ===== verification/Ladder.thy ===== *)
theory Ladder
  imports Anchors
begin

text \<open>
  The binding-proof ladder: \<^verbatim>\<open>packages/identity/src/ladder.ts\<close>, \<^verbatim>\<open>binding-proof.ts\<close>, \<^verbatim>\<open>link.ts\<close>, \<^verbatim>\<open>verifier.ts\<close>
  and \<^verbatim>\<open>recovery.ts\<close>, with the schemas \<^verbatim>\<open>BindingProof\<close> and \<^verbatim>\<open>PersonaLink\<close> of \<^verbatim>\<open>types/src/identity.ts\<close>. The
  sentences the source words for a screen are the values they are made of.
\<close>

section \<open>Binding proofs\<close>

record binding_proof =
  bp_persona :: persona_id
  bp_channel_url :: string
  bp_sig :: signature_hex

definition binding_proof_core :: "persona_id \<Rightarrow> string \<Rightarrow> json_members" where
  "binding_proof_core p u =
     [(''v'', JStr protocol_version), (''type'', JStr ''binding_proof''), (''persona'', JStr p), (''channel_url'', JStr u)]"

definition binding_proof_members :: "binding_proof \<Rightarrow> json_members" where
  "binding_proof_members b = binding_proof_core (bp_persona b) (bp_channel_url b) @ [(''sig'', JStr (bp_sig b))]"

definition parse_binding_proof :: "web_lib \<Rightarrow> json \<Rightarrow> binding_proof option" where
  "parse_binding_proof wl = object_of (\<lambda>ms.
     if \<not> tagged ''binding_proof'' ms then None
     else Option.bind (required (text_where hex64) ms ''persona'') (\<lambda>p.
       Option.bind (required (text_where (\<lambda>s. web_url wl s \<noteq> None)) ms ''channel_url'') (\<lambda>u.
       Option.bind (required (text_where hex128) ms ''sig'') (\<lambda>s.
         Some \<lparr>bp_persona = p, bp_channel_url = u, bp_sig = s\<rparr>))))"

definition url_text :: "url \<Rightarrow> string" where
  "url_text u = url_protocol u @ ''//'' @ url_userinfo u @ url_hostname u @
     (if url_port u = [] then [] else CHR '':'' # url_port u) @ url_pathname u @ url_search u @ url_hash u"

definition normalize_channel_url :: "web_lib \<Rightarrow> string \<Rightarrow> string option" where
  "normalize_channel_url wl s =
     (case web_url wl s of
        None \<Rightarrow> None
      | Some u \<Rightarrow>
          if url_protocol u \<noteq> ''https:'' then None
          else let path = url_pathname u
               in Some (url_text (u\<lparr>url_hash := [],
                    url_hostname := js_lower (url_hostname u),
                    url_port := (if url_port u = ''443'' then [] else url_port u),
                    url_pathname := (if 1 < length path \<and> last path = CHR ''/'' then butlast path else path)\<rparr>)))"

datatype binding_rejection =
    ProofMalformed
  | ProofSignatureInvalid persona_id
  | ProofPersonaMismatch persona_id
  | NotObservedOnItsChannel string string

datatype binding_verdict = ProofOk binding_proof | ProofRejected binding_rejection

definition verify_binding_proof :: "crypto_lib \<Rightarrow> web_lib \<Rightarrow> json \<Rightarrow> string \<Rightarrow> persona_id option \<Rightarrow> binding_verdict" where
  "verify_binding_proof cl wl j observed_at persona =
     (case parse_binding_proof wl j of
        None \<Rightarrow> ProofRejected ProofMalformed
      | Some b \<Rightarrow>
          if (case persona of None \<Rightarrow> False | Some p \<Rightarrow> bp_persona b \<noteq> p)
          then ProofRejected (ProofPersonaMismatch (bp_persona b))
          else let claimed = normalize_channel_url wl (bp_channel_url b);
                   observed = normalize_channel_url wl observed_at
               in if claimed = None \<or> observed = None \<or> claimed \<noteq> observed
                  then ProofRejected (NotObservedOnItsChannel (bp_channel_url b) observed_at)
                  else if \<not> verify_object cl (binding_proof_members b) (bp_persona b)
                  then ProofRejected (ProofSignatureInvalid (bp_persona b))
                  else ProofOk b)"

definition sign_binding_proof :: "crypto_lib \<Rightarrow> web_lib \<Rightarrow> persona_id \<Rightarrow> string \<Rightarrow> string \<Rightarrow> binding_proof option" where
  "sign_binding_proof cl wl p u sk =
     Option.bind (with_signature cl (binding_proof_core p u) sk) (\<lambda>ms. parse_binding_proof wl (JObj ms))"

section \<open>Persona links\<close>

record persona_link =
  pl_first :: persona_id
  pl_second :: persona_id
  pl_sig_A :: signature_hex
  pl_sig_B :: signature_hex

definition link_core :: "persona_id \<Rightarrow> persona_id \<Rightarrow> json_members" where
  "link_core a b =
     [(''v'', JStr protocol_version), (''type'', JStr ''link''), (''personas'', JArr [JStr a, JStr b])]"

definition link_members :: "persona_link \<Rightarrow> json_members" where
  "link_members l = link_core (pl_first l) (pl_second l) @ [(''sig_A'', JStr (pl_sig_A l)), (''sig_B'', JStr (pl_sig_B l))]"

definition persona_pair :: "json \<Rightarrow> (persona_id \<times> persona_id) option" where
  "persona_pair j = (case array_of (text_where hex64) j of Some [a, b] \<Rightarrow> Some (a, b) | _ \<Rightarrow> None)"

definition parse_persona_link :: "json \<Rightarrow> persona_link option" where
  "parse_persona_link = object_of (\<lambda>ms.
     if \<not> tagged ''link'' ms then None
     else Option.bind (required persona_pair ms ''personas'') (\<lambda>(a, b).
       Option.bind (required (text_where hex128) ms ''sig_A'') (\<lambda>x.
       Option.bind (required (text_where hex128) ms ''sig_B'') (\<lambda>y.
         Some \<lparr>pl_first = a, pl_second = b, pl_sig_A = x, pl_sig_B = y\<rparr>))))"

datatype link_rejection = LinkMalformed | SelfLink | SigAInvalid persona_id | SigBInvalid persona_id | DuplicateSignature

datatype link_verdict = LinkOk persona_link | LinkRejected link_rejection

definition verify_persona_link :: "crypto_lib \<Rightarrow> json \<Rightarrow> link_verdict" where
  "verify_persona_link cl j =
     (case parse_persona_link j of
        None \<Rightarrow> LinkRejected LinkMalformed
      | Some l \<Rightarrow>
          let a = pl_first l; b = pl_second l
          in if a = b then LinkRejected SelfLink
             else if pl_sig_A l = pl_sig_B l then LinkRejected DuplicateSignature
             else if \<not> verify_object cl (link_core a b @ [(''sig'', JStr (pl_sig_A l))]) a then LinkRejected (SigAInvalid a)
             else if \<not> verify_object cl (link_core a b @ [(''sig'', JStr (pl_sig_B l))]) b then LinkRejected (SigBInvalid b)
             else LinkOk l)"

definition user_initiated :: string where
  "user_initiated = ''user-initiated''"

datatype link_error = LinkNotUserInitiated | LinkToItself | LinkSigningFailed

definition sign_persona_link :: "crypto_lib \<Rightarrow> string \<Rightarrow> string \<Rightarrow> string \<Rightarrow> (link_error, persona_link) result" where
  "sign_persona_link cl sk_a sk_b intent =
     (if intent \<noteq> user_initiated then Inl LinkNotUserInitiated
      else case (public_key_from_private cl sk_a, public_key_from_private cl sk_b) of
        (Some a, Some b) \<Rightarrow>
          if a = b then Inl LinkToItself
          else (case (sign_object cl (link_core a b) sk_a, sign_object cl (link_core a b) sk_b) of
                  (Some x, Some y) \<Rightarrow>
                    (case parse_persona_link (JObj (link_core a b @ [(''sig_A'', JStr x), (''sig_B'', JStr y)])) of
                       None \<Rightarrow> Inl LinkSigningFailed
                     | Some l \<Rightarrow> Inr l)
                | _ \<Rightarrow> Inl LinkSigningFailed)
      | _ \<Rightarrow> Inl LinkSigningFailed)"

section \<open>The ladder\<close>

datatype ladder_level = L0 | L1 | L2 | L3 | LExt

fun level_rank :: "ladder_level \<Rightarrow> nat" where
  "level_rank L0 = 0"
| "level_rank L1 = 1"
| "level_rank LExt = 2"
| "level_rank L2 = 3"
| "level_rank L3 = 4"

fun level_label :: "ladder_level \<Rightarrow> string" where
  "level_label L0 = ''unconfirmed''"
| "level_label L1 = ''continuity''"
| "level_label L2 = ''attested''"
| "level_label L3 = ''domain-verified''"
| "level_label LExt = ''external-proof''"

datatype downgrade_reason =
    AttestationFailed attestation_rejection
  | AnchorFailed "anchor_failure option" string
  | OrgRootMismatch string "persona_id option" persona_id
  | NoAttestationToAnchor string
  | ProofFailed binding_rejection

type_synonym downgrade = "ladder_level \<times> downgrade_reason"

record ladder_evidence =
  le_subject :: string
  le_prior_confirmed_edges :: "int option"
  le_attestation :: "attestation_verdict option"
  le_anchor :: "anchor_resolution option"
  le_binding_proof :: "binding_verdict option"

record verified_identity =
  vi_subject :: string
  vi_level :: ladder_level
  vi_level_label :: string
  vi_achieved :: "ladder_level list"
  vi_downgrades :: "downgrade list"
  vi_display_name :: "string option"
  vi_handle :: "string option"
  vi_attested_by :: "persona_id option"
  vi_anchored_domain :: "string option"
  vi_external_channel :: "string option"

definition attested_by :: "attestation_verdict option \<Rightarrow> attestation option" where
  "attested_by v = (case v of Some (Attested a _) \<Rightarrow> Some a | _ \<Rightarrow> None)"

text \<open>What the anchor contributes: a level-3 domain, or why there is none.\<close>

definition grade_anchor :: "attestation option \<Rightarrow> anchor_resolution option \<Rightarrow> string option \<times> downgrade list" where
  "grade_anchor attested anchor =
     (case attested of
        Some a \<Rightarrow>
          (case anchor of
             None \<Rightarrow> (None, [])
           | Some r \<Rightarrow>
               if \<not> ar_ok r then (None, [(L3, AnchorFailed (ar_reason r) (ar_domain r))])
               else if \<not> anchors_org_root (Some r) (at_org a)
               then (None, [(L3, OrgRootMismatch (ar_domain r) (map_option da_org_root (ar_anchor r)) (at_org a))])
               else (Some (ar_domain r), []))
      | None \<Rightarrow>
          (case anchor of
             None \<Rightarrow> (None, [])
           | Some r \<Rightarrow> (None, if ar_ok r then [(L3, NoAttestationToAnchor (ar_domain r))] else [])))"

definition best_level :: "ladder_level list \<Rightarrow> ladder_level" where
  "best_level ls = foldl (\<lambda>best l. if level_rank best < level_rank l then l else best) L0 ls"

definition binding_level :: "ladder_evidence \<Rightarrow> verified_identity" where
  "binding_level e =
     (let priors = (case le_prior_confirmed_edges e of None \<Rightarrow> 0 | Some n \<Rightarrow> n);
          attested = attested_by (le_attestation e);
          refused = (case le_attestation e of Some (NotAttested why _) \<Rightarrow> [(L2, AttestationFailed why)] | _ \<Rightarrow> []);
          (domain, unanchored) = grade_anchor attested (le_anchor e);
          channel = (case le_binding_proof e of Some (ProofOk b) \<Rightarrow> Some (bp_channel_url b) | _ \<Rightarrow> None);
          unproved = (case le_binding_proof e of Some (ProofRejected why) \<Rightarrow> [(LExt, ProofFailed why)] | _ \<Rightarrow> []);
          achieved = [L0] @ (if 1 \<le> priors then [L1] else []) @ (if attested \<noteq> None then [L2] else []) @
            (if domain \<noteq> None then [L3] else []) @ (if channel \<noteq> None then [LExt] else []);
          level = best_level achieved;
          named = (if level = L2 \<or> level = L3 then attested else None)
      in \<lparr>vi_subject = le_subject e, vi_level = level, vi_level_label = level_label level, vi_achieved = achieved,
          vi_downgrades = refused @ unanchored @ unproved,
          vi_display_name = Option.bind named (claimed_text ''display_name''),
          vi_handle = Option.bind named (claimed_text ''handle''),
          vi_attested_by = map_option at_org attested,
          vi_anchored_domain = domain, vi_external_channel = channel\<rparr>)"

text \<open>What is shown: the name, or the key, shortened to its two ends when it is long.\<close>

datatype shown_name = ShownName string | ShownKey string | ShownKeyEnds string string

definition short_key :: "string \<Rightarrow> shown_name" where
  "short_key k = (if length k \<le> 16 then ShownKey k else ShownKeyEnds (take 8 k) (drop (length k - 8) k))"

definition render_identity :: "verified_identity \<Rightarrow> shown_name \<times> bool \<times> ladder_level \<times> string" where
  "render_identity v =
     (case vi_display_name v of None \<Rightarrow> short_key (vi_subject v) | Some n \<Rightarrow> ShownName n,
      vi_display_name v = None, vi_level v, vi_level_label v)"

definition has_name :: "verified_identity \<Rightarrow> bool" where
  "has_name v \<longleftrightarrow> vi_display_name v \<noteq> None"

section \<open>The verifier\<close>

record verify_input =
  vy_subject :: persona_id
  vy_prior_confirmed_edges :: "int option"
  vy_attestations :: "json list"
  vy_revocations :: "json list"
  vy_signed_at :: "js_date option"
  vy_org_domain :: "string option"
  vy_binding_proof :: "(json \<times> string) option"

text \<open>The loop over the candidates: the first that verifies, or else the first failure.\<close>

fun first_attestation :: "crypto_lib \<Rightarrow> attestation_context \<Rightarrow> attestation_verdict option \<Rightarrow> json list \<Rightarrow> attestation_verdict option" where
  "first_attestation cl cx kept [] = kept"
| "first_attestation cl cx kept (j # js) =
     (case verify_attestation cl j cx of
        Attested a rv \<Rightarrow> Some (Attested a rv)
      | NotAttested why a \<Rightarrow>
          first_attestation cl cx (case kept of None \<Rightarrow> Some (NotAttested why a) | Some v \<Rightarrow> Some v) js)"

definition verify_identity ::
    "crypto_lib \<Rightarrow> web_lib \<Rightarrow> anchor_transport \<Rightarrow> nat \<Rightarrow> js_date \<Rightarrow> js_date \<Rightarrow> verify_input \<Rightarrow> anchor_cache \<Rightarrow>
     (clock_error, verified_identity) result \<times> anchor_cache" where
  "verify_identity cl wl tp n now resolver_now inp cache =
     (let att = first_attestation cl
            \<lparr>cx_now = now, cx_signed_at = vy_signed_at inp, cx_subject = Some (vy_subject inp), cx_org = None,
             cx_revocations = vy_revocations inp\<rparr> None (vy_attestations inp);
          (anchor, cache') = (case vy_org_domain inp of
            None \<Rightarrow> (Inr None, cache)
          | Some d \<Rightarrow>
              if d = [] then (Inr None, cache)
              else case resolve_anchor wl tp n resolver_now d cache of (r, c) \<Rightarrow> (map_sum id Some r, c));
          proof_verdict = map_option (\<lambda>(j, u). verify_binding_proof cl wl j u (Some (vy_subject inp))) (vy_binding_proof inp)
      in (map_sum id (\<lambda>r. binding_level
            \<lparr>le_subject = vy_subject inp,
             le_prior_confirmed_edges = Some (case vy_prior_confirmed_edges inp of None \<Rightarrow> 0 | Some k \<Rightarrow> k),
             le_attestation = att, le_anchor = r, le_binding_proof = proof_verdict\<rparr>) anchor,
          cache'))"

section \<open>Recovery without the seed\<close>

datatype recovery_path_kind = PathSeed | PathOrgReattestation | PathExternalProofRotation

type_synonym recovery_path = "recovery_path_kind \<times> ladder_level option"

datatype path_rejection =
    ReattestationRefused attestation_rejection
  | AttestsADifferentSubject
  | RotationRefused rotation_rejection
  | WrongKeyPair
  | BindingProofAbsent
  | BindingProofRefused binding_rejection
  | BindingProofOfAnother
  | NotPublishedOnTheChannel

datatype no_path_reason = UnrecoverableByDesign | SeedNotEstablished

record seedless_input =
  si_lost_persona :: persona_id
  si_fresh_persona :: persona_id
  si_seed_available :: "bool option"
  si_reattestation :: "attestation_verdict option"
  si_anchor :: "anchor_resolution option"
  si_rotation :: "json option"
  si_binding_proof :: "binding_verdict option"
  si_rotation_published_at :: "string option"
  si_accept_legacy :: bool

record recovery_assessment =
  ra_lost_persona :: persona_id
  ra_fresh_persona :: persona_id
  ra_paths :: "recovery_path list"
  ra_recoverable :: bool
  ra_reason :: "no_path_reason option"
  ra_rejected :: "(recovery_path_kind \<times> path_rejection) list"

text \<open>A way back: nothing offered, a path, or why what was offered does not hold.\<close>

definition reattestation_path :: "seedless_input \<Rightarrow> (path_rejection, recovery_path) result option" where
  "reattestation_path i =
     (case si_reattestation i of
        None \<Rightarrow> None
      | Some (NotAttested why _) \<Rightarrow> Some (Inl (ReattestationRefused why))
      | Some (Attested a _) \<Rightarrow>
          if at_subject a \<noteq> si_fresh_persona i then Some (Inl AttestsADifferentSubject)
          else Some (Inr (PathOrgReattestation, Some (if anchors_org_root (si_anchor i) (at_org a) then L3 else L2))))"

text \<open>A rotation that was not given is the value undefined, which no schema accepts.\<close>

definition rotation_verdict_of :: "crypto_lib \<Rightarrow> seedless_input \<Rightarrow> rotation_verdict" where
  "rotation_verdict_of cl i =
     (case si_rotation i of None \<Rightarrow> RotBad RotMalformed | Some j \<Rightarrow> verify_rotation cl (si_accept_legacy i) j)"

definition rotation_path :: "crypto_lib \<Rightarrow> web_lib \<Rightarrow> seedless_input \<Rightarrow> (path_rejection, recovery_path) result option" where
  "rotation_path cl wl i =
     (if si_rotation i = None \<and> si_binding_proof i = None then None
      else Some (case rotation_verdict_of cl i of
        RotBad why \<Rightarrow> Inl (RotationRefused why)
      | RotOk r enc \<Rightarrow>
          if r_old r \<noteq> si_lost_persona i \<or> r_new r \<noteq> si_fresh_persona i then Inl WrongKeyPair
          else case si_binding_proof i of
            None \<Rightarrow> Inl BindingProofAbsent
          | Some (ProofRejected why) \<Rightarrow> Inl (BindingProofRefused why)
          | Some (ProofOk b) \<Rightarrow>
              if bp_persona b \<noteq> si_lost_persona i then Inl BindingProofOfAnother
              else let channel = normalize_channel_url wl (bp_channel_url b);
                       published = Option.bind (si_rotation_published_at i) (normalize_channel_url wl)
                   in if channel = None \<or> published = None \<or> channel \<noteq> published then Inl NotPublishedOnTheChannel
                      else Inr (PathExternalProofRotation, Some LExt)))"

definition offered_path :: "('e, recovery_path) result option \<Rightarrow> recovery_path list" where
  "offered_path r = (case r of Some (Inr p) \<Rightarrow> [p] | _ \<Rightarrow> [])"

definition refused_path :: "recovery_path_kind \<Rightarrow> ('e, recovery_path) result option \<Rightarrow> (recovery_path_kind \<times> 'e) list" where
  "refused_path k r = (case r of Some (Inl why) \<Rightarrow> [(k, why)] | _ \<Rightarrow> [])"

definition recovery_paths :: "crypto_lib \<Rightarrow> web_lib \<Rightarrow> seedless_input \<Rightarrow> recovery_assessment" where
  "recovery_paths cl wl i =
     (let a = reattestation_path i; b = rotation_path cl wl i;
          paths = (if si_seed_available i = Some True then [(PathSeed, None)] else []) @ offered_path a @ offered_path b
      in \<lparr>ra_lost_persona = si_lost_persona i, ra_fresh_persona = si_fresh_persona i, ra_paths = paths,
          ra_recoverable = paths \<noteq> [],
          ra_reason = (if paths \<noteq> [] then None
            else Some (if si_seed_available i = Some False then UnrecoverableByDesign else SeedNotEstablished)),
          ra_rejected = refused_path PathOrgReattestation a @ refused_path PathExternalProofRotation b\<rparr>)"

end
