(* ===== verification/LadderLaws.thy ===== *)
theory LadderLaws
  imports Ladder
begin

text \<open>
  Laws of the ladder: what the loop over attestations finds, what a level rests on, what a resolution says
  and what a resolver remembers, under every interleaving of its requests.
\<close>

section \<open>Attestations\<close>

text \<open>An attestation that stands now and at the instant a signature was made.\<close>

definition stands :: "crypto_lib \<Rightarrow> json list \<Rightarrow> int \<Rightarrow> int \<Rightarrow> attestation \<Rightarrow> bool" where
  "stands cl revs now made a \<longleftrightarrow>
     verify_object cl (attestation_members a) (at_org a) \<and>
     ms_of (at_issued_at a) \<le> now \<and> now < ms_of (at_expires_at a) \<and>
     ms_of (at_issued_at a) \<le> made \<and> made < ms_of (at_expires_at a) \<and>
     (\<forall>r \<in> revokes cl revs (at_org a) (at_subject a). made < ms_of (rv_revoked_at r))"

lemma verify_attestation_stands:
  assumes "cx_now cx = Some now" and "evaluated_at cx = Some made"
  shows "(\<exists>rv. verify_attestation cl j cx = Attested a rv) \<longleftrightarrow>
    parse_attestation j = Some a \<and> stands cl (cx_revocations cx) now made a \<and>
    (\<forall>s. cx_subject cx = Some s \<longrightarrow> at_subject a = s) \<and> (\<forall>g. cx_org cx = Some g \<longrightarrow> at_org a = g)"
  unfolding verify_attestation_iff assms in_term_valid_date stands_def
  by (auto simp: reached_def not_le)

lemma first_attestation_Attested:
  assumes "first_attestation cl cx kept js = Some (Attested a rv)"
  shows "kept = Some (Attested a rv) \<or> (\<exists>j \<in> set js. verify_attestation cl j cx = Attested a rv)"
  using assms
  by (induction cl cx kept js rule: first_attestation.induct)
    (auto split: attestation_verdict.splits option.splits)

section \<open>Levels\<close>

text \<open>The table of section 1.6, read from the top.\<close>

definition earned_level :: "ladder_evidence \<Rightarrow> ladder_level" where
  "earned_level e =
     (case le_attestation e of
        Some (Attested a _) \<Rightarrow> if anchors_org_root (le_anchor e) (at_org a) then L3 else L2
      | _ \<Rightarrow>
          (case le_binding_proof e of
             Some (ProofOk _) \<Rightarrow> LExt
           | _ \<Rightarrow> (case le_prior_confirmed_edges e of Some n \<Rightarrow> if 1 \<le> n then L1 else L0 | None \<Rightarrow> L0)))"

lemma grade_anchor_domain:
  "fst (grade_anchor att r) \<noteq> None \<longleftrightarrow> (\<exists>a. att = Some a \<and> anchors_org_root r (at_org a))"
  by (auto simp: grade_anchor_def anchors_org_root_def split: option.splits if_splits)

lemma best_level_cases:
  "best_level ([L0] @ (if p then [L1] else []) @ (if q then [L2] else []) @ (if r then [L3] else []) @ (if s then [LExt] else [])) =
     (if r then L3 else if q then L2 else if s then LExt else if p then L1 else L0)"
  by (auto simp: best_level_def)

lemma binding_level_earned: "vi_level (binding_level e) = earned_level e"
proof -
  let ?att = "attested_by (le_attestation e)"
  have none: "?att = None \<Longrightarrow> fst (grade_anchor ?att (le_anchor e)) = None"
    using grade_anchor_domain [of ?att "le_anchor e"] by (metis option.distinct(1))
  have "vi_level (binding_level e) =
      (if fst (grade_anchor ?att (le_anchor e)) \<noteq> None then L3 else if ?att \<noteq> None then L2
       else if (\<exists>b. le_binding_proof e = Some (ProofOk b)) then LExt
       else if 1 \<le> (case le_prior_confirmed_edges e of None \<Rightarrow> 0 | Some n \<Rightarrow> n) then L1 else L0)"
    unfolding binding_level_def Let_def case_prod_unfold
    by (simp only: best_level_cases verified_identity.simps)
      (auto split: option.splits binding_verdict.splits)
  also have "\<dots> = earned_level e"
    unfolding grade_anchor_domain
    by (auto simp: earned_level_def attested_by_def split: option.splits attestation_verdict.splits binding_verdict.splits)
  finally show ?thesis .
qed

lemma best_rank: "level_rank (best_level ls) = Max (insert 0 (level_rank ` set ls))"
proof -
  have "level_rank (foldl (\<lambda>best l. if level_rank best < level_rank l then l else best) b ls) =
      Max (insert (level_rank b) (level_rank ` set ls))" for b
  proof (induction ls arbitrary: b)
    case Nil
    then show ?case by simp
  next
    case (Cons l ls)
    have "Max (insert (level_rank (if level_rank b < level_rank l then l else b)) (level_rank ` set ls)) =
        Max (insert (level_rank b) (insert (level_rank l) (level_rank ` set ls)))"
      by (cases "set ls = {}") (auto simp: Max_insert max_def)
    with Cons show ?case by simp
  qed
  then show ?thesis by (simp add: best_level_def)
qed

lemma vi_level_best:
  "vi_level (binding_level e) = best_level (vi_achieved (binding_level e)) \<and> L0 \<in> set (vi_achieved (binding_level e))"
  by (simp add: binding_level_def Let_def case_prod_unfold)

lemma vi_level_highest: "level_rank (vi_level (binding_level e)) = Max (level_rank ` set (vi_achieved (binding_level e)))"
proof -
  let ?a = "vi_achieved (binding_level e)"
  have "level_rank L0 \<in> level_rank ` set ?a" using vi_level_best by blast
  then have "insert 0 (level_rank ` set ?a) = level_rank ` set ?a" by auto
  then show ?thesis using vi_level_best [of e] by (simp add: best_rank)
qed

lemma binding_level_name:
  assumes "vi_display_name (binding_level e) = Some n"
  obtains a rv where "le_attestation e = Some (Attested a rv)" and "claimed_text ''display_name'' a = Some n"
    and "vi_attested_by (binding_level e) = Some (at_org a)"
    and "vi_level (binding_level e) = (if anchors_org_root (le_anchor e) (at_org a) then L3 else L2)"
proof -
  from assms obtain a where a: "attested_by (le_attestation e) = Some a" "claimed_text ''display_name'' a = Some n"
    by (auto simp: binding_level_def Let_def case_prod_unfold bind_eq_Some_conv split: if_split_asm)
  then obtain rv where rv: "le_attestation e = Some (Attested a rv)"
    by (auto simp: attested_by_def split: option.splits attestation_verdict.splits)
  moreover have "vi_attested_by (binding_level e) = Some (at_org a)"
    using a(1) by (simp add: binding_level_def Let_def case_prod_unfold)
  ultimately show thesis
    by (intro that [of a rv] a(2)) (simp_all add: binding_level_earned earned_level_def)
qed

section \<open>Resolutions\<close>

text \<open>The roots that the answers state, in a document or in a TXT record.\<close>

definition stated_roots :: "web_lib \<Rightarrow> anchor_answers \<Rightarrow> persona_id set" where
  "stated_roots wl an =
     {k. (\<exists>res a. an_http an = Some (Some res) \<and> hr_status res = 200 \<and> parse_well_known wl (hr_body res) = Some a \<and> da_org_root a = k) \<or>
         (\<exists>rs r a. an_txt an = Some (Some rs) \<and> r \<in> set rs \<and> parse_anchor_txt (tr_value r) = Some a \<and> da_org_root a = k)}"

lemma answered_Some: "answered x = Some y \<longleftrightarrow> x = Some (Some y)"
  by (auto simp: answered_def split: option.splits)

lemma found_roots: "(da_org_root \<circ> sa_anchor) ` set (found_anchors wl now an) = stated_roots wl an"
proof -
  have http: "(da_org_root \<circ> sa_anchor) ` set (http_anchors wl now res) =
      {k. \<exists>a. hr_status res = 200 \<and> parse_well_known wl (hr_body res) = Some a \<and> da_org_root a = k}" for res
    by (cases "parse_well_known wl (hr_body res)") (auto simp: http_anchors_def)
  have texts: "(da_org_root \<circ> sa_anchor) ` set (txt_anchors now rs) =
      {k. \<exists>r a. r \<in> set rs \<and> parse_anchor_txt (tr_value r) = Some a \<and> da_org_root a = k}" for rs
    by (force simp: txt_anchors_def set_map_filter image_iff)
  have "(da_org_root \<circ> sa_anchor) ` set (found_anchors wl now an) =
      (case answered (an_http an) of None \<Rightarrow> {} | Some res \<Rightarrow> (da_org_root \<circ> sa_anchor) ` set (http_anchors wl now res)) \<union>
      (case answered (an_txt an) of None \<Rightarrow> {} | Some rs \<Rightarrow> (da_org_root \<circ> sa_anchor) ` set (txt_anchors now rs))"
    by (auto simp: found_anchors_def split: option.splits)
  also have "\<dots> = stated_roots wl an"
    unfolding http texts stated_roots_def
    by (cases "answered (an_http an)"; cases "answered (an_txt an)") (auto simp: answered_Some answered_def split: option.split_asm)
  finally show ?thesis .
qed

lemma card_set_le_1: "card (set xs) \<le> 1 \<longleftrightarrow> (\<exists>k. set xs \<subseteq> {k})"
  by (metis card_le_Suc0_iff_eq One_nat_def List.finite_set insert_subset singletonD subsetI subset_singletonD empty_iff insert_iff)

lemma primary_anchor_mem:
  assumes "found \<noteq> []"
  obtains f where "f \<in> set found" and "primary_anchor found = Some (sa_anchor f)"
proof (cases "find (\<lambda>f. sa_source f = FromWellKnown) found")
  case None
  with assms show thesis by (intro that [of "hd found"]) (auto simp: primary_anchor_def hd_opt_def neq_Nil_conv)
next
  case (Some f)
  then have "f \<in> set found" by (auto simp: find_Some_iff)
  with Some show thesis by (intro that [of f]) (simp_all add: primary_anchor_def)
qed

lemma resolve_from_ok:
  "ar_ok (resolve_from wl now d an) \<longleftrightarrow> is_anchorable_domain d \<and> (\<exists>k. stated_roots wl an = {k})"
proof -
  let ?roots = "map (da_org_root \<circ> sa_anchor) (found_anchors wl now an)"
  have "found_anchors wl now an = []" if "an_http an = None" "an_txt an = None"
    using that by (simp add: found_anchors_def answered_def)
  then have "ar_ok (resolve_from wl now d an) \<longleftrightarrow>
      is_anchorable_domain d \<and> found_anchors wl now an \<noteq> [] \<and> card (set ?roots) \<le> 1"
    by (auto simp: resolve_from_def no_anchor_def Let_def)
  also have "\<dots> \<longleftrightarrow> is_anchorable_domain d \<and> set ?roots \<noteq> {} \<and> (\<exists>k. set ?roots \<subseteq> {k})"
    unfolding card_set_le_1 by auto
  also have "set ?roots = stated_roots wl an" using found_roots by simp
  finally show ?thesis by blast
qed

lemma resolve_from_anchors:
  "anchors_org_root (Some (resolve_from wl now d an)) k \<longleftrightarrow> is_anchorable_domain d \<and> stated_roots wl an = {k}"
proof (cases "ar_ok (resolve_from wl now d an)")
  case False
  then show ?thesis using resolve_from_ok [of wl now d an] by (auto simp: anchors_org_root_def)
next
  case True
  then obtain k' where k': "is_anchorable_domain d" "stated_roots wl an = {k'}" using resolve_from_ok by blast
  then have "found_anchors wl now an \<noteq> []" using found_roots [of wl now an] by auto
  then obtain f where f: "f \<in> set (found_anchors wl now an)" "primary_anchor (found_anchors wl now an) = Some (sa_anchor f)"
    by (rule primary_anchor_mem)
  from f(1) have "da_org_root (sa_anchor f) = k'" using found_roots [of wl now an] k'(2) by auto
  moreover have "ar_anchor (resolve_from wl now d an) = Some (sa_anchor f)"
    using True f(2) by (auto simp: resolve_from_def no_anchor_def Let_def split: if_split_asm)
  ultimately show ?thesis using True k' by (auto simp: anchors_org_root_def)
qed

text \<open>No answer is remembered for more than a day.\<close>

lemma ttl_to_expiry_day: "ttl_to_expiry now q = Some x \<Longrightarrow> x \<le> now + 86400000"
  by (auto simp: ttl_to_expiry_def max_anchor_ttl_seconds_def split: option.splits if_splits)

lemma foldl_min_le: "foldl min x xs \<le> (x :: int)"
  by (induction xs arbitrary: x) (simp_all, meson min.cobounded1 order_trans)

lemma found_expiry_day: "f \<in> set (found_anchors wl now an) \<Longrightarrow> sa_expires_at f = Some x \<Longrightarrow> x \<le> now + 86400000"
  by (auto simp: found_anchors_def http_anchors_def txt_anchors_def set_map_filter ttl_to_expiry_day split: option.splits if_splits)

lemma all_some_Cons: "all_some xs = Some (y # ys) \<longleftrightarrow> (\<exists>zs. xs = Some y # zs \<and> all_some zs = Some ys)"
  by (cases xs) (auto split: option.splits)

lemma resolve_from_expiry:
  assumes "ar_expires_at (resolve_from wl now d an) = Some x"
  shows "x \<le> now + 86400000"
proof -
  from assms have "governing_expiry (found_anchors wl now an) = Some x"
    by (auto simp: resolve_from_def no_anchor_def Let_def split: if_split_asm)
  then obtain y ys where y: "all_some (map sa_expires_at (found_anchors wl now an)) = Some (y # ys)" and x: "x = foldl min y ys"
    by (auto simp: governing_expiry_def split: option.splits list.splits)
  then obtain f fs where "found_anchors wl now an = f # fs" "sa_expires_at f = Some y"
    by (auto simp: all_some_Cons map_eq_Cons_conv)
  then have "f \<in> set (found_anchors wl now an)" "sa_expires_at f = Some y" by simp_all
  then show ?thesis using found_expiry_day x foldl_min_le [of y ys] by force
qed

section \<open>A resolver under interleaved requests\<close>

text \<open>
  \<open>rw_waiting\<close> are the requests that read the clock and wait for their answers; \<open>rw_asked\<close> remembers what was
  answered to whom, \<open>rw_given\<close> what was returned and when the request read the clock.
\<close>

record resolver_world =
  rw_cache :: anchor_cache
  rw_waiting :: "(string \<times> int) list"
  rw_asked :: "(string \<times> int \<times> anchor_answers) list"
  rw_given :: "(string \<times> int \<times> anchor_resolution) list"

inductive resolver_step :: "web_lib \<Rightarrow> resolver_world \<Rightarrow> resolver_world \<Rightarrow> bool" for wl where
  hit: "look_up (Some t) d (rw_cache w) = (Some r, c) \<Longrightarrow>
    resolver_step wl w (w\<lparr>rw_cache := c, rw_given := (d, t, r) # rw_given w\<rparr>)"
| start: "look_up (Some t) d (rw_cache w) = (None, c) \<Longrightarrow>
    resolver_step wl w (w\<lparr>rw_cache := c, rw_waiting := (d, t) # rw_waiting w\<rparr>)"
| refuse: "look_up None d (rw_cache w) = (None, c) \<Longrightarrow> resolver_step wl w (w\<lparr>rw_cache := c\<rparr>)"
| finish: "(d, t) \<in> set (rw_waiting w) \<Longrightarrow> r = resolve_from wl t d an \<Longrightarrow>
    resolver_step wl w (w\<lparr>rw_cache := remember d r (rw_cache w), rw_waiting := remove1 (d, t) (rw_waiting w),
      rw_asked := (d, t, an) # rw_asked w, rw_given := (d, t, r) # rw_given w\<rparr>)"
| clear: "resolver_step wl w (w\<lparr>rw_cache := []\<rparr>)"

inductive resolver_runs :: "web_lib \<Rightarrow> resolver_world \<Rightarrow> bool" for wl where
  idle: "resolver_runs wl \<lparr>rw_cache = [], rw_waiting = [], rw_asked = [], rw_given = []\<rparr>"
| goes: "resolver_runs wl w \<Longrightarrow> resolver_step wl w w' \<Longrightarrow> resolver_runs wl w'"

text \<open>What a resolution of \<open>d\<close> rests on: an answer to a request that read the clock at \<open>t0\<close>.\<close>

definition answers_of :: "web_lib \<Rightarrow> resolver_world \<Rightarrow> string \<Rightarrow> int \<Rightarrow> anchor_resolution \<Rightarrow> bool" where
  "answers_of wl w d t0 r \<longleftrightarrow> (\<exists>an. (d, t0, an) \<in> set (rw_asked w) \<and> r = resolve_from wl t0 d an)"

definition cache_holds :: "web_lib \<Rightarrow> resolver_world \<Rightarrow> bool" where
  "cache_holds wl w \<longleftrightarrow> (\<forall>(d, e) \<in> set (rw_cache w). ar_ok (ce_resolution e) \<and>
     (\<exists>t0. answers_of wl w d t0 (ce_resolution e) \<and> ce_expires_at e \<le> t0 + 86400000))"

definition given_holds :: "web_lib \<Rightarrow> resolver_world \<Rightarrow> bool" where
  "given_holds wl w \<longleftrightarrow> (\<forall>(d, t, r) \<in> set (rw_given w).
     \<exists>t0. answers_of wl w d t0 r \<and> (t0 = t \<or> ar_ok r \<and> t < t0 + 86400000))"

lemma look_up_hit:
  assumes "look_up now d cache = (Some r, c)"
  obtains e t where "now = Some t" and "(d, e) \<in> set cache" and "r = ce_resolution e" and "t < ce_expires_at e" and "c = cache"
proof (cases "map_of cache d")
  case None
  with assms show thesis by (simp add: look_up_def)
next
  case (Some e)
  note member = map_of_SomeD [OF Some]
  show thesis
  proof (cases now)
    case None
    with Some assms show thesis by (simp add: look_up_def)
  next
    case (Some t)
    with \<open>map_of cache d = Some e\<close> assms member show thesis
      by (intro that [of t e]) (simp_all add: look_up_def split: if_split_asm)
  qed
qed

lemma look_up_miss:
  assumes "look_up now d cache = (None, c)"
  shows "set c \<subseteq> set cache"
proof (cases "map_of cache d")
  case None
  with assms show ?thesis by (simp add: look_up_def)
next
  case (Some e)
  with assms have "c = filter (\<lambda>x. fst x \<noteq> d) cache" by (simp add: look_up_def split: if_split_asm)
  then show ?thesis by simp
qed

lemma set_map_set: "set (map_set k v m) \<subseteq> insert (k, v) (set m)"
  by (induction k v m rule: map_set.induct) auto

lemma remember_mem:
  assumes "(d', e) \<in> set (remember d r cache)"
  shows "(d', e) \<in> set cache \<or> (d' = d \<and> ce_resolution e = r \<and> ar_ok r \<and> ar_expires_at r = Some (ce_expires_at e))"
proof (cases "ar_ok r \<and> ar_expires_at r \<noteq> None")
  case True
  then obtain x where x: "ar_ok r" "ar_expires_at r = Some x" by blast
  with assms have "(d', e) \<in> set (map_set d \<lparr>ce_resolution = r, ce_expires_at = x\<rparr> cache)" by (simp add: remember_def)
  then have "(d', e) \<in> insert (d, \<lparr>ce_resolution = r, ce_expires_at = x\<rparr>) (set cache)" by (rule subsetD [OF set_map_set])
  with x show ?thesis by auto
next
  case False
  with assms show ?thesis by (auto simp: remember_def split: option.split_asm)
qed

lemma answers_of_mono: "answers_of wl w d t0 r \<Longrightarrow> set (rw_asked w) \<subseteq> set (rw_asked w') \<Longrightarrow> answers_of wl w' d t0 r"
  by (auto simp: answers_of_def)

lemma cache_holds_mono:
  assumes "cache_holds wl w" and "set (rw_asked w) \<subseteq> set (rw_asked w')" and "set (rw_cache w') \<subseteq> set (rw_cache w)"
  shows "cache_holds wl w'"
  using assms answers_of_mono [OF _ assms(2)] unfolding cache_holds_def by blast

lemma given_holds_mono:
  assumes "given_holds wl w" and "set (rw_asked w) \<subseteq> set (rw_asked w')" and "rw_given w' = rw_given w"
  shows "given_holds wl w'"
  using assms answers_of_mono [OF _ assms(2)] unfolding given_holds_def by fastforce

lemma given_holds_Cons:
  assumes "given_holds wl w" and "set (rw_asked w) \<subseteq> set (rw_asked w')" and "rw_given w' = (d, t, r) # rw_given w"
    and "answers_of wl w' d t0 r" and "t0 = t \<or> ar_ok r \<and> t < t0 + 86400000"
  shows "given_holds wl w'"
  using assms(1,4,5) answers_of_mono [OF _ assms(2)] unfolding given_holds_def assms(3) by fastforce

lemma resolver_step_holds:
  assumes "resolver_step wl w w'" and "cache_holds wl w" and "given_holds wl w"
  shows "cache_holds wl w' \<and> given_holds wl w'"
  using assms
proof (induction rule: resolver_step.induct)
  case (hit t d w r c)
  from hit.hyps obtain e where e: "(d, e) \<in> set (rw_cache w)" "r = ce_resolution e" "t < ce_expires_at e" "c = rw_cache w"
    by (rule look_up_hit) auto
  with hit.prems(1) obtain t0 where "ar_ok r" "answers_of wl w d t0 r" "ce_expires_at e \<le> t0 + 86400000"
    by (auto simp: cache_holds_def)
  with e hit.prems show ?case
    by (auto intro!: cache_holds_mono [of wl w] given_holds_Cons [of wl w _ d t r t0] simp: answers_of_def)
next
  case (start t d w c)
  with look_up_miss [OF start.hyps] show ?case
    by (auto intro!: cache_holds_mono [of wl w] given_holds_mono [of wl w])
next
  case (refuse d w c)
  with look_up_miss [OF refuse.hyps] show ?case
    by (auto intro!: cache_holds_mono [of wl w] given_holds_mono [of wl w])
next
  case (finish d t w r an)
  let ?w' = "w\<lparr>rw_cache := remember d r (rw_cache w), rw_waiting := remove1 (d, t) (rw_waiting w),
      rw_asked := (d, t, an) # rw_asked w, rw_given := (d, t, r) # rw_given w\<rparr>"
  have new: "answers_of wl ?w' d t r" using finish.hyps(2) by (auto simp: answers_of_def)
  have old: "answers_of wl w d' t0 r' \<Longrightarrow> answers_of wl ?w' d' t0 r'" for d' t0 r'
    by (auto simp: answers_of_def)
  have "ar_ok (ce_resolution e) \<and> (\<exists>t0. answers_of wl ?w' d' t0 (ce_resolution e) \<and> ce_expires_at e \<le> t0 + 86400000)"
    if "(d', e) \<in> set (remember d r (rw_cache w))" for d' e
    using remember_mem [OF that]
  proof (elim disjE conjE)
    assume "(d', e) \<in> set (rw_cache w)"
    with finish.prems(1) obtain t0 where "ar_ok (ce_resolution e)" "answers_of wl w d' t0 (ce_resolution e)"
      "ce_expires_at e \<le> t0 + 86400000" by (auto simp: cache_holds_def)
    with old [of d' t0] show ?thesis by blast
  next
    assume "d' = d" "ce_resolution e = r" "ar_ok r" "ar_expires_at r = Some (ce_expires_at e)"
    with new finish.hyps(2) resolve_from_expiry [of wl t d an "ce_expires_at e"] show ?thesis
      by (intro conjI exI [of _ t]) simp_all
  qed
  then have "cache_holds wl ?w'" by (auto simp: cache_holds_def)
  moreover have "given_holds wl ?w'"
    using finish.prems(2) new by (intro given_holds_Cons [of wl w ?w' d t r t]) auto
  ultimately show ?case by blast
next
  case (clear w)
  then show ?case by (auto simp: cache_holds_def intro!: given_holds_mono [of wl w])
qed

lemma resolver_runs_holds: "resolver_runs wl w \<Longrightarrow> cache_holds wl w \<and> given_holds wl w"
proof (induction rule: resolver_runs.induct)
  case idle
  then show ?case by (simp add: cache_holds_def given_holds_def)
next
  case (goes w w')
  then show ?case using resolver_step_holds by blast
qed

text \<open>A request with no other in between is two of these steps.\<close>

lemma resolve_anchor_is_steps:
  assumes "resolve_anchor wl tp n (Some t) d (rw_cache w) = (Inr r, c)"
  shows "\<exists>w'. (resolver_step wl)\<^sup>*\<^sup>* w w' \<and> rw_cache w' = c \<and> rw_given w' = (d, t, r) # rw_given w"
proof (cases "look_up (Some t) d (rw_cache w)")
  case (Pair found c0)
  show ?thesis
  proof (cases found)
    case (Some r0)
    with Pair assms have "r0 = r" "c0 = c" by (simp_all add: resolve_anchor_def)
    with Pair Some have "resolver_step wl w (w\<lparr>rw_cache := c, rw_given := (d, t, r) # rw_given w\<rparr>)"
      by (intro resolver_step.hit) simp
    then show ?thesis by (intro exI [of _ "w\<lparr>rw_cache := c, rw_given := (d, t, r) # rw_given w\<rparr>"]) (auto intro: r_into_rtranclp)
  next
    case None
    let ?an = "ask_transport tp n d" and ?u = "w\<lparr>rw_cache := c0, rw_waiting := (d, t) # rw_waiting w\<rparr>"
    from None Pair assms have r: "r = resolve_from wl t d ?an" "c = remember d r c0"
      by (auto simp: resolve_anchor_def Let_def)
    let ?w' = "?u\<lparr>rw_cache := remember d r (rw_cache ?u), rw_waiting := remove1 (d, t) (rw_waiting ?u),
      rw_asked := (d, t, ?an) # rw_asked ?u, rw_given := (d, t, r) # rw_given ?u\<rparr>"
    have "resolver_step wl w ?u" using None Pair by (intro resolver_step.start) simp
    moreover have "resolver_step wl ?u ?w'" using r(1) by (intro resolver_step.finish) simp_all
    ultimately have "(resolver_step wl)\<^sup>*\<^sup>* w ?w'" by (meson r_into_rtranclp rtranclp_trans)
    then show ?thesis using r(2) by (intro exI [of _ ?w']) simp
  qed
qed

text \<open>What an answer rests on, cached or fresh.\<close>

lemma resolve_anchor_rests:
  assumes "resolver_runs wl w" and "resolve_anchor wl tp n (Some t) d (rw_cache w) = (Inr r, c)"
  obtains t0 an where "(d, t0, an) \<in> set (rw_asked w) \<or> t0 = t \<and> an = ask_transport tp n d"
    and "r = resolve_from wl t0 d an" and "t < t0 + 86400000"
proof (cases "look_up (Some t) d (rw_cache w)")
  case (Pair found c0)
  show thesis
  proof (cases found)
    case (Some r0)
    with Pair assms(2) have hit: "look_up (Some t) d (rw_cache w) = (Some r, c)" by (simp add: resolve_anchor_def)
    obtain e where e: "(d, e) \<in> set (rw_cache w)" "r = ce_resolution e" "t < ce_expires_at e"
      using look_up_hit [OF hit] by (metis option.inject)
    from resolver_runs_holds [OF assms(1)] e(1) obtain t0 where t0: "answers_of wl w d t0 (ce_resolution e)" "ce_expires_at e \<le> t0 + 86400000"
      by (auto simp: cache_holds_def)
    from t0(1) obtain an where "(d, t0, an) \<in> set (rw_asked w)" "ce_resolution e = resolve_from wl t0 d an"
      by (auto simp: answers_of_def)
    with e t0(2) show thesis by (intro that [of t0 an]) auto
  next
    case None
    with Pair assms(2) have "r = resolve_from wl t d (ask_transport tp n d)"
      by (auto simp: resolve_anchor_def Let_def)
    then show thesis by (intro that [of t "ask_transport tp n d"]) simp_all
  qed
qed

section \<open>Schemas\<close>

definition attestation_schema :: "attestation \<Rightarrow> bool" where
  "attestation_schema a \<longleftrightarrow> hex64 (at_org a) \<and> hex64 (at_subject a) \<and> parse_claims (JObj (at_claims a)) \<noteq> None \<and> hex128 (at_sig a)"

lemma parse_claims_same: "parse_claims (JObj ms) \<noteq> None \<Longrightarrow> parse_claims (JObj ms) = Some ms"
  by (auto simp: parse_claims_def object_of_def bind_eq_Some_conv)

lemma subject_kind_of: "one_of [(SubjectPersona, ''persona''), (SubjectGroup, ''group'')] (JStr (subject_kind_name k)) = Some k"
  by (cases k) (simp_all add: one_of_def)

lemma parse_attestation_members:
  assumes "attestation_schema a"
  shows "parse_attestation (JObj (attestation_members a)) = Some a"
  using assms parse_claims_same [of "at_claims a"]
  by (cases a) (simp add: attestation_schema_def parse_attestation_def object_of_def attestation_members_def
      unsigned_attestation_members_def tagged_def required_def subject_kind_of)

lemma parse_revocation_members:
  assumes "hex64 (rv_org r)" and "hex64 (rv_subject r)" and "hex128 (rv_sig r)"
  shows "parse_revocation (JObj (revocation_members r)) = Some r"
  using assms
  by (cases r) (simp add: parse_revocation_def object_of_def revocation_members_def unsigned_revocation_members_def
      tagged_def required_def)

section \<open>What a verification looks at\<close>

lemma verify_identity_Inr:
  assumes "fst (verify_identity cl wl tp n now rnow inp cache) = Inr v"
  obtains e where "v = binding_level e"
    and "le_attestation e = first_attestation cl
      \<lparr>cx_now = now, cx_signed_at = vy_signed_at inp, cx_subject = Some (vy_subject inp), cx_org = None,
       cx_revocations = vy_revocations inp\<rparr> None (vy_attestations inp)"
    and "\<forall>r. le_anchor e = Some r \<longrightarrow>
      (\<exists>d c. vy_org_domain inp = Some d \<and> resolve_anchor wl tp n rnow d cache = (Inr r, c))"
proof -
  let ?e = "\<lambda>r. \<lparr>le_subject = vy_subject inp,
       le_prior_confirmed_edges = Some (case vy_prior_confirmed_edges inp of None \<Rightarrow> 0 | Some k \<Rightarrow> k),
       le_attestation = first_attestation cl
         \<lparr>cx_now = now, cx_signed_at = vy_signed_at inp, cx_subject = Some (vy_subject inp), cx_org = None,
          cx_revocations = vy_revocations inp\<rparr> None (vy_attestations inp),
       le_anchor = r,
       le_binding_proof = map_option (\<lambda>(j, u). verify_binding_proof cl wl j u (Some (vy_subject inp))) (vy_binding_proof inp)\<rparr>"
  define anchored :: "(clock_error, anchor_resolution option) result" where "anchored = (case vy_org_domain inp of
      None \<Rightarrow> Inr None
    | Some d \<Rightarrow> if d = [] then Inr None else map_sum id Some (fst (resolve_anchor wl tp n rnow d cache)))"
  have resolved: "\<exists>d c. vy_org_domain inp = Some d \<and> resolve_anchor wl tp n rnow d cache = (Inr r, c)" if "anchored = Inr (Some r)" for r
    using that unfolding anchored_def
    by (cases "vy_org_domain inp") (auto simp: map_sum_Inr_iff prod_eq_iff split: if_split_asm)
  have "fst (verify_identity cl wl tp n now rnow inp cache) = map_sum id (\<lambda>r. binding_level (?e r)) anchored"
    unfolding verify_identity_def Let_def anchored_def
    by (cases "vy_org_domain inp") (simp_all add: case_prod_unfold)
  then have graded: "map_sum id (\<lambda>r. binding_level (?e r)) anchored = Inr v" using assms by simp
  obtain r where r: "anchored = Inr r" "v = binding_level (?e r)"
    using graded by (cases anchored) auto
  have "\<forall>x. r = Some x \<longrightarrow> (\<exists>d c. vy_org_domain inp = Some d \<and> resolve_anchor wl tp n rnow d cache = (Inr x, c))"
    using resolved r(1) by blast
  with r(2) show thesis by (intro that [of "?e r"]) simp_all
qed

section \<open>Ways back\<close>

lemma rotation_path_holds:
  assumes "rotation_path cl wl i = Some (Inr q)"
  obtains j r enc b u x where "si_rotation i = Some j" and "verify_rotation cl (si_accept_legacy i) j = RotOk r enc"
    and "r_old r = si_lost_persona i" and "r_new r = si_fresh_persona i"
    and "si_binding_proof i = Some (ProofOk b)" and "bp_persona b = si_lost_persona i"
    and "si_rotation_published_at i = Some u" and "normalize_channel_url wl (bp_channel_url b) = Some x"
    and "normalize_channel_url wl u = Some x" and "q = (PathExternalProofRotation, Some LExt)"
proof -
  from assms obtain r enc where r: "rotation_verdict_of cl i = RotOk r enc" "r_old r = si_lost_persona i" "r_new r = si_fresh_persona i"
    by (auto simp: rotation_path_def split: if_split_asm rotation_verdict.split_asm)
  with assms obtain b where b: "si_binding_proof i = Some (ProofOk b)" "bp_persona b = si_lost_persona i"
    by (auto simp: rotation_path_def split: if_split_asm option.split_asm binding_verdict.split_asm)
  with assms r obtain u x where u: "si_rotation_published_at i = Some u" "normalize_channel_url wl (bp_channel_url b) = Some x"
      "normalize_channel_url wl u = Some x" "q = (PathExternalProofRotation, Some LExt)"
    by (auto simp: rotation_path_def Let_def bind_eq_Some_conv split: if_split_asm)
  from r(1) obtain j where "si_rotation i = Some j" "verify_rotation cl (si_accept_legacy i) j = RotOk r enc"
    by (auto simp: rotation_verdict_of_def split: option.split_asm)
  with r b u show thesis by (intro that)
qed

lemma rotation_path_iff:
  "(\<exists>q. rotation_path cl wl i = Some (Inr q)) \<longleftrightarrow>
     (\<exists>j r enc b u x. si_rotation i = Some j \<and> verify_rotation cl (si_accept_legacy i) j = RotOk r enc \<and>
        r_old r = si_lost_persona i \<and> r_new r = si_fresh_persona i \<and>
        si_binding_proof i = Some (ProofOk b) \<and> bp_persona b = si_lost_persona i \<and> si_rotation_published_at i = Some u \<and>
        normalize_channel_url wl (bp_channel_url b) = Some x \<and> normalize_channel_url wl u = Some x)"
  (is "?l \<longleftrightarrow> ?r")
proof
  assume ?l
  then obtain q where "rotation_path cl wl i = Some (Inr q)" ..
  then show ?r by (rule rotation_path_holds) blast
next
  assume ?r
  then show ?l by (auto simp: rotation_path_def rotation_verdict_of_def)
qed

lemma reattestation_path_iff:
  "(\<exists>q. reattestation_path i = Some (Inr q)) \<longleftrightarrow>
     (\<exists>a rv. si_reattestation i = Some (Attested a rv) \<and> at_subject a = si_fresh_persona i)"
  by (auto simp: reattestation_path_def split: if_split_asm option.split_asm attestation_verdict.split_asm)

lemma reattestation_path_holds:
  assumes "reattestation_path i = Some (Inr q)"
  obtains a rv where "si_reattestation i = Some (Attested a rv)" and "at_subject a = si_fresh_persona i"
    and "q = (PathOrgReattestation, Some (if anchors_org_root (si_anchor i) (at_org a) then L3 else L2))"
  using assms by (auto simp: reattestation_path_def split: if_split_asm option.split_asm attestation_verdict.split_asm)

section \<open>What a person signs is accepted\<close>

lemma signed_binding_proof_is_accepted:
  assumes "sign_binding_proof cl wl p u sk = Some b" and "signs_for cl sk p" and "normalize_channel_url wl u \<noteq> None"
  shows "verify_binding_proof cl wl (JObj (binding_proof_members b)) u (Some p) = ProofOk b"
proof -
  from assms(1) obtain ms where ms: "with_signature cl (binding_proof_core p u) sk = Some ms" "parse_binding_proof wl (JObj ms) = Some b"
    by (auto simp: sign_binding_proof_def bind_eq_Some_conv)
  from ms(1) obtain s where s: "ms = binding_proof_core p u @ [(''sig'', JStr s)]"
    by (auto simp: with_signature_def binding_proof_core_def)
  with ms(2) have b: "bp_persona b = p" "bp_channel_url b = u" "bp_sig b = s"
    by (auto simp: parse_binding_proof_def object_of_def binding_proof_core_def required_def bind_eq_Some_conv split: if_split_asm)
  then have same: "binding_proof_members b = ms" by (simp add: binding_proof_members_def s)
  from verify_with_signature [OF assms(2) ms(1)] ms(2) assms(3) b show ?thesis
    by (simp add: verify_binding_proof_def same)
qed

lemma signed_link_is_accepted:
  assumes "sign_persona_link cl sk_a sk_b i = Inr l" and "signs_for cl sk_a (pl_first l)" and "signs_for cl sk_b (pl_second l)"
    and "pl_sig_A l \<noteq> pl_sig_B l"
  shows "verify_persona_link cl (JObj (link_members l)) = LinkOk l" and "i = user_initiated"
proof -
  from assms(1) show "i = user_initiated" by (simp add: sign_persona_link_def split: if_split_asm)
  from assms(1) obtain a b x y where x: "sign_object cl (link_core a b) sk_a = Some x" and y: "sign_object cl (link_core a b) sk_b = Some y"
    and "a \<noteq> b" and l: "parse_persona_link (JObj (link_core a b @ [(''sig_A'', JStr x), (''sig_B'', JStr y)])) = Some l"
    by (auto simp: sign_persona_link_def split: if_split_asm option.split_asm)
  from l have m: "pl_first l = a" "pl_second l = b" "pl_sig_A l = x" "pl_sig_B l = y"
    by (auto simp: parse_persona_link_def object_of_def link_core_def required_def persona_pair_def array_of_def
        bind_eq_Some_conv split: if_split_asm)
  have w: "with_signature cl (link_core a b) sk = Some (link_core a b @ [(''sig'', JStr s)])"
    if "sign_object cl (link_core a b) sk = Some s" for sk s
    using that by (simp add: with_signature_def link_core_def)
  have "verify_object cl (link_core a b @ [(''sig'', JStr x)]) a" "verify_object cl (link_core a b @ [(''sig'', JStr y)]) b"
    using verify_with_signature [OF _ w] assms(2,3) m(1,2) x y by blast+
  with l \<open>a \<noteq> b\<close> m assms(4) show "verify_persona_link cl (JObj (link_members l)) = LinkOk l"
    by (simp add: verify_persona_link_def link_members_def)
qed

end
