(* ===== verification/LadderClaims.thy ===== *)
theory LadderClaims
  imports LadderLaws Canonical NodeSamples Register
begin

text \<open>
  Properties of the identity ladder, with an organisation (Carol's key) that attests Bob.
\<close>

section \<open>An organisation and what it signs\<close>

lemma map_set_new: "map_of ms k = None \<Longrightarrow> map_set k v ms = ms @ [(k, v)]"
  by (induction k v ms rule: map_set.induct) (auto split: if_split_asm)

lemma sample_signature:
  assumes "json_depth (JObj ms) \<le> 256" and "k \<in> {alice, bob, carol}" and "map_of ms ''sig'' = None"
  obtains s where "sign_object sample_lib ms k = Some s" and "hex128 s" and "verify_object sample_lib (ms @ [(''sig'', JStr s)]) k"
proof -
  obtain s where s: "sign_object sample_lib ms k = Some s"
    by (rule sign_object_defined [OF sample_signs [OF assms(2)] assms(1)])
  then have w: "with_signature sample_lib ms k = Some (ms @ [(''sig'', JStr s)])"
    by (simp add: with_signature_def map_set_new [OF assms(3)])
  show thesis
    by (rule that [OF s hex128_signature [OF s sample_signs [OF assms(2)]]
        verify_with_signature [OF sample_signs [OF assms(2)] w]])
qed

definition bob_named :: attestation where
  "bob_named = \<lparr>at_org = carol, at_subject = bob, at_subject_kind = SubjectPersona,
     at_claims = [(''display_name'', JStr ''Bob'')], at_issued_at = jan 1, at_expires_at = jan 31, at_sig = []\<rparr>"

definition sample_attestation :: attestation where
  "sample_attestation = bob_named\<lparr>at_sig := the (sign_object sample_lib (unsigned_attestation_members bob_named) carol)\<rparr>"

lemma sample_attestation_simps [simp]:
  "at_org sample_attestation = carol" "at_subject sample_attestation = bob"
  "at_issued_at sample_attestation = jan 1" "at_expires_at sample_attestation = jan 31"
  "claimed_text ''display_name'' sample_attestation = Some ''Bob''"
  by (simp_all add: sample_attestation_def bob_named_def claimed_text_def)

lemma sample_attestation_ok:
  "attestation_schema sample_attestation"
  "verify_object sample_lib (attestation_members sample_attestation) carol"
proof -
  let ?ms = "unsigned_attestation_members bob_named"
  have depth: "json_depth (JObj ?ms) \<le> 256"
    by (simp add: unsigned_attestation_members_def bob_named_def json_depth_le del: json_depth.simps(1,2))
  obtain s where s: "sign_object sample_lib ?ms carol = Some s" "hex128 s" "verify_object sample_lib (?ms @ [(''sig'', JStr s)]) carol"
    by (rule sample_signature [OF depth, of carol]) (simp_all add: unsigned_attestation_members_def)
  have a: "sample_attestation = bob_named\<lparr>at_sig := s\<rparr>" by (simp add: sample_attestation_def s(1))
  then show "attestation_schema sample_attestation"
    unfolding a using s(2) parties_hex64
    by (simp add: bob_named_def attestation_schema_def parse_claims_def object_of_def optional_def)
  show "verify_object sample_lib (attestation_members sample_attestation) carol"
    using s(3) by (simp add: a attestation_members_def unsigned_attestation_members_def)
qed

lemma sample_stands:
  assumes "t \<in> {ms_of (jan 2), ms_of (jan 9)}" and "u \<in> {ms_of (jan 2), ms_of (jan 9)}"
  shows "stands sample_lib [] t u sample_attestation"
  using assms sample_attestation_ok(2) by (auto simp: stands_def revokes_def)

section \<open>Attestations\<close>

text \<open>
  An organisation's attestation is honoured exactly when it is well formed, the organisation it names signed
  it, it is about the subject and by the organisation that were asked for, both the present instant and
  the instant of the signature in question lie in its term (closed below, open above), and no
  revocation that the same organisation signed for the same subject is dated at or before that
  signature, in whatever order the revocations are held.
\<close>

theorem attestation_is_honoured_exactly:
  assumes "cx_now cx = Some now" and "evaluated_at cx = Some made"
  shows "(\<exists>rv. verify_attestation cl j cx = Attested a rv) \<longleftrightarrow>
    parse_attestation j = Some a \<and> verify_object cl (attestation_members a) (at_org a) \<and>
    (\<forall>s. cx_subject cx = Some s \<longrightarrow> at_subject a = s) \<and> (\<forall>g. cx_org cx = Some g \<longrightarrow> at_org a = g) \<and>
    {now, made} \<subseteq> {ms_of (at_issued_at a) ..< ms_of (at_expires_at a)} \<and>
    (\<forall>r \<in> revokes cl (cx_revocations cx) (at_org a) (at_subject a). made < ms_of (rv_revoked_at r))"
  unfolding verify_attestation_stands [OF assms] stands_def by auto

theorem attestation_is_honoured_exactly_witness:
  "\<exists>rv. verify_attestation sample_lib (JObj (attestation_members sample_attestation))
     \<lparr>cx_now = Some (ms_of (jan 9)), cx_signed_at = Some (Some (ms_of (jan 2))), cx_subject = Some bob, cx_org = Some carol,
      cx_revocations = []\<rparr> = Attested sample_attestation rv"
  (is "\<exists>rv. verify_attestation _ ?j ?cx = _")
proof -
  have "cx_now ?cx = Some (ms_of (jan 9))" "evaluated_at ?cx = Some (ms_of (jan 2))" by (simp_all add: evaluated_at_def)
  from attestation_is_honoured_exactly [OF this, of sample_lib ?j sample_attestation] show ?thesis
    using sample_attestation_ok by (simp add: parse_attestation_members revokes_def)
qed

text \<open>An invalid date escapes the comparison: a signature of no known time is not caught by a revocation.\<close>

lemma invalid_date_escapes_revocation:
  assumes "parse_attestation j = Some a" and "stands cl [] now now a" and "cx_now cx = Some now"
    and "cx_signed_at cx = Some None" and "cx_subject cx = None" and "cx_org cx = None"
  shows "\<exists>rv. verify_attestation cl j cx = Attested a rv"
  using assms unfolding verify_attestation_iff stands_def
  by (simp add: evaluated_at_def in_term_invalid_date in_term_valid_date reached_def)

section \<open>Levels\<close>

text \<open>
  C24: the level shown for a key is the one its evidence earns: the grader, which collects what was achieved and keeps
  the highest, agrees with the table of the protocol read from the top. No evidence of a higher
  kind is passed over, and none of a lower kind outranks it.
\<close>

theorem level_is_the_ladder_table:
  "vi_level (binding_level e) = earned_level e \<and>
   level_rank (vi_level (binding_level e)) = Max (level_rank ` set (vi_achieved (binding_level e)))"
  using binding_level_earned vi_level_highest by blast

text \<open>
  C23: a name is shown only on an organisation's word. When a verification, on a resolver in any
  reachable state, yields a display name, one of the attestations offered carries that name
  for this subject, verifies under the key of the organisation shown with it and is in term now; and
  whenever the instant of the signature in question (now, when none is given) is a date at all, it is also in
  term at that instant and not revoked by it. The level is attested, or domain-verified on answers less than
  a day old in which the domain states that organisation's root and no other. (An instant that is no valid date
  is compared with nothing: \<open>invalid_date_escapes_revocation\<close>.)
\<close>

theorem verified_name_is_attested:
  assumes "fst (verify_identity cl wl tp n (Some now) (Some t) inp (rw_cache w)) = Inr v" and "resolver_runs wl w"
    and "vi_display_name v = Some name"
  shows "\<exists>j \<in> set (vy_attestations inp). \<exists>a. parse_attestation j = Some a \<and> at_subject a = vy_subject inp \<and>
    claimed_text ''display_name'' a = Some name \<and> vi_attested_by v = Some (at_org a) \<and>
    verify_object cl (attestation_members a) (at_org a) \<and> ms_of (at_issued_at a) \<le> now \<and> now < ms_of (at_expires_at a) \<and>
    (\<forall>made. (case vy_signed_at inp of None \<Rightarrow> Some now | Some d \<Rightarrow> d) = Some made \<longrightarrow> stands cl (vy_revocations inp) now made a) \<and>
    (vi_level v = L2 \<or> vi_level v = L3 \<and> (\<exists>d t0 an. vy_org_domain inp = Some d \<and>
       ((d, t0, an) \<in> set (rw_asked w) \<or> t0 = t \<and> an = ask_transport tp n d) \<and> t < t0 + 86400000 \<and>
       is_anchorable_domain d \<and> stated_roots wl an = {at_org a}))"
proof -
  let ?cx = "\<lparr>cx_now = Some now, cx_signed_at = vy_signed_at inp, cx_subject = Some (vy_subject inp), cx_org = None,
    cx_revocations = vy_revocations inp\<rparr>"
  from assms(1) obtain e where v: "v = binding_level e" and att: "le_attestation e = first_attestation cl ?cx None (vy_attestations inp)"
    and anchor: "\<forall>r. le_anchor e = Some r \<longrightarrow> (\<exists>d c. vy_org_domain inp = Some d \<and> resolve_anchor wl tp n (Some t) d (rw_cache w) = (Inr r, c))"
    by (rule verify_identity_Inr)
  obtain a rv where a: "le_attestation e = Some (Attested a rv)" "claimed_text ''display_name'' a = Some name"
      "vi_attested_by v = Some (at_org a)" "vi_level v = (if anchors_org_root (le_anchor e) (at_org a) then L3 else L2)"
    using assms(3) unfolding v by (rule binding_level_name)
  then obtain j where j: "j \<in> set (vy_attestations inp)" "verify_attestation cl j ?cx = Attested a rv"
    using att first_attestation_Attested by fastforce
  have att': "\<exists>rv. verify_attestation cl j ?cx = Attested a rv" using j(2) by blast
  then have st: "parse_attestation j = Some a" "verify_object cl (attestation_members a) (at_org a)" "at_subject a = vy_subject inp"
    "ms_of (at_issued_at a) \<le> now" "now < ms_of (at_expires_at a)"
    unfolding verify_attestation_iff by (simp_all add: in_term_valid_date)
  have made: "stands cl (vy_revocations inp) now made a" if "(case vy_signed_at inp of None \<Rightarrow> Some now | Some d \<Rightarrow> d) = Some made" for made
  proof -
    have "cx_now ?cx = Some now" "evaluated_at ?cx = Some made" using that
      by (simp, cases "vy_signed_at inp") (simp_all add: evaluated_at_def)
    from verify_attestation_stands [OF this, of cl j a] att' show ?thesis by auto
  qed
  have answered: "\<exists>d t0 an. vy_org_domain inp = Some d \<and> ((d, t0, an) \<in> set (rw_asked w) \<or> t0 = t \<and> an = ask_transport tp n d) \<and>
      t < t0 + 86400000 \<and> is_anchorable_domain d \<and> stated_roots wl an = {at_org a}"
    if "anchors_org_root (le_anchor e) (at_org a)"
  proof -
    from that obtain r where r: "le_anchor e = Some r" by (auto simp: anchors_org_root_def split: option.splits)
    with anchor obtain d c where d: "vy_org_domain inp = Some d" "resolve_anchor wl tp n (Some t) d (rw_cache w) = (Inr r, c)" by blast
    obtain t0 an where an: "(d, t0, an) \<in> set (rw_asked w) \<or> t0 = t \<and> an = ask_transport tp n d"
        "r = resolve_from wl t0 d an" "t < t0 + 86400000"
      using resolve_anchor_rests [OF assms(2) d(2)] .
    have "is_anchorable_domain d \<and> stated_roots wl an = {at_org a}"
      using that unfolding r an(2) resolve_from_anchors .
    with d(1) an(1,3) show ?thesis by (intro exI [of _ d] exI [of _ t0] exI [of _ an] conjI) simp_all
  qed
  have "vi_level v = L2 \<or> vi_level v = L3 \<and> (\<exists>d t0 an. vy_org_domain inp = Some d \<and>
       ((d, t0, an) \<in> set (rw_asked w) \<or> t0 = t \<and> an = ask_transport tp n d) \<and> t < t0 + 86400000 \<and>
       is_anchorable_domain d \<and> stated_roots wl an = {at_org a})"
  proof (cases "anchors_org_root (le_anchor e) (at_org a)")
    case True
    with a(4) have "vi_level v = L3" by simp
    with answered [OF True] show ?thesis by blast
  next
    case False
    with a(4) show ?thesis by simp
  qed
  with st a(2,3) made show ?thesis by (intro bexI [OF _ j(1)] exI [of _ a] conjI allI impI)
qed

text \<open>
  The resolver gives out answers and nothing else. However its requests interleave, a resolution it
  returned is what was answered to a request for this domain: to this very request, or, when it resolved, to
  one whose clock reading is less than a day older, whatever TTL the domain's owner stated. Failures are
  never served from the cache.
\<close>

theorem anchors_given_are_answers:
  assumes "resolver_runs wl w" and "(d, t, r) \<in> set (rw_given w)"
  shows "\<exists>t0 an. (d, t0, an) \<in> set (rw_asked w) \<and> r = resolve_from wl t0 d an \<and> (t0 = t \<or> ar_ok r \<and> t < t0 + 86400000)"
  using resolver_runs_holds [OF assms(1)] assms(2) by (fastforce simp: given_holds_def answers_of_def)

text \<open>
  Without the seed there are two ways back and no third: an attestation of the fresh key that holds, or a
  rotation from the lost key to the fresh one that verifies and was published on the channel of a
  verified binding proof of the lost persona. A persona that has neither and whose owner said that the seed is
  gone is unrecoverable, and is told so only then.
\<close>

theorem no_way_back_without_evidence:
  "(ra_recoverable (recovery_paths cl wl i) \<longleftrightarrow>
      si_seed_available i = Some True \<or>
      (\<exists>a rv. si_reattestation i = Some (Attested a rv) \<and> at_subject a = si_fresh_persona i) \<or>
      (\<exists>j r enc b u x. si_rotation i = Some j \<and> verify_rotation cl (si_accept_legacy i) j = RotOk r enc \<and>
         r_old r = si_lost_persona i \<and> r_new r = si_fresh_persona i \<and>
         si_binding_proof i = Some (ProofOk b) \<and> bp_persona b = si_lost_persona i \<and> si_rotation_published_at i = Some u \<and>
         normalize_channel_url wl (bp_channel_url b) = Some x \<and> normalize_channel_url wl u = Some x)) \<and>
   (ra_reason (recovery_paths cl wl i) = Some UnrecoverableByDesign \<longleftrightarrow>
      \<not> ra_recoverable (recovery_paths cl wl i) \<and> si_seed_available i = Some False)"
  unfolding rotation_path_iff [symmetric] reattestation_path_iff [symmetric]
  by (auto simp: recovery_paths_def Let_def offered_path_def split: option.splits sum.splits)

section \<open>A domain that anchors the organisation\<close>

definition sample_web :: web_lib where
  "sample_web = \<lparr>web_json = (\<lambda>_. None), web_url = (\<lambda>_. None)\<rparr>"

definition sample_domain :: string where "sample_domain = ''acme.example''"

definition sample_txt :: txt_record where
  "sample_txt = \<lparr>tr_value = ''v=servanda0.1; k='' @ carol, tr_ttl_seconds = Some 3600\<rparr>"

definition sample_transport :: anchor_transport where
  "sample_transport = \<lparr>tp_fetch_well_known = None, tp_resolve_txt = Some (\<lambda>_ _. Some [sample_txt])\<rparr>"

lemma sample_domain_anchorable: "is_anchorable_domain sample_domain"
  by code_simp

lemma sample_txt_states: "parse_anchor_txt (tr_value sample_txt) = Some \<lparr>da_org_root = carol, da_hubs = []\<rparr>"
  by code_simp

lemma sample_answers: "ask_transport sample_transport n sample_domain = \<lparr>an_http = None, an_txt = Some (Some [sample_txt])\<rparr>"
  using sample_domain_anchorable by (simp add: ask_transport_def sample_transport_def txt_name_def)

lemma sample_roots: "stated_roots wl \<lparr>an_http = None, an_txt = Some (Some [sample_txt])\<rparr> = {carol}"
  using sample_txt_states by (auto simp: stated_roots_def)

lemma sample_resolution:
  "resolve_from sample_web t sample_domain \<lparr>an_http = None, an_txt = Some (Some [sample_txt])\<rparr> =
     \<lparr>ar_domain = sample_domain, ar_ok = True, ar_anchor = Some \<lparr>da_org_root = carol, da_hubs = []\<rparr>, ar_sources = [FromDns],
      ar_reason = None, ar_expires_at = Some (t + 3600000), ar_checked_at = t\<rparr>"
  using sample_domain_anchorable
  by (simp add: resolve_from_def found_anchors_def answered_def txt_anchors_def sample_txt_states governing_expiry_def
      primary_anchor_def sources_of_def hd_opt_def Let_def)
    (simp add: sample_txt_def ttl_to_expiry_def max_anchor_ttl_seconds_def)

definition sample_request :: verify_input where
  "sample_request = \<lparr>vy_subject = bob, vy_prior_confirmed_edges = None,
     vy_attestations = [JObj (attestation_members sample_attestation)], vy_revocations = [], vy_signed_at = None,
     vy_org_domain = Some sample_domain, vy_binding_proof = None\<rparr>"

abbreviation idle_world :: resolver_world where
  "idle_world \<equiv> \<lparr>rw_cache = [], rw_waiting = [], rw_asked = [], rw_given = []\<rparr>"

lemma sample_honoured:
  "\<exists>rv. verify_attestation sample_lib (JObj (attestation_members sample_attestation))
     \<lparr>cx_now = Some (ms_of (jan 9)), cx_signed_at = None, cx_subject = Some bob, cx_org = None, cx_revocations = []\<rparr> =
       Attested sample_attestation rv"
  (is "\<exists>rv. verify_attestation _ ?j ?cx = _")
proof -
  have "cx_now ?cx = Some (ms_of (jan 9))" "evaluated_at ?cx = Some (ms_of (jan 9))" by (simp_all add: evaluated_at_def)
  from verify_attestation_stands [OF this] sample_stands show ?thesis
    using sample_attestation_ok by (simp add: parse_attestation_members)
qed

lemma sample_verified:
  obtains v where "fst (verify_identity sample_lib sample_web sample_transport 0 (Some (ms_of (jan 9))) (Some (ms_of (jan 9)))
      sample_request (rw_cache idle_world)) = Inr v"
    and "vi_display_name v = Some ''Bob''" and "vi_level v = L3"
proof -
  obtain rv where rv: "verify_attestation sample_lib (JObj (attestation_members sample_attestation))
     \<lparr>cx_now = Some (ms_of (jan 9)), cx_signed_at = None, cx_subject = Some bob, cx_org = None, cx_revocations = []\<rparr> =
       Attested sample_attestation rv" using sample_honoured ..
  let ?e = "\<lparr>le_subject = bob, le_prior_confirmed_edges = Some 0, le_attestation = Some (Attested sample_attestation rv),
    le_anchor = Some (resolve_from sample_web (ms_of (jan 9)) sample_domain \<lparr>an_http = None, an_txt = Some (Some [sample_txt])\<rparr>),
    le_binding_proof = None\<rparr>"
  have "sample_domain \<noteq> []" by (simp add: sample_domain_def)
  then have "fst (verify_identity sample_lib sample_web sample_transport 0 (Some (ms_of (jan 9))) (Some (ms_of (jan 9)))
      sample_request (rw_cache idle_world)) = Inr (binding_level ?e)"
    using rv by (simp add: verify_identity_def sample_request_def resolve_anchor_def look_up_def sample_answers Let_def)
  moreover have "vi_display_name (binding_level ?e) = Some ''Bob''" "vi_level (binding_level ?e) = L3"
    by (simp_all add: binding_level_def attested_by_def grade_anchor_def anchors_org_root_def sample_resolution best_level_def)
  ultimately show thesis by (rule that)
qed

theorem verified_name_is_attested_witness:
  "\<exists>j \<in> set (vy_attestations sample_request). \<exists>a. parse_attestation j = Some a \<and> claimed_text ''display_name'' a = Some ''Bob'' \<and>
     stated_roots sample_web (ask_transport sample_transport 0 sample_domain) = {at_org a}"
proof -
  obtain v where v: "fst (verify_identity sample_lib sample_web sample_transport 0 (Some (ms_of (jan 9))) (Some (ms_of (jan 9)))
      sample_request (rw_cache idle_world)) = Inr v" "vi_display_name v = Some ''Bob''" "vi_level v = L3"
    by (rule sample_verified)
  from verified_name_is_attested [OF v(1) resolver_runs.idle v(2)] v(3)
  show ?thesis by (force simp: sample_request_def)
qed

theorem anchors_given_are_answers_witness:
  "\<exists>(w :: resolver_world) r. (sample_domain, 1000, r) \<in> set (rw_given w) \<and>
     (\<exists>an. (sample_domain, 0, an) \<in> set (rw_asked w) \<and> r = resolve_from sample_web 0 sample_domain an)"
proof -
  let ?an = "\<lparr>an_http = None, an_txt = Some (Some [sample_txt])\<rparr>"
  let ?r = "resolve_from sample_web 0 sample_domain ?an"
  let ?c = "remember sample_domain ?r []"
  let ?w1 = "idle_world\<lparr>rw_cache := [], rw_waiting := [(sample_domain, 0)]\<rparr>"
  let ?w2 = "?w1\<lparr>rw_cache := ?c, rw_waiting := [], rw_asked := [(sample_domain, 0, ?an)], rw_given := [(sample_domain, 0, ?r)]\<rparr>"
  let ?w3 = "?w2\<lparr>rw_cache := ?c, rw_given := (sample_domain, 1000, ?r) # rw_given ?w2\<rparr>"
  have "resolver_step sample_web idle_world ?w1"
    using resolver_step.start [of 0 sample_domain idle_world "[]" sample_web] by (simp add: look_up_def)
  moreover have "resolver_step sample_web ?w1 ?w2"
    using resolver_step.finish [of sample_domain 0 ?w1 ?r sample_web ?an] by simp
  moreover have "resolver_step sample_web ?w2 ?w3"
    by (rule resolver_step.hit) (simp add: look_up_def remember_def sample_resolution)
  ultimately have "resolver_runs sample_web ?w3"
    by (meson resolver_runs.idle resolver_runs.goes)
  moreover have "(sample_domain, 1000, ?r) \<in> set (rw_given ?w3)" by simp
  ultimately obtain t0 an where "(sample_domain, t0, an) \<in> set (rw_asked ?w3)" "?r = resolve_from sample_web t0 sample_domain an"
    using anchors_given_are_answers [of sample_web ?w3 sample_domain 1000 ?r] by blast
  then have "(sample_domain, 0, an) \<in> set (rw_asked ?w3)" "?r = resolve_from sample_web 0 sample_domain an" by auto
  moreover have "(sample_domain, 1000, ?r) \<in> set (rw_given ?w3)" by simp
  ultimately show ?thesis by (intro exI [of _ ?w3] exI [of _ ?r] exI [of _ an] conjI)
qed

section \<open>The node and the ladder\<close>

fun level_number :: "ladder_level \<Rightarrow> nat" where
  "level_number L0 = 0"
| "level_number L1 = 1"
| "level_number LExt = 1"
| "level_number L2 = 2"
| "level_number L3 = 3"

text \<open>The evidence a vault holds about a key, as the ladder takes it: the records themselves, signatures and all.\<close>

definition stored_evidence ::
    "crypto_lib \<Rightarrow> int \<Rightarrow> persona_id \<Rightarrow> attestation \<Rightarrow> revocation option \<Rightarrow> domain_anchor option \<Rightarrow> int \<Rightarrow> ladder_evidence" where
  "stored_evidence cl now c a rv da k =
     \<lparr>le_subject = c, le_prior_confirmed_edges = Some k,
      le_attestation = Some (verify_attestation cl (JObj (attestation_members a))
        \<lparr>cx_now = Some now, cx_signed_at = None, cx_subject = Some c, cx_org = None,
         cx_revocations = (case rv of None \<Rightarrow> [] | Some r \<Rightarrow> [JObj (revocation_members r)])\<rparr>),
      le_anchor = map_option (\<lambda>d. \<lparr>ar_domain = [], ar_ok = True, ar_anchor = Some d, ar_sources = [FromWellKnown],
        ar_reason = None, ar_expires_at = None, ar_checked_at = now\<rparr>) da,
      le_binding_proof = None\<rparr>"

text \<open>A revocation by this organisation of this subject, as the organisation signs it.\<close>

definition revocation_by :: "crypto_lib \<Rightarrow> persona_id \<Rightarrow> persona_id \<Rightarrow> revocation \<Rightarrow> bool" where
  "revocation_by cl org sub r \<longleftrightarrow> rv_org r = org \<and> rv_subject r = sub \<and> hex64 (rv_org r) \<and> hex64 (rv_subject r) \<and>
     hex128 (rv_sig r) \<and> verify_object cl (revocation_members r) org"

lemma stored_revokes:
  assumes "pred_option (revocation_by cl org sub) rv"
  shows "revokes cl (case rv of None \<Rightarrow> [] | Some r \<Rightarrow> [JObj (revocation_members r)]) org sub = set_option rv"
  using assms
  by (cases rv) (auto simp: revokes_def verify_revocation_def revocation_by_def parse_revocation_members)

lemma stored_evidence_level:
  assumes "attestation_schema a" and "verify_object cl (attestation_members a) (at_org a)" and "at_subject a = c"
    and "pred_option (revocation_by cl (at_org a) c) rv" and "pred_option (\<lambda>d. da_org_root d = at_org a) da"
    and "ms_of (at_issued_at a) \<le> now"
  shows "vi_level (binding_level (stored_evidence cl now c a rv da k)) =
    (if now < ms_of (at_expires_at a) \<and> pred_option (\<lambda>r. now < ms_of (rv_revoked_at r)) rv
     then if da = None then L2 else L3 else if 1 \<le> k then L1 else L0)"
proof -
  let ?cx = "\<lparr>cx_now = Some now, cx_signed_at = None, cx_subject = Some c, cx_org = None,
    cx_revocations = (case rv of None \<Rightarrow> [] | Some r \<Rightarrow> [JObj (revocation_members r)])\<rparr>"
  let ?v = "verify_attestation cl (JObj (attestation_members a)) ?cx"
  have "cx_now ?cx = Some now" "evaluated_at ?cx = Some now" by (simp_all add: evaluated_at_def)
  from verify_attestation_stands [OF this, of cl "JObj (attestation_members a)"]
  have holds: "(\<exists>rv'. ?v = Attested b rv') \<longleftrightarrow> b = a \<and> now < ms_of (at_expires_at a) \<and> pred_option (\<lambda>r. now < ms_of (rv_revoked_at r)) rv" for b
    using assms stored_revokes [OF assms(4)]
    by (auto simp: parse_attestation_members stands_def option.pred_set)
  have "anchors_org_root (le_anchor (stored_evidence cl now c a rv da k)) (at_org a) \<longleftrightarrow> da \<noteq> None"
    using assms(5) by (cases da) (auto simp: stored_evidence_def anchors_org_root_def)
  note anchored = this
  show ?thesis
  proof (cases ?v)
    case (Attested b rv')
    then have "b = a" using holds [of b] by blast
    with Attested anchored holds [of a] show ?thesis
      unfolding binding_level_earned by (simp add: earned_level_def stored_evidence_def)
  next
    case (NotAttested why a')
    with holds [of a] show ?thesis
      unfolding binding_level_earned by (simp add: earned_level_def stored_evidence_def)
  qed
qed

text \<open>
  The node's register and the identity ladder grade alike. What the node makes of the records its vault holds
  about a key is what the ladder makes of the same records with every signature checked, when they are what
  their organisation signed: except at the one instant the attestation expires, at which the ladder
  no longer honours it and the node still does.
\<close>

theorem node_grades_as_the_ladder:
  assumes "verification_level cfg now p (Some c) s = (Inr n, s')" and "hex64 c"
    and "get_attestation (nd_vault s) p c = Inr (Some a)" and "get_revocation (nd_vault s) p c = Inr rv"
    and "get_domain_anchor (nd_vault s) p (at_org a) = Inr da"
    and "continuity_level cfg p c s = (Inr (if 1 \<le> k then 1 else 0), s'')"
    and "attestation_schema a" and "verify_object cl (attestation_members a) (at_org a)" and "at_subject a = c"
    and "pred_option (revocation_by cl (at_org a) c) rv" and "pred_option (\<lambda>d. da_org_root d = at_org a) da"
    and "ms_of (at_issued_at a) \<le> now" and "now \<noteq> ms_of (at_expires_at a)"
  shows "n = level_number (vi_level (binding_level (stored_evidence cl now c a rv da k)))"
  using assms(1-6,13) unfolding stored_evidence_level [OF assms(7-12)]
  by (cases rv; cases da) (auto simp: verification_level_def op_eval split: if_split_asm)

definition acme_node :: node where
  "acme_node = \<lparr>nd_vault = put_store empty_vault alice
     ((empty_store (sample_persona alice ''me''))\<lparr>ps_attestations := [(bob, sample_attestation)],
       ps_anchors := [(carol, \<lparr>da_org_root = carol, da_hubs = []\<rparr>)]\<rparr>),
     nd_local = \<lparr>ls_pending = [], ls_ingested = []\<rparr>\<rparr>"

theorem node_grades_as_the_ladder_witness:
  "verification_level (sample_config alice) (ms_of (jan 9)) alice (Some bob) acme_node = (Inr 3, acme_node) \<and>
   level_number (vi_level (binding_level (stored_evidence sample_lib (ms_of (jan 9)) bob sample_attestation None
     (Some \<lparr>da_org_root = carol, da_hubs = []\<rparr>) 0))) = 3"
proof -
  have reads: "get_attestation (nd_vault acme_node) alice bob = Inr (Some sample_attestation)"
    "get_revocation (nd_vault acme_node) alice bob = Inr None"
    "get_domain_anchor (nd_vault acme_node) alice (at_org sample_attestation) = Inr (Some \<lparr>da_org_root = carol, da_hubs = []\<rparr>)"
    "list_rotations (nd_vault acme_node) alice = Inr []" "list_edge_ids (nd_vault acme_node) alice = Inr []"
    using parties_hex64 hex64_hex_id
    by (simp_all add: acme_node_def get_attestation_def get_revocation_def get_domain_anchor_def list_rotations_def
        list_edge_ids_def require_persona_def put_store_def empty_vault_def dir_get_def dir_names_def
        empty_store_def assert_hex_id_def)
  have level: "verification_level (sample_config alice) (ms_of (jan 9)) alice (Some bob) acme_node = (Inr 3, acme_node)"
    using parties_hex64 reads by (simp add: verification_level_def op_eval)
  moreover have cont: "continuity_level (sample_config alice) alice bob acme_node = (Inr (if 1 \<le> (0::int) then 1 else 0), acme_node)"
    using reads by (simp add: continuity_level_def op_eval)
  ultimately show ?thesis
    using node_grades_as_the_ladder [OF level parties_hex64(2) reads(1-3) cont, of sample_lib] sample_attestation_ok by simp
qed

end
