(* ===== verification/Capabilities.thy ===== *)
theory Capabilities
  imports JsText Prelude
begin

text \<open>
  The world an executor is given: \<^verbatim>\<open>packages/executors/src/capabilities.ts\<close>, entire. A path is normalized
  before it is matched; a glob is the regular expression the source builds from it, here a list of
  tokens with its matcher.
\<close>

section \<open>Paths\<close>

datatype path_error = PathEmpty | PathAbsolute | PathBackslash | PathNul | PathTraversal | PathResolvesToNothing

text \<open>\<^verbatim>\<open>/^[a-zA-Z]:[\\/]/\<close>\<close>

definition drive_path :: "string \<Rightarrow> bool" where
  "drive_path p \<longleftrightarrow>
     (case p of
        a # b # c # _ \<Rightarrow>
          ((CHR ''a'' \<le> a \<and> a \<le> CHR ''z'') \<or> (CHR ''A'' \<le> a \<and> a \<le> CHR ''Z'')) \<and> b = CHR '':'' \<and> (c = CHR 92 \<or> c = CHR ''/'')
      | _ \<Rightarrow> False)"

fun keep_segments :: "string list \<Rightarrow> (path_error, string list) result" where
  "keep_segments [] = Inr []"
| "keep_segments (s # ss) =
     (if s = [] \<or> s = ''.'' then keep_segments ss
      else if s = ''..'' then Inl PathTraversal
      else map_sum id ((#) s) (keep_segments ss))"

definition normalize_workspace_path :: "string \<Rightarrow> (path_error, string) result" where
  "normalize_workspace_path p =
     (if p = [] then Inl PathEmpty
      else if starts_with ''/'' p \<or> drive_path p then Inl PathAbsolute
      else if CHR 92 \<in> set p then Inl PathBackslash
      else if CHR 0x00 \<in> set p then Inl PathNul
      else bind_result (keep_segments (js_split CHR ''/'' p)) (\<lambda>segs.
        if segs = [] then Inl PathResolvesToNothing else Inr (join_with ''/'' segs)))"

section \<open>Globs\<close>

text \<open>\<^verbatim>\<open>**/\<close>, \<^verbatim>\<open>**\<close>, \<^verbatim>\<open>*\<close>, \<^verbatim>\<open>?\<close> and a literal character.\<close>

datatype glob_token = GDirs | GAny | GStar | GOne | GLit char

fun glob_tokens :: "string \<Rightarrow> glob_token list" where
  "glob_tokens [] = []"
| "glob_tokens (c # s) =
     (if c = CHR ''*'' then
        (case s of
           d # t \<Rightarrow>
             if d = CHR ''*'' then
               (case t of
                  e # u \<Rightarrow> if e = CHR ''/'' then GDirs # glob_tokens u else GAny # glob_tokens t
                | [] \<Rightarrow> [GAny])
             else GStar # glob_tokens s
         | [] \<Rightarrow> [GStar])
      else if c = CHR ''?'' then GOne # glob_tokens s
      else GLit c # glob_tokens s)"

text \<open>
  The whole text against \<^verbatim>\<open>(?:[^/]+/)*\<close>, \<^verbatim>\<open>.*\<close>, \<^verbatim>\<open>[^/]*\<close>, \<^verbatim>\<open>[^/]\<close> and literals: a repetition stops here or takes one
  more. \<^verbatim>\<open>.\<close> matches no line terminator.
\<close>

function glob_match :: "glob_token list \<Rightarrow> string \<Rightarrow> bool" where
  "glob_match [] s \<longleftrightarrow> s = []"
| "glob_match (GLit c # ts) s \<longleftrightarrow> (case s of [] \<Rightarrow> False | x # xs \<Rightarrow> x = c \<and> glob_match ts xs)"
| "glob_match (GOne # ts) s \<longleftrightarrow> (case s of [] \<Rightarrow> False | x # xs \<Rightarrow> x \<noteq> CHR ''/'' \<and> glob_match ts xs)"
| "glob_match (GStar # ts) s \<longleftrightarrow> glob_match ts s \<or>
     (case s of [] \<Rightarrow> False | x # xs \<Rightarrow> x \<noteq> CHR ''/'' \<and> glob_match (GStar # ts) xs)"
| "glob_match (GAny # ts) s \<longleftrightarrow> glob_match ts s \<or>
     (case s of [] \<Rightarrow> False | x # xs \<Rightarrow> \<not> line_end x \<and> glob_match (GAny # ts) xs)"
| "glob_match (GDirs # ts) s \<longleftrightarrow> glob_match ts s \<or>
     (if takeWhile (\<lambda>c. c \<noteq> CHR ''/'') s = [] \<or> dropWhile (\<lambda>c. c \<noteq> CHR ''/'') s = [] then False
      else glob_match (GDirs # ts) (tl (dropWhile (\<lambda>c. c \<noteq> CHR ''/'') s)))"
  by pat_completeness auto

termination
proof (relation "measure (\<lambda>(ts, s). length ts + length s)", goal_cases)
  case (9 ts s)
  have "length (dropWhile (\<lambda>c. c \<noteq> CHR ''/'') s) \<le> length s" by (simp add: length_dropWhile_le)
  moreover have "length (tl (dropWhile (\<lambda>c. c \<noteq> CHR ''/'') s)) < length (dropWhile (\<lambda>c. c \<noteq> CHR ''/'') s)"
    using 9 by (cases "dropWhile (\<lambda>c. c \<noteq> CHR ''/'') s") simp_all
  ultimately show ?case by simp
qed auto

declare glob_match.simps(4-6) [simp del]

definition matches_glob :: "string \<Rightarrow> string \<Rightarrow> bool" where
  "matches_glob p g = glob_match (glob_tokens g) p"

section \<open>Capabilities\<close>

record capability_set =
  cap_read :: "string list"
  cap_write :: "string list"
  cap_max_changed_lines :: int
  cap_max_changed_files :: int

datatype access_mode = ReadMode | WriteMode

definition globs_for :: "capability_set \<Rightarrow> access_mode \<Rightarrow> string list" where
  "globs_for caps mode = (case mode of ReadMode \<Rightarrow> cap_read caps | WriteMode \<Rightarrow> cap_write caps)"

datatype capability_error = BadPath path_error | OutsideCapability string access_mode "string list"

definition permits :: "capability_set \<Rightarrow> access_mode \<Rightarrow> string \<Rightarrow> (capability_error, bool) result" where
  "permits caps mode p = bind_result (map_sum BadPath id (normalize_workspace_path p)) (\<lambda>q.
     Inr (\<exists>g \<in> set (globs_for caps mode). matches_glob q g))"

definition assert_permitted :: "capability_set \<Rightarrow> access_mode \<Rightarrow> string \<Rightarrow> (capability_error, string) result" where
  "assert_permitted caps mode p = bind_result (map_sum BadPath id (normalize_workspace_path p)) (\<lambda>q.
     if \<exists>g \<in> set (globs_for caps mode). matches_glob q g then Inr q
     else Inl (OutsideCapability p mode (globs_for caps mode)))"

section \<open>Laws\<close>

text \<open>A normalized path: no empty, current or parent segment, and no character that other systems split at.\<close>

definition workspace_path :: "string \<Rightarrow> bool" where
  "workspace_path q \<longleftrightarrow> q \<noteq> [] \<and> (\<forall>s \<in> set (js_split CHR ''/'' q). s \<noteq> [] \<and> s \<noteq> ''.'' \<and> s \<noteq> ''..'') \<and>
     CHR 92 \<notin> set q \<and> CHR 0x00 \<notin> set q"

lemma keep_segments_Inr:
  "keep_segments ss = Inr qs \<Longrightarrow> ''..'' \<notin> set ss \<and> qs = filter (\<lambda>s. s \<noteq> [] \<and> s \<noteq> ''.'') ss"
  by (induction ss arbitrary: qs) (auto simp: map_sum_Inr_iff split: if_split_asm)

lemma keep_segments_same:
  "\<forall>s \<in> set ss. s \<noteq> [] \<and> s \<noteq> ''.'' \<and> s \<noteq> ''..'' \<Longrightarrow> keep_segments ss = Inr ss"
  by (induction ss) auto

lemma set_join_with: "set (join_with sep ws) \<subseteq> set sep \<union> \<Union> (set ` set ws)"
  by (induction ws rule: induct_list012) auto

lemma normalize_segments:
  assumes "normalize_workspace_path p = Inr q"
  obtains segs where "segs \<noteq> []" and "q = join_with ''/'' segs" and "js_split CHR ''/'' q = segs"
    and "\<forall>s \<in> set segs. s \<noteq> [] \<and> s \<noteq> ''.'' \<and> s \<noteq> ''..''" and "CHR 92 \<notin> set p" and "CHR 0x00 \<notin> set p" and "set segs \<subseteq> set (js_split CHR ''/'' p)"
proof -
  from assms obtain segs where segs: "keep_segments (js_split CHR ''/'' p) = Inr segs" "segs \<noteq> []" "q = join_with ''/'' segs"
    "CHR 92 \<notin> set p" "CHR 0x00 \<notin> set p"
    by (auto simp: normalize_workspace_path_def bind_result_Inr_iff split: if_split_asm)
  note kept = keep_segments_Inr [OF segs(1)]
  then have "\<forall>s \<in> set segs. CHR ''/'' \<notin> set s" by (auto dest: js_split_pieces)
  with segs(2) have "js_split CHR ''/'' (join_with ''/'' segs) = segs" by (rule js_split_join)
  with segs kept show thesis by (intro that [of segs]) auto
qed

lemma set_js_split: "w \<in> set (js_split sep s) \<Longrightarrow> set w \<subseteq> set s"
proof (induction s arbitrary: w)
  case (Cons c s)
  then show ?case by (cases "js_split sep s") (fastforce split: if_split_asm)+
qed simp

lemma normalized_path:
  assumes "normalize_workspace_path p = Inr q"
  shows "workspace_path q"
proof -
  from assms obtain segs where segs: "segs \<noteq> []" "q = join_with ''/'' segs" "js_split CHR ''/'' q = segs"
    "\<forall>s \<in> set segs. s \<noteq> [] \<and> s \<noteq> ''.'' \<and> s \<noteq> ''..''" "CHR 92 \<notin> set p" "CHR 0x00 \<notin> set p" "set segs \<subseteq> set (js_split CHR ''/'' p)"
    by (rule normalize_segments)
  have "set q \<subseteq> {CHR ''/''} \<union> set p"
    using set_join_with [of "''/''" segs] segs(2,7) set_js_split [of _ "CHR ''/''" p] by fastforce
  moreover have "q \<noteq> []" using segs(3,4) by force
  ultimately show ?thesis using segs(3-6) by (auto simp: workspace_path_def)
qed

lemma workspace_path_normal:
  assumes "workspace_path q" and "\<not> drive_path q"
  shows "normalize_workspace_path q = Inr q"
proof -
  have "keep_segments (js_split CHR ''/'' q) = Inr (js_split CHR ''/'' q)"
    using assms(1) by (intro keep_segments_same) (simp add: workspace_path_def)
  moreover have "\<not> starts_with ''/'' q"
  proof
    assume "starts_with ''/'' q"
    then obtain t where "q = CHR ''/'' # t" by (cases q) (auto simp: starts_with_def)
    with assms(1) show False by (auto simp: workspace_path_def)
  qed
  ultimately show ?thesis using assms join_js_split [of "CHR ''/''" q]
    by (simp add: normalize_workspace_path_def workspace_path_def)
qed

text \<open>The check for a drive is made on the text as given, so a leading dot hides one.\<close>

lemma dot_hides_a_drive: "normalize_workspace_path ''./c:/x'' = Inr ''c:/x'' \<and> normalize_workspace_path ''c:/x'' = Inl PathAbsolute"
  by code_simp

text \<open>The globs the registry uses: a directory with everything below it.\<close>

lemma glob_tokens_literal: "CHR ''*'' \<notin> set d \<Longrightarrow> CHR ''?'' \<notin> set d \<Longrightarrow> glob_tokens (d @ g) = map GLit d @ glob_tokens g"
  by (induction d) auto

lemma glob_match_literal: "glob_match (map GLit d @ ts) s \<longleftrightarrow> (\<exists>t. s = d @ t \<and> glob_match ts t)"
  by (induction d arbitrary: s) (auto split: list.splits)

lemma glob_match_any: "glob_match [GAny] s \<longleftrightarrow> list_all (\<lambda>c. \<not> line_end c) s"
  by (induction s) (auto simp: glob_match.simps(5))

lemma matches_subtree:
  assumes "CHR ''*'' \<notin> set d" and "CHR ''?'' \<notin> set d"
  shows "matches_glob p (d @ ''**'') \<longleftrightarrow> (\<exists>t. p = d @ t \<and> list_all (\<lambda>c. \<not> line_end c) t)"
  using assms by (simp add: matches_glob_def glob_tokens_literal glob_match_literal glob_match_any)

lemma matches_literal:
  assumes "CHR ''*'' \<notin> set d" and "CHR ''?'' \<notin> set d"
  shows "matches_glob p d \<longleftrightarrow> p = d"
  using glob_match_literal [of d "[]" p] glob_tokens_literal [OF assms, of "[]"] by (auto simp: matches_glob_def)

text \<open>A glob that starts with \<^verbatim>\<open>**/\<close> matches below any directory.\<close>

lemma glob_dirs_below:
  assumes "glob_match (GDirs # ts) s" and "w \<noteq> []" and "CHR ''/'' \<notin> set w"
  shows "glob_match (GDirs # ts) (w @ CHR ''/'' # s)"
proof -
  have "takeWhile (\<lambda>c. c \<noteq> CHR ''/'') (w @ CHR ''/'' # s) = w" "dropWhile (\<lambda>c. c \<noteq> CHR ''/'') (w @ CHR ''/'' # s) = CHR ''/'' # s"
    using assms(3) by (induction w) auto
  then show ?thesis unfolding glob_match.simps(6) [of ts "w @ CHR ''/'' # s"] using assms(1,2) by simp
qed

lemma assert_permitted_Inr:
  assumes "assert_permitted caps mode p = Inr q"
  shows "normalize_workspace_path p = Inr q" and "workspace_path q" and "\<exists>g \<in> set (globs_for caps mode). matches_glob q g"
proof -
  show "normalize_workspace_path p = Inr q"
    using assms by (cases "normalize_workspace_path p") (auto simp: assert_permitted_def split: if_split_asm)
  then show "workspace_path q" by (rule normalized_path)
  show "\<exists>g \<in> set (globs_for caps mode). matches_glob q g"
    using assms by (cases "normalize_workspace_path p") (auto simp: assert_permitted_def split: if_split_asm)
qed

end
