(* ===== verification/Workspaces.thy ===== *)
theory Workspaces
  imports Capabilities
begin

text \<open>
  The world an executor sees: \<^verbatim>\<open>packages/executors/src/workspace.ts\<close>, entire. A workspace is built from a
  snapshot; reads, writes and deletes go through the capability set; what is left in the end is a proposal.
\<close>

type_synonym snapshot = "(string \<times> string) list"

record proposal =
  pp_writes :: "(string \<times> string) list"
  pp_deletes :: "string list"

text \<open>\<^verbatim>\<open>#files\<close> and \<^verbatim>\<open>#writes\<close> are maps, \<^verbatim>\<open>#deletes\<close> a set, all in insertion order.\<close>

record workspace =
  wk_capabilities :: capability_set
  wk_files :: "(string \<times> string) list"
  wk_writes :: "(string \<times> string) list"
  wk_deletes :: "string list"

datatype workspace_error = OutOfWorld capability_error | NoSuchFile string | TypeErrorThrown

definition in_world :: "(capability_error, 'a) result \<Rightarrow> (workspace_error, 'a) result" where
  "in_world r = map_sum OutOfWorld id r"

fun load_files :: "capability_set \<Rightarrow> snapshot \<Rightarrow> (string \<times> string) list \<Rightarrow> (workspace_error, (string \<times> string) list) result" where
  "load_files caps [] fs = Inr fs"
| "load_files caps ((p, c) # rest) fs =
     bind_result (in_world (assert_permitted caps ReadMode p)) (\<lambda>q. load_files caps rest (map_set q c fs))"

definition new_workspace :: "snapshot \<Rightarrow> capability_set \<Rightarrow> (workspace_error, workspace) result" where
  "new_workspace snap caps = map_sum id (\<lambda>fs.
     \<lparr>wk_capabilities = caps, wk_files = fs, wk_writes = [], wk_deletes = []\<rparr>) (load_files caps snap [])"

fun filter_permitted :: "capability_set \<Rightarrow> string list \<Rightarrow> (workspace_error, string list) result" where
  "filter_permitted caps [] = Inr []"
| "filter_permitted caps (p # ps) =
     bind_result (in_world (permits caps ReadMode p)) (\<lambda>ok.
       map_sum id (\<lambda>qs. if ok then p # qs else qs) (filter_permitted caps ps))"

definition list_files :: "workspace \<Rightarrow> string option \<Rightarrow> (workspace_error, string list) result" where
  "list_files w glob =
     (let all = sort (map fst (wk_files w))
      in case glob of None \<Rightarrow> Inr all | Some g \<Rightarrow> filter_permitted (wk_capabilities w\<lparr>cap_read := [g]\<rparr>) all)"

definition file_exists :: "workspace \<Rightarrow> string \<Rightarrow> (workspace_error, bool) result" where
  "file_exists w p = map_sum (OutOfWorld \<circ> BadPath) (\<lambda>q. map_of (wk_files w) q \<noteq> None) (normalize_workspace_path p)"

definition read_or_null :: "workspace \<Rightarrow> string \<Rightarrow> (workspace_error, string option) result" where
  "read_or_null w p = bind_result (in_world (assert_permitted (wk_capabilities w) ReadMode p)) (\<lambda>q. Inr (map_of (wk_files w) q))"

definition read_file :: "workspace \<Rightarrow> string \<Rightarrow> (workspace_error, string) result" where
  "read_file w p = bind_result (in_world (assert_permitted (wk_capabilities w) ReadMode p)) (\<lambda>q.
     case map_of (wk_files w) q of None \<Rightarrow> Inl (NoSuchFile q) | Some c \<Rightarrow> Inr c)"

definition map_del :: "'k \<Rightarrow> ('k \<times> 'v) list \<Rightarrow> ('k \<times> 'v) list" where
  "map_del k m = filter (\<lambda>x. fst x \<noteq> k) m"

definition write_file :: "workspace \<Rightarrow> string \<Rightarrow> string \<Rightarrow> (workspace_error, workspace) result" where
  "write_file w p c = bind_result (in_world (assert_permitted (wk_capabilities w) WriteMode p)) (\<lambda>q.
     Inr (w\<lparr>wk_deletes := filter (\<lambda>x. x \<noteq> q) (wk_deletes w), wk_writes := map_set q c (wk_writes w),
            wk_files := map_set q c (wk_files w)\<rparr>))"

definition delete_file :: "workspace \<Rightarrow> string \<Rightarrow> (workspace_error, workspace) result" where
  "delete_file w p = bind_result (in_world (assert_permitted (wk_capabilities w) WriteMode p)) (\<lambda>q.
     Inr (w\<lparr>wk_writes := map_del q (wk_writes w),
            wk_deletes := (if q \<in> set (wk_deletes w) then wk_deletes w else wk_deletes w @ [q]),
            wk_files := map_del q (wk_files w)\<rparr>))"

definition proposal_of :: "workspace \<Rightarrow> proposal" where
  "proposal_of w = \<lparr>pp_writes = sort_key fst (wk_writes w), pp_deletes = sort (wk_deletes w)\<rparr>"

section \<open>The invariant\<close>

text \<open>Every proposed path is normalized and within the write capability, and no path is both written and deleted.\<close>

definition writable :: "capability_set \<Rightarrow> string \<Rightarrow> bool" where
  "writable caps q \<longleftrightarrow> workspace_path q \<and> (\<exists>g \<in> set (cap_write caps). matches_glob q g)"

definition workspace_ok :: "workspace \<Rightarrow> bool" where
  "workspace_ok w \<longleftrightarrow> (\<forall>q \<in> fst ` set (wk_writes w) \<union> set (wk_deletes w). writable (wk_capabilities w) q) \<and>
     fst ` set (wk_writes w) \<inter> set (wk_deletes w) = {}"

lemma in_world_Inr: "in_world r = Inr x \<longleftrightarrow> r = Inr x"
  by (cases r) (simp_all add: in_world_def)

lemma assert_writable: "assert_permitted caps WriteMode p = Inr q \<Longrightarrow> writable caps q"
  using assert_permitted_Inr [of caps WriteMode p q] by (simp add: writable_def globs_for_def)

lemma new_workspace_ok: "new_workspace snap caps = Inr w \<Longrightarrow> workspace_ok w \<and> wk_capabilities w = caps"
  by (auto simp: new_workspace_def map_sum_Inr_iff workspace_ok_def)

lemma write_file_ok:
  assumes "write_file w p c = Inr w'" and "workspace_ok w"
  shows "workspace_ok w' \<and> wk_capabilities w' = wk_capabilities w"
proof -
  from assms(1) obtain q where q: "assert_permitted (wk_capabilities w) WriteMode p = Inr q"
    and w': "w' = w\<lparr>wk_deletes := filter (\<lambda>x. x \<noteq> q) (wk_deletes w), wk_writes := map_set q c (wk_writes w), wk_files := map_set q c (wk_files w)\<rparr>"
    by (auto simp: write_file_def bind_result_Inr_iff in_world_Inr)
  have "writable (wk_capabilities w) q" using q by (rule assert_writable)
  with assms(2) show ?thesis by (auto simp: w' workspace_ok_def fst_set_map_set)
qed

lemma delete_file_ok:
  assumes "delete_file w p = Inr w'" and "workspace_ok w"
  shows "workspace_ok w' \<and> wk_capabilities w' = wk_capabilities w"
proof -
  from assms(1) obtain q where q: "assert_permitted (wk_capabilities w) WriteMode p = Inr q"
    and w': "w' = w\<lparr>wk_writes := map_del q (wk_writes w),
      wk_deletes := (if q \<in> set (wk_deletes w) then wk_deletes w else wk_deletes w @ [q]), wk_files := map_del q (wk_files w)\<rparr>"
    by (auto simp: delete_file_def bind_result_Inr_iff in_world_Inr)
  have "writable (wk_capabilities w) q" using q by (rule assert_writable)
  with assms(2) show ?thesis by (auto simp: w' workspace_ok_def map_del_def)
qed

text \<open>A proposal is what the host accepts: the paths are their own normal form, unless one reads as a drive.\<close>

lemma writable_permitted:
  assumes "writable caps q" and "\<not> drive_path q"
  shows "assert_permitted caps WriteMode q = Inr q"
  using assms workspace_path_normal [of q] by (simp add: writable_def assert_permitted_def globs_for_def)

lemma proposal_paths:
  assumes "workspace_ok w"
  shows "\<forall>(q, c) \<in> set (pp_writes (proposal_of w)). writable (wk_capabilities w) q"
    and "\<forall>q \<in> set (pp_deletes (proposal_of w)). writable (wk_capabilities w) q"
  using assms by (force simp: workspace_ok_def proposal_of_def)+

end
