(* ===== verification/Trust.thy ===== *)
theory Trust
  imports Capabilities
begin

text \<open>
  The trust gradient: \<^verbatim>\<open>packages/executors/src/trust/gradient.ts\<close> and \<^verbatim>\<open>store.ts\<close>. A record is history only; the
  level is computed from it. The store is the sealed files under a persona, read back as they were
  written; the clock is the argument \<open>now\<close>.
\<close>

section \<open>Levels and ceilings\<close>

datatype autonomy_level = DraftForReview | AutoApplyWithWindow | SilentWithReceipt

fun autonomy_rank :: "autonomy_level \<Rightarrow> nat" where
  "autonomy_rank DraftForReview = 0"
| "autonomy_rank AutoApplyWithWindow = 1"
| "autonomy_rank SilentWithReceipt = 2"

definition min_level :: "autonomy_level \<Rightarrow> autonomy_level \<Rightarrow> autonomy_level" where
  "min_level a b = (if autonomy_rank a \<le> autonomy_rank b then a else b)"

fun promotion_threshold :: "autonomy_level \<Rightarrow> nat" where
  "promotion_threshold DraftForReview = 0"
| "promotion_threshold AutoApplyWithWindow = 3"
| "promotion_threshold SilentWithReceipt = 6"

definition auto_apply_window_hours :: int where
  "auto_apply_window_hours = 24"

datatype risk_class = Routine | SupplyChain | Sensitive

fun risk_ceiling :: "risk_class \<Rightarrow> autonomy_level" where
  "risk_ceiling Routine = SilentWithReceipt"
| "risk_ceiling SupplyChain = AutoApplyWithWindow"
| "risk_ceiling Sensitive = DraftForReview"

definition sensitive_path_globs :: "string list" where
  "sensitive_path_globs =
     [''**/.github/**'', ''**/.gitlab-ci.yml'', ''**/.circleci/**'', ''**/Jenkinsfile'', ''**/*.pem'', ''**/*.key'', ''**/.env'',
      ''**/.env.*'', ''**/secrets/**'', ''**/auth/**'', ''**/*secret*'', ''**/*credential*'']"

definition is_sensitive_path :: "string \<Rightarrow> (path_error, bool) result" where
  "is_sensitive_path p = bind_result (normalize_workspace_path p) (\<lambda>q.
     Inr (\<exists>g \<in> set sensitive_path_globs. matches_glob (js_lower q) (js_lower g)))"

text \<open>\<^verbatim>\<open>paths.some(isSensitivePath)\<close>\<close>

fun touches_sensitive :: "string list \<Rightarrow> (path_error, bool) result" where
  "touches_sensitive [] = Inr False"
| "touches_sensitive (p # ps) = bind_result (is_sensitive_path p) (\<lambda>b. if b then Inr True else touches_sensitive ps)"

definition ceiling_for :: "risk_class \<Rightarrow> string list \<Rightarrow> (path_error, autonomy_level) result" where
  "ceiling_for r ps = bind_result (touches_sensitive ps) (\<lambda>b.
     Inr (if b then min_level (risk_ceiling r) (risk_ceiling Sensitive) else risk_ceiling r))"

section \<open>History\<close>

record trust_record =
  tt_persona :: persona_id
  tt_work_class :: string
  tt_streak :: nat
  tt_approvals :: nat
  tt_edited_approvals :: nat
  tt_corrections :: nat
  tt_updated_at :: string

definition trust_schema :: "trust_record \<Rightarrow> bool" where
  "trust_schema r \<longleftrightarrow> hex64 (tt_persona r) \<and> tt_work_class r \<noteq> []"

datatype trust_error = TrustBadPersona | TrustNoSuchPersona | TrustBadWorkClass | TrustMisfiled persona_id string | TrustMalformed

definition empty_trust_record :: "persona_id \<Rightarrow> string \<Rightarrow> string \<Rightarrow> (trust_error, trust_record) result" where
  "empty_trust_record p w now =
     (let r = \<lparr>tt_persona = p, tt_work_class = w, tt_streak = 0, tt_approvals = 0, tt_edited_approvals = 0,
               tt_corrections = 0, tt_updated_at = now\<rparr>
      in if trust_schema r then Inr r else Inl TrustMalformed)"

definition level_from_history :: "trust_record \<Rightarrow> autonomy_level" where
  "level_from_history r =
     (if promotion_threshold SilentWithReceipt \<le> tt_streak r then SilentWithReceipt
      else if promotion_threshold AutoApplyWithWindow \<le> tt_streak r then AutoApplyWithWindow
      else DraftForReview)"

datatype review_outcome = Approved | ApprovedWithEdits | Corrected

fun apply_outcome :: "trust_record \<Rightarrow> review_outcome \<Rightarrow> string \<Rightarrow> trust_record" where
  "apply_outcome r Approved now = r\<lparr>tt_streak := tt_streak r + 1, tt_approvals := tt_approvals r + 1, tt_updated_at := now\<rparr>"
| "apply_outcome r ApprovedWithEdits now = r\<lparr>tt_edited_approvals := tt_edited_approvals r + 1, tt_updated_at := now\<rparr>"
| "apply_outcome r Corrected now = r\<lparr>tt_streak := 0, tt_corrections := tt_corrections r + 1, tt_updated_at := now\<rparr>"

definition collapse_cost :: "autonomy_level \<Rightarrow> nat" where
  "collapse_cost l = promotion_threshold l"

datatype autonomy_cap = CappedByCeiling | CappedByUnverifiableEdge

record effective_autonomy =
  ea_level :: autonomy_level
  ea_earned :: autonomy_level
  ea_ceiling :: autonomy_level
  ea_capped_by :: "autonomy_cap option"

definition effective_autonomy_of :: "trust_record \<Rightarrow> autonomy_level \<Rightarrow> bool option \<Rightarrow> effective_autonomy" where
  "effective_autonomy_of r ceiling verifiable =
     (let earned = level_from_history r; capped = min_level earned ceiling
      in if verifiable \<noteq> Some True \<and> capped \<noteq> DraftForReview
         then \<lparr>ea_level = DraftForReview, ea_earned = earned, ea_ceiling = ceiling, ea_capped_by = Some CappedByUnverifiableEdge\<rparr>
         else \<lparr>ea_level = capped, ea_earned = earned, ea_ceiling = ceiling,
               ea_capped_by = (if capped = earned then None else Some CappedByCeiling)\<rparr>)"

section \<open>The store\<close>

text \<open>\<^verbatim>\<open>/^[a-z][a-z0-9-]{0,31}$/\<close>\<close>

definition is_work_class :: "string \<Rightarrow> bool" where
  "is_work_class w \<longleftrightarrow>
     (case w of
        [] \<Rightarrow> False
      | c # cs \<Rightarrow> CHR ''a'' \<le> c \<and> c \<le> CHR ''z'' \<and> length cs \<le> 31 \<and>
          list_all (\<lambda>d. (CHR ''a'' \<le> d \<and> d \<le> CHR ''z'') \<or> is_digit d \<or> d = CHR ''-'') cs)"

text \<open>The personas of the vault, and the files \<^verbatim>\<open>personas/<persona>/trust/<work class>.json\<close>.\<close>

record trust_store =
  ts_personas :: "persona_id list"
  ts_files :: "((persona_id \<times> string) \<times> trust_record) list"

definition require_trust_persona :: "trust_store \<Rightarrow> persona_id \<Rightarrow> (trust_error, unit) result" where
  "require_trust_persona st p =
     (if \<not> hex64 p then Inl TrustBadPersona
      else if p \<notin> set (ts_personas st) then Inl TrustNoSuchPersona else Inr ())"

definition record_path :: "persona_id \<Rightarrow> string \<Rightarrow> (trust_error, persona_id \<times> string) result" where
  "record_path p w =
     (if \<not> is_work_class w then Inl TrustBadWorkClass
      else if \<not> hex64 p then Inl TrustBadPersona else Inr (p, w))"

definition get_trust :: "trust_store \<Rightarrow> persona_id \<Rightarrow> string \<Rightarrow> string \<Rightarrow> (trust_error, trust_record) result" where
  "get_trust st p w now =
     bind_result (require_trust_persona st p) (\<lambda>_.
     bind_result (record_path p w) (\<lambda>f.
       case map_of (ts_files st) f of
         None \<Rightarrow> empty_trust_record p w now
       | Some r \<Rightarrow>
           if \<not> trust_schema r then Inl TrustMalformed
           else if tt_persona r \<noteq> p \<or> tt_work_class r \<noteq> w then Inl (TrustMisfiled (tt_persona r) (tt_work_class r))
           else Inr r))"

definition put_trust :: "trust_store \<Rightarrow> trust_record \<Rightarrow> (trust_error, trust_store) result" where
  "put_trust st r =
     bind_result (require_trust_persona st (tt_persona r)) (\<lambda>_.
       if \<not> trust_schema r then Inl TrustMalformed
       else bind_result (record_path (tt_persona r) (tt_work_class r)) (\<lambda>f.
         Inr (st\<lparr>ts_files := map_set f r (ts_files st)\<rparr>)))"

definition record_outcome ::
    "trust_store \<Rightarrow> persona_id \<Rightarrow> string \<Rightarrow> review_outcome \<Rightarrow> string \<Rightarrow> (trust_error, trust_record \<times> trust_store) result" where
  "record_outcome st p w oc now =
     bind_result (get_trust st p w now) (\<lambda>r.
       let next = apply_outcome r oc now
       in bind_result (put_trust st next) (\<lambda>st'. Inr (next, st')))"

fun checked_records :: "trust_record list \<Rightarrow> (trust_error, trust_record list) result" where
  "checked_records [] = Inr []"
| "checked_records (r # rs) = (if \<not> trust_schema r then Inl TrustMalformed else map_sum id ((#) r) (checked_records rs))"

definition list_trust :: "trust_store \<Rightarrow> persona_id \<Rightarrow> (trust_error, trust_record list) result" where
  "list_trust st p =
     bind_result (require_trust_persona st p) (\<lambda>_.
       map_sum id (sort_key tt_work_class) (checked_records (map snd (filter (\<lambda>(f, r). fst f = p) (ts_files st)))))"

section \<open>Laws\<close>

lemma min_level_rank: "autonomy_rank (min_level a b) = min (autonomy_rank a) (autonomy_rank b)"
  by (simp add: min_level_def)

lemma autonomy_rank_inject: "autonomy_rank a = autonomy_rank b \<longleftrightarrow> a = b"
  by (cases a; cases b) simp_all

lemma effective_autonomy_bounds:
  "autonomy_rank (ea_level (effective_autonomy_of r c v)) \<le> autonomy_rank c \<and>
   autonomy_rank (ea_level (effective_autonomy_of r c v)) \<le> autonomy_rank (level_from_history r) \<and>
   (v \<noteq> Some True \<longrightarrow> ea_level (effective_autonomy_of r c v) = DraftForReview) \<and>
   (v = Some True \<longrightarrow> ea_level (effective_autonomy_of r c v) = min_level (level_from_history r) c)"
  by (simp add: effective_autonomy_of_def Let_def min_level_rank)

text \<open>The unedited approvals since the last correction.\<close>

definition unedited_run :: "review_outcome list \<Rightarrow> nat" where
  "unedited_run ocs = length (filter ((=) Approved) (takeWhile (\<lambda>x. x \<noteq> Corrected) (rev ocs)))"

lemma unedited_run_snoc:
  "unedited_run [] = 0"
  "unedited_run (ocs @ [Approved]) = unedited_run ocs + 1"
  "unedited_run (ocs @ [ApprovedWithEdits]) = unedited_run ocs"
  "unedited_run (ocs @ [Corrected]) = 0"
  by (simp_all add: unedited_run_def)

text \<open>A history of reviews: each of a persona, a work class and an outcome, at a time.\<close>

type_synonym review = "persona_id \<times> string \<times> review_outcome \<times> string"

fun record_reviews :: "trust_store \<Rightarrow> review list \<Rightarrow> (trust_error, trust_store) result" where
  "record_reviews st [] = Inr st"
| "record_reviews st ((p, w, oc, now) # rs) = bind_result (record_outcome st p w oc now) (\<lambda>(_, st'). record_reviews st' rs)"

definition reviews_of :: "persona_id \<Rightarrow> string \<Rightarrow> review list \<Rightarrow> review_outcome list" where
  "reviews_of p w rs = List.map_filter (\<lambda>(q, v, oc, _). if q = p \<and> v = w then Some oc else None) rs"

text \<open>What a record says of the outcomes it was made of.\<close>

definition history_of :: "trust_record \<Rightarrow> review_outcome list \<Rightarrow> bool" where
  "history_of r ocs \<longleftrightarrow> tt_streak r = unedited_run ocs \<and> tt_approvals r = count_list ocs Approved \<and>
     tt_edited_approvals r = count_list ocs ApprovedWithEdits \<and> tt_corrections r = count_list ocs Corrected"

lemma history_of_outcome: "history_of r ocs \<Longrightarrow> history_of (apply_outcome r oc now) (ocs @ [oc])"
  by (cases oc) (simp_all add: history_of_def unedited_run_snoc)

lemma apply_outcome_keeps [simp]:
  "tt_persona (apply_outcome r oc now) = tt_persona r" "tt_work_class (apply_outcome r oc now) = tt_work_class r"
  by (cases oc; simp)+

text \<open>A store holds a history when each file is what the reviews of its pair make of an empty record.\<close>

definition holds_reviews :: "trust_store \<Rightarrow> review list \<Rightarrow> bool" where
  "holds_reviews st rs \<longleftrightarrow> (\<forall>p w.
     (case map_of (ts_files st) (p, w) of
        None \<Rightarrow> reviews_of p w rs = []
      | Some r \<Rightarrow> tt_persona r = p \<and> tt_work_class r = w \<and> history_of r (reviews_of p w rs)))"

lemma reviews_of_snoc:
  "reviews_of p w (rs @ [(q, v, oc, now)]) = reviews_of p w rs @ (if q = p \<and> v = w then [oc] else [])"
  by (simp add: reviews_of_def map_filter_def)

lemma get_trust_Inr:
  assumes "get_trust st p w now = Inr r"
  shows "tt_persona r = p \<and> tt_work_class r = w \<and>
    (map_of (ts_files st) (p, w) = Some r \<or> map_of (ts_files st) (p, w) = None \<and> history_of r [])"
proof -
  from assms have checked: "require_trust_persona st p = Inr ()" "record_path p w = Inr (p, w)"
    by (auto simp: get_trust_def bind_result_Inr_iff record_path_def split: if_split_asm)
  show ?thesis
  proof (cases "map_of (ts_files st) (p, w)")
    case None
    with assms checked show ?thesis
      by (auto simp: get_trust_def empty_trust_record_def history_of_def unedited_run_snoc Let_def split: if_split_asm)
  next
    case (Some x)
    with assms checked show ?thesis by (auto simp: get_trust_def split: if_split_asm)
  qed
qed

lemma put_trust_Inr:
  "put_trust st r = Inr st' \<Longrightarrow> st' = st\<lparr>ts_files := map_set (tt_persona r, tt_work_class r) r (ts_files st)\<rparr>"
  by (auto simp: put_trust_def bind_result_Inr_iff record_path_def split: if_split_asm)

lemma record_outcome_Inr:
  assumes "record_outcome st p w oc now = Inr (r, st')"
  obtains r0 where "get_trust st p w now = Inr r0" and "r = apply_outcome r0 oc now"
    and "st' = st\<lparr>ts_files := map_set (p, w) r (ts_files st)\<rparr>"
proof -
  from assms obtain r0 where r0: "get_trust st p w now = Inr r0" "r = apply_outcome r0 oc now" "put_trust st r = Inr st'"
    by (auto simp: record_outcome_def bind_result_Inr_iff Let_def)
  with get_trust_Inr [OF r0(1)] put_trust_Inr [OF r0(3)] show thesis by (intro that [of r0]) simp_all
qed

lemma record_outcome_holds:
  assumes "holds_reviews st rs" and "record_outcome st p w oc now = Inr (r, st')"
  shows "holds_reviews st' (rs @ [(p, w, oc, now)])"
proof -
  from assms(2) obtain r0 where r0: "get_trust st p w now = Inr r0" "r = apply_outcome r0 oc now"
    "st' = st\<lparr>ts_files := map_set (p, w) r (ts_files st)\<rparr>" by (rule record_outcome_Inr)
  note got = get_trust_Inr [OF r0(1)]
  have pair: "case map_of (ts_files st) (p, w) of None \<Rightarrow> reviews_of p w rs = []
      | Some r \<Rightarrow> tt_persona r = p \<and> tt_work_class r = w \<and> history_of r (reviews_of p w rs)"
    using assms(1) unfolding holds_reviews_def by blast
  have "history_of r0 (reviews_of p w rs)" using got pair by (auto split: option.split_asm)
  then have new: "history_of r (reviews_of p w (rs @ [(p, w, oc, now)]))"
    by (simp add: r0(2) reviews_of_snoc history_of_outcome)
  have "case map_of (ts_files st') (q, v) of None \<Rightarrow> reviews_of q v (rs @ [(p, w, oc, now)]) = []
      | Some x \<Rightarrow> tt_persona x = q \<and> tt_work_class x = v \<and> history_of x (reviews_of q v (rs @ [(p, w, oc, now)]))" for q v
  proof (cases "q = p \<and> v = w")
    case True
    then show ?thesis using new got by (simp add: r0(2,3) lookup_simps)
  next
    case False
    then have "map_of (ts_files st') (q, v) = map_of (ts_files st) (q, v)"
      "reviews_of q v (rs @ [(p, w, oc, now)]) = reviews_of q v rs"
      by (auto simp: r0(3) lookup_simps reviews_of_snoc)
    moreover have "case map_of (ts_files st) (q, v) of None \<Rightarrow> reviews_of q v rs = []
        | Some x \<Rightarrow> tt_persona x = q \<and> tt_work_class x = v \<and> history_of x (reviews_of q v rs)"
      using assms(1) unfolding holds_reviews_def by blast
    ultimately show ?thesis by (simp only:)
  qed
  then show ?thesis by (simp add: holds_reviews_def)
qed

lemma record_reviews_holds:
  "holds_reviews st rs0 \<Longrightarrow> record_reviews st rs = Inr st' \<Longrightarrow> holds_reviews st' (rs0 @ rs)"
proof (induction rs arbitrary: st rs0)
  case Nil
  then show ?case by simp
next
  case (Cons rv rs)
  obtain p w oc now where rv: "rv = (p, w, oc, now)" by (cases rv) auto
  with Cons.prems(2) obtain r st1 where s: "record_outcome st p w oc now = Inr (r, st1)" "record_reviews st1 rs = Inr st'"
    by (auto simp: bind_result_Inr_iff)
  from Cons.IH [OF record_outcome_holds [OF Cons.prems(1) s(1)] s(2)] show ?case by (simp add: rv)
qed

text \<open>Sensitive paths are sensitive wherever they sit.\<close>

lemma js_lower_tokens:
  assumes "g \<in> set sensitive_path_globs"
  obtains ts where "glob_tokens (js_lower g) = GDirs # ts"
proof -
  have "list_all (\<lambda>g. case glob_tokens (js_lower g) of t # _ \<Rightarrow> t = GDirs | [] \<Rightarrow> False) sensitive_path_globs"
    by code_simp
  with assms have "case glob_tokens (js_lower g) of t # _ \<Rightarrow> t = GDirs | [] \<Rightarrow> False" by (simp add: list_all_iff)
  with that show thesis by (cases "glob_tokens (js_lower g)") simp_all
qed

lemma js_lower_char_slash: "js_lower_char c = CHR ''/'' \<longleftrightarrow> c = CHR ''/''"
proof -
  define n :: nat where "n = of_char c"
  have c: "c = char_of n" by (simp add: n_def)
  have eq: "char_of m = CHR ''/'' \<longleftrightarrow> m = 47" if "m < 256" for m :: nat
  proof
    assume "char_of m = CHR ''/''"
    then have "(of_char (char_of m) :: nat) = of_char CHR ''/''" by simp
    with that show "m = 47" by simp
  next
    assume "m = 47"
    moreover have "char_of (47 :: nat) = CHR ''/''" by code_simp
    ultimately show "char_of m = CHR ''/''" by simp
  qed
  have "n < 256" by (simp add: n_def)
  then show ?thesis
    unfolding js_lower_char_def n_def [symmetric] Let_def c
    by (auto simp: eq)
qed

lemma js_lower_slash: "CHR ''/'' \<in> set (js_lower w) \<longleftrightarrow> CHR ''/'' \<in> set w"
proof -
  have "CHR ''/'' \<in> set (js_lower w) \<longleftrightarrow> (\<exists>c \<in> set w. js_lower_char c = CHR ''/'')"
    unfolding js_lower_def set_map image_iff by metis
  then show ?thesis by (auto simp: js_lower_char_slash)
qed

lemma sensitive_below:
  assumes "is_sensitive_path q = Inr True" and "normalize_workspace_path q = Inr q"
    and "w \<noteq> []" and "CHR ''/'' \<notin> set w" and "normalize_workspace_path (w @ CHR ''/'' # q) = Inr (w @ CHR ''/'' # q)"
  shows "is_sensitive_path (w @ CHR ''/'' # q) = Inr True"
proof -
  from assms(1,2) obtain g where g: "g \<in> set sensitive_path_globs" "matches_glob (js_lower q) (js_lower g)"
    by (auto simp: is_sensitive_path_def)
  obtain ts where ts: "glob_tokens (js_lower g) = GDirs # ts" by (rule js_lower_tokens [OF g(1)])
  have "js_lower (w @ CHR ''/'' # q) = js_lower w @ CHR ''/'' # js_lower q"
    by (simp add: js_lower_def js_lower_char_def)
  moreover have "glob_match (GDirs # ts) (js_lower w @ CHR ''/'' # js_lower q)"
    using g(2) assms(3,4) by (intro glob_dirs_below) (simp_all add: matches_glob_def ts js_lower_slash, simp add: js_lower_def)
  ultimately have "matches_glob (js_lower (w @ CHR ''/'' # q)) (js_lower g)" by (simp add: matches_glob_def ts)
  with g(1) assms(5) show ?thesis by (auto simp: is_sensitive_path_def)
qed

end
