(* ===== verification/ExecClasses.thy ===== *)
theory ExecClasses
  imports Workspaces Trust Vault
begin

text \<open>
  The executor classes: \<^verbatim>\<open>packages/executors/src/executor.ts\<close>, \<^verbatim>\<open>registry.ts\<close> and \<^verbatim>\<open>classes/\<close>. An executor is a
  function of a workspace; \<^verbatim>\<open>JSON.parse\<close> is the parameter \<open>json_of\<close>. The regular expressions of the source are
  written out as the scans they are.
\<close>

section \<open>The interface\<close>

text \<open>A commitment without its free text.\<close>

record executor_commitment =
  xc_owner :: persona_id
  xc_owed_to :: "string option"
  xc_due :: "rfc3339 option"
  xc_conditions :: "sha256_hex list"
  xc_created_at :: rfc3339
  xc_source :: commitment_source
  xc_confidence :: rat
  xc_commitment_hash :: sha256_hex

datatype execution_target =
    SourceFileTarget string
  | SymbolTarget string string
  | DependencyTarget string string

datatype target_kind = KindSourceFile | KindSymbol | KindDependency

fun kind_of_target :: "execution_target \<Rightarrow> target_kind" where
  "kind_of_target (SourceFileTarget p) = KindSourceFile"
| "kind_of_target (SymbolTarget s p) = KindSymbol"
| "kind_of_target (DependencyTarget n v) = KindDependency"

definition is_ident_start :: "char \<Rightarrow> bool" where
  "is_ident_start c \<longleftrightarrow> (is_word_char c \<and> \<not> is_digit c) \<or> c = CHR ''$''"

definition is_ident_char :: "char \<Rightarrow> bool" where
  "is_ident_char c \<longleftrightarrow> is_word_char c \<or> c = CHR ''$''"

definition is_identifier :: "string \<Rightarrow> bool" where
  "is_identifier s \<longleftrightarrow> s \<noteq> [] \<and> is_ident_start (hd s) \<and> list_all is_ident_char (tl s)"

text \<open>\<^verbatim>\<open>/^[\^~]?\d+\.\d+\.\d+(?:-[0-9A-Za-z.-]+)?$/\<close>\<close>

definition number_then :: "string \<Rightarrow> string option" where
  "number_then s = (if takeWhile is_digit s = [] then None else Some (dropWhile is_digit s))"

definition is_version :: "string \<Rightarrow> bool" where
  "is_version s \<longleftrightarrow>
     (let t = (case s of c # r \<Rightarrow> if c = CHR ''^'' \<or> c = CHR ''~'' then r else s | [] \<Rightarrow> s)
      in case Option.bind (number_then t) (strip_prefix ''.'') of
           None \<Rightarrow> False
         | Some u \<Rightarrow>
             (case Option.bind (Option.bind (number_then u) (strip_prefix ''.'')) number_then of
                None \<Rightarrow> False
              | Some v \<Rightarrow> v = [] \<or>
                  (case strip_prefix ''-'' v of
                     None \<Rightarrow> False
                   | Some r \<Rightarrow> r \<noteq> [] \<and> list_all (\<lambda>c. (is_word_char c \<and> c \<noteq> CHR ''_'') \<or> c = CHR ''.'' \<or> c = CHR ''-'') r)))"

definition target_schema :: "execution_target \<Rightarrow> bool" where
  "target_schema t \<longleftrightarrow>
     (case t of
        SourceFileTarget p \<Rightarrow> p \<noteq> []
      | SymbolTarget s p \<Rightarrow> is_identifier s \<and> p \<noteq> []
      | DependencyTarget n v \<Rightarrow> n \<noteq> [] \<and> length n \<le> 214 \<and> is_version v)"

text \<open>A body may hold characters above 255, a title does not.\<close>

record executor_output =
  xo_title :: string
  xo_body :: wide

definition output_schema :: "executor_output \<Rightarrow> bool" where
  "output_schema x \<longleftrightarrow> 1 \<le> length (xo_title x) \<and> length (xo_title x) \<le> 120 \<and> 1 \<le> length (xo_body x) \<and> length (xo_body x) \<le> 8000"

type_synonym executor = "execution_target \<Rightarrow> workspace \<Rightarrow> (workspace_error, executor_output option \<times> workspace) result"

definition nothing_to_do :: "workspace \<Rightarrow> (workspace_error, executor_output option \<times> workspace) result" where
  "nothing_to_do w = Inr (None, w)"

fun wide_lines :: "wide list \<Rightarrow> wide" where
  "wide_lines [] = []"
| "wide_lines [l] = l"
| "wide_lines (l # ls) = l @ [10] @ wide_lines ls"

section \<open>tests\<close>

text \<open>\<^verbatim>\<open>export function ([A-Za-z_$][A-Za-z0-9_$]*)\s*\(\<close> at the head of a text: the name and what follows the match.\<close>

definition export_match :: "string \<Rightarrow> (string \<times> string) option" where
  "export_match s = Option.bind (strip_prefix ''export function '' s) (\<lambda>t.
     let name = takeWhile is_ident_char t; rest = dropWhile js_space (dropWhile is_ident_char t)
     in if is_identifier name then map_option (Pair name) (strip_prefix ''('' rest) else None)"

lemma export_match_shorter:
  assumes "export_match s = Some (n, r)"
  shows "length r < length s"
proof -
  from assms obtain t where t: "s = ''export function '' @ t" "dropWhile js_space (dropWhile is_ident_char t) = ''('' @ r"
    by (auto simp: export_match_def Let_def bind_eq_Some_conv strip_prefix_Some split: if_split_asm)
  have "length (dropWhile js_space (dropWhile is_ident_char t)) \<le> length t"
    by (meson length_dropWhile_le order_trans)
  with t show ?thesis by simp
qed

function exported_from :: "bool \<Rightarrow> string \<Rightarrow> string list" where
  "exported_from line_start s =
     (case (if line_start then export_match s else None) of
        Some (name, rest) \<Rightarrow> name # exported_from False rest
      | None \<Rightarrow> (case s of [] \<Rightarrow> [] | c # t \<Rightarrow> exported_from (line_end c) t))"
  by pat_completeness auto

termination
  by (relation "measure (\<lambda>(b, s). length s)") (auto split: if_split_asm dest: export_match_shorter)

declare exported_from.simps [simp del]

definition exported_names :: "string \<Rightarrow> string list" where
  "exported_names s = exported_from True s"

text \<open>\<^verbatim>\<open>/\.[cm]?[jt]sx?$/\<close>\<close>

definition module_suffixes :: "string list" where
  "module_suffixes = [CHR ''.'' # m @ l # CHR ''s'' # x. m \<leftarrow> [[], ''c'', ''m''], l \<leftarrow> ''jt'', x \<leftarrow> [[], ''x'']]"

definition drop_suffix :: "string \<Rightarrow> string \<Rightarrow> string" where
  "drop_suffix x s = (if ends_with x s then take (length s - length x) s else s)"

definition module_base :: "string \<Rightarrow> string" where
  "module_base p =
     (let base = last (js_split CHR ''/'' p)
      in case find (\<lambda>x. ends_with x base) module_suffixes of None \<Rightarrow> base | Some x \<Rightarrow> drop_suffix x base)"

definition replace_suffix :: "string \<Rightarrow> string \<Rightarrow> string \<Rightarrow> string" where
  "replace_suffix x y s = (if ends_with x s then drop_suffix x s @ y else s)"

definition quote :: string where "quote = [CHR 39]"

definition scaffold :: "string \<Rightarrow> string \<Rightarrow> string list \<Rightarrow> string" where
  "scaffold source name names =
     join_with [newline]
       ([''import { describe, expect, it } from '' @ quote @ ''vitest'' @ quote @ '';'',
         ''import { '' @ join_with '', '' names @ '' } from '' @ quote @ ''../'' @ replace_suffix ''.ts'' ''.js'' source @ quote @ '';'',
         [],
         ''describe('' @ quote @ name @ quote @ '', () => {''] @
        concat (map (\<lambda>f.
          [''  it('' @ quote @ ''exports '' @ f @ quote @ '', () => {'',
           ''    expect(typeof '' @ f @ '').toBe('' @ quote @ ''function'' @ quote @ '');'',
           ''  });'', []]) names) @
        [''});'']) @ [newline]"

definition tick :: string where "tick = [CHR 96]"

definition tests_executor :: executor where
  "tests_executor target w =
     (case target of
        SourceFileTarget source \<Rightarrow>
          bind_result (read_or_null w source) (\<lambda>held.
            case held of
              None \<Rightarrow> nothing_to_do w
            | Some text \<Rightarrow>
                let names = exported_names text; name = module_base source; test_path = ''test/'' @ name @ ''.test.ts''
                in if names = [] then nothing_to_do w
                   else bind_result (file_exists w test_path) (\<lambda>there.
                     if there then nothing_to_do w
                     else bind_result (write_file w test_path (scaffold source name names)) (\<lambda>w'.
                       Inr (Some \<lparr>xo_title = ''test: scaffold tests for '' @ source,
                         xo_body = wide_lines
                           ([wide (''Adds '' @ tick @ test_path @ tick @ '' covering the '' @ decimal_digits (length names) @
                               '' exported function(s) of '' @ tick @ source @ tick @ '':''), []] @
                            map (\<lambda>n. wide (''- '' @ tick @ n @ tick)) names @
                            [[], wide ''These assert the exports exist and are callable. They are a scaffold to fill in, not'',
                             wide ''coverage '' @ [8212] @ wide '' the behavioural assertions are yours to write.''])\<rparr>, w'))))
      | _ \<Rightarrow> nothing_to_do w)"

section \<open>dead-code\<close>

definition word_at :: "char option \<Rightarrow> bool" where
  "word_at c \<longleftrightarrow> (case c of None \<Rightarrow> False | Some x \<Rightarrow> is_word_char x)"

text \<open>\<^verbatim>\<open>\b\<close> between two characters, either of which may be missing.\<close>

definition boundary :: "char option \<Rightarrow> char option \<Rightarrow> bool" where
  "boundary a b \<longleftrightarrow> word_at a \<noteq> word_at b"

definition word_here :: "string \<Rightarrow> char option \<Rightarrow> string \<Rightarrow> bool" where
  "word_here symb prev s \<longleftrightarrow> starts_with symb s \<and> boundary prev (hd_opt symb) \<and> boundary (last_opt symb) (hd_opt (drop (length symb) s))"

text \<open>The matches of \<^verbatim>\<open>\bsymbol\b\<close> with flag \<^verbatim>\<open>g\<close>, from a position on; a symbol is not empty.\<close>

function occurrences_from :: "string \<Rightarrow> char option \<Rightarrow> string \<Rightarrow> nat" where
  "occurrences_from symb prev s =
     (if symb = [] \<or> s = [] then 0
      else if word_here symb prev s then Suc (occurrences_from symb (last_opt symb) (drop (length symb) s))
      else occurrences_from symb (Some (hd s)) (tl s))"
  by pat_completeness auto

termination
  by (relation "measure (\<lambda>(symb, prev, s). length s)") auto

declare occurrences_from.simps [simp del]

definition word_occurrences :: "string \<Rightarrow> string \<Rightarrow> nat" where
  "word_occurrences text symb = occurrences_from symb None text"

text \<open>A word and at least one space after it.\<close>

definition word_then :: "string \<Rightarrow> string \<Rightarrow> string option" where
  "word_then k s = Option.bind (strip_prefix k s) (\<lambda>t.
     case t of c # r \<Rightarrow> if js_space c then Some (dropWhile js_space r) else None | [] \<Rightarrow> None)"

text \<open>
  The symbol followed by \<^verbatim>\<open>\b\<close>, in a regular expression it is not escaped for: a \<^verbatim>\<open>$\<close> asserts the end of the line.
\<close>

definition names_symbol :: "string \<Rightarrow> string \<Rightarrow> bool" where
  "names_symbol symb s \<longleftrightarrow>
     (let base = takeWhile (\<lambda>c. c \<noteq> CHR ''$'') symb; rest = dropWhile (\<lambda>c. c \<noteq> CHR ''$'') symb
      in if rest = [] then starts_with symb s \<and> boundary (last_opt symb) (hd_opt (drop (length symb) s))
         else list_all (\<lambda>c. c = CHR ''$'') rest \<and> s = base \<and> word_at (last_opt base))"

definition declares :: "string \<Rightarrow> string \<Rightarrow> bool" where
  "declares symb line \<longleftrightarrow>
     (let t = js_trim_start line; u = (case word_then ''export'' t of None \<Rightarrow> t | Some r \<Rightarrow> r)
      in \<exists>k \<in> set [''const'', ''let'', ''var'', ''function'', ''class'']. case word_then k u of None \<Rightarrow> False | Some r \<Rightarrow> names_symbol symb r)"

text \<open>The loop over the other files: occurrences so far.\<close>

fun occurrences_elsewhere :: "workspace \<Rightarrow> string \<Rightarrow> string \<Rightarrow> string list \<Rightarrow> nat \<Rightarrow> (workspace_error, nat) result" where
  "occurrences_elsewhere w path symb [] n = Inr n"
| "occurrences_elsewhere w path symb (p # ps) n =
     (if p = path then occurrences_elsewhere w path symb ps n
      else bind_result (read_file w p) (\<lambda>text. occurrences_elsewhere w path symb ps (n + word_occurrences text symb)))"

definition comment_line :: "string \<Rightarrow> bool" where
  "comment_line l \<longleftrightarrow> (let t = js_trim l in starts_with ''//'' t \<or> starts_with ''*'' t \<or> starts_with ''/*'' t)"

fun comment_start :: "string list \<Rightarrow> nat \<Rightarrow> nat" where
  "comment_start ls 0 = 0"
| "comment_start ls (Suc k) = (if comment_line (ls ! k) then comment_start ls k else Suc k)"

text \<open>\<^verbatim>\<open>(lines[i] ?? '').trim() === ''\<close>\<close>

definition blank_at :: "string list \<Rightarrow> nat \<Rightarrow> bool" where
  "blank_at ls i \<longleftrightarrow> (i < length ls \<longrightarrow> js_trim (ls ! i) = [])"

text \<open>What is removed: from the comment above the declaration to the line after it.\<close>

definition removal :: "string list \<Rightarrow> nat \<Rightarrow> nat \<times> nat" where
  "removal ls d =
     (let from_line = comment_start ls d
      in (from_line, if blank_at ls (d + 1) \<and> 0 < from_line \<and> blank_at ls (from_line - 1) then d + 2 else d + 1))"

definition ends_statement :: "string \<Rightarrow> bool" where
  "ends_statement line \<longleftrightarrow> (let t = js_trim line in t \<noteq> [] \<and> (last t = CHR '';'' \<or> last t = CHR ''}''))"

definition dead_code_executor :: executor where
  "dead_code_executor target w =
     (case target of
        SymbolTarget symb path \<Rightarrow>
          bind_result (read_or_null w path) (\<lambda>held.
            case held of
              None \<Rightarrow> nothing_to_do w
            | Some text \<Rightarrow>
                bind_result (list_files w None) (\<lambda>paths.
                bind_result (occurrences_elsewhere w path symb paths 0) (\<lambda>elsewhere.
                  let ls = js_split newline text
                  in if 0 < elsewhere then nothing_to_do w
                     else case find_index (declares symb) ls of
                       None \<Rightarrow> nothing_to_do w
                     | Some d \<Rightarrow>
                         if word_occurrences text symb \<noteq> 1 then nothing_to_do w
                         else if \<not> ends_statement (ls ! d) then nothing_to_do w
                         else let (a, b) = removal ls d; removed = drop a (take b ls)
                              in bind_result (write_file w path (join_with [newline] (take a ls @ drop b ls))) (\<lambda>w'.
                                Inr (Some \<lparr>xo_title = ''refactor: remove unused '' @ symb,
                                  xo_body = wide_lines
                                    ([wide (tick @ symb @ tick @ '' is declared in '' @ tick @ path @ tick @
                                        '' and referenced nowhere else in the paths this''),
                                      wide (''executor can read. Removing the declaration'' @
                                        (if 1 < length removed then '' and its comment'' else []) @ '':''), [],
                                      wide (tick @ tick @ tick)] @ map wide removed @
                                     [wide (tick @ tick @ tick), [],
                                      wide (''Check the liveness claim against anything outside this executor'' @ quote @ ''s read capability '') @ [8212],
                                      wide ''dynamic lookups, generated code, and other repositories are not visible to it.''])\<rparr>, w')))))
      | _ \<Rightarrow> nothing_to_do w)"

section \<open>dep-bump\<close>

definition dependency_blocks :: "string list" where
  "dependency_blocks = [''dependencies'', ''devDependencies'', ''optionalDependencies'']"

definition manifest_path :: string where
  "manifest_path = ''package.json''"

text \<open>The names every object, and every array, answers to without having them.\<close>

definition object_names :: "string list" where
  "object_names = [''constructor'', ''hasOwnProperty'', ''isPrototypeOf'', ''propertyIsEnumerable'', ''toLocaleString'',
     ''toString'', ''valueOf'', ''__proto__'', ''__defineGetter__'', ''__defineSetter__'', ''__lookupGetter__'', ''__lookupSetter__'']"

definition array_names :: "string list" where
  "array_names = [''length'', ''at'', ''concat'', ''copyWithin'', ''entries'', ''every'', ''fill'', ''filter'', ''find'', ''findIndex'',
     ''findLast'', ''findLastIndex'', ''flat'', ''flatMap'', ''forEach'', ''includes'', ''indexOf'', ''join'', ''keys'',
     ''lastIndexOf'', ''map'', ''pop'', ''push'', ''reduce'', ''reduceRight'', ''reverse'', ''shift'', ''slice'', ''some'',
     ''sort'', ''splice'', ''toReversed'', ''toSorted'', ''toSpliced'', ''unshift'', ''values'', ''with'']"

text \<open>\<^verbatim>\<open>name in deps\<close> and \<^verbatim>\<open>deps[name]\<close>: absent, a value that is no string, or a string.\<close>

datatype looked_up = LookedAbsent | LookedOther | LookedText string

fun look_in :: "json \<Rightarrow> string \<Rightarrow> looked_up" where
  "look_in (JObj ms) k =
     (case map_of ms k of
        Some (JStr s) \<Rightarrow> LookedText s
      | Some _ \<Rightarrow> LookedOther
      | None \<Rightarrow> if k \<in> set object_names then LookedOther else LookedAbsent)"
| "look_in (JArr xs) k =
     (case find (\<lambda>(i, x). decimal_digits i = k) (enumerate 0 xs) of
        Some (_, JStr s) \<Rightarrow> LookedText s
      | Some _ \<Rightarrow> LookedOther
      | None \<Rightarrow> if k \<in> set (object_names @ array_names) then LookedOther else LookedAbsent)"
| "look_in _ k = LookedAbsent"

definition manifest_block :: "json \<Rightarrow> string \<Rightarrow> json option" where
  "manifest_block m b = (case m of JObj ms \<Rightarrow> map_of ms b | _ \<Rightarrow> None)"

text \<open>\<^verbatim>\<open>("name"\s*:\s*)"from"\<close> at the head of a text: the first group and what follows the match.\<close>

definition quoted :: "string \<Rightarrow> string" where
  "quoted s = CHR 34 # s @ [CHR 34]"

definition pair_match :: "string \<Rightarrow> string \<Rightarrow> string \<Rightarrow> (string \<times> string) option" where
  "pair_match name old s =
     Option.bind (strip_prefix (quoted name) s) (\<lambda>t.
     Option.bind (strip_prefix '':'' (dropWhile js_space t)) (\<lambda>u.
       let v = dropWhile js_space u
       in map_option (Pair (take (length s - length v) s)) (strip_prefix (quoted old) v)))"

fun replace_pair :: "string \<Rightarrow> string \<Rightarrow> string \<Rightarrow> string \<Rightarrow> string option" where
  "replace_pair name old new [] = None"
| "replace_pair name old new (c # s) =
     (case pair_match name old (c # s) of
        Some (kept, rest) \<Rightarrow> Some (kept @ quoted new @ rest)
      | None \<Rightarrow> map_option ((#) c) (replace_pair name old new s))"

definition dep_bump_executor :: "(string \<Rightarrow> json option) \<Rightarrow> executor" where
  "dep_bump_executor json_of target w =
     (case target of
        DependencyTarget name version \<Rightarrow>
          bind_result (read_or_null w manifest_path) (\<lambda>held.
            case held of
              None \<Rightarrow> nothing_to_do w
            | Some raw \<Rightarrow>
                (case json_of raw of
                   None \<Rightarrow> nothing_to_do w
                 | Some m \<Rightarrow>
                     if m = JNull then Inl TypeErrorThrown
                     else (case find (\<lambda>b. case manifest_block m b of None \<Rightarrow> False | Some deps \<Rightarrow> look_in deps name \<noteq> LookedAbsent) dependency_blocks of
                        None \<Rightarrow> nothing_to_do w
                      | Some block \<Rightarrow>
                          (case map_option (\<lambda>deps. look_in deps name) (manifest_block m block) of
                             Some (LookedText old) \<Rightarrow>
                               if old = version then nothing_to_do w
                               else (case replace_pair name old version raw of
                                 None \<Rightarrow> nothing_to_do w
                               | Some changed \<Rightarrow>
                                   (case json_of changed of
                                      None \<Rightarrow> nothing_to_do w
                                    | Some again \<Rightarrow>
                                        (case manifest_block again block of
                                           None \<Rightarrow> Inl TypeErrorThrown
                                         | Some deps \<Rightarrow>
                                             if deps = JNull then Inl TypeErrorThrown
                                             else if look_in deps name \<noteq> LookedText version then nothing_to_do w
                                             else bind_result (write_file w manifest_path changed) (\<lambda>w'.
                                               Inr (Some \<lparr>xo_title = ''chore(deps): bump '' @ name @ '' from '' @ old @ '' to '' @ version,
                                                 xo_body = wide_lines
                                                   [wide (''Moves '' @ tick @ name @ tick @ '' in '' @ tick @ block @ tick @ '' from '' @ tick @ old @ tick @
                                                      '' to '' @ tick @ version @ tick @ ''.''), [],
                                                    wide ''This executor changed a version string and nothing else. It did not fetch the package,'',
                                                    wide ''read its changelog, or run anything '' @ [8212] @ wide '' it has no network. Review the upstream diff'',
                                                    wide ''yourself before merging: a dependency bump is third-party code you are about to run.'']\<rparr>, w')))))
                           | _ \<Rightarrow> nothing_to_do w))))
      | _ \<Rightarrow> nothing_to_do w)"

section \<open>The registry\<close>

datatype class_name = ClassTests | ClassDeadCode | ClassDepBump

fun class_name_text :: "class_name \<Rightarrow> string" where
  "class_name_text ClassTests = ''tests''"
| "class_name_text ClassDeadCode = ''dead-code''"
| "class_name_text ClassDepBump = ''dep-bump''"

record executor_class =
  ec_name :: class_name
  ec_risk_class :: risk_class
  ec_target_kind :: target_kind
  ec_capabilities :: capability_set
  ec_run :: executor
  ec_summary :: string

definition registry :: "(string \<Rightarrow> json option) \<Rightarrow> executor_class list" where
  "registry json_of =
     [\<lparr>ec_name = ClassTests, ec_risk_class = Routine, ec_target_kind = KindSourceFile,
       ec_capabilities = \<lparr>cap_read = [''src/**'', ''test/**''], cap_write = [''test/**''], cap_max_changed_lines = 400, cap_max_changed_files = 3\<rparr>,
       ec_run = tests_executor, ec_summary = ''Scaffold a test file for a source module.''\<rparr>,
      \<lparr>ec_name = ClassDeadCode, ec_risk_class = Routine, ec_target_kind = KindSymbol,
       ec_capabilities = \<lparr>cap_read = [''src/**''], cap_write = [''src/**''], cap_max_changed_lines = 40, cap_max_changed_files = 2\<rparr>,
       ec_run = dead_code_executor, ec_summary = ''Remove a declaration that nothing references.''\<rparr>,
      \<lparr>ec_name = ClassDepBump, ec_risk_class = SupplyChain, ec_target_kind = KindDependency,
       ec_capabilities = \<lparr>cap_read = [''package.json''], cap_write = [''package.json''], cap_max_changed_lines = 4, cap_max_changed_files = 1\<rparr>,
       ec_run = dep_bump_executor json_of, ec_summary = ''Move one dependency to one version.''\<rparr>]"

definition get_executor_class :: "(string \<Rightarrow> json option) \<Rightarrow> string \<Rightarrow> executor_class option" where
  "get_executor_class json_of name = find (\<lambda>c. class_name_text (ec_name c) = name) (registry json_of)"

end
