(* ===== verification/Diffs.thy ===== *)
theory Diffs
  imports JsText "HOL-Library.Sublist"
begin

text \<open>
  The diff of one file: \<^verbatim>\<open>packages/executors/src/diff.ts\<close>, entire. The lemmas say that the table holds the length of
  a longest common subsequence, that the walk through it is an edit script from the old lines to the
  new ones, and that no script has fewer changes.
\<close>

section \<open>Lines and edit scripts\<close>

definition split_lines :: "string \<Rightarrow> string list" where
  "split_lines t =
     (if t = [] then []
      else let ls = js_split newline t in if last ls = [] then butlast ls else ls)"

datatype diff_kind = Same | Removed | Added

type_synonym diff_op = "diff_kind \<times> string"

text \<open>One row of the table from the row below it, and the table, bottom row first in the recursion.\<close>

fun lcs_row :: "string \<Rightarrow> string list \<Rightarrow> nat list \<Rightarrow> nat list" where
  "lcs_row x [] next = [0]"
| "lcs_row x (y # ys) next =
     (let row = lcs_row x ys (tl next)
      in (if x = y then hd (tl next) + 1 else max (hd next) (hd row)) # row)"

fun lcs_table :: "string list \<Rightarrow> string list \<Rightarrow> nat list list" where
  "lcs_table [] b = [replicate (length b + 1) 0]"
| "lcs_table (x # a) b = (let t = lcs_table a b in lcs_row x b (hd t) # t)"

function walk_table :: "string list \<Rightarrow> string list \<Rightarrow> nat list list \<Rightarrow> nat \<Rightarrow> nat \<Rightarrow> diff_op list" where
  "walk_table a b t i j =
     (if i < length a \<and> j < length b then
        (if a ! i = b ! j then (Same, a ! i) # walk_table a b t (i + 1) (j + 1)
         else if t ! i ! (j + 1) \<le> t ! (i + 1) ! j then (Removed, a ! i) # walk_table a b t (i + 1) j
         else (Added, b ! j) # walk_table a b t i (j + 1))
      else map (Pair Removed) (drop i a) @ map (Pair Added) (drop j b))"
  by pat_completeness auto

termination
  by (relation "measure (\<lambda>(a, b, t, i, j). (length a - i) + (length b - j))") auto

declare walk_table.simps [simp del]

definition lcs_ops :: "string list \<Rightarrow> string list \<Rightarrow> diff_op list" where
  "lcs_ops a b = walk_table a b (lcs_table a b) 0 0"

section \<open>The unified diff\<close>

definition diff_context :: nat where
  "diff_context = 3"

definition additions_in :: "diff_op list \<Rightarrow> nat" where
  "additions_in ops = length (filter (\<lambda>op. fst op = Added) ops)"

definition deletions_in :: "diff_op list \<Rightarrow> nat" where
  "deletions_in ops = length (filter (\<lambda>op. fst op = Removed) ops)"

text \<open>Which operations are within the context of a change.\<close>

definition keep_flags :: "diff_op list \<Rightarrow> bool list" where
  "keep_flags ops = map (\<lambda>k. \<exists>i \<in> set [k - diff_context ..< min (length ops) (k + diff_context + 1)]. fst (ops ! i) \<noteq> Same) [0 ..< length ops]"

record hunk =
  hk_old_start :: nat
  hk_old_count :: nat
  hk_new_start :: nat
  hk_new_count :: nat
  hk_body :: "diff_op list"

definition old_size :: "diff_op list \<Rightarrow> nat" where
  "old_size ops = length (filter (\<lambda>op. fst op \<noteq> Added) ops)"

definition new_size :: "diff_op list \<Rightarrow> nat" where
  "new_size ops = length (filter (\<lambda>op. fst op \<noteq> Removed) ops)"

function hunks_from :: "(bool \<times> diff_op) list \<Rightarrow> nat \<Rightarrow> nat \<Rightarrow> hunk list" where
  "hunks_from [] old new = []"
| "hunks_from ((False, op) # rest) old new = hunks_from rest (old + old_size [op]) (new + new_size [op])"
| "hunks_from ((True, op) # rest) old new =
     (let body = op # map snd (takeWhile fst rest)
      in \<lparr>hk_old_start = old, hk_old_count = old_size body, hk_new_start = new, hk_new_count = new_size body, hk_body = body\<rparr> #
         hunks_from (dropWhile fst rest) (old + old_size body) (new + new_size body))"
  by pat_completeness auto

termination
  by (relation "measure (\<lambda>(fs, old, new). length fs)") (auto simp: length_dropWhile_le le_imp_less_Suc)

definition diff_hunks :: "diff_op list \<Rightarrow> hunk list" where
  "diff_hunks ops = hunks_from (zip (keep_flags ops) ops) 1 1"

fun kind_mark :: "diff_kind \<Rightarrow> char" where
  "kind_mark Same = CHR '' ''"
| "kind_mark Removed = CHR ''-''"
| "kind_mark Added = CHR ''+''"

definition hunk_lines :: "hunk \<Rightarrow> string list" where
  "hunk_lines h =
     (''@@ -'' @ decimal_digits (hk_old_start h) @ '','' @ decimal_digits (hk_old_count h) @ '' +'' @
        decimal_digits (hk_new_start h) @ '','' @ decimal_digits (hk_new_count h) @ '' @@'') #
     map (\<lambda>(k, t). kind_mark k # t) (hk_body h)"

record diff_result =
  dr_text :: string
  dr_additions :: nat
  dr_deletions :: nat

definition file_lines :: "string option \<Rightarrow> string list" where
  "file_lines f = (case f of None \<Rightarrow> [] | Some t \<Rightarrow> split_lines t)"

definition unified_diff :: "string \<Rightarrow> string option \<Rightarrow> string option \<Rightarrow> diff_result" where
  "unified_diff path prior later =
     (let ops = lcs_ops (file_lines prior) (file_lines later);
          additions = additions_in ops; deletions = deletions_in ops
      in if additions = 0 \<and> deletions = 0 then \<lparr>dr_text = [], dr_additions = 0, dr_deletions = 0\<rparr>
         else let ls = [''--- '' @ (if prior = None then ''/dev/null'' else ''a/'' @ path),
                        ''+++ '' @ (if later = None then ''/dev/null'' else ''b/'' @ path)] @
                       concat (map hunk_lines (diff_hunks ops))
              in \<lparr>dr_text = join_with [newline] ls @ [newline], dr_additions = additions, dr_deletions = deletions\<rparr>)"

section \<open>The table\<close>

text \<open>The length of a longest common subsequence, without a table.\<close>

fun lcs_length :: "string list \<Rightarrow> string list \<Rightarrow> nat" where
  "lcs_length [] b = 0"
| "lcs_length a [] = 0"
| "lcs_length (x # a) (y # b) =
     (if x = y then lcs_length a b + 1 else max (lcs_length a (y # b)) (lcs_length (x # a) b))"

lemma lcs_length_Nil [simp]: "lcs_length a [] = 0"
  by (cases a) simp_all

text \<open>Row \<open>i\<close> of the table answers for every end piece of the new lines.\<close>

definition answers_for :: "nat list \<Rightarrow> string list \<Rightarrow> string list \<Rightarrow> bool" where
  "answers_for row a b \<longleftrightarrow> length row = length b + 1 \<and> (\<forall>j \<le> length b. row ! j = lcs_length a (drop j b))"

lemma answers_for_Cons:
  "answers_for (n # row) a (y # b) \<longleftrightarrow> n = lcs_length a (y # b) \<and> answers_for row a b"
  by (auto simp: answers_for_def nth_Cons' All_less_Suc2 less_Suc_eq_le [symmetric] split: if_splits)

lemma answers_for_Nil: "answers_for row a [] \<longleftrightarrow> row = [0]"
  by (auto simp: answers_for_def length_Suc_conv)

lemma lcs_row_answers: "answers_for next a b \<Longrightarrow> answers_for (lcs_row x b next) (x # a) b"
proof (induction b arbitrary: "next")
  case Nil
  then show ?case by (simp add: answers_for_Nil)
next
  case (Cons y b)
  then obtain n rest where n: "next = n # rest" by (cases "next") (auto simp: answers_for_def)
  with Cons.prems have rest: "n = lcs_length a (y # b)" "answers_for rest a b" by (simp_all add: answers_for_Cons)
  note row = Cons.IH [OF rest(2)]
  have h: "hd rest = lcs_length a b" "hd (lcs_row x b rest) = lcs_length (x # a) b"
    using rest(2) row by (auto simp: answers_for_def hd_conv_nth length_Suc_conv)
  show ?case using row by (simp add: n answers_for_Cons Let_def h rest(1))
qed

lemma lcs_table_answers:
  "length (lcs_table a b) = length a + 1 \<and> (\<forall>i \<le> length a. answers_for (lcs_table a b ! i) (drop i a) b)"
proof (induction a)
  case Nil
  then show ?case by (auto simp: answers_for_def nth_Cons')
next
  case (Cons x a)
  then have "answers_for (hd (lcs_table a b)) a b" by (cases "lcs_table a b") force+
  then have "answers_for (lcs_row x b (hd (lcs_table a b))) (x # a) b" by (rule lcs_row_answers)
  with Cons show ?case by (auto simp: Let_def nth_Cons' drop_Cons')
qed

lemma lcs_table_nth:
  "i \<le> length a \<Longrightarrow> j \<le> length b \<Longrightarrow> lcs_table a b ! i ! j = lcs_length (drop i a) (drop j b)"
  using lcs_table_answers [of a b] by (auto simp: answers_for_def)

section \<open>The script\<close>

definition old_lines :: "diff_op list \<Rightarrow> string list" where
  "old_lines ops = map snd (filter (\<lambda>op. fst op \<noteq> Added) ops)"

definition new_lines :: "diff_op list \<Rightarrow> string list" where
  "new_lines ops = map snd (filter (\<lambda>op. fst op \<noteq> Removed) ops)"

definition kept_lines :: "diff_op list \<Rightarrow> string list" where
  "kept_lines ops = map snd (filter (\<lambda>op. fst op = Same) ops)"

lemma script_simps [simp]:
  "old_lines [] = []" "new_lines [] = []" "kept_lines [] = []"
  "old_lines (op # ops) = (if fst op = Added then [] else [snd op]) @ old_lines ops"
  "new_lines (op # ops) = (if fst op = Removed then [] else [snd op]) @ new_lines ops"
  "kept_lines (op # ops) = (if fst op = Same then [snd op] else []) @ kept_lines ops"
  "old_lines (xs @ ys) = old_lines xs @ old_lines ys" "new_lines (xs @ ys) = new_lines xs @ new_lines ys"
  by (simp_all add: old_lines_def new_lines_def kept_lines_def)

lemma script_of_kind [simp]:
  "old_lines (map (Pair Removed) xs) = xs" "new_lines (map (Pair Removed) xs) = []"
  "old_lines (map (Pair Added) xs) = []" "new_lines (map (Pair Added) xs) = xs"
  "old_lines (map (Pair Same) xs) = xs" "new_lines (map (Pair Same) xs) = xs"
  by (induction xs) simp_all

lemma walk_table_end:
  "\<not> (i < length a \<and> j < length b) \<Longrightarrow> walk_table a b t i j = map (Pair Removed) (drop i a) @ map (Pair Added) (drop j b)"
  by (subst walk_table.simps) (rule if_not_P)

lemma walk_table_lines:
  "i \<le> length a \<Longrightarrow> j \<le> length b \<Longrightarrow>
     old_lines (walk_table a b t i j) = drop i a \<and> new_lines (walk_table a b t i j) = drop j b"
proof (induction a b t i j rule: walk_table.induct)
  case (1 a b t i j)
  show ?case
  proof (cases "i < length a \<and> j < length b")
    case False
    then show ?thesis by (simp only: walk_table_end script_simps script_of_kind append_Nil append_Nil2 simp_thms)
  next
    case True
    then have d: "drop i a = a ! i # drop (Suc i) a" "drop j b = b ! j # drop (Suc j) b"
      by (simp_all add: Cons_nth_drop_Suc)
    show ?thesis using 1 True by (simp add: walk_table.simps [of a b t i j] d)
  qed
qed

lemma lcs_ops_lines: "old_lines (lcs_ops a b) = a" "new_lines (lcs_ops a b) = b"
  using walk_table_lines [of 0 a 0 b] by (simp_all add: lcs_ops_def)

text \<open>Of every script, the lines kept are the rest of both sides.\<close>

lemma script_counts:
  "length (old_lines ops) = length (kept_lines ops) + deletions_in ops \<and>
   length (new_lines ops) = length (kept_lines ops) + additions_in ops"
proof (induction ops)
  case Nil
  then show ?case by (simp add: deletions_in_def additions_in_def)
next
  case (Cons op ops)
  then show ?case by (cases "fst op") (simp_all add: deletions_in_def additions_in_def)
qed

lemma kept_subseq: "subseq (kept_lines ops) (old_lines ops) \<and> subseq (kept_lines ops) (new_lines ops)"
proof (induction ops)
  case Nil
  then show ?case by simp
next
  case (Cons op ops)
  then show ?case by (cases "fst op") (auto simp: list_emb.intros)
qed

lemma subseq_lcs_length: "subseq c a \<Longrightarrow> subseq c b \<Longrightarrow> length c \<le> lcs_length a b"
proof (induction a b arbitrary: c rule: lcs_length.induct)
  case (1 b)
  then show ?case by simp
next
  case (2 x a)
  then show ?case by simp
next
  case (3 x a y b)
  show ?case
  proof (cases c)
    case Nil
    then show ?thesis by simp
  next
    case (Cons z c')
    show ?thesis
    proof (cases "x = y")
      case True
      have "subseq c' a \<and> subseq c' b"
        using "3.prems" Cons by (auto simp: subseq_Cons2_iff split: if_split_asm dest: subseq_Cons')
      with "3.IH"(1) [OF True, of c'] Cons True show ?thesis by simp
    next
      case False
      then have "subseq c a \<or> subseq c b"
        using "3.prems" Cons by (auto simp: subseq_Cons2_iff split: if_splits)
      with "3.IH"(2,3) [OF False, of c] "3.prems" False show ?thesis by fastforce
    qed
  qed
qed

lemma walk_table_kept:
  "i \<le> length a \<Longrightarrow> j \<le> length b \<Longrightarrow>
     length (kept_lines (walk_table a b (lcs_table a b) i j)) = lcs_length (drop i a) (drop j b)"
proof (induction a b "lcs_table a b" i j rule: walk_table.induct)
  case (1 a b i j)
  show ?case
  proof (cases "i < length a \<and> j < length b")
    case False
    then have "drop i a = [] \<or> drop j b = []" by auto
    moreover have "kept_lines (map (Pair Removed) xs @ map (Pair Added) ys) = []" for xs ys
      by (simp add: kept_lines_def)
    ultimately show ?thesis by (auto simp: walk_table_end [OF False])
  next
    case True
    then have d: "drop i a = a ! i # drop (Suc i) a" "drop j b = b ! j # drop (Suc j) b"
      by (simp_all add: Cons_nth_drop_Suc)
    have t: "lcs_table a b ! i ! (j + 1) = lcs_length (a ! i # drop (Suc i) a) (drop (Suc j) b)"
      "lcs_table a b ! (i + 1) ! j = lcs_length (drop (Suc i) a) (b ! j # drop (Suc j) b)"
      using True lcs_table_nth [of i a "j + 1" b] lcs_table_nth [of "i + 1" a j b] by (simp_all add: d)
    show ?thesis
      using 1 True t by (simp add: walk_table.simps [of a b "lcs_table a b" i j] d max_def)
  qed
qed

lemma lcs_ops_kept: "length (kept_lines (lcs_ops a b)) = lcs_length a b"
  using walk_table_kept [of 0 a 0 b] by (simp add: lcs_ops_def)

section \<open>Applying a diff\<close>

text \<open>What a patch tool does with a hunk: context and removed lines must be there.\<close>

fun apply_body :: "diff_op list \<Rightarrow> string list \<Rightarrow> (string list \<times> string list) option" where
  "apply_body [] rest = Some ([], rest)"
| "apply_body ((Added, t) # ops) rest = map_option (\<lambda>(out, r). (t # out, r)) (apply_body ops rest)"
| "apply_body ((Same, t) # ops) [] = None"
| "apply_body ((Same, t) # ops) (l # rest) =
     (if l = t then map_option (\<lambda>(out, r). (t # out, r)) (apply_body ops rest) else None)"
| "apply_body ((Removed, t) # ops) [] = None"
| "apply_body ((Removed, t) # ops) (l # rest) = (if l = t then apply_body ops rest else None)"

text \<open>The hunks in order, from line \<open>old\<close> of the old file and line \<open>new\<close> of the new one; the line numbers and counts must fit.\<close>

fun apply_hunks :: "hunk list \<Rightarrow> nat \<Rightarrow> nat \<Rightarrow> string list \<Rightarrow> string list option" where
  "apply_hunks [] old new rest = Some rest"
| "apply_hunks (h # hs) old new rest =
     (let gap = hk_old_start h - old
      in if hk_old_start h < old \<or> length rest < gap \<or> hk_new_start h \<noteq> new + gap \<or>
            hk_old_count h \<noteq> old_size (hk_body h) \<or> hk_new_count h \<noteq> new_size (hk_body h) then None
         else Option.bind (apply_body (hk_body h) (drop gap rest)) (\<lambda>(out, rest').
           map_option (\<lambda>t. take gap rest @ out @ t)
             (apply_hunks hs (hk_old_start h + hk_old_count h) (hk_new_start h + hk_new_count h) rest')))"

lemma apply_body_script: "apply_body ops (old_lines ops @ rest) = Some (new_lines ops, rest)"
proof (induction ops)
  case Nil
  then show ?case by simp
next
  case (Cons op ops)
  obtain k t where "op = (k, t)" by fastforce
  with Cons show ?case by (cases k) simp_all
qed

lemma size_is_length: "old_size ops = length (old_lines ops)" "new_size ops = length (new_lines ops)"
  by (simp_all add: old_size_def new_size_def old_lines_def new_lines_def)

lemma old_lines_split: "old_lines (map snd fs) = old_lines (map snd (takeWhile p fs)) @ old_lines (map snd (dropWhile p fs))"
  "new_lines (map snd fs) = new_lines (map snd (takeWhile p fs)) @ new_lines (map snd (dropWhile p fs))"
  by (induction fs) auto

lemma apply_hunks_from:
  assumes "\<forall>(keep, op) \<in> set fs. \<not> keep \<longrightarrow> fst op = Same"
  shows "apply_hunks (hunks_from fs (old + length skipped) (new + length skipped)) old new (skipped @ old_lines (map snd fs)) =
    Some (skipped @ new_lines (map snd fs))"
  using assms
proof (induction fs "old + length skipped" "new + length skipped" arbitrary: old new skipped rule: hunks_from.induct)
  case (1 old new skipped)
  then show ?case by simp
next
  case (2 op rest old new skipped)
  obtain t where op: "op = (Same, t)" using "2.prems" by (cases op) auto
  have "apply_hunks (hunks_from rest (old + length (skipped @ [t])) (new + length (skipped @ [t]))) old new
      ((skipped @ [t]) @ old_lines (map snd rest)) = Some ((skipped @ [t]) @ new_lines (map snd rest))"
    by (rule "2.hyps") (use "2.prems" op in \<open>auto simp: size_is_length\<close>)
  then show ?case by (simp add: op size_is_length)
next
  case (3 op rest old new skipped)
  define body where "body = op # map snd (takeWhile fst rest)"
  define more where "more = map snd (dropWhile fst rest)"
  have lines: "old_lines (map snd ((True, op) # rest)) = old_lines body @ old_lines more"
    "new_lines (map snd ((True, op) # rest)) = new_lines body @ new_lines more"
    using old_lines_split [of rest fst] by (simp_all add: body_def more_def)
  have step: "hunks_from ((True, op) # rest) u n =
      \<lparr>hk_old_start = u, hk_old_count = old_size body, hk_new_start = n, hk_new_count = new_size body, hk_body = body\<rparr> #
      hunks_from (dropWhile fst rest) (u + old_size body) (n + new_size body)" for u n
    by (simp only: hunks_from.simps Let_def body_def)
  have "\<forall>(keep, op) \<in> set (dropWhile fst rest). \<not> keep \<longrightarrow> fst op = Same"
    using "3.prems" set_dropWhileD by fastforce
  then have "apply_hunks (hunks_from (dropWhile fst rest) (old + length skipped + old_size body + length ([] :: string list))
        (new + length skipped + new_size body + length ([] :: string list)))
      (old + length skipped + old_size body) (new + length skipped + new_size body) ([] @ old_lines more) = Some ([] @ new_lines more)"
    unfolding more_def by (intro "3.hyps") (simp_all add: body_def)
  then show ?case unfolding lines step by (simp add: Let_def apply_body_script)
qed

lemma keep_flags_changes:
  assumes "(keep, op) \<in> set (zip (keep_flags ops) ops)" and "\<not> keep"
  shows "fst op = Same"
proof -
  from assms(1) obtain k where k: "k < length ops" "keep = keep_flags ops ! k" "op = ops ! k"
    by (auto simp: in_set_zip keep_flags_def)
  with assms(2) have "\<not> (\<exists>i \<in> set [k - diff_context ..< min (length ops) (k + diff_context + 1)]. fst (ops ! i) \<noteq> Same)"
    by (simp add: keep_flags_def)
  moreover have "k \<in> set [k - diff_context ..< min (length ops) (k + diff_context + 1)]"
    using k(1) by (simp add: diff_context_def)
  ultimately show ?thesis using k(3) by blast
qed

lemma diff_applies: "apply_hunks (diff_hunks ops) 1 1 (old_lines ops) = Some (new_lines ops)"
proof -
  have "map snd (zip (keep_flags ops) ops) = ops" by (simp add: keep_flags_def)
  moreover have "\<forall>(keep, op) \<in> set (zip (keep_flags ops) ops). \<not> keep \<longrightarrow> fst op = Same"
    using keep_flags_changes by fastforce
  ultimately show ?thesis
    using apply_hunks_from [of "zip (keep_flags ops) ops" 1 "[]" 1] by (simp add: diff_hunks_def)
qed

end
