(* ===== verification/Executors.thy ===== *)
theory Executors
  imports ExecClasses Diffs
begin

text \<open>
  One run of an executor: \<^verbatim>\<open>packages/executors/src/sandbox/protocol.ts\<close>, \<^verbatim>\<open>host.ts\<close>, \<^verbatim>\<open>run.ts\<close> and \<^verbatim>\<open>artifact.ts\<close>.
  The process in the sandbox is a parameter, any function from requests to responses: the host trusts none of
  what it answers. \<open>sandbox_main\<close> is the program that really runs there. The file system is a tree, \<open>fs\<close>,
  without links; nothing of it is written.
\<close>

section \<open>The protocol\<close>

record sandbox_request =
  rq_executor_class :: string
  rq_commitment :: executor_commitment
  rq_target :: execution_target
  rq_persona :: persona_id
  rq_now :: rfc3339
  rq_snapshot :: snapshot

text \<open>A response that passed its schema; an error is its name and message.\<close>

datatype sandbox_response =
    SandboxOk "executor_output option" proposal
  | SandboxFailed string string

definition response_schema :: "sandbox_response \<Rightarrow> bool" where
  "response_schema r \<longleftrightarrow> (case r of SandboxOk (Some x) _ \<Rightarrow> output_schema x | _ \<Rightarrow> True)"

definition request_schema :: "sandbox_request \<Rightarrow> bool" where
  "request_schema q \<longleftrightarrow> rq_executor_class q \<noteq> [] \<and> hex64 (xc_commitment_hash (rq_commitment q)) \<and> hex64 (xc_owner (rq_commitment q)) \<and>
     list_all hex64 (xc_conditions (rq_commitment q)) \<and> target_schema (rq_target q) \<and> hex64 (rq_persona q)"

text \<open>What the process in the sandbox stops at; \<open>words\<close> gives the name and message of the exception.\<close>

datatype sandbox_failure =
    RequestMalformed
  | UnknownClass string
  | TargetKindMismatch class_name target_kind target_kind
  | ExecutorThrew workspace_error

definition sandbox_main ::
    "(string \<Rightarrow> json option) \<Rightarrow> (sandbox_failure \<Rightarrow> string \<times> string) \<Rightarrow> sandbox_request \<Rightarrow> sandbox_response" where
  "sandbox_main json_of words q =
     (let failed = (\<lambda>f. case words f of (n, m) \<Rightarrow> SandboxFailed n m)
      in if \<not> request_schema q then failed RequestMalformed
         else case get_executor_class json_of (rq_executor_class q) of
           None \<Rightarrow> failed (UnknownClass (rq_executor_class q))
         | Some c \<Rightarrow>
             if kind_of_target (rq_target q) \<noteq> ec_target_kind c
             then failed (TargetKindMismatch (ec_name c) (ec_target_kind c) (kind_of_target (rq_target q)))
             else case bind_result (new_workspace (rq_snapshot q) (ec_capabilities c)) (ec_run c (rq_target q)) of
               Inl err \<Rightarrow> failed (ExecutorThrew err)
             | Inr (out, w) \<Rightarrow> SandboxOk out (proposal_of w))"

section \<open>The repository\<close>

datatype fs_entry = FsDir "(string \<times> fs_entry) list" | FsFile nat string | FsOther

definition max_snapshot_files :: int where "max_snapshot_files = 2000"
definition max_file_bytes :: int where "max_file_bytes = 524288"

datatype run_error =
    UnknownExecutorClass string
  | NoSuchRepository
  | PlatformError
  | NotAGitRepository
  | NoGitdirNamed
  | MissingGitdir
  | CannotResolve
  | TooManyFiles
  | SandboxDied string
  | ResponseMalformed
  | RunCapability capability_error
  | DiffBudget string nat int
  | RunPath path_error
  | RunTrust trust_error
  | InvalidDateThrown
  | ArtifactMalformed

text \<open>The walk: the files found so far, and how many. \<open>here\<close> is the path of the directory, with a slash.\<close>

definition take_file :: "capability_set \<Rightarrow> string \<Rightarrow> nat \<Rightarrow> string \<Rightarrow> snapshot \<times> nat \<Rightarrow> (run_error, snapshot \<times> nat) result" where
  "take_file caps rel nbytes text acc =
     (case normalize_workspace_path rel of
        Inl _ \<Rightarrow> Inr acc
      | Inr q \<Rightarrow>
          if \<not> (\<exists>g \<in> set (cap_read caps). matches_glob q g) then Inr acc
          else if max_file_bytes < int nbytes then Inr acc
          else if max_snapshot_files < int (snd acc) + 1 then Inl TooManyFiles
          else Inr (map_set q text (fst acc), Suc (snd acc)))"

fun walk_entry :: "capability_set \<Rightarrow> string \<Rightarrow> fs_entry \<Rightarrow> snapshot \<times> nat \<Rightarrow> (run_error, snapshot \<times> nat) result"
  and walk_entries :: "capability_set \<Rightarrow> string \<Rightarrow> (string \<times> fs_entry) list \<Rightarrow> snapshot \<times> nat \<Rightarrow> (run_error, snapshot \<times> nat) result" where
  "walk_entry caps rel (FsDir es) acc = walk_entries caps (rel @ ''/'') es acc"
| "walk_entry caps rel (FsFile nbytes text) acc = take_file caps rel nbytes text acc"
| "walk_entry caps rel FsOther acc = Inr acc"
| "walk_entries caps here [] acc = Inr acc"
| "walk_entries caps here ((name, e) # es) acc =
     (if name = ''.git'' \<or> name = ''node_modules'' then walk_entries caps here es acc
      else bind_result (walk_entry caps (here @ name) e acc) (walk_entries caps here es))"

text \<open>The entries of every directory in the order of their names.\<close>

fun sorted_entry :: "fs_entry \<Rightarrow> fs_entry" where
  "sorted_entry (FsDir es) = FsDir (sort_key fst (map (\<lambda>(n, e). (n, sorted_entry e)) es))"
| "sorted_entry e = e"

text \<open>
  Paths of the host: the segments from the root. \<^verbatim>\<open>join\<close> and \<^verbatim>\<open>resolve\<close> drop empty and current segments and take a
  segment back at a parent.
\<close>

fun path_join :: "string list \<Rightarrow> string list \<Rightarrow> string list" where
  "path_join base [] = base"
| "path_join base (s # ss) =
     (if s = [] \<or> s = ''.'' then path_join base ss
      else if s = ''..'' then path_join (butlast base) ss
      else path_join (base @ [s]) ss)"

definition path_resolve :: "string list \<Rightarrow> string \<Rightarrow> string list" where
  "path_resolve base p = path_join (if starts_with ''/'' p then [] else base) (js_split CHR ''/'' p)"

fun fs_find :: "fs_entry \<Rightarrow> string list \<Rightarrow> fs_entry option" where
  "fs_find e [] = Some e"
| "fs_find (FsDir es) (s # ss) = (case map_of es s of None \<Rightarrow> None | Some e \<Rightarrow> fs_find e ss)"
| "fs_find e (s # ss) = None"

definition read_text :: "fs_entry \<Rightarrow> string list \<Rightarrow> (run_error, string) result" where
  "read_text fs p = (case fs_find fs p of Some (FsFile _ text) \<Rightarrow> Inr text | _ \<Rightarrow> Inl PlatformError)"

record repo_ref =
  rp_path :: string
  rp_base_branch :: "string option"

definition snapshot_repo :: "fs_entry \<Rightarrow> string \<Rightarrow> capability_set \<Rightarrow> (run_error, snapshot) result" where
  "snapshot_repo fs repo caps =
     (case map_option sorted_entry (fs_find fs (path_resolve [] repo)) of
        None \<Rightarrow> Inl NoSuchRepository
      | Some (FsDir es) \<Rightarrow> map_sum id fst (walk_entries caps [] es ([], 0))
      | Some _ \<Rightarrow> Inl PlatformError)"

section \<open>The commit that is checked out\<close>

record git_head =
  gh_commit :: string
  gh_branch :: string

text \<open>\<^verbatim>\<open>.git\<close> is a directory, or a file that names one.\<close>

definition git_dir :: "fs_entry \<Rightarrow> string list \<Rightarrow> (run_error, string list) result" where
  "git_dir fs repo =
     (let dir = repo @ [''.git'']
      in case fs_find fs dir of
           None \<Rightarrow> Inl NotAGitRepository
         | Some (FsFile _ text) \<Rightarrow>
             (case map_option (dropWhile js_space) (strip_prefix ''gitdir:'' (js_trim text)) of
                None \<Rightarrow> Inl NoGitdirNamed
              | Some p \<Rightarrow>
                  if p = [] \<or> list_ex line_end p then Inl NoGitdirNamed
                  else let d = path_resolve repo (js_trim p)
                       in if fs_find fs d = None then Inl MissingGitdir else Inr d)
         | Some _ \<Rightarrow> Inr dir)"

fun packed_ref :: "string \<Rightarrow> string list \<Rightarrow> string option" where
  "packed_ref r [] = None"
| "packed_ref r (l # ls) =
     (case js_split CHR '' '' (js_trim l) of
        sha # name # _ \<Rightarrow> if name = r then Some sha else packed_ref r ls
      | _ \<Rightarrow> packed_ref r ls)"

definition resolve_ref :: "fs_entry \<Rightarrow> string list \<Rightarrow> string \<Rightarrow> (run_error, string) result" where
  "resolve_ref fs dir r =
     (let loose = path_join dir (js_split CHR ''/'' r); packed = dir @ [''packed-refs'']
      in if fs_find fs loose \<noteq> None then map_sum id js_trim (read_text fs loose)
         else if fs_find fs packed = None then Inl CannotResolve
         else bind_result (read_text fs packed) (\<lambda>text.
           case packed_ref r (js_split newline text) of None \<Rightarrow> Inl CannotResolve | Some sha \<Rightarrow> Inr sha))"

definition read_head :: "fs_entry \<Rightarrow> string \<Rightarrow> (run_error, git_head) result" where
  "read_head fs repo =
     bind_result (git_dir fs (path_resolve [] repo)) (\<lambda>dir.
     bind_result (read_text fs (dir @ [''HEAD''])) (\<lambda>text.
       case strip_prefix ''ref: '' (js_trim text) of
         None \<Rightarrow> Inr \<lparr>gh_commit = js_trim text, gh_branch = ''HEAD''\<rparr>
       | Some rest \<Rightarrow>
           let r = js_trim rest; branch = (case strip_prefix ''refs/heads/'' r of None \<Rightarrow> r | Some b \<Rightarrow> b)
           in map_sum id (\<lambda>c. \<lparr>gh_commit = c, gh_branch = branch\<rparr>) (resolve_ref fs dir r)))"

section \<open>Artifacts\<close>

datatype change_kind = FileAdded | FileModified | FileDeleted

record file_change =
  fc_path :: string
  fc_kind :: change_kind
  fc_additions :: nat
  fc_deletions :: nat

text \<open>\<^verbatim>\<open>draft: true\<close> and \<^verbatim>\<open>signed_by: null\<close> are the only values the schema has, and no field here can hold another.\<close>

record draft_pr_artifact =
  dp_executor_class :: class_name
  dp_risk_class :: risk_class
  dp_commitment_hash :: sha256_hex
  dp_acting_under :: persona_id
  dp_repo_path :: string
  dp_base_commit :: string
  dp_base_branch :: string
  dp_branch :: string
  dp_title :: string
  dp_body :: wide
  dp_changes :: "file_change list"
  dp_diff :: string
  dp_capabilities :: capability_set
  dp_autonomy :: effective_autonomy
  dp_applies_at :: "int option"
  dp_created_at :: rfc3339

datatype nothing_reason = FoundNothing | ChangedNothing

datatype refusal_reason = WrongTarget target_kind target_kind | ExecutorFailed string string

datatype execution_outcome =
    Artifact draft_pr_artifact
  | NothingToDo class_name nothing_reason
  | Refused class_name refusal_reason

section \<open>Re-validation\<close>

record proposal_review =
  rw_changes :: "file_change list"
  rw_diffs :: "string list"
  rw_changed_lines :: nat

definition in_capability :: "capability_set \<Rightarrow> string \<Rightarrow> (run_error, string) result" where
  "in_capability caps p = map_sum RunCapability id (assert_permitted caps WriteMode p)"

definition add_change :: "file_change \<Rightarrow> string \<Rightarrow> proposal_review \<Rightarrow> proposal_review" where
  "add_change c d r = \<lparr>rw_changes = rw_changes r @ [c], rw_diffs = rw_diffs r @ [d],
     rw_changed_lines = rw_changed_lines r + fc_additions c + fc_deletions c\<rparr>"

definition review_write :: "capability_set \<Rightarrow> snapshot \<Rightarrow> string \<times> string \<Rightarrow> proposal_review \<Rightarrow> (run_error, proposal_review) result" where
  "review_write caps snap pc r = (case pc of (p, contents) \<Rightarrow>
     bind_result (in_capability caps p) (\<lambda>q.
       let prior = map_of snap q; d = unified_diff q prior (Some contents)
       in if dr_additions d = 0 \<and> dr_deletions d = 0 then Inr r
          else Inr (add_change \<lparr>fc_path = q, fc_kind = (if prior = None then FileAdded else FileModified),
            fc_additions = dr_additions d, fc_deletions = dr_deletions d\<rparr> (dr_text d) r)))"

definition review_delete :: "capability_set \<Rightarrow> snapshot \<Rightarrow> string \<Rightarrow> proposal_review \<Rightarrow> (run_error, proposal_review) result" where
  "review_delete caps snap p r =
     bind_result (in_capability caps p) (\<lambda>q.
       case map_of snap q of
         None \<Rightarrow> Inr r
       | Some prior \<Rightarrow>
           let d = unified_diff q (Some prior) None
           in Inr (add_change \<lparr>fc_path = q, fc_kind = FileDeleted, fc_additions = 0, fc_deletions = dr_deletions d\<rparr> (dr_text d) r))"

fun review_each :: "('a \<Rightarrow> proposal_review \<Rightarrow> (run_error, proposal_review) result) \<Rightarrow> 'a list \<Rightarrow> proposal_review \<Rightarrow> (run_error, proposal_review) result" where
  "review_each f [] r = Inr r"
| "review_each f (x # xs) r = bind_result (f x r) (review_each f xs)"

definition review_proposal :: "capability_set \<Rightarrow> snapshot \<Rightarrow> proposal \<Rightarrow> (run_error, proposal_review) result" where
  "review_proposal caps snap pp =
     bind_result (review_each (review_write caps snap) (pp_writes pp) \<lparr>rw_changes = [], rw_diffs = [], rw_changed_lines = 0\<rparr>)
       (review_each (review_delete caps snap) (pp_deletes pp))"

section \<open>runExecutor\<close>

record run_options =
  ro_executor_class :: string
  ro_commitment :: executor_commitment
  ro_target :: execution_target
  ro_persona :: persona_id
  ro_repo :: repo_ref
  ro_trust :: "trust_record option"
  ro_edge_verifiable :: "bool option"
  ro_intent_for_reviewer :: "string option"
  ro_now :: rfc3339

fun autonomy_name :: "autonomy_level \<Rightarrow> string" where
  "autonomy_name DraftForReview = ''draft-for-review''"
| "autonomy_name AutoApplyWithWindow = ''auto-apply-with-window''"
| "autonomy_name SilentWithReceipt = ''silent-with-receipt''"

fun cap_name :: "autonomy_cap \<Rightarrow> string" where
  "cap_name CappedByCeiling = ''ceiling''"
| "cap_name CappedByUnverifiableEdge = ''unverifiable-edge''"

definition artifact_body :: "run_options \<Rightarrow> class_name \<Rightarrow> executor_output \<Rightarrow> effective_autonomy \<Rightarrow> wide" where
  "artifact_body opt cls out ea =
     wide_lines
       [xo_body out, [], wide ''---'', [],
        (case ro_intent_for_reviewer opt of
           Some intent \<Rightarrow> wide ''Serves the commitment: '' @ [8220] @ wide intent @ [8221]
         | None \<Rightarrow> wide (''Serves commitment '' @ tick @ xc_commitment_hash (ro_commitment opt) @ tick @ ''.'')),
        wide (''Produced by executor class '' @ tick @ class_name_text cls @ tick @ '' acting under persona '' @ tick @
          take 12 (ro_persona opt)) @ [8230] @ wide (tick @ ''. Automation is never a party (M-13): this artifact '' @
          ''is unsigned and nothing has been applied.''),
        wide (''Autonomy for this (human, class): **'' @ autonomy_name (ea_level ea) @ ''**'') @
          (case ea_capped_by ea of
             None \<Rightarrow> []
           | Some c \<Rightarrow> wide '' '' @ [8212] @ wide ('' capped by '' @ cap_name c @ '' from an earned '' @ autonomy_name (ea_earned ea))) @
          wide ''.'']"

definition artifact_schema :: "draft_pr_artifact \<Rightarrow> bool" where
  "artifact_schema a \<longleftrightarrow> hex64 (dp_commitment_hash a) \<and> hex64 (dp_acting_under a) \<and> dp_repo_path a \<noteq> [] \<and> dp_base_commit a \<noteq> [] \<and>
     dp_base_branch a \<noteq> [] \<and> 1 \<le> length (dp_title a) \<and> length (dp_title a) \<le> 120 \<and>
     list_all (\<lambda>c. fc_path c \<noteq> []) (dp_changes a)"

text \<open>The instant at which an artifact with a window would apply, in whole seconds.\<close>

definition applies_at_of :: "autonomy_level \<Rightarrow> rfc3339 \<Rightarrow> (run_error, int option) result" where
  "applies_at_of l now =
     (if l \<noteq> AutoApplyWithWindow then Inr None
      else case time_clip (ms_of now + auto_apply_window_hours * 3600000) of None \<Rightarrow> Inl InvalidDateThrown | Some t \<Rightarrow> Inr (Some (t - t mod 1000)))"

definition assemble :: "run_options \<Rightarrow> executor_class \<Rightarrow> git_head \<Rightarrow> executor_output \<Rightarrow> proposal_review \<Rightarrow> (run_error, execution_outcome) result" where
  "assemble opt cls head out rv =
     bind_result (case ro_trust opt of
         Some r \<Rightarrow> Inr r
       | None \<Rightarrow> map_sum RunTrust id (empty_trust_record (ro_persona opt) (class_name_text (ec_name cls)) (text_of (ro_now opt)))) (\<lambda>trust.
     bind_result (map_sum RunPath id (ceiling_for (ec_risk_class cls) (map fc_path (rw_changes rv)))) (\<lambda>ceiling.
       let ea = effective_autonomy_of trust ceiling (ro_edge_verifiable opt)
       in bind_result (applies_at_of (ea_level ea) (ro_now opt)) (\<lambda>applies.
         let a = \<lparr>dp_executor_class = ec_name cls, dp_risk_class = ec_risk_class cls,
                  dp_commitment_hash = xc_commitment_hash (ro_commitment opt), dp_acting_under = ro_persona opt,
                  dp_repo_path = rp_path (ro_repo opt), dp_base_commit = gh_commit head,
                  dp_base_branch = (case rp_base_branch (ro_repo opt) of Some b \<Rightarrow> b | None \<Rightarrow> gh_branch head),
                  dp_branch = ''servanda/'' @ class_name_text (ec_name cls) @ ''/'' @ take 12 (xc_commitment_hash (ro_commitment opt)),
                  dp_title = xo_title out, dp_body = artifact_body opt (ec_name cls) out ea,
                  dp_changes = rw_changes rv, dp_diff = concat (rw_diffs rv), dp_capabilities = ec_capabilities cls,
                  dp_autonomy = ea, dp_applies_at = applies, dp_created_at = ro_now opt\<rparr>
         in if artifact_schema a then Inr (Artifact a) else Inl ArtifactMalformed)))"

definition run_executor ::
    "(string \<Rightarrow> json option) \<Rightarrow> fs_entry \<Rightarrow> (sandbox_request \<Rightarrow> (string, sandbox_response) result) \<Rightarrow> run_options \<Rightarrow>
     (run_error, execution_outcome) result" where
  "run_executor json_of fs child opt =
     (case get_executor_class json_of (ro_executor_class opt) of
        None \<Rightarrow> Inl (UnknownExecutorClass (ro_executor_class opt))
      | Some cls \<Rightarrow>
          if kind_of_target (ro_target opt) \<noteq> ec_target_kind cls
          then Inr (Refused (ec_name cls) (WrongTarget (ec_target_kind cls) (kind_of_target (ro_target opt))))
          else
            bind_result (snapshot_repo fs (rp_path (ro_repo opt)) (ec_capabilities cls)) (\<lambda>snap.
            bind_result (read_head fs (rp_path (ro_repo opt))) (\<lambda>head.
            bind_result (map_sum SandboxDied id (child
                \<lparr>rq_executor_class = class_name_text (ec_name cls), rq_commitment = ro_commitment opt, rq_target = ro_target opt,
                 rq_persona = ro_persona opt, rq_now = ro_now opt, rq_snapshot = snap\<rparr>)) (\<lambda>resp.
              if \<not> response_schema resp then Inl ResponseMalformed
              else case resp of
                SandboxFailed n m \<Rightarrow> Inr (Refused (ec_name cls) (ExecutorFailed n m))
              | SandboxOk None _ \<Rightarrow> Inr (NothingToDo (ec_name cls) FoundNothing)
              | SandboxOk (Some out) pp \<Rightarrow>
                  bind_result (review_proposal (ec_capabilities cls) snap pp) (\<lambda>rv.
                    if rw_changes rv = [] then Inr (NothingToDo (ec_name cls) ChangedNothing)
                    else if cap_max_changed_files (ec_capabilities cls) < int (length (rw_changes rv))
                    then Inl (DiffBudget ''changed-files'' (length (rw_changes rv)) (cap_max_changed_files (ec_capabilities cls)))
                    else if cap_max_changed_lines (ec_capabilities cls) < int (rw_changed_lines rv)
                    then Inl (DiffBudget ''changed-lines'' (rw_changed_lines rv) (cap_max_changed_lines (ec_capabilities cls)))
                    else assemble opt cls head out rv)))))"

end
