(* ===== verification/ExecLaws.thy ===== *)
theory ExecLaws
  imports Executors
begin

text \<open>
  Laws of one run: what the re-validation by the host lets through, whatever the sandbox answers, and that the
  program which really runs in the sandbox proposes nothing the host would reject.
\<close>

section \<open>Re-validation\<close>

lemma map_Inl_Inr: "map_sum f id r = Inr y \<longleftrightarrow> r = Inr y"
  by (cases r) simp_all

text \<open>A change is within the capability, names what the snapshot holds, and is no empty change of a file that stays.\<close>

definition change_ok :: "capability_set \<Rightarrow> snapshot \<Rightarrow> file_change \<Rightarrow> bool" where
  "change_ok caps snap c \<longleftrightarrow> writable caps (fc_path c) \<and> (fc_kind c = FileAdded \<longleftrightarrow> map_of snap (fc_path c) = None) \<and>
     (fc_kind c = FileDeleted \<or> 0 < fc_additions c + fc_deletions c)"

definition review_ok :: "capability_set \<Rightarrow> snapshot \<Rightarrow> proposal_review \<Rightarrow> bool" where
  "review_ok caps snap r \<longleftrightarrow> list_all (change_ok caps snap) (rw_changes r) \<and>
     rw_changed_lines r = (\<Sum>c\<leftarrow>rw_changes r. fc_additions c + fc_deletions c) \<and> length (rw_diffs r) = length (rw_changes r)"

lemma in_capability_Inr: "in_capability caps p = Inr q \<longleftrightarrow> assert_permitted caps WriteMode p = Inr q"
  by (simp add: in_capability_def map_Inl_Inr)

lemma in_capability_writable: "in_capability caps p = Inr q \<Longrightarrow> writable caps q"
  by (simp add: in_capability_Inr assert_writable)

lemma add_change_ok: "review_ok caps snap r \<Longrightarrow> change_ok caps snap c \<Longrightarrow> review_ok caps snap (add_change c d r)"
  by (simp add: review_ok_def add_change_def)

lemma review_write_ok:
  assumes "review_write caps snap pc r = Inr r'" and "review_ok caps snap r"
  shows "review_ok caps snap r'"
proof -
  obtain p contents where pc: "pc = (p, contents)" by fastforce
  from assms(1) obtain q where q: "in_capability caps p = Inr q" by (auto simp: review_write_def pc bind_result_Inr_iff)
  have "writable caps q" using q by (rule in_capability_writable)
  with assms q show ?thesis
    by (auto simp: review_write_def pc Let_def change_ok_def intro!: add_change_ok split: if_split_asm)
qed

lemma review_delete_ok:
  assumes "review_delete caps snap p r = Inr r'" and "review_ok caps snap r"
  shows "review_ok caps snap r'"
proof -
  from assms(1) obtain q where q: "in_capability caps p = Inr q" by (auto simp: review_delete_def bind_result_Inr_iff)
  have "writable caps q" using q by (rule in_capability_writable)
  with assms q show ?thesis
    by (auto simp: review_delete_def Let_def change_ok_def intro!: add_change_ok split: option.split_asm)
qed

lemma review_each_ok:
  assumes "review_each f xs r = Inr r'" and "review_ok caps snap r"
    and "\<And>x r r'. f x r = Inr r' \<Longrightarrow> review_ok caps snap r \<Longrightarrow> review_ok caps snap r'"
  shows "review_ok caps snap r'"
  using assms(1,2) by (induction xs arbitrary: r) (auto simp: bind_result_Inr_iff dest: assms(3))

lemma review_proposal_ok:
  assumes "review_proposal caps snap pp = Inr r"
  shows "review_ok caps snap r"
proof -
  let ?r0 = "\<lparr>rw_changes = [], rw_diffs = [], rw_changed_lines = 0\<rparr>"
  obtain r1 where r1: "review_each (review_write caps snap) (pp_writes pp) ?r0 = Inr r1"
    "review_each (review_delete caps snap) (pp_deletes pp) r1 = Inr r"
    using assms by (auto simp: review_proposal_def bind_result_Inr_iff)
  have "review_ok caps snap ?r0" by (simp add: review_ok_def)
  then have "review_ok caps snap r1" by (rule review_each_ok [OF r1(1)]) (rule review_write_ok)
  then show ?thesis by (rule review_each_ok [OF r1(2)]) (rule review_delete_ok)
qed

section \<open>What comes out\<close>

lemma get_executor_class_Some: "get_executor_class json_of n = Some c \<Longrightarrow> c \<in> set (registry json_of) \<and> class_name_text (ec_name c) = n"
  by (auto simp: get_executor_class_def find_Some_iff)

lemma assemble_Inr:
  assumes "assemble opt cls head out r = Inr oc"
  obtains trust ceiling a where "oc = Artifact a" and "ceiling_for (ec_risk_class cls) (map fc_path (rw_changes r)) = Inr ceiling"
    and "dp_autonomy a = effective_autonomy_of trust ceiling (ro_edge_verifiable opt)" and "artifact_schema a"
    and "case ro_trust opt of Some t \<Rightarrow> trust = t | None \<Rightarrow> tt_streak trust = 0"
    and "dp_executor_class a = ec_name cls" and "dp_commitment_hash a = xc_commitment_hash (ro_commitment opt)" and "dp_acting_under a = ro_persona opt" and "dp_changes a = rw_changes r"
    and "dp_diff a = concat (rw_diffs r)" and "dp_base_commit a = gh_commit head"
    and "applies_at_of (ea_level (dp_autonomy a)) (ro_now opt) = Inr (dp_applies_at a)"
  using assms
  by (auto simp: assemble_def bind_result_Inr_iff Let_def map_Inl_Inr empty_trust_record_def
      split: if_split_asm option.split_asm)

text \<open>The run up to the artifact, in one rule.\<close>

lemma run_artifact:
  assumes "run_executor json_of fs child opt = Inr (Artifact a)"
  obtains cls snap head out pp r where "cls \<in> set (registry json_of)" and "class_name_text (ec_name cls) = ro_executor_class opt"
    and "kind_of_target (ro_target opt) = ec_target_kind cls"
    and "snapshot_repo fs (rp_path (ro_repo opt)) (ec_capabilities cls) = Inr snap"
    and "read_head fs (rp_path (ro_repo opt)) = Inr head"
    and "child \<lparr>rq_executor_class = class_name_text (ec_name cls), rq_commitment = ro_commitment opt, rq_target = ro_target opt,
           rq_persona = ro_persona opt, rq_now = ro_now opt, rq_snapshot = snap\<rparr> = Inr (SandboxOk (Some out) pp)"
    and "review_proposal (ec_capabilities cls) snap pp = Inr r" and "rw_changes r \<noteq> []"
    and "int (length (rw_changes r)) \<le> cap_max_changed_files (ec_capabilities cls)"
    and "int (rw_changed_lines r) \<le> cap_max_changed_lines (ec_capabilities cls)"
    and "assemble opt cls head out r = Inr (Artifact a)"
proof -
  from assms obtain cls where cls: "get_executor_class json_of (ro_executor_class opt) = Some cls"
    by (auto simp: run_executor_def split: option.split_asm)
  note found = get_executor_class_Some [OF cls]
  let ?repo = "rp_path (ro_repo opt)" and ?caps = "ec_capabilities cls"
  have kind: "kind_of_target (ro_target opt) = ec_target_kind cls"
    using assms by (auto simp: run_executor_def cls split: if_split_asm)
  let ?req = "\<lambda>snap. \<lparr>rq_executor_class = class_name_text (ec_name cls), rq_commitment = ro_commitment opt, rq_target = ro_target opt,
           rq_persona = ro_persona opt, rq_now = ro_now opt, rq_snapshot = snap\<rparr>"
  from assms obtain snap head resp where run: "snapshot_repo fs ?repo ?caps = Inr snap" "read_head fs ?repo = Inr head"
    "child (?req snap) = Inr resp"
    by (auto simp: run_executor_def cls kind bind_result_Inr_iff map_Inl_Inr)
  from assms obtain out pp where resp: "resp = SandboxOk (Some out) pp"
    by (auto simp: run_executor_def cls kind run split: if_split_asm sandbox_response.split_asm option.split_asm)
  from assms obtain r where "review_proposal ?caps snap pp = Inr r" "rw_changes r \<noteq> []"
    "int (length (rw_changes r)) \<le> cap_max_changed_files ?caps" "int (rw_changed_lines r) \<le> cap_max_changed_lines ?caps"
    "assemble opt cls head out r = Inr (Artifact a)"
    by (auto simp: run_executor_def cls kind run resp bind_result_Inr_iff split: if_split_asm)
  with found kind run resp show thesis by (intro that) auto
qed

text \<open>A run is rejected by the re-validation only.\<close>

lemma bind_result_Inl_iff: "bind_result r f = Inl e \<longleftrightarrow> r = Inl e \<or> (\<exists>x. r = Inr x \<and> f x = Inl e)"
  by (cases r) simp_all

lemma map_Inl_Inl: "map_sum f g r = Inl e \<longleftrightarrow> (\<exists>e'. r = Inl e' \<and> e = f e')"
  by (cases r) auto

lemma walk_errors:
  "walk_entry caps p x acc = Inl e \<Longrightarrow> e = TooManyFiles"
  "walk_entries caps p xs acc = Inl e \<Longrightarrow> e = TooManyFiles"
proof (induction caps p x acc and caps p xs acc rule: walk_entry_walk_entries.induct)
  case (2 caps rel nbytes held acc)
  then show ?case by (auto simp: take_file_def split: sum.split_asm if_split_asm)
next
  case (5 caps here name e es acc)
  then show ?case by (auto simp: bind_result_Inl_iff split: if_split_asm)
qed auto

lemma snapshot_errors: "snapshot_repo fs p caps \<noteq> Inl (RunCapability e)"
  by (auto simp: snapshot_repo_def map_Inl_Inl dest: walk_errors split: option.split fs_entry.split)

lemma head_errors: "read_head fs p \<noteq> Inl (RunCapability e)"
proof -
  have reads: "read_text fs q \<noteq> Inl (RunCapability e)" for q by (simp add: read_text_def split: option.split fs_entry.split)
  have dir: "git_dir fs q \<noteq> Inl (RunCapability e)" for q
    by (simp add: git_dir_def Let_def split: option.split fs_entry.split)
  have "resolve_ref fs d r \<noteq> Inl (RunCapability e)" for d r
    using reads by (auto simp: resolve_ref_def Let_def bind_result_Inl_iff map_Inl_Inl split: option.split_asm if_split_asm)
  with reads dir show ?thesis by (auto simp: read_head_def bind_result_Inl_iff map_Inl_Inl Let_def split: option.split_asm)
qed

lemma assemble_errors: "assemble opt cls head out r \<noteq> Inl (RunCapability e)"
  by (auto simp: assemble_def bind_result_Inl_iff map_Inl_Inl Let_def applies_at_of_def split: option.split_asm if_split_asm)

lemma run_rejected:
  assumes "run_executor json_of fs child opt = Inl (RunCapability e)" and "get_executor_class json_of (ro_executor_class opt) = Some cls"
  obtains snap out pp where "child \<lparr>rq_executor_class = class_name_text (ec_name cls), rq_commitment = ro_commitment opt, rq_target = ro_target opt,
           rq_persona = ro_persona opt, rq_now = ro_now opt, rq_snapshot = snap\<rparr> = Inr (SandboxOk (Some out) pp)"
    and "\<forall>r. review_proposal (ec_capabilities cls) snap pp \<noteq> Inr r"
proof -
  let ?req = "\<lambda>snap. \<lparr>rq_executor_class = class_name_text (ec_name cls), rq_commitment = ro_commitment opt, rq_target = ro_target opt,
           rq_persona = ro_persona opt, rq_now = ro_now opt, rq_snapshot = snap\<rparr>"
  have kind: "kind_of_target (ro_target opt) = ec_target_kind cls"
    using assms by (auto simp: run_executor_def split: if_split_asm)
  from assms obtain snap where snap: "snapshot_repo fs (rp_path (ro_repo opt)) (ec_capabilities cls) = Inr snap"
    by (auto simp: run_executor_def kind bind_result_Inl_iff snapshot_errors)
  from assms obtain head where head: "read_head fs (rp_path (ro_repo opt)) = Inr head"
    by (auto simp: run_executor_def kind snap bind_result_Inl_iff head_errors)
  from assms obtain resp where resp: "child (?req snap) = Inr resp"
    by (auto simp: run_executor_def kind snap head bind_result_Inl_iff map_Inl_Inl map_Inl_Inr)
  from assms obtain out pp where pp: "resp = SandboxOk (Some out) pp" "response_schema resp"
    by (auto simp: run_executor_def kind snap head resp split: if_split_asm sandbox_response.split_asm option.split_asm)
  have "review_proposal (ec_capabilities cls) snap pp \<noteq> Inr r" for r
    using assms pp by (auto simp: run_executor_def kind snap head resp assemble_errors split: if_split_asm)
  with resp pp(1) show thesis by (intro that) auto
qed

lemma touches_sensitive_iff: "touches_sensitive ps = Inr b \<Longrightarrow> b \<longleftrightarrow> (\<exists>p \<in> set ps. is_sensitive_path p = Inr True)"
  by (induction ps) (auto simp: bind_result_Inr_iff split: if_split_asm)

lemma ceiling_for_bounds:
  assumes "ceiling_for c ps = Inr l"
  shows "autonomy_rank l \<le> autonomy_rank (risk_ceiling c) \<and> ((\<exists>p \<in> set ps. is_sensitive_path p = Inr True) \<longrightarrow> l = DraftForReview)"
proof -
  from assms obtain b where b: "touches_sensitive ps = Inr b"
    "l = (if b then min_level (risk_ceiling c) (risk_ceiling Sensitive) else risk_ceiling c)"
    by (auto simp: ceiling_for_def bind_result_Inr_iff)
  show ?thesis using touches_sensitive_iff [OF b(1)] b(2) by (cases c) (auto simp: min_level_def)
qed

section \<open>The program in the sandbox\<close>

text \<open>An executor keeps the invariant of the workspace.\<close>

definition keeps_world :: "executor \<Rightarrow> bool" where
  "keeps_world run \<longleftrightarrow> (\<forall>t w out w'. run t w = Inr (out, w') \<longrightarrow> workspace_ok w \<longrightarrow>
     workspace_ok w' \<and> wk_capabilities w' = wk_capabilities w)"

text \<open>A step of an executor that writes one file at most, whatever it reads before.\<close>

definition one_write :: "workspace \<Rightarrow> (workspace_error, executor_output option \<times> workspace) result \<Rightarrow> bool" where
  "one_write w m \<longleftrightarrow> (\<forall>out w'. m = Inr (out, w') \<longrightarrow> (out = None \<and> w' = w) \<or> (\<exists>p c. write_file w p c = Inr w'))"

lemma one_write_intros [intro!]:
  "one_write w (nothing_to_do w)" "one_write w (Inl e)"
  "one_write w (bind_result (write_file w p c) (\<lambda>w'. Inr (x, w')))"
  by (auto simp: one_write_def nothing_to_do_def bind_result_Inr_iff)

lemma one_write_splits [intro!]:
  "(\<And>x. r = Inr x \<Longrightarrow> one_write w (f x)) \<Longrightarrow> one_write w (bind_result r f)"
  "(b \<Longrightarrow> one_write w m) \<Longrightarrow> (\<not> b \<Longrightarrow> one_write w n) \<Longrightarrow> one_write w (if b then m else n)"
  "(y = None \<Longrightarrow> one_write w m) \<Longrightarrow> (\<And>z. y = Some z \<Longrightarrow> one_write w (g z)) \<Longrightarrow>
     one_write w (case y of None \<Rightarrow> m | Some z \<Rightarrow> g z)"
  "(\<And>u v. one_write w (h u v)) \<Longrightarrow> one_write w (case p of (u, v) \<Rightarrow> h u v)"
  "one_write w (h (fst p) (snd p)) \<Longrightarrow> one_write w (let (u, v) = p in h u v)"
  by (auto simp: one_write_def bind_result_Inr_iff split: option.split prod.split)

lemma one_write_cases [intro!]:
  "(\<And>x. l = LookedText x \<Longrightarrow> one_write w (g x)) \<Longrightarrow> one_write w n \<Longrightarrow> one_write w (case l of LookedText x \<Rightarrow> g x | _ \<Rightarrow> n)"
  by (cases l; simp)

lemma executors_write_once:
  "one_write w (tests_executor t w)" "one_write w (dead_code_executor t w)" "one_write w (dep_bump_executor json_of t w)"
  subgoal
    unfolding tests_executor_def Let_def by (cases t) (simp_all only: execution_target.case, blast+)
  subgoal
    unfolding dead_code_executor_def Let_def by (cases t) (simp_all only: execution_target.case, blast+)
  subgoal
    unfolding dep_bump_executor_def
    by (cases t) (simp_all only: execution_target.case, blast+)
  done

lemma registry_cases:
  assumes "c \<in> set (registry json_of)"
  obtains (tests) "ec_name c = ClassTests" and "ec_run c = tests_executor" and "cap_write (ec_capabilities c) = [''test/**'']"
    and "ec_risk_class c = Routine"
  | (dead) "ec_name c = ClassDeadCode" and "ec_run c = dead_code_executor" and "cap_write (ec_capabilities c) = [''src/**'']"
    and "ec_risk_class c = Routine"
  | (bump) "ec_name c = ClassDepBump" and "ec_run c = dep_bump_executor json_of" and "cap_write (ec_capabilities c) = [''package.json'']"
    and "ec_risk_class c = SupplyChain"
  using assms by (auto simp: registry_def)

lemma registry_keeps_world: "c \<in> set (registry json_of) \<Longrightarrow> keeps_world (ec_run c)"
  unfolding keeps_world_def
  by (erule registry_cases)
    (metis executors_write_once one_write_def write_file_ok)+

text \<open>Where the classes may write.\<close>

fun class_writes :: "class_name \<Rightarrow> string \<Rightarrow> bool" where
  "class_writes ClassTests p = starts_with ''test/'' p"
| "class_writes ClassDeadCode p = starts_with ''src/'' p"
| "class_writes ClassDepBump p \<longleftrightarrow> p = ''package.json''"

lemma matches_package: "matches_glob p ''package.json'' \<longleftrightarrow> p = ''package.json''"
  using glob_match_literal [of "''package.json''" "[]" p] by (simp add: matches_glob_def)

lemma writable_class:
  assumes "c \<in> set (registry json_of)" and "writable (ec_capabilities c) q"
  shows "class_writes (ec_name c) q"
  using assms(1)
proof (cases rule: registry_cases)
  case tests
  then show ?thesis using assms(2) matches_subtree [of "''test/''" q] by (auto simp: writable_def starts_with_iff)
next
  case dead
  then show ?thesis using assms(2) matches_subtree [of "''src/''" q] by (auto simp: writable_def starts_with_iff)
next
  case bump
  then show ?thesis using assms(2) by (auto simp: writable_def matches_package)
qed

lemma class_writes_no_drive: "class_writes c q \<Longrightarrow> \<not> drive_path q"
  by (cases c) (auto simp: starts_with_iff drive_path_def)

lemma host_accepts:
  assumes "c \<in> set (registry json_of)" and "writable (ec_capabilities c) q"
  shows "in_capability (ec_capabilities c) q = Inr q"
  using writable_permitted [OF assms(2)] class_writes_no_drive [OF writable_class [OF assms]]
  by (simp add: in_capability_Inr)

lemma review_each_total:
  assumes "\<forall>x \<in> set xs. \<forall>r. \<exists>r'. f x r = Inr r'"
  shows "\<exists>r'. review_each f xs r = Inr r'"
  using assms
proof (induction xs arbitrary: r)
  case (Cons x xs)
  obtain r1 where "f x r = Inr r1" using Cons.prems by fastforce
  with Cons show ?case by simp
qed simp

lemma host_reviews:
  assumes "c \<in> set (registry json_of)" and "workspace_ok w" and "wk_capabilities w = ec_capabilities c"
  shows "\<exists>r. review_proposal (ec_capabilities c) snap (proposal_of w) = Inr r"
proof -
  note paths = proposal_paths [OF assms(2), unfolded assms(3)]
  have "\<forall>x \<in> set (pp_writes (proposal_of w)). \<forall>r. \<exists>r'. review_write (ec_capabilities c) snap x r = Inr r'"
    using paths(1) host_accepts [OF assms(1)] by (fastforce simp: review_write_def Let_def)
  then obtain r1 where r1: "review_each (review_write (ec_capabilities c) snap) (pp_writes (proposal_of w))
      \<lparr>rw_changes = [], rw_diffs = [], rw_changed_lines = 0\<rparr> = Inr r1"
    by (meson review_each_total)
  have "\<forall>x \<in> set (pp_deletes (proposal_of w)). \<forall>r. \<exists>r'. review_delete (ec_capabilities c) snap x r = Inr r'"
    using paths(2) host_accepts [OF assms(1)] by (fastforce simp: review_delete_def Let_def split: option.split)
  then obtain r2 where "review_each (review_delete (ec_capabilities c) snap) (pp_deletes (proposal_of w)) r1 = Inr r2"
    by (meson review_each_total)
  with r1 show ?thesis by (simp add: review_proposal_def)
qed

lemma sandbox_main_ok:
  assumes "sandbox_main json_of words q = SandboxOk out pp"
  obtains c w where "get_executor_class json_of (rq_executor_class q) = Some c" and "workspace_ok w"
    and "wk_capabilities w = ec_capabilities c" and "pp = proposal_of w"
proof -
  from assms obtain c where c: "get_executor_class json_of (rq_executor_class q) = Some c"
    by (auto simp: sandbox_main_def Let_def split: if_split_asm option.split_asm prod.split_asm)
  with assms obtain w w' where w: "new_workspace (rq_snapshot q) (ec_capabilities c) = Inr w"
    "ec_run c (rq_target q) w = Inr (out, w')" "pp = proposal_of w'"
    by (auto simp: sandbox_main_def Let_def bind_result_Inr_iff split: if_split_asm sum.split_asm prod.split_asm)
  have "c \<in> set (registry json_of)" using c get_executor_class_Some by blast
  then have "workspace_ok w' \<and> wk_capabilities w' = ec_capabilities c"
    using registry_keeps_world new_workspace_ok [OF w(1)] w(2) unfolding keeps_world_def by metis
  with c w(3) show thesis by (intro that) auto
qed

end
