(* ===== verification/ExecClassLaws.thy ===== *)
theory ExecClassLaws
  imports ExecLaws
begin

text \<open>
  What the classes do to a file: the word a declaration is counted by, line by line, and the step each executor
  takes when it proposes something.
\<close>

section \<open>Words, line by line\<close>

lemma js_space_no_word: "js_space c \<Longrightarrow> \<not> is_word_char c"
proof -
  have all: "list_all (\<lambda>n. \<not> is_word_char (char_of n)) [9, 10, 11, 12, 13, 32, 160 :: nat]" by code_simp
  assume "js_space c"
  then have "of_char c \<in> set [9, 10, 11, 12, 13, 32, 160 :: nat]" by (simp add: js_space_def)
  with all have "\<not> is_word_char (char_of (of_char c :: nat))" unfolding list_all_iff by blast
  then show ?thesis by simp
qed

lemma newline_space: "js_space newline"
  by code_simp

lemma word_at_newline [simp]: "word_at (Some newline) = word_at None"
  using js_space_no_word [OF newline_space] by (simp add: word_at_def)

lemma occurrences_prev: "word_at p = word_at q \<Longrightarrow> occurrences_from symb p s = occurrences_from symb q s"
  by (subst (1 2) occurrences_from.simps) (simp add: word_here_def boundary_def)

lemma occurrences_empty [simp]: "occurrences_from symb p [] = 0"
  by (subst occurrences_from.simps) simp

lemma starts_with_line: "newline \<notin> set symb \<Longrightarrow> starts_with symb (l @ newline # r) \<longleftrightarrow> starts_with symb l"
proof (induction l arbitrary: symb)
  case Nil
  then show ?case by (cases symb) (auto simp: starts_with_def)
next
  case (Cons c l)
  then show ?case by (cases symb) (auto simp: starts_with_def)
qed

lemma word_here_line:
  assumes "newline \<notin> set symb"
  shows "word_here symb p (l @ newline # r) \<longleftrightarrow> word_here symb p l"
proof (cases "starts_with symb l")
  case True
  then have "length symb \<le> length l" by (auto simp: starts_with_iff)
  then have "word_at (hd_opt (drop (length symb) (l @ newline # r))) = word_at (hd_opt (drop (length symb) l))"
    by (cases "drop (length symb) l") (simp_all add: hd_opt_def)
  then show ?thesis by (simp add: word_here_def boundary_def starts_with_line [OF assms])
next
  case False
  then show ?thesis by (simp add: word_here_def starts_with_line [OF assms])
qed

lemma occurrences_line:
  "newline \<notin> set symb \<Longrightarrow> occurrences_from symb p (l @ newline # r) = occurrences_from symb p l + occurrences_from symb None r"
proof (induction symb p l rule: occurrences_from.induct)
  case (1 symb p l)
  show ?case
  proof (cases "symb = []")
    case True
    then show ?thesis by (simp add: occurrences_from.simps)
  next
    case symb: False
    show ?thesis
    proof (cases l)
      case Nil
      have "\<not> word_here symb p (newline # r)"
        using word_here_line [OF "1.prems", of p "[]" r] symb by (simp add: word_here_def starts_with_def)
      with symb Nil show ?thesis
        by (subst occurrences_from.simps) (simp add: occurrences_prev [of "Some newline" None])
    next
      case (Cons c l')
      have "word_here symb p l \<Longrightarrow> length symb \<le> length l" by (auto simp: word_here_def starts_with_iff)
      then have rest: "word_here symb p l \<Longrightarrow> drop (length symb) (c # l' @ newline # r) = drop (length symb) l @ newline # r"
        using drop_append [of "length symb" l "newline # r"] by (simp add: Cons)
      show ?thesis
        using 1 symb Cons rest
        by (subst (1 2) occurrences_from.simps) (simp add: word_here_line [OF "1.prems", of p l r, unfolded Cons append_Cons])
    qed
  qed
qed

lemma word_occurrences_lines:
  assumes "newline \<notin> set symb"
  shows "word_occurrences (join_with [newline] ls) symb = (\<Sum>l\<leftarrow>ls. word_occurrences l symb)"
  by (induction ls rule: induct_list012) (simp_all add: word_occurrences_def occurrences_line [OF assms])

lemma occurrences_pos:
  "word_here symb (if pre = [] then p else Some (last pre)) suf \<Longrightarrow> symb \<noteq> [] \<Longrightarrow> 0 < occurrences_from symb p (pre @ suf)"
proof (induction pre arbitrary: p)
  case Nil
  then have "suf \<noteq> []" by (auto simp: word_here_def starts_with_iff)
  with Nil show ?case by (subst occurrences_from.simps) simp
next
  case (Cons c pre)
  then have "0 < occurrences_from symb (Some c) (pre @ suf)" by (intro Cons.IH) (simp_all split: if_splits)
  with Cons.prems(2) show ?case by (subst occurrences_from.simps) simp
qed

lemma identifier_no_newline:
  assumes "is_identifier symb"
  shows "newline \<notin> set symb"
proof
  assume "newline \<in> set symb"
  moreover have "list_all is_ident_char symb"
    using assms by (cases symb) (auto simp: is_identifier_def is_ident_start_def is_ident_char_def)
  ultimately have "is_ident_char newline" by (simp add: list_all_iff)
  moreover have "\<not> is_ident_char newline" by code_simp
  ultimately show False by simp
qed

lemma word_then_Some:
  assumes "word_then k s = Some r"
  obtains pre c where "s = pre @ c # r" and "js_space c"
proof -
  from assms obtain t where t: "s = k @ t" "(case t of c # r \<Rightarrow> if js_space c then Some (dropWhile js_space r) else None | [] \<Rightarrow> None) = Some r"
    by (auto simp: word_then_def bind_eq_Some_conv strip_prefix_Some)
  then obtain c r0 where s: "s = k @ c # r0" "js_space c" "r = dropWhile js_space r0"
    by (cases t) (auto split: if_split_asm)
  define sp where "sp = c # takeWhile js_space r0"
  have "s = k @ sp @ r" by (simp add: s(1,3) sp_def)
  also have "sp = butlast sp @ [last sp]" by (simp add: sp_def)
  finally have "s = (k @ butlast sp) @ last sp # r" by simp
  moreover have "list_all js_space sp" using s(2) by (auto simp: sp_def list_all_iff dest: set_takeWhileD)
  then have "js_space (last sp)" by (simp add: list_all_iff sp_def)
  ultimately show thesis by (rule that)
qed

lemma declares_symbol:
  assumes "declares symb line"
  obtains pre c r where "line = pre @ c # r" and "js_space c" and "names_symbol symb r"
proof -
  let ?t = "js_trim_start line"
  obtain p0 where p0: "line = p0 @ ?t" by (metis js_trim_start_def takeWhile_dropWhile_id)
  obtain p1 u where u: "?t = p1 @ u" "u = (case word_then ''export'' ?t of None \<Rightarrow> ?t | Some r \<Rightarrow> r)"
  proof (cases "word_then ''export'' ?t")
    case None
    then show thesis by (intro that [of "[]"]) simp_all
  next
    case (Some r)
    then obtain pre c where "?t = pre @ c # r" by (rule word_then_Some)
    with Some show thesis by (intro that [of "pre @ [c]"]) simp_all
  qed
  from assms u(2) obtain k r where r: "word_then k u = Some r" "names_symbol symb r"
    by (auto simp: declares_def Let_def split: option.split_asm)
  from r(1) obtain p2 c where "u = p2 @ c # r" "js_space c" by (rule word_then_Some)
  with p0 u(1) r(2) show thesis by (intro that [of "p0 @ p1 @ p2"]) simp_all
qed

lemma declared_occurs:
  assumes "declares symb line" and "ends_statement line" and "is_identifier symb"
  shows "0 < word_occurrences line symb"
proof -
  from assms(1) obtain pre c r where line: "line = pre @ c # r" "js_space c" "names_symbol symb r" by (rule declares_symbol)
  show ?thesis
  proof (cases "CHR ''$'' \<in> set symb")
    case True
    then have "dropWhile (\<lambda>c. c \<noteq> CHR ''$'') symb \<noteq> []" by (auto simp: dropWhile_eq_Nil_conv)
    with line(3) have "word_at (last_opt r)" by (auto simp: names_symbol_def Let_def)
    then obtain x r' where x: "r = r' @ [x]" "is_word_char x"
      by (cases r rule: rev_cases) (auto simp: word_at_def last_opt_def)
    then have "\<not> js_space x" using js_space_no_word by blast
    with x line(1) have "last (js_trim line) = x \<and> js_trim line \<noteq> []"
      by (simp add: js_trim_def js_trim_start_def dropWhile_append3 flip: append_Cons append_assoc)
    with x(2) assms(2) show ?thesis by (auto simp: ends_statement_def Let_def is_word_char_def is_digit_def)
  next
    case False
    then have plain: "dropWhile (\<lambda>c. c \<noteq> CHR ''$'') symb = []" by (auto simp: dropWhile_eq_Nil_conv)
    with line(3) have r: "starts_with symb r" "boundary (last_opt symb) (hd_opt (drop (length symb) r))"
      by (auto simp: names_symbol_def)
    obtain x symb' where symb: "symb = x # symb'" "is_word_char x"
      using assms(3) False by (cases symb) (auto simp: is_identifier_def is_ident_start_def)
    have "word_here symb (Some c) r"
      using r symb js_space_no_word [OF line(2)] by (simp add: word_here_def boundary_def word_at_def hd_opt_def)
    then show ?thesis
      unfolding word_occurrences_def line(1) using occurrences_pos [of symb "pre @ [c]" None r] symb(1) by simp
  qed
qed

section \<open>dead-code\<close>

definition paths_normal :: "workspace \<Rightarrow> bool" where
  "paths_normal w \<longleftrightarrow> (\<forall>p \<in> fst ` set (wk_files w). workspace_path p) \<and> distinct (map fst (wk_files w))"

lemma load_files_normal:
  "load_files caps snap fs = Inr fs' \<Longrightarrow> (\<forall>p \<in> fst ` set fs. workspace_path p) \<and> distinct (map fst fs) \<Longrightarrow>
     (\<forall>p \<in> fst ` set fs'. workspace_path p) \<and> distinct (map fst fs')"
proof (induction caps snap fs rule: load_files.induct)
  case (2 caps p c rest fs)
  from "2.prems"(1) obtain q where q: "assert_permitted caps ReadMode p = Inr q" "load_files caps rest (map_set q c fs) = Inr fs'"
    by (auto simp: bind_result_Inr_iff in_world_Inr)
  have "workspace_path q" by (rule assert_permitted_Inr(2) [OF q(1)])
  with "2.prems"(2) show ?case
    by (intro "2.IH" [of q]) (simp_all add: q in_world_def fst_set_map_set distinct_map_set)
qed simp

lemma new_workspace_normal: "new_workspace snap caps = Inr w \<Longrightarrow> paths_normal w"
  using load_files_normal [of caps snap "[]"] by (fastforce simp: new_workspace_def map_sum_Inr_iff paths_normal_def)

lemma read_listed:
  assumes "paths_normal w" and "(p, held) \<in> set (wk_files w)" and "read_file w p = Inr held'"
  shows "held' = held"
proof -
  from assms(3) obtain q where q: "assert_permitted (wk_capabilities w) ReadMode p = Inr q" "map_of (wk_files w) q = Some held'"
    by (auto simp: read_file_def bind_result_Inr_iff in_world_Inr split: option.split_asm)
  have norm: "normalize_workspace_path p = Inr q" by (rule assert_permitted_Inr(1) [OF q(1)])
  have "workspace_path p" using assms(1,2) by (force simp: paths_normal_def)
  moreover have "\<not> drive_path p" using norm by (auto simp: normalize_workspace_path_def split: if_split_asm)
  ultimately have "q = p" using norm workspace_path_normal by simp
  then show ?thesis using assms(1,2) q(2) by (simp add: paths_normal_def)
qed

lemma occurrences_elsewhere_zero:
  assumes "occurrences_elsewhere w path symb ps n = Inr 0"
  shows "n = 0 \<and> (\<forall>p \<in> set ps. p \<noteq> path \<longrightarrow> (\<exists>held. read_file w p = Inr held \<and> word_occurrences held symb = 0))"
  using assms
proof (induction w path symb ps n rule: occurrences_elsewhere.induct)
  case (2 w path symb p ps n)
  show ?case
  proof (cases "p = path")
    case True
    with 2 show ?thesis by auto
  next
    case False
    with "2.prems" obtain held where "read_file w p = Inr held"
      "occurrences_elsewhere w path symb ps (n + word_occurrences held symb) = Inr 0" by (auto simp: bind_result_Inr_iff)
    with "2.IH"(2) [OF False, of held] False show ?thesis by auto
  qed
qed simp

lemma comment_start_le: "comment_start ls d \<le> d \<and> (\<forall>i. comment_start ls d \<le> i \<longrightarrow> i < d \<longrightarrow> comment_line (ls ! i))"
  by (induction d) (auto simp: less_Suc_eq)

text \<open>The step of the executor when it proposes something.\<close>

lemma dead_code_executor_Some:
  assumes "dead_code_executor t w = Inr (Some out, w')"
  obtains symb path held d where "t = SymbolTarget symb path" and "read_or_null w path = Inr (Some held)"
    and "occurrences_elsewhere w path symb (sort (map fst (wk_files w))) 0 = Inr 0"
    and "find_index (declares symb) (js_split newline held) = Some d" and "word_occurrences held symb = 1"
    and "ends_statement (js_split newline held ! d)"
    and "write_file w path (join_with [newline] (take (fst (removal (js_split newline held) d)) (js_split newline held) @
           drop (snd (removal (js_split newline held) d)) (js_split newline held))) = Inr w'"
proof -
  from assms obtain symb path where t: "t = SymbolTarget symb path"
    by (cases t) (auto simp: dead_code_executor_def nothing_to_do_def)
  from assms obtain held where held: "read_or_null w path = Inr (Some held)"
    by (auto simp: dead_code_executor_def t nothing_to_do_def bind_result_Inr_iff split: option.split_asm)
  let ?ls = "js_split newline held"
  from assms have elsewhere: "occurrences_elsewhere w path symb (sort (map fst (wk_files w))) 0 = Inr 0"
    by (auto simp: dead_code_executor_def t held nothing_to_do_def bind_result_Inr_iff list_files_def Let_def split: if_split_asm)
  from assms elsewhere obtain d where d: "find_index (declares symb) ?ls = Some d"
    by (cases "find_index (declares symb) ?ls")
      (simp_all add: dead_code_executor_def t held nothing_to_do_def list_files_def Let_def)
  from assms elsewhere d have one: "word_occurrences held symb = 1"
    by (simp add: dead_code_executor_def t held nothing_to_do_def list_files_def Let_def split: if_split_asm)
  from assms elsewhere d one have ends: "ends_statement (?ls ! d)"
    by (simp add: dead_code_executor_def t held nothing_to_do_def list_files_def Let_def split: if_split_asm)
  from assms elsewhere d one ends have "write_file w path (join_with [newline] (take (fst (removal ?ls d)) ?ls @ drop (snd (removal ?ls d)) ?ls)) = Inr w'"
    by (auto simp: dead_code_executor_def t held nothing_to_do_def list_files_def Let_def bind_result_Inr_iff case_prod_beta)
  with t held elsewhere d one ends show thesis by (intro that)
qed

lemma removal_bounds:
  assumes "removal ls d = (a, b)" and "d < length ls"
  shows "a \<le> d" and "d < b" and "b \<le> d + 2" and "\<forall>i \<in> {a ..< d}. comment_line (ls ! i)" and "\<forall>i \<in> {d + 1 ..< b}. blank_at ls i"
  using assms comment_start_le [of ls d] by (auto simp: removal_def Let_def split: if_split_asm)

lemma sum_list_remove:
  fixes f :: "'a \<Rightarrow> nat"
  assumes "a \<le> d" and "d < b" and "d < length ls"
  shows "(\<Sum>l\<leftarrow>take a ls @ drop b ls. f l) + f (ls ! d) \<le> (\<Sum>l\<leftarrow>ls. f l)"
proof -
  have "ls = take a ls @ drop a (take d ls) @ [ls ! d] @ drop (Suc d) (take b ls) @ drop b ls"
  proof -
    have "take b ls = take d (take b ls) @ [take b ls ! d] @ drop (Suc d) (take b ls)"
      by (metis append_Cons append_Nil id_take_nth_drop length_take min_less_iff_conj assms(2,3))
    moreover have "take d (take b ls) = take a ls @ drop a (take d ls)"
      using assms by (metis append_take_drop_id min.absorb1 take_take less_imp_le)
    ultimately show ?thesis using assms by (metis append.assoc append_take_drop_id nth_take)
  qed
  then have "(\<Sum>l\<leftarrow>ls. f l) = (\<Sum>l\<leftarrow>take a ls @ drop a (take d ls) @ [ls ! d] @ drop (Suc d) (take b ls) @ drop b ls. f l)" by simp
  then show ?thesis by simp
qed

text \<open>After the removal the symbol occurs in no file that can be read.\<close>

lemma dead_code_gone:
  assumes "paths_normal w" and "dead_code_executor (SymbolTarget symb path) w = Inr (Some out, w')" and "is_identifier symb"
  obtains held d a b where "(path, held) \<in> set (wk_files w)" and "d < length (js_split newline held)"
    and "declares symb (js_split newline held ! d)" and "removal (js_split newline held) d = (a, b)"
    and "wk_files w' = map_set path (join_with [newline] (take a (js_split newline held) @ drop b (js_split newline held))) (wk_files w)"
    and "\<forall>(p, c) \<in> set (wk_files w'). word_occurrences c symb = 0"
proof -
  from assms(2) obtain held d where held: "read_or_null w path = Inr (Some held)"
    and elsewhere: "occurrences_elsewhere w path symb (sort (map fst (wk_files w))) 0 = Inr 0"
    and d: "find_index (declares symb) (js_split newline held) = Some d" and one: "word_occurrences held symb = 1"
    and ends: "ends_statement (js_split newline held ! d)"
    and w': "write_file w path (join_with [newline] (take (fst (removal (js_split newline held) d)) (js_split newline held) @
        drop (snd (removal (js_split newline held) d)) (js_split newline held))) = Inr w'"
    by (rule dead_code_executor_Some) auto
  let ?ls = "js_split newline held"
  obtain a b where ab: "removal ?ls d = (a, b)" by fastforce
  note at_d = find_index_Some [OF d]
  note bounds = removal_bounds [OF ab conjunct1 [OF at_d]]
  from held obtain q where q: "normalize_workspace_path path = Inr q" "map_of (wk_files w) q = Some held"
    by (auto simp: read_or_null_def bind_result_Inr_iff in_world_Inr dest: assert_permitted_Inr(1))
  have gone: "word_occurrences c symb = 0" if "(p, c) \<in> set (wk_files w)" "p \<noteq> path" for p c
    using occurrences_elsewhere_zero [OF elsewhere] that read_listed [OF assms(1)] by (force simp: image_iff)
  have "q = path" using gone [OF map_of_SomeD [OF q(2)]] one by fastforce
  with q w' have files: "wk_files w' = map_set path (join_with [newline] (take a ?ls @ drop b ?ls)) (wk_files w)"
    by (auto simp: write_file_def bind_result_Inr_iff in_world_Inr ab dest: assert_permitted_Inr(1))
  have line: "newline \<notin> set symb" using assms(3) by (rule identifier_no_newline)
  have "(\<Sum>l\<leftarrow>?ls. word_occurrences l symb) = 1"
    using one word_occurrences_lines [OF line, of ?ls] by (simp add: join_js_split)
  moreover have "0 < word_occurrences (?ls ! d) symb" using at_d ends assms(3) by (intro declared_occurs) auto
  ultimately have "(\<Sum>l\<leftarrow>take a ?ls @ drop b ?ls. word_occurrences l symb) = 0"
    using sum_list_remove [OF bounds(1,2) conjunct1 [OF at_d], of "\<lambda>l. word_occurrences l symb"] by linarith
  then have "word_occurrences (join_with [newline] (take a ?ls @ drop b ?ls)) symb = 0"
    by (simp only: word_occurrences_lines [OF line])
  moreover have "distinct (map fst (wk_files w'))" using assms(1) by (simp add: files paths_normal_def distinct_map_set)
  ultimately have "word_occurrences c symb = 0" if "(p, c) \<in> set (wk_files w')" for p c
  proof -
    have c: "map_of (wk_files w') p = Some c" using \<open>distinct (map fst (wk_files w'))\<close> that by simp
    show ?thesis
    proof (cases "p = path")
      case True
      with c \<open>word_occurrences (join_with [newline] (take a ?ls @ drop b ?ls)) symb = 0\<close> show ?thesis
        by (simp add: files lookup_simps)
    next
      case False
      with c have "map_of (wk_files w) p = Some c" by (simp add: files lookup_simps)
      with False show ?thesis by (intro gone [of p]) (auto dest: map_of_SomeD)
    qed
  qed
  with q \<open>q = path\<close> at_d ab files show thesis by (intro that [of held d a b]) (auto dest: map_of_SomeD)
qed

section \<open>dep-bump and tests\<close>

lemma pair_match_Some:
  assumes "pair_match name old s = Some (kept, rest)"
  obtains gap where "s = kept @ quoted old @ rest" and "kept = quoted name @ gap" and "list_all (\<lambda>c. js_space c \<or> c = CHR '':'') gap"
proof -
  from assms obtain t u v where s: "s = quoted name @ t" "dropWhile js_space t = CHR '':'' # u" "v = dropWhile js_space u"
    "v = quoted old @ rest" "kept = take (length s - length v) s"
    by (auto simp: pair_match_def bind_eq_Some_conv Let_def strip_prefix_Some)
  define gap where "gap = takeWhile js_space t @ CHR '':'' # takeWhile js_space u"
  have "t = takeWhile js_space t @ CHR '':'' # u" by (metis s(2) takeWhile_dropWhile_id)
  also have "u = takeWhile js_space u @ v" by (simp add: s(3))
  finally have whole: "s = (quoted name @ gap) @ v" by (simp add: s(1) gap_def)
  then have "kept = quoted name @ gap" by (simp add: s(5))
  moreover have "list_all (\<lambda>c. js_space c \<or> c = CHR '':'') gap" by (auto simp: gap_def list_all_iff dest: set_takeWhileD)
  ultimately show thesis using whole s(4) by (intro that) simp_all
qed

lemma replace_pair_Some:
  assumes "replace_pair name old new s = Some s'"
  shows "\<exists>pre gap post. s = pre @ quoted name @ gap @ quoted old @ post \<and> s' = pre @ quoted name @ gap @ quoted new @ post \<and>
    list_all (\<lambda>c. js_space c \<or> c = CHR '':'') gap"
  using assms
proof (induction name old new s arbitrary: s' rule: replace_pair.induct)
  case (2 name old new c s)
  show ?case
  proof (cases "pair_match name old (c # s)")
    case None
    with 2 obtain s1 pre gap post where "s' = c # s1" "s = pre @ quoted name @ gap @ quoted old @ post"
      "s1 = pre @ quoted name @ gap @ quoted new @ post" "list_all (\<lambda>c. js_space c \<or> c = CHR '':'') gap" by auto
    then show ?thesis by (intro exI [of _ "c # pre"] exI [of _ gap] exI [of _ post]) simp
  next
    case (Some kr)
    then obtain kept rest where kr: "pair_match name old (c # s) = Some (kept, rest)" by (cases kr) simp
    then obtain gap where "c # s = kept @ quoted old @ rest" "kept = quoted name @ gap" "list_all (\<lambda>c. js_space c \<or> c = CHR '':'') gap"
      by (rule pair_match_Some)
    moreover have "s' = kept @ quoted new @ rest" using "2.prems" kr by simp
    ultimately show ?thesis by (metis append_Nil append_assoc)
  qed
qed simp

end
