(* ===== verification/Patches.thy ===== *)
theory Patches
  imports Diffs JsTime
begin

text \<open>
  A unified diff read back: the two file headers, the hunk headers and the marked lines. The lemmas say that the
  text \<open>unified_diff\<close> prints is read back to its hunks, and so that applying the text to the old lines gives the new ones.
\<close>

section \<open>Reading\<close>

text \<open>A number and the mark that follows it.\<close>

definition read_number :: "string \<Rightarrow> string \<Rightarrow> (nat \<times> string) option" where
  "read_number mark s = map_option (Pair (nat (decimal_value (takeWhile is_digit s)))) (strip_prefix mark (dropWhile is_digit s))"

definition read_header :: "string \<Rightarrow> (nat \<times> nat \<times> nat \<times> nat) option" where
  "read_header l =
     Option.bind (strip_prefix ''@@ -'' l) (\<lambda>s.
     Option.bind (read_number '','' s) (\<lambda>(a, t).
     Option.bind (read_number '' +'' t) (\<lambda>(b, u).
     Option.bind (read_number '','' u) (\<lambda>(c, v).
     Option.bind (read_number '' @@'' v) (\<lambda>(d, w). if w = [] then Some (a, b, c, d) else None)))))"

fun read_op :: "string \<Rightarrow> diff_op option" where
  "read_op [] = None"
| "read_op (m # t) = map_option (\<lambda>k. (k, t)) (find (\<lambda>k. kind_mark k = m) [Same, Removed, Added])"

definition hunk_header :: "string \<Rightarrow> bool" where
  "hunk_header l \<longleftrightarrow> starts_with ''@'' l"

function read_hunks :: "string list \<Rightarrow> hunk list option" where
  "read_hunks [] = Some []"
| "read_hunks (l # ls) =
     (case (read_header l, those (map read_op (takeWhile (\<lambda>x. \<not> hunk_header x) ls))) of
        (Some (a, b, c, d), Some ops) \<Rightarrow>
          map_option ((#) \<lparr>hk_old_start = a, hk_old_count = b, hk_new_start = c, hk_new_count = d, hk_body = ops\<rparr>)
            (read_hunks (dropWhile (\<lambda>x. \<not> hunk_header x) ls))
      | _ \<Rightarrow> None)"
  by pat_completeness auto

termination
  by (relation "measure length") (auto simp: length_dropWhile_le le_imp_less_Suc)

text \<open>A patch of one file, applied to its lines; an empty text changes nothing.\<close>

definition apply_patch :: "string \<Rightarrow> string list \<Rightarrow> string list option" where
  "apply_patch patch old =
     (if patch = [] then Some old
      else case js_split newline patch of
        a # b # ls \<Rightarrow>
          if starts_with ''--- '' a \<and> starts_with ''+++ '' b \<and> ls \<noteq> [] \<and> last ls = [] then
            Option.bind (read_hunks (butlast ls)) (\<lambda>hs. apply_hunks hs 1 1 old)
          else None
      | _ \<Rightarrow> None)"

section \<open>What is printed is read back\<close>

lemma read_number_printed:
  assumes "mark \<noteq> []" and "\<not> is_digit (hd mark)"
  shows "read_number mark (decimal_digits n @ mark @ t) = Some (n, t)"
  using read_decimal [of n] digits_then [of "decimal_digits n" "mark @ t"] assms
  by (simp add: read_number_def strip_prefix_Some)

lemma read_header_printed:
  "read_header (''@@ -'' @ decimal_digits a @ '','' @ decimal_digits b @ '' +'' @ decimal_digits c @ '','' @ decimal_digits d @ '' @@'') =
     Some (a, b, c, d)"
proof -
  have marks: "\<not> is_digit (hd '','')" "\<not> is_digit (hd '' +'')" "\<not> is_digit (hd '' @@'')" by code_simp+
  have head: "strip_prefix ''@@ -'' (''@@ -'' @ s) = Some s" for s by (simp add: strip_prefix_Some)
  have tail: "read_number '' @@'' (decimal_digits d @ '' @@'') = Some (d, [])"
    using read_number_printed [OF _ marks(3), of d "[]"] by simp
  show ?thesis
    unfolding read_header_def head bind.bind_lunit
    by (simp only: read_number_printed [OF _ marks(1)] read_number_printed [OF _ marks(2)] tail
        list.distinct not_False_eq_True bind.bind_lunit prod.case simp_thms if_True)
qed

lemma read_op_printed: "read_op (kind_mark k # t) = Some (k, t)"
  by (cases k) simp_all

lemma body_printed:
  "list_all (\<lambda>l. \<not> hunk_header l) (map (\<lambda>(k, t). kind_mark k # t) ops)"
  "those (map read_op (map (\<lambda>(k, t). kind_mark k # t) ops)) = Some ops"
proof -
  have "\<not> hunk_header (kind_mark k # t)" for k t by (cases k) (simp_all add: hunk_header_def starts_with_def)
  then show "list_all (\<lambda>l. \<not> hunk_header l) (map (\<lambda>(k, t). kind_mark k # t) ops)" by (auto simp: list_all_iff)
  show "those (map read_op (map (\<lambda>(k, t). kind_mark k # t) ops)) = Some ops"
    by (induction ops) (simp_all add: case_prod_beta read_op_printed del: read_op.simps)
qed

lemma takeWhile_then: "list_all P xs \<Longrightarrow> ys = [] \<or> \<not> P (hd ys) \<Longrightarrow> takeWhile P (xs @ ys) = xs \<and> dropWhile P (xs @ ys) = ys"
  by (induction xs) (cases ys; auto)+

lemma hunk_lines_Cons:
  obtains l where "hunk_lines h = l # map (\<lambda>(k, t). kind_mark k # t) (hk_body h)" and "hunk_header l"
    and "read_header l = Some (hk_old_start h, hk_old_count h, hk_new_start h, hk_new_count h)"
  by (rule that, simp only: hunk_lines_def, simp only: hunk_header_def, simp only: starts_with_def, simp, rule read_header_printed)

lemma read_hunks_printed: "read_hunks (concat (map hunk_lines hs)) = Some hs"
proof (induction hs)
  case Nil
  then show ?case by simp
next
  case (Cons h hs)
  let ?body = "map (\<lambda>(k, t). kind_mark k # t) (hk_body h)" and ?rest = "concat (map hunk_lines hs)"
  obtain l where l: "hunk_lines h = l # ?body" "read_header l = Some (hk_old_start h, hk_old_count h, hk_new_start h, hk_new_count h)"
    by (rule hunk_lines_Cons)
  have "?rest = [] \<or> hunk_header (hd ?rest)"
  proof (cases hs)
    case (Cons h' hs')
    obtain l' where "hunk_lines h' = l' # map (\<lambda>(k, t). kind_mark k # t) (hk_body h')" "hunk_header l'" by (rule hunk_lines_Cons)
    with Cons show ?thesis by simp
  qed simp
  then have "takeWhile (\<lambda>x. \<not> hunk_header x) (?body @ ?rest) = ?body \<and> dropWhile (\<lambda>x. \<not> hunk_header x) (?body @ ?rest) = ?rest"
    by (intro takeWhile_then body_printed(1)) auto
  then have "read_hunks (l # ?body @ ?rest) = map_option ((#) h) (read_hunks ?rest)"
    by (simp only: read_hunks.simps l(2) body_printed(2) prod.case option.case) (cases h, simp)
  with Cons.IH l(1) show ?case by simp
qed

section \<open>The round trip\<close>

lemma split_lines_pieces: "l \<in> set (split_lines t) \<Longrightarrow> newline \<notin> set l"
  by (auto simp: split_lines_def Let_def dest: js_split_pieces in_set_butlastD split: if_split_asm)

lemma file_lines_pieces: "l \<in> set (file_lines f) \<Longrightarrow> newline \<notin> set l"
  by (cases f) (auto simp: file_lines_def dest: split_lines_pieces)

lemma lines_of_script:
  assumes "op \<in> set ops"
  shows "snd op \<in> set (old_lines ops) \<union> set (new_lines ops)"
proof -
  have "op \<in> {x \<in> set ops. fst x \<noteq> Added} \<or> op \<in> {x \<in> set ops. fst x \<noteq> Removed}"
    using assms by (cases "fst op") simp_all
  then show ?thesis
    unfolding old_lines_def new_lines_def set_map set_filter by (elim disjE) (erule UnI1 [OF imageI], erule UnI2 [OF imageI])
qed

lemma marked_lines:
  "l \<in> set (concat (map hunk_lines hs)) \<Longrightarrow> newline \<notin> set l \<or> (\<exists>h \<in> set hs. \<exists>op \<in> set (hk_body h). newline \<in> set (snd op))"
proof -
  have digits: "newline \<notin> set (decimal_digits n)" for n
  proof -
    have "\<not> is_digit newline" by code_simp
    then show ?thesis using read_decimal [of n] by (auto simp: list_all_iff)
  qed
  have mark: "kind_mark k \<noteq> newline" for k
  proof -
    have "list_all (\<lambda>k. kind_mark k \<noteq> newline) [Same, Removed, Added]" by code_simp
    then show ?thesis by (cases k) simp_all
  qed
  have plain: "newline \<notin> set ''@@ -, +''" by code_simp
  assume "l \<in> set (concat (map hunk_lines hs))"
  then obtain h where h: "h \<in> set hs" "l \<in> set (hunk_lines h)" by auto
  show ?thesis
  proof (cases "l = hd (hunk_lines h)")
    case True
    then have "set l \<subseteq> set ''@@ -, +'' \<union> set (decimal_digits (hk_old_start h)) \<union> set (decimal_digits (hk_old_count h)) \<union>
        set (decimal_digits (hk_new_start h)) \<union> set (decimal_digits (hk_new_count h))"
      by (simp only: hunk_lines_def list.sel set_append) auto
    with digits plain show ?thesis by blast
  next
    case False
    then have "l \<in> set (tl (hunk_lines h))" using h(2) by (cases "hunk_lines h") simp_all
    then obtain k t where "(k, t) \<in> set (hk_body h)" "l = kind_mark k # t" by (auto simp: hunk_lines_def)
    with mark [of k] h(1) show ?thesis by force
  qed
qed

lemma hunks_from_lines: "h \<in> set (hunks_from fs u n) \<Longrightarrow> set (hk_body h) \<subseteq> snd ` set fs"
proof (induction fs u n rule: hunks_from.induct)
  case (3 op rest old new)
  let ?body = "op # map snd (takeWhile fst rest)"
  have part: "set (takeWhile fst rest) \<subseteq> set rest" "set (dropWhile fst rest) \<subseteq> set rest"
    by (auto dest: set_takeWhileD set_dropWhileD)
  have "hk_body h = ?body \<or> h \<in> set (hunks_from (dropWhile fst rest) (old + old_size ?body) (new + new_size ?body))"
    using "3.prems" by (auto simp: Let_def)
  then show ?case
  proof
    assume "hk_body h = ?body"
    then show ?thesis using part(1) by auto
  next
    assume "h \<in> set (hunks_from (dropWhile fst rest) (old + old_size ?body) (new + new_size ?body))"
    then have "set (hk_body h) \<subseteq> snd ` set (dropWhile fst rest)" by (intro "3.IH") simp_all
    with part(2) show ?thesis by auto
  qed
qed auto

lemma diff_hunks_lines:
  assumes "h \<in> set (diff_hunks ops)" and "op \<in> set (hk_body h)"
  shows "op \<in> set ops"
  using hunks_from_lines [of h "zip (keep_flags ops) ops" 1 1] assms by (fastforce simp: diff_hunks_def dest: set_zip_rightD)

lemma split_patch:
  assumes "\<forall>l \<in> set ls. newline \<notin> set l" and "ls \<noteq> []"
  shows "js_split newline (join_with [newline] ls @ [newline]) = ls @ [[]]"
proof -
  have "join_with [newline] ls @ [newline] = join_with [newline] (ls @ [[]])"
    using assms(2) by (induction ls rule: induct_list012) simp_all
  then show ?thesis using js_split_join [of "ls @ [[]]" newline] assms(1) by simp
qed

theorem patch_applies:
  assumes "newline \<notin> set path"
  shows "apply_patch (dr_text (unified_diff path prior later)) (file_lines prior) = Some (file_lines later)"
proof -
  define ops where "ops = lcs_ops (file_lines prior) (file_lines later)"
  have old: "old_lines ops = file_lines prior" and new: "new_lines ops = file_lines later"
    by (simp_all add: ops_def lcs_ops_lines)
  show ?thesis
  proof (cases "additions_in ops = 0 \<and> deletions_in ops = 0")
    case True
    then have "old_lines ops = new_lines ops"
    proof -
      from True have "fst op = Same" if "op \<in> set ops" for op
        using that by (cases "fst op") (auto simp: additions_in_def deletions_in_def filter_empty_conv)
      then show ?thesis by (simp add: old_lines_def new_lines_def filter_True)
    qed
    then have same: "file_lines prior = file_lines later" by (simp only: old new)
    have "unified_diff path prior later = \<lparr>dr_text = [], dr_additions = 0, dr_deletions = 0\<rparr>"
      by (simp only: unified_diff_def Let_def ops_def [symmetric] True simp_thms if_True)
    then show ?thesis by (simp add: apply_patch_def same)
  next
    case False
    define a b where "a = ''--- '' @ (if prior = None then ''/dev/null'' else ''a/'' @ path)"
      and "b = ''+++ '' @ (if later = None then ''/dev/null'' else ''b/'' @ path)"
    define ls where "ls = [a, b] @ concat (map hunk_lines (diff_hunks ops))"
    have patch: "dr_text (unified_diff path prior later) = join_with [newline] ls @ [newline]"
      by (simp only: unified_diff_def Let_def ops_def [symmetric] False if_False diff_result.select_convs a_def b_def ls_def)
    have plain: "newline \<notin> set ''--- a/dev/null''" "newline \<notin> set ''+++ b/dev/null''" by code_simp+
    have "newline \<notin> set a" "newline \<notin> set b" using assms plain by (auto simp: a_def b_def)
    moreover have "newline \<notin> set l" if "l \<in> set (concat (map hunk_lines (diff_hunks ops)))" for l
    proof -
      have "newline \<notin> set (snd op)" if "op \<in> set ops" for op
        using lines_of_script [OF that] file_lines_pieces unfolding old new by blast
      then show ?thesis using marked_lines [OF that] diff_hunks_lines by blast
    qed
    ultimately have "js_split newline (join_with [newline] ls @ [newline]) = ls @ [[]]"
      by (intro split_patch) (auto simp: ls_def)
    moreover have "starts_with ''--- '' a" "starts_with ''+++ '' b" by (simp_all add: a_def b_def starts_with_def)
    moreover have "join_with [newline] ls @ [newline] \<noteq> []" by simp
    ultimately show ?thesis
      using diff_applies [of ops]
      by (simp add: apply_patch_def patch ls_def butlast_append read_hunks_printed old new)
  qed
qed

end
