(* ===== verification/ExecSamples.thy ===== *)
theory ExecSamples
  imports ExecClassLaws Patches Samples
begin

text \<open>A repository with one unused declaration, and the run that proposes to remove it.\<close>

definition text_lines :: "string list \<Rightarrow> string" where
  "text_lines ls = concat (map (\<lambda>l. l @ [newline]) ls)"

definition flags_text :: string where
  "flags_text = text_lines [''// old'', ''export const dead = 1;'', ''export const live = 2;'']"

definition sample_root :: fs_entry where
  "sample_root = FsDir [(''repo'', FsDir
     [(''.git'', FsDir [(''HEAD'', FsFile 21 (''ref: refs/heads/main'' @ [newline])),
        (''refs'', FsDir [(''heads'', FsDir [(''main'', FsFile 7 (''abc123'' @ [newline]))])])]),
      (''src'', FsDir [(''flags.ts'', FsFile 60 flags_text), (''use.ts'', FsFile 20 (text_lines [''console.log(live);'']))])])]"

definition sample_hash :: string where
  "sample_hash = replicate 64 CHR ''a''"

definition sample_options :: run_options where
  "sample_options = \<lparr>ro_executor_class = ''dead-code'',
     ro_commitment = \<lparr>xc_owner = sample_hash, xc_owed_to = None, xc_due = None, xc_conditions = [],
       xc_created_at = jan 1, xc_source = SrcExplicit, xc_confidence = 1, xc_commitment_hash = sample_hash\<rparr>,
     ro_target = SymbolTarget ''dead'' ''src/flags.ts'', ro_persona = sample_hash,
     ro_repo = \<lparr>rp_path = ''/repo'', rp_base_branch = None\<rparr>, ro_trust = None, ro_edge_verifiable = None,
     ro_intent_for_reviewer = None, ro_now = jan 1\<rparr>"

definition no_json :: "string \<Rightarrow> json option" where "no_json s = None"
definition no_words :: "sandbox_failure \<Rightarrow> string \<times> string" where "no_words f = ([], [])"

abbreviation sample_child :: "sandbox_request \<Rightarrow> (string, sandbox_response) result" where
  "sample_child \<equiv> (\<lambda>q. Inr (sandbox_main no_json no_words q))"

lemma sample_run:
  "case run_executor no_json sample_root sample_child sample_options of
     Inr (Artifact a) \<Rightarrow> map fc_path (dp_changes a) = [''src/flags.ts'']
   | _ \<Rightarrow> False"
  by code_simp

lemma sample_removal:
  "case bind_result (new_workspace [(''src/flags.ts'', flags_text), (''src/use.ts'', text_lines [''console.log(live);''])]
      \<lparr>cap_read = [''src/**''], cap_write = [''src/**''], cap_max_changed_lines = 40, cap_max_changed_files = 2\<rparr>)
      (dead_code_executor (SymbolTarget ''dead'' ''src/flags.ts'')) of
     Inr (Some out, w) \<Rightarrow> wk_writes w = [(''src/flags.ts'', text_lines [''export const live = 2;''])]
   | _ \<Rightarrow> False"
  by code_simp

end
