(* ===== verification/ExecClaims.thy ===== *)
theory ExecClaims
  imports ExecSamples
begin

text \<open>Properties of the executors: paths, diffs, the trust gradient, the run and what comes out of it.\<close>

section \<open>Paths and diffs\<close>

text \<open>
  What a file system makes of a path from a directory, one segment after the other: a leading slash starts at
  the root, an empty or current segment stays, a parent segment goes up.
\<close>

fun walk_segments :: "string list \<Rightarrow> string list \<Rightarrow> string list" where
  "walk_segments dir [] = dir"
| "walk_segments dir (s # ss) =
     walk_segments (if s = [] \<or> s = ''.'' then dir else if s = ''..'' then butlast dir else dir @ [s]) ss"

definition resolved_from :: "string list \<Rightarrow> string \<Rightarrow> string list" where
  "resolved_from dir p = walk_segments (if starts_with ''/'' p then [] else dir) (js_split CHR ''/'' p)"

lemma walk_segments_names: "''..'' \<notin> set ss \<Longrightarrow> walk_segments dir ss = dir @ filter (\<lambda>s. s \<noteq> [] \<and> s \<noteq> ''.'') ss"
  by (induction dir ss rule: walk_segments.induct) auto

lemma keep_segments_names: "''..'' \<notin> set ss \<Longrightarrow> keep_segments ss = Inr (filter (\<lambda>s. s \<noteq> [] \<and> s \<noteq> ''.'') ss)"
  by (induction ss) auto

text \<open>
  C28: which paths are accepted, and as what. A path is accepted as \<open>q\<close> exactly when it is relative (no
  leading slash, no drive letter in front), holds no backslash, no zero and no parent segment, \<open>q\<close> is a list of
  names (not empty, with no empty, current or parent segment), and a file system that reads the path as given
  ends, from whatever directory it starts, at the names of \<open>q\<close> below that directory. So an accepted path stays
  below the workspace and is used as what it says. (The drive letter is looked for in front of the text given:
  a leading dot segment hides it, see \<open>dot_hides_a_drive\<close>.)
\<close>

theorem accepted_path_stays_below:
  "normalize_workspace_path p = Inr q \<longleftrightarrow>
     \<not> starts_with ''/'' p \<and> \<not> drive_path p \<and> CHR 92 \<notin> set p \<and> CHR 0x00 \<notin> set p \<and> ''..'' \<notin> set (js_split CHR ''/'' p) \<and>
     workspace_path q \<and> (\<forall>dir. resolved_from dir p = dir @ js_split CHR ''/'' q)"
proof
  assume q: "normalize_workspace_path p = Inr q"
  then have p: "\<not> starts_with ''/'' p" "\<not> drive_path p" "CHR 92 \<notin> set p" "CHR 0x00 \<notin> set p" "''..'' \<notin> set (js_split CHR ''/'' p)"
    by (auto simp: normalize_workspace_path_def bind_result_Inr_iff split: if_split_asm dest: keep_segments_Inr)
  let ?names = "filter (\<lambda>s. s \<noteq> [] \<and> s \<noteq> ''.'') (js_split CHR ''/'' p)"
  have "q = join_with ''/'' ?names \<and> ?names \<noteq> []"
    using q p unfolding normalize_workspace_path_def keep_segments_names [OF p(5)] bind_result_simps
    by (simp split: if_split_asm)
  then have joined: "q = join_with ''/'' ?names" "?names \<noteq> []" by (rule conjunct1, rule conjunct2)
  have "\<forall>s \<in> set ?names. CHR ''/'' \<notin> set s" by (auto dest: js_split_pieces)
  from js_split_join [OF joined(2) this] joined(1) have "js_split CHR ''/'' q = ?names" by (simp only:)
  with p normalized_path [OF q] show "\<not> starts_with ''/'' p \<and> \<not> drive_path p \<and> CHR 92 \<notin> set p \<and> CHR 0x00 \<notin> set p \<and>
      ''..'' \<notin> set (js_split CHR ''/'' p) \<and> workspace_path q \<and> (\<forall>dir. resolved_from dir p = dir @ js_split CHR ''/'' q)"
    by (simp add: resolved_from_def walk_segments_names)
next
  assume r: "\<not> starts_with ''/'' p \<and> \<not> drive_path p \<and> CHR 92 \<notin> set p \<and> CHR 0x00 \<notin> set p \<and>
      ''..'' \<notin> set (js_split CHR ''/'' p) \<and> workspace_path q \<and> (\<forall>dir. resolved_from dir p = dir @ js_split CHR ''/'' q)"
  then have "[] @ js_split CHR ''/'' q = resolved_from [] p" by metis
  with r have "js_split CHR ''/'' q = filter (\<lambda>s. s \<noteq> [] \<and> s \<noteq> ''.'') (js_split CHR ''/'' p)"
    by (simp add: resolved_from_def walk_segments_names)
  then have kept: "keep_segments (js_split CHR ''/'' p) = Inr (js_split CHR ''/'' q)" using r by (simp add: keep_segments_names)
  have names: "js_split CHR ''/'' q \<noteq> []" by (rule js_split_not_Nil)
  have "p \<noteq> []"
  proof
    assume "p = []"
    with kept names show False by (metis js_split.simps(1) keep_segments.simps(1,2) sum.inject(2))
  qed
  with names show "normalize_workspace_path p = Inr q"
    using r kept join_js_split [of "CHR ''/''" q] by (simp add: normalize_workspace_path_def)
qed

lemma normalizes_a_path: "normalize_workspace_path ''./src//a.ts'' = Inr ''src/a.ts''"
  by code_simp

text \<open>
  The counts of a diff are those of the longest common subsequence, the recursion without a table: no edit script
  between the two files has fewer changed lines.
\<close>

theorem diff_counts_are_minimal:
  "dr_additions (unified_diff path prior later) = length (file_lines later) - lcs_length (file_lines prior) (file_lines later) \<and>
   dr_deletions (unified_diff path prior later) = length (file_lines prior) - lcs_length (file_lines prior) (file_lines later) \<and>
   (old_lines ops = file_lines prior \<longrightarrow> new_lines ops = file_lines later \<longrightarrow>
      dr_additions (unified_diff path prior later) \<le> additions_in ops \<and> dr_deletions (unified_diff path prior later) \<le> deletions_in ops)"
proof -
  let ?d = "unified_diff path prior later" and ?script = "lcs_ops (file_lines prior) (file_lines later)"
  let ?n = "lcs_length (file_lines prior) (file_lines later)"
  have d: "dr_additions ?d = additions_in ?script" "dr_deletions ?d = deletions_in ?script"
    by (auto simp: unified_diff_def Let_def)
  have counts: "dr_additions ?d = length (file_lines later) - ?n" "dr_deletions ?d = length (file_lines prior) - ?n"
    using script_counts [of ?script] by (simp_all add: d lcs_ops_lines lcs_ops_kept)
  have "length (kept_lines ops) \<le> ?n" if "old_lines ops = file_lines prior" "new_lines ops = file_lines later"
    using kept_subseq [of ops] that by (intro subseq_lcs_length) simp_all
  with script_counts [of ops] show ?thesis unfolding counts by fastforce
qed

theorem diff_counts_are_minimal_witness:
  "dr_additions (unified_diff ''a'' (Some ''x'') (Some ''y'')) \<le> additions_in [(Removed, ''x''), (Added, ''y'')]"
proof -
  have "file_lines (Some ''x'') = [''x'']" "file_lines (Some ''y'') = [''y'']" by code_simp+
  with diff_counts_are_minimal [of "''a''" "Some ''x''" "Some ''y''" "[(Removed, ''x''), (Added, ''y'')]"] show ?thesis by simp
qed

text \<open>
  C29: The text of a diff, read back as a patch and applied to the lines of the old file, gives the lines of the new one,
  whatever the two files hold; the path has no line end.
\<close>

theorem diff_text_gives_the_new_file:
  assumes "newline \<notin> set path"
  shows "apply_patch (dr_text (unified_diff path prior later)) (file_lines prior) = Some (file_lines later)"
  using assms by (rule patch_applies)

theorem diff_text_gives_the_new_file_witness:
  "apply_patch (dr_text (unified_diff ''a'' (Some ''x'') (Some ''y''))) [''x''] = Some [''y'']"
proof -
  have "file_lines (Some ''x'') = [''x'']" "file_lines (Some ''y'') = [''y'']" "newline \<notin> set ''a''" by code_simp+
  with diff_text_gives_the_new_file [of "''a''" "Some ''x''" "Some ''y''"] show ?thesis by simp
qed

section \<open>Trust\<close>

text \<open>
  C30: whatever reviews are recorded from an empty store, in any order and for any personas and classes of work, the
  record of a pair is the count of its own reviews: its approvals, edited approvals and corrections are as many
  as there were of each, its streak is the number of unedited approvals since the last correction, and the
  autonomy it has earned follows from the streak alone (from 3 the window, from 6 silence). Reviews of other
  pairs change nothing.
\<close>

theorem trust_counts_its_own_reviews:
  assumes "ts_files st = []" and "record_reviews st rs = Inr st'"
  shows "case map_of (ts_files st') (p, w) of
      None \<Rightarrow> reviews_of p w rs = []
    | Some r \<Rightarrow> tt_persona r = p \<and> tt_work_class r = w \<and> tt_streak r = unedited_run (reviews_of p w rs) \<and>
        tt_approvals r = count_list (reviews_of p w rs) Approved \<and>
        tt_edited_approvals r = count_list (reviews_of p w rs) ApprovedWithEdits \<and>
        tt_corrections r = count_list (reviews_of p w rs) Corrected \<and>
        (level_from_history r = DraftForReview \<longleftrightarrow> unedited_run (reviews_of p w rs) < 3) \<and>
        (level_from_history r = AutoApplyWithWindow \<longleftrightarrow> unedited_run (reviews_of p w rs) \<in> {3..5}) \<and>
        (level_from_history r = SilentWithReceipt \<longleftrightarrow> 6 \<le> unedited_run (reviews_of p w rs))"
proof -
  have "holds_reviews st []" using assms(1) by (simp add: holds_reviews_def reviews_of_def)
  from record_reviews_holds [OF this assms(2)] have "holds_reviews st' rs" by simp
  then have "case map_of (ts_files st') (p, w) of None \<Rightarrow> reviews_of p w rs = []
      | Some r \<Rightarrow> tt_persona r = p \<and> tt_work_class r = w \<and> history_of r (reviews_of p w rs)"
    unfolding holds_reviews_def by blast
  then show ?thesis by (auto simp: history_of_def level_from_history_def split: option.split)
qed

definition sample_reviews :: "review list" where
  "sample_reviews = map (\<lambda>oc. (sample_hash, ''tests'', oc, ''now'')) [Corrected, Approved, ApprovedWithEdits, Approved, Approved] @
     [(sample_hash, ''dead-code'', Corrected, ''now'')]"

theorem trust_counts_its_own_reviews_witness:
  "\<exists>st'. record_reviews \<lparr>ts_personas = [sample_hash], ts_files = []\<rparr> sample_reviews = Inr st' \<and>
     (\<exists>r. map_of (ts_files st') (sample_hash, ''tests'') = Some r \<and> tt_streak r = 3)"
proof -
  let ?st = "\<lparr>ts_personas = [sample_hash], ts_files = []\<rparr>"
  have "case record_reviews ?st sample_reviews of Inr _ \<Rightarrow> True | Inl _ \<Rightarrow> False" by code_simp
  then obtain st' where st': "record_reviews ?st sample_reviews = Inr st'" by (auto split: sum.split_asm)
  have run: "unedited_run (reviews_of sample_hash ''tests'' sample_reviews) = 3" "reviews_of sample_hash ''tests'' sample_reviews \<noteq> []"
    by code_simp+
  from trust_counts_its_own_reviews [OF _ st', of sample_hash "''tests''"] run st' show ?thesis
    by (auto split: option.split_asm)
qed

section \<open>Runs\<close>

text \<open>
  C25: Whatever the process in the sandbox answers, an artifact is a draft by its own class, for the persona and the
  commitment that were asked for: its changes lie where the class may write, keep the budgets of the class, name
  files as the snapshot has them, and their level is never above the ceiling of the class, of a
  sensitive path, of an edge that is not verifiable, or of a persona without history.
\<close>

theorem artifact_stays_in_its_world:
  assumes "run_executor json_of fs child opt = Inr (Artifact a)"
  shows "dp_acting_under a = ro_persona opt \<and> dp_commitment_hash a = xc_commitment_hash (ro_commitment opt) \<and>
    (\<forall>c \<in> set (dp_changes a). workspace_path (fc_path c) \<and> class_writes (dp_executor_class a) (fc_path c)) \<and>
    (\<exists>cls \<in> set (registry json_of). ec_name cls = dp_executor_class a \<and> class_name_text (ec_name cls) = ro_executor_class opt \<and>
       dp_changes a \<noteq> [] \<and> int (length (dp_changes a)) \<le> cap_max_changed_files (ec_capabilities cls) \<and>
       int (\<Sum>c\<leftarrow>dp_changes a. fc_additions c + fc_deletions c) \<le> cap_max_changed_lines (ec_capabilities cls) \<and>
       autonomy_rank (ea_level (dp_autonomy a)) \<le> autonomy_rank (risk_ceiling (ec_risk_class cls))) \<and>
    (ro_edge_verifiable opt \<noteq> Some True \<or> ro_trust opt = None \<or> (\<exists>c \<in> set (dp_changes a). is_sensitive_path (fc_path c) = Inr True) \<longrightarrow>
       ea_level (dp_autonomy a) = DraftForReview) \<and>
    (dp_applies_at a \<noteq> None \<longleftrightarrow> ea_level (dp_autonomy a) = AutoApplyWithWindow)"
proof -
  from assms obtain cls snap head out pp r where cls: "cls \<in> set (registry json_of)" "class_name_text (ec_name cls) = ro_executor_class opt"
    and r: "review_proposal (ec_capabilities cls) snap pp = Inr r" "rw_changes r \<noteq> []"
      "int (length (rw_changes r)) \<le> cap_max_changed_files (ec_capabilities cls)"
      "int (rw_changed_lines r) \<le> cap_max_changed_lines (ec_capabilities cls)"
    and a: "assemble opt cls head out r = Inr (Artifact a)"
    by (rule run_artifact)
  from a obtain trust ceiling where at: "ceiling_for (ec_risk_class cls) (map fc_path (rw_changes r)) = Inr ceiling"
    "dp_autonomy a = effective_autonomy_of trust ceiling (ro_edge_verifiable opt)"
    "case ro_trust opt of Some t \<Rightarrow> trust = t | None \<Rightarrow> tt_streak trust = 0"
    "dp_executor_class a = ec_name cls" "dp_acting_under a = ro_persona opt"
    "dp_commitment_hash a = xc_commitment_hash (ro_commitment opt)" "dp_changes a = rw_changes r"
    "applies_at_of (ea_level (dp_autonomy a)) (ro_now opt) = Inr (dp_applies_at a)"
    by (rule assemble_Inr) auto
  note ok = review_proposal_ok [OF r(1), unfolded review_ok_def list_all_iff change_ok_def]
  have world: "\<forall>c \<in> set (rw_changes r). workspace_path (fc_path c) \<and> class_writes (ec_name cls) (fc_path c)"
    using ok writable_class [OF cls(1)] by (auto simp: writable_def)
  note cap = ceiling_for_bounds [OF at(1)] and eff = effective_autonomy_bounds [of trust ceiling "ro_edge_verifiable opt", folded at(2)]
  have lines: "int (\<Sum>c\<leftarrow>rw_changes r. fc_additions c + fc_deletions c) \<le> cap_max_changed_lines (ec_capabilities cls)"
    using ok r(4) by simp
  have level: "autonomy_rank (ea_level (dp_autonomy a)) \<le> autonomy_rank (risk_ceiling (ec_risk_class cls))"
    using cap eff by (meson order_trans)
  have draft: "ea_level (dp_autonomy a) = DraftForReview"
    if "ro_edge_verifiable opt \<noteq> Some True \<or> ro_trust opt = None \<or> (\<exists>c \<in> set (rw_changes r). is_sensitive_path (fc_path c) = Inr True)"
  proof -
    have "autonomy_rank (ea_level (dp_autonomy a)) = 0 \<or> ro_edge_verifiable opt \<noteq> Some True"
      using that cap eff at(3) by (auto simp: level_from_history_def)
    then show ?thesis using eff by (cases "ea_level (dp_autonomy a)") auto
  qed
  have "dp_applies_at a \<noteq> None \<longleftrightarrow> ea_level (dp_autonomy a) = AutoApplyWithWindow"
    using at(8) by (cases "dp_applies_at a") (auto simp: applies_at_of_def split: if_split_asm option.split_asm)
  with cls r(2,3) at(4-7) world lines level draft show ?thesis by auto
qed

theorem artifact_stays_in_its_world_witness:
  "\<exists>a. run_executor no_json sample_root sample_child sample_options = Inr (Artifact a) \<and>
     class_writes (dp_executor_class a) ''src/flags.ts'' \<and> ea_level (dp_autonomy a) = DraftForReview"
proof -
  obtain a where a: "run_executor no_json sample_root sample_child sample_options = Inr (Artifact a)" "map fc_path (dp_changes a) = [''src/flags.ts'']"
    using sample_run by (auto split: sum.split_asm execution_outcome.split_asm)
  from a(2) have "\<exists>c \<in> set (dp_changes a). fc_path c = ''src/flags.ts''" by (cases "dp_changes a") auto
  with artifact_stays_in_its_world [OF a(1)] a(1) show ?thesis by (fastforce simp: sample_options_def)
qed

text \<open>
  C26: The program that really runs in the sandbox never proposes a change the host would reject as outside its capability:
  the guard of the workspace and the re-validation of the host agree, for every repository, target and request.
\<close>

theorem sandbox_and_host_agree:
  "run_executor json_of fs (\<lambda>q. Inr (sandbox_main json_of words q)) opt \<noteq> Inl (RunCapability e)"
proof
  assume run: "run_executor json_of fs (\<lambda>q. Inr (sandbox_main json_of words q)) opt = Inl (RunCapability e)"
  then obtain cls where cls: "get_executor_class json_of (ro_executor_class opt) = Some cls"
    by (auto simp: run_executor_def split: option.split_asm)
  then have name: "cls \<in> set (registry json_of)" "class_name_text (ec_name cls) = ro_executor_class opt"
    using get_executor_class_Some by blast+
  obtain snap out pp where rejected: "sandbox_main json_of words
       \<lparr>rq_executor_class = class_name_text (ec_name cls), rq_commitment = ro_commitment opt, rq_target = ro_target opt,
        rq_persona = ro_persona opt, rq_now = ro_now opt, rq_snapshot = snap\<rparr> = SandboxOk (Some out) pp"
    "\<forall>r. review_proposal (ec_capabilities cls) snap pp \<noteq> Inr r"
    by (rule run_rejected [OF run cls]) auto
  obtain c w where w: "get_executor_class json_of (class_name_text (ec_name cls)) = Some c" "workspace_ok w"
    "wk_capabilities w = ec_capabilities c" "pp = proposal_of w"
    by (rule sandbox_main_ok [OF rejected(1)]) simp
  with cls name(2) have "c = cls" by simp
  with host_reviews [OF name(1) w(2), of snap] w(3,4) rejected(2) show False by blast
qed

text \<open>
  C27: after a removal the symbol occurs in no file the executor can read: the only occurrence was on the line
  that declares it. What goes is a run of whole lines of that one file: the line that matches the pattern of a
  declaration of the symbol, with anything else written on it, lines directly above it that begin as comments
  do (with two slashes, with a star or with a slash and a star, whether or not they are comments), and at most
  one blank line below. No other file is touched.
\<close>

theorem removed_symbol_is_gone:
  assumes "new_workspace snap caps = Inr w" and "is_identifier symb"
    and "dead_code_executor (SymbolTarget symb path) w = Inr (Some out, w')"
  shows "(\<forall>(p, c) \<in> set (wk_files w'). word_occurrences c symb = 0) \<and>
    (\<forall>p. p \<noteq> path \<longrightarrow> map_of (wk_files w') p = map_of (wk_files w) p) \<and>
    (\<exists>held a b d. map_of (wk_files w) path = Some held \<and>
       map_of (wk_files w') path = Some (join_with [newline] (take a (js_split newline held) @ drop b (js_split newline held))) \<and>
       a \<le> d \<and> d < b \<and> b \<le> d + 2 \<and> declares symb (js_split newline held ! d) \<and>
       (\<forall>i \<in> {a ..< d}. comment_line (js_split newline held ! i)) \<and> (\<forall>i \<in> {d + 1 ..< b}. blank_at (js_split newline held) i))"
proof -
  have normal: "paths_normal w" using assms(1) by (rule new_workspace_normal)
  from dead_code_gone [OF normal assms(3,2)]
  obtain held d a b where held: "(path, held) \<in> set (wk_files w)" "d < length (js_split newline held)"
    "declares symb (js_split newline held ! d)" "removal (js_split newline held) d = (a, b)"
    "wk_files w' = map_set path (join_with [newline] (take a (js_split newline held) @ drop b (js_split newline held))) (wk_files w)"
    "\<forall>(p, c) \<in> set (wk_files w'). word_occurrences c symb = 0"
    by blast
  have "map_of (wk_files w) path = Some held" using normal held(1) by (simp add: paths_normal_def)
  with held removal_bounds [OF held(4,2)] show ?thesis by (auto simp: lookup_simps)
qed

theorem removed_symbol_is_gone_witness:
  "\<exists>w out w'. new_workspace [(''src/flags.ts'', flags_text), (''src/use.ts'', text_lines [''console.log(live);''])]
      \<lparr>cap_read = [''src/**''], cap_write = [''src/**''], cap_max_changed_lines = 40, cap_max_changed_files = 2\<rparr> = Inr w \<and>
     dead_code_executor (SymbolTarget ''dead'' ''src/flags.ts'') w = Inr (Some out, w') \<and>
     (\<forall>(p, c) \<in> set (wk_files w'). word_occurrences c ''dead'' = 0)"
proof -
  obtain w out w' where w: "new_workspace [(''src/flags.ts'', flags_text), (''src/use.ts'', text_lines [''console.log(live);''])]
      \<lparr>cap_read = [''src/**''], cap_write = [''src/**''], cap_max_changed_lines = 40, cap_max_changed_files = 2\<rparr> = Inr w"
    "dead_code_executor (SymbolTarget ''dead'' ''src/flags.ts'') w = Inr (Some out, w')"
    using sample_removal by (auto simp: bind_result_def split: sum.split_asm option.split_asm)
  have "is_identifier ''dead''" by code_simp
  from removed_symbol_is_gone [OF w(1) this w(2)] w show ?thesis by blast
qed

end
