(* ===== verification/Envelopes.thy ===== *)
theory Envelopes
  imports Wire Canonical
begin

unbundle bit_operations_syntax

text \<open>
  The envelope of an observation: \<^verbatim>\<open>types/src/envelope.ts\<close>, \<^verbatim>\<open>envelope/src/bounds.ts\<close> and \<^verbatim>\<open>envelope/src/index.ts\<close>, entire. A sealed
  envelope is a candidate that passed its schema, brought inside the bounds and named by the hash of what is
  left; an envelope that arrives formed is refused when it is out of bounds. Every length is in octets.
\<close>

section \<open>The schema\<close>

record envelope_ref =
  vr_kind :: string
  vr_value :: string

record envelope =
  en_source :: string
  en_kind :: string
  en_occurred_at :: rfc3339
  en_received_at :: rfc3339
  en_label :: string
  en_external_id :: "string option"
  en_payload :: json_members
  en_refs :: "envelope_ref list"
  en_clipped :: bool
  en_persona :: persona_id

definition envelope_ref_kinds :: "string list" where
  "envelope_ref_kinds = [''url'', ''commit'', ''issue'', ''message'', ''file'']"

definition ref_json :: "envelope_ref \<Rightarrow> json" where
  "ref_json r = JObj [(''kind'', JStr (vr_kind r)), (''value'', JStr (vr_value r))]"

definition actor_json :: "envelope \<Rightarrow> json" where
  "actor_json e = JObj ((''label'', JStr (en_label e)) #
     (case en_external_id e of None \<Rightarrow> [] | Some x \<Rightarrow> [(''external_id'', JStr x)]))"

text \<open>The members without \<^verbatim>\<open>id\<close>; \<^verbatim>\<open>clipped\<close> is there only when it is true.\<close>

definition envelope_members :: "envelope \<Rightarrow> json_members" where
  "envelope_members e =
     [(''v'', JStr protocol_version), (''type'', JStr ''envelope''), (''source'', JStr (en_source e)), (''kind'', JStr (en_kind e)),
      (''occurred_at'', JStr (text_of (en_occurred_at e))), (''received_at'', JStr (text_of (en_received_at e))),
      (''actor'', actor_json e), (''payload'', JObj (en_payload e)), (''refs'', JArr (map ref_json (en_refs e)))] @
     (if en_clipped e then [(''clipped'', JBool True)] else []) @ [(''persona'', JStr (en_persona e))]"

definition nonempty_text :: "string \<Rightarrow> bool" where
  "nonempty_text s \<longleftrightarrow> s \<noteq> []"

definition parse_envelope_ref :: "json \<Rightarrow> envelope_ref option" where
  "parse_envelope_ref = object_of (\<lambda>ms.
     Option.bind (required (text_where (\<lambda>s. s \<in> set envelope_ref_kinds)) ms ''kind'') (\<lambda>k.
     Option.bind (required (text_where (\<lambda>_. True)) ms ''value'') (\<lambda>x. Some \<lparr>vr_kind = k, vr_value = x\<rparr>)))"

definition parse_actor :: "json \<Rightarrow> (string \<times> string option) option" where
  "parse_actor = object_of (\<lambda>ms.
     Option.bind (required (text_where (\<lambda>_. True)) ms ''label'') (\<lambda>l.
     Option.bind (optional (text_where (\<lambda>_. True)) ms ''external_id'') (\<lambda>x. Some (l, x))))"

definition true_literal :: "json \<Rightarrow> bool option" where
  "true_literal j = (if j = JBool True then Some True else None)"

definition parse_unidentified :: "json \<Rightarrow> envelope option" where
  "parse_unidentified = object_of (\<lambda>ms.
     if \<not> tagged ''envelope'' ms then None
     else Option.bind (required (text_where nonempty_text) ms ''source'') (\<lambda>so.
       Option.bind (required (text_where nonempty_text) ms ''kind'') (\<lambda>ki.
       Option.bind (required timestamp ms ''occurred_at'') (\<lambda>oc.
       Option.bind (required timestamp ms ''received_at'') (\<lambda>rc.
       Option.bind (required parse_actor ms ''actor'') (\<lambda>(la, ex).
       Option.bind (required (object_of Some) ms ''payload'') (\<lambda>pa.
       Option.bind (defaulted [] (array_of parse_envelope_ref) ms ''refs'') (\<lambda>rs.
       Option.bind (optional true_literal ms ''clipped'') (\<lambda>cl.
       Option.bind (required (text_where hex64) ms ''persona'') (\<lambda>pe.
         Some \<lparr>en_source = so, en_kind = ki, en_occurred_at = oc, en_received_at = rc, en_label = la,
               en_external_id = ex, en_payload = pa, en_refs = rs, en_clipped = (cl \<noteq> None), en_persona = pe\<rparr>))))))))))"

text \<open>An envelope with its identifier.\<close>

definition parse_envelope :: "json \<Rightarrow> (sha256_hex \<times> envelope) option" where
  "parse_envelope v =
     Option.bind (parse_unidentified v) (\<lambda>e.
     Option.bind (object_of (\<lambda>ms. required (text_where hex64) ms ''id'') v) (\<lambda>i. Some (i, e)))"

section \<open>Bounds\<close>

definition max_envelope_octets :: int where "max_envelope_octets = 65536"
definition max_payload_text :: int where "max_payload_text = 8192"
definition max_payload_depth :: nat where "max_payload_depth = 8"
definition max_refs :: nat where "max_refs = 32"
definition max_ref :: int where "max_ref = 2048"
definition max_label :: int where "max_label = 200"

definition octet_count :: "string \<Rightarrow> int" where
  "octet_count s = int (length (utf8 s))"

definition continuation :: "8 word \<Rightarrow> bool" where
  "continuation b \<longleftrightarrow> b AND 0xC0 = 0x80"

fun walk_back :: "octets \<Rightarrow> nat \<Rightarrow> nat" where
  "walk_back bs 0 = 0"
| "walk_back bs (Suc n) = (if continuation (bs ! Suc n) then walk_back bs n else Suc n)"

text \<open>\<^verbatim>\<open>TextDecoder.decode\<close> of an encoding.\<close>

fun utf8_decode :: "octets \<Rightarrow> string" where
  "utf8_decode [] = []"
| "utf8_decode [b] = [char_of (unat b)]"
| "utf8_decode (b # c # bs) =
     (if unat b < 128 then char_of (unat b) # utf8_decode (c # bs)
      else char_of ((unat b - 192) * 64 + (unat c - 128)) # utf8_decode bs)"

definition clip :: "string \<Rightarrow> int \<Rightarrow> string" where
  "clip s n = (let bytes = utf8 s in if int (length bytes) \<le> n then s else utf8_decode (take (walk_back bytes (nat n)) bytes))"

datatype bounds_reason =
    NotAnObject
  | LabelTooLong
  | ExternalIdTooLong
  | MemberTooLong string
  | TooManyRefs
  | RefTooLong
  | PayloadTooDeep
  | PayloadTextTooLong
  | FormTooLarge int

definition json_member :: "json \<Rightarrow> string \<Rightarrow> json option" where
  "json_member v k = (case v of JObj ms \<Rightarrow> map_of ms k | _ \<Rightarrow> None)"

definition text_over :: "json option \<Rightarrow> int \<Rightarrow> bool" where
  "text_over v n \<longleftrightarrow> (case v of Some (JStr s) \<Rightarrow> n < octet_count s | _ \<Rightarrow> False)"

fun payload_violation :: "json \<Rightarrow> nat \<Rightarrow> bounds_reason option"
  and items_violation :: "json list \<Rightarrow> nat \<Rightarrow> bounds_reason option"
  and members_violation :: "json_members \<Rightarrow> nat \<Rightarrow> bounds_reason option" where
  "payload_violation v d =
     (if max_payload_depth < d then Some PayloadTooDeep
      else case v of
        JStr s \<Rightarrow> if max_payload_text < octet_count s then Some PayloadTextTooLong else None
      | JArr vs \<Rightarrow> items_violation vs (d + 1)
      | JObj ms \<Rightarrow> members_violation ms (d + 1)
      | _ \<Rightarrow> None)"
| "items_violation [] d = None"
| "items_violation (v # vs) d = (case payload_violation v d of Some r \<Rightarrow> Some r | None \<Rightarrow> items_violation vs d)"
| "members_violation [] d = None"
| "members_violation ((k, v) # ms) d = (case payload_violation v d of Some r \<Rightarrow> Some r | None \<Rightarrow> members_violation ms d)"

definition refs_violation :: "json option \<Rightarrow> bounds_reason option" where
  "refs_violation v =
     (case v of
        Some (JArr rs) \<Rightarrow>
          if max_refs < length rs then Some TooManyRefs
          else if \<exists>r \<in> set rs. text_over (json_member r ''value'') max_ref then Some RefTooLong else None
      | _ \<Rightarrow> None)"

datatype envelope_error = SchemaRefused | TooDeepToCanonicalize | OutOfBounds bounds_reason

definition bounds_violation :: "json \<Rightarrow> (envelope_error, bounds_reason option) result" where
  "bounds_violation e =
     (if \<not> (case e of JObj _ \<Rightarrow> True | JArr _ \<Rightarrow> True | _ \<Rightarrow> False) then Inr (Some NotAnObject)
      else if text_over (Option.bind (json_member e ''actor'') (\<lambda>a. json_member a ''label'')) max_label then Inr (Some LabelTooLong)
      else if text_over (Option.bind (json_member e ''actor'') (\<lambda>a. json_member a ''external_id'')) max_label then Inr (Some ExternalIdTooLong)
      else if text_over (json_member e ''source'') max_label then Inr (Some (MemberTooLong ''source''))
      else if text_over (json_member e ''kind'') max_label then Inr (Some (MemberTooLong ''kind''))
      else case refs_violation (json_member e ''refs'') of
        Some r \<Rightarrow> Inr (Some r)
      | None \<Rightarrow>
          (case (case json_member e ''payload'' of None \<Rightarrow> None | Some p \<Rightarrow> payload_violation p 0) of
             Some r \<Rightarrow> Inr (Some r)
           | None \<Rightarrow>
               (case canonical_bytes e of
                  None \<Rightarrow> Inl TooDeepToCanonicalize
                | Some bs \<Rightarrow>
                    Inr (if max_envelope_octets < int (length bs) then Some (FormTooLarge (int (length bs))) else None))))"

section \<open>Bringing an envelope inside\<close>

text \<open>\<^verbatim>\<open>out[key] = value\<close>: the name \<^verbatim>\<open>__proto__\<close> sets the prototype, which no member shows.\<close>

definition js_assign :: "string \<Rightarrow> json \<Rightarrow> json_members \<Rightarrow> json_members" where
  "js_assign k v ms = (if k = ''__proto__'' then ms else map_set k v ms)"

fun bound_value :: "json \<Rightarrow> int \<Rightarrow> nat \<Rightarrow> json \<times> bool"
  and bound_items :: "json list \<Rightarrow> int \<Rightarrow> nat \<Rightarrow> json list \<times> bool"
  and bound_members :: "json_members \<Rightarrow> int \<Rightarrow> nat \<Rightarrow> json_members \<Rightarrow> json_members \<times> bool" where
  "bound_value v budget d =
     (case v of
        JStr s \<Rightarrow> (let t = clip s budget in (JStr t, t \<noteq> s))
      | JArr vs \<Rightarrow>
          if max_payload_depth \<le> d then (JArr [], vs \<noteq> [])
          else (let (ws, c) = bound_items vs budget (d + 1) in (JArr ws, c))
      | JObj ms \<Rightarrow>
          if max_payload_depth \<le> d then (JObj [], ms \<noteq> [])
          else (let (ws, c) = bound_members ms budget (d + 1) [] in (JObj ws, c))
      | _ \<Rightarrow> (v, False))"
| "bound_items [] budget d = ([], False)"
| "bound_items (v # vs) budget d =
     (let (w, c) = bound_value v budget d; (ws, cs) = bound_items vs budget d in (w # ws, c \<or> cs))"
| "bound_members [] budget d out = (out, False)"
| "bound_members ((k, v) # ms) budget d out =
     (let (w, c) = bound_value v budget d;
          out1 = js_assign k w out;
          out2 = (case v of JStr s \<Rightarrow> if c then js_assign (k @ ''_length'') (JNum (octet_count s)) out1 else out1 | _ \<Rightarrow> out1);
          (ws, cs) = bound_members ms budget d out2
      in (ws, c \<or> cs))"

text \<open>
  \<^verbatim>\<open>bound\<close> is only given what the schema passed, so the tests of types it makes on its way hold. Its canonical forms
  exist: the payload has been cut to eight levels before the first is made (\<open>canonical_envelope\<close>).
\<close>

definition form_octets :: "envelope \<Rightarrow> int" where
  "form_octets e = (case canonical_bytes (JObj (envelope_members e)) of None \<Rightarrow> 0 | Some bs \<Rightarrow> int (length bs))"

definition too_big :: "envelope \<Rightarrow> bool" where
  "too_big e \<longleftrightarrow> max_envelope_octets < form_octets e"

definition clip_label :: "envelope \<Rightarrow> envelope \<times> bool" where
  "clip_label e = (let l = clip (en_label e) max_label in (e\<lparr>en_label := l\<rparr>, l \<noteq> en_label e))"

definition clip_refs :: "envelope \<Rightarrow> envelope \<times> bool" where
  "clip_refs e =
     (let kept = take max_refs (en_refs e); rs = map (\<lambda>r. r\<lparr>vr_value := clip (vr_value r) max_ref\<rparr>) kept
      in (e\<lparr>en_refs := rs\<rparr>, length kept \<noteq> length (en_refs e) \<or> rs \<noteq> kept))"

text \<open>\<^verbatim>\<open>apply(b)\<close>: the payload bounded anew from the candidate's.\<close>

definition with_budget :: "json_members \<Rightarrow> int \<Rightarrow> envelope \<times> bool \<Rightarrow> envelope \<times> bool" where
  "with_budget payload budget ec =
     (case ec of (e, c) \<Rightarrow>
        (case bound_value (JObj payload) budget 0 of
           (JObj ms, trimmed) \<Rightarrow> (e\<lparr>en_payload := ms\<rparr>, c \<or> trimmed)
         | (_, trimmed) \<Rightarrow> (e, c \<or> trimmed)))"

function shrink_texts :: "json_members \<Rightarrow> int \<Rightarrow> envelope \<times> bool \<Rightarrow> envelope \<times> bool" where
  "shrink_texts payload budget ec =
     (if too_big (fst ec) \<and> 64 < budget
      then (case with_budget payload (budget div 2) ec of (e, c) \<Rightarrow> shrink_texts payload (budget div 2) (e, True))
      else ec)"
  by pat_completeness auto

termination
  by (relation "measure (\<lambda>(p, b, ec). nat b)") auto

declare shrink_texts.simps [simp del]

fun drop_members :: "string list \<Rightarrow> envelope \<times> bool \<Rightarrow> envelope \<times> bool" where
  "drop_members [] ec = ec"
| "drop_members (k # ks) (e, c) =
     (if \<not> too_big e then (e, c)
      else drop_members ks
        (e\<lparr>en_payload := filter (\<lambda>m. fst m \<noteq> k \<and> fst m \<noteq> k @ ''_length'') (en_payload e)\<rparr>, True))"

function drop_refs :: "envelope \<times> bool \<Rightarrow> envelope \<times> bool" where
  "drop_refs (e, c) =
     (if too_big e \<and> en_refs e \<noteq> [] then drop_refs (e\<lparr>en_refs := butlast (en_refs e)\<rparr>, True) else (e, c))"
  by pat_completeness auto

termination
  by (relation "measure (\<lambda>(e, c). length (en_refs e))") auto

declare drop_refs.simps [simp del]

definition bound :: "envelope \<Rightarrow> envelope" where
  "bound e =
     (let (e1, c1) = clip_label e;
          (e2, c2) = clip_refs e1;
          ec3 = shrink_texts (en_payload e) max_payload_text (with_budget (en_payload e) max_payload_text (e2, c1 \<or> c2));
          ec4 = (if too_big (fst ec3) then drop_members (rev (sort (map fst (en_payload (fst ec3))))) ec3 else ec3);
          (e5, c5) = drop_refs ec4
      in if c5 then e5\<lparr>en_clipped := True\<rparr> else e5)"

section \<open>Sealing and accepting\<close>

text \<open>An object as a connector builds it, where a member may be \<^verbatim>\<open>undefined\<close> (\<open>None\<close>).\<close>

definition compact :: "(string \<times> json option) list \<Rightarrow> json_members" where
  "compact ms = fold (\<lambda>(k, v) out. case v of None \<Rightarrow> out | Some j \<Rightarrow> js_assign k j out) ms []"

definition seal_envelope :: "crypto_lib \<Rightarrow> json \<Rightarrow> (envelope_error, sha256_hex \<times> envelope) result" where
  "seal_envelope cl candidate =
     (case parse_unidentified candidate of
        None \<Rightarrow> Inl SchemaRefused
      | Some base \<Rightarrow>
          (case parse_unidentified (JObj (envelope_members (bound base))) of
             None \<Rightarrow> Inl SchemaRefused
           | Some bounded \<Rightarrow>
               bind_result (bounds_violation (JObj (envelope_members bounded))) (\<lambda>violation.
                 case violation of
                   Some r \<Rightarrow> Inl (OutOfBounds r)
                 | None \<Rightarrow>
                     (case envelope_id cl (JObj (envelope_members bounded)) of
                        None \<Rightarrow> Inl TooDeepToCanonicalize
                      | Some i \<Rightarrow>
                          (case parse_envelope (JObj (envelope_members bounded @ [(''id'', JStr i)])) of
                             None \<Rightarrow> Inl SchemaRefused
                           | Some ie \<Rightarrow> Inr ie)))))"

definition accept_envelope :: "json \<Rightarrow> (envelope_error, sha256_hex \<times> envelope) result" where
  "accept_envelope candidate =
     bind_result (bounds_violation candidate) (\<lambda>violation.
       case violation of
         Some r \<Rightarrow> Inl (OutOfBounds r)
       | None \<Rightarrow> (case parse_envelope candidate of None \<Rightarrow> Inl SchemaRefused | Some ie \<Rightarrow> Inr ie))"

end
