(* ===== verification/EnvelopeLaws.thy ===== *)
theory EnvelopeLaws
  imports Envelopes
begin

text \<open>
  The laws of bounding: what a cut leaves of a text, when bounding changes nothing, that what it leaves is inside
  every bound of a payload, and the size of a canonical form.
\<close>

declare write_json.simps [simp del] decimal_digits.simps [simp del]

section \<open>Cutting a text\<close>

lemma utf8_Nil [simp]: "utf8 [] = []" and utf8_Cons: "utf8 (c # s) = utf8_char c @ utf8 s"
  by (simp_all add: utf8_def)

lemma utf8_char_cases:
  obtains (one) b where "utf8_char c = [b]" "unat b < 128" "unat b = of_char c"
    | (two) a b where "utf8_char c = [a, b]" "\<not> unat a < 128" "continuation b"
        "of_char c = (unat a - 192) * 64 + (unat b - 128)" "\<not> continuation a"
proof (cases "of_char c < (128 :: nat)")
  case True
  then have "unat (of_nat (of_char c) :: octet) = of_char c" by (simp add: unat_of_nat)
  then show thesis using True one [of "of_nat (of_char c)"] by (simp add: utf8_char_def)
next
  case False
  define n :: nat where "n = of_char c"
  have n: "128 \<le> n" "n < 256" using False by (simp_all add: n_def)
  define q where "q = n div 64"
  define r where "r = n mod 64"
  have qr: "2 \<le> q" "q < 4" "r < 64" "n = q * 64 + r" using n by (simp_all add: q_def r_def)
  have ua: "unat (of_nat (192 + q) :: octet) = 192 + q" and ub: "unat (of_nat (128 + r) :: octet) = 128 + r"
    using qr by (simp_all only: unat_of_nat) simp_all
  have masks: "\<forall>m \<in> set [0..<64]. continuation (of_nat (128 + m)) \<and> (2 \<le> m \<and> m < 4 \<longrightarrow> \<not> continuation (of_nat (192 + m)))"
    by code_simp
  have "continuation (of_nat (128 + r))" "\<not> continuation (of_nat (192 + q))"
    using masks qr by auto
  moreover have "utf8_char c = [of_nat (192 + q), of_nat (128 + r)]"
    using n by (simp add: utf8_char_def Let_def n_def [symmetric] q_def r_def)
  ultimately show thesis
    using two [of "of_nat (192 + q)" "of_nat (128 + r)"] ua ub qr n_def by (simp del: of_nat_add)
qed

lemma utf8_hd: "s \<noteq> [] \<Longrightarrow> utf8 s \<noteq> [] \<and> \<not> continuation (hd (utf8 s))"
proof (cases s)
  case (Cons c t)
  have one: "\<not> continuation b" if "unat b < 128" for b
  proof -
    have "\<forall>m \<in> set [0..<128]. \<not> continuation (of_nat m)" by code_simp
    with that have "\<not> continuation (of_nat (unat b))" by (metis atLeastLessThan_iff le0 set_upt)
    then show ?thesis by simp
  qed
  show ?thesis by (cases c rule: utf8_char_cases) (auto simp: Cons utf8_Cons one)
qed simp

lemma utf8_decode_utf8: "utf8_decode (utf8 s) = s"
proof (induction s)
  case (Cons c s)
  show ?case
  proof (cases c rule: utf8_char_cases)
    case (one b)
    have "char_of (unat b) = c" using one(3) by simp
    then show ?thesis using one(1,2) Cons by (cases "utf8 s") (auto simp: utf8_Cons)
  next
    case (two a b)
    have "char_of ((unat a - 192) * 64 + (unat b - 128)) = c" using two(4) by (metis char_of_char)
    then show ?thesis using two(1,2) Cons by (simp add: utf8_Cons)
  qed
qed simp

lemma walk_back_append:
  "m < length bs \<Longrightarrow> \<not> continuation (hd bs) \<Longrightarrow> walk_back (pre @ bs) (length pre + m) = length pre + walk_back bs m"
proof (induction m)
  case 0
  then have "\<not> continuation ((pre @ bs) ! length pre)" by (cases bs) auto
  then show ?case by (cases "length pre") auto
next
  case (Suc m)
  then show ?case by (simp add: nth_append)
qed

text \<open>Walking back from an octet lands on the end of the longest run of characters that fits before it.\<close>

lemma walk_back_utf8:
  "n < length (utf8 s) \<Longrightarrow>
   \<exists>k < length s. walk_back (utf8 s) n = length (utf8 (take k s)) \<and>
     length (utf8 (take k s)) \<le> n \<and> n < length (utf8 (take (Suc k) s))"
proof (induction s arbitrary: n)
  case (Cons c s)
  show ?case
  proof (cases "n < length (utf8_char c)")
    case True
    have "walk_back (utf8 (c # s)) n = 0"
    proof (cases c rule: utf8_char_cases)
      case (two a b)
      then show ?thesis using True by (cases n) (auto simp: utf8_Cons less_Suc_eq)
    qed (use True in \<open>simp add: utf8_Cons\<close>)
    then show ?thesis using True by (intro exI [of _ 0]) (simp add: utf8_Cons)
  next
    case False
    then obtain m where m: "n = length (utf8_char c) + m" using le_Suc_ex not_less by blast
    with Cons.prems have less: "m < length (utf8 s)" by (simp add: utf8_Cons)
    then have "s \<noteq> []" by auto
    then have "walk_back (utf8 (c # s)) n = length (utf8_char c) + walk_back (utf8 s) m"
      using walk_back_append [OF less] utf8_hd [of s] by (simp add: utf8_Cons m)
    moreover from Cons.IH [OF less] obtain k where "k < length s" "walk_back (utf8 s) m = length (utf8 (take k s))"
      "length (utf8 (take k s)) \<le> m" "m < length (utf8 (take (Suc k) s))" by blast
    ultimately show ?thesis by (intro exI [of _ "Suc k"]) (simp add: utf8_Cons m)
  qed
qed simp

lemma utf8_take: "take (length (utf8 (take k s))) (utf8 s) = utf8 (take k s)"
  by (metis append_eq_conv_conj append_take_drop_id utf8_append)

lemma clip_fits: "octet_count s \<le> n \<Longrightarrow> clip s n = s"
  by (simp add: clip_def octet_count_def)

lemma clip_cut:
  assumes "0 \<le> n" and "n < octet_count s"
  obtains k where "k < length s" "clip s n = take k s" "octet_count (take k s) \<le> n" "n < octet_count (take (Suc k) s)"
proof -
  have "nat n < length (utf8 s)" using assms by (simp add: octet_count_def)
  from walk_back_utf8 [OF this] obtain k where "k < length s"
    and k: "walk_back (utf8 s) (nat n) = length (utf8 (take k s))"
    and "length (utf8 (take k s)) \<le> nat n" "nat n < length (utf8 (take (Suc k) s))" by blast
  moreover have "clip s n = take k s"
    using assms by (simp add: clip_def octet_count_def k utf8_take utf8_decode_utf8)
  ultimately show thesis using assms that [of k] by (simp add: octet_count_def)
qed

lemma octet_count_clip: "0 \<le> n \<Longrightarrow> octet_count (clip s n) \<le> n"
  by (metis clip_cut clip_fits not_le)

lemma clip_same: "0 \<le> n \<Longrightarrow> clip s n = s \<longleftrightarrow> octet_count s \<le> n"
  using clip_fits octet_count_clip by metis

section \<open>Bounding a payload\<close>

lemma bound_value_cons [simp]:
  "bound_value JNull b d = (JNull, False)" "bound_value (JBool x) b d = (JBool x, False)"
  "bound_value (JNum n) b d = (JNum n, False)" "bound_value (JStr s) b d = (JStr (clip s b), clip s b \<noteq> s)"
  "bound_value (JArr vs) b d =
     (if max_payload_depth \<le> d then (JArr [], vs \<noteq> []) else apfst JArr (bound_items vs b (d + 1)))"
  "bound_value (JObj ms) b d =
     (if max_payload_depth \<le> d then (JObj [], ms \<noteq> []) else apfst JObj (bound_members ms b (d + 1) []))"
  by (simp_all add: Let_def split: prod.splits)

lemma payload_violation_cons [simp]:
  "payload_violation JNull d = (if max_payload_depth < d then Some PayloadTooDeep else None)"
  "payload_violation (JBool x) d = (if max_payload_depth < d then Some PayloadTooDeep else None)"
  "payload_violation (JNum n) d = (if max_payload_depth < d then Some PayloadTooDeep else None)"
  "payload_violation (JStr s) d =
     (if max_payload_depth < d then Some PayloadTooDeep
      else if max_payload_text < octet_count s then Some PayloadTextTooLong else None)"
  "payload_violation (JArr vs) d = (if max_payload_depth < d then Some PayloadTooDeep else items_violation vs (d + 1))"
  "payload_violation (JObj ms) d = (if max_payload_depth < d then Some PayloadTooDeep else members_violation ms (d + 1))"
  by simp_all

declare bound_value.simps [simp del] payload_violation.simps [simp del]

lemma items_violation_None: "items_violation vs d = None \<longleftrightarrow> (\<forall>v \<in> set vs. payload_violation v d = None)"
  by (induction vs) (auto split: option.splits)

lemma members_violation_None: "members_violation ms d = None \<longleftrightarrow> (\<forall>m \<in> set ms. payload_violation (snd m) d = None)"
  by (induction ms) (auto split: option.splits)

lemma payload_violation_level: "payload_violation v d = None \<Longrightarrow> d \<le> max_payload_depth"
  by (cases v) (auto split: if_splits)

text \<open>Objects as JavaScript keeps them: a name once, and \<^verbatim>\<open>__proto__\<close> never.\<close>

fun own_names :: "json \<Rightarrow> bool" where
  "own_names (JArr vs) \<longleftrightarrow> (\<forall>v \<in> set vs. own_names v)"
| "own_names (JObj ms) \<longleftrightarrow> distinct (map fst ms) \<and> ''__proto__'' \<notin> fst ` set ms \<and> (\<forall>m \<in> set ms. own_names (snd m))"
| "own_names _ \<longleftrightarrow> True"

lemma map_set_appends: "k \<notin> fst ` set ms \<Longrightarrow> map_set k v ms = ms @ [(k, v)]"
  by (induction ms) auto

lemma bound_unclipped:
  "own_names v \<Longrightarrow> \<not> snd (bound_value v b d) \<Longrightarrow> fst (bound_value v b d) = v"
  "\<forall>v \<in> set vs. own_names v \<Longrightarrow> \<not> snd (bound_items vs b d) \<Longrightarrow> fst (bound_items vs b d) = vs"
  "distinct (map fst (out @ ms)) \<Longrightarrow> ''__proto__'' \<notin> fst ` set ms \<Longrightarrow> \<forall>m \<in> set ms. own_names (snd m) \<Longrightarrow>
     \<not> snd (bound_members ms b d out) \<Longrightarrow> fst (bound_members ms b d out) = out @ ms"
proof (induction v b d and vs b d and ms b d out rule: bound_value_bound_items_bound_members.induct)
  case (1 v budget d)
  then show ?case by (cases v) (auto simp: not_le split: if_splits)
next
  case (3 v vs budget d)
  then show ?case by (auto split: prod.splits)
next
  case (5 k v ms budget d out)
  obtain w c where w: "bound_value v budget d = (w, c)" by fastforce
  have "\<not> c" using 5(6) w by (auto simp: Let_def split: prod.splits)
  moreover from this have "w = v" using 5(1,5) w by auto
  moreover have "js_assign k v out = out @ [(k, v)]"
    using 5(3,4) by (auto simp: js_assign_def intro!: map_set_appends)
  ultimately show ?case
    using 5(2) [OF w [symmetric] refl _ refl] 5(3-6) w
    by (auto simp: Let_def split: prod.splits json.splits)
qed auto

lemma bound_conforming:
  "payload_violation v d = None \<Longrightarrow> \<not> snd (bound_value v max_payload_text d)"
  "items_violation vs d = None \<Longrightarrow> \<not> snd (bound_items vs max_payload_text d)"
  "members_violation ms d = None \<Longrightarrow> \<not> snd (bound_members ms max_payload_text d out)"
proof (induction v "max_payload_text" d and vs "max_payload_text" d and ms "max_payload_text" d out
    rule: bound_value_bound_items_bound_members.induct)
  case (1 v d)
  show ?case
  proof (cases v)
    case (JStr s)
    then show ?thesis using 1(3) by (auto simp: clip_fits not_less split: if_splits)
  next
    case (JArr vs)
    show ?thesis
    proof (cases "max_payload_depth \<le> d")
      case True
      then have "vs = []" using 1(3) JArr
        by (cases vs) (auto dest: payload_violation_level split: if_splits option.splits)
      then show ?thesis using True JArr by simp
    qed (use 1 JArr in \<open>auto split: if_splits\<close>)
  next
    case (JObj ms)
    show ?thesis
    proof (cases "max_payload_depth \<le> d")
      case True
      then have "ms = []" using 1(3) JObj
        by (cases ms) (auto simp: members_violation_None dest: payload_violation_level split: if_splits)
      then show ?thesis using True JObj by simp
    qed (use 1 JObj in \<open>auto split: if_splits\<close>)
  qed auto
next
  case (3 v vs d)
  then show ?case by (auto split: prod.splits option.splits)
next
  case (5 k v ms d out)
  obtain w c where w: "bound_value v max_payload_text d = (w, c)" by fastforce
  have "payload_violation v d = None" "members_violation ms d = None"
    using 5(3) by (auto split: option.splits)
  with 5(1) w have "\<not> c" by auto
  then show ?case using 5(2) [OF w [symmetric] refl refl refl] \<open>members_violation ms d = None\<close> w
    by (auto simp: Let_def split: prod.splits json.splits)
qed auto

text \<open>What bounding leaves is within the bounds of a payload.\<close>

lemma set_js_assign: "m \<in> set (js_assign k v ms) \<Longrightarrow> m = (k, v) \<or> m \<in> set ms"
proof -
  have "m \<in> set (map_set k v ms) \<Longrightarrow> m = (k, v) \<or> m \<in> set ms"
    by (induction k v ms rule: map_set.induct) (auto split: if_splits)
  then show "m \<in> set (js_assign k v ms) \<Longrightarrow> m = (k, v) \<or> m \<in> set ms" by (auto simp: js_assign_def split: if_splits)
qed

lemma bounded_within:
  assumes "0 \<le> b" and "b \<le> max_payload_text"
  shows "d \<le> max_payload_depth \<Longrightarrow> payload_violation (fst (bound_value v b d)) d = None"
    and "d \<le> max_payload_depth \<Longrightarrow> items_violation (fst (bound_items vs b d)) d = None"
    and "d \<le> max_payload_depth \<Longrightarrow> \<forall>m \<in> set out. payload_violation (snd m) d = None \<Longrightarrow>
      \<forall>m \<in> set (fst (bound_members ms b d out)). payload_violation (snd m) d = None"
  using assms
proof (induction v b d and vs b d and ms b d out rule: bound_value_bound_items_bound_members.induct)
  case (1 v budget d)
  show ?case
  proof (cases v)
    case (JStr s)
    then show ?thesis using 1(3-5) octet_count_clip [of budget s] by auto
  next
    case (JArr vs)
    then show ?thesis using 1 by auto
  next
    case (JObj ms)
    then show ?thesis using 1 by (auto simp: members_violation_None)
  qed (use 1 in auto)
next
  case (3 v vs budget d)
  then show ?case by (auto split: prod.splits)
next
  case (5 k v ms budget d out)
  obtain w c where w: "bound_value v budget d = (w, c)" by fastforce
  define out1 where "out1 = js_assign k w out"
  define out2 where "out2 = (case v of JStr s \<Rightarrow> if c then js_assign (k @ ''_length'') (JNum (octet_count s)) out1 else out1 | _ \<Rightarrow> out1)"
  have "payload_violation w d = None" using 5(1,3,5,6) w by auto
  then have o1: "\<forall>m \<in> set out1. payload_violation (snd m) d = None"
    using 5(4) unfolding out1_def by (auto dest!: set_js_assign)
  have "payload_violation (JNum n) d = None" for n using 5(3) by simp
  with o1 have o2: "\<forall>m \<in> set out2. payload_violation (snd m) d = None"
    unfolding out2_def by (auto dest!: set_js_assign split: json.splits)
  have "fst (bound_members ((k, v) # ms) budget d out) = fst (bound_members ms budget d out2)"
    unfolding out2_def out1_def by (simp add: w Let_def split: prod.splits)
  then show ?case using 5(2) [OF w [symmetric] refl out1_def out2_def 5(3) o2 5(5,6)] by simp
qed auto

lemma payload_depth: "payload_violation v d = None \<Longrightarrow> d + json_depth v \<le> max_payload_depth"
proof (induction v arbitrary: d)
  case (JArr vs)
  then have "d \<le> max_payload_depth \<and> (\<forall>v \<in> set vs. payload_violation v (Suc d) = None)"
    by (auto simp: items_violation_None split: if_splits)
  with JArr.IH have "d \<le> max_payload_depth \<and> (\<forall>v \<in> set vs. Suc d + json_depth v \<le> max_payload_depth)" by blast
  then show ?case using foldr_max_le [of d json_depth vs] by simp
next
  case (JObj ms)
  then have v: "d \<le> max_payload_depth" "\<forall>m \<in> set ms. payload_violation (snd m) (Suc d) = None"
    by (auto simp: members_violation_None split: if_splits)
  have "Suc d + json_depth (snd m) \<le> max_payload_depth" if "m \<in> set ms" for m
    using that v(2) by (intro JObj.IH) (auto simp: snds.simps)
  with v(1) have "d \<le> max_payload_depth \<and> (\<forall>m \<in> set ms. Suc d + json_depth (snd m) \<le> max_payload_depth)" by blast
  then show ?case using foldr_max_le [of d "\<lambda>m. json_depth (snd m)" ms] by simp
qed (auto split: if_splits)

section \<open>The size of a canonical form\<close>

text \<open>The octets a member adds to the form of its object, besides the comma.\<close>

definition member_octets :: "nat \<Rightarrow> string \<times> json \<Rightarrow> int" where
  "member_octets d m = octet_count (serialize_string (fst m)) + 1 + octet_count (the (write_json d (snd m)))"

lemma octet_count_simps [simp]:
  "octet_count [] = 0" "octet_count (s @ t) = octet_count s + octet_count t"
  by (simp_all add: octet_count_def utf8_append)

lemma octet_count_ge_0 [simp]: "0 \<le> octet_count s"
  by (simp add: octet_count_def)

lemma octet_count_char: "octet_count (c # s) = (if of_char c < (128 :: nat) then 1 else 2) + octet_count s"
  by (simp add: octet_count_def utf8_Cons utf8_char_def Let_def)

lemma octet_count_join:
  "octet_count (join_with '','' xs) = sum_list (map octet_count xs) + int (length xs - 1)"
  by (induction "'',''" xs rule: join_with.induct) (simp_all add: octet_count_char of_nat_diff)

lemma object_octets:
  "octet_count (write_object ts) =
     2 + sum_list (map (\<lambda>(k, t). octet_count (serialize_string k) + 1 + octet_count t) ts) + int (length ts - 1)"
proof -
  have "sum_list (map f (sort_key fst ts)) = sum_list (map f ts)" for f :: "string \<times> string \<Rightarrow> int"
    by (metis mset_map mset_sort sum_mset_sum_list)
  then show ?thesis
    by (simp add: write_object_def octet_count_join octet_count_char case_prod_unfold comp_def algebra_simps)
qed

lemma written_object:
  "write_json d (JObj ms) = Some t \<Longrightarrow>
     octet_count t = 2 + sum_list (map (member_octets (d + 1)) ms) + int (length ms - 1)"
  by (auto simp: write_json.simps [of d "JObj ms"] write_members_map object_octets written_def member_octets_def [abs_def] comp_def
      split: if_splits)

lemma canonical_octets:
  assumes "canonical_bytes (JObj ms) = Some bs"
  shows "int (length bs) = 2 + sum_list (map (member_octets 1) ms) + int (length ms - 1)"
proof -
  from assms obtain t where "write_json 0 (JObj ms) = Some t" "bs = utf8 t"
    by (auto simp: canonical_bytes_def canonicalize_def)
  with written_object [of 0 ms t] show ?thesis by (simp add: octet_count_def)
qed

text \<open>A text is at most six times as long once it is written, and the quotes.\<close>

lemma hex_digit_ascii: "n < 16 \<Longrightarrow> of_char (hex_digit n) < (128 :: nat)"
proof -
  have "\<forall>n \<in> set [0..<16]. of_char (hex_digit n) < (128 :: nat)" by code_simp
  then show "n < 16 \<Longrightarrow> of_char (hex_digit n) < (128 :: nat)" by auto
qed

lemma escape_octets: "octet_count (escape_char c) \<le> 6 * octet_count [c]"
  using hex_digit_ascii [of "of_char c div 16"] hex_digit_ascii [of "of_char c mod 16"]
  by (auto simp: escape_char_def Let_def octet_count_char)

lemma serialize_octets: "octet_count (serialize_string s) \<le> 6 * octet_count s + 2"
proof -
  have "octet_count (concat (map escape_char s)) \<le> 6 * octet_count s"
  proof (induction s)
    case (Cons c s)
    have "octet_count (c # s) = octet_count [c] + octet_count s" by (simp add: octet_count_char)
    with Cons escape_octets [of c] show ?case by simp
  qed simp
  then show ?thesis by (simp add: serialize_string_def octet_count_char)
qed

lemma plain_octets:
  assumes "\<forall>c \<in> set s. 32 \<le> (of_char c :: nat) \<and> of_char c < (128 :: nat) \<and> of_char c \<noteq> (34 :: nat) \<and> of_char c \<noteq> (92 :: nat)"
  shows "octet_count (serialize_string s) = int (length s) + 2"
proof -
  have "concat (map escape_char s) = s \<and> octet_count s = int (length s)"
    using assms by (induction s) (auto simp: escape_char_def octet_count_char)
  then show ?thesis by (simp add: serialize_string_def octet_count_char)
qed

end
