(* ===== verification/EnvelopeClaims.thy ===== *)
theory EnvelopeClaims
  imports EnvelopeLaws
begin

text \<open>
  The properties of sealing: an observation is marked exactly when something of it was cut, when a sealed
  observation is inside the bounds, and when what one node seals another accepts.
\<close>

section \<open>What each step of bounding leaves\<close>

text \<open>The members \<^verbatim>\<open>bound\<close> may not touch.\<close>

definition same_head :: "envelope \<Rightarrow> envelope \<Rightarrow> bool" where
  "same_head e b \<longleftrightarrow> en_source b = en_source e \<and> en_kind b = en_kind e \<and> en_occurred_at b = en_occurred_at e \<and>
     en_received_at b = en_received_at e \<and> en_external_id b = en_external_id e \<and> en_persona b = en_persona e"

definition label_within :: "envelope \<Rightarrow> bool" where
  "label_within e \<longleftrightarrow> octet_count (en_label e) \<le> max_label"

definition refs_within :: "envelope \<Rightarrow> bool" where
  "refs_within e \<longleftrightarrow> length (en_refs e) \<le> max_refs \<and> (\<forall>r \<in> set (en_refs e). octet_count (vr_value r) \<le> max_ref)"

definition payload_within :: "envelope \<Rightarrow> bool" where
  "payload_within e \<longleftrightarrow> payload_violation (JObj (en_payload e)) 0 = None"

text \<open>A step that reports no cut changed nothing, and one that was told of a cut still reports it.\<close>

lemma clip_label_kept: "\<not> snd (clip_label e) \<Longrightarrow> clip_label e = (e, False)"
  by (simp add: clip_label_def Let_def)

lemma clip_refs_kept: "\<not> snd (clip_refs e) \<Longrightarrow> clip_refs e = (e, False)"
  by (auto simp: clip_refs_def Let_def)

lemma with_budget_kept:
  assumes "own_names (JObj p)" and "\<not> snd (with_budget p b (e, c))"
  shows "with_budget p b (e, c) = (e\<lparr>en_payload := p\<rparr>, False) \<and> \<not> c"
proof -
  obtain v t where v: "bound_value (JObj p) b 0 = (v, t)" by fastforce
  then have "\<not> t" using assms(2) by (auto simp: with_budget_def split: json.splits)
  then have "v = JObj p" using bound_unclipped(1) [OF assms(1), of b 0] v by simp
  then show ?thesis using assms(2) v by (simp add: with_budget_def)
qed

lemma shrink_texts_True: "snd ec \<Longrightarrow> snd (shrink_texts p b ec)"
  by (induction p b ec rule: shrink_texts.induct) (subst shrink_texts.simps, auto split: prod.splits)

lemma shrink_texts_kept: "\<not> snd (shrink_texts p b ec) \<Longrightarrow> shrink_texts p b ec = ec"
  by (subst shrink_texts.simps, subst (asm) shrink_texts.simps) (auto simp: shrink_texts_True split: prod.splits if_splits)

lemma drop_members_True: "snd ec \<Longrightarrow> snd (drop_members ks ec)"
  by (induction ks ec rule: drop_members.induct) auto

lemma drop_members_kept: "\<not> snd (drop_members ks ec) \<Longrightarrow> drop_members ks ec = ec"
  by (cases ks; cases ec) (auto simp: drop_members_True split: if_splits)

lemma drop_refs_True: "snd ec \<Longrightarrow> snd (drop_refs ec)"
  by (induction ec rule: drop_refs.induct) (subst drop_refs.simps, auto)

lemma drop_refs_kept: "\<not> snd (drop_refs ec) \<Longrightarrow> drop_refs ec = ec"
  by (cases ec) (simp, subst drop_refs.simps, subst (asm) drop_refs.simps, auto simp: drop_refs_True split: if_splits)

lemmas steps_kept = shrink_texts_kept drop_members_kept drop_refs_kept

text \<open>The steps after the label and the references, and the whole of \<^verbatim>\<open>bound\<close> before it sets the mark.\<close>

definition reduced :: "envelope \<Rightarrow> envelope \<times> bool" where
  "reduced e =
     (let (e1, c1) = clip_label e;
          (e2, c2) = clip_refs e1;
          ec3 = shrink_texts (en_payload e) max_payload_text (with_budget (en_payload e) max_payload_text (e2, c1 \<or> c2));
          ec4 = (if too_big (fst ec3) then drop_members (rev (sort (map fst (en_payload (fst ec3))))) ec3 else ec3)
      in drop_refs ec4)"

lemma bound_reduced: "bound e = (case reduced e of (b, c) \<Rightarrow> if c then b\<lparr>en_clipped := True\<rparr> else b)"
  by (simp add: bound_def reduced_def Let_def split: prod.splits)

lemma reduced_kept:
  assumes "own_names (JObj (en_payload e))" and "\<not> snd (reduced e)"
  shows "reduced e = (e, False)"
proof -
  obtain e1 c1 e2 c2 where c: "clip_label e = (e1, c1)" "clip_refs e1 = (e2, c2)" by fastforce
  define ec2 where "ec2 = with_budget (en_payload e) max_payload_text (e2, c1 \<or> c2)"
  define ec3 where "ec3 = shrink_texts (en_payload e) max_payload_text ec2"
  define ec4 where "ec4 = (if too_big (fst ec3) then drop_members (rev (sort (map fst (en_payload (fst ec3))))) ec3 else ec3)"
  have r: "reduced e = drop_refs ec4"
    by (simp add: reduced_def c ec2_def ec3_def ec4_def Let_def)
  with assms(2) have "\<not> snd (drop_refs ec4)" by simp
  then have 4: "drop_refs ec4 = ec4" "\<not> snd ec4" using drop_refs_kept [of ec4] by simp_all
  have "ec4 = ec3 \<and> \<not> snd ec3" 
    using 4(2) drop_members_kept [of "rev (sort (map fst (en_payload (fst ec3))))" ec3]
    by (cases "too_big (fst ec3)") (simp_all add: ec4_def)
  then have 3: "ec4 = ec3" "\<not> snd ec3" by simp_all
  have "ec3 = ec2 \<and> \<not> snd ec2" 
    using 3(2) shrink_texts_kept [of "en_payload e" max_payload_text ec2] by (simp add: ec3_def)
  then have 2: "ec3 = ec2" "\<not> snd ec2" by simp_all
  then have "ec2 = (e2\<lparr>en_payload := en_payload e\<rparr>, False)" "\<not> c1" "\<not> c2"
    using with_budget_kept [OF assms(1)] unfolding ec2_def by auto
  moreover from this have "e1 = e" "e2 = e" using c clip_label_kept [of e] clip_refs_kept [of e1] by auto
  ultimately show ?thesis using r 4 3 2 by simp
qed

text \<open>Every step keeps the head, and establishes or keeps its bound.\<close>

definition kept_bounds :: "envelope \<Rightarrow> envelope \<Rightarrow> bool" where
  "kept_bounds e b \<longleftrightarrow> same_head e b \<and> en_clipped b = en_clipped e \<and> label_within b \<and> refs_within b \<and>
     set (map vr_kind (en_refs b)) \<subseteq> set (map vr_kind (en_refs e)) \<and> payload_within b"

lemma clips_keep_bounds:
  assumes "b = fst (clip_refs (fst (clip_label e)))"
  shows "same_head e b \<and> en_clipped b = en_clipped e \<and> label_within b \<and> refs_within b \<and>
     set (map vr_kind (en_refs b)) \<subseteq> set (map vr_kind (en_refs e))"
  using octet_count_clip [of max_label] octet_count_clip [of max_ref]
  by (auto simp: assms clip_refs_def clip_label_def Let_def same_head_def label_within_def refs_within_def
      max_label_def max_ref_def dest!: in_set_takeD)

lemma with_budget_within:
  assumes "0 \<le> b" and "b \<le> max_payload_text"
  shows "payload_within (fst (with_budget p b ec)) \<and>
     fst (with_budget p b ec) = fst ec\<lparr>en_payload := en_payload (fst (with_budget p b ec))\<rparr>"
proof -
  obtain ms t where v: "bound_value (JObj p) b 0 = (JObj ms, t)"
    by (cases "bound_members p b 1 []") (auto simp: max_payload_depth_def)
  then have "payload_violation (JObj ms) 0 = None"
    using bounded_within(1) [OF assms, of 0 "JObj p"] by simp
  with v show ?thesis by (cases ec) (simp add: with_budget_def payload_within_def del: bound_value_cons)
qed

lemma kept_bounds_payload:
  "kept_bounds e b \<Longrightarrow> payload_within (b\<lparr>en_payload := ms\<rparr>) \<Longrightarrow> kept_bounds e (b\<lparr>en_payload := ms\<rparr>)"
  by (simp add: kept_bounds_def same_head_def label_within_def refs_within_def)

lemma with_budget_kept_bounds:
  "0 \<le> b \<Longrightarrow> b \<le> max_payload_text \<Longrightarrow> kept_bounds e (fst ec) \<Longrightarrow> kept_bounds e (fst (with_budget p b ec))"
  using with_budget_within [of b p ec] kept_bounds_payload [of e "fst ec"] by metis

lemma shrink_texts_kept_bounds:
  "0 \<le> b \<Longrightarrow> b \<le> max_payload_text \<Longrightarrow> kept_bounds e (fst ec) \<Longrightarrow> kept_bounds e (fst (shrink_texts p b ec))"
proof (induction p b ec rule: shrink_texts.induct)
  case (1 p b ec)
  obtain e' c' where w: "with_budget p (b div 2) ec = (e', c')" by fastforce
  show ?case
  proof (cases "too_big (fst ec) \<and> 64 < b")
    case True
    then have "kept_bounds e e'"
      using with_budget_kept_bounds [of "b div 2" e ec p] 1(3,4) w by (simp add: max_payload_text_def 1)
    moreover have "0 \<le> b div 2" "b div 2 \<le> max_payload_text" using True 1(3) by linarith+
    ultimately have "kept_bounds e (fst (shrink_texts p (b div 2) (e', True)))"
      using 1(1) [OF True w [symmetric]] by simp
    then show ?thesis using True w by (subst shrink_texts.simps) simp
  next
    case False
    then show ?thesis using 1(4) by (subst shrink_texts.simps) auto
  qed
qed

lemma drop_members_kept_bounds: "kept_bounds e (fst ec) \<Longrightarrow> kept_bounds e (fst (drop_members ks ec))"
proof (induction ks ec rule: drop_members.induct)
  case (2 k ks b c)
  let ?ms = "filter (\<lambda>m. fst m \<noteq> k \<and> fst m \<noteq> k @ ''_length'') (en_payload b)"
  have "payload_within (b\<lparr>en_payload := ?ms\<rparr>)"
    using 2(2) by (auto simp: kept_bounds_def payload_within_def members_violation_None split: if_splits)
  then have "kept_bounds e (b\<lparr>en_payload := ?ms\<rparr>)"
    using 2(2) kept_bounds_payload [of e b ?ms] by simp
  with 2 show ?case by simp
qed simp

lemma drop_refs_kept_bounds: "kept_bounds e (fst ec) \<Longrightarrow> kept_bounds e (fst (drop_refs ec))"
proof (induction ec rule: drop_refs.induct)
  case (1 b c)
  have "set (map vr_kind (butlast (en_refs b))) \<subseteq> set (map vr_kind (en_refs b))" by (auto dest: in_set_butlastD)
  then have "kept_bounds e (b\<lparr>en_refs := butlast (en_refs b)\<rparr>)"
    using 1(2) by (auto simp: kept_bounds_def same_head_def label_within_def refs_within_def payload_within_def
        dest: in_set_butlastD simp del: set_map)
  with 1 show ?case by (subst drop_refs.simps) auto
qed

lemma reduced_kept_bounds: "kept_bounds e (fst (reduced e))"
proof -
  obtain e1 c1 e2 c2 where c: "clip_label e = (e1, c1)" "clip_refs e1 = (e2, c2)" by fastforce
  define w where "w = fst (with_budget (en_payload e) max_payload_text (e2, c1 \<or> c2))"
  have w: "payload_within w" "w = e2\<lparr>en_payload := en_payload w\<rparr>"
    unfolding w_def using with_budget_within [of max_payload_text "en_payload e" "(e2, c1 \<or> c2)"]
    by (simp_all add: max_payload_text_def)
  from w(2) obtain ms where ms: "w = e2\<lparr>en_payload := ms\<rparr>" by blast
  have "kept_bounds e w"
    using clips_keep_bounds [of e2 e] w(1) unfolding ms kept_bounds_def
    by (simp add: c same_head_def label_within_def refs_within_def)
  then show ?thesis
    unfolding w_def by (simp add: reduced_def c Let_def shrink_texts_kept_bounds drop_members_kept_bounds drop_refs_kept_bounds
        max_payload_text_def)
qed

section \<open>The size of an envelope\<close>

lemma json_depth_envelope: "payload_within e \<Longrightarrow> json_depth (JObj (envelope_members e)) \<le> 9"
  using payload_depth [of "JObj (en_payload e)" 0]
  by (auto simp: payload_within_def envelope_members_def actor_json_def ref_json_def json_depth_le max_payload_depth_def
      simp del: json_depth.simps(1,2) payload_violation_cons split: option.splits)

lemma canonical_envelope:
  assumes "payload_within e"
  obtains bs where "canonical_bytes (JObj (envelope_members e)) = Some bs" "form_octets e = int (length bs)"
    "form_octets e = 2 + sum_list (map (member_octets 1) (envelope_members e)) + int (length (envelope_members e) - 1)"
proof -
  have "canonical_bytes (JObj (envelope_members e)) \<noteq> None"
    unfolding canonical_bytes_defined using json_depth_envelope [OF assms] by simp
  then obtain bs where "canonical_bytes (JObj (envelope_members e)) = Some bs" by blast
  with canonical_octets [OF this] that show thesis by (simp add: form_octets_def)
qed

lemma form_octets_sum:
  "payload_within e \<Longrightarrow>
     form_octets e = 2 + sum_list (map (member_octets 1) (envelope_members e)) + int (length (envelope_members e) - 1)"
  by (erule canonical_envelope)

lemma octets_mark: "octet_count (serialize_string ''clipped'') = 9" "octet_count ''true'' = 4"
  by (code_simp, code_simp)

lemma form_octets_marked:
  assumes "payload_within e" and "\<not> en_clipped e"
  shows "form_octets (e\<lparr>en_clipped := True\<rparr>) = form_octets e + 15"
proof -
  have "payload_within (e\<lparr>en_clipped := True\<rparr>)" using assms(1) by (simp add: payload_within_def)
  moreover have "member_octets (Suc 0) (''clipped'', JBool True) = 14"
    by (simp add: member_octets_def write_json.simps max_canonicalization_depth_def octets_mark)
  ultimately show ?thesis
    using assms by (simp add: form_octets_sum envelope_members_def actor_json_def)
qed

lemma octets_id: "octet_count (serialize_string ''id'') = 4"
  by code_simp

lemma lower_hex_plain:
  "is_lower_hex c \<Longrightarrow> 32 \<le> (of_char c :: nat) \<and> of_char c < (128 :: nat) \<and> of_char c \<noteq> (34 :: nat) \<and> of_char c \<noteq> (92 :: nat)"
  by (auto simp: is_lower_hex_def is_digit_def less_eq_char_def)

lemma form_octets_id:
  assumes "payload_within e" and "hex64 i"
    and "canonical_bytes (JObj (envelope_members e @ [(''id'', JStr i)])) = Some bs"
  shows "int (length bs) = form_octets e + 72"
proof -
  have "octet_count (serialize_string i) = 66"
    using assms(2) lower_hex_plain by (subst plain_octets) (auto simp: hex64_def list_all_iff)
  then have "member_octets 1 (''id'', JStr i) = 71"
    by (simp add: member_octets_def write_json.simps max_canonicalization_depth_def octets_id)
  moreover have "envelope_members e \<noteq> []" by (simp add: envelope_members_def)
  ultimately show ?thesis
    using canonical_octets [OF assms(3)] form_octets_sum [OF assms(1)] by (cases "envelope_members e") simp_all
qed

text \<open>Once the payload and the references are gone, what is left is short.\<close>

definition short_head :: "envelope \<Rightarrow> bool" where
  "short_head e \<longleftrightarrow> octet_count (en_source e) \<le> max_label \<and> octet_count (en_kind e) \<le> max_label \<and>
     (\<forall>x. en_external_id e = Some x \<longrightarrow> octet_count x \<le> max_label) \<and>
     octet_count (text_of (en_occurred_at e)) \<le> max_label \<and> octet_count (text_of (en_received_at e)) \<le> max_label \<and>
     hex64 (en_persona e)"

lemma octet_count_le: "octet_count s \<le> 2 * int (length s)"
  by (induction s) (auto simp: octet_count_char)

lemma string_member_octets:
  assumes "d \<le> 256"
  shows "member_octets d (k, JStr s) \<le> 6 * octet_count k + 6 * octet_count s + 5"
  using assms serialize_octets [of k] serialize_octets [of s]
  by (simp add: member_octets_def write_json.simps max_canonicalization_depth_def)

lemma actor_member_octets:
  assumes "label_within e" and "\<And>x. en_external_id e = Some x \<Longrightarrow> octet_count x \<le> max_label"
  shows "member_octets (Suc 0) (''actor'', actor_json e) \<le> 3000"
proof -
  have "json_depth (actor_json e) \<le> 255"
    by (auto simp: actor_json_def json_depth_le simp del: json_depth.simps(1,2) split: option.splits)
  then obtain t where t: "write_json (Suc 0) (actor_json e) = Some t"
    using write_json_defined [of "Suc 0" "actor_json e"] by (auto simp: max_canonicalization_depth_def)
  have l: "member_octets 2 (''label'', JStr (en_label e)) \<le> 1235"
    using string_member_octets [of 2 "''label''" "en_label e"] assms(1)
    by (simp add: label_within_def max_label_def octet_count_char)
  have x: "member_octets 2 (''external_id'', JStr x) \<le> 1271" if "en_external_id e = Some x" for x
    using string_member_octets [of 2 "''external_id''" x] assms(2) [OF that]
    by (simp add: max_label_def octet_count_char)
  have "octet_count t \<le> 2600"
    using written_object [OF t [unfolded actor_json_def]] l x
    by (cases "en_external_id e") (simp_all add: numeral_2_eq_2 [symmetric])
  moreover have "octet_count (serialize_string ''actor'') = 7" by code_simp
  ultimately show ?thesis using t by (simp add: member_octets_def)
qed

lemma stripped_is_small:
  assumes "short_head e" and "label_within e" and "en_payload e = []" and "en_refs e = []"
  shows "form_octets e \<le> 20000"
proof -
  have "payload_within e" using assms(3) by (simp add: payload_within_def max_payload_depth_def)
  note f = form_octets_sum [OF this]
  have m: "member_octets (Suc 0) (k, JStr s) \<le> 6 * octet_count k + 1205" if "octet_count s \<le> max_label" for k s
    using string_member_octets [of "Suc 0" k s] that by (simp add: max_label_def)
  have p: "octet_count (en_persona e) \<le> max_label"
    using assms(1) octet_count_le [of "en_persona e"] by (simp add: short_head_def hex64_def max_label_def)
  have c: "octet_count protocol_version \<le> max_label" "octet_count ''envelope'' \<le> max_label"
    by (simp_all add: protocol_version_def max_label_def octet_count_char)
  have e: "member_octets (Suc 0) (''payload'', JObj []) = 12" "member_octets (Suc 0) (''refs'', JArr []) = 9"
    "member_octets (Suc 0) (''clipped'', JBool True) = 14"
    by (code_simp, code_simp, code_simp)
  show ?thesis
    using m [OF c(1), of "''v''"] m [OF c(2), of "''type''"] m [of "en_source e" "''source''"] m [of "en_kind e" "''kind''"]
      m [of "text_of (en_occurred_at e)" "''occurred_at''"] m [of "text_of (en_received_at e)" "''received_at''"]
      m [OF p, of "''persona''"] actor_member_octets [OF assms(2)] assms(1)
    unfolding f by (simp add: envelope_members_def assms(3,4) e short_head_def octet_count_char)
qed

section \<open>What bounding reaches\<close>

lemma drop_members_reach:
  "\<not> too_big (fst (drop_members ks ec)) \<or> (\<forall>m \<in> set (en_payload (fst (drop_members ks ec))). fst m \<notin> set ks)"
  "set (en_payload (fst (drop_members ks ec))) \<subseteq> set (en_payload (fst ec))"
  by (induction ks ec rule: drop_members.induct) auto

lemma drop_refs_reach: "\<not> too_big (fst (drop_refs ec)) \<or> en_refs (fst (drop_refs ec)) = []"
  by (induction ec rule: drop_refs.induct) (subst (1 2) drop_refs.simps, auto)

lemma drop_refs_payload: "en_payload (fst (drop_refs ec)) = en_payload (fst ec)"
  by (induction ec rule: drop_refs.induct) (subst drop_refs.simps, auto)

lemma drop_refs_fits: "\<not> too_big (fst ec) \<Longrightarrow> drop_refs ec = ec"
  by (cases ec) (simp add: drop_refs.simps)

lemma reduced_reach: "\<not> too_big (fst (reduced e)) \<or> en_payload (fst (reduced e)) = [] \<and> en_refs (fst (reduced e)) = []"
proof -
  obtain e1 c1 e2 c2 where c: "clip_label e = (e1, c1)" "clip_refs e1 = (e2, c2)" by fastforce
  define ec3 where "ec3 = shrink_texts (en_payload e) max_payload_text (with_budget (en_payload e) max_payload_text (e2, c1 \<or> c2))"
  define ks where "ks = rev (sort (map fst (en_payload (fst ec3))))"
  define ec4 where "ec4 = (if too_big (fst ec3) then drop_members ks ec3 else ec3)"
  have r: "reduced e = drop_refs ec4"
    by (simp add: reduced_def c ec3_def ec4_def ks_def Let_def)
  show ?thesis
  proof (cases "too_big (fst ec4)")
    case False
    then show ?thesis by (simp add: r drop_refs_fits)
  next
    case True
    then have "ec4 = drop_members ks ec3" by (auto simp: ec4_def split: if_splits)
    with True have "\<forall>m \<in> set (en_payload (fst ec4)). fst m \<notin> set ks" "set (en_payload (fst ec4)) \<subseteq> set (en_payload (fst ec3))"
      using drop_members_reach [of ks ec3] by auto
    then have "en_payload (fst ec4) = []" by (cases "en_payload (fst ec4)") (auto simp: ks_def)
    then show ?thesis using drop_refs_reach [of ec4] by (simp add: r drop_refs_payload)
  qed
qed

text \<open>With a short head, bounding always brings an envelope inside; its own mark may put it outside again.\<close>

lemma reduced_fits:
  assumes "short_head e"
  shows "\<not> too_big (fst (reduced e))"
proof
  assume big: "too_big (fst (reduced e))"
  have k: "kept_bounds e (fst (reduced e))" by (rule reduced_kept_bounds)
  then have "short_head (fst (reduced e))" "label_within (fst (reduced e))"
    using assms by (auto simp: kept_bounds_def same_head_def short_head_def)
  moreover have "en_payload (fst (reduced e)) = []" "en_refs (fst (reduced e)) = []"
    using reduced_reach [of e] big by auto
  ultimately have "form_octets (fst (reduced e)) \<le> 20000" by (rule stripped_is_small)
  then show False using big by (simp add: too_big_def max_envelope_octets_def)
qed

lemma bound_kept:
  "same_head e (bound e)" "label_within (bound e)" "refs_within (bound e)" "payload_within (bound e)"
  "set (map vr_kind (en_refs (bound e))) \<subseteq> set (map vr_kind (en_refs e))"
  using reduced_kept_bounds [of e]
  by (auto simp: bound_reduced kept_bounds_def same_head_def label_within_def refs_within_def payload_within_def
      split: prod.splits)

lemma bound_octets:
  assumes "short_head e"
  shows "form_octets (bound e) \<le> max_envelope_octets + 15"
    and "\<not> en_clipped (bound e) \<or> en_clipped e \<Longrightarrow> form_octets (bound e) \<le> max_envelope_octets"
proof -
  obtain b c where r: "reduced e = (b, c)" by fastforce
  have b: "payload_within b" "en_clipped b = en_clipped e" "form_octets b \<le> max_envelope_octets"
    using reduced_kept_bounds [of e] reduced_fits [OF assms] r by (auto simp: kept_bounds_def too_big_def)
  have m: "bound e = b\<lparr>en_clipped := en_clipped b \<or> c\<rparr>" by (cases c; cases b) (simp_all add: bound_reduced r)
  show "form_octets (bound e) \<le> max_envelope_octets + 15"
    using form_octets_marked [OF b(1)] b(3) unfolding m by (cases "en_clipped b"; cases c; cases b) auto
  show "form_octets (bound e) \<le> max_envelope_octets" if "\<not> en_clipped (bound e) \<or> en_clipped e"
    using that b unfolding m by (cases b) auto
qed

section \<open>The test of an envelope\<close>

lemma json_member_obj [simp]: "json_member (JObj ms) k = map_of ms k"
  by (simp add: json_member_def)

lemma text_over_str [simp]: "text_over (Some (JStr s)) n \<longleftrightarrow> n < octet_count s" "\<not> text_over None n"
  by (simp_all add: text_over_def)

lemma refs_violation_json:
  "refs_violation (Some (JArr (map ref_json rs))) =
     (if max_refs < length rs then Some TooManyRefs
      else if \<exists>r \<in> set rs. max_ref < octet_count (vr_value r) then Some RefTooLong else None)"
  by (simp add: refs_violation_def ref_json_def)

text \<open>The test reads the same members with and without the identifier.\<close>

lemma bounds_violation_members:
  assumes "xs = [] \<or> (\<exists>i. xs = [(''id'', JStr i)])"
  shows "bounds_violation (JObj (envelope_members e @ xs)) =
     (if \<not> label_within e then Inr (Some LabelTooLong)
      else if \<exists>x. en_external_id e = Some x \<and> max_label < octet_count x then Inr (Some ExternalIdTooLong)
      else if max_label < octet_count (en_source e) then Inr (Some (MemberTooLong ''source''))
      else if max_label < octet_count (en_kind e) then Inr (Some (MemberTooLong ''kind''))
      else if max_refs < length (en_refs e) then Inr (Some TooManyRefs)
      else if \<exists>r \<in> set (en_refs e). max_ref < octet_count (vr_value r) then Inr (Some RefTooLong)
      else case payload_violation (JObj (en_payload e)) 0 of
        Some r \<Rightarrow> Inr (Some r)
      | None \<Rightarrow>
          (case canonical_bytes (JObj (envelope_members e @ xs)) of
             None \<Rightarrow> Inl TooDeepToCanonicalize
           | Some bs \<Rightarrow>
               Inr (if max_envelope_octets < int (length bs) then Some (FormTooLarge (int (length bs))) else None)))"
proof -
  define ms where "ms = envelope_members e @ xs"
  have l: "map_of ms ''source'' = Some (JStr (en_source e))" "map_of ms ''kind'' = Some (JStr (en_kind e))"
    "map_of ms ''actor'' = Some (actor_json e)" "map_of ms ''refs'' = Some (JArr (map ref_json (en_refs e)))"
    "map_of ms ''payload'' = Some (JObj (en_payload e))"
    by (simp_all add: ms_def envelope_members_def)
  have a: "json_member (actor_json e) ''label'' = Some (JStr (en_label e))"
    "json_member (actor_json e) ''external_id'' = map_option JStr (en_external_id e)"
    by (simp_all add: actor_json_def split: option.splits)
  show ?thesis
    unfolding ms_def [symmetric] bounds_violation_def
    by (cases "en_external_id e")
      (simp_all add: l a label_within_def refs_violation_json not_less del: payload_violation_cons cong: if_cong, fastforce+)
qed

lemma envelope_within_bounds:
  "bounds_violation (JObj (envelope_members e)) = Inr None \<Longrightarrow>
     label_within e \<and> refs_within e \<and> payload_within e \<and> form_octets e \<le> max_envelope_octets"
  using bounds_violation_members [of "[]" e]
  by (auto simp: refs_within_def payload_within_def form_octets_def not_less
      simp del: payload_violation_cons split: if_splits option.splits)

lemma bounds_violation_within:
  assumes "label_within e" and "refs_within e" and "payload_within e" and "short_head e"
  shows "bounds_violation (JObj (envelope_members e)) =
     Inr (if max_envelope_octets < form_octets e then Some (FormTooLarge (form_octets e)) else None)"
proof -
  obtain bs where "canonical_bytes (JObj (envelope_members e)) = Some bs" "form_octets e = int (length bs)"
    using canonical_envelope [OF assms(3)] by blast
  moreover have "\<not> (\<exists>x. en_external_id e = Some x \<and> max_label < octet_count x)"
    using assms(4) by (fastforce simp: short_head_def)
  ultimately show ?thesis
    using assms bounds_violation_members [of "[]" e]
    by (simp add: short_head_def refs_within_def payload_within_def not_less del: payload_violation_cons)
qed

text \<open>When only the label is too long, only the label is cut.\<close>

lemma reduced_label:
  assumes "own_names (JObj (en_payload e))" and "refs_within e" and "payload_within e"
    and "b = e\<lparr>en_label := clip (en_label e) max_label\<rparr>" and "form_octets b \<le> max_envelope_octets"
  shows "reduced e = (b, clip (en_label e) max_label \<noteq> en_label e)"
proof -
  define c where "c \<longleftrightarrow> clip (en_label e) max_label \<noteq> en_label e"
  have l: "clip_label e = (b, c)" by (simp add: clip_label_def assms(4) c_def Let_def)
  have "map (\<lambda>r. r\<lparr>vr_value := clip (vr_value r) max_ref\<rparr>) (en_refs b) = en_refs b"
    using assms(2,4) by (intro map_idI) (simp add: refs_within_def clip_fits)
  then have r: "clip_refs b = (b, False)" using assms(2,4) by (simp add: clip_refs_def refs_within_def)
  obtain v t where v: "bound_value (JObj (en_payload e)) max_payload_text 0 = (v, t)" by fastforce
  have "\<not> snd (bound_value (JObj (en_payload e)) max_payload_text 0)"
    using assms(3) by (intro bound_conforming) (simp add: payload_within_def)
  then have t: "\<not> t" by (simp add: v del: bound_value_cons)
  then have "v = JObj (en_payload e)"
    using bound_unclipped(1) [OF assms(1), of max_payload_text 0] v by (simp del: bound_value_cons)
  with t v have w: "with_budget (en_payload e) max_payload_text (b, c) = (b, c)"
    by (cases e) (simp add: with_budget_def assms(4) del: bound_value_cons)
  have "\<not> too_big b" using assms(5) by (simp add: too_big_def)
  then show ?thesis
    unfolding c_def [symmetric] by (simp add: reduced_def l r w Let_def shrink_texts.simps drop_refs_fits)
qed

lemma bound_conforming_envelope:
  assumes "own_names (JObj (en_payload e))" and "bounds_violation (JObj (envelope_members e)) = Inr None"
  shows "reduced e = (e, False)"
proof -
  note w = envelope_within_bounds [OF assms(2)]
  then have "clip (en_label e) max_label = en_label e" by (simp add: label_within_def clip_fits)
  then show ?thesis using reduced_label [OF assms(1), of e] w by simp
qed

section \<open>Sealing\<close>

definition envelope_schema :: "envelope \<Rightarrow> bool" where
  "envelope_schema e \<longleftrightarrow> en_source e \<noteq> [] \<and> en_kind e \<noteq> [] \<and> hex64 (en_persona e) \<and>
     (\<forall>r \<in> set (en_refs e). vr_kind r \<in> set envelope_ref_kinds)"

lemma required_Some [simp]: "map_of ms k = Some j \<Longrightarrow> required f ms k = f j"
  by (simp add: required_def)

lemma parse_ref_json: "vr_kind r \<in> set envelope_ref_kinds \<Longrightarrow> parse_envelope_ref (ref_json r) = Some r"
  by (simp add: parse_envelope_ref_def ref_json_def object_of_def required_def)

lemma parse_actor_json: "parse_actor (actor_json e) = Some (en_label e, en_external_id e)"
  by (auto simp: parse_actor_def actor_json_def object_of_def required_def optional_def split: option.splits)

lemma parse_unidentified_members:
  assumes "envelope_schema e" and "xs = [] \<or> (\<exists>i. xs = [(''id'', JStr i)])"
  shows "parse_unidentified (JObj (envelope_members e @ xs)) = Some e"
proof -
  define ms where "ms = envelope_members e @ xs"
  have l: "map_of ms ''source'' = Some (JStr (en_source e))" "map_of ms ''kind'' = Some (JStr (en_kind e))"
    "map_of ms ''actor'' = Some (actor_json e)" "map_of ms ''refs'' = Some (JArr (map ref_json (en_refs e)))"
    "map_of ms ''payload'' = Some (JObj (en_payload e))"
    "map_of ms ''occurred_at'' = Some (JStr (text_of (en_occurred_at e)))"
    "map_of ms ''received_at'' = Some (JStr (text_of (en_received_at e)))"
    "map_of ms ''persona'' = Some (JStr (en_persona e))" "tagged ''envelope'' ms"
    "map_of ms ''clipped'' = (if en_clipped e then Some (JBool True) else None)"
    using assms(2) by (auto simp: ms_def envelope_members_def tagged_def)
  have "all_some (map (parse_envelope_ref \<circ> ref_json) (en_refs e)) = Some (map id (en_refs e))"
    using assms(1) by (intro all_some_map) (simp add: parse_ref_json envelope_schema_def)
  then have "array_of parse_envelope_ref (JArr (map ref_json (en_refs e))) = Some (en_refs e)"
    by (simp add: array_of_def)
  then show ?thesis
    using assms(1) unfolding ms_def [symmetric]
    by (cases e) (auto simp: parse_unidentified_def object_of_def l parse_actor_json defaulted_def optional_def
        true_literal_def envelope_schema_def nonempty_text_def)
qed

lemma all_some_set: "all_some xs = Some ys \<Longrightarrow> y \<in> set ys \<Longrightarrow> Some y \<in> set xs"
  by (induction xs arbitrary: ys) (auto split: option.splits)

lemma text_where_Some: "text_where P j = Some s \<Longrightarrow> P s"
  by (auto simp: text_where_def split: json.splits if_splits)

lemma required_SomeD: "required f ms k = Some x \<Longrightarrow> \<exists>j. f j = Some x"
  by (auto simp: required_def split: option.splits)

lemma parse_ref_kind: "parse_envelope_ref j = Some r \<Longrightarrow> vr_kind r \<in> set envelope_ref_kinds"
  by (auto simp: parse_envelope_ref_def object_of_def bind_eq_Some_conv
      dest!: required_SomeD dest: text_where_Some split: json.splits)

lemma parse_refs_kinds:
  "defaulted [] (array_of parse_envelope_ref) ms k = Some rs \<Longrightarrow> r \<in> set rs \<Longrightarrow> vr_kind r \<in> set envelope_ref_kinds"
  by (auto simp: defaulted_def array_of_def split: option.splits json.splits dest!: all_some_set dest!: sym [of "Some r"] intro: parse_ref_kind)

lemma parse_unidentified_schema:
  assumes "parse_unidentified j = Some e"
  shows "envelope_schema e"
proof -
  from assms obtain ms where j: "j = JObj ms" and t: "tagged ''envelope'' ms"
    by (auto simp: parse_unidentified_def object_of_def split: json.splits if_splits)
  have "\<exists>f g h. required (text_where nonempty_text) ms ''source'' = Some (en_source e) \<and>
      required (text_where nonempty_text) ms ''kind'' = Some (en_kind e) \<and>
      defaulted [] (array_of parse_envelope_ref) ms ''refs'' = Some (en_refs e) \<and>
      required (text_where hex64) ms ''persona'' = Some (en_persona e)"
    using assms t by (auto simp: parse_unidentified_def object_of_def j bind_eq_Some_conv)
  then show ?thesis
    by (auto simp: envelope_schema_def nonempty_text_def dest!: required_SomeD dest: text_where_Some parse_refs_kinds)
qed

lemma parse_envelope_members:
  assumes "envelope_schema e" and "hex64 i"
  shows "parse_envelope (JObj (envelope_members e @ [(''id'', JStr i)])) = Some (i, e)"
proof -
  have "map_of (envelope_members e @ [(''id'', JStr i)]) ''id'' = Some (JStr i)" by (simp add: envelope_members_def)
  then show ?thesis
    using parse_unidentified_members [of e "[(''id'', JStr i)]"] assms by (simp add: parse_envelope_def object_of_def)
qed

lemma bound_schema: "envelope_schema e \<Longrightarrow> envelope_schema (bound e)"
  using bound_kept [of e] by (auto simp: envelope_schema_def same_head_def)

text \<open>What sealing is, for a candidate that passes the schema.\<close>

lemma seal_parsed:
  assumes "parse_unidentified j = Some e"
  shows "seal_envelope cl j =
     bind_result (bounds_violation (JObj (envelope_members (bound e)))) (\<lambda>violation.
       case violation of
         Some r \<Rightarrow> Inl (OutOfBounds r)
       | None \<Rightarrow>
           (case envelope_id cl (JObj (envelope_members (bound e))) of
              None \<Rightarrow> Inl TooDeepToCanonicalize
            | Some i \<Rightarrow>
                (case parse_envelope (JObj (envelope_members (bound e) @ [(''id'', JStr i)])) of
                   None \<Rightarrow> Inl SchemaRefused
                 | Some ie \<Rightarrow> Inr ie)))"
  using assms parse_unidentified_members [of "bound e" "[]"] bound_schema [OF parse_unidentified_schema [OF assms]]
  by (simp add: seal_envelope_def)

section \<open>Envelopes at the bound\<close>

definition run_of :: "nat \<Rightarrow> string" where
  "run_of n = replicate n CHR ''x''"

text \<open>A label of \<open>l\<close> octets, seven payload texts as long as they may be and an eighth of \<open>m\<close>.\<close>

definition full_envelope :: "nat \<Rightarrow> nat \<Rightarrow> envelope" where
  "full_envelope l m =
     \<lparr>en_source = ''ci'', en_kind = ''push'', en_occurred_at = stamp ''1970-01-01T00:00:00Z'',
      en_received_at = stamp ''1970-01-01T00:00:00Z'', en_label = run_of l, en_external_id = None,
      en_payload = map (\<lambda>k. ([k], JStr (run_of 8192))) ''abcdefg'' @ [(''h'', JStr (run_of m))],
      en_refs = [], en_clipped = False, en_persona = alice\<rparr>"

lemma octets_run [simp]: "octet_count (run_of n) = int n" "octet_count (serialize_string (run_of n)) = int n + 2"
proof -
  show "octet_count (run_of n) = int n"
    unfolding run_of_def by (induction n) (simp_all add: octet_count_char)
  show "octet_count (serialize_string (run_of n)) = int n + 2"
    by (subst plain_octets) (auto simp: run_of_def)
qed

lemma full_head: "short_head (full_envelope l m)"
  by (simp add: short_head_def full_envelope_def text_of_stamp is_rfc3339_epoch octet_count_char max_label_def parties_hex64)

lemma full_schema: "envelope_schema (full_envelope l m)"
  by (simp add: envelope_schema_def full_envelope_def parties_hex64)

lemma full_names: "own_names (JObj (en_payload (full_envelope l m)))"
  by (simp add: full_envelope_def)

lemma full_within: "m \<le> 8192 \<Longrightarrow> payload_within (full_envelope l m) \<and> refs_within (full_envelope l m)"
  by (simp add: payload_within_def refs_within_def full_envelope_def max_payload_depth_def max_payload_text_def)

lemma full_octets:
  assumes "m \<le> 8192"
  shows "form_octets (full_envelope l m) = 57660 + int l + int m"
proof -
  have "octet_count (serialize_string alice) = 66" by (subst plain_octets) (auto simp: alice_def)
  moreover have "form_octets (full_envelope l m) =
      2 + sum_list (map (member_octets 1) (envelope_members (full_envelope l m))) + int (length (envelope_members (full_envelope l m)) - 1)"
    using full_within [OF assms] by (intro form_octets_sum) simp
  ultimately show ?thesis
    by (simp add: envelope_members_def full_envelope_def actor_json_def member_octets_def write_json.simps
      max_canonicalization_depth_def object_octets octet_count_char text_of_stamp is_rfc3339_epoch plain_octets protocol_version_def)
qed

lemma full_unmarked: "\<not> en_clipped (full_envelope l m)"
  by (simp add: full_envelope_def)

lemma take_run: "take k (run_of n) = run_of (min k n)"
  by (simp add: run_of_def min.commute)

lemma clip_run: "clip (run_of 201) 200 = run_of 200"
proof -
  obtain k where "k < length (run_of 201)" "clip (run_of 201) 200 = take k (run_of 201)"
    "octet_count (take k (run_of 201)) \<le> 200" "200 < octet_count (take (Suc k) (run_of 201))"
    by (rule clip_cut [of 200 "run_of 201"]) simp_all
  then have "k = 200 \<and> clip (run_of 201) 200 = run_of k" by (auto simp: take_run min_def split: if_splits)
  then show ?thesis by blast
qed

lemma full_bound: "form_octets (bound (full_envelope 201 7676)) = 65551"
proof -
  have b: "full_envelope 200 7676 = full_envelope 201 7676\<lparr>en_label := clip (en_label (full_envelope 201 7676)) max_label\<rparr>"
    by (simp add: full_envelope_def max_label_def clip_run)
  have "run_of 200 \<noteq> run_of 201" by (simp add: run_of_def)
  then have "clip (en_label (full_envelope 201 7676)) max_label \<noteq> en_label (full_envelope 201 7676)"
    by (simp add: full_envelope_def max_label_def clip_run)
  moreover have "form_octets (full_envelope 200 7676) = 65536" by (simp add: full_octets)
  ultimately have "bound (full_envelope 201 7676) = full_envelope 200 7676\<lparr>en_clipped := True\<rparr>"
    using reduced_label [OF full_names _ _ b] full_within [of 7676 201]
    by (simp add: bound_reduced max_envelope_octets_def)
  then show ?thesis
    using form_octets_marked [of "full_envelope 200 7676"] full_within [of 7676 200]
    by (simp add: full_unmarked full_octets)
qed

lemma sample_hash_length: "length (lib_sha256 sample_lib bs) = 32"
  by (simp add: sample_lib_def)

text \<open>A nested member of that name is lost, and no cut is reported.\<close>

lemma nested_prototype_is_lost:
  "bound_value (JObj [(''a'', JObj [(''__proto__'', JStr ''x'')])]) 8192 0 = (JObj [(''a'', JObj [])], False)"
  by code_simp

section \<open>The properties\<close>

text \<open>
  C31: an observation that arrives unmarked is marked as cut exactly when it was outside the bounds, and if it is
  not marked it is what the connector handed over, every member of it (M-19). This is for a short head (source,
  kind, external identifier and the two times of at most 200 octets each, and a persona of 64 hexadecimal
  digits: \<^const>\<open>short_head\<close>) and for a payload in which, at every depth, no name comes twice and none is
  \<^verbatim>\<open>__proto__\<close> (\<^const>\<open>own_names\<close>): a nested member of that name is lost without the mark
  (\<open>nested_prototype_is_lost\<close>).
\<close>

theorem marked_exactly_when_cut:
  assumes "short_head e" and "own_names (JObj (en_payload e))" and "\<not> en_clipped e"
  shows "(en_clipped (bound e) \<longleftrightarrow> bounds_violation (JObj (envelope_members e)) \<noteq> Inr None) \<and>
     (en_clipped (bound e) \<or> bound e = e)"
proof -
  have same: "bound e = e" if "\<not> en_clipped (bound e)"
  proof -
    have "\<not> snd (reduced e)" using that by (auto simp: bound_reduced split: prod.splits)
    from reduced_kept [OF assms(2) this] show ?thesis by (simp add: bound_reduced)
  qed
  moreover have "bounds_violation (JObj (envelope_members e)) = Inr None" if "\<not> en_clipped (bound e)"
    using bound_kept [of e] bound_octets(2) [OF assms(1)] bounds_violation_within [OF _ _ _ assms(1)] that same [OF that]
    by simp
  moreover have "\<not> en_clipped (bound e)" if "bounds_violation (JObj (envelope_members e)) = Inr None"
    using bound_conforming_envelope [OF assms(2) that] assms(3) by (simp add: bound_reduced)
  ultimately show ?thesis by blast
qed

theorem marked_exactly_when_cut_witness:
  "en_clipped (bound (full_envelope 201 7676)) \<and> bound (full_envelope 200 100) = full_envelope 200 100"
proof -
  have "\<not> label_within (full_envelope 201 7676)" by (simp add: label_within_def full_envelope_def max_label_def)
  then have "bounds_violation (JObj (envelope_members (full_envelope 201 7676))) \<noteq> Inr None"
    using envelope_within_bounds by blast
  moreover have "bounds_violation (JObj (envelope_members (full_envelope 200 100))) = Inr None"
    using full_within [of 100 200] full_octets [of 100 200]
    by (subst bounds_violation_within) (simp_all add: full_head label_within_def max_envelope_octets_def,
        simp add: full_envelope_def max_label_def)
  ultimately show ?thesis
    using marked_exactly_when_cut [OF full_head full_names full_unmarked] by blast
qed

text \<open>What sealing gives, from the size of the bounded form.\<close>

lemma seal_short_head:
  assumes "parse_unidentified j = Some e" and "short_head e" and "\<And>bs. length (lib_sha256 cl bs) = 32"
  shows "\<exists>i. seal_envelope cl j =
     (if form_octets (bound e) \<le> max_envelope_octets then Inr (i, bound e)
      else Inl (OutOfBounds (FormTooLarge (form_octets (bound e)))))"
proof -
  note k = bound_kept [of e]
  have head: "short_head (bound e)" using k(1) assms(2) by (simp add: same_head_def short_head_def)
  note v = bounds_violation_within [OF k(2-4) head]
  obtain bs where bs: "canonical_bytes (JObj (envelope_members (bound e))) = Some bs"
    using canonical_envelope [OF k(4)] by blast
  define i where "i = sha256_hex cl (domain_tag envelope_id_tag @ bs)"
  have i: "envelope_id cl (JObj (envelope_members (bound e))) = Some i" "hex64 i"
    using bs by (simp_all add: envelope_id_def i_def sha256_hex_def hex64_to_hex assms(3))
  note p = parse_envelope_members [OF bound_schema [OF parse_unidentified_schema [OF assms(1)]] i(2)]
  show ?thesis
    unfolding seal_parsed [OF assms(1)] v by (auto simp: i p)
qed

text \<open>
  C32: An observation with a short head is sealed, whatever its payload and references, brought inside the bounds
  by \<^verbatim>\<open>bound\<close>; or it is refused because the mark, set after the last measurement, took the form
  at most fifteen octets over its limit.
\<close>

theorem sealing_fails_only_by_the_mark:
  assumes "parse_unidentified j = Some e" and "short_head e" and "\<And>bs. length (lib_sha256 cl bs) = 32"
  shows "(\<exists>i. seal_envelope cl j = Inr (i, bound e)) \<or>
     (\<exists>n. seal_envelope cl j = Inl (OutOfBounds (FormTooLarge n)) \<and>
        max_envelope_octets < n \<and> n \<le> max_envelope_octets + 15 \<and> en_clipped (bound e) \<and> \<not> en_clipped e)"
  using seal_short_head [OF assms] bound_octets [OF assms(2)]
  by (cases "en_clipped (bound e)"; cases "en_clipped e") (auto split: if_splits)

theorem sealing_fails_only_by_the_mark_witness:
  "seal_envelope sample_lib (JObj (envelope_members (full_envelope 201 7676))) = Inl (OutOfBounds (FormTooLarge 65551))"
proof -
  let ?e = "full_envelope 201 7676"
  have p: "parse_unidentified (JObj (envelope_members ?e)) = Some ?e"
    using parse_unidentified_members [OF full_schema, of "[]"] by simp
  note s = sealing_fails_only_by_the_mark [OF p full_head sample_hash_length]
  from seal_short_head [OF p full_head sample_hash_length] full_bound s show ?thesis
    by (auto simp: max_envelope_octets_def)
qed

text \<open>
  C33: What one node seals is read by another as the same envelope with the same identifier when the form and
  the member \<^verbatim>\<open>id\<close> fit the bound together; the sealing node measures the form without the
  identifier, and what only fits so is refused.
\<close>

theorem sealed_is_accepted_if_its_identifier_fits:
  assumes "seal_envelope cl j = Inr (i, e)"
  shows "envelope_id cl (JObj (envelope_members e)) = Some i \<and>
     accept_envelope (JObj (envelope_members e @ [(''id'', JStr i)])) =
       (if form_octets e + 72 \<le> max_envelope_octets then Inr (i, e)
        else Inl (OutOfBounds (FormTooLarge (form_octets e + 72))))"
proof -
  from assms obtain b where b: "parse_unidentified j = Some b"
    by (auto simp: seal_envelope_def split: option.splits)
  define w where "w = bound b"
  have sch: "envelope_schema w" unfolding w_def by (rule bound_schema [OF parse_unidentified_schema [OF b]])
  have e0: "bounds_violation (JObj (envelope_members w)) = Inr None"
    using assms unfolding seal_parsed [OF b] w_def [symmetric]
    by (cases "bounds_violation (JObj (envelope_members w))") (auto split: option.splits)
  then obtain k where k: "envelope_id cl (JObj (envelope_members w)) = Some k"
    and p: "parse_envelope (JObj (envelope_members w @ [(''id'', JStr k)])) = Some (i, e)"
    using assms unfolding seal_parsed [OF b] w_def [symmetric] by (auto split: option.splits)
  have "map_of (envelope_members w @ [(''id'', JStr k)]) ''id'' = Some (JStr k)" by (simp add: envelope_members_def)
  then have i: "hex64 i" "k = i" "e = w"
    using p parse_unidentified_members [OF sch, of "[(''id'', JStr k)]"]
    by (auto simp: parse_envelope_def object_of_def split: if_splits)
  note in_bounds = envelope_within_bounds [OF e0 [folded i(3)]]
  have "json_depth (JObj (envelope_members e @ [(''id'', JStr i)])) \<le> 9"
    using json_depth_envelope [of e] in_bounds by (simp only: json_depth_obj_le) auto
  then obtain bs where bs: "canonical_bytes (JObj (envelope_members e @ [(''id'', JStr i)])) = Some bs"
    using canonical_bytes_defined [of "JObj (envelope_members e @ [(''id'', JStr i)])"] by auto
  have n: "int (length bs) = form_octets e + 72" using form_octets_id [OF _ i(1) bs] in_bounds by blast
  have "bounds_violation (JObj (envelope_members e @ [(''id'', JStr i)])) =
      Inr (if max_envelope_octets < int (length bs) then Some (FormTooLarge (int (length bs))) else None)"
    using e0 [folded i(3)] bounds_violation_members [of "[]" e] bounds_violation_members [of "[(''id'', JStr i)]" e] bs
    by (simp del: payload_violation_cons split: if_splits option.splits)
  then show ?thesis
    using k p by (simp add: i n accept_envelope_def)
qed

theorem sealed_is_accepted_if_its_identifier_fits_witness:
  "\<exists>i. seal_envelope sample_lib (JObj (envelope_members (full_envelope 4 7872))) = Inr (i, full_envelope 4 7872) \<and>
     accept_envelope (JObj (envelope_members (full_envelope 4 7872) @ [(''id'', JStr i)])) =
       Inl (OutOfBounds (FormTooLarge 65608))"
proof -
  let ?e = "full_envelope 4 7872"
  have f: "form_octets ?e = 65536" using full_octets [of 7872 4] by simp
  have "bounds_violation (JObj (envelope_members ?e)) = Inr None"
    using full_within [of 7872 4] f
    by (subst bounds_violation_within) (simp_all add: full_head label_within_def max_envelope_octets_def,
        simp add: full_envelope_def max_label_def)
  then have b: "bound ?e = ?e"
    using bound_conforming_envelope [OF full_names] by (simp add: bound_reduced)
  have p: "parse_unidentified (JObj (envelope_members ?e)) = Some ?e"
    using parse_unidentified_members [OF full_schema, of "[]"] by simp
  from seal_short_head [OF p full_head sample_hash_length]
  obtain i where i: "seal_envelope sample_lib (JObj (envelope_members ?e)) = Inr (i, ?e)"
    by (auto simp: b f max_envelope_octets_def)
  show ?thesis
    using sealed_is_accepted_if_its_identifier_fits [OF i] i by (auto simp: f max_envelope_octets_def)
qed

end
