(* ===== verification/Adapters.thy ===== *)
theory Adapters
  imports Envelopes Capabilities Vault
begin

text \<open>
  Verification adapters, \<^verbatim>\<open>packages/adapters/src\<close>, entire: the grammar of evidence references (\<^verbatim>\<open>refs.ts\<close>), the evidence
  bundle and its hash (\<^verbatim>\<open>bundle.ts\<close>), the adapters \<^verbatim>\<open>ci\<close>, \<^verbatim>\<open>git\<close> and \<^verbatim>\<open>file\<close>, the registry, and
  \<^verbatim>\<open>verifyCommitment\<close>. Files, the resolution of links and the git process are the fields of \<open>world\<close>; the
  sentence of a refusal is a value.
\<close>

section \<open>References\<close>

datatype ref_complaint =
    RefEmpty
  | NotARefName string
  | RefNameHasDots
  | RefNameEndsInLock
  | NotARange
  | NotACommitRef
  | RefPathEmpty
  | RefPathNotRelative
  | RefPathBackslash
  | RefPathNul
  | RefPathUpward
  | RefPathNothing
  | UnknownDigestSuffix
  | DigestNotHex
  | NotAnEnvelopeId

datatype parsed_commit_ref = RefCommit string | RefBranch string | RefMerged string string

record parsed_file_ref =
  pf_path :: string
  pf_expected :: "string option"

text \<open>\<^verbatim>\<open>/^[0-9a-f]{m,n}$/\<close>\<close>

definition hex_between :: "nat \<Rightarrow> nat \<Rightarrow> string \<Rightarrow> bool" where
  "hex_between m n s \<longleftrightarrow> m \<le> length s \<and> length s \<le> n \<and> list_all is_lower_hex s"

definition ascii_alnum :: "char \<Rightarrow> bool" where
  "ascii_alnum c \<longleftrightarrow> is_word_char c \<and> c \<noteq> CHR ''_''"

definition ref_name_shape :: "string \<Rightarrow> bool" where
  "ref_name_shape s \<longleftrightarrow> s \<noteq> [] \<and> length s \<le> 255 \<and> ascii_alnum (hd s) \<and>
     list_all (\<lambda>c. is_word_char c \<or> c \<in> {CHR ''.'', CHR ''/'', CHR ''-''}) s"

fun has_part :: "string \<Rightarrow> string \<Rightarrow> bool" where
  "has_part p [] \<longleftrightarrow> p = []"
| "has_part p (c # s) \<longleftrightarrow> starts_with p (c # s) \<or> has_part p s"

definition assert_ref_name :: "string \<Rightarrow> (ref_complaint, string) result" where
  "assert_ref_name name =
     (if \<not> ref_name_shape name then Inl (NotARefName name)
      else if has_part ''..'' name then Inl RefNameHasDots
      else if ends_with ''.lock'' name then Inl RefNameEndsInLock
      else Inr name)"

text \<open>\<^verbatim>\<open>range.split('..')\<close>\<close>

fun split_dots :: "string \<Rightarrow> string list" where
  "split_dots [] = [[]]"
| "split_dots [c] = [[c]]"
| "split_dots (c # d # s) =
     (if c = CHR ''.'' \<and> d = CHR ''.'' then [] # split_dots s
      else (case split_dots (d # s) of [] \<Rightarrow> [[c]] | w # ws \<Rightarrow> (c # w) # ws))"

definition parse_commit_ref :: "evidence_ref \<Rightarrow> (ref_complaint, parsed_commit_ref) result" where
  "parse_commit_ref r =
     (let v = js_trim (ev_value r)
      in if v = [] then Inl RefEmpty
         else case strip_prefix ''branch:'' v of
           Some b \<Rightarrow> map_sum id RefBranch (assert_ref_name b)
         | None \<Rightarrow>
             (case strip_prefix ''merged:'' v of
                Some rg \<Rightarrow>
                  (case split_dots rg of
                     [h, b] \<Rightarrow>
                       bind_result (assert_ref_name h) (\<lambda>head.
                       bind_result (assert_ref_name b) (\<lambda>base. Inr (RefMerged head base)))
                   | _ \<Rightarrow> Inl NotARange)
              | None \<Rightarrow> if hex_between 7 40 v then Inr (RefCommit v) else Inl NotACommitRef))"

fun relative_segments :: "string list \<Rightarrow> (ref_complaint, string list) result" where
  "relative_segments [] = Inr []"
| "relative_segments (s # ss) =
     (if s = [] \<or> s = ''.'' then relative_segments ss
      else if s = ''..'' then Inl RefPathUpward
      else map_sum id ((#) s) (relative_segments ss))"

definition normalize_relative_path :: "string \<Rightarrow> (ref_complaint, string) result" where
  "normalize_relative_path p =
     (if p = [] then Inl RefPathEmpty
      else if starts_with ''/'' p \<or> drive_path p then Inl RefPathNotRelative
      else if CHR 92 \<in> set p then Inl RefPathBackslash
      else if CHR 0x00 \<in> set p then Inl RefPathNul
      else bind_result (relative_segments (js_split CHR ''/'' p)) (\<lambda>segs.
        if segs = [] then Inl RefPathNothing else Inr (join_with ''/'' segs)))"

definition parse_file_ref :: "evidence_ref \<Rightarrow> (ref_complaint, parsed_file_ref) result" where
  "parse_file_ref r =
     (let v = js_trim (ev_value r)
      in if CHR ''#'' \<notin> set v
         then map_sum id (\<lambda>p. \<lparr>pf_path = p, pf_expected = None\<rparr>) (normalize_relative_path v)
         else
           let path = takeWhile (\<lambda>c. c \<noteq> CHR ''#'') v; suffix = tl (dropWhile (\<lambda>c. c \<noteq> CHR ''#'') v)
           in case strip_prefix ''sha256='' suffix of
                None \<Rightarrow> Inl UnknownDigestSuffix
              | Some digest \<Rightarrow>
                  if \<not> hex64 digest then Inl DigestNotHex
                  else map_sum id (\<lambda>p. \<lparr>pf_path = p, pf_expected = Some digest\<rparr>) (normalize_relative_path path))"

definition parse_evidence_envelope :: "evidence_ref \<Rightarrow> (ref_complaint, sha256_hex) result" where
  "parse_evidence_envelope r =
     (let v = js_trim (ev_value r) in if hex64 v then Inr v else Inl NotAnEnvelopeId)"

section \<open>Bundles\<close>

datatype adapter_name = AdCi | AdGit | AdFile

fun adapter_text :: "adapter_name \<Rightarrow> string" where
  "adapter_text AdCi = ''ci''"
| "adapter_text AdGit = ''git''"
| "adapter_text AdFile = ''file''"

definition ci_conclusions :: "string list" where
  "ci_conclusions = [''success'', ''failure'', ''cancelled'', ''timed_out'', ''neutral'', ''skipped'']"

text \<open>\<^verbatim>\<open>completed_at\<close> of a run and \<^verbatim>\<open>observed_at\<close> of a bundle are texts until the schema has read them.\<close>

datatype observation =
    CiRun (ob_envelope: sha256_hex) (ob_source: string) (ob_workflow: string) (ob_run: string) (ob_run_commit: string)
      (ob_conclusion: string) (ob_completed: string)
  | GitCommit (ob_commit: string) (ob_queried: string) (ob_present: bool)
  | GitBranch (ob_branch: string) (ob_branch_head: "string option") (ob_branch_present: bool)
  | GitMerged (ob_head_ref: string) (ob_base_ref: string) (ob_head: "string option") (ob_base: "string option") (ob_merged: bool)
  | FileSeen (ob_path: string) (ob_file_present: bool) (ob_size: "int option") (ob_sha: "string option")
      (ob_expected: "string option") (ob_matches: "bool option")

fun observation_ok :: "observation \<Rightarrow> bool" where
  "observation_ok (CiRun i s w r c k t) \<longleftrightarrow> hex64 i \<and> s \<noteq> [] \<and> w \<noteq> [] \<and> r \<noteq> [] \<and> hex_between 7 40 c \<and>
     k \<in> set ci_conclusions \<and> is_rfc3339 t"
| "observation_ok (GitCommit c q p) \<longleftrightarrow> hex_between 40 40 c \<and> q \<noteq> []"
| "observation_ok (GitBranch b h p) \<longleftrightarrow> b \<noteq> [] \<and> pred_option (hex_between 40 40) h"
| "observation_ok (GitMerged hr br h b m) \<longleftrightarrow> hr \<noteq> [] \<and> br \<noteq> [] \<and> pred_option (hex_between 40 40) h \<and> pred_option (hex_between 40 40) b"
| "observation_ok (FileSeen p pr sz sh ex dm) \<longleftrightarrow> p \<noteq> [] \<and> pred_option (\<lambda>n. 0 \<le> n) sz \<and> pred_option hex64 sh \<and> pred_option hex64 ex"

record evidence_bundle =
  eb_adapters :: "adapter_name list"
  eb_commitment_hash :: sha256_hex
  eb_observed_at :: string
  eb_satisfied :: bool
  eb_observations :: "observation list"

text \<open>The schema \<^verbatim>\<open>EvidenceBundle\<close>: sorted and duplicate-free adapters, at least one of each.\<close>

definition bundle_ok :: "evidence_bundle \<Rightarrow> bool" where
  "bundle_ok b \<longleftrightarrow> eb_adapters b \<noteq> [] \<and> sorted_wrt (<) (map adapter_text (eb_adapters b)) \<and> hex64 (eb_commitment_hash b) \<and>
     is_rfc3339 (eb_observed_at b) \<and> eb_observations b \<noteq> [] \<and> list_all observation_ok (eb_observations b)"

definition json_bool_opt :: "bool option \<Rightarrow> json" where
  "json_bool_opt x = (case x of None \<Rightarrow> JNull | Some b \<Rightarrow> JBool b)"

definition json_int_opt :: "int option \<Rightarrow> json" where
  "json_int_opt x = (case x of None \<Rightarrow> JNull | Some n \<Rightarrow> JNum n)"

fun observation_json :: "observation \<Rightarrow> json" where
  "observation_json (CiRun i s w r c k t) =
     JObj [(''kind'', JStr ''ci-run''), (''envelope_id'', JStr i), (''source'', JStr s), (''workflow'', JStr w),
           (''run_id'', JStr r), (''commit'', JStr c), (''conclusion'', JStr k), (''completed_at'', JStr t)]"
| "observation_json (GitCommit c q p) =
     JObj [(''kind'', JStr ''git-commit''), (''commit'', JStr c), (''queried'', JStr q), (''present'', JBool p)]"
| "observation_json (GitBranch b h p) =
     JObj [(''kind'', JStr ''git-branch''), (''branch'', JStr b), (''head'', json_opt h), (''present'', JBool p)]"
| "observation_json (GitMerged hr br h b m) =
     JObj [(''kind'', JStr ''git-merged''), (''head_ref'', JStr hr), (''base_ref'', JStr br), (''head'', json_opt h),
           (''base'', json_opt b), (''merged'', JBool m)]"
| "observation_json (FileSeen p pr sz sh ex dm) =
     JObj [(''kind'', JStr ''file''), (''path'', JStr p), (''present'', JBool pr), (''size'', json_int_opt sz),
           (''sha256'', json_opt sh), (''expected_sha256'', json_opt ex), (''digest_matches'', json_bool_opt dm)]"

definition bundle_json :: "evidence_bundle \<Rightarrow> json" where
  "bundle_json b =
     JObj [(''v'', JStr protocol_version), (''type'', JStr ''evidence_bundle''),
           (''adapters'', JArr (map (\<lambda>a. JStr (adapter_text a)) (eb_adapters b))),
           (''commitment_hash'', JStr (eb_commitment_hash b)), (''observed_at'', JStr (eb_observed_at b)),
           (''satisfied'', JBool (eb_satisfied b)), (''observations'', JArr (map observation_json (eb_observations b)))]"

section \<open>Outcomes\<close>

datatype not_verifiable_reason =
    NoEvidenceRefs
  | NoAdapterForEvidence
  | AdapterCapabilityAbsent
  | EvidenceNotObservable
  | MalformedEvidenceRef
  | RequiresNetwork
  | CollectiveWithoutDecompositionOrCoordinator

datatype refusal_detail =
    DoesNotObserve adapter_name evidence_kind
  | MalformedBecause evidence_kind ref_complaint
  | NoEnvelopesProvided
  | NotReceived sha256_hex
  | NotACiSignal sha256_hex
  | CarriesNo sha256_hex string
  | UnknownConclusion sha256_hex
  | NoUsableHeadSha sha256_hex
  | NoRepositoryProvided
  | NotARepository string
  | NoWorkspaceProvided
  | RootDoesNotExist string
  | ResolvesOutside string
  | NotARegularFile string
  | CollectiveIncomplete sha256_hex
  | NamesNoEvidence
  | OnlyUrlsNamed
  | NoAdapterSpeaksTo "evidence_kind list"

text \<open>What an adapter or the verification throws: a bundle its own schema refuses, or an error of the process or of a file.\<close>

datatype adapter_error = BundleRefused evidence_bundle | BundleTooDeep | GitRefused string | GitFailed | FileFailed string

datatype verification_outcome =
    Observed (vo_bundle: evidence_bundle) (vo_hash: sha256_hex)
  | NotVerifiable (vo_reason: not_verifiable_reason) (vo_detail: refusal_detail)

text \<open>\<^verbatim>\<open>outcome.evidence_hash\<close>, whatever the outcome.\<close>

fun outcome_hash :: "verification_outcome \<Rightarrow> sha256_hex option" where
  "outcome_hash (Observed b h) = Some h"
| "outcome_hash (NotVerifiable r d) = None"

fun verifiable :: "verification_outcome \<Rightarrow> bool" where
  "verifiable (Observed b h) \<longleftrightarrow> True"
| "verifiable (NotVerifiable r d) \<longleftrightarrow> False"

definition evidence_hash :: "crypto_lib \<Rightarrow> evidence_bundle \<Rightarrow> (adapter_error, sha256_hex) result" where
  "evidence_hash cl b =
     (if \<not> bundle_ok b then Inl (BundleRefused b)
      else case hash_canonical cl (bundle_json b) of None \<Rightarrow> Inl BundleTooDeep | Some h \<Rightarrow> Inr h)"

definition observed :: "crypto_lib \<Rightarrow> evidence_bundle \<Rightarrow> (adapter_error, verification_outcome) result" where
  "observed cl b =
     (if \<not> bundle_ok b then Inl (BundleRefused b) else map_sum id (Observed b) (evidence_hash cl b))"

record adapter_commitment =
  vc_owner :: persona_id
  vc_owed_to :: "string option"
  vc_due :: "rfc3339 option"
  vc_conditions :: "sha256_hex list"
  vc_evidence_refs :: "evidence_ref list"
  vc_created_at :: rfc3339
  vc_source :: commitment_source
  vc_confidence :: rat
  vc_commitment_hash :: sha256_hex

record observation_context =
  oc_now :: string
  oc_workspace :: "string option"
  oc_repo :: "string option"
  oc_envelopes :: "(sha256_hex \<times> envelope) list option"
  oc_edge :: "edge option"

text \<open>
  What the adapters ask the machine: the real path of a text (\<^verbatim>\<open>realpathSync(resolve(text))\<close>), whether a real path is a
  regular file and of what size, its octets, whether a path is there and is a directory, and the git process, which
  gets a directory and its arguments and answers with a status and its trimmed output. \<open>None\<close> is a call that throws.
\<close>

record world =
  wd_real_path :: "string \<Rightarrow> string option"
  wd_stat :: "string \<Rightarrow> (bool \<times> int) option"
  wd_read :: "string \<Rightarrow> octets option"
  wd_is_dir :: "string \<Rightarrow> bool"
  wd_exists :: "string \<Rightarrow> bool"
  wd_git :: "string \<Rightarrow> string list \<Rightarrow> (int \<times> string) option"

type_synonym observe_result = "(adapter_error, verification_outcome) result"

section \<open>The adapter of CI runs\<close>

record check_run =
  cr_workflow :: string
  cr_run_id :: string
  cr_commit :: string
  cr_conclusion :: string
  cr_completed_at :: string

definition payload_text :: "json_members \<Rightarrow> string \<Rightarrow> string option" where
  "payload_text p k =
     (case map_of p k of
        Some (JStr s) \<Rightarrow> if s = [] then None else Some s
      | Some (JNum n) \<Rightarrow> Some (serialize_number n)
      | _ \<Rightarrow> None)"

definition check_run_members :: "string list" where
  "check_run_members = [''text'', ''check_run_id'', ''head_sha'', ''conclusion'', ''completed_at'']"

definition read_check_run :: "envelope \<Rightarrow> (string, check_run) result" where
  "read_check_run e =
     (let p = en_payload e
      in case (payload_text p ''text'', payload_text p ''check_run_id'', payload_text p ''head_sha'', payload_text p ''conclusion'',
               payload_text p ''completed_at'') of
           (Some w, Some r, Some c, Some k, Some t) \<Rightarrow>
             Inr \<lparr>cr_workflow = w, cr_run_id = r, cr_commit = c, cr_conclusion = k, cr_completed_at = t\<rparr>
         | _ \<Rightarrow> Inl (hd (filter (\<lambda>n. payload_text p n = None) check_run_members)))"

definition ci_observe ::
    "crypto_lib \<Rightarrow> adapter_commitment \<Rightarrow> evidence_ref \<Rightarrow> observation_context \<Rightarrow> observe_result" where
  "ci_observe cl c r ctx =
     (if ev_kind r \<noteq> EvEnvelope then Inr (NotVerifiable NoAdapterForEvidence (DoesNotObserve AdCi (ev_kind r)))
      else case parse_evidence_envelope r of
        Inl why \<Rightarrow> Inr (NotVerifiable MalformedEvidenceRef (MalformedBecause (ev_kind r) why))
      | Inr i \<Rightarrow>
          (case oc_envelopes ctx of
             None \<Rightarrow> Inr (NotVerifiable AdapterCapabilityAbsent NoEnvelopesProvided)
           | Some es \<Rightarrow>
               (case find (\<lambda>(j, e). j = i) es of
                  None \<Rightarrow> Inr (NotVerifiable AdapterCapabilityAbsent (NotReceived i))
                | Some (j, e) \<Rightarrow>
                    if en_source e \<noteq> ''ci'' then Inr (NotVerifiable EvidenceNotObservable (NotACiSignal i))
                    else case read_check_run e of
                      Inl missing \<Rightarrow> Inr (NotVerifiable EvidenceNotObservable (CarriesNo i missing))
                    | Inr run \<Rightarrow>
                        if cr_conclusion run \<notin> set ci_conclusions
                        then Inr (NotVerifiable EvidenceNotObservable (UnknownConclusion i))
                        else if \<not> hex_between 7 40 (cr_commit run)
                        then Inr (NotVerifiable EvidenceNotObservable (NoUsableHeadSha i))
                        else observed cl
                          \<lparr>eb_adapters = [AdCi], eb_commitment_hash = vc_commitment_hash c, eb_observed_at = oc_now ctx,
                           eb_satisfied = (cr_conclusion run = ''success''),
                           eb_observations = [CiRun j (en_source e) (cr_workflow run) (cr_run_id run) (cr_commit run)
                             (cr_conclusion run) (cr_completed_at run)]\<rparr>)))"

section \<open>The adapter of git\<close>

definition git_allowlist :: "string list" where
  "git_allowlist = [''rev-parse'', ''cat-file'', ''merge-base'']"

definition run_git :: "world \<Rightarrow> string \<Rightarrow> string list \<Rightarrow> (adapter_error, int \<times> string) result" where
  "run_git w repo argv =
     (case argv of
        [] \<Rightarrow> Inl (GitRefused ''undefined'')
      | sub # _ \<Rightarrow>
          if sub \<notin> set git_allowlist then Inl (GitRefused sub)
          else case wd_git w repo argv of None \<Rightarrow> Inl GitFailed | Some r \<Rightarrow> Inr r)"

definition is_git_repo :: "world \<Rightarrow> string \<Rightarrow> bool" where
  "is_git_repo w p \<longleftrightarrow> wd_is_dir w p \<and> wd_exists w (p @ ''/.git'')"

definition resolve_rev :: "world \<Rightarrow> string \<Rightarrow> string \<Rightarrow> (adapter_error, string option) result" where
  "resolve_rev w repo rv =
     bind_result (run_git w repo [''rev-parse'', ''--verify'', ''--quiet'', ''--end-of-options'', rv @ ''^{commit}'']) (\<lambda>(st, out).
       Inr (if st = 0 \<and> hex_between 40 40 out then Some out else None))"

definition git_observation :: "world \<Rightarrow> string \<Rightarrow> parsed_commit_ref \<Rightarrow> (adapter_error, observation) result" where
  "git_observation w repo parsed =
     (case parsed of
        RefCommit c \<Rightarrow>
          bind_result (resolve_rev w repo c) (\<lambda>head.
            Inr (GitCommit (case head of None \<Rightarrow> replicate 40 CHR ''0'' | Some h \<Rightarrow> h) c (head \<noteq> None)))
      | RefBranch b \<Rightarrow>
          bind_result (resolve_rev w repo (''refs/heads/'' @ b)) (\<lambda>head. Inr (GitBranch b head (head \<noteq> None)))
      | RefMerged hr br \<Rightarrow>
          bind_result (resolve_rev w repo hr) (\<lambda>head.
          bind_result (resolve_rev w repo br) (\<lambda>base.
          bind_result
            (case (head, base) of
               (Some h, Some b) \<Rightarrow>
                 map_sum id (\<lambda>(st, out). st = 0) (run_git w repo [''merge-base'', ''--is-ancestor'', h, b])
             | _ \<Rightarrow> Inr False) (\<lambda>merged.
          Inr (GitMerged hr br head base merged)))))"

fun git_holds :: "observation \<Rightarrow> bool" where
  "git_holds (GitMerged hr br h b m) \<longleftrightarrow> m"
| "git_holds (GitCommit c q p) \<longleftrightarrow> p"
| "git_holds (GitBranch b h p) \<longleftrightarrow> p"
| "git_holds (FileSeen p pr sz sh ex dm) \<longleftrightarrow> pr"
| "git_holds (CiRun i s w r c k t) \<longleftrightarrow> False"

definition git_observe ::
    "crypto_lib \<Rightarrow> world \<Rightarrow> adapter_commitment \<Rightarrow> evidence_ref \<Rightarrow> observation_context \<Rightarrow> observe_result" where
  "git_observe cl w c r ctx =
     (if ev_kind r \<noteq> EvCommit then Inr (NotVerifiable NoAdapterForEvidence (DoesNotObserve AdGit (ev_kind r)))
      else case parse_commit_ref r of
        Inl why \<Rightarrow> Inr (NotVerifiable MalformedEvidenceRef (MalformedBecause (ev_kind r) why))
      | Inr parsed \<Rightarrow>
          (case oc_repo ctx of
             None \<Rightarrow> Inr (NotVerifiable AdapterCapabilityAbsent NoRepositoryProvided)
           | Some repo \<Rightarrow>
               if \<not> is_git_repo w repo then Inr (NotVerifiable AdapterCapabilityAbsent (NotARepository repo))
               else bind_result (git_observation w repo parsed) (\<lambda>ob.
                 observed cl
                   \<lparr>eb_adapters = [AdGit], eb_commitment_hash = vc_commitment_hash c, eb_observed_at = oc_now ctx,
                    eb_satisfied = git_holds ob, eb_observations = [ob]\<rparr>)))"

section \<open>The adapter of files\<close>

text \<open>A real path ends in a slash only when it is the root of the file system.\<close>

definition below_text :: "string \<Rightarrow> string" where
  "below_text rt = (if ends_with ''/'' rt then rt else rt @ ''/'')"

definition within_root :: "string \<Rightarrow> string \<Rightarrow> bool" where
  "within_root rt path \<longleftrightarrow> path = rt \<or> starts_with (below_text rt) path"

text \<open>\<^verbatim>\<open>resolvePath(realRoot, path)\<close> for a real root and a normalized relative path.\<close>

definition resolve_below :: "string \<Rightarrow> string \<Rightarrow> string" where
  "resolve_below rt path = below_text rt @ path"

fun file_holds :: "observation \<Rightarrow> bool" where
  "file_holds (FileSeen p pr sz sh ex dm) \<longleftrightarrow> pr \<and> (dm = None \<or> dm = Some True)"
| "file_holds _ \<longleftrightarrow> False"

definition file_bundle ::
    "crypto_lib \<Rightarrow> adapter_commitment \<Rightarrow> observation_context \<Rightarrow> observation \<Rightarrow> observe_result" where
  "file_bundle cl c ctx ob =
     observed cl
       \<lparr>eb_adapters = [AdFile], eb_commitment_hash = vc_commitment_hash c, eb_observed_at = oc_now ctx,
        eb_satisfied = file_holds ob, eb_observations = [ob]\<rparr>"

definition file_observe ::
    "crypto_lib \<Rightarrow> world \<Rightarrow> adapter_commitment \<Rightarrow> evidence_ref \<Rightarrow> observation_context \<Rightarrow> observe_result" where
  "file_observe cl w c r ctx =
     (if ev_kind r \<noteq> EvFile then Inr (NotVerifiable NoAdapterForEvidence (DoesNotObserve AdFile (ev_kind r)))
      else case parse_file_ref r of
        Inl why \<Rightarrow> Inr (NotVerifiable MalformedEvidenceRef (MalformedBecause (ev_kind r) why))
      | Inr parsed \<Rightarrow>
          (case oc_workspace ctx of
             None \<Rightarrow> Inr (NotVerifiable AdapterCapabilityAbsent NoWorkspaceProvided)
           | Some rt \<Rightarrow>
               (case wd_real_path w rt of
                  None \<Rightarrow> Inr (NotVerifiable AdapterCapabilityAbsent (RootDoesNotExist rt))
                | Some real_root \<Rightarrow>
                    (case wd_real_path w (resolve_below real_root (pf_path parsed)) of
                       None \<Rightarrow>
                         file_bundle cl c ctx
                           (FileSeen (pf_path parsed) False None None (pf_expected parsed)
                             (if pf_expected parsed = None then None else Some False))
                     | Some target \<Rightarrow>
                         if \<not> within_root real_root target
                         then Inr (NotVerifiable MalformedEvidenceRef (ResolvesOutside (pf_path parsed)))
                         else
                           (case wd_stat w target of
                              None \<Rightarrow> Inl (FileFailed target)
                            | Some (is_file, sz) \<Rightarrow>
                                if \<not> is_file then Inr (NotVerifiable EvidenceNotObservable (NotARegularFile (pf_path parsed)))
                                else (case wd_read w target of
                                   None \<Rightarrow> Inl (FileFailed target)
                                 | Some bs \<Rightarrow>
                                     let digest = sha256_hex cl bs
                                     in file_bundle cl c ctx
                                          (FileSeen (pf_path parsed) True (Some sz) (Some digest) (pf_expected parsed)
                                            (map_option (\<lambda>x. x = digest) (pf_expected parsed)))))))))"

section \<open>The registry\<close>

fun declares_kinds :: "adapter_name \<Rightarrow> evidence_kind list" where
  "declares_kinds AdCi = [EvEnvelope]"
| "declares_kinds AdGit = [EvCommit]"
| "declares_kinds AdFile = [EvFile]"

definition adapters_registry :: "adapter_name list" where
  "adapters_registry = [AdCi, AdGit, AdFile]"

definition adapter_for :: "evidence_kind \<Rightarrow> adapter_name option" where
  "adapter_for k = find (\<lambda>a. k \<in> set (declares_kinds a)) adapters_registry"

definition get_adapter :: "string \<Rightarrow> adapter_name option" where
  "get_adapter n = find (\<lambda>a. adapter_text a = n) adapters_registry"

definition observable_ref_kinds :: "evidence_kind list" where
  "observable_ref_kinds = concat (map declares_kinds adapters_registry)"

fun adapter_observe ::
    "adapter_name \<Rightarrow> crypto_lib \<Rightarrow> world \<Rightarrow> adapter_commitment \<Rightarrow> evidence_ref \<Rightarrow> observation_context \<Rightarrow> observe_result" where
  "adapter_observe AdCi cl w c r ctx = ci_observe cl c r ctx"
| "adapter_observe AdGit cl w c r ctx = git_observe cl w c r ctx"
| "adapter_observe AdFile cl w c r ctx = file_observe cl w c r ctx"

section \<open>Verifying a commitment\<close>

record seen_so_far =
  ss_adapters :: "adapter_name list"
  ss_observations :: "observation list"
  ss_satisfied :: bool
  ss_failure :: "(not_verifiable_reason \<times> refusal_detail) option"

text \<open>The loop over the references; a set keeps each adapter once, in the order of its first observation.\<close>

fun observe_refs ::
    "crypto_lib \<Rightarrow> world \<Rightarrow> adapter_commitment \<Rightarrow> observation_context \<Rightarrow> evidence_ref list \<Rightarrow> seen_so_far \<Rightarrow>
     (adapter_error, seen_so_far) result" where
  "observe_refs cl w c ctx [] s = Inr s"
| "observe_refs cl w c ctx (r # rs) s =
     (case adapter_for (ev_kind r) of
        None \<Rightarrow> observe_refs cl w c ctx rs s
      | Some a \<Rightarrow>
          bind_result (adapter_observe a cl w c r ctx) (\<lambda>out.
            case out of
              NotVerifiable reason detail \<Rightarrow>
                observe_refs cl w c ctx rs
                  (s\<lparr>ss_failure := (case ss_failure s of None \<Rightarrow> Some (reason, detail) | Some f \<Rightarrow> Some f)\<rparr>)
            | Observed b h \<Rightarrow>
                observe_refs cl w c ctx rs
                  (s\<lparr>ss_adapters := (if a \<in> set (ss_adapters s) then ss_adapters s else ss_adapters s @ [a]),
                     ss_observations := ss_observations s @ eb_observations b,
                     ss_satisfied := ss_satisfied s \<and> eb_satisfied b\<rparr>)))"

definition verify_refs ::
    "crypto_lib \<Rightarrow> world \<Rightarrow> adapter_commitment \<Rightarrow> observation_context \<Rightarrow> observe_result" where
  "verify_refs cl w c ctx =
     (let rs = vc_evidence_refs c
      in if rs = [] then Inr (NotVerifiable NoEvidenceRefs NamesNoEvidence)
         else bind_result
           (observe_refs cl w c ctx rs \<lparr>ss_adapters = [], ss_observations = [], ss_satisfied = True, ss_failure = None\<rparr>) (\<lambda>s.
             if ss_observations s = [] then
               (case ss_failure s of
                  Some (reason, detail) \<Rightarrow> Inr (NotVerifiable reason detail)
                | None \<Rightarrow>
                    let kinds = map ev_kind rs
                    in if list_all (\<lambda>k. k = EvUrl) kinds then Inr (NotVerifiable RequiresNetwork OnlyUrlsNamed)
                       else Inr (NotVerifiable NoAdapterForEvidence (NoAdapterSpeaksTo kinds)))
             else observed cl
               \<lparr>eb_adapters = sort_key adapter_text (ss_adapters s), eb_commitment_hash = vc_commitment_hash c,
                eb_observed_at = oc_now ctx, eb_satisfied = ss_satisfied s, eb_observations = ss_observations s\<rparr>))"

definition verify_commitment ::
    "crypto_lib \<Rightarrow> world \<Rightarrow> adapter_commitment \<Rightarrow> observation_context \<Rightarrow> observe_result" where
  "verify_commitment cl w c ctx =
     (case oc_edge ctx of
        Some e \<Rightarrow> if \<not> collective_decomposition_valid e
                   then Inr (NotVerifiable CollectiveWithoutDecompositionOrCoordinator (CollectiveIncomplete (e_id e)))
                   else verify_refs cl w c ctx
      | None \<Rightarrow> verify_refs cl w c ctx)"

definition is_edge_verifiable :: "edge \<Rightarrow> verification_outcome \<Rightarrow> bool" where
  "is_edge_verifiable e out =
     (if \<not> collective_decomposition_valid e then False
      else if e_closure_policy e = OnEvidence then verifiable out
      else True)"

definition adapters_may_escalate :: "edge \<Rightarrow> verification_outcome \<Rightarrow> bool \<Rightarrow> bool" where
  "adapters_may_escalate e out node_verdict \<longleftrightarrow> node_verdict \<and> is_edge_verifiable e out"

end
