(* ===== verification/CanonicalText.thy ===== *)
theory CanonicalText
  imports Canonical JsText
begin

text \<open>
  The canonical form determines the value: two JSON values that \<^verbatim>\<open>canonicalize\<close> writes alike are the same value
  up to the order of the members of their objects. \<open>sorted_json\<close> puts the members in the order of their names at every level,
  \<open>json_text\<close> writes them in the order they are in.
\<close>

declare decimal_digits.simps [simp del]

fun sorted_json :: "json \<Rightarrow> json" where
  "sorted_json (JArr vs) = JArr (map sorted_json vs)"
| "sorted_json (JObj ms) = JObj (sort_key fst (map (\<lambda>m. (fst m, sorted_json (snd m))) ms))"
| "sorted_json v = v"

fun json_text :: "json \<Rightarrow> string" where
  "json_text JNull = ''null''"
| "json_text (JBool b) = (if b then ''true'' else ''false'')"
| "json_text (JNum n) = serialize_number n"
| "json_text (JStr s) = serialize_string s"
| "json_text (JArr vs) = ''['' @ join_with '','' (map json_text vs) @ '']''"
| "json_text (JObj ms) = ''{'' @ join_with '','' (map (\<lambda>m. serialize_string (fst m) @ '':'' @ json_text (snd m)) ms) @ ''}''"

section \<open>The canonical form is the text of the sorted value\<close>

lemma insort_key_map:
  "(\<And>x. k (g x) = l x) \<Longrightarrow> map g (insort_key l x xs) = insort_key k (g x) (map g xs)"
  by (induction xs) auto

lemma sort_key_map: "(\<And>x. k (g x) = l x) \<Longrightarrow> map g (sort_key l xs) = sort_key k (map g xs)"
  by (induction xs) (simp_all add: insort_key_map [of k g l])

lemma write_elements_text:
  "(\<And>v t. v \<in> set vs \<Longrightarrow> write_json d v = Some t \<Longrightarrow> t = f v) \<Longrightarrow> write_elements d vs = Some ts \<Longrightarrow> ts = map f vs"
  by (induction vs arbitrary: ts) (auto split: option.splits)

lemma write_json_text: "write_json d v = Some t \<Longrightarrow> t = json_text (sorted_json v)"
proof (induction v arbitrary: d t)
  case (JArr vs)
  from JArr.prems obtain ts where ts: "write_elements (Suc d) vs = Some ts" "t = ''['' @ join_with '','' ts @ '']''"
    by (auto simp: write_json.simps split: if_splits)
  from write_elements_text [OF _ ts(1)] JArr.IH have "ts = map (json_text \<circ> sorted_json) vs" by auto
  then show ?case by (simp add: ts(2))
next
  case (JObj ms)
  let ?f = "\<lambda>m. (fst m, json_text (sorted_json (snd m)))"
  from JObj.prems have all: "\<forall>m \<in> set ms. write_json (Suc d) (snd m) \<noteq> None" "t = write_object (map (written (Suc d)) ms)"
    by (auto simp: write_json.simps write_members_map split: if_splits)
  have "written (Suc d) m = ?f m" if "m \<in> set ms" for m
  proof -
    from all(1) that obtain u where u: "write_json (Suc d) (snd m) = Some u" by auto
    with JObj.IH [of m "snd m" "Suc d" u] that show ?thesis by (simp add: written_def snds.simps)
  qed
  then have "map (written (Suc d)) ms = map (\<lambda>m. (fst m, json_text (snd m))) (map (\<lambda>m. (fst m, sorted_json (snd m))) ms)"
    by simp
  then have "sort_key fst (map (written (Suc d)) ms) =
      map (\<lambda>m. (fst m, json_text (snd m))) (sort_key fst (map (\<lambda>m. (fst m, sorted_json (snd m))) ms))"
    by (simp only: sort_key_map [of fst _ fst] fst_conv)
  then show ?case by (simp add: all(2) write_object_def case_prod_unfold comp_def)
qed (auto simp: write_json.simps split: if_splits)

section \<open>The text determines the value\<close>

text \<open>What follows a value inside a text: nothing, a comma or a closing bracket.\<close>

definition closed_by :: "string \<Rightarrow> bool" where
  "closed_by xs \<longleftrightarrow> xs = [] \<or> hd xs \<in> {CHR '','', CHR '']'', CHR ''}''}"

lemma decimal_digits_closed:
  assumes "decimal_digits m @ xs = decimal_digits n @ ys" and "closed_by xs" and "closed_by ys"
  shows "m = n \<and> xs = ys"
proof -
  have c: "takeWhile is_digit (decimal_digits k @ zs) = decimal_digits k \<and> dropWhile is_digit (decimal_digits k @ zs) = zs"
    if "closed_by zs" for k zs
  proof (cases "zs = []")
    case True
    then show ?thesis using read_decimal [of k] by (simp add: list_all_iff)
  next
    case False
    with that have "\<not> is_digit (hd zs)" by (auto simp: closed_by_def is_digit_def)
    with False read_decimal [of k] digits_then [of "decimal_digits k" zs] show ?thesis by blast
  qed
  from c [OF assms(2), of m] c [OF assms(3), of n] assms(1) have "decimal_digits m = decimal_digits n" "xs = ys" by metis+
  moreover from this have "int m = int n" using read_decimal by metis
  ultimately show ?thesis by simp
qed

lemma decimal_digits_head: "\<exists>c cs. decimal_digits n = c # cs \<and> is_digit c"
  using read_decimal [of n] by (cases "decimal_digits n") (simp_all add: decimal_digits.simps [of n] split: if_splits)

text \<open>The rest of an array and of an object after its first element, with the separators in front.\<close>

definition rest_text :: "('a \<Rightarrow> string) \<Rightarrow> char \<Rightarrow> 'a list \<Rightarrow> string" where
  "rest_text f c xs = concat (map (\<lambda>x. CHR '','' # f x) xs) @ [c]"

lemma join_rest: "join_with '','' (map f (x # xs)) @ [c] = f x @ rest_text f c xs"
  by (induction xs arbitrary: x) (simp_all add: rest_text_def)

lemma rest_text_closed: "c \<in> {CHR '']'', CHR ''}''} \<Longrightarrow> closed_by (rest_text f c xs @ zs)"
  by (cases xs) (auto simp: rest_text_def closed_by_def)

lemma rest_text_inject:
  assumes "\<And>x y us vs. x \<in> set xs \<Longrightarrow> f x @ us = f y @ vs \<Longrightarrow> closed_by us \<Longrightarrow> closed_by vs \<Longrightarrow> x = y \<and> us = vs"
    and "rest_text f c xs @ us = rest_text f c ys @ vs" and "c \<in> {CHR '']'', CHR ''}''}"
  shows "xs = ys \<and> us = vs"
  using assms(1,2)
proof (induction xs arbitrary: ys)
  case Nil
  then show ?case using assms(3) by (cases ys) (auto simp: rest_text_def)
next
  case (Cons x xs)
  show ?case
  proof (cases ys)
    case Nil
    then show ?thesis using Cons.prems(2) assms(3) by (auto simp: rest_text_def)
  next
    case (Cons y zs)
    then have "f x @ rest_text f c xs @ us = f y @ rest_text f c zs @ vs"
      using Cons.prems(2) by (simp add: rest_text_def)
    from Cons.prems(1) [OF _ this] assms(3) have "x = y" "rest_text f c xs @ us = rest_text f c zs @ vs"
      by (simp_all add: rest_text_closed)
    with Cons.IH [of zs] Cons.prems(1) Cons show ?thesis by auto
  qed
qed

lemma sequence_inject:
  assumes "\<And>x y us vs. x \<in> set xs \<Longrightarrow> f x @ us = f y @ vs \<Longrightarrow> closed_by us \<Longrightarrow> closed_by vs \<Longrightarrow> x = y \<and> us = vs"
    and "\<And>x. \<exists>d ds. f x = d # ds \<and> d \<noteq> c" and "c \<in> {CHR '']'', CHR ''}''}"
    and "join_with '','' (map f xs) @ c # us = join_with '','' (map f ys) @ c # vs"
  shows "xs = ys \<and> us = vs"
proof (cases xs; cases ys)
  fix x xs' assume "xs = x # xs'" "ys = []"
  then show ?thesis using assms(2) [of x] assms(4) join_rest [of f x xs' c] by (cases "map f xs'") auto
next
  fix y ys' assume "xs = []" "ys = y # ys'"
  then show ?thesis using assms(2) [of y] assms(4) join_rest [of f y ys' c] by (cases "map f ys'") auto
next
  fix x xs' y ys' assume xy: "xs = x # xs'" "ys = y # ys'"
  have "(join_with '','' (map f xs) @ [c]) @ us = (join_with '','' (map f ys) @ [c]) @ vs" using assms(4) by simp
  then have "f x @ rest_text f c xs' @ us = f y @ rest_text f c ys' @ vs"
    unfolding xy join_rest by simp
  from assms(1) [OF _ this] assms(3) xy have "x = y" "rest_text f c xs' @ us = rest_text f c ys' @ vs"
    by (simp_all add: rest_text_closed)
  with rest_text_inject [of xs' f c us ys' vs] assms(1,3) xy show ?thesis by auto
qed (use assms(4) in simp_all)

text \<open>The first character tells the kind of value.\<close>

datatype json_kind = KNull | KTrue | KFalse | KNumber | KString | KArray | KObject

definition kind_of_head :: "char \<Rightarrow> json_kind" where
  "kind_of_head c =
     (if c = CHR ''n'' then KNull else if c = CHR ''t'' then KTrue else if c = CHR ''f'' then KFalse
      else if c = CHR 34 then KString else if c = CHR ''['' then KArray else if c = CHR ''{'' then KObject else KNumber)"

definition kind_of :: "json \<Rightarrow> json_kind" where
  "kind_of v = (case v of JNull \<Rightarrow> KNull | JBool b \<Rightarrow> if b then KTrue else KFalse | JNum _ \<Rightarrow> KNumber
     | JStr _ \<Rightarrow> KString | JArr _ \<Rightarrow> KArray | JObj _ \<Rightarrow> KObject)"

lemma digit_kind: "is_digit c \<Longrightarrow> kind_of_head c = KNumber \<and> c \<noteq> CHR '']'' \<and> c \<noteq> CHR ''}''"
proof -
  assume d: "is_digit c"
  have "list_all (\<lambda>x. \<not> is_digit x) [CHR ''n'', CHR ''t'', CHR ''f'', CHR 34, CHR ''['', CHR ''{'', CHR '']'', CHR ''}'']" by code_simp
  with d have "c \<notin> set [CHR ''n'', CHR ''t'', CHR ''f'', CHR 34, CHR ''['', CHR ''{'', CHR '']'', CHR ''}'']"
    by (metis list_all_iff)
  then show ?thesis by (simp add: kind_of_head_def)
qed

lemma json_text_head: "\<exists>c cs. json_text v = c # cs \<and> kind_of_head c = kind_of v \<and> c \<noteq> CHR '']'' \<and> c \<noteq> CHR ''}''"
proof (cases v)
  case (JNum n)
  show ?thesis
  proof (cases "n < 0")
    case True
    then show ?thesis by (simp add: JNum serialize_number_def kind_of_head_def kind_of_def)
  next
    case False
    obtain c cs where "decimal_digits (nat n) = c # cs" "is_digit c" using decimal_digits_head by blast
    then show ?thesis using False digit_kind [of c] by (simp add: JNum serialize_number_def kind_of_def)
  qed
qed (simp_all add: kind_of_head_def kind_of_def serialize_string_def)

lemma json_text_kind: "json_text v @ us = json_text w @ vs \<Longrightarrow> kind_of v = kind_of w"
  using json_text_head [of v] json_text_head [of w] by auto

lemma digits_not_minus: "decimal_digits n @ xs \<noteq> CHR ''-'' # ys"
  using decimal_digits_head [of n] by (auto simp: is_digit_def less_eq_char_def)

lemma serialize_number_closed:
  assumes "serialize_number m @ us = serialize_number n @ vs" and "closed_by us" and "closed_by vs"
  shows "m = n \<and> us = vs"
proof -
  consider "m < 0" "n < 0" | "\<not> m < 0" "\<not> n < 0" | "m < 0" "\<not> n < 0" | "\<not> m < 0" "n < 0" by blast
  then show ?thesis
  proof cases
    case 1
    then have "decimal_digits (nat (- m)) @ us = decimal_digits (nat (- n)) @ vs"
      using assms(1) by (simp add: serialize_number_def)
    from decimal_digits_closed [OF this assms(2,3)] 1 show ?thesis by linarith
  next
    case 2
    then have "decimal_digits (nat m) @ us = decimal_digits (nat n) @ vs"
      using assms(1) by (simp add: serialize_number_def)
    from decimal_digits_closed [OF this assms(2,3)] 2 show ?thesis by linarith
  next
    case 3
    then have "decimal_digits (nat n) @ vs = CHR ''-'' # decimal_digits (nat (- m)) @ us"
      using assms(1) by (simp add: serialize_number_def)
    then show ?thesis by (simp add: digits_not_minus)
  next
    case 4
    then have "decimal_digits (nat m) @ us = CHR ''-'' # decimal_digits (nat (- n)) @ vs"
      using assms(1) by (simp add: serialize_number_def)
    then show ?thesis by (simp add: digits_not_minus)
  qed
qed

lemma json_text_inject:
  "json_text v @ us = json_text w @ vs \<Longrightarrow> closed_by us \<Longrightarrow> closed_by vs \<Longrightarrow> v = w \<and> us = vs"
proof (induction v arbitrary: w us vs)
  case (JNum n)
  from json_text_kind [OF JNum(1)] obtain m where "w = JNum m"
    by (cases w) (auto simp: kind_of_def split: if_splits)
  with JNum serialize_number_closed [of n us m vs] show ?case by simp
next
  case (JStr s)
  with json_text_kind [OF JStr(1)] show ?case
    by (cases w) (auto simp: kind_of_def serialize_string_append_inject split: if_splits)
next
  case (JArr xs)
  from json_text_kind [OF JArr(2)] obtain ys where w: "w = JArr ys"
    by (cases w) (auto simp: kind_of_def split: if_splits)
  have "xs = ys \<and> us = vs"
  proof (rule sequence_inject [of xs json_text "CHR '']''" us ys vs])
    show "\<exists>d ds. json_text x = d # ds \<and> d \<noteq> CHR '']''" for x using json_text_head [of x] by blast
  qed (use JArr(1,2) in \<open>simp_all add: w\<close>)
  then show ?case by (simp add: w)
next
  case (JObj ms)
  let ?f = "\<lambda>m. serialize_string (fst m) @ '':'' @ json_text (snd m)"
  from json_text_kind [OF JObj(2)] obtain ns where w: "w = JObj ns"
    by (cases w) (auto simp: kind_of_def split: if_splits)
  have "ms = ns \<and> us = vs"
  proof (rule sequence_inject [of ms ?f "CHR ''}''" us ns vs])
    fix x y as bs assume x: "x \<in> set ms" "?f x @ as = ?f y @ bs" "closed_by as" "closed_by bs"
    then have "fst x = fst y" "json_text (snd x) @ as = json_text (snd y) @ bs"
      by (simp_all add: serialize_string_append_inject)
    with JObj.IH [of x "snd x" as "snd y" bs] x show "x = y \<and> as = bs" by (simp add: snds.simps prod_eq_iff)
  qed (use JObj(2) in \<open>simp_all add: w serialize_string_def\<close>)
  then show ?case by (simp add: w)
next
  case JNull
  with json_text_kind [OF JNull(1)] show ?case by (cases w) (auto simp: kind_of_def split: if_splits)
next
  case (JBool b)
  with json_text_kind [OF JBool(1)] show ?case by (cases w; cases b) (auto simp: kind_of_def split: if_splits)
qed

section \<open>The canonical form\<close>

text \<open>A value and its sorted form have one canonical form; two values with one canonical form have one sorted form.\<close>

lemma canonicalize_inject:
  assumes "canonicalize v = Some t" and "canonicalize w = Some t"
  shows "sorted_json v = sorted_json w"
proof -
  from assms have "json_text (sorted_json v) @ [] = json_text (sorted_json w) @ []"
    using write_json_text [of 0 v t] write_json_text [of 0 w t] by (simp add: canonicalize_def)
  from json_text_inject [OF this] show ?thesis by (simp add: closed_by_def)
qed

lemma json_depth_sorted: "json_depth (sorted_json v) = json_depth v"
proof (induction v)
  case (JObj ms)
  have "json_depth (sorted_json (JObj ms)) \<le> n \<longleftrightarrow> json_depth (JObj ms) \<le> n" for n
    unfolding sorted_json.simps json_depth_obj_le using JObj by (auto simp: snds.simps)
  then show ?case by (meson dual_order.antisym order_refl)
next
  case (JArr vs)
  have "json_depth (sorted_json (JArr vs)) \<le> n \<longleftrightarrow> json_depth (JArr vs) \<le> n" for n
    unfolding sorted_json.simps json_depth_arr_le using JArr by auto
  then show ?case by (meson dual_order.antisym order_refl)
qed simp_all

lemma canonicalize_sorted:
  assumes "sorted_json v = sorted_json w"
  shows "canonicalize v = canonicalize w"
proof -
  have "json_depth v = json_depth w" using assms by (metis json_depth_sorted)
  then show ?thesis
    using write_json_defined [of 0 v] write_json_defined [of 0 w] write_json_text [of 0 v] write_json_text [of 0 w] assms
    by (cases "write_json 0 v"; cases "write_json 0 w") (simp_all add: canonicalize_def)
qed

text \<open>
  C37: The canonical form determines the value. Two values of which one has a canonical form have the same one
  exactly when they are the same value up to the order of the members of their objects: a hash or a signature over the
  form is over the value, and over no other. (Numbers are safe integers, as the protocol signs no others.)
\<close>

theorem canonical_form_determines_the_value:
  assumes "canonicalize v \<noteq> None"
  shows "canonicalize v = canonicalize w \<longleftrightarrow> sorted_json v = sorted_json w"
proof -
  from assms obtain t where "canonicalize v = Some t" by blast
  then show ?thesis using canonicalize_inject [of v t w] canonicalize_sorted [of v w] by auto
qed

theorem canonical_form_determines_the_value_witness:
  "canonicalize (JObj [(''b'', JNum 1), (''a'', JArr [JNull])]) = canonicalize (JObj [(''a'', JArr [JNull]), (''b'', JNum 1)]) \<and>
   canonicalize (JObj [(''b'', JNum 1)]) \<noteq> canonicalize (JObj [(''b'', JNum 11)])"
proof -
  have d: "canonicalize (JObj [(''b'', JNum 1), (''a'', JArr [JNull])]) \<noteq> None" "canonicalize (JObj [(''b'', JNum 1)]) \<noteq> None"
    by (code_simp, code_simp)
  have "sorted_json (JObj [(''b'', JNum 1), (''a'', JArr [JNull])]) = sorted_json (JObj [(''a'', JArr [JNull]), (''b'', JNum 1)])"
    "sorted_json (JObj [(''b'', JNum 1)]) \<noteq> sorted_json (JObj [(''b'', JNum 11)])"
    by (code_simp, code_simp)
  then show ?thesis using canonical_form_determines_the_value [OF d(1)] canonical_form_determines_the_value [OF d(2)] by blast
qed

end
