(* ===== verification/AdapterLaws.thy ===== *)
theory AdapterLaws
  imports Adapters CanonicalText
begin

text \<open>
  Laws of the adapters: what each observes, what the verification makes of the observations, that one hash stands for
  one bundle, and which questions the machine is asked.
\<close>

declare decimal_digits.simps [simp del]

section \<open>Two copies of one rule\<close>

text \<open>\<^verbatim>\<open>refs.ts\<close> keeps its own copy of the rule of \<^verbatim>\<open>executors/src/capabilities.ts\<close>; the copies agree.\<close>

fun complaint_of :: "path_error \<Rightarrow> ref_complaint" where
  "complaint_of PathEmpty = RefPathEmpty"
| "complaint_of PathAbsolute = RefPathNotRelative"
| "complaint_of PathBackslash = RefPathBackslash"
| "complaint_of PathNul = RefPathNul"
| "complaint_of PathTraversal = RefPathUpward"
| "complaint_of PathResolvesToNothing = RefPathNothing"

lemma relative_segments_agree: "relative_segments ss = map_sum complaint_of id (keep_segments ss)"
proof (induction ss)
  case (Cons s ss)
  then show ?case by (cases "keep_segments ss") auto
qed simp

lemma normalize_relative_path_agrees: "normalize_relative_path p = map_sum complaint_of id (normalize_workspace_path p)"
  by (cases "keep_segments (js_split CHR ''/'' p)")
    (simp_all add: normalize_relative_path_def normalize_workspace_path_def relative_segments_agree bind_result_def)

section \<open>What an observation says\<close>

fun holds :: "observation \<Rightarrow> bool" where
  "holds (CiRun i s w r c k t) \<longleftrightarrow> k = ''success''"
| "holds (GitCommit c q p) \<longleftrightarrow> p"
| "holds (GitBranch b h p) \<longleftrightarrow> p"
| "holds (GitMerged hr br h b m) \<longleftrightarrow> m"
| "holds (FileSeen p pr sz sh ex dm) \<longleftrightarrow> pr \<and> dm \<noteq> Some False"

fun adapter_of :: "observation \<Rightarrow> adapter_name" where
  "adapter_of (CiRun i s w r c k t) = AdCi"
| "adapter_of (FileSeen p pr sz sh ex dm) = AdFile"
| "adapter_of _ = AdGit"

lemma observed_Observed:
  "observed cl b = Inr (Observed b' h) \<longleftrightarrow> b' = b \<and> bundle_ok b \<and> hash_canonical cl (bundle_json b) = Some h"
  by (auto simp: observed_def evidence_hash_def split: option.splits)

lemma observed_not_refused: "observed cl b \<noteq> Inr (NotVerifiable r d)"
  by (auto simp: observed_def evidence_hash_def split: option.splits)

text \<open>An adapter that observes gives one observation of its own kind, and says truly whether it holds.\<close>

lemma adapter_observes_one:
  assumes "adapter_observe a cl w c r ctx = Inr (Observed b h)"
  obtains ob where "eb_observations b = [ob]" and "adapter_of ob = a" and "eb_satisfied b \<longleftrightarrow> holds ob"
proof (cases a)
  case AdCi
  then show ?thesis
    using assms that by (auto simp: ci_observe_def observed_Observed observed_not_refused split: if_splits sum.splits option.splits)
next
  case AdGit
  then obtain repo parsed ob where "git_observation w repo parsed = Inr ob"
    "b = \<lparr>eb_adapters = [AdGit], eb_commitment_hash = vc_commitment_hash c, eb_observed_at = oc_now ctx,
          eb_satisfied = git_holds ob, eb_observations = [ob]\<rparr>"
    using assms by (auto simp: git_observe_def observed_Observed bind_result_Inr_iff split: if_splits sum.splits option.splits)
  moreover from this(1) have "adapter_of ob = AdGit \<and> git_holds ob = holds ob"
    by (auto simp: git_observation_def bind_result_Inr_iff split: parsed_commit_ref.splits)
  ultimately show ?thesis using that [of ob] AdGit by simp
next
  case AdFile
  then have "\<exists>ob. eb_observations b = [ob] \<and> adapter_of ob = AdFile \<and> (eb_satisfied b \<longleftrightarrow> holds ob)"
    using assms
    by (auto simp: file_observe_def file_bundle_def observed_Observed observed_not_refused Let_def
        split: if_splits sum.splits option.splits)
  then show ?thesis using that AdFile by blast
qed

section \<open>What the verification makes of the observations\<close>

definition seen_at :: "crypto_lib \<Rightarrow> world \<Rightarrow> adapter_commitment \<Rightarrow> observation_context \<Rightarrow> evidence_ref \<Rightarrow> observation option" where
  "seen_at cl w c ctx r =
     (case adapter_for (ev_kind r) of
        None \<Rightarrow> None
      | Some a \<Rightarrow> (case adapter_observe a cl w c r ctx of Inr (Observed b h) \<Rightarrow> Some (hd (eb_observations b)) | _ \<Rightarrow> None))"

definition seen_all :: "crypto_lib \<Rightarrow> world \<Rightarrow> adapter_commitment \<Rightarrow> observation_context \<Rightarrow> evidence_ref list \<Rightarrow> observation list" where
  "seen_all cl w c ctx rs = List.map_filter (seen_at cl w c ctx) rs"

lemma observe_refs_seen:
  assumes "observe_refs cl w c ctx rs s = Inr s'"
  shows "ss_observations s' = ss_observations s @ seen_all cl w c ctx rs \<and>
     (ss_satisfied s' \<longleftrightarrow> ss_satisfied s \<and> list_all holds (seen_all cl w c ctx rs)) \<and>
     set (ss_adapters s') = set (ss_adapters s) \<union> adapter_of ` set (seen_all cl w c ctx rs) \<and>
     (distinct (ss_adapters s) \<longrightarrow> distinct (ss_adapters s'))"
  using assms
proof (induction rs arbitrary: s)
  case (Cons r rs)
  show ?case
  proof (cases "adapter_for (ev_kind r)")
    case None
    then show ?thesis using Cons by (simp add: seen_all_def seen_at_def List.map_filter_def)
  next
    case (Some a)
    then obtain out where out: "adapter_observe a cl w c r ctx = Inr out"
      using Cons.prems by (auto simp: bind_result_Inr_iff)
    show ?thesis
    proof (cases out)
      case (NotVerifiable reason detail)
      then show ?thesis using Cons Some out by (fastforce simp: seen_all_def seen_at_def List.map_filter_def)
    next
      case (Observed b h)
      from out Observed obtain ob where ob: "eb_observations b = [ob]" "adapter_of ob = a" "eb_satisfied b \<longleftrightarrow> holds ob"
        using adapter_observes_one by metis
      have seen: "seen_all cl w c ctx (r # rs) = ob # seen_all cl w c ctx rs"
        using Some out Observed ob(1) by (simp add: seen_all_def seen_at_def List.map_filter_def)
      from Cons.IH Cons.prems Some out Observed ob show ?thesis
        unfolding seen by (fastforce split: if_splits)
    qed
  qed
qed (simp add: seen_all_def List.map_filter_def)

lemma adapter_text_inject: "adapter_text a = adapter_text b \<longleftrightarrow> a = b"
  by (cases a; cases b) simp_all

lemma adapters_in_order:
  assumes "sorted_wrt (<) (map adapter_text xs)"
  shows "xs = filter (\<lambda>a. a \<in> set xs) [AdCi, AdFile, AdGit]"
proof -
  have s: "sorted_wrt (<) (map adapter_text [AdCi, AdFile, AdGit])" by code_simp
  have "sorted_wrt (<) (map adapter_text (filter P [AdCi, AdFile, AdGit]))" for P
    using s by (simp add: sorted_wrt_map sorted_wrt_filter)
  moreover have "set (filter (\<lambda>a. a \<in> set xs) [AdCi, AdFile, AdGit]) = set xs"
  proof (rule set_eqI)
    show "x \<in> set (filter (\<lambda>a. a \<in> set xs) [AdCi, AdFile, AdGit]) \<longleftrightarrow> x \<in> set xs" for x by (cases x) simp_all
  qed
  ultimately have "map adapter_text xs = map adapter_text (filter (\<lambda>a. a \<in> set xs) [AdCi, AdFile, AdGit])"
    using assms by (intro strict_sorted_equal) (simp_all only: set_map)
  then show ?thesis by (rule map_injective) (simp add: inj_on_def adapter_text_inject)
qed

section \<open>One hash, one bundle\<close>

lemma sorted_members_lookup:
  assumes "sorted_json (JObj ms) = sorted_json (JObj ns)" and "distinct (map fst ms)" and "distinct (map fst ns)"
  shows "map_option sorted_json (map_of ms k) = map_option sorted_json (map_of ns k)"
proof -
  let ?f = "\<lambda>m. (fst m, sorted_json (snd m))"
  have eq: "sort_key fst (map ?f ms) = sort_key fst (map ?f ns)" using assms(1) by simp
  have "set (sort_key fst (map ?f ms)) = set (sort_key fst (map ?f ns))" by (simp only: eq)
  then have same: "set (map ?f ms) = set (map ?f ns)" by (simp only: set_sort)
  have d: "distinct (map fst (map ?f ms))" "distinct (map fst (map ?f ns))" using assms(2,3) by (simp_all add: comp_def)
  have "map_of (map ?f ms) = map_of (map ?f ns)" by (rule map_of_inject_set [OF d, THEN iffD2]) (rule same)
  moreover have "map_of (map ?f xs) k = map_option sorted_json (map_of xs k)" for xs
    by (induction xs) auto
  ultimately show ?thesis by metis
qed

lemma sorted_leaf [simp]: "sorted_json (json_opt x) = json_opt x" "sorted_json (json_int_opt n) = json_int_opt n"
  "sorted_json (json_bool_opt b) = json_bool_opt b"
  by (simp_all add: json_opt_def json_int_opt_def json_bool_opt_def split: option.splits)

lemma json_opts_inject [simp]: "json_int_opt m = json_int_opt n \<longleftrightarrow> m = n" "json_bool_opt a = json_bool_opt b \<longleftrightarrow> a = b"
  by (simp_all add: json_int_opt_def json_bool_opt_def split: option.splits)

definition observation_members :: "observation \<Rightarrow> json_members" where
  "observation_members ob = (case observation_json ob of JObj ms \<Rightarrow> ms | _ \<Rightarrow> [])"

lemma observation_members: "observation_json ob = JObj (observation_members ob)" "distinct (map fst (observation_members ob))"
  by (cases ob, simp_all add: observation_members_def) (cases ob, simp_all)

lemma observation_json_inject:
  assumes "sorted_json (observation_json a) = sorted_json (observation_json b)"
  shows "a = b"
proof -
  have l: "map_option sorted_json (map_of (observation_members a) k) = map_option sorted_json (map_of (observation_members b) k)" for k
    by (rule sorted_members_lookup [OF assms [unfolded observation_members(1)] observation_members(2) observation_members(2)])
  note k = l [of "''kind''"]
  show ?thesis
  proof (cases a)
    case (CiRun i s w r c q t)
    with k obtain i' s' w' r' c' q' t' where b: "b = CiRun i' s' w' r' c' q' t'" by (cases b) (simp_all add: observation_members_def)
    show ?thesis
      using l [of "''envelope_id''"] l [of "''source''"] l [of "''workflow''"] l [of "''run_id''"] l [of "''commit''"] l [of "''conclusion''"] l [of "''completed_at''"]
      by (simp add: observation_members_def CiRun b)
  next
    case (GitCommit c q p)
    with k obtain c' q' p' where b: "b = GitCommit c' q' p'" by (cases b) (simp_all add: observation_members_def)
    show ?thesis
      using l [of "''commit''"] l [of "''queried''"] l [of "''present''"]
      by (simp add: observation_members_def GitCommit b)
  next
    case (GitBranch r h p)
    with k obtain r' h' p' where b: "b = GitBranch r' h' p'" by (cases b) (simp_all add: observation_members_def)
    show ?thesis
      using l [of "''branch''"] l [of "''head''"] l [of "''present''"]
      by (simp add: observation_members_def GitBranch b)
  next
    case (GitMerged r1 r2 h1 h2 m)
    with k obtain r1' r2' h1' h2' m' where b: "b = GitMerged r1' r2' h1' h2' m'" by (cases b) (simp_all add: observation_members_def)
    show ?thesis
      using l [of "''head_ref''"] l [of "''base_ref''"] l [of "''head''"] l [of "''base''"] l [of "''merged''"]
      by (simp add: observation_members_def GitMerged b)
  next
    case (FileSeen p pr sz sh ex dm)
    with k obtain p' pr' sz' sh' ex' dm' where b: "b = FileSeen p' pr' sz' sh' ex' dm'" by (cases b) (simp_all add: observation_members_def)
    show ?thesis
      using l [of "''path''"] l [of "''present''"] l [of "''size''"] l [of "''sha256''"] l [of "''expected_sha256''"] l [of "''digest_matches''"]
      by (simp add: observation_members_def FileSeen b)
  qed
qed

definition bundle_members :: "evidence_bundle \<Rightarrow> json_members" where
  "bundle_members b = (case bundle_json b of JObj ms \<Rightarrow> ms | _ \<Rightarrow> [])"

lemma bundle_json_inject:
  assumes "sorted_json (bundle_json a) = sorted_json (bundle_json b)"
  shows "a = b"
proof -
  have m: "bundle_json x = JObj (bundle_members x)" "distinct (map fst (bundle_members x))" for x
    by (simp_all add: bundle_members_def bundle_json_def)
  have l: "map_option sorted_json (map_of (bundle_members a) k) = map_option sorted_json (map_of (bundle_members b) k)" for k
    by (rule sorted_members_lookup [OF assms [unfolded m(1)] m(2) m(2)])
  have "map (sorted_json \<circ> observation_json) (eb_observations a) = map (sorted_json \<circ> observation_json) (eb_observations b)"
    using l [of "''observations''"] by (simp add: bundle_members_def bundle_json_def comp_def)
  then have "eb_observations a = eb_observations b"
    by (rule map_injective) (simp add: inj_on_def observation_json_inject)
  moreover have "map adapter_text (eb_adapters a) = map adapter_text (eb_adapters b)"
  proof -
    have "map JStr (map adapter_text (eb_adapters a)) = map JStr (map adapter_text (eb_adapters b))"
      using l [of "''adapters''"] by (simp add: bundle_members_def bundle_json_def comp_def)
    then show ?thesis by (rule map_injective) (simp add: inj_on_def)
  qed
  then have "eb_adapters a = eb_adapters b" by (rule map_injective) (simp add: inj_on_def adapter_text_inject)
  ultimately show ?thesis
    using l [of "''commitment_hash''"] l [of "''observed_at''"] l [of "''satisfied''"]
    by (cases a; cases b) (simp add: bundle_members_def bundle_json_def)
qed

lemma hash_canonical_inject:
  assumes "hash_canonical cl v = Some h" and "hash_canonical cl w = Some h"
  shows "sorted_json v = sorted_json w \<or> (\<exists>x y. x \<noteq> y \<and> lib_sha256 cl x = lib_sha256 cl y)"
proof -
  from assms obtain s t where c: "canonicalize v = Some s" "canonicalize w = Some t"
    and h: "sha256_hex cl (utf8 s) = sha256_hex cl (utf8 t)"
    by (auto simp: hash_canonical_def canonical_bytes_def)
  show ?thesis
  proof (cases "s = t")
    case True
    then show ?thesis using canonicalize_inject [OF c(1)] c(2) by simp
  next
    case False
    then have "utf8 s \<noteq> utf8 t" by (simp add: utf8_inject)
    with sha256_hex_eq [OF h] show ?thesis unfolding sha256_collision_def by blast
  qed
qed

end
