(* ===== verification/AdapterClaims.thy ===== *)
theory AdapterClaims
  imports AdapterLaws
begin

text \<open>
  The properties of verification: what it asks of the machine, what a bundle reports, and what the hash of one stands for.
\<close>

section \<open>Questions to the machine\<close>

text \<open>A revision that git cannot read as an option, a range or another operator.\<close>

definition safe_rev :: "string \<Rightarrow> bool" where
  "safe_rev s \<longleftrightarrow> s \<noteq> [] \<and> ascii_alnum (hd s) \<and> list_all (\<lambda>c. is_word_char c \<or> c \<in> {CHR ''.'', CHR ''/'', CHR ''-''}) s"

definition git_question :: "string list \<Rightarrow> bool" where
  "git_question argv \<longleftrightarrow>
     (\<exists>s. safe_rev s \<and> argv = [''rev-parse'', ''--verify'', ''--quiet'', ''--end-of-options'', s @ ''^{commit}'']) \<or>
     (\<exists>h b. hex_between 40 40 h \<and> hex_between 40 40 b \<and> argv = [''merge-base'', ''--is-ancestor'', h, b])"

text \<open>
  Two machines that answer alike what concerns the repository and the workspace named in the context: git on those questions, and
  below the real path of the workspace the links, the files and their octets.
\<close>

definition same_answers :: "observation_context \<Rightarrow> world \<Rightarrow> world \<Rightarrow> bool" where
  "same_answers ctx w w' \<longleftrightarrow>
     (\<forall>repo. oc_repo ctx = Some repo \<longrightarrow>
        wd_is_dir w repo = wd_is_dir w' repo \<and> wd_exists w (repo @ ''/.git'') = wd_exists w' (repo @ ''/.git'') \<and>
        (\<forall>argv. git_question argv \<longrightarrow> wd_git w repo argv = wd_git w' repo argv)) \<and>
     (\<forall>rt. oc_workspace ctx = Some rt \<longrightarrow> wd_real_path w rt = wd_real_path w' rt \<and>
        (\<forall>real_root. wd_real_path w rt = Some real_root \<longrightarrow>
           (\<forall>p. workspace_path p \<longrightarrow>
              wd_real_path w (resolve_below real_root p) = wd_real_path w' (resolve_below real_root p)) \<and>
           (\<forall>t. within_root real_root t \<longrightarrow> wd_stat w t = wd_stat w' t \<and> wd_read w t = wd_read w' t)))"

lemma lower_hex_word: "is_lower_hex c \<Longrightarrow> ascii_alnum c"
proof -
  assume c: "is_lower_hex c"
  have "\<not> is_lower_hex CHR ''_''" "CHR ''f'' \<le> CHR ''z''" by (code_simp, code_simp)
  with c have "c \<noteq> CHR ''_''" "is_word_char c"
    using order_trans [of c "CHR ''f''" "CHR ''z''"] by (auto simp: is_lower_hex_def is_word_char_def)
  then show ?thesis by (simp add: ascii_alnum_def)
qed

lemma safe_hex: "hex_between m n s \<Longrightarrow> 0 < m \<Longrightarrow> safe_rev s"
  using lower_hex_word by (cases s) (auto simp: hex_between_def safe_rev_def list_all_iff ascii_alnum_def)

lemma safe_name: "assert_ref_name n = Inr m \<Longrightarrow> safe_rev m \<and> safe_rev (''refs/heads/'' @ m)"
  by (auto simp: assert_ref_name_def ref_name_shape_def safe_rev_def ascii_alnum_def is_word_char_def split: if_splits)

lemma run_git_same:
  "git_question argv \<Longrightarrow> oc_repo ctx = Some repo \<Longrightarrow> same_answers ctx w w' \<Longrightarrow> run_git w repo argv = run_git w' repo argv"
  by (simp add: run_git_def same_answers_def split: list.splits)

lemma resolve_rev_same:
  assumes "safe_rev s" and "oc_repo ctx = Some repo" and "same_answers ctx w w'"
  shows "resolve_rev w repo s = resolve_rev w' repo s"
proof -
  have "git_question [''rev-parse'', ''--verify'', ''--quiet'', ''--end-of-options'', s @ ''^{commit}'']"
    using assms(1) unfolding git_question_def by blast
  from run_git_same [OF this assms(2,3)] show ?thesis by (simp add: resolve_rev_def)
qed

lemma resolve_rev_hex: "resolve_rev w repo s = Inr (Some h) \<Longrightarrow> hex_between 40 40 h"
  by (auto simp: resolve_rev_def bind_result_Inr_iff split: if_splits)

lemma git_observation_same:
  assumes "parse_commit_ref r = Inr parsed" and "oc_repo ctx = Some repo" and "same_answers ctx w w'"
  shows "git_observation w repo parsed = git_observation w' repo parsed"
proof (cases parsed)
  case (RefCommit c)
  then have "hex_between 7 40 c"
    using assms(1) by (auto simp: parse_commit_ref_def Let_def bind_result_Inr_iff map_sum_Inr_iff split: if_splits option.splits list.splits)
  then have "safe_rev c" by (rule safe_hex) simp
  then show ?thesis using resolve_rev_same [OF _ assms(2,3)] RefCommit by (simp add: git_observation_def)
next
  case (RefBranch b)
  then have "\<exists>n. assert_ref_name n = Inr b"
    using assms(1) by (auto simp: parse_commit_ref_def Let_def bind_result_Inr_iff map_sum_Inr_iff split: if_splits option.splits list.splits)
  then have "safe_rev (''refs/heads/'' @ b)" using safe_name by blast
  then show ?thesis using resolve_rev_same [OF _ assms(2,3)] RefBranch by (simp add: git_observation_def)
next
  case (RefMerged hr br)
  then have "(\<exists>n. assert_ref_name n = Inr hr) \<and> (\<exists>n. assert_ref_name n = Inr br)"
    using assms(1) by (auto simp: parse_commit_ref_def Let_def bind_result_Inr_iff map_sum_Inr_iff split: if_splits option.splits list.splits)
  then have s: "safe_rev hr" "safe_rev br" using safe_name by blast+
  note same = resolve_rev_same [OF s(1) assms(2,3)] resolve_rev_same [OF s(2) assms(2,3)]
  have "run_git w repo [''merge-base'', ''--is-ancestor'', h, b] = run_git w' repo [''merge-base'', ''--is-ancestor'', h, b]"
    if "resolve_rev w' repo hr = Inr (Some h)" "resolve_rev w' repo br = Inr (Some b)" for h b
    using that [THEN resolve_rev_hex] by (intro run_git_same [OF _ assms(2,3)]) (auto simp: git_question_def)
  then show ?thesis
    by (auto simp: git_observation_def RefMerged same bind_result_def split: sum.splits option.splits)
qed

lemma git_observe_same:
  assumes "same_answers ctx w w'"
  shows "git_observe cl w c r ctx = git_observe cl w' c r ctx"
proof -
  have "is_git_repo w repo = is_git_repo w' repo" if "oc_repo ctx = Some repo" for repo
    using assms that by (simp add: same_answers_def is_git_repo_def)
  then show ?thesis
    using git_observation_same [OF _ _ assms] by (auto simp: git_observe_def split: sum.splits option.splits)
qed

lemma file_path_below: "parse_file_ref r = Inr p \<Longrightarrow> workspace_path (pf_path p)"
proof -
  have "normalize_relative_path s = Inr q \<Longrightarrow> workspace_path q" for s q
    using normalized_path by (cases "normalize_workspace_path s") (auto simp: normalize_relative_path_agrees)
  then show "parse_file_ref r = Inr p \<Longrightarrow> workspace_path (pf_path p)"
    by (auto simp: parse_file_ref_def Let_def map_sum_Inr_iff split: if_splits option.splits)
qed

lemma file_observe_same:
  assumes "same_answers ctx w w'"
  shows "file_observe cl w c r ctx = file_observe cl w' c r ctx"
proof (cases "parse_file_ref r")
  case (Inr p)
  show ?thesis
  proof (cases "oc_workspace ctx")
    case (Some rt)
    then have root: "wd_real_path w rt = wd_real_path w' rt" using assms by (simp add: same_answers_def)
    show ?thesis
    proof (cases "wd_real_path w rt")
      case (Some real_root)
      have real: "wd_real_path w (resolve_below real_root (pf_path p)) = wd_real_path w' (resolve_below real_root (pf_path p))"
        "within_root real_root t \<Longrightarrow> wd_stat w t = wd_stat w' t \<and> wd_read w t = wd_read w' t" for t
        using assms \<open>oc_workspace ctx = Some rt\<close> Some file_path_below [OF Inr] by (simp_all add: same_answers_def)
      show ?thesis
        using root Some real \<open>oc_workspace ctx = Some rt\<close> by (auto simp: file_observe_def Inr split: option.splits)
    qed (use root Some in \<open>simp add: file_observe_def Inr\<close>)
  qed (simp add: file_observe_def Inr)
qed (simp add: file_observe_def)

lemma adapter_observe_same:
  "same_answers ctx w w' \<Longrightarrow> adapter_observe a cl w c r ctx = adapter_observe a cl w' c r ctx"
  by (cases a) (simp_all add: git_observe_same file_observe_same)

lemma observe_refs_same:
  "same_answers ctx w w' \<Longrightarrow> observe_refs cl w c ctx rs s = observe_refs cl w' c ctx rs s"
proof (induction rs arbitrary: s)
  case (Cons r rs)
  then show ?case
    by (simp add: adapter_observe_same [OF Cons.prems] Cons.IH [OF Cons.prems] cong: option.case_cong verification_outcome.case_cong)
qed simp

section \<open>A machine and a commitment\<close>

definition sample_world :: world where
  "sample_world =
     \<lparr>wd_real_path = (\<lambda>p. if p = ''/w'' \<or> p = ''/w/a.ts'' then Some p else None),
      wd_stat = (\<lambda>p. Some (True, 2)), wd_read = (\<lambda>p. Some [104, 105]),
      wd_is_dir = (\<lambda>p. p = ''/r''), wd_exists = (\<lambda>p. p = ''/r/.git''),
      wd_git = (\<lambda>repo argv. Some (0, replicate 40 CHR ''a''))\<rparr>"

text \<open>The same machine with another file outside the workspace.\<close>

definition touched_world :: world where
  "touched_world = sample_world\<lparr>wd_read := \<lambda>p. if starts_with ''/w/'' p \<or> p = ''/w'' then Some [104, 105] else Some []\<rparr>"

definition sample_refs :: "evidence_ref list" where
  "sample_refs = [\<lparr>ev_kind = EvUrl, ev_value = ''https://x''\<rparr>, \<lparr>ev_kind = EvCommit, ev_value = ''branch:main''\<rparr>,
     \<lparr>ev_kind = EvFile, ev_value = ''./a.ts''\<rparr>]"

definition sample_claim :: adapter_commitment where
  "sample_claim =
     \<lparr>vc_owner = alice, vc_owed_to = None, vc_due = None, vc_conditions = [], vc_evidence_refs = sample_refs,
      vc_created_at = stamp ''1970-01-01T00:00:00Z'', vc_source = SrcExplicit, vc_confidence = 1, vc_commitment_hash = bob\<rparr>"

definition sample_context :: observation_context where
  "sample_context =
     \<lparr>oc_now = ''1970-01-01T00:00:00Z'', oc_workspace = Some ''/w'', oc_repo = Some ''/r'', oc_envelopes = None, oc_edge = None\<rparr>"

lemma observation_depth: "json_depth (observation_json ob) \<le> 1"
  by (cases ob) (simp_all add: json_opt_def json_int_opt_def json_bool_opt_def split: option.split)

lemma bundle_depth: "json_depth (bundle_json b) \<le> 256"
proof -
  have "json_depth (observation_json ob) \<le> 254" for ob using observation_depth [of ob] by linarith
  then show ?thesis by (auto simp: bundle_json_def json_depth_le simp del: json_depth.simps(1,2))
qed

text \<open>A bundle the schema accepts has a hash.\<close>

lemma observed_ok:
  assumes "bundle_ok b"
  obtains h where "observed cl b = Inr (Observed b h)"
proof -
  obtain bs where "canonical_bytes (bundle_json b) = Some bs"
    using canonical_bytes_defined [of "bundle_json b"] bundle_depth by auto
  with assms that show thesis by (simp add: observed_def evidence_hash_def hash_canonical_def)
qed

lemma sample_parts:
  "parse_commit_ref \<lparr>ev_kind = EvCommit, ev_value = ''branch:main''\<rparr> = Inr (RefBranch ''main'')"
  "parse_file_ref \<lparr>ev_kind = EvFile, ev_value = ''./a.ts''\<rparr> = Inr \<lparr>pf_path = ''a.ts'', pf_expected = None\<rparr>"
  "adapter_for EvUrl = None" "adapter_for EvCommit = Some AdGit" "adapter_for EvFile = Some AdFile"
  "hex_between 40 40 (replicate 40 CHR ''a'')" "run_git sample_world ''/r'' [''rev-parse'', ''--verify'', ''--quiet'', ''--end-of-options'', ''refs/heads/main^{commit}''] = Inr (0, replicate 40 CHR ''a'')"
  by code_simp+


lemma sample_git: "git_observation sample_world ''/r'' (RefBranch ''main'') = Inr (GitBranch ''main'' (Some (replicate 40 CHR ''a'')) True)"
  using sample_parts(6,7) by (simp add: git_observation_def resolve_rev_def)

definition sample_digest :: string where
  "sample_digest = sha256_hex sample_lib [104, 105]"

lemma sample_digest: "hex64 sample_digest"
  by (simp add: sample_digest_def sha256_hex_def sample_lib_def hex64_to_hex)

definition sample_bundle :: evidence_bundle where
  "sample_bundle =
     \<lparr>eb_adapters = [AdFile, AdGit], eb_commitment_hash = bob, eb_observed_at = ''1970-01-01T00:00:00Z'', eb_satisfied = True,
      eb_observations = [GitBranch ''main'' (Some (replicate 40 CHR ''a'')) True, FileSeen ''a.ts'' True (Some 2) (Some sample_digest) None None]\<rparr>"

lemma sample_claim_verified: "\<exists>h. verify_commitment sample_lib sample_world sample_claim sample_context = Inr (Observed sample_bundle h)"
proof -
  let ?b = "\<lambda>a ob. \<lparr>eb_adapters = [a], eb_commitment_hash = bob, eb_observed_at = ''1970-01-01T00:00:00Z'', eb_satisfied = True,
      eb_observations = [ob]\<rparr>"
  let ?g = "?b AdGit (GitBranch ''main'' (Some (replicate 40 CHR ''a'')) True)"
  let ?f = "?b AdFile (FileSeen ''a.ts'' True (Some 2) (Some sample_digest) None None)"
  have ok: "bundle_ok ?g" "bundle_ok ?f" "bundle_ok sample_bundle"
    using sample_parts(6) sample_digest
    by (simp_all add: bundle_ok_def parties_hex64 is_rfc3339_epoch sample_bundle_def)
  obtain hg where g: "observed sample_lib ?g = Inr (Observed ?g hg)" using ok(1) by (rule observed_ok)
  obtain hf where f: "observed sample_lib ?f = Inr (Observed ?f hf)" using ok(2) by (rule observed_ok)
  obtain h where h: "observed sample_lib sample_bundle = Inr (Observed sample_bundle h)" using ok(3) by (rule observed_ok)
  have 1: "git_observe sample_lib sample_world sample_claim \<lparr>ev_kind = EvCommit, ev_value = ''branch:main''\<rparr> sample_context = Inr (Observed ?g hg)"
    using g by (simp add: git_observe_def sample_parts sample_context_def sample_claim_def sample_git is_git_repo_def) (simp add: sample_world_def)
  have 2: "file_observe sample_lib sample_world sample_claim \<lparr>ev_kind = EvFile, ev_value = ''./a.ts''\<rparr> sample_context = Inr (Observed ?f hf)"
    using f by (simp add: file_observe_def sample_parts sample_context_def sample_claim_def sample_world_def
        resolve_below_def below_text_def ends_with_def within_root_def starts_with_def file_bundle_def sample_digest_def)
  have o: "sort_key adapter_text [AdGit, AdFile] = [AdFile, AdGit]" by code_simp
  show ?thesis
    using 1 2 h by (simp add: verify_commitment_def verify_refs_def sample_claim_def sample_context_def sample_refs_def sample_parts o
        sample_bundle_def Let_def)
qed
text \<open>On the machine with another file outside, the same result.\<close>

lemma touched_same: "same_answers sample_context sample_world touched_world"
  by (auto simp: same_answers_def sample_context_def sample_world_def touched_world_def within_root_def below_text_def
      ends_with_def starts_with_def)

text \<open>An envelope whose time of completion is no timestamp makes the verification throw: the adapter does not read it before its own schema does.\<close>

lemma bad_completion_time_throws:
  assumes "ev_kind r = EvEnvelope" and "parse_evidence_envelope r = Inr i" and "oc_envelopes ctx = Some [(i, e)]"
    and "en_source e = ''ci''" and "read_check_run e = Inr run" and "cr_conclusion run \<in> set ci_conclusions"
    and "hex_between 7 40 (cr_commit run)" and "\<not> is_rfc3339 (cr_completed_at run)"
  shows "\<exists>b. ci_observe cl c r ctx = Inl (BundleRefused b)"
  using assms by (simp add: ci_observe_def observed_def bundle_ok_def)

text \<open>
  An edge that closes on evidence, when nothing could be observed: the node may not escalate it, and the owner's closing
  assertion with the hash of the outcome, which is none, is refused.
\<close>

lemma unverifiable_neither_escalates_nor_closes:
  assumes "\<not> verifiable out" and "e_closure_policy e = OnEvidence"
  shows "\<not> adapters_may_escalate e out node_verdict"
    and "c_state c = SOpen \<Longrightarrow> a_evidence_hash a = outcome_hash out \<Longrightarrow>
      step_closed e c a True owed = Inl EvidenceHashRequiredForOwnerClosure"
  using assms by (cases out; simp add: adapters_may_escalate_def is_edge_verifiable_def step_closed_def)+

section \<open>The properties\<close>

text \<open>
  C34: Whatever the references of a commitment say, verification depends on nothing of the machine but git's
  answers about names and hashes that cannot be options or operators, in the one repository, and the files whose real path is below
  the one workspace. On two machines that agree on these it comes to one result, errors included.
\<close>

theorem verification_asks_only_what_it_may:
  assumes "same_answers ctx w w'"
  shows "verify_commitment cl w c ctx = verify_commitment cl w' c ctx"
proof -
  have "verify_refs cl w c ctx = verify_refs cl w' c ctx"
    by (simp add: verify_refs_def Let_def observe_refs_same [OF assms])
  then show ?thesis by (simp add: verify_commitment_def split: option.split)
qed

theorem verification_asks_only_what_it_may_witness:
  "wd_read touched_world ''/etc/x'' \<noteq> wd_read sample_world ''/etc/x'' \<and>
   verify_commitment sample_lib touched_world sample_claim sample_context =
     verify_commitment sample_lib sample_world sample_claim sample_context"
proof -
  have "wd_read touched_world ''/etc/x'' \<noteq> wd_read sample_world ''/etc/x''" by code_simp
  with verification_asks_only_what_it_may [OF touched_same, of sample_lib sample_claim] show ?thesis by simp
qed

text \<open>
  C35: A bundle reports what was seen and nothing else: one observation for each reference an adapter could
  observe, in the order of the commitment, satisfied exactly when every one of them holds, with the adapters that saw
  them in order; it is about this commitment at the time given, and its hash is the hash of its form. Without a bundle nothing was seen.
\<close>

theorem bundle_reports_what_was_seen:
  assumes "verify_commitment cl w c ctx = Inr out"
  shows "case out of
     Observed b h \<Rightarrow>
       eb_observations b = seen_all cl w c ctx (vc_evidence_refs c) \<and>
       (eb_satisfied b \<longleftrightarrow> (\<forall>ob \<in> set (eb_observations b). holds ob)) \<and>
       eb_adapters b = filter (\<lambda>a. a \<in> adapter_of ` set (eb_observations b)) [AdCi, AdFile, AdGit] \<and>
       eb_commitment_hash b = vc_commitment_hash c \<and> eb_observed_at b = oc_now ctx \<and> bundle_ok b \<and>
       hash_canonical cl (bundle_json b) = Some h
   | NotVerifiable reason detail \<Rightarrow>
       seen_all cl w c ctx (vc_evidence_refs c) = [] \<or> reason = CollectiveWithoutDecompositionOrCoordinator"
proof -
  consider "verify_refs cl w c ctx = Inr out" | e where "out = NotVerifiable CollectiveWithoutDecompositionOrCoordinator (CollectiveIncomplete e)"
    using assms by (auto simp: verify_commitment_def split: option.splits if_splits)
  then show ?thesis
  proof cases
    case 1
    show ?thesis
    proof (cases "vc_evidence_refs c = []")
      case False
      with 1 obtain s where s: "observe_refs cl w c ctx (vc_evidence_refs c)
          \<lparr>ss_adapters = [], ss_observations = [], ss_satisfied = True, ss_failure = None\<rparr> = Inr s"
        by (auto simp: verify_refs_def bind_result_Inr_iff Let_def)
      note seen = observe_refs_seen [OF s, simplified]
      show ?thesis
      proof (cases "ss_observations s = []")
        case True
        then show ?thesis using 1 False s seen
          by (auto simp: verify_refs_def Let_def split: option.splits if_splits)
      next
        case nonempty: False
        then obtain h b where out: "out = Observed b h" "bundle_ok b" "hash_canonical cl (bundle_json b) = Some h"
          and b: "b = \<lparr>eb_adapters = sort_key adapter_text (ss_adapters s), eb_commitment_hash = vc_commitment_hash c,
                eb_observed_at = oc_now ctx, eb_satisfied = ss_satisfied s, eb_observations = ss_observations s\<rparr>"
          using 1 False s by (cases out) (auto simp: verify_refs_def observed_Observed observed_not_refused)
        have "eb_adapters b = filter (\<lambda>a. a \<in> set (eb_adapters b)) [AdCi, AdFile, AdGit]"
          using out(2) by (intro adapters_in_order) (simp add: bundle_ok_def)
        moreover have "set (eb_adapters b) = adapter_of ` set (eb_observations b)" using seen by (simp add: b)
        ultimately show ?thesis using out seen by (simp add: b list_all_iff)
      qed
    qed (use 1 in \<open>auto simp: verify_refs_def seen_all_def List.map_filter_def\<close>)
  qed simp
qed

theorem bundle_reports_what_was_seen_witness:
  "seen_all sample_lib sample_world sample_claim sample_context sample_refs = eb_observations sample_bundle"
proof -
  obtain h where h: "verify_commitment sample_lib sample_world sample_claim sample_context = Inr (Observed sample_bundle h)"
    using sample_claim_verified by blast
  from bundle_reports_what_was_seen [OF h] show ?thesis by (simp add: sample_claim_def)
qed

text \<open>
  C36: One evidence hash stands for one bundle: two bundles with the hash the owner cites when closing are the
  same bundle, or two different texts have been found with one SHA-256 digest.
\<close>

theorem evidence_hash_stands_for_one_bundle:
  assumes "evidence_hash cl b = Inr h" and "evidence_hash cl b' = Inr h"
  shows "b = b' \<or> (\<exists>x y. x \<noteq> y \<and> lib_sha256 cl x = lib_sha256 cl y)"
proof -
  from assms have "hash_canonical cl (bundle_json b) = Some h" "hash_canonical cl (bundle_json b') = Some h"
    by (auto simp: evidence_hash_def split: if_splits option.splits)
  from hash_canonical_inject [OF this] show ?thesis using bundle_json_inject by blast
qed

theorem evidence_hash_stands_for_one_bundle_witness:
  "\<exists>x y. x \<noteq> y \<and> lib_sha256 (sample_lib\<lparr>lib_sha256 := \<lambda>_. []\<rparr>) x = lib_sha256 (sample_lib\<lparr>lib_sha256 := \<lambda>_. []\<rparr>) y"
proof -
  let ?cl = "sample_lib\<lparr>lib_sha256 := \<lambda>_. []\<rparr>"
  have h: "evidence_hash ?cl b = Inr []" if "bundle_ok b" for b
  proof -
    obtain bs where "canonical_bytes (bundle_json b) = Some bs"
      using canonical_bytes_defined [of "bundle_json b"] bundle_depth by auto
    with that show ?thesis by (simp add: evidence_hash_def hash_canonical_def sha256_hex_def to_hex_def)
  qed
  have "bundle_ok sample_bundle" "bundle_ok (sample_bundle\<lparr>eb_satisfied := False\<rparr>)"
    using sample_parts(6) sample_digest by (simp_all add: bundle_ok_def parties_hex64 is_rfc3339_epoch sample_bundle_def)
  from evidence_hash_stands_for_one_bundle [OF h [OF this(1)] h [OF this(2)]] show ?thesis
    by (auto simp: sample_bundle_def)
qed

end
