(* ===== verification/Gestures.thy ===== *)
theory Gestures
  imports Ladder NodeActs
begin

text \<open>
  Gestures, \<^verbatim>\<open>packages/gestures/src\<close>: what somebody said somewhere (\<^verbatim>\<open>utterance.ts\<close>), scrubbed and quoted (\<^verbatim>\<open>quote.ts\<close>), the card a
  reaction on it resolves to (\<^verbatim>\<open>reaction.ts\<close>, \<^verbatim>\<open>card.ts\<close>), the intent behind each action of a card (\<^verbatim>\<open>intent.ts\<close>), what is
  run when it is tapped (\<^verbatim>\<open>run.ts\<close>), the cards of the queue (\<^verbatim>\<open>queue.ts\<close>) and the three sources of utterances
  (\<^verbatim>\<open>adapters/\<close>). The words of a message are code units (\<open>wide\<close>), since a mark above 255 closes a shortened quote. The
  headings and labels of a card and its rendering are not modelled.
\<close>

section \<open>Quoting\<close>

definition quote_max_chars :: nat where "quote_max_chars = 500"

definition control_unit :: "nat \<Rightarrow> bool" where
  "control_unit c \<longleftrightarrow> c \<le> 31 \<or> (127 \<le> c \<and> c \<le> 159)"

definition invisible_unit :: "nat \<Rightarrow> bool" where
  "invisible_unit c \<longleftrightarrow> c = 173 \<or> (8203 \<le> c \<and> c \<le> 8207) \<or> (8234 \<le> c \<and> c \<le> 8238) \<or> (8288 \<le> c \<and> c \<le> 8292) \<or>
     (8294 \<le> c \<and> c \<le> 8297) \<or> c = 65279"

text \<open>\<^verbatim>\<open>\s\<close>, which is also what \<^verbatim>\<open>trim\<close> removes.\<close>

definition space_unit :: "nat \<Rightarrow> bool" where
  "space_unit c \<longleftrightarrow> (9 \<le> c \<and> c \<le> 13) \<or> c = 32 \<or> c = 160 \<or> c = 5760 \<or> (8192 \<le> c \<and> c \<le> 8202) \<or> c = 8232 \<or> c = 8233 \<or>
     c = 8239 \<or> c = 8287 \<or> c = 12288 \<or> c = 65279"

text \<open>\<^verbatim>\<open>replace(/\s+/gu, ' ')\<close>\<close>

function collapse_spaces :: "wide \<Rightarrow> wide" where
  "collapse_spaces [] = []"
| "collapse_spaces (c # s) = (if space_unit c then 32 # collapse_spaces (dropWhile space_unit s) else c # collapse_spaces s)"
  by pat_completeness auto

termination
  by (relation "measure length") (auto simp: length_dropWhile_le le_imp_less_Suc)

definition trim_wide :: "wide \<Rightarrow> wide" where
  "trim_wide s = rev (dropWhile space_unit (rev (dropWhile space_unit s)))"

definition quote_text :: "wide \<Rightarrow> wide" where
  "quote_text raw =
     (let flattened = trim_wide (collapse_spaces (filter (\<lambda>c. \<not> invisible_unit c) (map (\<lambda>c. if control_unit c then 32 else c) raw)))
      in if quote_max_chars < length flattened then take (quote_max_chars - 1) flattened @ [8230] else flattened)"

definition is_scrubbed :: "wide \<Rightarrow> bool" where
  "is_scrubbed s \<longleftrightarrow> quote_text s = s"

section \<open>Utterances\<close>

datatype place = InChat | InPrComment | InMeeting | WithAgent

record speaker =
  sp_display :: wide
  sp_external_id :: wide
  sp_persona :: "persona_id option"
  sp_verification :: ladder_level

datatype utterance_ref_kind = RefMessage | RefUrl

record utterance_ref =
  ur_kind :: utterance_ref_kind
  ur_value :: wide

record utterance =
  ut_place :: place
  ut_ref :: utterance_ref
  ut_speaker :: speaker
  ut_text :: wide
  ut_occurred_at :: string
  ut_pending_id :: "wide option"
  ut_owed_to :: "speaker option"

text \<open>The one gate from what somebody said to what I said; the brand of the type is its being \<open>Some\<close>.\<close>

definition as_own :: "utterance \<Rightarrow> persona_id \<Rightarrow> utterance option" where
  "as_own u viewer =
     (case sp_persona (ut_speaker u) of
        None \<Rightarrow> None
      | Some p \<Rightarrow> if p \<noteq> viewer then None else Some u)"

definition is_someone_elses :: "utterance \<Rightarrow> persona_id \<Rightarrow> bool" where
  "is_someone_elses u viewer \<longleftrightarrow> as_own u viewer = None"

section \<open>Intents\<close>

datatype open_loop_action = LoopDone | LoopRelease | LoopSupersede | LoopDelegate | LoopPing

record flywheel_label =
  fl_decision :: decision
  fl_place :: place
  fl_item :: wide
  fl_at :: string

record commit_args =
  ca_intent :: wide
  ca_owed_to :: "persona_id option"
  ca_due :: "rfc3339 option"
  ca_persona :: "persona_id option"
  ca_propose :: bool

text \<open>A member every JavaScript object inherits is found in a table under its name, though the table has no such entry.\<close>

datatype unmapped_action = Advertised open_loop_action | Inherited wide

datatype gesture_intent =
    ConfirmIntent wide decision flywheel_label
  | CommitIntent commit_args
  | ExpectIntent wide wide wide
  | UnmappedIntent unmapped_action

definition unmapped_actions :: "open_loop_action list" where
  "unmapped_actions = [LoopDone, LoopRelease, LoopDelegate, LoopPing]"

definition decide_intent :: "decision \<Rightarrow> utterance \<Rightarrow> wide \<Rightarrow> gesture_intent" where
  "decide_intent d u pending =
     ConfirmIntent pending d \<lparr>fl_decision = d, fl_place = ut_place u, fl_item = pending, fl_at = ut_occurred_at u\<rparr>"

definition confirm_intent :: "utterance \<Rightarrow> wide \<Rightarrow> gesture_intent" where
  "confirm_intent u pending = decide_intent DecideConfirm u pending"

definition dismiss_intent :: "utterance \<Rightarrow> wide \<Rightarrow> gesture_intent" where
  "dismiss_intent u pending = decide_intent DecideDismiss u pending"

definition commit_intent :: "utterance \<Rightarrow> gesture_intent" where
  "commit_intent u =
     (let owed = Option.bind (ut_owed_to u) sp_persona
      in CommitIntent \<lparr>ca_intent = ut_text u, ca_owed_to = owed, ca_due = None, ca_persona = None, ca_propose = (owed \<noteq> None)\<rparr>)"

definition expect_intent :: "utterance \<Rightarrow> gesture_intent" where
  "expect_intent u =
     ExpectIntent (ut_text u)
       (case sp_persona (ut_speaker u) of Some p \<Rightarrow> wide p | None \<Rightarrow> sp_display (ut_speaker u)) (ur_value (ut_ref u))"

section \<open>Cards\<close>

datatype delivery_moment = InSitu | Batched

record delivery =
  dv_moment :: delivery_moment
  dv_interrupts :: bool

definition in_situ :: delivery where "in_situ = \<lparr>dv_moment = InSitu, dv_interrupts = False\<rparr>"
definition at_meeting_end :: delivery where "at_meeting_end = \<lparr>dv_moment = Batched, dv_interrupts = False\<rparr>"

definition when_the_other_half_arrives :: delivery where
  "when_the_other_half_arrives = \<lparr>dv_moment = Batched, dv_interrupts = False\<rparr>"

datatype card_kind = ConfirmOwnPromise | RecordOwnPromise | NoteExpectation

record gesture_action =
  ga_id :: wide
  ga_primary :: bool
  ga_intent :: gesture_intent

text \<open>Whom a card names, with what stands behind the name.\<close>

record named_party =
  np_display :: wide
  np_is_key :: bool
  np_level :: ladder_level

record gesture_card =
  gc_kind :: card_kind
  gc_id :: wide
  gc_place :: place
  gc_ref :: utterance_ref
  gc_what :: wide
  gc_with_whom :: "named_party option"
  gc_delivery :: delivery
  gc_actions :: "gesture_action list"

text \<open>\<^verbatim>\<open>partyFor\<close> of \<^verbatim>\<open>client-web/src/view.ts\<close>, for a self-labelled name.\<close>

definition key_shaped :: "wide \<Rightarrow> bool" where
  "key_shaped s \<longleftrightarrow> length s = 64 \<and> list_all (\<lambda>c. (48 \<le> c \<and> c \<le> 57) \<or> (97 \<le> c \<and> c \<le> 102)) s"

definition elided_key :: "wide \<Rightarrow> wide" where
  "elided_key s = take 6 s @ [8230] @ drop (length s - 4) s"

definition party_of :: "speaker option \<Rightarrow> named_party option" where
  "party_of sp =
     (case sp of
        None \<Rightarrow> None
      | Some s \<Rightarrow>
          if trim_wide (sp_display s) = [] then None
          else Some \<lparr>np_display = (if key_shaped (sp_display s) then elided_key (sp_display s) else sp_display s),
                     np_is_key = key_shaped (sp_display s), np_level = sp_verification s\<rparr>)"

definition confirm_card :: "utterance \<Rightarrow> wide \<Rightarrow> delivery \<Rightarrow> gesture_card" where
  "confirm_card u pending dv =
     \<lparr>gc_kind = ConfirmOwnPromise, gc_id = pending, gc_place = ut_place u, gc_ref = ut_ref u, gc_what = ut_text u,
      gc_with_whom = party_of (ut_owed_to u), gc_delivery = dv,
      gc_actions =
        [\<lparr>ga_id = pending @ wide '':confirm'', ga_primary = True, ga_intent = confirm_intent u pending\<rparr>,
         \<lparr>ga_id = pending @ wide '':dismiss'', ga_primary = False, ga_intent = dismiss_intent u pending\<rparr>]\<rparr>"

definition record_card :: "utterance \<Rightarrow> wide \<Rightarrow> gesture_card" where
  "record_card u i =
     \<lparr>gc_kind = RecordOwnPromise, gc_id = i, gc_place = ut_place u, gc_ref = ut_ref u, gc_what = ut_text u,
      gc_with_whom = party_of (ut_owed_to u), gc_delivery = in_situ,
      gc_actions = [\<lparr>ga_id = i @ wide '':record'', ga_primary = True, ga_intent = commit_intent u\<rparr>]\<rparr>"

definition expectation_card :: "utterance \<Rightarrow> wide \<Rightarrow> delivery \<Rightarrow> gesture_card" where
  "expectation_card u i dv =
     \<lparr>gc_kind = NoteExpectation, gc_id = i, gc_place = ut_place u, gc_ref = ut_ref u, gc_what = ut_text u,
      gc_with_whom = party_of (Some (ut_speaker u)), gc_delivery = dv,
      gc_actions =
        \<lparr>ga_id = i @ wide '':expect'', ga_primary = True, ga_intent = expect_intent u\<rparr> #
        (case ut_pending_id u of
           None \<Rightarrow> []
         | Some pending \<Rightarrow> [\<lparr>ga_id = i @ wide '':dismiss'', ga_primary = False, ga_intent = dismiss_intent u pending\<rparr>])\<rparr>"

definition primary_action :: "gesture_card \<Rightarrow> gesture_action" where
  "primary_action c = hd (gc_actions c)"

section \<open>Reactions\<close>

text \<open>The handshake, and the reactions that mean an action no tool implements.\<close>

definition confirm_reaction :: wide where "confirm_reaction = [0xD83E, 0xDD1D]"

definition unmapped_reactions :: "(wide \<times> open_loop_action) list" where
  "unmapped_reactions = [([0x2705], LoopDone), ([0xD83D, 0xDE4F], LoopRelease), ([0x21AA, 0xFE0F], LoopDelegate), ([0x23F0], LoopPing)]"

definition inherited_members :: "wide list" where
  "inherited_members = map wide
     [''constructor'', ''__defineGetter__'', ''__defineSetter__'', ''hasOwnProperty'', ''__lookupGetter__'', ''__lookupSetter__'',
      ''isPrototypeOf'', ''propertyIsEnumerable'', ''toString'', ''valueOf'', ''__proto__'', ''toLocaleString'']"

text \<open>\<^verbatim>\<open>UNMAPPED_REACTIONS[reaction]\<close>\<close>

definition unmapped_reaction :: "wide \<Rightarrow> unmapped_action option" where
  "unmapped_reaction r =
     (case map_of unmapped_reactions r of
        Some act \<Rightarrow> Some (Advertised act)
      | None \<Rightarrow> if r \<in> set inherited_members then Some (Inherited r) else None)"

record reaction_event =
  re_reaction :: wide
  re_by :: persona_id
  re_utterance :: utterance

datatype ignored_reason = NotAGesture | NothingSaid

datatype resolution = ShowCard gesture_card | NoTool gesture_intent | Ignored ignored_reason

definition resolve_reaction :: "reaction_event \<Rightarrow> resolution" where
  "resolve_reaction ev =
     (let u = re_utterance ev
      in if re_reaction ev \<noteq> confirm_reaction then
           (case unmapped_reaction (re_reaction ev) of
              None \<Rightarrow> Ignored NotAGesture
            | Some act \<Rightarrow> NoTool (UnmappedIntent act))
         else if ut_text u = [] then Ignored NothingSaid
         else case as_own u (re_by ev) of
           None \<Rightarrow> ShowCard (expectation_card u (ur_value (ut_ref u)) in_situ)
         | Some mine \<Rightarrow>
             (case ut_pending_id mine of
                None \<Rightarrow> ShowCard (record_card mine (ur_value (ut_ref mine)))
              | Some pending \<Rightarrow> ShowCard (confirm_card mine pending in_situ)))"

section \<open>Where utterances come from\<close>

text \<open>
  A \<^verbatim>\<open>PersonaDirectory\<close>: who a platform id belongs to, and what stands behind the answer. A member every object inherits
  is found by \<^verbatim>\<open>directoryOf\<close> too, but has no persona, so a speaker is the same as without it.
\<close>

type_synonym persona_directory = "wide \<Rightarrow> (persona_id \<times> ladder_level) option"

definition no_directory :: persona_directory where
  "no_directory = (\<lambda>_. None)"

definition directory_of :: "(wide \<times> persona_id \<times> ladder_level) list \<Rightarrow> persona_directory" where
  "directory_of entries = (\<lambda>i. map_of entries i)"

definition speaker_from :: "wide \<Rightarrow> wide \<Rightarrow> persona_directory \<Rightarrow> speaker" where
  "speaker_from display i directory =
     \<lparr>sp_display = quote_text display, sp_external_id = i, sp_persona = map_option fst (directory i),
      sp_verification = (case directory i of None \<Rightarrow> L0 | Some (_, l) \<Rightarrow> l)\<rparr>"

text \<open>A chat.\<close>

record chat_user =
  cu_id :: wide
  cu_display_name :: wide

record chat_message =
  cg_channel :: wide
  cg_ts :: wide
  cg_text :: wide
  cg_user :: chat_user
  cg_mentions :: "chat_user list"

record chat_reaction =
  ch_reaction :: wide
  ch_user :: chat_user
  ch_item :: chat_message
  ch_event_time :: string

record gesture_context =
  gx_directory :: persona_directory
  gx_pending_id :: "wide option"

definition chat_external_id :: "chat_user \<Rightarrow> wide" where
  "chat_external_id u = wide ''chat:'' @ cu_id u"

definition chat_speaker :: "chat_user \<Rightarrow> persona_directory \<Rightarrow> speaker" where
  "chat_speaker u directory = speaker_from (cu_display_name u) (chat_external_id u) directory"

definition chat_utterance :: "chat_message \<Rightarrow> string \<Rightarrow> gesture_context \<Rightarrow> utterance" where
  "chat_utterance m t ctx =
     \<lparr>ut_place = InChat, ut_ref = \<lparr>ur_kind = RefMessage, ur_value = cg_channel m @ wide ''/'' @ cg_ts m\<rparr>,
      ut_speaker = chat_speaker (cg_user m) (gx_directory ctx), ut_text = quote_text (cg_text m), ut_occurred_at = t,
      ut_pending_id = gx_pending_id ctx,
      ut_owed_to = map_option (\<lambda>u. chat_speaker u (gx_directory ctx)) (find (\<lambda>u. cu_id u \<noteq> cu_id (cg_user m)) (cg_mentions m))\<rparr>"

definition chat_reaction_event :: "chat_reaction \<Rightarrow> gesture_context \<Rightarrow> reaction_event option" where
  "chat_reaction_event hook ctx =
     (case gx_directory ctx (chat_external_id (ch_user hook)) of
        None \<Rightarrow> None
      | Some (p, _) \<Rightarrow>
          Some \<lparr>re_reaction = ch_reaction hook, re_by = p, re_utterance = chat_utterance (ch_item hook) (ch_event_time hook) ctx\<rparr>)"

text \<open>A review of a pull request.\<close>

record pr_user =
  pu_login :: wide
  pu_id :: int

record pr_comment =
  pc_body :: wide
  pc_user :: pr_user
  pc_html_url :: wide
  pc_created_at :: string

record comment_reaction =
  ck_content :: wide
  ck_reactor :: pr_user
  ck_comment :: pr_comment
  ck_pr_user :: pr_user

definition pr_external_id :: "pr_user \<Rightarrow> wide" where
  "pr_external_id u = wide (''github:'' @ serialize_number (pu_id u))"

definition pr_speaker :: "pr_user \<Rightarrow> persona_directory \<Rightarrow> speaker" where
  "pr_speaker u directory = speaker_from (pu_login u) (pr_external_id u) directory"

definition pr_utterance :: "pr_comment \<Rightarrow> pr_user \<Rightarrow> gesture_context \<Rightarrow> utterance" where
  "pr_utterance c author ctx =
     \<lparr>ut_place = InPrComment, ut_ref = \<lparr>ur_kind = RefUrl, ur_value = pc_html_url c\<rparr>,
      ut_speaker = pr_speaker (pc_user c) (gx_directory ctx), ut_text = quote_text (pc_body c), ut_occurred_at = pc_created_at c,
      ut_pending_id = gx_pending_id ctx,
      ut_owed_to = (if pu_id author = pu_id (pc_user c) then None else Some (pr_speaker author (gx_directory ctx)))\<rparr>"

definition comment_reaction_event :: "comment_reaction \<Rightarrow> gesture_context \<Rightarrow> reaction_event option" where
  "comment_reaction_event hook ctx =
     (case gx_directory ctx (pr_external_id (ck_reactor hook)) of
        None \<Rightarrow> None
      | Some (p, _) \<Rightarrow>
          Some \<lparr>re_reaction = ck_content hook, re_by = p, re_utterance = pr_utterance (ck_comment hook) (ck_pr_user hook) ctx\<rparr>)"

text \<open>A meeting.\<close>

record meeting_item =
  mi_id :: wide
  mi_text :: wide
  mi_owner :: "wide option"
  mi_owed_to :: "wide option"

record meeting_end =
  me_id :: wide
  me_ended_at :: string
  me_participants :: "(wide \<times> wide) list"
  me_items :: "meeting_item list"

definition not_named :: wide where "not_named = wide ''Not named''"

definition participant_speaker :: "wide option \<Rightarrow> meeting_end \<Rightarrow> persona_directory \<Rightarrow> speaker option" where
  "participant_speaker i payload directory =
     map_option (\<lambda>j. speaker_from (case map_of (me_participants payload) j of None \<Rightarrow> not_named | Some n \<Rightarrow> n) j directory) i"

definition meeting_utterance :: "meeting_item \<Rightarrow> meeting_end \<Rightarrow> persona_directory \<Rightarrow> utterance" where
  "meeting_utterance item payload directory =
     \<lparr>ut_place = InMeeting, ut_ref = \<lparr>ur_kind = RefMessage, ur_value = me_id payload @ wide ''/'' @ mi_id item\<rparr>,
      ut_speaker = (case participant_speaker (mi_owner item) payload directory of
         Some s \<Rightarrow> s
       | None \<Rightarrow> \<lparr>sp_display = quote_text not_named, sp_external_id = [], sp_persona = None, sp_verification = L0\<rparr>),
      ut_text = quote_text (mi_text item), ut_occurred_at = me_ended_at payload, ut_pending_id = Some (mi_id item),
      ut_owed_to = participant_speaker (mi_owed_to item) payload directory\<rparr>"

definition meeting_card :: "meeting_item \<Rightarrow> meeting_end \<Rightarrow> persona_directory \<Rightarrow> persona_id \<Rightarrow> gesture_card" where
  "meeting_card item payload directory viewer =
     (let u = meeting_utterance item payload directory
      in case as_own u viewer of
           None \<Rightarrow> expectation_card u (mi_id item) at_meeting_end
         | Some mine \<Rightarrow> confirm_card mine (mi_id item) at_meeting_end)"

definition meeting_end_cards :: "meeting_end \<Rightarrow> persona_directory \<Rightarrow> persona_id \<Rightarrow> gesture_card list" where
  "meeting_end_cards payload directory viewer = map (\<lambda>item. meeting_card item payload directory viewer) (me_items payload)"

section \<open>The queue\<close>

text \<open>What a card needs of an item of \<^verbatim>\<open>open_loops\<close>; the surface calls a waiting extraction \<^verbatim>\<open>commitment\<close>.\<close>

datatype queue_item_kind = QueuedEdge | QueuedCommitment | QueuedExpectation

record queue_item =
  qi_kind :: queue_item_kind
  qi_id :: wide
  qi_text :: wide
  qi_counterparty :: "wide option"
  qi_level :: ladder_level

definition queue_utterance :: "place \<Rightarrow> (queue_item \<Rightarrow> utterance_ref) \<Rightarrow> persona_id \<Rightarrow> queue_item \<Rightarrow> utterance" where
  "queue_utterance pl ref_for viewer item =
     \<lparr>ut_place = pl, ut_ref = ref_for item,
      ut_speaker = \<lparr>sp_display = quote_text [], sp_external_id = wide viewer, sp_persona = Some viewer, sp_verification = L3\<rparr>,
      ut_text = quote_text (qi_text item), ut_occurred_at = ''1970-01-01T00:00:00.000Z'', ut_pending_id = Some (qi_id item),
      ut_owed_to = map_option (\<lambda>v. \<lparr>sp_display = quote_text v, sp_external_id = v, sp_persona = None,
        sp_verification = qi_level item\<rparr>) (qi_counterparty item)\<rparr>"

definition queue_cards ::
    "place \<Rightarrow> (queue_item \<Rightarrow> utterance_ref) \<Rightarrow> persona_id \<Rightarrow> delivery option \<Rightarrow> queue_item list \<Rightarrow> gesture_card list" where
  "queue_cards pl ref_for viewer dv items =
     map (\<lambda>item. confirm_card (queue_utterance pl ref_for viewer item) (qi_id item) (case dv of None \<Rightarrow> in_situ | Some d \<Rightarrow> d))
       (filter (\<lambda>item. qi_kind item = QueuedCommitment) items)"

section \<open>Handing a card over\<close>

record card_placement =
  pl_ref :: utterance_ref
  pl_delivery :: delivery
  pl_card :: gesture_card

text \<open>\<^verbatim>\<open>deliver\<close>: the poster that shows the card is injected, and may throw.\<close>

definition deliver_card ::
    "gesture_card \<Rightarrow> (card_placement \<Rightarrow> 's \<Rightarrow> ('e, unit) result \<times> 's) \<Rightarrow> 's \<Rightarrow> ('e, card_placement) result \<times> 's" where
  "deliver_card c post s =
     (let placement = \<lparr>pl_ref = gc_ref c, pl_delivery = gc_delivery c, pl_card = c\<rparr>
      in apfst (map_sum id (\<lambda>_. placement)) (post placement s))"

section \<open>Running an intent\<close>

text \<open>The tools of a node a gesture may call.\<close>

record ('e, 's) node_client =
  cl_confirm :: "wide \<Rightarrow> decision \<Rightarrow> 's \<Rightarrow> ('e, confirm_state) result \<times> 's"
  cl_commit :: "commit_args \<Rightarrow> 's \<Rightarrow> ('e, sha256_hex option) result \<times> 's"
  cl_expect :: "wide \<Rightarrow> wide \<Rightarrow> wide \<Rightarrow> 's \<Rightarrow> ('e, string) result \<times> 's"

datatype gesture_outcome =
    RanConfirm confirm_state
  | RanCommit "sha256_hex option"
  | RanExpect string
  | DidNotRun

definition run_intent :: "gesture_intent \<Rightarrow> ('e, 's) node_client \<Rightarrow> 's \<Rightarrow> ('e, gesture_outcome) result \<times> 's" where
  "run_intent intent cl s =
     (case intent of
        UnmappedIntent act \<Rightarrow> (Inr DidNotRun, s)
      | ConfirmIntent i d label \<Rightarrow> apfst (map_sum id RanConfirm) (cl_confirm cl i d s)
      | CommitIntent args \<Rightarrow> apfst (map_sum id RanCommit) (cl_commit cl args s)
      | ExpectIntent what who context \<Rightarrow> apfst (map_sum id RanExpect) (cl_expect cl what who context s))"

text \<open>The node of this repository behind that interface; \<open>enc\<close> stands for the text of the call.\<close>

definition client_of_node :: "node_config \<Rightarrow> (nat \<Rightarrow> rfc3339) \<Rightarrow> (wide \<Rightarrow> string) \<Rightarrow> (node_error, node) node_client" where
  "client_of_node cfg clk enc =
     \<lparr>cl_confirm = (\<lambda>i d. confirm cfg clk \<lparr>cf_id = enc i, cf_decision = d, cf_edit = None\<rparr>),
      cl_commit = (\<lambda>args. bind_op
        (commit cfg clk \<lparr>ci_intent = enc (ca_intent args), ci_owed_to = ca_owed_to args, ci_due = ca_due args,
           ci_persona = ca_persona args, ci_propose = ca_propose args, ci_names_owner = False\<rparr>)
        (\<lambda>out. return_op (co_edge_id out))),
      cl_expect = (\<lambda>what who context. expect_op cfg clk (enc what) (enc who) (Some (enc context)))\<rparr>"

end
