(* ===== verification/GestureClaims.thy ===== *)
theory GestureClaims
  imports Gestures Frames NodeSamples
begin

text \<open>
  What the gestures promise: a quoted text stays as it is, is short and has nothing in it that moves a cursor or hides
  (\<^verbatim>\<open>quote.ts\<close>); the words of a message choose nothing about the card but what it says; and a card over words
  that are not the viewer's own binds nobody, run on this node.
\<close>

section \<open>Quoting\<close>

text \<open>A text with no control, no mark that hides, no space but the blank, and no two blanks in a row.\<close>

definition plain_unit :: "nat \<Rightarrow> bool" where
  "plain_unit c \<longleftrightarrow> \<not> control_unit c \<and> \<not> invisible_unit c \<and> (space_unit c \<longrightarrow> c = 32)"

definition single_spaced :: "wide \<Rightarrow> bool" where
  "single_spaced s \<longleftrightarrow> successively (\<lambda>a b. a \<noteq> 32 \<or> b \<noteq> 32) s"

definition tidy :: "wide \<Rightarrow> bool" where
  "tidy s \<longleftrightarrow> list_all plain_unit s \<and> single_spaced s \<and> (s \<noteq> [] \<longrightarrow> hd s \<noteq> 32 \<and> last s \<noteq> 32)"

lemma blank_unit [simp]: "space_unit 32" "\<not> control_unit 32" "\<not> invisible_unit 32" "plain_unit 32"
  by (simp_all add: space_unit_def control_unit_def invisible_unit_def plain_unit_def)

lemma mark_unit [simp]: "\<not> space_unit 8230" "plain_unit 8230"
  by (simp_all add: space_unit_def control_unit_def invisible_unit_def plain_unit_def)

text \<open>What collapsing gives.\<close>

lemma hd_collapse: "s \<noteq> [] \<Longrightarrow> hd (collapse_spaces s) = (if space_unit (hd s) then 32 else hd s)"
  by (cases s) auto

lemma hd_after_spaces: "dropWhile space_unit s = c # t \<Longrightarrow> \<not> space_unit c"
  by (metis dropWhile_eq_Cons_conv)

lemma collapse_units:
  "c \<in> set (collapse_spaces s) \<Longrightarrow> c = 32 \<or> (c \<in> set s \<and> \<not> space_unit c)"
  by (induction s rule: collapse_spaces.induct) (auto split: if_splits dest: set_dropWhileD)

lemma collapse_single: "single_spaced (collapse_spaces s)"
proof (induction s rule: collapse_spaces.induct)
  case (2 c s)
  show ?case
  proof (cases "space_unit c")
    case True
    have "dropWhile space_unit s = [] \<or> hd (collapse_spaces (dropWhile space_unit s)) \<noteq> 32"
    proof (cases "dropWhile space_unit s")
      case (Cons d t)
      then have "\<not> space_unit d" by (rule hd_after_spaces)
      then show ?thesis unfolding Cons by auto
    qed simp
    then show ?thesis
    proof
      assume none: "dropWhile space_unit s = []"
      show ?thesis by (simp add: none True single_spaced_def)
    next
      assume "hd (collapse_spaces (dropWhile space_unit s)) \<noteq> 32"
      with True 2(1) [OF True] show ?thesis by (simp add: single_spaced_def successively_Cons)
    qed
  next
    case False
    then have "c \<noteq> 32" by auto
    with False 2(2) [OF False] show ?thesis by (auto simp: single_spaced_def successively_Cons)
  qed
qed (simp add: single_spaced_def)

text \<open>Trimming.\<close>

lemma successively_dropWhile: "successively R s \<Longrightarrow> successively R (dropWhile P s)"
  by (induction s) (auto simp: successively_Cons)

lemma successively_take: "successively R s \<Longrightarrow> successively R (take n s)"
  by (metis append_take_drop_id successively_append_iff)

lemma single_spaced_rev: "single_spaced (rev s) = single_spaced s"
  by (simp add: single_spaced_def successively_rev) (rule arg_cong [where f = "\<lambda>R. successively R s"], auto)

lemma trim_ends:
  assumes "trim_wide s \<noteq> []"
  shows "\<not> space_unit (hd (trim_wide s))" and "\<not> space_unit (last (trim_wide s))"
proof -
  let ?t = "dropWhile space_unit s"
  have l: "\<not> space_unit (hd (dropWhile space_unit (rev ?t)))"
    using assms hd_dropWhile [of space_unit "rev ?t"] unfolding trim_wide_def by (metis rev_is_Nil_conv dropWhile_eq_Nil_conv)
  then show "\<not> space_unit (last (trim_wide s))" by (simp add: trim_wide_def last_rev)
  obtain u where u: "rev ?t = u @ dropWhile space_unit (rev ?t)" by (metis takeWhile_dropWhile_id)
  then have "?t = trim_wide s @ rev u" by (metis rev_append rev_rev_ident trim_wide_def)
  with assms have "hd (trim_wide s) = hd ?t" and "?t \<noteq> []" by (metis hd_append2, auto)
  then show "\<not> space_unit (hd (trim_wide s))" by (metis hd_dropWhile)
qed

lemma trim_units: "set (trim_wide s) \<subseteq> set s"
proof
  fix x assume "x \<in> set (trim_wide s)"
  then have "x \<in> set (dropWhile space_unit (rev (dropWhile space_unit s)))" by (simp add: trim_wide_def)
  then have "x \<in> set (rev (dropWhile space_unit s))" by (rule set_dropWhileD)
  then show "x \<in> set s" by (auto dest: set_dropWhileD)
qed

lemma trim_single: "single_spaced s \<Longrightarrow> single_spaced (trim_wide s)"
proof -
  assume "single_spaced s"
  then have "single_spaced (dropWhile space_unit s)" by (simp add: single_spaced_def successively_dropWhile)
  then have "single_spaced (dropWhile space_unit (rev (dropWhile space_unit s)))"
    by (metis single_spaced_rev single_spaced_def successively_dropWhile)
  then show ?thesis by (simp add: trim_wide_def single_spaced_rev)
qed

text \<open>A tidy text is left alone.\<close>

lemma collapse_tidy: "list_all plain_unit s \<Longrightarrow> single_spaced s \<Longrightarrow> collapse_spaces s = s"
proof (induction s rule: collapse_spaces.induct)
  case (2 c s)
  show ?case
  proof (cases "space_unit c")
    case True
    with 2 have c: "c = 32" by (auto simp: plain_unit_def)
    have "dropWhile space_unit s = s"
    proof (cases s)
      case (Cons d t)
      with 2 c have "\<not> space_unit d" by (auto simp: single_spaced_def plain_unit_def)
      with Cons show ?thesis by simp
    qed simp
    with True c 2 show ?thesis by (auto simp: single_spaced_def successively_Cons)
  next
    case False
    with 2 show ?thesis by (auto simp: single_spaced_def successively_Cons)
  qed
qed simp

lemma trim_tidy: "s = [] \<or> (\<not> space_unit (hd s) \<and> \<not> space_unit (last s)) \<Longrightarrow> trim_wide s = s"
proof -
  have fix_hd: "dropWhile space_unit t = t" if "t = [] \<or> \<not> space_unit (hd t)" for t
    using that by (cases t) auto
  assume "s = [] \<or> (\<not> space_unit (hd s) \<and> \<not> space_unit (last s))"
  then show ?thesis unfolding trim_wide_def by (auto simp: fix_hd hd_rev)
qed

lemma tidy_ends: "tidy s \<Longrightarrow> s = [] \<or> (\<not> space_unit (hd s) \<and> \<not> space_unit (last s))"
  by (cases "s = []") (auto simp: tidy_def plain_unit_def list_all_iff)

lemma quote_tidy: "tidy s \<Longrightarrow> length s \<le> quote_max_chars \<Longrightarrow> quote_text s = s"
proof -
  assume t: "tidy s" and l: "length s \<le> quote_max_chars"
  then have plain: "list_all plain_unit s" and single: "single_spaced s" by (auto simp: tidy_def)
  have "map (\<lambda>c. if control_unit c then 32 else c) s = s"
    using plain by (auto simp: list_all_iff plain_unit_def intro: map_idI)
  moreover have "filter (\<lambda>c. \<not> invisible_unit c) s = s"
    using plain by (auto simp: list_all_iff plain_unit_def intro: filter_True)
  ultimately show ?thesis
    using l collapse_tidy [OF plain single] trim_tidy [OF tidy_ends [OF t]] by (simp add: quote_text_def)
qed

lemma flat_tidy:
  assumes f: "\<And>c. c \<in> set f \<Longrightarrow> \<not> control_unit c \<and> \<not> invisible_unit c"
  shows "tidy (trim_wide (collapse_spaces f))"
proof -
  have "plain_unit c" if "c \<in> set (trim_wide (collapse_spaces f))" for c
  proof -
    from that trim_units have "c \<in> set (collapse_spaces f)" by blast
    from collapse_units [OF this] show ?thesis using f [of c] by (elim disjE) (simp_all add: plain_unit_def)
  qed
  moreover have "single_spaced (trim_wide (collapse_spaces f))" by (intro trim_single collapse_single)
  moreover have "hd (trim_wide (collapse_spaces f)) \<noteq> 32 \<and> last (trim_wide (collapse_spaces f)) \<noteq> 32"
    if "trim_wide (collapse_spaces f) \<noteq> []"
    using trim_ends [OF that] blank_unit(1) by metis
  ultimately show ?thesis by (simp add: tidy_def list_all_iff)
qed

lemma flattened_tidy:
  "tidy (trim_wide (collapse_spaces (filter (\<lambda>c. \<not> invisible_unit c) (map (\<lambda>c. if control_unit c then 32 else c) raw))))"
  by (rule flat_tidy) auto

lemma shortened_tidy:
  assumes "tidy s" and "quote_max_chars < length s"
  shows "tidy (take (quote_max_chars - 1) s @ [8230])"
proof -
  have hd: "hd (take (quote_max_chars - 1) s @ [8230]) = hd s"
    using assms(2) by (cases s) (auto simp: quote_max_chars_def)
  have "list_all plain_unit (take (quote_max_chars - 1) s)"
    using assms(1) by (auto simp: tidy_def list_all_iff dest: in_set_takeD)
  moreover have "single_spaced (take (quote_max_chars - 1) s @ [8230])"
    using assms(1) by (auto simp: tidy_def single_spaced_def successively_append_iff successively_take)
  moreover have "hd s \<noteq> 32" using assms by (auto simp: tidy_def)
  ultimately show ?thesis unfolding tidy_def hd by simp
qed

lemma capped_tidy:
  assumes "tidy s"
  defines "t \<equiv> if quote_max_chars < length s then take (quote_max_chars - 1) s @ [8230] else s"
  shows "tidy t" and "length t \<le> quote_max_chars"
  using assms(1) shortened_tidy [OF assms(1)] unfolding t_def by (simp_all add: quote_max_chars_def)

lemma quote_text_tidy: "tidy (quote_text raw)" "length (quote_text raw) \<le> quote_max_chars"
  unfolding quote_text_def Let_def by (rule capped_tidy [OF flattened_tidy])+

text \<open>
  C40: What \<^verbatim>\<open>quote\<close> gives has at most 500 code units, none of them a control or an invisible mark, no space but the
  blank, no two blanks in a row and none at an end; a text is left as it is exactly when it already is such a text, so that
  quoting twice is quoting once and \<^verbatim>\<open>isScrubbed\<close> answers the question it is named for.
\<close>

theorem quoted_text_is_settled:
  "(is_scrubbed s \<longleftrightarrow> length s \<le> quote_max_chars \<and> tidy s) \<and> is_scrubbed (quote_text raw)"
  using quote_text_tidy quote_tidy by (metis is_scrubbed_def)

section \<open>What the words choose\<close>

text \<open>A card with its words blotted out: everything that says what it does, and to whom.\<close>

definition wordless_intent :: "gesture_intent \<Rightarrow> gesture_intent" where
  "wordless_intent intent =
     (case intent of
        CommitIntent args \<Rightarrow> CommitIntent (args\<lparr>ca_intent := []\<rparr>)
      | ExpectIntent what who context \<Rightarrow> ExpectIntent [] who context
      | _ \<Rightarrow> intent)"

definition wordless_card :: "gesture_card \<Rightarrow> gesture_card" where
  "wordless_card c = c\<lparr>gc_what := [], gc_actions := map (\<lambda>a. a\<lparr>ga_intent := wordless_intent (ga_intent a)\<rparr>) (gc_actions c)\<rparr>"

definition wordless :: "resolution \<Rightarrow> resolution" where
  "wordless r = (case r of ShowCard c \<Rightarrow> ShowCard (wordless_card c) | _ \<Rightarrow> r)"

lemmas wordless_defs = wordless_def wordless_card_def wordless_intent_def

lemma party_text: "party_of (ut_owed_to (u\<lparr>ut_text := t\<rparr>)) = party_of (ut_owed_to u)"
  by simp

lemma confirm_card_text: "wordless_card (confirm_card (u\<lparr>ut_text := t\<rparr>) i dv) = wordless_card (confirm_card u i dv)"
  by (simp add: confirm_card_def confirm_intent_def dismiss_intent_def decide_intent_def wordless_card_def wordless_intent_def)

lemma record_card_text: "wordless_card (record_card (u\<lparr>ut_text := t\<rparr>) i) = wordless_card (record_card u i)"
  by (simp add: record_card_def commit_intent_def wordless_card_def wordless_intent_def Let_def)

lemma expectation_card_text:
  "wordless_card (expectation_card (u\<lparr>ut_text := t\<rparr>) i dv) = wordless_card (expectation_card u i dv)"
  by (cases "ut_pending_id u")
    (simp_all add: expectation_card_def expect_intent_def dismiss_intent_def decide_intent_def wordless_card_def wordless_intent_def
      cong: option.case_cong)

lemmas card_parts_text = confirm_card_text record_card_text expectation_card_text

lemma as_own_text: "as_own (u\<lparr>ut_text := t\<rparr>) v = map_option (\<lambda>w. w\<lparr>ut_text := t\<rparr>) (as_own u v)"
  by (simp add: as_own_def split: option.split)

lemma as_own_Some: "as_own u v = Some w \<longleftrightarrow> w = u \<and> sp_persona (ut_speaker u) = Some v"
  by (auto simp: as_own_def split: option.splits)

lemma as_own_None: "as_own u v = None \<longleftrightarrow> sp_persona (ut_speaker u) \<noteq> Some v"
  by (auto simp: as_own_def split: option.splits)

text \<open>The card of a handshake on words.\<close>

definition card_over :: "utterance \<Rightarrow> persona_id \<Rightarrow> gesture_card" where
  "card_over u p =
     (if sp_persona (ut_speaker u) \<noteq> Some p then expectation_card u (ur_value (ut_ref u)) in_situ
      else case ut_pending_id u of
        None \<Rightarrow> record_card u (ur_value (ut_ref u))
      | Some pending \<Rightarrow> confirm_card u pending in_situ)"

lemma resolve_eq:
  "resolve_reaction \<lparr>re_reaction = r, re_by = p, re_utterance = u\<rparr> =
    (if r \<noteq> confirm_reaction then (case unmapped_reaction r of None \<Rightarrow> Ignored NotAGesture | Some act \<Rightarrow> NoTool (UnmappedIntent act))
     else if ut_text u = [] then Ignored NothingSaid else ShowCard (card_over u p))"
  by (simp add: resolve_reaction_def card_over_def as_own_def Let_def split: option.split)

lemma card_over_text: "wordless_card (card_over (u\<lparr>ut_text := t\<rparr>) p) = wordless_card (card_over u p)"
  by (cases "ut_pending_id u") (simp_all add: card_over_def card_parts_text)

lemma resolve_text:
  assumes "ut_text u \<noteq> []" and "t \<noteq> []"
  shows "wordless (resolve_reaction \<lparr>re_reaction = r, re_by = p, re_utterance = u\<lparr>ut_text := t\<rparr>\<rparr>) =
    wordless (resolve_reaction \<lparr>re_reaction = r, re_by = p, re_utterance = u\<rparr>)"
  using assms by (simp add: resolve_eq wordless_def card_over_text)

lemma chat_text:
  "chat_utterance (m\<lparr>cg_text := x\<rparr>) t ctx = (chat_utterance m t ctx)\<lparr>ut_text := quote_text x\<rparr>"
  by (simp add: chat_utterance_def)

lemma pr_text: "pr_utterance (c\<lparr>pc_body := x\<rparr>) a ctx = (pr_utterance c a ctx)\<lparr>ut_text := quote_text x\<rparr>"
  by (simp add: pr_utterance_def)

lemma meeting_text:
  "meeting_utterance (item\<lparr>mi_text := x\<rparr>) payload d = (meeting_utterance item payload d)\<lparr>ut_text := quote_text x\<rparr>"
  by (simp add: meeting_utterance_def)

text \<open>
  C39: The words of a chat message, of a review comment or of an item of a meeting choose nothing of the card that comes of
  them but the words it shows: with any two bodies that are not empty once scrubbed, the kind of the card, its
  identifiers, the party it names, its moment and the tools, targets and decisions behind its actions are the same.
\<close>

theorem words_choose_nothing:
  assumes "quote_text x \<noteq> []" and "quote_text y \<noteq> []"
  shows "map_option (wordless \<circ> resolve_reaction) (chat_reaction_event (hook\<lparr>ch_item := (ch_item hook)\<lparr>cg_text := x\<rparr>\<rparr>) ctx) =
      map_option (wordless \<circ> resolve_reaction) (chat_reaction_event (hook\<lparr>ch_item := (ch_item hook)\<lparr>cg_text := y\<rparr>\<rparr>) ctx) \<and>
    map_option (wordless \<circ> resolve_reaction) (comment_reaction_event (kook\<lparr>ck_comment := (ck_comment kook)\<lparr>pc_body := x\<rparr>\<rparr>) ctx) =
      map_option (wordless \<circ> resolve_reaction) (comment_reaction_event (kook\<lparr>ck_comment := (ck_comment kook)\<lparr>pc_body := y\<rparr>\<rparr>) ctx) \<and>
    wordless_card (meeting_card (item\<lparr>mi_text := x\<rparr>) payload d v) = wordless_card (meeting_card (item\<lparr>mi_text := y\<rparr>) payload d v)"
proof -
  have same: "wordless (resolve_reaction \<lparr>re_reaction = r, re_by = p, re_utterance = u\<lparr>ut_text := quote_text x\<rparr>\<rparr>) =
      wordless (resolve_reaction \<lparr>re_reaction = r, re_by = p, re_utterance = u\<lparr>ut_text := quote_text y\<rparr>\<rparr>)" for r p u
    using resolve_text [of "u\<lparr>ut_text := quote_text y\<rparr>" "quote_text x"] assms by simp
  have "wordless_card (meeting_card (item\<lparr>mi_text := z\<rparr>) payload d v) =
      wordless_card (case as_own (meeting_utterance item payload d) v of
          None \<Rightarrow> expectation_card (meeting_utterance item payload d) (mi_id item) at_meeting_end
        | Some mine \<Rightarrow> confirm_card mine (mi_id item) at_meeting_end)" for z
    by (cases "as_own (meeting_utterance item payload d) v")
      (simp_all add: meeting_card_def meeting_text as_own_text card_parts_text Let_def)
  with same show ?thesis
    by (simp add: chat_reaction_event_def comment_reaction_event_def chat_text pr_text split: option.split prod.split)
qed

theorem words_choose_nothing_witness:
  "\<forall>item payload d v. wordless_card (meeting_card (item\<lparr>mi_text := [110, 111]\<rparr>) payload d v) =
      wordless_card (meeting_card (item\<lparr>mi_text := [121, 101, 115, 33]\<rparr>) payload d v)"
proof -
  have plain: "tidy [110, 111]" "tidy [121, 101, 115, 33]"
    by (simp_all add: tidy_def plain_unit_def control_unit_def invisible_unit_def space_unit_def single_spaced_def)
  have "quote_text [110, 111] \<noteq> []" "quote_text [121, 101, 115, 33] \<noteq> []"
    by (simp_all add: quote_tidy [OF plain(1)] quote_tidy [OF plain(2)] quote_max_chars_def)
  from words_choose_nothing [OF this] show ?thesis by blast
qed

section \<open>Whose promise a card can make\<close>

text \<open>A card, with who it was made for and who spoke.\<close>

inductive card_for :: "persona_id \<Rightarrow> speaker \<Rightarrow> gesture_card \<Rightarrow> bool" where
  on_reaction: "resolve_reaction ev = ShowCard c \<Longrightarrow> card_for (re_by ev) (ut_speaker (re_utterance ev)) c"
| at_the_end: "item \<in> set (me_items payload) \<Longrightarrow>
    card_for viewer (ut_speaker (meeting_utterance item payload d)) (meeting_card item payload d viewer)"

definition makes_no_promise :: "gesture_intent \<Rightarrow> bool" where
  "makes_no_promise intent \<longleftrightarrow>
     (case intent of ConfirmIntent _ d _ \<Rightarrow> d = DecideDismiss | CommitIntent _ \<Rightarrow> False | ExpectIntent _ _ _ \<Rightarrow> True | UnmappedIntent _ \<Rightarrow> True)"

lemma expectation_card_acts:
  "a \<in> set (gc_actions (expectation_card u i dv)) \<Longrightarrow> makes_no_promise (ga_intent a)"
  by (auto simp: expectation_card_def expect_intent_def dismiss_intent_def decide_intent_def makes_no_promise_def split: option.splits)

lemma foreign_card_acts:
  assumes "card_for v sp c" and "sp_persona sp \<noteq> Some v" and "a \<in> set (gc_actions c)"
  shows "makes_no_promise (ga_intent a)"
  using assms(1)
proof (cases rule: card_for.cases)
  case (on_reaction ev)
  then show ?thesis using assms(2,3)
    by (cases ev) (auto simp: resolve_eq card_over_def split: if_splits option.splits dest: expectation_card_acts)
next
  case (at_the_end item payload d)
  then have "as_own (meeting_utterance item payload d) v = None" using assms(2) by (simp add: as_own_None)
  with at_the_end assms(3) show ?thesis by (auto simp: meeting_card_def Let_def dest: expectation_card_acts)
qed

text \<open>The relation between states with the same promises: the chains, the commitments and the mail are as they were.\<close>

definition same_promises :: "vault \<Rightarrow> vault \<Rightarrow> bool" where
  "same_promises v v' \<longleftrightarrow> same_chains v v' \<and> same_part ps_commitments v v' \<and> same_part ps_outbox v v'"

lemma same_promisesI:
  "put_expectation v p i x = Inr v' \<Longrightarrow> same_promises v v'"
  "put_edge_meta v p m = Inr v' \<Longrightarrow> same_promises v v'"
  by (auto simp: same_promises_def beside_chains put_edge_meta_chains intro: put_expectation_parts put_edge_meta_parts)

lemma same_promises_refl [simp]: "same_promises v v"
  by (simp add: same_promises_def)

interpretation unpromised: op_relation "\<lambda>s t. same_promises (nd_vault s) (nd_vault t)"
  by unfold_locales (auto simp: same_promises_def intro: same_chains_trans same_part_trans)

lemma unpromised_dismiss: "cf_decision inp = DecideDismiss \<Longrightarrow> unpromised.keeps (confirm cfg clk inp)"
  unfolding confirm_def confirm_pending_def confirm_edge_def drop_pending_def set_dismissed_def
  by (intro unpromised.keeps_intros unpromised.keeps_locate unpromised.keeps_write unpromised.keeps_write_local)
    (auto dest: same_promisesI)

lemma unpromised_expect: "unpromised.keeps (expect_op cfg clk what who ctxt)"
  unfolding expect_op_def Let_def
  by (intro unpromised.keeps_intros unpromised.keeps_write) (auto dest: same_promisesI)

text \<open>
  C38: A card made over words that are not the viewer's own, by a reaction or at the end of a meeting, binds nobody: whatever
  is tapped on it, run on the node of this repository, writes down what is waited for or takes an item off a list, and leaves
  every edge, chain, commitment and queued message of every persona as it was.
\<close>

theorem others_words_promise_nothing:
  assumes "card_for viewer sp c" and "sp_persona sp \<noteq> Some viewer" and "a \<in> set (gc_actions c)"
    and "run_intent (ga_intent a) (client_of_node cfg clk enc) s = (r, s')"
  shows "same_promises (nd_vault s) (nd_vault s')"
proof -
  note quiet = foreign_card_acts [OF assms(1-3)]
  show ?thesis
  proof (cases "ga_intent a")
    case (ConfirmIntent i d l)
    with quiet have d: "d = DecideDismiss" by (simp add: makes_no_promise_def)
    obtain r0 where "confirm cfg clk \<lparr>cf_id = enc i, cf_decision = d, cf_edit = None\<rparr> s = (r0, s')"
      using assms(4) ConfirmIntent by (auto simp: run_intent_def client_of_node_def apfst_def map_prod_def split: prod.splits)
    then show ?thesis by (rule unpromised.keepsD [OF unpromised_dismiss, rotated]) (simp add: d)
  next
    case (ExpectIntent what who ctxt)
    obtain r0 where "expect_op cfg clk (enc what) (enc who) (Some (enc ctxt)) s = (r0, s')"
      using assms(4) ExpectIntent by (auto simp: run_intent_def client_of_node_def apfst_def map_prod_def split: prod.splits)
    then show ?thesis by (rule unpromised.keepsD [OF unpromised_expect])
  next
    case (CommitIntent args)
    with quiet show ?thesis by (simp add: makes_no_promise_def)
  next
    case (UnmappedIntent act)
    with assms(4) show ?thesis by (simp add: run_intent_def same_promises_def)
  qed
qed

text \<open>Bob says something, and Alice answers it with a handshake.\<close>

definition bobs_words :: utterance where
  "bobs_words =
     \<lparr>ut_place = InChat, ut_ref = \<lparr>ur_kind = RefMessage, ur_value = [99]\<rparr>,
      ut_speaker = \<lparr>sp_display = [98], sp_external_id = [98], sp_persona = Some bob, sp_verification = L1\<rparr>,
      ut_text = [111, 107], ut_occurred_at = [], ut_pending_id = None, ut_owed_to = None\<rparr>"

theorem others_words_promise_nothing_witness:
  "resolve_reaction \<lparr>re_reaction = confirm_reaction, re_by = alice, re_utterance = bobs_words\<rparr> =
     ShowCard (expectation_card bobs_words [99] in_situ) \<and>
   same_promises (nd_vault (holder alice held_files))
     (nd_vault (snd (run_intent (ga_intent (primary_action (expectation_card bobs_words [99] in_situ)))
        (client_of_node (sample_config alice) sample_clock (map char_of)) (holder alice held_files))))"
proof
  let ?ev = "\<lparr>re_reaction = confirm_reaction, re_by = alice, re_utterance = bobs_words\<rparr>"
  let ?c = "expectation_card bobs_words [99] in_situ"
  have other: "sp_persona (ut_speaker bobs_words) \<noteq> Some alice" by (simp add: bobs_words_def)
  have "ut_text bobs_words \<noteq> []" "ur_value (ut_ref bobs_words) = [99]" by (simp_all add: bobs_words_def)
  then show card: "resolve_reaction ?ev = ShowCard ?c" using other by (simp add: resolve_eq card_over_def)
  have first: "primary_action ?c \<in> set (gc_actions ?c)" by (simp add: primary_action_def expectation_card_def)
  have for_alice: "card_for alice (ut_speaker bobs_words) ?c" using on_reaction [OF card] by simp
  show "same_promises (nd_vault (holder alice held_files))
     (nd_vault (snd (run_intent (ga_intent (primary_action ?c))
        (client_of_node (sample_config alice) sample_clock (map char_of)) (holder alice held_files))))"
    by (rule others_words_promise_nothing [OF for_alice other first surjective_pairing])
qed

section \<open>What the cards leave open\<close>

text \<open>
  The identifier a transcript gives an item is the one its card confirms or dismisses, whoever owns the item, so a card over
  somebody's words can name any edge or pending item there is; \<^verbatim>\<open>confirm\<close> looks for it in every persona's subtree.
\<close>

lemma transcript_chooses_the_target:
  assumes "a \<in> set (gc_actions (meeting_card item payload d v))" and "ga_intent a = ConfirmIntent i dec l"
  shows "i = mi_id item"
  using assms
  by (auto simp: meeting_card_def expectation_card_def confirm_card_def confirm_intent_def dismiss_intent_def decide_intent_def
      expect_intent_def meeting_utterance_def Let_def as_own_Some split: option.splits)

lemma every_transcript_card_can_dismiss:
  "\<exists>a \<in> set (gc_actions (meeting_card item payload d v)). \<exists>l. ga_intent a = ConfirmIntent (mi_id item) DecideDismiss l"
  by (cases "as_own (meeting_utterance item payload d) v")
    (auto simp: meeting_card_def expectation_card_def confirm_card_def dismiss_intent_def decide_intent_def meeting_utterance_def Let_def)

text \<open>A reaction named like a member every object has is answered with an action that is none.\<close>

lemma inherited_name_is_no_gesture:
  "resolve_reaction \<lparr>re_reaction = wide ''constructor'', re_by = p, re_utterance = u\<rparr> =
     NoTool (UnmappedIntent (Inherited (wide ''constructor'')))"
  by (simp add: resolve_eq unmapped_reaction_def unmapped_reactions_def inherited_members_def confirm_reaction_def wide_def)

text \<open>The persona a promise is recorded under is the node's active one, never the one who reacted.\<close>

lemma recorded_under_the_active_persona:
  "resolve_reaction ev = ShowCard c \<Longrightarrow> a \<in> set (gc_actions c) \<Longrightarrow> ga_intent a = CommitIntent args \<Longrightarrow> ca_persona args = None"
  by (cases ev)
    (auto simp: resolve_eq card_over_def expectation_card_def confirm_card_def record_card_def commit_intent_def expect_intent_def
      confirm_intent_def dismiss_intent_def decide_intent_def Let_def split: if_splits option.splits)

text \<open>A name of marks that hide leaves nobody to expect anything of.\<close>

lemma nobody_to_expect_from:
  "expect_intent \<lparr>ut_place = pl, ut_ref = rf, ut_speaker = speaker_from [8203] i no_directory, ut_text = t, ut_occurred_at = w,
     ut_pending_id = None, ut_owed_to = None\<rparr> = ExpectIntent t [] (ur_value rf)"
  by (simp add: expect_intent_def speaker_from_def no_directory_def quote_text_def control_unit_def invisible_unit_def
      trim_wide_def quote_max_chars_def)

lemma no_blanks_single: "32 \<notin> set s \<Longrightarrow> single_spaced s"
  by (induction s) (auto simp: single_spaced_def successively_Cons)

text \<open>Shortening counts code units, and can leave half of a character before the mark.\<close>

lemma shortened_through_a_pair:
  "quote_text (replicate 498 97 @ [0xD83E, 0xDD1D, 97]) = replicate 498 97 @ [0xD83E, 8230]"
proof -
  let ?s = "replicate 498 97 @ [0xD83E, 0xDD1D, 97] :: wide"
  have plain: "list_all plain_unit ?s"
    by (simp add: list_all_iff plain_unit_def control_unit_def invisible_unit_def space_unit_def)
  have single: "single_spaced ?s"
    by (rule no_blanks_single) simp
  have "map (\<lambda>c. if control_unit c then 32 else c) ?s = ?s"
    using plain by (auto simp: list_all_iff plain_unit_def intro: map_idI)
  moreover have "filter (\<lambda>c. \<not> invisible_unit c) ?s = ?s"
    using plain by (auto simp: list_all_iff plain_unit_def intro: filter_True)
  moreover have "trim_wide ?s = ?s" by (rule trim_tidy) (simp add: space_unit_def)
  ultimately show ?thesis
    using collapse_tidy [OF plain single] by (simp add: quote_text_def quote_max_chars_def take_Cons')
qed

end
