(* ===== verification/Spec2Isabelle.thy ===== *)
theory Spec2Isabelle
  imports ChainClaims NodeClaims WireClaims Retention Addressing RestoreClaims
    DeliveryClaims LadderClaims ExecClaims EnvelopeClaims
    AdapterClaims GestureClaims
begin

text \<open>
  \<^bold>\<open>Servanda: a ledger of promises between two parties.\<close> A promise is an \<^emph>\<open>edge\<close> from its owner to the
  person it is owed to. Nobody keeps a server of record: each party's node holds the edge and an
  append-only chain of signed assertions about it, and what state the edge is in is whatever the
  transition table makes of that chain. This library models the protocol core of the repository, from
  timestamps and signatures up to the node surface and the exchange between nodes, and proves what each
  layer promises the one above it.

  \<^bold>\<open>The parts, bottom up.\<close> All paths are under \<^verbatim>\<open>src/packages/\<close>.

    \<^item> \<^theory_text>\<open>Prelude\<close>: the vocabulary. Key and hash texts, results of code that may throw, the JavaScript array
      operations the source uses, maps in insertion order (\<open>map_set\<close>), directories (\<open>dir_get\<close>, \<open>dir_put\<close>,
      \<open>dir_del\<close>; interface \<open>keyed_store\<close>), decimal texts.
    \<^item> \<^theory_text>\<open>JsTime\<close>: \<^verbatim>\<open>types/src/primitives.ts\<close> \<open>Rfc3339\<close> and the part of ECMAScript's \<open>Date\<close> the source calls. An
      \<open>rfc3339\<close> is a text that passes the schema; \<open>ms_of\<close> is \<open>Date.parse\<close>.
    \<^item> \<^theory_text>\<open>Duration\<close>: \<^verbatim>\<open>node/src/duration.ts\<close>: \<open>parse_duration\<close>, \<open>add_duration\<close>, with calendar years and months and
      the range of \<open>Date\<close> (\<open>time_clip\<close>).
    \<^item> \<^theory_text>\<open>Crypto\<close> and \<^theory_text>\<open>Canonical\<close>: \<^verbatim>\<open>crypto/src/hash.ts\<close>, \<^verbatim>\<open>jcs.ts\<close>, \<^verbatim>\<open>sign.ts\<close>, \<^verbatim>\<open>identity-hash.ts\<close>: hexadecimal,
      RFC 8785 canonical JSON, the commitment hash and the edge identifier, signing and verification.
      \<^theory_text>\<open>WireClaims\<close> states what a receiver may conclude.
    \<^item> \<^theory_text>\<open>EdgeTypes\<close>: \<^verbatim>\<open>types/src/edge.ts\<close>: edges, assertions, the states.
    \<^item> \<^theory_text>\<open>Rotation\<close>: \<^verbatim>\<open>identity/src/rotation.ts\<close>: statements that move a persona to a new key, the successor of
      a key, and its lineage.
    \<^item> \<^theory_text>\<open>Transitions\<close>: \<^verbatim>\<open>node/src/transitions.ts\<close>, entire: \<open>step\<close> judges one assertion against the state of a
      chain, \<open>verify_assertion_chain\<close> folds it. \<^theory_text>\<open>ChainProps\<close> relates it to an abstract transition table
      (\<open>table_move\<close>) and to reachability (\<open>reach\<close>); \<^theory_text>\<open>ChainHistory\<close> proves the invariants of reachable chain
      states; \<^theory_text>\<open>ChainLaws\<close> states the laws clients rely on (interface \<open>chain_oracle\<close>, interpreted as \<open>table\<close>);
      \<^theory_text>\<open>ChainClaims\<close> holds the properties, on the lives of the concrete edge of \<^theory_text>\<open>Samples\<close>.
    \<^item> \<^theory_text>\<open>Actions\<close>: \<^verbatim>\<open>node/src/actions.ts\<close>, which acts a party is offered. \<^theory_text>\<open>Attention\<close>: \<^verbatim>\<open>ranking.ts\<close>, \<^verbatim>\<open>cursor.ts\<close>,
      \<^verbatim>\<open>escalation.ts\<close> and the paging of the register.
    \<^item> \<^theory_text>\<open>Vault\<close>: \<^verbatim>\<open>vault/src/vault.ts\<close> and \<^verbatim>\<open>records.ts\<close>: one subtree per persona, a directory per kind of
      record. \<^theory_text>\<open>VaultLaws\<close>: its invariant \<open>vault_ok\<close>, the step relation of its writes, what a write keeps.
      \<^theory_text>\<open>Frames\<close>: what each write leaves alone. \<^theory_text>\<open>Retention\<close>: \<^verbatim>\<open>retention.ts\<close>.
    \<^item> \<^theory_text>\<open>Node\<close>, \<^theory_text>\<open>NodeActs\<close>, \<^theory_text>\<open>Register\<close>: \<^verbatim>\<open>node/src/node.ts\<close> and \<^verbatim>\<open>vault/src/local-store.ts\<close>: \<open>commit\<close>, \<open>expect\<close>,
      \<open>confirm\<close>, \<open>act\<close>, \<open>open_loops\<close>, \<open>brief\<close> and the confirmation queue. \<^theory_text>\<open>NodeLaws\<close>: how operations compose
      (interface \<open>op_relation\<close>, interpreted as \<open>quiet\<close> for the reads, \<open>still\<close> for what leaves the chains as
      they are, \<open>history\<close> for what only appends and \<open>bodies\<close> for what keeps every edge). \<^theory_text>\<open>ActLaws\<close>, \<^theory_text>\<open>History\<close>, \<^theory_text>\<open>Proposals\<close>, \<^theory_text>\<open>NodeClaims\<close>: the
      properties, on the node of \<^theory_text>\<open>NodeSamples\<close>.
    \<^item> \<^theory_text>\<open>Sharing\<close>: \<^verbatim>\<open>federation/src/serve.ts\<close>, \<^verbatim>\<open>recon.ts\<close>, \<^verbatim>\<open>antispam.ts\<close>: who is served an edge, how two nodes
      catch up, how many strangers' proposals are surfaced. \<^theory_text>\<open>SharingLaws\<close>, \<^theory_text>\<open>ShareClaims\<close>: the properties.
    \<^item> \<^theory_text>\<open>Wire\<close>: the schemas of \<^verbatim>\<open>types/src/edge.ts\<close> and \<^verbatim>\<open>wire.ts\<close> as parsers of JSON values (\<open>parse_edge\<close>,
      \<open>parse_assertion\<close>, \<open>parse_rotation\<close>), and \<^verbatim>\<open>federation/src/messages.ts\<close>: signing, reading and verifying a
      message.
    \<^item> \<^theory_text>\<open>Inbox\<close>: \<^verbatim>\<open>federation/src/inbox.ts\<close>, entire: \<open>ingest\<close> takes a batch of JSON values off the wire and
      \<open>ingest_one\<close> judges each; \<open>apply_recover_response\<close> takes back what a counterparty restores.
      \<^theory_text>\<open>InboxLaws\<close>: the cases of what one message can do; interface \<open>chain_relation\<close> (what storing one
      assertion keeps) and its extension \<open>inbox_relation\<close> (what a batch keeps), interpreted as \<open>growing\<close> for
      the history, \<open>bodied\<close> for the edge bodies and \<open>mailed\<close> for the outbox. \<^theory_text>\<open>InboxClaims\<close>: the properties, on a message of \<open>commit\<close>.
    \<^item> \<^theory_text>\<open>Addressing\<close>: \<^verbatim>\<open>federation/src/addressing.ts\<close>: a persona's inbox record, and delivery to its hubs.
    \<^item> \<^theory_text>\<open>Recovery\<close>: \<^verbatim>\<open>federation/src/recovery.ts\<close>: the responder, its challenges, what it serves.
      \<^theory_text>\<open>RestoreClaims\<close>: both ends of a recovery.
    \<^item> \<^theory_text>\<open>Delivery\<close>: \<^verbatim>\<open>federation/src/federated-node.ts\<close>, entire, over the interface of \<^verbatim>\<open>transport.ts\<close>: \<open>push\<close>,
      \<open>pull\<close> with the acknowledgements, \<open>outbound\<close>, \<open>request_recon\<close>, \<open>answer_recon\<close>. \<^theory_text>\<open>DeliveryLaws\<close>: the
      step relation of a push (\<open>push_move\<close>), what it reports, when it is idle. \<^theory_text>\<open>DeliveryClaims\<close>: the properties,
      on the nodes of \<^theory_text>\<open>DeliverySamples\<close>.
    \<^item> \<^theory_text>\<open>Attesting\<close>, \<^theory_text>\<open>Anchors\<close>, \<^theory_text>\<open>Ladder\<close>: the rest of \<^verbatim>\<open>identity/src\<close>: attestations and revocations, the
      resolver of domain anchors with its cache, binding proofs, persona links, the ladder of levels (\<open>binding_level\<close>),
      the verifier, and recovery without the seed. \<^theory_text>\<open>LadderLaws\<close>: what a level rests on, and the resolver under
      interleaved requests (\<open>resolver_step\<close>, \<open>resolver_runs\<close>). \<^theory_text>\<open>LadderClaims\<close>: the properties.
    \<^item> \<^theory_text>\<open>JsText\<close>: the operations of ECMAScript on strings, and texts with code units above 255 (\<open>wide\<close>).
    \<^item> \<^verbatim>\<open>executors/src\<close>, entire: \<^theory_text>\<open>Capabilities\<close> (paths and globs, \<^verbatim>\<open>capabilities.ts\<close>), \<^theory_text>\<open>Diffs\<close> (\<^verbatim>\<open>diff.ts\<close>), \<^theory_text>\<open>Trust\<close>
      (\<^verbatim>\<open>trust/gradient.ts\<close>, \<^verbatim>\<open>trust/store.ts\<close>), \<^theory_text>\<open>Workspaces\<close> (\<^verbatim>\<open>workspace.ts\<close>), \<^theory_text>\<open>ExecClasses\<close> (\<^verbatim>\<open>executor.ts\<close>, \<^verbatim>\<open>registry.ts\<close>, the
      three classes), \<^theory_text>\<open>Executors\<close> (\<^verbatim>\<open>sandbox/\<close>, \<^verbatim>\<open>artifact.ts\<close>: \<open>sandbox_main\<close> runs in the sandbox, \<open>run_executor\<close> around
      it). \<^theory_text>\<open>Patches\<close> reads a diff back and applies it. \<^theory_text>\<open>ExecLaws\<close>: what the re-validation lets through;
      \<^theory_text>\<open>ExecClassLaws\<close>: what the classes do to a file. \<^theory_text>\<open>ExecClaims\<close>: the properties, on the repository of
      \<^theory_text>\<open>ExecSamples\<close>.
    \<^item> \<^theory_text>\<open>Envelopes\<close>: \<^verbatim>\<open>types/src/envelope.ts\<close> and \<^verbatim>\<open>envelope/src\<close>, entire: the observation a connector hands over, brought
      inside the bounds (\<open>bound\<close>), sealed (\<open>seal_envelope\<close>) and accepted (\<open>accept_envelope\<close>). \<^theory_text>\<open>EnvelopeLaws\<close>: cutting
      a text, bounding a payload, the size of a canonical form. \<^theory_text>\<open>EnvelopeClaims\<close>: the properties.
    \<^item> \<^theory_text>\<open>CanonicalText\<close>: the canonical form determines the value (\<open>sorted_json\<close> is the value with its members in order).
    \<^item> \<^theory_text>\<open>Adapters\<close>: \<^verbatim>\<open>adapters/src\<close>, entire: the grammar of evidence references, the adapters \<open>ci_observe\<close>, \<open>git_observe\<close> and
      \<open>file_observe\<close>, bundles (\<open>bundle_json\<close>) and \<open>verify_commitment\<close>. \<^theory_text>\<open>AdapterLaws\<close>, \<^theory_text>\<open>AdapterClaims\<close>: the properties.
    \<^item> \<^theory_text>\<open>Gestures\<close>: \<^verbatim>\<open>gestures/src\<close>: the words of a message scrubbed (\<open>quote_text\<close>), what a reaction on them resolves to
      (\<open>resolve_reaction\<close>), the cards of a meeting and of the queue, and the tool call behind a tap (\<open>run_intent\<close>), run on the
      node through \<open>client_of_node\<close>. \<^theory_text>\<open>GestureClaims\<close>: the properties.

  \<^bold>\<open>How state corresponds.\<close> A \<open>vault\<close> is the opened content of the vault's directory tree: files are encrypted
  at rest and read back exactly as they were sealed, so a file is its content. A \<open>node\<close> is a vault and a
  local store. An operation of the node is a function from a state to a result and the state where it
  stopped; a thrown exception is \<open>Inl\<close> and keeps the writes made before it, since nothing in the source
  rolls back. Reads of the clock are numbered by call site (\<open>clk n\<close> is the \<open>n\<close>-th \<open>this.now()\<close> of the call);
  the reads of the register and of a reconciliation take one instant, which is what
  \<open>openLoops\<close> (\<open>asOf\<close>) and \<open>vault.now()\<close> give them.

  \<^bold>\<open>What is a parameter.\<close> SHA-256 and Ed25519 come from a third-party package: they are the two fields and
  the verifier of \<open>crypto_lib\<close>. No theorem assumes that they are secure: where a collision or a forgery
  matters the theorem says so, as an alternative in the conclusion or by speaking of signatures that
  verify. \<open>signs_for\<close> (a private key whose signatures its public key verifies) is the one documented law
  of Ed25519 used, \<open>length (lib_sha256 cl bs) = 32\<close> the one of SHA-256; \<^theory_text>\<open>Samples\<close> has a library that meets
  both. \<^verbatim>\<open>JSON.parse\<close> and the URL parser of an anchor or a binding proof are the fields of
  \<open>web_lib\<close>, and the answers of the web and the DNS those of \<open>anchor_transport\<close>. The couriers of a federated node are a record of what each answers at each of its calls, and the calls made are kept
  in the state; the wording of exceptions is a function of the configuration, and the sentences of
  \<open>explainDelivery\<close> are values. \<^verbatim>\<open>localeCompare\<close>, which orders the ties of the register, is the field
  \<open>nc_collate\<close> of the node's configuration: the host's collation, of which only \<open>pages_partition_the_register\<close> asks anything. The process that runs an executor is any function from requests to responses, and \<open>sandbox_main\<close> the
  one that really runs; the file system it is given a part of is a tree.
  What an adapter asks of files and of git is the record \<open>world\<close>. Retention takes the function that resolves when an edge ended, as in the source, and a theorem
  about it states what it needs of that function.

  \<^bold>\<open>Bounds.\<close> Canonicalization stops at a nesting of 256, as the source does (\<open>canonicalize_iff_shallow\<close> shows
  that it succeeds exactly below); a chain of rotations at 32. Both are the source's bounds and no fuel of the model.
  \<open>walk_pages\<close>, the reader who follows cursors, takes the number of calls as its argument, and
  \<open>pages_partition_the_register\<close> holds from the length of the register on. The vault
  numbers the assertions of a chain with four digits, so that chains longer than 10,000 are read back out
  of order (\<open>long_chains_sort_out_of_order\<close>); theorems over a chain's files assume a chain within that
  bound (\<open>small\<close>, \<open>roomy\<close>, \<open>chain_room\<close>).

  \<^bold>\<open>Modelling choices.\<close> A string is a list of code units below 256. JSON numbers are integers (the protocol
  signs no other) and stand for the safe ones, below \<open>2 ^ 53\<close> in absolute value: beyond them a \<open>JNum\<close> is no value of the source. Ranking scores are exact rationals, \<open>number\<close> in the source. Keys, hashes and identifiers
  are texts, as in the source, and the checks on them (\<open>hex64\<close>, \<open>hex_id\<close>) are made where the source
  makes them. What other nodes send (messages, payloads, recovery proofs, inbox records) arrives as a JSON value and is
  parsed with the schemas of the source. Cursors and the vault's own records arrive decoded: of their schemas
  the refinements that carry meaning are modelled (timestamps, durations, keys, the pairing of acts and
  tools). A merged object keeps its members in the order the source gives them. The inbox reads the clock
  once per message; its proposal budget travels with the result. A gesture card's client is the node itself: the
  input schemas of its surface (lengths of texts), which would only refuse more, are not in between.

  \<^bold>\<open>What the lemma groups show.\<close> The chain theories: no party can open, close, release, supersede or expire an
  edge except along the table and with the signatures it asks for; a stored chain stays valid as
  time passes; what was discarded leaves no trace; where two nodes may disagree about concurrent exits. The vault
  theories: identifiers bind bodies, chains only grow, personas do not see each other's writes. The node theories: what a
  tool call may write and that nothing else moves, that an act the register offers is accepted from a persona that
  can sign, that every call keeps chains valid. The wire theories: what a signature and a hash bind. The sharing theories:
  who may learn of an edge, that reconciliation stores what the table takes of an answer, no more and no less, and when one round is enough. The inbox
  theories: that a message without authority changes nothing, that an edge appears only when its
  owner proposes it, that a committed promise arrives, once; where the inbox stores what the table never
  judged. Addressing and recovery: who directs a persona's mail, who is answered, and when a lost vault
  comes back. The delivery theories: no recipient holds up another, \<open>sent\<close> and \<open>acknowledged\<close> are
  earned, what a node tells and to whom, and what a second push does. The ladder theories: what a name
  and a level rest on, that the node and the ladder grade alike, and what a cached anchor is worth. The
  executor theories: that a run stays in the world of its class whatever the sandbox answers, that the sandbox and
  the host agree, which paths are accepted and as what, that a diff is minimal and can be applied, that trust counts its own reviews, and what the
  dead-code class removes. The envelope theories: when an observation is marked as cut, when it is sealed, and when
  what is sealed is accepted elsewhere. The adapter theories: what verification may ask of the machine, what a bundle
  reports, and that an evidence hash stands for one bundle.

  \<^bold>\<open>Not modelled, and why.\<close> The encryption at rest, the key derivation from a mnemonic, HPKE sealing and content
  keys (third-party ciphers with little logic of the repository's own); the file system, git and hub
  transports, the HTTP surface and the command line (input and output); the web and
  terminal clients, brief mails, connectors, the rendering of gesture cards and extraction prompts (clients of
  the node surface modelled here).
\<close>

end
